(* ===== verification/Go_Prelude.thy ===== *)
theory Go_Prelude
  imports Main "HOL-Library.DAList" "HOL-Library.List_Lexorder" "HOL-Library.Char_ord"
    "HOL-Library.Sublist"
begin

text \<open>
  The vocabulary every component of the model shares.

  A Go \<open>map[K]V\<close> is an association list with distinct keys (\<open>DAList.alist\<close>): lookups and
  updates depend on the keys only, and the list order stands for one of the iteration orders
  the language allows. A theorem over all such lists therefore holds for every order in which
  \<open>range\<close> may visit the map. A Go string is a list of bytes, compared byte by byte
  (\<open>List_Lexorder\<close> over \<open>Char_ord\<close>). A \<open>time.Time\<close> is the number of nanoseconds since the zero
  time, so \<open>IsZero\<close> is \<open>t = 0\<close>, \<open>After\<close> is \<open>>\<close> and \<open>Before\<close> is \<open><\<close>.
\<close>

section \<open>Collections of facts\<close>

named_theorems map_facts "how the map operations act on lookups and entries"
named_theorems inv_intros "introduction rules for component invariants"

section \<open>Go maps\<close>

type_synonym ('k, 'v) gomap = "('k, 'v) DAList.alist"

abbreviation mempty :: "('k, 'v) gomap" where "mempty \<equiv> DAList.empty"
abbreviation mget :: "('k, 'v) gomap \<Rightarrow> 'k \<Rightarrow> 'v option" where "mget \<equiv> DAList.lookup"
abbreviation mput :: "'k \<Rightarrow> 'v \<Rightarrow> ('k, 'v) gomap \<Rightarrow> ('k, 'v) gomap" where "mput \<equiv> DAList.update"
abbreviation mdel :: "'k \<Rightarrow> ('k, 'v) gomap \<Rightarrow> ('k, 'v) gomap" where "mdel \<equiv> DAList.delete"
abbreviation mentries :: "('k, 'v) gomap \<Rightarrow> ('k \<times> 'v) list" where "mentries \<equiv> DAList.impl_of"
abbreviation mfilter where "mfilter keep (m :: ('k, 'v) gomap) \<equiv> DAList.filter keep m"

definition mvals :: "('k, 'v) gomap \<Rightarrow> 'v list" where
  "mvals m = map snd (mentries m)"

definition mkeys :: "('k, 'v) gomap \<Rightarrow> 'k list" where
  "mkeys m = map fst (mentries m)"

definition mlen :: "('k, 'v) gomap \<Rightarrow> nat" where
  "mlen m = length (mentries m)"

definition mhas :: "('k, 'v) gomap \<Rightarrow> 'k \<Rightarrow> bool" where
  "mhas m k = (mget m k \<noteq> None)"

text \<open>Indexing a Go map with an absent key yields the zero value of the element type.\<close>

definition mget0 :: "'v \<Rightarrow> ('k, 'v) gomap \<Rightarrow> 'k \<Rightarrow> 'v" where
  "mget0 z m k = (case mget m k of None \<Rightarrow> z | Some v \<Rightarrow> v)"

text \<open>A \<open>range\<close> loop that assigns a new value to every key it visits.\<close>

lift_definition mmap :: "('k \<Rightarrow> 'v \<Rightarrow> 'v) \<Rightarrow> ('k, 'v) gomap \<Rightarrow> ('k, 'v) gomap"
  is "\<lambda>f. map (\<lambda>(k, v). (k, f k v))"
  by (simp add: comp_def case_prod_beta)

subsection \<open>Lookups and entries\<close>

lemma mget_entries: "mget m k = map_of (mentries m) k"
  by (simp add: DAList.lookup.rep_eq)

lemma mem_entries [map_facts]: "(k, v) \<in> set (mentries m) \<longleftrightarrow> mget m k = Some v"
  by (simp add: mget_entries)

lemma mentries_empty [simp]: "mentries mempty = []"
  by (rule DAList.empty.rep_eq)

lemma mentries_put [simp]: "mentries (mput k v m) = AList.update k v (mentries m)"
  by (rule DAList.update.rep_eq)

lemma mentries_del [simp]: "mentries (mdel k m) = AList.delete k (mentries m)"
  by (rule DAList.delete.rep_eq)

lemma mentries_filter [simp]: "mentries (mfilter P m) = filter P (mentries m)"
  by (rule DAList.filter.rep_eq)

lemma mentries_mmap [simp]: "mentries (mmap f m) = map (\<lambda>(k, v). (k, f k v)) (mentries m)"
  by (rule mmap.rep_eq)

lemma mget_put: "mget (mput k v m) k' = (if k' = k then Some v else mget m k')"
  by (simp add: DAList.lookup_update)

lemma mget_put_fun [simp]: "mget (mput k v m) = (mget m)(k := Some v)"
  by (auto simp: mget_put)

lemma map_of_filter_distinct:
  assumes "distinct (map fst es)"
  shows "map_of (filter Q es) q = Option.bind (map_of es q) (\<lambda>x. if Q (q, x) then Some x else None)"
  using assms
proof (induction es)
  case (Cons e es)
  moreover have "q \<notin> fst ` set es \<Longrightarrow> map_of es q = None"
    by (simp add: map_of_eq_None_iff)
  ultimately show ?case by (cases e) auto
qed simp

lemma mget_filter: "mget (mfilter P m) k =
    (case mget m k of None \<Rightarrow> None | Some v \<Rightarrow> if P (k, v) then Some v else None)"
  by (simp add: mget_entries map_of_filter_distinct split: option.split)

lemma map_of_map_values:
  "map_of (map (case_prod (\<lambda>q x. (q, g q x))) es) q = Option.bind (map_of es q) (Some \<circ> g q)"
  by (induction es) auto

lemma mget_mmap [simp]: "mget (mmap f m) k = map_option (f k) (mget m k)"
  by (cases "map_of (mentries m) k") (simp_all add: mget_entries map_of_map_values)

lemma in_mvals [map_facts]: "v \<in> set (mvals m) \<longleftrightarrow> (\<exists>k. mget m k = Some v)"
  unfolding mvals_def by (force simp flip: mem_entries)

lemma in_mkeys [map_facts]: "k \<in> set (mkeys m) \<longleftrightarrow> (\<exists>v. mget m k = Some v)"
  unfolding mkeys_def by (force simp flip: mem_entries)

lemma distinct_mkeys [simp]: "distinct (mkeys m)"
  by (simp add: mkeys_def)

lemma distinct_mentries [simp]: "distinct (mentries m)"
  using distinct_map[of fst "mentries m"] by simp

lemma mget0_put [simp]: "mget0 z (mput k v m) k' = (if k' = k then v else mget0 z m k')"
  by (simp add: mget0_def)

lemma mget0_del [simp]: "mget0 z (mdel k m) k' = (if k' = k then z else mget0 z m k')"
  by (simp add: mget0_def)

lemma mhas_put [simp]: "mhas (mput k v m) k' = (k' = k \<or> mhas m k')"
  by (simp add: mhas_def)

lemma mhas_del [simp]: "mhas (mdel k m) k' = (k' \<noteq> k \<and> mhas m k')"
  by (simp add: mhas_def)

lemma mhas_empty [simp]: "\<not> mhas mempty k"
  by (simp add: mhas_def)

lemma mget0_empty [simp]: "mget0 z mempty k = z"
  by (simp add: mget0_def)

lemma AList_delete_update: "AList.delete k (AList.update k v xs) = AList.delete k xs"
  by (induction xs) auto

text \<open>Inserting a fresh key and deleting it again restores the map, order included.\<close>

lemma mdel_mput_fresh: "mget m k = None \<Longrightarrow> mdel k (mput k v m) = m"
  by (rule DAList.alist_ext)
    (simp add: AList_delete_update mget_entries map_of_eq_None_iff delete_id)

subsection \<open>Counting entries\<close>

text \<open>
  The model's counters (leases per revision, admissions per namespace) are compared with
  the number of entries of a map that satisfy a predicate.
\<close>

definition mcount :: "('k \<Rightarrow> 'v \<Rightarrow> bool) \<Rightarrow> ('k, 'v) gomap \<Rightarrow> nat" where
  "mcount P m = length (filter (\<lambda>(k, v). P k v) (mentries m))"

lemma mcount_card: "mcount P m = card {k. \<exists>v. mget m k = Some v \<and> P k v}"
proof -
  let ?xs = "filter (\<lambda>(k, v). P k v) (mentries m)"
  have d: "distinct (map fst ?xs)"
    by (rule distinct_map_filter) simp
  have "set (map fst ?xs) = {k. \<exists>v. mget m k = Some v \<and> P k v}"
    by (force simp: mem_entries)
  then show ?thesis
    using distinct_card[OF d] by (simp add: mcount_def)
qed

lemma finite_mdom [simp]: "finite {k. \<exists>v. mget m k = Some v \<and> P k v}"
proof -
  have "{k. \<exists>v. mget m k = Some v \<and> P k v} \<subseteq> fst ` set (mentries m)"
    by (force simp flip: mem_entries)
  then show ?thesis by (rule finite_subset) simp
qed

lemma mcount_empty [simp]: "mcount P mempty = 0"
  by (simp add: mcount_def)

lemma mcount_put: "mcount P (mput k v m) =
    mcount P (mdel k m) + (if P k v then 1 else 0)"
proof -
  let ?A = "{k'. \<exists>v'. mget (mput k v m) k' = Some v' \<and> P k' v'}"
  let ?B = "{k'. \<exists>v'. mget (mdel k m) k' = Some v' \<and> P k' v'}"
  have "k \<notin> ?B" by simp
  moreover have "?A = (if P k v then insert k ?B else ?B)"
    by (auto split: if_splits)
  moreover have "finite ?B" by (rule finite_mdom)
  ultimately show ?thesis by (simp only: mcount_card) simp
qed

lemma mcount_del: "mcount P (mdel k m) =
    mcount P m - (case mget m k of Some v \<Rightarrow> if P k v then 1 else 0 | None \<Rightarrow> 0)"
proof -
  let ?A = "{k'. \<exists>v'. mget m k' = Some v' \<and> P k' v'}"
  let ?B = "{k'. \<exists>v'. mget (mdel k m) k' = Some v' \<and> P k' v'}"
  have "?B = ?A - {k}" by (auto split: if_splits)
  moreover have "k \<in> ?A \<longleftrightarrow> (case mget m k of Some v \<Rightarrow> P k v | None \<Rightarrow> False)"
    by (auto split: option.splits)
  ultimately show ?thesis
    by (simp only: mcount_card) (auto split: option.splits)
qed

lemma mcount_pos: "mget m k = Some v \<Longrightarrow> P k v \<Longrightarrow> 0 < mcount P m"
  by (simp only: mcount_card card_gt_0_iff finite_mdom) auto

lemma mcount_zero_iff: "mcount P m = 0 \<longleftrightarrow> (\<forall>k v. mget m k = Some v \<longrightarrow> \<not> P k v)"
  by (auto simp: mcount_def filter_empty_conv mem_entries)

lemma mcount_cong:
  assumes "\<And>k v. mget m k = Some v \<Longrightarrow> P k v = Q k v"
  shows "mcount P m = mcount Q m"
  unfolding mcount_def using assms
  by (intro arg_cong[of _ _ length] filter_cong) (auto simp: mem_entries)

lemma mcount_le_mlen: "mcount P m \<le> mlen m"
  by (simp add: mcount_def mlen_def)

lemma mlen_mcount: "mlen m = mcount (\<lambda>_ _. True) m"
  by (simp add: mcount_def mlen_def)

section \<open>Time and strings\<close>

type_synonym time = int

text \<open>\<open>time.Second\<close> as a \<open>time.Duration\<close>, in nanoseconds.\<close>

definition second :: int where "second = 1000000000"

definition minTime :: "time \<Rightarrow> time \<Rightarrow> time" where
  "minTime a b = (if a < b then a else b)"

lemma minTime_min: "minTime a b = min a b"
  by (simp add: minTime_def min_def)

definition hasPrefix :: "string \<Rightarrow> string \<Rightarrow> bool" where
  "hasPrefix s p = prefix p s"

end
