(* ===== verification/Go_Errors.thy ===== *)
theory Go_Errors
  imports Go_Prelude
begin

text \<open>
  The sentinel errors of package \<open>nanoflare\<close>, by the names the package gives them, and the
  result type every fallible operation of the model returns. \<open>errors.New(msg)\<close> is \<open>Err msg\<close>;
  the messages of the sentinels are pairwise distinct, so comparing messages is comparing
  sentinels. \<open>fmt.Errorf("...: %w", err)\<close> is \<open>ErrWrapped err msg\<close>; a \<open>UsageLimitError\<close> is \<open>ErrUsageLimit level resource limit\<close>, the three values its message is
  formatted from.
\<close>

datatype error =
    Err string
  | ErrUsageLimit string string int
  | ErrWrapped error string

abbreviation ErrText :: "string \<Rightarrow> error" where "ErrText \<equiv> Err"

abbreviation ErrArtifactNotFound :: error where
  "ErrArtifactNotFound \<equiv> Err ''deployment artifact not found''"
abbreviation ErrArtifactConflict :: error where
  "ErrArtifactConflict \<equiv> Err ''immutable deployment artifact already exists with different content''"
abbreviation ErrPublicationFailed :: error where
  "ErrPublicationFailed \<equiv> Err ''publication failed; use a new idempotency key for a new attempt''"
abbreviation ErrAssetUploadUnavailable :: error where
  "ErrAssetUploadUnavailable \<equiv> Err ''asset upload session is unavailable or expired''"
abbreviation ErrInvalidCredentials :: error where
  "ErrInvalidCredentials \<equiv> Err ''invalid email or password''"
abbreviation ErrInviteNotFound :: error where
  "ErrInviteNotFound \<equiv> Err ''invite not found''"
abbreviation ErrInviteExpired :: error where
  "ErrInviteExpired \<equiv> Err ''invite has expired''"
abbreviation ErrInviteUsed :: error where
  "ErrInviteUsed \<equiv> Err ''invite has already been accepted''"
abbreviation ErrInviteRevoked :: error where
  "ErrInviteRevoked \<equiv> Err ''invite has been revoked''"
abbreviation ErrInviteEmailMismatch :: error where
  "ErrInviteEmailMismatch \<equiv> Err ''signed-in user email does not match invite''"
abbreviation ErrLastOwner :: error where
  "ErrLastOwner \<equiv> Err ''organization must keep at least one owner''"
abbreviation ErrDispatchDepth :: error where
  "ErrDispatchDepth \<equiv> Err ''dispatch call depth limit exceeded''"
abbreviation ErrDispatchUnavailable :: error where
  "ErrDispatchUnavailable \<equiv> Err ''private dynamic dispatch is disabled''"
abbreviation ErrInvocationExpired :: error where
  "ErrInvocationExpired \<equiv> Err ''invocation expired or revoked''"
abbreviation ErrDispatchOverloaded :: error where
  "ErrDispatchOverloaded \<equiv> Err ''dispatch admission limit reached''"
abbreviation ErrSubrequestLimit :: error where
  "ErrSubrequestLimit \<equiv> Err ''invocation subrequest limit exceeded''"
abbreviation ErrExecutionRetired :: error where
  "ErrExecutionRetired \<equiv> Err ''execution is not accepting admissions''"
abbreviation ErrUsageLimitExceeded :: error where
  "ErrUsageLimitExceeded \<equiv> Err ''usage limit exceeded''"
abbreviation ErrManagementConflict :: error where
  "ErrManagementConflict \<equiv> Err ''script management revision changed''"
abbreviation ErrNamespaceDeletionConflict :: error where
  "ErrNamespaceDeletionConflict \<equiv> Err ''namespace deletion selection changed''"
abbreviation ErrOAuthClientNotFound :: error where
  "ErrOAuthClientNotFound \<equiv> Err ''oauth client not found''"
abbreviation ErrOAuthTokenNotFound :: error where
  "ErrOAuthTokenNotFound \<equiv> Err ''oauth token not found''"
abbreviation ErrOAuthInvalidGrant :: error where
  "ErrOAuthInvalidGrant \<equiv> Err ''invalid oauth grant''"
abbreviation ErrOAuthInvalidScope :: error where
  "ErrOAuthInvalidScope \<equiv> Err ''invalid oauth scope''"
abbreviation ErrTelemetryQuery :: error where
  "ErrTelemetryQuery \<equiv> Err ''invalid telemetry query''"
abbreviation ErrTelemetryQuota :: error where
  "ErrTelemetryQuota \<equiv> Err ''telemetry query admission limit reached''"
abbreviation ErrPartnerIntegrationNotFound :: error where
  "ErrPartnerIntegrationNotFound \<equiv> Err ''partner integration not found''"
abbreviation ErrPartnerIntegrationExists :: error where
  "ErrPartnerIntegrationExists \<equiv> Err ''partner integration already exists''"
abbreviation ErrPartnerConnectionNotFound :: error where
  "ErrPartnerConnectionNotFound \<equiv> Err ''partner connection not found''"
abbreviation ErrDispatchNamespaceNotFound :: error where
  "ErrDispatchNamespaceNotFound \<equiv> Err ''dispatch namespace not found''"
abbreviation ErrDispatchNamespaceExists :: error where
  "ErrDispatchNamespaceExists \<equiv> Err ''dispatch namespace or script name already exists''"
abbreviation ErrDispatchNamespaceInUse :: error where
  "ErrDispatchNamespaceInUse \<equiv> Err ''dispatch namespace still has scripts or resource grants''"
abbreviation ErrNamespacePolicyConflict :: error where
  "ErrNamespacePolicyConflict \<equiv> Err ''namespace policy revision changed''"
abbreviation ErrNamespaceGrantDenied :: error where
  "ErrNamespaceGrantDenied \<equiv> Err ''namespace resource grant denied''"
abbreviation ErrUnsupportedExecutionProfile :: error where
  "ErrUnsupportedExecutionProfile \<equiv> Err ''only trusted execution is currently available''"
abbreviation ErrAmbiguousService :: error where
  "ErrAmbiguousService \<equiv> Err ''ambiguous legacy service name; use an immutable Worker ID''"
abbreviation ErrActiveBindingsChanged :: error where
  "ErrActiveBindingsChanged \<equiv> Err ''active deployment bindings changed; retry deployment''"
abbreviation ErrRuntimeGrantDenied :: error where
  "ErrRuntimeGrantDenied \<equiv> Err ''runtime capability does not permit this operation''"
abbreviation ErrSQLPolicy :: error where
  "ErrSQLPolicy \<equiv> Err ''SQL operation is unavailable under the database isolation policy''"
abbreviation ErrAppExists :: error where
  "ErrAppExists \<equiv> Err ''app already exists''"
abbreviation ErrAppNotFound :: error where
  "ErrAppNotFound \<equiv> Err ''app not found''"
abbreviation ErrInvalidVarsUpdate :: error where
  "ErrInvalidVarsUpdate \<equiv> Err ''invalid vars update''"
abbreviation ErrDeploymentConflict :: error where
  "ErrDeploymentConflict \<equiv> Err ''expected deployment is not the sole active deployment at 100% traffic''"
abbreviation ErrIdempotencyConflict :: error where
  "ErrIdempotencyConflict \<equiv> Err ''idempotency key was already used for another request''"
abbreviation ErrVarsRolloutFailed :: error where
  "ErrVarsRolloutFailed \<equiv> Err ''vars rollout failed; use a new idempotency key to retry''"
abbreviation ErrInvalidAppUpdate :: error where
  "ErrInvalidAppUpdate \<equiv> Err ''invalid worker update''"
abbreviation ErrInvalidCapability :: error where
  "ErrInvalidCapability \<equiv> Err ''invalid runtime capability''"
abbreviation ErrObjectNotFound :: error where
  "ErrObjectNotFound \<equiv> Err ''object not found''"
abbreviation ErrKVNamespaceExists :: error where
  "ErrKVNamespaceExists \<equiv> Err ''kv namespace already exists''"
abbreviation ErrKVNamespaceNotFound :: error where
  "ErrKVNamespaceNotFound \<equiv> Err ''kv namespace not found''"
abbreviation ErrKVNamespaceInUse :: error where
  "ErrKVNamespaceInUse \<equiv> Err ''kv namespace is still referenced by a deployment''"
abbreviation ErrKVNamespaceNotBound :: error where
  "ErrKVNamespaceNotBound \<equiv> Err ''kv namespace is not bound by the app's active deployment''"
abbreviation ErrInvalidKVCursor :: error where
  "ErrInvalidKVCursor \<equiv> Err ''invalid KV list cursor''"
abbreviation ErrDatabaseExists :: error where
  "ErrDatabaseExists \<equiv> Err ''database already exists''"
abbreviation ErrDatabaseNotFound :: error where
  "ErrDatabaseNotFound \<equiv> Err ''database not found''"
abbreviation ErrDatabaseInUse :: error where
  "ErrDatabaseInUse \<equiv> Err ''database is still referenced by a deployment''"
abbreviation ErrDatabaseNotBound :: error where
  "ErrDatabaseNotBound \<equiv> Err ''database is not bound by the app's active deployment''"
abbreviation ErrObjectStorageBucketExists :: error where
  "ErrObjectStorageBucketExists \<equiv> Err ''object storage bucket already exists''"
abbreviation ErrObjectStorageBucketNotFound :: error where
  "ErrObjectStorageBucketNotFound \<equiv> Err ''object storage bucket not found''"
abbreviation ErrObjectStorageBucketInUse :: error where
  "ErrObjectStorageBucketInUse \<equiv> Err ''object storage bucket is still referenced by a deployment''"
abbreviation ErrObjectStorageBucketNotBound :: error where
  "ErrObjectStorageBucketNotBound \<equiv> Err ''object storage bucket is not bound by the app's active deployment''"
abbreviation ErrSecretNotFound :: error where
  "ErrSecretNotFound \<equiv> Err ''secret not found''"
abbreviation ErrUserExists :: error where
  "ErrUserExists \<equiv> Err ''user already exists''"
abbreviation ErrUserNotFound :: error where
  "ErrUserNotFound \<equiv> Err ''user not found''"
abbreviation ErrOIDCIdentityExists :: error where
  "ErrOIDCIdentityExists \<equiv> Err ''oidc identity already exists''"
abbreviation ErrOIDCIdentityNotFound :: error where
  "ErrOIDCIdentityNotFound \<equiv> Err ''oidc identity not found''"
abbreviation ErrControlRefreshTokenNotFound :: error where
  "ErrControlRefreshTokenNotFound \<equiv> Err ''control refresh token not found''"
abbreviation ErrPersonalAccessTokenNotFound :: error where
  "ErrPersonalAccessTokenNotFound \<equiv> Err ''personal access token not found''"
abbreviation ErrOrganizationExists :: error where
  "ErrOrganizationExists \<equiv> Err ''organization already exists''"
abbreviation ErrOrganizationNotFound :: error where
  "ErrOrganizationNotFound \<equiv> Err ''organization not found''"
abbreviation ErrMembershipNotFound :: error where
  "ErrMembershipNotFound \<equiv> Err ''user is not a member of the organization''"

type_synonym 'a result = "error + 'a"

text \<open>\<open>errors.Is(err, target)\<close>: the chain of wrapped errors is searched.\<close>

fun errorsIs :: "error \<Rightarrow> error \<Rightarrow> bool" where
  "errorsIs (ErrWrapped e m) target = (ErrWrapped e m = target \<or> errorsIs e target)"
| "errorsIs (ErrUsageLimit l r n) target =
     (ErrUsageLimit l r n = target \<or> target = ErrUsageLimitExceeded)"
| "errorsIs (Err m) target = (Err m = target)"

text \<open>Sequencing of fallible calls: the first error is returned.\<close>

definition rbind :: "'a result \<Rightarrow> ('a \<Rightarrow> 'b result) \<Rightarrow> 'b result" where
  "rbind r f = (case r of Inl e \<Rightarrow> Inl e | Inr a \<Rightarrow> f a)"

lemma rbind_simps [simp]:
  "rbind (Inl e) f = Inl e"
  "rbind (Inr a) f = f a"
  by (simp_all add: rbind_def)

lemma rbind_Inr_iff: "rbind r f = Inr b \<longleftrightarrow> (\<exists>a. r = Inr a \<and> f a = Inr b)"
  by (cases r) auto

lemma rbind_Inl_iff: "rbind r f = Inl e \<longleftrightarrow> r = Inl e \<or> (\<exists>a. r = Inr a \<and> f a = Inl e)"
  by (cases r) auto

text \<open>A guard of the source: \<open>if cond { return err }\<close>.\<close>

definition guard :: "bool \<Rightarrow> error \<Rightarrow> unit result" where
  "guard ok e = (if ok then Inr () else Inl e)"

lemma guard_Inr [simp]: "guard ok e = Inr u \<longleftrightarrow> ok"
  by (simp add: guard_def)

lemma guard_Inl [simp]: "guard ok e = Inl e' \<longleftrightarrow> \<not> ok \<and> e' = e"
  by (auto simp: guard_def)

end
