(* ===== verification/Model_Core.thy ===== *)
theory Model_Core
  imports Go_Errors Complex_Main
begin

text \<open>
  The data of workers, deployments, storage resources and publications: one record per Go
  struct of \<open>model.go\<close>, \<open>platform.go\<close>, \<open>dispatch.go\<close>, \<open>artifact.go\<close>, \<open>asset_upload.go\<close>,
  \<open>management.go\<close>, \<open>publication.go\<close> and \<open>worker_publication.go\<close>, with the struct's field
  names behind a short prefix, and \<open>X0\<close> for the zero value \<open>X{}\<close>. A pointer field is an
  \<open>option\<close>; byte slices and raw JSON are byte strings; \<open>float64\<close> is \<open>rat\<close>. An embedded struct
  contributes its fields. Copies made by the \<open>clone...\<close> functions of the source protect the
  store against aliasing through slices and maps; records are values, so the copies are the
  identity here.
\<close>

record AuthConfig =
  Auth_ProtectedRoutes :: "string list"

definition AuthConfig0 :: AuthConfig where
  "AuthConfig0 = \<lparr>Auth_ProtectedRoutes = []\<rparr>"

record WorkerPlatform =
  Platform_Execution :: "string"
  Platform_NamespaceID :: "string"
  Platform_ScriptName :: "string"
  Platform_Kind :: "string"
  Platform_Exposure :: "string"
  Platform_CustomerID :: "string"

definition WorkerPlatform0 :: WorkerPlatform where
  "WorkerPlatform0 = \<lparr>Platform_Execution = [], Platform_NamespaceID = [], Platform_ScriptName = [],
     Platform_Kind = [], Platform_Exposure = [], Platform_CustomerID = []\<rparr>"

record App =
  App_Platform :: "WorkerPlatform option"
  App_ID :: "string"
  App_OrgID :: "string"
  App_Name :: "string"
  App_Hostname :: "string"
  App_Auth :: "AuthConfig"
  App_ExternalID :: "string"
  App_OAuthClientID :: "string"
  App_CreatedBy :: "string"
  App_RuntimeToken :: "string"
  App_SecretValues :: "(string, string) gomap"
  App_CreatedAt :: "time"

definition App0 :: App where
  "App0 = \<lparr>App_Platform = None, App_ID = [], App_OrgID = [], App_Name = [], App_Hostname = [],
     App_Auth = AuthConfig0, App_ExternalID = [], App_OAuthClientID = [],
     App_CreatedBy = [], App_RuntimeToken = [], App_SecretValues = mempty,
     App_CreatedAt = 0\<rparr>"

record WorkerFile =
  File_Name :: "string"
  File_Path :: "string"
  File_Size :: "int"
  File_Content :: "string"
  File_Wasm :: "string option"

definition WorkerFile0 :: WorkerFile where
  "WorkerFile0 = \<lparr>File_Name = [], File_Path = [], File_Size = 0, File_Content = [], File_Wasm = None\<rparr>"

record AssetFile =
  Asset_Path :: "string"
  Asset_Size :: "int"
  Asset_ContentType :: "string"
  Asset_ObjectKey :: "string"
  Asset_Data :: "string"

definition AssetFile0 :: AssetFile where
  "AssetFile0 = \<lparr>Asset_Path = [], Asset_Size = 0, Asset_ContentType = [], Asset_ObjectKey = [],
     Asset_Data = []\<rparr>"

record AssetConfig =
  AssetCfg_Binding :: "string"
  AssetCfg_HTMLHandling :: "string"
  AssetCfg_NotFoundHandling :: "string"
  AssetCfg_RunWorkerFirst :: "string list"

definition AssetConfig0 :: AssetConfig where
  "AssetConfig0 = \<lparr>AssetCfg_Binding = [], AssetCfg_HTMLHandling = [], AssetCfg_NotFoundHandling = [],
     AssetCfg_RunWorkerFirst = []\<rparr>"

record TriggerConfig =
  Trigger_Crons :: "string list"

definition TriggerConfig0 :: TriggerConfig where
  "TriggerConfig0 = \<lparr>Trigger_Crons = []\<rparr>"

record DNSSelection =
  DNS_Profile :: "string"

definition DNSSelection0 :: DNSSelection where
  "DNSSelection0 = \<lparr>DNS_Profile = []\<rparr>"

record KVBinding =
  KVBind_Binding :: "string"
  KVBind_ID :: "string"
  KVBind_PreviewID :: "string"

definition KVBinding0 :: KVBinding where
  "KVBinding0 = \<lparr>KVBind_Binding = [], KVBind_ID = [], KVBind_PreviewID = []\<rparr>"

record DatabaseBinding =
  DBBind_Binding :: "string"
  DBBind_DatabaseID :: "string"

definition DatabaseBinding0 :: DatabaseBinding where
  "DatabaseBinding0 = \<lparr>DBBind_Binding = [], DBBind_DatabaseID = []\<rparr>"

record ObjectStorageBucketBinding =
  ObjBind_Binding :: "string"
  ObjBind_BucketID :: "string"

definition ObjectStorageBucketBinding0 :: ObjectStorageBucketBinding where
  "ObjectStorageBucketBinding0 = \<lparr>ObjBind_Binding = [], ObjBind_BucketID = []\<rparr>"

record ServiceBinding =
  SvcBind_Execution :: "string"
  SvcBind_WorkerID :: "string"
  SvcBind_Binding :: "string"
  SvcBind_Service :: "string"

definition ServiceBinding0 :: ServiceBinding where
  "ServiceBinding0 = \<lparr>SvcBind_Execution = [], SvcBind_WorkerID = [], SvcBind_Binding = [],
     SvcBind_Service = []\<rparr>"

record DispatchBinding =
  DispBind_Binding :: "string"
  DispBind_NamespaceID :: "string"

definition DispatchBinding0 :: DispatchBinding where
  "DispatchBinding0 = \<lparr>DispBind_Binding = [], DispBind_NamespaceID = []\<rparr>"

record Deployment =
  Dep_ID :: "string"
  Dep_AppID :: "string"
  Dep_CommitHash :: "string"
  Dep_CommitMessage :: "string"
  Dep_CreatedBy :: "string"
  Dep_Files :: "WorkerFile list"
  Dep_Assets :: "AssetFile list"
  Dep_Entrypoint :: "string"
  Dep_Format :: "string"
  Dep_CompatibilityDate :: "string"
  Dep_CompatibilityFlags :: "string list"
  Dep_DNS :: "DNSSelection"
  Dep_Triggers :: "TriggerConfig"
  Dep_Vars :: "(string, string) gomap"
  Dep_KVNamespaces :: "KVBinding list"
  Dep_Databases :: "DatabaseBinding list"
  Dep_ObjectStorageBuckets :: "ObjectStorageBucketBinding list"
  Dep_DispatchNamespaces :: "DispatchBinding list"
  Dep_Services :: "ServiceBinding list"
  Dep_AssetConfig :: "AssetConfig"
  Dep_BundleSize :: "int"
  Dep_ObjectKey :: "string"
  Dep_Port :: "int"
  Dep_CreatedAt :: "time"

definition Deployment0 :: Deployment where
  "Deployment0 = \<lparr>Dep_ID = [], Dep_AppID = [], Dep_CommitHash = [], Dep_CommitMessage = [],
     Dep_CreatedBy = [], Dep_Files = [], Dep_Assets = [], Dep_Entrypoint = [],
     Dep_Format = [], Dep_CompatibilityDate = [], Dep_CompatibilityFlags = [],
     Dep_DNS = DNSSelection0, Dep_Triggers = TriggerConfig0, Dep_Vars = mempty,
     Dep_KVNamespaces = [], Dep_Databases = [], Dep_ObjectStorageBuckets = [],
     Dep_DispatchNamespaces = [], Dep_Services = [], Dep_AssetConfig = AssetConfig0,
     Dep_BundleSize = 0, Dep_ObjectKey = [], Dep_Port = 0, Dep_CreatedAt = 0\<rparr>"

record ActiveDeployment =
  Active_RuntimeInstance :: "string"
  Active_SocketPath :: "string"
  Active_App :: "App"
  Active_Deployment :: "Deployment"
  Active_TrafficPercent :: "int"

definition ActiveDeployment0 :: ActiveDeployment where
  "ActiveDeployment0 = \<lparr>Active_RuntimeInstance = [], Active_SocketPath = [], Active_App = App0,
     Active_Deployment = Deployment0, Active_TrafficPercent = 0\<rparr>"

record DeploymentRecord =
  DepRec_App :: "App"
  DepRec_Deployment :: "Deployment"
  DepRec_Active :: "bool"
  DepRec_TrafficPercent :: "int"

definition DeploymentRecord0 :: DeploymentRecord where
  "DeploymentRecord0 = \<lparr>DepRec_App = App0, DepRec_Deployment = Deployment0, DepRec_Active = False,
     DepRec_TrafficPercent = 0\<rparr>"

record DeploymentTraffic =
  Traffic_ID :: "string"
  Traffic_TrafficPercent :: "int"

definition DeploymentTraffic0 :: DeploymentTraffic where
  "DeploymentTraffic0 = \<lparr>Traffic_ID = [], Traffic_TrafficPercent = 0\<rparr>"

record UpdateAppInput =
  UpdApp_Hostname :: "string option"
  UpdApp_Auth :: "AuthConfig option"

definition UpdateAppInput0 :: UpdateAppInput where
  "UpdateAppInput0 = \<lparr>UpdApp_Hostname = None, UpdApp_Auth = None\<rparr>"

record DeployInput =
  DepIn_ExpectedActiveTraffic :: "DeploymentTraffic list option"
  DepIn_IdempotencyKey :: "string"
  DepIn_CommitHash :: "string"
  DepIn_CommitMessage :: "string"
  DepIn_CreatedBy :: "string"
  DepIn_Files :: "WorkerFile list"
  DepIn_Assets :: "AssetFile list"
  DepIn_Entrypoint :: "string"
  DepIn_Format :: "string"
  DepIn_CompatibilityDate :: "string"
  DepIn_CompatibilityFlags :: "string list"
  DepIn_DNS :: "DNSSelection"
  DepIn_Triggers :: "TriggerConfig"
  DepIn_Vars :: "(string, string) gomap"
  DepIn_KVNamespaces :: "KVBinding list"
  DepIn_Databases :: "DatabaseBinding list"
  DepIn_ObjectStorageBuckets :: "ObjectStorageBucketBinding list"
  DepIn_DispatchNamespaces :: "DispatchBinding list"
  DepIn_Services :: "ServiceBinding list"
  DepIn_AssetConfig :: "AssetConfig"

definition DeployInput0 :: DeployInput where
  "DeployInput0 = \<lparr>DepIn_ExpectedActiveTraffic = None, DepIn_IdempotencyKey = [],
     DepIn_CommitHash = [], DepIn_CommitMessage = [], DepIn_CreatedBy = [],
     DepIn_Files = [], DepIn_Assets = [], DepIn_Entrypoint = [], DepIn_Format = [],
     DepIn_CompatibilityDate = [], DepIn_CompatibilityFlags = [],
     DepIn_DNS = DNSSelection0, DepIn_Triggers = TriggerConfig0, DepIn_Vars = mempty,
     DepIn_KVNamespaces = [], DepIn_Databases = [], DepIn_ObjectStorageBuckets = [],
     DepIn_DispatchNamespaces = [], DepIn_Services = [], DepIn_AssetConfig = AssetConfig0\<rparr>"

record VarsUpdateResult =
  VarsRes_ID :: "string"
  VarsRes_BaseDeploymentID :: "string"
  VarsRes_CommitMessage :: "string"
  VarsRes_CreatedBy :: "string"
  VarsRes_CreatedAt :: "time"

definition VarsUpdateResult0 :: VarsUpdateResult where
  "VarsUpdateResult0 = \<lparr>VarsRes_ID = [], VarsRes_BaseDeploymentID = [], VarsRes_CommitMessage = [],
     VarsRes_CreatedBy = [], VarsRes_CreatedAt = 0\<rparr>"

record VarsUpdateOperation =
  VarsOp_AppID :: "string"
  VarsOp_Key :: "string"
  VarsOp_Fingerprint :: "string"
  VarsOp_Status :: "string"
  VarsOp_Result :: "VarsUpdateResult"

definition VarsUpdateOperation0 :: VarsUpdateOperation where
  "VarsUpdateOperation0 = \<lparr>VarsOp_AppID = [], VarsOp_Key = [], VarsOp_Fingerprint = [], VarsOp_Status = [],
     VarsOp_Result = VarsUpdateResult0\<rparr>"

record KVNamespace =
  KVNs_ID :: "string"
  KVNs_OrgID :: "string"
  KVNs_Name :: "string"
  KVNs_ExternalID :: "string"
  KVNs_OAuthClientID :: "string"
  KVNs_CreatedAt :: "time"

definition KVNamespace0 :: KVNamespace where
  "KVNamespace0 = \<lparr>KVNs_ID = [], KVNs_OrgID = [], KVNs_Name = [], KVNs_ExternalID = [],
     KVNs_OAuthClientID = [], KVNs_CreatedAt = 0\<rparr>"

record Database =
  DB_ID :: "string"
  DB_OrgID :: "string"
  DB_Name :: "string"
  DB_CreatedAt :: "time"

definition Database0 :: Database where
  "Database0 = \<lparr>DB_ID = [], DB_OrgID = [], DB_Name = [], DB_CreatedAt = 0\<rparr>"

record ObjectStorageBucket =
  Bucket_ID :: "string"
  Bucket_OrgID :: "string"
  Bucket_Name :: "string"
  Bucket_ExternalID :: "string"
  Bucket_OAuthClientID :: "string"
  Bucket_CreatedAt :: "time"

definition ObjectStorageBucket0 :: ObjectStorageBucket where
  "ObjectStorageBucket0 = \<lparr>Bucket_ID = [], Bucket_OrgID = [], Bucket_Name = [], Bucket_ExternalID = [],
     Bucket_OAuthClientID = [], Bucket_CreatedAt = 0\<rparr>"

record KVNamespaceMetrics =
  KVMet_Available :: "bool"
  KVMet_Reads :: "int"
  KVMet_Writes :: "int"
  KVMet_Size :: "int"

definition KVNamespaceMetrics0 :: KVNamespaceMetrics where
  "KVNamespaceMetrics0 = \<lparr>KVMet_Available = False, KVMet_Reads = 0, KVMet_Writes = 0, KVMet_Size = 0\<rparr>"

record ObjectStorageBucketMetrics =
  ObjMet_Available :: "bool"
  ObjMet_Reads :: "int"
  ObjMet_Writes :: "int"
  ObjMet_Size :: "int"
  ObjMet_ObjectCount :: "int"

definition ObjectStorageBucketMetrics0 :: ObjectStorageBucketMetrics where
  "ObjectStorageBucketMetrics0 = \<lparr>ObjMet_Available = False, ObjMet_Reads = 0, ObjMet_Writes = 0, ObjMet_Size = 0,
     ObjMet_ObjectCount = 0\<rparr>"

record DatabaseMetrics =
  DBMet_Available :: "bool"
  DBMet_Queries :: "int"
  DBMet_ReadQueries :: "int"
  DBMet_WriteQueries :: "int"
  DBMet_RowsRead :: "int"
  DBMet_RowsReturned :: "int"
  DBMet_RowsWritten :: "int"
  DBMet_StorageBytes :: "int"
  DBMet_TableCount :: "int"
  DBMet_TotalDurationMS :: "rat"
  DBMet_P50DurationMS :: "rat"
  DBMet_P99DurationMS :: "rat"
  DBMet_DurationBucket0_5 :: "int"
  DBMet_DurationBucket1 :: "int"
  DBMet_DurationBucket2_5 :: "int"
  DBMet_DurationBucket5 :: "int"
  DBMet_DurationBucket10 :: "int"
  DBMet_DurationBucket25 :: "int"
  DBMet_DurationBucket50 :: "int"
  DBMet_DurationBucket100 :: "int"
  DBMet_DurationBucket250 :: "int"
  DBMet_DurationBucket500 :: "int"
  DBMet_DurationBucket1000 :: "int"
  DBMet_DurationBucketInf :: "int"

definition DatabaseMetrics0 :: DatabaseMetrics where
  "DatabaseMetrics0 = \<lparr>DBMet_Available = False, DBMet_Queries = 0, DBMet_ReadQueries = 0,
     DBMet_WriteQueries = 0, DBMet_RowsRead = 0, DBMet_RowsReturned = 0,
     DBMet_RowsWritten = 0, DBMet_StorageBytes = 0, DBMet_TableCount = 0,
     DBMet_TotalDurationMS = 0, DBMet_P50DurationMS = 0, DBMet_P99DurationMS = 0,
     DBMet_DurationBucket0_5 = 0, DBMet_DurationBucket1 = 0,
     DBMet_DurationBucket2_5 = 0, DBMet_DurationBucket5 = 0, DBMet_DurationBucket10 = 0,
     DBMet_DurationBucket25 = 0, DBMet_DurationBucket50 = 0,
     DBMet_DurationBucket100 = 0, DBMet_DurationBucket250 = 0,
     DBMet_DurationBucket500 = 0, DBMet_DurationBucket1000 = 0,
     DBMet_DurationBucketInf = 0\<rparr>"

record DatabaseQueryMetricsInput =
  DBQuery_DatabaseID :: "string"
  DBQuery_DurationMS :: "rat"
  DBQuery_RowsRead :: "int"
  DBQuery_RowsReturned :: "int"
  DBQuery_RowsWritten :: "int"
  DBQuery_ChangedDB :: "bool"
  DBQuery_SizeAfter :: "int"
  DBQuery_TableCount :: "int"

definition DatabaseQueryMetricsInput0 :: DatabaseQueryMetricsInput where
  "DatabaseQueryMetricsInput0 = \<lparr>DBQuery_DatabaseID = [], DBQuery_DurationMS = 0, DBQuery_RowsRead = 0,
     DBQuery_RowsReturned = 0, DBQuery_RowsWritten = 0, DBQuery_ChangedDB = False,
     DBQuery_SizeAfter = 0, DBQuery_TableCount = 0\<rparr>"

record DatabaseRuntimeStats =
  DBStats_StorageBytes :: "int"
  DBStats_TableCount :: "int"

definition DatabaseRuntimeStats0 :: DatabaseRuntimeStats where
  "DatabaseRuntimeStats0 = \<lparr>DBStats_StorageBytes = 0, DBStats_TableCount = 0\<rparr>"

record WorkerKVKey =
  KVKey_Key :: "string"
  KVKey_Size :: "int"

definition WorkerKVKey0 :: WorkerKVKey where
  "WorkerKVKey0 = \<lparr>KVKey_Key = [], KVKey_Size = 0\<rparr>"

record RuntimeKVPutOptions =
  KVPutOpt_Expiration :: "time option"

definition RuntimeKVPutOptions0 :: RuntimeKVPutOptions where
  "RuntimeKVPutOptions0 = \<lparr>KVPutOpt_Expiration = None\<rparr>"

record RuntimeKVListOptions =
  KVListOpt_Prefix :: "string"
  KVListOpt_Cursor :: "string"
  KVListOpt_Limit :: "int"

definition RuntimeKVListOptions0 :: RuntimeKVListOptions where
  "RuntimeKVListOptions0 = \<lparr>KVListOpt_Prefix = [], KVListOpt_Cursor = [], KVListOpt_Limit = 0\<rparr>"

record RuntimeKVListKey =
  KVListKey_Name :: "string"
  KVListKey_Expiration :: "int option"

definition RuntimeKVListKey0 :: RuntimeKVListKey where
  "RuntimeKVListKey0 = \<lparr>KVListKey_Name = [], KVListKey_Expiration = None\<rparr>"

record RuntimeKVListResult =
  KVListRes_Keys :: "RuntimeKVListKey list"
  KVListRes_ListComplete :: "bool"
  KVListRes_Cursor :: "string"

definition RuntimeKVListResult0 :: RuntimeKVListResult where
  "RuntimeKVListResult0 = \<lparr>KVListRes_Keys = [], KVListRes_ListComplete = False, KVListRes_Cursor = []\<rparr>"

record NamespaceResourceGrant =
  Grant_Kind :: "string"
  Grant_ResourceID :: "string"
  Grant_CustomerID :: "string"

definition NamespaceResourceGrant0 :: NamespaceResourceGrant where
  "NamespaceResourceGrant0 = \<lparr>Grant_Kind = [], Grant_ResourceID = [], Grant_CustomerID = []\<rparr>"

record DispatchNamespace =
  DNs_ID :: "string"
  DNs_OrgID :: "string"
  DNs_Name :: "string"
  DNs_Trust :: "string"
  DNs_CustomerMode :: "string"
  DNs_PolicyRevision :: "int"
  DNs_Grants :: "NamespaceResourceGrant list"
  DNs_CreatedAt :: "time"

definition DispatchNamespace0 :: DispatchNamespace where
  "DispatchNamespace0 = \<lparr>DNs_ID = [], DNs_OrgID = [], DNs_Name = [], DNs_Trust = [], DNs_CustomerMode = [],
     DNs_PolicyRevision = 0, DNs_Grants = [], DNs_CreatedAt = 0\<rparr>"

record NamespacePolicy =
  Policy_NamespaceID :: "string"
  Policy_Revision :: "int"
  Policy_Grants :: "NamespaceResourceGrant list"
  Policy_CreatedAt :: "time"

definition NamespacePolicy0 :: NamespacePolicy where
  "NamespacePolicy0 = \<lparr>Policy_NamespaceID = [], Policy_Revision = 0, Policy_Grants = [],
     Policy_CreatedAt = 0\<rparr>"

record CreateNamespaceScriptInput =
  NewScript_Execution :: "string"
  NewScript_Name :: "string"
  NewScript_ScriptName :: "string"
  NewScript_Kind :: "string"
  NewScript_CustomerID :: "string"

definition CreateNamespaceScriptInput0 :: CreateNamespaceScriptInput where
  "CreateNamespaceScriptInput0 = \<lparr>NewScript_Execution = [], NewScript_Name = [], NewScript_ScriptName = [],
     NewScript_Kind = [], NewScript_CustomerID = []\<rparr>"

record AssetUploadEntry =
  UpEntry_Hash :: "string"
  UpEntry_Size :: "int"

definition AssetUploadEntry0 :: AssetUploadEntry where
  "AssetUploadEntry0 = \<lparr>UpEntry_Hash = [], UpEntry_Size = 0\<rparr>"

record AssetUploadBlob =
  UpBlob_Data :: "string"
  UpBlob_ContentType :: "string"
  UpBlob_Digest :: "string"

definition AssetUploadBlob0 :: AssetUploadBlob where
  "AssetUploadBlob0 = \<lparr>UpBlob_Data = [], UpBlob_ContentType = [], UpBlob_Digest = []\<rparr>"

record AssetUploadSession =
  Upload_ID :: "string"
  Upload_OrgID :: "string"
  Upload_NamespaceID :: "string"
  Upload_ScriptName :: "string"
  Upload_CustomerID :: "string"
  Upload_WorkerID :: "string"
  Upload_Revision :: "int"
  Upload_Manifest :: "(string, AssetUploadEntry) gomap"
  Upload_Blobs :: "(string, AssetUploadBlob) gomap"
  Upload_CreatedAt :: "time"
  Upload_ExpiresAt :: "time"
  Upload_CompletedAt :: "time option"

definition AssetUploadSession0 :: AssetUploadSession where
  "AssetUploadSession0 = \<lparr>Upload_ID = [], Upload_OrgID = [], Upload_NamespaceID = [], Upload_ScriptName = [],
     Upload_CustomerID = [], Upload_WorkerID = [], Upload_Revision = 0,
     Upload_Manifest = mempty, Upload_Blobs = mempty, Upload_CreatedAt = 0,
     Upload_ExpiresAt = 0, Upload_CompletedAt = None\<rparr>"

record ArtifactSecret =
  ArtSecret_Name :: "string"
  ArtSecret_Version :: "string"
  ArtSecret_Nonce :: "string"
  ArtSecret_Ciphertext :: "string"
  ArtSecret_CreatedAt :: "time"
  ArtSecret_UpdatedAt :: "time"

definition ArtifactSecret0 :: ArtifactSecret where
  "ArtifactSecret0 = \<lparr>ArtSecret_Name = [], ArtSecret_Version = [], ArtSecret_Nonce = [],
     ArtSecret_Ciphertext = [], ArtSecret_CreatedAt = 0, ArtSecret_UpdatedAt = 0\<rparr>"

record ScriptManagementMetadata =
  Meta_Bindings :: "string list"
  Meta_Tags :: "string list"

definition ScriptManagementMetadata0 :: ScriptManagementMetadata where
  "ScriptManagementMetadata0 = \<lparr>Meta_Bindings = [], Meta_Tags = []\<rparr>"

record ScriptManagementState =
  Mgmt_WorkerID :: "string"
  Mgmt_OrgID :: "string"
  Mgmt_Revision :: "int"
  Mgmt_DeploymentID :: "string"
  Mgmt_Metadata :: "ScriptManagementMetadata"
  Mgmt_UpdatedAt :: "time"

definition ScriptManagementState0 :: ScriptManagementState where
  "ScriptManagementState0 = \<lparr>Mgmt_WorkerID = [], Mgmt_OrgID = [], Mgmt_Revision = 0, Mgmt_DeploymentID = [],
     Mgmt_Metadata = ScriptManagementMetadata0, Mgmt_UpdatedAt = 0\<rparr>"

record ArtifactManagement =
  ArtMgmt_ExpectedRevision :: "int"
  ArtMgmt_Metadata :: "ScriptManagementMetadata"

definition ArtifactManagement0 :: ArtifactManagement where
  "ArtifactManagement0 = \<lparr>ArtMgmt_ExpectedRevision = 0, ArtMgmt_Metadata = ScriptManagementMetadata0\<rparr>"

record DeploymentArtifact =
  Art_Management :: "ArtifactManagement option"
  Art_Deployment :: "Deployment"
  Art_ObjectKey :: "string"
  Art_BundleSize :: "int"
  Art_Digest :: "string"
  Art_AssetDigests :: "(string, string) gomap"
  Art_Secrets :: "ArtifactSecret list"
  Art_Policy :: "NamespacePolicy option"

definition DeploymentArtifact0 :: DeploymentArtifact where
  "DeploymentArtifact0 = \<lparr>Art_Management = None, Art_Deployment = Deployment0, Art_ObjectKey = [],
     Art_BundleSize = 0, Art_Digest = [], Art_AssetDigests = mempty, Art_Secrets = [],
     Art_Policy = None\<rparr>"

record Publication =
  Pub_RequestIdentity :: "string"
  Pub_AppID :: "string"
  Pub_Key :: "string"
  Pub_Fingerprint :: "string"
  Pub_DeploymentID :: "string"
  Pub_Digest :: "string"
  Pub_Stage :: "string"
  Pub_RuntimeReady :: "bool"
  Pub_TargetTraffic :: "DeploymentTraffic list"
  Pub_ConfigurationOnly :: "bool"
  Pub_PreviousTraffic :: "DeploymentTraffic list"
  Pub_CreatedAt :: "time"
  Pub_UpdatedAt :: "time"

definition Publication0 :: Publication where
  "Publication0 = \<lparr>Pub_RequestIdentity = [], Pub_AppID = [], Pub_Key = [], Pub_Fingerprint = [],
     Pub_DeploymentID = [], Pub_Digest = [], Pub_Stage = [], Pub_RuntimeReady = False,
     Pub_TargetTraffic = [], Pub_ConfigurationOnly = False, Pub_PreviousTraffic = [],
     Pub_CreatedAt = 0, Pub_UpdatedAt = 0\<rparr>"

record WorkerPublication =
  WPub_AppID :: "string"
  WPub_Generation :: "nat"
  WPub_PublishedGeneration :: "nat"
  WPub_Traffic :: "DeploymentTraffic list"

definition WorkerPublication0 :: WorkerPublication where
  "WorkerPublication0 = \<lparr>WPub_AppID = [], WPub_Generation = 0, WPub_PublishedGeneration = 0,
     WPub_Traffic = []\<rparr>"

end
