(* ===== verification/Model_Identity.thy ===== *)
theory Model_Identity
  imports Model_Core
begin

text \<open>
  The data of users, organizations, credentials, OAuth clients and partner connections: one
  record per Go struct, as in \<open>Model_Core\<close>.
\<close>

record SecretRecord =
  Secret_Name :: "string"
  Secret_CreatedAt :: "time"
  Secret_UpdatedAt :: "time"
  Secret_Nonce :: "string"
  Secret_Ciphertext :: "string"

definition SecretRecord0 :: SecretRecord where
  "SecretRecord0 = \<lparr>Secret_Name = [], Secret_CreatedAt = 0, Secret_UpdatedAt = 0, Secret_Nonce = [],
     Secret_Ciphertext = []\<rparr>"

record ControlRefreshToken =
  Refresh_TokenHash :: "string"
  Refresh_UserID :: "string"
  Refresh_ExpiresAt :: "time"
  Refresh_RevokedAt :: "time option"
  Refresh_CreatedAt :: "time"

definition ControlRefreshToken0 :: ControlRefreshToken where
  "ControlRefreshToken0 = \<lparr>Refresh_TokenHash = [], Refresh_UserID = [], Refresh_ExpiresAt = 0,
     Refresh_RevokedAt = None, Refresh_CreatedAt = 0\<rparr>"

record PersonalAccessToken =
  PAT_ID :: "string"
  PAT_Name :: "string"
  PAT_UserID :: "string"
  PAT_OrgID :: "string"
  PAT_ScopeType :: "string"
  PAT_Scopes :: "string list"
  PAT_ExpiresAt :: "time option"
  PAT_LastUsedAt :: "time option"
  PAT_RevokedAt :: "time option"
  PAT_CreatedAt :: "time"
  PAT_TokenHash :: "string"

definition PersonalAccessToken0 :: PersonalAccessToken where
  "PersonalAccessToken0 = \<lparr>PAT_ID = [], PAT_Name = [], PAT_UserID = [], PAT_OrgID = [], PAT_ScopeType = [],
     PAT_Scopes = [], PAT_ExpiresAt = None, PAT_LastUsedAt = None, PAT_RevokedAt = None,
     PAT_CreatedAt = 0, PAT_TokenHash = []\<rparr>"

record User =
  User_ID :: "string"
  User_Email :: "string"
  User_PasswordHash :: "string"
  User_CreatedAt :: "time"

definition User0 :: User where
  "User0 = \<lparr>User_ID = [], User_Email = [], User_PasswordHash = [], User_CreatedAt = 0\<rparr>"

record UserOIDCIdentity =
  Identity_UserID :: "string"
  Identity_Issuer :: "string"
  Identity_Subject :: "string"
  Identity_CreatedAt :: "time"

definition UserOIDCIdentity0 :: UserOIDCIdentity where
  "UserOIDCIdentity0 = \<lparr>Identity_UserID = [], Identity_Issuer = [], Identity_Subject = [],
     Identity_CreatedAt = 0\<rparr>"

record Organization =
  Org_ID :: "string"
  Org_Name :: "string"
  Org_UsageLevel :: "string"
  Org_PartnerIntegrationID :: "string"
  Org_ExternalAccountID :: "string"
  Org_Role :: "string"
  Org_Scopes :: "string list"
  Org_CreatedAt :: "time"

definition Organization0 :: Organization where
  "Organization0 = \<lparr>Org_ID = [], Org_Name = [], Org_UsageLevel = [], Org_PartnerIntegrationID = [],
     Org_ExternalAccountID = [], Org_Role = [], Org_Scopes = [], Org_CreatedAt = 0\<rparr>"

record OrganizationMembership =
  Member_UserID :: "string"
  Member_UserEmail :: "string"
  Member_OrgID :: "string"
  Member_Role :: "string"
  Member_Scopes :: "string list"
  Member_CreatedAt :: "time"

definition OrganizationMembership0 :: OrganizationMembership where
  "OrganizationMembership0 = \<lparr>Member_UserID = [], Member_UserEmail = [], Member_OrgID = [], Member_Role = [],
     Member_Scopes = [], Member_CreatedAt = 0\<rparr>"

record OrganizationInvite =
  Invite_ID :: "string"
  Invite_TokenHash :: "string"
  Invite_OrgID :: "string"
  Invite_OrgName :: "string"
  Invite_Email :: "string"
  Invite_Role :: "string"
  Invite_Scopes :: "string list"
  Invite_InviterID :: "string"
  Invite_InviterEmail :: "string"
  Invite_ExpiresAt :: "time"
  Invite_AcceptedAt :: "time option"
  Invite_RevokedAt :: "time option"
  Invite_CreatedAt :: "time"

definition OrganizationInvite0 :: OrganizationInvite where
  "OrganizationInvite0 = \<lparr>Invite_ID = [], Invite_TokenHash = [], Invite_OrgID = [], Invite_OrgName = [],
     Invite_Email = [], Invite_Role = [], Invite_Scopes = [], Invite_InviterID = [],
     Invite_InviterEmail = [], Invite_ExpiresAt = 0, Invite_AcceptedAt = None,
     Invite_RevokedAt = None, Invite_CreatedAt = 0\<rparr>"

record OAuthClient =
  Client_ID :: "string"
  Client_OwnerOrgID :: "string"
  Client_Name :: "string"
  Client_RedirectURIs :: "string list"
  Client_Scopes :: "string list"
  Client_SecretHash :: "string"
  Client_Disabled :: "bool"
  Client_CreatedAt :: "time"
  Client_UpdatedAt :: "time"

definition OAuthClient0 :: OAuthClient where
  "OAuthClient0 = \<lparr>Client_ID = [], Client_OwnerOrgID = [], Client_Name = [], Client_RedirectURIs = [],
     Client_Scopes = [], Client_SecretHash = [], Client_Disabled = False,
     Client_CreatedAt = 0, Client_UpdatedAt = 0\<rparr>"

record OAuthAuthorizationCode =
  Code_CodeHash :: "string"
  Code_ClientID :: "string"
  Code_UserID :: "string"
  Code_OrgID :: "string"
  Code_RedirectURI :: "string"
  Code_Scopes :: "string list"
  Code_ExpiresAt :: "time"
  Code_UsedAt :: "time option"
  Code_CreatedAt :: "time"

definition OAuthAuthorizationCode0 :: OAuthAuthorizationCode where
  "OAuthAuthorizationCode0 = \<lparr>Code_CodeHash = [], Code_ClientID = [], Code_UserID = [], Code_OrgID = [],
     Code_RedirectURI = [], Code_Scopes = [], Code_ExpiresAt = 0, Code_UsedAt = None,
     Code_CreatedAt = 0\<rparr>"

record OAuthToken =
  Token_TokenHash :: "string"
  Token_RefreshTokenHash :: "string"
  Token_ClientID :: "string"
  Token_UserID :: "string"
  Token_PartnerConnectionID :: "string"
  Token_OrgID :: "string"
  Token_Scopes :: "string list"
  Token_ExpiresAt :: "time"
  Token_RefreshExpiresAt :: "time"
  Token_RevokedAt :: "time option"
  Token_CreatedAt :: "time"

definition OAuthToken0 :: OAuthToken where
  "OAuthToken0 = \<lparr>Token_TokenHash = [], Token_RefreshTokenHash = [], Token_ClientID = [],
     Token_UserID = [], Token_PartnerConnectionID = [], Token_OrgID = [],
     Token_Scopes = [], Token_ExpiresAt = 0, Token_RefreshExpiresAt = 0,
     Token_RevokedAt = None, Token_CreatedAt = 0\<rparr>"

record OAuthConnection =
  Conn_ClientID :: "string"
  Conn_Name :: "string"
  Conn_Scopes :: "string list"
  Conn_CreatedAt :: "time"

definition OAuthConnection0 :: OAuthConnection where
  "OAuthConnection0 = \<lparr>Conn_ClientID = [], Conn_Name = [], Conn_Scopes = [], Conn_CreatedAt = 0\<rparr>"

record OAuthClientConnection =
  ClientConn_ClientID :: "string"
  ClientConn_UserID :: "string"
  ClientConn_UserEmail :: "string"
  ClientConn_OrgID :: "string"
  ClientConn_OrgName :: "string"
  ClientConn_Scopes :: "string list"
  ClientConn_CreatedAt :: "time"

definition OAuthClientConnection0 :: OAuthClientConnection where
  "OAuthClientConnection0 = \<lparr>ClientConn_ClientID = [], ClientConn_UserID = [], ClientConn_UserEmail = [],
     ClientConn_OrgID = [], ClientConn_OrgName = [], ClientConn_Scopes = [],
     ClientConn_CreatedAt = 0\<rparr>"

record PartnerIntegration =
  Integ_ID :: "string"
  Integ_OwnerOrgID :: "string"
  Integ_Name :: "string"
  Integ_AllowedScopes :: "string list"
  Integ_SecretHash :: "string"
  Integ_Disabled :: "bool"
  Integ_CreatedAt :: "time"
  Integ_UpdatedAt :: "time"

definition PartnerIntegration0 :: PartnerIntegration where
  "PartnerIntegration0 = \<lparr>Integ_ID = [], Integ_OwnerOrgID = [], Integ_Name = [], Integ_AllowedScopes = [],
     Integ_SecretHash = [], Integ_Disabled = False, Integ_CreatedAt = 0,
     Integ_UpdatedAt = 0\<rparr>"

record PartnerConnection =
  PConn_ID :: "string"
  PConn_IntegrationID :: "string"
  PConn_ExternalAccountID :: "string"
  PConn_OrgID :: "string"
  PConn_Status :: "string"
  PConn_CreatedAt :: "time"
  PConn_RevokedAt :: "time option"

definition PartnerConnection0 :: PartnerConnection where
  "PartnerConnection0 = \<lparr>PConn_ID = [], PConn_IntegrationID = [], PConn_ExternalAccountID = [],
     PConn_OrgID = [], PConn_Status = [], PConn_CreatedAt = 0, PConn_RevokedAt = None\<rparr>"

end
