(* ===== verification/Execution_Registry.thy ===== *)
theory Execution_Registry
  imports Model_Core
begin

text \<open>
  The process-local execution authority: \<open>execution.go\<close> and \<open>resource_grants.go\<close>.

  An \<open>executionRevision\<close> is a shared mutable object: the table \<open>revisions\<close> and every admitted
  token point at it, and it outlives its table entry while operations still hold it. The model
  keeps that aliasing: revisions live in a heap addressed by numbers, and the tables and the
  admissions hold addresses. Every method holds the registry's mutex for its whole body, so it
  is one atomic step; \<open>now\<close> is the value \<open>time.Now()\<close> has in it. The values the source takes
  from \<open>crypto/rand\<close> are arguments.
\<close>

section \<open>Data\<close>

datatype ExecutionResourceKind =
  ExecutionKV | ExecutionDatabase | ExecutionObject | ExecutionAssets | ExecutionNoKind

text \<open>\<open>ResourceGrantUnset\<close> is the zero value \<open>""\<close>, the state of a revision without a grant.\<close>

datatype ResourceGrantState =
  ResourceGrantUnset | ResourceGrantPrepared | ResourceGrantPublished
| ResourceGrantDraining | ResourceGrantRevoked

record ExecutionSnapshot =
  Snap_id :: string
  Snap_active :: ActiveDeployment

record executionRevision =
  rev_snapshot :: ExecutionSnapshot
  rev_key :: string
  rev_state :: ResourceGrantState
  rev_session :: string
  rev_operations :: int
  rev_accepting :: bool
  rev_leases :: int

record executionAdmission =
  adm_revision :: nat
  adm_pins :: int
  adm_operation :: bool
  adm_resourceKind :: ExecutionResourceKind
  adm_resourceID :: string

record ExecutionRegistry =
  reg_heap :: "nat \<Rightarrow> executionRevision"
  reg_next :: nat
  reg_revisions :: "(string, nat) gomap"
  reg_tokens :: "(string, executionAdmission) gomap"
  reg_sessions :: "(string, time) gomap"
  reg_registrations :: "(string, (string, string) gomap) gomap"
  reg_revokedGrants :: "(string, (string, bool) gomap) gomap"

text \<open>A lease handle carries its own \<open>sync.Once\<close>.\<close>

record ExecutionLease =
  lease_token :: string
  lease_once :: bool

definition executionRevision0 :: executionRevision where
  "executionRevision0 = \<lparr>rev_snapshot = \<lparr>Snap_id = [], Snap_active = ActiveDeployment0\<rparr>,
     rev_key = [], rev_state = ResourceGrantUnset, rev_session = [], rev_operations = 0,
     rev_accepting = False, rev_leases = 0\<rparr>"

definition NewExecutionRegistry :: ExecutionRegistry where
  "NewExecutionRegistry = \<lparr>reg_heap = (\<lambda>_. executionRevision0), reg_next = 0,
     reg_revisions = mempty, reg_tokens = mempty, reg_sessions = mempty,
     reg_registrations = mempty, reg_revokedGrants = mempty\<rparr>"

text \<open>\<open>&executionRevision{...}\<close> and an assignment through a revision pointer.\<close>

definition alloc :: "executionRevision \<Rightarrow> ExecutionRegistry \<Rightarrow> ExecutionRegistry" where
  "alloc v r = r\<lparr>reg_heap := (reg_heap r)(reg_next r := v), reg_next := Suc (reg_next r)\<rparr>"

definition upd :: "nat \<Rightarrow> (executionRevision \<Rightarrow> executionRevision) \<Rightarrow> ExecutionRegistry
    \<Rightarrow> ExecutionRegistry" where
  "upd p f r = r\<lparr>reg_heap := (reg_heap r)(p := f (reg_heap r p))\<rparr>"

section \<open>Freezing an execution\<close>

definition validateWorkerWasm :: "WorkerFile \<Rightarrow> unit result" where
  "validateWorkerWasm file =
     (case File_Wasm file of
        None \<Rightarrow> Inr ()
      | Some wasm \<Rightarrow>
          if File_Content file \<noteq> [] \<or> length wasm < 8
             \<or> take 8 wasm \<noteq> map char_of [0, 97, 115, 109, 1, 0, 0, 0 :: nat]
          then Inl (ErrText ''Wasm modules require a version 1 binary and no JavaScript content'')
          else Inr ())"

fun freezeFiles :: "string \<Rightarrow> string \<Rightarrow> WorkerFile list \<Rightarrow> unit result" where
  "freezeFiles entrypoint format [] = Inr ()"
| "freezeFiles entrypoint format (file # files) =
     rbind (validateWorkerWasm file) (\<lambda>_.
       if File_Wasm file \<noteq> None \<and> (File_Path file = entrypoint \<or> format = ''service-worker'')
       then Inl (ErrText ''Wasm requires a JavaScript module entrypoint'')
       else freezeFiles entrypoint format files)"

text \<open>
  What the identity hash covers: routing metadata, audit fields and the app-wide credential are
  cleared. \<open>identity\<close> is the value the source marshals, with the secret values, the object key
  and the compile options beside it (they carry \<open>json:"-"\<close> tags and are added by hand).
  \<open>json.Marshal\<close> followed by hex SHA-256 is the parameter \<open>digest\<close>.
\<close>

definition executionIdentity :: "ActiveDeployment \<Rightarrow> ActiveDeployment" where
  "executionIdentity active =
     ActiveDeployment0\<lparr>
       Active_App := App0\<lparr>App_ID := App_ID (Active_App active),
         App_OrgID := App_OrgID (Active_App active),
         App_Platform := App_Platform (Active_App active)\<rparr>,
       Active_Deployment := (Active_Deployment active)\<lparr>Dep_Port := 0, Dep_CommitHash := [],
         Dep_CommitMessage := [], Dep_CreatedBy := [], Dep_CreatedAt := 0,
         Dep_BundleSize := 0, Dep_ObjectKey := []\<rparr>\<rparr>"

definition FreezeExecution ::
  "(ActiveDeployment \<times> (string, string) gomap \<times> string \<times> string list \<Rightarrow> string result)
   \<Rightarrow> ActiveDeployment \<Rightarrow> string list \<Rightarrow> ExecutionSnapshot result" where
  "FreezeExecution digest active compileOptions =
     (let app = Active_App active; d = Active_Deployment active;
          entrypoint = (if Dep_Entrypoint d = [] \<and> Dep_Files d \<noteq> []
                        then File_Path (hd (Dep_Files d)) else Dep_Entrypoint d)
      in if App_ID app = [] \<or> Dep_ID d = [] \<or> (Dep_AppID d \<noteq> [] \<and> Dep_AppID d \<noteq> App_ID app)
         then Inl (ErrText ''execution requires matching application and deployment identity'')
         else rbind (freezeFiles entrypoint (Dep_Format d) (Dep_Files d)) (\<lambda>_.
              rbind (digest (executionIdentity active, App_SecretValues app,
                             Dep_ObjectKey d, compileOptions)) (\<lambda>i.
              Inr \<lparr>Snap_id = i, Snap_active = active\<rparr>)))"

section \<open>Publication and retirement of revisions\<close>

definition Publish :: "ExecutionSnapshot \<Rightarrow> ExecutionRegistry \<Rightarrow> ExecutionRegistry" where
  "Publish snapshot r =
     (case mget (reg_revisions r) (Snap_id snapshot) of
        Some p \<Rightarrow> upd p (\<lambda>v. v\<lparr>rev_accepting := True\<rparr>) r
      | None \<Rightarrow>
          (let r' = alloc (executionRevision0\<lparr>rev_snapshot := snapshot,
                     rev_key := Snap_id snapshot, rev_accepting := True\<rparr>) r
           in r'\<lparr>reg_revisions := mput (Snap_id snapshot) (reg_next r) (reg_revisions r')\<rparr>))"

definition collectRevisionLocked :: "nat \<Rightarrow> ExecutionRegistry \<Rightarrow> ExecutionRegistry" where
  "collectRevisionLocked p r =
     (let v = reg_heap r p in
      if rev_accepting v \<or> rev_state v = ResourceGrantPrepared then r
      else if rev_leases v = 0 then
        (let r' = (if rev_state v \<noteq> ResourceGrantUnset
                   then upd p (\<lambda>v. v\<lparr>rev_state := ResourceGrantRevoked\<rparr>) r else r)
         in if rev_operations v = 0
            then r'\<lparr>reg_revisions := mdel (rev_key v) (reg_revisions r')\<rparr>
            else r')
      else r)"

definition Retire :: "string \<Rightarrow> ExecutionRegistry \<Rightarrow> ExecutionRegistry" where
  "Retire rid r =
     (case mget (reg_revisions r) rid of
        None \<Rightarrow> r
      | Some p \<Rightarrow>
          collectRevisionLocked p
            (upd p (\<lambda>v. v\<lparr>rev_accepting := False,
                rev_state := (if rev_state v \<noteq> ResourceGrantUnset then ResourceGrantDraining
                              else rev_state v)\<rparr>) r))"

definition ReferencesDeployment :: "string \<Rightarrow> string \<Rightarrow> ExecutionRegistry \<Rightarrow> bool" where
  "ReferencesDeployment appID deploymentID r =
     list_ex (\<lambda>p. let a = Snap_active (rev_snapshot (reg_heap r p)) in
        App_ID (Active_App a) = appID \<and> Dep_ID (Active_Deployment a) = deploymentID)
       (mvals (reg_revisions r))"

definition ReferencesObject :: "string \<Rightarrow> string \<Rightarrow> ExecutionRegistry \<Rightarrow> bool" where
  "ReferencesObject appID key r =
     list_ex (\<lambda>p. let a = Snap_active (rev_snapshot (reg_heap r p)) in
        App_ID (Active_App a) = appID
        \<and> (Dep_ObjectKey (Active_Deployment a) = key
           \<or> list_ex (\<lambda>asset. Asset_ObjectKey asset = key) (Dep_Assets (Active_Deployment a))))
       (mvals (reg_revisions r))"

section \<open>Runner sessions and admissions\<close>

definition RenewResourceSession :: "string \<Rightarrow> time \<Rightarrow> ExecutionRegistry \<Rightarrow> ExecutionRegistry" where
  "RenewResourceSession session expires r =
     r\<lparr>reg_sessions := mput session expires (reg_sessions r)\<rparr>"

definition sessionLiveLocked :: "string \<Rightarrow> time \<Rightarrow> ExecutionRegistry \<Rightarrow> bool" where
  "sessionLiveLocked session now r = (mget0 0 (reg_sessions r) session > now)"

text \<open>The tokens both kinds of admission hand out: \<open>"nfexec_" + rand.Text()\<close>.\<close>

definition executionToken :: "string \<Rightarrow> string" where
  "executionToken rnd = ''nfexec_'' @ rnd"

definition admit :: "string result \<Rightarrow> string \<Rightarrow> string \<Rightarrow> time \<Rightarrow> ExecutionRegistry
    \<Rightarrow> (ExecutionLease \<times> ExecutionRegistry) result" where
  "admit entropy rid session now r =
     rbind entropy (\<lambda>rnd.
       let token = executionToken rnd in
       case mget (reg_revisions r) rid of
         None \<Rightarrow> Inl ErrExecutionRetired
       | Some p \<Rightarrow>
           (let v = reg_heap r p in
            if \<not> rev_accepting v \<or> (session \<noteq> [] \<and> rev_session v \<noteq> session)
               \<or> (rev_session v \<noteq> [] \<and> \<not> sessionLiveLocked (rev_session v) now r)
            then Inl ErrExecutionRetired
            else
              (let r' = upd p (\<lambda>v. v\<lparr>rev_leases := rev_leases v + 1\<rparr>) r in
               Inr (\<lparr>lease_token = token, lease_once = False\<rparr>,
                    r'\<lparr>reg_tokens := mput token \<lparr>adm_revision = p, adm_pins = 1,
                        adm_operation = False, adm_resourceKind = ExecutionNoKind,
                        adm_resourceID = []\<rparr> (reg_tokens r')\<rparr>))))"

definition Admit :: "string result \<Rightarrow> string \<Rightarrow> time \<Rightarrow> ExecutionRegistry
    \<Rightarrow> (ExecutionLease \<times> ExecutionRegistry) result" where
  "Admit entropy rid now r = admit entropy rid [] now r"

definition AdmitResourceGrant :: "string result \<Rightarrow> string \<Rightarrow> string \<Rightarrow> time \<Rightarrow> ExecutionRegistry
    \<Rightarrow> (ExecutionLease \<times> ExecutionRegistry) result" where
  "AdmitResourceGrant entropy session rid now r = admit entropy rid session now r"

text \<open>The test all capability checks share: an ordinary admission dies with its session, an
  accepted operation does not.\<close>

definition admissionLive :: "executionAdmission \<Rightarrow> time \<Rightarrow> ExecutionRegistry \<Rightarrow> bool" where
  "admissionLive a now r =
     (\<not> (\<not> adm_operation a \<and> rev_session (reg_heap r (adm_revision a)) \<noteq> []
         \<and> \<not> sessionLiveLocked (rev_session (reg_heap r (adm_revision a))) now r))"

definition Pin :: "string \<Rightarrow> time \<Rightarrow> ExecutionRegistry \<Rightarrow> (ExecutionLease \<times> ExecutionRegistry) result" where
  "Pin token now r =
     (case mget (reg_tokens r) token of
        None \<Rightarrow> Inl ErrInvalidCapability
      | Some a \<Rightarrow>
          if \<not> admissionLive a now r then Inl ErrInvalidCapability
          else Inr (\<lparr>lease_token = token, lease_once = False\<rparr>,
                    r\<lparr>reg_tokens := mput token (a\<lparr>adm_pins := adm_pins a + 1\<rparr>) (reg_tokens r)\<rparr>))"

definition releaseToken :: "string \<Rightarrow> ExecutionRegistry \<Rightarrow> ExecutionRegistry" where
  "releaseToken token r =
     (case mget (reg_tokens r) token of
        None \<Rightarrow> r
      | Some a \<Rightarrow>
          (let a' = a\<lparr>adm_pins := adm_pins a - 1\<rparr> in
           if adm_pins a' \<noteq> 0 then r\<lparr>reg_tokens := mput token a' (reg_tokens r)\<rparr>
           else
             (let r1 = r\<lparr>reg_tokens := mdel token (reg_tokens r)\<rparr>;
                  r2 = (if adm_operation a'
                        then upd (adm_revision a) (\<lambda>v. v\<lparr>rev_operations := rev_operations v - 1\<rparr>) r1
                        else upd (adm_revision a) (\<lambda>v. v\<lparr>rev_leases := rev_leases v - 1\<rparr>) r1)
              in collectRevisionLocked (adm_revision a) r2)))"

definition Release :: "ExecutionLease \<Rightarrow> ExecutionRegistry \<Rightarrow> ExecutionLease \<times> ExecutionRegistry" where
  "Release l r =
     (if lease_once l then (l, r)
      else (l\<lparr>lease_once := True\<rparr>, releaseToken (lease_token l) r))"

section \<open>Authorization\<close>

definition declares :: "Deployment \<Rightarrow> ExecutionResourceKind \<Rightarrow> string \<Rightarrow> bool" where
  "declares d kind resourceID =
     (case kind of
        ExecutionKV \<Rightarrow> list_ex (\<lambda>b. KVBind_ID b = resourceID) (Dep_KVNamespaces d)
      | ExecutionDatabase \<Rightarrow> list_ex (\<lambda>b. DBBind_DatabaseID b = resourceID) (Dep_Databases d)
      | ExecutionObject \<Rightarrow> list_ex (\<lambda>b. ObjBind_BucketID b = resourceID) (Dep_ObjectStorageBuckets d)
      | ExecutionAssets \<Rightarrow> (Dep_Assets d \<noteq> [] \<or> AssetCfg_Binding (Dep_AssetConfig d) \<noteq> [])
                            \<and> Dep_ID d = resourceID
      | ExecutionNoKind \<Rightarrow> False)"

definition authorizeLocked :: "string \<Rightarrow> ExecutionResourceKind \<Rightarrow> string \<Rightarrow> time
    \<Rightarrow> ExecutionRegistry \<Rightarrow> ActiveDeployment result" where
  "authorizeLocked token kind resourceID now r =
     (case mget (reg_tokens r) token of
        None \<Rightarrow> Inl ErrInvalidCapability
      | Some a \<Rightarrow>
          (let v = reg_heap r (adm_revision a) in
           if (adm_operation a \<and> (adm_resourceKind a \<noteq> kind \<or> adm_resourceID a \<noteq> resourceID))
              \<or> \<not> admissionLive a now r
           then Inl ErrInvalidCapability
           else if resourceID = []
                   \<or> \<not> declares (Active_Deployment (Snap_active (rev_snapshot v))) kind resourceID
           then Inl ErrInvalidCapability
           else Inr ((Snap_active (rev_snapshot v))\<lparr>Active_RuntimeInstance := rev_key v\<rparr>)))"

definition Authorize :: "string \<Rightarrow> ExecutionResourceKind \<Rightarrow> string \<Rightarrow> time
    \<Rightarrow> ExecutionRegistry \<Rightarrow> ActiveDeployment result" where
  "Authorize token kind resourceID now r = authorizeLocked token kind resourceID now r"

definition AuthorizeInternal :: "string \<Rightarrow> time \<Rightarrow> ExecutionRegistry \<Rightarrow> ActiveDeployment result" where
  "AuthorizeInternal token now r =
     (case mget (reg_tokens r) token of
        None \<Rightarrow> Inl ErrInvalidCapability
      | Some a \<Rightarrow>
          (let v = reg_heap r (adm_revision a) in
           if adm_operation a \<or> (rev_session v \<noteq> [] \<and> \<not> sessionLiveLocked (rev_session v) now r)
           then Inl ErrInvalidCapability
           else Inr ((Snap_active (rev_snapshot v))\<lparr>Active_RuntimeInstance := rev_key v\<rparr>)))"

section \<open>Resource grants\<close>

text \<open>
  \<open>ResourceGrantID\<close> is \<open>"nfgrant_"\<close> and the hex SHA-256 of the session, a zero byte and the
  registration; the hash is the parameter \<open>sha\<close>.
\<close>

definition ResourceGrantID :: "(string \<Rightarrow> string) \<Rightarrow> string \<Rightarrow> string \<Rightarrow> string" where
  "ResourceGrantID sha session registration =
     ''nfgrant_'' @ sha (session @ [char_of (0::nat)] @ registration)"

text \<open>The inner registration map is created on first use.\<close>

definition openRegistrations :: "string \<Rightarrow> ExecutionRegistry \<Rightarrow> ExecutionRegistry" where
  "openRegistrations session r =
     (if mhas (reg_registrations r) session then r
      else r\<lparr>reg_registrations := mput session mempty (reg_registrations r)\<rparr>)"

definition PrepareResourceGrant :: "(string \<Rightarrow> string) \<Rightarrow> ExecutionSnapshot \<Rightarrow> string \<Rightarrow> string
    \<Rightarrow> time \<Rightarrow> ExecutionRegistry \<Rightarrow> string result \<times> ExecutionRegistry" where
  "PrepareResourceGrant sha snapshot session registration now r =
     (if registration = [] \<or> length registration > 256 \<or> \<not> sessionLiveLocked session now r
      then (Inl ErrInvalidCapability, r)
      else
        (let r0 = openRegistrations session r;
             mine = mget0 mempty (reg_registrations r0) session;
             known = mget0 [] mine registration
         in if known \<noteq> [] then
              (case mget (reg_revisions r0) known of
                 None \<Rightarrow> (Inl ErrExecutionRetired, r0)
               | Some p \<Rightarrow>
                   (let v = reg_heap r0 p in
                    if Snap_id (rev_snapshot v) \<noteq> Snap_id snapshot
                       \<or> rev_state v = ResourceGrantRevoked \<or> rev_state v = ResourceGrantDraining
                    then (Inl ErrExecutionRetired, r0) else (Inr known, r0)))
            else
              (let rid = ResourceGrantID sha session registration in
               if mget0 False (mget0 mempty (reg_revokedGrants r0) session) rid
               then (Inl ErrExecutionRetired, r0)
               else
                 (let r1 = alloc (executionRevision0\<lparr>rev_snapshot := snapshot, rev_key := rid,
                            rev_session := session, rev_state := ResourceGrantPrepared\<rparr>) r0
                  in (Inr rid,
                      r1\<lparr>reg_revisions := mput rid (reg_next r0) (reg_revisions r1),
                         reg_registrations :=
                           mput session (mput registration rid mine) (reg_registrations r1)\<rparr>)))))"

definition PublishResourceGrant :: "string \<Rightarrow> string \<Rightarrow> time \<Rightarrow> ExecutionRegistry
    \<Rightarrow> ExecutionRegistry result" where
  "PublishResourceGrant session rid now r =
     (case mget (reg_revisions r) rid of
        None \<Rightarrow> Inl ErrInvalidCapability
      | Some p \<Rightarrow>
          (let v = reg_heap r p in
           if rev_session v \<noteq> session \<or> \<not> sessionLiveLocked session now r
           then Inl ErrInvalidCapability
           else if rev_state v \<noteq> ResourceGrantPrepared \<and> rev_state v \<noteq> ResourceGrantPublished
           then Inl ErrExecutionRetired
           else Inr (upd p (\<lambda>v. v\<lparr>rev_state := ResourceGrantPublished, rev_accepting := True\<rparr>) r)))"

definition RetireResourceGrant :: "string \<Rightarrow> string \<Rightarrow> time \<Rightarrow> ExecutionRegistry
    \<Rightarrow> unit result \<times> ExecutionRegistry" where
  "RetireResourceGrant session rid now r =
     (if (case mget (reg_revisions r) rid of
            None \<Rightarrow> False | Some p \<Rightarrow> rev_session (reg_heap r p) \<noteq> session)
      then (Inl ErrInvalidCapability, r)
      else if \<not> sessionLiveLocked session now r then (Inr (), r)
      else
        (let mine = mget0 mempty (reg_revokedGrants r) session;
             r1 = r\<lparr>reg_revokedGrants := mput session (mput rid True mine) (reg_revokedGrants r)\<rparr>
         in case mget (reg_revisions r1) rid of
              None \<Rightarrow> (Inr (), r1)
            | Some p \<Rightarrow>
                if rev_session (reg_heap r1 p) \<noteq> session then (Inl ErrInvalidCapability, r1)
                else (Inr (), collectRevisionLocked p
                       (upd p (\<lambda>v. v\<lparr>rev_state := ResourceGrantDraining,
                                     rev_accepting := False\<rparr>) r1))))"

definition AcquireResource :: "string \<Rightarrow> string \<Rightarrow> ExecutionResourceKind \<Rightarrow> string \<Rightarrow> time
    \<Rightarrow> ExecutionRegistry \<Rightarrow> ExecutionLease result \<times> ExecutionRegistry" where
  "AcquireResource rndText grant kind resourceID now r =
     (case mget (reg_revisions r) grant of
        None \<Rightarrow> (Inl ErrInvalidCapability, r)
      | Some p \<Rightarrow>
          (let v = reg_heap r p in
           if \<not> sessionLiveLocked (rev_session v) now r
              \<or> (rev_state v \<noteq> ResourceGrantPublished
                 \<and> \<not> (rev_state v = ResourceGrantDraining \<and> rev_leases v > 0))
           then (Inl ErrInvalidCapability, r)
           else
             (let token = executionToken rndText;
                  r1 = r\<lparr>reg_tokens := mput token \<lparr>adm_revision = p, adm_pins = 1,
                          adm_operation = True, adm_resourceKind = kind,
                          adm_resourceID = resourceID\<rparr> (reg_tokens r)\<rparr>
              in case authorizeLocked token kind resourceID now r1 of
                   Inl e \<Rightarrow> (Inl e, r1\<lparr>reg_tokens := mdel token (reg_tokens r1)\<rparr>)
                 | Inr _ \<Rightarrow>
                     (Inr \<lparr>lease_token = token, lease_once = False\<rparr>,
                      upd p (\<lambda>v. v\<lparr>rev_operations := rev_operations v + 1\<rparr>) r1))))"

text \<open>
  The two loops of \<open>RevokeResourceSession\<close>. The first drops the session's ordinary admissions.
  The second visits the table entries; an entry that an earlier iteration deleted is not
  visited, as the language specifies for deletion during \<open>range\<close>.
\<close>

fun revokeTokens :: "string \<Rightarrow> (string \<times> executionAdmission) list \<Rightarrow> ExecutionRegistry
    \<Rightarrow> ExecutionRegistry" where
  "revokeTokens session [] r = r"
| "revokeTokens session ((token, a) # ts) r =
     revokeTokens session ts
       (if rev_session (reg_heap r (adm_revision a)) = session \<and> \<not> adm_operation a
        then (upd (adm_revision a) (\<lambda>v. v\<lparr>rev_leases := rev_leases v - 1\<rparr>) r)
               \<lparr>reg_tokens := mdel token (reg_tokens r)\<rparr>
        else r)"

fun revokeRevisions :: "string \<Rightarrow> (string \<times> nat) list \<Rightarrow> ExecutionRegistry \<Rightarrow> ExecutionRegistry" where
  "revokeRevisions session [] r = r"
| "revokeRevisions session ((k, p) # es) r =
     revokeRevisions session es
       (if mhas (reg_revisions r) k \<and> rev_session (reg_heap r p) = session
        then collectRevisionLocked p
               (upd p (\<lambda>v. v\<lparr>rev_state := ResourceGrantRevoked, rev_accepting := False\<rparr>) r)
        else r)"

definition RevokeResourceSession :: "string \<Rightarrow> ExecutionRegistry \<Rightarrow> ExecutionRegistry" where
  "RevokeResourceSession session r =
     (let r1 = r\<lparr>reg_sessions := mdel session (reg_sessions r),
                reg_registrations := mdel session (reg_registrations r),
                reg_revokedGrants := mdel session (reg_revokedGrants r)\<rparr>;
          r2 = revokeTokens session (mentries (reg_tokens r1)) r1
      in revokeRevisions session (mentries (reg_revisions r2)) r2)"

end
