(* ===== verification/Execution_Safety.thy ===== *)
theory Execution_Safety
  imports Execution_Registry
begin

text \<open>
  Correctness of the execution registry. \<open>registry_inv\<close> says that the lease and operation
  counters of every revision are exactly the numbers of tokens that hold it, that table entries
  point at revisions filed under their own key, and that no revision that stopped admitting is
  kept without a holder. Every method preserves it.
\<close>

section \<open>The accounting invariant\<close>

definition tcount :: "nat \<Rightarrow> bool \<Rightarrow> (string, executionAdmission) gomap \<Rightarrow> nat" where
  "tcount p op ts = mcount (\<lambda>_ a. adm_revision a = p \<and> adm_operation a = op) ts"

abbreviation holders :: "nat \<Rightarrow> bool \<Rightarrow> ExecutionRegistry \<Rightarrow> nat" where
  "holders p op r \<equiv> tcount p op (reg_tokens r)"

lemma tcount_empty [simp]: "tcount p op mempty = 0"
  by (simp add: tcount_def)

lemma tcount_pos: "mget ts token = Some a \<Longrightarrow> 0 < tcount (adm_revision a) (adm_operation a) ts"
  unfolding tcount_def by (rule mcount_pos) simp_all

lemma tcount_pos_iff: "0 < tcount p op ts \<longleftrightarrow>
    (\<exists>token a. mget ts token = Some a \<and> adm_revision a = p \<and> adm_operation a = op)"
  using mcount_zero_iff[of "\<lambda>_ a. adm_revision a = p \<and> adm_operation a = op" ts]
  by (auto simp: tcount_def)

lemma tcount_new: "mget ts token = None \<Longrightarrow> tcount p op (mput token a ts) =
    tcount p op ts + (if adm_revision a = p \<and> adm_operation a = op then 1 else 0)"
  by (simp add: tcount_def mcount_put mcount_del)

lemma tcount_same: "mget ts token = Some a \<Longrightarrow> adm_revision a' = adm_revision a \<Longrightarrow>
    adm_operation a' = adm_operation a \<Longrightarrow> tcount p op (mput token a' ts) = tcount p op ts"
  using tcount_pos[of ts token a] by (auto simp: tcount_def mcount_put mcount_del)

lemma tcount_del: "mget ts token = Some a \<Longrightarrow> tcount p op (mdel token ts) =
    tcount p op ts - (if adm_revision a = p \<and> adm_operation a = op then 1 else 0)"
  by (simp add: tcount_def mcount_del)

lemma tcount_undo: "mget ts token = None \<Longrightarrow> tcount p op (mdel token (mput token a ts)) = tcount p op ts"
  by (auto simp: tcount_def mcount_del mcount_put)

definition tokens_ok :: "ExecutionRegistry \<Rightarrow> bool" where
  "tokens_ok r \<longleftrightarrow> (\<forall>t a. mget (reg_tokens r) t = Some a \<longrightarrow>
     adm_revision a < reg_next r \<and> 1 \<le> adm_pins a)"

definition counts_ok :: "ExecutionRegistry \<Rightarrow> bool" where
  "counts_ok r \<longleftrightarrow> (\<forall>p. rev_leases (reg_heap r p) = int (holders p False r)
     \<and> rev_operations (reg_heap r p) = int (holders p True r))"

definition table_ok :: "ExecutionRegistry \<Rightarrow> bool" where
  "table_ok r \<longleftrightarrow> (\<forall>k p. mget (reg_revisions r) k = Some p \<longrightarrow>
     p < reg_next r \<and> rev_key (reg_heap r p) = k)"

definition pinned :: "executionRevision \<Rightarrow> bool" where
  "pinned v \<longleftrightarrow> rev_accepting v \<or> rev_state v = ResourceGrantPrepared
     \<or> 0 < rev_leases v \<or> 0 < rev_operations v"

definition no_garbage :: "nat set \<Rightarrow> ExecutionRegistry \<Rightarrow> bool" where
  "no_garbage E r \<longleftrightarrow> (\<forall>k p. mget (reg_revisions r) k = Some p \<longrightarrow> p \<in> E \<or> pinned (reg_heap r p))"

definition registry_core :: "ExecutionRegistry \<Rightarrow> bool" where
  "registry_core r \<longleftrightarrow> tokens_ok r \<and> counts_ok r \<and> table_ok r"

definition registry_inv :: "ExecutionRegistry \<Rightarrow> bool" where
  "registry_inv r \<longleftrightarrow> registry_core r \<and> no_garbage {} r"

lemmas registry_defs = registry_core_def tokens_ok_def counts_ok_def table_ok_def

named_theorems reg_simps "fields of the registry after the primitive updates"

lemma upd_fields [reg_simps]:
  "reg_heap (upd p f r) = (reg_heap r)(p := f (reg_heap r p))"
  "reg_next (upd p f r) = reg_next r"
  "reg_revisions (upd p f r) = reg_revisions r"
  "reg_tokens (upd p f r) = reg_tokens r"
  "reg_sessions (upd p f r) = reg_sessions r"
  "reg_registrations (upd p f r) = reg_registrations r"
  "reg_revokedGrants (upd p f r) = reg_revokedGrants r"
  by (simp_all add: upd_def)

lemma alloc_fields [reg_simps]:
  "reg_heap (alloc v r) = (reg_heap r)(reg_next r := v)"
  "reg_next (alloc v r) = Suc (reg_next r)"
  "reg_revisions (alloc v r) = reg_revisions r"
  "reg_tokens (alloc v r) = reg_tokens r"
  "reg_sessions (alloc v r) = reg_sessions r"
  "reg_registrations (alloc v r) = reg_registrations r"
  "reg_revokedGrants (alloc v r) = reg_revokedGrants r"
  by (simp_all add: alloc_def)

lemma collect_fields [reg_simps]:
  "reg_next (collectRevisionLocked p r) = reg_next r"
  "reg_tokens (collectRevisionLocked p r) = reg_tokens r"
  "reg_sessions (collectRevisionLocked p r) = reg_sessions r"
  "reg_registrations (collectRevisionLocked p r) = reg_registrations r"
  "reg_revokedGrants (collectRevisionLocked p r) = reg_revokedGrants r"
  by (simp_all add: collectRevisionLocked_def Let_def upd_fields)

lemma collect_heap [reg_simps]:
  "rev_leases (reg_heap (collectRevisionLocked p r) q) = rev_leases (reg_heap r q)"
  "rev_operations (reg_heap (collectRevisionLocked p r) q) = rev_operations (reg_heap r q)"
  "rev_key (reg_heap (collectRevisionLocked p r) q) = rev_key (reg_heap r q)"
  "rev_session (reg_heap (collectRevisionLocked p r) q) = rev_session (reg_heap r q)"
  "rev_snapshot (reg_heap (collectRevisionLocked p r) q) = rev_snapshot (reg_heap r q)"
  "rev_accepting (reg_heap (collectRevisionLocked p r) q) = rev_accepting (reg_heap r q)"
  by (simp_all add: collectRevisionLocked_def Let_def upd_fields)

lemma collect_state:
  "rev_state (reg_heap (collectRevisionLocked p r) q) =
     (if q = p \<and> \<not> rev_accepting (reg_heap r p) \<and> rev_state (reg_heap r p) \<noteq> ResourceGrantPrepared
         \<and> rev_state (reg_heap r p) \<noteq> ResourceGrantUnset \<and> rev_leases (reg_heap r p) = 0
      then ResourceGrantRevoked else rev_state (reg_heap r q))"
  by (simp add: collectRevisionLocked_def Let_def upd_fields)

lemma collect_revisions:
  "reg_revisions (collectRevisionLocked p r) =
     (if \<not> rev_accepting (reg_heap r p) \<and> rev_state (reg_heap r p) \<noteq> ResourceGrantPrepared
         \<and> rev_leases (reg_heap r p) = 0 \<and> rev_operations (reg_heap r p) = 0
      then mdel (rev_key (reg_heap r p)) (reg_revisions r) else reg_revisions r)"
  by (simp add: collectRevisionLocked_def Let_def upd_fields)

lemma collect_core: "registry_core r \<Longrightarrow> registry_core (collectRevisionLocked p r)"
  by (auto simp: registry_defs reg_simps collect_revisions split: if_splits)

text \<open>Collection removes exactly the garbage the caller may have created at \<open>p\<close>.\<close>

lemma collect_inv:
  assumes "registry_core r" "no_garbage {p} r"
  shows "registry_inv (collectRevisionLocked p r)"
proof -
  have nonneg: "0 \<le> rev_leases (reg_heap r p)" "0 \<le> rev_operations (reg_heap r p)"
    using assms(1) by (simp_all add: registry_core_def counts_ok_def)
  have "no_garbage {} (collectRevisionLocked p r)"
    unfolding no_garbage_def
  proof (intro allI impI)
    fix k q
    assume q: "mget (reg_revisions (collectRevisionLocked p r)) k = Some q"
    then have q0: "mget (reg_revisions r) k = Some q"
      by (auto simp: collect_revisions split: if_splits)
    with assms have key: "rev_key (reg_heap r q) = k" and old: "q = p \<or> pinned (reg_heap r q)"
      by (auto simp: registry_core_def table_ok_def no_garbage_def)
    show "q \<in> {} \<or> pinned (reg_heap (collectRevisionLocked p r) q)"
    proof (cases "q = p")
      case True
      then show ?thesis using q key nonneg
        by (auto simp: pinned_def reg_simps collect_revisions collect_state split: if_splits)
    next
      case False
      then show ?thesis using old by (auto simp: pinned_def reg_simps collect_state)
    qed
  qed
  then show ?thesis
    using collect_core[OF assms(1)] by (simp add: registry_inv_def)
qed

lemma no_garbage_mono: "no_garbage {} r \<Longrightarrow> no_garbage E r"
  by (auto simp: no_garbage_def)

lemma NewExecutionRegistry_inv: "registry_inv NewExecutionRegistry"
  by (simp add: registry_inv_def no_garbage_def registry_defs NewExecutionRegistry_def
      executionRevision0_def)

section \<open>Every method preserves the invariant\<close>

lemma upd_core:
  assumes "registry_core r"
    and "rev_leases (f (reg_heap r p)) = rev_leases (reg_heap r p)"
    and "rev_operations (f (reg_heap r p)) = rev_operations (reg_heap r p)"
    and "rev_key (f (reg_heap r p)) = rev_key (reg_heap r p)"
  shows "registry_core (upd p f r)"
  using assms by (auto simp: registry_defs reg_simps)

lemma upd_garbage: "no_garbage E r \<Longrightarrow> no_garbage (insert p E) (upd p f r)"
  by (auto simp: no_garbage_def reg_simps)

lemma unpinned_update_inv:
  assumes "registry_inv r"
    and "rev_leases (f (reg_heap r p)) = rev_leases (reg_heap r p)"
    and "rev_operations (f (reg_heap r p)) = rev_operations (reg_heap r p)"
    and "rev_key (f (reg_heap r p)) = rev_key (reg_heap r p)"
  shows "registry_inv (collectRevisionLocked p (upd p f r))"
  using assms by (intro collect_inv upd_core upd_garbage) (auto simp: registry_inv_def)

lemma fresh_no_holders: "tokens_ok r \<Longrightarrow> holders (reg_next r) op r = 0"
  using tcount_pos_iff[of "reg_next r" op "reg_tokens r"] by (fastforce simp: tokens_ok_def)

lemma upd_inv:
  assumes inv: "registry_inv r" and p: "pinned (f (reg_heap r p))"
    and "rev_leases (f (reg_heap r p)) = rev_leases (reg_heap r p)"
    and "rev_operations (f (reg_heap r p)) = rev_operations (reg_heap r p)"
    and "rev_key (f (reg_heap r p)) = rev_key (reg_heap r p)"
  shows "registry_inv (upd p f r)"
proof -
  have "no_garbage {} (upd p f r)"
    using inv p by (auto simp: registry_inv_def no_garbage_def reg_simps)
  then show ?thesis
    using upd_core[of r f p] inv assms(3-) by (simp add: registry_inv_def)
qed

lemma alloc_core:
  assumes "registry_core r" "rev_leases v = 0" "rev_operations v = 0"
  shows "registry_core (alloc v r)"
  using assms fresh_no_holders[of r False] fresh_no_holders[of r True]
  by (auto simp: registry_defs reg_simps less_Suc_eq)

text \<open>A freshly allocated revision is filed under its key.\<close>

lemma file_new_inv:
  assumes inv: "registry_inv r"
    and v: "rev_leases v = 0" "rev_operations v = 0" "rev_key v = k" "pinned v"
  shows "registry_inv ((alloc v r)\<lparr>reg_revisions := mput k (reg_next r) (reg_revisions r)\<rparr>)"
proof -
  have core: "registry_core (alloc v r)"
    using inv v by (intro alloc_core) (auto simp: registry_inv_def)
  moreover have "\<forall>k p. mget (reg_revisions r) k = Some p \<longrightarrow> p \<noteq> reg_next r"
    using inv by (auto simp: registry_inv_def registry_core_def table_ok_def)
  ultimately show ?thesis
    using inv v unfolding registry_inv_def
    by (auto simp: registry_defs no_garbage_def reg_simps)
qed

lemma Publish_inv: "registry_inv r \<Longrightarrow> registry_inv (Publish snapshot r)"
proof (cases "mget (reg_revisions r) (Snap_id snapshot)")
  case None
  assume "registry_inv r"
  then show ?thesis
    using None by (simp add: Publish_def Let_def reg_simps)
      (rule file_new_inv, simp_all add: executionRevision0_def pinned_def)
next
  case (Some p)
  assume "registry_inv r"
  then show ?thesis
    using Some by (auto simp: Publish_def pinned_def intro: upd_inv)
qed

lemma Retire_inv: "registry_inv r \<Longrightarrow> registry_inv (Retire rid r)"
  by (auto simp: Retire_def split: option.splits intro!: unpinned_update_inv)

lemma session_fields_inv [simp]:
  "registry_inv (r\<lparr>reg_sessions := x\<rparr>) = registry_inv r"
  "registry_inv (r\<lparr>reg_registrations := y\<rparr>) = registry_inv r"
  "registry_inv (r\<lparr>reg_revokedGrants := z\<rparr>) = registry_inv r"
  by (simp_all add: registry_inv_def registry_defs no_garbage_def)

lemma RenewResourceSession_inv:
  "registry_inv r \<Longrightarrow> registry_inv (RenewResourceSession session expires r)"
  by (simp add: RenewResourceSession_def)

lemma new_token_inv:
  assumes inv: "registry_inv r" and fresh: "mget (reg_tokens r) token = None"
    and p: "mget (reg_revisions r) k = Some p"
    and a: "adm_revision a = p" "adm_pins a = 1"
    and f: "f = (if adm_operation a then (\<lambda>v. v\<lparr>rev_operations := rev_operations v + 1\<rparr>)
                 else (\<lambda>v. v\<lparr>rev_leases := rev_leases v + 1\<rparr>))"
  shows "registry_inv ((upd p f r)\<lparr>reg_tokens := mput token a (reg_tokens r)\<rparr>)"
proof -
  have heap: "p < reg_next r" "0 \<le> rev_leases (reg_heap r p)" "0 \<le> rev_operations (reg_heap r p)"
    using inv p by (auto simp: registry_inv_def registry_defs)
  let ?r' = "(upd p f r)\<lparr>reg_tokens := mput token a (reg_tokens r)\<rparr>"
  have "registry_core ?r'"
    using inv heap a f by (auto simp: registry_inv_def registry_defs reg_simps tcount_new[OF fresh])
  moreover have "pinned (f (reg_heap r p))"
    using heap f by (auto simp: pinned_def)
  then have "no_garbage {} ?r'"
    using inv by (auto simp: registry_inv_def no_garbage_def reg_simps)
  ultimately show ?thesis by (simp add: registry_inv_def)
qed

lemmas new_lease_inv = new_token_inv[where f = "\<lambda>v. v\<lparr>rev_leases := rev_leases v + 1\<rparr>"]
lemmas new_operation_inv = new_token_inv[where f = "\<lambda>v. v\<lparr>rev_operations := rev_operations v + 1\<rparr>"]

lemma admit_inv:
  assumes "registry_inv r" "admit entropy rid session now r = Inr (l, r')"
    and "mget (reg_tokens r) (lease_token l) = None"
  shows "registry_inv r'"
proof -
  obtain p a where "mget (reg_revisions r) rid = Some p"
    and "r' = (upd p (\<lambda>v. v\<lparr>rev_leases := rev_leases v + 1\<rparr>) r)
                \<lparr>reg_tokens := mput (lease_token l) a (reg_tokens r)\<rparr>"
    and "adm_revision a = p" "adm_pins a = 1" "\<not> adm_operation a"
    using assms(2)
    by (auto simp: admit_def Let_def reg_simps rbind_Inr_iff split: option.splits if_splits)
  then show ?thesis
    using new_lease_inv[OF assms(1,3)] by auto
qed

lemma pins_update_inv:
  assumes "registry_inv r" "mget (reg_tokens r) token = Some a" "1 \<le> n"
  shows "registry_inv (r\<lparr>reg_tokens := mput token (a\<lparr>adm_pins := n\<rparr>) (reg_tokens r)\<rparr>)"
  using assms unfolding registry_inv_def
  by (auto simp: registry_defs no_garbage_def tcount_same[OF assms(2)])

lemma Pin_inv: "registry_inv r \<Longrightarrow> Pin token now r = Inr (l, r') \<Longrightarrow> registry_inv r'"
proof -
  assume inv: "registry_inv r" and pin: "Pin token now r = Inr (l, r')"
  from pin obtain a where a: "mget (reg_tokens r) token = Some a"
    and r': "r' = r\<lparr>reg_tokens := mput token (a\<lparr>adm_pins := adm_pins a + 1\<rparr>) (reg_tokens r)\<rparr>"
    by (auto simp: Pin_def split: option.splits if_splits)
  have "1 \<le> adm_pins a"
    using inv a by (auto simp: registry_inv_def registry_core_def tokens_ok_def)
  then show ?thesis
    using pins_update_inv[OF inv a, of "adm_pins a + 1"] r' by simp
qed

lemma releaseToken_inv:
  assumes inv: "registry_inv r"
  shows "registry_inv (releaseToken token r)"
proof (cases "mget (reg_tokens r) token")
  case None
  then show ?thesis using inv by (simp add: releaseToken_def)
next
  case (Some a)
  have pins: "1 \<le> adm_pins a"
    using inv Some by (auto simp: registry_inv_def registry_core_def tokens_ok_def)
  show ?thesis
  proof (cases "adm_pins a - 1 = 0")
    case False
    then show ?thesis
      using pins_update_inv[OF inv Some, of "adm_pins a - 1"] pins Some
      by (simp add: releaseToken_def Let_def)
  next
    case True
    let ?f = "if adm_operation a then (\<lambda>v. v\<lparr>rev_operations := rev_operations v - 1\<rparr>)
              else (\<lambda>v. v\<lparr>rev_leases := rev_leases v - 1\<rparr>)"
    let ?r2 = "upd (adm_revision a) ?f (r\<lparr>reg_tokens := mdel token (reg_tokens r)\<rparr>)"
    have core: "registry_core ?r2"
      using inv tcount_pos[OF Some] unfolding registry_inv_def
      by (auto simp: registry_defs reg_simps tcount_del[OF Some] of_nat_diff split: if_splits)
    have garbage: "no_garbage {adm_revision a} ?r2"
      using inv by (auto simp: registry_inv_def no_garbage_def reg_simps)
    have "releaseToken token r = collectRevisionLocked (adm_revision a) ?r2"
      using Some True by (simp add: releaseToken_def Let_def)
    then show ?thesis
      using collect_inv[OF core garbage] by simp
  qed
qed

lemma Release_inv: "registry_inv r \<Longrightarrow> registry_inv (snd (Release l r))"
  by (simp add: Release_def releaseToken_inv)

lemma PublishResourceGrant_inv:
  "registry_inv r \<Longrightarrow> PublishResourceGrant session rid now r = Inr r' \<Longrightarrow> registry_inv r'"
  by (auto simp: PublishResourceGrant_def Let_def pinned_def split: option.splits if_splits
      intro!: upd_inv)

lemma RetireResourceGrant_inv:
  assumes "registry_inv r"
  shows "registry_inv (snd (RetireResourceGrant session rid now r))"
proof -
  have "registry_inv (collectRevisionLocked p (upd p (\<lambda>v. v\<lparr>rev_state := ResourceGrantDraining,
      rev_accepting := False\<rparr>) (r\<lparr>reg_revokedGrants := m\<rparr>)))" for p m
    using assms by (intro unpinned_update_inv) simp_all
  then show ?thesis
    using assms by (auto simp: RetireResourceGrant_def Let_def split: option.splits)
qed

lemma openRegistrations_fields [simp]:
  "reg_heap (openRegistrations session r) = reg_heap r"
  "reg_next (openRegistrations session r) = reg_next r"
  "reg_revisions (openRegistrations session r) = reg_revisions r"
  "reg_tokens (openRegistrations session r) = reg_tokens r"
  "reg_sessions (openRegistrations session r) = reg_sessions r"
  "reg_revokedGrants (openRegistrations session r) = reg_revokedGrants r"
  "mget0 mempty (reg_registrations (openRegistrations session r)) session =
     mget0 mempty (reg_registrations r) session"
  "registry_inv (openRegistrations session r) = registry_inv r"
  by (simp_all add: openRegistrations_def mhas_def mget0_def)

text \<open>Preparation answers with an error, repeats the id of a known registration, or files a
  new revision in state prepared.\<close>

lemma PrepareResourceGrant_cases:
  obtains (refused) e r' where "PrepareResourceGrant sha snapshot session registration now r = (Inl e, r')"
      "r' = r \<or> r' = openRegistrations session r"
  | (known) p rid where "rid = mget0 [] (mget0 mempty (reg_registrations r) session) registration"
      "rid \<noteq> []" "mget (reg_revisions r) rid = Some p" "sessionLiveLocked session now r"
      "Snap_id (rev_snapshot (reg_heap r p)) = Snap_id snapshot"
      "rev_state (reg_heap r p) \<noteq> ResourceGrantRevoked" "rev_state (reg_heap r p) \<noteq> ResourceGrantDraining"
      "PrepareResourceGrant sha snapshot session registration now r =
        (Inr rid, openRegistrations session r)"
  | (filed) rid v m where "rid = ResourceGrantID sha session registration"
      "\<not> mget0 False (mget0 mempty (reg_revokedGrants r) session) rid"
      "sessionLiveLocked session now r"
      "mget0 [] (mget0 mempty (reg_registrations r) session) registration = []"
      "v = executionRevision0\<lparr>rev_snapshot := snapshot, rev_key := rid, rev_session := session,
             rev_state := ResourceGrantPrepared\<rparr>"
      "m = mput session (mput registration rid (mget0 mempty (reg_registrations r) session))
             (reg_registrations (openRegistrations session r))"
      "PrepareResourceGrant sha snapshot session registration now r =
        (Inr rid, (alloc v (openRegistrations session r))
           \<lparr>reg_revisions := mput rid (reg_next r) (reg_revisions r), reg_registrations := m\<rparr>)"
proof (cases "registration = [] \<or> length registration > 256 \<or> \<not> sessionLiveLocked session now r")
  case True
  then show ?thesis by (intro refused) (auto simp: PrepareResourceGrant_def)
next
  case ok: False
  let ?known = "mget0 [] (mget0 mempty (reg_registrations r) session) registration"
  show ?thesis
  proof (cases "?known = []")
    case False
    show ?thesis
    proof (cases "mget (reg_revisions r) ?known")
      case None
      then show ?thesis
        using ok False
        by (intro refused[of ErrExecutionRetired "openRegistrations session r"])
          (simp_all add: PrepareResourceGrant_def Let_def)
    next
      case (Some p)
      show ?thesis
      proof (cases "Snap_id (rev_snapshot (reg_heap r p)) \<noteq> Snap_id snapshot
          \<or> rev_state (reg_heap r p) = ResourceGrantRevoked
          \<or> rev_state (reg_heap r p) = ResourceGrantDraining")
        case True
        then show ?thesis
          using ok False Some by (intro refused[of ErrExecutionRetired "openRegistrations session r"])
            (simp_all add: PrepareResourceGrant_def Let_def)
      next
        case unretired: False
        then show ?thesis
          using ok False Some by (intro known[of ?known p]) (simp_all add: PrepareResourceGrant_def Let_def)
      qed
    qed
  next
    case True
    let ?rid = "ResourceGrantID sha session registration"
    show ?thesis
    proof (cases "mget0 False (mget0 mempty (reg_revokedGrants r) session) ?rid")
      case revoked: True
      then show ?thesis
        using ok True by (intro refused[of ErrExecutionRetired "openRegistrations session r"])
          (simp_all add: PrepareResourceGrant_def Let_def)
    next
      case False
      then show ?thesis
        using ok True by (intro filed[OF refl _ _ _ refl refl])
          (simp_all add: PrepareResourceGrant_def Let_def reg_simps)
    qed
  qed
qed

lemma PrepareResourceGrant_inv:
  assumes "registry_inv r"
  shows "registry_inv (snd (PrepareResourceGrant sha snapshot session registration now r))"
proof (cases rule: PrepareResourceGrant_cases[of sha snapshot session registration now r])
  case (refused e r')
  then show ?thesis using assms by auto
next
  case (known p rid)
  then show ?thesis using assms by simp
next
  case (filed rid v m)
  have "registry_inv ((alloc v (openRegistrations session r))
      \<lparr>reg_revisions := mput rid (reg_next r) (reg_revisions r)\<rparr>)"
    using file_new_inv[of "openRegistrations session r" v rid] assms filed(5)
    by (simp add: executionRevision0_def pinned_def)
  then have "registry_inv (((alloc v (openRegistrations session r))
      \<lparr>reg_revisions := mput rid (reg_next r) (reg_revisions r)\<rparr>)\<lparr>reg_registrations := m\<rparr>)"
    by (simp only: session_fields_inv)
  then show ?thesis using filed(7) by simp
qed

text \<open>A refused operation leaves the registry as it was; an accepted one adds one operation
  token for the requested resource.\<close>

lemma AcquireResource_cases:
  assumes fresh: "mget (reg_tokens r) (executionToken rnd) = None"
  obtains (denied) e where "AcquireResource rnd grant kind resourceID now r = (Inl e, r)"
  | (granted) p v a where "mget (reg_revisions r) grant = Some p" "v = reg_heap r p"
      "sessionLiveLocked (rev_session v) now r"
      "rev_state v = ResourceGrantPublished \<or> (rev_state v = ResourceGrantDraining \<and> rev_leases v > 0)"
      "resourceID \<noteq> []"
      "declares (Active_Deployment (Snap_active (rev_snapshot v))) kind resourceID"
      "a = \<lparr>adm_revision = p, adm_pins = 1, adm_operation = True, adm_resourceKind = kind,
            adm_resourceID = resourceID\<rparr>"
      "AcquireResource rnd grant kind resourceID now r =
        (Inr \<lparr>lease_token = executionToken rnd, lease_once = False\<rparr>,
         (upd p (\<lambda>v. v\<lparr>rev_operations := rev_operations v + 1\<rparr>) r)
           \<lparr>reg_tokens := mput (executionToken rnd) a (reg_tokens r)\<rparr>)"
proof -
  let ?token = "executionToken rnd"
  let ?a = "\<lambda>p. \<lparr>adm_revision = p, adm_pins = 1, adm_operation = True, adm_resourceKind = kind,
    adm_resourceID = resourceID\<rparr>"
  have swap: "upd p f (r\<lparr>reg_tokens := t\<rparr>) = (upd p f r)\<lparr>reg_tokens := t\<rparr>" for p f t
    by (simp add: upd_def)
  have undo: "r\<lparr>reg_tokens := mdel ?token (mput ?token a (reg_tokens r))\<rparr> = r" for a
    by (simp add: mdel_mput_fresh[OF fresh])
  show ?thesis
  proof (cases "mget (reg_revisions r) grant")
    case None
    then show ?thesis by (intro denied) (simp add: AcquireResource_def)
  next
    case (Some p)
    let ?v = "reg_heap r p"
    let ?open = "sessionLiveLocked (rev_session ?v) now r \<and> (rev_state ?v = ResourceGrantPublished
      \<or> (rev_state ?v = ResourceGrantDraining \<and> rev_leases ?v > 0))"
    let ?declared = "resourceID \<noteq> [] \<and>
      declares (Active_Deployment (Snap_active (rev_snapshot ?v))) kind resourceID"
    have auth: "authorizeLocked ?token kind resourceID now (r\<lparr>reg_tokens := mput ?token (?a p) (reg_tokens r)\<rparr>) =
      (if ?declared then Inr ((Snap_active (rev_snapshot ?v))\<lparr>Active_RuntimeInstance := rev_key ?v\<rparr>)
       else Inl ErrInvalidCapability)"
      by (simp add: authorizeLocked_def Let_def admissionLive_def)
    consider "\<not> ?open" | "?open" "\<not> ?declared" | "?open" "?declared" by blast
    then show ?thesis
    proof cases
      case 1
      then show ?thesis using Some by (intro denied) (simp add: AcquireResource_def Let_def)
    next
      case 2
      then have "AcquireResource rnd grant kind resourceID now r = (Inl ErrInvalidCapability, r)"
        using Some by (simp add: AcquireResource_def Let_def auth undo)
      then show ?thesis by (rule denied)
    next
      case 3
      then have "AcquireResource rnd grant kind resourceID now r =
          (Inr \<lparr>lease_token = ?token, lease_once = False\<rparr>,
           (upd p (\<lambda>v. v\<lparr>rev_operations := rev_operations v + 1\<rparr>) r)
             \<lparr>reg_tokens := mput ?token (?a p) (reg_tokens r)\<rparr>)"
        using Some by (simp add: AcquireResource_def Let_def auth swap)
      then show ?thesis using 3 Some by (intro granted[of p ?v "?a p"]) simp_all
    qed
  qed
qed

lemma AcquireResource_inv:
  assumes inv: "registry_inv r" and fresh: "mget (reg_tokens r) (executionToken rnd) = None"
  shows "registry_inv (snd (AcquireResource rnd grant kind resourceID now r))"
  using fresh
proof (cases rule: AcquireResource_cases[of r rnd grant kind resourceID now])
  case denied
  then show ?thesis using inv by simp
next
  case (granted p v a)
  then show ?thesis
    using new_operation_inv[OF inv fresh granted(1)] by simp
qed

section \<open>Revoking a session\<close>

abbreviation revokes :: "string \<Rightarrow> ExecutionRegistry \<Rightarrow> executionAdmission \<Rightarrow> bool" where
  "revokes session r a \<equiv> rev_session (reg_heap r (adm_revision a)) = session \<and> \<not> adm_operation a"

text \<open>What the first loop does to the registry: exactly the listed ordinary tokens of the
  session go, and of the revisions only the session's lease counters change.\<close>

definition swept :: "string \<Rightarrow> (string \<times> executionAdmission) list \<Rightarrow> ExecutionRegistry
    \<Rightarrow> ExecutionRegistry \<Rightarrow> bool" where
  "swept session ts r r' \<longleftrightarrow>
     (\<forall>t. mget (reg_tokens r') t = (case mget (reg_tokens r) t of None \<Rightarrow> None
       | Some a \<Rightarrow> if (t, a) \<in> set ts \<and> revokes session r a then None else Some a))
   \<and> (\<forall>p. \<exists>n. reg_heap r' p = (reg_heap r p)\<lparr>rev_leases := n\<rparr>
       \<and> (rev_session (reg_heap r p) \<noteq> session \<longrightarrow> n = rev_leases (reg_heap r p)))
   \<and> reg_revisions r' = reg_revisions r \<and> reg_next r' = reg_next r
   \<and> reg_sessions r' = reg_sessions r \<and> reg_registrations r' = reg_registrations r
   \<and> reg_revokedGrants r' = reg_revokedGrants r"

lemma swept_refl: "swept session [] r r"
proof -
  have "(reg_heap r p)\<lparr>rev_leases := rev_leases (reg_heap r p)\<rparr> = reg_heap r p" for p by simp
  then have "\<exists>n. reg_heap r p = (reg_heap r p)\<lparr>rev_leases := n\<rparr>
      \<and> (rev_session (reg_heap r p) \<noteq> session \<longrightarrow> n = rev_leases (reg_heap r p))" for p
    by metis
  then show ?thesis by (simp add: swept_def split: option.split)
qed

lemma revokeTokens_step_core:
  assumes core: "registry_core r" and a: "mget (reg_tokens r) token = Some a" "\<not> adm_operation a"
  shows "registry_core ((upd (adm_revision a) (\<lambda>v. v\<lparr>rev_leases := rev_leases v - 1\<rparr>) r)
    \<lparr>reg_tokens := mdel token (reg_tokens r)\<rparr>)"
  using core a(2) tcount_pos[OF a(1)]
  by (auto simp: registry_defs reg_simps tcount_del[OF a(1)] of_nat_diff split: if_splits)

lemma revokeTokens_swept:
  assumes "distinct (map fst ts)" "\<forall>(t, a) \<in> set ts. mget (reg_tokens r) t = Some a"
    and "registry_core r"
  shows "registry_core (revokeTokens session ts r) \<and> swept session ts r (revokeTokens session ts r)"
  using assms
proof (induction session ts r rule: revokeTokens.induct)
  case (1 session r)
  then show ?case by (simp add: swept_refl)
next
  case (2 session token a ts r)
  let ?r1 = "if revokes session r a
        then (upd (adm_revision a) (\<lambda>v. v\<lparr>rev_leases := rev_leases v - 1\<rparr>) r)
               \<lparr>reg_tokens := mdel token (reg_tokens r)\<rparr>
        else r"
  let ?r' = "revokeTokens session ts ?r1"
  have a: "mget (reg_tokens r) token = Some a" and new: "token \<notin> fst ` set ts"
    and d: "distinct (map fst ts)"
    using 2 by auto
  have session: "rev_session (reg_heap ?r1 p) = rev_session (reg_heap r p)" for p
    by (simp add: reg_simps)
  have tokens: "mget (reg_tokens ?r1) t = (if t = token \<and> revokes session r a then None
      else mget (reg_tokens r) t)" for t
    by auto
  have core: "registry_core ?r1"
    using revokeTokens_step_core[OF 2(4) a] 2(4) by auto
  have "\<forall>(t, b) \<in> set ts. mget (reg_tokens ?r1) t = Some b"
    using 2(3) new by (force simp: tokens)
  from 2(1)[OF d this core] have IH: "registry_core ?r'" "swept session ts ?r1 ?r'" by auto
  have tok: "mget (reg_tokens ?r') t = (case mget (reg_tokens r) t of None \<Rightarrow> None
       | Some b \<Rightarrow> if (t, b) \<in> set ((token, a) # ts) \<and> revokes session r b then None else Some b)" for t
    using IH(2) a new unfolding swept_def session tokens
    by (cases "t = token") (auto split: option.splits simp: image_iff)
  have heap: "\<exists>n. reg_heap ?r' p = (reg_heap r p)\<lparr>rev_leases := n\<rparr>
      \<and> (rev_session (reg_heap r p) \<noteq> session \<longrightarrow> n = rev_leases (reg_heap r p))" for p
  proof -
    obtain m where m: "reg_heap ?r' p = (reg_heap ?r1 p)\<lparr>rev_leases := m\<rparr>"
      "rev_session (reg_heap r p) \<noteq> session \<longrightarrow> m = rev_leases (reg_heap ?r1 p)"
      using IH(2) unfolding swept_def session by blast
    moreover have "(reg_heap ?r1 p)\<lparr>rev_leases := m\<rparr> = (reg_heap r p)\<lparr>rev_leases := m\<rparr>"
      "rev_session (reg_heap r p) \<noteq> session \<longrightarrow> rev_leases (reg_heap ?r1 p) = rev_leases (reg_heap r p)"
      by (auto simp: reg_simps)
    ultimately show ?thesis by metis
  qed
  have "swept session ((token, a) # ts) r ?r'"
    using IH(2) tok heap by (simp add: swept_def reg_simps)
  then show ?case using IH(1) by simp
qed

text \<open>What the second loop does: the listed revisions of the session are revoked, and the
  ones nobody holds leave the table.\<close>

definition revoked_in :: "string \<Rightarrow> (string \<times> nat) list \<Rightarrow> ExecutionRegistry
    \<Rightarrow> ExecutionRegistry \<Rightarrow> bool" where
  "revoked_in session es r r' \<longleftrightarrow>
     (\<forall>k. mget (reg_revisions r') k = (case mget (reg_revisions r) k of None \<Rightarrow> None
       | Some p \<Rightarrow> if (k, p) \<in> set es \<and> rev_session (reg_heap r p) = session
           \<and> rev_leases (reg_heap r p) = 0 \<and> rev_operations (reg_heap r p) = 0
           then None else Some p))
   \<and> (\<forall>p. reg_heap r' p = (if p \<in> snd ` set es \<and> rev_session (reg_heap r p) = session
       then (reg_heap r p)\<lparr>rev_state := ResourceGrantRevoked, rev_accepting := False\<rparr>
       else reg_heap r p))
   \<and> reg_tokens r' = reg_tokens r \<and> reg_next r' = reg_next r
   \<and> reg_sessions r' = reg_sessions r \<and> reg_registrations r' = reg_registrations r
   \<and> reg_revokedGrants r' = reg_revokedGrants r"

lemma revoked_one:
  assumes "mget (reg_revisions r) k = Some p" "rev_key (reg_heap r p) = k"
  defines "r1 \<equiv> collectRevisionLocked p
    (upd p (\<lambda>v. v\<lparr>rev_state := ResourceGrantRevoked, rev_accepting := False\<rparr>) r)"
  shows "reg_heap r1 = (reg_heap r)(p := (reg_heap r p)
      \<lparr>rev_state := ResourceGrantRevoked, rev_accepting := False\<rparr>)"
    and "reg_revisions r1 = (if rev_leases (reg_heap r p) = 0 \<and> rev_operations (reg_heap r p) = 0
      then mdel k (reg_revisions r) else reg_revisions r)"
  using assms by (auto simp: r1_def collectRevisionLocked_def Let_def reg_simps)

lemma revokeRevisions_revoked:
  assumes "distinct (map fst es)" "\<forall>(k, p) \<in> set es. mget (reg_revisions r) k = Some p"
    and "\<forall>(k, p) \<in> set es. rev_key (reg_heap r p) = k"
  shows "revoked_in session es r (revokeRevisions session es r)"
  using assms
proof (induction session es r rule: revokeRevisions.induct)
  case (1 session r)
  then show ?case by (auto simp: revoked_in_def split: option.split)
next
  case (2 session k p es r)
  let ?c = "rev_session (reg_heap r p) = session"
  let ?v = "(reg_heap r p)\<lparr>rev_state := ResourceGrantRevoked, rev_accepting := False\<rparr>"
  let ?gone = "rev_leases (reg_heap r p) = 0 \<and> rev_operations (reg_heap r p) = 0"
  let ?r1 = "if mhas (reg_revisions r) k \<and> ?c then collectRevisionLocked p
      (upd p (\<lambda>v. v\<lparr>rev_state := ResourceGrantRevoked, rev_accepting := False\<rparr>) r) else r"
  let ?r' = "revokeRevisions session es ?r1"
  have p: "mget (reg_revisions r) k = Some p" and key: "rev_key (reg_heap r p) = k"
    and new: "k \<notin> fst ` set es" and d: "distinct (map fst es)"
    using 2 by auto
  have once: "(k', p) \<in> set es \<Longrightarrow> False" for k'
    using 2(4) key new by force
  have heap: "reg_heap ?r1 = (if ?c then (reg_heap r)(p := ?v) else reg_heap r)"
    using revoked_one(1)[OF p key] p by (simp add: mhas_def)
  have table: "reg_revisions ?r1 = (if ?c \<and> ?gone then mdel k (reg_revisions r) else reg_revisions r)"
    using revoked_one(2)[OF p key] p by (simp add: mhas_def)
  have others: "reg_tokens ?r1 = reg_tokens r" "reg_next ?r1 = reg_next r"
    "reg_sessions ?r1 = reg_sessions r" "reg_registrations ?r1 = reg_registrations r"
    "reg_revokedGrants ?r1 = reg_revokedGrants r"
    by (simp_all add: reg_simps)
  have es: "\<forall>(k, p) \<in> set es. mget (reg_revisions ?r1) k = Some p"
    "\<forall>(k, p) \<in> set es. rev_key (reg_heap ?r1 p) = k"
    using 2(3,4) new once unfolding heap table by (force, force)
  from 2(1)[OF d es] have IH: "revoked_in session es ?r1 ?r'" .
  have "mget (reg_revisions ?r') k' = (case mget (reg_revisions r) k' of None \<Rightarrow> None
       | Some q \<Rightarrow> if (k', q) \<in> set ((k, p) # es) \<and> rev_session (reg_heap r q) = session
           \<and> rev_leases (reg_heap r q) = 0 \<and> rev_operations (reg_heap r q) = 0
           then None else Some q)" for k'
  proof -
    have "mget (reg_revisions ?r') k' = (case mget (reg_revisions ?r1) k' of None \<Rightarrow> None
       | Some q \<Rightarrow> if (k', q) \<in> set es \<and> rev_session (reg_heap ?r1 q) = session
           \<and> rev_leases (reg_heap ?r1 q) = 0 \<and> rev_operations (reg_heap ?r1 q) = 0
           then None else Some q)"
      using IH unfolding revoked_in_def by blast
    then show ?thesis
      using p once new unfolding heap table
      by (cases "k' = k") (auto split: option.splits simp: image_iff)
  qed
  moreover have "reg_heap ?r' q = (if q \<in> snd ` set ((k, p) # es) \<and> rev_session (reg_heap r q) = session
       then (reg_heap r q)\<lparr>rev_state := ResourceGrantRevoked, rev_accepting := False\<rparr>
       else reg_heap r q)" for q
  proof -
    have "reg_heap ?r' q = (if q \<in> snd ` set es \<and> rev_session (reg_heap ?r1 q) = session
       then (reg_heap ?r1 q)\<lparr>rev_state := ResourceGrantRevoked, rev_accepting := False\<rparr>
       else reg_heap ?r1 q)"
      using IH unfolding revoked_in_def by blast
    moreover have "p \<notin> snd ` set es" using once by auto
    ultimately show ?thesis unfolding heap by (cases "q = p") simp_all
  qed
  ultimately have "revoked_in session ((k, p) # es) r ?r'"
    using IH unfolding revoked_in_def others by simp
  then show ?case by simp
qed

text \<open>The whole method: a table of its effects.\<close>

definition session_revoked :: "string \<Rightarrow> ExecutionRegistry \<Rightarrow> ExecutionRegistry \<Rightarrow> bool" where
  "session_revoked session r r' \<longleftrightarrow>
     (\<forall>t. mget (reg_tokens r') t = (case mget (reg_tokens r) t of None \<Rightarrow> None
       | Some a \<Rightarrow> if revokes session r a then None else Some a))
   \<and> (\<forall>k. mget (reg_revisions r') k = (case mget (reg_revisions r) k of None \<Rightarrow> None
       | Some p \<Rightarrow> if rev_session (reg_heap r p) = session \<and> rev_operations (reg_heap r p) = 0
           then None else Some p))
   \<and> (\<forall>p. reg_heap r' p = (if rev_session (reg_heap r p) \<noteq> session then reg_heap r p
       else if p \<in> set (mvals (reg_revisions r))
       then (reg_heap r p)\<lparr>rev_leases := 0, rev_state := ResourceGrantRevoked, rev_accepting := False\<rparr>
       else (reg_heap r p)\<lparr>rev_leases := 0\<rparr>))
   \<and> reg_next r' = reg_next r
   \<and> reg_sessions r' = mdel session (reg_sessions r)
   \<and> reg_registrations r' = mdel session (reg_registrations r)
   \<and> reg_revokedGrants r' = mdel session (reg_revokedGrants r)"

lemma swept_all:
  assumes swept: "swept session (mentries (reg_tokens r)) r r2" and core: "registry_core r2"
  shows "mget (reg_tokens r2) t = (case mget (reg_tokens r) t of None \<Rightarrow> None
       | Some a \<Rightarrow> if revokes session r a then None else Some a)"
    and "reg_heap r2 p = (if rev_session (reg_heap r p) \<noteq> session then reg_heap r p
      else (reg_heap r p)\<lparr>rev_leases := 0\<rparr>)"
proof -
  show tokens: "mget (reg_tokens r2) t = (case mget (reg_tokens r) t of None \<Rightarrow> None
       | Some a \<Rightarrow> if revokes session r a then None else Some a)" for t
    using swept by (auto simp: swept_def mem_entries split: option.splits)
  obtain n where n: "reg_heap r2 p = (reg_heap r p)\<lparr>rev_leases := n\<rparr>"
      "rev_session (reg_heap r p) \<noteq> session \<longrightarrow> n = rev_leases (reg_heap r p)"
    using swept unfolding swept_def by blast
  have "n = 0" if "rev_session (reg_heap r p) = session"
  proof -
    have "tcount p False (reg_tokens r2) = 0"
      using tcount_pos_iff[of p False "reg_tokens r2"] that
      by (auto simp: tokens split: option.splits if_splits)
    moreover have "rev_leases (reg_heap r2 p) = n" using n(1) by simp
    ultimately show ?thesis using core by (simp add: registry_core_def counts_ok_def)
  qed
  then show "reg_heap r2 p = (if rev_session (reg_heap r p) \<noteq> session then reg_heap r p
      else (reg_heap r p)\<lparr>rev_leases := 0\<rparr>)"
    using n by auto
qed

lemma RevokeResourceSession_effect:
  assumes inv: "registry_inv r"
  shows "session_revoked session r (RevokeResourceSession session r)"
proof -
  let ?r1 = "r\<lparr>reg_sessions := mdel session (reg_sessions r),
                reg_registrations := mdel session (reg_registrations r),
                reg_revokedGrants := mdel session (reg_revokedGrants r)\<rparr>"
  let ?r2 = "revokeTokens session (mentries (reg_tokens r)) ?r1"
  let ?r' = "RevokeResourceSession session r"
  have core1: "registry_core ?r1"
    using inv by (simp add: registry_inv_def registry_defs)
  have "\<forall>(t, a) \<in> set (mentries (reg_tokens r)). mget (reg_tokens ?r1) t = Some a"
    by (auto simp: mem_entries)
  from revokeTokens_swept[OF _ this core1] have core2: "registry_core ?r2"
    and swept: "swept session (mentries (reg_tokens ?r1)) ?r1 ?r2" by simp_all
  have r': "?r' = revokeRevisions session (mentries (reg_revisions ?r2)) ?r2"
    by (simp add: RevokeResourceSession_def Let_def)
  have rv: "revoked_in session (mentries (reg_revisions ?r2)) ?r2 ?r'"
    unfolding r' using core2
    by (intro revokeRevisions_revoked) (auto simp: mem_entries registry_core_def table_ok_def)
  have same: "reg_revisions ?r2 = reg_revisions r" "reg_next ?r2 = reg_next r"
    "reg_sessions ?r2 = mdel session (reg_sessions r)"
    "reg_registrations ?r2 = mdel session (reg_registrations r)"
    "reg_revokedGrants ?r2 = mdel session (reg_revokedGrants r)"
    using swept by (simp_all add: swept_def)
  have tokens2: "mget (reg_tokens ?r2) t = (case mget (reg_tokens r) t of None \<Rightarrow> None
       | Some a \<Rightarrow> if revokes session r a then None else Some a)" for t
    using swept_all(1)[OF swept core2, of t] by (simp split: option.split)
  have heap2: "reg_heap ?r2 p = (if rev_session (reg_heap r p) \<noteq> session then reg_heap r p
      else (reg_heap r p)\<lparr>rev_leases := 0\<rparr>)" for p
    using swept_all(2)[OF swept core2, of p] by simp
  have table: "mget (reg_revisions ?r') k = (case mget (reg_revisions r) k of None \<Rightarrow> None
       | Some p \<Rightarrow> if rev_session (reg_heap r p) = session \<and> rev_operations (reg_heap r p) = 0
           then None else Some p)" for k
  proof -
    have "mget (reg_revisions ?r') k = (case mget (reg_revisions ?r2) k of None \<Rightarrow> None
       | Some p \<Rightarrow> if (k, p) \<in> set (mentries (reg_revisions ?r2)) \<and> rev_session (reg_heap ?r2 p) = session
           \<and> rev_leases (reg_heap ?r2 p) = 0 \<and> rev_operations (reg_heap ?r2 p) = 0
           then None else Some p)"
      using rv unfolding revoked_in_def by blast
    then show ?thesis
      by (cases "mget (reg_revisions r) k") (simp_all add: heap2 same mem_entries)
  qed
  have heap: "reg_heap ?r' p = (if rev_session (reg_heap r p) \<noteq> session then reg_heap r p
       else if p \<in> set (mvals (reg_revisions r))
       then (reg_heap r p)\<lparr>rev_leases := 0, rev_state := ResourceGrantRevoked, rev_accepting := False\<rparr>
       else (reg_heap r p)\<lparr>rev_leases := 0\<rparr>)" for p
    using rv by (simp add: revoked_in_def heap2 same mvals_def)
  have rest: "reg_tokens ?r' = reg_tokens ?r2" "reg_next ?r' = reg_next ?r2"
    "reg_sessions ?r' = reg_sessions ?r2" "reg_registrations ?r' = reg_registrations ?r2"
    "reg_revokedGrants ?r' = reg_revokedGrants ?r2"
    using rv unfolding revoked_in_def by blast+
  show ?thesis
    unfolding session_revoked_def rest same
    by (intro conjI allI table heap tokens2 refl)
qed

lemma RevokeResourceSession_inv:
  assumes inv: "registry_inv r"
  shows "registry_inv (RevokeResourceSession session r)"
proof -
  let ?r' = "RevokeResourceSession session r"
  note effect = RevokeResourceSession_effect[OF inv, of session, unfolded session_revoked_def]
  have tokens: "mget (reg_tokens ?r') t = (case mget (reg_tokens r) t of None \<Rightarrow> None
       | Some a \<Rightarrow> if revokes session r a then None else Some a)" for t
    using effect by simp
  have same: "tcount p op (reg_tokens ?r') = tcount p op (reg_tokens r)"
    if "op \<or> rev_session (reg_heap r p) \<noteq> session" for p op
    unfolding tcount_def mcount_card using that
    by (intro arg_cong[of _ _ card]) (auto simp: tokens split: option.splits if_splits)
  have gone: "tcount p False (reg_tokens ?r') = 0" if "rev_session (reg_heap r p) = session" for p
    using tcount_pos_iff[of p False "reg_tokens ?r'"] that
    by (auto simp: tokens split: option.splits if_splits)
  have core: "registry_core r" using inv by (simp add: registry_inv_def)
  have "counts_ok ?r'"
    using core effect same gone unfolding registry_core_def counts_ok_def by auto
  moreover have "tokens_ok ?r'"
    using core effect unfolding registry_core_def tokens_ok_def
    by (auto split: option.splits if_splits)
  moreover have "table_ok ?r'"
    using core effect unfolding registry_core_def table_ok_def
    by (auto split: option.splits if_splits)
  moreover have "no_garbage {} ?r'"
    unfolding no_garbage_def
  proof (intro allI impI)
    fix k p
    assume "mget (reg_revisions ?r') k = Some p"
    then have p: "mget (reg_revisions r) k = Some p"
      "\<not> (rev_session (reg_heap r p) = session \<and> rev_operations (reg_heap r p) = 0)"
      using effect by (auto split: option.splits if_splits)
    have "pinned (reg_heap r p)" "0 \<le> rev_operations (reg_heap r p)"
      using inv p(1) by (auto simp: registry_inv_def no_garbage_def registry_core_def counts_ok_def)
    moreover have "reg_heap ?r' p = reg_heap r p" if "rev_session (reg_heap r p) \<noteq> session"
      using effect that by simp
    moreover have "rev_operations (reg_heap ?r' p) = rev_operations (reg_heap r p)"
      using effect by simp
    ultimately show "p \<in> {} \<or> pinned (reg_heap ?r' p)"
      using p(2) by (auto simp: pinned_def)
  qed
  ultimately show ?thesis by (simp add: registry_inv_def registry_core_def)
qed

end
