(* ===== verification/Execution_Runs.thy ===== *)
theory Execution_Runs
  imports Execution_Safety
begin

text \<open>
  Runs of the execution registry: a transition system whose steps are the registry's methods,
  each at its own time, called by clients that keep the lease handles they receive. The client
  facts the registry relies on are the guards of the steps: tokens come from \<open>crypto/rand\<close> and
  do not repeat, runner sessions are fresh non-empty hexadecimal strings that are not renewed
  after they were revoked (\<open>runtime_execution.go\<close> draws them at random), and content
  identities are hexadecimal, hence not prefixed like grant ids.
\<close>

section \<open>The order of grant states\<close>

instantiation ResourceGrantState :: linorder
begin

fun grant_rank :: "ResourceGrantState \<Rightarrow> nat" where
  "grant_rank ResourceGrantUnset = 0"
| "grant_rank ResourceGrantPrepared = 1"
| "grant_rank ResourceGrantPublished = 2"
| "grant_rank ResourceGrantDraining = 3"
| "grant_rank ResourceGrantRevoked = 4"

definition less_eq_ResourceGrantState :: "ResourceGrantState \<Rightarrow> ResourceGrantState \<Rightarrow> bool" where
  "less_eq_ResourceGrantState s t = (grant_rank s \<le> grant_rank t)"

definition less_ResourceGrantState :: "ResourceGrantState \<Rightarrow> ResourceGrantState \<Rightarrow> bool" where
  "less_ResourceGrantState s t = (grant_rank s < grant_rank t)"

instance
proof
  fix s t :: ResourceGrantState
  show "s \<le> t \<Longrightarrow> t \<le> s \<Longrightarrow> s = t"
    by (cases s; cases t) (simp_all add: less_eq_ResourceGrantState_def)
qed (auto simp: less_eq_ResourceGrantState_def less_ResourceGrantState_def)

end

lemma grant_order [simp]:
  "ResourceGrantUnset \<le> s" "s \<le> ResourceGrantRevoked"
  "ResourceGrantPrepared \<le> ResourceGrantPublished"
  "ResourceGrantDraining \<le> s \<longleftrightarrow> s = ResourceGrantDraining \<or> s = ResourceGrantRevoked"
  "s \<le> ResourceGrantDraining \<longleftrightarrow> s \<noteq> ResourceGrantRevoked"
  by (cases s; simp add: less_eq_ResourceGrantState_def)+

section \<open>The transition system\<close>

record ExecutionSystem =
  sys_registry :: ExecutionRegistry
  sys_handles :: "ExecutionLease list"
  sys_closed :: "string list"

definition initial_system :: ExecutionSystem where
  "initial_system = \<lparr>sys_registry = NewExecutionRegistry, sys_handles = [], sys_closed = []\<rparr>"

definition sessionText :: "string \<Rightarrow> bool" where
  "sessionText session = (session \<noteq> [] \<and> char_of (0::nat) \<notin> set session)"

definition freshToken :: "string \<Rightarrow> ExecutionSystem \<Rightarrow> bool" where
  "freshToken rnd s = (executionToken rnd \<notin> set (map lease_token (sys_handles s)))"

inductive exec_step :: "(string \<Rightarrow> string) \<Rightarrow> ExecutionSystem \<Rightarrow> ExecutionSystem \<Rightarrow> bool"
  for sha where
  step_publish: "\<not> hasPrefix (Snap_id snapshot) ''nfgrant_'' \<Longrightarrow>
    exec_step sha s (s\<lparr>sys_registry := Publish snapshot (sys_registry s)\<rparr>)"
| step_retire: "exec_step sha s (s\<lparr>sys_registry := Retire rid (sys_registry s)\<rparr>)"
| step_renew: "sessionText session \<Longrightarrow> session \<notin> set (sys_closed s) \<Longrightarrow>
    exec_step sha s (s\<lparr>sys_registry := RenewResourceSession session expires (sys_registry s)\<rparr>)"
| step_admit: "freshToken rnd s \<Longrightarrow> admit (Inr rnd) rid session now (sys_registry s) = Inr (l, r') \<Longrightarrow>
    exec_step sha s (s\<lparr>sys_registry := r', sys_handles := sys_handles s @ [l]\<rparr>)"
| step_pin: "Pin token now (sys_registry s) = Inr (l, r') \<Longrightarrow>
    exec_step sha s (s\<lparr>sys_registry := r', sys_handles := sys_handles s @ [l]\<rparr>)"
| step_release: "i < length (sys_handles s) \<Longrightarrow> Release (sys_handles s ! i) (sys_registry s) = (l, r') \<Longrightarrow>
    exec_step sha s (s\<lparr>sys_registry := r', sys_handles := (sys_handles s)[i := l]\<rparr>)"
| step_prepare: "0 \<le> now \<Longrightarrow> PrepareResourceGrant sha snapshot session registration now (sys_registry s) = (res, r') \<Longrightarrow>
    exec_step sha s (s\<lparr>sys_registry := r'\<rparr>)"
| step_publish_grant: "PublishResourceGrant session rid now (sys_registry s) = Inr r' \<Longrightarrow>
    exec_step sha s (s\<lparr>sys_registry := r'\<rparr>)"
| step_retire_grant: "0 \<le> now \<Longrightarrow> exec_step sha s
    (s\<lparr>sys_registry := snd (RetireResourceGrant session rid now (sys_registry s))\<rparr>)"
| step_acquire: "freshToken rnd s \<Longrightarrow>
    AcquireResource rnd grant kind resourceID now (sys_registry s) = (Inr l, r') \<Longrightarrow>
    exec_step sha s (s\<lparr>sys_registry := r', sys_handles := sys_handles s @ [l]\<rparr>)"
| step_acquire_denied: "freshToken rnd s \<Longrightarrow>
    AcquireResource rnd grant kind resourceID now (sys_registry s) = (Inl e, r') \<Longrightarrow>
    exec_step sha s (s\<lparr>sys_registry := r'\<rparr>)"
| step_revoke: "sessionText session \<Longrightarrow> exec_step sha s
    (s\<lparr>sys_registry := RevokeResourceSession session (sys_registry s),
       sys_closed := session # sys_closed s\<rparr>)"

inductive_cases exec_stepE: "exec_step sha s s'"

definition reachable :: "(string \<Rightarrow> string) \<Rightarrow> ExecutionSystem \<Rightarrow> bool" where
  "reachable sha s = (exec_step sha)\<^sup>*\<^sup>* initial_system s"

section \<open>The run invariant\<close>

definition held :: "string \<Rightarrow> ExecutionLease list \<Rightarrow> nat" where
  "held token ls = length (filter (\<lambda>l. lease_token l = token \<and> \<not> lease_once l) ls)"

text \<open>The pins of a token are the handles on it that were not released yet.\<close>

definition handles_ok :: "ExecutionSystem \<Rightarrow> bool" where
  "handles_ok s \<longleftrightarrow> (\<forall>t a. mget (reg_tokens (sys_registry s)) t = Some a \<longrightarrow>
     adm_pins a = int (held t (sys_handles s)))"

text \<open>The revision of a token is in the table, where the collector of old artifacts looks.\<close>

definition filed_ok :: "ExecutionRegistry \<Rightarrow> bool" where
  "filed_ok r \<longleftrightarrow> (\<forall>t a. mget (reg_tokens r) t = Some a \<longrightarrow>
     mget (reg_revisions r) (rev_key (reg_heap r (adm_revision a))) = Some (adm_revision a))"

text \<open>The state of a revision fits its flags.\<close>

definition phase_ok :: "executionRevision \<Rightarrow> bool" where
  "phase_ok v \<longleftrightarrow>
     (if rev_session v = [] then rev_state v = ResourceGrantUnset
      else rev_state v \<noteq> ResourceGrantUnset
        \<and> (rev_accepting v \<longleftrightarrow> rev_state v = ResourceGrantPublished)
        \<and> (rev_state v = ResourceGrantPrepared \<or> rev_state v = ResourceGrantRevoked \<longrightarrow> rev_leases v = 0)
        \<and> (rev_state v = ResourceGrantDraining \<longrightarrow> 0 < rev_leases v))"

definition phases_ok :: "ExecutionRegistry \<Rightarrow> bool" where
  "phases_ok r \<longleftrightarrow> (\<forall>p < reg_next r. phase_ok (reg_heap r p))"

abbreviation registered :: "ExecutionRegistry \<Rightarrow> string \<Rightarrow> string \<Rightarrow> string" where
  "registered r session registration \<equiv> mget0 [] (mget0 mempty (reg_registrations r) session) registration"

text \<open>A filed grant carries the id of its session and registration, and the registration is
  on record until the session is closed.\<close>

definition entry_ok :: "(string \<Rightarrow> string) \<Rightarrow> string list \<Rightarrow> ExecutionRegistry \<Rightarrow> string \<Rightarrow> nat \<Rightarrow> bool" where
  "entry_ok sha gone r k p \<longleftrightarrow>
     (if rev_session (reg_heap r p) = [] then \<not> hasPrefix k ''nfgrant_''
      else sessionText (rev_session (reg_heap r p))
        \<and> (\<exists>g. k = ResourceGrantID sha (rev_session (reg_heap r p)) g
             \<and> (rev_session (reg_heap r p) \<in> set gone
               \<or> registered r (rev_session (reg_heap r p)) g = k)))"

definition entries_ok :: "(string \<Rightarrow> string) \<Rightarrow> string list \<Rightarrow> ExecutionRegistry \<Rightarrow> bool" where
  "entries_ok sha gone r \<longleftrightarrow> (\<forall>k p. mget (reg_revisions r) k = Some p \<longrightarrow> entry_ok sha gone r k p)"

definition registrations_ok :: "(string \<Rightarrow> string) \<Rightarrow> ExecutionRegistry \<Rightarrow> bool" where
  "registrations_ok sha r \<longleftrightarrow> (\<forall>session g. registered r session g \<noteq> [] \<longrightarrow>
     registered r session g = ResourceGrantID sha session g)"

definition sessions_ok :: "string list \<Rightarrow> ExecutionRegistry \<Rightarrow> bool" where
  "sessions_ok gone r \<longleftrightarrow> (\<forall>session. mhas (reg_sessions r) session \<longrightarrow>
     sessionText session \<and> session \<notin> set gone)"

definition structure_ok :: "(string \<Rightarrow> string) \<Rightarrow> string list \<Rightarrow> ExecutionRegistry \<Rightarrow> bool" where
  "structure_ok sha gone r \<longleftrightarrow> registry_inv r \<and> filed_ok r \<and> phases_ok r
     \<and> entries_ok sha gone r \<and> registrations_ok sha r \<and> sessions_ok gone r"

definition system_inv :: "(string \<Rightarrow> string) \<Rightarrow> ExecutionSystem \<Rightarrow> bool" where
  "system_inv sha s \<longleftrightarrow> handles_ok s \<and> structure_ok sha (sys_closed s) (sys_registry s)"

lemmas structure_defs = filed_ok_def phases_ok_def entries_ok_def entry_ok_def
  registrations_ok_def sessions_ok_def

lemma initial_inv: "system_inv sha initial_system"
  by (simp add: system_inv_def structure_ok_def handles_ok_def initial_system_def
      NewExecutionRegistry_inv structure_defs)
    (simp add: NewExecutionRegistry_def)

text \<open>What later states keep of the revisions of earlier ones: snapshot, key and session are
  frozen and the grant state only advances.\<close>

definition evolves :: "ExecutionRegistry \<Rightarrow> ExecutionRegistry \<Rightarrow> bool" where
  "evolves r r' \<longleftrightarrow> reg_next r \<le> reg_next r' \<and> (\<forall>p < reg_next r.
     rev_snapshot (reg_heap r' p) = rev_snapshot (reg_heap r p)
   \<and> rev_key (reg_heap r' p) = rev_key (reg_heap r p)
   \<and> rev_session (reg_heap r' p) = rev_session (reg_heap r p)
   \<and> rev_state (reg_heap r p) \<le> rev_state (reg_heap r' p))"

lemma evolves_refl [simp]: "evolves r r"
  by (simp add: evolves_def)

lemma evolves_trans:
  assumes "evolves r1 r2" "evolves r2 r3"
  shows "evolves r1 r3"
  unfolding evolves_def
proof (intro conjI allI impI)
  show "reg_next r1 \<le> reg_next r3"
    using assms by (simp add: evolves_def)
  fix p
  assume "p < reg_next r1"
  moreover from this have "p < reg_next r2"
    using assms(1) by (simp add: evolves_def)
  ultimately show "rev_snapshot (reg_heap r3 p) = rev_snapshot (reg_heap r1 p)"
    "rev_key (reg_heap r3 p) = rev_key (reg_heap r1 p)"
    "rev_session (reg_heap r3 p) = rev_session (reg_heap r1 p)"
    "rev_state (reg_heap r1 p) \<le> rev_state (reg_heap r3 p)"
    using assms order_trans[of "rev_state (reg_heap r1 p)" "rev_state (reg_heap r2 p)"]
    by (simp_all add: evolves_def)
qed

section \<open>Every step keeps the invariant and evolves the revisions\<close>

definition good_step :: "(string \<Rightarrow> string) \<Rightarrow> string list \<Rightarrow> ExecutionRegistry
    \<Rightarrow> ExecutionRegistry \<Rightarrow> bool" where
  "good_step sha gone r r' \<longleftrightarrow> structure_ok sha gone r' \<and> evolves r r'"

lemma good_step_refl: "structure_ok sha gone r \<Longrightarrow> good_step sha gone r r"
  by (simp add: good_step_def)

lemma structure_tableD:
  assumes "structure_ok sha gone r" "mget (reg_revisions r) k = Some p"
  shows "p < reg_next r" "rev_key (reg_heap r p) = k" "phase_ok (reg_heap r p)"
    "entry_ok sha gone r k p" "registry_inv r"
  using assms by (auto simp: structure_ok_def registry_inv_def registry_core_def table_ok_def
      phases_ok_def entries_ok_def)

lemma structure_filedD:
  assumes "structure_ok sha gone r" "mget (reg_tokens r) t = Some a" "adm_revision a = q"
  shows "mget (reg_revisions r) (rev_key (reg_heap r q)) = Some q"
  using assms by (auto simp: structure_ok_def filed_ok_def)

lemma structure_fresh: "structure_ok sha gone r \<Longrightarrow> mget (reg_revisions r) k = Some p \<Longrightarrow>
    p \<noteq> reg_next r"
  using structure_tableD(1) by force

text \<open>An assignment through a revision pointer that keeps key and session.\<close>

lemma upd_good:
  assumes st: "structure_ok sha gone r" and inv: "registry_inv (upd p f r)"
    and keep: "rev_key (f (reg_heap r p)) = rev_key (reg_heap r p)"
      "rev_session (f (reg_heap r p)) = rev_session (reg_heap r p)"
      "rev_snapshot (f (reg_heap r p)) = rev_snapshot (reg_heap r p)"
    and phase: "phase_ok (f (reg_heap r p))"
      "rev_state (reg_heap r p) \<le> rev_state (f (reg_heap r p))"
  shows "good_step sha gone r (upd p f r)"
proof -
  have heap: "rev_key (reg_heap (upd p f r) q) = rev_key (reg_heap r q)"
    "rev_session (reg_heap (upd p f r) q) = rev_session (reg_heap r q)"
    "rev_snapshot (reg_heap (upd p f r) q) = rev_snapshot (reg_heap r q)" for q
    using keep by (simp_all add: reg_simps)
  have "evolves r (upd p f r)"
    unfolding evolves_def heap using phase(2) by (simp add: reg_simps)
  moreover have "phases_ok (upd p f r)"
    using st phase(1) by (simp add: structure_ok_def phases_ok_def reg_simps)
  ultimately show ?thesis
    using st inv unfolding good_step_def structure_ok_def filed_ok_def entries_ok_def entry_ok_def
      registrations_ok_def sessions_ok_def heap
    by (simp only: reg_simps) blast
qed

text \<open>Recording a registration.\<close>

lemma ResourceGrantID_nonempty [simp]: "ResourceGrantID sha session g \<noteq> []"
  "[] \<noteq> ResourceGrantID sha session g"
  by (simp_all add: ResourceGrantID_def)

lemma register_structure:
  assumes st: "structure_ok sha gone r" and new: "registered r session g = []"
    and m: "m = mput session (mput g (ResourceGrantID sha session g)
      (mget0 mempty (reg_registrations r) session)) ms"
      "\<And>S. mget0 mempty ms S = mget0 mempty (reg_registrations r) S"
  shows "structure_ok sha gone (r\<lparr>reg_registrations := m\<rparr>)"
proof -
  let ?r' = "r\<lparr>reg_registrations := m\<rparr>"
  have reg: "registered ?r' S g' = (if S = session \<and> g' = g then ResourceGrantID sha session g
      else registered r S g')" for S g'
    using m by simp
  have "entries_ok sha gone ?r'"
    unfolding entries_ok_def
  proof (intro allI impI)
    fix k p
    assume "mget (reg_revisions ?r') k = Some p"
    then have "entry_ok sha gone r k p"
      using st by (simp add: structure_ok_def entries_ok_def)
    then show "entry_ok sha gone ?r' k p"
      using new ResourceGrantID_nonempty[of sha session g] unfolding entry_ok_def reg
      by (cases "rev_session (reg_heap r p) = []") (simp_all, metis)
  qed
  moreover have "registrations_ok sha ?r'"
    using st unfolding structure_ok_def registrations_ok_def reg by simp
  ultimately show ?thesis
    using st by (simp add: structure_ok_def filed_ok_def phases_ok_def sessions_ok_def)
qed

lemma openRegistrations_structure:
  "structure_ok sha gone r \<Longrightarrow> structure_ok sha gone (openRegistrations session r)"
proof -
  have "registered (openRegistrations session r) S g = registered r S g" for S g
    by (simp add: openRegistrations_def mhas_def mget0_def)
  then show "structure_ok sha gone r \<Longrightarrow> structure_ok sha gone (openRegistrations session r)"
    by (simp add: structure_ok_def structure_defs)
qed

text \<open>Filing a new revision under a key the table does not have.\<close>

lemma file_good:
  assumes st: "structure_ok sha gone r" and free: "mget (reg_revisions r) k = None"
    and v: "rev_leases v = 0" "rev_operations v = 0" "rev_key v = k" "pinned v" "phase_ok v"
    and entry: "if rev_session v = [] then \<not> hasPrefix k ''nfgrant_''
      else sessionText (rev_session v) \<and> (\<exists>g. k = ResourceGrantID sha (rev_session v) g
        \<and> registered r (rev_session v) g = k)"
  shows "good_step sha gone r ((alloc v r)\<lparr>reg_revisions := mput k (reg_next r) (reg_revisions r)\<rparr>)"
proof -
  let ?r' = "(alloc v r)\<lparr>reg_revisions := mput k (reg_next r) (reg_revisions r)\<rparr>"
  have inv: "registry_inv ?r'"
    using file_new_inv[of r v k] st v by (simp add: structure_ok_def)
  have "filed_ok ?r'"
    unfolding filed_ok_def
  proof (intro allI impI)
    fix t a
    assume "mget (reg_tokens ?r') t = Some a"
    then have t: "mget (reg_tokens r) t = Some a" by (simp add: reg_simps)
    then have filed: "mget (reg_revisions r) (rev_key (reg_heap r (adm_revision a))) = Some (adm_revision a)"
      using st by (simp add: structure_ok_def filed_ok_def)
    then have "adm_revision a \<noteq> reg_next r"
      using structure_tableD(1)[OF st filed] by simp
    then show "mget (reg_revisions ?r') (rev_key (reg_heap ?r' (adm_revision a))) = Some (adm_revision a)"
      using free filed by (auto simp: reg_simps)
  qed
  moreover have "phases_ok ?r'"
    using st v unfolding structure_ok_def phases_ok_def by (auto simp: reg_simps less_Suc_eq)
  moreover have "entries_ok sha gone ?r'"
    unfolding entries_ok_def
  proof (intro allI impI)
    fix k' p
    assume "mget (reg_revisions ?r') k' = Some p"
    then have k': "(if k' = k then Some (reg_next r) else mget (reg_revisions r) k') = Some p"
      by simp
    show "entry_ok sha gone ?r' k' p"
    proof (cases "k' = k")
      case True
      then show ?thesis using entry k' by (auto simp: entry_ok_def reg_simps)
    next
      case False
      with k' have old: "mget (reg_revisions r) k' = Some p" by simp
      then have "p \<noteq> reg_next r" "entry_ok sha gone r k' p"
        using structure_tableD[OF st old] by simp_all
      then show ?thesis by (simp add: entry_ok_def reg_simps)
    qed
  qed
  ultimately show ?thesis
    using st inv unfolding good_step_def structure_ok_def registrations_ok_def sessions_ok_def
      evolves_def
    by (simp add: reg_simps)
qed

text \<open>The methods that end in the collector change one revision and the tokens, then collect
  at the same pointer.\<close>

definition collected :: "executionRevision \<Rightarrow> executionRevision" where
  "collected v = (if \<not> rev_accepting v \<and> rev_state v \<noteq> ResourceGrantPrepared
      \<and> rev_state v \<noteq> ResourceGrantUnset \<and> rev_leases v = 0
    then v\<lparr>rev_state := ResourceGrantRevoked\<rparr> else v)"

lemma collect_heap_eq:
  "reg_heap (collectRevisionLocked p r) = (reg_heap r)(p := collected (reg_heap r p))"
  by (auto simp: collectRevisionLocked_def Let_def reg_simps collected_def)

lemma collected_fields [simp]:
  "rev_key (collected v) = rev_key v" "rev_session (collected v) = rev_session v"
  "rev_snapshot (collected v) = rev_snapshot v" "rev_leases (collected v) = rev_leases v"
  "rev_operations (collected v) = rev_operations v" "rev_accepting (collected v) = rev_accepting v"
  by (simp_all add: collected_def)

lemma collect_good:
  assumes st: "structure_ok sha gone r" and p: "mget (reg_revisions r) k = Some p"
    and core: "registry_core (r2 :: ExecutionRegistry)" "no_garbage {p} r2"
    and r2: "r2 = (upd p f r)\<lparr>reg_tokens := ts\<rparr>"
    and ts: "\<And>t a'. mget ts t = Some a' \<Longrightarrow>
      \<exists>a. mget (reg_tokens r) t = Some a \<and> adm_revision a = adm_revision a'"
    and keep: "rev_key (f (reg_heap r p)) = rev_key (reg_heap r p)"
      "rev_session (f (reg_heap r p)) = rev_session (reg_heap r p)"
      "rev_snapshot (f (reg_heap r p)) = rev_snapshot (reg_heap r p)"
    and phase: "phase_ok (collected (f (reg_heap r p)))"
      "rev_state (reg_heap r p) \<le> rev_state (collected (f (reg_heap r p)))"
  shows "good_step sha gone r (collectRevisionLocked p r2)"
proof -
  let ?r' = "collectRevisionLocked p r2"
  have inv: "registry_inv ?r'" using core by (rule collect_inv)
  have heap': "reg_heap ?r' = (reg_heap r)(p := collected (f (reg_heap r p)))"
    by (simp add: collect_heap_eq r2 reg_simps)
  have heap: "rev_key (reg_heap ?r' q) = rev_key (reg_heap r q)"
    "rev_session (reg_heap ?r' q) = rev_session (reg_heap r q)"
    "rev_snapshot (reg_heap ?r' q) = rev_snapshot (reg_heap r q)" for q
    by (simp_all add: heap' keep)
  have same: "reg_next ?r' = reg_next r" "reg_tokens ?r' = ts" "reg_sessions ?r' = reg_sessions r"
    "reg_registrations ?r' = reg_registrations r"
    by (simp_all add: reg_simps r2)
  have "evolves r ?r'"
    unfolding evolves_def heap same using phase(2) by (simp add: heap')
  moreover have "phases_ok ?r'"
    using st phase(1) by (simp add: structure_ok_def phases_ok_def same heap')
  moreover have "mget (reg_revisions ?r') k' = Some q \<Longrightarrow> mget (reg_revisions r) k' = Some q" for k' q
    by (auto simp: collect_revisions r2 reg_simps split: if_splits)
  moreover have "entry_ok sha gone ?r' k' q = entry_ok sha gone r k' q" for k' q
    unfolding entry_ok_def heap same by simp
  ultimately have "evolves r ?r'" "phases_ok ?r'" "entries_ok sha gone ?r'"
    using st unfolding structure_ok_def entries_ok_def by simp_all
  moreover have "filed_ok ?r'"
    unfolding filed_ok_def same heap
  proof (intro allI impI)
    fix t a'
    assume t: "mget ts t = Some a'"
    let ?q = "adm_revision a'"
    have filed: "mget (reg_revisions r) (rev_key (reg_heap r ?q)) = Some ?q"
      using ts[OF t] structure_filedD[OF st] by blast
    have "0 < holders ?q (adm_operation a') r2"
      using tcount_pos[OF t] by (simp add: r2)
    then have "0 < rev_leases (reg_heap r2 ?q) \<or> 0 < rev_operations (reg_heap r2 ?q)"
      using core(1) by (cases "adm_operation a'") (auto simp: registry_core_def counts_ok_def)
    moreover have "rev_key (reg_heap r2 p) = rev_key (reg_heap r p)"
      by (simp add: r2 reg_simps keep)
    ultimately show "mget (reg_revisions ?r') (rev_key (reg_heap r ?q)) = Some ?q"
      using filed structure_tableD(2)[OF st p] p
      by (cases "?q = p") (simp_all add: collect_revisions r2 reg_simps, auto)
  qed
  ultimately show ?thesis
    using st inv unfolding good_step_def structure_ok_def registrations_ok_def sessions_ok_def same
    by simp
qed

text \<open>Retirement: the flags are lowered and the collector runs.\<close>

lemma retire_good:
  assumes st: "structure_ok sha gone r" and p: "mget (reg_revisions r) k = Some p"
    and f: "f (reg_heap r p) = (reg_heap r p)\<lparr>rev_accepting := False, rev_state :=
      (if rev_session (reg_heap r p) = [] then ResourceGrantUnset else ResourceGrantDraining)\<rparr>"
  shows "good_step sha gone r (collectRevisionLocked p (upd p f r))"
proof -
  note v = structure_tableD[OF st p]
  have pos: "0 \<le> rev_leases (reg_heap r p)"
    using v(5) by (simp add: registry_inv_def registry_core_def counts_ok_def)
  have phase: "phase_ok (collected (f (reg_heap r p)))"
    "rev_state (reg_heap r p) \<le> rev_state (collected (f (reg_heap r p)))"
    using v(3) pos by (auto simp: phase_ok_def collected_def f)
  have core: "registry_core (upd p f r)" "no_garbage {p} (upd p f r)"
    using v(5) f upd_core[of r f p] upd_garbage[of "{}" r p f] by (simp_all add: registry_inv_def)
  have "upd p f r = (upd p f r)\<lparr>reg_tokens := reg_tokens r\<rparr>"
    by (simp add: upd_def)
  from collect_good[OF st p core this _ _ _ _ phase] show ?thesis by (simp add: f)
qed

text \<open>A new token for a filed revision.\<close>

lemma new_token_good:
  assumes st: "structure_ok sha gone r" and p: "mget (reg_revisions r) k = Some p"
    and inv: "registry_inv ((upd p f r)\<lparr>reg_tokens := ts\<rparr>)"
    and ts: "\<And>t a'. mget ts t = Some a' \<Longrightarrow> adm_revision a' = p \<or>
      (\<exists>a. mget (reg_tokens r) t = Some a \<and> adm_revision a = adm_revision a')"
    and f: "rev_key (f (reg_heap r p)) = rev_key (reg_heap r p)"
      "rev_session (f (reg_heap r p)) = rev_session (reg_heap r p)"
      "rev_snapshot (f (reg_heap r p)) = rev_snapshot (reg_heap r p)"
      "rev_state (f (reg_heap r p)) = rev_state (reg_heap r p)" "phase_ok (f (reg_heap r p))"
  shows "good_step sha gone r ((upd p f r)\<lparr>reg_tokens := ts\<rparr>)"
proof -
  let ?r' = "(upd p f r)\<lparr>reg_tokens := ts\<rparr>"
  have heap: "rev_key (reg_heap ?r' q) = rev_key (reg_heap r q)"
    "rev_session (reg_heap ?r' q) = rev_session (reg_heap r q)"
    "rev_snapshot (reg_heap ?r' q) = rev_snapshot (reg_heap r q)"
    "rev_state (reg_heap ?r' q) = rev_state (reg_heap r q)" for q
    by (simp_all add: reg_simps f)
  have same: "reg_next ?r' = reg_next r" "reg_tokens ?r' = ts" "reg_sessions ?r' = reg_sessions r"
    "reg_registrations ?r' = reg_registrations r" "reg_revisions ?r' = reg_revisions r"
    by (simp_all add: reg_simps)
  have "filed_ok ?r'"
    unfolding filed_ok_def heap same
  proof (intro allI impI)
    fix t a'
    assume "mget ts t = Some a'"
    from ts[OF this] show "mget (reg_revisions r) (rev_key (reg_heap r (adm_revision a'))) = Some (adm_revision a')"
      using p structure_tableD(2)[OF st p] structure_filedD[OF st] by auto
  qed
  moreover have "phases_ok ?r'"
    using st f(5) unfolding structure_ok_def phases_ok_def same by (simp add: reg_simps)
  moreover have "entries_ok sha gone ?r'"
    using st unfolding structure_ok_def entries_ok_def entry_ok_def heap same by blast
  moreover have "evolves r ?r'"
    unfolding evolves_def heap same by simp
  ultimately show ?thesis
    using st inv unfolding good_step_def structure_ok_def registrations_ok_def sessions_ok_def same
    by blast
qed


subsection \<open>The methods\<close>

lemma session_live_known:
  assumes "structure_ok sha gone r" "sessionLiveLocked session now r" "0 \<le> now"
  shows "sessionText session" "session \<notin> set gone"
proof -
  have "mhas (reg_sessions r) session"
    using assms(2,3) by (auto simp: sessionLiveLocked_def mget0_def mhas_def split: option.splits)
  then show "sessionText session" "session \<notin> set gone"
    using assms(1) by (simp_all add: structure_ok_def sessions_ok_def)
qed

lemma phase_ok_accepting:
  assumes "phase_ok v" "0 \<le> rev_leases v" "rev_accepting v"
  shows "phase_ok (v\<lparr>rev_leases := rev_leases v + 1\<rparr>)"
  using assms by (auto simp: phase_ok_def)

lemma Publish_good:
  assumes st: "structure_ok sha gone r" and id: "\<not> hasPrefix (Snap_id snapshot) ''nfgrant_''"
  shows "good_step sha gone r (Publish snapshot r)"
proof (cases "mget (reg_revisions r) (Snap_id snapshot)")
  case None
  let ?v = "executionRevision0\<lparr>rev_snapshot := snapshot, rev_key := Snap_id snapshot,
    rev_accepting := True\<rparr>"
  have "good_step sha gone r ((alloc ?v r)\<lparr>reg_revisions := mput (Snap_id snapshot) (reg_next r) (reg_revisions r)\<rparr>)"
    using id by (intro file_good[OF st None]) (simp_all add: executionRevision0_def pinned_def phase_ok_def)
  then show ?thesis using None by (simp add: Publish_def Let_def reg_simps)
next
  case (Some p)
  note v = structure_tableD[OF st Some]
  have "rev_session (reg_heap r p) = []"
    using v(4) id by (auto simp: entry_ok_def ResourceGrantID_def hasPrefix_def split: if_splits)
  moreover have "Publish snapshot r = upd p (\<lambda>v. v\<lparr>rev_accepting := True\<rparr>) r"
    using Some by (simp add: Publish_def)
  moreover have "registry_inv (Publish snapshot r)"
    using v(5) by (rule Publish_inv)
  ultimately show ?thesis
    using v(3) by (auto simp: phase_ok_def intro!: upd_good[OF st])
qed

lemma Retire_good:
  assumes st: "structure_ok sha gone r"
  shows "good_step sha gone r (Retire rid r)"
proof (cases "mget (reg_revisions r) rid")
  case None
  then show ?thesis using good_step_refl[OF st] by (simp add: Retire_def)
next
  case (Some p)
  then show ?thesis
    using structure_tableD(3)[OF st Some]
    by (auto simp: Retire_def phase_ok_def intro!: retire_good[OF st Some])
qed

lemma RenewResourceSession_good:
  assumes "structure_ok sha gone r" "sessionText session" "session \<notin> set gone"
  shows "good_step sha gone r (RenewResourceSession session expires r)"
  using assms
  by (auto simp: good_step_def structure_ok_def structure_defs RenewResourceSession_def evolves_def)

lemma admit_cases:
  assumes "admit (Inr rnd) rid session now r = Inr (l, r')"
  obtains p a where "mget (reg_revisions r) rid = Some p" "rev_accepting (reg_heap r p)"
    "session \<noteq> [] \<Longrightarrow> rev_session (reg_heap r p) = session"
    "rev_session (reg_heap r p) \<noteq> [] \<Longrightarrow> sessionLiveLocked (rev_session (reg_heap r p)) now r"
    "l = \<lparr>lease_token = executionToken rnd, lease_once = False\<rparr>"
    "a = \<lparr>adm_revision = p, adm_pins = 1, adm_operation = False,
        adm_resourceKind = ExecutionNoKind, adm_resourceID = []\<rparr>"
    "r' = (upd p (\<lambda>v. v\<lparr>rev_leases := rev_leases v + 1\<rparr>) r)
        \<lparr>reg_tokens := mput (executionToken rnd) a (reg_tokens r)\<rparr>"
  using assms by (auto simp: admit_def Let_def reg_simps split: option.splits if_splits)

lemma put_token_from:
  assumes "mget (mput token a ts) t = Some a'" "adm_revision a = p"
  shows "adm_revision a' = p \<or> (\<exists>b. mget ts t = Some b \<and> adm_revision b = adm_revision a')"
  using assms by (cases "t = token") simp_all

lemma admit_good:
  assumes st: "structure_ok sha gone r" and ok: "admit (Inr rnd) rid session now r = Inr (l, r')"
    and fresh: "mget (reg_tokens r) (executionToken rnd) = None"
  shows "good_step sha gone r r'"
  using ok
proof (cases rule: admit_cases)
  case (1 p a)
  note v = structure_tableD[OF st 1(1)]
  have "0 \<le> rev_leases (reg_heap r p)"
    using v(5) by (simp add: registry_inv_def registry_core_def counts_ok_def)
  then have "phase_ok ((reg_heap r p)\<lparr>rev_leases := rev_leases (reg_heap r p) + 1\<rparr>)"
    using v(3) 1(2) by (intro phase_ok_accepting)
  moreover have "registry_inv r'"
    using admit_inv[OF v(5) ok] fresh 1(5) by simp
  moreover have "adm_revision a = p" using 1(6) by simp
  ultimately show ?thesis
    unfolding 1(7) using put_token_from[of "executionToken rnd" a "reg_tokens r"]
    by (intro new_token_good[OF st 1(1)]) simp_all
qed


lemma Pin_good:
  assumes st: "structure_ok sha gone r" and ok: "Pin token now r = Inr (l, r')"
  shows "good_step sha gone r r'"
proof -
  from ok obtain a where a: "mget (reg_tokens r) token = Some a"
    and r': "r' = r\<lparr>reg_tokens := mput token (a\<lparr>adm_pins := adm_pins a + 1\<rparr>) (reg_tokens r)\<rparr>"
    by (auto simp: Pin_def split: option.splits if_splits)
  have p: "mget (reg_revisions r) (rev_key (reg_heap r (adm_revision a))) = Some (adm_revision a)"
    using structure_filedD[OF st a refl] .
  have eq: "r' = (upd (adm_revision a) (\<lambda>v. v) r)\<lparr>reg_tokens :=
      mput token (a\<lparr>adm_pins := adm_pins a + 1\<rparr>) (reg_tokens r)\<rparr>"
    by (simp add: r' upd_def)
  have "registry_inv r'"
    using Pin_inv ok structure_tableD(5)[OF st p] by blast
  then show ?thesis
    using structure_tableD(3)[OF st p] put_token_from[of token "a\<lparr>adm_pins := adm_pins a + 1\<rparr>" "reg_tokens r"]
    unfolding eq by (intro new_token_good[OF st p]) simp_all
qed

lemma PublishResourceGrant_good:
  assumes st: "structure_ok sha gone r" and ok: "PublishResourceGrant session rid now r = Inr r'"
  shows "good_step sha gone r r'"
proof -
  from ok obtain p where p: "mget (reg_revisions r) rid = Some p"
    and state: "rev_state (reg_heap r p) = ResourceGrantPrepared \<or> rev_state (reg_heap r p) = ResourceGrantPublished"
    and r': "r' = upd p (\<lambda>v. v\<lparr>rev_state := ResourceGrantPublished, rev_accepting := True\<rparr>) r"
    by (auto simp: PublishResourceGrant_def Let_def split: option.splits if_splits)
  note v = structure_tableD[OF st p]
  have "registry_inv r'"
    using PublishResourceGrant_inv[OF v(5) ok] .
  then show ?thesis
    using v(3) state unfolding r'
    by (intro upd_good[OF st]) (auto simp: phase_ok_def split: if_splits)
qed

lemma RetireResourceGrant_good:
  assumes st: "structure_ok sha gone r" and now: "0 \<le> now"
  shows "good_step sha gone r (snd (RetireResourceGrant session rid now r))"
proof -
  have marked: "structure_ok sha gone (r\<lparr>reg_revokedGrants := m\<rparr>)" "evolves r (r\<lparr>reg_revokedGrants := m\<rparr>)" for m
    using st by (simp_all add: structure_ok_def structure_defs evolves_def)
  show ?thesis
  proof (cases "sessionLiveLocked session now r \<and> (\<forall>p. mget (reg_revisions r) rid = Some p \<longrightarrow>
      rev_session (reg_heap r p) = session)")
    case False
    then show ?thesis
      using good_step_refl[OF st] by (auto simp: RetireResourceGrant_def split: option.splits)
  next
    case live: True
    let ?r1 = "r\<lparr>reg_revokedGrants := mput session (mput rid True (mget0 mempty (reg_revokedGrants r) session))
      (reg_revokedGrants r)\<rparr>"
    have session: "session \<noteq> []"
      using session_live_known[OF st _ now] live by (simp add: sessionText_def)
    show ?thesis
    proof (cases "mget (reg_revisions r) rid")
      case None
      then show ?thesis
        using live marked by (simp add: RetireResourceGrant_def Let_def good_step_def)
    next
      case (Some p)
      let ?f = "\<lambda>v. v\<lparr>rev_state := ResourceGrantDraining, rev_accepting := False\<rparr>"
      have "good_step sha gone ?r1 (collectRevisionLocked p (upd p ?f ?r1))"
        using Some live session by (intro retire_good[OF marked(1), where k = rid]) simp_all
      moreover have "snd (RetireResourceGrant session rid now r) = collectRevisionLocked p (upd p ?f ?r1)"
        using Some live by (simp add: RetireResourceGrant_def Let_def)
      ultimately show ?thesis
        by (auto simp: good_step_def intro: evolves_trans[OF marked(2)])
    qed
  qed
qed

lemma AcquireResource_good:
  assumes st: "structure_ok sha gone r" and fresh: "mget (reg_tokens r) (executionToken rnd) = None"
  shows "good_step sha gone r (snd (AcquireResource rnd grant kind resourceID now r))"
  using fresh
proof (cases rule: AcquireResource_cases[of r rnd grant kind resourceID now])
  case denied
  then show ?thesis using good_step_refl[OF st] by simp
next
  case (granted p v a)
  note tab = structure_tableD[OF st granted(1)]
  have "registry_inv (snd (AcquireResource rnd grant kind resourceID now r))"
    using AcquireResource_inv[OF tab(5) fresh] .
  moreover have "phase_ok ((reg_heap r p)\<lparr>rev_operations := n\<rparr>)" for n
    using tab(3) by (simp add: phase_ok_def)
  moreover have "adm_revision a = p" using granted(7) by simp
  ultimately show ?thesis
    unfolding granted(8) snd_conv using put_token_from[of "executionToken rnd" a "reg_tokens r"]
    by (intro new_token_good[OF st granted(1)]) simp_all
qed


lemma upd_tokens: "upd p f (r\<lparr>reg_tokens := ts\<rparr>) = (upd p f r)\<lparr>reg_tokens := ts\<rparr>"
  by (simp add: upd_def)

lemma releaseToken_good:
  assumes st: "structure_ok sha gone r" and a: "mget (reg_tokens r) token = Some a"
  shows "good_step sha gone r (releaseToken token r)"
proof -
  let ?p = "adm_revision a"
  have p: "mget (reg_revisions r) (rev_key (reg_heap r ?p)) = Some ?p"
    using structure_filedD[OF st a refl] .
  note v = structure_tableD[OF st p]
  have pins: "1 \<le> adm_pins a"
    using v(5) a by (auto simp: registry_inv_def registry_core_def tokens_ok_def)
  show ?thesis
  proof (cases "adm_pins a - 1 = 0")
    case False
    have eq: "releaseToken token r = (upd ?p (\<lambda>v. v) r)\<lparr>reg_tokens :=
        mput token (a\<lparr>adm_pins := adm_pins a - 1\<rparr>) (reg_tokens r)\<rparr>"
      using False a by (simp add: releaseToken_def upd_def)
    have "registry_inv (releaseToken token r)"
      using releaseToken_inv[OF v(5)] .
    then show ?thesis
      using v(3) put_token_from[of token "a\<lparr>adm_pins := adm_pins a - 1\<rparr>" "reg_tokens r"]
      unfolding eq by (intro new_token_good[OF st p]) simp_all
  next
    case True
    let ?f = "if adm_operation a then (\<lambda>v. v\<lparr>rev_operations := rev_operations v - 1\<rparr>)
              else (\<lambda>v. v\<lparr>rev_leases := rev_leases v - 1\<rparr>)"
    let ?r2 = "(upd ?p ?f r)\<lparr>reg_tokens := mdel token (reg_tokens r)\<rparr>"
    have core: "registry_core ?r2"
      using v(5) tcount_pos[OF a] unfolding registry_inv_def
      by (auto simp: registry_defs reg_simps tcount_del[OF a] of_nat_diff split: if_splits)
    have garbage: "no_garbage {?p} ?r2"
      using v(5) by (auto simp: registry_inv_def no_garbage_def reg_simps)
    have "0 < rev_leases (reg_heap r ?p) \<or> adm_operation a"
      using v(5) tcount_pos[OF a] by (cases "adm_operation a")
        (simp_all add: registry_inv_def registry_core_def counts_ok_def)
    then have phase: "phase_ok (collected (?f (reg_heap r ?p)))"
      "rev_state (reg_heap r ?p) \<le> rev_state (collected (?f (reg_heap r ?p)))"
      using v(3) by (auto simp: phase_ok_def collected_def split: if_splits)
    have "releaseToken token r = collectRevisionLocked ?p ?r2"
      using a True by (simp add: releaseToken_def Let_def upd_tokens)
    moreover have "good_step sha gone r (collectRevisionLocked ?p ?r2)"
      using phase by (intro collect_good[OF st p core garbage refl]) (auto split: if_splits)
    ultimately show ?thesis by simp
  qed
qed

text \<open>Two sessions never get the same grant id: the session is the text before the zero byte.\<close>

lemma ResourceGrantID_inj:
  assumes "inj sha" "ResourceGrantID sha s g = ResourceGrantID sha s' g'"
    "sessionText s" "sessionText s'"
  shows "s = s' \<and> g = g'"
proof -
  have eq: "s @ [char_of (0::nat)] @ g = s' @ [char_of (0::nat)] @ g'"
    using assms(1,2) unfolding ResourceGrantID_def by (metis injD same_append_eq)
  have "takeWhile (\<lambda>c. c \<noteq> char_of (0::nat)) (x @ [char_of (0::nat)] @ y) = x"
    if "sessionText x" for x y
    using that by (auto simp: sessionText_def takeWhile_append)
  then have "s = s'" using eq assms(3,4) by metis
  then show ?thesis using eq by simp
qed

lemma PrepareResourceGrant_good:
  assumes st: "structure_ok sha gone r" and sha: "inj sha" and now: "0 \<le> now"
  shows "good_step sha gone r (snd (PrepareResourceGrant sha snapshot session g now r))"
proof (cases rule: PrepareResourceGrant_cases[of sha snapshot session g now r])
  case (refused e r')
  then show ?thesis
    using good_step_refl[OF st] openRegistrations_structure[OF st, of session]
    by (auto simp: good_step_def evolves_def)
next
  case (known p rid)
  then show ?thesis
    using openRegistrations_structure[OF st, of session] by (simp add: good_step_def evolves_def)
next
  case (filed rid v m)
  let ?r0 = "openRegistrations session r"
  let ?r1 = "?r0\<lparr>reg_registrations := m\<rparr>"
  have opened: "sessionText session" "session \<notin> set gone"
    using session_live_known[OF st filed(3) now] by auto
  have st0: "structure_ok sha gone ?r0"
    using openRegistrations_structure[OF st] .
  have st1: "structure_ok sha gone ?r1"
    using filed(1,4,6)
    by (intro register_structure[OF st0, where session = session and g = g]) simp_all
  have free: "mget (reg_revisions r) rid = None"
  proof (rule ccontr)
    assume "mget (reg_revisions r) rid \<noteq> None"
    then obtain p where p: "mget (reg_revisions r) rid = Some p" by auto
    have "hasPrefix rid ''nfgrant_''"
      by (simp add: filed(1) ResourceGrantID_def hasPrefix_def)
    then obtain g' where "sessionText (rev_session (reg_heap r p))"
      "rid = ResourceGrantID sha (rev_session (reg_heap r p)) g'"
      "rev_session (reg_heap r p) \<in> set gone \<or> registered r (rev_session (reg_heap r p)) g' = rid"
      using structure_tableD(4)[OF st p] by (auto simp: entry_ok_def split: if_splits)
    then show False
      using ResourceGrantID_inj[OF sha, of session g "rev_session (reg_heap r p)" g'] opened filed(1,4)
      by auto
  qed
  have reg: "registered ?r1 session g = rid"
    using filed(6) by simp
  have "good_step sha gone ?r1 ((alloc v ?r1)\<lparr>reg_revisions := mput rid (reg_next ?r1) (reg_revisions ?r1)\<rparr>)"
  proof (rule file_good[OF st1])
    show "if rev_session v = [] then \<not> hasPrefix rid ''nfgrant_''
      else sessionText (rev_session v) \<and> (\<exists>g. rid = ResourceGrantID sha (rev_session v) g
        \<and> registered ?r1 (rev_session v) g = rid)"
      using opened reg filed(1,5) by (auto simp: sessionText_def)
  qed (use free filed(5) opened in \<open>simp_all add: executionRevision0_def pinned_def phase_ok_def sessionText_def\<close>)
  moreover have "evolves r ?r1" by (simp add: evolves_def)
  moreover have "snd (PrepareResourceGrant sha snapshot session g now r) =
      (alloc v ?r1)\<lparr>reg_revisions := mput rid (reg_next ?r1) (reg_revisions ?r1)\<rparr>"
    unfolding filed(7) by (simp add: alloc_def)
  ultimately show ?thesis
    unfolding good_step_def using evolves_trans by metis
qed


lemma RevokeResourceSession_good:
  assumes st: "structure_ok sha gone r" and session: "sessionText session"
  shows "good_step sha (session # gone) r (RevokeResourceSession session r)"
proof -
  let ?r' = "RevokeResourceSession session r"
  have inv: "registry_inv r" using st by (simp add: structure_ok_def)
  note effect = RevokeResourceSession_effect[OF inv, of session, unfolded session_revoked_def]
  have tokens: "mget (reg_tokens ?r') t = (case mget (reg_tokens r) t of None \<Rightarrow> None
       | Some a \<Rightarrow> if revokes session r a then None else Some a)" for t
    using effect by blast
  have table: "mget (reg_revisions ?r') k = (case mget (reg_revisions r) k of None \<Rightarrow> None
       | Some p \<Rightarrow> if rev_session (reg_heap r p) = session \<and> rev_operations (reg_heap r p) = 0
           then None else Some p)" for k
    using effect by blast
  have heap': "reg_heap ?r' p = (if rev_session (reg_heap r p) \<noteq> session then reg_heap r p
       else if p \<in> set (mvals (reg_revisions r))
       then (reg_heap r p)\<lparr>rev_leases := 0, rev_state := ResourceGrantRevoked, rev_accepting := False\<rparr>
       else (reg_heap r p)\<lparr>rev_leases := 0\<rparr>)" for p
    using effect by blast
  have heap: "rev_key (reg_heap ?r' q) = rev_key (reg_heap r q)"
    "rev_session (reg_heap ?r' q) = rev_session (reg_heap r q)"
    "rev_snapshot (reg_heap ?r' q) = rev_snapshot (reg_heap r q)" for q
    by (simp_all add: heap')
  have same: "reg_next ?r' = reg_next r" "reg_sessions ?r' = mdel session (reg_sessions r)"
    "reg_registrations ?r' = mdel session (reg_registrations r)"
    using effect by blast+
  have reg: "registered ?r' S g = (if S = session then [] else registered r S g)" for S g
    by (simp add: same)
  have leased: "p \<in> set (mvals (reg_revisions r))" if "0 < rev_leases (reg_heap r p)" for p
    using inv that structure_filedD[OF st] tcount_pos_iff[of p False "reg_tokens r"]
    by (auto simp: registry_inv_def registry_core_def counts_ok_def in_mvals)
  have "filed_ok ?r'"
    unfolding filed_ok_def heap
  proof (intro allI impI)
    fix t a
    assume "mget (reg_tokens ?r') t = Some a"
    then have a: "mget (reg_tokens r) t = Some a" "\<not> revokes session r a"
      unfolding tokens by (auto split: option.splits if_splits)
    have "rev_operations (reg_heap r (adm_revision a)) \<noteq> 0" if "adm_operation a"
      using inv tcount_pos[OF a(1)] that by (simp add: registry_inv_def registry_core_def counts_ok_def)
    then show "mget (reg_revisions ?r') (rev_key (reg_heap r (adm_revision a))) = Some (adm_revision a)"
      unfolding table using structure_filedD[OF st a(1) refl] a(2) by auto
  qed
  moreover have "phase_ok (reg_heap ?r' p)" if "p < reg_next r" for p
  proof -
    have old: "phase_ok (reg_heap r p)"
      using st that by (simp add: structure_ok_def phases_ok_def)
    have nonneg: "0 \<le> rev_leases (reg_heap r p)"
      using inv by (simp add: registry_inv_def registry_core_def counts_ok_def)
    show ?thesis
      using old leased[of p] nonneg session unfolding heap'
      by (auto simp: phase_ok_def sessionText_def)
  qed
  moreover have "entry_ok sha (session # gone) ?r' k p" if "mget (reg_revisions ?r') k = Some p" for k p
  proof -
    have "entry_ok sha gone r k p"
      using that structure_tableD(4)[OF st] unfolding table by (auto split: option.splits if_splits)
    then show ?thesis unfolding entry_ok_def heap reg by (auto split: if_splits)
  qed
  moreover have "registrations_ok sha ?r'"
    using st unfolding structure_ok_def registrations_ok_def reg by simp
  moreover have "sessions_ok (session # gone) ?r'"
    using st unfolding structure_ok_def sessions_ok_def same by simp
  moreover have "evolves r ?r'"
    unfolding evolves_def heap same by (simp add: heap')
  ultimately show ?thesis
    using RevokeResourceSession_inv[OF inv]
    unfolding good_step_def structure_ok_def phases_ok_def entries_ok_def same by blast
qed


section \<open>Handles\<close>

lemma held_append [simp]: "held t (ls @ [l]) = held t ls + (if lease_token l = t \<and> \<not> lease_once l then 1 else 0)"
  by (simp add: held_def)

lemma held_pos: "0 < held t ls \<Longrightarrow> t \<in> set (map lease_token ls)"
  by (auto simp: held_def filter_empty_conv)

lemma held_update:
  assumes "i < length ls" "\<not> lease_once (ls ! i)"
  shows "held t (ls[i := (ls ! i)\<lparr>lease_once := True\<rparr>]) =
    held t ls - (if lease_token (ls ! i) = t then 1 else 0)"
    and "0 < held (lease_token (ls ! i)) ls"
proof -
  let ?P = "\<lambda>l. lease_token l = t \<and> \<not> lease_once l"
  have split: "ls = take i ls @ ls ! i # drop (Suc i) ls"
    using assms(1) by (rule id_take_nth_drop)
  have upd: "ls[i := l] = take i ls @ l # drop (Suc i) ls" for l
    using assms(1) by (rule upd_conv_take_nth_drop)
  show "held t (ls[i := (ls ! i)\<lparr>lease_once := True\<rparr>]) =
    held t ls - (if lease_token (ls ! i) = t then 1 else 0)"
    unfolding upd using assms(2) by (subst (3) split) (simp add: held_def)
  show "0 < held (lease_token (ls ! i)) ls"
    using assms nth_mem[OF assms(1)] by (auto simp: held_def filter_empty_conv)
qed

lemma fresh_unused:
  assumes "handles_ok s" "registry_inv (sys_registry s)" "freshToken rnd s"
  shows "mget (reg_tokens (sys_registry s)) (executionToken rnd) = None"
    and "held (executionToken rnd) (sys_handles s) = 0"
proof -
  have none: "held (executionToken rnd) (sys_handles s) = 0"
    using assms(3) held_pos[of "executionToken rnd" "sys_handles s"] by (auto simp: freshToken_def)
  then show "held (executionToken rnd) (sys_handles s) = 0" .
  show "mget (reg_tokens (sys_registry s)) (executionToken rnd) = None"
  proof (cases "mget (reg_tokens (sys_registry s)) (executionToken rnd)")
    case (Some a)
    then have "1 \<le> adm_pins a" "adm_pins a = int (held (executionToken rnd) (sys_handles s))"
      using assms(1,2) by (auto simp: registry_inv_def registry_core_def tokens_ok_def handles_ok_def)
    then show ?thesis using none by simp
  qed
qed


definition good_system_step :: "(string \<Rightarrow> string) \<Rightarrow> ExecutionSystem \<Rightarrow> ExecutionSystem \<Rightarrow> bool" where
  "good_system_step sha s s' \<longleftrightarrow> system_inv sha s' \<and> evolves (sys_registry s) (sys_registry s')"

lemma good_system_stepI:
  assumes "good_step sha (sys_closed s') (sys_registry s) (sys_registry s')" "handles_ok s'"
  shows "good_system_step sha s s'"
  using assms by (simp add: good_system_step_def good_step_def system_inv_def)

lemma releaseToken_handles:
  assumes h: "handles_ok s" and inv: "registry_inv (sys_registry s)"
    and i: "i < length (sys_handles s)" "\<not> lease_once (sys_handles s ! i)"
  shows "handles_ok (s\<lparr>sys_registry := releaseToken (lease_token (sys_handles s ! i)) (sys_registry s),
    sys_handles := (sys_handles s)[i := (sys_handles s ! i)\<lparr>lease_once := True\<rparr>]\<rparr>)"
proof -
  let ?t = "lease_token (sys_handles s ! i)"
  note counts = held_update[OF i]
  show ?thesis
    using h counts(2) unfolding handles_ok_def
    by (auto simp: releaseToken_def Let_def reg_simps counts(1) of_nat_diff split: option.splits if_splits)
qed

lemma exec_step_good:
  assumes "exec_step sha s s'" "system_inv sha s" "inj sha"
  shows "good_system_step sha s s'"
proof -
  have st: "structure_ok sha (sys_closed s) (sys_registry s)" and h: "handles_ok s"
    and inv: "registry_inv (sys_registry s)"
    using assms(2) by (simp_all add: system_inv_def structure_ok_def)
  from assms(1) show ?thesis
  proof cases
    case (step_publish snapshot)
    then show ?thesis using Publish_good[OF st] h
      by (intro good_system_stepI) (auto simp: handles_ok_def Publish_def Let_def reg_simps split: option.splits)
  next
    case (step_retire rid)
    then show ?thesis using Retire_good[OF st] h
      by (intro good_system_stepI) (auto simp: handles_ok_def Retire_def reg_simps split: option.splits)
  next
    case (step_renew session expires)
    then show ?thesis using RenewResourceSession_good[OF st] h
      by (intro good_system_stepI) (auto simp: handles_ok_def RenewResourceSession_def)
  next
    case (step_admit rnd rid session now l r')
    note fresh = fresh_unused[OF h inv step_admit(2)]
    have "handles_ok s'"
      using step_admit(3) by (cases rule: admit_cases)
        (use h fresh step_admit(1) in \<open>auto simp: handles_ok_def\<close>)
    then show ?thesis
      using admit_good[OF st step_admit(3) fresh(1)] step_admit(1) by (intro good_system_stepI) simp_all
  next
    case (step_pin token now l r')
    have "handles_ok s'"
      using h step_pin by (auto simp: handles_ok_def Pin_def split: option.splits if_splits)
    then show ?thesis
      using Pin_good[OF st step_pin(2)] step_pin(1) by (intro good_system_stepI) simp_all
  next
    case (step_release i l r')
    show ?thesis
    proof (cases "lease_once (sys_handles s ! i)")
      case True
      then have "l = sys_handles s ! i" "r' = sys_registry s"
        using step_release(3) by (simp_all add: Release_def)
      then have "s' = s" using step_release(1) by simp
      then show ?thesis using good_step_refl[OF st] h by (intro good_system_stepI) simp_all
    next
      case False
      let ?t = "lease_token (sys_handles s ! i)"
      have s': "s' = s\<lparr>sys_registry := releaseToken ?t (sys_registry s),
          sys_handles := (sys_handles s)[i := (sys_handles s ! i)\<lparr>lease_once := True\<rparr>]\<rparr>"
        using step_release False by (auto simp: Release_def)
      have "good_step sha (sys_closed s) (sys_registry s) (releaseToken ?t (sys_registry s))"
        using releaseToken_good[OF st] good_step_refl[OF st]
        by (cases "mget (reg_tokens (sys_registry s)) ?t") (simp_all add: releaseToken_def)
      then show ?thesis
        using releaseToken_handles[OF h inv step_release(2) False] s' by (intro good_system_stepI) simp_all
    qed
  next
    case (step_prepare now snapshot session registration res r')
    have "reg_tokens (sys_registry s') = reg_tokens (sys_registry s)"
      using step_prepare(1,3)
      by (cases rule: PrepareResourceGrant_cases[of sha snapshot session registration now "sys_registry s"])
        (auto simp: reg_simps)
    then show ?thesis
      using PrepareResourceGrant_good[OF st assms(3) step_prepare(2), of snapshot session registration]
        step_prepare h by (intro good_system_stepI) (simp_all add: handles_ok_def)
  next
    case (step_publish_grant session rid now r')
    then show ?thesis using PublishResourceGrant_good[OF st] h
      by (intro good_system_stepI)
        (auto simp: handles_ok_def PublishResourceGrant_def Let_def reg_simps split: option.splits if_splits)
  next
    case (step_retire_grant now session rid)
    have "reg_tokens (snd (RetireResourceGrant session rid now r)) = reg_tokens r" for r
      by (simp add: RetireResourceGrant_def Let_def reg_simps split: option.split)
    then show ?thesis using RetireResourceGrant_good[OF st] step_retire_grant h
      by (intro good_system_stepI) (simp_all add: handles_ok_def)
  next
    case (step_acquire rnd grant kind resourceID now l r')
    note fresh = fresh_unused[OF h inv step_acquire(2)]
    have "handles_ok s'"
      using h fresh step_acquire(1,3)
      by (cases rule: AcquireResource_cases[OF fresh(1), of grant kind resourceID now])
        (auto simp: handles_ok_def)
    then show ?thesis
      using AcquireResource_good[OF st fresh(1), of grant kind resourceID now] step_acquire
      by (intro good_system_stepI) simp_all
  next
    case (step_acquire_denied rnd grant kind resourceID now e r')
    note fresh = fresh_unused[OF h inv step_acquire_denied(2)]
    have "s' = s"
      using step_acquire_denied(1,3)
      by (cases rule: AcquireResource_cases[OF fresh(1), of grant kind resourceID now]) auto
    then show ?thesis using good_step_refl[OF st] h by (intro good_system_stepI) simp_all
  next
    case (step_revoke session)
    have "handles_ok s'"
      using h RevokeResourceSession_effect[OF inv, of session] step_revoke(1)
      unfolding handles_ok_def session_revoked_def by (auto split: option.splits if_splits)
    then show ?thesis
      using RevokeResourceSession_good[OF st step_revoke(2)] step_revoke(1)
      by (intro good_system_stepI) simp_all
  qed
qed

lemma run_good:
  assumes "(exec_step sha)\<^sup>*\<^sup>* s s'" "system_inv sha s" "inj sha"
  shows "system_inv sha s' \<and> evolves (sys_registry s) (sys_registry s')"
  using assms(1)
proof (induction rule: rtranclp_induct)
  case base
  then show ?case using assms(2) by simp
next
  case (step s1 s2)
  then show ?case
    using exec_step_good[OF step(2) _ assms(3)] evolves_trans
    unfolding good_system_step_def by blast
qed

end
