(* ===== verification/Execution_Properties.thy ===== *)
theory Execution_Properties
  imports Execution_Runs
begin

text \<open>
  What the execution registry promises to its clients, over every run of the transition system
  of \<open>Execution_Runs\<close>.
\<close>

section \<open>Tokens over a run\<close>

definition same_authority :: "executionAdmission \<Rightarrow> executionAdmission \<Rightarrow> bool" where
  "same_authority a b \<longleftrightarrow> adm_revision a = adm_revision b \<and> adm_operation a = adm_operation b
     \<and> adm_resourceKind a = adm_resourceKind b \<and> adm_resourceID a = adm_resourceID b"

lemma same_authority_refl [simp]: "same_authority a a"
  by (simp add: same_authority_def)

text \<open>\<open>tokens_from ts ts'\<close>: every token of \<open>ts'\<close> that is not \<open>new\<close> was in \<open>ts\<close> with the same
  authority.\<close>

definition tokens_from :: "string set \<Rightarrow> (string, executionAdmission) gomap
    \<Rightarrow> (string, executionAdmission) gomap \<Rightarrow> bool" where
  "tokens_from new ts ts' \<longleftrightarrow> (\<forall>t a'. t \<notin> new \<longrightarrow> mget ts' t = Some a' \<longrightarrow>
     (\<exists>a. mget ts t = Some a \<and> same_authority a a'))"

lemma tokens_from_refl [simp]: "tokens_from new ts ts"
  by (auto simp: tokens_from_def)

lemma tokens_from_put_new: "t \<in> new \<Longrightarrow> tokens_from new ts (mput t a ts)"
  by (auto simp: tokens_from_def split: if_splits)

lemma tokens_from_put_same: "mget ts t = Some a \<Longrightarrow> same_authority a a' \<Longrightarrow>
    tokens_from new ts (mput t a' ts)"
  by (auto simp: tokens_from_def split: if_splits)

lemma tokens_from_del: "tokens_from new ts (mdel t ts)"
  by (auto simp: tokens_from_def split: if_splits)

lemma tokens_from_Pin: "Pin token now r = Inr (l, r') \<Longrightarrow> tokens_from new (reg_tokens r) (reg_tokens r')"
  by (auto simp: Pin_def same_authority_def split: option.splits if_splits intro!: tokens_from_put_same)

lemma tokens_from_release: "tokens_from new (reg_tokens r) (reg_tokens (releaseToken token r))"
  by (auto simp: releaseToken_def Let_def reg_simps same_authority_def split: option.splits
      intro!: tokens_from_put_same tokens_from_del)

lemma tokens_from_prepare:
  "reg_tokens (snd (PrepareResourceGrant sha snapshot session registration now r)) = reg_tokens r"
  by (cases rule: PrepareResourceGrant_cases[of sha snapshot session registration now r])
    (auto simp: reg_simps)

lemma exec_step_tokens:
  assumes "exec_step sha s s'" "system_inv sha s"
  shows "tokens_from (- set (map lease_token (sys_handles s)))
      (reg_tokens (sys_registry s)) (reg_tokens (sys_registry s'))"
    and "set (map lease_token (sys_handles s)) \<subseteq> set (map lease_token (sys_handles s'))"
proof -
  have h: "handles_ok s" and inv: "registry_inv (sys_registry s)"
    using assms(2) by (simp_all add: system_inv_def structure_ok_def)
  show "set (map lease_token (sys_handles s)) \<subseteq> set (map lease_token (sys_handles s'))"
    using assms(1)
  proof cases
    case (step_release i l r')
    have "lease_token l = lease_token (sys_handles s ! i)"
      using step_release(3) by (auto simp: Release_def split: if_splits)
    then have "map lease_token ((sys_handles s)[i := l]) = map lease_token (sys_handles s)"
      using step_release(2) by (simp add: map_update list_update_same_conv)
    then show ?thesis using step_release(1) by simp
  qed auto
  show "tokens_from (- set (map lease_token (sys_handles s)))
      (reg_tokens (sys_registry s)) (reg_tokens (sys_registry s'))"
    using assms(1)
  proof cases
    case (step_publish snapshot)
    then show ?thesis by (simp add: Publish_def Let_def reg_simps split: option.split)
  next
    case (step_retire rid)
    then show ?thesis by (simp add: Retire_def reg_simps split: option.split)
  next
    case (step_renew session expires)
    then show ?thesis by (simp add: RenewResourceSession_def)
  next
    case (step_admit rnd rid session now l r')
    from step_admit(3) show ?thesis
      by (cases rule: admit_cases)
        (use step_admit(1,2) in \<open>simp add: tokens_from_put_new freshToken_def\<close>)
  next
    case (step_pin token now l r')
    then show ?thesis using tokens_from_Pin by simp
  next
    case (step_release i l r')
    then show ?thesis
      using tokens_from_release by (auto simp: Release_def split: if_splits)
  next
    case (step_prepare now snapshot session registration res r')
    then show ?thesis
      using tokens_from_prepare[of sha snapshot session registration now "sys_registry s"] by simp
  next
    case (step_publish_grant session rid now r')
    then show ?thesis
      by (auto simp: PublishResourceGrant_def Let_def reg_simps split: option.splits if_splits)
  next
    case (step_retire_grant now session rid)
    then show ?thesis by (simp add: RetireResourceGrant_def Let_def reg_simps split: option.split)
  next
    case (step_acquire rnd grant kind resourceID now l r')
    note fresh = fresh_unused[OF h inv step_acquire(2)]
    show ?thesis
      using step_acquire
      by (cases rule: AcquireResource_cases[OF fresh(1), of grant kind resourceID now])
        (auto simp: freshToken_def intro: tokens_from_put_new)
  next
    case (step_acquire_denied rnd grant kind resourceID now e r')
    note fresh = fresh_unused[OF h inv step_acquire_denied(2)]
    show ?thesis
      using step_acquire_denied
      by (cases rule: AcquireResource_cases[OF fresh(1), of grant kind resourceID now]) auto
  next
    case (step_revoke session)
    then show ?thesis
      using RevokeResourceSession_effect[OF inv, of session]
      by (auto simp: session_revoked_def tokens_from_def split: option.splits if_splits)
  qed
qed

lemma run_tokens:
  assumes "(exec_step sha)\<^sup>*\<^sup>* s s'" "system_inv sha s" "inj sha"
    "t \<in> set (map lease_token (sys_handles s))" "mget (reg_tokens (sys_registry s')) t = Some a'"
  shows "\<exists>a. mget (reg_tokens (sys_registry s)) t = Some a \<and> same_authority a a'"
proof -
  have "t \<in> set (map lease_token (sys_handles s')) \<and> (mget (reg_tokens (sys_registry s')) t = Some a' \<longrightarrow>
    (\<exists>a. mget (reg_tokens (sys_registry s)) t = Some a \<and> same_authority a a'))" for a'
    using assms(1)
  proof (induction arbitrary: a' rule: rtranclp_induct)
    case base
    then show ?case using assms(4) by auto
  next
    case (step s1 s2)
    have inv: "system_inv sha s1" using run_good[OF step(1) assms(2,3)] by simp
    note tok = exec_step_tokens[OF step(2) inv]
    have t: "t \<in> set (map lease_token (sys_handles s1))" using step(3) by blast
    show ?case
    proof (intro conjI impI)
      show "t \<in> set (map lease_token (sys_handles s2))" using t tok(2) by blast
      assume "mget (reg_tokens (sys_registry s2)) t = Some a'"
      then obtain b where "mget (reg_tokens (sys_registry s1)) t = Some b" "same_authority b a'"
        using tok(1) t unfolding tokens_from_def by blast
      then show "\<exists>a. mget (reg_tokens (sys_registry s)) t = Some a \<and> same_authority a a'"
        using step(3)[of b] unfolding same_authority_def by metis
    qed
  qed
  then show ?thesis using assms(5) by blast
qed

lemma reachable_inv: "reachable sha s \<Longrightarrow> inj sha \<Longrightarrow> system_inv sha s"
  using run_good[of sha initial_system s] initial_inv by (simp add: reachable_def)


section \<open>Retired grants stay dead\<close>

text \<open>A retired grant: its session is closed or remembers the retirement, and a table entry
  that still serves old operations belongs to the session and is past publication.\<close>

definition retired :: "string \<Rightarrow> string \<Rightarrow> ExecutionSystem \<Rightarrow> bool" where
  "retired session rid s \<longleftrightarrow>
     (session \<in> set (sys_closed s)
      \<or> mget0 False (mget0 mempty (reg_revokedGrants (sys_registry s)) session) rid)
   \<and> (\<forall>p. mget (reg_revisions (sys_registry s)) rid = Some p \<longrightarrow>
        p < reg_next (sys_registry s) \<and> rev_session (reg_heap (sys_registry s) p) = session
      \<and> ResourceGrantDraining \<le> rev_state (reg_heap (sys_registry s) p))"

lemma collect_subset: "mget (reg_revisions (collectRevisionLocked p r)) k = Some q \<Longrightarrow>
    mget (reg_revisions r) k = Some q"
  by (auto simp: collect_revisions split: if_splits)

lemma prepare_table:
  assumes "structure_ok sha gone r" "0 \<le> now" "inj sha" "sessionText session"
    and retired: "session \<in> set gone \<or> mget0 False (mget0 mempty (reg_revokedGrants r) session) (ResourceGrantID sha session g)"
    and q: "mget (reg_revisions (snd (PrepareResourceGrant sha snapshot session' g' now r)))
      (ResourceGrantID sha session g) = Some q"
  shows "mget (reg_revisions r) (ResourceGrantID sha session g) = Some q"
proof (cases rule: PrepareResourceGrant_cases[of sha snapshot session' g' now r])
  case (refused e r')
  then show ?thesis using q by auto
next
  case (known p rid)
  then show ?thesis using q by simp
next
  case (filed rid v m)
  note live = session_live_known[OF assms(1) filed(3) assms(2)]
  have "ResourceGrantID sha session g \<noteq> rid"
    using ResourceGrantID_inj[OF assms(3), of session g session' g'] assms(4) live filed(1,2) retired
    by auto
  then show ?thesis using q unfolding filed(7) by (simp add: reg_simps)
qed

lemma Publish_table:
  assumes "\<not> hasPrefix (Snap_id snapshot) ''nfgrant_''"
    and "mget (reg_revisions (Publish snapshot r)) (ResourceGrantID sha session g) = Some q"
  shows "mget (reg_revisions r) (ResourceGrantID sha session g) = Some q"
proof -
  have "hasPrefix (ResourceGrantID sha session g) ''nfgrant_''"
    by (simp add: ResourceGrantID_def hasPrefix_def)
  then have "ResourceGrantID sha session g \<noteq> Snap_id snapshot"
    using assms(1) by auto
  then show ?thesis
    using assms(2) by (auto simp: Publish_def Let_def reg_simps split: option.splits)
qed

lemma retired_table:
  assumes step: "exec_step sha s s'" and inv: "system_inv sha s" and sha: "inj sha"
    and session: "sessionText session" and dead: "retired session (ResourceGrantID sha session g) s"
    and q: "mget (reg_revisions (sys_registry s')) (ResourceGrantID sha session g) = Some q"
  shows "mget (reg_revisions (sys_registry s)) (ResourceGrantID sha session g) = Some q"
  using step
proof cases
  case (step_publish snapshot)
  then show ?thesis using Publish_table[of snapshot "sys_registry s" sha session g q] q by simp
next
  case (step_retire rid)
  then show ?thesis using q by (auto simp: Retire_def reg_simps split: option.splits dest!: collect_subset)
next
  case (step_renew session expires)
  then show ?thesis using q by (simp add: RenewResourceSession_def)
next
  case (step_admit rnd rid session now l r')
  from step_admit(3) show ?thesis
    by (cases rule: admit_cases) (use q step_admit(1) in \<open>simp add: reg_simps\<close>)
next
  case (step_pin token now l r')
  then show ?thesis using q by (auto simp: Pin_def split: option.splits if_splits)
next
  case (step_release i l r')
  then show ?thesis
    using q by (auto simp: Release_def releaseToken_def Let_def reg_simps split: if_splits option.splits
        dest!: collect_subset)
next
  case (step_prepare now snapshot session' registration res r')
  then show ?thesis
    using prepare_table[OF _ step_prepare(2) sha session, of "sys_closed s" "sys_registry s" g snapshot session' registration q]
      inv dead q by (simp add: system_inv_def retired_def)
next
  case (step_publish_grant session rid now r')
  then show ?thesis
    using q by (auto simp: PublishResourceGrant_def Let_def reg_simps split: option.splits if_splits)
next
  case (step_retire_grant now session rid)
  then show ?thesis
    using q by (auto simp: RetireResourceGrant_def Let_def reg_simps split: option.splits if_splits
        dest!: collect_subset)
next
  case (step_acquire rnd grant kind resourceID now l r')
  then show ?thesis
    using q by (auto simp: AcquireResource_def Let_def reg_simps split: option.splits if_splits sum.splits)
next
  case (step_acquire_denied rnd grant kind resourceID now e r')
  then show ?thesis
    using q by (auto simp: AcquireResource_def Let_def reg_simps split: option.splits if_splits sum.splits)
next
  case (step_revoke session')
  have "registry_inv (sys_registry s)" using inv by (simp add: system_inv_def structure_ok_def)
  from RevokeResourceSession_effect[OF this, of session'] show ?thesis
    using q step_revoke(1) unfolding session_revoked_def by (auto split: option.splits if_splits)
qed

lemma step_marks:
  assumes step: "exec_step sha s s'" and inv: "system_inv sha s"
    and mark: "session \<in> set (sys_closed s)
      \<or> mget0 False (mget0 mempty (reg_revokedGrants (sys_registry s)) session) rid"
  shows "session \<in> set (sys_closed s')
      \<or> mget0 False (mget0 mempty (reg_revokedGrants (sys_registry s')) session) rid"
  using step
proof cases
  case (step_admit rnd rid session now l r')
  from step_admit(3) show ?thesis
    by (cases rule: admit_cases) (use mark step_admit(1) in \<open>simp add: reg_simps\<close>)
next
  case (step_prepare now snapshot session' registration res r')
  have "reg_revokedGrants (snd (PrepareResourceGrant sha snapshot session' registration now r)) = reg_revokedGrants r" for r
    by (cases rule: PrepareResourceGrant_cases[of sha snapshot session' registration now r])
      (auto simp: reg_simps)
  from this[of "sys_registry s"] show ?thesis using step_prepare mark by simp
next
  case (step_revoke session')
  have "registry_inv (sys_registry s)" using inv by (simp add: system_inv_def structure_ok_def)
  from RevokeResourceSession_effect[OF this, of session'] show ?thesis
    using mark step_revoke(1) by (auto simp: session_revoked_def)
next
  case (step_retire_grant now session' rid')
  then show ?thesis using mark
    by (auto simp: RetireResourceGrant_def Let_def reg_simps split: option.splits if_splits)
qed (use mark in \<open>auto simp: Publish_def Retire_def RenewResourceSession_def Pin_def Release_def
    releaseToken_def PublishResourceGrant_def AcquireResource_def Let_def reg_simps
    split: option.splits if_splits sum.splits\<close>)

lemma run_retired:
  assumes "(exec_step sha)\<^sup>*\<^sup>* s s'" "system_inv sha s" "inj sha" "sessionText session"
    "retired session (ResourceGrantID sha session g) s"
  shows "retired session (ResourceGrantID sha session g) s'"
  using assms(1)
proof (induction rule: rtranclp_induct)
  case base
  then show ?case using assms(5) .
next
  case (step s1 s2)
  let ?rid = "ResourceGrantID sha session g"
  have inv: "system_inv sha s1" using run_good[OF step(1) assms(2,3)] by simp
  have ev: "evolves (sys_registry s1) (sys_registry s2)"
    using exec_step_good[OF step(2) inv assms(3)] by (simp add: good_system_step_def)
  show ?case
    unfolding retired_def
  proof (intro conjI allI impI step_marks[OF step(2) inv])
    show "session \<in> set (sys_closed s1)
      \<or> mget0 False (mget0 mempty (reg_revokedGrants (sys_registry s1)) session) ?rid"
      using step(3) by (simp add: retired_def)
    fix p
    assume "mget (reg_revisions (sys_registry s2)) ?rid = Some p"
    from retired_table[OF step(2) inv assms(3,4) step(3) this]
    have old: "p < reg_next (sys_registry s1)" "rev_session (reg_heap (sys_registry s1) p) = session"
      "ResourceGrantDraining \<le> rev_state (reg_heap (sys_registry s1) p)"
      using step(3) by (auto simp: retired_def)
    then show "p < reg_next (sys_registry s2)" "rev_session (reg_heap (sys_registry s2) p) = session"
      using ev by (auto simp: evolves_def)
    have "rev_state (reg_heap (sys_registry s1) p) \<le> rev_state (reg_heap (sys_registry s2) p)"
      using ev old(1) by (simp add: evolves_def)
    with old(3) show "ResourceGrantDraining \<le> rev_state (reg_heap (sys_registry s2) p)"
      by (rule order_trans)
  qed
qed

text \<open>What a retired grant refuses.\<close>

lemma retired_refuses:
  assumes inv: "system_inv sha s" and sha: "inj sha" and session: "sessionText session"
    and dead: "retired session (ResourceGrantID sha session g) s" and now: "0 \<le> now"
  shows "isl (PublishResourceGrant session' (ResourceGrantID sha session g) now (sys_registry s))"
    and "isl (admit entropy (ResourceGrantID sha session g) session' now (sys_registry s))"
    and "fst (PrepareResourceGrant sha snapshot session' g' now (sys_registry s))
      \<noteq> Inr (ResourceGrantID sha session g)"
proof -
  let ?r = "sys_registry s" and ?rid = "ResourceGrantID sha session g"
  have st: "structure_ok sha (sys_closed s) ?r" using inv by (simp add: system_inv_def)
  have entry: "rev_session (reg_heap ?r p) = session \<and> ResourceGrantDraining \<le> rev_state (reg_heap ?r p)
      \<and> \<not> rev_accepting (reg_heap ?r p)"
    if p: "mget (reg_revisions ?r) ?rid = Some p" for p
    using dead p structure_tableD(3)[OF st p] session
    by (auto simp: retired_def phase_ok_def sessionText_def split: if_splits)
  show "isl (PublishResourceGrant session' ?rid now ?r)"
    using entry by (fastforce simp: PublishResourceGrant_def Let_def split: option.splits)
  show "isl (admit entropy ?rid session' now ?r)"
    using entry by (cases entropy) (auto simp: admit_def Let_def split: option.splits)
  show "fst (PrepareResourceGrant sha snapshot session' g' now ?r) \<noteq> Inr ?rid"
  proof (cases rule: PrepareResourceGrant_cases[of sha snapshot session' g' now ?r])
    case (refused e r')
    then show ?thesis by simp
  next
    case (known p rid)
    then show ?thesis using entry[of p] by auto
  next
    case (filed rid v m)
    note live = session_live_known[OF st filed(3) now]
    have "?rid \<noteq> rid"
      using ResourceGrantID_inj[OF sha, of session g session' g'] session live filed(1,2) dead
      by (auto simp: retired_def)
    then show ?thesis using filed(7) by simp
  qed
qed

lemma retire_makes_retired:
  assumes st: "structure_ok sha gone r" and now: "0 \<le> now" and live: "sessionLiveLocked session now r"
    and ok: "RetireResourceGrant session rid now r = (Inr (), r')"
  shows "retired session rid (s\<lparr>sys_registry := r'\<rparr>)"
proof -
  have good: "good_step sha gone r r'"
    using RetireResourceGrant_good[OF st now, of session rid] ok by simp
  have session: "session \<noteq> []"
    using session_live_known[OF st live now] by (simp add: sessionText_def)
  show ?thesis
  proof (cases "mget (reg_revisions r) rid")
    case None
    then show ?thesis using ok live by (auto simp: RetireResourceGrant_def Let_def retired_def)
  next
    case (Some p)
    then have owner: "rev_session (reg_heap r p) = session"
      using ok by (auto simp: RetireResourceGrant_def split: if_splits)
    then show ?thesis
      using ok live Some structure_tableD(1)[OF st Some] unfolding retired_def
      by (auto simp: RetireResourceGrant_def Let_def reg_simps collect_state dest!: collect_subset)
  qed
qed


section \<open>An example run\<close>

text \<open>A session registers a grant for a Worker bound to the KV namespace \<open>kv\<close>, publishes it,
  admits an invocation and accepts one operation; \<open>sha\<close> is the identity.\<close>

definition demo_snapshot :: ExecutionSnapshot where
  "demo_snapshot = \<lparr>Snap_id = ''a1b2'', Snap_active = ActiveDeployment0\<lparr>
     Active_App := App0\<lparr>App_ID := ''app''\<rparr>,
     Active_Deployment := Deployment0\<lparr>Dep_ID := ''d1'',
       Dep_KVNamespaces := [KVBinding0\<lparr>KVBind_ID := ''kv''\<rparr>]\<rparr>\<rparr>\<rparr>"

definition demo_grant :: string where
  "demo_grant = ResourceGrantID (\<lambda>x. x) ''s'' ''reg''"

definition demo_open :: ExecutionRegistry where
  "demo_open = RenewResourceSession ''s'' 100 NewExecutionRegistry"

definition demo_prepared :: ExecutionRegistry where
  "demo_prepared = snd (PrepareResourceGrant (\<lambda>x. x) demo_snapshot ''s'' ''reg'' 1 demo_open)"

definition demo_published :: ExecutionRegistry where
  "demo_published = projr (PublishResourceGrant ''s'' demo_grant 1 demo_prepared)"

definition demo_admitted :: ExecutionRegistry where
  "demo_admitted = snd (projr (admit (Inr ''x'') demo_grant ''s'' 1 demo_published))"

definition demo_acquired :: ExecutionRegistry where
  "demo_acquired = snd (AcquireResource ''y'' demo_grant ExecutionKV ''kv'' 1 demo_admitted)"

abbreviation demo_lease :: "string \<Rightarrow> ExecutionLease" where
  "demo_lease rnd \<equiv> \<lparr>lease_token = executionToken rnd, lease_once = False\<rparr>"

definition demo_before :: ExecutionSystem where
  "demo_before = \<lparr>sys_registry = demo_admitted, sys_handles = [demo_lease ''x''], sys_closed = []\<rparr>"

definition demo_system :: ExecutionSystem where
  "demo_system = \<lparr>sys_registry = demo_acquired, sys_handles = [demo_lease ''x'', demo_lease ''y''],
     sys_closed = []\<rparr>"

lemma demo_publish_ok: "PublishResourceGrant ''s'' demo_grant 1 demo_prepared = Inr demo_published"
proof -
  have "\<not> isl (PublishResourceGrant ''s'' demo_grant 1 demo_prepared)" by code_simp
  then show ?thesis by (simp add: demo_published_def)
qed

lemma demo_admit_ok: "admit (Inr ''x'') demo_grant ''s'' 1 demo_published = Inr (demo_lease ''x'', demo_admitted)"
proof -
  have "\<not> isl (admit (Inr ''x'') demo_grant ''s'' 1 demo_published)" by code_simp
  moreover have "fst (projr (admit (Inr ''x'') demo_grant ''s'' 1 demo_published)) = demo_lease ''x''"
    by code_simp
  ultimately show ?thesis
    by (cases "admit (Inr ''x'') demo_grant ''s'' 1 demo_published") (auto simp: demo_admitted_def)
qed

lemma demo_acquire_ok: "AcquireResource ''y'' demo_grant ExecutionKV ''kv'' 1 demo_admitted =
    (Inr (demo_lease ''y''), demo_acquired)"
proof -
  have "fst (AcquireResource ''y'' demo_grant ExecutionKV ''kv'' 1 demo_admitted) = Inr (demo_lease ''y'')"
    by code_simp
  then show ?thesis by (simp add: demo_acquired_def prod_eq_iff)
qed

abbreviation (input) sys :: "ExecutionRegistry \<Rightarrow> ExecutionSystem" where
  "sys r \<equiv> \<lparr>sys_registry = r, sys_handles = [], sys_closed = []\<rparr>"

lemma demo_run: "(exec_step (\<lambda>x. x))\<^sup>*\<^sup>* initial_system demo_before"
proof -
  let ?step = "exec_step (\<lambda>x. x)"
  have "sessionText ''s''" by code_simp
  then have "?step initial_system (sys demo_open)"
    using step_renew[of "''s''" initial_system "\<lambda>x. x" 100]
    by (simp add: initial_system_def demo_open_def)
  moreover have "?step (sys demo_open) (sys demo_prepared)"
    using step_prepare[of 1 "\<lambda>x. x" demo_snapshot "''s''" "''reg''" "sys demo_open"
        "fst (PrepareResourceGrant (\<lambda>x. x) demo_snapshot ''s'' ''reg'' 1 demo_open)" demo_prepared]
    by (simp add: demo_prepared_def)
  moreover have "?step (sys demo_prepared) (sys demo_published)"
    using step_publish_grant[of "''s''" demo_grant 1 "sys demo_prepared" demo_published "\<lambda>x. x"]
      demo_publish_ok by simp
  moreover have "?step (sys demo_published) demo_before"
    using step_admit[of "''x''" "sys demo_published" demo_grant "''s''" 1 "demo_lease ''x''" demo_admitted]
      demo_admit_ok by (simp add: demo_before_def freshToken_def)
  ultimately show ?thesis
    by (meson rtranclp.rtrancl_into_rtrancl rtranclp.rtrancl_refl)
qed

lemma demo_last: "exec_step (\<lambda>x. x) demo_before demo_system"
  using step_acquire[of "''y''" demo_before demo_grant ExecutionKV "''kv''" 1 "demo_lease ''y''" demo_acquired]
    demo_acquire_ok by (simp add: demo_before_def demo_system_def freshToken_def executionToken_def)

lemma demo_reachable: "reachable (\<lambda>x. x) demo_before" "reachable (\<lambda>x. x) demo_system"
  using demo_run demo_last by (auto simp: reachable_def)

lemma inj_demo: "inj (\<lambda>x. x)"
  by simp

section \<open>Properties\<close>

text \<open>C19: in every reachable state the lease and operation counters of every revision are the
  numbers of ordinary and of operation tokens that hold it, and the pins of every token are the
  handles on it that were not released, at least one: no release is lost or counted twice.\<close>

theorem execution_accounting:
  assumes "reachable sha s" "inj sha"
  shows "(\<forall>p. rev_leases (reg_heap (sys_registry s) p) = int (holders p False (sys_registry s))
           \<and> rev_operations (reg_heap (sys_registry s) p) = int (holders p True (sys_registry s)))
       \<and> (\<forall>t a. mget (reg_tokens (sys_registry s)) t = Some a \<longrightarrow>
            1 \<le> adm_pins a \<and> adm_pins a = int (held t (sys_handles s)))"
  using reachable_inv[OF assms]
  by (auto simp: system_inv_def structure_ok_def handles_ok_def registry_inv_def registry_core_def
      counts_ok_def tokens_ok_def)

lemma execution_accounting_witness:
  "rev_leases (reg_heap (sys_registry demo_system) 0) = int (holders 0 False (sys_registry demo_system))"
  using execution_accounting[OF demo_reachable(2) inj_demo] by blast

text \<open>C24: while a token exists, the revision it holds is in the table, so the collector of old
  artifacts is told that the deployment and its bundle object are in use.\<close>

theorem execution_reference_protection:
  assumes "reachable sha s" "inj sha" "mget (reg_tokens (sys_registry s)) t = Some a"
  defines "active \<equiv> Snap_active (rev_snapshot (reg_heap (sys_registry s) (adm_revision a)))"
  shows "ReferencesDeployment (App_ID (Active_App active)) (Dep_ID (Active_Deployment active)) (sys_registry s)
    \<and> ReferencesObject (App_ID (Active_App active)) (Dep_ObjectKey (Active_Deployment active)) (sys_registry s)"
proof -
  have "structure_ok sha (sys_closed s) (sys_registry s)"
    using reachable_inv[OF assms(1,2)] by (simp add: system_inv_def)
  from structure_filedD[OF this assms(3) refl]
  have "adm_revision a \<in> set (mvals (reg_revisions (sys_registry s)))" by (auto simp: in_mvals)
  then show ?thesis
    by (auto simp: ReferencesDeployment_def ReferencesObject_def list_ex_iff active_def Let_def)
qed

lemma execution_reference_protection_witness:
  "ReferencesDeployment ''app'' ''d1'' (sys_registry demo_system)"
proof -
  have a: "mget (reg_tokens (sys_registry demo_system)) (executionToken ''x'') =
      Some \<lparr>adm_revision = 0, adm_pins = 1, adm_operation = False,
        adm_resourceKind = ExecutionNoKind, adm_resourceID = []\<rparr>" by code_simp
  have "App_ID (Active_App (Snap_active (rev_snapshot (reg_heap (sys_registry demo_system) 0)))) = ''app''"
    "Dep_ID (Active_Deployment (Snap_active (rev_snapshot (reg_heap (sys_registry demo_system) 0)))) = ''d1''"
    by code_simp+
  then show ?thesis
    using execution_reference_protection[OF demo_reachable(2) inj_demo a] by simp
qed

text \<open>a revision in the table admits invocations, waits for its publication, or is held by a
  token: retired revisions leave the table with their last holder.\<close>

theorem execution_no_garbage:
  assumes "reachable sha s" "inj sha" "mget (reg_revisions (sys_registry s)) k = Some p"
    and "\<not> rev_accepting (reg_heap (sys_registry s) p)"
    and "rev_state (reg_heap (sys_registry s) p) \<noteq> ResourceGrantPrepared"
  shows "\<exists>t a. mget (reg_tokens (sys_registry s)) t = Some a \<and> adm_revision a = p"
proof -
  have "registry_inv (sys_registry s)"
    using reachable_inv[OF assms(1,2)] by (simp add: system_inv_def structure_ok_def)
  then have "0 < holders p False (sys_registry s) \<or> 0 < holders p True (sys_registry s)"
    using assms(3-) unfolding registry_inv_def no_garbage_def pinned_def registry_core_def counts_ok_def
    by fastforce
  then show ?thesis by (auto simp: tcount_pos_iff)
qed

definition demo_retired :: ExecutionSystem where
  "demo_retired = demo_system\<lparr>sys_registry := snd (RetireResourceGrant ''s'' demo_grant 2 demo_acquired)\<rparr>"

lemma demo_retire_step: "exec_step (\<lambda>x. x) demo_system demo_retired"
  using step_retire_grant[of 2 "\<lambda>x. x" demo_system "''s''" demo_grant]
  by (simp add: demo_retired_def demo_system_def)

lemma demo_retired_reachable: "reachable (\<lambda>x. x) demo_retired"
  using demo_reachable(2) demo_retire_step by (auto simp: reachable_def)

lemma execution_no_garbage_witness:
  "\<exists>t a. mget (reg_tokens (sys_registry demo_retired)) t = Some a \<and> adm_revision a = 0"
proof -
  have "mget (reg_revisions (sys_registry demo_retired)) demo_grant = Some 0"
    "\<not> rev_accepting (reg_heap (sys_registry demo_retired) 0)"
    "rev_state (reg_heap (sys_registry demo_retired) 0) \<noteq> ResourceGrantPrepared"
    by code_simp+
  then show ?thesis
    using execution_no_garbage[OF demo_retired_reachable inj_demo, of demo_grant 0] by blast
qed

text \<open>C22: authority is frozen and least. Whatever a token that was handed out in \<open>s\<close> authorizes in
  a later state \<open>s'\<close> is declared by the snapshot its revision had in \<open>s\<close>; an operation token
  authorizes only the resource it was accepted for, and an ordinary token only while its session
  is live.\<close>

theorem execution_authority_frozen:
  assumes "reachable sha s" "inj sha" "(exec_step sha)\<^sup>*\<^sup>* s s'"
    and "t \<in> set (map lease_token (sys_handles s))"
    and "Authorize t kind resourceID now (sys_registry s') = Inr active"
  shows "\<exists>a. mget (reg_tokens (sys_registry s)) t = Some a
    \<and> (let v = reg_heap (sys_registry s) (adm_revision a) in
         declares (Active_Deployment (Snap_active (rev_snapshot v))) kind resourceID
       \<and> active = (Snap_active (rev_snapshot v))\<lparr>Active_RuntimeInstance := rev_key v\<rparr>
       \<and> (if adm_operation a then adm_resourceKind a = kind \<and> adm_resourceID a = resourceID
          else rev_session v = [] \<or> sessionLiveLocked (rev_session v) now (sys_registry s')))"
proof -
  have inv: "system_inv sha s" using reachable_inv[OF assms(1,2)] .
  obtain a' where a': "mget (reg_tokens (sys_registry s')) t = Some a'"
    using assms(5) by (auto simp: Authorize_def authorizeLocked_def split: option.splits)
  obtain a where a: "mget (reg_tokens (sys_registry s)) t = Some a" "same_authority a a'"
    using run_tokens[OF assms(3) inv assms(2,4) a'] by blast
  have "adm_revision a < reg_next (sys_registry s)"
    using inv a(1) by (auto simp: system_inv_def structure_ok_def registry_inv_def registry_core_def tokens_ok_def)
  then have frozen: "rev_snapshot (reg_heap (sys_registry s') (adm_revision a)) = rev_snapshot (reg_heap (sys_registry s) (adm_revision a))"
    "rev_key (reg_heap (sys_registry s') (adm_revision a)) = rev_key (reg_heap (sys_registry s) (adm_revision a))"
    "rev_session (reg_heap (sys_registry s') (adm_revision a)) = rev_session (reg_heap (sys_registry s) (adm_revision a))"
    using run_good[OF assms(3) inv assms(2)] by (auto simp: evolves_def)
  show ?thesis
    using assms(5) a frozen a'
    by (intro exI[of _ a])
      (auto simp: Authorize_def authorizeLocked_def Let_def admissionLive_def same_authority_def split: if_splits)
qed

lemma execution_authority_frozen_witness:
  "declares (Active_Deployment (Snap_active demo_snapshot)) ExecutionKV ''kv''
   \<and> (\<exists>a. mget (reg_tokens (sys_registry demo_before)) (executionToken ''x'') = Some a)"
proof -
  have run: "(exec_step (\<lambda>x. x))\<^sup>*\<^sup>* demo_before demo_system" using demo_last by auto
  have t: "executionToken ''x'' \<in> set (map lease_token (sys_handles demo_before))"
    by (simp add: demo_before_def)
  have "\<not> isl (Authorize (executionToken ''x'') ExecutionKV ''kv'' 3 (sys_registry demo_system))" by code_simp
  then obtain active where "Authorize (executionToken ''x'') ExecutionKV ''kv'' 3 (sys_registry demo_system) = Inr active"
    by (auto simp: isl_def) (metis sum.exhaust)
  from execution_authority_frozen[OF demo_reachable(1) inj_demo run t this]
  show ?thesis by (auto simp: demo_snapshot_def declares_def)
qed

text \<open>C15: a grant that its runner retired while the session was live never comes back: in no later
  state of any run can it be published, admit an invocation or be handed out by a new
  registration, whatever its session does meanwhile.\<close>

theorem execution_not_revivable:
  assumes "reachable sha s" "inj sha" "0 \<le> now" "sessionLiveLocked session now (sys_registry s)"
    and "RetireResourceGrant session (ResourceGrantID sha session g) now (sys_registry s) = (Inr (), r')"
    and "(exec_step sha)\<^sup>*\<^sup>* (s\<lparr>sys_registry := r'\<rparr>) s'" "0 \<le> later"
  shows "isl (PublishResourceGrant session' (ResourceGrantID sha session g) later (sys_registry s'))
    \<and> isl (admit entropy (ResourceGrantID sha session g) session' later (sys_registry s'))
    \<and> fst (PrepareResourceGrant sha snapshot session' g' later (sys_registry s'))
        \<noteq> Inr (ResourceGrantID sha session g)"
proof -
  have inv: "system_inv sha s" using reachable_inv[OF assms(1,2)] .
  then have st: "structure_ok sha (sys_closed s) (sys_registry s)" by (simp add: system_inv_def)
  have session: "sessionText session"
    using session_live_known[OF st assms(4,3)] by simp
  have step: "exec_step sha s (s\<lparr>sys_registry := r'\<rparr>)"
    using step_retire_grant[OF assms(3), of sha s session "ResourceGrantID sha session g"] assms(5) by simp
  have inv': "system_inv sha (s\<lparr>sys_registry := r'\<rparr>)"
    using exec_step_good[OF step inv assms(2)] by (simp add: good_system_step_def)
  have "retired session (ResourceGrantID sha session g) (s\<lparr>sys_registry := r'\<rparr>)"
    using retire_makes_retired[OF st assms(3,4,5)] .
  from run_retired[OF assms(6) inv' assms(2) session this]
  have dead: "retired session (ResourceGrantID sha session g) s'" .
  have "system_inv sha s'" using run_good[OF assms(6) inv' assms(2)] by simp
  from retired_refuses[OF this assms(2) session dead assms(7)] show ?thesis by simp
qed

lemma execution_not_revivable_witness:
  "isl (admit (Inr ''z'') demo_grant ''s'' 3 (sys_registry demo_retired))"
proof -
  have "fst (RetireResourceGrant ''s'' demo_grant 2 demo_acquired) = Inr ()" by code_simp
  then have "RetireResourceGrant ''s'' demo_grant 2 (sys_registry demo_system) = (Inr (), sys_registry demo_retired)"
    by (simp add: demo_retired_def demo_system_def prod_eq_iff)
  moreover have "sessionLiveLocked ''s'' 2 (sys_registry demo_system)" by code_simp
  moreover have "(exec_step (\<lambda>x. x))\<^sup>*\<^sup>* (demo_system\<lparr>sys_registry := sys_registry demo_retired\<rparr>) demo_retired"
    by (simp add: demo_retired_def)
  ultimately show ?thesis
    using execution_not_revivable[OF demo_reachable(2) inj_demo, of 2 "''s''" "''reg''"
        "sys_registry demo_retired" demo_retired 3] by (simp add: demo_grant_def)
qed

text \<open>closing a runner session drops exactly its ordinary tokens, stops every revision of the
  session in the table from admitting, and leaves the tokens and the revisions of accepted
  operations in place.\<close>

theorem execution_session_revoked:
  fixes session :: string
  assumes "reachable sha s" "inj sha"
  defines "r \<equiv> sys_registry s" and "r' \<equiv> RevokeResourceSession session (sys_registry s)"
  shows "(\<forall>t. mget (reg_tokens r') t = (case mget (reg_tokens r) t of None \<Rightarrow> None
       | Some a \<Rightarrow> if rev_session (reg_heap r (adm_revision a)) = session \<and> \<not> adm_operation a
           then None else Some a))
    \<and> (\<forall>k p. mget (reg_revisions r') k = Some p \<longrightarrow> rev_session (reg_heap r' p) = session \<longrightarrow>
         \<not> rev_accepting (reg_heap r' p) \<and> rev_leases (reg_heap r' p) = 0
         \<and> rev_state (reg_heap r' p) = ResourceGrantRevoked \<and> 0 < rev_operations (reg_heap r' p))
    \<and> (\<forall>p. rev_session (reg_heap r p) \<noteq> session \<longrightarrow> reg_heap r' p = reg_heap r p)"
proof -
  have inv: "registry_inv r"
    using reachable_inv[OF assms(1,2)] by (simp add: system_inv_def structure_ok_def r_def)
  have nonneg: "0 \<le> rev_operations (reg_heap r p)" for p
    using inv by (simp add: registry_inv_def registry_core_def counts_ok_def)
  note effect = RevokeResourceSession_effect[OF inv, of session, folded r_def, unfolded session_revoked_def]
  have heap: "reg_heap r' p = (if rev_session (reg_heap r p) \<noteq> session then reg_heap r p
       else if p \<in> set (mvals (reg_revisions r))
       then (reg_heap r p)\<lparr>rev_leases := 0, rev_state := ResourceGrantRevoked, rev_accepting := False\<rparr>
       else (reg_heap r p)\<lparr>rev_leases := 0\<rparr>)" for p
    using effect unfolding r'_def r_def by blast
  have table: "mget (reg_revisions r') k = (case mget (reg_revisions r) k of None \<Rightarrow> None
       | Some p \<Rightarrow> if rev_session (reg_heap r p) = session \<and> rev_operations (reg_heap r p) = 0
           then None else Some p)" for k
    using effect unfolding r'_def r_def by blast
  have "\<not> rev_accepting (reg_heap r' p) \<and> rev_leases (reg_heap r' p) = 0
       \<and> rev_state (reg_heap r' p) = ResourceGrantRevoked \<and> 0 < rev_operations (reg_heap r' p)"
    if k: "mget (reg_revisions r') k = Some p" and p: "rev_session (reg_heap r' p) = session" for k p
  proof -
    have session: "rev_session (reg_heap r p) = session"
      using p heap[of p] by (simp split: if_splits)
    then have "mget (reg_revisions r) k = Some p" "rev_operations (reg_heap r p) \<noteq> 0"
      using k table[of k] by (auto split: option.splits if_splits)
    then show ?thesis
      using session heap[of p] nonneg[of p] by (auto simp: in_mvals)
  qed
  moreover have "reg_heap r' p = reg_heap r p" if "rev_session (reg_heap r p) \<noteq> session" for p
    using heap[of p] that by simp
  ultimately show ?thesis
    using effect unfolding r'_def r_def by blast
qed

lemma execution_session_revoked_witness:
  "mget (reg_tokens (RevokeResourceSession ''s'' (sys_registry demo_system))) (executionToken ''x'') = None"
proof -
  have "mget (reg_tokens (sys_registry demo_system)) (executionToken ''x'') =
      Some \<lparr>adm_revision = 0, adm_pins = 1, adm_operation = False,
        adm_resourceKind = ExecutionNoKind, adm_resourceID = []\<rparr>"
    "rev_session (reg_heap (sys_registry demo_system) 0) = ''s''" by code_simp+
  then show ?thesis
    using execution_session_revoked[OF demo_reachable(2) inj_demo, of "''s''"] by simp
qed

text \<open>Along every run the snapshot, the key and the session of a revision never change, and
  its grant state only advances in the order prepared, published, draining, revoked.\<close>

theorem execution_grant_states_advance:
  assumes "reachable sha s" "inj sha" "(exec_step sha)\<^sup>*\<^sup>* s s'" "p < reg_next (sys_registry s)"
  shows "rev_state (reg_heap (sys_registry s) p) \<le> rev_state (reg_heap (sys_registry s') p)
    \<and> rev_snapshot (reg_heap (sys_registry s') p) = rev_snapshot (reg_heap (sys_registry s) p)
    \<and> rev_key (reg_heap (sys_registry s') p) = rev_key (reg_heap (sys_registry s) p)
    \<and> rev_session (reg_heap (sys_registry s') p) = rev_session (reg_heap (sys_registry s) p)"
  using run_good[OF assms(3) reachable_inv[OF assms(1,2)] assms(2)] assms(4)
  by (simp add: evolves_def)

lemma execution_grant_states_advance_witness:
  "ResourceGrantPublished \<le> rev_state (reg_heap (sys_registry demo_retired) 0)"
proof -
  have "0 < reg_next (sys_registry demo_system)"
    "rev_state (reg_heap (sys_registry demo_system) 0) = ResourceGrantPublished" by code_simp+
  then show ?thesis
    using execution_grant_states_advance[OF demo_reachable(2) inj_demo _ \<open>0 < _\<close>, of demo_retired]
      demo_retire_step by (metis r_into_rtranclp)
qed

end
