(* ===== verification/Go_Strings.thy ===== *)
theory Go_Strings
  imports Go_Errors
begin

text \<open>
  The functions of the packages \<open>strings\<close>, \<open>unicode/utf8\<close>, \<open>encoding/base64\<close> and \<open>sort\<close> that
  the program uses, on byte strings.
\<close>

section \<open>Sorting\<close>

text \<open>
  \<open>sort.Slice\<close> returns some ordering of the elements that the comparison allows. The model
  sorts stably; the lists it sorts come from maps whose order is arbitrary, so every result the
  source can return is one for some order of the map. Descending time is the key \<open>- t\<close>.
\<close>

abbreviation sortBy :: "('a \<Rightarrow> 'k :: linorder) \<Rightarrow> 'a list \<Rightarrow> 'a list" where
  "sortBy \<equiv> sort_key"

section \<open>Case and white space\<close>

definition byte :: "nat \<Rightarrow> char" where
  "byte n = char_of n"

abbreviation ord :: "char \<Rightarrow> nat" where
  "ord \<equiv> of_char"

definition lowerByte :: "char \<Rightarrow> char" where
  "lowerByte c = (case map_of (zip ''ABCDEFGHIJKLMNOPQRSTUVWXYZ'' ''abcdefghijklmnopqrstuvwxyz'') c of
     Some d \<Rightarrow> d | None \<Rightarrow> c)"

text \<open>
  \<open>strings.ToLower\<close>. Two letters outside ASCII have an ASCII lower case: U+0130 (bytes C4 B0)
  becomes \<open>i\<close> and U+212A (E2 84 AA) becomes \<open>k\<close>. All others keep a non-ASCII lower case and
  are left as they are: the program compares the results with ASCII constants only.
\<close>

fun toLower :: "string \<Rightarrow> string" where
  "toLower (a # b # c # s) =
     (if a = CHR 0xC4 \<and> b = CHR 0xB0 then CHR ''i'' # toLower (c # s)
      else if a = CHR 0xE2 \<and> b = CHR 0x84 \<and> c = CHR 0xAA then CHR ''k'' # toLower s
      else lowerByte a # toLower (b # c # s))"
| "toLower [a, b] = (if a = CHR 0xC4 \<and> b = CHR 0xB0 then ''i'' else [lowerByte a, lowerByte b])"
| "toLower [a] = [lowerByte a]"
| "toLower [] = []"

text \<open>The encodings of the white space characters of \<open>unicode.IsSpace\<close>.\<close>

definition spaces :: "string list" where
  "spaces = [[CHR 0x20], [CHR 0x09], [CHR 0x0A], [CHR 0x0B], [CHR 0x0C], [CHR 0x0D],
     [CHR 0xC2, CHR 0x85], [CHR 0xC2, CHR 0xA0], [CHR 0xE1, CHR 0x9A, CHR 0x80],
     [CHR 0xE2, CHR 0x80, CHR 0xA8], [CHR 0xE2, CHR 0x80, CHR 0xA9], [CHR 0xE2, CHR 0x80, CHR 0xAF],
     [CHR 0xE2, CHR 0x81, CHR 0x9F], [CHR 0xE3, CHR 0x80, CHR 0x80]]
   @ map (\<lambda>c. [CHR 0xE2, CHR 0x80, c])
      [CHR 0x80, CHR 0x81, CHR 0x82, CHR 0x83, CHR 0x84, CHR 0x85, CHR 0x86, CHR 0x87, CHR 0x88,
       CHR 0x89, CHR 0x8A]"

definition leadingSpace :: "string list \<Rightarrow> string \<Rightarrow> string option" where
  "leadingSpace ws s = find (\<lambda>w. prefix w s) ws"

lemma leadingSpace_shrinks:
  "leadingSpace ws s = Some w \<Longrightarrow> [] \<notin> set ws \<Longrightarrow> length (drop (length w) s) < length s"
  by (auto simp: leadingSpace_def find_Some_iff prefix_def in_set_conv_nth)

function trimLeft :: "string list \<Rightarrow> string \<Rightarrow> string" where
  "trimLeft ws s = (case leadingSpace (filter (\<lambda>w. w \<noteq> []) ws) s of None \<Rightarrow> s
     | Some w \<Rightarrow> trimLeft ws (drop (length w) s))"
  by auto

termination
  by (relation "measure (\<lambda>(ws, s). length s)") (auto dest: leadingSpace_shrinks)

declare trimLeft.simps [simp del]

definition trimSpace :: "string \<Rightarrow> string" where
  "trimSpace s = rev (trimLeft (map rev spaces) (rev (trimLeft spaces s)))"

section \<open>UTF-8\<close>

definition inRange :: "nat \<Rightarrow> nat \<Rightarrow> char \<Rightarrow> bool" where
  "inRange lo hi c = (lo \<le> ord c \<and> ord c \<le> hi)"

text \<open>\<open>utf8.Valid\<close>: no overlong forms, no surrogates, nothing above U+10FFFF.\<close>

fun utf8Valid :: "string \<Rightarrow> bool" where
  "utf8Valid [] = True"
| "utf8Valid (a # s) =
     (if inRange 0 127 a then utf8Valid s
      else if inRange 194 223 a then
        (case s of b # t \<Rightarrow> inRange 128 191 b \<and> utf8Valid t | _ \<Rightarrow> False)
      else if inRange 224 239 a then
        (case s of b # c # t \<Rightarrow>
            inRange (if ord a = 224 then 160 else 128) (if ord a = 237 then 159 else 191) b
            \<and> inRange 128 191 c \<and> utf8Valid t
         | _ \<Rightarrow> False)
      else if inRange 240 244 a then
        (case s of b # c # d # t \<Rightarrow>
            inRange (if ord a = 240 then 144 else 128) (if ord a = 244 then 143 else 191) b
            \<and> inRange 128 191 c \<and> inRange 128 191 d \<and> utf8Valid t
         | _ \<Rightarrow> False)
      else False)"

section \<open>Base64 without padding\<close>

definition base64Alphabet :: string where
  "base64Alphabet = ''ABCDEFGHIJKLMNOPQRSTUVWXYZabcdefghijklmnopqrstuvwxyz0123456789-_''"

definition base64Char :: "nat \<Rightarrow> char" where
  "base64Char n = base64Alphabet ! n"

definition base64Value :: "char \<Rightarrow> nat option" where
  "base64Value c = (let n = length (takeWhile (\<lambda>x. x \<noteq> c) base64Alphabet) in
     if n < 64 then Some n else None)"

text \<open>\<open>base64.RawURLEncoding.EncodeToString\<close>: three bytes become four characters.\<close>

fun base64Encode :: "string \<Rightarrow> string" where
  "base64Encode [] = []"
| "base64Encode [a] = map base64Char [ord a div 4, ord a mod 4 * 16]"
| "base64Encode [a, b] = map base64Char
     [ord a div 4, ord a mod 4 * 16 + ord b div 16, ord b mod 16 * 4]"
| "base64Encode (a # b # c # s) = map base64Char
     [ord a div 4, ord a mod 4 * 16 + ord b div 16, ord b mod 16 * 4 + ord c div 64, ord c mod 64]
     @ base64Encode s"

text \<open>The decoder skips carriage returns and line feeds and ignores the bits left over in the
  last character; a rest of one character is an error.\<close>

fun base64Bytes :: "nat list \<Rightarrow> string option" where
  "base64Bytes [] = Some []"
| "base64Bytes [_] = None"
| "base64Bytes [a, b] = Some [byte (a * 4 + b div 16)]"
| "base64Bytes [a, b, c] = Some [byte (a * 4 + b div 16), byte (b mod 16 * 16 + c div 4)]"
| "base64Bytes (a # b # c # d # s) =
     map_option (\<lambda>t. [byte (a * 4 + b div 16), byte (b mod 16 * 16 + c div 4), byte (c mod 4 * 64 + d)] @ t)
       (base64Bytes s)"

definition base64Decode :: "string \<Rightarrow> string option" where
  "base64Decode s = (let cs = filter (\<lambda>c. ord c \<noteq> 10 \<and> ord c \<noteq> 13) s;
     vs = map base64Value cs in
     if None \<in> set vs then None else base64Bytes (map the vs))"

subsection \<open>Decoding what was encoded\<close>

lemma base64Char_ok: "n < 64 \<Longrightarrow> base64Value (base64Char n) = Some n
    \<and> ord (base64Char n) \<noteq> 10 \<and> ord (base64Char n) \<noteq> 13"
proof -
  have "\<forall>n \<in> set [0..<64]. base64Value (base64Char n) = Some n
    \<and> ord (base64Char n) \<noteq> 10 \<and> ord (base64Char n) \<noteq> 13"
    by code_simp
  then show "n < 64 \<Longrightarrow> ?thesis" by simp
qed

lemma base64Decode_chars:
  assumes "\<forall>v \<in> set vs. v < 64"
  shows "base64Decode (map base64Char vs) = base64Bytes vs"
proof -
  have "filter (\<lambda>c. ord c \<noteq> 10 \<and> ord c \<noteq> 13) (map base64Char vs) = map base64Char vs"
    using assms base64Char_ok by (simp add: filter_id_conv)
  moreover have "map base64Value (map base64Char vs) = map Some vs"
    using assms base64Char_ok by simp
  moreover have "None \<notin> set (map Some vs)" "map the (map Some vs) = vs" by (auto simp: comp_def)
  ultimately show ?thesis
    unfolding base64Decode_def Let_def by presburger
qed

lemma byte_ord [simp]: "byte (ord c) = c"
  by (simp add: byte_def)

lemma ord_less: "ord c < (256 :: nat)"
proof -
  have "ord c = (of_char c :: nat) mod 256" by simp
  also have "\<dots> < 256" by simp
  finally show ?thesis .
qed

lemma pack_bits:
  assumes "x < k"
  shows "(y * k + x) div k = y" "(y * k + x) mod k = (x :: nat)"
  using assms by simp_all

lemma byte_parts: "ord c div 16 < (16 :: nat)" "ord c div 64 < (4 :: nat)"
  using ord_less[of c] by linarith+

lemma base64Encode_values:
  "\<exists>vs. (\<forall>v \<in> set vs. v < 64) \<and> base64Encode s = map base64Char vs \<and> base64Bytes vs = Some s"
proof (induction s rule: base64Encode.induct)
  case 1
  then show ?case by (intro exI[of _ "[]"]) simp
next
  case (2 a)
  have "ord a div 4 < 64" "ord a mod 4 * 16 < 64" using ord_less[of a] by linarith+
  then show ?case by (intro exI[of _ "[ord a div 4, ord a mod 4 * 16]"]) simp
next
  case (3 a b)
  have "ord a div 4 < 64" "ord a mod 4 * 16 + ord b div 16 < 64" "ord b mod 16 * 4 < 64"
    using ord_less[of a] ord_less[of b] by linarith+
  then show ?case using pack_bits[OF byte_parts(1)[of b]]
    by (intro exI[of _ "[ord a div 4, ord a mod 4 * 16 + ord b div 16, ord b mod 16 * 4]"]) simp
next
  case (4 a b c s)
  then obtain vs where vs: "\<forall>v \<in> set vs. v < 64" "base64Encode s = map base64Char vs" "base64Bytes vs = Some s"
    by blast
  have "ord a div 4 < 64" "ord a mod 4 * 16 + ord b div 16 < 64" "ord b mod 16 * 4 + ord c div 64 < 64"
    "ord c mod 64 < 64"
    using ord_less[of a] ord_less[of b] ord_less[of c] by linarith+
  then show ?case using vs pack_bits[OF byte_parts(1)[of b]] pack_bits[OF byte_parts(2)[of c]]
      mod_less[OF byte_parts(1)[of b]] div_less[OF byte_parts(1)[of b]]
    by (intro exI[of _ "[ord a div 4, ord a mod 4 * 16 + ord b div 16,
        ord b mod 16 * 4 + ord c div 64, ord c mod 64] @ vs"]) simp
qed

lemma base64_roundtrip: "base64Decode (base64Encode s) = Some s"
  using base64Encode_values[of s] base64Decode_chars by force

end
