(* ===== verification/Store_State.thy ===== *)
theory Store_State
  imports Model_Identity Go_Strings
begin

text \<open>
  The in-memory repository of \<open>store.go\<close>: the record \<open>Store\<close> has the fields of the Go struct
  (the two mutexes excepted). Every method holds the lock for its whole body, so a mutator is
  an atomic function from a state to a new state or an error, and a method that returns an error
  leaves the state as it was unless its model says otherwise. \<open>now\<close> is the value of
  \<open>time.Now()\<close> in the method. The generation counters of \<open>WorkerPublication\<close> are naturals: a
  64-bit counter that is incremented once per publication does not wrap.
\<close>

record runtimeKVValue =
  KVVal_Value :: string
  KVVal_Expiration :: "time option"

definition runtimeKVValue0 :: runtimeKVValue where
  "runtimeKVValue0 = \<lparr>KVVal_Value = [], KVVal_Expiration = None\<rparr>"

record Store =
  assetUploads :: "(string, AssetUploadSession) gomap"
  artifacts :: "(string, DeploymentArtifact) gomap"
  publications :: "(string, Publication) gomap"
  management :: "(string, ScriptManagementState) gomap"
  dispatchNamespaces :: "(string, DispatchNamespace) gomap"
  namespacePolicies :: "(string, NamespacePolicy list) gomap"
  workerPublications :: "(string, WorkerPublication) gomap"
  varsUpdates :: "(string, (string, VarsUpdateOperation) gomap) gomap"
  users :: "(string, User) gomap"
  usersByEmail :: "(string, string) gomap"
  oidcIdentities :: "(string, UserOIDCIdentity) gomap"
  controlRefresh :: "(string, ControlRefreshToken) gomap"
  pats :: "(string, PersonalAccessToken) gomap"
  patsByHash :: "(string, string) gomap"
  organizations :: "(string, Organization) gomap"
  memberships :: "(string, (string, OrganizationMembership) gomap) gomap"
  invites :: "(string, OrganizationInvite) gomap"
  oauthClients :: "(string, OAuthClient) gomap"
  oauthCodes :: "(string, OAuthAuthorizationCode) gomap"
  oauthTokens :: "(string, OAuthToken) gomap"
  oauthRefresh :: "(string, string) gomap"
  partnerIntegrations :: "(string, PartnerIntegration) gomap"
  partnerConnections :: "(string, PartnerConnection) gomap"
  partnerByExternal :: "(string, string) gomap"
  apps :: "(string, App) gomap"
  kvNamespaces :: "(string, KVNamespace) gomap"
  databases :: "(string, Database) gomap"
  dbMetrics :: "(string, DatabaseMetrics) gomap"
  objectBuckets :: "(string, ObjectStorageBucket) gomap"
  secrets :: "(string, (string, SecretRecord) gomap) gomap"
  deployments :: "(string, Deployment list) gomap"
  active :: "(string, (string, int) gomap) gomap"
  capabilityToApp :: "(string, string) gomap"
  kv :: "(string, (string, runtimeKVValue) gomap) gomap"
  kvMetrics :: "(string, KVNamespaceMetrics) gomap"
  objectMetrics :: "(string, ObjectStorageBucketMetrics) gomap"

text \<open>The maps \<open>assetUploads\<close> and \<open>management\<close> start as nil and are made on first use; a nil map
  reads as an empty one.\<close>

definition NewStore :: Store where
  "NewStore = \<lparr>assetUploads = mempty, artifacts = mempty, publications = mempty,
     management = mempty, dispatchNamespaces = mempty, namespacePolicies = mempty,
     workerPublications = mempty, varsUpdates = mempty, users = mempty, usersByEmail = mempty,
     oidcIdentities = mempty, controlRefresh = mempty, pats = mempty, patsByHash = mempty,
     organizations = mempty, memberships = mempty, invites = mempty, oauthClients = mempty,
     oauthCodes = mempty, oauthTokens = mempty, oauthRefresh = mempty,
     partnerIntegrations = mempty, partnerConnections = mempty, partnerByExternal = mempty,
     apps = mempty, kvNamespaces = mempty, databases = mempty, dbMetrics = mempty,
     objectBuckets = mempty, secrets = mempty, deployments = mempty, active = mempty,
     capabilityToApp = mempty, kv = mempty, kvMetrics = mempty, objectMetrics = mempty\<rparr>"

text \<open>Two names of map keys: \<open>a + "\x00" + b\<close>, and the element of a nested map, where a missing
  inner map reads as empty and is made when an element is assigned.\<close>

definition pairKey :: "string \<Rightarrow> string \<Rightarrow> string" where
  "pairKey a b = a @ [byte 0] @ b"

abbreviation mget2 :: "('a, ('b, 'v) gomap) gomap \<Rightarrow> 'a \<Rightarrow> 'b \<Rightarrow> 'v option" where
  "mget2 m a b \<equiv> mget (mget0 mempty m a) b"

definition mput2 :: "'a \<Rightarrow> 'b \<Rightarrow> 'v \<Rightarrow> ('a, ('b, 'v) gomap) gomap \<Rightarrow> ('a, ('b, 'v) gomap) gomap" where
  "mput2 a b v m = mput a (mput b v (mget0 mempty m a)) m"

text \<open>\<open>delete(m[a], b)\<close> does nothing when the inner map is missing.\<close>

definition mdel2 :: "'a \<Rightarrow> 'b \<Rightarrow> ('a, ('b, 'v) gomap) gomap \<Rightarrow> ('a, ('b, 'v) gomap) gomap" where
  "mdel2 a b m = (case mget m a of None \<Rightarrow> m | Some n \<Rightarrow> mput a (mdel b n) m)"

lemma mget2_put2 [simp]: "mget2 (mput2 a b v m) a' b' = (if a' = a \<and> b' = b then Some v else mget2 m a' b')"
  by (simp add: mput2_def)

lemma mget2_del2 [simp]: "mget2 (mdel2 a b m) a' b' = (if a' = a \<and> b' = b then None else mget2 m a' b')"
  by (auto simp: mdel2_def mget0_def split: option.split)

named_theorems store_ops "definitions of the store's methods"
named_theorems store_invs "definitions of the store's invariants"

end
