(* ===== verification/Access_Policy.thy ===== *)
theory Access_Policy
  imports Go_Strings
begin

text \<open>
  Roles, scopes and usage levels: \<open>access.go\<close> and \<open>limits.go\<close>.
\<close>

section \<open>Roles\<close>

definition viewerScopes :: "string list" where
  "viewerScopes = [''namespaces:read'', ''workers:read'', ''kv:read'', ''db:read'', ''objects:read'']"

definition memberScopes :: "string list" where
  "memberScopes = [''namespaces:read'', ''workers:read'', ''workers:write'', ''deployments:write'',
     ''secrets:write'', ''kv:read'', ''kv:write'', ''db:read'', ''db:write'', ''objects:read'',
     ''objects:write'']"

definition adminScopes :: "string list" where
  "adminScopes = memberScopes @ [''namespaces:write'', ''namespaces:dispatch'', ''orgs:read'',
     ''members:read'', ''members:write'']"

definition ownerScopes :: "string list" where
  "ownerScopes = adminScopes @ [''orgs:write'', ''members:owner'']"

definition NormalizeRole :: "string \<Rightarrow> string" where
  "NormalizeRole role = (let r = toLower (trimSpace role) in
     if r \<in> set [''owner'', ''admin'', ''member'', ''viewer''] then r else [])"

definition RoleScopes :: "string \<Rightarrow> string list" where
  "RoleScopes role = (let r = NormalizeRole role in
     if r = ''owner'' then ownerScopes
     else if r = ''admin'' then adminScopes
     else if r = ''member'' then memberScopes
     else if r = ''viewer'' then viewerScopes
     else [])"

definition HasScope :: "string list \<Rightarrow> string \<Rightarrow> bool" where
  "HasScope scopes scope = list_ex (\<lambda>candidate. candidate = scope) scopes"

lemma HasScope_iff [simp]: "HasScope scopes scope \<longleftrightarrow> scope \<in> set scopes"
  by (auto simp: HasScope_def list_ex_iff)

lemma NormalizeRole_range: "NormalizeRole role \<in> {''owner'', ''admin'', ''member'', ''viewer'', []}"
  by (auto simp: NormalizeRole_def Let_def)

text \<open>The four roles are fixed points of the normalisation, so normalising twice changes
  nothing.\<close>

lemma NormalizeRole_known:
  "NormalizeRole ''owner'' = ''owner''" "NormalizeRole ''admin'' = ''admin''"
  "NormalizeRole ''member'' = ''member''" "NormalizeRole ''viewer'' = ''viewer''"
  "NormalizeRole [] = []"
  by code_simp+

lemma NormalizeRole_idem [simp]: "NormalizeRole (NormalizeRole role) = NormalizeRole role"
  using NormalizeRole_range[of role] by (elim insertE emptyE) (simp_all add: NormalizeRole_known)

lemma roles_nested:
  "set viewerScopes \<subseteq> set memberScopes" "set memberScopes \<subseteq> set adminScopes"
  "set adminScopes \<subseteq> set ownerScopes"
  by (auto simp: viewerScopes_def memberScopes_def adminScopes_def ownerScopes_def)

section \<open>Usage levels\<close>

record OrgLimits =
  Limit_Workers :: "int option"
  Limit_KVNamespaces :: "int option"
  Limit_ObjectStorageBuckets :: "int option"
  Limit_OAuthClients :: "int option"
  Limit_ObjectStorageBytes :: "int option"
  Limit_KVStorageBytes :: "int option"

definition NormalizeUsageLevel :: "string \<Rightarrow> string" where
  "NormalizeUsageLevel level =
     (if toLower (trimSpace level) = ''paid'' then ''paid'' else ''default'')"

definition OrgLimitsForLevel :: "string \<Rightarrow> OrgLimits" where
  "OrgLimitsForLevel level =
     (if NormalizeUsageLevel level = ''paid''
      then \<lparr>Limit_Workers = None, Limit_KVNamespaces = None, Limit_ObjectStorageBuckets = None,
            Limit_OAuthClients = None, Limit_ObjectStorageBytes = None, Limit_KVStorageBytes = None\<rparr>
      else \<lparr>Limit_Workers = Some 3, Limit_KVNamespaces = Some 3, Limit_ObjectStorageBuckets = Some 3,
            Limit_OAuthClients = Some 0, Limit_ObjectStorageBytes = Some (500 * 1024 * 1024),
            Limit_KVStorageBytes = Some (100 * 1024 * 1024)\<rparr>)"

definition usageLimitError :: "string \<Rightarrow> string \<Rightarrow> int \<Rightarrow> error" where
  "usageLimitError level resource limit = ErrUsageLimit (NormalizeUsageLevel level) resource limit"

definition usageByteLimitError :: "string \<Rightarrow> string \<Rightarrow> int \<Rightarrow> error" where
  "usageByteLimitError level resource limit =
     ErrUsageLimit (NormalizeUsageLevel level) (''bytes of '' @ resource) limit"

lemma NormalizeUsageLevel_idem [simp]:
  "NormalizeUsageLevel (NormalizeUsageLevel level) = NormalizeUsageLevel level"
proof -
  have "NormalizeUsageLevel ''paid'' = ''paid''" "NormalizeUsageLevel ''default'' = ''default''"
    by code_simp+
  moreover have "NormalizeUsageLevel level = ''paid'' \<or> NormalizeUsageLevel level = ''default''"
    by (auto simp: NormalizeUsageLevel_def)
  ultimately show ?thesis by auto
qed

end
