(* ===== verification/Store_Identity.thy ===== *)
theory Store_Identity
  imports Store_State Access_Policy
begin

text \<open>
  Users, OIDC identities, refresh tokens, personal access tokens, organizations, memberships
  and invites of \<open>store.go\<close>.
\<close>

section \<open>Users and identities\<close>

definition CreateUser :: "User \<Rightarrow> Store \<Rightarrow> Store result" where [store_ops]:
  "CreateUser user s =
     (if mhas (users s) (User_ID user) then Inl ErrUserExists
      else if mhas (usersByEmail s) (User_Email user) then Inl ErrUserExists
      else Inr (s\<lparr>users := mput (User_ID user) user (users s),
                  usersByEmail := mput (User_Email user) (User_ID user) (usersByEmail s)\<rparr>))"

definition UserByEmail :: "string \<Rightarrow> Store \<Rightarrow> User result" where
  "UserByEmail email s =
     (case mget (usersByEmail s) email of None \<Rightarrow> Inl ErrUserNotFound
      | Some i \<Rightarrow> Inr (mget0 User0 (users s) i))"

definition UserByID :: "string \<Rightarrow> Store \<Rightarrow> User result" where
  "UserByID userID s =
     (case mget (users s) userID of None \<Rightarrow> Inl ErrUserNotFound | Some user \<Rightarrow> Inr user)"

definition oidcIdentityKey :: "string \<Rightarrow> string \<Rightarrow> string" where
  "oidcIdentityKey issuer subject = pairKey issuer subject"

definition UserByOIDCIdentity :: "string \<Rightarrow> string \<Rightarrow> Store \<Rightarrow> User result" where
  "UserByOIDCIdentity issuer subject s =
     (case mget (oidcIdentities s) (oidcIdentityKey issuer subject) of
        None \<Rightarrow> Inl ErrOIDCIdentityNotFound
      | Some identity \<Rightarrow>
          (case mget (users s) (Identity_UserID identity) of
             None \<Rightarrow> Inl ErrUserNotFound | Some user \<Rightarrow> Inr user))"

definition CreateOIDCIdentity :: "UserOIDCIdentity \<Rightarrow> Store \<Rightarrow> Store result" where [store_ops]:
  "CreateOIDCIdentity identity s =
     (if \<not> mhas (users s) (Identity_UserID identity) then Inl ErrUserNotFound
      else (let key = oidcIdentityKey (Identity_Issuer identity) (Identity_Subject identity) in
        if mhas (oidcIdentities s) key then Inl ErrOIDCIdentityExists
        else Inr (s\<lparr>oidcIdentities := mput key identity (oidcIdentities s)\<rparr>)))"

definition UserCount :: "Store \<Rightarrow> int" where
  "UserCount s = int (mlen (users s))"

section \<open>Refresh tokens\<close>

definition CreateControlRefreshToken :: "ControlRefreshToken \<Rightarrow> Store \<Rightarrow> Store result" where [store_ops]:
  "CreateControlRefreshToken token s =
     Inr (s\<lparr>controlRefresh := mput (Refresh_TokenHash token) token (controlRefresh s)\<rparr>)"

definition getControlRefreshToken :: "string \<Rightarrow> Store \<Rightarrow> ControlRefreshToken result" where
  "getControlRefreshToken tokenHash s =
     (case mget (controlRefresh s) tokenHash of
        None \<Rightarrow> Inl ErrControlRefreshTokenNotFound | Some token \<Rightarrow> Inr token)"

definition UpdateControlRefreshToken :: "ControlRefreshToken \<Rightarrow> Store \<Rightarrow> Store result" where [store_ops]:
  "UpdateControlRefreshToken token s =
     (case mget (controlRefresh s) (Refresh_TokenHash token) of
        None \<Rightarrow> Inl ErrControlRefreshTokenNotFound
      | Some existing \<Rightarrow>
          if Refresh_RevokedAt token \<noteq> None \<and> Refresh_RevokedAt existing \<noteq> None
          then Inl ErrControlRefreshTokenNotFound
          else Inr (s\<lparr>controlRefresh := mput (Refresh_TokenHash token) token (controlRefresh s)\<rparr>))"

section \<open>Personal access tokens\<close>

definition CreatePersonalAccessToken :: "PersonalAccessToken \<Rightarrow> Store \<Rightarrow> Store result" where [store_ops]:
  "CreatePersonalAccessToken token s =
     (if mhas (pats s) (PAT_ID token) then Inl ErrPersonalAccessTokenNotFound
      else if mhas (patsByHash s) (PAT_TokenHash token) then Inl ErrPersonalAccessTokenNotFound
      else Inr (s\<lparr>pats := mput (PAT_ID token) token (pats s),
                  patsByHash := mput (PAT_TokenHash token) (PAT_ID token) (patsByHash s)\<rparr>))"

definition PersonalAccessTokenByHash :: "string \<Rightarrow> Store \<Rightarrow> PersonalAccessToken result" where
  "PersonalAccessTokenByHash tokenHash s =
     (case mget (patsByHash s) tokenHash of
        None \<Rightarrow> Inl ErrPersonalAccessTokenNotFound
      | Some i \<Rightarrow> (case mget (pats s) i of
          None \<Rightarrow> Inl ErrPersonalAccessTokenNotFound | Some token \<Rightarrow> Inr token))"

definition PersonalAccessTokensByUser :: "string \<Rightarrow> Store \<Rightarrow> PersonalAccessToken list" where
  "PersonalAccessTokensByUser userID s =
     sortBy (\<lambda>t. - PAT_CreatedAt t) (filter (\<lambda>t. PAT_UserID t = userID) (mvals (pats s)))"

definition UpdatePersonalAccessToken :: "PersonalAccessToken \<Rightarrow> Store \<Rightarrow> Store result" where [store_ops]:
  "UpdatePersonalAccessToken token s =
     (case mget (pats s) (PAT_ID token) of
        None \<Rightarrow> Inl ErrPersonalAccessTokenNotFound
      | Some existing \<Rightarrow>
          (let byHash = (if PAT_TokenHash existing \<noteq> PAT_TokenHash token
             then mput (PAT_TokenHash token) (PAT_ID token)
                    (mdel (PAT_TokenHash existing) (patsByHash s))
             else patsByHash s)
           in Inr (s\<lparr>patsByHash := byHash, pats := mput (PAT_ID token) token (pats s)\<rparr>)))"

section \<open>Organizations and memberships\<close>

definition CreateOrganization :: "Organization \<Rightarrow> Store \<Rightarrow> Store result" where [store_ops]:
  "CreateOrganization org s =
     (if mhas (organizations s) (Org_ID org) then Inl ErrOrganizationExists
      else Inr (s\<lparr>organizations := mput (Org_ID org)
             (org\<lparr>Org_UsageLevel := NormalizeUsageLevel (Org_UsageLevel org)\<rparr>) (organizations s)\<rparr>))"

definition normalizedOrg :: "Organization \<Rightarrow> Organization" where
  "normalizedOrg org = org\<lparr>Org_UsageLevel := NormalizeUsageLevel (Org_UsageLevel org)\<rparr>"

definition ListOrganizations :: "Store \<Rightarrow> Organization list" where
  "ListOrganizations s = sortBy Org_Name (map normalizedOrg (mvals (organizations s)))"

definition GetOrganization :: "string \<Rightarrow> Store \<Rightarrow> Organization result" where
  "GetOrganization orgID s =
     (case mget (organizations s) orgID of
        None \<Rightarrow> Inl ErrOrganizationNotFound | Some org \<Rightarrow> Inr (normalizedOrg org))"

definition CountOwnedOrganizationsByUser :: "string \<Rightarrow> Store \<Rightarrow> int result" where
  "CountOwnedOrganizationsByUser userID s =
     (if \<not> mhas (users s) userID then Inl ErrUserNotFound
      else Inr (int (length (filter (\<lambda>m. Member_Role m = ''owner'')
             (mvals (mget0 mempty (memberships s) userID))))))"

definition UpsertOrganizationMembership :: "OrganizationMembership \<Rightarrow> time \<Rightarrow> Store \<Rightarrow> Store result" where [store_ops]:
  "UpsertOrganizationMembership membership now s =
     (let u = Member_UserID membership; g = Member_OrgID membership in
      if \<not> mhas (users s) u then Inl ErrUserNotFound
      else if \<not> mhas (organizations s) g then Inl ErrOrganizationNotFound
      else
        (let created = (if Member_CreatedAt membership = 0
               then (case mget2 (memberships s) u g of
                       Some existing \<Rightarrow> Member_CreatedAt existing | None \<Rightarrow> now)
               else Member_CreatedAt membership)
         in Inr (s\<lparr>memberships := mput2 u g
              (membership\<lparr>Member_CreatedAt := created,
                 Member_Role := NormalizeRole (Member_Role membership)\<rparr>) (memberships s)\<rparr>)))"

definition AddUserToOrganization :: "string \<Rightarrow> string \<Rightarrow> time \<Rightarrow> Store \<Rightarrow> Store result" where
  "AddUserToOrganization userID orgID now s =
     UpsertOrganizationMembership (OrganizationMembership0\<lparr>Member_UserID := userID,
       Member_OrgID := orgID, Member_Role := ''owner'', Member_Scopes := RoleScopes ''owner''\<rparr>) now s"

definition membershipView :: "Store \<Rightarrow> string \<Rightarrow> OrganizationMembership \<Rightarrow> OrganizationMembership" where
  "membershipView s userID m = m\<lparr>Member_UserEmail := User_Email (mget0 User0 (users s) userID)\<rparr>"

definition getOrganizationMembership :: "string \<Rightarrow> string \<Rightarrow> Store \<Rightarrow> OrganizationMembership result" where
  "getOrganizationMembership userID orgID s =
     (case mget2 (memberships s) userID orgID of
        None \<Rightarrow> Inl ErrMembershipNotFound | Some m \<Rightarrow> Inr (membershipView s userID m))"

definition ListOrganizationMembers :: "string \<Rightarrow> Store \<Rightarrow> OrganizationMembership list result" where
  "ListOrganizationMembers orgID s =
     (if \<not> mhas (organizations s) orgID then Inl ErrOrganizationNotFound
      else Inr (sortBy Member_UserEmail (List.map_filter
        (\<lambda>(userID, orgs). map_option (membershipView s userID) (mget orgs orgID))
        (mentries (memberships s)))))"

definition OwnerCount :: "string \<Rightarrow> Store \<Rightarrow> int" where
  "OwnerCount orgID s = int (length (filter
     (\<lambda>orgs. case mget orgs orgID of None \<Rightarrow> False | Some m \<Rightarrow> Member_Role m = ''owner'')
     (mvals (memberships s))))"

definition DeleteOrganizationMembership :: "string \<Rightarrow> string \<Rightarrow> Store \<Rightarrow> Store result" where [store_ops]:
  "DeleteOrganizationMembership userID orgID s =
     (if mget2 (memberships s) userID orgID = None then Inl ErrMembershipNotFound
      else Inr (s\<lparr>memberships := mdel2 userID orgID (memberships s)\<rparr>))"

definition ListOrganizationsForUser :: "string \<Rightarrow> Store \<Rightarrow> Organization list result" where
  "ListOrganizationsForUser userID s =
     (if \<not> mhas (users s) userID then Inl ErrUserNotFound
      else Inr (sortBy Org_Name (map
        (\<lambda>(orgID, m). (normalizedOrg (mget0 Organization0 (organizations s) orgID))
           \<lparr>Org_Role := Member_Role m, Org_Scopes := Member_Scopes m\<rparr>)
        (mentries (mget0 mempty (memberships s) userID)))))"

definition UserBelongsToOrganization :: "string \<Rightarrow> string \<Rightarrow> Store \<Rightarrow> bool result" where
  "UserBelongsToOrganization userID orgID s =
     (if \<not> mhas (users s) userID then Inl ErrUserNotFound
      else Inr (mget2 (memberships s) userID orgID \<noteq> None))"

section \<open>Invites\<close>

definition CreateOrganizationInvite :: "OrganizationInvite \<Rightarrow> Store \<Rightarrow> Store result" where [store_ops]:
  "CreateOrganizationInvite invite s =
     (if \<not> mhas (organizations s) (Invite_OrgID invite) then Inl ErrOrganizationNotFound
      else Inr (s\<lparr>invites := mput (Invite_TokenHash invite) invite (invites s)\<rparr>))"

definition inviteView :: "Store \<Rightarrow> OrganizationInvite \<Rightarrow> OrganizationInvite" where
  "inviteView s invite = invite\<lparr>
     Invite_InviterEmail := (case mget (users s) (Invite_InviterID invite) of
        None \<Rightarrow> Invite_InviterEmail invite | Some user \<Rightarrow> User_Email user)\<rparr>"

definition inviteNamed :: "Store \<Rightarrow> OrganizationInvite \<Rightarrow> OrganizationInvite" where
  "inviteNamed s invite = (inviteView s invite)\<lparr>
     Invite_OrgName := (case mget (organizations s) (Invite_OrgID invite) of
        None \<Rightarrow> Invite_OrgName invite | Some org \<Rightarrow> Org_Name org)\<rparr>"

definition OrganizationInviteByTokenHash :: "string \<Rightarrow> Store \<Rightarrow> OrganizationInvite result" where
  "OrganizationInviteByTokenHash tokenHash s =
     (case mget (invites s) tokenHash of
        None \<Rightarrow> Inl ErrInviteNotFound | Some invite \<Rightarrow> Inr (inviteNamed s invite))"

definition OrganizationInviteByID :: "string \<Rightarrow> string \<Rightarrow> Store \<Rightarrow> OrganizationInvite result" where
  "OrganizationInviteByID orgID inviteID s =
     (case find (\<lambda>i. Invite_OrgID i = orgID \<and> Invite_ID i = inviteID) (mvals (invites s)) of
        None \<Rightarrow> Inl ErrInviteNotFound | Some invite \<Rightarrow> Inr (inviteNamed s invite))"

definition OrganizationInvitesByOrg :: "string \<Rightarrow> Store \<Rightarrow> OrganizationInvite list" where
  "OrganizationInvitesByOrg orgID s = sortBy (\<lambda>i. - Invite_CreatedAt i)
     (map (inviteView s) (filter (\<lambda>i. Invite_OrgID i = orgID) (mvals (invites s))))"

definition UpdateOrganizationInvite :: "OrganizationInvite \<Rightarrow> Store \<Rightarrow> Store result" where [store_ops]:
  "UpdateOrganizationInvite invite s =
     (if \<not> mhas (invites s) (Invite_TokenHash invite) then Inl ErrInviteNotFound
      else Inr (s\<lparr>invites := mput (Invite_TokenHash invite) invite (invites s)\<rparr>))"

end
