(* ===== verification/Store_OAuth.thy ===== *)
theory Store_OAuth
  imports Store_State
begin

text \<open>
  OAuth clients, authorization codes and tokens, partner integrations and connections of
  \<open>store.go\<close>.
\<close>

section \<open>Clients and codes\<close>

definition CreateOAuthClient :: "OAuthClient \<Rightarrow> Store \<Rightarrow> Store result" where [store_ops]:
  "CreateOAuthClient client s =
     (if mhas (oauthClients s) (Client_ID client) then Inl ErrOAuthClientNotFound
      else Inr (s\<lparr>oauthClients := mput (Client_ID client) client (oauthClients s)\<rparr>))"

definition CountOAuthClientsByOwnerOrg :: "string \<Rightarrow> Store \<Rightarrow> int" where
  "CountOAuthClientsByOwnerOrg ownerOrgID s =
     int (length (filter (\<lambda>c. Client_OwnerOrgID c = ownerOrgID) (mvals (oauthClients s))))"

definition getOAuthClient :: "string \<Rightarrow> Store \<Rightarrow> OAuthClient result" where
  "getOAuthClient clientID s =
     (case mget (oauthClients s) clientID of
        None \<Rightarrow> Inl ErrOAuthClientNotFound | Some client \<Rightarrow> Inr client)"

definition OAuthClientsByOwnerOrg :: "string \<Rightarrow> Store \<Rightarrow> OAuthClient list" where
  "OAuthClientsByOwnerOrg ownerOrgID s = sortBy Client_Name (sortBy Client_ID
     (filter (\<lambda>c. Client_OwnerOrgID c = ownerOrgID) (mvals (oauthClients s))))"

definition UpdateOAuthClient :: "OAuthClient \<Rightarrow> Store \<Rightarrow> Store result" where [store_ops]:
  "UpdateOAuthClient client s =
     (if \<not> mhas (oauthClients s) (Client_ID client) then Inl ErrOAuthClientNotFound
      else Inr (s\<lparr>oauthClients := mput (Client_ID client) client (oauthClients s)\<rparr>))"

definition CreateOAuthAuthorizationCode :: "OAuthAuthorizationCode \<Rightarrow> Store \<Rightarrow> Store result" where [store_ops]:
  "CreateOAuthAuthorizationCode code s =
     Inr (s\<lparr>oauthCodes := mput (Code_CodeHash code) code (oauthCodes s)\<rparr>)"

definition getOAuthAuthorizationCode :: "string \<Rightarrow> Store \<Rightarrow> OAuthAuthorizationCode result" where
  "getOAuthAuthorizationCode codeHash s =
     (case mget (oauthCodes s) codeHash of
        None \<Rightarrow> Inl ErrOAuthInvalidGrant | Some code \<Rightarrow> Inr code)"

definition UpdateOAuthAuthorizationCode :: "OAuthAuthorizationCode \<Rightarrow> Store \<Rightarrow> Store result" where [store_ops]:
  "UpdateOAuthAuthorizationCode code s =
     (if \<not> mhas (oauthCodes s) (Code_CodeHash code) then Inl ErrOAuthInvalidGrant
      else Inr (s\<lparr>oauthCodes := mput (Code_CodeHash code) code (oauthCodes s)\<rparr>))"

section \<open>Tokens\<close>

definition refreshIndex :: "OAuthToken \<Rightarrow> (string, string) gomap \<Rightarrow> (string, string) gomap" where
  "refreshIndex token m =
     (if Token_RefreshTokenHash token \<noteq> []
      then mput (Token_RefreshTokenHash token) (Token_TokenHash token) m else m)"

definition CreateOAuthToken :: "OAuthToken \<Rightarrow> Store \<Rightarrow> Store result" where [store_ops]:
  "CreateOAuthToken token s =
     Inr (s\<lparr>oauthTokens := mput (Token_TokenHash token) token (oauthTokens s),
            oauthRefresh := refreshIndex token (oauthRefresh s)\<rparr>)"

definition OAuthAccessToken :: "string \<Rightarrow> Store \<Rightarrow> OAuthToken result" where
  "OAuthAccessToken tokenHash s =
     (case mget (oauthTokens s) tokenHash of
        None \<Rightarrow> Inl ErrOAuthTokenNotFound | Some token \<Rightarrow> Inr token)"

definition OAuthRefreshToken :: "string \<Rightarrow> Store \<Rightarrow> OAuthToken result" where
  "OAuthRefreshToken refreshTokenHash s =
     (case mget (oauthRefresh s) refreshTokenHash of
        None \<Rightarrow> Inl ErrOAuthTokenNotFound
      | Some accessHash \<Rightarrow> OAuthAccessToken accessHash s)"

definition UpdateOAuthToken :: "OAuthToken \<Rightarrow> Store \<Rightarrow> Store result" where [store_ops]:
  "UpdateOAuthToken token s =
     (if \<not> mhas (oauthTokens s) (Token_TokenHash token) then Inl ErrOAuthTokenNotFound
      else CreateOAuthToken token s)"

text \<open>The three revocation loops mark every token a filter selects and that is not yet revoked.\<close>

definition revokeWhere :: "(OAuthToken \<Rightarrow> bool) \<Rightarrow> time \<Rightarrow> Store \<Rightarrow> Store" where [store_ops]:
  "revokeWhere P revokedAt s = s\<lparr>oauthTokens := mmap (\<lambda>_ token.
     if P token \<and> Token_RevokedAt token = None then token\<lparr>Token_RevokedAt := Some revokedAt\<rparr>
     else token) (oauthTokens s)\<rparr>"

definition RevokeOAuthClientTokens :: "string \<Rightarrow> string \<Rightarrow> string \<Rightarrow> time \<Rightarrow> Store \<Rightarrow> Store result" where [store_ops]:
  "RevokeOAuthClientTokens userID orgID clientID revokedAt s =
     Inr (revokeWhere (\<lambda>t. Token_UserID t = userID \<and> Token_OrgID t = orgID
            \<and> Token_ClientID t = clientID) revokedAt s)"

definition RevokeAllOAuthClientTokens :: "string \<Rightarrow> time \<Rightarrow> Store \<Rightarrow> Store result" where [store_ops]:
  "RevokeAllOAuthClientTokens clientID revokedAt s =
     Inr (revokeWhere (\<lambda>t. Token_ClientID t = clientID) revokedAt s)"

definition RevokePartnerConnectionTokens :: "string \<Rightarrow> time \<Rightarrow> Store \<Rightarrow> Store result" where [store_ops]:
  "RevokePartnerConnectionTokens connectionID revokedAt s =
     Inr (revokeWhere (\<lambda>t. Token_PartnerConnectionID t = connectionID) revokedAt s)"

section \<open>Connections of users and clients\<close>

text \<open>The loops keep, per key, the oldest live token the loop has seen.\<close>

definition OAuthConnections :: "string \<Rightarrow> string \<Rightarrow> Store \<Rightarrow> OAuthConnection list" where
  "OAuthConnections userID orgID s =
     (let step = (\<lambda>m token.
        if Token_UserID token \<noteq> userID \<or> Token_OrgID token \<noteq> orgID \<or> Token_RevokedAt token \<noteq> None then m
        else (case mget (oauthClients s) (Token_ClientID token) of
            None \<Rightarrow> m
          | Some client \<Rightarrow>
              if (case mget m (Token_ClientID token) of None \<Rightarrow> True
                  | Some existing \<Rightarrow> Token_CreatedAt token < Conn_CreatedAt existing)
              then mput (Token_ClientID token) \<lparr>Conn_ClientID = Token_ClientID token,
                     Conn_Name = Client_Name client, Conn_Scopes = Token_Scopes token,
                     Conn_CreatedAt = Token_CreatedAt token\<rparr> m
              else m))
      in sortBy Conn_Name (mvals (foldl step mempty (mvals (oauthTokens s)))))"

definition OAuthClientConnections :: "string \<Rightarrow> Store \<Rightarrow> OAuthClientConnection list" where
  "OAuthClientConnections clientID s =
     (let step = (\<lambda>m token.
        if Token_ClientID token \<noteq> clientID \<or> Token_RevokedAt token \<noteq> None then m
        else (case (mget (users s) (Token_UserID token), mget (organizations s) (Token_OrgID token)) of
            (Some user, Some org) \<Rightarrow>
              (let key = pairKey (Token_UserID token) (Token_OrgID token) in
               if (case mget m key of None \<Rightarrow> True
                  | Some existing \<Rightarrow> Token_CreatedAt token < ClientConn_CreatedAt existing)
               then mput key \<lparr>ClientConn_ClientID = Token_ClientID token,
                      ClientConn_UserID = Token_UserID token, ClientConn_UserEmail = User_Email user,
                      ClientConn_OrgID = Token_OrgID token, ClientConn_OrgName = Org_Name org,
                      ClientConn_Scopes = Token_Scopes token,
                      ClientConn_CreatedAt = Token_CreatedAt token\<rparr> m
               else m)
          | _ \<Rightarrow> m))
      in sortBy ClientConn_OrgName (sortBy ClientConn_UserEmail
           (mvals (foldl step mempty (mvals (oauthTokens s))))))"

section \<open>Partners\<close>

definition CreatePartnerIntegration :: "PartnerIntegration \<Rightarrow> Store \<Rightarrow> Store result" where [store_ops]:
  "CreatePartnerIntegration integration s =
     (if mhas (partnerIntegrations s) (Integ_ID integration) then Inl ErrPartnerIntegrationExists
      else Inr (s\<lparr>partnerIntegrations := mput (Integ_ID integration) integration (partnerIntegrations s)\<rparr>))"

definition getPartnerIntegration :: "string \<Rightarrow> Store \<Rightarrow> PartnerIntegration result" where
  "getPartnerIntegration i s =
     (case mget (partnerIntegrations s) i of
        None \<Rightarrow> Inl ErrPartnerIntegrationNotFound | Some integration \<Rightarrow> Inr integration)"

definition PartnerIntegrationsByOwnerOrg :: "string \<Rightarrow> Store \<Rightarrow> PartnerIntegration list" where
  "PartnerIntegrationsByOwnerOrg ownerOrgID s = sortBy Integ_Name
     (filter (\<lambda>i. Integ_OwnerOrgID i = ownerOrgID) (mvals (partnerIntegrations s)))"

definition UpdatePartnerIntegration :: "PartnerIntegration \<Rightarrow> Store \<Rightarrow> Store result" where [store_ops]:
  "UpdatePartnerIntegration integration s =
     (if \<not> mhas (partnerIntegrations s) (Integ_ID integration) then Inl ErrPartnerIntegrationNotFound
      else Inr (s\<lparr>partnerIntegrations := mput (Integ_ID integration) integration (partnerIntegrations s)\<rparr>))"

definition ProvisionPartnerConnection :: "Organization \<Rightarrow> PartnerConnection \<Rightarrow> Store
    \<Rightarrow> (Organization \<times> PartnerConnection \<times> bool \<times> Store) result" where [store_ops]:
  "ProvisionPartnerConnection org connection s =
     (let key = pairKey (PConn_IntegrationID connection) (PConn_ExternalAccountID connection) in
      case mget (partnerByExternal s) key of
        Some i \<Rightarrow> (let c = mget0 PartnerConnection0 (partnerConnections s) i in
          Inr (mget0 Organization0 (organizations s) (PConn_OrgID c), c, False, s))
      | None \<Rightarrow>
          if mhas (organizations s) (Org_ID org) then Inl ErrOrganizationExists
          else Inr (org, connection, True,
            s\<lparr>organizations := mput (Org_ID org) org (organizations s),
              partnerConnections := mput (PConn_ID connection) connection (partnerConnections s),
              partnerByExternal := mput key (PConn_ID connection) (partnerByExternal s)\<rparr>))"

definition getPartnerConnection :: "string \<Rightarrow> Store \<Rightarrow> PartnerConnection result" where
  "getPartnerConnection i s =
     (case mget (partnerConnections s) i of
        None \<Rightarrow> Inl ErrPartnerConnectionNotFound | Some connection \<Rightarrow> Inr connection)"

definition PartnerConnectionsByIntegration :: "string \<Rightarrow> Store \<Rightarrow> PartnerConnection list" where
  "PartnerConnectionsByIntegration integrationID s =
     filter (\<lambda>c. PConn_IntegrationID c = integrationID) (mvals (partnerConnections s))"

definition RevokePartnerConnection :: "string \<Rightarrow> time \<Rightarrow> Store \<Rightarrow> Store result" where [store_ops]:
  "RevokePartnerConnection i revokedAt s =
     (case mget (partnerConnections s) i of
        None \<Rightarrow> Inl ErrPartnerConnectionNotFound
      | Some c \<Rightarrow> Inr (s\<lparr>partnerConnections := mput i
          (c\<lparr>PConn_Status := ''revoked'', PConn_RevokedAt := Some revokedAt\<rparr>) (partnerConnections s)\<rparr>))"

definition RestorePartnerConnection :: "string \<Rightarrow> Store \<Rightarrow> Store result" where [store_ops]:
  "RestorePartnerConnection i s =
     (case mget (partnerConnections s) i of
        None \<Rightarrow> Inl ErrPartnerConnectionNotFound
      | Some c \<Rightarrow> Inr (s\<lparr>partnerConnections := mput i
          (c\<lparr>PConn_Status := ''active'', PConn_RevokedAt := None\<rparr>) (partnerConnections s)\<rparr>))"

end
