(* ===== verification/Store_Apps.thy ===== *)
theory Store_Apps
  imports Store_State Access_Policy
begin

text \<open>
  Apps, dispatch namespaces and their policies: the app methods of \<open>store.go\<close>,
  \<open>platform_store.go\<close>, the store part of \<open>namespace_delete.go\<close>, and the membership rules of
  \<open>platform.go\<close> they enforce.
\<close>

section \<open>Platform membership\<close>

definition isNameStart :: "char \<Rightarrow> bool" where
  "isNameStart c = (c \<in> set ''abcdefghijklmnopqrstuvwxyz0123456789'')"

text \<open>The regular expression \<open>^[a-z0-9][a-z0-9_-]{0,62}$\<close>.\<close>

definition platformName :: "string \<Rightarrow> bool" where
  "platformName s = (case s of [] \<Rightarrow> False
     | c # cs \<Rightarrow> isNameStart c \<and> length cs \<le> 62
         \<and> list_all (\<lambda>x. isNameStart x \<or> x = CHR ''_'' \<or> x = CHR ''-'') cs)"

definition IsPrivate :: "App \<Rightarrow> bool" where
  "IsPrivate a = (case App_Platform a of None \<Rightarrow> False
     | Some p \<Rightarrow> Platform_Exposure p = ''private'')"

definition ValidatePlatformMembership :: "App \<Rightarrow> DispatchNamespace \<Rightarrow> unit result" where
  "ValidatePlatformMembership app ns =
     (case App_Platform app of
        None \<Rightarrow> Inr ()
      | Some p \<Rightarrow>
          if DNs_ID ns \<noteq> Platform_NamespaceID p \<or> DNs_OrgID ns \<noteq> App_OrgID app
          then Inl ErrDispatchNamespaceNotFound
          else if (DNs_CustomerMode ns = ''organization'' \<and> Platform_CustomerID p \<noteq> [])
             \<or> (DNs_CustomerMode ns = ''platform'' \<and> Platform_Kind p = ''customer'' \<and> Platform_CustomerID p = [])
             \<or> (Platform_Kind p = ''platform'' \<and> Platform_CustomerID p \<noteq> [])
          then Inl (ErrText ''invalid customer membership'')
          else if DNs_Trust ns \<noteq> ''trusted'' \<or> Platform_Exposure p \<noteq> ''private'' \<or> App_Hostname app \<noteq> []
             \<or> \<not> platformName (Platform_ScriptName p)
             \<or> (Platform_Kind p \<noteq> ''platform'' \<and> Platform_Kind p \<noteq> ''customer'')
          then Inl (ErrText ''invalid immutable platform membership'')
          else Inr ())"

section \<open>Apps\<close>

definition sameScript :: "WorkerPlatform \<Rightarrow> App \<Rightarrow> bool" where
  "sameScript p existing = (case App_Platform existing of None \<Rightarrow> False
     | Some q \<Rightarrow> Platform_NamespaceID q = Platform_NamespaceID p
         \<and> Platform_ScriptName q = Platform_ScriptName p)"

definition CreateApp :: "App \<Rightarrow> Store \<Rightarrow> Store result" where [store_ops]:
  "CreateApp app s =
     rbind (case App_Platform app of
              None \<Rightarrow> Inr ()
            | Some p \<Rightarrow>
                rbind (ValidatePlatformMembership app
                         (mget0 DispatchNamespace0 (dispatchNamespaces s) (Platform_NamespaceID p)))
                  (\<lambda>_. if list_ex (sameScript p) (mvals (apps s))
                       then Inl ErrDispatchNamespaceExists else Inr ()))
       (\<lambda>_. if mhas (apps s) (App_ID app) then Inl ErrAppExists
            else if list_ex (\<lambda>existing. App_Hostname app \<noteq> [] \<and> App_Hostname existing = App_Hostname app)
                      (mvals (apps s)) then Inl ErrAppExists
            else Inr (s\<lparr>apps := mput (App_ID app) app (apps s),
                   capabilityToApp := mput (App_RuntimeToken app) (App_ID app) (capabilityToApp s)\<rparr>))"

definition CountAppsByOrg :: "string \<Rightarrow> Store \<Rightarrow> int" where
  "CountAppsByOrg orgID s = int (length (filter (\<lambda>a. App_OrgID a = orgID) (mvals (apps s))))"

definition GetApp :: "string \<Rightarrow> Store \<Rightarrow> App result" where
  "GetApp appID s = (case mget (apps s) appID of None \<Rightarrow> Inl ErrAppNotFound | Some app \<Rightarrow> Inr app)"

definition ListAppsByOrg :: "string \<Rightarrow> Store \<Rightarrow> App list" where
  "ListAppsByOrg orgID s =
     sortBy App_ID (filter (\<lambda>a. orgID = [] \<or> App_OrgID a = orgID) (mvals (apps s)))"

definition ListApps :: "Store \<Rightarrow> App list" where
  "ListApps s = ListAppsByOrg [] s"

definition UpdateApp :: "App \<Rightarrow> Store \<Rightarrow> Store result" where [store_ops]:
  "UpdateApp app s =
     (case mget (apps s) (App_ID app) of
        None \<Rightarrow> Inl ErrAppNotFound
      | Some existing \<Rightarrow>
          if list_ex (\<lambda>candidate. App_ID candidate \<noteq> App_ID app \<and> App_Hostname app \<noteq> []
               \<and> App_Hostname candidate = App_Hostname app) (mvals (apps s))
          then Inl ErrAppExists
          else Inr (s\<lparr>apps := mput (App_ID app)
                 (app\<lparr>App_Platform := App_Platform existing, App_RuntimeToken := App_RuntimeToken existing,
                      App_CreatedAt := App_CreatedAt existing\<rparr>) (apps s)\<rparr>))"

definition PatchApp :: "string \<Rightarrow> UpdateAppInput \<Rightarrow> Store \<Rightarrow> (App \<times> Store) result" where [store_ops]:
  "PatchApp appID input s =
     (case mget (apps s) appID of
        None \<Rightarrow> Inl ErrAppNotFound
      | Some app \<Rightarrow>
          if IsPrivate app \<and> UpdApp_Hostname input \<noteq> None then Inl ErrInvalidAppUpdate
          else rbind
            (case UpdApp_Hostname input of
               None \<Rightarrow> Inr app
             | Some hostname \<Rightarrow>
                 if list_ex (\<lambda>candidate. App_ID candidate \<noteq> appID \<and> App_Hostname candidate = hostname)
                      (mvals (apps s))
                 then Inl ErrAppExists else Inr (app\<lparr>App_Hostname := hostname\<rparr>))
            (\<lambda>app1. let app2 = (case UpdApp_Auth input of None \<Rightarrow> app1
                                 | Some auth \<Rightarrow> app1\<lparr>App_Auth := auth\<rparr>)
                    in Inr (app2, s\<lparr>apps := mput appID app2 (apps s)\<rparr>)))"

definition deleteAppLocked :: "string \<Rightarrow> Store \<Rightarrow> Store result" where [store_ops]:
  "deleteAppLocked appID s =
     (case mget (apps s) appID of
        None \<Rightarrow> Inl ErrAppNotFound
      | Some app \<Rightarrow> Inr (s\<lparr>
          artifacts := mfilter (\<lambda>(_, a). Dep_AppID (Art_Deployment a) \<noteq> appID) (artifacts s),
          publications := mfilter (\<lambda>(_, p). Pub_AppID p \<noteq> appID) (publications s),
          apps := mdel appID (apps s),
          management := mdel appID (management s),
          secrets := mdel appID (secrets s),
          deployments := mdel appID (deployments s),
          varsUpdates := mdel appID (varsUpdates s),
          workerPublications := mdel appID (workerPublications s),
          active := mdel appID (active s),
          capabilityToApp := mdel (App_RuntimeToken app) (capabilityToApp s)\<rparr>))"

definition DeleteApp :: "string \<Rightarrow> Store \<Rightarrow> Store result" where [store_ops]:
  "DeleteApp appID s = deleteAppLocked appID s"

definition AppIDForCapability :: "string \<Rightarrow> Store \<Rightarrow> string result" where
  "AppIDForCapability capability s =
     (case mget (capabilityToApp s) capability of
        None \<Rightarrow> Inl ErrInvalidCapability | Some appID \<Rightarrow> Inr appID)"

section \<open>Deleting the scripts of a namespace\<close>

text \<open>The first loop checks the whole selection before anything is deleted.\<close>

fun checkSelection :: "string \<Rightarrow> string \<Rightarrow> string list \<Rightarrow> string list \<Rightarrow> Store \<Rightarrow> unit result" where
  "checkSelection org namespace seen [] s = Inr ()"
| "checkSelection org namespace seen (i # ids) s =
     (case mget (apps s) i of
        None \<Rightarrow> Inl ErrNamespaceDeletionConflict
      | Some app \<Rightarrow>
          if i \<in> set seen \<or> App_OrgID app \<noteq> org
             \<or> (case App_Platform app of None \<Rightarrow> True
                | Some p \<Rightarrow> Platform_NamespaceID p \<noteq> namespace \<or> Platform_Kind p \<noteq> ''customer'')
          then Inl ErrNamespaceDeletionConflict
          else checkSelection org namespace (i # seen) ids s)"

fun deleteApps :: "string list \<Rightarrow> Store \<Rightarrow> Store result" where
  "deleteApps [] s = Inr s"
| "deleteApps (i # ids) s = rbind (deleteAppLocked i s) (deleteApps ids)"

definition DeleteNamespaceScripts :: "string \<Rightarrow> string \<Rightarrow> string list \<Rightarrow> Store \<Rightarrow> Store result" where [store_ops]:
  "DeleteNamespaceScripts org namespace ids s =
     (case mget (dispatchNamespaces s) namespace of
        None \<Rightarrow> Inl ErrDispatchNamespaceNotFound
      | Some ns \<Rightarrow>
          if DNs_OrgID ns \<noteq> org then Inl ErrDispatchNamespaceNotFound
          else rbind (checkSelection org namespace [] ids s) (\<lambda>_. deleteApps ids s))"

section \<open>Dispatch namespaces\<close>

definition CreateDispatchNamespace :: "DispatchNamespace \<Rightarrow> Store \<Rightarrow> Store result" where [store_ops]:
  "CreateDispatchNamespace ns s =
     (if list_ex (\<lambda>n. DNs_ID n = DNs_ID ns \<or> (DNs_OrgID n = DNs_OrgID ns \<and> DNs_Name n = DNs_Name ns))
           (mvals (dispatchNamespaces s)) then Inl ErrDispatchNamespaceExists
      else Inr (s\<lparr>dispatchNamespaces := mput (DNs_ID ns) ns (dispatchNamespaces s),
             namespacePolicies := mput (DNs_ID ns)
               [\<lparr>Policy_NamespaceID = DNs_ID ns, Policy_Revision = 1, Policy_Grants = DNs_Grants ns,
                 Policy_CreatedAt = DNs_CreatedAt ns\<rparr>] (namespacePolicies s)\<rparr>))"

definition GetDispatchNamespace :: "string \<Rightarrow> Store \<Rightarrow> DispatchNamespace result" where
  "GetDispatchNamespace i s =
     (case mget (dispatchNamespaces s) i of
        None \<Rightarrow> Inl ErrDispatchNamespaceNotFound | Some n \<Rightarrow> Inr n)"

definition ListDispatchNamespaces :: "string \<Rightarrow> Store \<Rightarrow> DispatchNamespace list" where
  "ListDispatchNamespaces org s =
     sortBy DNs_Name (filter (\<lambda>n. DNs_OrgID n = org) (mvals (dispatchNamespaces s)))"

definition RenameDispatchNamespace :: "string \<Rightarrow> string \<Rightarrow> Store \<Rightarrow> Store result" where [store_ops]:
  "RenameDispatchNamespace i name s =
     (case mget (dispatchNamespaces s) i of
        None \<Rightarrow> Inl ErrDispatchNamespaceNotFound
      | Some n \<Rightarrow>
          if list_ex (\<lambda>ns. DNs_ID ns \<noteq> i \<and> DNs_OrgID ns = DNs_OrgID n \<and> DNs_Name ns = name)
               (mvals (dispatchNamespaces s)) then Inl ErrDispatchNamespaceExists
          else Inr (s\<lparr>dispatchNamespaces := mput i (n\<lparr>DNs_Name := name\<rparr>) (dispatchNamespaces s)\<rparr>))"

definition DeleteDispatchNamespace :: "string \<Rightarrow> Store \<Rightarrow> Store result" where [store_ops]:
  "DeleteDispatchNamespace i s =
     (case mget (dispatchNamespaces s) i of
        None \<Rightarrow> Inl ErrDispatchNamespaceNotFound
      | Some ns \<Rightarrow>
          if DNs_Grants ns \<noteq> [] then Inl ErrDispatchNamespaceInUse
          else if list_ex (\<lambda>a. case App_Platform a of None \<Rightarrow> False
                  | Some p \<Rightarrow> Platform_NamespaceID p = i) (mvals (apps s))
          then Inl ErrDispatchNamespaceInUse
          else Inr (s\<lparr>dispatchNamespaces := mdel i (dispatchNamespaces s),
                 namespacePolicies := mdel i (namespacePolicies s)\<rparr>))"

definition StoreSetNamespaceGrants :: "string \<Rightarrow> int \<Rightarrow> NamespaceResourceGrant list \<Rightarrow> time \<Rightarrow> Store
    \<Rightarrow> (DispatchNamespace \<times> Store) result" where [store_ops]:
  "StoreSetNamespaceGrants i revision grants now s =
     (case mget (dispatchNamespaces s) i of
        None \<Rightarrow> Inl ErrDispatchNamespaceNotFound
      | Some ns \<Rightarrow>
          if DNs_PolicyRevision ns \<noteq> revision then Inl ErrNamespacePolicyConflict
          else (let ns' = ns\<lparr>DNs_PolicyRevision := DNs_PolicyRevision ns + 1, DNs_Grants := grants\<rparr> in
            Inr (ns', s\<lparr>dispatchNamespaces := mput i ns' (dispatchNamespaces s),
              namespacePolicies := mput i (mget0 [] (namespacePolicies s) i
                @ [\<lparr>Policy_NamespaceID = i, Policy_Revision = DNs_PolicyRevision ns',
                    Policy_Grants = grants, Policy_CreatedAt = now\<rparr>]) (namespacePolicies s)\<rparr>)))"

definition NamespacePolicies :: "string \<Rightarrow> Store \<Rightarrow> NamespacePolicy list" where
  "NamespacePolicies i s = mget0 [] (namespacePolicies s) i"

end
