(* ===== verification/Store_Deployments.thy ===== *)
theory Store_Deployments
  imports Store_State
begin

text \<open>
  Secrets, deployments, traffic, publications, variable updates, artifacts, asset uploads and
  management state: the rest of \<open>store.go\<close>'s deployment methods, \<open>worker_publication.go\<close>,
  \<open>vars_store.go\<close>, \<open>artifact_store.go\<close>, \<open>asset_upload_store.go\<close>, \<open>runtime_deployment.go\<close> and
  the store part of \<open>management.go\<close>.
\<close>

section \<open>Secrets\<close>

definition ListSecrets :: "string \<Rightarrow> Store \<Rightarrow> SecretRecord list result" where
  "ListSecrets appID s =
     (if \<not> mhas (apps s) appID then Inl ErrAppNotFound
      else Inr (sortBy Secret_Name (mvals (mget0 mempty (secrets s) appID))))"

definition PutSecret :: "string \<Rightarrow> SecretRecord \<Rightarrow> Store \<Rightarrow> Store result" where [store_ops]:
  "PutSecret appID secret s =
     (if \<not> mhas (apps s) appID then Inl ErrAppNotFound
      else Inr (s\<lparr>secrets := mput2 appID (Secret_Name secret) secret (secrets s)\<rparr>))"

definition DeleteSecret :: "string \<Rightarrow> string \<Rightarrow> Store \<Rightarrow> Store result" where [store_ops]:
  "DeleteSecret appID name s =
     (if \<not> mhas (apps s) appID then Inl ErrAppNotFound
      else if mget2 (secrets s) appID name = None then Inl ErrSecretNotFound
      else Inr (s\<lparr>secrets := mdel2 appID name (secrets s)\<rparr>))"

section \<open>Deployments and traffic\<close>

text \<open>Every routing change advances the worker's publication: a new generation with the
  traffic that is now active, in the order the map is visited.\<close>

definition advancePublication :: "string \<Rightarrow> Store \<Rightarrow> Store" where [store_ops]:
  "advancePublication appID s =
     (let state = mget0 WorkerPublication0 (workerPublications s) appID in
      s\<lparr>workerPublications := mput appID
          (state\<lparr>WPub_AppID := appID, WPub_Generation := WPub_Generation state + 1,
             WPub_Traffic := map (\<lambda>(i, percent). \<lparr>Traffic_ID = i, Traffic_TrafficPercent = percent\<rparr>)
               (mentries (mget0 mempty (active s) appID))\<rparr>) (workerPublications s)\<rparr>)"

definition Activate :: "Deployment \<Rightarrow> Store \<Rightarrow> Store result" where [store_ops]:
  "Activate deployment s =
     (let a = Dep_AppID deployment in
      if \<not> mhas (apps s) a then Inl ErrAppNotFound
      else Inr (advancePublication a
        (s\<lparr>deployments := mput a (mget0 [] (deployments s) a @ [deployment]) (deployments s),
           active := mput a (mput (Dep_ID deployment) 100 mempty) (active s)\<rparr>)))"

fun trafficMap :: "Deployment list \<Rightarrow> DeploymentTraffic list \<Rightarrow> (string, int) gomap
    \<Rightarrow> (string, int) gomap result" where
  "trafficMap ds [] next = Inr next"
| "trafficMap ds (item # items) next =
     (if \<not> list_ex (\<lambda>d. Dep_ID d = Traffic_ID item) ds then Inl (ErrText ''deployment not found'')
      else trafficMap ds items (mput (Traffic_ID item) (Traffic_TrafficPercent item) next))"

definition SetActiveTraffic :: "string \<Rightarrow> DeploymentTraffic list \<Rightarrow> Store \<Rightarrow> Store result" where [store_ops]:
  "SetActiveTraffic appID traffic s =
     (if \<not> mhas (apps s) appID then Inl ErrAppNotFound
      else if traffic = [] then Inr (advancePublication appID (s\<lparr>active := mdel appID (active s)\<rparr>))
      else rbind (trafficMap (mget0 [] (deployments s) appID) traffic mempty)
        (\<lambda>next. Inr (advancePublication appID (s\<lparr>active := mput appID next (active s)\<rparr>))))"

definition SetActive :: "string \<Rightarrow> string \<Rightarrow> Store \<Rightarrow> Store result" where [store_ops]:
  "SetActive appID deploymentID s =
     (if deploymentID = [] then SetActiveTraffic appID [] s
      else SetActiveTraffic appID [\<lparr>Traffic_ID = deploymentID, Traffic_TrafficPercent = 100\<rparr>] s)"

text \<open>\<open>append(ds[:i], ds[i+1:]...)\<close> for the first deployment with the id.\<close>

fun removeFirst :: "string \<Rightarrow> Deployment list \<Rightarrow> Deployment list" where
  "removeFirst i [] = []"
| "removeFirst i (d # ds) = (if Dep_ID d = i then ds else d # removeFirst i ds)"

definition DeleteDeployment :: "string \<Rightarrow> Store \<Rightarrow> Store result" where [store_ops]:
  "DeleteDeployment i s =
     (case find (\<lambda>(_, ds). list_ex (\<lambda>d. Dep_ID d = i) ds) (mentries (deployments s)) of
        None \<Rightarrow> Inl (ErrText ''deployment not found'')
      | Some (appID, ds) \<Rightarrow>
          (let s1 = s\<lparr>deployments := mput appID (removeFirst i ds) (deployments s)\<rparr> in
           case mget (active s1) appID of
             None \<Rightarrow> Inr s1
           | Some traffic \<Rightarrow>
               (let rest = mdel i traffic in
                if mlen rest = 0 then Inr (s1\<lparr>active := mdel appID (active s1)\<rparr>)
                else Inr (s1\<lparr>active := mput appID rest (active s1)\<rparr>))))"

definition activeOf :: "App \<Rightarrow> (string, int) gomap \<Rightarrow> Deployment list \<Rightarrow> ActiveDeployment list" where
  "activeOf app traffic ds = map (\<lambda>d. ActiveDeployment0\<lparr>Active_App := app, Active_Deployment := d,
       Active_TrafficPercent := mget0 0 traffic (Dep_ID d)\<rparr>)
     (filter (\<lambda>d. mget0 0 traffic (Dep_ID d) > 0) ds)"

definition ActiveDeployments :: "Store \<Rightarrow> ActiveDeployment list" where
  "ActiveDeployments s =
     sortBy (\<lambda>a. App_ID (Active_App a)) (sortBy (\<lambda>a. - Dep_CreatedAt (Active_Deployment a))
       (concat (map (\<lambda>(appID, traffic). activeOf (mget0 App0 (apps s) appID) traffic
            (mget0 [] (deployments s) appID)) (mentries (active s)))))"

definition ActiveDeploymentsForApp :: "string \<Rightarrow> Store \<Rightarrow> ActiveDeployment list result" where
  "ActiveDeploymentsForApp appID s =
     (case mget (apps s) appID of
        None \<Rightarrow> Inl ErrAppNotFound
      | Some app \<Rightarrow> Inr (sortBy (\<lambda>a. - Dep_CreatedAt (Active_Deployment a))
          (activeOf app (mget0 mempty (active s) appID) (mget0 [] (deployments s) appID))))"

definition ListDeployments :: "Store \<Rightarrow> DeploymentRecord list" where
  "ListDeployments s = sortBy (\<lambda>r. - Dep_CreatedAt (DepRec_Deployment r))
     (concat (map (\<lambda>(appID, ds). map (\<lambda>d.
        (let percent = mget0 0 (mget0 mempty (active s) appID) (Dep_ID d) in
         \<lparr>DepRec_App = mget0 App0 (apps s) appID, DepRec_Deployment = d,
           DepRec_Active = (percent > 0), DepRec_TrafficPercent = percent\<rparr>)) ds)
       (mentries (deployments s))))"

definition GetRuntimeDeployment :: "string \<Rightarrow> string \<Rightarrow> Store \<Rightarrow> Deployment result" where
  "GetRuntimeDeployment appID deploymentID s =
     (case find (\<lambda>d. Dep_ID d = deploymentID) (mget0 [] (deployments s) appID) of
        None \<Rightarrow> Inl ErrAppNotFound | Some d \<Rightarrow> Inr d)"

section \<open>Worker publications\<close>

definition PublicationStates :: "Store \<Rightarrow> WorkerPublication list" where
  "PublicationStates s = mvals (workerPublications s)"

definition AcknowledgePublication :: "string \<Rightarrow> nat \<Rightarrow> Store \<Rightarrow> Store result" where [store_ops]:
  "AcknowledgePublication appID generation s =
     (case mget (workerPublications s) appID of
        None \<Rightarrow> Inl ErrDeploymentConflict
      | Some state \<Rightarrow>
          if generation > WPub_Generation state then Inl ErrDeploymentConflict
          else if generation > WPub_PublishedGeneration state
          then Inr (s\<lparr>workerPublications := mput appID
                 (state\<lparr>WPub_PublishedGeneration := generation\<rparr>) (workerPublications s)\<rparr>)
          else Inr s)"

section \<open>Variable updates\<close>

definition VarsUpdate :: "string \<Rightarrow> string \<Rightarrow> Store \<Rightarrow> VarsUpdateOperation option" where
  "VarsUpdate appID key s = mget2 (varsUpdates s) appID key"

definition BeginVarsUpdate :: "VarsUpdateOperation \<Rightarrow> Deployment \<Rightarrow> string \<Rightarrow> Store \<Rightarrow> Store result" where [store_ops]:
  "BeginVarsUpdate op next expected s =
     (let a = VarsOp_AppID op; traffic = mget0 mempty (active s) a in
      if \<not> mhas (apps s) a then Inl ErrAppNotFound
      else if mget2 (varsUpdates s) a (VarsOp_Key op) \<noteq> None then Inl ErrIdempotencyConflict
      else if mlen traffic \<noteq> 1 \<or> mget0 0 traffic expected \<noteq> 100 then Inl ErrDeploymentConflict
      else (let s' = advancePublication a
              (s\<lparr>deployments := mput a (mget0 [] (deployments s) a @ [next]) (deployments s),
                 active := mput a (mput (Dep_ID next) 100 mempty) (active s)\<rparr>)
            in Inr (s'\<lparr>varsUpdates := mput2 a (VarsOp_Key op) op (varsUpdates s')\<rparr>)))"

definition FinishVarsUpdate :: "string \<Rightarrow> string \<Rightarrow> string \<Rightarrow> Store \<Rightarrow> Store result" where [store_ops]:
  "FinishVarsUpdate appID key status s =
     (case mget2 (varsUpdates s) appID key of
        None \<Rightarrow> Inl ErrAppNotFound
      | Some op \<Rightarrow> Inr (s\<lparr>varsUpdates := mput2 appID key (op\<lparr>VarsOp_Status := status\<rparr>) (varsUpdates s)\<rparr>))"

definition PendingVarsUpdates :: "Store \<Rightarrow> VarsUpdateOperation list" where
  "PendingVarsUpdates s = filter (\<lambda>op. VarsOp_Status op = ''pending'' \<or> VarsOp_Status op = ''rolling_back'')
     (concat (map mvals (mvals (varsUpdates s))))"

section \<open>Artifacts and publications\<close>

text \<open>
  \<open>cloneArtifact\<close> copies through JSON, which drops the deployment's \<open>ObjectKey\<close> and
  \<open>BundleSize\<close>, and restores both from the artifact's own fields. \<open>sameArtifact\<close> compares
  canonical JSON; the encoder is the parameter \<open>canonicalPayload\<close>.
\<close>

definition cloneArtifact :: "DeploymentArtifact \<Rightarrow> DeploymentArtifact" where
  "cloneArtifact a = a\<lparr>Art_Deployment := (Art_Deployment a)
     \<lparr>Dep_ObjectKey := Art_ObjectKey a, Dep_BundleSize := Art_BundleSize a\<rparr>\<rparr>"

definition sameArtifact :: "(DeploymentArtifact \<Rightarrow> string result) \<Rightarrow> DeploymentArtifact
    \<Rightarrow> DeploymentArtifact \<Rightarrow> bool" where
  "sameArtifact canonicalPayload a b =
     (case (canonicalPayload a, canonicalPayload b) of (Inr l, Inr r) \<Rightarrow> l = r | _ \<Rightarrow> False)"

definition PutDeploymentArtifact :: "(DeploymentArtifact \<Rightarrow> string result) \<Rightarrow> DeploymentArtifact
    \<Rightarrow> Store \<Rightarrow> Store result" where [store_ops]:
  "PutDeploymentArtifact canonicalPayload a s =
     (if \<not> mhas (apps s) (Dep_AppID (Art_Deployment a)) then Inl ErrAppNotFound
      else case mget (artifacts s) (Dep_ID (Art_Deployment a)) of
          Some old \<Rightarrow> if \<not> sameArtifact canonicalPayload old a then Inl ErrArtifactConflict else Inr s
        | None \<Rightarrow> Inr (s\<lparr>artifacts := mput (Dep_ID (Art_Deployment a)) (cloneArtifact a) (artifacts s)\<rparr>))"

definition GetDeploymentArtifact :: "string \<Rightarrow> string \<Rightarrow> Store \<Rightarrow> DeploymentArtifact result" where
  "GetDeploymentArtifact app i s =
     (case mget (artifacts s) i of
        None \<Rightarrow> Inl ErrArtifactNotFound
      | Some a \<Rightarrow> if Dep_AppID (Art_Deployment a) \<noteq> app then Inl ErrArtifactNotFound
                  else Inr (cloneArtifact a))"

definition StoreDeployment :: "Deployment \<Rightarrow> Store \<Rightarrow> Store result" where [store_ops]:
  "StoreDeployment d s =
     (if \<not> mhas (apps s) (Dep_AppID d) then Inl ErrAppNotFound
      else if list_ex (\<lambda>prior. Dep_ID prior = Dep_ID d) (mget0 [] (deployments s) (Dep_AppID d))
      then Inl (ErrText ''deployment already exists'')
      else Inr (s\<lparr>deployments := mput (Dep_AppID d) (mget0 [] (deployments s) (Dep_AppID d) @ [d])
             (deployments s)\<rparr>))"

definition GetPublication :: "string \<Rightarrow> string \<Rightarrow> Store \<Rightarrow> Publication option" where
  "GetPublication app key s = mget (publications s) (pairKey app key)"

definition SavePublication :: "Publication \<Rightarrow> Store \<Rightarrow> Store result" where [store_ops]:
  "SavePublication p s =
     (if \<not> mhas (apps s) (Pub_AppID p) then Inl ErrAppNotFound
      else (let key = pairKey (Pub_AppID p) (Pub_Key p) in
        if (case mget (publications s) key of None \<Rightarrow> False
            | Some old \<Rightarrow> Pub_Fingerprint old \<noteq> Pub_Fingerprint p \<or> Pub_DeploymentID old \<noteq> Pub_DeploymentID p)
        then Inl ErrIdempotencyConflict
        else Inr (s\<lparr>publications := mput key p (publications s)\<rparr>)))"

definition ListPublications :: "Store \<Rightarrow> Publication list" where
  "ListPublications s = sortBy Pub_CreatedAt (mvals (publications s))"

section \<open>Asset uploads\<close>

definition GetAssetUploadSession :: "string \<Rightarrow> Store \<Rightarrow> AssetUploadSession result" where
  "GetAssetUploadSession i s =
     (case mget (assetUploads s) i of
        None \<Rightarrow> Inl ErrAssetUploadUnavailable | Some value \<Rightarrow> Inr value)"

definition SaveAssetUploadSession :: "AssetUploadSession \<Rightarrow> int \<Rightarrow> Store \<Rightarrow> Store result" where [store_ops]:
  "SaveAssetUploadSession value expected s =
     (let old = mget (assetUploads s) (Upload_ID value) in
      if Upload_Revision value \<noteq> expected + 1
         \<or> (case old of None \<Rightarrow> expected \<noteq> 0 | Some o' \<Rightarrow> Upload_Revision o' \<noteq> expected)
      then Inl ErrManagementConflict
      else if (case old of None \<Rightarrow> False
               | Some o' \<Rightarrow> Upload_OrgID o' \<noteq> Upload_OrgID value
                   \<or> Upload_NamespaceID o' \<noteq> Upload_NamespaceID value)
      then Inl ErrManagementConflict
      else if (case mget (dispatchNamespaces s) (Upload_NamespaceID value) of None \<Rightarrow> True
               | Some ns \<Rightarrow> DNs_OrgID ns \<noteq> Upload_OrgID value)
      then Inl ErrDispatchNamespaceNotFound
      else Inr (s\<lparr>assetUploads := mput (Upload_ID value) value (assetUploads s)\<rparr>))"

definition CountAssetUploadSessions :: "string \<Rightarrow> time \<Rightarrow> Store \<Rightarrow> int" where
  "CountAssetUploadSessions org now s = int (length (filter
     (\<lambda>u. Upload_ExpiresAt u > now \<and> mhas (dispatchNamespaces s) (Upload_NamespaceID u)
          \<and> Upload_OrgID u = org) (mvals (assetUploads s))))"

definition validateAssetPruneLimit :: "int \<Rightarrow> unit result" where
  "validateAssetPruneLimit limit =
     (if limit < 1 \<or> limit > 256 then Inl (ErrText ''asset cleanup limit must be 1-256'') else Inr ())"

text \<open>The loop visits the entries until \<open>limit\<close> of them were deleted; the context is not
  cancelled during it.\<close>

fun pruneLoop :: "time \<Rightarrow> int \<Rightarrow> (string \<times> AssetUploadSession) list \<Rightarrow> int \<Rightarrow> Store \<Rightarrow> int \<times> Store" where
  "pruneLoop now limit [] count s = (count, s)"
| "pruneLoop now limit ((i, u) # us) count s =
     (if \<not> Upload_ExpiresAt u > now \<or> \<not> mhas (dispatchNamespaces s) (Upload_NamespaceID u)
      then (let s' = s\<lparr>assetUploads := mdel i (assetUploads s)\<rparr> in
            if count + 1 = limit then (count + 1, s') else pruneLoop now limit us (count + 1) s')
      else pruneLoop now limit us count s)"

definition PruneAssetUploadSessions :: "time \<Rightarrow> int \<Rightarrow> Store \<Rightarrow> (int \<times> Store) result" where [store_ops]:
  "PruneAssetUploadSessions now limit s =
     rbind (validateAssetPruneLimit limit) (\<lambda>_. Inr (pruneLoop now limit (mentries (assetUploads s)) 0 s))"

section \<open>Management state\<close>

definition GetScriptManagementState :: "string \<Rightarrow> Store \<Rightarrow> (ScriptManagementState \<times> bool) result" where
  "GetScriptManagementState worker s =
     (if \<not> mhas (apps s) worker then Inl ErrAppNotFound
      else Inr (mget0 ScriptManagementState0 (management s) worker, mhas (management s) worker))"

definition CommitScriptManagementState :: "ScriptManagementState \<Rightarrow> int \<Rightarrow> Store \<Rightarrow> Store result" where [store_ops]:
  "CommitScriptManagementState state expected s =
     (if (case mget (apps s) (Mgmt_WorkerID state) of None \<Rightarrow> True
          | Some app \<Rightarrow> App_OrgID app \<noteq> Mgmt_OrgID state) then Inl ErrAppNotFound
      else if (case mget (artifacts s) (Mgmt_DeploymentID state) of None \<Rightarrow> True
          | Some artifact \<Rightarrow> Dep_AppID (Art_Deployment artifact) \<noteq> Mgmt_WorkerID state)
      then Inl ErrArtifactNotFound
      else (let current = mget0 ScriptManagementState0 (management s) (Mgmt_WorkerID state) in
        if expected < 0 \<or> Mgmt_Revision current \<noteq> expected \<or> Mgmt_Revision state \<noteq> expected + 1
        then Inl ErrManagementConflict
        else Inr (s\<lparr>management := mput (Mgmt_WorkerID state) state (management s)\<rparr>)))"

end
