(* ===== verification/Store_Resources.thy ===== *)
theory Store_Resources
  imports Store_State
begin

text \<open>
  KV namespaces, databases and object storage buckets of \<open>store.go\<close>: three tables of resources
  that are named per organization and bound by deployments.
\<close>

section \<open>KV namespaces\<close>

definition CreateKVNamespace :: "KVNamespace \<Rightarrow> Store \<Rightarrow> Store result" where [store_ops]:
  "CreateKVNamespace namespace s =
     (if mhas (kvNamespaces s) (KVNs_ID namespace) then Inl ErrKVNamespaceExists
      else if list_ex (\<lambda>existing. KVNs_Name existing = KVNs_Name namespace
                         \<and> KVNs_OrgID existing = KVNs_OrgID namespace) (mvals (kvNamespaces s))
      then Inl ErrKVNamespaceExists
      else Inr (s\<lparr>kvNamespaces := mput (KVNs_ID namespace) namespace (kvNamespaces s)\<rparr>))"

definition CountKVNamespacesByOrg :: "string \<Rightarrow> Store \<Rightarrow> int" where
  "CountKVNamespacesByOrg orgID s =
     int (length (filter (\<lambda>n. KVNs_OrgID n = orgID) (mvals (kvNamespaces s))))"

definition ListKVNamespacesByOrg :: "string \<Rightarrow> Store \<Rightarrow> KVNamespace list" where
  "ListKVNamespacesByOrg orgID s =
     sortBy KVNs_Name (filter (\<lambda>n. orgID = [] \<or> KVNs_OrgID n = orgID) (mvals (kvNamespaces s)))"

definition ListKVNamespaces :: "Store \<Rightarrow> KVNamespace list" where
  "ListKVNamespaces s = ListKVNamespacesByOrg [] s"

definition GetKVNamespace :: "string \<Rightarrow> Store \<Rightarrow> KVNamespace result" where
  "GetKVNamespace i s =
     (case mget (kvNamespaces s) i of None \<Rightarrow> Inl ErrKVNamespaceNotFound | Some n \<Rightarrow> Inr n)"

definition UpdateKVNamespace :: "KVNamespace \<Rightarrow> Store \<Rightarrow> Store result" where [store_ops]:
  "UpdateKVNamespace namespace s =
     (case mget (kvNamespaces s) (KVNs_ID namespace) of
        None \<Rightarrow> Inl ErrKVNamespaceNotFound
      | Some existing \<Rightarrow>
          if list_ex (\<lambda>c. KVNs_ID c \<noteq> KVNs_ID namespace \<and> KVNs_Name c = KVNs_Name namespace
                \<and> KVNs_OrgID c = KVNs_OrgID namespace) (mvals (kvNamespaces s))
          then Inl ErrKVNamespaceExists
          else Inr (s\<lparr>kvNamespaces := mput (KVNs_ID namespace)
                 (namespace\<lparr>KVNs_OrgID := KVNs_OrgID existing, KVNs_CreatedAt := KVNs_CreatedAt existing\<rparr>)
                 (kvNamespaces s)\<rparr>))"

definition boundBy :: "(Deployment \<Rightarrow> bool) \<Rightarrow> Store \<Rightarrow> bool" where
  "boundBy uses s = list_ex (\<lambda>ds. list_ex uses ds) (mvals (deployments s))"

definition usesKV :: "string \<Rightarrow> Deployment \<Rightarrow> bool" where
  "usesKV i d = list_ex (\<lambda>b. KVBind_ID b = i) (Dep_KVNamespaces d)"

definition DeleteKVNamespace :: "string \<Rightarrow> Store \<Rightarrow> Store result" where [store_ops]:
  "DeleteKVNamespace i s =
     (if \<not> mhas (kvNamespaces s) i then Inl ErrKVNamespaceNotFound
      else if boundBy (usesKV i) s then Inl ErrKVNamespaceInUse
      else Inr (s\<lparr>kvNamespaces := mdel i (kvNamespaces s), kv := mdel i (kv s),
                  kvMetrics := mdel i (kvMetrics s)\<rparr>))"

section \<open>Databases\<close>

definition CreateDatabase :: "Database \<Rightarrow> Store \<Rightarrow> Store result" where [store_ops]:
  "CreateDatabase database s =
     (if mhas (databases s) (DB_ID database) then Inl ErrDatabaseExists
      else if list_ex (\<lambda>existing. DB_Name existing = DB_Name database
                         \<and> DB_OrgID existing = DB_OrgID database) (mvals (databases s))
      then Inl ErrDatabaseExists
      else Inr (s\<lparr>databases := mput (DB_ID database) database (databases s)\<rparr>))"

definition CountDatabasesByOrg :: "string \<Rightarrow> Store \<Rightarrow> int" where
  "CountDatabasesByOrg orgID s = int (length (filter (\<lambda>d. DB_OrgID d = orgID) (mvals (databases s))))"

definition ListDatabasesByOrg :: "string \<Rightarrow> Store \<Rightarrow> Database list" where
  "ListDatabasesByOrg orgID s =
     sortBy DB_Name (filter (\<lambda>d. orgID = [] \<or> DB_OrgID d = orgID) (mvals (databases s)))"

definition ListDatabases :: "Store \<Rightarrow> Database list" where
  "ListDatabases s = ListDatabasesByOrg [] s"

definition GetDatabase :: "string \<Rightarrow> Store \<Rightarrow> Database result" where
  "GetDatabase i s =
     (case mget (databases s) i of None \<Rightarrow> Inl ErrDatabaseNotFound | Some d \<Rightarrow> Inr d)"

definition usesDatabase :: "string \<Rightarrow> Deployment \<Rightarrow> bool" where
  "usesDatabase i d = list_ex (\<lambda>b. DBBind_DatabaseID b = i) (Dep_Databases d)"

definition DeleteDatabase :: "string \<Rightarrow> Store \<Rightarrow> Store result" where [store_ops]:
  "DeleteDatabase i s =
     (if \<not> mhas (databases s) i then Inl ErrDatabaseNotFound
      else if boundBy (usesDatabase i) s then Inl ErrDatabaseInUse
      else Inr (s\<lparr>databases := mdel i (databases s), dbMetrics := mdel i (dbMetrics s)\<rparr>))"

section \<open>Object storage buckets\<close>

definition CreateObjectStorageBucket :: "ObjectStorageBucket \<Rightarrow> Store \<Rightarrow> Store result" where [store_ops]:
  "CreateObjectStorageBucket bucket s =
     (if mhas (objectBuckets s) (Bucket_ID bucket) then Inl ErrObjectStorageBucketExists
      else if list_ex (\<lambda>existing. Bucket_Name existing = Bucket_Name bucket
                         \<and> Bucket_OrgID existing = Bucket_OrgID bucket) (mvals (objectBuckets s))
      then Inl ErrObjectStorageBucketExists
      else Inr (s\<lparr>objectBuckets := mput (Bucket_ID bucket) bucket (objectBuckets s)\<rparr>))"

definition CountObjectStorageBucketsByOrg :: "string \<Rightarrow> Store \<Rightarrow> int" where
  "CountObjectStorageBucketsByOrg orgID s =
     int (length (filter (\<lambda>b. Bucket_OrgID b = orgID) (mvals (objectBuckets s))))"

definition ListObjectStorageBucketsByOrg :: "string \<Rightarrow> Store \<Rightarrow> ObjectStorageBucket list" where
  "ListObjectStorageBucketsByOrg orgID s =
     sortBy Bucket_Name (filter (\<lambda>b. orgID = [] \<or> Bucket_OrgID b = orgID) (mvals (objectBuckets s)))"

definition ListObjectStorageBuckets :: "Store \<Rightarrow> ObjectStorageBucket list" where
  "ListObjectStorageBuckets s = ListObjectStorageBucketsByOrg [] s"

definition GetObjectStorageBucket :: "string \<Rightarrow> Store \<Rightarrow> ObjectStorageBucket result" where
  "GetObjectStorageBucket i s =
     (case mget (objectBuckets s) i of None \<Rightarrow> Inl ErrObjectStorageBucketNotFound | Some b \<Rightarrow> Inr b)"

definition UpdateObjectStorageBucket :: "ObjectStorageBucket \<Rightarrow> Store \<Rightarrow> Store result" where [store_ops]:
  "UpdateObjectStorageBucket bucket s =
     (case mget (objectBuckets s) (Bucket_ID bucket) of
        None \<Rightarrow> Inl ErrObjectStorageBucketNotFound
      | Some existing \<Rightarrow>
          if list_ex (\<lambda>c. Bucket_ID c \<noteq> Bucket_ID bucket \<and> Bucket_Name c = Bucket_Name bucket
                \<and> Bucket_OrgID c = Bucket_OrgID bucket) (mvals (objectBuckets s))
          then Inl ErrObjectStorageBucketExists
          else Inr (s\<lparr>objectBuckets := mput (Bucket_ID bucket)
                 (bucket\<lparr>Bucket_OrgID := Bucket_OrgID existing, Bucket_CreatedAt := Bucket_CreatedAt existing\<rparr>)
                 (objectBuckets s)\<rparr>))"

definition usesBucket :: "string \<Rightarrow> Deployment \<Rightarrow> bool" where
  "usesBucket i d = list_ex (\<lambda>b. ObjBind_BucketID b = i) (Dep_ObjectStorageBuckets d)"

definition DeleteObjectStorageBucket :: "string \<Rightarrow> Store \<Rightarrow> Store result" where [store_ops]:
  "DeleteObjectStorageBucket i s =
     (if \<not> mhas (objectBuckets s) i then Inl ErrObjectStorageBucketNotFound
      else if boundBy (usesBucket i) s then Inl ErrObjectStorageBucketInUse
      else Inr (s\<lparr>objectBuckets := mdel i (objectBuckets s), objectMetrics := mdel i (objectMetrics s)\<rparr>))"

section \<open>The contract of a resource table\<close>

text \<open>
  What the three tables promise: a resource is filed under its id, created only under a name
  that is free in its organization, keeps its organization, and is deleted only while no stored
  deployment binds it.
\<close>

locale resource_table =
  fixes table :: "Store \<Rightarrow> (string, 'r) gomap"
    and ident :: "'r \<Rightarrow> string" and org :: "'r \<Rightarrow> string" and name :: "'r \<Rightarrow> string"
    and uses :: "string \<Rightarrow> Deployment \<Rightarrow> bool"
    and create :: "'r \<Rightarrow> Store \<Rightarrow> Store result"
    and remove :: "string \<Rightarrow> Store \<Rightarrow> Store result"
  assumes create_ok: "create r s = Inr s' \<Longrightarrow> table s' = mput (ident r) r (table s)
      \<and> mget (table s) (ident r) = None
      \<and> (\<forall>e \<in> set (mvals (table s)). \<not> (name e = name r \<and> org e = org r))
      \<and> deployments s' = deployments s"
    and create_total: "mget (table s) (ident r) = None \<Longrightarrow>
      (\<forall>e \<in> set (mvals (table s)). \<not> (name e = name r \<and> org e = org r)) \<Longrightarrow> \<exists>s'. create r s = Inr s'"
    and remove_ok: "remove i s = Inr s' \<Longrightarrow> table s' = mdel i (table s)
      \<and> \<not> boundBy (uses i) s \<and> deployments s' = deployments s"
    and remove_total: "mget (table s) i = Some r \<Longrightarrow> \<not> boundBy (uses i) s \<Longrightarrow> \<exists>s'. remove i s = Inr s'"
begin

definition names_ok :: "(string, 'r) gomap \<Rightarrow> bool" where
  "names_ok t \<longleftrightarrow> (\<forall>k r. mget t k = Some r \<longrightarrow> ident r = k)
     \<and> (\<forall>k r k' r'. mget t k = Some r \<longrightarrow> mget t k' = Some r' \<longrightarrow> name r = name r' \<longrightarrow> org r = org r' \<longrightarrow> k = k')"

definition bindings_ok :: "Store \<Rightarrow> bool" where
  "bindings_ok s \<longleftrightarrow> (\<forall>ds \<in> set (mvals (deployments s)). \<forall>d \<in> set ds. \<forall>i.
     uses i d \<longrightarrow> mget (table s) i \<noteq> None)"

lemma names_ok_empty: "names_ok mempty"
  by (simp add: names_ok_def)

lemma names_ok_del: "names_ok t \<Longrightarrow> names_ok (mdel i t)"
  unfolding names_ok_def by (simp split: if_splits)

lemma names_ok_put:
  assumes "names_ok t" "ident r = i"
    and "\<And>k e. mget t k = Some e \<Longrightarrow> k \<noteq> i \<Longrightarrow> \<not> (name e = name r \<and> org e = org r)"
  shows "names_ok (mput i r t)"
proof -
  have one: "ident e = k" if "mget (mput i r t) k = Some e" for k e
    using that assms(1,2) by (auto simp: names_ok_def split: if_splits)
  have two: "k = k'" if "mget (mput i r t) k = Some e" "mget (mput i r t) k' = Some e'"
    "name e = name e'" "org e = org e'" for k e k' e'
    using that assms(1,3) unfolding names_ok_def by (simp split: if_splits) metis+
  show ?thesis
    unfolding names_ok_def using one two by blast
qed

lemma create_names: "create r s = Inr s' \<Longrightarrow> names_ok (table s) \<Longrightarrow> names_ok (table s')"
  using create_ok[of r s s'] by (auto simp: in_mvals intro!: names_ok_put)

lemma remove_names: "remove i s = Inr s' \<Longrightarrow> names_ok (table s) \<Longrightarrow> names_ok (table s')"
  using remove_ok[of i s s'] by (auto intro: names_ok_del)

lemma create_found: "create r s = Inr s' \<Longrightarrow> mget (table s') (ident r) = Some r"
  using create_ok[of r s s'] by simp

lemma create_bindings: "create r s = Inr s' \<Longrightarrow> bindings_ok s \<Longrightarrow> bindings_ok s'"
  using create_ok[of r s s'] by (auto simp: bindings_ok_def)

lemma remove_bindings: "remove i s = Inr s' \<Longrightarrow> bindings_ok s \<Longrightarrow> bindings_ok s'"
  using remove_ok[of i s s'] by (fastforce simp: bindings_ok_def boundBy_def list_ex_iff)

text \<open>A bound resource cannot be deleted, and an unbound one can.\<close>

lemma remove_iff: "mget (table s) i = Some r \<Longrightarrow> (\<exists>s'. remove i s = Inr s') \<longleftrightarrow> \<not> boundBy (uses i) s"
  using remove_ok remove_total by blast

lemma remove_create:
  assumes "create r s = Inr s'" "\<not> boundBy (uses (ident r)) s"
  obtains s'' where "remove (ident r) s' = Inr s''" "table s'' = table s"
proof -
  note c = create_ok[OF assms(1)]
  have "\<not> boundBy (uses (ident r)) s'" using assms(2) c by (simp add: boundBy_def)
  then obtain s'' where s'': "remove (ident r) s' = Inr s''"
    using remove_total create_found[OF assms(1)] by blast
  then have "table s'' = mdel (ident r) (mput (ident r) r (table s))"
    using remove_ok c by simp
  then show ?thesis using that s'' c by (simp add: mdel_mput_fresh)
qed

end

text \<open>Tables whose resources can also be renamed.\<close>

locale renamed_table = resource_table +
  fixes update :: "'a \<Rightarrow> Store \<Rightarrow> Store result" and keep :: "'a \<Rightarrow> 'a \<Rightarrow> 'a"
  assumes keep_fields: "ident (keep e r) = ident r" "name (keep e r) = name r" "org (keep e r) = org e"
    and update_ok: "update r s = Inr s' \<Longrightarrow> \<exists>e. mget (table s) (ident r) = Some e
      \<and> table s' = mput (ident r) (keep e r) (table s) \<and> deployments s' = deployments s
      \<and> (\<forall>c \<in> set (mvals (table s)). \<not> (ident c \<noteq> ident r \<and> name c = name r \<and> org c = org r))"
begin

text \<open>Updating keeps the names unique when the caller names the organization the resource is
  in: the uniqueness test runs on the caller's \<open>OrgID\<close>, the update keeps the stored one.\<close>

lemma update_names:
  assumes "update r s = Inr s'" "names_ok (table s)"
    and "\<And>e. mget (table s) (ident r) = Some e \<Longrightarrow> org e = org r"
  shows "names_ok (table s')"
proof -
  obtain e where e: "mget (table s) (ident r) = Some e" "table s' = mput (ident r) (keep e r) (table s)"
    "\<forall>c \<in> set (mvals (table s)). \<not> (ident c \<noteq> ident r \<and> name c = name r \<and> org c = org r)"
    using update_ok[OF assms(1)] by blast
  have "\<not> (name c = name (keep e r) \<and> org c = org (keep e r))"
    if c: "mget (table s) k = Some c" "k \<noteq> ident r" for k c
  proof -
    have "ident c = k" using assms(2) c(1) by (simp add: names_ok_def)
    then show ?thesis
      using e c assms(3)[OF e(1)] by (auto simp: in_mvals keep_fields)
  qed
  then show ?thesis
    unfolding e(2) using assms(2) by (intro names_ok_put) (auto simp: keep_fields)
qed

lemma update_bindings: "update r s = Inr s' \<Longrightarrow> bindings_ok s \<Longrightarrow> bindings_ok s'"
  using update_ok[of r s s'] by (auto simp: bindings_ok_def)

end

interpretation kv_table: renamed_table kvNamespaces KVNs_ID KVNs_OrgID KVNs_Name usesKV
    CreateKVNamespace DeleteKVNamespace UpdateKVNamespace
    "\<lambda>e r. r\<lparr>KVNs_OrgID := KVNs_OrgID e, KVNs_CreatedAt := KVNs_CreatedAt e\<rparr>"
  by unfold_locales (auto simp: CreateKVNamespace_def DeleteKVNamespace_def UpdateKVNamespace_def
      mhas_def list_ex_iff split: if_splits option.splits)

interpretation db_table: resource_table databases DB_ID DB_OrgID DB_Name usesDatabase
    CreateDatabase DeleteDatabase
  by unfold_locales (auto simp: CreateDatabase_def DeleteDatabase_def mhas_def list_ex_iff
      split: if_splits option.splits)

interpretation bucket_table: renamed_table objectBuckets Bucket_ID Bucket_OrgID Bucket_Name usesBucket
    CreateObjectStorageBucket DeleteObjectStorageBucket UpdateObjectStorageBucket
    "\<lambda>e r. r\<lparr>Bucket_OrgID := Bucket_OrgID e, Bucket_CreatedAt := Bucket_CreatedAt e\<rparr>"
  by unfold_locales (auto simp: CreateObjectStorageBucket_def DeleteObjectStorageBucket_def
      UpdateObjectStorageBucket_def mhas_def list_ex_iff split: if_splits option.splits)

end
