(* ===== verification/Store_KV.thy ===== *)
theory Store_KV
  imports Store_Resources
begin

text \<open>
  The runtime KV data, its metrics and its paged listing, and the metrics of databases and
  buckets: the rest of \<open>store.go\<close>. Reading may delete expired values, so reads return a state.
\<close>

section \<open>Access and expiry\<close>

text \<open>The two guards every KV method starts with.\<close>

definition kvGuard :: "string \<Rightarrow> string \<Rightarrow> Store \<Rightarrow> unit result" where
  "kvGuard capability namespaceID s =
     (if capability \<noteq> [] \<and> \<not> mhas (capabilityToApp s) capability then Inl ErrInvalidCapability
      else if \<not> mhas (kvNamespaces s) namespaceID then Inl ErrKVNamespaceNotFound
      else Inr ())"

definition runtimeKVExpiration :: "RuntimeKVPutOptions list \<Rightarrow> time option" where
  "runtimeKVExpiration options = (case options of [] \<Rightarrow> None | o' # _ \<Rightarrow> KVPutOpt_Expiration o')"

definition runtimeKVExpired :: "runtimeKVValue \<Rightarrow> time \<Rightarrow> bool" where
  "runtimeKVExpired value now =
     (case KVVal_Expiration value of None \<Rightarrow> False | Some e \<Rightarrow> \<not> e > now)"

text \<open>\<open>metrics.Size += delta\<close>, clamped at zero.\<close>

definition adjustSize :: "int \<Rightarrow> KVNamespaceMetrics \<Rightarrow> KVNamespaceMetrics" where
  "adjustSize delta m = m\<lparr>KVMet_Size := (if KVMet_Size m + delta < 0 then 0 else KVMet_Size m + delta)\<rparr>"

definition adjustMetrics :: "string \<Rightarrow> int \<Rightarrow> Store \<Rightarrow> Store" where
  "adjustMetrics namespaceID delta s = s\<lparr>kvMetrics := mput namespaceID
     (adjustSize delta (mget0 KVNamespaceMetrics0 (kvMetrics s) namespaceID)) (kvMetrics s)\<rparr>"

definition deleteRuntimeKVValueLocked :: "string \<Rightarrow> string \<Rightarrow> runtimeKVValue \<Rightarrow> Store \<Rightarrow> Store" where
  "deleteRuntimeKVValueLocked namespaceID key value s =
     adjustMetrics namespaceID (- int (length (KVVal_Value value)))
       (s\<lparr>kv := mdel2 namespaceID key (kv s)\<rparr>)"

fun purgeLoop :: "string \<Rightarrow> time \<Rightarrow> (string \<times> runtimeKVValue) list \<Rightarrow> Store \<Rightarrow> Store" where
  "purgeLoop namespaceID now [] s = s"
| "purgeLoop namespaceID now ((key, value) # es) s =
     purgeLoop namespaceID now es
       (if runtimeKVExpired value now then deleteRuntimeKVValueLocked namespaceID key value s else s)"

definition purgeExpiredKVLocked :: "string \<Rightarrow> time \<Rightarrow> Store \<Rightarrow> Store" where
  "purgeExpiredKVLocked namespaceID now s =
     purgeLoop namespaceID now (mentries (mget0 mempty (kv s) namespaceID)) s"

section \<open>Reading and writing\<close>

definition KVGet :: "string \<Rightarrow> string \<Rightarrow> string \<Rightarrow> time \<Rightarrow> Store \<Rightarrow> (string \<times> bool \<times> Store) result" where
  "KVGet capability namespaceID key now s =
     rbind (kvGuard capability namespaceID s) (\<lambda>_.
       Inr (case mget2 (kv s) namespaceID key of
              None \<Rightarrow> ([], False, s)
            | Some value \<Rightarrow>
                if runtimeKVExpired value now
                then ([], False, deleteRuntimeKVValueLocked namespaceID key value s)
                else (KVVal_Value value, True, s)))"

definition KVValueSize :: "string \<Rightarrow> string \<Rightarrow> string \<Rightarrow> time \<Rightarrow> Store \<Rightarrow> (int \<times> bool \<times> Store) result" where
  "KVValueSize capability namespaceID key now s =
     rbind (kvGuard capability namespaceID s) (\<lambda>_.
       Inr (case mget2 (kv s) namespaceID key of
              None \<Rightarrow> (0, False, s)
            | Some value \<Rightarrow>
                if runtimeKVExpired value now
                then (0, False, deleteRuntimeKVValueLocked namespaceID key value s)
                else (int (length (KVVal_Value value)), True, s)))"

definition putValue :: "string \<Rightarrow> string \<Rightarrow> string \<Rightarrow> RuntimeKVPutOptions list \<Rightarrow> Store \<Rightarrow> Store" where
  "putValue namespaceID key value options s =
     s\<lparr>kv := mput2 namespaceID key
         \<lparr>KVVal_Value = value, KVVal_Expiration = runtimeKVExpiration options\<rparr> (kv s)\<rparr>"

definition KVPut :: "string \<Rightarrow> string \<Rightarrow> string \<Rightarrow> string \<Rightarrow> RuntimeKVPutOptions list \<Rightarrow> Store
    \<Rightarrow> Store result" where
  "KVPut capability namespaceID key value options s =
     rbind (kvGuard capability namespaceID s) (\<lambda>_. Inr (putValue namespaceID key value options s))"

definition oldSize :: "string \<Rightarrow> string \<Rightarrow> Store \<Rightarrow> int" where
  "oldSize namespaceID key s =
     int (length (KVVal_Value (mget0 runtimeKVValue0 (mget0 mempty (kv s) namespaceID) key)))"

definition KVPutWithSizeDelta :: "string \<Rightarrow> string \<Rightarrow> string \<Rightarrow> string \<Rightarrow> RuntimeKVPutOptions list \<Rightarrow> Store
    \<Rightarrow> (int \<times> Store) result" where
  "KVPutWithSizeDelta capability namespaceID key value options s =
     rbind (kvGuard capability namespaceID s) (\<lambda>_.
       (let delta = int (length value) - oldSize namespaceID key s in
        Inr (delta, adjustMetrics namespaceID delta (putValue namespaceID key value options s))))"

definition KVDelete :: "string \<Rightarrow> string \<Rightarrow> string \<Rightarrow> Store \<Rightarrow> Store result" where
  "KVDelete capability namespaceID key s =
     rbind (kvGuard capability namespaceID s) (\<lambda>_. Inr (s\<lparr>kv := mdel2 namespaceID key (kv s)\<rparr>))"

definition KVDeleteWithSizeDelta :: "string \<Rightarrow> string \<Rightarrow> string \<Rightarrow> Store \<Rightarrow> (int \<times> Store) result" where
  "KVDeleteWithSizeDelta capability namespaceID key s =
     rbind (kvGuard capability namespaceID s) (\<lambda>_.
       (let delta = - oldSize namespaceID key s in
        Inr (delta, adjustMetrics namespaceID delta (s\<lparr>kv := mdel2 namespaceID key (kv s)\<rparr>))))"

section \<open>Listing\<close>

definition KVList :: "string \<Rightarrow> string \<Rightarrow> time \<Rightarrow> Store \<Rightarrow> (WorkerKVKey list \<times> Store) result" where
  "KVList capability namespaceID now s =
     rbind (kvGuard capability namespaceID s) (\<lambda>_.
       (let s' = purgeExpiredKVLocked namespaceID now s in
        Inr (sortBy KVKey_Key (map (\<lambda>(key, value). \<lparr>KVKey_Key = key, KVKey_Size = int (length (KVVal_Value value))\<rparr>)
               (mentries (mget0 mempty (kv s') namespaceID))), s')))"

definition EncodeRuntimeKVCursor :: "string \<Rightarrow> string" where
  "EncodeRuntimeKVCursor key = base64Encode key"

definition DecodeRuntimeKVCursor :: "string \<Rightarrow> string result" where
  "DecodeRuntimeKVCursor cursor =
     (if cursor = [] then Inr []
      else case base64Decode cursor of
          None \<Rightarrow> Inl ErrInvalidKVCursor
        | Some decoded \<Rightarrow>
            if \<not> utf8Valid decoded \<or> EncodeRuntimeKVCursor decoded \<noteq> cursor
            then Inl ErrInvalidKVCursor else Inr decoded)"

definition pageLimit :: "int \<Rightarrow> nat" where
  "pageLimit limit = nat (if limit \<le> 0 then 1000 else if limit > 1000 then 1000 else limit)"

text \<open>\<open>time.Unix()\<close> of an expiration: whole seconds since 1970, counted from the zero time.\<close>

definition unixSeconds :: "time \<Rightarrow> int" where
  "unixSeconds t = t div second - 62135596800"

definition KVListPage :: "string \<Rightarrow> string \<Rightarrow> RuntimeKVListOptions \<Rightarrow> time \<Rightarrow> Store
    \<Rightarrow> (RuntimeKVListResult \<times> Store) result" where
  "KVListPage capability namespaceID options now s =
     rbind (kvGuard capability namespaceID s) (\<lambda>_.
     rbind (DecodeRuntimeKVCursor (KVListOpt_Cursor options)) (\<lambda>after.
       (let limit = pageLimit (KVListOpt_Limit options);
            s' = purgeExpiredKVLocked namespaceID now s;
            values = mget0 mempty (kv s') namespaceID;
            keys = sort (filter (\<lambda>key. \<not> (key \<le> after \<or> \<not> hasPrefix key (KVListOpt_Prefix options)))
                     (mkeys values));
            complete = (length keys \<le> limit);
            page = (if length keys > limit then take limit keys else keys)
        in Inr (\<lparr>KVListRes_Keys = map (\<lambda>key. \<lparr>KVListKey_Name = key, KVListKey_Expiration =
                   map_option unixSeconds (KVVal_Expiration (mget0 runtimeKVValue0 values key))\<rparr>) page,
                 KVListRes_ListComplete = complete,
                 KVListRes_Cursor = (if \<not> complete \<and> page \<noteq> [] then EncodeRuntimeKVCursor (last page) else [])\<rparr>,
                s'))))"

section \<open>Metrics\<close>

definition getKVNamespaceMetrics :: "string \<Rightarrow> time \<Rightarrow> Store \<Rightarrow> (KVNamespaceMetrics \<times> Store) result" where
  "getKVNamespaceMetrics namespaceID now s =
     (if \<not> mhas (kvNamespaces s) namespaceID then Inl ErrKVNamespaceNotFound
      else (let s' = purgeExpiredKVLocked namespaceID now s in
        Inr ((mget0 KVNamespaceMetrics0 (kvMetrics s') namespaceID)\<lparr>KVMet_Available := True\<rparr>, s')))"

definition updateKVMetrics :: "string \<Rightarrow> (KVNamespaceMetrics \<Rightarrow> KVNamespaceMetrics) \<Rightarrow> Store \<Rightarrow> Store result" where
  "updateKVMetrics namespaceID f s =
     (if \<not> mhas (kvNamespaces s) namespaceID then Inl ErrKVNamespaceNotFound
      else Inr (s\<lparr>kvMetrics := mput namespaceID
             (f (mget0 KVNamespaceMetrics0 (kvMetrics s) namespaceID)) (kvMetrics s)\<rparr>))"

definition IncrementKVNamespaceReads :: "string \<Rightarrow> Store \<Rightarrow> Store result" where
  "IncrementKVNamespaceReads namespaceID = updateKVMetrics namespaceID (\<lambda>m. m\<lparr>KVMet_Reads := KVMet_Reads m + 1\<rparr>)"

definition IncrementKVNamespaceWrites :: "string \<Rightarrow> Store \<Rightarrow> Store result" where
  "IncrementKVNamespaceWrites namespaceID = updateKVMetrics namespaceID (\<lambda>m. m\<lparr>KVMet_Writes := KVMet_Writes m + 1\<rparr>)"

definition AdjustKVNamespaceSize :: "string \<Rightarrow> int \<Rightarrow> Store \<Rightarrow> Store result" where
  "AdjustKVNamespaceSize namespaceID delta = updateKVMetrics namespaceID (adjustSize delta)"

fun storageBytes :: "string \<Rightarrow> time \<Rightarrow> (string \<times> KVNamespace) list \<Rightarrow> int \<Rightarrow> Store \<Rightarrow> int \<times> Store" where
  "storageBytes orgID now [] acc s = (acc, s)"
| "storageBytes orgID now ((i, n) # ns) acc s =
     (if KVNs_OrgID n \<noteq> orgID then storageBytes orgID now ns acc s
      else (let s' = purgeExpiredKVLocked i now s in
        storageBytes orgID now ns (acc + KVMet_Size (mget0 KVNamespaceMetrics0 (kvMetrics s') i)) s'))"

definition KVStorageBytesByOrg :: "string \<Rightarrow> time \<Rightarrow> Store \<Rightarrow> int \<times> Store" where
  "KVStorageBytesByOrg orgID now s = storageBytes orgID now (mentries (kvNamespaces s)) 0 s"

definition getObjectStorageBucketMetrics :: "string \<Rightarrow> Store \<Rightarrow> ObjectStorageBucketMetrics result" where
  "getObjectStorageBucketMetrics bucketID s =
     (if \<not> mhas (objectBuckets s) bucketID then Inl ErrObjectStorageBucketNotFound
      else Inr ((mget0 ObjectStorageBucketMetrics0 (objectMetrics s) bucketID)\<lparr>ObjMet_Available := True\<rparr>))"

definition ObjectStorageBytesByOrg :: "string \<Rightarrow> Store \<Rightarrow> int" where
  "ObjectStorageBytesByOrg orgID s = sum_list (map
     (\<lambda>(i, _). ObjMet_Size (mget0 ObjectStorageBucketMetrics0 (objectMetrics s) i))
     (filter (\<lambda>(_, b). Bucket_OrgID b = orgID) (mentries (objectBuckets s))))"

definition updateObjectMetrics :: "string \<Rightarrow> (ObjectStorageBucketMetrics \<Rightarrow> ObjectStorageBucketMetrics)
    \<Rightarrow> Store \<Rightarrow> Store result" where
  "updateObjectMetrics bucketID f s =
     (if \<not> mhas (objectBuckets s) bucketID then Inl ErrObjectStorageBucketNotFound
      else Inr (s\<lparr>objectMetrics := mput bucketID
             (f (mget0 ObjectStorageBucketMetrics0 (objectMetrics s) bucketID)) (objectMetrics s)\<rparr>))"

definition IncrementObjectStorageBucketReads :: "string \<Rightarrow> Store \<Rightarrow> Store result" where
  "IncrementObjectStorageBucketReads b = updateObjectMetrics b (\<lambda>m. m\<lparr>ObjMet_Reads := ObjMet_Reads m + 1\<rparr>)"

definition IncrementObjectStorageBucketWrites :: "string \<Rightarrow> Store \<Rightarrow> Store result" where
  "IncrementObjectStorageBucketWrites b = updateObjectMetrics b (\<lambda>m. m\<lparr>ObjMet_Writes := ObjMet_Writes m + 1\<rparr>)"

definition AdjustObjectStorageBucketSize :: "string \<Rightarrow> int \<Rightarrow> Store \<Rightarrow> Store result" where
  "AdjustObjectStorageBucketSize b delta = updateObjectMetrics b (\<lambda>m. m\<lparr>ObjMet_Size :=
     (if ObjMet_Size m + delta < 0 then 0 else ObjMet_Size m + delta)\<rparr>)"

definition SetObjectStorageBucketObjectCount :: "string \<Rightarrow> int \<Rightarrow> Store \<Rightarrow> Store result" where
  "SetObjectStorageBucketObjectCount b count = updateObjectMetrics b (\<lambda>m. m\<lparr>ObjMet_ObjectCount := max count 0\<rparr>)"

definition AdjustObjectStorageBucketObjectCount :: "string \<Rightarrow> int \<Rightarrow> Store \<Rightarrow> Store result" where
  "AdjustObjectStorageBucketObjectCount b delta =
     updateObjectMetrics b (\<lambda>m. m\<lparr>ObjMet_ObjectCount := max (ObjMet_ObjectCount m + delta) 0\<rparr>)"

section \<open>Database metrics\<close>

definition getDatabaseMetrics :: "string \<Rightarrow> Store \<Rightarrow> DatabaseMetrics result" where
  "getDatabaseMetrics databaseID s =
     (if \<not> mhas (databases s) databaseID then Inl ErrDatabaseNotFound
      else Inr ((mget0 DatabaseMetrics0 (dbMetrics s) databaseID)\<lparr>DBMet_Available := True\<rparr>))"

definition recordDatabaseDurationBucket :: "rat \<Rightarrow> DatabaseMetrics \<Rightarrow> DatabaseMetrics" where
  "recordDatabaseDurationBucket d m =
     (if d \<le> 1 / 2 then m\<lparr>DBMet_DurationBucket0_5 := DBMet_DurationBucket0_5 m + 1\<rparr>
      else if d \<le> 1 then m\<lparr>DBMet_DurationBucket1 := DBMet_DurationBucket1 m + 1\<rparr>
      else if d \<le> 5 / 2 then m\<lparr>DBMet_DurationBucket2_5 := DBMet_DurationBucket2_5 m + 1\<rparr>
      else if d \<le> 5 then m\<lparr>DBMet_DurationBucket5 := DBMet_DurationBucket5 m + 1\<rparr>
      else if d \<le> 10 then m\<lparr>DBMet_DurationBucket10 := DBMet_DurationBucket10 m + 1\<rparr>
      else if d \<le> 25 then m\<lparr>DBMet_DurationBucket25 := DBMet_DurationBucket25 m + 1\<rparr>
      else if d \<le> 50 then m\<lparr>DBMet_DurationBucket50 := DBMet_DurationBucket50 m + 1\<rparr>
      else if d \<le> 100 then m\<lparr>DBMet_DurationBucket100 := DBMet_DurationBucket100 m + 1\<rparr>
      else if d \<le> 250 then m\<lparr>DBMet_DurationBucket250 := DBMet_DurationBucket250 m + 1\<rparr>
      else if d \<le> 500 then m\<lparr>DBMet_DurationBucket500 := DBMet_DurationBucket500 m + 1\<rparr>
      else if d \<le> 1000 then m\<lparr>DBMet_DurationBucket1000 := DBMet_DurationBucket1000 m + 1\<rparr>
      else m\<lparr>DBMet_DurationBucketInf := DBMet_DurationBucketInf m + 1\<rparr>)"

definition databaseDurationBuckets :: "DatabaseMetrics \<Rightarrow> (rat \<times> int) list" where
  "databaseDurationBuckets m =
     [(1 / 2, DBMet_DurationBucket0_5 m), (1, DBMet_DurationBucket1 m), (5 / 2, DBMet_DurationBucket2_5 m),
      (5, DBMet_DurationBucket5 m), (10, DBMet_DurationBucket10 m), (25, DBMet_DurationBucket25 m),
      (50, DBMet_DurationBucket50 m), (100, DBMet_DurationBucket100 m), (250, DBMet_DurationBucket250 m),
      (500, DBMet_DurationBucket500 m), (1000, DBMet_DurationBucket1000 m), (1000, DBMet_DurationBucketInf m)]"

fun scanBuckets :: "int \<Rightarrow> int \<Rightarrow> (rat \<times> int) list \<Rightarrow> rat" where
  "scanBuckets target seen [] = 1000"
| "scanBuckets target seen ((upper, count) # bs) =
     (if seen + count \<ge> target then upper else scanBuckets target (seen + count) bs)"

text \<open>\<open>int64(float64(queries) * percentile)\<close> truncates towards zero. The percentiles 0.50 and 0.99
  are taken as exact fractions, which gives the same integer for every count below \<open>2 ^ 46\<close>.\<close>

definition databaseDurationPercentile :: "DatabaseMetrics \<Rightarrow> rat \<Rightarrow> rat" where
  "databaseDurationPercentile m percentile =
     (if DBMet_Queries m \<le> 0 then 0
      else (let target = \<lfloor>of_int (DBMet_Queries m) * percentile\<rfloor> in
        scanBuckets (if target < 1 then 1 else target) 0 (databaseDurationBuckets m)))"

definition recordQuery :: "DatabaseQueryMetricsInput \<Rightarrow> DatabaseMetrics \<Rightarrow> DatabaseMetrics" where
  "recordQuery input m0 =
     (let m1 = m0\<lparr>DBMet_Queries := DBMet_Queries m0 + 1\<rparr>;
          m2 = (if DBQuery_ChangedDB input \<or> DBQuery_RowsWritten input > 0
                then m1\<lparr>DBMet_WriteQueries := DBMet_WriteQueries m1 + 1\<rparr>
                else m1\<lparr>DBMet_ReadQueries := DBMet_ReadQueries m1 + 1\<rparr>);
          m3 = m2\<lparr>DBMet_RowsRead := DBMet_RowsRead m2 + DBQuery_RowsRead input,
                  DBMet_RowsReturned := DBMet_RowsReturned m2 + DBQuery_RowsReturned input,
                  DBMet_RowsWritten := DBMet_RowsWritten m2 + DBQuery_RowsWritten input,
                  DBMet_TotalDurationMS := DBMet_TotalDurationMS m2 + DBQuery_DurationMS input\<rparr>;
          m4 = (if DBQuery_SizeAfter input \<ge> 0 then m3\<lparr>DBMet_StorageBytes := DBQuery_SizeAfter input\<rparr> else m3);
          m5 = (if DBQuery_TableCount input \<ge> 0 then m4\<lparr>DBMet_TableCount := DBQuery_TableCount input\<rparr> else m4);
          m6 = recordDatabaseDurationBucket (DBQuery_DurationMS input) m5;
          m7 = m6\<lparr>DBMet_P50DurationMS := databaseDurationPercentile m6 (1 / 2)\<rparr>
      in m7\<lparr>DBMet_P99DurationMS := databaseDurationPercentile m7 (99 / 100)\<rparr>)"

definition RecordDatabaseQueryMetrics :: "DatabaseQueryMetricsInput \<Rightarrow> Store \<Rightarrow> Store result" where
  "RecordDatabaseQueryMetrics input s =
     (let i = DBQuery_DatabaseID input in
      if \<not> mhas (databases s) i then Inl ErrDatabaseNotFound
      else Inr (s\<lparr>dbMetrics := mput i (recordQuery input (mget0 DatabaseMetrics0 (dbMetrics s) i))
             (dbMetrics s)\<rparr>))"

definition UpdateDatabaseRuntimeStats :: "string \<Rightarrow> DatabaseRuntimeStats \<Rightarrow> Store \<Rightarrow> Store result" where
  "UpdateDatabaseRuntimeStats databaseID stats s =
     (if \<not> mhas (databases s) databaseID then Inl ErrDatabaseNotFound
      else Inr (s\<lparr>dbMetrics := mput databaseID
             ((mget0 DatabaseMetrics0 (dbMetrics s) databaseID)
               \<lparr>DBMet_StorageBytes := DBStats_StorageBytes stats, DBMet_TableCount := DBStats_TableCount stats\<rparr>)
             (dbMetrics s)\<rparr>))"

end
