(* ===== verification/Store_Steps.thy ===== *)
theory Store_Steps
  imports Store_Identity Store_OAuth Store_Apps Store_Deployments Store_KV
begin

text \<open>
  The store as a transition system: one step relation per group of methods, whose steps are the
  successful calls of its mutators, and what each group leaves untouched. A failed call leaves
  the store as it was. The guards on top of a call are what the service layer promises.
\<close>

section \<open>Identity steps\<close>

text \<open>Users, sessions, tokens, organizations. A personal access token keeps its hash when it is updated.\<close>

inductive identity_step :: "Store \<Rightarrow> Store \<Rightarrow> bool" where
  "CreateUser user s = Inr s' \<Longrightarrow> identity_step s s'"
| "CreateOIDCIdentity identity s = Inr s' \<Longrightarrow> identity_step s s'"
| "CreateControlRefreshToken refresh s = Inr s' \<Longrightarrow> identity_step s s'"
| "UpdateControlRefreshToken refresh s = Inr s' \<Longrightarrow> identity_step s s'"
| "CreatePersonalAccessToken pat s = Inr s' \<Longrightarrow> identity_step s s'"
| "mget (pats s) (PAT_ID pat) = Some old \<Longrightarrow> PAT_TokenHash old = PAT_TokenHash pat \<Longrightarrow>
    UpdatePersonalAccessToken pat s = Inr s' \<Longrightarrow> identity_step s s'"
| "CreateOrganization org s = Inr s' \<Longrightarrow> identity_step s s'"
| "UpsertOrganizationMembership membership now s = Inr s' \<Longrightarrow> identity_step s s'"
| "DeleteOrganizationMembership userID orgID s = Inr s' \<Longrightarrow> identity_step s s'"
| "CreateOrganizationInvite invite s = Inr s' \<Longrightarrow> identity_step s s'"
| "UpdateOrganizationInvite invite s = Inr s' \<Longrightarrow> identity_step s s'"

lemma identity_frame:
  assumes "identity_step s s'"
  shows "assetUploads s' = assetUploads s \<and> artifacts s' = artifacts s
    \<and> publications s' = publications s \<and> management s' = management s
    \<and> dispatchNamespaces s' = dispatchNamespaces s \<and> namespacePolicies s' = namespacePolicies s
    \<and> workerPublications s' = workerPublications s \<and> varsUpdates s' = varsUpdates s
    \<and> oauthClients s' = oauthClients s \<and> oauthCodes s' = oauthCodes s
    \<and> oauthTokens s' = oauthTokens s \<and> oauthRefresh s' = oauthRefresh s
    \<and> partnerIntegrations s' = partnerIntegrations s \<and> partnerConnections s' = partnerConnections s
    \<and> partnerByExternal s' = partnerByExternal s \<and> apps s' = apps s
    \<and> kvNamespaces s' = kvNamespaces s \<and> databases s' = databases s
    \<and> dbMetrics s' = dbMetrics s \<and> objectBuckets s' = objectBuckets s
    \<and> secrets s' = secrets s \<and> deployments s' = deployments s
    \<and> active s' = active s \<and> capabilityToApp s' = capabilityToApp s
    \<and> kv s' = kv s \<and> kvMetrics s' = kvMetrics s
    \<and> objectMetrics s' = objectMetrics s"
  using assms by cases (auto simp: store_ops Let_def rbind_Inr_iff split: if_splits option.splits)


section \<open>Oauth steps\<close>

text \<open>OAuth and partners.\<close>

inductive oauth_step :: "Store \<Rightarrow> Store \<Rightarrow> bool" where
  "CreateOAuthClient client s = Inr s' \<Longrightarrow> oauth_step s s'"
| "UpdateOAuthClient client s = Inr s' \<Longrightarrow> oauth_step s s'"
| "CreateOAuthAuthorizationCode code s = Inr s' \<Longrightarrow> oauth_step s s'"
| "UpdateOAuthAuthorizationCode code s = Inr s' \<Longrightarrow> oauth_step s s'"
| "CreateOAuthToken token s = Inr s' \<Longrightarrow> oauth_step s s'"
| "UpdateOAuthToken token s = Inr s' \<Longrightarrow> oauth_step s s'"
| "RevokeOAuthClientTokens userID orgID clientID now s = Inr s' \<Longrightarrow> oauth_step s s'"
| "RevokeAllOAuthClientTokens clientID now s = Inr s' \<Longrightarrow> oauth_step s s'"
| "RevokePartnerConnectionTokens connectionID now s = Inr s' \<Longrightarrow> oauth_step s s'"
| "CreatePartnerIntegration integration s = Inr s' \<Longrightarrow> oauth_step s s'"
| "UpdatePartnerIntegration integration s = Inr s' \<Longrightarrow> oauth_step s s'"
| "ProvisionPartnerConnection org connection s = Inr (o', c', created, s') \<Longrightarrow> oauth_step s s'"
| "RevokePartnerConnection i now s = Inr s' \<Longrightarrow> oauth_step s s'"
| "RestorePartnerConnection i s = Inr s' \<Longrightarrow> oauth_step s s'"

lemma oauth_frame:
  assumes "oauth_step s s'"
  shows "assetUploads s' = assetUploads s \<and> artifacts s' = artifacts s
    \<and> publications s' = publications s \<and> management s' = management s
    \<and> dispatchNamespaces s' = dispatchNamespaces s \<and> namespacePolicies s' = namespacePolicies s
    \<and> workerPublications s' = workerPublications s \<and> varsUpdates s' = varsUpdates s
    \<and> users s' = users s \<and> usersByEmail s' = usersByEmail s
    \<and> oidcIdentities s' = oidcIdentities s \<and> controlRefresh s' = controlRefresh s
    \<and> pats s' = pats s \<and> patsByHash s' = patsByHash s
    \<and> memberships s' = memberships s \<and> invites s' = invites s
    \<and> apps s' = apps s \<and> kvNamespaces s' = kvNamespaces s
    \<and> databases s' = databases s \<and> dbMetrics s' = dbMetrics s
    \<and> objectBuckets s' = objectBuckets s \<and> secrets s' = secrets s
    \<and> deployments s' = deployments s \<and> active s' = active s
    \<and> capabilityToApp s' = capabilityToApp s \<and> kv s' = kv s
    \<and> kvMetrics s' = kvMetrics s \<and> objectMetrics s' = objectMetrics s"
  using assms by cases (auto simp: store_ops Let_def rbind_Inr_iff split: if_splits option.splits)


section \<open>App steps\<close>

text \<open>Apps and dispatch namespaces. Runtime tokens are random, so a new app brings an unused one; the service creates namespaces at policy revision 1.\<close>

inductive app_step :: "Store \<Rightarrow> Store \<Rightarrow> bool" where
  app_create: "\<not> mhas (capabilityToApp s) (App_RuntimeToken app) \<Longrightarrow> CreateApp app s = Inr s' \<Longrightarrow> app_step s s'"
| app_update: "UpdateApp app s = Inr s' \<Longrightarrow> app_step s s'"
| app_patch: "PatchApp appID input s = Inr (app, s') \<Longrightarrow> app_step s s'"
| app_delete: "DeleteApp appID s = Inr s' \<Longrightarrow> app_step s s'"
| app_scripts: "DeleteNamespaceScripts org namespace ids s = Inr s' \<Longrightarrow> app_step s s'"
| app_namespace: "DNs_PolicyRevision ns = 1 \<Longrightarrow> CreateDispatchNamespace ns s = Inr s' \<Longrightarrow> app_step s s'"
| app_rename: "RenameDispatchNamespace i name s = Inr s' \<Longrightarrow> app_step s s'"
| app_unnamespace: "DeleteDispatchNamespace i s = Inr s' \<Longrightarrow> app_step s s'"
| app_grants: "StoreSetNamespaceGrants i revision grants now s = Inr (ns, s') \<Longrightarrow> app_step s s'"

lemma deleteApps_frame:
  "deleteApps ids s = Inr s' \<Longrightarrow> assetUploads s' = assetUploads s \<and> dispatchNamespaces s' = dispatchNamespaces s \<and> namespacePolicies s' = namespacePolicies s \<and> users s' = users s \<and> usersByEmail s' = usersByEmail s \<and> oidcIdentities s' = oidcIdentities s \<and> controlRefresh s' = controlRefresh s \<and> pats s' = pats s \<and> patsByHash s' = patsByHash s \<and> organizations s' = organizations s \<and> memberships s' = memberships s \<and> invites s' = invites s \<and> oauthClients s' = oauthClients s \<and> oauthCodes s' = oauthCodes s \<and> oauthTokens s' = oauthTokens s \<and> oauthRefresh s' = oauthRefresh s \<and> partnerIntegrations s' = partnerIntegrations s \<and> partnerConnections s' = partnerConnections s \<and> partnerByExternal s' = partnerByExternal s \<and> kvNamespaces s' = kvNamespaces s \<and> databases s' = databases s \<and> dbMetrics s' = dbMetrics s \<and> objectBuckets s' = objectBuckets s \<and> kv s' = kv s \<and> kvMetrics s' = kvMetrics s \<and> objectMetrics s' = objectMetrics s"
proof (induction ids arbitrary: s)
  case (Cons i ids)
  then obtain s1 where "deleteAppLocked i s = Inr s1" "deleteApps ids s1 = Inr s'"
    by (auto simp: rbind_Inr_iff)
  then show ?case
    using Cons.IH[of s1] by (auto simp: deleteAppLocked_def split: option.splits)
qed simp

lemma app_frame:
  assumes "app_step s s'"
  shows "assetUploads s' = assetUploads s \<and> users s' = users s
    \<and> usersByEmail s' = usersByEmail s \<and> oidcIdentities s' = oidcIdentities s
    \<and> controlRefresh s' = controlRefresh s \<and> pats s' = pats s
    \<and> patsByHash s' = patsByHash s \<and> organizations s' = organizations s
    \<and> memberships s' = memberships s \<and> invites s' = invites s
    \<and> oauthClients s' = oauthClients s \<and> oauthCodes s' = oauthCodes s
    \<and> oauthTokens s' = oauthTokens s \<and> oauthRefresh s' = oauthRefresh s
    \<and> partnerIntegrations s' = partnerIntegrations s \<and> partnerConnections s' = partnerConnections s
    \<and> partnerByExternal s' = partnerByExternal s \<and> kvNamespaces s' = kvNamespaces s
    \<and> databases s' = databases s \<and> dbMetrics s' = dbMetrics s
    \<and> objectBuckets s' = objectBuckets s \<and> kv s' = kv s
    \<and> kvMetrics s' = kvMetrics s \<and> objectMetrics s' = objectMetrics s"
  using assms
proof cases
  case (app_scripts org namespace ids)
  then show ?thesis
    using deleteApps_frame by (auto simp: DeleteNamespaceScripts_def rbind_Inr_iff split: option.splits if_splits)
qed (auto simp: store_ops Let_def rbind_Inr_iff split: if_splits option.splits)


section \<open>Resource steps\<close>

text \<open>The three resource tables; the service renames a resource inside its organization.\<close>

inductive resource_step :: "Store \<Rightarrow> Store \<Rightarrow> bool" where
  "CreateKVNamespace namespace s = Inr s' \<Longrightarrow> resource_step s s'"
| "mget (kvNamespaces s) (KVNs_ID namespace) = Some old \<Longrightarrow> KVNs_OrgID old = KVNs_OrgID namespace \<Longrightarrow>
    UpdateKVNamespace namespace s = Inr s' \<Longrightarrow> resource_step s s'"
| "DeleteKVNamespace i s = Inr s' \<Longrightarrow> resource_step s s'"
| "CreateDatabase database s = Inr s' \<Longrightarrow> resource_step s s'"
| "DeleteDatabase i s = Inr s' \<Longrightarrow> resource_step s s'"
| "CreateObjectStorageBucket bucket s = Inr s' \<Longrightarrow> resource_step s s'"
| "mget (objectBuckets s) (Bucket_ID bucket) = Some old' \<Longrightarrow> Bucket_OrgID old' = Bucket_OrgID bucket \<Longrightarrow>
    UpdateObjectStorageBucket bucket s = Inr s' \<Longrightarrow> resource_step s s'"
| "DeleteObjectStorageBucket i s = Inr s' \<Longrightarrow> resource_step s s'"

lemma resource_frame:
  assumes "resource_step s s'"
  shows "assetUploads s' = assetUploads s \<and> artifacts s' = artifacts s
    \<and> publications s' = publications s \<and> management s' = management s
    \<and> dispatchNamespaces s' = dispatchNamespaces s \<and> namespacePolicies s' = namespacePolicies s
    \<and> workerPublications s' = workerPublications s \<and> varsUpdates s' = varsUpdates s
    \<and> users s' = users s \<and> usersByEmail s' = usersByEmail s
    \<and> oidcIdentities s' = oidcIdentities s \<and> controlRefresh s' = controlRefresh s
    \<and> pats s' = pats s \<and> patsByHash s' = patsByHash s
    \<and> organizations s' = organizations s \<and> memberships s' = memberships s
    \<and> invites s' = invites s \<and> oauthClients s' = oauthClients s
    \<and> oauthCodes s' = oauthCodes s \<and> oauthTokens s' = oauthTokens s
    \<and> oauthRefresh s' = oauthRefresh s \<and> partnerIntegrations s' = partnerIntegrations s
    \<and> partnerConnections s' = partnerConnections s \<and> partnerByExternal s' = partnerByExternal s
    \<and> apps s' = apps s \<and> secrets s' = secrets s
    \<and> deployments s' = deployments s \<and> active s' = active s
    \<and> capabilityToApp s' = capabilityToApp s"
  using assms by cases (auto simp: store_ops Let_def rbind_Inr_iff split: if_splits option.splits)


section \<open>Deploy steps\<close>

text \<open>Deployments and everything that belongs to one app.\<close>

inductive deploy_step :: "Store \<Rightarrow> Store \<Rightarrow> bool" where
  deploy_secret: "PutSecret appID secret s = Inr s' \<Longrightarrow> deploy_step s s'"
| deploy_unsecret: "DeleteSecret appID name s = Inr s' \<Longrightarrow> deploy_step s s'"
| deploy_activate: "Activate d s = Inr s' \<Longrightarrow> deploy_step s s'"
| deploy_traffic: "SetActiveTraffic appID traffic s = Inr s' \<Longrightarrow> deploy_step s s'"
| deploy_active: "SetActive appID deploymentID s = Inr s' \<Longrightarrow> deploy_step s s'"
| deploy_delete: "DeleteDeployment i s = Inr s' \<Longrightarrow> deploy_step s s'"
| deploy_ack: "AcknowledgePublication appID generation s = Inr s' \<Longrightarrow> deploy_step s s'"
| deploy_begin_vars: "BeginVarsUpdate op next expected s = Inr s' \<Longrightarrow> deploy_step s s'"
| deploy_finish_vars: "FinishVarsUpdate appID key status s = Inr s' \<Longrightarrow> deploy_step s s'"
| deploy_artifact: "PutDeploymentArtifact canonicalPayload artifact s = Inr s' \<Longrightarrow> deploy_step s s'"
| deploy_store: "StoreDeployment d s = Inr s' \<Longrightarrow> deploy_step s s'"
| deploy_publication: "SavePublication p s = Inr s' \<Longrightarrow> deploy_step s s'"
| deploy_upload: "SaveAssetUploadSession value expected' s = Inr s' \<Longrightarrow> deploy_step s s'"
| deploy_prune: "PruneAssetUploadSessions now limit s = Inr (n, s') \<Longrightarrow> deploy_step s s'"
| deploy_management: "CommitScriptManagementState state expected' s = Inr s' \<Longrightarrow> deploy_step s s'"

lemma pruneLoop_frame:
  "pruneLoop now limit us count s = (n, s') \<Longrightarrow> artifacts s' = artifacts s \<and> publications s' = publications s \<and> management s' = management s \<and> dispatchNamespaces s' = dispatchNamespaces s \<and> namespacePolicies s' = namespacePolicies s \<and> workerPublications s' = workerPublications s \<and> varsUpdates s' = varsUpdates s \<and> users s' = users s \<and> usersByEmail s' = usersByEmail s \<and> oidcIdentities s' = oidcIdentities s \<and> controlRefresh s' = controlRefresh s \<and> pats s' = pats s \<and> patsByHash s' = patsByHash s \<and> organizations s' = organizations s \<and> memberships s' = memberships s \<and> invites s' = invites s \<and> oauthClients s' = oauthClients s \<and> oauthCodes s' = oauthCodes s \<and> oauthTokens s' = oauthTokens s \<and> oauthRefresh s' = oauthRefresh s \<and> partnerIntegrations s' = partnerIntegrations s \<and> partnerConnections s' = partnerConnections s \<and> partnerByExternal s' = partnerByExternal s \<and> apps s' = apps s \<and> kvNamespaces s' = kvNamespaces s \<and> databases s' = databases s \<and> dbMetrics s' = dbMetrics s \<and> objectBuckets s' = objectBuckets s \<and> secrets s' = secrets s \<and> deployments s' = deployments s \<and> active s' = active s \<and> capabilityToApp s' = capabilityToApp s \<and> kv s' = kv s \<and> kvMetrics s' = kvMetrics s \<and> objectMetrics s' = objectMetrics s"
  by (induction now limit us count s rule: pruneLoop.induct) (auto simp: Let_def split: if_splits)

lemma deploy_frame:
  assumes "deploy_step s s'"
  shows "dispatchNamespaces s' = dispatchNamespaces s \<and> namespacePolicies s' = namespacePolicies s
    \<and> users s' = users s \<and> usersByEmail s' = usersByEmail s
    \<and> oidcIdentities s' = oidcIdentities s \<and> controlRefresh s' = controlRefresh s
    \<and> pats s' = pats s \<and> patsByHash s' = patsByHash s
    \<and> organizations s' = organizations s \<and> memberships s' = memberships s
    \<and> invites s' = invites s \<and> oauthClients s' = oauthClients s
    \<and> oauthCodes s' = oauthCodes s \<and> oauthTokens s' = oauthTokens s
    \<and> oauthRefresh s' = oauthRefresh s \<and> partnerIntegrations s' = partnerIntegrations s
    \<and> partnerConnections s' = partnerConnections s \<and> partnerByExternal s' = partnerByExternal s
    \<and> apps s' = apps s \<and> kvNamespaces s' = kvNamespaces s
    \<and> databases s' = databases s \<and> dbMetrics s' = dbMetrics s
    \<and> objectBuckets s' = objectBuckets s \<and> capabilityToApp s' = capabilityToApp s
    \<and> kv s' = kv s \<and> kvMetrics s' = kvMetrics s
    \<and> objectMetrics s' = objectMetrics s"
  using assms
proof cases
  case (deploy_prune now limit n)
  then show ?thesis
    using pruneLoop_frame by (auto simp: PruneAssetUploadSessions_def rbind_Inr_iff)
qed (auto simp: store_ops Let_def rbind_Inr_iff split: if_splits option.splits)


section \<open>Data steps\<close>

text \<open>KV data and metrics.\<close>

inductive data_step :: "Store \<Rightarrow> Store \<Rightarrow> bool" where
  data_get: "KVGet capability namespaceID key now s = Inr (v, found, s') \<Longrightarrow> data_step s s'"
| data_size: "KVValueSize capability namespaceID key now s = Inr (n, found, s') \<Longrightarrow> data_step s s'"
| data_put: "KVPut capability namespaceID key value options s = Inr s' \<Longrightarrow> data_step s s'"
| data_put_delta: "KVPutWithSizeDelta capability namespaceID key value options s = Inr (delta, s') \<Longrightarrow> data_step s s'"
| data_delete: "KVDelete capability namespaceID key s = Inr s' \<Longrightarrow> data_step s s'"
| data_delete_delta: "KVDeleteWithSizeDelta capability namespaceID key s = Inr (delta, s') \<Longrightarrow> data_step s s'"
| data_list: "KVList capability namespaceID now s = Inr (keys, s') \<Longrightarrow> data_step s s'"
| data_page: "KVListPage capability namespaceID options' now s = Inr (page, s') \<Longrightarrow> data_step s s'"
| data_metrics: "getKVNamespaceMetrics namespaceID now s = Inr (metrics, s') \<Longrightarrow> data_step s s'"
| data_reads: "IncrementKVNamespaceReads namespaceID s = Inr s' \<Longrightarrow> data_step s s'"
| data_writes: "IncrementKVNamespaceWrites namespaceID s = Inr s' \<Longrightarrow> data_step s s'"
| data_adjust: "AdjustKVNamespaceSize namespaceID delta s = Inr s' \<Longrightarrow> data_step s s'"
| data_bytes: "KVStorageBytesByOrg orgID now s = (bytes, s') \<Longrightarrow> data_step s s'"
| data_object_reads: "IncrementObjectStorageBucketReads b s = Inr s' \<Longrightarrow> data_step s s'"
| data_object_writes: "IncrementObjectStorageBucketWrites b s = Inr s' \<Longrightarrow> data_step s s'"
| data_object_size: "AdjustObjectStorageBucketSize b delta s = Inr s' \<Longrightarrow> data_step s s'"
| data_object_count: "SetObjectStorageBucketObjectCount b count s = Inr s' \<Longrightarrow> data_step s s'"
| data_object_adjust: "AdjustObjectStorageBucketObjectCount b delta s = Inr s' \<Longrightarrow> data_step s s'"
| data_query: "RecordDatabaseQueryMetrics input s = Inr s' \<Longrightarrow> data_step s s'"
| data_stats: "UpdateDatabaseRuntimeStats databaseID stats s = Inr s' \<Longrightarrow> data_step s s'"

lemmas data_ops = KVGet_def KVValueSize_def KVPut_def KVPutWithSizeDelta_def KVDelete_def
  KVDeleteWithSizeDelta_def KVList_def KVListPage_def getKVNamespaceMetrics_def updateKVMetrics_def
  IncrementKVNamespaceReads_def IncrementKVNamespaceWrites_def AdjustKVNamespaceSize_def
  updateObjectMetrics_def IncrementObjectStorageBucketReads_def IncrementObjectStorageBucketWrites_def
  AdjustObjectStorageBucketSize_def SetObjectStorageBucketObjectCount_def
  AdjustObjectStorageBucketObjectCount_def RecordDatabaseQueryMetrics_def
  UpdateDatabaseRuntimeStats_def putValue_def adjustMetrics_def deleteRuntimeKVValueLocked_def

definition kv_only :: "Store \<Rightarrow> Store \<Rightarrow> bool" where
  "kv_only s s' \<longleftrightarrow> assetUploads s' = assetUploads s \<and> artifacts s' = artifacts s \<and> publications s' = publications s \<and> management s' = management s \<and> dispatchNamespaces s' = dispatchNamespaces s \<and> namespacePolicies s' = namespacePolicies s \<and> workerPublications s' = workerPublications s \<and> varsUpdates s' = varsUpdates s \<and> users s' = users s \<and> usersByEmail s' = usersByEmail s \<and> oidcIdentities s' = oidcIdentities s \<and> controlRefresh s' = controlRefresh s \<and> pats s' = pats s \<and> patsByHash s' = patsByHash s \<and> organizations s' = organizations s \<and> memberships s' = memberships s \<and> invites s' = invites s \<and> oauthClients s' = oauthClients s \<and> oauthCodes s' = oauthCodes s \<and> oauthTokens s' = oauthTokens s \<and> oauthRefresh s' = oauthRefresh s \<and> partnerIntegrations s' = partnerIntegrations s \<and> partnerConnections s' = partnerConnections s \<and> partnerByExternal s' = partnerByExternal s \<and> apps s' = apps s \<and> kvNamespaces s' = kvNamespaces s \<and> databases s' = databases s \<and> dbMetrics s' = dbMetrics s \<and> objectBuckets s' = objectBuckets s \<and> secrets s' = secrets s \<and> deployments s' = deployments s \<and> active s' = active s \<and> capabilityToApp s' = capabilityToApp s \<and> objectMetrics s' = objectMetrics s"

lemma kv_only_trans: "kv_only s s1 \<Longrightarrow> kv_only s1 s2 \<Longrightarrow> kv_only s s2"
  by (simp add: kv_only_def)

lemma purge_kv_only: "kv_only s (purgeExpiredKVLocked namespaceID now s)"
proof -
  have "kv_only s (purgeLoop namespaceID now es s)" for es
  proof (induction namespaceID now es s rule: purgeLoop.induct)
    case (2 namespaceID now key v es s)
    let ?s1 = "if runtimeKVExpired v now then deleteRuntimeKVValueLocked namespaceID key v s else s"
    have "kv_only s ?s1"
      by (simp add: kv_only_def deleteRuntimeKVValueLocked_def adjustMetrics_def)
    from kv_only_trans[OF this 2] show ?case by (simp only: purgeLoop.simps)
  qed (simp add: kv_only_def)
  then show ?thesis by (simp add: purgeExpiredKVLocked_def)
qed

lemma storageBytes_kv_only: "kv_only s (snd (storageBytes orgID now ns acc s))"
proof (induction orgID now ns acc s rule: storageBytes.induct)
  case (2 orgID now i n ns acc s)
  show ?case
  proof (cases "KVNs_OrgID n = orgID")
    case True
    show ?thesis using kv_only_trans[OF purge_kv_only 2(2)[OF _ refl]] True by (simp add: Let_def)
  next
    case False
    then show ?thesis using 2(1) by simp
  qed
qed (simp_all add: kv_only_def)

lemma KVStorageBytesByOrg_frame: "KVStorageBytesByOrg orgID now s = (bytes, s') \<Longrightarrow> kv_only s s'"
  using storageBytes_kv_only[of s orgID now "mentries (kvNamespaces s)" 0]
  by (simp add: KVStorageBytesByOrg_def)

lemma data_frame:
  assumes "data_step s s'"
  shows "assetUploads s' = assetUploads s \<and> artifacts s' = artifacts s
    \<and> publications s' = publications s \<and> management s' = management s
    \<and> dispatchNamespaces s' = dispatchNamespaces s \<and> namespacePolicies s' = namespacePolicies s
    \<and> workerPublications s' = workerPublications s \<and> varsUpdates s' = varsUpdates s
    \<and> users s' = users s \<and> usersByEmail s' = usersByEmail s
    \<and> oidcIdentities s' = oidcIdentities s \<and> controlRefresh s' = controlRefresh s
    \<and> pats s' = pats s \<and> patsByHash s' = patsByHash s
    \<and> organizations s' = organizations s \<and> memberships s' = memberships s
    \<and> invites s' = invites s \<and> oauthClients s' = oauthClients s
    \<and> oauthCodes s' = oauthCodes s \<and> oauthTokens s' = oauthTokens s
    \<and> oauthRefresh s' = oauthRefresh s \<and> partnerIntegrations s' = partnerIntegrations s
    \<and> partnerConnections s' = partnerConnections s \<and> partnerByExternal s' = partnerByExternal s
    \<and> apps s' = apps s \<and> kvNamespaces s' = kvNamespaces s
    \<and> databases s' = databases s \<and> objectBuckets s' = objectBuckets s
    \<and> secrets s' = secrets s \<and> deployments s' = deployments s
    \<and> active s' = active s \<and> capabilityToApp s' = capabilityToApp s"
  using assms
proof cases
  case (data_bytes orgID now bytes)
  then show ?thesis using KVStorageBytesByOrg_frame[of orgID now s bytes s'] by (simp add: kv_only_def)
next
  case (data_list capability namespaceID now keys)
  then have "s' = purgeExpiredKVLocked namespaceID now s" by (auto simp: KVList_def Let_def rbind_Inr_iff)
  then show ?thesis using purge_kv_only[of s namespaceID now] by (simp add: kv_only_def)
next
  case (data_page capability namespaceID options' now page)
  then have "s' = purgeExpiredKVLocked namespaceID now s" by (auto simp: KVListPage_def Let_def rbind_Inr_iff split: if_splits)
  then show ?thesis using purge_kv_only[of s namespaceID now] by (simp add: kv_only_def)
next
  case (data_metrics namespaceID now metrics)
  then have "s' = purgeExpiredKVLocked namespaceID now s" by (auto simp: getKVNamespaceMetrics_def Let_def split: option.splits if_splits)
  then show ?thesis using purge_kv_only[of s namespaceID now] by (simp add: kv_only_def)
qed (auto simp: data_ops Let_def rbind_Inr_iff split: if_splits option.splits)


section \<open>Steps of the store\<close>

inductive store_step :: "Store \<Rightarrow> Store \<Rightarrow> bool" where
  by_identity: "identity_step s s' \<Longrightarrow> store_step s s'"
| by_oauth: "oauth_step s s' \<Longrightarrow> store_step s s'"
| by_app: "app_step s s' \<Longrightarrow> store_step s s'"
| by_resource: "resource_step s s' \<Longrightarrow> store_step s s'"
| by_deploy: "deploy_step s s' \<Longrightarrow> store_step s s'"
| by_data: "data_step s s' \<Longrightarrow> store_step s s'"

definition store_reachable :: "Store \<Rightarrow> bool" where
  "store_reachable s = store_step\<^sup>*\<^sup>* NewStore s"

text \<open>An invariant that every group of steps preserves holds in every reachable store.\<close>

lemma store_induct [consumes 1, case_names new identity oauth app resource deploy data]:
  assumes "store_reachable s" and "I NewStore"
    and "\<And>s s'. I s \<Longrightarrow> identity_step s s' \<Longrightarrow> I s'" "\<And>s s'. I s \<Longrightarrow> oauth_step s s' \<Longrightarrow> I s'"
    and "\<And>s s'. I s \<Longrightarrow> app_step s s' \<Longrightarrow> I s'" "\<And>s s'. I s \<Longrightarrow> resource_step s s' \<Longrightarrow> I s'"
    and "\<And>s s'. I s \<Longrightarrow> deploy_step s s' \<Longrightarrow> I s'" "\<And>s s'. I s \<Longrightarrow> data_step s s' \<Longrightarrow> I s'"
  shows "I s"
  using assms(1) unfolding store_reachable_def
proof (induction rule: rtranclp_induct)
  case base
  then show ?case by (rule assms(2))
next
  case (step s s')
  from step(2) show ?case
    by cases (use step(3) assms(3-8) in blast)+
qed

lemmas store_frames = identity_frame oauth_frame app_frame resource_frame deploy_frame data_frame

end
