(* ===== verification/Store_Invariants.thy ===== *)
theory Store_Invariants
  imports Store_Steps
begin

text \<open>
  The invariants of the repository: the secondary indexes agree with their tables, every record
  that refers to an app, a user or an organization refers to an existing one, the active
  deployments of an app are among its deployments, and the policy history of a namespace is
  complete. Each holds in every reachable store.
\<close>

section \<open>Tables and their indexes\<close>

definition filed :: "('v \<Rightarrow> 'k) \<Rightarrow> ('k, 'v) gomap \<Rightarrow> bool" where
  "filed ident t \<longleftrightarrow> (\<forall>k v. mget t k = Some v \<longrightarrow> ident v = k)"

text \<open>\<open>ix\<close> maps the secondary key of every record of \<open>tbl\<close> to its primary key, and nothing else.\<close>

definition indexed :: "('v \<Rightarrow> 'k) \<Rightarrow> ('i, 'v) gomap \<Rightarrow> ('k, 'i) gomap \<Rightarrow> bool" where
  "indexed key tbl ix \<longleftrightarrow> (\<forall>k i. mget ix k = Some i \<longleftrightarrow> (\<exists>v. mget tbl i = Some v \<and> key v = k))"

lemma ball_mvals: "(\<forall>v \<in> set (mvals m). P v) \<longleftrightarrow> (\<forall>k v. mget m k = Some v \<longrightarrow> P v)"
  by (auto simp: in_mvals)

lemma list_ex_mvals: "list_ex P (mvals m) \<longleftrightarrow> (\<exists>k v. mget m k = Some v \<and> P v)"
  using ball_mvals[of m "\<lambda>v. \<not> P v"] by (auto simp: list_ex_iff)

lemma filed_empty [simp]: "filed ident mempty"
  by (simp add: filed_def)

lemma filed_put: "filed ident t \<Longrightarrow> ident v = k \<Longrightarrow> filed ident (mput k v t)"
  by (simp add: filed_def)

lemma filed_del: "filed ident t \<Longrightarrow> filed ident (mdel k t)"
  by (simp add: filed_def)

lemma indexed_empty [simp]: "indexed key mempty mempty"
  by (simp add: indexed_def)

lemma indexed_insert:
  assumes "indexed key tbl ix" "mget ix (key v) = None" "mget tbl i = None"
  shows "indexed key (mput i v tbl) (mput (key v) i ix)"
  using assms unfolding indexed_def by (auto split: if_splits) (metis option.distinct(1))+

lemma indexed_update:
  assumes "indexed key tbl ix" "mget tbl i = Some old" "key v = key old"
  shows "indexed key (mput i v tbl) ix"
  using assms unfolding indexed_def by auto

lemma indexed_inj:
  "indexed key tbl ix \<Longrightarrow> mget tbl i = Some v \<Longrightarrow> mget tbl j = Some w \<Longrightarrow> key v = key w \<Longrightarrow> i = j"
  unfolding indexed_def by (metis option.inject)

lemma indexed_remove:
  assumes "indexed key tbl ix" "mget tbl i = Some v"
  shows "indexed key (mdel i tbl) (mdel (key v) ix)"
  unfolding indexed_def
proof (intro allI iffI)
  fix k j
  assume "mget (mdel (key v) ix) k = Some j"
  then have k: "k \<noteq> key v" "mget ix k = Some j" by (auto split: if_splits)
  then obtain w where "mget tbl j = Some w" "key w = k"
    using assms(1) unfolding indexed_def by blast
  then show "\<exists>w. mget (mdel i tbl) j = Some w \<and> key w = k"
    using k assms(2) by auto
next
  fix k j
  assume "\<exists>w. mget (mdel i tbl) j = Some w \<and> key w = k"
  then obtain w where w: "j \<noteq> i" "mget tbl j = Some w" "key w = k" by (auto split: if_splits)
  then have "k \<noteq> key v" using indexed_inj[OF assms(1) w(2) assms(2)] by auto
  moreover have "mget ix k = Some j" using assms(1) w unfolding indexed_def by blast
  ultimately show "mget (mdel (key v) ix) k = Some j" by simp
qed

lemma indexed_free: "indexed key tbl ix \<Longrightarrow> mget tbl i = None \<Longrightarrow> mget ix k \<noteq> Some i"
  unfolding indexed_def by fastforce

section \<open>Users, tokens and memberships\<close>

definition identity_inv :: "Store \<Rightarrow> bool" where
  "identity_inv s \<longleftrightarrow> filed User_ID (users s) \<and> indexed User_Email (users s) (usersByEmail s)
     \<and> filed PAT_ID (pats s) \<and> indexed PAT_TokenHash (pats s) (patsByHash s)
     \<and> (\<forall>k x. mget (oidcIdentities s) k = Some x \<longrightarrow> mhas (users s) (Identity_UserID x)
          \<and> k = oidcIdentityKey (Identity_Issuer x) (Identity_Subject x))"

definition member_inv :: "Store \<Rightarrow> bool" where
  "member_inv s \<longleftrightarrow> (\<forall>u g m. mget2 (memberships s) u g = Some m \<longrightarrow>
     mhas (users s) u \<and> mhas (organizations s) g \<and> Member_UserID m = u \<and> Member_OrgID m = g
     \<and> NormalizeRole (Member_Role m) = Member_Role m)"

lemma identity_inv_step: "identity_step s s' \<Longrightarrow> identity_inv s \<Longrightarrow> identity_inv s'"
  by (cases rule: identity_step.cases, assumption)
    (auto simp: identity_inv_def store_ops Let_def mhas_def split: if_splits option.splits
      intro!: filed_put indexed_insert elim!: indexed_update[OF _ _ sym])

lemma member_inv_identity: "identity_step s s' \<Longrightarrow> member_inv s \<Longrightarrow> member_inv s'"
  by (cases rule: identity_step.cases, assumption)
    (auto simp: member_inv_def store_ops Let_def split: if_splits option.splits)

lemma organizations_kept: "oauth_step s s' \<Longrightarrow> mhas (organizations s) g \<Longrightarrow> mhas (organizations s') g"
  by (cases rule: oauth_step.cases, assumption) (auto simp: store_ops Let_def split: if_splits option.splits)

lemma member_inv_oauth: "oauth_step s s' \<Longrightarrow> member_inv s \<Longrightarrow> member_inv s'"
  using organizations_kept[of s s'] oauth_frame[of s s'] by (simp add: member_inv_def)

lemma identity_inv_reachable: "store_reachable s \<Longrightarrow> identity_inv s"
proof (induction rule: store_induct)
  case (identity s s')
  then show ?case by (simp add: identity_inv_step)
qed (simp add: identity_inv_def NewStore_def, (drule store_frames, simp add: identity_inv_def)+)

lemma member_inv_reachable: "store_reachable s \<Longrightarrow> member_inv s"
proof (induction rule: store_induct)
  case (identity s s')
  then show ?case by (simp add: member_inv_identity)
next
  case (oauth s s')
  then show ?case by (simp add: member_inv_oauth)
qed (simp add: member_inv_def NewStore_def, (drule store_frames, simp add: member_inv_def)+)

section \<open>Apps\<close>

text \<open>A partial key that no two records share.\<close>

definition unique_key :: "('v \<Rightarrow> 'k option) \<Rightarrow> ('i, 'v) gomap \<Rightarrow> bool" where
  "unique_key key t \<longleftrightarrow> (\<forall>i j a b k. mget t i = Some a \<longrightarrow> mget t j = Some b \<longrightarrow>
     key a = Some k \<longrightarrow> key b = Some k \<longrightarrow> i = j)"

lemma unique_key_empty [simp]: "unique_key key mempty"
  by (simp add: unique_key_def)

lemma unique_key_put:
  assumes "unique_key key t"
    and "\<And>j b k. mget t j = Some b \<Longrightarrow> j \<noteq> i \<Longrightarrow> key v = Some k \<Longrightarrow> key b \<noteq> Some k"
  shows "unique_key key (mput i v t)"
  unfolding unique_key_def
proof (intro allI impI)
  fix j j' a b k
  assume "mget (mput i v t) j = Some a" "mget (mput i v t) j' = Some b" "key a = Some k" "key b = Some k"
  then show "j = j'"
    using assms(1)[unfolded unique_key_def] assms(2) by (cases "j = i"; cases "j' = i") auto
qed

lemma unique_key_same:
  assumes "unique_key key t" "mget t i = Some old" "key v = key old"
  shows "unique_key key (mput i v t)"
  using assms(1) by (rule unique_key_put) (use assms in \<open>force simp: unique_key_def\<close>)

lemma unique_key_del: "unique_key key t \<Longrightarrow> unique_key key (mdel i t)"
  unfolding unique_key_def by (auto split: if_splits)

definition hostKey :: "App \<Rightarrow> string option" where
  "hostKey a = (if App_Hostname a = [] then None else Some (App_Hostname a))"

definition scriptKey :: "App \<Rightarrow> (string \<times> string) option" where
  "scriptKey a = map_option (\<lambda>p. (Platform_NamespaceID p, Platform_ScriptName p)) (App_Platform a)"

definition app_inv :: "Store \<Rightarrow> bool" where
  "app_inv s \<longleftrightarrow> filed App_ID (apps s) \<and> indexed App_RuntimeToken (apps s) (capabilityToApp s)
     \<and> unique_key hostKey (apps s) \<and> unique_key scriptKey (apps s)
     \<and> (\<forall>i a p. mget (apps s) i = Some a \<longrightarrow> App_Platform a = Some p \<longrightarrow>
          mhas (dispatchNamespaces s) (Platform_NamespaceID p))"

text \<open>Deleting the scripts of a namespace is a sequence of app deletions.\<close>

lemma deleteApps_induct:
  assumes "deleteApps ids s = Inr s'" "I s" "\<And>i s s'. I s \<Longrightarrow> deleteAppLocked i s = Inr s' \<Longrightarrow> I s'"
  shows "I s'"
  using assms(1,2)
proof (induction ids arbitrary: s)
  case (Cons i ids)
  then show ?case using assms(3) by (auto simp: rbind_Inr_iff)
qed simp

lemma DeleteNamespaceScripts_apps:
  "DeleteNamespaceScripts org namespace ids s = Inr s' \<Longrightarrow> deleteApps ids s = Inr s'"
  by (auto simp: DeleteNamespaceScripts_def rbind_Inr_iff split: option.splits if_splits)

lemma app_step_induct [consumes 2, case_names create update patch delete namespace rename unnamespace grants]:
  assumes "app_step s s'" "I s"
    and "\<And>s s' app. I s \<Longrightarrow> \<not> mhas (capabilityToApp s) (App_RuntimeToken app) \<Longrightarrow> CreateApp app s = Inr s' \<Longrightarrow> I s'"
    and "\<And>s s' app. I s \<Longrightarrow> UpdateApp app s = Inr s' \<Longrightarrow> I s'"
    and "\<And>s s' i input app. I s \<Longrightarrow> PatchApp i input s = Inr (app, s') \<Longrightarrow> I s'"
    and del: "\<And>s s' i. I s \<Longrightarrow> deleteAppLocked i s = Inr s' \<Longrightarrow> I s'"
    and "\<And>s s' ns. I s \<Longrightarrow> DNs_PolicyRevision ns = 1 \<Longrightarrow> CreateDispatchNamespace ns s = Inr s' \<Longrightarrow> I s'"
    and "\<And>s s' i name. I s \<Longrightarrow> RenameDispatchNamespace i name s = Inr s' \<Longrightarrow> I s'"
    and "\<And>s s' i. I s \<Longrightarrow> DeleteDispatchNamespace i s = Inr s' \<Longrightarrow> I s'"
    and "\<And>s s' i r grants now ns. I s \<Longrightarrow> StoreSetNamespaceGrants i r grants now s = Inr (ns, s') \<Longrightarrow> I s'"
  shows "I s'"
  using assms(1)
proof cases
  case (app_scripts org namespace ids)
  then show ?thesis
    using deleteApps_induct[where I = I, OF DeleteNamespaceScripts_apps] assms(2) del by blast
next
  case (app_delete i)
  then show ?thesis using del assms(2) unfolding DeleteApp_def by blast
qed (rule assms(3-10)[OF assms(2)], assumption+)+

lemma CreateApp_app_inv:
  assumes "CreateApp app s = Inr s'" "\<not> mhas (capabilityToApp s) (App_RuntimeToken app)" "app_inv s"
  shows "app_inv s'"
proof -
  have eff: "apps s' = mput (App_ID app) app (apps s)"
    "capabilityToApp s' = mput (App_RuntimeToken app) (App_ID app) (capabilityToApp s)"
    "dispatchNamespaces s' = dispatchNamespaces s" "mget (apps s) (App_ID app) = None"
    "\<forall>e \<in> set (mvals (apps s)). App_Hostname app \<noteq> [] \<longrightarrow> App_Hostname e \<noteq> App_Hostname app"
    "\<And>p. App_Platform app = Some p \<Longrightarrow> \<forall>e \<in> set (mvals (apps s)). \<not> sameScript p e"
    "\<And>p. App_Platform app = Some p \<Longrightarrow> \<exists>ns. ns = mget0 DispatchNamespace0 (dispatchNamespaces s) (Platform_NamespaceID p)
       \<and> ValidatePlatformMembership app ns = Inr ()"
    using assms(1) by (auto simp: CreateApp_def rbind_Inr_iff mhas_def list_ex_iff split: option.splits if_splits)
  have home: "mhas (dispatchNamespaces s) (Platform_NamespaceID p)" if p: "App_Platform app = Some p" for p
    using eff(7)[OF p] p
    by (auto simp: ValidatePlatformMembership_def mget0_def mhas_def DispatchNamespace0_def split: option.splits if_splits)
  have "hostKey e \<noteq> Some k" if "mget (apps s) j = Some e" "hostKey app = Some k" for j e k
    using that eff(5) by (auto simp: hostKey_def in_mvals split: if_splits)
  moreover have "scriptKey e \<noteq> Some k" if "mget (apps s) j = Some e" "scriptKey app = Some k" for j e k
    using that eff(6) by (fastforce simp: scriptKey_def sameScript_def ball_mvals)
  moreover have "mget (capabilityToApp s) (App_RuntimeToken app) = None"
    using assms(2) by (simp add: mhas_def)
  ultimately show ?thesis
    using assms(3) home unfolding app_inv_def eff(1-3)
    by (simp add: filed_put indexed_insert unique_key_put eff(4))
qed

lemma app_put_inv:
  assumes "app_inv s" "apps s' = mput (App_ID a) a (apps s)" "capabilityToApp s' = capabilityToApp s"
    "dispatchNamespaces s' = dispatchNamespaces s" "mget (apps s) (App_ID a) = Some old"
    "App_RuntimeToken a = App_RuntimeToken old" "App_Platform a = App_Platform old"
    "\<And>j e. mget (apps s) j = Some e \<Longrightarrow> j \<noteq> App_ID a \<Longrightarrow> App_Hostname a \<noteq> [] \<Longrightarrow> App_Hostname e \<noteq> App_Hostname a"
  shows "app_inv s'"
proof -
  have "unique_key hostKey (apps s')"
    unfolding assms(2) using assms(1,8)
    by (intro unique_key_put) (auto simp: app_inv_def hostKey_def split: if_splits)
  moreover have "unique_key scriptKey (apps s')"
    unfolding assms(2) using assms(1) 
    by (intro unique_key_same[OF _ assms(5)]) (simp_all add: app_inv_def scriptKey_def assms(7))
  moreover have "indexed App_RuntimeToken (apps s') (capabilityToApp s')"
    unfolding assms(2,3) using assms(1) indexed_update[OF _ assms(5,6)] by (simp add: app_inv_def)
  moreover have "mhas (dispatchNamespaces s) (Platform_NamespaceID p)" if "App_Platform a = Some p" for p
    using assms(1,5,7) that unfolding app_inv_def by simp
  ultimately show ?thesis
    using assms(1) unfolding app_inv_def assms(2,4) by (simp add: filed_put)
qed

lemma UpdateApp_app_inv:
  assumes "UpdateApp app s = Inr s'" "app_inv s"
  shows "app_inv s'"
proof -
  obtain old where old: "mget (apps s) (App_ID app) = Some old"
    "\<not> list_ex (\<lambda>c. App_ID c \<noteq> App_ID app \<and> App_Hostname app \<noteq> [] \<and> App_Hostname c = App_Hostname app) (mvals (apps s))"
    "s' = s\<lparr>apps := mput (App_ID app) (app\<lparr>App_Platform := App_Platform old,
       App_RuntimeToken := App_RuntimeToken old, App_CreatedAt := App_CreatedAt old\<rparr>) (apps s)\<rparr>"
    using assms(1) by (auto simp: UpdateApp_def split: option.splits if_splits)
  have f: "filed App_ID (apps s)" using assms(2) by (simp add: app_inv_def)
  show ?thesis
    by (rule app_put_inv[OF assms(2), where old = old
          and a = "app\<lparr>App_Platform := App_Platform old, App_RuntimeToken := App_RuntimeToken old, App_CreatedAt := App_CreatedAt old\<rparr>"])
      (use old f in \<open>auto simp: list_ex_mvals filed_def\<close>)
qed

lemma PatchApp_app_inv:
  assumes "PatchApp i input s = Inr (app, s')" "app_inv s"
  shows "app_inv s'"
proof -
  obtain old where old: "mget (apps s) i = Some old" "s' = s\<lparr>apps := mput i app (apps s)\<rparr>"
    "App_ID app = App_ID old" "App_RuntimeToken app = App_RuntimeToken old" "App_Platform app = App_Platform old"
    "App_Hostname app = App_Hostname old \<or>
       \<not> list_ex (\<lambda>c. App_ID c \<noteq> i \<and> App_Hostname c = App_Hostname app) (mvals (apps s))"
    using assms(1) by (auto simp: PatchApp_def rbind_Inr_iff Let_def split: option.splits if_splits)
  have f: "filed App_ID (apps s)" "unique_key hostKey (apps s)" using assms(2) by (simp_all add: app_inv_def)
  then have i: "App_ID app = i" using old by (simp add: filed_def)
  have "App_Hostname e \<noteq> App_Hostname app"
    if e: "mget (apps s) j = Some e" "j \<noteq> i" "App_Hostname app \<noteq> []" for j e
  proof
    assume h: "App_Hostname e = App_Hostname app"
    have "App_ID e = j" using f(1) e(1) by (simp add: filed_def)
    then have "App_Hostname app = App_Hostname old"
      using old(6) h e by (auto simp: list_ex_iff in_mvals)
    then have "hostKey e = Some (App_Hostname old)" "hostKey old = Some (App_Hostname old)"
      using h e(3) by (simp_all add: hostKey_def)
    then show False
      using f(2) e(1,2) old(1) unfolding unique_key_def by blast
  qed
  then show ?thesis
    using old i by (intro app_put_inv[OF assms(2), where a = app and old = old]) auto
qed

lemma deleteAppLocked_app_inv:
  assumes "deleteAppLocked i s = Inr s'" "app_inv s"
  shows "app_inv s'"
proof -
  obtain old where "mget (apps s) i = Some old" "apps s' = mdel i (apps s)"
    "capabilityToApp s' = mdel (App_RuntimeToken old) (capabilityToApp s)"
    "dispatchNamespaces s' = dispatchNamespaces s"
    using assms(1) by (auto simp: deleteAppLocked_def split: option.splits)
  then show ?thesis
    using assms(2) by (auto simp: app_inv_def indexed_remove filed_del unique_key_del split: if_splits)
qed

lemma app_inv_step: "app_step s s' \<Longrightarrow> app_inv s \<Longrightarrow> app_inv s'"
proof (induction rule: app_step_induct)
  case (unnamespace s s' i)
  then have "apps s' = apps s" "capabilityToApp s' = capabilityToApp s"
    "dispatchNamespaces s' = mdel i (dispatchNamespaces s)"
    "\<forall>a \<in> set (mvals (apps s)). \<forall>p. App_Platform a = Some p \<longrightarrow> Platform_NamespaceID p \<noteq> i"
    by (auto simp: DeleteDispatchNamespace_def list_ex_iff split: option.splits if_splits)
  then show ?case using unnamespace(1) by (auto simp: app_inv_def in_mvals)
next
  case (namespace s s' ns)
  then show ?case by (auto simp: app_inv_def CreateDispatchNamespace_def split: if_splits)
next
  case (rename s s' i name)
  then show ?case by (auto simp: app_inv_def RenameDispatchNamespace_def mhas_def split: if_splits option.splits)
next
  case (grants s s' i r grants now ns)
  then show ?case by (auto simp: app_inv_def StoreSetNamespaceGrants_def mhas_def Let_def split: if_splits option.splits)
qed (use CreateApp_app_inv UpdateApp_app_inv PatchApp_app_inv deleteAppLocked_app_inv in blast)+

lemma app_inv_reachable: "store_reachable s \<Longrightarrow> app_inv s"
proof (induction rule: store_induct)
  case (app s s')
  then show ?case by (simp add: app_inv_step)
qed (simp add: app_inv_def NewStore_def, (drule store_frames, simp add: app_inv_def)+)

section \<open>Nothing outlives its app\<close>

text \<open>Every key of \<open>m\<close> is a key of \<open>t\<close>; every record of \<open>m\<close> names a key of \<open>t\<close>.\<close>

definition owned :: "('k, 'a) gomap \<Rightarrow> ('k, 'b) gomap \<Rightarrow> bool" where
  "owned t m \<longleftrightarrow> (\<forall>i. mhas m i \<longrightarrow> mhas t i)"

definition owned_by :: "('b \<Rightarrow> 'k) \<Rightarrow> ('k, 'a) gomap \<Rightarrow> ('i, 'b) gomap \<Rightarrow> bool" where
  "owned_by f t m \<longleftrightarrow> (\<forall>i v. mget m i = Some v \<longrightarrow> mhas t (f v))"

lemma mhas_put2: "mhas (mput2 a b v m) k \<longleftrightarrow> k = a \<or> mhas m k"
  by (simp add: mput2_def)

lemma mhas_del2: "mhas (mdel2 a b m) k \<longleftrightarrow> mhas m k"
  by (auto simp: mdel2_def mhas_def split: option.split)

lemma mget2_mhas: "mget2 m a b = Some v \<Longrightarrow> mhas m a"
  by (auto simp: mget0_def mhas_def split: option.splits)

lemma mget_mhas: "mget m k = Some v \<Longrightarrow> mhas m k"
  by (simp add: mhas_def)

lemma owned_simps [simp]:
  "owned t mempty" "owned_by f t mempty"
  "owned t m \<Longrightarrow> mhas t i \<Longrightarrow> owned t (mput i v m)" "owned t n \<Longrightarrow> mhas t i \<Longrightarrow> owned t (mput2 i j v n)"
  "owned t m \<Longrightarrow> owned t (mdel i m)" "owned t (mdel2 i j n) = owned t n"
  "owned t m \<Longrightarrow> owned (mput i w t) m" "owned t m \<Longrightarrow> owned (mdel i t) (mdel i m)"
  by (auto simp: owned_def owned_by_def mhas_put2 mhas_del2)

lemma owned_by_simps [simp]:
  "owned_by f t m \<Longrightarrow> mhas t (f v) \<Longrightarrow> owned_by f t (mput i v m)"
  "owned_by f t m \<Longrightarrow> owned_by f (mput i w t) m"
  "owned_by f t m \<Longrightarrow> owned_by f (mdel i t) (mfilter (\<lambda>(_, v). f v \<noteq> i) m)"
  by (auto simp: owned_by_def mget_filter split: option.splits if_splits)

lemma ownedD: "owned t m \<Longrightarrow> mget m i = Some v \<Longrightarrow> mhas t i"
  by (simp add: owned_def mhas_def)

lemma owned2D: "owned t m \<Longrightarrow> mget2 m i j = Some v \<Longrightarrow> mhas t i"
  by (simp add: owned_def mget2_mhas)

lemma owned_same [simp]:
  "mget m i = Some w \<Longrightarrow> owned t m \<Longrightarrow> owned t (mput i v m)"
  "mget2 n i j = Some w' \<Longrightarrow> owned t n \<Longrightarrow> owned t (mput2 i j' v' n)"
  using ownedD[of t m i w] owned2D[of t n i j w'] by simp_all

definition owned_inv :: "Store \<Rightarrow> bool" where
  "owned_inv s \<longleftrightarrow> owned (apps s) (secrets s) \<and> owned (apps s) (deployments s) \<and> owned (apps s) (active s)
     \<and> owned (apps s) (varsUpdates s) \<and> owned (apps s) (workerPublications s) \<and> owned (apps s) (management s)
     \<and> owned_by (\<lambda>a. Dep_AppID (Art_Deployment a)) (apps s) (artifacts s)
     \<and> owned_by Pub_AppID (apps s) (publications s)"

lemma owned_inv_app: "app_step s s' \<Longrightarrow> owned_inv s \<Longrightarrow> owned_inv s'"
proof (induction rule: app_step_induct)
  case (create s s' app)
  then show ?case by (auto simp: owned_inv_def CreateApp_def rbind_Inr_iff split: if_splits option.splits)
next
  case (update s s' app)
  then show ?case by (auto simp: owned_inv_def UpdateApp_def split: if_splits option.splits)
next
  case (patch s s' i input app)
  then have "owned_inv s" "\<exists>a. s' = s\<lparr>apps := mput i a (apps s)\<rparr>"
    by (auto simp: PatchApp_def rbind_Inr_iff Let_def split: if_splits option.splits)
  then show ?case by (auto simp: owned_inv_def)
next
  case (delete s s' i)
  then show ?case by (auto simp: owned_inv_def deleteAppLocked_def split: option.splits if_splits)
next
  case (namespace s s' ns)
  then show ?case by (auto simp: owned_inv_def CreateDispatchNamespace_def split: if_splits)
next
  case (rename s s' i name)
  then show ?case by (auto simp: owned_inv_def RenameDispatchNamespace_def split: if_splits option.splits)
next
  case (unnamespace s s' i)
  then show ?case by (auto simp: owned_inv_def DeleteDispatchNamespace_def split: if_splits option.splits)
next
  case (grants s s' i r grants now ns)
  then show ?case by (auto simp: owned_inv_def StoreSetNamespaceGrants_def Let_def split: if_splits option.splits)
qed

lemma findDeployment:
  "find (\<lambda>(_, ds). Q ds) (mentries m) = Some (appID, ds) \<Longrightarrow> mget m appID = Some ds \<and> Q ds"
  by (auto simp: find_Some_iff mem_entries[symmetric]) (metis nth_mem)

lemma DeleteDeployment_effect:
  assumes "DeleteDeployment i s = Inr s'"
  obtains appID ds where "mget (deployments s) appID = Some ds" "i \<in> Dep_ID ` set ds"
    "deployments s' = mput appID (removeFirst i ds) (deployments s)"
    "active s' = active s \<and> mget (active s) appID = None
     \<or> active s' = mdel appID (active s) \<and> mhas (active s) appID
     \<or> (\<exists>t. mget (active s) appID = Some t \<and> active s' = mput appID (mdel i t) (active s))"
    "s' = s\<lparr>deployments := deployments s', active := active s'\<rparr>"
  using assms by (auto simp: DeleteDeployment_def Let_def list_ex_iff mhas_def split: option.splits if_splits
      dest!: findDeployment)

lemma pruneLoop_only:
  "pruneLoop now limit us count s = (n, s') \<Longrightarrow> s' = s\<lparr>assetUploads := assetUploads s'\<rparr>"
  by (induction now limit us count s rule: pruneLoop.induct) (auto simp: Let_def split: if_splits)

lemma PruneAssetUploadSessions_only:
  assumes "PruneAssetUploadSessions now limit s = Inr (n, s')"
  obtains u where "s' = s\<lparr>assetUploads := u\<rparr>"
  using that assms pruneLoop_only by (fastforce simp: PruneAssetUploadSessions_def rbind_Inr_iff)

lemma owned_inv_deploy: "deploy_step s s' \<Longrightarrow> owned_inv s \<Longrightarrow> owned_inv s'"
proof (induction rule: deploy_step.induct)
  case (deploy_secret appID secret s s')
  then show ?case
    by (auto simp: owned_inv_def PutSecret_def Let_def split: if_splits option.splits)
next
  case (deploy_unsecret appID name s s')
  then show ?case
    by (auto simp: owned_inv_def DeleteSecret_def Let_def split: if_splits option.splits)
next
  case (deploy_activate d s s')
  then show ?case
    by (auto simp: owned_inv_def Activate_def advancePublication_def Let_def split: if_splits option.splits)
next
  case (deploy_traffic appID traffic s s')
  then show ?case
    by (auto simp: owned_inv_def SetActiveTraffic_def advancePublication_def rbind_Inr_iff Let_def split: if_splits option.splits)
next
  case (deploy_active appID deploymentID s s')
  then show ?case
    by (auto simp: owned_inv_def SetActive_def SetActiveTraffic_def advancePublication_def rbind_Inr_iff Let_def split: if_splits option.splits)
next
  case (deploy_delete i s s')
  then show ?case
    by (elim DeleteDeployment_effect) (auto simp: owned_inv_def)
next
  case (deploy_ack appID generation s s')
  then show ?case
    by (auto simp: owned_inv_def AcknowledgePublication_def Let_def split: if_splits option.splits)
next
  case (deploy_begin_vars op nxt expected s s')
  then show ?case
    by (auto simp: owned_inv_def BeginVarsUpdate_def advancePublication_def Let_def split: if_splits option.splits)
next
  case (deploy_finish_vars appID key status s s')
  then show ?case
    by (auto simp: owned_inv_def FinishVarsUpdate_def Let_def split: if_splits option.splits)
next
  case (deploy_artifact canonicalPayload artifact s s')
  then show ?case
    by (auto simp: owned_inv_def PutDeploymentArtifact_def cloneArtifact_def Let_def split: if_splits option.splits)
next
  case (deploy_store d s s')
  then show ?case
    by (auto simp: owned_inv_def StoreDeployment_def Let_def split: if_splits option.splits)
next
  case (deploy_publication p s s')
  then show ?case
    by (auto simp: owned_inv_def SavePublication_def Let_def split: if_splits option.splits)
next
  case (deploy_upload v expected s s')
  then show ?case
    by (auto simp: owned_inv_def SaveAssetUploadSession_def Let_def split: if_splits option.splits)
next
  case (deploy_prune now limit s n s')
  then show ?case
    by (elim PruneAssetUploadSessions_only) (simp add: owned_inv_def)
next
  case (deploy_management state expected s s')
  then show ?case
    by (auto simp: owned_inv_def CommitScriptManagementState_def Let_def mget_mhas split: if_splits option.splits)
qed

lemma owned_inv_reachable: "store_reachable s \<Longrightarrow> owned_inv s"
proof (induction rule: store_induct)
  case (app s s')
  then show ?case by (simp add: owned_inv_app)
next
  case (deploy s s')
  then show ?case by (simp add: owned_inv_deploy)
qed (simp add: owned_inv_def NewStore_def, (drule store_frames, simp add: owned_inv_def)+)

end
