(* ===== verification/Store_Routing.thy ===== *)
theory Store_Routing
  imports Store_Invariants
begin

text \<open>
  Routing: the active deployments of an app are among its stored deployments, the desired
  publication of a worker lists the traffic that is active, generations only grow and an
  acknowledgement never runs ahead. Policies: the history of a dispatch namespace is complete.
\<close>

section \<open>Active deployments are stored deployments\<close>

definition idsOf :: "Deployment list \<Rightarrow> string set" where
  "idsOf ds = Dep_ID ` set ds"

definition routed :: "(string, Deployment list) gomap \<Rightarrow> (string, (string, int) gomap) gomap \<Rightarrow> bool" where
  "routed ds act \<longleftrightarrow> (\<forall>a t i. mget act a = Some t \<longrightarrow> mhas t i \<longrightarrow> i \<in> idsOf (mget0 [] ds a))"

lemma idsOf_simps [simp]: "idsOf [] = {}" "idsOf (ds @ es) = idsOf ds \<union> idsOf es" "idsOf [d] = {Dep_ID d}"
  by (auto simp: idsOf_def)

lemma idsOf_removeFirst: "idsOf (removeFirst i ds) \<supseteq> idsOf ds - {i}"
  by (induction ds) (auto simp: idsOf_def)

lemma trafficMap_ids:
  "trafficMap ds items nxt = Inr t \<Longrightarrow> mhas t i \<Longrightarrow> mhas nxt i \<or> i \<in> idsOf ds"
proof (induction ds items nxt rule: trafficMap.induct)
  case (2 ds item items nxt)
  have "Traffic_ID item \<in> idsOf ds"
    using 2(2) by (force simp: list_ex_iff idsOf_def split: if_splits)
  then show ?case using 2 by (auto split: if_splits)
qed simp

lemma routed_intros:
  "routed mempty mempty"
  "routed ds act \<Longrightarrow> routed (mput a (mget0 [] ds a @ [d]) ds) act"
  "routed ds act \<Longrightarrow> routed ds (mdel a act)"
  "routed ds act \<Longrightarrow> routed (mdel a ds) (mdel a act)"
  "routed ds act \<Longrightarrow> (\<And>i. mhas t i \<Longrightarrow> i \<in> idsOf (mget0 [] ds a)) \<Longrightarrow> routed ds (mput a t act)"
  "routed ds act \<Longrightarrow> routed (mput a (mget0 [] ds a @ [d]) ds) (mput a (mput (Dep_ID d) 100 mempty) act)"
  by (auto simp: routed_def split: if_splits)

lemma routed_remove:
  assumes "routed ds act" "mget ds a = Some es" "\<And>t'. mget act' a = Some t' \<Longrightarrow> \<exists>t. mget act a = Some t \<and> t' = mdel i t"
    and "\<And>b. b \<noteq> a \<Longrightarrow> mget act' b = mget act b"
  shows "routed (mput a (removeFirst i es) ds) act'"
  unfolding routed_def
proof (intro allI impI)
  fix b t j
  assume t: "mget act' b = Some t" "mhas t j"
  show "j \<in> idsOf (mget0 [] (mput a (removeFirst i es) ds) b)"
  proof (cases "b = a")
    case True
    then obtain u where u: "mget act a = Some u" "t = mdel i u" using assms(3) t by blast
    then have "j \<in> idsOf es" "j \<noteq> i"
      using assms(1)[unfolded routed_def, rule_format, OF u(1), of j] assms(2) t by (simp_all add: mget0_def)
    then show ?thesis using True idsOf_removeFirst by auto
  next
    case False
    then show ?thesis using assms(1,4) t by (simp add: routed_def)
  qed
qed

lemma routed_DeleteDeployment:
  assumes "DeleteDeployment i s = Inr s'" "routed (deployments s) (active s)"
  shows "routed (deployments s') (active s')"
proof -
  from assms(1) obtain a es where a: "mget (deployments s) a = Some es"
    "deployments s' = mput a (removeFirst i es) (deployments s)"
    "active s' = active s \<and> mget (active s) a = None \<or> active s' = mdel a (active s) \<and> mhas (active s) a
     \<or> (\<exists>t. mget (active s) a = Some t \<and> active s' = mput a (mdel i t) (active s))"
    by (rule DeleteDeployment_effect)
  show ?thesis
    unfolding a(2) using a(3) by (intro routed_remove[OF assms(2) a(1)]) auto
qed

lemma SetActiveTraffic_cases:
  assumes "SetActiveTraffic appID traffic s = Inr s'"
  obtains (none) "traffic = []" "mhas (apps s) appID" "s' = advancePublication appID (s\<lparr>active := mdel appID (active s)\<rparr>)"
  | (some) t where "traffic \<noteq> []" "mhas (apps s) appID" "trafficMap (mget0 [] (deployments s) appID) traffic mempty = Inr t"
      "s' = advancePublication appID (s\<lparr>active := mput appID t (active s)\<rparr>)"
  using assms by (auto simp: SetActiveTraffic_def rbind_Inr_iff split: if_splits)

lemma SetActive_traffic: "\<exists>traffic. SetActive appID i s = SetActiveTraffic appID traffic s"
  by (auto simp: SetActive_def)

lemma advance_fields [simp]:
  "deployments (advancePublication a s) = deployments s" "active (advancePublication a s) = active s"
  "apps (advancePublication a s) = apps s"
  by (simp_all add: advancePublication_def Let_def)

lemma routed_traffic:
  assumes "SetActiveTraffic appID traffic s = Inr s'" "routed (deployments s) (active s)"
  shows "routed (deployments s') (active s')"
  using assms(1)
proof (cases rule: SetActiveTraffic_cases)
  case (some t)
  then show ?thesis
    using assms(2) trafficMap_ids[OF some(3)] by (auto intro: routed_intros)
qed (use assms(2) in \<open>simp add: routed_intros\<close>)

definition routing_inv :: "Store \<Rightarrow> bool" where
  "routing_inv s \<longleftrightarrow> routed (deployments s) (active s)"

lemma routing_inv_app: "app_step s s' \<Longrightarrow> routing_inv s \<Longrightarrow> routing_inv s'"
  by (induction rule: app_step_induct)
    (auto simp: routing_inv_def routed_intros CreateApp_def UpdateApp_def PatchApp_def deleteAppLocked_def
      CreateDispatchNamespace_def RenameDispatchNamespace_def DeleteDispatchNamespace_def
      StoreSetNamespaceGrants_def Let_def rbind_Inr_iff split: if_splits option.splits)

lemma routing_inv_deploy: "deploy_step s s' \<Longrightarrow> routing_inv s \<Longrightarrow> routing_inv s'"
proof (induction rule: deploy_step.induct)
  case (deploy_traffic appID traffic s s')
  then show ?case unfolding routing_inv_def by (rule routed_traffic)
next
  case (deploy_active appID deploymentID s s')
  then show ?case unfolding routing_inv_def using SetActive_traffic routed_traffic by metis
next
  case (deploy_delete i s s')
  then show ?case unfolding routing_inv_def by (rule routed_DeleteDeployment)
next
  case (deploy_prune now limit s n s')
  then show ?case by (elim PruneAssetUploadSessions_only) (simp add: routing_inv_def)
qed (auto simp: routing_inv_def routed_intros PutSecret_def DeleteSecret_def Activate_def
    AcknowledgePublication_def BeginVarsUpdate_def FinishVarsUpdate_def PutDeploymentArtifact_def
    StoreDeployment_def SavePublication_def SaveAssetUploadSession_def CommitScriptManagementState_def
    Let_def split: if_splits option.splits)

lemma routing_inv_reachable: "store_reachable s \<Longrightarrow> routing_inv s"
proof (induction rule: store_induct)
  case (app s s')
  then show ?case by (simp add: routing_inv_app)
next
  case (deploy s s')
  then show ?case by (simp add: routing_inv_deploy)
qed (simp add: routing_inv_def NewStore_def routed_intros, (drule store_frames, simp add: routing_inv_def)+)

section \<open>Worker publications\<close>

text \<open>The publication of a worker lists the traffic that is active, or nothing was ever routed.\<close>

definition trafficPairs :: "DeploymentTraffic list \<Rightarrow> (string \<times> int) list" where
  "trafficPairs ts = map (\<lambda>t. (Traffic_ID t, Traffic_TrafficPercent t)) ts"

fun synced :: "WorkerPublication option \<Rightarrow> (string, int) gomap option \<Rightarrow> bool" where
  "synced None t = (t = None)"
| "synced (Some p) t = (trafficPairs (WPub_Traffic p) = (case t of None \<Rightarrow> [] | Some m \<Rightarrow> mentries m))"

definition published_inv :: "(string, WorkerPublication) gomap \<Rightarrow> bool" where
  "published_inv pubs \<longleftrightarrow> (\<forall>a p. mget pubs a = Some p \<longrightarrow>
     WPub_AppID p = a \<and> WPub_PublishedGeneration p \<le> WPub_Generation p)"

lemma advance_pub:
  "workerPublications (advancePublication a s) = mput a (mget0 WorkerPublication0 (workerPublications s) a
     \<lparr>WPub_AppID := a, WPub_Generation := WPub_Generation (mget0 WorkerPublication0 (workerPublications s) a) + 1,
      WPub_Traffic := map (\<lambda>(i, percent). \<lparr>Traffic_ID = i, Traffic_TrafficPercent = percent\<rparr>)
        (mentries (mget0 mempty (active s) a))\<rparr>) (workerPublications s)"
  by (simp add: advancePublication_def Let_def)

lemma trafficPairs_entries [simp]:
  "trafficPairs (map (\<lambda>(i, percent). \<lparr>Traffic_ID = i, Traffic_TrafficPercent = percent\<rparr>) es) = es"
  by (induction es) (auto simp: trafficPairs_def)

lemma advance_published:
  "published_inv (workerPublications s) \<Longrightarrow> published_inv (workerPublications (advancePublication a s))"
  by (auto simp: advance_pub published_inv_def mget0_def WorkerPublication0_def split: option.splits intro: le_SucI)


definition publication_inv :: "Store \<Rightarrow> bool" where
  "publication_inv s \<longleftrightarrow> published_inv (workerPublications s)"

lemma published_simps [simp]:
  "published_inv mempty" "published_inv p \<Longrightarrow> published_inv (mdel a p)"
  by (simp_all add: published_inv_def)

lemma advance_inv [simp]: "publication_inv s \<Longrightarrow> workerPublications s1 = workerPublications s \<Longrightarrow>
    published_inv (workerPublications (advancePublication a s1))"
  using advance_published[of s1 a] by (simp add: publication_inv_def)

lemma publication_inv_app: "app_step s s' \<Longrightarrow> publication_inv s \<Longrightarrow> publication_inv s'"
  by (induction rule: app_step_induct)
    (auto simp: publication_inv_def CreateApp_def UpdateApp_def PatchApp_def deleteAppLocked_def
      CreateDispatchNamespace_def RenameDispatchNamespace_def DeleteDispatchNamespace_def
      StoreSetNamespaceGrants_def Let_def rbind_Inr_iff split: if_splits option.splits)

lemma SetActiveTraffic_publication: "SetActiveTraffic a traffic s = Inr s' \<Longrightarrow> publication_inv s \<Longrightarrow> publication_inv s'"
  by (erule SetActiveTraffic_cases) (simp_all add: publication_inv_def advance_published)

lemma AcknowledgePublication_publication:
  "AcknowledgePublication a g s = Inr s' \<Longrightarrow> publication_inv s \<Longrightarrow> publication_inv s'"
  by (auto simp: AcknowledgePublication_def publication_inv_def published_inv_def split: option.splits if_splits)

lemma publication_inv_deploy: "deploy_step s s' \<Longrightarrow> publication_inv s \<Longrightarrow> publication_inv s'"
proof (induction rule: deploy_step.induct)
  case (deploy_traffic appID traffic s s')
  then show ?case by (rule SetActiveTraffic_publication)
next
  case (deploy_active appID deploymentID s s')
  then show ?case using SetActive_traffic SetActiveTraffic_publication by metis
next
  case (deploy_delete i s s')
  from deploy_delete(1) have "workerPublications s' = workerPublications s"
    by (auto simp: DeleteDeployment_def Let_def split: option.splits if_splits)
  then show ?case using deploy_delete(2) by (simp add: publication_inv_def)
next
  case (deploy_ack appID generation s s')
  then show ?case by (rule AcknowledgePublication_publication)
next
  case (deploy_prune now limit s n s')
  then show ?case by (elim PruneAssetUploadSessions_only) (simp add: publication_inv_def)
qed (auto simp: publication_inv_def advance_published PutSecret_def DeleteSecret_def Activate_def
    BeginVarsUpdate_def FinishVarsUpdate_def PutDeploymentArtifact_def
    StoreDeployment_def SavePublication_def SaveAssetUploadSession_def CommitScriptManagementState_def
    Let_def split: if_splits option.splits)

lemma publication_inv_reachable: "store_reachable s \<Longrightarrow> publication_inv s"
proof (induction rule: store_induct)
  case (app s s')
  then show ?case by (simp add: publication_inv_app)
next
  case (deploy s s')
  then show ?case by (simp add: publication_inv_deploy)
qed (simp add: publication_inv_def NewStore_def, (drule store_frames, simp add: publication_inv_def)+)

subsection \<open>Routing changes are published\<close>

definition in_sync :: "Store \<Rightarrow> bool" where
  "in_sync s \<longleftrightarrow> (\<forall>a. synced (mget (workerPublications s) a) (mget (active s) a))"

lemma in_syncD: "in_sync s \<Longrightarrow> synced (mget (workerPublications s) a) (mget (active s) a)"
  by (simp add: in_sync_def)

lemma advance_in_sync:
  assumes "in_sync s" "workerPublications s1 = workerPublications s"
    "\<And>b. b \<noteq> a \<Longrightarrow> mget (active s1) b = mget (active s) b"
  shows "in_sync (advancePublication a s1)"
  unfolding in_sync_def
proof
  fix b
  show "synced (mget (workerPublications (advancePublication a s1)) b) (mget (active (advancePublication a s1)) b)"
    using in_syncD[OF assms(1), of b] assms(2,3)
    by (cases "b = a") (simp_all add: advance_pub mget0_def split: option.split)
qed

lemma SetActiveTraffic_in_sync: "SetActiveTraffic a traffic s = Inr s' \<Longrightarrow> in_sync s \<Longrightarrow> in_sync s'"
  by (erule SetActiveTraffic_cases) (auto intro: advance_in_sync)

lemma in_sync_keep:
  "in_sync s \<Longrightarrow> workerPublications s' = workerPublications s \<Longrightarrow> active s' = active s \<Longrightarrow> in_sync s'"
  by (simp add: in_sync_def)

lemma AcknowledgePublication_in_sync:
  assumes "AcknowledgePublication a g s = Inr s'" "in_sync s"
  shows "in_sync s'"
proof -
  have "active s' = active s" "\<And>b. (mget (workerPublications s') b = mget (workerPublications s) b)
      \<or> (\<exists>p n. mget (workerPublications s) b = Some p
           \<and> mget (workerPublications s') b = Some (p\<lparr>WPub_PublishedGeneration := n\<rparr>))"
    using assms(1) by (auto simp: AcknowledgePublication_def split: option.splits if_splits)
  then show ?thesis using in_syncD[OF assms(2)] unfolding in_sync_def
    by (metis WorkerPublication.select_convs(4) WorkerPublication.surjective WorkerPublication.update_convs(3) synced.simps(2))
qed

lemma mdel_absent: "mget m k = None \<Longrightarrow> mdel k m = m"
  by (rule DAList.alist_ext) (simp add: mget_entries map_of_eq_None_iff delete_id)

text \<open>Deleting a deployment that gets no traffic changes no routing.\<close>

lemma DeleteDeployment_in_sync:
  assumes "DeleteDeployment i s = Inr s'" "in_sync s" "\<And>a. mget2 (active s) a i = None"
  shows "in_sync s'"
proof -
  have keep: "mdel i t = t" if "mget (active s) a = Some t" for a t
    using assms(3)[of a] that by (simp add: mget0_def mdel_absent)
  then have "workerPublications s' = workerPublications s"
    "\<And>b. mget (active s') b = mget (active s) b \<or> (mget (active s') b = None \<and> (\<exists>t. mget (active s) b = Some t \<and> mentries t = []))"
    using assms(1) by (auto simp: DeleteDeployment_def Let_def mlen_def split: option.splits if_splits)
  then show ?thesis
    using in_syncD[OF assms(2)] unfolding in_sync_def
    by (metis (no_types, lifting) list.simps(8) not_None_eq option.simps(4,5) synced.simps)
qed

lemma in_sync_app: "app_step s s' \<Longrightarrow> in_sync s \<Longrightarrow> in_sync s'"
proof (induction rule: app_step_induct)
  case (delete s s' i)
  then have "workerPublications s' = mdel i (workerPublications s)" "active s' = mdel i (active s)"
    by (auto simp: deleteAppLocked_def split: option.splits)
  then show ?case using delete(1) by (simp add: in_sync_def)
qed (auto simp: in_sync_def CreateApp_def UpdateApp_def PatchApp_def
    CreateDispatchNamespace_def RenameDispatchNamespace_def DeleteDispatchNamespace_def
    StoreSetNamespaceGrants_def Let_def rbind_Inr_iff split: if_splits option.splits)

text \<open>Every step of a deployment method but the deletion of a routed deployment.\<close>

lemma in_sync_deploy:
  "deploy_step s s' \<Longrightarrow> in_sync s \<Longrightarrow>
    (\<And>i a. DeleteDeployment i s = Inr s' \<Longrightarrow> mget2 (active s) a i = None) \<Longrightarrow> in_sync s'"
proof (induction rule: deploy_step.induct)
  case (deploy_traffic appID traffic s s')
  then show ?case by (blast intro: SetActiveTraffic_in_sync)
next
  case (deploy_active appID deploymentID s s')
  then show ?case using SetActive_traffic SetActiveTraffic_in_sync by metis
next
  case (deploy_delete i s s')
  then show ?case by (blast intro: DeleteDeployment_in_sync)
next
  case (deploy_ack appID generation s s')
  then show ?case by (blast intro: AcknowledgePublication_in_sync)
next
  case (deploy_activate d s s')
  then show ?case by (auto simp: Activate_def Let_def split: if_splits intro: advance_in_sync)
next
  case (deploy_begin_vars op nxt expected s s')
  let ?a = "VarsOp_AppID op"
  let ?s1 = "s\<lparr>deployments := mput ?a (mget0 [] (deployments s) ?a @ [nxt]) (deployments s),
               active := mput ?a (mput (Dep_ID nxt) 100 mempty) (active s)\<rparr>"
  have "in_sync (advancePublication ?a ?s1)"
    by (rule advance_in_sync[OF deploy_begin_vars(2)]) simp_all
  moreover have "workerPublications s' = workerPublications (advancePublication ?a ?s1)" "active s' = active ?s1"
    using deploy_begin_vars(1) by (auto simp: BeginVarsUpdate_def Let_def split: if_splits)
  ultimately show ?case by (simp add: in_sync_def)
next
  case (deploy_prune now limit s n s')
  then show ?case by (elim PruneAssetUploadSessions_only) (simp add: in_sync_def)
qed (auto simp: PutSecret_def DeleteSecret_def FinishVarsUpdate_def PutDeploymentArtifact_def
    StoreDeployment_def SavePublication_def SaveAssetUploadSession_def CommitScriptManagementState_def
    Let_def split: if_splits option.splits elim!: in_sync_keep)

lemma in_sync_step:
  assumes "store_step s s'" "in_sync s" "\<And>i a. DeleteDeployment i s = Inr s' \<Longrightarrow> mget2 (active s) a i = None"
  shows "in_sync s'"
  using assms(1)
proof cases
  case by_app
  then show ?thesis using in_sync_app assms(2) by blast
next
  case by_deploy
  then show ?thesis using in_sync_deploy assms(2,3) by blast
qed ((drule store_frames), use assms(2) in \<open>simp add: in_sync_def\<close>)+

section \<open>Namespace policies\<close>

text \<open>The history of a namespace holds every revision from 1 to the current one, and its last
  entry is the current policy.\<close>

definition history_ok :: "string \<Rightarrow> DispatchNamespace \<Rightarrow> NamespacePolicy list \<Rightarrow> bool" where
  "history_ok i ns ps \<longleftrightarrow> DNs_ID ns = i \<and> ps \<noteq> [] \<and> DNs_PolicyRevision ns = int (length ps)
     \<and> map Policy_Revision ps = map int [1..<Suc (length ps)]
     \<and> list_all (\<lambda>p. Policy_NamespaceID p = i) ps \<and> Policy_Grants (last ps) = DNs_Grants ns"

definition nameKey :: "DispatchNamespace \<Rightarrow> (string \<times> string) option" where
  "nameKey ns = Some (DNs_OrgID ns, DNs_Name ns)"

definition policy_inv :: "Store \<Rightarrow> bool" where
  "policy_inv s \<longleftrightarrow> unique_key nameKey (dispatchNamespaces s)
     \<and> (\<forall>i ns. mget (dispatchNamespaces s) i = Some ns \<longrightarrow>
          (\<exists>ps. mget (namespacePolicies s) i = Some ps \<and> history_ok i ns ps))
     \<and> (\<forall>i. mhas (namespacePolicies s) i \<longrightarrow> mhas (dispatchNamespaces s) i)"

lemma history_ok_append:
  "history_ok i ns ps \<Longrightarrow> history_ok i (ns\<lparr>DNs_PolicyRevision := DNs_PolicyRevision ns + 1, DNs_Grants := grants\<rparr>)
     (ps @ [\<lparr>Policy_NamespaceID = i, Policy_Revision = DNs_PolicyRevision ns + 1,
       Policy_Grants = grants, Policy_CreatedAt = now\<rparr>])"
  by (simp add: history_ok_def)

lemma policy_inv_app: "app_step s s' \<Longrightarrow> policy_inv s \<Longrightarrow> policy_inv s'"
proof (induction rule: app_step_induct)
  case (namespace s s' ns)
  then have eff: "dispatchNamespaces s' = mput (DNs_ID ns) ns (dispatchNamespaces s)"
    "namespacePolicies s' = mput (DNs_ID ns) [\<lparr>Policy_NamespaceID = DNs_ID ns, Policy_Revision = 1,
       Policy_Grants = DNs_Grants ns, Policy_CreatedAt = DNs_CreatedAt ns\<rparr>] (namespacePolicies s)"
    "\<And>j e. mget (dispatchNamespaces s) j = Some e \<Longrightarrow> \<not> (DNs_OrgID e = DNs_OrgID ns \<and> DNs_Name e = DNs_Name ns)"
    by (auto simp: CreateDispatchNamespace_def list_ex_mvals split: if_splits)
  have "unique_key nameKey (dispatchNamespaces s')"
    unfolding eff(1) using namespace(1) eff(3) by (intro unique_key_put) (auto simp: policy_inv_def nameKey_def)
  then show ?case
    using namespace(1,2) unfolding policy_inv_def eff(1,2) by (auto simp: history_ok_def)
next
  case (rename s s' i name)
  then obtain n where n: "mget (dispatchNamespaces s) i = Some n"
    "dispatchNamespaces s' = mput i (n\<lparr>DNs_Name := name\<rparr>) (dispatchNamespaces s)"
    "namespacePolicies s' = namespacePolicies s"
    "\<not> list_ex (\<lambda>ns. DNs_ID ns \<noteq> i \<and> DNs_OrgID ns = DNs_OrgID n \<and> DNs_Name ns = name) (mvals (dispatchNamespaces s))"
    by (auto simp: RenameDispatchNamespace_def split: if_splits option.splits)
  have "DNs_ID e = j" if "mget (dispatchNamespaces s) j = Some e" for j e
    using rename(1) that by (auto simp: policy_inv_def history_ok_def)
  then have "unique_key nameKey (dispatchNamespaces s')"
    unfolding n(2) using rename(1) n(4) by (intro unique_key_put) (auto simp: policy_inv_def nameKey_def list_ex_mvals)
  then show ?case
    using rename(1) n unfolding policy_inv_def by (auto simp: history_ok_def mhas_def)
next
  case (unnamespace s s' i)
  then have "dispatchNamespaces s' = mdel i (dispatchNamespaces s)" "namespacePolicies s' = mdel i (namespacePolicies s)"
    by (auto simp: DeleteDispatchNamespace_def split: option.splits if_splits)
  then show ?case using unnamespace(1) by (auto simp: policy_inv_def unique_key_del)
next
  case (grants s s' i r grants now ns)
  then obtain n where n: "mget (dispatchNamespaces s) i = Some n"
    "dispatchNamespaces s' = mput i (n\<lparr>DNs_PolicyRevision := DNs_PolicyRevision n + 1, DNs_Grants := grants\<rparr>) (dispatchNamespaces s)"
    "namespacePolicies s' = mput i (mget0 [] (namespacePolicies s) i
       @ [\<lparr>Policy_NamespaceID = i, Policy_Revision = DNs_PolicyRevision n + 1,
           Policy_Grants = grants, Policy_CreatedAt = now\<rparr>]) (namespacePolicies s)"
    by (auto simp: StoreSetNamespaceGrants_def Let_def split: if_splits option.splits)
  obtain ps where ps: "mget (namespacePolicies s) i = Some ps" "history_ok i n ps"
    using grants(1) n(1) unfolding policy_inv_def by blast
  have "unique_key nameKey (dispatchNamespaces s')"
    unfolding n(2) using grants(1) by (intro unique_key_same[OF _ n(1)]) (auto simp: policy_inv_def nameKey_def)
  then show ?case
    using grants(1) ps history_ok_append[OF ps(2)] unfolding policy_inv_def n(2,3) by (simp add: mget0_def)
qed (auto simp: policy_inv_def CreateApp_def UpdateApp_def PatchApp_def deleteAppLocked_def
    rbind_Inr_iff Let_def split: if_splits option.splits)

lemma policy_inv_reachable: "store_reachable s \<Longrightarrow> policy_inv s"
proof (induction rule: store_induct)
  case (app s s')
  then show ?case by (simp add: policy_inv_app)
qed (simp add: policy_inv_def NewStore_def, (drule store_frames, simp add: policy_inv_def)+)

end
