(* ===== verification/Store_Accounting.thy ===== *)
theory Store_Accounting
  imports Store_Invariants
begin

text \<open>
  Resources and their metering: names stay unique per organization, a resource that a stored
  deployment binds stays, and the size a KV namespace is charged for is the size of its values.
\<close>

section \<open>Resource tables over the whole store\<close>

definition resource_inv :: "Store \<Rightarrow> bool" where
  "resource_inv s \<longleftrightarrow> kv_table.names_ok (kvNamespaces s) \<and> db_table.names_ok (databases s)
     \<and> bucket_table.names_ok (objectBuckets s)"

lemma resource_other_tables:
  "CreateKVNamespace n s = Inr s' \<Longrightarrow> databases s' = databases s \<and> objectBuckets s' = objectBuckets s"
  "UpdateKVNamespace n s = Inr s' \<Longrightarrow> databases s' = databases s \<and> objectBuckets s' = objectBuckets s"
  "DeleteKVNamespace i s = Inr s' \<Longrightarrow> databases s' = databases s \<and> objectBuckets s' = objectBuckets s"
  "CreateDatabase d s = Inr s' \<Longrightarrow> kvNamespaces s' = kvNamespaces s \<and> objectBuckets s' = objectBuckets s"
  "DeleteDatabase i s = Inr s' \<Longrightarrow> kvNamespaces s' = kvNamespaces s \<and> objectBuckets s' = objectBuckets s"
  "CreateObjectStorageBucket b s = Inr s' \<Longrightarrow> kvNamespaces s' = kvNamespaces s \<and> databases s' = databases s"
  "UpdateObjectStorageBucket b s = Inr s' \<Longrightarrow> kvNamespaces s' = kvNamespaces s \<and> databases s' = databases s"
  "DeleteObjectStorageBucket i s = Inr s' \<Longrightarrow> kvNamespaces s' = kvNamespaces s \<and> databases s' = databases s"
  by (auto simp: store_ops split: if_splits option.splits)

lemma resource_inv_step: "resource_step s s' \<Longrightarrow> resource_inv s \<Longrightarrow> resource_inv s'"
proof (induction rule: resource_step.induct)
  case (1 namespace s s')
  then show ?case using resource_other_tables(1)[of namespace s s'] kv_table.create_names by (simp add: resource_inv_def)
next
  case (2 s namespace old s')
  then show ?case using resource_other_tables(2)[of namespace s s'] kv_table.update_names[of namespace s s']
    by (simp add: resource_inv_def)
next
  case (3 i s s')
  then show ?case using resource_other_tables(3)[of i s s'] kv_table.remove_names by (simp add: resource_inv_def)
next
  case (4 database s s')
  then show ?case using resource_other_tables(4)[of database s s'] db_table.create_names by (simp add: resource_inv_def)
next
  case (5 i s s')
  then show ?case using resource_other_tables(5)[of i s s'] db_table.remove_names by (simp add: resource_inv_def)
next
  case (6 bucket s s')
  then show ?case using resource_other_tables(6)[of bucket s s'] bucket_table.create_names by (simp add: resource_inv_def)
next
  case (7 s bucket old s')
  then show ?case using resource_other_tables(7)[of bucket s s'] bucket_table.update_names[of bucket s s']
    by (simp add: resource_inv_def)
next
  case (8 i s s')
  then show ?case using resource_other_tables(8)[of i s s'] bucket_table.remove_names by (simp add: resource_inv_def)
qed

lemma resource_inv_reachable: "store_reachable s \<Longrightarrow> resource_inv s"
proof (induction rule: store_induct)
  case new
  show ?case by (simp add: resource_inv_def NewStore_def kv_table.names_ok_empty db_table.names_ok_empty
      bucket_table.names_ok_empty)
next
  case (resource s s')
  then show ?case by (simp add: resource_inv_step)
qed (drule store_frames, simp add: resource_inv_def)+

text \<open>A step that removes a resource runs only while no stored deployment binds it.\<close>

lemma kept_resource_step:
  assumes "resource_step s s'"
  shows "mget (kvNamespaces s) i \<noteq> None \<Longrightarrow> boundBy (usesKV i) s \<Longrightarrow> mget (kvNamespaces s') i \<noteq> None"
    and "mget (databases s) i \<noteq> None \<Longrightarrow> boundBy (usesDatabase i) s \<Longrightarrow> mget (databases s') i \<noteq> None"
    and "mget (objectBuckets s) i \<noteq> None \<Longrightarrow> boundBy (usesBucket i) s \<Longrightarrow> mget (objectBuckets s') i \<noteq> None"
  using assms by (auto elim!: resource_step.cases simp: store_ops split: if_splits option.splits)

lemma kept_store_step:
  assumes "store_step s s'"
  shows "(mget (kvNamespaces s) i \<noteq> None \<longrightarrow> boundBy (usesKV i) s \<longrightarrow> mget (kvNamespaces s') i \<noteq> None)
    \<and> (mget (databases s) i \<noteq> None \<longrightarrow> boundBy (usesDatabase i) s \<longrightarrow> mget (databases s') i \<noteq> None)
    \<and> (mget (objectBuckets s) i \<noteq> None \<longrightarrow> boundBy (usesBucket i) s \<longrightarrow> mget (objectBuckets s') i \<noteq> None)"
  using assms
proof cases
  case by_resource
  then show ?thesis using kept_resource_step[of s s' i] by blast
qed (drule store_frames, simp)+

section \<open>Sums over a map\<close>

definition msum :: "('v \<Rightarrow> int) \<Rightarrow> ('k, 'v) gomap \<Rightarrow> int" where
  "msum f m = sum_list (map (f \<circ> snd) (mentries m))"

definition opt0 :: "('v \<Rightarrow> int) \<Rightarrow> 'v option \<Rightarrow> int" where
  "opt0 f v = (case v of None \<Rightarrow> 0 | Some x \<Rightarrow> f x)"

lemma sum_list_update:
  "distinct (map fst es) \<Longrightarrow> sum_list (map (f \<circ> snd) (AList.update k v es))
     = sum_list (map (f \<circ> snd) es) - opt0 f (map_of es k) + f v" for f :: "'v \<Rightarrow> int"
  by (induction es) (auto simp: opt0_def)

lemma sum_list_delete:
  "distinct (map fst es) \<Longrightarrow> sum_list (map (f \<circ> snd) (AList.delete k es))
     = sum_list (map (f \<circ> snd) es) - opt0 f (map_of es k)" for f :: "'v \<Rightarrow> int"
proof (induction es)
  case (Cons e es)
  then have "map_of es (fst e) = None" by (simp add: map_of_eq_None_iff)
  then show ?case using Cons by (cases e) (auto simp: opt0_def delete_id)
qed (simp add: opt0_def)

lemma msum_put: "msum f (mput k v m) = msum f m - opt0 f (mget m k) + f v"
  by (simp add: msum_def sum_list_update mget_entries)

lemma msum_del: "msum f (mdel k m) = msum f m - opt0 f (mget m k)"
  by (simp add: msum_def sum_list_delete mget_entries)

lemma msum_empty [simp]: "msum f mempty = 0"
  by (simp add: msum_def)

lemma msum_nonneg: "(\<And>v. 0 \<le> f v) \<Longrightarrow> 0 \<le> msum f m"
  unfolding msum_def by (rule sum_list_nonneg) auto

section \<open>KV storage accounting\<close>

definition valueSize :: "runtimeKVValue \<Rightarrow> int" where
  "valueSize v = int (length (KVVal_Value v))"

definition storedBytes :: "string \<Rightarrow> Store \<Rightarrow> int" where
  "storedBytes n s = msum valueSize (mget0 mempty (kv s) n)"

definition chargedBytes :: "string \<Rightarrow> Store \<Rightarrow> int" where
  "chargedBytes n s = KVMet_Size (mget0 KVNamespaceMetrics0 (kvMetrics s) n)"

definition metered :: "Store \<Rightarrow> bool" where
  "metered s \<longleftrightarrow> (\<forall>n. chargedBytes n s = storedBytes n s)"

lemma storedBytes_nonneg: "0 \<le> storedBytes n s"
  by (simp add: storedBytes_def msum_nonneg valueSize_def)

lemma charged_adjust: "chargedBytes n (adjustMetrics m delta s) =
    (if n = m then max 0 (chargedBytes m s + delta) else chargedBytes n s)"
  by (simp add: chargedBytes_def adjustMetrics_def adjustSize_def)

lemma stored_adjust [simp]: "storedBytes n (adjustMetrics m delta s) = storedBytes n s"
  by (simp add: storedBytes_def adjustMetrics_def)

lemma metered_adjust:
  assumes "metered s" "kvMetrics s1 = kvMetrics s"
    "\<And>n. storedBytes n s1 = storedBytes n s + (if n = m then delta else 0)"
  shows "metered (adjustMetrics m delta s1)"
proof -
  have "chargedBytes m s + delta = storedBytes m s1"
    using assms(1) assms(3)[of m] by (simp add: metered_def)
  moreover have "chargedBytes n s1 = chargedBytes n s" for n by (simp add: chargedBytes_def assms(2))
  ultimately show ?thesis
    using assms(1,3) storedBytes_nonneg[of m s1] by (simp add: metered_def charged_adjust)
qed

lemma oldSize_opt: "oldSize m k s = opt0 valueSize (mget2 (kv s) m k)"
proof -
  have "KVVal_Value runtimeKVValue0 = []" by (simp add: runtimeKVValue0_def)
  then show ?thesis
    by (simp add: oldSize_def opt0_def valueSize_def mget0_def[of runtimeKVValue0] split: option.split)
qed

lemma putValue_metrics [simp]: "kvMetrics (putValue m k v opts s) = kvMetrics s"
  by (simp add: putValue_def)

lemma stored_put: "storedBytes n (putValue m k v opts s) =
    storedBytes n s + (if n = m then int (length v) - oldSize m k s else 0)"
  by (simp add: storedBytes_def putValue_def mput2_def msum_put oldSize_opt)
    (simp add: valueSize_def)

lemma stored_del: "storedBytes n (s\<lparr>kv := mdel2 m k (kv s)\<rparr>) =
    storedBytes n s + (if n = m then - oldSize m k s else 0)"
  by (auto simp: storedBytes_def mdel2_def msum_del oldSize_opt opt0_def mget0_def split: option.split)

lemma metered_delete:
  assumes "metered s" "mget2 (kv s) m k = Some v"
  shows "metered (deleteRuntimeKVValueLocked m k v s)"
  unfolding deleteRuntimeKVValueLocked_def using assms(2)
  by (intro metered_adjust[OF assms(1)]) (simp_all add: stored_del oldSize_opt opt0_def valueSize_def)

lemma metered_purge:
  assumes "metered s" shows "metered (purgeExpiredKVLocked m now s)"
proof -
  have loop: "metered (purgeLoop m now es s)"
    if "metered s" "\<And>k v. (k, v) \<in> set es \<Longrightarrow> mget2 (kv s) m k = Some v" "distinct (map fst es)" for es s
    using that
  proof (induction m now es s rule: purgeLoop.induct)
    case (2 m now k v es s)
    have live: "mget2 (kv s) m k = Some v" using 2(3)[of k v] by simp
    let ?s1 = "if runtimeKVExpired v now then deleteRuntimeKVValueLocked m k v s else s"
    have "mget2 (kv ?s1) m k' = Some v'" if "(k', v') \<in> set es" for k' v'
      using 2(3)[of k' v'] 2(4) that
      by (auto simp: deleteRuntimeKVValueLocked_def adjustMetrics_def rev_image_eqI)
    then show ?case
      using 2(1) 2(2) 2(4) metered_delete[OF 2(2) live] by simp
  qed simp
  show ?thesis
    unfolding purgeExpiredKVLocked_def by (rule loop) (simp_all add: assms mem_entries)
qed

lemma metered_bytes:
  "metered s \<Longrightarrow> metered (snd (storageBytes orgID now ns acc s))"
  by (induction orgID now ns acc s rule: storageBytes.induct) (auto simp: Let_def metered_purge)

text \<open>The steps of a store whose clients write through the size-reporting methods.\<close>

inductive metered_step :: "Store \<Rightarrow> Store \<Rightarrow> bool" where
  "KVGet capability n key now s = Inr (v, found, s') \<Longrightarrow> metered_step s s'"
| "KVValueSize capability n key now s = Inr (b, found, s') \<Longrightarrow> metered_step s s'"
| "KVPutWithSizeDelta capability n key v options s = Inr (delta, s') \<Longrightarrow> metered_step s s'"
| "KVDeleteWithSizeDelta capability n key s = Inr (delta, s') \<Longrightarrow> metered_step s s'"
| "KVList capability n now s = Inr (keys, s') \<Longrightarrow> metered_step s s'"
| "KVListPage capability n options' now s = Inr (page, s') \<Longrightarrow> metered_step s s'"
| "getKVNamespaceMetrics n now s = Inr (metrics, s') \<Longrightarrow> metered_step s s'"
| "IncrementKVNamespaceReads n s = Inr s' \<Longrightarrow> metered_step s s'"
| "IncrementKVNamespaceWrites n s = Inr s' \<Longrightarrow> metered_step s s'"
| "KVStorageBytesByOrg orgID now s = (bytes, s') \<Longrightarrow> metered_step s s'"
| "resource_step s s' \<Longrightarrow> metered_step s s'"
| "identity_step s s' \<Longrightarrow> metered_step s s'"
| "oauth_step s s' \<Longrightarrow> metered_step s s'"
| "app_step s s' \<Longrightarrow> metered_step s s'"
| "deploy_step s s' \<Longrightarrow> metered_step s s'"

lemma metered_keep: "metered s \<Longrightarrow> kv s' = kv s \<Longrightarrow> kvMetrics s' = kvMetrics s \<Longrightarrow> metered s'"
  by (simp add: metered_def chargedBytes_def storedBytes_def)

lemma metered_counter:
  assumes "updateKVMetrics n f s = Inr s'" "metered s" "\<And>m. KVMet_Size (f m) = KVMet_Size m"
  shows "metered s'"
  using assms by (auto simp: updateKVMetrics_def metered_def chargedBytes_def storedBytes_def split: if_splits)

lemma metered_resource: "resource_step s s' \<Longrightarrow> metered s \<Longrightarrow> metered s'"
  by (erule resource_step.cases)
    (auto simp: store_ops metered_def chargedBytes_def storedBytes_def KVNamespaceMetrics0_def
      split: if_splits option.splits)

lemma metered_step_inv: "metered_step s s' \<Longrightarrow> metered s \<Longrightarrow> metered s'"
proof (induction rule: metered_step.induct)
  case (1 capability n key now s v found s')
  then show ?case by (auto simp: KVGet_def rbind_Inr_iff metered_delete split: option.splits if_splits)
next
  case (2 capability n key now s b found s')
  then show ?case by (auto simp: KVValueSize_def rbind_Inr_iff metered_delete split: option.splits if_splits)
next
  case (3 capability n key v options s delta s')
  then have "s' = adjustMetrics n (int (length v) - oldSize n key s) (putValue n key v options s)"
    by (auto simp: KVPutWithSizeDelta_def rbind_Inr_iff Let_def)
  then show ?case using 3(2) by (simp add: metered_adjust stored_put)
next
  case (4 capability n key s delta s')
  then have "s' = adjustMetrics n (- oldSize n key s) (s\<lparr>kv := mdel2 n key (kv s)\<rparr>)"
    by (auto simp: KVDeleteWithSizeDelta_def rbind_Inr_iff Let_def)
  then show ?case using 4(2) by (simp add: metered_adjust stored_del)
next
  case (5 capability n now s keys s')
  then show ?case by (auto simp: KVList_def rbind_Inr_iff Let_def metered_purge)
next
  case (6 capability n options' now s page s')
  then show ?case by (auto simp: KVListPage_def rbind_Inr_iff Let_def metered_purge)
next
  case (7 n now s metrics s')
  then show ?case by (auto simp: getKVNamespaceMetrics_def Let_def metered_purge split: if_splits)
next
  case (8 n s s')
  then show ?case by (auto simp: IncrementKVNamespaceReads_def elim!: metered_counter)
next
  case (9 n s s')
  then show ?case by (auto simp: IncrementKVNamespaceWrites_def elim!: metered_counter)
next
  case (10 orgID now s bytes s')
  then show ?case using metered_bytes[of s orgID now _ 0] by (auto simp: KVStorageBytesByOrg_def dest!: arg_cong[where f = snd])
next
  case (11 s s')
  then show ?case by (rule metered_resource)
qed (drule store_frames, simp add: metered_keep)+

lemma metered_reachable: "metered_step\<^sup>*\<^sup>* NewStore s \<Longrightarrow> metered s"
proof (induction rule: rtranclp_induct)
  case base
  show ?case by (simp add: metered_def NewStore_def chargedBytes_def storedBytes_def KVNamespaceMetrics0_def)
qed (rule metered_step_inv)

end
