(* ===== verification/Store_Paging.thy ===== *)
theory Store_Paging
  imports Store_KV
begin

text \<open>
  Paged listing: following the cursors from the first page enumerates the live keys of a prefix,
  each once and in order, and ends.
\<close>

section \<open>Expiry\<close>

text \<open>The values a reader can still see at \<open>now\<close>.\<close>

definition liveAt :: "time \<Rightarrow> runtimeKVValue option \<Rightarrow> runtimeKVValue option" where
  "liveAt now v = (case v of None \<Rightarrow> None | Some x \<Rightarrow> if runtimeKVExpired x now then None else Some x)"

lemma kv_delete [simp]:
  "mget2 (kv (deleteRuntimeKVValueLocked n k v s)) n' k' = (if n' = n \<and> k' = k then None else mget2 (kv s) n' k')"
  by (simp add: deleteRuntimeKVValueLocked_def adjustMetrics_def)

lemma purgeLoop_lookup:
  "mget2 (kv (purgeLoop n now es s)) n k =
     (if \<exists>v. (k, v) \<in> set es \<and> runtimeKVExpired v now then None else mget2 (kv s) n k)"
  by (induction n now es s rule: purgeLoop.induct) auto

lemma purge_lookup: "mget2 (kv (purgeExpiredKVLocked n now s)) n k = liveAt now (mget2 (kv s) n k)"
  by (auto simp: purgeExpiredKVLocked_def purgeLoop_lookup liveAt_def mem_entries split: option.splits)

lemma purgeLoop_guard:
  "kvNamespaces (purgeLoop n now es s) = kvNamespaces s \<and> capabilityToApp (purgeLoop n now es s) = capabilityToApp s"
  by (induction n now es s rule: purgeLoop.induct) (auto simp: deleteRuntimeKVValueLocked_def adjustMetrics_def)

lemma purge_guard [simp]: "kvGuard capability n (purgeExpiredKVLocked m now s) = kvGuard capability n s"
  using purgeLoop_guard by (simp add: kvGuard_def purgeExpiredKVLocked_def)

lemma liveAt_idem [simp]: "liveAt now (liveAt now v) = liveAt now v"
  by (auto simp: liveAt_def split: option.splits)

section \<open>The keys of a listing\<close>

definition liveKeys :: "string \<Rightarrow> string \<Rightarrow> time \<Rightarrow> Store \<Rightarrow> string list" where
  "liveKeys n p now s = sort (filter (\<lambda>k. k \<noteq> [] \<and> hasPrefix k p \<and> liveAt now (mget2 (kv s) n k) \<noteq> None)
     (mkeys (mget0 mempty (kv s) n)))"

lemma set_liveKeys: "set (liveKeys n p now s) =
    {k. k \<noteq> [] \<and> hasPrefix k p \<and> liveAt now (mget2 (kv s) n k) \<noteq> None}"
  by (auto simp: liveKeys_def in_mkeys liveAt_def split: option.splits)

lemma sorted_liveKeys: "sorted (liveKeys n p now s)" "distinct (liveKeys n p now s)"
  by (simp_all add: liveKeys_def)

lemma liveKeys_purge: "liveKeys n p now (purgeExpiredKVLocked n now s) = liveKeys n p now s"
  by (rule sorted_distinct_set_unique) (simp_all add: sorted_liveKeys set_liveKeys purge_lookup)

lemma listing_keys:
  "sort (filter (\<lambda>k. \<not> (k \<le> after \<or> \<not> hasPrefix k p)) (mkeys (mget0 mempty (kv (purgeExpiredKVLocked n now s)) n)))
     = filter (\<lambda>k. after < k) (liveKeys n p now s)"
proof (rule sorted_distinct_set_unique)
  have "after < k \<Longrightarrow> k \<noteq> []" for k :: string by (cases k) auto
  then show "set (sort (filter (\<lambda>k. \<not> (k \<le> after \<or> \<not> hasPrefix k p))
        (mkeys (mget0 mempty (kv (purgeExpiredKVLocked n now s)) n))))
      = set (filter (\<lambda>k. after < k) (liveKeys n p now s))"
    by (auto simp: set_liveKeys in_mkeys purge_lookup not_le)
qed (simp_all add: sorted_liveKeys sorted_wrt_filter)

definition names :: "RuntimeKVListResult \<Rightarrow> string list" where
  "names page = map KVListKey_Name (KVListRes_Keys page)"

lemma take_limit: "(if length ks > l then take l ks else ks) = take l ks"
  by simp

lemma page_contents:
  assumes "KVListPage capability n options now s = Inr (page, s')"
    and "DecodeRuntimeKVCursor (KVListOpt_Cursor options) = Inr after"
  defines "rest \<equiv> filter (\<lambda>k. after < k) (liveKeys n (KVListOpt_Prefix options) now s)"
    and "limit \<equiv> pageLimit (KVListOpt_Limit options)"
  shows "names page = take limit rest" "KVListRes_ListComplete page = (length rest \<le> limit)"
    "KVListRes_Cursor page = (if length rest > limit then EncodeRuntimeKVCursor (last (take limit rest)) else [])"
    "s' = purgeExpiredKVLocked n now s"
proof -
  have pos: "0 < limit" by (simp add: limit_def pageLimit_def)
  define pg where "pg = \<lparr>KVListRes_Keys = map (\<lambda>key. \<lparr>KVListKey_Name = key, KVListKey_Expiration =
        map_option unixSeconds (KVVal_Expiration (mget0 runtimeKVValue0
          (mget0 mempty (kv (purgeExpiredKVLocked n now s)) n) key))\<rparr>) (take limit rest),
      KVListRes_ListComplete = (length rest \<le> limit),
      KVListRes_Cursor = (if \<not> length rest \<le> limit \<and> take limit rest \<noteq> []
        then EncodeRuntimeKVCursor (last (take limit rest)) else [])\<rparr>"
  have "KVListPage capability n options now s
      = rbind (kvGuard capability n s) (\<lambda>_. Inr (pg, purgeExpiredKVLocked n now s))"
    unfolding KVListPage_def Let_def listing_keys assms(2) take_limit rest_def limit_def pg_def rbind_simps ..
  then have "page = pg" "s' = purgeExpiredKVLocked n now s"
    using assms(1) by (simp_all add: rbind_def split: sum.splits)
  then show "names page = take limit rest" "KVListRes_ListComplete page = (length rest \<le> limit)"
    "KVListRes_Cursor page = (if length rest > limit then EncodeRuntimeKVCursor (last (take limit rest)) else [])"
    "s' = purgeExpiredKVLocked n now s"
    using pos by (auto simp: pg_def names_def comp_def)
qed

lemma page_total:
  assumes "kvGuard capability n s = Inr ()" "DecodeRuntimeKVCursor (KVListOpt_Cursor options) = Inr after"
  obtains page s' where "KVListPage capability n options now s = Inr (page, s')"
  using assms by (simp add: KVListPage_def Let_def)

section \<open>Cursors\<close>

lemma cursor_nonempty: "k \<noteq> [] \<Longrightarrow> EncodeRuntimeKVCursor k \<noteq> []"
  using base64_roundtrip[of k] base64_roundtrip[of "[]"] by (auto simp: EncodeRuntimeKVCursor_def)

lemma cursor_roundtrip_utf8:
  "utf8Valid k \<Longrightarrow> k \<noteq> [] \<Longrightarrow> DecodeRuntimeKVCursor (EncodeRuntimeKVCursor k) = Inr k"
  using cursor_nonempty[of k] by (simp add: DecodeRuntimeKVCursor_def) (simp add: EncodeRuntimeKVCursor_def base64_roundtrip)

section \<open>Following the cursors\<close>

text \<open>A client that reads page after page with one prefix and page size.\<close>

fun drain :: "nat \<Rightarrow> string \<Rightarrow> string \<Rightarrow> string \<Rightarrow> int \<Rightarrow> time \<Rightarrow> string \<Rightarrow> Store \<Rightarrow> string list option" where
  "drain 0 capability n p l now cursor s = None"
| "drain (Suc fuel) capability n p l now cursor s =
     (case KVListPage capability n \<lparr>KVListOpt_Prefix = p, KVListOpt_Cursor = cursor, KVListOpt_Limit = l\<rparr> now s of
        Inl e \<Rightarrow> None
      | Inr (page, s') \<Rightarrow>
          if KVListRes_ListComplete page then Some (names page)
          else map_option ((@) (names page)) (drain fuel capability n p l now (KVListRes_Cursor page) s'))"

lemma filter_after_last:
  assumes "sorted ks" "distinct ks" "0 < l" "l < length (filter (\<lambda>k. after < k) ks)"
  defines "rest \<equiv> filter (\<lambda>k. after < k) ks" and "c \<equiv> last (take l (filter (\<lambda>k. after < k) ks))"
  shows "filter (\<lambda>k. c < k) ks = drop l rest" "c \<in> set ks"
proof -
  have r: "sorted rest" "distinct rest" using assms(1,2) by (simp_all add: rest_def sorted_wrt_filter)
  have split: "rest = take l rest @ drop l rest" by simp
  have ne: "take l rest \<noteq> []" using assms(3,4) by (auto simp: rest_def)
  then have cin: "c \<in> set (take l rest)" using last_in_set by (simp add: c_def rest_def)
  then show "c \<in> set ks" by (auto simp: rest_def dest: in_set_takeD)
  have ca: "after < c" using cin by (auto simp: rest_def dest: in_set_takeD)
  have "filter (\<lambda>k. c < k) ks = filter (\<lambda>k. c < k) rest"
    using ca by (auto simp: rest_def intro!: filter_cong)
  also have "\<dots> = filter (\<lambda>k. c < k) (take l rest) @ filter (\<lambda>k. c < k) (drop l rest)"
    by (subst split) (simp only: filter_append)
  also have "filter (\<lambda>k. c < k) (take l rest) = []"
  proof -
    have "k \<le> c" if "k \<in> set (take l rest)" for k
    proof -
      have "sorted (take l rest)" using r(1) by (rule sorted_wrt_take)
      moreover have "take l rest = butlast (take l rest) @ [c]" using ne by (simp add: c_def rest_def)
      ultimately show ?thesis using that by (metis UnE append_Nil2 empty_iff empty_set last_in_set
            order_refl set_ConsD set_append sorted_append insert_iff list.set(2))
    qed
    then show ?thesis by (auto simp: filter_empty_conv not_less)
  qed
  also have "filter (\<lambda>k. c < k) (drop l rest) = drop l rest"
  proof -
    have "c < k" if "k \<in> set (drop l rest)" for k
    proof -
      have "c \<le> k" using r(1) split cin that by (metis sorted_append)
      moreover have "c \<noteq> k" using r(2) split cin that by (metis IntI disjoint_iff distinct_append)
      ultimately show ?thesis by simp
    qed
    then show ?thesis by (simp add: filter_id_conv)
  qed
  finally show "filter (\<lambda>k. c < k) ks = drop l rest" by simp
qed

lemma drain_rest:
  assumes "kvGuard capability n s = Inr ()" "\<forall>k \<in> set (liveKeys n p now s). utf8Valid k"
    and "DecodeRuntimeKVCursor cursor = Inr after"
    and "length (filter (\<lambda>k. after < k) (liveKeys n p now s)) < fuel"
  shows "drain fuel capability n p l now cursor s = Some (filter (\<lambda>k. after < k) (liveKeys n p now s))"
  using assms
proof (induction fuel arbitrary: cursor after s)
  case (Suc fuel)
  let ?o = "\<lparr>KVListOpt_Prefix = p, KVListOpt_Cursor = cursor, KVListOpt_Limit = l\<rparr>"
  let ?ks = "liveKeys n p now s" let ?rest = "filter (\<lambda>k. after < k) ?ks" let ?L = "pageLimit l"
  obtain page s' where page: "KVListPage capability n ?o now s = Inr (page, s')"
    using page_total[of capability n s ?o after] Suc.prems(1,3) by auto
  note c = page_contents[OF page, of after, simplified, OF Suc.prems(3)]
  show ?case
  proof (cases "length ?rest \<le> ?L")
    case True
    then show ?thesis using page c(1,2) by simp
  next
    case False
    have pos: "0 < ?L" by (simp add: pageLimit_def)
    let ?c = "last (take ?L ?rest)"
    have f: "filter (\<lambda>k. ?c < k) ?ks = drop ?L ?rest" "?c \<in> set ?ks"
      using filter_after_last[OF sorted_liveKeys pos, of after] False by simp_all
    have ne: "?c \<noteq> []" using f(2) by (simp add: set_liveKeys)
    have "drain fuel capability n p l now (EncodeRuntimeKVCursor ?c) s' = Some (filter (\<lambda>k. ?c < k) (liveKeys n p now s'))"
    proof (rule Suc.IH)
      show "DecodeRuntimeKVCursor (EncodeRuntimeKVCursor ?c) = Inr ?c"
        using cursor_roundtrip_utf8 Suc.prems(2) f(2) ne by blast
      show "length (filter (\<lambda>k. ?c < k) (liveKeys n p now s')) < fuel"
        using Suc.prems(4) False pos by (simp add: c(4) liveKeys_purge f(1))
    qed (use Suc.prems(1,2) in \<open>simp_all add: c(4) liveKeys_purge\<close>)
    then show ?thesis
      using page c False by (simp add: liveKeys_purge f(1))
  qed
qed simp

lemma drain_all:
  assumes "kvGuard capability n s = Inr ()" "\<forall>k \<in> set (liveKeys n p now s). utf8Valid k"
  shows "drain (Suc (length (liveKeys n p now s))) capability n p l now [] s = Some (liveKeys n p now s)"
proof -
  have "([] :: string) < k" if "k \<in> set (liveKeys n p now s)" for k
  proof -
    have "k \<noteq> []" using that by (simp add: set_liveKeys)
    then show ?thesis by (cases k) auto
  qed
  then have "filter (\<lambda>k. [] < k) (liveKeys n p now s) = liveKeys n p now s"
    by (simp add: filter_id_conv)
  then show ?thesis
    using drain_rest[OF assms, of "[]" "[]" "Suc (length (liveKeys n p now s))" l]
    by (simp add: DecodeRuntimeKVCursor_def)
qed

end
