(* ===== verification/Store_Operations.thy ===== *)
theory Store_Operations
  imports Store_Routing Store_Accounting Store_Paging
begin

text \<open>
  What single operations promise: deleting the scripts of a namespace is all or nothing, a
  writer with a stale revision loses, a refresh token is revoked once, and a cleanup batch
  removes only dead upload sessions and not more than its limit.
\<close>

section \<open>Deleting the scripts of a namespace\<close>

definition selectable :: "string \<Rightarrow> string \<Rightarrow> Store \<Rightarrow> string \<Rightarrow> bool" where
  "selectable org namespace s i = (case mget (apps s) i of None \<Rightarrow> False
     | Some app \<Rightarrow> App_OrgID app = org \<and> (case App_Platform app of None \<Rightarrow> False
         | Some p \<Rightarrow> Platform_NamespaceID p = namespace \<and> Platform_Kind p = ''customer''))"

lemma checkSelection_ok:
  "checkSelection org namespace seen ids s = Inr () \<longleftrightarrow>
     distinct ids \<and> set ids \<inter> set seen = {} \<and> list_all (selectable org namespace s) ids"
  by (induction org namespace seen ids s rule: checkSelection.induct)
    (auto simp: selectable_def split: option.splits)

lemma checkSelection_error: "checkSelection org namespace seen ids s = Inl e \<Longrightarrow> e = ErrNamespaceDeletionConflict"
  by (induction org namespace seen ids s rule: checkSelection.induct) (auto split: option.splits if_splits)

lemma deleteAppLocked_apps: "deleteAppLocked i s = Inr s' \<Longrightarrow> apps s' = mdel i (apps s) \<and> mhas (apps s) i"
  by (auto simp: deleteAppLocked_def mhas_def split: option.splits)

lemma deleteAppLocked_total: "mhas (apps s) i \<Longrightarrow> \<exists>s'. deleteAppLocked i s = Inr s'"
  by (auto simp: deleteAppLocked_def mhas_def)

lemma deleteApps_total:
  "distinct ids \<Longrightarrow> list_all (mhas (apps s)) ids \<Longrightarrow> \<exists>s'. deleteApps ids s = Inr s'
     \<and> (\<forall>i. mget (apps s') i = (if i \<in> set ids then None else mget (apps s) i))"
proof (induction ids arbitrary: s)
  case (Cons i ids)
  then have "mhas (apps s) i" by simp
  then obtain s1 where s1: "deleteAppLocked i s = Inr s1" using deleteAppLocked_total by blast
  have a: "apps s1 = mdel i (apps s)" using deleteAppLocked_apps[OF s1] by simp
  have "list_all (mhas (apps s1)) ids" using Cons.prems by (auto simp: a list_all_iff)
  then obtain s' where "deleteApps ids s1 = Inr s'"
    "\<forall>j. mget (apps s') j = (if j \<in> set ids then None else mget (apps s1) j)"
    using Cons.IH[of s1] Cons.prems(1) by auto
  then show ?case using s1 a by auto
qed simp

lemma selectable_has: "selectable org namespace s i \<Longrightarrow> mhas (apps s) i"
  by (auto simp: selectable_def mhas_def split: option.splits)

text \<open>Either every selected script is deleted, and nothing else is, or the store stays as it was.\<close>

lemma DeleteNamespaceScripts_all_or_nothing:
  assumes "mget (dispatchNamespaces s) namespace = Some ns" "DNs_OrgID ns = org"
  shows "if distinct ids \<and> list_all (selectable org namespace s) ids
    then \<exists>s'. DeleteNamespaceScripts org namespace ids s = Inr s'
      \<and> (\<forall>i. mget (apps s') i = (if i \<in> set ids then None else mget (apps s) i))
    else DeleteNamespaceScripts org namespace ids s = Inl ErrNamespaceDeletionConflict"
proof (cases "distinct ids \<and> list_all (selectable org namespace s) ids")
  case True
  then have "list_all (mhas (apps s)) ids" using selectable_has by (auto simp: list_all_iff)
  then show ?thesis
    using True assms deleteApps_total[of ids s] checkSelection_ok[of org namespace "[]" ids s]
    by (simp add: DeleteNamespaceScripts_def)
next
  case False
  then obtain e where "checkSelection org namespace [] ids s = Inl e"
    using checkSelection_ok[of org namespace "[]" ids s] by (cases "checkSelection org namespace [] ids s") auto
  then show ?thesis
    using False assms checkSelection_error by (auto simp: DeleteNamespaceScripts_def)
qed

section \<open>Optimistic concurrency\<close>

lemma stale_upload:
  assumes "SaveAssetUploadSession v expected s = Inr s'" "Upload_ID w = Upload_ID v"
  shows "SaveAssetUploadSession w expected s' = Inl ErrManagementConflict"
proof -
  have "mget (assetUploads s') (Upload_ID v) = Some v" "Upload_Revision v = expected + 1"
    using assms(1) by (auto simp: SaveAssetUploadSession_def Let_def split: if_splits)
  then show ?thesis using assms(2) by (simp add: SaveAssetUploadSession_def)
qed

lemma stale_management:
  assumes "CommitScriptManagementState v expected s = Inr s'" "Mgmt_WorkerID w = Mgmt_WorkerID v"
    "Mgmt_OrgID w = Mgmt_OrgID v" "Mgmt_DeploymentID w = Mgmt_DeploymentID v"
  shows "CommitScriptManagementState w expected s' = Inl ErrManagementConflict"
proof -
  have "s' = s\<lparr>management := mput (Mgmt_WorkerID v) v (management s)\<rparr>" "Mgmt_Revision v = expected + 1"
    "\<not> (case mget (apps s) (Mgmt_WorkerID v) of None \<Rightarrow> True | Some app \<Rightarrow> App_OrgID app \<noteq> Mgmt_OrgID v)"
    "\<not> (case mget (artifacts s) (Mgmt_DeploymentID v) of None \<Rightarrow> True
        | Some artifact \<Rightarrow> Dep_AppID (Art_Deployment artifact) \<noteq> Mgmt_WorkerID v)"
    using assms(1) by (auto simp: CommitScriptManagementState_def Let_def split: if_splits)
  then show ?thesis using assms(2-4) by (simp add: CommitScriptManagementState_def Let_def split: option.splits)
qed

lemma stale_grants:
  assumes "StoreSetNamespaceGrants i revision grants now s = Inr (ns, s')"
  shows "StoreSetNamespaceGrants i revision grants' now' s' = Inl ErrNamespacePolicyConflict"
    "DNs_PolicyRevision ns = revision + 1"
  using assms by (auto simp: StoreSetNamespaceGrants_def Let_def split: option.splits if_splits)

section \<open>Refresh tokens\<close>

lemma revoke_once:
  assumes "UpdateControlRefreshToken t s = Inr s'" "Refresh_RevokedAt t \<noteq> None"
    and "Refresh_TokenHash u = Refresh_TokenHash t" "Refresh_RevokedAt u \<noteq> None"
  shows "UpdateControlRefreshToken u s' = Inl ErrControlRefreshTokenNotFound"
  using assms by (auto simp: UpdateControlRefreshToken_def split: option.splits if_splits)

section \<open>Cleaning up upload sessions\<close>

definition deadUpload :: "time \<Rightarrow> Store \<Rightarrow> AssetUploadSession \<Rightarrow> bool" where
  "deadUpload now s u \<longleftrightarrow> \<not> Upload_ExpiresAt u > now \<or> \<not> mhas (dispatchNamespaces s) (Upload_NamespaceID u)"

lemma mlen_del: "mget m k = Some v \<Longrightarrow> mlen m = mlen (mdel k m) + 1"
  using mcount_pos[of m k v "\<lambda>_ _. True"] by (simp add: mlen_mcount mcount_del)

lemma pruneLoop_spec:
  assumes "pruneLoop now limit us count s = (n, s')" "distinct (map fst us)"
    "\<And>i u. (i, u) \<in> set us \<Longrightarrow> mget (assetUploads s) i = Some u" "count < limit"
  shows "count \<le> n \<and> n \<le> limit \<and> int (mlen (assetUploads s)) = int (mlen (assetUploads s')) + (n - count)
    \<and> (\<forall>i. mget (assetUploads s') i = mget (assetUploads s) i
         \<or> mget (assetUploads s') i = None \<and> (\<exists>u. mget (assetUploads s) i = Some u \<and> deadUpload now s u))
    \<and> (n < limit \<longrightarrow> (\<forall>(i, u) \<in> set us. deadUpload now s u \<longrightarrow> mget (assetUploads s') i = None))"
  using assms
proof (induction now limit us count s rule: pruneLoop.induct)
  case (2 now limit i u us count s)
  have u: "mget (assetUploads s) i = Some u" using 2(5)[of i u] by simp
  let ?s1 = "s\<lparr>assetUploads := mdel i (assetUploads s)\<rparr>"
  show ?case
  proof (cases "deadUpload now s u")
    case dead: True
    note m = mlen_del[OF u]
    show ?thesis
    proof (cases "count + 1 = limit")
      case True
      then have "n = limit" "s' = ?s1"
        using 2(3) dead by (auto simp: deadUpload_def Let_def)
      then show ?thesis using True m u dead by auto
    next
      case False
      have run: "pruneLoop now limit us (count + 1) ?s1 = (n, s')"
        using 2(3) dead False by (simp add: deadUpload_def Let_def)
      have d: "deadUpload now ?s1 w = deadUpload now s w" for w by (simp add: deadUpload_def)
      have "count + 1 \<le> n \<and> n \<le> limit \<and> int (mlen (assetUploads ?s1)) = int (mlen (assetUploads s')) + (n - (count + 1))
          \<and> (\<forall>j. mget (assetUploads s') j = mget (assetUploads ?s1) j
            \<or> mget (assetUploads s') j = None \<and> (\<exists>w. mget (assetUploads ?s1) j = Some w \<and> deadUpload now ?s1 w))
          \<and> (n < limit \<longrightarrow> (\<forall>(j, w) \<in> set us. deadUpload now ?s1 w \<longrightarrow> mget (assetUploads s') j = None))"
      proof (rule 2(1)[OF _ refl False run])
        show "\<not> Upload_ExpiresAt u > now \<or> \<not> mhas (dispatchNamespaces s) (Upload_NamespaceID u)"
          using dead by (simp add: deadUpload_def)
        show "mget (assetUploads ?s1) j = Some w" if "(j, w) \<in> set us" for j w
          using 2(4) 2(5)[of j w] that by force
      qed (use 2(4,6) False in auto)
      then show ?thesis
        unfolding d using m u dead by (auto split: if_splits)
    qed
  next
    case alive: False
    then have run: "pruneLoop now limit us count s = (n, s')" using 2(3) by (simp add: deadUpload_def)
    show ?thesis
      using 2(2)[OF _ run] 2(4-6) alive by (auto simp: deadUpload_def)
  qed
qed auto

lemma prune_spec:
  assumes "PruneAssetUploadSessions now limit s = Inr (n, s')"
  shows "0 \<le> n \<and> n \<le> limit \<and> limit \<le> 256
    \<and> int (mlen (assetUploads s)) = int (mlen (assetUploads s')) + n
    \<and> (\<forall>i. mget (assetUploads s') i = mget (assetUploads s) i
         \<or> mget (assetUploads s') i = None \<and> (\<exists>u. mget (assetUploads s) i = Some u \<and> deadUpload now s u))
    \<and> (n < limit \<longrightarrow> (\<forall>i u. mget (assetUploads s') i = Some u \<longrightarrow> \<not> deadUpload now s u))"
proof -
  have l: "1 \<le> limit" "limit \<le> 256" and run: "pruneLoop now limit (mentries (assetUploads s)) 0 s = (n, s')"
    using assms by (auto simp: PruneAssetUploadSessions_def rbind_Inr_iff validateAssetPruneLimit_def split: if_splits)
  have "mget (assetUploads s) i = Some u" if "(i, u) \<in> set (mentries (assetUploads s))" for i u
    using that by (simp add: mem_entries)
  note p = pruneLoop_spec[OF run _ this, simplified]
  then have p': "0 \<le> n \<and> n \<le> limit \<and> int (mlen (assetUploads s)) = int (mlen (assetUploads s')) + n"
    "\<And>i. mget (assetUploads s') i = mget (assetUploads s) i
         \<or> mget (assetUploads s') i = None \<and> (\<exists>u. mget (assetUploads s) i = Some u \<and> deadUpload now s u)"
    "\<And>i u. n < limit \<Longrightarrow> mget (assetUploads s) i = Some u \<Longrightarrow> deadUpload now s u \<Longrightarrow> mget (assetUploads s') i = None"
    using l by (auto simp: mem_entries)
  have "\<not> deadUpload now s u" if "n < limit" "mget (assetUploads s') i = Some u" for i u
    using p'(2)[of i] p'(3)[of i u] that by auto
  then show ?thesis using p'(1,2) l(2) by blast
qed

end
