(* ===== verification/Store_Properties.thy ===== *)
theory Store_Properties
  imports Store_Operations
begin

text \<open>
  The properties of the repository, each with a witness on a demonstration store: an
  organization with a user, a dispatch namespace with one script, a public app with two
  deployments and split traffic, and a KV namespace that a deployment binds.
\<close>

section \<open>A demonstration store\<close>

fun runOps :: "(Store \<Rightarrow> Store result) list \<Rightarrow> Store \<Rightarrow> Store result" where
  "runOps [] s = Inr s"
| "runOps (f # fs) s = rbind (f s) (runOps fs)"

lemma runOps_reachable:
  "store_reachable s \<Longrightarrow> list_all (\<lambda>f. \<forall>s s'. f s = Inr s' \<longrightarrow> store_step s s') fs \<Longrightarrow> runOps fs s = Inr s' \<Longrightarrow> store_reachable s'"
proof (induction fs arbitrary: s)
  case (Cons f fs)
  then obtain s1 where s1: "f s = Inr s1" "runOps fs s1 = Inr s'" by (auto simp: rbind_Inr_iff)
  then have "store_step s s1" using Cons.prems(2) by simp
  then have "store_reachable s1" using Cons.prems(1) unfolding store_reachable_def by (rule rtranclp.rtrancl_into_rtrancl[rotated])
  then show ?case using Cons s1(2) by simp
qed simp

definition freshApp :: "App \<Rightarrow> Store \<Rightarrow> Store result" where
  "freshApp a s = (if mhas (capabilityToApp s) (App_RuntimeToken a) then Inl ErrAppExists else CreateApp a s)"

definition putBytes :: "string \<Rightarrow> string \<Rightarrow> string \<Rightarrow> Store \<Rightarrow> Store result" where
  "putBytes n k v s = map_sum id snd (KVPutWithSizeDelta [] n k v [] s)"

definition grantNothing :: "string \<Rightarrow> int \<Rightarrow> Store \<Rightarrow> Store result" where
  "grantNothing i revision s = map_sum id snd (StoreSetNamespaceGrants i revision [] 5 s)"

definition demoApp :: App where
  "demoApp = App0\<lparr>App_ID := ''a1'', App_OrgID := ''o1'', App_Hostname := ''h1'', App_RuntimeToken := ''t1''\<rparr>"

definition demoScript :: App where
  "demoScript = App0\<lparr>App_ID := ''a2'', App_OrgID := ''o1'', App_RuntimeToken := ''t2'',
     App_Platform := Some (WorkerPlatform0\<lparr>Platform_NamespaceID := ''n1'', Platform_ScriptName := ''x'',
       Platform_Kind := ''customer'', Platform_Exposure := ''private''\<rparr>)\<rparr>"

definition demoNamespace :: DispatchNamespace where
  "demoNamespace = DispatchNamespace0\<lparr>DNs_ID := ''n1'', DNs_OrgID := ''o1'', DNs_Name := ''n'',
     DNs_Trust := ''trusted'', DNs_CustomerMode := ''organization'', DNs_PolicyRevision := 1\<rparr>"

definition demoDeployment :: "string \<Rightarrow> Deployment" where
  "demoDeployment i = Deployment0\<lparr>Dep_ID := i, Dep_AppID := ''a1'',
     Dep_KVNamespaces := [KVBinding0\<lparr>KVBind_ID := ''k1''\<rparr>]\<rparr>"

definition demoOps :: "(Store \<Rightarrow> Store result) list" where
  "demoOps =
     [CreateUser (User0\<lparr>User_ID := ''u1'', User_Email := ''e''\<rparr>),
      CreateOrganization (Organization0\<lparr>Org_ID := ''o1'', Org_Name := ''o''\<rparr>),
      UpsertOrganizationMembership (OrganizationMembership0\<lparr>Member_UserID := ''u1'', Member_OrgID := ''o1'',
        Member_Role := ''owner''\<rparr>) 1,
      CreatePersonalAccessToken (PersonalAccessToken0\<lparr>PAT_ID := ''p1'', PAT_TokenHash := ''q''\<rparr>),
      CreateControlRefreshToken (ControlRefreshToken0\<lparr>Refresh_TokenHash := ''r''\<rparr>),
      CreateDispatchNamespace demoNamespace, grantNothing ''n1'' 1,
      freshApp demoApp, freshApp demoScript,
      CreateKVNamespace (KVNamespace0\<lparr>KVNs_ID := ''k1'', KVNs_OrgID := ''o1'', KVNs_Name := ''k''\<rparr>),
      Activate (demoDeployment ''d1''), StoreDeployment (demoDeployment ''d2''),
      SetActiveTraffic ''a1'' [\<lparr>Traffic_ID = ''d1'', Traffic_TrafficPercent = 40\<rparr>,
        \<lparr>Traffic_ID = ''d2'', Traffic_TrafficPercent = 60\<rparr>],
      PutSecret ''a1'' (SecretRecord0\<lparr>Secret_Name := ''s''\<rparr>),
      SaveAssetUploadSession (AssetUploadSession0\<lparr>Upload_ID := ''v'', Upload_OrgID := ''o1'',
        Upload_NamespaceID := ''n1'', Upload_Revision := 1, Upload_ExpiresAt := 7\<rparr>) 0,
      putBytes ''k1'' ''b'' ''xyz'', putBytes ''k1'' ''a'' ''12345'']"

definition demoStore :: Store where
  "demoStore = (case runOps demoOps NewStore of Inr s \<Rightarrow> s | Inl _ \<Rightarrow> NewStore)"

lemma store_demo_runs: "\<not> isl (runOps demoOps NewStore)"
  by code_simp

lemma store_demo_run: "runOps demoOps NewStore = Inr demoStore"
  using store_demo_runs unfolding demoStore_def by (cases "runOps demoOps NewStore") simp_all

lemma demo_revision: "DNs_PolicyRevision demoNamespace = 1"
  by (simp add: demoNamespace_def)

lemma store_demo_steps: "list_all (\<lambda>f. \<forall>s s'. f s = Inr s' \<longrightarrow> store_step s s') demoOps"
  unfolding demoOps_def
  by (auto simp: freshApp_def putBytes_def grantNothing_def map_sum_def
      intro: by_identity by_app by_app[OF app_namespace[OF demo_revision]] by_resource by_deploy by_data identity_step.intros app_step.intros
        resource_step.intros deploy_step.intros data_step.intros split: sum.splits if_splits)

lemma store_demo_reachable: "store_reachable demoStore"
  using runOps_reachable[OF _ store_demo_steps store_demo_run] by (simp add: store_reachable_def)


text \<open>What the demonstration store holds, evaluated once.\<close>

lemma demo_apps: "(\<exists>a. mget (apps demoStore) ''a1'' = Some a \<and> App_Hostname a = ''h1'')
    \<and> (\<exists>a. mget (apps demoStore) ''a2'' = Some a \<and> App_RuntimeToken a = ''t2'')
    \<and> mget (capabilityToApp demoStore) ''t1'' = Some ''a1''
    \<and> mentries (mget0 mempty (active demoStore) ''a1'') = [(''d1'', 40), (''d2'', 60)]
    \<and> map_option WPub_Generation (mget (workerPublications demoStore) ''a1'') = Some 2
    \<and> mhas (secrets demoStore) ''a1''"
proof -
  have "map_option App_Hostname (mget (apps demoStore) ''a1'') = Some ''h1''
    \<and> map_option App_RuntimeToken (mget (apps demoStore) ''a2'') = Some ''t2''
    \<and> mget (capabilityToApp demoStore) ''t1'' = Some ''a1''
    \<and> mentries (mget0 mempty (active demoStore) ''a1'') = [(''d1'', 40), (''d2'', 60)]
    \<and> map_option WPub_Generation (mget (workerPublications demoStore) ''a1'') = Some 2
    \<and> mhas (secrets demoStore) ''a1''"
    by code_simp
  then show ?thesis by (simp only: map_option_eq_Some simp_thms)
qed

lemma demo_accounts: "map_option User_Email (mget (users demoStore) ''u1'') = Some ''e''
    \<and> map_option Member_Role (mget2 (memberships demoStore) ''u1'' ''o1'') = Some ''owner''
    \<and> mget (patsByHash demoStore) ''q'' = Some ''p1''
    \<and> map_option DNs_PolicyRevision (mget (dispatchNamespaces demoStore) ''n1'') = Some 2
    \<and> map_option length (mget (namespacePolicies demoStore) ''n1'') = Some 2
    \<and> map_option DNs_OrgID (mget (dispatchNamespaces demoStore) ''n1'') = Some ''o1''
    \<and> selectable ''o1'' ''n1'' demoStore ''a2'' \<and> \<not> selectable ''o1'' ''n1'' demoStore ''a1''"
  by code_simp

lemma demo_values: "mhas (kvNamespaces demoStore) ''k1'' \<and> boundBy (usesKV ''k1'') demoStore
    \<and> chargedBytes ''k1'' demoStore = 8 \<and> kvGuard [] ''k1'' demoStore = Inr ()
    \<and> liveKeys ''k1'' [] 3 demoStore = [''a'', ''b'']"
  by code_simp

section \<open>Apps\<close>

lemma apps_identified:
  assumes "store_reachable s"
  shows "mget (capabilityToApp s) t = Some i \<longleftrightarrow> (\<exists>a. mget (apps s) i = Some a \<and> App_RuntimeToken a = t)"
    and "mget (apps s) i = Some a \<Longrightarrow> App_ID a = i
      \<and> (\<forall>p. App_Platform a = Some p \<longrightarrow> mhas (dispatchNamespaces s) (Platform_NamespaceID p))"
    and "mget (apps s) i = Some a \<Longrightarrow> mget (apps s) j = Some b \<Longrightarrow>
      App_RuntimeToken a = App_RuntimeToken b \<or> App_Hostname a \<noteq> [] \<and> App_Hostname a = App_Hostname b
      \<or> scriptKey a \<noteq> None \<and> scriptKey a = scriptKey b \<Longrightarrow> i = j"
proof -
  have inv: "app_inv s" using assms by (rule app_inv_reachable)
  then have ix: "indexed App_RuntimeToken (apps s) (capabilityToApp s)" by (simp add: app_inv_def)
  then show "mget (capabilityToApp s) t = Some i \<longleftrightarrow> (\<exists>a. mget (apps s) i = Some a \<and> App_RuntimeToken a = t)"
    by (simp add: indexed_def)
  show "mget (apps s) i = Some a \<Longrightarrow> App_ID a = i
      \<and> (\<forall>p. App_Platform a = Some p \<longrightarrow> mhas (dispatchNamespaces s) (Platform_NamespaceID p))"
    using inv unfolding app_inv_def filed_def by blast
  assume ab: "mget (apps s) i = Some a" "mget (apps s) j = Some b"
    "App_RuntimeToken a = App_RuntimeToken b \<or> App_Hostname a \<noteq> [] \<and> App_Hostname a = App_Hostname b
      \<or> scriptKey a \<noteq> None \<and> scriptKey a = scriptKey b"
  have "i = j" if "App_Hostname a \<noteq> []" "App_Hostname a = App_Hostname b"
    using inv ab(1,2) that unfolding app_inv_def unique_key_def by (metis hostKey_def)
  moreover have "i = j" if "scriptKey a \<noteq> None" "scriptKey a = scriptKey b"
    using inv ab(1,2) that unfolding app_inv_def unique_key_def by (metis not_None_eq)
  ultimately show "i = j"
    using ab(3) indexed_inj[OF ix ab(1,2)] by blast
qed

text \<open>C26: In every reachable store each app is filed under its id, no two apps share a non-empty
  hostname, a script name of a namespace, or a runtime token, the capability index maps exactly
  the runtime tokens to their apps, and a script's namespace exists.\<close>

theorem store_apps_identified:
  assumes "store_reachable s"
  shows "(\<forall>t i. mget (capabilityToApp s) t = Some i \<longleftrightarrow> (\<exists>a. mget (apps s) i = Some a \<and> App_RuntimeToken a = t))
    \<and> (\<forall>i a. mget (apps s) i = Some a \<longrightarrow> App_ID a = i
        \<and> (\<forall>p. App_Platform a = Some p \<longrightarrow> mhas (dispatchNamespaces s) (Platform_NamespaceID p)))
    \<and> (\<forall>i j a b. mget (apps s) i = Some a \<longrightarrow> mget (apps s) j = Some b \<longrightarrow>
        App_RuntimeToken a = App_RuntimeToken b \<or> App_Hostname a \<noteq> [] \<and> App_Hostname a = App_Hostname b
        \<or> scriptKey a \<noteq> None \<and> scriptKey a = scriptKey b \<longrightarrow> i = j)"
  using apps_identified[OF assms] by blast

theorem store_apps_identified_witness:
  "mget (capabilityToApp demoStore) ''t2'' = Some ''a2''
    \<and> (\<exists>a. mget (apps demoStore) ''a1'' = Some a \<and> App_ID a = ''a1'')"
proof
  note here = store_apps_identified[OF store_demo_reachable]
  obtain a2 where "mget (apps demoStore) ''a2'' = Some a2" "App_RuntimeToken a2 = ''t2''"
    using demo_apps by blast
  then show "mget (capabilityToApp demoStore) ''t2'' = Some ''a2''"
    using here by blast
  show "\<exists>a. mget (apps demoStore) ''a1'' = Some a \<and> App_ID a = ''a1''"
    using here demo_apps by blast
qed

section \<open>Accounts\<close>

text \<open>In every reachable store the e-mail index and the token-hash index agree with their
  tables in both directions, so no two users share an e-mail and no two tokens a hash, and a
  membership joins an existing user with an existing organization under a normalized role.\<close>

theorem store_accounts_consistent:
  assumes "store_reachable s"
  shows "(\<forall>e i. mget (usersByEmail s) e = Some i \<longleftrightarrow> (\<exists>u. mget (users s) i = Some u \<and> User_Email u = e))
    \<and> (\<forall>h k. mget (patsByHash s) h = Some k \<longleftrightarrow> (\<exists>t. mget (pats s) k = Some t \<and> PAT_TokenHash t = h))
    \<and> (\<forall>u g m. mget2 (memberships s) u g = Some m \<longrightarrow> mhas (users s) u \<and> mhas (organizations s) g
      \<and> Member_UserID m = u \<and> Member_OrgID m = g \<and> NormalizeRole (Member_Role m) = Member_Role m)"
  using identity_inv_reachable[OF assms] member_inv_reachable[OF assms]
  by (simp_all add: identity_inv_def member_inv_def indexed_def)

theorem store_accounts_consistent_witness:
  "(\<exists>u. mget (users demoStore) ''u1'' = Some u \<and> User_Email u = ''e'')
    \<and> (\<exists>t. mget (pats demoStore) ''p1'' = Some t \<and> PAT_TokenHash t = ''q'')
    \<and> mhas (organizations demoStore) ''o1''"
  (is "?u \<and> ?p \<and> ?o")
proof (intro conjI)
  note here = store_accounts_consistent[OF store_demo_reachable]
  show ?u using demo_accounts by auto
  show ?p using demo_accounts here by blast
  obtain m where "mget2 (memberships demoStore) ''u1'' ''o1'' = Some m" using demo_accounts by auto
  then show ?o using here by blast
qed

section \<open>Ownership\<close>

lemma demo_deletable: "\<exists>s. DeleteApp ''a1'' demoStore = Inr s \<and> store_step demoStore s \<and> store_reachable s
    \<and> \<not> mhas (apps s) ''a1''"
proof -
  have "mhas (apps demoStore) ''a1''"
    using demo_apps by (auto simp: mhas_def)
  then obtain s where s: "DeleteApp ''a1'' demoStore = Inr s"
    using deleteAppLocked_total by (auto simp: DeleteApp_def)
  have step: "store_step demoStore s" by (rule by_app[OF app_delete[OF s]])
  then have "store_reachable s"
    using store_demo_reachable unfolding store_reachable_def by (rule rtranclp.rtrancl_into_rtrancl[rotated])
  moreover have "\<not> mhas (apps s) ''a1''"
    using deleteAppLocked_apps[of "''a1''" demoStore s] s by (simp add: DeleteApp_def)
  ultimately show ?thesis using s step by blast
qed

text \<open>C28: Nothing outlives its app: in every reachable store the secrets, deployments, routing,
  variable updates, worker publication and management state of an id, and every artifact and
  publication, belong to an app that exists.\<close>

theorem store_no_orphans:
  assumes "store_reachable s" and "\<not> mhas (apps s) i"
  shows "\<not> mhas (secrets s) i \<and> \<not> mhas (deployments s) i \<and> \<not> mhas (active s) i \<and> \<not> mhas (varsUpdates s) i
    \<and> \<not> mhas (workerPublications s) i \<and> \<not> mhas (management s) i
    \<and> (\<forall>k a. mget (artifacts s) k = Some a \<longrightarrow> Dep_AppID (Art_Deployment a) \<noteq> i)
    \<and> (\<forall>k p. mget (publications s) k = Some p \<longrightarrow> Pub_AppID p \<noteq> i)"
  using owned_inv_reachable[OF assms(1)] assms(2)
  unfolding owned_inv_def owned_def owned_by_def by blast

theorem store_no_orphans_witness:
  "\<exists>s. DeleteApp ''a1'' demoStore = Inr s \<and> \<not> mhas (secrets s) ''a1'' \<and> \<not> mhas (deployments s) ''a1''"
  using demo_deletable store_no_orphans by blast

section \<open>Routing\<close>

text \<open>In every reachable store every deployment that gets traffic is a stored deployment of
  its app, and a worker's acknowledged generation is never ahead of its desired one.\<close>

theorem store_routing_sound:
  assumes "store_reachable s"
  shows "(\<forall>a i percent. mget2 (active s) a i = Some percent \<longrightarrow>
      (\<exists>d \<in> set (mget0 [] (deployments s) a). Dep_ID d = i))
    \<and> (\<forall>a p. mget (workerPublications s) a = Some p \<longrightarrow> WPub_PublishedGeneration p \<le> WPub_Generation p)"
proof (intro conjI allI impI)
  fix a i percent
  assume "mget2 (active s) a i = Some percent"
  then obtain t where "mget (active s) a = Some t" "mhas t i"
    by (auto simp: mget0_def mhas_def split: option.splits)
  then show "\<exists>d \<in> set (mget0 [] (deployments s) a). Dep_ID d = i"
    using routing_inv_reachable[OF assms] unfolding routing_inv_def routed_def idsOf_def by blast
next
  show "WPub_PublishedGeneration p \<le> WPub_Generation p" if "mget (workerPublications s) a = Some p" for a p
    using that publication_inv_reachable[OF assms] unfolding publication_inv_def published_inv_def by blast
qed

theorem store_routing_sound_witness:
  "(\<exists>d \<in> set (mget0 [] (deployments demoStore) ''a1''). Dep_ID d = ''d2'')
    \<and> (\<exists>p. mget (workerPublications demoStore) ''a1'' = Some p \<and> WPub_PublishedGeneration p \<le> 2)"
proof -
  have "mget2 (active demoStore) ''a1'' ''d2'' = Some 60"
    using demo_apps by (simp add: mget_entries)
  moreover obtain p where "mget (workerPublications demoStore) ''a1'' = Some p" "WPub_Generation p = 2"
    using demo_apps by auto
  ultimately show ?thesis
    using store_routing_sound[OF store_demo_reachable] by metis
qed

text \<open>The runs in which a deployment is deleted only after it lost its traffic.\<close>

inductive published_run :: "Store \<Rightarrow> bool" where
  start: "published_run NewStore"
| step: "published_run s \<Longrightarrow> store_step s s' \<Longrightarrow>
    (\<And>i a. DeleteDeployment i s = Inr s' \<Longrightarrow> mget2 (active s) a i = None) \<Longrightarrow> published_run s'"

text \<open>C30: Routing is published: in every run in which a deployment is deleted only after it lost its
  traffic, the desired publication of every worker lists exactly the traffic that is active.\<close>

theorem store_routing_published:
  assumes "published_run s" and "mget (workerPublications s) a = Some p"
  shows "trafficPairs (WPub_Traffic p) = mentries (mget0 mempty (active s) a)"
proof -
  have "in_sync s"
    using assms(1)
  proof (induction rule: published_run.induct)
    case start
    show ?case by (simp add: in_sync_def NewStore_def)
  next
    case (step s s')
    then show ?case using in_sync_step by blast
  qed
  then show ?thesis
    using in_syncD[of s a] assms(2) by (simp add: mget0_def split: option.splits)
qed

theorem store_routing_published_witness:
  "\<exists>s p. published_run s \<and> mget (workerPublications s) ''a1'' = Some p \<and> trafficPairs (WPub_Traffic p) = [(''d1'', 100)]"
proof -
  let ?s1 = "NewStore\<lparr>apps := mput ''a1'' demoApp (apps NewStore),
    capabilityToApp := mput ''t1'' ''a1'' (capabilityToApp NewStore)\<rparr>"
  let ?s2 = "advancePublication ''a1'' (?s1\<lparr>deployments := mput ''a1'' [demoDeployment ''d1''] (deployments ?s1),
    active := mput ''a1'' (mput ''d1'' 100 mempty) (active ?s1)\<rparr>)"
  have "CreateApp demoApp NewStore = Inr ?s1"
    by (simp add: CreateApp_def demoApp_def App0_def NewStore_def mvals_def)
  moreover have "\<not> mhas (capabilityToApp NewStore) (App_RuntimeToken demoApp)" by (simp add: NewStore_def)
  ultimately have "app_step NewStore ?s1" by (rule app_create[rotated])
  then have "published_run ?s1"
    by (rule published_run.step[OF published_run.start by_app]) (simp add: NewStore_def)
  moreover have "Activate (demoDeployment ''d1'') ?s1 = Inr ?s2"
    by (simp add: Activate_def demoDeployment_def Let_def) (simp add: NewStore_def)
  then have "store_step ?s1 ?s2" by (rule by_deploy[OF deploy_activate])
  ultimately have run: "published_run ?s2"
    by (rule published_run.step) (simp add: NewStore_def)
  obtain p where p: "mget (workerPublications ?s2) ''a1'' = Some p" by (simp add: advance_pub)
  have "trafficPairs (WPub_Traffic p) = mentries (mget0 mempty (active ?s2) ''a1'')"
    by (rule store_routing_published[OF run p])
  moreover have "mentries (mget0 mempty (active ?s2) ''a1'') = [(''d1'', 100)]" by simp
  ultimately show ?thesis using run p by (intro exI[of _ ?s2] exI[of _ p]) simp
qed

section \<open>Namespace policies\<close>

text \<open>In every reachable store the policy history of a dispatch namespace is complete: its
  revisions are 1, 2, ... up to the current one, and its last entry holds the current grants.\<close>

theorem store_policy_history:
  assumes "store_reachable s" "mget (dispatchNamespaces s) i = Some ns"
  shows "NamespacePolicies i s \<noteq> [] \<and> map Policy_Revision (NamespacePolicies i s) = map int [1..<Suc (length (NamespacePolicies i s))]
    \<and> Policy_Revision (last (NamespacePolicies i s)) = DNs_PolicyRevision ns
    \<and> Policy_Grants (last (NamespacePolicies i s)) = DNs_Grants ns"
proof -
  obtain ps where ps: "mget (namespacePolicies s) i = Some ps" "history_ok i ns ps"
    using policy_inv_reachable[OF assms(1)] assms(2) unfolding policy_inv_def by blast
  then have n: "NamespacePolicies i s = ps" by (simp add: NamespacePolicies_def mget0_def)
  have "last (map Policy_Revision ps) = int (length ps)"
    using ps(2) by (simp add: history_ok_def Suc_le_eq)
  moreover have "ps \<noteq> []" using ps(2) by (simp add: history_ok_def)
  ultimately have "Policy_Revision (last ps) = int (length ps)" by (metis last_map)
  then show ?thesis
    using ps(2) unfolding n history_ok_def by simp
qed

theorem store_policy_history_witness:
  "map Policy_Revision (NamespacePolicies ''n1'' demoStore) = [1, 2]"
proof -
  obtain ns where ns: "mget (dispatchNamespaces demoStore) ''n1'' = Some ns"
    using demo_accounts by auto
  have "length (NamespacePolicies ''n1'' demoStore) = 2"
    using demo_accounts by (auto simp: NamespacePolicies_def mget0_def split: option.splits)
  then show ?thesis
    using store_policy_history[OF store_demo_reachable ns] by (simp add: upt_rec)
qed

section \<open>Resources\<close>

text \<open>C35: Along every step of the store a resource that a stored deployment binds is not removed,
  and in every reachable store resource names are unique per organization.\<close>

theorem store_resources_protected:
  assumes "store_reachable s" "store_step s s'"
  shows "(\<forall>i. (mhas (kvNamespaces s) i \<and> boundBy (usesKV i) s \<longrightarrow> mhas (kvNamespaces s') i)
      \<and> (mhas (databases s) i \<and> boundBy (usesDatabase i) s \<longrightarrow> mhas (databases s') i)
      \<and> (mhas (objectBuckets s) i \<and> boundBy (usesBucket i) s \<longrightarrow> mhas (objectBuckets s') i))
    \<and> (\<forall>i j x y. mget (kvNamespaces s) i = Some x \<longrightarrow> mget (kvNamespaces s) j = Some y \<longrightarrow>
      KVNs_Name x = KVNs_Name y \<longrightarrow> KVNs_OrgID x = KVNs_OrgID y \<longrightarrow> i = j)
    \<and> (\<forall>i j d e. mget (databases s) i = Some d \<longrightarrow> mget (databases s) j = Some e \<longrightarrow>
      DB_Name d = DB_Name e \<longrightarrow> DB_OrgID d = DB_OrgID e \<longrightarrow> i = j)
    \<and> (\<forall>i j b c. mget (objectBuckets s) i = Some b \<longrightarrow> mget (objectBuckets s) j = Some c \<longrightarrow>
      Bucket_Name b = Bucket_Name c \<longrightarrow> Bucket_OrgID b = Bucket_OrgID c \<longrightarrow> i = j)"
  (is "?kept \<and> ?kv \<and> ?db \<and> ?bucket")
proof (intro conjI)
  show ?kept using kept_store_step[OF assms(2)] by (auto simp: mhas_def)
qed (use resource_inv_reachable[OF assms(1)] in \<open>
    unfold resource_inv_def kv_table.names_ok_def db_table.names_ok_def bucket_table.names_ok_def, blast+\<close>)

theorem store_resources_protected_witness:
  "\<exists>s. DeleteApp ''a1'' demoStore = Inr s \<and> mhas (kvNamespaces s) ''k1''"
  using demo_deletable demo_values store_resources_protected[OF store_demo_reachable] by blast

section \<open>KV accounting\<close>

text \<open>C31: While clients write through the size-reporting methods, every KV namespace is charged
  exactly the bytes of the values it stores, whatever expires or is overwritten or deleted.\<close>

theorem store_kv_charged:
  assumes "metered_step\<^sup>*\<^sup>* NewStore s"
  shows "KVMet_Size (mget0 KVNamespaceMetrics0 (kvMetrics s) n)
    = sum_list (map (\<lambda>(k, v). int (length (KVVal_Value v))) (mentries (mget0 mempty (kv s) n)))"
proof -
  have "chargedBytes n s = storedBytes n s"
    using metered_reachable[OF assms] by (simp add: metered_def)
  then show ?thesis
    by (simp add: chargedBytes_def storedBytes_def msum_def valueSize_def comp_def case_prod_beta')
qed

lemma metered_ops:
  "list_all (\<lambda>f. \<forall>s s'. f s = Inr s' \<longrightarrow> metered_step s s') demoOps"
  unfolding demoOps_def
  by (auto simp: freshApp_def putBytes_def grantNothing_def map_sum_def
      intro: metered_step.intros app_namespace[OF demo_revision] identity_step.intros app_step.intros
        resource_step.intros deploy_step.intros split: sum.splits if_splits)

lemma runOps_metered: "metered_step\<^sup>*\<^sup>* s0 s \<Longrightarrow> list_all (\<lambda>f. \<forall>s s'. f s = Inr s' \<longrightarrow> metered_step s s') fs
    \<Longrightarrow> runOps fs s = Inr s' \<Longrightarrow> metered_step\<^sup>*\<^sup>* s0 s'"
proof (induction fs arbitrary: s)
  case (Cons f fs)
  then obtain s1 where s1: "f s = Inr s1" "runOps fs s1 = Inr s'" by (auto simp: rbind_Inr_iff)
  then have "metered_step\<^sup>*\<^sup>* s0 s1"
    using Cons.prems(1,2) by (auto intro: rtranclp.rtrancl_into_rtrancl)
  then show ?case using Cons s1(2) by simp
qed simp

theorem store_kv_charged_witness:
  "sum_list (map (\<lambda>(k, v). int (length (KVVal_Value v))) (mentries (mget0 mempty (kv demoStore) ''k1''))) = 8"
  using store_kv_charged[OF runOps_metered[OF rtranclp.rtrancl_refl metered_ops store_demo_run], of "''k1''"] demo_values
  by (simp add: chargedBytes_def)

text \<open>C33: Reading page after page, whatever the page size, enumerates the live keys of the prefix, each
  once and in order, and ends after at most one page more than there are keys, provided the keys
  are valid UTF-8 and not empty (the API refuses the empty key) and that the store and the time do
  not change between the pages.\<close>

theorem kv_listing_complete:
  assumes "kvGuard capability n s = Inr ()" "\<forall>k \<in> set (liveKeys n p now s). utf8Valid k"
  shows "drain (Suc (length (liveKeys n p now s))) capability n p limit now [] s = Some (liveKeys n p now s)
    \<and> sorted (liveKeys n p now s) \<and> distinct (liveKeys n p now s)
    \<and> set (liveKeys n p now s) = {k. k \<noteq> [] \<and> prefix p k \<and> (\<exists>v. mget2 (kv s) n k = Some v \<and> \<not> runtimeKVExpired v now)}"
  using drain_all[OF assms] sorted_liveKeys[of n p now s]
  by (auto simp: set_liveKeys hasPrefix_def liveAt_def split: option.splits)

theorem kv_listing_complete_witness:
  "drain 3 [] ''k1'' [] 1 3 [] demoStore = Some [''a'', ''b'']"
proof -
  have "utf8Valid ''a''" "utf8Valid ''b''" by code_simp+
  then show ?thesis
    using demo_values kv_listing_complete[of "[]" "''k1''" demoStore "[]" 3 1] by (simp add: numeral_3_eq_3)
qed

text \<open>C40: A cursor decodes to the key it was made from, exactly for the keys that are valid UTF-8:
  after a page that ends at any other key the next page is refused.\<close>

theorem kv_cursor_roundtrip:
  assumes "k \<noteq> []"
  shows "DecodeRuntimeKVCursor (EncodeRuntimeKVCursor k) = (if utf8Valid k then Inr k else Inl ErrInvalidKVCursor)"
  using cursor_nonempty[OF assms]
  by (simp add: DecodeRuntimeKVCursor_def) (simp add: EncodeRuntimeKVCursor_def base64_roundtrip)

theorem kv_cursor_roundtrip_witness: "DecodeRuntimeKVCursor (EncodeRuntimeKVCursor ''a'') = Inr ''a''"
proof -
  have "utf8Valid ''a''" by code_simp
  then show ?thesis using kv_cursor_roundtrip[of "''a''"] by simp
qed

section \<open>Operations\<close>

text \<open>C39: Deleting the scripts of a namespace is all or nothing: when every selected id is a distinct
  customer script of the namespace and the organization, exactly these apps are deleted, and
  otherwise the call fails with a conflict.\<close>

theorem namespace_deletion_atomic:
  assumes "mget (dispatchNamespaces s) namespace = Some ns" "DNs_OrgID ns = org"
  shows "if distinct ids \<and> list_all (selectable org namespace s) ids
    then \<exists>s'. DeleteNamespaceScripts org namespace ids s = Inr s'
      \<and> (\<forall>i. mget (apps s') i = (if i \<in> set ids then None else mget (apps s) i))
    else DeleteNamespaceScripts org namespace ids s = Inl ErrNamespaceDeletionConflict"
  using assms by (rule DeleteNamespaceScripts_all_or_nothing)

theorem namespace_deletion_atomic_witness:
  "DeleteNamespaceScripts ''o1'' ''n1'' [''a2'', ''a1''] demoStore = Inl ErrNamespaceDeletionConflict
    \<and> (\<exists>s. DeleteNamespaceScripts ''o1'' ''n1'' [''a2''] demoStore = Inr s)"
proof -
  obtain ns where n: "mget (dispatchNamespaces demoStore) ''n1'' = Some ns" "DNs_OrgID ns = ''o1''"
    using demo_accounts by auto
  show ?thesis
    using namespace_deletion_atomic[OF n, of "[''a2'', ''a1'']"] namespace_deletion_atomic[OF n, of "[''a2'']"]
      demo_accounts by auto
qed

text \<open>A writer with a stale revision loses: after a write that expected one revision of an
  upload session, of a script's management state or of a namespace policy has succeeded, every
  other write that expects the same revision is refused as a conflict.\<close>

theorem stale_writes_refused:
  "(SaveAssetUploadSession v expected s = Inr s' \<and> Upload_ID w = Upload_ID v \<longrightarrow>
      SaveAssetUploadSession w expected s' = Inl ErrManagementConflict)
    \<and> (CommitScriptManagementState m expected s = Inr s' \<and> Mgmt_WorkerID m' = Mgmt_WorkerID m
        \<and> Mgmt_OrgID m' = Mgmt_OrgID m \<and> Mgmt_DeploymentID m' = Mgmt_DeploymentID m \<longrightarrow>
      CommitScriptManagementState m' expected s' = Inl ErrManagementConflict)
    \<and> (StoreSetNamespaceGrants i expected grants now s = Inr (ns, s') \<longrightarrow>
      StoreSetNamespaceGrants i expected grants' now' s' = Inl ErrNamespacePolicyConflict
      \<and> DNs_PolicyRevision ns = expected + 1)"
  using stale_upload[of v expected s s' w] stale_management[of m expected s s' m']
    stale_grants[of i expected grants now s ns s'] by blast

theorem stale_writes_refused_witness:
  "\<exists>ns s. StoreSetNamespaceGrants ''n1'' 2 [] 5 demoStore = Inr (ns, s)
    \<and> StoreSetNamespaceGrants ''n1'' 2 [NamespaceResourceGrant0] 6 s = Inl ErrNamespacePolicyConflict"
proof -
  obtain n where "mget (dispatchNamespaces demoStore) ''n1'' = Some n" "DNs_PolicyRevision n = 2"
    using demo_accounts by auto
  then obtain ns s where "StoreSetNamespaceGrants ''n1'' 2 [] 5 demoStore = Inr (ns, s)"
    by (simp add: StoreSetNamespaceGrants_def Let_def)
  then show ?thesis using stale_writes_refused by blast
qed

text \<open>Of two callers that revoke the same control refresh token, the second is refused: a
  refresh token is rotated at most once.\<close>

theorem refresh_token_single_use:
  assumes "UpdateControlRefreshToken t s = Inr s'" "Refresh_RevokedAt t \<noteq> None"
    and "Refresh_TokenHash u = Refresh_TokenHash t" "Refresh_RevokedAt u \<noteq> None"
  shows "UpdateControlRefreshToken u s' = Inl ErrControlRefreshTokenNotFound"
  using assms by (rule revoke_once)

theorem refresh_token_single_use_witness:
  "\<exists>s. UpdateControlRefreshToken (ControlRefreshToken0\<lparr>Refresh_TokenHash := ''r'', Refresh_RevokedAt := Some 4\<rparr>) demoStore = Inr s
    \<and> UpdateControlRefreshToken (ControlRefreshToken0\<lparr>Refresh_TokenHash := ''r'', Refresh_RevokedAt := Some 5\<rparr>) s
        = Inl ErrControlRefreshTokenNotFound"
proof -
  have "\<not> isl (UpdateControlRefreshToken (ControlRefreshToken0\<lparr>Refresh_TokenHash := ''r'', Refresh_RevokedAt := Some 4\<rparr>) demoStore)"
    by code_simp
  then obtain s where s: "UpdateControlRefreshToken
      (ControlRefreshToken0\<lparr>Refresh_TokenHash := ''r'', Refresh_RevokedAt := Some 4\<rparr>) demoStore = Inr s"
    using isl_def sum.exhaust by metis
  show ?thesis using s refresh_token_single_use[OF s] by (intro exI[of _ s]) simp
qed

text \<open>A cleanup batch removes at most its limit of upload sessions, at most 256, reports how many it
  removed, removes only sessions that expired or lost their namespace, and leaves none of these
  behind when it stops below the limit.\<close>

theorem upload_cleanup_bounded:
  assumes "PruneAssetUploadSessions now limit s = Inr (n, s')"
  shows "0 \<le> n \<and> n \<le> limit \<and> limit \<le> 256
    \<and> int (mlen (assetUploads s)) = int (mlen (assetUploads s')) + n
    \<and> (\<forall>i. mget (assetUploads s') i = mget (assetUploads s) i
         \<or> mget (assetUploads s') i = None \<and> (\<exists>u. mget (assetUploads s) i = Some u \<and> deadUpload now s u))
    \<and> (n < limit \<longrightarrow> (\<forall>i u. mget (assetUploads s') i = Some u \<longrightarrow> \<not> deadUpload now s u))"
  using assms by (rule prune_spec)

theorem upload_cleanup_bounded_witness:
  "\<exists>s. PruneAssetUploadSessions 9 2 demoStore = Inr (1, s) \<and> mlen (assetUploads demoStore) = mlen (assetUploads s) + 1"
proof -
  have "map_sum id fst (PruneAssetUploadSessions 9 2 demoStore) = Inr 1" by code_simp
  then obtain s where s: "PruneAssetUploadSessions 9 2 demoStore = Inr (1, s)"
    by (cases "PruneAssetUploadSessions 9 2 demoStore") auto
  show ?thesis using s upload_cleanup_bounded[OF s] by auto
qed

end
