(* ===== verification/Dispatch_State.thy ===== *)
theory Dispatch_State
  imports Store_State
begin

text \<open>
  The state of dynamic dispatch: \<open>dispatch.go\<close>, \<open>dispatch_root.go\<close> and
  \<open>dispatch_observation.go\<close>. Every critical section of \<open>dispatch.mu\<close> is one function from a
  state to a result and a new state; a section that fails after it has changed something
  returns the changed state. \<open>now\<close> is the value of \<open>time.Now()\<close> in the section. The leases and
  roots are reached through the two maps only, so updating the entry is updating the object.

  A \<open>context.Context\<close> is an index into the list of the contexts made so far: it has a parent
  (none for \<open>context.Background\<close>), a deadline, and a mark that its cancel function was called.
  \<open>time.AfterFunc(d, cancel)\<close> cancels at a later time, which lowers the deadline. The two fields
  \<open>Context\<close> and \<open>Cancel\<close> of the source are set together and are one optional index here.
  A release callback is a number; the log \<open>disp_released\<close> holds the calls with the time for
  which they are scheduled.
\<close>

section \<open>Data\<close>

record RuntimeGrant =
  RG_InstanceID :: string
  RG_OrgID :: string
  RG_AppID :: string
  RG_DeploymentID :: string
  RG_Kind :: string
  RG_ResourceID :: string

record RuntimePrincipal =
  Prin_Grant :: RuntimeGrant
  Prin_App :: App
  Prin_Deployment :: Deployment

record dispatchContext =
  ctx_parent :: "nat option"
  ctx_deadline :: time
  ctx_cancelled :: bool

record dispatchLease =
  lse_AdmittedAt :: time
  lse_Observed :: bool
  lse_LogLines :: int
  lse_Context :: "nat option"
  lse_TransportToken :: string
  lse_Parent :: string
  lse_Depth :: int
  lse_Root :: string
  lse_CallerToken :: string
  lse_Caller :: RuntimeGrant
  lse_Target :: ActiveDeployment
  lse_Deadline :: time
  lse_Expires :: time
  lse_Finished :: bool
  lse_Remaining :: int

record dispatchRoot =
  root_Context :: "nat option"
  root_InstanceID :: string
  root_AppID :: string
  root_DeploymentID :: string
  root_Deadline :: time
  root_Expires :: time
  root_Finished :: bool
  root_Cancelled :: bool
  root_Remaining :: int
  root_Release :: "nat option"

record DispatchObservation =
  Obs_WorkerID :: string
  Obs_DeploymentID :: string
  Obs_RequestChainID :: string
  Obs_InvocationID :: string
  Obs_ParentInvocationID :: string
  Obs_At :: time
  Obs_ElapsedMS :: rat
  Obs_Outcome :: string

record DispatchCounters =
  Cnt_Invocations :: nat
  Cnt_Completed :: nat
  Cnt_Canceled :: nat
  Cnt_ElapsedTotalMS :: rat

definition DispatchCounters0 :: DispatchCounters where
  "DispatchCounters0 = \<lparr>Cnt_Invocations = 0, Cnt_Completed = 0, Cnt_Canceled = 0, Cnt_ElapsedTotalMS = 0\<rparr>"

text \<open>\<open>disp_events\<close> lists what was passed to the observation sink, \<open>disp_dropped\<close> counts the
  dropped telemetry.\<close>

record dispatchRuntime =
  disp_enabled :: bool
  disp_leases :: "(string, dispatchLease) gomap"
  disp_roots :: "(string, dispatchRoot) gomap"
  disp_observe :: bool
  disp_counts :: "(string, DispatchCounters) gomap"
  disp_contexts :: "dispatchContext list"
  disp_events :: "DispatchObservation list"
  disp_released :: "(time \<times> nat) list"
  disp_dropped :: nat

definition dispatchRuntime0 :: dispatchRuntime where
  "dispatchRuntime0 = \<lparr>disp_enabled = False, disp_leases = mempty, disp_roots = mempty,
     disp_observe = False, disp_counts = mempty, disp_contexts = [], disp_events = [],
     disp_released = [], disp_dropped = 0\<rparr>"

definition defaultInvocationSubrequestBudget :: int where
  "defaultInvocationSubrequestBudget = 10000"

text \<open>The source dereferences \<open>app.Platform\<close> only for apps of a namespace.\<close>

definition platformOf :: "App \<Rightarrow> WorkerPlatform" where
  "platformOf app = (case App_Platform app of None \<Rightarrow> WorkerPlatform0 | Some p \<Rightarrow> p)"

section \<open>Contexts\<close>

definition withDeadline :: "nat option \<Rightarrow> time \<Rightarrow> dispatchRuntime \<Rightarrow> nat \<times> dispatchRuntime" where
  "withDeadline parent deadline rt = (length (disp_contexts rt),
     rt\<lparr>disp_contexts := disp_contexts rt
          @ [\<lparr>ctx_parent = parent, ctx_deadline = deadline, ctx_cancelled = False\<rparr>]\<rparr>)"

definition updContext :: "(dispatchContext \<Rightarrow> dispatchContext) \<Rightarrow> nat option \<Rightarrow> dispatchRuntime
    \<Rightarrow> dispatchRuntime" where
  "updContext f c rt = (case c of None \<Rightarrow> rt
     | Some i \<Rightarrow> if i < length (disp_contexts rt)
         then rt\<lparr>disp_contexts := (disp_contexts rt)[i := f (disp_contexts rt ! i)]\<rparr> else rt)"

definition cancelContext :: "nat option \<Rightarrow> dispatchRuntime \<Rightarrow> dispatchRuntime" where
  "cancelContext = updContext (\<lambda>c. c\<lparr>ctx_cancelled := True\<rparr>)"

definition cancelAt :: "time \<Rightarrow> nat option \<Rightarrow> dispatchRuntime \<Rightarrow> dispatchRuntime" where
  "cancelAt t = updContext (\<lambda>c. c\<lparr>ctx_deadline := minTime (ctx_deadline c) t\<rparr>)"

definition cancelContexts :: "nat option list \<Rightarrow> dispatchRuntime \<Rightarrow> dispatchRuntime" where
  "cancelContexts cs rt = fold cancelContext cs rt"

text \<open>\<open>ctx.Err() != nil\<close>: cancelled, past the deadline, or below a context that is done. A
  context is made after its parent.\<close>

fun ctxDone :: "time \<Rightarrow> dispatchContext list \<Rightarrow> nat \<Rightarrow> bool" where
  "ctxDone now cs i = (i < length cs \<and>
     (ctx_cancelled (cs ! i) \<or> ctx_deadline (cs ! i) \<le> now
      \<or> (case ctx_parent (cs ! i) of None \<Rightarrow> False
         | Some p \<Rightarrow> if p < i then ctxDone now cs p else False)))"

declare ctxDone.simps [simp del]

section \<open>Observations\<close>

text \<open>\<open>correlationID\<close>: a hash of a token, the empty string for none. The parameter \<open>h\<close> is the
  hex of the first half of SHA-256.\<close>

definition correlationID :: "(string \<Rightarrow> string) \<Rightarrow> string \<Rightarrow> string" where
  "correlationID h v = (if v = [] then [] else h v)"

definition admitDispatchObservationLocked :: "string \<Rightarrow> dispatchRuntime \<Rightarrow> dispatchRuntime" where
  "admitDispatchObservationLocked worker rt =
     (if \<not> mhas (disp_counts rt) worker \<and> mlen (disp_counts rt) \<ge> 4096
      then rt\<lparr>disp_dropped := disp_dropped rt + 1\<rparr>
      else (let count = mget0 DispatchCounters0 (disp_counts rt) worker in
        rt\<lparr>disp_counts := mput worker (count\<lparr>Cnt_Invocations := Cnt_Invocations count + 1\<rparr>)
             (disp_counts rt)\<rparr>))"

definition countOutcome :: "string \<Rightarrow> rat \<Rightarrow> DispatchCounters \<Rightarrow> DispatchCounters" where
  "countOutcome outcome elapsed count =
     (if outcome = ''completed'' then count\<lparr>Cnt_Completed := Cnt_Completed count + 1,
        Cnt_ElapsedTotalMS := Cnt_ElapsedTotalMS count + elapsed\<rparr>
      else count\<lparr>Cnt_Canceled := Cnt_Canceled count + 1,
        Cnt_ElapsedTotalMS := Cnt_ElapsedTotalMS count + elapsed\<rparr>)"

text \<open>The caller collects the event and passes it to the sink, if one is set, after the
  section.\<close>

definition observeDispatchLocked :: "(string \<Rightarrow> string) \<Rightarrow> string \<Rightarrow> string \<Rightarrow> time
    \<Rightarrow> dispatchRuntime \<Rightarrow> dispatchRuntime" where
  "observeDispatchLocked h token outcome now rt =
     (case mget (disp_leases rt) token of
        None \<Rightarrow> rt
      | Some lease \<Rightarrow>
          if lse_Observed lease \<or> lse_AdmittedAt lease = 0 then rt
          else (let chain = (if lse_Root lease = [] then token else lse_Root lease);
                    worker = App_ID (Active_App (lse_Target lease));
                    elapsed = max 0 (rat_of_int (now - lse_AdmittedAt lease) / 1000000);
                    event = \<lparr>Obs_WorkerID = worker,
                      Obs_DeploymentID = Dep_ID (Active_Deployment (lse_Target lease)),
                      Obs_RequestChainID = correlationID h chain, Obs_InvocationID = correlationID h token,
                      Obs_ParentInvocationID = correlationID h (lse_Parent lease), Obs_At = now,
                      Obs_ElapsedMS = elapsed, Obs_Outcome = outcome\<rparr>
                in rt\<lparr>disp_leases := mput token (lease\<lparr>lse_Observed := True\<rparr>) (disp_leases rt),
                     disp_counts := (case mget (disp_counts rt) worker of None \<Rightarrow> disp_counts rt
                        | Some count \<Rightarrow> mput worker (countOutcome outcome elapsed count) (disp_counts rt)),
                     disp_events := (if disp_observe rt then disp_events rt @ [event] else disp_events rt)\<rparr>))"

definition SetDispatchObservationSink :: "bool \<Rightarrow> dispatchRuntime \<Rightarrow> dispatchRuntime" where
  "SetDispatchObservationSink sink rt = rt\<lparr>disp_observe := sink\<rparr>"

definition DispatchCountersOf :: "string \<Rightarrow> dispatchRuntime \<Rightarrow> DispatchCounters" where
  "DispatchCountersOf worker rt = mget0 DispatchCounters0 (disp_counts rt) worker"

section \<open>Enabling dispatch\<close>

definition PlatformDispatchEnabled :: "dispatchRuntime \<Rightarrow> bool" where
  "PlatformDispatchEnabled rt = disp_enabled rt"

definition heldReleases :: "time \<Rightarrow> (string, dispatchRoot) gomap \<Rightarrow> (time \<times> nat) list" where
  "heldReleases now roots = concat (map (\<lambda>r. case root_Release r of None \<Rightarrow> [] | Some f \<Rightarrow> [(now, f)])
     (mvals roots))"

definition SetPlatformDispatchEnabled :: "bool \<Rightarrow> time \<Rightarrow> dispatchRuntime \<Rightarrow> dispatchRuntime" where
  "SetPlatformDispatchEnabled enabled now rt =
     (if enabled then rt\<lparr>disp_enabled := True\<rparr>
      else (cancelContexts (map root_Context (mvals (disp_roots rt))
               @ map lse_Context (mvals (disp_leases rt))) rt)
           \<lparr>disp_enabled := False, disp_leases := mempty, disp_roots := mempty,
            disp_released := disp_released rt @ heldReleases now (disp_roots rt)\<rparr>)"

section \<open>Ingress roots\<close>

definition purgeRoots :: "time \<Rightarrow> dispatchRuntime \<Rightarrow> dispatchRuntime" where
  "purgeRoots now rt =
     (cancelContexts (map root_Context (filter (\<lambda>r. \<not> now < root_Expires r) (mvals (disp_roots rt)))) rt)
     \<lparr>disp_roots := mfilter (\<lambda>(_, r). now < root_Expires r) (disp_roots rt)\<rparr>"

definition beginRootLocked :: "string \<Rightarrow> ActiveDeployment \<Rightarrow> time \<Rightarrow> dispatchRuntime
    \<Rightarrow> (string \<times> time) result \<times> dispatchRuntime" where
  "beginRootLocked token item now rt =
     (let rt1 = purgeRoots now rt; deadline = now + 30 * second in
      if mlen (disp_roots rt1) \<ge> 1024 then (Inl ErrDispatchOverloaded, rt1)
      else (let (c, rt2) = withDeadline None deadline rt1 in
        (Inr (token, deadline), rt2\<lparr>disp_roots := mput token
           \<lparr>root_Context = Some c, root_InstanceID = [], root_AppID = App_ID (Active_App item),
            root_DeploymentID = Dep_ID (Active_Deployment item), root_Deadline = deadline,
            root_Expires = deadline, root_Finished = False, root_Cancelled = False,
            root_Remaining = defaultInvocationSubrequestBudget, root_Release = None\<rparr> (disp_roots rt2)\<rparr>)))"

definition BeginDispatchRoot :: "string result \<Rightarrow> ActiveDeployment \<Rightarrow> time \<Rightarrow> dispatchRuntime
    \<Rightarrow> (string \<times> time) result \<times> dispatchRuntime" where
  "BeginDispatchRoot randomToken item now rt =
     (if \<not> disp_enabled rt then (Inl ErrDispatchUnavailable, rt)
      else case randomToken of
          Inl e \<Rightarrow> (Inl e, rt)
        | Inr token \<Rightarrow> beginRootLocked token item now rt)"

text \<open>The leases of a root end with it: their expiry is lowered and, when the request was
  cancelled, they are observed.\<close>

definition boundLeases :: "(dispatchLease \<Rightarrow> bool) \<Rightarrow> time \<Rightarrow> (string, dispatchLease) gomap
    \<Rightarrow> (string, dispatchLease) gomap" where
  "boundLeases which e = mmap (\<lambda>_ l. if which l then l\<lparr>lse_Expires := minTime (lse_Expires l) e\<rparr> else l)"

definition leasesOfRoot :: "string \<Rightarrow> (string, dispatchLease) gomap \<Rightarrow> string list" where
  "leasesOfRoot i ls = map fst (filter (\<lambda>(_, l). lse_Root l = i) (mentries ls))"

definition EndDispatchRoot :: "(string \<Rightarrow> string) \<Rightarrow> string \<Rightarrow> bool \<Rightarrow> time \<Rightarrow> dispatchRuntime \<Rightarrow> dispatchRuntime" where
  "EndDispatchRoot h i cancel now rt =
     (case mget (disp_roots rt) i of
        None \<Rightarrow> rt
      | Some ingress \<Rightarrow>
          (let ingress1 = (if cancel then ingress\<lparr>root_Cancelled := True, root_Expires := now\<rparr> else ingress);
               ingress2 = (if root_Finished ingress1 then ingress1
                        else ingress1\<lparr>root_Finished := True,
                               root_Expires := minTime (root_Expires ingress1) (now + 2 * second)\<rparr>);
               rt1 = rt\<lparr>disp_leases := boundLeases (\<lambda>l. lse_Root l = i) (root_Expires ingress2) (disp_leases rt)\<rparr>;
               rt2 = (if cancel then fold (\<lambda>t. observeDispatchLocked h t ''canceled'' now)
                        (leasesOfRoot i (disp_leases rt1)) rt1 else rt1);
               rt3 = cancelAt (root_Expires ingress2) (root_Context ingress2)
                 (rt2\<lparr>disp_roots := mput i (ingress2\<lparr>root_Release := None\<rparr>) (disp_roots rt2)\<rparr>)
           in case root_Release ingress2 of None \<Rightarrow> rt3
              | Some f \<Rightarrow> rt3\<lparr>disp_released := disp_released rt3 @ [(max (root_Expires ingress2) now, f)]\<rparr>))"

definition HoldDispatchRoot :: "string \<Rightarrow> nat \<Rightarrow> time \<Rightarrow> dispatchRuntime \<Rightarrow> dispatchRuntime" where
  "HoldDispatchRoot i release now rt =
     (case mget (disp_roots rt) i of
        None \<Rightarrow> rt\<lparr>disp_released := disp_released rt @ [(now, release)]\<rparr>
      | Some ingress \<Rightarrow>
          if root_Finished ingress \<or> root_Cancelled ingress
          then rt\<lparr>disp_released := disp_released rt @ [(max (root_Expires ingress) now, release)]\<rparr>
          else rt\<lparr>disp_roots := mput i (ingress\<lparr>root_Release := Some release\<rparr>) (disp_roots rt)\<rparr>)"

section \<open>Admission\<close>

definition purgeLeases :: "time \<Rightarrow> dispatchRuntime \<Rightarrow> dispatchRuntime" where
  "purgeLeases now rt =
     (cancelContexts (map lse_Context (filter (\<lambda>l. \<not> now < lse_Expires l) (mvals (disp_leases rt)))) rt)
     \<lparr>disp_leases := mfilter (\<lambda>(_, l). now < lse_Expires l) (disp_leases rt)\<rparr>"

definition inNamespace :: "string \<Rightarrow> dispatchLease \<Rightarrow> bool" where
  "inNamespace namespace l = (Platform_NamespaceID (platformOf (Active_App (lse_Target l))) = namespace)"

definition ofCustomer :: "string \<Rightarrow> string \<Rightarrow> dispatchLease \<Rightarrow> bool" where
  "ofCustomer namespace customer l = (inNamespace namespace l
     \<and> Platform_CustomerID (platformOf (Active_App (lse_Target l))) = customer)"

text \<open>The parent of a nested dispatch: it must still be live, used by the same transport, and
  belong to the same ingress.\<close>

definition parentDeadline :: "string \<Rightarrow> string \<Rightarrow> string \<Rightarrow> int \<Rightarrow> time \<Rightarrow> time \<Rightarrow> dispatchRuntime \<Rightarrow> time result" where
  "parentDeadline parentID transportToken rootID depth now deadline rt =
     (if parentID = [] then Inr deadline
      else case mget (disp_leases rt) parentID of
          None \<Rightarrow> Inl ErrInvocationExpired
        | Some parent \<Rightarrow>
            if \<not> now < lse_Expires parent \<or> lse_TransportToken parent \<noteq> transportToken
               \<or> lse_Root parent \<noteq> rootID \<or> depth > 8
            then Inl ErrInvocationExpired
            else Inr (minTime deadline (lse_Expires parent)))"

text \<open>The root pays one unit per admission; the first admission ties it to the caller's
  instance. The charge stays when the admission is refused later.\<close>

definition chargeRoot :: "string \<Rightarrow> RuntimePrincipal \<Rightarrow> int \<Rightarrow> time \<Rightarrow> time \<Rightarrow> dispatchRuntime
    \<Rightarrow> time result \<times> dispatchRuntime" where
  "chargeRoot rootID caller depth now deadline rt =
     (if rootID = [] then (Inr deadline, rt)
      else case mget (disp_roots rt) rootID of
          None \<Rightarrow> (Inl ErrInvocationExpired, rt)
        | Some ingress \<Rightarrow>
            if root_Cancelled ingress \<or> \<not> now < root_Expires ingress
               \<or> (depth = 0 \<and> (root_AppID ingress \<noteq> App_ID (Prin_App caller)
                    \<or> root_DeploymentID ingress \<noteq> Dep_ID (Prin_Deployment caller)))
            then (Inl ErrInvocationExpired, rt)
            else if depth = 0 \<and> root_InstanceID ingress \<noteq> []
               \<and> root_InstanceID ingress \<noteq> RG_InstanceID (Prin_Grant caller)
            then (Inl ErrInvocationExpired, rt)
            else (let ingress1 = (if depth = 0 then ingress\<lparr>root_InstanceID := RG_InstanceID (Prin_Grant caller)\<rparr> else ingress) in
              if root_Remaining ingress1 < 1
              then (Inl ErrSubrequestLimit, rt\<lparr>disp_roots := mput rootID ingress1 (disp_roots rt)\<rparr>)
              else (Inr (minTime deadline (root_Expires ingress1)),
                rt\<lparr>disp_roots := mput rootID (ingress1\<lparr>root_Remaining := root_Remaining ingress1 - 1\<rparr>) (disp_roots rt)\<rparr>)))"

definition parentContext :: "string \<Rightarrow> string \<Rightarrow> dispatchRuntime \<Rightarrow> nat option" where
  "parentContext rootID parentID rt =
     (let fromRoot = (case mget (disp_roots rt) rootID of None \<Rightarrow> None | Some ingress \<Rightarrow> root_Context ingress) in
      case mget (disp_leases rt) parentID of
        None \<Rightarrow> fromRoot
      | Some parent \<Rightarrow> (case lse_Context parent of None \<Rightarrow> fromRoot | Some c \<Rightarrow> Some c))"

definition acquireLocked :: "string \<Rightarrow> string \<Rightarrow> string \<Rightarrow> RuntimePrincipal \<Rightarrow> App \<Rightarrow> ActiveDeployment
    \<Rightarrow> string \<Rightarrow> string \<Rightarrow> int \<Rightarrow> time \<Rightarrow> dispatchRuntime \<Rightarrow> time result \<times> dispatchRuntime" where
  "acquireLocked token callerToken transportToken caller app selected rootID parentID depth now rt =
     (case parentDeadline parentID transportToken rootID depth now (now + 30 * second) rt of
        Inl e \<Rightarrow> (Inl e, rt)
      | Inr deadline1 \<Rightarrow>
          (case chargeRoot rootID caller depth now deadline1 rt of
             (Inl e, rt1) \<Rightarrow> (Inl e, rt1)
           | (Inr deadline, rt1) \<Rightarrow>
               (let rt2 = purgeLeases now rt1;
                    namespace = Platform_NamespaceID (platformOf app);
                    customer = Platform_CustomerID (platformOf app)
                in if mlen (disp_leases rt2) \<ge> 1024
                      \<or> mcount (\<lambda>_. inNamespace namespace) (disp_leases rt2) \<ge> 128
                      \<or> mcount (\<lambda>_. ofCustomer namespace customer) (disp_leases rt2) \<ge> 32
                   then (Inl ErrDispatchOverloaded, rt2)
                   else (let (c, rt3) = withDeadline (parentContext rootID parentID rt2) deadline rt2 in
                     (Inr deadline, admitDispatchObservationLocked (App_ID app)
                        (rt3\<lparr>disp_leases := mput token
                           \<lparr>lse_AdmittedAt = now, lse_Observed = False, lse_LogLines = 0,
                            lse_Context = Some c, lse_TransportToken = transportToken,
                            lse_Parent = parentID, lse_Depth = depth, lse_Root = rootID,
                            lse_CallerToken = callerToken, lse_Caller = Prin_Grant caller,
                            lse_Target = selected, lse_Deadline = deadline, lse_Expires = deadline,
                            lse_Finished = False, lse_Remaining = defaultInvocationSubrequestBudget\<rparr>
                           (disp_leases rt3)\<rparr>))))))"

section \<open>Using a lease\<close>

text \<open>The section of \<open>authorizeInvocation\<close>: an expired lease is cancelled and removed.\<close>

definition invocationLocked :: "string \<Rightarrow> time \<Rightarrow> dispatchRuntime \<Rightarrow> dispatchLease result \<times> dispatchRuntime" where
  "invocationLocked token now rt =
     (case mget (disp_leases rt) token of
        None \<Rightarrow> (Inl ErrInvocationExpired, rt)
      | Some lease \<Rightarrow>
          if \<not> now < lse_Expires lease
          then (Inl ErrInvocationExpired,
                (cancelContext (lse_Context lease) rt)\<lparr>disp_leases := mdel token (disp_leases rt)\<rparr>)
          else if lse_Root lease \<noteq> [] \<and> (case mget (disp_roots rt) (lse_Root lease) of None \<Rightarrow> True
                 | Some ingress \<Rightarrow> root_Cancelled ingress \<or> \<not> now < root_Expires ingress)
          then (Inl ErrInvocationExpired, rt)
          else (Inr lease, rt))"

text \<open>The section of \<open>DispatchEffect\<close>: the root pays before the lease, also for an effect the
  lease then refuses.\<close>

definition effectLocked :: "string \<Rightarrow> string \<Rightarrow> int \<Rightarrow> time \<Rightarrow> dispatchRuntime \<Rightarrow> unit result \<times> dispatchRuntime" where
  "effectLocked callerToken leaseToken cost now rt =
     (case mget (disp_leases rt) leaseToken of
        None \<Rightarrow> (Inl ErrInvocationExpired, rt)
      | Some lease \<Rightarrow>
          if lse_TransportToken lease \<noteq> callerToken \<or> \<not> now < lse_Expires lease
          then (Inl ErrInvocationExpired, rt)
          else (case (if lse_Root lease = [] then (Inr (), rt)
                 else case mget (disp_roots rt) (lse_Root lease) of
                     None \<Rightarrow> (Inl ErrInvocationExpired, rt)
                   | Some ingress \<Rightarrow>
                       if root_Cancelled ingress \<or> \<not> now < root_Expires ingress then (Inl ErrInvocationExpired, rt)
                       else if cost < 1 \<or> cost > root_Remaining ingress then (Inl ErrSubrequestLimit, rt)
                       else (Inr (), rt\<lparr>disp_roots := mput (lse_Root lease)
                          (ingress\<lparr>root_Remaining := root_Remaining ingress - cost\<rparr>) (disp_roots rt)\<rparr>))
                of (Inl e, rt1) \<Rightarrow> (Inl e, rt1)
                 | (Inr _, rt1) \<Rightarrow>
                     if cost < 1 \<or> cost > lse_Remaining lease then (Inl ErrSubrequestLimit, rt1)
                     else (Inr (), rt1\<lparr>disp_leases := mput leaseToken
                        (lease\<lparr>lse_Remaining := lse_Remaining lease - cost\<rparr>) (disp_leases rt1)\<rparr>)))"

text \<open>The section of \<open>AcquireServiceDispatch\<close>: the root and the depth of a nested dispatch.\<close>

definition serviceParentLocked :: "string \<Rightarrow> string \<Rightarrow> dispatchRuntime \<Rightarrow> (string \<times> int) result" where
  "serviceParentLocked transportToken parentToken rt =
     (case mget (disp_leases rt) parentToken of
        None \<Rightarrow> Inl ErrRuntimeGrantDenied
      | Some parent \<Rightarrow>
          if lse_Depth parent \<ge> 8 then Inl ErrDispatchDepth
          else if lse_TransportToken parent \<noteq> transportToken \<or> lse_Root parent = []
          then Inl ErrRuntimeGrantDenied
          else Inr (lse_Root parent, lse_Depth parent + 1))"

definition transportLocked :: "string \<Rightarrow> string \<Rightarrow> dispatchRuntime \<Rightarrow> unit result" where
  "transportLocked transport token rt =
     (case mget (disp_leases rt) token of
        None \<Rightarrow> Inl ErrRuntimeGrantDenied
      | Some lease \<Rightarrow> if lse_TransportToken lease \<noteq> transport then Inl ErrRuntimeGrantDenied else Inr ())"

text \<open>The context of an effect is done when the request's own context is, which is not
  modelled, or the lease's context, or at the lease's expiry.\<close>

definition DispatchEffectContext :: "string \<Rightarrow> time \<Rightarrow> dispatchRuntime \<Rightarrow> nat result \<times> dispatchRuntime" where
  "DispatchEffectContext token now rt =
     (case mget (disp_leases rt) token of
        None \<Rightarrow> (Inl ErrInvocationExpired, rt)
      | Some lease \<Rightarrow>
          if \<not> disp_enabled rt \<or> \<not> now < lse_Expires lease then (Inl ErrInvocationExpired, rt)
          else (let (c, rt1) = withDeadline (lse_Context lease) (lse_Expires lease) rt in (Inr c, rt1)))"

text \<open>The section of \<open>processRuntimeLog\<close>: a lease may write 64 log lines.\<close>

definition logLocked :: "string \<Rightarrow> dispatchRuntime \<Rightarrow> dispatchLease option \<times> dispatchRuntime" where
  "logLocked token rt =
     (case mget (disp_leases rt) token of
        None \<Rightarrow> (None, rt\<lparr>disp_dropped := disp_dropped rt + 1\<rparr>)
      | Some lease \<Rightarrow>
          if lse_LogLines lease \<ge> 64 then (None, rt\<lparr>disp_dropped := disp_dropped rt + 1\<rparr>)
          else (let lease' = lease\<lparr>lse_LogLines := lse_LogLines lease + 1\<rparr> in
            (Some lease', rt\<lparr>disp_leases := mput token lease' (disp_leases rt)\<rparr>)))"

section \<open>Finishing a lease\<close>

definition childrenOf :: "string \<Rightarrow> (string, dispatchLease) gomap \<Rightarrow> string list" where
  "childrenOf i ls = map fst (filter (\<lambda>(_, l). lse_Parent l = i) (mentries ls))"

definition dropLease :: "(string \<Rightarrow> string) \<Rightarrow> time \<Rightarrow> string \<Rightarrow> dispatchRuntime \<Rightarrow> dispatchRuntime" where
  "dropLease h now i rt =
     (let rt1 = (case mget (disp_leases rt) i of
            None \<Rightarrow> rt
          | Some l \<Rightarrow> if lse_Context l = None then rt
                      else cancelContext (lse_Context l) (observeDispatchLocked h i ''canceled'' now rt))
      in rt1\<lparr>disp_leases := mdel i (disp_leases rt1)\<rparr>)"

lemma cancelContext_leases [simp]: "disp_leases (cancelContext c rt) = disp_leases rt"
  by (simp add: cancelContext_def updContext_def split: option.split)

lemma observe_leases_del: "mdel i (disp_leases (observeDispatchLocked h i out now rt)) = mdel i (disp_leases rt)"
  by (rule DAList.alist_ext)
    (simp add: observeDispatchLocked_def Let_def AList_delete_update split: option.split)

lemma dropLease_leases [simp]: "disp_leases (dropLease h now i rt) = mdel i (disp_leases rt)"
  by (simp add: dropLease_def Let_def observe_leases_del split: option.split)

lemma mlen_delete: "mlen (mdel k m) = (if mhas m k then mlen m - 1 else mlen m)"
  by (auto simp: mlen_mcount mcount_del mhas_def split: option.splits)

lemma mlen_pos: "mhas m k \<Longrightarrow> 0 < mlen m"
  by (auto simp: mlen_mcount mhas_def intro: mcount_pos)

lemma mdel_missing: "\<not> mhas m k \<Longrightarrow> mdel k m = m"
  by (rule DAList.alist_ext) (simp add: mhas_def mget_entries map_of_eq_None_iff delete_id)

lemma mem_childrenOf: "k \<in> set (childrenOf i ls) \<longleftrightarrow> (\<exists>l. mget ls k = Some l \<and> lse_Parent l = i)"
  by (force simp: childrenOf_def map_facts)

lemma childrenOf_has: "k \<in> set (childrenOf i ls) \<Longrightarrow> mhas ls k"
  by (auto simp: mem_childrenOf mhas_def)

text \<open>
  The work list of a cancelled invocation. The loop ends for every parent relation, also a
  cyclic one: a step either removes a lease or takes an id that is no lease off the list, and
  the ids it adds are leases.
\<close>

function cancelLoop :: "(string \<Rightarrow> string) \<Rightarrow> time \<Rightarrow> string list \<Rightarrow> dispatchRuntime \<Rightarrow> dispatchRuntime" where
  "cancelLoop h now [] rt = rt"
| "cancelLoop h now (i # pending) rt =
     (let rt' = dropLease h now i rt in
      cancelLoop h now (pending @ childrenOf i (disp_leases rt')) rt')"
  by pat_completeness auto

termination
proof (relation "measures [\<lambda>(h, now, ps, rt). mlen (disp_leases rt),
    \<lambda>(h, now, ps, rt). length (filter (\<lambda>p. \<not> mhas (disp_leases rt) p) ps)]")
  fix h now i pending rt rt'
  assume rt': "rt' = dropLease h now i rt"
  let ?ls = "disp_leases rt"
  have ls: "disp_leases rt' = mdel i ?ls" by (simp add: rt')
  show "((h, now, pending @ childrenOf i (disp_leases rt'), rt'), (h, now, i # pending, rt))
    \<in> measures [\<lambda>(h, now, ps, rt). mlen (disp_leases rt),
        \<lambda>(h, now, ps, rt). length (filter (\<lambda>p. \<not> mhas (disp_leases rt) p) ps)]"
  proof (cases "mhas ?ls i")
    case True
    then show ?thesis using mlen_pos[OF True] by (simp add: ls mlen_delete)
  next
    case False
    have "filter (\<lambda>p. \<not> mhas ?ls p) (childrenOf i ?ls) = []"
      by (auto simp: filter_empty_conv dest: childrenOf_has)
    then show ?thesis using False by (simp add: ls mdel_missing)
  qed
qed simp

text \<open>The work list of a finished invocation, which deletes nothing. With a cyclic parent
  relation it would not end, so the result is optional.\<close>

partial_function (option) boundLoop :: "time \<Rightarrow> string list \<Rightarrow> (string, dispatchLease) gomap
    \<Rightarrow> (string, dispatchLease) gomap option" where
  "boundLoop e ps ls = (case ps of [] \<Rightarrow> Some ls
     | i # pending \<Rightarrow> boundLoop e (pending @ childrenOf i ls) (boundLeases (\<lambda>l. lse_Parent l = i) e ls))"

definition finishLocked :: "(string \<Rightarrow> string) \<Rightarrow> string \<Rightarrow> string \<Rightarrow> bool \<Rightarrow> time \<Rightarrow> dispatchRuntime
    \<Rightarrow> (unit result \<times> dispatchRuntime) option" where
  "finishLocked h callerToken leaseToken cancel now rt =
     (case mget (disp_leases rt) leaseToken of
        None \<Rightarrow> Some (Inl ErrInvocationExpired, rt)
      | Some lease \<Rightarrow>
          if lse_TransportToken lease \<noteq> callerToken then Some (Inl ErrInvocationExpired, rt)
          else if cancel then Some (Inr (), cancelLoop h now [leaseToken] rt)
          else if lse_Finished lease then Some (Inr (), rt)
          else (let rt1 = observeDispatchLocked h leaseToken ''completed'' now rt;
                    e = minTime (lse_Expires lease) (now + 2 * second);
                    rt2 = rt1\<lparr>disp_leases := mput leaseToken
                      ((mget0 lease (disp_leases rt1) leaseToken)\<lparr>lse_Finished := True, lse_Expires := e\<rparr>)
                      (disp_leases rt1)\<rparr>;
                    rt3 = cancelAt e (lse_Context lease) rt2
                in case boundLoop e [leaseToken] (disp_leases rt3) of
                     None \<Rightarrow> None
                   | Some ls \<Rightarrow> Some (Inr (), rt3\<lparr>disp_leases := ls\<rparr>)))"

end
