(* ===== verification/Dispatch_Trees.thy ===== *)
theory Dispatch_Trees
  imports Dispatch_State
begin

text \<open>
  The invocation tree: leases point at their parents, and finishing or cancelling one walks the
  tree below it with a work list. This theory says what the two walks of \<open>FinishDispatch\<close> do to
  an arbitrary lease table, and when the second one ends.
\<close>

section \<open>Descendants\<close>

inductive descends :: "(string, dispatchLease) gomap \<Rightarrow> string \<Rightarrow> string \<Rightarrow> bool" for ls t where
  self [intro]: "descends ls t t"
| child: "descends ls t m \<Longrightarrow> mget ls k = Some l \<Longrightarrow> lse_Parent l = m \<Longrightarrow> descends ls t k"

text \<open>The leases strictly below one of the tokens.\<close>

definition below :: "(string, dispatchLease) gomap \<Rightarrow> string list \<Rightarrow> string \<Rightarrow> bool" where
  "below ls ts k \<longleftrightarrow> (\<exists>t \<in> set ts. \<exists>l. mget ls k = Some l \<and> descends ls t (lse_Parent l))"

lemma below_Nil [simp]: "\<not> below ls [] k"
  by (simp add: below_def)

lemma below_descends: "below ls [t] k \<Longrightarrow> descends ls t k"
  unfolding below_def by (auto intro: descends.child)

lemma descends_cases: "descends ls t k \<longleftrightarrow> k = t \<or> below ls [t] k"
  unfolding below_def by (auto intro: descends.child elim: descends.cases)

text \<open>Whether a token descends depends on the parents of the leases only.\<close>

lemma descends_cong_dir:
  assumes "\<And>k. map_option lse_Parent (mget ls' k) = map_option lse_Parent (mget ls k)" "descends ls t k"
  shows "descends ls' t k"
  using assms(2)
proof (induction rule: descends.induct)
  case (child m k l)
  then obtain l' where "mget ls' k = Some l'" "lse_Parent l' = lse_Parent l"
    using assms(1)[of k] by (auto simp: map_option_eq_Some)
  then show ?case using child by (auto intro: descends.child)
qed auto

lemma descends_cong:
  assumes "\<And>k. map_option lse_Parent (mget ls' k) = map_option lse_Parent (mget ls k)"
  shows "descends ls' t k = descends ls t k"
  using descends_cong_dir[of ls' ls] descends_cong_dir[of ls ls'] assms by auto

lemma below_cong:
  assumes "\<And>k. map_option lse_Parent (mget ls' k) = map_option lse_Parent (mget ls k)"
  shows "below ls' ts k = below ls ts k"
proof -
  have alt: "below l ts k = (\<exists>t \<in> set ts. \<exists>m. map_option lse_Parent (mget l k) = Some m \<and> descends l t m)" for l
    by (auto simp: below_def)
  show ?thesis unfolding alt assms descends_cong[OF assms] ..
qed

text \<open>One round of a work list: what is below a token is its children and what is below them.\<close>

lemma descends_head:
  assumes "descends ls t k" shows "t = k \<or> (\<exists>j \<in> set (childrenOf t ls). descends ls j k)"
  using assms
proof (induction rule: descends.induct)
  case (child m k l)
  then show ?case by (auto simp: mem_childrenOf intro: descends.child)
qed simp

lemma descends_trans: "descends ls m k \<Longrightarrow> descends ls t m \<Longrightarrow> descends ls t k"
  by (induction rule: descends.induct) (auto intro: descends.child)

lemma below_step: "below ls (i # ts) k \<longleftrightarrow>
    (\<exists>l. mget ls k = Some l \<and> lse_Parent l = i) \<or> below ls (ts @ childrenOf i ls) k"
proof -
  have "descends ls i m \<longleftrightarrow> m = i \<or> (\<exists>j \<in> set (childrenOf i ls). descends ls j m)" for m
  proof -
    have "descends ls i j" if "j \<in> set (childrenOf i ls)" for j
      using that by (auto simp: mem_childrenOf intro: descends.child)
    then show ?thesis using descends_head[of ls i m] descends_trans[of ls _ m i] by auto
  qed
  then show ?thesis unfolding below_def by auto
qed

section \<open>Cancelling\<close>

definition reached :: "(string, dispatchLease) gomap \<Rightarrow> string list \<Rightarrow> string \<Rightarrow> bool" where
  "reached ls ts k \<longleftrightarrow> (\<exists>t \<in> set ts. descends ls t k)"

lemma reached_after_delete:
  assumes "reached ls (i # ts) k"
  shows "k = i \<or> reached (mdel i ls) (ts @ childrenOf i (mdel i ls)) k"
proof -
  obtain t where t: "t = i \<or> t \<in> set ts" "descends ls t k"
    using assms by (auto simp: reached_def)
  show ?thesis
    using t(2)
  proof (induction rule: descends.induct)
    case self
    then show ?case using t(1) by (auto simp: reached_def)
  next
    case (child m k l)
    show ?case
    proof (cases "k = i")
      case False
      then have k: "mget (mdel i ls) k = Some l" using child.hyps(2) by simp
      from child.IH show ?thesis
      proof
        assume "m = i"
        then have "k \<in> set (childrenOf i (mdel i ls))" using k child.hyps(3) by (auto simp: mem_childrenOf)
        then show ?thesis by (auto simp: reached_def)
      next
        assume "reached (mdel i ls) (ts @ childrenOf i (mdel i ls)) m"
        then show ?thesis
          unfolding reached_def using k child.hyps(3) by (blast intro: descends.child)
      qed
    qed simp
  qed
qed

lemma descends_mdel: "descends (mdel i ls) t k \<Longrightarrow> descends ls t k"
  by (induction rule: descends.induct) (auto intro: descends.child split: if_splits)

lemma reached_delete: "reached ls (i # ts) k \<longleftrightarrow>
    k = i \<or> reached (mdel i ls) (ts @ childrenOf i (mdel i ls)) k"
proof
  assume "k = i \<or> reached (mdel i ls) (ts @ childrenOf i (mdel i ls)) k"
  then show "reached ls (i # ts) k"
  proof
    assume "reached (mdel i ls) (ts @ childrenOf i (mdel i ls)) k"
    then obtain t where t: "t \<in> set ts \<or> t \<in> set (childrenOf i (mdel i ls))" "descends ls t k"
      by (auto simp: reached_def dest: descends_mdel)
    moreover have "descends ls i t" if "t \<in> set (childrenOf i (mdel i ls))"
      using that by (auto simp: mem_childrenOf intro: descends.child split: if_splits)
    ultimately show ?thesis
      unfolding reached_def using descends_trans by (metis list.set_intros)
  qed (auto simp: reached_def)
qed (rule reached_after_delete)

text \<open>Cancelling removes the whole subtree and nothing else.\<close>

lemma cancelLoop_leases: "mget (disp_leases (cancelLoop h now ts rt)) k =
    (if reached (disp_leases rt) ts k then None else mget (disp_leases rt) k)"
proof (induction h now ts rt rule: cancelLoop.induct)
  case (1 h now rt)
  then show ?case by (simp add: reached_def)
next
  case (2 h now i pending rt)
  show ?case
    unfolding reached_delete[of _ i pending] using 2[OF refl] by (simp add: Let_def)
qed

section \<open>Bounding\<close>

definition bound :: "time \<Rightarrow> dispatchLease \<Rightarrow> dispatchLease" where
  "bound e l = l\<lparr>lse_Expires := minTime (lse_Expires l) e\<rparr>"

lemma bound_idem [simp]: "bound e (bound e l) = bound e l"
  by (simp add: bound_def minTime_def)

lemma mget_boundLeases: "mget (boundLeases P e ls) k = map_option (\<lambda>l. if P l then bound e l else l) (mget ls k)"
  by (simp add: boundLeases_def bound_def cong: if_cong)

lemma mhas_boundLeases [simp]: "mhas (boundLeases P e ls) k = mhas ls k"
  by (simp add: mhas_def mget_boundLeases)

lemma mlen_boundLeases [simp]: "mlen (boundLeases P e ls) = mlen ls"
  by (simp add: mlen_def boundLeases_def)

lemma parents_boundLeases: "map_option lse_Parent (mget (boundLeases P e ls) k) = map_option lse_Parent (mget ls k)"
  by (simp add: mget_boundLeases option.map_comp comp_def bound_def if_distrib cong: if_cong)

lemma depths_boundLeases: "map_option lse_Depth (mget (boundLeases P e ls) k) = map_option lse_Depth (mget ls k)"
  by (simp add: mget_boundLeases option.map_comp comp_def bound_def if_distrib cong: if_cong)

lemma childrenOf_boundLeases [simp]: "childrenOf i (boundLeases P e ls) = childrenOf i ls"
  by (simp add: childrenOf_def boundLeases_def filter_map comp_def case_prod_unfold if_distrib cong: if_cong)

text \<open>A lease that is not a root of the tree is one deeper than its parent, and no lease is
  deeper than 8.\<close>

definition layered :: "(string, dispatchLease) gomap \<Rightarrow> bool" where
  "layered ls \<longleftrightarrow> (\<forall>k l. mget ls k = Some l \<longrightarrow> lse_Depth l \<le> 8
     \<and> (\<forall>p. mget ls (lse_Parent l) = Some p \<longrightarrow> lse_Depth l = lse_Depth p + 1))"

lemma layeredD: "layered ls \<Longrightarrow> mget ls k = Some l \<Longrightarrow> lse_Depth l \<le> 8"
    "layered ls \<Longrightarrow> mget ls k = Some l \<Longrightarrow> mget ls (lse_Parent l) = Some p \<Longrightarrow> lse_Depth l = lse_Depth p + 1"
  by (auto simp: layered_def)

lemma layered_same:
  assumes "layered ls"
    "\<And>k. map_option lse_Parent (mget ls' k) = map_option lse_Parent (mget ls k)"
    "\<And>k. map_option lse_Depth (mget ls' k) = map_option lse_Depth (mget ls k)"
  shows "layered ls'"
proof -
  have orig: "\<exists>l. mget ls k = Some l \<and> lse_Depth l = lse_Depth l' \<and> lse_Parent l = lse_Parent l'"
    if "mget ls' k = Some l'" for k l'
    using assms(2)[of k] assms(3)[of k] that by (cases "mget ls k") auto
  show ?thesis
    unfolding layered_def
  proof (intro allI impI conjI)
    fix k l' assume l': "mget ls' k = Some l'"
    obtain l where l: "mget ls k = Some l" "lse_Depth l = lse_Depth l'" "lse_Parent l = lse_Parent l'"
      using orig[OF l'] by blast
    then show "lse_Depth l' \<le> 8" using layeredD(1)[OF assms(1)] by metis
    fix p' assume "mget ls' (lse_Parent l') = Some p'"
    from orig[OF this] obtain p where "mget ls (lse_Parent l) = Some p" "lse_Depth p = lse_Depth p'"
      using l(3) by auto
    then show "lse_Depth l' = lse_Depth p' + 1" using layeredD(2)[OF assms(1) l(1)] l(2) by simp
  qed
qed

lemma layered_boundLeases: "layered ls \<Longrightarrow> layered (boundLeases P e ls)"
  by (erule layered_same[OF _ parents_boundLeases depths_boundLeases])

definition height :: "(string, dispatchLease) gomap \<Rightarrow> string \<Rightarrow> nat" where
  "height ls k = (case mget ls k of None \<Rightarrow> 0 | Some l \<Rightarrow> nat (9 - lse_Depth l))"

lemma height_boundLeases [simp]: "height (boundLeases P e ls) k = height ls k"
  by (auto simp: height_def mget_boundLeases bound_def split: option.split)

lemma height_child:
  assumes "layered ls" "mhas ls i" "j \<in> set (childrenOf i ls)"
  shows "height ls j < height ls i"
proof -
  obtain l p where l: "mget ls j = Some l" "lse_Parent l = i" and p: "mget ls i = Some p"
    using assms(2,3) by (auto simp: mem_childrenOf mhas_def)
  then have "lse_Depth l = lse_Depth p + 1" "lse_Depth l \<le> 8"
    using layeredD(2)[OF assms(1) l(1), of p] layeredD(1)[OF assms(1) l(1)] by simp_all
  then show ?thesis using l p by (simp add: height_def)
qed

lemma length_childrenOf: "length (childrenOf i ls) \<le> mlen ls"
  by (simp add: childrenOf_def mlen_def)

text \<open>The weight of a work list: each entry can be replaced by all its children at most once
  per layer.\<close>

definition weight :: "(string, dispatchLease) gomap \<Rightarrow> string list \<Rightarrow> nat" where
  "weight ls ts = sum_list (map (\<lambda>k. Suc (mlen ls) ^ height ls k) ts)"

lemma weight_boundLeases [simp]: "weight (boundLeases P e ls) ts = weight ls ts"
  by (simp add: weight_def)

lemma weight_append [simp]: "weight ls (ts @ us) = weight ls ts + weight ls us"
  by (simp add: weight_def)

lemma weight_children:
  assumes "layered ls" "mhas ls i"
  shows "weight ls (childrenOf i ls) < Suc (mlen ls) ^ height ls i"
proof (cases "height ls i")
  case 0
  then have "childrenOf i ls = []" using height_child[OF assms] by (cases "childrenOf i ls") force+
  then show ?thesis by (simp add: weight_def)
next
  case (Suc n)
  have "sum_list (map (\<lambda>k. Suc (mlen ls) ^ height ls k) (childrenOf i ls))
      \<le> sum_list (map (\<lambda>k. Suc (mlen ls) ^ n) (childrenOf i ls))"
    using height_child[OF assms] Suc by (intro sum_list_mono power_increasing) (force simp: less_Suc_eq_le)+
  also have "\<dots> \<le> mlen ls * Suc (mlen ls) ^ n"
    using length_childrenOf[of i ls] by (simp add: sum_list_triv)
  also have "\<dots> < Suc (mlen ls) ^ Suc n" by simp
  finally show ?thesis by (simp add: weight_def Suc)
qed

text \<open>The walk ends on a layered tree, and lowers the expiry of everything strictly below the
  tokens it starts from.\<close>

lemma boundLoop_result:
  assumes "layered ls" "list_all (mhas ls) ts"
  shows "\<exists>ls'. boundLoop e ts ls = Some ls'
    \<and> (\<forall>k. mget ls' k = map_option (\<lambda>l. if below ls ts k then bound e l else l) (mget ls k))"
  using assms
proof (induction "weight ls ts" arbitrary: ls ts rule: less_induct)
  case less
  show ?case
  proof (cases ts)
    case Nil
    then show ?thesis by (subst boundLoop.simps) (simp add: option.map_ident)
  next
    case (Cons i pending)
    let ?ls = "boundLeases (\<lambda>l. lse_Parent l = i) e ls" and ?ts = "pending @ childrenOf i ls"
    have i: "mhas ls i" using less.prems(2) Cons by simp
    have "weight ?ls ?ts < weight ls ts"
      using weight_children[OF less.prems(1) i] Cons by (simp add: weight_def)
    moreover have "list_all (mhas ?ls) ?ts"
      using less.prems(2) Cons by (auto simp: list_all_iff dest: childrenOf_has)
    ultimately obtain ls' where ls': "boundLoop e ?ts ?ls = Some ls'"
      "\<forall>k. mget ls' k = map_option (\<lambda>l. if below ?ls ?ts k then bound e l else l) (mget ?ls k)"
      using less.hyps[of ?ls ?ts] layered_boundLeases[OF less.prems(1)] by blast
    have "mget ls' k = map_option (\<lambda>l. if below ls ts k then bound e l else l) (mget ls k)" for k
    proof -
      have "below ?ls ?ts k = below ls ?ts k" by (rule below_cong) (rule parents_boundLeases)
      then show ?thesis
        using ls'(2) unfolding Cons below_step[of ls i pending]
        by (cases "mget ls k") (auto simp: mget_boundLeases)
    qed
    then show ?thesis
      using ls'(1) Cons by (subst boundLoop.simps) simp
  qed
qed

end
