(* ===== verification/Dispatch_Runs.thy ===== *)
theory Dispatch_Runs
  imports Dispatch_Trees
begin

text \<open>
  Runs of dynamic dispatch: a transition system whose steps are the critical sections of
  \<open>dispatch.mu\<close>, in any order and each at its own time. The facts the sections rely on are the
  guards of the steps: tokens come from \<open>crypto/rand\<close>, so they are not empty and do not repeat; the
  deployment that was selected belongs to the app it was selected for. \<open>AcquireServiceDispatch\<close> has two
  sections: the first looks up the parent (\<open>serviceParentLocked\<close>) and the second admits the invocation
  with the root and the depth that the first answered, however much later. Its answers are recorded in
  \<open>dsys_parents\<close>; an admission is either a request for one of them, with whatever has happened to the
  parent since, or a request of \<open>AcquireDispatchWithRoot\<close>, which has no parent and depth 0.
\<close>

section \<open>What the sections change\<close>

lemma updContext_frame [simp]:
  "disp_enabled (updContext f c rt) = disp_enabled rt" "disp_leases (updContext f c rt) = disp_leases rt"
  "disp_roots (updContext f c rt) = disp_roots rt" "disp_counts (updContext f c rt) = disp_counts rt"
  "disp_released (updContext f c rt) = disp_released rt"
  "length (disp_contexts (updContext f c rt)) = length (disp_contexts rt)"
  by (simp_all add: updContext_def split: option.split)

lemma cancelContext_frame [simp]:
  "disp_enabled (cancelContext c rt) = disp_enabled rt"
  "disp_roots (cancelContext c rt) = disp_roots rt" "disp_counts (cancelContext c rt) = disp_counts rt"
  "disp_released (cancelContext c rt) = disp_released rt"
  "length (disp_contexts (cancelContext c rt)) = length (disp_contexts rt)"
  by (simp_all add: cancelContext_def)

lemma cancelAt_frame [simp]:
  "disp_enabled (cancelAt t c rt) = disp_enabled rt" "disp_leases (cancelAt t c rt) = disp_leases rt"
  "disp_roots (cancelAt t c rt) = disp_roots rt" "disp_counts (cancelAt t c rt) = disp_counts rt"
  "disp_released (cancelAt t c rt) = disp_released rt"
  "length (disp_contexts (cancelAt t c rt)) = length (disp_contexts rt)"
  by (simp_all add: cancelAt_def)

lemma cancelContexts_frame [simp]:
  "disp_enabled (cancelContexts cs rt) = disp_enabled rt" "disp_leases (cancelContexts cs rt) = disp_leases rt"
  "disp_roots (cancelContexts cs rt) = disp_roots rt" "disp_counts (cancelContexts cs rt) = disp_counts rt"
  "disp_released (cancelContexts cs rt) = disp_released rt"
  "length (disp_contexts (cancelContexts cs rt)) = length (disp_contexts rt)"
proof (induction cs arbitrary: rt)
  case (Cons c cs)
  { case 1 show ?case using Cons(1) by (simp add: cancelContexts_def)
  next case 2 show ?case using Cons(2) by (simp add: cancelContexts_def)
  next case 3 show ?case using Cons(3) by (simp add: cancelContexts_def)
  next case 4 show ?case using Cons(4) by (simp add: cancelContexts_def)
  next case 5 show ?case using Cons(5) by (simp add: cancelContexts_def)
  next case 6 show ?case using Cons(6) by (simp add: cancelContexts_def) }
qed (simp_all add: cancelContexts_def)

lemma withDeadline_frame [simp]:
  "fst (withDeadline p d rt) = length (disp_contexts rt)"
  "disp_enabled (snd (withDeadline p d rt)) = disp_enabled rt" "disp_leases (snd (withDeadline p d rt)) = disp_leases rt"
  "disp_roots (snd (withDeadline p d rt)) = disp_roots rt" "disp_counts (snd (withDeadline p d rt)) = disp_counts rt"
  "disp_contexts (snd (withDeadline p d rt)) = disp_contexts rt @ [\<lparr>ctx_parent = p, ctx_deadline = d, ctx_cancelled = False\<rparr>]"
  by (simp_all add: withDeadline_def)

definition observed :: "dispatchLease \<Rightarrow> dispatchLease" where
  "observed l = l\<lparr>lse_Observed := lse_Observed l \<or> lse_AdmittedAt l \<noteq> 0\<rparr>"

lemma observe_frame [simp]:
  "disp_enabled (observeDispatchLocked h t out now rt) = disp_enabled rt"
  "disp_roots (observeDispatchLocked h t out now rt) = disp_roots rt"
  "disp_contexts (observeDispatchLocked h t out now rt) = disp_contexts rt"
  "disp_released (observeDispatchLocked h t out now rt) = disp_released rt"
  by (simp_all add: observeDispatchLocked_def Let_def split: option.split)

lemma observe_leases [simp]: "mget (disp_leases (observeDispatchLocked h t out now rt)) k =
    (if k = t then map_option observed (mget (disp_leases rt) k) else mget (disp_leases rt) k)"
  by (auto simp: observeDispatchLocked_def observed_def Let_def split: option.split)

section \<open>The system\<close>

record dispatchSystem =
  dsys_rt :: dispatchRuntime
  dsys_used :: "string list"
  dsys_spent :: "(string \<times> int) list"
  dsys_parents :: "(string \<times> string \<times> string \<times> int) list"

definition initial_dispatch :: dispatchSystem where
  "initial_dispatch = \<lparr>dsys_rt = dispatchRuntime0, dsys_used = [], dsys_spent = [], dsys_parents = []\<rparr>"

abbreviation leases :: "dispatchSystem \<Rightarrow> (string, dispatchLease) gomap" where
  "leases s \<equiv> disp_leases (dsys_rt s)"

abbreviation ingress :: "dispatchSystem \<Rightarrow> (string, dispatchRoot) gomap" where
  "ingress s \<equiv> disp_roots (dsys_rt s)"

definition fresh :: "string \<Rightarrow> dispatchSystem \<Rightarrow> bool" where
  "fresh token s \<longleftrightarrow> token \<noteq> [] \<and> token \<notin> set (dsys_used s)"

text \<open>The units an admission or an effect was charged for, per ingress root.\<close>

definition spentOn :: "string \<Rightarrow> dispatchSystem \<Rightarrow> int" where
  "spentOn i s = sum_list (map snd (filter (\<lambda>(r, c). r = i) (dsys_spent s)))"

definition spend :: "bool \<Rightarrow> string \<Rightarrow> int \<Rightarrow> (string \<times> int) list \<Rightarrow> (string \<times> int) list" where
  "spend ok i c spent = (if ok \<and> i \<noteq> [] then (i, c) # spent else spent)"

text \<open>The arguments with which the source calls \<open>acquireResolvedDispatch\<close>.\<close>

definition askedFor :: "string \<Rightarrow> int \<Rightarrow> string \<Rightarrow> string \<Rightarrow> string \<Rightarrow> dispatchSystem \<Rightarrow> bool" where
  "askedFor parentID depth callerToken transport rootID s \<longleftrightarrow>
     (parentID = [] \<and> depth = 0 \<and> callerToken = transport)
     \<or> (callerToken = parentID \<and> (transport, parentID, rootID, depth) \<in> set (dsys_parents s))"

inductive dispatch_step :: "(string \<Rightarrow> string) \<Rightarrow> dispatchSystem \<Rightarrow> dispatchSystem \<Rightarrow> bool" for h where
  d_enable: "dispatch_step h s (s\<lparr>dsys_rt := SetPlatformDispatchEnabled e now (dsys_rt s)\<rparr>)"
| d_sink: "dispatch_step h s (s\<lparr>dsys_rt := SetDispatchObservationSink b (dsys_rt s)\<rparr>)"
| d_begin: "fresh token s \<Longrightarrow> beginRootLocked token item now (dsys_rt s) = (res, rt') \<Longrightarrow>
    dispatch_step h s (s\<lparr>dsys_rt := rt', dsys_used := token # dsys_used s\<rparr>)"
| d_end: "dispatch_step h s (s\<lparr>dsys_rt := EndDispatchRoot h i cancel now (dsys_rt s)\<rparr>)"
| d_hold: "dispatch_step h s (s\<lparr>dsys_rt := HoldDispatchRoot i f now (dsys_rt s)\<rparr>)"
| d_parent: "serviceParentLocked transport parentID (dsys_rt s) = Inr (rootID, depth) \<Longrightarrow>
    dispatch_step h s (s\<lparr>dsys_parents := (transport, parentID, rootID, depth) # dsys_parents s\<rparr>)"
| d_acquire: "fresh token s \<Longrightarrow> askedFor parentID depth callerToken transport rootID s \<Longrightarrow>
    App_ID (Active_App selected) = App_ID app \<Longrightarrow> platformOf (Active_App selected) = platformOf app \<Longrightarrow>
    acquireLocked token callerToken transport caller app selected rootID parentID depth now (dsys_rt s) = (res, rt') \<Longrightarrow>
    dispatch_step h s (s\<lparr>dsys_rt := rt', dsys_used := token # dsys_used s,
      dsys_spent := spend (\<not> isl res) rootID 1 (dsys_spent s)\<rparr>)"
| d_invocation: "invocationLocked token now (dsys_rt s) = (res, rt') \<Longrightarrow>
    dispatch_step h s (s\<lparr>dsys_rt := rt'\<rparr>)"
| d_effect: "mget (leases s) token = Some l \<Longrightarrow> effectLocked callerToken token cost now (dsys_rt s) = (res, rt') \<Longrightarrow>
    dispatch_step h s (s\<lparr>dsys_rt := rt', dsys_spent := spend (\<not> isl res) (lse_Root l) cost (dsys_spent s)\<rparr>)"
| d_context: "DispatchEffectContext token now (dsys_rt s) = (res, rt') \<Longrightarrow> dispatch_step h s (s\<lparr>dsys_rt := rt'\<rparr>)"
| d_log: "logLocked token (dsys_rt s) = (l, rt') \<Longrightarrow> dispatch_step h s (s\<lparr>dsys_rt := rt'\<rparr>)"
| d_finish: "finishLocked h callerToken token cancel now (dsys_rt s) = Some (res, rt') \<Longrightarrow>
    dispatch_step h s (s\<lparr>dsys_rt := rt'\<rparr>)"

inductive_cases dispatch_stepE: "dispatch_step h s s'"

definition dispatch_reachable :: "(string \<Rightarrow> string) \<Rightarrow> dispatchSystem \<Rightarrow> bool" where
  "dispatch_reachable h s = (dispatch_step h)\<^sup>*\<^sup>* initial_dispatch s"

section \<open>Lease tables that shrink\<close>

text \<open>Every section but an admission leaves the lease table with leases it had before, whose
  identity, place in the tree and target did not change, whose remaining budget and expiry did
  not grow, and that stay observed.\<close>

definition shrunk :: "dispatchLease \<Rightarrow> dispatchLease \<Rightarrow> bool" where
  "shrunk l l' \<longleftrightarrow> lse_AdmittedAt l' = lse_AdmittedAt l \<and> lse_Context l' = lse_Context l
     \<and> lse_TransportToken l' = lse_TransportToken l \<and> lse_Parent l' = lse_Parent l \<and> lse_Depth l' = lse_Depth l
     \<and> lse_Root l' = lse_Root l \<and> lse_CallerToken l' = lse_CallerToken l \<and> lse_Caller l' = lse_Caller l
     \<and> lse_Target l' = lse_Target l \<and> lse_Deadline l' = lse_Deadline l
     \<and> lse_Expires l' \<le> lse_Expires l \<and> (lse_Observed l \<longrightarrow> lse_Observed l')
     \<and> lse_Remaining l' \<le> lse_Remaining l \<and> (0 \<le> lse_Remaining l \<longrightarrow> 0 \<le> lse_Remaining l')
     \<and> (lse_LogLines l \<le> 64 \<longrightarrow> lse_LogLines l' \<le> 64)"

definition shrinks :: "(string, dispatchLease) gomap \<Rightarrow> (string, dispatchLease) gomap \<Rightarrow> bool" where
  "shrinks ls ls' \<longleftrightarrow> (\<forall>k l'. mget ls' k = Some l' \<longrightarrow> (\<exists>l. mget ls k = Some l \<and> shrunk l l'))"

text \<open>In most sections the expiries do not change either.\<close>

definition timely :: "(string, dispatchLease) gomap \<Rightarrow> (string, dispatchLease) gomap \<Rightarrow> bool" where
  "timely ls ls' \<longleftrightarrow> (\<forall>k l l'. mget ls k = Some l \<longrightarrow> mget ls' k = Some l' \<longrightarrow> lse_Expires l' = lse_Expires l)"

lemma shrunk_target: "shrunk l l' \<Longrightarrow> inNamespace n l' \<Longrightarrow> inNamespace n l"
    "shrunk l l' \<Longrightarrow> ofCustomer n c l' \<Longrightarrow> ofCustomer n c l"
  by (simp_all add: shrunk_def inNamespace_def ofCustomer_def)

lemma shrunk_refl [simp]: "shrunk l l"
  by (simp add: shrunk_def)

lemma shrunk_trans: "shrunk a b \<Longrightarrow> shrunk b c \<Longrightarrow> shrunk a c"
  by (simp add: shrunk_def)

lemma shrunk_observed [simp]: "shrunk l (observed l)" "lse_Expires (observed l) = lse_Expires l"
  by (simp_all add: shrunk_def observed_def)

lemma shrunk_bound [simp]: "shrunk l (bound e l)"
  by (simp add: shrunk_def bound_def minTime_def)

lemma shrinks_refl [simp]: "shrinks ls ls" "timely ls ls"
  by (auto simp: shrinks_def timely_def)

lemma shrinks_trans: "shrinks a b \<Longrightarrow> shrinks b c \<Longrightarrow> shrinks a c"
  unfolding shrinks_def by (meson shrunk_trans)

lemma shrinks_image:
  assumes "\<And>k. mget ls' k = map_option (f k) (mget ls k)" "\<And>k l. shrunk l (f k l)"
  shows "shrinks ls ls'"
  unfolding shrinks_def using assms by (auto simp: map_option_eq_Some)

lemma timely_image:
  assumes "\<And>k. mget ls' k = map_option (f k) (mget ls k)" "\<And>k l. lse_Expires (f k l) = lse_Expires l"
  shows "timely ls ls'"
  unfolding timely_def using assms by auto

lemma shrinks_del [simp]: "shrinks ls (mdel k ls)" "timely ls (mdel k ls)"
  by (auto simp: shrinks_def timely_def split: if_splits)

lemma shrinks_filter [simp]: "shrinks ls (mfilter P ls)" "timely ls (mfilter P ls)"
  by (auto simp: shrinks_def timely_def mget_filter split: option.splits if_splits)

lemma shrinks_put [simp]: "mget ls k = Some l \<Longrightarrow> shrunk l l' \<Longrightarrow> shrinks ls (mput k l' ls)"
  by (auto simp: shrinks_def)

lemma timely_put [simp]: "mget ls k = Some l \<Longrightarrow> lse_Expires l' = lse_Expires l \<Longrightarrow> timely ls (mput k l' ls)"
  by (auto simp: timely_def)

lemma shrinks_empty [simp]: "shrinks ls mempty" "timely ls mempty"
  by (auto simp: shrinks_def timely_def)

text \<open>A predicate on what does not change counts at most as many leases as before.\<close>

lemma mcount_mono:
  assumes "\<And>k v. mget m' k = Some v \<Longrightarrow> P k v \<Longrightarrow> \<exists>w. mget m k = Some w \<and> Q k w"
  shows "mcount P m' \<le> mcount Q m"
  unfolding mcount_card by (rule card_mono) (use assms in auto)

lemma shrinks_mcount:
  assumes "shrinks ls ls'" "\<And>l l'. shrunk l l' \<Longrightarrow> P l' \<Longrightarrow> P l"
  shows "mcount (\<lambda>_. P) ls' \<le> mcount (\<lambda>_. P) ls"
  by (rule mcount_mono) (use assms in \<open>unfold shrinks_def, blast\<close>)

lemma shrinks_mlen: "shrinks ls ls' \<Longrightarrow> mlen ls' \<le> mlen ls"
  unfolding mlen_mcount by (rule mcount_mono) (auto simp: shrinks_def)

end
