(* ===== verification/Dispatch_Invariants.thy ===== *)
theory Dispatch_Invariants
  imports Dispatch_Runs
begin

text \<open>
  The invariants of dynamic dispatch and their preservation by every section: the bounds of a
  lease, the nesting of deadlines along the invocation tree and below an ingress root, the
  admission limits, and the budget of a root.
\<close>

section \<open>Effects of the sections\<close>

lemma shrinks_boundLeases [simp]: "shrinks ls (boundLeases P e ls)"
  by (rule shrinks_image[where f = "\<lambda>_ l. if P l then bound e l else l"]) (auto simp: mget_boundLeases)

lemma observed_idem [simp]: "observed (observed l) = observed l"
  by (simp add: observed_def)

lemma observe_fold_leases: "mget (disp_leases (fold (\<lambda>t. observeDispatchLocked h t out now) ts rt)) k =
    map_option (if k \<in> set ts then observed else id) (mget (disp_leases rt) k)"
proof (induction ts arbitrary: rt)
  case (Cons t ts)
  then show ?case by (cases "mget (disp_leases rt) k") auto
qed (simp add: option.map_id)

lemma observe_fold_frame [simp]:
  "disp_roots (fold (\<lambda>t. observeDispatchLocked h t out now) ts rt) = disp_roots rt"
  "disp_contexts (fold (\<lambda>t. observeDispatchLocked h t out now) ts rt) = disp_contexts rt"
  "disp_released (fold (\<lambda>t. observeDispatchLocked h t out now) ts rt) = disp_released rt"
  by (induction ts arbitrary: rt) simp_all

lemma shrinks_observe [simp]:
  "shrinks (disp_leases rt) (disp_leases (fold (\<lambda>t. observeDispatchLocked h t out now) ts rt))"
  "timely (disp_leases rt) (disp_leases (fold (\<lambda>t. observeDispatchLocked h t out now) ts rt))"
  by (rule shrinks_image timely_image, rule observe_fold_leases, simp)+

text \<open>The tables after each section that does not admit a lease.\<close>

lemma enable_tables:
  "disp_leases (SetPlatformDispatchEnabled e now rt) = (if e then disp_leases rt else mempty)"
  "disp_roots (SetPlatformDispatchEnabled e now rt) = (if e then disp_roots rt else mempty)"
  by (simp_all add: SetPlatformDispatchEnabled_def)

lemma hold_tables:
  "disp_leases (HoldDispatchRoot i f now rt) = disp_leases rt"
  "disp_roots (HoldDispatchRoot i f now rt) = (case mget (disp_roots rt) i of None \<Rightarrow> disp_roots rt
     | Some r \<Rightarrow> if root_Finished r \<or> root_Cancelled r then disp_roots rt
       else mput i (r\<lparr>root_Release := Some f\<rparr>) (disp_roots rt))"
  by (simp_all add: HoldDispatchRoot_def split: option.split)

definition endedRoot :: "bool \<Rightarrow> time \<Rightarrow> dispatchRoot \<Rightarrow> dispatchRoot" where
  "endedRoot cancel now r = (let r1 = (if cancel then r\<lparr>root_Cancelled := True, root_Expires := now\<rparr> else r);
     r2 = (if root_Finished r1 then r1
           else r1\<lparr>root_Finished := True, root_Expires := minTime (root_Expires r1) (now + 2 * second)\<rparr>)
   in r2\<lparr>root_Release := None\<rparr>)"

lemma end_tables:
  "disp_roots (EndDispatchRoot h i cancel now rt) = (case mget (disp_roots rt) i of None \<Rightarrow> disp_roots rt
     | Some r \<Rightarrow> mput i (endedRoot cancel now r) (disp_roots rt))"
  "mget (disp_leases (EndDispatchRoot h i cancel now rt)) k = (case mget (disp_roots rt) i of
       None \<Rightarrow> mget (disp_leases rt) k
     | Some r \<Rightarrow> map_option (\<lambda>l. if lse_Root l = i
         then (if cancel then observed else id) (bound (root_Expires (endedRoot cancel now r)) l) else l)
         (mget (disp_leases rt) k))"
proof -
  show "disp_roots (EndDispatchRoot h i cancel now rt) = (case mget (disp_roots rt) i of None \<Rightarrow> disp_roots rt
     | Some r \<Rightarrow> mput i (endedRoot cancel now r) (disp_roots rt))"
    by (simp add: EndDispatchRoot_def endedRoot_def Let_def split: option.split)
  have member: "k \<in> set (leasesOfRoot i ls) \<longleftrightarrow> (\<exists>l. mget ls k = Some l \<and> lse_Root l = i)" for ls
    by (force simp: leasesOfRoot_def map_facts)
  show "mget (disp_leases (EndDispatchRoot h i cancel now rt)) k = (case mget (disp_roots rt) i of
       None \<Rightarrow> mget (disp_leases rt) k
     | Some r \<Rightarrow> map_option (\<lambda>l. if lse_Root l = i
         then (if cancel then observed else id) (bound (root_Expires (endedRoot cancel now r)) l) else l)
         (mget (disp_leases rt) k))"
    by (cases "mget (disp_roots rt) i"; cases "mget (disp_leases rt) k")
      (simp_all add: EndDispatchRoot_def endedRoot_def Let_def observe_fold_leases member mget_boundLeases
        bound_def option.case_distrib[of disp_leases] split: option.split)
qed

lemma begin_tables:
  assumes "beginRootLocked token item now rt = (res, rt')"
  shows "disp_leases rt' = disp_leases rt"
    and "if isl res then disp_roots rt' = mfilter (\<lambda>(_, r). now < root_Expires r) (disp_roots rt)
      else (\<exists>r. disp_roots rt' = mput token r (mfilter (\<lambda>(_, r). now < root_Expires r) (disp_roots rt))
        \<and> root_Remaining r = 10000 \<and> mlen (mfilter (\<lambda>(_, r). now < root_Expires r) (disp_roots rt)) < 1024)"
  using assms
  by (auto simp: beginRootLocked_def Let_def purgeRoots_def defaultInvocationSubrequestBudget_def
      withDeadline_def split: if_splits prod.splits)

lemma invocation_tables:
  assumes "invocationLocked token now rt = (res, rt')"
  shows "disp_leases rt' = disp_leases rt \<or> disp_leases rt' = mdel token (disp_leases rt)"
    and "disp_roots rt' = disp_roots rt" and "disp_counts rt' = disp_counts rt"
  using assms by (auto simp: invocationLocked_def split: option.splits if_splits)

lemma context_tables:
  assumes "DispatchEffectContext token now rt = (res, rt')"
  shows "disp_leases rt' = disp_leases rt" "disp_roots rt' = disp_roots rt" "disp_counts rt' = disp_counts rt"
  using assms by (auto simp: DispatchEffectContext_def withDeadline_def split: option.splits if_splits)

lemma log_tables:
  assumes "logLocked token rt = (l, rt')"
  shows "disp_roots rt' = disp_roots rt" "disp_counts rt' = disp_counts rt" "disp_contexts rt' = disp_contexts rt"
    "disp_leases rt' = (case mget (disp_leases rt) token of None \<Rightarrow> disp_leases rt
      | Some l \<Rightarrow> if lse_LogLines l \<ge> 64 then disp_leases rt
        else mput token (l\<lparr>lse_LogLines := lse_LogLines l + 1\<rparr>) (disp_leases rt))"
  using assms by (auto simp: logLocked_def Let_def split: option.splits if_splits)

lemma effect_tables:
  assumes "effectLocked callerToken token cost now rt = (res, rt')" "mget (disp_leases rt) token = Some l"
  shows "disp_counts rt' = disp_counts rt" "disp_contexts rt' = disp_contexts rt"
    "disp_leases rt' = (if isl res then disp_leases rt
      else mput token (l\<lparr>lse_Remaining := lse_Remaining l - cost\<rparr>) (disp_leases rt))"
    "\<not> isl res \<Longrightarrow> 1 \<le> cost \<and> cost \<le> lse_Remaining l"
    "disp_roots rt' = disp_roots rt \<and> (isl res \<or> lse_Root l = []) \<or>
      (\<exists>r. mget (disp_roots rt) (lse_Root l) = Some r \<and> 1 \<le> cost \<and> cost \<le> root_Remaining r
        \<and> disp_roots rt' = mput (lse_Root l) (r\<lparr>root_Remaining := root_Remaining r - cost\<rparr>) (disp_roots rt))"
  using assms by (auto simp: effectLocked_def split: option.splits if_splits prod.splits)

text \<open>\<open>FinishDispatch\<close> on a layered tree: it always returns, a cancelled invocation disappears with
  everything below it, and a finished one bounds everything below it.\<close>

definition finished :: "time \<Rightarrow> dispatchLease \<Rightarrow> dispatchLease" where
  "finished e l = (observed l)\<lparr>lse_Finished := True, lse_Expires := e\<rparr>"

lemma finish_result:
  assumes "layered (disp_leases rt)"
  shows "\<exists>res rt'. finishLocked h callerToken t cancel now rt = Some (res, rt')
    \<and> disp_roots rt' = disp_roots rt
    \<and> (isl res \<longrightarrow> rt' = rt)
    \<and> (\<not> isl res \<longrightarrow> (\<exists>l e. mget (disp_leases rt) t = Some l \<and> lse_TransportToken l = callerToken
        \<and> e = minTime (lse_Expires l) (now + 2 * second)
        \<and> (if cancel then (\<forall>k. mget (disp_leases rt') k =
              (if descends (disp_leases rt) t k then None else mget (disp_leases rt) k))
           else if lse_Finished l then rt' = rt
           else (\<forall>k. mget (disp_leases rt') k = map_option (\<lambda>l. if k = t then finished e l
              else if below (disp_leases rt) [t] k then bound e l else l) (mget (disp_leases rt) k)))))"
proof (cases "mget (disp_leases rt) t")
  case None
  then show ?thesis by (simp add: finishLocked_def)
next
  case (Some l)
  let ?ls = "disp_leases rt" and ?e = "minTime (lse_Expires l) (now + 2 * second)"
  consider (other) "lse_TransportToken l \<noteq> callerToken" | (cancel) "lse_TransportToken l = callerToken" cancel
    | (again) "lse_TransportToken l = callerToken" "\<not> cancel" "lse_Finished l"
    | (finish) "lse_TransportToken l = callerToken" "\<not> cancel" "\<not> lse_Finished l" by blast
  then show ?thesis
  proof cases
    case cancel
    have "disp_roots (cancelLoop h now ts rt) = disp_roots rt" for ts
      by (induction h now ts rt rule: cancelLoop.induct)
        (simp_all add: Let_def dropLease_def split: option.split)
    then show ?thesis
      using Some cancel by (simp add: finishLocked_def cancelLoop_leases reached_def del: cancelLoop.simps)
  next
    case finish
    let ?ls1 = "mput t (finished ?e l) (disp_leases (observeDispatchLocked h t ''completed'' now rt))"
    have look: "mget ?ls1 k = map_option (\<lambda>m. if k = t then finished ?e l else m) (mget ?ls k)" for k
      using Some by (cases "mget ?ls k") auto
    have same: "map_option lse_Parent (mget ?ls1 k) = map_option lse_Parent (mget ?ls k)"
        "map_option lse_Depth (mget ?ls1 k) = map_option lse_Depth (mget ?ls k)" for k
      using Some unfolding look by (cases "k = t"; cases "mget ?ls k"; simp add: finished_def observed_def)+
    have "layered ?ls1"
      by (rule layered_same[OF assms same])
    then obtain ls' where ls': "boundLoop ?e [t] ?ls1 = Some ls'"
      "\<And>k. mget ls' k = map_option (\<lambda>l. if below ?ls1 [t] k then bound ?e l else l) (mget ?ls1 k)"
      using boundLoop_result[of ?ls1 "[t]" ?e] by auto
    have "mget ls' k = map_option (\<lambda>l. if k = t then finished ?e l
        else if below ?ls [t] k then bound ?e l else l) (mget ?ls k)" for k
      using Some unfolding ls'(2) look below_cong[OF same(1)]
      by (cases "mget ?ls k") (auto simp: finished_def bound_def minTime_def)
    moreover have "finishLocked h callerToken t cancel now rt =
        Some (Inr (), (cancelAt ?e (lse_Context l) ((observeDispatchLocked h t ''completed'' now rt)
          \<lparr>disp_leases := ?ls1\<rparr>))\<lparr>disp_leases := ls'\<rparr>)"
      using Some finish ls'(1) by (simp add: finishLocked_def Let_def mget0_def finished_def)
    ultimately show ?thesis using Some finish by simp
  qed (use Some in \<open>simp_all add: finishLocked_def\<close>)
qed

lemma finish_cases:
  assumes "layered (disp_leases rt)" "finishLocked h callerToken t cancel now rt = Some (res, rt')"
  obtains (same) "disp_roots rt' = disp_roots rt" "rt' = rt"
  | (cancelled) l where "disp_roots rt' = disp_roots rt" "cancel" "mget (disp_leases rt) t = Some l"
      "\<And>k. mget (disp_leases rt') k = (if descends (disp_leases rt) t k then None else mget (disp_leases rt) k)"
  | (bounded) l e where "disp_roots rt' = disp_roots rt" "\<not> cancel" "mget (disp_leases rt) t = Some l"
      "e = minTime (lse_Expires l) (now + 2 * second)" "e \<le> lse_Expires l"
      "\<And>k. mget (disp_leases rt') k = map_option (\<lambda>m. if k = t then finished e m
          else if below (disp_leases rt) [t] k then bound e m else m) (mget (disp_leases rt) k)"
proof -
  from finish_result[OF assms(1), of h callerToken t cancel now, unfolded assms(2)]
  have roots: "disp_roots rt' = disp_roots rt" and "isl res \<Longrightarrow> rt' = rt"
    and ok: "\<not> isl res \<Longrightarrow> \<exists>l e. mget (disp_leases rt) t = Some l \<and> lse_TransportToken l = callerToken
        \<and> e = minTime (lse_Expires l) (now + 2 * second)
        \<and> (if cancel then (\<forall>k. mget (disp_leases rt') k =
              (if descends (disp_leases rt) t k then None else mget (disp_leases rt) k))
           else if lse_Finished l then rt' = rt
           else (\<forall>k. mget (disp_leases rt') k = map_option (\<lambda>m. if k = t then finished e m
              else if below (disp_leases rt) [t] k then bound e m else m) (mget (disp_leases rt) k)))"
    by auto
  show thesis
  proof (cases "isl res \<or> rt' = rt")
    case True
    then show thesis using same roots \<open>isl res \<Longrightarrow> rt' = rt\<close> by blast
  next
    case False
    with ok obtain l e where l: "mget (disp_leases rt) t = Some l" "e = minTime (lse_Expires l) (now + 2 * second)"
      and all: "if cancel then (\<forall>k. mget (disp_leases rt') k =
              (if descends (disp_leases rt) t k then None else mget (disp_leases rt) k))
           else if lse_Finished l then rt' = rt
           else (\<forall>k. mget (disp_leases rt') k = map_option (\<lambda>m. if k = t then finished e m
              else if below (disp_leases rt) [t] k then bound e m else m) (mget (disp_leases rt) k))" by blast
    have res: "if cancel then (\<forall>k. mget (disp_leases rt') k =
              (if descends (disp_leases rt) t k then None else mget (disp_leases rt) k))
           else (\<forall>k. mget (disp_leases rt') k = map_option (\<lambda>m. if k = t then finished e m
              else if below (disp_leases rt) [t] k then bound e m else m) (mget (disp_leases rt) k))"
      using all False by (simp split: if_splits)
    have "e \<le> lse_Expires l" using l(2) by (simp add: minTime_min)
    then show thesis
      using cancelled[OF roots _ l(1)] bounded[OF roots _ l] res by (cases cancel) auto
  qed
qed

lemma finish_shrinks:
  assumes "layered (disp_leases rt)" "finishLocked h callerToken t cancel now rt = Some (res, rt')"
  shows "shrinks (disp_leases rt) (disp_leases rt')"
  using assms
proof (cases rule: finish_cases[OF assms])
  case cancelled: (2 l)
  then show ?thesis by (auto simp: shrinks_def split: if_splits)
next
  case bounded: (3 l e)
  have "shrunk m (if k = t then finished e m else if below (disp_leases rt) [t] k then bound e m else m)"
    if "mget (disp_leases rt) k = Some m" for k m
    using that bounded(3,5) by (auto simp: shrunk_def finished_def bound_def observed_def minTime_min)
  then show ?thesis
    unfolding shrinks_def bounded(6) by (auto simp only: map_option_eq_Some)
qed simp

lemma end_shrinks: "shrinks (disp_leases rt) (disp_leases (EndDispatchRoot h i cancel now rt))"
proof (cases "mget (disp_roots rt) i")
  case None
  then show ?thesis by (simp add: EndDispatchRoot_def)
next
  case (Some r)
  show ?thesis
    by (rule shrinks_image[where f = "\<lambda>_ l. if lse_Root l = i
        then (if cancel then observed else id) (bound (root_Expires (endedRoot cancel now r)) l) else l"])
      (use Some shrunk_trans[OF shrunk_bound shrunk_observed(1)] in \<open>auto simp: end_tables\<close>)
qed

section \<open>The invariant\<close>

definition lease_local :: "string list \<Rightarrow> dispatchLease \<Rightarrow> bool" where
  "lease_local used l \<longleftrightarrow> lse_Expires l \<le> lse_Deadline l \<and> lse_Deadline l \<le> lse_AdmittedAt l + 30 * second
     \<and> 0 \<le> lse_Remaining l \<and> lse_Remaining l \<le> 10000 \<and> 0 \<le> lse_Depth l \<and> lse_Depth l \<le> 8 \<and> lse_LogLines l \<le> 64
     \<and> (lse_Depth l = 0 \<longleftrightarrow> lse_Parent l = [])
     \<and> (lse_Parent l = [] \<or> lse_Parent l \<in> set used) \<and> (lse_Root l = [] \<or> lse_Root l \<in> set used)"

definition nested :: "(string, dispatchLease) gomap \<Rightarrow> bool" where
  "nested ls \<longleftrightarrow> (\<forall>k l p. mget ls k = Some l \<longrightarrow> mget ls (lse_Parent l) = Some p \<longrightarrow>
     lse_Depth l = lse_Depth p + 1 \<and> lse_TransportToken l = lse_TransportToken p \<and> lse_Root l = lse_Root p
     \<and> lse_Expires l \<le> lse_Expires p)"

definition rooted :: "(string, dispatchLease) gomap \<Rightarrow> (string, dispatchRoot) gomap \<Rightarrow> bool" where
  "rooted ls rs \<longleftrightarrow> (\<forall>k l r. mget ls k = Some l \<longrightarrow> mget rs (lse_Root l) = Some r \<longrightarrow> lse_Expires l \<le> root_Expires r)"

definition capped :: "(string, dispatchLease) gomap \<Rightarrow> bool" where
  "capped ls \<longleftrightarrow> mlen ls \<le> 1024 \<and> (\<forall>n. mcount (\<lambda>_. inNamespace n) ls \<le> 128)
     \<and> (\<forall>n c. mcount (\<lambda>_. ofCustomer n c) ls \<le> 32)"

text \<open>What was answered about a parent stays true of it: the answer is one more than the parent's depth.\<close>

definition answered :: "(string \<times> string \<times> string \<times> int) list \<Rightarrow> string list \<Rightarrow> (string, dispatchLease) gomap \<Rightarrow> bool" where
  "answered ps used ls \<longleftrightarrow> (\<forall>(transport, parentID, rootID, depth) \<in> set ps.
     parentID \<in> set used \<and> (\<forall>p. mget ls parentID = Some p \<longrightarrow> depth = lse_Depth p + 1))"

lemma answered_shrinks: "answered ps used ls \<Longrightarrow> shrinks ls ls' \<Longrightarrow> set used \<subseteq> set used' \<Longrightarrow> answered ps used' ls'"
  unfolding answered_def shrinks_def shrunk_def by fastforce

lemma answered_admit: "answered ps used ls \<Longrightarrow> token \<notin> set used \<Longrightarrow> answered ps (token # used) (mput token l ls)"
  unfolding answered_def by (intro ballI) (fastforce dest: bspec split: if_splits)

definition lease_inv :: "dispatchSystem \<Rightarrow> bool" where
  "lease_inv s \<longleftrightarrow> [] \<notin> set (dsys_used s)
     \<and> (\<forall>k l. mget (leases s) k = Some l \<longrightarrow> k \<in> set (dsys_used s) \<and> lease_local (dsys_used s) l)
     \<and> (\<forall>i r. mget (ingress s) i = Some r \<longrightarrow> i \<in> set (dsys_used s))
     \<and> nested (leases s) \<and> rooted (leases s) (ingress s) \<and> capped (leases s)
     \<and> answered (dsys_parents s) (dsys_used s) (leases s)"

lemma lease_invD:
  assumes "lease_inv s"
  shows "mget (leases s) k = Some l \<Longrightarrow> k \<in> set (dsys_used s)"
    "mget (leases s) k = Some l \<Longrightarrow> lease_local (dsys_used s) l"
    "mget (ingress s) i = Some r \<Longrightarrow> i \<in> set (dsys_used s)"
    "nested (leases s)" "rooted (leases s) (ingress s)" "capped (leases s)" "[] \<notin> set (dsys_used s)"
    "answered (dsys_parents s) (dsys_used s) (leases s)"
  using assms by (auto simp: lease_inv_def)

lemma nestedD: "nested ls \<Longrightarrow> mget ls k = Some l \<Longrightarrow> mget ls (lse_Parent l) = Some p \<Longrightarrow>
    lse_Depth l = lse_Depth p + 1 \<and> lse_TransportToken l = lse_TransportToken p \<and> lse_Root l = lse_Root p
     \<and> lse_Expires l \<le> lse_Expires p"
  by (simp add: nested_def)

lemma lease_inv_layered: "lease_inv s \<Longrightarrow> layered (leases s)"
  using lease_invD(2,4)[of s] unfolding layered_def by (meson lease_local_def nestedD)

lemma shrunk_local: "shrunk l l' \<Longrightarrow> lease_local used l \<Longrightarrow> set used \<subseteq> set used' \<Longrightarrow> lease_local used' l'"
  by (auto simp: shrunk_def lease_local_def)

lemma shrinks_capped:
  assumes "shrinks ls ls'" "capped ls" shows "capped ls'"
proof -
  have "mcount (\<lambda>_. inNamespace n) ls' \<le> mcount (\<lambda>_. inNamespace n) ls" for n
    by (rule shrinks_mcount[OF assms(1)]) (rule shrunk_target)
  moreover have "mcount (\<lambda>_. ofCustomer n c) ls' \<le> mcount (\<lambda>_. ofCustomer n c) ls" for n c
    by (rule shrinks_mcount[OF assms(1)]) (rule shrunk_target)
  ultimately show ?thesis
    using assms(2) shrinks_mlen[OF assms(1)] unfolding capped_def by (meson order_trans)
qed

text \<open>A shrunk table is nested when the expiries still are, and rooted when the roots allow it.\<close>

lemma nested_shrinks:
  assumes "nested ls" "shrinks ls ls'"
    and "\<And>k l p. mget ls' k = Some l \<Longrightarrow> mget ls' (lse_Parent l) = Some p \<Longrightarrow> lse_Expires l \<le> lse_Expires p"
  shows "nested ls'"
  unfolding nested_def
proof (intro allI impI)
  fix k l' p' assume l': "mget ls' k = Some l'" and p': "mget ls' (lse_Parent l') = Some p'"
  obtain l where l: "mget ls k = Some l" "shrunk l l'" using assms(2) l' by (auto simp: shrinks_def)
  obtain p where p: "mget ls (lse_Parent l') = Some p" "shrunk p p'" using assms(2) p' by (auto simp: shrinks_def)
  have "lse_Parent l' = lse_Parent l" using l(2) by (simp add: shrunk_def)
  then show "lse_Depth l' = lse_Depth p' + 1 \<and> lse_TransportToken l' = lse_TransportToken p' \<and> lse_Root l' = lse_Root p'
      \<and> lse_Expires l' \<le> lse_Expires p'"
    using nestedD[OF assms(1) l(1), of p] p l assms(3)[OF l' p'] by (simp add: shrunk_def)
qed

lemma nested_timely:
  assumes "nested ls" "shrinks ls ls'" "timely ls ls'"
  shows "nested ls'"
proof (rule nested_shrinks[OF assms(1,2)])
  fix k l' p' assume l': "mget ls' k = Some l'" and p': "mget ls' (lse_Parent l') = Some p'"
  obtain l where l: "mget ls k = Some l" "shrunk l l'" using assms(2) l' by (auto simp: shrinks_def)
  obtain p where p: "mget ls (lse_Parent l') = Some p" "shrunk p p'" using assms(2) p' by (auto simp: shrinks_def)
  have "lse_Expires l' = lse_Expires l" "lse_Expires p' = lse_Expires p"
    using assms(3) l(1) l' p(1) p' by (auto simp: timely_def)
  moreover have "lse_Parent l' = lse_Parent l" using l(2) by (simp add: shrunk_def)
  ultimately show "lse_Expires l' \<le> lse_Expires p'" using nestedD[OF assms(1) l(1), of p] p(1) by simp
qed

lemma rooted_shrinks:
  assumes "rooted ls rs" "shrinks ls ls'"
    and "\<And>i r'. mget rs' i = Some r' \<Longrightarrow> \<exists>r. mget rs i = Some r \<and> root_Expires r' = root_Expires r"
  shows "rooted ls' rs'"
  unfolding rooted_def
proof (intro allI impI)
  fix k l' r' assume l': "mget ls' k = Some l'" and r': "mget rs' (lse_Root l') = Some r'"
  obtain l where l: "mget ls k = Some l" "lse_Root l' = lse_Root l" "lse_Expires l' \<le> lse_Expires l"
    using assms(2) l' by (auto simp: shrinks_def shrunk_def)
  obtain r where r: "mget rs (lse_Root l') = Some r" "root_Expires r' = root_Expires r"
    using assms(3)[OF r'] by blast
  then show "lse_Expires l' \<le> root_Expires r'"
    using assms(1) l r unfolding rooted_def by (metis order_trans)
qed

lemma lease_inv_shrinks:
  assumes "lease_inv s" "shrinks (leases s) (leases s')" "nested (leases s')" "rooted (leases s') (ingress s')"
    and "set (dsys_used s) \<subseteq> set (dsys_used s')" "[] \<notin> set (dsys_used s')"
    and "\<And>i r. mget (ingress s') i = Some r \<Longrightarrow> i \<in> set (dsys_used s')"
    and "dsys_parents s' = dsys_parents s"
  shows "lease_inv s'"
  unfolding lease_inv_def
proof (intro conjI allI impI)
  fix k l' assume "mget (leases s') k = Some l'"
  then obtain l where "mget (leases s) k = Some l" "shrunk l l'"
    using assms(2) by (auto simp: shrinks_def)
  then show "k \<in> set (dsys_used s')" "lease_local (dsys_used s') l'"
    using lease_invD(1,2)[OF assms(1), of k l] assms(5) shrunk_local[of l l'] by auto
qed (use assms shrinks_capped lease_invD(6)[OF assms(1)] answered_shrinks[OF lease_invD(8)[OF assms(1)]] in auto)

section \<open>Admission\<close>

lemma chargeRoot_effect:
  assumes "chargeRoot rootID caller depth now d rt = (res, rt')"
  shows "disp_leases rt' = disp_leases rt" "disp_contexts rt' = disp_contexts rt" "disp_counts rt' = disp_counts rt"
    and "if rootID = [] then disp_roots rt' = disp_roots rt \<and> res = Inr d
      else disp_roots rt' = disp_roots rt \<and> isl res
       \<or> (\<exists>r r'. mget (disp_roots rt) rootID = Some r \<and> disp_roots rt' = mput rootID r' (disp_roots rt)
           \<and> root_Expires r' = root_Expires r \<and> root_Context r' = root_Context r
           \<and> (isl res \<and> root_Remaining r' = root_Remaining r
               \<or> 1 \<le> root_Remaining r \<and> root_Remaining r' = root_Remaining r - 1
                 \<and> res = Inr (minTime d (root_Expires r))))"
  using assms by (auto simp: chargeRoot_def Let_def split: option.splits if_splits)

definition liveLeases :: "time \<Rightarrow> (string, dispatchLease) gomap \<Rightarrow> (string, dispatchLease) gomap" where
  "liveLeases now ls = mfilter (\<lambda>(_, l). now < lse_Expires l) ls"

definition belowLimits :: "App \<Rightarrow> (string, dispatchLease) gomap \<Rightarrow> bool" where
  "belowLimits app ls \<longleftrightarrow> mlen ls < 1024 \<and> mcount (\<lambda>_. inNamespace (Platform_NamespaceID (platformOf app))) ls < 128
     \<and> mcount (\<lambda>_. ofCustomer (Platform_NamespaceID (platformOf app)) (Platform_CustomerID (platformOf app))) ls < 32"

lemma purgeLeases_tables [simp]: "disp_leases (purgeLeases now rt) = liveLeases now (disp_leases rt)"
    "disp_roots (purgeLeases now rt) = disp_roots rt" "disp_counts (purgeLeases now rt) = disp_counts rt"
  by (simp_all add: purgeLeases_def liveLeases_def)

lemma admitObservation_tables [simp]:
  "disp_leases (admitDispatchObservationLocked w rt) = disp_leases rt"
  "disp_roots (admitDispatchObservationLocked w rt) = disp_roots rt"
  "disp_contexts (admitDispatchObservationLocked w rt) = disp_contexts rt"
  by (simp_all add: admitDispatchObservationLocked_def Let_def)

lemma parentDeadline_ok: "parentDeadline parentID transport rootID depth now d rt = Inr d' \<Longrightarrow>
    (parentID = [] \<and> d' = d) \<or> (\<exists>p. mget (disp_leases rt) parentID = Some p \<and> now < lse_Expires p
      \<and> lse_TransportToken p = transport \<and> lse_Root p = rootID \<and> depth \<le> 8 \<and> d' = minTime d (lse_Expires p))"
  by (auto simp: parentDeadline_def split: if_splits option.splits)

definition newLease :: "string \<Rightarrow> string \<Rightarrow> string \<Rightarrow> RuntimeGrant \<Rightarrow> ActiveDeployment \<Rightarrow> string
    \<Rightarrow> string \<Rightarrow> int \<Rightarrow> time \<Rightarrow> time \<Rightarrow> dispatchLease \<Rightarrow> bool" where
  "newLease token callerToken transport caller selected rootID parentID depth now d l \<longleftrightarrow>
     lse_AdmittedAt l = now \<and> lse_Observed l = False \<and> lse_LogLines l = 0 \<and> lse_TransportToken l = transport
     \<and> lse_Parent l = parentID \<and> lse_Depth l = depth \<and> lse_Root l = rootID \<and> lse_CallerToken l = callerToken
     \<and> lse_Caller l = caller \<and> lse_Target l = selected \<and> lse_Deadline l = d \<and> lse_Expires l = d
     \<and> lse_Remaining l = 10000"

lemma acquire_effect:
  assumes "acquireLocked token callerToken transport caller app selected rootID parentID depth now rt = (res, rt')"
  shows "disp_roots rt' = disp_roots rt \<and> (isl res \<or> rootID = [])
       \<or> (\<exists>r r'. mget (disp_roots rt) rootID = Some r \<and> disp_roots rt' = mput rootID r' (disp_roots rt)
           \<and> root_Expires r' = root_Expires r \<and> root_Context r' = root_Context r
           \<and> (isl res \<and> root_Remaining r' = root_Remaining r
               \<or> 1 \<le> root_Remaining r \<and> root_Remaining r' = root_Remaining r - 1))" (is ?roots)
    and "case res of Inl _ \<Rightarrow> disp_leases rt' = disp_leases rt \<or> disp_leases rt' = liveLeases now (disp_leases rt)
     | Inr d \<Rightarrow> (\<exists>l. disp_leases rt' = mput token l (liveLeases now (disp_leases rt))
         \<and> newLease token callerToken transport (Prin_Grant caller) selected rootID parentID depth now d l)
       \<and> belowLimits app (liveLeases now (disp_leases rt)) \<and> d \<le> now + 30 * second
       \<and> (parentID = [] \<or> (\<exists>p. mget (disp_leases rt) parentID = Some p \<and> now < lse_Expires p
            \<and> lse_TransportToken p = transport \<and> lse_Root p = rootID \<and> depth \<le> 8 \<and> d \<le> lse_Expires p))
       \<and> (rootID = [] \<or> (\<exists>r. mget (disp_roots rt) rootID = Some r \<and> d \<le> root_Expires r))" (is ?leases)
proof -
  have "?roots \<and> ?leases"
  proof (cases "parentDeadline parentID transport rootID depth now (now + 30 * second) rt")
    case (Inl e)
    then have "res = Inl e" "rt' = rt" using assms by (simp_all add: acquireLocked_def)
    then show ?thesis by simp
  next
    case d1: (Inr d1)
    obtain cres rt1 where c: "chargeRoot rootID caller depth now d1 rt = (cres, rt1)" by fastforce
    note ce = chargeRoot_effect[OF c]
    show ?thesis
    proof (cases cres)
      case (Inl e)
      then have res: "res = Inl e" "rt' = rt1" using assms c d1 by (simp_all add: acquireLocked_def)
      have "?roots" using ce(4) Inl unfolding res by (auto split: if_splits)
      then show ?thesis using ce(1) unfolding res by simp
    next
      case (Inr d)
      have "d1 \<le> now + 30 * second \<and> (parentID = [] \<or> (\<exists>p. mget (disp_leases rt) parentID = Some p \<and> now < lse_Expires p
            \<and> lse_TransportToken p = transport \<and> lse_Root p = rootID \<and> depth \<le> 8 \<and> d1 \<le> lse_Expires p))"
        using parentDeadline_ok[OF d1] by (auto simp: minTime_min)
      moreover have "d \<le> d1 \<and> (rootID = [] \<or> (\<exists>r. mget (disp_roots rt) rootID = Some r \<and> d \<le> root_Expires r))"
        using ce(4) Inr by (auto simp: minTime_min split: if_splits)
      ultimately have bounds: "d \<le> now + 30 * second" "rootID = [] \<or> (\<exists>r. mget (disp_roots rt) rootID = Some r \<and> d \<le> root_Expires r)"
        "parentID = [] \<or> (\<exists>p. mget (disp_leases rt) parentID = Some p \<and> now < lse_Expires p
            \<and> lse_TransportToken p = transport \<and> lse_Root p = rootID \<and> depth \<le> 8 \<and> d \<le> lse_Expires p)"
        by force+
      have out: "if belowLimits app (liveLeases now (disp_leases rt))
        then res = Inr d \<and> disp_roots rt' = disp_roots rt1
          \<and> (\<exists>l. disp_leases rt' = mput token l (liveLeases now (disp_leases rt))
             \<and> newLease token callerToken transport (Prin_Grant caller) selected rootID parentID depth now d l)
        else res = Inl ErrDispatchOverloaded \<and> rt' = purgeLeases now rt1"
        using assms c d1 Inr ce(1)
        by (auto simp: acquireLocked_def Let_def belowLimits_def newLease_def withDeadline_def
            defaultInvocationSubrequestBudget_def not_less[symmetric] split: if_splits)
      show ?thesis using out bounds ce Inr by (auto split: if_splits)
    qed
  qed
  then show ?roots ?leases by blast+
qed

lemma live_tables [simp]: "shrinks ls (liveLeases now ls)" "timely ls (liveLeases now ls)"
  by (simp_all add: liveLeases_def)

lemma capped_admit:
  assumes "capped ls" "belowLimits app ls" "platformOf (Active_App (lse_Target l)) = platformOf app"
  shows "capped (mput token l ls)"
proof -
  have le: "mcount P (mput token l ls) \<le> mcount P ls + (if P token l then 1 else 0)" for P
    using mcount_del[of P token ls] by (simp add: mcount_put)
  have "mlen (mput token l ls) \<le> 1024"
    using le[of "\<lambda>_ _. True"] assms(2) by (simp add: belowLimits_def mlen_mcount)
  moreover have "mcount (\<lambda>_. inNamespace n) (mput token l ls) \<le> 128" for n
    using le[of "\<lambda>_. inNamespace n"] assms by (auto simp: belowLimits_def capped_def inNamespace_def split: if_splits
        dest!: spec[of _ n] intro: le_trans)
  moreover have "mcount (\<lambda>_. ofCustomer n c) (mput token l ls) \<le> 32" for n c
    using le[of "\<lambda>_. ofCustomer n c"] assms by (auto simp: belowLimits_def capped_def ofCustomer_def inNamespace_def
        split: if_splits dest!: spec2[of _ n c] intro: le_trans)
  ultimately show ?thesis by (simp add: capped_def)
qed

lemma nested_admit:
  assumes "nested ls" "mget ls token = None" "\<And>k m. mget ls k = Some m \<Longrightarrow> lse_Parent m \<noteq> token"
    and "lse_Parent l \<noteq> token"
    and "\<And>p. mget ls (lse_Parent l) = Some p \<Longrightarrow> lse_Depth l = lse_Depth p + 1
      \<and> lse_TransportToken l = lse_TransportToken p \<and> lse_Root l = lse_Root p \<and> lse_Expires l \<le> lse_Expires p"
  shows "nested (mput token l ls)"
  unfolding nested_def
proof (intro allI impI)
  fix k m p assume m: "mget (mput token l ls) k = Some m" and p: "mget (mput token l ls) (lse_Parent m) = Some p"
  show "lse_Depth m = lse_Depth p + 1 \<and> lse_TransportToken m = lse_TransportToken p \<and> lse_Root m = lse_Root p
     \<and> lse_Expires m \<le> lse_Expires p"
  proof (cases "k = token")
    case True
    then show ?thesis using m p assms(4,5) by auto
  next
    case False
    then have "mget ls k = Some m" "lse_Parent m \<noteq> token" using m assms(3) by auto
    then show ?thesis using p nestedD[OF assms(1)] by simp
  qed
qed

lemma lease_inv_admit:
  assumes inv: "lease_inv s" and fr: "fresh token s" and req: "askedFor parentID depth callerToken transport rootID s"
    and app: "platformOf (Active_App selected) = platformOf app"
    and acq: "acquireLocked token callerToken transport caller app selected rootID parentID depth now (dsys_rt s) = (Inr d, rt')"
  shows "lease_inv (s\<lparr>dsys_rt := rt', dsys_used := token # dsys_used s, dsys_spent := sp\<rparr>)"
proof -
  note eff = acquire_effect[OF acq, simplified]
  let ?live = "liveLeases now (leases s)"
  obtain l where l: "disp_leases rt' = mput token l ?live"
    "newLease token callerToken transport (Prin_Grant caller) selected rootID parentID depth now d l"
    using eff(2) by blast
  note nl = l(2)[unfolded newLease_def]
  have used: "token \<noteq> []" "token \<notin> set (dsys_used s)" using fr by (simp_all add: fresh_def)
  have old: "k \<in> set (dsys_used s) \<and> lease_local (dsys_used s) m" if "mget ?live k = Some m" for k m
    using that lease_invD(1,2)[OF inv, of k m]
    by (auto simp: liveLeases_def mget_filter split: option.splits if_splits)
  have no: "mget ?live token = None" using old[of token] used(2) by (cases "mget ?live token") auto
  have roots: "\<exists>r. mget (ingress s) i = Some r \<and> root_Expires r' = root_Expires r"
    if "mget (disp_roots rt') i = Some r'" for i r'
    using eff(1) that by (auto split: if_splits)
  have dep: "parentID = [] \<and> depth = 0 \<or> parentID \<noteq> [] \<and> (\<forall>p. mget (leases s) parentID = Some p \<longrightarrow> depth = lse_Depth p + 1)"
    using req lease_invD(7,8)[OF inv] unfolding askedFor_def answered_def by fastforce
  have parent: "parentID = [] \<and> depth = 0 \<or> (\<exists>p. mget ?live parentID = Some p
      \<and> mget (leases s) parentID = Some p \<and> depth = lse_Depth p + 1 \<and> depth \<le> 8 \<and> parentID \<noteq> []
      \<and> transport = lse_TransportToken p \<and> rootID = lse_Root p \<and> d \<le> lse_Expires p)"
    using eff(2) dep lease_invD(1)[OF inv, of "[]"] lease_invD(7)[OF inv]
    by (auto simp: liveLeases_def mget_filter split: if_splits)
  have parentUsed: "parentID = [] \<or> parentID \<in> set (dsys_used s)"
    using parent lease_invD(1)[OF inv] by blast
  have local: "lease_local (token # dsys_used s) l"
    using nl eff(2) parent parentUsed lease_invD(2)[OF inv, of parentID] lease_invD(3)[OF inv, of rootID]
    by (auto simp: lease_local_def)
  have "nested (mput token l ?live)"
  proof (rule nested_admit)
    show "nested ?live" by (rule nested_timely[OF lease_invD(4)[OF inv]]) simp_all
    show "lse_Parent m \<noteq> token" if "mget ?live k = Some m" for k m
      using old[OF that] used by (auto simp: lease_local_def)
    show "lse_Parent l \<noteq> token" using nl parentUsed used by auto
    show "lse_Depth l = lse_Depth p + 1 \<and> lse_TransportToken l = lse_TransportToken p \<and> lse_Root l = lse_Root p
        \<and> lse_Expires l \<le> lse_Expires p" if "mget ?live (lse_Parent l) = Some p" for p
      using that parent nl old[of "[]" p] lease_invD(7)[OF inv] by auto
  qed (rule no)
  moreover have "rooted (mput token l ?live) (disp_roots rt')"
  proof -
    have live: "rooted ?live (disp_roots rt')"
      by (rule rooted_shrinks[OF lease_invD(5)[OF inv]]) (use roots in auto)
    have "lse_Expires l \<le> root_Expires r'" if r': "mget (disp_roots rt') (lse_Root l) = Some r'" for r'
    proof -
      obtain r where "mget (ingress s) (lse_Root l) = Some r" "root_Expires r' = root_Expires r"
        using roots[OF r'] by blast
      moreover have "lse_Root l \<noteq> []"
        using lease_invD(3)[OF inv] lease_invD(7)[OF inv] calculation(1) by metis
      ultimately show ?thesis using nl eff(2) by auto
    qed
    then show ?thesis using live by (simp add: rooted_def)
  qed
  moreover have "capped (mput token l ?live)"
    using capped_admit[OF shrinks_capped[OF _ lease_invD(6)[OF inv]], of ?live app l token] eff(2) nl app by simp
  moreover have "k \<in> set (token # dsys_used s) \<and> lease_local (token # dsys_used s) m"
    if "mget (mput token l ?live) k = Some m" for k m
    using that local old[of k m] shrunk_local[OF shrunk_refl, of "dsys_used s" m "token # dsys_used s"]
    by (auto split: if_splits)
  moreover have "i \<in> set (dsys_used s)" if "mget (disp_roots rt') i = Some r" for i r
    using roots[OF that] lease_invD(3)[OF inv] by blast
  moreover have "answered (dsys_parents s) (token # dsys_used s) (mput token l ?live)"
    by (rule answered_admit[OF answered_shrinks[OF lease_invD(8)[OF inv]] used(2)]) simp_all
  ultimately show ?thesis
    unfolding lease_inv_def using lease_invD(7)[OF inv] used(1) l(1) by auto
qed

section \<open>The other sections\<close>

text \<open>A section that keeps the expiries of leases and roots and issues no token.\<close>

lemma lease_inv_kept:
  assumes "lease_inv s" "shrinks (leases s) (disp_leases rt')" "timely (leases s) (disp_leases rt')"
    and "\<And>i r'. mget (disp_roots rt') i = Some r' \<Longrightarrow> \<exists>r. mget (ingress s) i = Some r \<and> root_Expires r' = root_Expires r"
  shows "lease_inv (s\<lparr>dsys_rt := rt'\<rparr>)"
  by (rule lease_inv_shrinks[OF assms(1)])
    (use assms nested_timely rooted_shrinks lease_invD[OF assms(1)] in \<open>auto dest!: assms(4)\<close>)

lemma lease_inv_ghost: "lease_inv (s\<lparr>dsys_rt := rt'\<rparr>) \<Longrightarrow> token \<noteq> [] \<Longrightarrow>
    lease_inv (s\<lparr>dsys_rt := rt', dsys_used := token # dsys_used s, dsys_spent := sp\<rparr>)"
    "lease_inv (s\<lparr>dsys_rt := rt'\<rparr>) \<Longrightarrow> lease_inv (s\<lparr>dsys_rt := rt', dsys_spent := sp\<rparr>)"
  by (auto simp: lease_inv_def lease_local_def answered_def)

lemma lease_inv_end:
  assumes inv: "lease_inv s"
  shows "lease_inv (s\<lparr>dsys_rt := EndDispatchRoot h i cancel now (dsys_rt s)\<rparr>)"
proof (cases "mget (ingress s) i")
  case None
  then show ?thesis using inv by (simp add: EndDispatchRoot_def)
next
  case (Some r)
  let ?rt = "EndDispatchRoot h i cancel now (dsys_rt s)" and ?e = "root_Expires (endedRoot cancel now r)"
  let ?f = "\<lambda>l. if lse_Root l = i then (if cancel then observed else id) (bound ?e l) else l"
  have ls: "mget (disp_leases ?rt) k = map_option ?f (mget (leases s) k)" for k
    using Some by (simp add: end_tables)
  have e: "lse_Expires (?f l) = (if lse_Root l = i then min (lse_Expires l) ?e else lse_Expires l)" for l
    by (simp add: bound_def minTime_min)
  have sh: "shrinks (leases s) (disp_leases ?rt)" by (rule end_shrinks)
  have f: "lse_Parent (?f l) = lse_Parent l" "lse_Root (?f l) = lse_Root l" for l
    by (simp_all add: bound_def observed_def)
  have "nested (disp_leases ?rt)"
  proof (rule nested_shrinks[OF lease_invD(4)[OF inv] sh])
    fix k l' p' assume "mget (disp_leases ?rt) k = Some l'" "mget (disp_leases ?rt) (lse_Parent l') = Some p'"
    then obtain l p where lp: "mget (leases s) k = Some l" "l' = ?f l" "mget (leases s) (lse_Parent l') = Some p" "p' = ?f p"
      unfolding ls by (auto simp only: map_option_eq_Some)
    have "lse_Parent l' = lse_Parent l" unfolding lp(2) by (rule f)
    then have "lse_Expires l \<le> lse_Expires p" "lse_Root l = lse_Root p"
      using nestedD[OF lease_invD(4)[OF inv] lp(1), of p] lp(3) by auto
    then show "lse_Expires l' \<le> lse_Expires p'" unfolding lp(2,4) e by auto
  qed
  moreover have "rooted (disp_leases ?rt) (disp_roots ?rt)"
    unfolding rooted_def
  proof (intro allI impI)
    fix k l' r' assume l': "mget (disp_leases ?rt) k = Some l'" and r': "mget (disp_roots ?rt) (lse_Root l') = Some r'"
    obtain l where l: "mget (leases s) k = Some l" "l' = ?f l" using l' unfolding ls by (auto simp only: map_option_eq_Some)
    have "lse_Root l' = lse_Root l" unfolding l(2) by (rule f)
    then show "lse_Expires l' \<le> root_Expires r'"
      using l(1) r' Some lease_invD(5)[OF inv] unfolding l(2) e
      by (auto simp: end_tables rooted_def split: if_splits)
  qed
  ultimately show ?thesis
    using Some lease_invD(3,7)[OF inv] by (intro lease_inv_shrinks[OF inv]) (auto simp: sh end_tables split: if_splits)
qed

lemma lease_inv_finish:
  assumes inv: "lease_inv s" and fin: "finishLocked h callerToken t cancel now (dsys_rt s) = Some (res, rt')"
  shows "lease_inv (s\<lparr>dsys_rt := rt'\<rparr>)"
proof -
  let ?ls = "leases s"
  note lay = lease_inv_layered[OF inv]
  have roots: "disp_roots rt' = ingress s"
    using finish_cases[OF lay fin] by blast
  have roots': "\<exists>r. mget (ingress s) i = Some r \<and> root_Expires r' = root_Expires r"
    if "mget (disp_roots rt') i = Some r'" for i r'
    using that roots by auto
  from finish_cases[OF lay fin] consider (same) "rt' = dsys_rt s"
    | (cancelled) "\<forall>k. mget (disp_leases rt') k = (if descends ?ls t k then None else mget ?ls k)"
    | (bounded) l e where "mget ?ls t = Some l" "e \<le> lse_Expires l"
        "\<And>k. mget (disp_leases rt') k =
          map_option (\<lambda>m. if k = t then finished e m else if below ?ls [t] k then bound e m else m) (mget ?ls k)"
    by blast
  then show ?thesis
  proof cases
    case same
    then show ?thesis using inv by simp
  next
    case cancelled
    have "shrinks ?ls (disp_leases rt')" "timely ?ls (disp_leases rt')"
      using cancelled by (auto simp: shrinks_def timely_def split: if_splits)
    then show ?thesis by (rule lease_inv_kept[OF inv _ _ roots'])
  next
    case bounded
    let ?f = "\<lambda>k m. if k = t then finished e m else if below ?ls [t] k then bound e m else m"
    have f: "lse_Parent (?f k m) = lse_Parent m"
      "lse_Expires (?f k m) = (if descends ?ls t k then min (lse_Expires m) e else lse_Expires m)"
      if "mget ?ls k = Some m" for k m
      using that bounded(1,2) descends_cases[of ?ls t k]
      by (auto simp: finished_def bound_def observed_def minTime_min)
    have sh: "shrinks ?ls (disp_leases rt')" by (rule finish_shrinks[OF lay fin])
    have "nested (disp_leases rt')"
    proof (rule nested_shrinks[OF lease_invD(4)[OF inv] sh])
      fix k l' p' assume "mget (disp_leases rt') k = Some l'" "mget (disp_leases rt') (lse_Parent l') = Some p'"
      then obtain m p where mp: "mget ?ls k = Some m" "l' = ?f k m" "mget ?ls (lse_Parent l') = Some p"
        "p' = ?f (lse_Parent l') p"
        unfolding bounded(3) by (auto simp only: map_option_eq_Some)
      have par: "lse_Parent l' = lse_Parent m" unfolding mp(2) by (rule f[OF mp(1)])
      then have "lse_Expires m \<le> lse_Expires p"
        using nestedD[OF lease_invD(4)[OF inv] mp(1), of p] mp(3) by auto
      moreover have "descends ?ls t k" if "descends ?ls t (lse_Parent l')"
        using descends.child[OF that mp(1)] par by simp
      ultimately show "lse_Expires l' \<le> lse_Expires p'"
        using f(2)[OF mp(1)] f(2)[OF mp(3)] unfolding mp(2,4)[symmetric] by auto
    qed
    then show ?thesis
      using rooted_shrinks[OF lease_invD(5)[OF inv] sh roots'] roots lease_invD(3,7)[OF inv] sh
      by (intro lease_inv_shrinks[OF inv]) simp_all
  qed
qed

theorem lease_inv_step:
  assumes "dispatch_step h s s'" "lease_inv s"
  shows "lease_inv s'"
  using assms(1)
proof cases
  case (d_enable e now)
  show ?thesis unfolding d_enable(1)
    by (rule lease_inv_kept[OF assms(2)]) (auto simp: enable_tables split: if_splits)
next
  case (d_sink b)
  show ?thesis unfolding d_sink(1)
    by (rule lease_inv_kept[OF assms(2)]) (auto simp: SetDispatchObservationSink_def)
next
  case (d_begin token item now res rt')
  note t = begin_tables[OF d_begin(3)]
  have tok: "token \<noteq> []" "token \<notin> set (dsys_used s)" using d_begin(2) by (simp_all add: fresh_def)
  have rd: "rooted (leases s) (disp_roots rt')"
    unfolding rooted_def
  proof (intro allI impI)
    fix k l r assume l: "mget (leases s) k = Some l" and r: "mget (disp_roots rt') (lse_Root l) = Some r"
    have "lse_Root l \<noteq> token" using lease_invD(2)[OF assms(2) l] tok by (auto simp: lease_local_def)
    then have "mget (ingress s) (lse_Root l) = Some r"
      using r t(2) by (auto simp: mget_filter split: if_splits option.splits)
    then show "lse_Expires l \<le> root_Expires r"
      using lease_invD(5)[OF assms(2)] l unfolding rooted_def by blast
  qed
  have "i \<in> set (token # dsys_used s)" if "mget (disp_roots rt') i = Some r" for i r
    using that t(2) lease_invD(3)[OF assms(2), of i]
    by (auto simp: mget_filter split: if_splits option.splits)
  then show ?thesis
    unfolding d_begin(1) using t(1) tok rd lease_invD(4,7)[OF assms(2)]
    by (intro lease_inv_shrinks[OF assms(2)]) auto
next
  case (d_end i cancel now)
  show ?thesis unfolding d_end(1) by (rule lease_inv_end[OF assms(2)])
next
  case (d_hold i f now)
  show ?thesis unfolding d_hold(1)
    by (rule lease_inv_kept[OF assms(2)]) (auto simp: hold_tables split: option.splits if_splits)
next
  case (d_parent transport parentID rootID depth)
  then obtain p where "mget (leases s) parentID = Some p" "depth = lse_Depth p + 1"
    by (auto simp: serviceParentLocked_def split: option.splits if_splits)
  then show ?thesis
    unfolding d_parent(1) using assms(2) lease_invD(1)[OF assms(2)] by (auto simp: lease_inv_def answered_def)
next
  case (d_acquire token parentID depth callerToken transport rootID selected app caller now res rt')
  have tok: "token \<noteq> []" using d_acquire(2) by (simp add: fresh_def)
  show ?thesis
  proof (cases res)
    case (Inl e)
    note eff = acquire_effect[OF d_acquire(6)]
    have "lease_inv (s\<lparr>dsys_rt := rt'\<rparr>)"
      by (rule lease_inv_kept[OF assms(2)]) (use eff Inl in \<open>auto split: if_splits\<close>)
    then show ?thesis unfolding d_acquire(1) by (rule lease_inv_ghost(1)[OF _ tok])
  next
    case (Inr d)
    show ?thesis unfolding d_acquire(1)
      by (rule lease_inv_admit[OF assms(2) d_acquire(2,3,5) d_acquire(6)[unfolded Inr]])
  qed
next
  case (d_invocation token now res rt')
  show ?thesis unfolding d_invocation(1)
    by (rule lease_inv_kept[OF assms(2)]) (use invocation_tables[OF d_invocation(2)] in auto)
next
  case (d_effect token l callerToken cost now res rt')
  note t = effect_tables[OF d_effect(3,2)]
  have "lease_inv (s\<lparr>dsys_rt := rt'\<rparr>)"
  proof (rule lease_inv_kept[OF assms(2)])
    show "shrinks (leases s) (disp_leases rt')" "timely (leases s) (disp_leases rt')"
      using t(3,4) d_effect(2) by (auto simp: shrunk_def)
    show "\<exists>r. mget (ingress s) i = Some r \<and> root_Expires r' = root_Expires r"
      if "mget (disp_roots rt') i = Some r'" for i r'
      using that t(5) by (auto split: if_splits)
  qed
  then show ?thesis unfolding d_effect(1) by (rule lease_inv_ghost(2))
next
  case (d_context token now res rt')
  show ?thesis unfolding d_context(1)
    by (rule lease_inv_kept[OF assms(2)]) (use context_tables[OF d_context(2)] in auto)
next
  case (d_log token l rt')
  note t = log_tables[OF d_log(2)]
  have "shrinks (leases s) (disp_leases rt')" "timely (leases s) (disp_leases rt')"
    unfolding t(4) by (auto simp: shrunk_def split: option.split)
  then show ?thesis unfolding d_log(1)
    by (rule lease_inv_kept[OF assms(2)]) (use t(1) in auto)
next
  case (d_finish callerToken token cancel now res rt')
  show ?thesis unfolding d_finish(1) by (rule lease_inv_finish[OF assms(2) d_finish(2)])
qed

lemma initial_lease_inv: "lease_inv initial_dispatch"
  by (simp add: lease_inv_def initial_dispatch_def dispatchRuntime0_def nested_def rooted_def capped_def mlen_def answered_def)

lemma lease_inv_reachable: "dispatch_reachable h s \<Longrightarrow> lease_inv s"
  unfolding dispatch_reachable_def
  by (induction rule: rtranclp_induct) (auto intro: initial_lease_inv lease_inv_step)

end
