(* ===== verification/Dispatch_Budgets.thy ===== *)
theory Dispatch_Budgets
  imports Dispatch_Invariants
begin

text \<open>
  What is counted: the units charged to an ingress root against its budget, and the observed
  invocations of a worker against the admitted ones.
\<close>

section \<open>The budget of a root\<close>

definition budget_inv :: "dispatchSystem \<Rightarrow> bool" where
  "budget_inv s \<longleftrightarrow> (\<forall>i. spentOn i s \<le> 10000) \<and> (\<forall>i. i \<notin> set (dsys_used s) \<longrightarrow> spentOn i s = 0)
     \<and> (\<forall>i r. mget (ingress s) i = Some r \<longrightarrow> 0 \<le> root_Remaining r \<and> spentOn i s + root_Remaining r \<le> 10000)
     \<and> mlen (ingress s) \<le> 1024"

lemma budget_invD: "budget_inv s \<Longrightarrow> mget (ingress s) i = Some r \<Longrightarrow>
    0 \<le> root_Remaining r \<and> spentOn i s + root_Remaining r \<le> 10000"
  by (simp add: budget_inv_def)

lemma spentOn_spend: "spentOn i (s\<lparr>dsys_rt := rt', dsys_spent := spend ok j c (dsys_spent s)\<rparr>)
    = spentOn i s + (if ok \<and> j \<noteq> [] \<and> i = j then c else 0)"
  "spentOn i (s\<lparr>dsys_rt := rt', dsys_used := u, dsys_spent := spend ok j c (dsys_spent s)\<rparr>)
    = spentOn i s + (if ok \<and> j \<noteq> [] \<and> i = j then c else 0)"
  "spentOn i (s\<lparr>dsys_rt := rt'\<rparr>) = spentOn i s" "spentOn i (s\<lparr>dsys_rt := rt', dsys_used := u\<rparr>) = spentOn i s"
  by (auto simp: spentOn_def spend_def)

lemma mlen_mono: "(\<And>k v. mget m' k = Some v \<Longrightarrow> mhas m k) \<Longrightarrow> mlen m' \<le> mlen m"
  unfolding mlen_mcount by (rule mcount_mono) (auto simp: mhas_def)

text \<open>A section that charges nothing and keeps the roots it leaves.\<close>

lemma budget_kept:
  assumes "budget_inv s" "\<And>i r'. mget (disp_roots rt') i = Some r' \<Longrightarrow>
    \<exists>r. mget (ingress s) i = Some r \<and> root_Remaining r' \<le> root_Remaining r \<and> 0 \<le> root_Remaining r'"
  shows "budget_inv (s\<lparr>dsys_rt := rt'\<rparr>)"
proof -
  have "mlen (disp_roots rt') \<le> mlen (ingress s)"
    by (rule mlen_mono) (use assms(2) in \<open>auto simp: mhas_def\<close>)
  moreover have "0 \<le> root_Remaining r' \<and> spentOn i s + root_Remaining r' \<le> 10000"
    if "mget (disp_roots rt') i = Some r'" for i r'
    using assms(2)[OF that] budget_invD[OF assms(1)] by fastforce
  ultimately show ?thesis using assms(1) by (auto simp: budget_inv_def spentOn_spend)
qed

text \<open>A section that charges \<open>c\<close> units to one root.\<close>

lemma budget_charge:
  assumes "budget_inv s" "mget (ingress s) j = Some r" "0 \<le> c" "c \<le> root_Remaining r"
    "disp_roots rt' = mput j r' (ingress s)" "root_Remaining r' = root_Remaining r - c" "j \<in> set (dsys_used s)"
  shows "budget_inv (s\<lparr>dsys_rt := rt', dsys_spent := spend ok j c (dsys_spent s)\<rparr>)"
proof -
  have "mlen (mput j r' (ingress s)) \<le> mlen (ingress s)"
    by (rule mlen_mono) (use assms(2) in \<open>auto simp: mhas_def split: if_splits\<close>)
  moreover have "spentOn j s + root_Remaining r \<le> 10000" "0 \<le> root_Remaining r"
    using budget_invD[OF assms(1,2)] by auto
  moreover have "spentOn i s + (if ok \<and> j \<noteq> [] \<and> i = j then c else 0) \<le> 10000" for i
    using calculation(2,3) assms(1,4) by (auto simp: budget_inv_def)
  moreover have "0 \<le> root_Remaining x \<and> spentOn i s + (if ok \<and> j \<noteq> [] \<and> i = j then c else 0) + root_Remaining x \<le> 10000"
    if "mget (mput j r' (ingress s)) i = Some x" for i x
    using that calculation(2,3) assms(3,4,6) budget_invD[OF assms(1), of i x] by (auto split: if_splits)
  ultimately show ?thesis
    using assms(1,5,7) unfolding budget_inv_def spentOn_spend by auto
qed

lemma budget_token: "budget_inv (s\<lparr>dsys_rt := rt', dsys_spent := sp\<rparr>) \<Longrightarrow>
    budget_inv (s\<lparr>dsys_rt := rt', dsys_used := token # dsys_used s, dsys_spent := sp\<rparr>)"
    "budget_inv (s\<lparr>dsys_rt := rt'\<rparr>) \<Longrightarrow> budget_inv (s\<lparr>dsys_rt := rt', dsys_used := token # dsys_used s\<rparr>)"
  by (auto simp: budget_inv_def spentOn_def)

lemma spend_none [simp]: "spend False j c sp = sp" "spend ok [] c sp = sp"
  by (simp_all add: spend_def)

lemma budget_ghost: "budget_inv (s\<lparr>dsys_rt := rt'\<rparr>) \<Longrightarrow> budget_inv (s\<lparr>dsys_rt := rt', dsys_spent := dsys_spent s\<rparr>)"
  by (simp add: budget_inv_def spentOn_def)

theorem budget_inv_step:
  assumes "dispatch_step h s s'" "lease_inv s" "budget_inv s"
  shows "budget_inv s'"
  using assms(1)
proof cases
  case (d_enable e now)
  show ?thesis unfolding d_enable(1)
    by (rule budget_kept[OF assms(3)]) (auto simp: enable_tables budget_invD[OF assms(3)] split: if_splits)
next
  case (d_sink b)
  show ?thesis unfolding d_sink(1)
    by (rule budget_kept[OF assms(3)]) (auto simp: SetDispatchObservationSink_def budget_invD[OF assms(3)])
next
  case (d_begin token item now res rt')
  note t = begin_tables[OF d_begin(3)]
  have tok: "token \<noteq> []" "token \<notin> set (dsys_used s)" using d_begin(2) by (simp_all add: fresh_def)
  let ?kept = "mfilter (\<lambda>(_, r). now < root_Expires r) (ingress s)"
  have kept: "mget (ingress s) i = Some r" if "mget ?kept i = Some r" for i r
    using that by (auto simp: mget_filter split: option.splits if_splits)
  show ?thesis
  proof (cases "isl res")
    case True
    have "budget_inv (s\<lparr>dsys_rt := rt'\<rparr>)"
      by (rule budget_kept[OF assms(3)]) (use t(2) True kept budget_invD[OF assms(3)] in auto)
    then show ?thesis unfolding d_begin(1) by (rule budget_token)
  next
    case False
    then obtain r where r: "disp_roots rt' = mput token r ?kept" "root_Remaining r = 10000" "mlen ?kept < 1024"
      using t(2) by auto
    have "mlen (mput token r ?kept) \<le> 1024"
      using r(3) mcount_del[of "\<lambda>_ _. True" token ?kept] by (simp add: mlen_mcount mcount_put)
    then show ?thesis
      unfolding d_begin(1) using assms(3) tok r(1,2) budget_invD[OF assms(3) kept]
      by (auto simp: budget_inv_def spentOn_spend)
  qed
next
  case (d_end i cancel now)
  have "root_Remaining (endedRoot cancel now r) = root_Remaining r" for r
    by (simp add: endedRoot_def Let_def)
  then show ?thesis unfolding d_end(1)
    by (intro budget_kept[OF assms(3)])
      (auto simp: end_tables budget_invD[OF assms(3)] split: option.splits if_splits)
next
  case (d_hold i f now)
  show ?thesis unfolding d_hold(1)
    by (rule budget_kept[OF assms(3)])
      (auto simp: hold_tables budget_invD[OF assms(3)] split: option.splits if_splits)
next
  case (d_parent transport parentID rootID depth)
  then show ?thesis using assms(3) by (simp add: budget_inv_def spentOn_def)
next
  case (d_acquire token parentID depth callerToken transport rootID selected app caller now res rt')
  have "budget_inv (s\<lparr>dsys_rt := rt', dsys_spent := spend (\<not> isl res) rootID 1 (dsys_spent s)\<rparr>)"
  proof (cases "disp_roots rt' = ingress s \<and> (isl res \<or> rootID = [])")
    case True
    then have "budget_inv (s\<lparr>dsys_rt := rt'\<rparr>)"
      by (intro budget_kept[OF assms(3)]) (auto simp: budget_invD[OF assms(3)])
    then show ?thesis using True budget_ghost by auto
  next
    case False
    then obtain r r' where r: "mget (ingress s) rootID = Some r" "disp_roots rt' = mput rootID r' (ingress s)"
      "isl res \<and> root_Remaining r' = root_Remaining r
        \<or> 1 \<le> root_Remaining r \<and> root_Remaining r' = root_Remaining r - 1"
      using acquire_effect(1)[OF d_acquire(6)] by blast
    show ?thesis
    proof (cases "isl res")
      case True
      have "budget_inv (s\<lparr>dsys_rt := rt'\<rparr>)"
        by (rule budget_kept[OF assms(3)])
          (use r budget_invD[OF assms(3)] in \<open>auto split: if_splits\<close>)
      then show ?thesis using True budget_ghost by simp
    next
      case no: False
      show ?thesis
        by (rule budget_charge[OF assms(3) r(1) _ _ r(2)])
          (use r no lease_invD(3)[OF assms(2) r(1)] in auto)
    qed
  qed
  then show ?thesis unfolding d_acquire(1) by (rule budget_token)
next
  case (d_invocation token now res rt')
  show ?thesis unfolding d_invocation(1)
    by (rule budget_kept[OF assms(3)]) (use invocation_tables(2)[OF d_invocation(2)] budget_invD[OF assms(3)] in auto)
next
  case (d_effect token l callerToken cost now res rt')
  note t = effect_tables[OF d_effect(3,2)]
  show ?thesis
  proof (cases "disp_roots rt' = ingress s \<and> (isl res \<or> lse_Root l = [])")
    case True
    then have "budget_inv (s\<lparr>dsys_rt := rt'\<rparr>)"
      by (intro budget_kept[OF assms(3)]) (auto simp: budget_invD[OF assms(3)])
    then show ?thesis unfolding d_effect(1) using True budget_ghost by auto
  next
    case False
    then obtain r where r: "mget (ingress s) (lse_Root l) = Some r" "1 \<le> cost" "cost \<le> root_Remaining r"
      "disp_roots rt' = mput (lse_Root l) (r\<lparr>root_Remaining := root_Remaining r - cost\<rparr>) (ingress s)"
      using t(5) by blast
    show ?thesis unfolding d_effect(1)
      by (rule budget_charge[OF assms(3) r(1) _ _ r(4)]) (use r lease_invD(3)[OF assms(2) r(1)] in auto)
  qed
next
  case (d_context token now res rt')
  show ?thesis unfolding d_context(1)
    by (rule budget_kept[OF assms(3)]) (use context_tables(2)[OF d_context(2)] budget_invD[OF assms(3)] in auto)
next
  case (d_log token l rt')
  show ?thesis unfolding d_log(1)
    by (rule budget_kept[OF assms(3)]) (use log_tables(1)[OF d_log(2)] budget_invD[OF assms(3)] in auto)
next
  case (d_finish callerToken token cancel now res rt')
  have "disp_roots rt' = ingress s"
    using finish_cases[OF lease_inv_layered[OF assms(2)] d_finish(2)] by blast
  then show ?thesis unfolding d_finish(1)
    by (intro budget_kept[OF assms(3)]) (use budget_invD[OF assms(3)] in auto)
qed

lemma budget_inv_reachable:
  assumes "dispatch_reachable h s" shows "budget_inv s"
proof -
  have "lease_inv s \<and> budget_inv s"
    using assms unfolding dispatch_reachable_def
  proof (induction rule: rtranclp_induct)
    case base
    have "budget_inv initial_dispatch"
      by (simp add: budget_inv_def initial_dispatch_def dispatchRuntime0_def spentOn_def mlen_def)
    then show ?case using initial_lease_inv by blast
  qed (use lease_inv_step budget_inv_step in blast)
  then show ?thesis ..
qed

section \<open>Observations\<close>

text \<open>The invocations counted for a worker cover those already observed and the leases that can
  still be observed. The table of counters is limited: a worker that is not in it has leases only
  when the table is full, and the table keeps its workers.\<close>

definition workerOf :: "dispatchLease \<Rightarrow> string" where
  "workerOf l = App_ID (Active_App (lse_Target l))"

definition awaiting :: "string \<Rightarrow> dispatchLease \<Rightarrow> bool" where
  "awaiting w l \<longleftrightarrow> \<not> lse_Observed l \<and> workerOf l = w"

definition counted :: "(string, dispatchLease) gomap \<Rightarrow> (string, DispatchCounters) gomap \<Rightarrow> bool" where
  "counted ls cs \<longleftrightarrow> (\<forall>w c. mget cs w = Some c \<longrightarrow>
     Cnt_Completed c + Cnt_Canceled c + mcount (\<lambda>_. awaiting w) ls \<le> Cnt_Invocations c)
   \<and> (4096 \<le> mlen cs \<or> (\<forall>k l. mget ls k = Some l \<longrightarrow> mhas cs (workerOf l)))"

lemma counted_shrinks:
  assumes "counted ls cs" "shrinks ls ls'"
  shows "counted ls' cs"
proof -
  have "mcount (\<lambda>_. awaiting w) ls' \<le> mcount (\<lambda>_. awaiting w) ls" for w
    by (rule shrinks_mcount[OF assms(2)]) (auto simp: shrunk_def awaiting_def workerOf_def)
  moreover have worker: "\<exists>l. mget ls k = Some l \<and> workerOf l = workerOf l'" if "mget ls' k = Some l'" for k l'
    using that assms(2) unfolding shrinks_def shrunk_def workerOf_def by metis
  moreover have "Cnt_Completed c + Cnt_Canceled c + mcount (\<lambda>_. awaiting w) ls \<le> Cnt_Invocations c"
    if "mget cs w = Some c" for w c
    using that assms(1) by (simp add: counted_def)
  ultimately have "Cnt_Completed c + Cnt_Canceled c + mcount (\<lambda>_. awaiting w) ls' \<le> Cnt_Invocations c"
    if "mget cs w = Some c" for w c
    using that by (meson add_le_mono le_refl le_trans)
  moreover have "4096 \<le> mlen cs \<or> mhas cs (workerOf l')" if "mget ls' k = Some l'" for k l'
    using worker[OF that] assms(1) unfolding counted_def by metis
  ultimately show ?thesis unfolding counted_def by blast
qed

lemma counted_observe:
  assumes "counted (disp_leases rt) (disp_counts rt)"
  shows "counted (disp_leases (observeDispatchLocked h t out now rt)) (disp_counts (observeDispatchLocked h t out now rt))"
proof (cases "case mget (disp_leases rt) t of None \<Rightarrow> True | Some l \<Rightarrow> lse_Observed l \<or> lse_AdmittedAt l = 0")
  case True
  then have "observeDispatchLocked h t out now rt = rt"
    by (cases "mget (disp_leases rt) t") (simp_all add: observeDispatchLocked_def)
  then show ?thesis using assms by simp
next
  case False
  then obtain l where l: "mget (disp_leases rt) t = Some l" "\<not> lse_Observed l" "lse_AdmittedAt l \<noteq> 0"
    by (auto split: option.splits)
  let ?w = "workerOf l"
  have "mcount (\<lambda>_. awaiting w) (mput t (l\<lparr>lse_Observed := True\<rparr>) (disp_leases rt))
      + (if w = ?w then 1 else 0) = mcount (\<lambda>_. awaiting w) (disp_leases rt)" for w
    using l mcount_pos[of "disp_leases rt" t l "\<lambda>_. awaiting w"]
    by (cases "w = ?w") (simp_all add: mcount_put mcount_del awaiting_def workerOf_def)
  then have m: "mcount (\<lambda>_. awaiting w) (disp_leases rt)
      = mcount (\<lambda>_. awaiting w) (mput t (l\<lparr>lse_Observed := True\<rparr>) (disp_leases rt)) + (if w = ?w then 1 else 0)" for w
    by metis
  have ls: "disp_leases (observeDispatchLocked h t out now rt) = mput t (l\<lparr>lse_Observed := True\<rparr>) (disp_leases rt)"
    and cs: "disp_counts (observeDispatchLocked h t out now rt) = (case mget (disp_counts rt) ?w of
      None \<Rightarrow> disp_counts rt | Some c \<Rightarrow> mput ?w (countOutcome out
        (max 0 (rat_of_int (now - lse_AdmittedAt l) / 1000000)) c) (disp_counts rt))"
    unfolding workerOf_def using l by (simp_all add: observeDispatchLocked_def Let_def del: of_int_diff)
  have keep: "mhas (disp_counts (observeDispatchLocked h t out now rt)) w = mhas (disp_counts rt) w" for w
    unfolding cs by (auto simp: mhas_def split: option.splits)
  then have len: "mlen (disp_counts (observeDispatchLocked h t out now rt)) = mlen (disp_counts rt)"
    by (intro le_antisym mlen_mono) (auto simp: mhas_def)
  have "Cnt_Completed c' + Cnt_Canceled c' + mcount (\<lambda>_. awaiting w) (mput t (l\<lparr>lse_Observed := True\<rparr>) (disp_leases rt))
      \<le> Cnt_Invocations c'" if c': "mget (disp_counts (observeDispatchLocked h t out now rt)) w = Some c'" for w c'
  proof -
    obtain c where c: "mget (disp_counts rt) w = Some c" "Cnt_Invocations c' = Cnt_Invocations c"
      "Cnt_Completed c' + Cnt_Canceled c' = Cnt_Completed c + Cnt_Canceled c + (if w = ?w then 1 else 0)"
      using c' unfolding cs by (cases "w = ?w") (auto simp: countOutcome_def split: option.splits if_splits)
    moreover have "Cnt_Completed c + Cnt_Canceled c + mcount (\<lambda>_. awaiting w) (disp_leases rt) \<le> Cnt_Invocations c"
      using assms c(1) unfolding counted_def by blast
    ultimately show ?thesis using m[of w] by linarith
  qed
  then show ?thesis
    using assms l unfolding counted_def len keep ls by (auto simp: workerOf_def)
qed

abbreviation counted_rt :: "dispatchRuntime \<Rightarrow> bool" where
  "counted_rt rt \<equiv> counted (disp_leases rt) (disp_counts rt)"

lemma counted_fold: "counted_rt rt \<Longrightarrow> counted_rt (fold (\<lambda>t. observeDispatchLocked h t out now) ts rt)"
  by (induction ts arbitrary: rt) (auto intro: counted_observe)

lemma counted_end: "counted_rt rt \<Longrightarrow> counted_rt (EndDispatchRoot h i cancel now rt)"
  by (cases "mget (disp_roots rt) i")
    (auto simp: EndDispatchRoot_def Let_def intro!: counted_fold intro: counted_shrinks split: option.split)

lemma counted_cancelLoop: "counted_rt rt \<Longrightarrow> counted_rt (cancelLoop h now ts rt)"
proof (induction h now ts rt rule: cancelLoop.induct)
  case (2 h now i pending rt)
  have "counted_rt (dropLease h now i rt)"
    using counted_observe[OF 2(2), of h i "''canceled''" now] 2(2)
    by (auto simp: dropLease_def Let_def intro: counted_shrinks split: option.split)
  then show ?case using 2(1)[OF refl] by (simp add: Let_def)
qed simp

lemma counted_finish:
  assumes "finishLocked h callerToken t cancel now rt = Some (res, rt')" "layered (disp_leases rt)" "counted_rt rt"
  shows "counted_rt rt'"
proof (rule finish_cases[OF assms(2,1)], goal_cases same cancelled bounded)
  case same
  then show ?thesis using assms(3) by simp
next
  case (cancelled l)
  then have "rt' = rt \<or> rt' = cancelLoop h now [t] rt"
    using assms(1) by (auto simp: finishLocked_def simp del: cancelLoop.simps split: if_splits)
  then show ?thesis using assms(3) counted_cancelLoop by blast
next
  case (bounded l e)
  let ?o = "observeDispatchLocked h t ''completed'' now rt"
  have "disp_counts rt' = disp_counts ?o \<or> rt' = rt"
    using assms(1) bounded(2,3) by (auto simp: finishLocked_def Let_def split: if_splits option.splits)
  moreover have "shrinks (disp_leases ?o) (disp_leases rt')"
    unfolding shrinks_def
  proof (intro allI impI)
    fix k l' assume "mget (disp_leases rt') k = Some l'"
    then obtain m where m: "mget (disp_leases rt) k = Some m"
      "l' = (if k = t then finished e m else if below (disp_leases rt) [t] k then bound e m else m)"
      unfolding bounded(6) by (auto simp only: map_option_eq_Some)
    have "k = t \<Longrightarrow> shrunk (observed m) (finished e m)"
      using bounded(3,5) m(1) by (simp add: shrunk_def finished_def observed_def)
    then have "shrunk (if k = t then observed m else m) l'" using m(2) by simp
    moreover have "mget (disp_leases ?o) k = Some (if k = t then observed m else m)" using m(1) by auto
    ultimately show "\<exists>n. mget (disp_leases ?o) k = Some n \<and> shrunk n l'" by blast
  qed
  ultimately show ?thesis
    using counted_observe[OF assms(3), of h t "''completed''" now] assms(3) counted_shrinks by auto
qed

text \<open>An admission counts before its lease can be observed.\<close>

lemma counted_admit:
  assumes "counted ls (disp_counts rt)" "mget ls token = None"
  shows "counted (mput token l ls) (disp_counts (admitDispatchObservationLocked (workerOf l) rt))"
proof -
  let ?w = "workerOf l"
  have m: "mcount (\<lambda>_. awaiting w) (mput token l ls) = mcount (\<lambda>_. awaiting w) ls + (if awaiting w l then 1 else 0)" for w
    using assms(2) by (simp add: mcount_put mcount_del)
  show ?thesis
  proof (cases "\<not> mhas (disp_counts rt) ?w \<and> mlen (disp_counts rt) \<ge> 4096")
    case True
    have "awaiting w l \<Longrightarrow> mget (disp_counts rt) w \<noteq> Some c" for w c
      using True by (auto simp: awaiting_def mhas_def)
    then show ?thesis
      using True assms(1) unfolding counted_def m by (auto simp: admitDispatchObservationLocked_def)
  next
    case False
    let ?old = "mget0 DispatchCounters0 (disp_counts rt) ?w"
    let ?cs = "mput ?w (?old\<lparr>Cnt_Invocations := Cnt_Invocations ?old + 1\<rparr>) (disp_counts rt)"
    have cs: "disp_counts (admitDispatchObservationLocked ?w rt) = ?cs"
      using False by (auto simp: admitDispatchObservationLocked_def Let_def)
    have old: "Cnt_Completed ?old + Cnt_Canceled ?old + mcount (\<lambda>_. awaiting ?w) ls \<le> Cnt_Invocations ?old"
    proof (cases "mget (disp_counts rt) ?w")
      case None
      then have "\<forall>k m. mget ls k = Some m \<longrightarrow> \<not> awaiting ?w m"
        using False assms(1) unfolding counted_def awaiting_def mhas_def by (metis option.distinct(1))
      then show ?thesis using None by (simp add: mget0_def DispatchCounters0_def mcount_zero_iff)
    next
      case (Some c)
      then show ?thesis using assms(1) by (simp add: counted_def mget0_def)
    qed
    have "mlen (disp_counts rt) \<le> mlen ?cs" by (rule mlen_mono) (auto simp: mhas_def)
    moreover have "Cnt_Completed c + Cnt_Canceled c + mcount (\<lambda>_. awaiting w) (mput token l ls) \<le> Cnt_Invocations c"
      if "mget ?cs w = Some c" for w c
      using that assms(1) old unfolding m counted_def by (auto simp: awaiting_def split: if_splits)
    ultimately show ?thesis
      using assms(1) unfolding counted_def cs by auto
  qed
qed

lemma acquire_counts:
  assumes "acquireLocked token callerToken transport caller app selected rootID parentID depth now rt = (res, rt')"
  shows "disp_counts rt' = (if isl res then disp_counts rt
    else disp_counts (admitDispatchObservationLocked (App_ID app) rt))"
proof -
  have frame: "disp_counts a = disp_counts b \<Longrightarrow> disp_counts (admitDispatchObservationLocked w a)
      = disp_counts (admitDispatchObservationLocked w b)" for a b w
    by (simp add: admitDispatchObservationLocked_def Let_def)
  show ?thesis
  proof (cases "parentDeadline parentID transport rootID depth now (now + 30 * second) rt")
    case (Inl e)
    then have "res = Inl e" "rt' = rt" using assms by (simp_all add: acquireLocked_def)
    then show ?thesis by simp
  next
    case (Inr d1)
    obtain cres rt1 where c: "chargeRoot rootID caller depth now d1 rt = (cres, rt1)" by fastforce
    show ?thesis
      using assms Inr c chargeRoot_effect(3)[OF c]
      by (cases cres) (auto simp: acquireLocked_def Let_def withDeadline_def split: if_splits intro!: frame)
  qed
qed

theorem counted_step:
  assumes "dispatch_step h s s'" "lease_inv s" "counted_rt (dsys_rt s)"
  shows "counted_rt (dsys_rt s')"
  using assms(1)
proof cases
  case (d_enable e now)
  have "disp_counts (SetPlatformDispatchEnabled e now (dsys_rt s)) = disp_counts (dsys_rt s)"
    by (simp add: SetPlatformDispatchEnabled_def)
  then show ?thesis unfolding d_enable(1)
    using assms(3) by (auto simp: enable_tables intro: counted_shrinks)
next
  case (d_sink b)
  then show ?thesis using assms(3) by (simp add: SetDispatchObservationSink_def)
next
  case (d_begin token item now res rt')
  have "disp_counts rt' = disp_counts (dsys_rt s)"
    using d_begin(3) by (auto simp: beginRootLocked_def Let_def purgeRoots_def withDeadline_def split: if_splits)
  then show ?thesis using d_begin(1) begin_tables(1)[OF d_begin(3)] assms(3) by simp
next
  case (d_end i cancel now)
  then show ?thesis using assms(3) counted_end by simp
next
  case (d_hold i f now)
  have "disp_counts (HoldDispatchRoot i f now (dsys_rt s)) = disp_counts (dsys_rt s)"
    by (simp add: HoldDispatchRoot_def split: option.split)
  then show ?thesis using d_hold(1) assms(3) by (simp add: hold_tables(1))
next
  case (d_parent transport parentID rootID depth)
  then show ?thesis using assms(3) by simp
next
  case (d_acquire token parentID depth callerToken transport rootID selected app caller now res rt')
  note eff = acquire_effect[OF d_acquire(6)] and cs = acquire_counts[OF d_acquire(6)]
  have live: "counted (liveLeases now (leases s)) (disp_counts (dsys_rt s))"
    using assms(3) by (rule counted_shrinks) simp
  show ?thesis
  proof (cases res)
    case (Inl e)
    then show ?thesis using eff(2) cs live assms(3) d_acquire(1) by auto
  next
    case (Inr d)
    then obtain l where l: "disp_leases rt' = mput token l (liveLeases now (leases s))"
      "newLease token callerToken transport (Prin_Grant caller) selected rootID parentID depth now d l"
      using eff(2) by auto
    have "mget (liveLeases now (leases s)) token = None"
      using lease_invD(1)[OF assms(2), of token] d_acquire(2)
      by (auto simp: liveLeases_def mget_filter fresh_def split: option.split)
    moreover have "workerOf l = App_ID app" using l(2) d_acquire(4) by (simp add: newLease_def workerOf_def)
    ultimately show ?thesis
      using counted_admit[OF live, of token l] cs Inr l(1) d_acquire(1) by simp
  qed
next
  case (d_invocation token now res rt')
  show ?thesis
    using d_invocation(1) assms(3) invocation_tables[OF d_invocation(2)] by (auto intro: counted_shrinks)
next
  case (d_effect token l callerToken cost now res rt')
  note t = effect_tables[OF d_effect(3,2)]
  have "shrinks (leases s) (disp_leases rt')"
    using t(3,4) d_effect(2) by (auto simp: shrunk_def)
  then show ?thesis using d_effect(1) assms(3) t(1) by (auto intro: counted_shrinks)
next
  case (d_context token now res rt')
  then show ?thesis using context_tables[OF d_context(2)] assms(3) by simp
next
  case (d_log token l rt')
  note t = log_tables[OF d_log(2)]
  have "shrinks (leases s) (disp_leases rt')"
    unfolding t(4) by (auto simp: shrunk_def split: option.split)
  then show ?thesis using d_log(1) assms(3) t(2) by (auto intro: counted_shrinks)
next
  case (d_finish callerToken token cancel now res rt')
  show ?thesis
    using counted_finish[OF d_finish(2) lease_inv_layered[OF assms(2)] assms(3)] d_finish(1) by simp
qed

lemma counted_reachable:
  assumes "dispatch_reachable h s" shows "counted_rt (dsys_rt s)"
proof -
  have "lease_inv s \<and> counted_rt (dsys_rt s)"
    using assms unfolding dispatch_reachable_def
  proof (induction rule: rtranclp_induct)
    case base
    show ?case using initial_lease_inv by (simp add: counted_def initial_dispatch_def dispatchRuntime0_def)
  qed (use lease_inv_step counted_step in blast)
  then show ?thesis ..
qed

end
