(* ===== verification/Dispatch_Contexts.thy ===== *)
theory Dispatch_Contexts
  imports Dispatch_Budgets
begin

text \<open>
  The contexts behind dispatch: cancelling an ingress request reaches every lease and every
  admitted effect below it, and a context that is done stays done.
\<close>

section \<open>Contexts only get older\<close>

definition older :: "dispatchContext list \<Rightarrow> dispatchContext list \<Rightarrow> bool" where
  "older cs cs' \<longleftrightarrow> length cs \<le> length cs' \<and> (\<forall>i < length cs. ctx_parent (cs' ! i) = ctx_parent (cs ! i)
     \<and> ctx_deadline (cs' ! i) \<le> ctx_deadline (cs ! i) \<and> (ctx_cancelled (cs ! i) \<longrightarrow> ctx_cancelled (cs' ! i)))"

lemma older_refl [simp]: "older cs cs"
  by (simp add: older_def)

lemma older_trans [trans]: "older a b \<Longrightarrow> older b c \<Longrightarrow> older a c"
proof -
  assume ab: "older a b" and bc: "older b c"
  show "older a c"
    unfolding older_def
  proof (intro conjI allI impI)
    show "length a \<le> length c" using ab bc by (simp add: older_def)
    fix i assume i: "i < length a"
    then have "i < length b" using ab by (simp add: older_def)
    then show "ctx_parent (c ! i) = ctx_parent (a ! i)" "ctx_deadline (c ! i) \<le> ctx_deadline (a ! i)"
      "ctx_cancelled (a ! i) \<Longrightarrow> ctx_cancelled (c ! i)"
      using ab bc i by (auto simp: older_def dest!: spec[of _ i])
  qed
qed

lemma older_append [simp]: "older cs (cs @ ds)"
  by (simp add: older_def nth_append)

lemma ctxDone_older: "older cs cs' \<Longrightarrow> now \<le> later \<Longrightarrow> ctxDone now cs i \<Longrightarrow> ctxDone later cs' i"
proof (induction now cs i rule: ctxDone.induct)
  case (1 now cs i)
  then have i: "i < length cs" by (simp add: ctxDone.simps[of now])
  then have same: "ctx_parent (cs' ! i) = ctx_parent (cs ! i)" "i < length cs'"
    "ctx_deadline (cs' ! i) \<le> ctx_deadline (cs ! i)" "ctx_cancelled (cs ! i) \<longrightarrow> ctx_cancelled (cs' ! i)"
    using 1(2) by (auto simp: older_def)
  show ?case
    using 1(4) same 1(3) 1(1)[OF _ _ 1(2,3)]
    unfolding ctxDone.simps[of now cs i] ctxDone.simps[of later cs' i]
    by (auto split: option.splits if_splits)
qed

text \<open>The chain of parents.\<close>

inductive under :: "dispatchContext list \<Rightarrow> nat \<Rightarrow> nat \<Rightarrow> bool" for cs d where
  here [intro]: "under cs d d"
| up: "under cs d p \<Longrightarrow> c < length cs \<Longrightarrow> ctx_parent (cs ! c) = Some p \<Longrightarrow> p < c \<Longrightarrow> under cs d c"

lemma under_older: "under cs d c \<Longrightarrow> older cs cs' \<Longrightarrow> under cs' d c"
  by (induction rule: under.induct) (auto simp: older_def intro: under.up)

lemma under_trans: "under cs d c \<Longrightarrow> under cs e d \<Longrightarrow> under cs e c"
  by (induction rule: under.induct) (auto intro: under.up)

lemma under_done: "under cs d c \<Longrightarrow> ctxDone now cs d \<Longrightarrow> ctxDone now cs c"
  by (induction rule: under.induct) (auto simp: ctxDone.simps[of now cs c] intro: ctxDone.simps[THEN iffD2])

section \<open>Every section keeps them\<close>

abbreviation contexts :: "dispatchSystem \<Rightarrow> dispatchContext list" where
  "contexts s \<equiv> disp_contexts (dsys_rt s)"

lemma older_upd:
  assumes "\<And>c. ctx_parent (f c) = ctx_parent c \<and> ctx_deadline (f c) \<le> ctx_deadline c \<and> (ctx_cancelled c \<longrightarrow> ctx_cancelled (f c))"
  shows "older (disp_contexts rt) (disp_contexts (updContext f c rt))"
  using assms by (auto simp: updContext_def older_def nth_list_update split: option.split)

lemma older_cancel [simp]: "older (disp_contexts rt) (disp_contexts (cancelContext c rt))"
  unfolding cancelContext_def by (rule older_upd) simp

lemma older_cancelAt [simp]: "older (disp_contexts rt) (disp_contexts (cancelAt t c rt))"
  unfolding cancelAt_def by (rule older_upd) (simp add: minTime_min)

lemma older_cancels [simp]: "older (disp_contexts rt) (disp_contexts (cancelContexts cs rt))"
proof (induction cs arbitrary: rt)
  case (Cons c cs)
  then show ?case using older_trans[OF older_cancel[of rt c]] by (simp add: cancelContexts_def)
qed (simp add: cancelContexts_def)

lemma older_cancelLoop: "older (disp_contexts rt) (disp_contexts (cancelLoop h now ts rt))"
proof (induction h now ts rt rule: cancelLoop.induct)
  case (2 h now i pending rt)
  have "older (disp_contexts rt) (disp_contexts (dropLease h now i rt))"
    using older_cancel[of "observeDispatchLocked h i ''canceled'' now rt"]
    by (auto simp: dropLease_def Let_def split: option.split)
  then show ?case using 2[OF refl] older_trans by (auto simp: Let_def)
qed simp

lemma older_purge: "older (disp_contexts rt) (disp_contexts (purgeLeases now rt))"
    "older (disp_contexts rt) (disp_contexts (purgeRoots now rt))"
    "length (disp_contexts (purgeLeases now rt)) = length (disp_contexts rt)"
  using older_cancels[of rt] by (simp_all add: purgeLeases_def purgeRoots_def)

text \<open>The context an admitted lease is made below: its parent lease's, else its root's.\<close>

definition admitParent :: "time \<Rightarrow> string \<Rightarrow> string \<Rightarrow> dispatchRuntime \<Rightarrow> nat option" where
  "admitParent now rootID parentID rt =
     (let fromRoot = (case mget (disp_roots rt) rootID of None \<Rightarrow> None | Some r \<Rightarrow> root_Context r) in
      case mget (liveLeases now (disp_leases rt)) parentID of
        None \<Rightarrow> fromRoot
      | Some p \<Rightarrow> (case lse_Context p of None \<Rightarrow> fromRoot | Some c \<Rightarrow> Some c))"

lemma admitParent_charged:
  assumes "chargeRoot rootID caller depth now d rt = (res, rt1)"
  shows "parentContext rootID parentID (purgeLeases now rt1) = admitParent now rootID parentID rt"
proof -
  have "(case mget (disp_roots rt1) rootID of None \<Rightarrow> None | Some r \<Rightarrow> root_Context r)
      = (case mget (disp_roots rt) rootID of None \<Rightarrow> None | Some r \<Rightarrow> root_Context r)"
    using chargeRoot_effect(4)[OF assms] by (auto split: if_splits)
  then show ?thesis
    using chargeRoot_effect(1)[OF assms] by (simp add: parentContext_def admitParent_def Let_def)
qed

lemma acquire_contexts:
  assumes "acquireLocked token callerToken transport caller app selected rootID parentID depth now rt = (res, rt')"
  shows "if isl res then older (disp_contexts rt) (disp_contexts rt')
    else (\<exists>cs l d. older (disp_contexts rt) cs \<and> length cs = length (disp_contexts rt)
      \<and> disp_contexts rt' = cs @ [\<lparr>ctx_parent = admitParent now rootID parentID rt, ctx_deadline = d, ctx_cancelled = False\<rparr>]
      \<and> mget (disp_leases rt') token = Some l \<and> lse_Context l = Some (length cs))"
proof (cases "parentDeadline parentID transport rootID depth now (now + 30 * second) rt")
  case (Inl e)
  then have "res = Inl e" "rt' = rt" using assms by (simp_all add: acquireLocked_def)
  then show ?thesis by simp
next
  case (Inr d1)
  obtain cres rt1 where c: "chargeRoot rootID caller depth now d1 rt = (cres, rt1)" by fastforce
  let ?cs = "disp_contexts (purgeLeases now rt1)"
  have p: "older (disp_contexts rt) ?cs" "length ?cs = length (disp_contexts rt)" "older (disp_contexts rt) (disp_contexts rt1)"
    using chargeRoot_effect(2)[OF c] older_purge[where rt = rt1] by simp_all
  show ?thesis
  proof (cases "isl res")
    case True
    then show ?thesis
      using assms Inr c p by (cases cres) (auto simp: acquireLocked_def Let_def withDeadline_def split: if_splits)
  next
    case False
    then obtain l d where "disp_contexts rt' = ?cs @ [\<lparr>ctx_parent = admitParent now rootID parentID rt,
        ctx_deadline = d, ctx_cancelled = False\<rparr>]"
      "mget (disp_leases rt') token = Some l" "lse_Context l = Some (length ?cs)"
      using assms Inr c admitParent_charged[OF c]
      by (cases cres) (auto simp: acquireLocked_def Let_def withDeadline_def split: if_splits)
    then show ?thesis using p False by auto
  qed
qed

lemma step_older:
  assumes "dispatch_step h s s'"
  shows "older (contexts s) (contexts s')"
  using assms
proof cases
  case (d_enable e now)
  then show ?thesis by (simp add: SetPlatformDispatchEnabled_def)
next
  case (d_sink b)
  then show ?thesis by (simp add: SetDispatchObservationSink_def)
next
  case (d_begin token item now res rt')
  then show ?thesis
    using older_purge(2)[where rt = "dsys_rt s"] older_trans[OF _ older_append]
    by (auto simp: beginRootLocked_def Let_def withDeadline_def split: if_splits)
next
  case (d_end i cancel now)
  have keep: "disp_contexts rt' = contexts s \<Longrightarrow> older (contexts s) (disp_contexts (cancelAt t c rt'))" for rt' t c
    using older_cancelAt[of rt' t c] by simp
  show ?thesis
    unfolding d_end(1) by (auto simp: EndDispatchRoot_def Let_def intro!: keep split: option.split)
next
  case (d_hold i f now)
  then show ?thesis by (simp add: HoldDispatchRoot_def split: option.split)
next
  case (d_parent transport parentID rootID depth)
  then show ?thesis by simp
next
  case (d_acquire token parentID depth callerToken transport rootID selected app caller now res rt')
  then show ?thesis
    using acquire_contexts[OF d_acquire(6)] older_trans[OF _ older_append] by (auto split: if_splits)
next
  case (d_invocation token now res rt')
  then show ?thesis by (auto simp: invocationLocked_def split: option.splits if_splits)
next
  case (d_effect token l callerToken cost now res rt')
  then show ?thesis using effect_tables(2)[OF d_effect(3,2)] by simp
next
  case (d_context token now res rt')
  then show ?thesis by (auto simp: DispatchEffectContext_def withDeadline_def split: option.splits if_splits)
next
  case (d_log token l rt')
  then show ?thesis using log_tables(3)[OF d_log(2)] by simp
next
  case (d_finish callerToken token cancel now res rt')
  have "older (contexts s) (disp_contexts rt')"
  proof (cases cancel)
    case True
    then show ?thesis using d_finish(2) older_cancelLoop[of "dsys_rt s" h now "[token]"]
      by (auto simp: finishLocked_def simp del: cancelLoop.simps split: option.splits if_splits)
  next
    case False
    have keep: "disp_contexts rt = contexts s \<Longrightarrow> older (contexts s) (disp_contexts (cancelAt t c rt))" for rt t c
      using older_cancelAt[of rt t c] by simp
    show ?thesis using d_finish(2) False
      by (auto simp: finishLocked_def Let_def intro!: keep split: option.splits if_splits)
  qed
  then show ?thesis using d_finish(1) by simp
qed

lemma run_older: "(dispatch_step h)\<^sup>*\<^sup>* s s' \<Longrightarrow> older (contexts s) (contexts s')"
  by (induction rule: rtranclp_induct) (auto intro: older_trans step_older)

section \<open>Leases hang below their roots\<close>

definition ctx_inv :: "dispatchSystem \<Rightarrow> bool" where
  "ctx_inv s \<longleftrightarrow> (\<forall>k l. mget (leases s) k = Some l \<longrightarrow> (\<exists>c < length (contexts s). lse_Context l = Some c
       \<and> (\<forall>r. mget (ingress s) (lse_Root l) = Some r \<longrightarrow> (\<exists>d. root_Context r = Some d \<and> under (contexts s) d c))))
     \<and> (\<forall>i r. mget (ingress s) i = Some r \<longrightarrow> (\<exists>d < length (contexts s). root_Context r = Some d))"

lemma ctx_inv_kept:
  assumes "ctx_inv s" "older (contexts s) (disp_contexts rt')" "shrinks (leases s) (disp_leases rt')"
    and "\<And>i r'. mget (disp_roots rt') i = Some r' \<Longrightarrow> \<exists>r. mget (ingress s) i = Some r \<and> root_Context r' = root_Context r"
  shows "ctx_inv (s\<lparr>dsys_rt := rt', dsys_used := u, dsys_spent := sp\<rparr>)"
proof -
  have len: "length (contexts s) \<le> length (disp_contexts rt')" using assms(2) by (simp add: older_def)
  have "\<exists>c < length (disp_contexts rt'). lse_Context l' = Some c
      \<and> (\<forall>r. mget (disp_roots rt') (lse_Root l') = Some r \<longrightarrow> (\<exists>d. root_Context r = Some d \<and> under (disp_contexts rt') d c))"
    if l': "mget (disp_leases rt') k = Some l'" for k l'
  proof -
    obtain l where l: "mget (leases s) k = Some l" "lse_Context l' = lse_Context l" "lse_Root l' = lse_Root l"
      using assms(3) l' by (auto simp: shrinks_def shrunk_def)
    then obtain c where c: "c < length (contexts s)" "lse_Context l = Some c"
      "\<And>r. mget (ingress s) (lse_Root l) = Some r \<Longrightarrow> \<exists>d. root_Context r = Some d \<and> under (contexts s) d c"
      using assms(1) unfolding ctx_inv_def by blast
    have "\<exists>d. root_Context r' = Some d \<and> under (disp_contexts rt') d c"
      if "mget (disp_roots rt') (lse_Root l') = Some r'" for r'
    proof -
      obtain r where r: "mget (ingress s) (lse_Root l') = Some r" "root_Context r' = root_Context r"
        using assms(4)[OF \<open>mget (disp_roots rt') (lse_Root l') = Some r'\<close>] by blast
      then obtain d where "root_Context r = Some d" "under (contexts s) d c" using c(3)[of r] l(3) by auto
      then show ?thesis using r(2) under_older[OF _ assms(2)] by auto
    qed
    then show ?thesis using c(1,2) l(2) len by (intro exI[of _ c]) auto
  qed
  moreover have "\<exists>d < length (disp_contexts rt'). root_Context r' = Some d" if "mget (disp_roots rt') i = Some r'" for i r'
    using assms(4)[OF that] assms(1) len unfolding ctx_inv_def by (metis less_le_trans)
  ultimately show ?thesis by (simp add: ctx_inv_def)
qed

lemma ctx_inv_same:
  assumes "ctx_inv s" "older (contexts s) (disp_contexts rt')" "shrinks (leases s) (disp_leases rt')"
    and "\<And>i r'. mget (disp_roots rt') i = Some r' \<Longrightarrow> \<exists>r. mget (ingress s) i = Some r \<and> root_Context r' = root_Context r"
  shows "ctx_inv (s\<lparr>dsys_rt := rt'\<rparr>)"
  using ctx_inv_kept[OF assms, of "dsys_spent s" "dsys_used s"] by simp

lemma ctx_inv_admit:
  assumes inv: "lease_inv s" "ctx_inv s" and fr: "fresh token s"
    and acq: "acquireLocked token callerToken transport caller app selected rootID parentID depth now (dsys_rt s) = (Inr d, rt')"
  shows "ctx_inv (s\<lparr>dsys_rt := rt', dsys_used := u, dsys_spent := sp\<rparr>)"
proof -
  note eff = acquire_effect[OF acq, simplified]
  obtain cs l dl where cs: "older (contexts s) cs" "length cs = length (contexts s)"
    "disp_contexts rt' = cs @ [\<lparr>ctx_parent = admitParent now rootID parentID (dsys_rt s), ctx_deadline = dl, ctx_cancelled = False\<rparr>]"
    and l: "mget (disp_leases rt') token = Some l" "lse_Context l = Some (length cs)"
    using acquire_contexts[OF acq] by auto
  have older: "older (contexts s) (disp_contexts rt')"
    unfolding cs(3) by (rule older_trans[OF cs(1) older_append])
  have roots: "\<exists>r. mget (ingress s) i = Some r \<and> root_Context r' = root_Context r"
    if "mget (disp_roots rt') i = Some r'" for i r'
    using eff(1) that by (auto split: if_splits)
  let ?live = "liveLeases now (leases s)"
  obtain l0 where l0: "disp_leases rt' = mput token l0 ?live" using eff(2) by blast
  let ?old = "rt'\<lparr>disp_leases := ?live\<rparr>"
  have kept: "ctx_inv (s\<lparr>dsys_rt := ?old, dsys_used := u, dsys_spent := sp\<rparr>)"
    by (rule ctx_inv_kept[OF inv(2)]) (use older roots in auto)
  have root: "lse_Root l = rootID"
    using eff(2) l(1) by (auto simp: newLease_def)
  have "\<exists>d. root_Context r' = Some d \<and> under (disp_contexts rt') d (length cs)"
    if r': "mget (disp_roots rt') rootID = Some r'" for r'
  proof -
    obtain r where r: "mget (ingress s) rootID = Some r" "root_Context r' = root_Context r"
      using roots[OF r'] by blast
    obtain dd where dd: "root_Context r = Some dd" "dd < length (contexts s)"
      using inv(2) r(1) unfolding ctx_inv_def by blast
    have "\<exists>p. admitParent now rootID parentID (dsys_rt s) = Some p \<and> under (contexts s) dd p \<and> p < length (contexts s)"
    proof (cases "mget ?live parentID")
      case None
      then show ?thesis using r(1) dd by (auto simp: admitParent_def)
    next
      case (Some p)
      then have p: "mget (leases s) parentID = Some p"
        by (auto simp: liveLeases_def mget_filter split: option.splits if_splits)
      moreover have "parentID \<noteq> []" using p lease_invD(1,7)[OF inv(1)] by metis
      ultimately have "lse_Root p = rootID" using eff(2) by auto
      then show ?thesis using inv(2) p Some r(1) dd unfolding ctx_inv_def by (fastforce simp: admitParent_def)
    qed
    then obtain p where p: "admitParent now rootID parentID (dsys_rt s) = Some p" "under (contexts s) dd p" "p < length (contexts s)"
      by blast
    have "under (disp_contexts rt') dd (length cs)"
      by (rule under.up[OF under_older[OF p(2) older]]) (use p cs in \<open>simp_all add: nth_append\<close>)
    then show ?thesis using r(2) dd(1) by simp
  qed
  then show ?thesis
    using kept l l0 root cs(3) unfolding ctx_inv_def by (simp split: if_splits)
qed

theorem ctx_inv_step:
  assumes "dispatch_step h s s'" "lease_inv s" "ctx_inv s"
  shows "ctx_inv s'"
proof -
  note kept = ctx_inv_kept[OF assms(3)] and same = ctx_inv_same[OF assms(3)] and old = step_older[OF assms(1)]
  show ?thesis
    using assms(1)
  proof cases
    case (d_enable e now)
    show ?thesis unfolding d_enable(1)
      by (rule same) (use old d_enable(1) in \<open>auto simp: enable_tables split: if_splits\<close>)
  next
    case (d_sink b)
    show ?thesis unfolding d_sink(1)
      by (rule same) (simp_all add: SetDispatchObservationSink_def)
  next
    case (d_begin token item now res rt')
    note t = begin_tables[OF d_begin(3)]
    have o': "older (contexts s) (disp_contexts rt')" using old d_begin(1) by simp
    let ?rs = "mfilter (\<lambda>(_, r). now < root_Expires r) (ingress s)"
    have k: "ctx_inv (s\<lparr>dsys_rt := rt'\<lparr>disp_roots := ?rs\<rparr>, dsys_used := token # dsys_used s, dsys_spent := dsys_spent s\<rparr>)"
      by (rule kept) (use o' t(1) in \<open>auto simp: mget_filter split: option.splits if_splits\<close>)
    have tok: "token \<noteq> []" "token \<notin> set (dsys_used s)" using d_begin(2) by (simp_all add: fresh_def)
    have "lse_Root l \<noteq> token" if "mget (leases s) k = Some l" for k l
      using lease_invD(2)[OF assms(2) that] tok by (auto simp: lease_local_def)
    moreover have "isl res \<or> (\<exists>r c. disp_roots rt' = mput token r ?rs \<and> root_Context r = Some c \<and> c < length (disp_contexts rt'))"
      using d_begin(3) by (auto simp: beginRootLocked_def Let_def withDeadline_def purgeRoots_def split: if_splits)
    ultimately show ?thesis
      using k t(1) t(2) d_begin(1) unfolding ctx_inv_def by (auto split: if_splits)
  next
    case (d_end i cancel now)
    have ctx: "root_Context (endedRoot cancel now r) = root_Context r" for r
      by (simp add: endedRoot_def Let_def)
    show ?thesis unfolding d_end(1)
    proof (rule same)
      show "older (contexts s) (disp_contexts (EndDispatchRoot h i cancel now (dsys_rt s)))" using old d_end(1) by simp
    qed (use ctx in \<open>auto simp: end_shrinks end_tables split: option.splits if_splits\<close>)
  next
    case (d_hold i f now)
    show ?thesis unfolding d_hold(1)
      by (rule same) (use old d_hold(1) in \<open>auto simp: hold_tables split: option.splits if_splits\<close>)
  next
    case (d_parent transport parentID rootID depth)
    then show ?thesis using assms(3) by (simp add: ctx_inv_def)
  next
    case (d_acquire token parentID depth callerToken transport rootID selected app caller now res rt')
    show ?thesis
    proof (cases res)
      case (Inl e)
      note eff = acquire_effect[OF d_acquire(6)]
      show ?thesis unfolding d_acquire(1)
        by (rule kept) (use old d_acquire(1) eff Inl in \<open>auto split: if_splits\<close>)
    next
      case (Inr d)
      show ?thesis unfolding d_acquire(1)
        by (rule ctx_inv_admit[OF assms(2,3) d_acquire(2) d_acquire(6)[unfolded Inr]])
    qed
  next
    case (d_invocation token now res rt')
    show ?thesis unfolding d_invocation(1)
      by (rule same) (use old d_invocation(1) invocation_tables[OF d_invocation(2)] in auto)
  next
    case (d_effect token l callerToken cost now res rt')
    note t = effect_tables[OF d_effect(3,2)]
    have "ctx_inv (s\<lparr>dsys_rt := rt'\<rparr>)"
    proof (rule same)
      show "older (contexts s) (disp_contexts rt')" using old d_effect(1) by simp
      show "shrinks (leases s) (disp_leases rt')" using t(3,4) d_effect(2) by (auto simp: shrunk_def)
    qed (use t(5) in \<open>auto split: if_splits\<close>)
    then show ?thesis unfolding d_effect(1) by (simp add: ctx_inv_def)
  next
    case (d_context token now res rt')
    show ?thesis unfolding d_context(1)
      by (rule same) (use old d_context(1) context_tables[OF d_context(2)] in auto)
  next
    case (d_log token l rt')
    note t = log_tables[OF d_log(2)]
    have "shrinks (leases s) (disp_leases rt')"
      unfolding t(4) by (auto simp: shrunk_def split: option.split)
    then show ?thesis unfolding d_log(1)
      by (rule same[rotated]) (use old d_log(1) t(1) in auto)
  next
    case (d_finish callerToken token cancel now res rt')
    have "disp_roots rt' = ingress s"
      using finish_cases[OF lease_inv_layered[OF assms(2)] d_finish(2)] by blast
    then show ?thesis unfolding d_finish(1)
      by (intro same) (use old d_finish(1) finish_shrinks[OF lease_inv_layered[OF assms(2)] d_finish(2)] in auto)
  qed
qed

lemma ctx_inv_reachable:
  assumes "dispatch_reachable h s" shows "ctx_inv s"
proof -
  have "lease_inv s \<and> ctx_inv s"
    using assms unfolding dispatch_reachable_def
  proof (induction rule: rtranclp_induct)
    case base
    show ?case using initial_lease_inv by (simp add: ctx_inv_def initial_dispatch_def dispatchRuntime0_def)
  qed (use lease_inv_step ctx_inv_step in blast)
  then show ?thesis ..
qed

section \<open>Cancelling an ingress request\<close>

lemma ctxDone_now: "d < length cs \<Longrightarrow> ctx_deadline (cs ! d) \<le> now \<Longrightarrow> ctxDone now cs d"
  by (simp add: ctxDone.simps[of now])

lemma cancelAt_done: "d < length (disp_contexts rt) \<Longrightarrow> e \<le> now \<Longrightarrow> ctxDone now (disp_contexts (cancelAt e (Some d) rt)) d"
  by (rule ctxDone_now) (simp_all add: cancelAt_def updContext_def minTime_min)

lemma end_cancels:
  assumes "ctx_inv s" "mget (ingress s) i = Some r" "root_Context r = Some d" "now \<le> later"
  shows "ctxDone later (disp_contexts (EndDispatchRoot h i True now (dsys_rt s))) d"
proof -
  have "d < length (contexts s)" using assms(1-3) unfolding ctx_inv_def by fastforce
  then have "ctxDone later (disp_contexts (cancelAt e (Some d)
      (fold (\<lambda>t. observeDispatchLocked h t ''canceled'' now) ts ((dsys_rt s)\<lparr>disp_leases := ls\<rparr>)\<lparr>disp_roots := rs\<rparr>))) d"
    if "e \<le> later" for e ts ls rs
    using that by (intro cancelAt_done) simp_all
  then show ?thesis
    using assms(2-4) by (auto simp: EndDispatchRoot_def Let_def minTime_min second_def split: option.split)
qed

text \<open>What a step leaves of the leases and the roots that were there: a lease is one that only
  shrank, or it was admitted below a root that is not cancelled, and a cancelled root stays so.\<close>

definition cancelledRoot :: "string \<Rightarrow> (string, dispatchRoot) gomap \<Rightarrow> bool" where
  "cancelledRoot i rs \<longleftrightarrow> (\<forall>r. mget rs i = Some r \<longrightarrow> root_Cancelled r)"

definition admitsBelow :: "string \<Rightarrow> dispatchRuntime \<Rightarrow> dispatchRuntime \<Rightarrow> bool" where
  "admitsBelow i rt rt' \<longleftrightarrow> (\<forall>k l'. mget (disp_leases rt') k = Some l' \<longrightarrow> lse_Root l' = i \<longrightarrow>
     (\<exists>l. mget (disp_leases rt) k = Some l \<and> shrunk l l'))"

lemma admitsBelow_shrinks: "shrinks (disp_leases rt) (disp_leases rt') \<Longrightarrow> admitsBelow i rt rt'"
  by (simp add: admitsBelow_def shrinks_def)

lemma chargeRoot_cancelled:
  assumes "chargeRoot i caller depth now d rt = (res, rt')" "cancelledRoot i (disp_roots rt)" "i \<noteq> []"
  shows "isl res"
  using assms by (auto simp: chargeRoot_def cancelledRoot_def split: option.splits if_splits)

lemma chargeRoot_keeps_cancelled:
  assumes "chargeRoot j caller depth now d rt = (res, rt')" "cancelledRoot i (disp_roots rt)"
  shows "cancelledRoot i (disp_roots rt')"
  using assms by (auto simp: chargeRoot_def cancelledRoot_def Let_def split: option.splits if_splits)

lemma acquire_roots:
  assumes "acquireLocked token callerToken transport caller app selected rootID parentID depth now rt = (res, rt')"
  shows "disp_roots rt' = disp_roots rt \<or> (\<exists>d cres rt1. chargeRoot rootID caller depth now d rt = (cres, rt1)
      \<and> disp_roots rt' = disp_roots rt1 \<and> (isl cres \<longrightarrow> isl res))"
proof (cases "parentDeadline parentID transport rootID depth now (now + 30 * second) rt")
  case (Inl e)
  then show ?thesis using assms by (simp add: acquireLocked_def)
next
  case (Inr d)
  obtain cres rt1 where c: "chargeRoot rootID caller depth now d rt = (cres, rt1)" by fastforce
  have "disp_roots rt' = disp_roots rt1 \<and> (isl cres \<longrightarrow> isl res)"
    using assms Inr c by (cases cres) (auto simp: acquireLocked_def Let_def withDeadline_def split: if_splits)
  then show ?thesis using c by blast
qed

lemma acquire_cancelled:
  assumes "acquireLocked token callerToken transport caller app selected i parentID depth now rt = (res, rt')"
    and "cancelledRoot i (disp_roots rt)" "i \<noteq> []"
  shows "isl res"
proof (cases "parentDeadline parentID transport i depth now (now + 30 * second) rt")
  case (Inl e)
  then have "res = Inl e" using assms(1) by (simp add: acquireLocked_def)
  then show ?thesis by simp
next
  case (Inr d)
  obtain cres rt1 where c: "chargeRoot i caller depth now d rt = (cres, rt1)" by fastforce
  then obtain e where "cres = Inl e" using chargeRoot_cancelled[OF c assms(2,3)] by (cases cres) auto
  then show ?thesis using assms(1) Inr c by (auto simp: acquireLocked_def)
qed

lemma step_cancelled:
  assumes "dispatch_step h s s'" "lease_inv s" "i \<in> set (dsys_used s)" "cancelledRoot i (ingress s)"
  shows "cancelledRoot i (ingress s') \<and> admitsBelow i (dsys_rt s) (dsys_rt s') \<and> i \<in> set (dsys_used s')"
proof -
  have i: "i \<noteq> []" using assms(2,3) lease_invD(7) by metis
  note below = admitsBelow_shrinks[of "dsys_rt s"]
  show ?thesis
    using assms(1)
  proof cases
    case (d_enable e now)
    then show ?thesis using assms(3,4) by (auto simp: enable_tables cancelledRoot_def intro!: below)
  next
    case (d_sink b)
    then show ?thesis using assms(3,4) by (auto simp: SetDispatchObservationSink_def intro!: below)
  next
    case (d_begin token item now res rt')
    have "token \<noteq> i" using d_begin(2) assms(3) by (auto simp: fresh_def)
    then show ?thesis using d_begin(1) begin_tables[OF d_begin(3)] assms(3,4)
      by (auto simp: cancelledRoot_def mget_filter intro!: below split: if_splits option.splits)
  next
    case (d_end j cancel now)
    have "root_Cancelled r \<Longrightarrow> root_Cancelled (endedRoot cancel now r)" for r
      by (simp add: endedRoot_def Let_def)
    then show ?thesis using d_end(1) assms(3,4) below[OF end_shrinks]
      by (auto simp: cancelledRoot_def end_tables split: option.splits)
  next
    case (d_hold j f now)
    then show ?thesis using assms(3,4)
      by (auto simp: hold_tables cancelledRoot_def intro!: below split: option.splits)
  next
    case (d_parent transport parentID rootID depth)
    then show ?thesis using assms(3,4) by (auto intro!: below)
  next
    case (d_acquire token parentID depth callerToken transport rootID selected app caller now res rt')
    note a = d_acquire(6)
    have "cancelledRoot i (disp_roots rt')"
      using acquire_roots[OF a] chargeRoot_keeps_cancelled[OF _ assms(4)] assms(4) by auto
    moreover have "admitsBelow i (dsys_rt s) rt'"
    proof (cases res)
      case (Inl e)
      then show ?thesis using acquire_effect(2)[OF a] by (auto intro!: below)
    next
      case (Inr d)
      then have "rootID \<noteq> i" using acquire_cancelled[OF a] assms(4) i by auto
      moreover obtain l where "disp_leases rt' = mput token l (liveLeases now (leases s))" "lse_Root l = rootID"
        using acquire_effect(2)[OF a] Inr by (auto simp: newLease_def)
      ultimately show ?thesis using live_tables(1)[of "leases s" now]
        by (auto simp: admitsBelow_def shrinks_def split: if_splits)
    qed
    ultimately show ?thesis using d_acquire(1) assms(3) by simp
  next
    case (d_invocation token now res rt')
    then show ?thesis using invocation_tables[OF d_invocation(2)] assms(3,4) by (auto intro!: below)
  next
    case (d_effect token l callerToken cost now res rt')
    note t = effect_tables[OF d_effect(3,2)]
    have "shrinks (leases s) (disp_leases rt')"
      using t(3,4) d_effect(2) by (auto simp: shrunk_def)
    then show ?thesis using d_effect(1) t(5) assms(3,4)
      by (auto simp: cancelledRoot_def intro!: below split: if_splits)
  next
    case (d_context token now res rt')
    then show ?thesis using context_tables[OF d_context(2)] assms(3,4) by (auto intro!: below)
  next
    case (d_log token l rt')
    note t = log_tables[OF d_log(2)]
    have "shrinks (leases s) (disp_leases rt')"
      unfolding t(4) by (auto simp: shrunk_def split: option.split)
    then show ?thesis using d_log(1) t(1) assms(3,4) by (auto intro!: below)
  next
    case (d_finish callerToken token cancel now res rt')
    have "disp_roots rt' = ingress s"
      using finish_cases[OF lease_inv_layered[OF assms(2)] d_finish(2)] by blast
    then show ?thesis using d_finish(1) assms(3,4) finish_shrinks[OF lease_inv_layered[OF assms(2)] d_finish(2)]
      by (auto intro!: below)
  qed
qed

text \<open>After a cancellation the root admits nothing any more and its leases have expired, in every
  later state.\<close>

definition ended :: "string \<Rightarrow> time \<Rightarrow> dispatchSystem \<Rightarrow> bool" where
  "ended i e s \<longleftrightarrow> i \<in> set (dsys_used s) \<and> cancelledRoot i (ingress s)
     \<and> (\<forall>k l. mget (leases s) k = Some l \<longrightarrow> lse_Root l = i \<longrightarrow> lse_Expires l \<le> e)"

lemma endedD: "ended i e s \<Longrightarrow> mget (leases s) k = Some l \<Longrightarrow> lse_Root l = i \<Longrightarrow> lse_Expires l \<le> e"
  by (simp add: ended_def)

lemma ended_step:
  assumes "dispatch_step h s s'" "lease_inv s" "ended i e s"
  shows "ended i e s'"
proof -
  have k: "cancelledRoot i (ingress s')" "admitsBelow i (dsys_rt s) (dsys_rt s')" "i \<in> set (dsys_used s')"
    using step_cancelled[OF assms(1,2)] assms(3) by (simp_all add: ended_def)
  have "lse_Expires l' \<le> e" if l': "mget (leases s') k = Some l'" "lse_Root l' = i" for k l'
  proof -
    obtain l where "mget (leases s) k = Some l" "shrunk l l'" using k(2) l' unfolding admitsBelow_def by blast
    moreover have "lse_Root l = i" "lse_Expires l' \<le> lse_Expires l" using calculation(2) l'(2) by (simp_all add: shrunk_def)
    ultimately show ?thesis using endedD[OF assms(3)] order_trans by blast
  qed
  then show ?thesis using k by (simp add: ended_def)
qed

lemma ended_run: "(dispatch_step h)\<^sup>*\<^sup>* s s' \<Longrightarrow> lease_inv s \<and> ended i e s \<Longrightarrow> lease_inv s' \<and> ended i e s'"
  by (induction rule: rtranclp_induct) (blast intro: ended_step lease_inv_step)+

lemma ended_cancel:
  assumes "lease_inv s" "mget (ingress s) i = Some r"
  shows "ended i now (s\<lparr>dsys_rt := EndDispatchRoot h i True now (dsys_rt s)\<rparr>)"
proof -
  have e: "root_Expires (endedRoot True now r) \<le> now" "root_Cancelled (endedRoot True now r)"
    by (simp_all add: endedRoot_def Let_def minTime_min second_def)
  have "lse_Expires l \<le> now"
    if l: "mget (disp_leases (EndDispatchRoot h i True now (dsys_rt s))) k = Some l" "lse_Root l = i" for k l
  proof -
    let ?e = "root_Expires (endedRoot True now r)"
    obtain l0 where "(if lse_Root l0 = i then observed (bound ?e l0) else l0) = l"
      using l(1) unfolding end_tables(2) assms(2) option.case map_option_eq_Some if_True by blast
    then have "l = observed (bound ?e l0)" using l(2) by (cases "lse_Root l0 = i") auto
    then have "lse_Expires l \<le> ?e" by (simp add: bound_def minTime_min)
    then show ?thesis using e(1) by simp
  qed
  then show ?thesis
    using e(2) lease_invD(3)[OF assms] by (auto simp: ended_def cancelledRoot_def end_tables assms(2))
qed

lemma ended_refuses:
  assumes "ended i e s" "mget (leases s) t = Some l" "lse_Root l = i" "e \<le> later"
  shows "isl (fst (invocationLocked t later (dsys_rt s)))" "isl (fst (effectLocked c t cost later (dsys_rt s)))"
    "isl (fst (DispatchEffectContext t later (dsys_rt s)))"
proof -
  have "\<not> later < lse_Expires l" using endedD[OF assms(1-3)] assms(4) by simp
  then show "isl (fst (invocationLocked t later (dsys_rt s)))" "isl (fst (effectLocked c t cost later (dsys_rt s)))"
    "isl (fst (DispatchEffectContext t later (dsys_rt s)))"
    using assms(2) by (simp_all add: invocationLocked_def effectLocked_def DispatchEffectContext_def)
qed

end
