(* ===== verification/Dispatch_Properties.thy ===== *)
theory Dispatch_Properties
  imports Dispatch_Contexts
begin

text \<open>
  The properties of dynamic dispatch, each with a witness on a run that begins an ingress
  request, admits an invocation and one nested below it, and charges an effect to the second.
\<close>

section \<open>A demonstration run\<close>

definition dispatchDemoTarget :: ActiveDeployment where
  "dispatchDemoTarget = ActiveDeployment0\<lparr>Active_App := App0\<lparr>App_ID := ''w1'', App_Platform := Some
       (WorkerPlatform0\<lparr>Platform_NamespaceID := ''n1'', Platform_CustomerID := ''c1''\<rparr>)\<rparr>,
     Active_Deployment := Deployment0\<lparr>Dep_ID := ''d1''\<rparr>\<rparr>"

definition dispatchDemoCaller :: RuntimePrincipal where
  "dispatchDemoCaller = \<lparr>Prin_Grant = \<lparr>RG_InstanceID = ''x'', RG_OrgID = ''o1'', RG_AppID = ''w1'',
       RG_DeploymentID = ''d1'', RG_Kind = ''dispatch'', RG_ResourceID = ''n1''\<rparr>,
     Prin_App = Active_App dispatchDemoTarget, Prin_Deployment = Active_Deployment dispatchDemoTarget\<rparr>"

definition beginIn :: "string \<Rightarrow> time \<Rightarrow> dispatchSystem \<Rightarrow> dispatchSystem" where
  "beginIn token now s = s\<lparr>dsys_rt := snd (beginRootLocked token dispatchDemoTarget now (dsys_rt s)),
     dsys_used := token # dsys_used s\<rparr>"

definition acquireIn :: "string \<Rightarrow> string \<Rightarrow> int \<Rightarrow> string \<Rightarrow> time \<Rightarrow> dispatchSystem \<Rightarrow> dispatchSystem" where
  "acquireIn token parentID depth rootID now s =
     (let (res, rt') = acquireLocked token (if parentID = [] then ''tr'' else parentID) ''tr'' dispatchDemoCaller (Active_App dispatchDemoTarget)
        dispatchDemoTarget rootID parentID depth now (dsys_rt s)
      in s\<lparr>dsys_rt := rt', dsys_used := token # dsys_used s,
           dsys_spent := spend (\<not> isl res) rootID 1 (dsys_spent s)\<rparr>)"

definition parentIn :: "string \<Rightarrow> dispatchSystem \<Rightarrow> dispatchSystem" where
  "parentIn parentID s = (case serviceParentLocked ''tr'' parentID (dsys_rt s) of Inl _ \<Rightarrow> s
     | Inr (rootID, depth) \<Rightarrow> s\<lparr>dsys_parents := (''tr'', parentID, rootID, depth) # dsys_parents s\<rparr>)"

definition effectIn :: "string \<Rightarrow> int \<Rightarrow> time \<Rightarrow> dispatchSystem \<Rightarrow> dispatchSystem" where
  "effectIn token cost now s = (let (res, rt') = effectLocked ''tr'' token cost now (dsys_rt s) in
     s\<lparr>dsys_rt := rt', dsys_spent := spend (\<not> isl res)
       (case mget (leases s) token of None \<Rightarrow> [] | Some l \<Rightarrow> lse_Root l) cost (dsys_spent s)\<rparr>)"

definition dispatchDemo1 :: dispatchSystem where
  "dispatchDemo1 = acquireIn ''l1'' [] 0 ''r'' 2 (beginIn ''r'' 1 initial_dispatch)"

definition dispatchDemo :: dispatchSystem where
  "dispatchDemo = effectIn ''l2'' 5 4 (acquireIn ''l2'' ''l1'' 1 ''r'' 3 (parentIn ''l1'' dispatchDemo1))"

lemma dispatch_reachable_step: "dispatch_reachable h s \<Longrightarrow> dispatch_step h s s' \<Longrightarrow> dispatch_reachable h s'"
  unfolding dispatch_reachable_def by (rule rtranclp.rtrancl_into_rtrancl)

lemma begin_reachable: "dispatch_reachable h s \<Longrightarrow> fresh token s \<Longrightarrow> dispatch_reachable h (beginIn token now s)"
  unfolding beginIn_def by (erule dispatch_reachable_step, rule d_begin[OF _ surjective_pairing])

lemma parent_reachable: "dispatch_reachable h s \<Longrightarrow> dispatch_reachable h (parentIn parentID s)"
  by (auto simp: parentIn_def split: sum.split intro: d_parent dispatch_reachable_step)

lemma acquire_reachable: "dispatch_reachable h s \<Longrightarrow> fresh token s \<Longrightarrow>
    askedFor parentID depth (if parentID = [] then ''tr'' else parentID) ''tr'' rootID s \<Longrightarrow>
    dispatch_reachable h (acquireIn token parentID depth rootID now s)"
  unfolding acquireIn_def Let_def case_prod_unfold
  by (erule dispatch_reachable_step, rule d_acquire[where selected = dispatchDemoTarget
      and app = "Active_App dispatchDemoTarget"]) simp_all

lemma effect_reachable: "dispatch_reachable h s \<Longrightarrow> mhas (leases s) token \<Longrightarrow> dispatch_reachable h (effectIn token cost now s)"
proof (erule dispatch_reachable_step)
  assume "mhas (leases s) token"
  then obtain l where "mget (leases s) token = Some l" by (auto simp: mhas_def)
  then show "dispatch_step h s (effectIn token cost now s)"
    by (auto simp: effectIn_def split: prod.split intro: d_effect)
qed

lemma dispatchDemo1_reachable: "dispatch_reachable h dispatchDemo1"
proof -
  have "dispatch_reachable h initial_dispatch" by (simp add: dispatch_reachable_def)
  moreover have "fresh ''r'' initial_dispatch" by code_simp
  moreover have "fresh ''l1'' (beginIn ''r'' 1 initial_dispatch)" by code_simp
  moreover have "askedFor [] 0 ''tr'' ''tr'' ''r'' (beginIn ''r'' 1 initial_dispatch)" by (simp add: askedFor_def)
  ultimately show ?thesis unfolding dispatchDemo1_def using acquire_reachable[of h _ "''l1''" "[]"] begin_reachable by simp
qed

lemma dispatchDemo_reachable: "dispatch_reachable h dispatchDemo"
proof -
  let ?s = "parentIn ''l1'' dispatchDemo1"
  have demo: "fresh ''l2'' ?s" "dsys_parents ?s = [(''tr'', ''l1'', ''r'', 1)]" "mhas (leases (acquireIn ''l2'' ''l1'' 1 ''r'' 3 ?s)) ''l2''"
    by code_simp+
  have "askedFor ''l1'' 1 ''l1'' ''tr'' ''r'' ?s" using demo(2) by (simp add: askedFor_def)
  then have "dispatch_reachable h (acquireIn ''l2'' ''l1'' 1 ''r'' 3 ?s)"
    using acquire_reachable[OF parent_reachable[OF dispatchDemo1_reachable] demo(1), of "''l1''" 1] by simp
  then show ?thesis unfolding dispatchDemo_def using demo(3) by (rule effect_reachable)
qed

lemma dispatchDemo_tables: "mlen (leases dispatchDemo) = 2 \<and> mlen (ingress dispatchDemo) = 1 \<and> spentOn ''r'' dispatchDemo = 7"
  by code_simp

lemma dispatchDemo_l1: "map_option (\<lambda>l. (lse_Parent l, lse_Root l, lse_TransportToken l, lse_Finished l))
    (mget (leases dispatchDemo) ''l1'') = Some ([], ''r'', ''tr'', False)"
  by code_simp

lemma dispatchDemo_l2: "map_option (\<lambda>l. (lse_Parent l, lse_Root l, lse_Depth l, lse_Remaining l))
    (mget (leases dispatchDemo) ''l2'') = Some (''l1'', ''r'', 1, 9995)"
  by code_simp

lemma dispatchDemo_root: "map_option (\<lambda>r. (root_Context r, root_Remaining r, root_Cancelled r))
    (mget (ingress dispatchDemo) ''r'') = Some (Some 0, 9993, False)"
  by code_simp

lemma dispatchDemo_count: "map_option (\<lambda>c. (Cnt_Invocations c, Cnt_Completed c, Cnt_Canceled c))
    (mget (disp_counts (dsys_rt dispatchDemo)) ''w1'') = Some (2, 0, 0)"
  by code_simp

section \<open>Admission and its limits\<close>

text \<open>C13: In every reachable state at most 1024 invocations are in flight, at most 128 of them in
  one namespace and at most 32 for one customer, and at most 1024 ingress requests are known.\<close>

theorem dispatch_capped:
  assumes "dispatch_reachable h s"
  shows "mlen (leases s) \<le> 1024 \<and> (\<forall>n. mcount (\<lambda>_. inNamespace n) (leases s) \<le> 128)
    \<and> (\<forall>n c. mcount (\<lambda>_. ofCustomer n c) (leases s) \<le> 32) \<and> mlen (ingress s) \<le> 1024"
  using lease_invD(6)[OF lease_inv_reachable[OF assms]] budget_inv_reachable[OF assms]
  by (simp add: capped_def budget_inv_def)

theorem dispatch_capped_witness:
  "mlen (leases dispatchDemo) = 2 \<and> mcount (\<lambda>_. ofCustomer ''n1'' ''c1'') (leases dispatchDemo) \<le> 32"
  using dispatch_capped[OF dispatchDemo_reachable[of id]] dispatchDemo_tables by blast

definition admissible :: "RuntimePrincipal \<Rightarrow> App \<Rightarrow> string \<Rightarrow> string \<Rightarrow> string \<Rightarrow> int \<Rightarrow> time \<Rightarrow> dispatchRuntime \<Rightarrow> bool" where
  "admissible caller app transport rootID parentID depth now rt \<longleftrightarrow>
     (parentID = [] \<or> (case mget (disp_leases rt) parentID of None \<Rightarrow> False
        | Some p \<Rightarrow> now < lse_Expires p \<and> lse_TransportToken p = transport \<and> lse_Root p = rootID \<and> depth \<le> 8))
   \<and> (rootID = [] \<or> (case mget (disp_roots rt) rootID of None \<Rightarrow> False
        | Some r \<Rightarrow> \<not> root_Cancelled r \<and> now < root_Expires r \<and> 1 \<le> root_Remaining r
           \<and> (depth \<noteq> 0 \<or> root_AppID r = App_ID (Prin_App caller)
               \<and> root_DeploymentID r = Dep_ID (Prin_Deployment caller)
               \<and> root_InstanceID r \<in> {[], RG_InstanceID (Prin_Grant caller)})))
   \<and> belowLimits app (liveLeases now (disp_leases rt))"

text \<open>C16: An invocation is admitted exactly when its parent, if it has one, is live, used by the same
  transport and of the same ingress and its own depth is at most 8, the ingress request is live, has budget left and belongs to the calling
  deployment and instance, and the limits leave room among the live leases.\<close>

theorem dispatch_admission:
  "isl (fst (acquireLocked token callerToken transport caller app selected rootID parentID depth now rt))
     = (\<not> admissible caller app transport rootID parentID depth now rt)"
proof (cases "parentDeadline parentID transport rootID depth now (now + 30 * second) rt")
  case (Inl e)
  then show ?thesis
    by (auto simp: acquireLocked_def admissible_def parentDeadline_def split: if_splits option.splits)
next
  case p: (Inr d)
  then have par: "parentID = [] \<or> (case mget (disp_leases rt) parentID of None \<Rightarrow> False
        | Some p \<Rightarrow> now < lse_Expires p \<and> lse_TransportToken p = transport \<and> lse_Root p = rootID \<and> depth \<le> 8)"
    using parentDeadline_ok[OF p] by auto
  obtain cres rt1 where c: "chargeRoot rootID caller depth now d rt = (cres, rt1)" by fastforce
  have ch: "isl cres = (\<not> (rootID = [] \<or> (case mget (disp_roots rt) rootID of None \<Rightarrow> False
        | Some r \<Rightarrow> \<not> root_Cancelled r \<and> now < root_Expires r \<and> 1 \<le> root_Remaining r
           \<and> (depth \<noteq> 0 \<or> root_AppID r = App_ID (Prin_App caller)
               \<and> root_DeploymentID r = Dep_ID (Prin_Deployment caller)
               \<and> root_InstanceID r \<in> {[], RG_InstanceID (Prin_Grant caller)}))))"
    using c by (auto simp: chargeRoot_def Let_def split: option.splits if_splits)
  have ad: "admissible caller app transport rootID parentID depth now rt
      = (\<not> isl cres \<and> belowLimits app (liveLeases now (disp_leases rt)))"
    unfolding admissible_def ch using par by blast
  show ?thesis
    unfolding ad using p c chargeRoot_effect(1)[OF c]
    by (cases cres) (auto simp: acquireLocked_def Let_def belowLimits_def withDeadline_def not_less[symmetric])
qed

section \<open>The tree of invocations\<close>

text \<open>C12: Every invocation ends within 30 seconds of its admission, is at most 8 deep and writes at
  most 64 log lines; while its parent and its ingress request are known it is one deeper than the
  parent (whose depth was read in an earlier section, before any number of other steps), uses the same transport, belongs to the same ingress and ends no later than either.\<close>

theorem dispatch_nested:
  assumes "dispatch_reachable h s" "mget (leases s) t = Some l"
  shows "lse_Expires l \<le> lse_Deadline l \<and> lse_Deadline l \<le> lse_AdmittedAt l + 30 * second
    \<and> 0 \<le> lse_Depth l \<and> lse_Depth l \<le> 8 \<and> 0 \<le> lse_Remaining l \<and> lse_LogLines l \<le> 64
    \<and> (case mget (leases s) (lse_Parent l) of None \<Rightarrow> True
       | Some p \<Rightarrow> lse_Depth l = lse_Depth p + 1 \<and> lse_TransportToken l = lse_TransportToken p
           \<and> lse_Root l = lse_Root p \<and> lse_Expires l \<le> lse_Expires p)
    \<and> (case mget (ingress s) (lse_Root l) of None \<Rightarrow> True | Some r \<Rightarrow> lse_Expires l \<le> root_Expires r)"
proof -
  note inv = lease_inv_reachable[OF assms(1)]
  show ?thesis
    using lease_invD(2)[OF inv assms(2)] nestedD[OF lease_invD(4)[OF inv] assms(2)] lease_invD(5)[OF inv] assms(2)
    by (auto simp: lease_local_def rooted_def split: option.split)
qed

theorem dispatch_nested_witness:
  "\<exists>l p. mget (leases dispatchDemo) ''l2'' = Some l \<and> mget (leases dispatchDemo) ''l1'' = Some p \<and> lse_Expires l \<le> lse_Expires p"
proof -
  obtain l where l: "mget (leases dispatchDemo) ''l2'' = Some l" "lse_Parent l = ''l1''"
    using dispatchDemo_l2 by (auto simp: map_option_eq_Some)
  obtain p where p: "mget (leases dispatchDemo) ''l1'' = Some p"
    using dispatchDemo_l1 by (auto simp: map_option_eq_Some)
  show ?thesis using dispatch_nested[OF dispatchDemo_reachable[of id] l(1)] l p by auto
qed

section \<open>Budgets\<close>

text \<open>C9: What the admissions and effects below one ingress request were charged never exceeds
  10000 units, however they interleave, also after the request is gone; while it is known the
  units left cover the rest.\<close>

theorem dispatch_budget:
  assumes "dispatch_reachable h s"
  shows "spentOn i s \<le> 10000 \<and> (case mget (ingress s) i of None \<Rightarrow> True
    | Some r \<Rightarrow> 0 \<le> root_Remaining r \<and> spentOn i s + root_Remaining r \<le> 10000)"
  using budget_inv_reachable[OF assms] by (auto simp: budget_inv_def split: option.split)

theorem dispatch_budget_witness: "spentOn ''r'' dispatchDemo = 7 \<and> spentOn ''r'' dispatchDemo \<le> 10000"
  using dispatch_budget[OF dispatchDemo_reachable[of id], of "''r''"] dispatchDemo_tables by blast

section \<open>Finishing\<close>

lemma dispatch_finish_total:
  assumes "dispatch_reachable h s"
  shows "\<exists>res rt'. finishLocked h callerToken token cancel now (dsys_rt s) = Some (res, rt')"
  using finish_result[OF lease_inv_layered[OF lease_inv_reachable[OF assms]]] by blast

text \<open>C20: In every reachable state \<open>FinishDispatch\<close> returns: its walks over the invocation tree
  end.\<close>

theorem dispatch_finish_returns:
  assumes "dispatch_reachable h s"
  shows "\<exists>res rt'. finishLocked h callerToken token cancel now (dsys_rt s) = Some (res, rt')"
  by (rule dispatch_finish_total[OF assms])

theorem dispatch_finish_returns_witness: "\<exists>res rt'. finishLocked id ''tr'' ''l1'' False 5 (dsys_rt dispatchDemo) = Some (res, rt')"
  by (rule dispatch_finish_returns[OF dispatchDemo_reachable])

text \<open>C23: Cancelling an invocation removes it and everything below it and nothing else; finishing
  it marks it, and lets it and everything below it run at most two more seconds.\<close>

theorem dispatch_finish_subtree:
  assumes "dispatch_reachable h s" "mget (leases s) t = Some l" "lse_TransportToken l = callerToken" "cancel \<or> \<not> lse_Finished l"
  shows "\<exists>rt' e. finishLocked h callerToken t cancel now (dsys_rt s) = Some (Inr (), rt') \<and> e \<le> now + 2 * second
    \<and> disp_roots rt' = ingress s
    \<and> (\<forall>k. mget (disp_leases rt') k = (if cancel then (if descends (leases s) t k then None else mget (leases s) k)
         else map_option (\<lambda>m. if k = t then (observed m)\<lparr>lse_Finished := True, lse_Expires := min (lse_Expires m) e\<rparr>
           else if descends (leases s) t k then m\<lparr>lse_Expires := min (lse_Expires m) e\<rparr> else m) (mget (leases s) k)))"
proof -
  obtain res rt' where fin: "finishLocked h callerToken t cancel now (dsys_rt s) = Some (res, rt')"
    using dispatch_finish_total[OF assms(1)] by blast
  then have ok: "res = Inr ()"
    using assms(2,3) by (auto simp: finishLocked_def Let_def split: if_splits option.splits)
  let ?e = "minTime (lse_Expires l) (now + 2 * second)"
  have "disp_roots rt' = ingress s \<and> (\<forall>k. mget (disp_leases rt') k = (if cancel
      then (if descends (leases s) t k then None else mget (leases s) k)
      else map_option (\<lambda>m. if k = t then finished ?e m else if below (leases s) [t] k then bound ?e m else m) (mget (leases s) k)))"
    using finish_result[OF lease_inv_layered[OF lease_inv_reachable[OF assms(1)]], of h callerToken t cancel now]
      fin ok assms(2,4) by (auto split: if_splits)
  moreover have "map_option (\<lambda>m. if k = t then finished ?e m else if below (leases s) [t] k then bound ?e m else m) (mget (leases s) k)
    = map_option (\<lambda>m. if k = t then (observed m)\<lparr>lse_Finished := True, lse_Expires := min (lse_Expires m) ?e\<rparr>
           else if descends (leases s) t k then m\<lparr>lse_Expires := min (lse_Expires m) ?e\<rparr> else m) (mget (leases s) k)" for k
    using assms(2) by (cases "mget (leases s) k") (auto simp: descends_cases finished_def bound_def minTime_min)
  ultimately show ?thesis
    using fin ok by (intro exI[of _ rt'] exI[of _ ?e]) (simp add: minTime_min)
qed

theorem dispatch_finish_subtree_witness:
  "\<exists>rt'. finishLocked id ''tr'' ''l1'' True 5 (dsys_rt dispatchDemo) = Some (Inr (), rt') \<and> mget (disp_leases rt') ''l2'' = None"
proof -
  obtain l where l: "mget (leases dispatchDemo) ''l1'' = Some l" "lse_TransportToken l = ''tr''"
    using dispatchDemo_l1 by (auto simp: map_option_eq_Some)
  obtain m where "mget (leases dispatchDemo) ''l2'' = Some m" "lse_Parent m = ''l1''"
    using dispatchDemo_l2 by (auto simp: map_option_eq_Some)
  then have "descends (leases dispatchDemo) ''l1'' ''l2''" by (auto intro: descends.child)
  then show ?thesis using dispatch_finish_subtree[OF dispatchDemo_reachable[of id] l, of True 5] by auto
qed

section \<open>Cancelling an ingress request\<close>

text \<open>C7: Once an ingress request was cancelled at some time, then in every state reached later, at
  that time or after it, each invocation below the request is refused: it is not authorized, its
  effects and their contexts are refused, no new invocation is admitted below the request, and the
  contexts of the invocations that were in flight are done.\<close>

theorem dispatch_cancel_effective:
  assumes "dispatch_reachable h s" "mget (ingress s) i = Some r"
    and "(dispatch_step h)\<^sup>*\<^sup>* (s\<lparr>dsys_rt := EndDispatchRoot h i True now (dsys_rt s)\<rparr>) s'" "now \<le> later"
  shows "(\<forall>t l. mget (leases s') t = Some l \<and> lse_Root l = i \<longrightarrow>
        isl (fst (invocationLocked t later (dsys_rt s'))) \<and> isl (fst (effectLocked c t cost later (dsys_rt s')))
        \<and> isl (fst (DispatchEffectContext t later (dsys_rt s'))))
    \<and> isl (fst (acquireLocked token callerToken transport caller app selected i parentID depth later (dsys_rt s')))
    \<and> (\<forall>t l. mget (leases s) t = Some l \<and> lse_Root l = i \<longrightarrow>
        (\<exists>d. lse_Context l = Some d \<and> ctxDone later (contexts s') d))"
proof -
  let ?s1 = "s\<lparr>dsys_rt := EndDispatchRoot h i True now (dsys_rt s)\<rparr>"
  note inv = lease_inv_reachable[OF assms(1)] and ctx = ctx_inv_reachable[OF assms(1)]
  have step: "dispatch_step h s ?s1" by (rule d_end)
  have ended: "lease_inv s'" "ended i now s'"
    using ended_run[OF assms(3)] lease_inv_step[OF step inv] ended_cancel[OF inv assms(2)] by blast+
  obtain d where d: "root_Context r = Some d" using ctx assms(2) unfolding ctx_inv_def by blast
  have "\<exists>c. lse_Context l = Some c \<and> ctxDone later (contexts s') c"
    if l: "mget (leases s) t = Some l" "lse_Root l = i" for t l
  proof -
    obtain c where c: "lse_Context l = Some c" "under (contexts s) d c"
      using ctx l assms(2) d unfolding ctx_inv_def by fastforce
    have "ctxDone later (contexts ?s1) c"
      using under_done[OF under_older[OF c(2) step_older[OF step]]] end_cancels[OF ctx assms(2) d assms(4)] by simp
    then show ?thesis using ctxDone_older[OF run_older[OF assms(3)]] c(1) by blast
  qed
  moreover have "isl (fst (acquireLocked token callerToken transport caller app selected i parentID depth later (dsys_rt s')))"
    using ended lease_invD(7)[OF ended(1)] unfolding ended_def by (intro acquire_cancelled[OF surjective_pairing]) auto
  ultimately show ?thesis using ended_refuses[OF ended(2) _ _ assms(4)] by blast
qed

theorem dispatch_cancel_effective_witness:
  "\<exists>l d. mget (leases dispatchDemo) ''l2'' = Some l \<and> lse_Context l = Some d
     \<and> ctxDone 7 (disp_contexts (EndDispatchRoot id ''r'' True 6 (dsys_rt dispatchDemo))) d"
proof -
  obtain r where r: "mget (ingress dispatchDemo) ''r'' = Some r"
    using dispatchDemo_root by (auto simp: map_option_eq_Some)
  obtain l where l: "mget (leases dispatchDemo) ''l2'' = Some l" "lse_Root l = ''r''"
    using dispatchDemo_l2 by (auto simp: map_option_eq_Some)
  show ?thesis
    using dispatch_cancel_effective[OF dispatchDemo_reachable[of id] r rtranclp.rtrancl_refl, of 6 7] l by auto
qed

section \<open>Observations\<close>

text \<open>C36: For every worker the invocations reported as completed or canceled, plus those still in
  flight and unreported, are at most the invocations counted for it: no invocation is reported
  twice.\<close>

theorem dispatch_observed_once:
  assumes "dispatch_reachable h s" "mget (disp_counts (dsys_rt s)) w = Some c"
  shows "Cnt_Completed c + Cnt_Canceled c + mcount (\<lambda>_ l. \<not> lse_Observed l \<and> App_ID (Active_App (lse_Target l)) = w) (leases s)
    \<le> Cnt_Invocations c"
  using counted_reachable[OF assms(1)] assms(2) by (simp add: counted_def awaiting_def[abs_def] workerOf_def)

theorem dispatch_observed_once_witness:
  "\<exists>c. mget (disp_counts (dsys_rt dispatchDemo)) ''w1'' = Some c \<and> Cnt_Completed c + Cnt_Canceled c \<le> Cnt_Invocations c"
proof -
  obtain c where "mget (disp_counts (dsys_rt dispatchDemo)) ''w1'' = Some c"
    using dispatchDemo_count by (auto simp: map_option_eq_Some)
  then show ?thesis using dispatch_observed_once[OF dispatchDemo_reachable[of id]] by fastforce
qed

section \<open>A hold that is never released\<close>

text \<open>When an ingress request outlives its 30 seconds, the next one removes it together with its
  release callback, which is then called neither by the removal nor by \<open>EndDispatchRoot\<close>.\<close>

lemma overdue_hold_lost:
  assumes "mget (disp_roots rt) i = Some r" "root_Release r = Some f" "root_Expires r \<le> now" "i \<noteq> token"
  shows "\<not> mhas (disp_roots (snd (beginRootLocked token item now rt))) i"
    and "disp_released (EndDispatchRoot h i cancel later (snd (beginRootLocked token item now rt))) = disp_released rt"
proof -
  have none: "mget (disp_roots (snd (beginRootLocked token item now rt))) i = None"
    using assms by (simp add: beginRootLocked_def purgeRoots_def Let_def withDeadline_def mget_filter)
  then show "\<not> mhas (disp_roots (snd (beginRootLocked token item now rt))) i" by (simp add: mhas_def)
  have "disp_released (snd (beginRootLocked token item now rt)) = disp_released rt"
    by (simp add: beginRootLocked_def purgeRoots_def Let_def withDeadline_def)
  then show "disp_released (EndDispatchRoot h i cancel later (snd (beginRootLocked token item now rt))) = disp_released rt"
    using none by (simp add: EndDispatchRoot_def)
qed

end
