(* ===== verification/Go_Text.thy ===== *)
theory Go_Text
  imports Go_Strings
begin

text \<open>
  More of \<open>strings\<close>, \<open>path\<close>, \<open>net\<close> and \<open>strconv\<close>: splitting and joining at one byte, prefixes
  and suffixes, decimal numbers, dotted addresses, and \<open>path.Clean\<close> of a rooted path.
\<close>

section \<open>Splitting and joining\<close>

text \<open>\<open>strings.Split(s, sep)\<close> for a separator of one byte: always at least one field.\<close>

fun splitOn :: "char \<Rightarrow> string \<Rightarrow> string list" where
  "splitOn sep [] = [[]]"
| "splitOn sep (c # s) = (if c = sep then [] # splitOn sep s
     else (case splitOn sep s of f # fs \<Rightarrow> (c # f) # fs | [] \<Rightarrow> [[c]]))"

fun joinWith :: "string \<Rightarrow> string list \<Rightarrow> string" where
  "joinWith sep [] = []"
| "joinWith sep [f] = f"
| "joinWith sep (f # g # fs) = f @ sep @ joinWith sep (g # fs)"

lemma splitOn_not_Nil [simp]: "splitOn sep s \<noteq> []"
  by (induction s) (auto split: list.split)

lemma joinWith_Cons: "joinWith sep (f # fs) = (if fs = [] then f else f @ sep @ joinWith sep fs)"
  by (cases fs) simp_all

lemma joinWith_head: "joinWith sep ((c # f) # fs) = c # joinWith sep (f # fs)"
  by (simp add: joinWith_Cons)

text \<open>Joining what was split gives the string back, and splitting what was joined gives the fields
  back when none of them contains the separator.\<close>

lemma join_split: "joinWith [sep] (splitOn sep s) = s"
proof (induction s)
  case (Cons c s)
  obtain f fs where f: "splitOn sep s = f # fs" by (cases "splitOn sep s") auto
  then show ?case using Cons by (auto simp: joinWith_Cons split: if_splits)
qed simp

lemma splitOn_append: "sep \<notin> set f \<Longrightarrow> splitOn sep (f @ sep # s) = f # splitOn sep s"
  by (induction f) auto

lemma splitOn_field [simp]: "sep \<notin> set f \<Longrightarrow> splitOn sep f = [f]"
  by (induction f) auto

lemma split_join: "fs \<noteq> [] \<Longrightarrow> \<forall>f \<in> set fs. sep \<notin> set f \<Longrightarrow> splitOn sep (joinWith [sep] fs) = fs"
  by (induction fs) (auto simp: joinWith_Cons splitOn_append)

lemma splitOn_snoc: "splitOn sep (s @ [sep]) = splitOn sep s @ [[]]"
  by (induction s) (auto split: list.split)

lemma splitOn_fields: "f \<in> set (splitOn sep s) \<Longrightarrow> sep \<notin> set f"
proof (induction s arbitrary: f)
  case (Cons c s)
  obtain g gs where "splitOn sep s = g # gs" by (cases "splitOn sep s") auto
  then show ?case using Cons by (auto split: if_splits)
qed simp

lemma splitOn_chars: "f \<in> set (splitOn sep s) \<Longrightarrow> set f \<subseteq> set s"
proof (induction s arbitrary: f)
  case (Cons c s)
  obtain g gs where g: "splitOn sep s = g # gs" by (cases "splitOn sep s") auto
  show ?case
  proof (cases "c = sep")
    case True
    then show ?thesis using Cons by auto
  next
    case False
    then have "f = c # g \<or> f \<in> set gs" using Cons.prems g by simp
    then show ?thesis using Cons.IH[of g] Cons.IH[of f] g by auto
  qed
qed simp

lemma splitOn_map: "h sep = sep \<Longrightarrow> (\<And>c. c \<in> set s \<Longrightarrow> h c = sep \<Longrightarrow> c = sep) \<Longrightarrow>
    splitOn sep (map h s) = map (map h) (splitOn sep s)"
proof (induction s)
  case (Cons c s)
  obtain f fs where f: "splitOn sep s = f # fs" by (cases "splitOn sep s") auto
  have IH: "splitOn sep (map h s) = map (map h) (splitOn sep s)" using Cons.IH Cons.prems by simp
  have "(h c = sep) = (c = sep)" using Cons.prems(1) Cons.prems(2)[of c] by auto
  then show ?case using IH f by auto
qed simp

section \<open>Prefixes and suffixes\<close>

definition hasSuffix :: "string \<Rightarrow> string \<Rightarrow> bool" where
  "hasSuffix s p = suffix p s"

definition trimPrefix :: "string \<Rightarrow> string \<Rightarrow> string" where
  "trimPrefix s p = (if prefix p s then drop (length p) s else s)"

definition trimSuffix :: "string \<Rightarrow> string \<Rightarrow> string" where
  "trimSuffix s p = (if suffix p s then take (length s - length p) s else s)"

lemma trimSuffix_append [simp]: "trimSuffix (s @ p) p = s"
  by (simp add: trimSuffix_def suffix_def)

lemma trimPrefix_append [simp]: "trimPrefix (p @ s) p = s"
  by (simp add: trimPrefix_def)

text \<open>\<open>strings.TrimLeft\<close>, \<open>TrimRight\<close> and \<open>Trim\<close> with a cutset of one byte.\<close>

definition trimLeftByte :: "char \<Rightarrow> string \<Rightarrow> string" where
  "trimLeftByte c s = dropWhile (\<lambda>x. x = c) s"

definition trimRightByte :: "char \<Rightarrow> string \<Rightarrow> string" where
  "trimRightByte c s = rev (dropWhile (\<lambda>x. x = c) (rev s))"

text \<open>\<open>strings.Replace(s, old, new, 1)\<close> for an old string of one byte.\<close>

fun replaceFirst :: "char \<Rightarrow> string \<Rightarrow> string \<Rightarrow> string" where
  "replaceFirst old new [] = []"
| "replaceFirst old new (c # s) = (if c = old then new @ s else c # replaceFirst old new s)"

text \<open>The double quotes of \<open>%q\<close>; escapes inside are not modelled, they occur in messages only.\<close>

definition quoted :: "string \<Rightarrow> string" where
  "quoted s = [CHR 0x22] @ s @ [CHR 0x22]"

section \<open>Numbers and addresses\<close>

definition isDigit :: "char \<Rightarrow> bool" where
  "isDigit c = inRange 48 57 c"

definition decimal :: "string \<Rightarrow> nat" where
  "decimal s = foldl (\<lambda>n c. n * 10 + (ord c - 48)) 0 s"

text \<open>A field of a dotted IPv4 address: one to three digits, no leading zero, at most 255.\<close>

definition ipv4Field :: "string \<Rightarrow> bool" where
  "ipv4Field f = (f \<noteq> [] \<and> length f \<le> 3 \<and> list_all isDigit f \<and> (length f = 1 \<or> hd f \<noteq> CHR ''0'') \<and> decimal f \<le> 255)"

definition isIPv4 :: "string \<Rightarrow> bool" where
  "isIPv4 s = (let fs = splitOn (CHR ''.'') s in length fs = 4 \<and> list_all ipv4Field fs)"

section \<open>Rooted paths\<close>

text \<open>\<open>path.Clean\<close> of a path that starts with a slash: empty and \<open>.\<close> elements are dropped, and
  \<open>..\<close> removes the element before it, if there is one.\<close>

fun cleanElements :: "string list \<Rightarrow> string list \<Rightarrow> string list" where
  "cleanElements acc [] = rev acc"
| "cleanElements acc (e # es) =
     (if e = [] \<or> e = ''.'' then cleanElements acc es
      else if e = ''..'' then cleanElements (tl acc) es
      else cleanElements (e # acc) es)"

definition cleanRooted :: "string \<Rightarrow> string" where
  "cleanRooted p = CHR ''/'' # joinWith ''/'' (cleanElements [] (splitOn (CHR ''/'') p))"

definition plainElement :: "string \<Rightarrow> bool" where
  "plainElement e \<longleftrightarrow> e \<noteq> [] \<and> e \<noteq> ''.'' \<and> e \<noteq> ''..''"

lemma set_cleanElements: "e \<in> set (cleanElements acc es) \<Longrightarrow> e \<in> set acc \<or> e \<in> set es \<and> plainElement e"
proof (induction acc es rule: cleanElements.induct)
  case (2 acc x es)
  consider "x = [] \<or> x = ''.''" | "x = ''..''" | "plainElement x" by (auto simp: plainElement_def)
  then show ?case
  proof cases
    case 1
    then show ?thesis using 2(1)[OF 1] 2(4) by auto
  next
    case two: 2
    then have "e \<in> set (tl acc) \<or> e \<in> set es \<and> plainElement e" using 2(2) 2(4) by simp
    then show ?thesis by (cases acc) auto
  next
    case three: 3
    then have n: "\<not> (x = [] \<or> x = ''.'')" "x \<noteq> ''..''" by (auto simp: plainElement_def)
    show ?thesis using 2(3)[OF n] 2(4) three n by auto
  qed
qed simp

lemma cleanElements_plain: "\<forall>e \<in> set es. plainElement e \<Longrightarrow> cleanElements acc es = rev acc @ es"
  by (induction es arbitrary: acc) (auto simp: plainElement_def)

text \<open>A cleaned path splits into plain elements, none of which leaves the root, and cleaning it
  again changes nothing.\<close>

lemma cleanRooted_elements: "\<exists>es. cleanRooted p = CHR ''/'' # joinWith ''/'' es
    \<and> (\<forall>e \<in> set es. plainElement e \<and> CHR ''/'' \<notin> set e)"
proof -
  let ?es = "cleanElements [] (splitOn (CHR ''/'') p)"
  have "plainElement e \<and> CHR ''/'' \<notin> set e" if "e \<in> set ?es" for e
    using set_cleanElements[OF that] splitOn_fields[of e "CHR ''/''" p] by simp
  then show ?thesis unfolding cleanRooted_def by blast
qed

lemma cleanRooted_idem [simp]: "cleanRooted (cleanRooted p) = cleanRooted p"
proof -
  obtain es where es: "cleanRooted p = CHR ''/'' # joinWith ''/'' es"
      "\<forall>e \<in> set es. plainElement e \<and> CHR ''/'' \<notin> set e"
    using cleanRooted_elements by blast
  have "cleanElements [] (splitOn (CHR ''/'') (joinWith ''/'' es)) = es"
  proof (cases "es = []")
    case False
    then show ?thesis using es(2) by (simp add: split_join cleanElements_plain)
  qed simp
  then show ?thesis
    unfolding es(1) by (simp add: cleanRooted_def)
qed

lemma cleanRooted_slash: "cleanRooted (CHR ''/'' # p) = cleanRooted p"
  by (simp add: cleanRooted_def)

end
