(* ===== verification/Hostnames.thy ===== *)
theory Hostnames
  imports Go_Text Store_Identity
begin

text \<open>
  Host names: the normalisation of the names workers are reached under, and the names the service
  generates from worker and organization names, \<open>service.go\<close>. The parameter \<open>hash\<close> is hex SHA-256
  (\<open>hashBytes\<close>), \<open>random\<close> the result of \<open>randomHostnameSuffix\<close>.
\<close>

section \<open>Normalisation\<close>

definition hostChar :: "char \<Rightarrow> bool" where
  "hostChar c = (inRange 97 122 c \<or> inRange 65 90 c \<or> inRange 48 57 c \<or> c = CHR ''-'')"

definition hostLabel :: "string \<Rightarrow> bool" where
  "hostLabel label = (label \<noteq> [] \<and> length label \<le> 63 \<and> hd label \<noteq> CHR ''-'' \<and> last label \<noteq> CHR ''-''
     \<and> list_all hostChar label)"

definition invalidHostname :: error where
  "invalidHostname = ErrText ''hostname must be a valid ASCII DNS name without a scheme, path, port, or wildcard''"

text \<open>\<open>net.ParseIP\<close> also accepts IPv6 addresses; these contain a colon, which no label allows, so
  they get the same error below.\<close>

definition normalizeHostname :: "string \<Rightarrow> string result" where
  "normalizeHostname hostname =
     (let h = trimSuffix (trimSpace hostname) ''.'' in
      if h = [] \<or> length h > 253 \<or> isIPv4 h then Inl invalidHostname
      else if list_all hostLabel (splitOn (CHR ''.'') h) then Inr (toLower h)
      else Inl invalidHostname)"

definition countByte :: "char \<Rightarrow> string \<Rightarrow> nat" where
  "countByte c s = length (filter (\<lambda>x. x = c) s)"

definition normalizeBaseHostname :: "string \<Rightarrow> string result" where
  "normalizeBaseHostname hostname0 =
     (let hostname = trimSpace hostname0; labels = splitOn (CHR ''.'') hostname;
          misplaced = ErrText ''base hostname wildcard must be in the first DNS label'' in
      if hostname = [] \<or> CHR '':'' \<in> set hostname \<or> isIPv4 hostname
      then Inl (ErrText ''hostname must be a DNS name without a port'')
      else if CHR ''*'' \<notin> set hostname then normalizeHostname hostname
      else if countByte (CHR ''*'') hostname \<noteq> 1
      then Inl (ErrText ''base hostname may contain at most one wildcard placeholder'')
      else if labels = [] \<or> CHR ''*'' \<notin> set (hd labels) then Inl misplaced
      else if list_ex (\<lambda>label. CHR ''*'' \<in> set label) (tl labels) then Inl misplaced
      else rbind (normalizeHostname (replaceFirst (CHR ''*'') ''worker'' hostname))
             (\<lambda>_. Inr (toLower (trimSuffix hostname ''.''))))"

section \<open>Generated names\<close>

definition slugChar :: "char \<Rightarrow> bool" where
  "slugChar c = (inRange 97 122 c \<or> inRange 48 57 c)"

fun slugLoop :: "string \<Rightarrow> bool \<Rightarrow> string \<Rightarrow> string" where
  "slugLoop result dash [] = result"
| "slugLoop result dash (c # s) =
     (if slugChar c then slugLoop (result @ [c]) False s
      else if result \<noteq> [] \<and> \<not> dash then slugLoop (result @ ''-'') True s
      else slugLoop result dash s)"

definition slug :: "string \<Rightarrow> string" where
  "slug v = trimLeftByte (CHR ''-'') (trimRightByte (CHR ''-'') (slugLoop [] False (toLower v)))"

definition organizationHostnameLabel :: "string \<Rightarrow> Store \<Rightarrow> string result" where
  "organizationHostnameLabel orgID s =
     (if trimSpace orgID = [] then Inr []
      else rbind (GetOrganization (trimSpace orgID) s) (\<lambda>org. Inr (slug (Org_Name org))))"

definition nameBudget :: "string \<Rightarrow> int" where
  "nameBudget base =
     (if CHR ''*'' \<in> set base
      then min (63 - int (length (hd (splitOn (CHR ''.'') base))) + 1) (253 - int (length base) + 1)
      else min 63 (253 - int (length base) - 1))"

definition shorten :: "(string \<Rightarrow> string) \<Rightarrow> int \<Rightarrow> string \<Rightarrow> string" where
  "shorten hash budget generated =
     trimLeftByte (CHR ''-'') (trimRightByte (CHR ''-'') (take (nat (budget - 9)) generated)
       @ ''-'' @ take 8 (hash generated))"

definition generatedHostname :: "(string \<Rightarrow> string) \<Rightarrow> string \<Rightarrow> string \<Rightarrow> string \<Rightarrow> nat \<Rightarrow> string result
    \<Rightarrow> Store \<Rightarrow> string result" where
  "generatedHostname hash base name orgID attempt random s =
     (let prefix = (if slug name = [] then ''worker'' else slug name); budget = nameBudget base in
      rbind (organizationHostnameLabel orgID s) (\<lambda>org.
      rbind (if attempt > 0 then rbind random (\<lambda>x. Inr [prefix, x]) else Inr [prefix]) (\<lambda>labels.
        let generated = joinWith ''-'' (if org \<noteq> [] then labels @ [org] else labels) in
        if int (length generated) > budget \<and> budget < 9
        then Inl (ErrText ''base hostname leaves insufficient room for a generated Worker name'')
        else let generated1 = (if int (length generated) > budget then shorten hash budget generated else generated) in
          if CHR ''*'' \<in> set base then normalizeHostname (replaceFirst (CHR ''*'') generated1 base)
          else normalizeHostname (generated1 @ ''.'' @ base))))"

section \<open>ASCII text\<close>

lemma hostChar_chars: "hostChar c \<Longrightarrow> ord c < 128 \<and> 32 < ord c \<and> c \<noteq> CHR ''.'' \<and> c \<noteq> CHR ''*'' \<and> c \<noteq> CHR '':''"
  by (auto simp: hostChar_def inRange_def)

lemma slugChar_host: "slugChar c \<Longrightarrow> hostChar c \<and> c \<noteq> CHR ''-''"
  by (auto simp: hostChar_def slugChar_def inRange_def)

lemma toLower_ascii: "\<forall>c \<in> set s. ord c < (128 :: nat) \<Longrightarrow> toLower s = map lowerByte s"
  by (induction s rule: toLower.induct) auto

lemma trimLeft_none: "leadingSpace (filter (\<lambda>w. w \<noteq> []) ws) s = None \<Longrightarrow> trimLeft ws s = s"
  by (subst trimLeft.simps) simp

lemma spaces_ends: "list_all (\<lambda>w. w \<noteq> [] \<and> (ord (hd w) \<le> (32::nat) \<or> 128 \<le> ord (hd w)) \<and> (ord (last w) \<le> (32::nat) \<or> 128 \<le> ord (last w))) spaces"
  by code_simp

lemma trimSpace_ascii:
  assumes "\<forall>c \<in> set s. 32 < ord c \<and> ord c < (128 :: nat)"
  shows "trimSpace s = s"
proof -
  have none: "leadingSpace (filter (\<lambda>w. w \<noteq> []) ws) t = None"
    if "\<forall>w \<in> set ws. w \<noteq> [] \<longrightarrow> ord (hd w) \<le> (32::nat) \<or> 128 \<le> ord (hd w)" "\<forall>c \<in> set t. 32 < ord c \<and> ord c < (128 :: nat)" for ws t
  proof -
    have "\<not> prefix w t" if "w \<in> set ws" "w \<noteq> []" for w
    proof
      assume "prefix w t"
      then have "hd w \<in> set t" using that(2) by (cases w) (auto simp: prefix_def)
      then show False using that \<open>\<forall>w \<in> set ws. _ w\<close> \<open>\<forall>c \<in> set t. _ c\<close> by fastforce
    qed
    then show ?thesis by (auto simp: leadingSpace_def find_None_iff)
  qed
  have a: "\<forall>w \<in> set spaces. w \<noteq> [] \<longrightarrow> ord (hd w) \<le> (32::nat) \<or> 128 \<le> ord (hd w)"
    and b: "\<forall>w \<in> set (map rev spaces). w \<noteq> [] \<longrightarrow> ord (hd w) \<le> (32::nat) \<or> 128 \<le> ord (hd w)"
    using spaces_ends by (auto simp: list_all_iff hd_rev)
  show ?thesis
    unfolding trimSpace_def using none[OF a assms] none[OF b, of "rev s"] assms by (simp add: trimLeft_none)
qed

section \<open>Lower case\<close>

definition casePairs :: "(char \<times> char) list" where
  "casePairs = zip ''ABCDEFGHIJKLMNOPQRSTUVWXYZ'' ''abcdefghijklmnopqrstuvwxyz''"

lemma casePairs_facts: "list_all (\<lambda>(u, l). \<not> isDigit u \<and> \<not> isDigit l \<and> map_of casePairs l = None \<and> u \<notin> set ''-.*''
    \<and> l \<notin> set ''-.*'' \<and> hostChar l \<and> \<not> slugChar u) casePairs"
  by code_simp

lemma lowerByte_pairs: "lowerByte c = (case map_of casePairs c of Some d \<Rightarrow> d | None \<Rightarrow> c)"
  unfolding lowerByte_def casePairs_def ..

lemma lowerByte_cases: "lowerByte c = c \<or> (c, lowerByte c) \<in> set casePairs"
  by (auto simp: lowerByte_pairs dest: map_of_SomeD split: option.split)

lemma lowerByte_lower: "map_of casePairs l = None \<Longrightarrow> lowerByte l = l"
  by (simp add: lowerByte_pairs)

lemma lowerByte_facts:
  "isDigit (lowerByte c) = isDigit c \<and> (isDigit c \<longrightarrow> lowerByte c = c) \<and> lowerByte (lowerByte c) = lowerByte c
   \<and> (lowerByte c = CHR ''-'') = (c = CHR ''-'') \<and> (lowerByte c = CHR ''.'') = (c = CHR ''.'')
   \<and> (lowerByte c = CHR ''*'') = (c = CHR ''*'') \<and> (hostChar c \<longrightarrow> hostChar (lowerByte c))
   \<and> (slugChar c \<longrightarrow> lowerByte c = c)"
  using lowerByte_cases[of c]
proof
  assume "(c, lowerByte c) \<in> set casePairs"
  from bspec[OF casePairs_facts[unfolded list_all_iff] this] show ?thesis
    using lowerByte_lower[of "lowerByte c"] by auto
qed simp

lemma lowerByte_simps [simp]: "isDigit (lowerByte c) = isDigit c" "lowerByte (lowerByte c) = lowerByte c"
    "(lowerByte c = CHR ''-'') = (c = CHR ''-'')" "(lowerByte c = CHR ''.'') = (c = CHR ''.'')"
    "(lowerByte c = CHR ''*'') = (c = CHR ''*'')" "hostChar c \<Longrightarrow> hostChar (lowerByte c)"
    "isDigit c \<Longrightarrow> lowerByte c = c" "slugChar c \<Longrightarrow> lowerByte c = c"
  using lowerByte_facts by blast+

lemma hostLabel_lower: "hostLabel l \<Longrightarrow> hostLabel (map lowerByte l)"
  by (auto simp: hostLabel_def hd_map last_map list_all_iff)

lemma splitOn_lower: "splitOn (CHR ''.'') (map lowerByte s) = map (map lowerByte) (splitOn (CHR ''.'') s)"
  by (rule splitOn_map) auto

lemma ipv4Field_lower [simp]: "ipv4Field (map lowerByte f) = ipv4Field f"
proof (cases "list_all isDigit f")
  case True
  then have "map lowerByte f = f" by (auto simp: list_all_iff intro: map_idI)
  then show ?thesis by simp
next
  case False
  then show ?thesis by (auto simp: ipv4Field_def list_all_iff)
qed

lemma isIPv4_lower [simp]: "isIPv4 (map lowerByte s) = isIPv4 s"
  by (simp add: isIPv4_def splitOn_lower list_all_iff Let_def)

section \<open>What a normalized name is\<close>

definition dnsName :: "string \<Rightarrow> bool" where
  "dnsName h \<longleftrightarrow> h \<noteq> [] \<and> length h \<le> 253 \<and> \<not> isIPv4 h \<and> list_all hostLabel (splitOn (CHR ''.'') h)"

lemma dnsName_chars: "dnsName h \<Longrightarrow> c \<in> set h \<Longrightarrow> 32 < ord c \<and> ord c < (128 :: nat)"
proof -
  assume h: "dnsName h" and c: "c \<in> set h"
  have "set h \<subseteq> insert (CHR ''.'') (\<Union> (set ` set (splitOn (CHR ''.'') h)))"
  proof -
    have "set (joinWith [CHR ''.''] fs) \<subseteq> insert (CHR ''.'') (\<Union> (set ` set fs))" for fs
      by (induction fs) (auto simp: joinWith_Cons)
    from this[of "splitOn (CHR ''.'') h"] show ?thesis by (simp add: join_split)
  qed
  then have "c = CHR ''.'' \<or> hostChar c"
    using h c by (fastforce simp: dnsName_def hostLabel_def list_all_iff)
  then show ?thesis using hostChar_chars by auto
qed

lemma dnsName_dot: "dnsName h \<Longrightarrow> \<not> suffix ''.'' h"
proof
  assume h: "dnsName h" "suffix ''.'' h"
  then obtain g where g: "h = g @ ''.''" by (auto simp: suffix_def)
  have "splitOn (CHR ''.'') (g @ [CHR ''.'']) = splitOn (CHR ''.'') g @ [[]]"
    by (rule splitOn_snoc)
  then show False using h(1) unfolding g dnsName_def by (auto simp: hostLabel_def list_all_iff)
qed

lemma dnsName_lower: "dnsName h \<Longrightarrow> dnsName (map lowerByte h)"
  unfolding dnsName_def splitOn_lower by (auto simp: list_all_iff hostLabel_lower)

text \<open>A name that is one already is only lowered.\<close>

lemma normalize_dnsName: "dnsName h \<Longrightarrow> normalizeHostname h = Inr (map lowerByte h)"
proof -
  assume h: "dnsName h"
  have "trimSpace h = h" using dnsName_chars[OF h] by (auto intro: trimSpace_ascii)
  moreover have "trimSuffix h ''.'' = h" using dnsName_dot[OF h] by (simp add: trimSuffix_def)
  moreover have "toLower h = map lowerByte h" using dnsName_chars[OF h] by (auto intro: toLower_ascii)
  ultimately show ?thesis using h by (auto simp: normalizeHostname_def dnsName_def Let_def)
qed

lemma normalize_Inr: "normalizeHostname h = Inr r \<Longrightarrow>
    dnsName (trimSuffix (trimSpace h) ''.'') \<and> r = map lowerByte (trimSuffix (trimSpace h) ''.'')"
proof -
  assume r: "normalizeHostname h = Inr r"
  then have d: "dnsName (trimSuffix (trimSpace h) ''.'')" "r = toLower (trimSuffix (trimSpace h) ''.'')"
    by (auto simp: normalizeHostname_def dnsName_def Let_def split: if_splits)
  then show ?thesis using toLower_ascii dnsName_chars[OF d(1)] by auto
qed

section \<open>Generated labels\<close>

text \<open>Non-empty, of lower case letters, digits and dashes, with no dash at either end.\<close>

definition nameText :: "string \<Rightarrow> bool" where
  "nameText t \<longleftrightarrow> t \<noteq> [] \<and> slugChar (hd t) \<and> slugChar (last t) \<and> list_all (\<lambda>c. slugChar c \<or> c = CHR ''-'') t"

lemma not_slugDash [simp]: "\<not> slugChar (CHR ''-'')"
  by code_simp

lemma nameText_label: "nameText t \<Longrightarrow> length t \<le> 63 \<Longrightarrow> hostLabel t"
  using slugChar_host by (fastforce simp: nameText_def hostLabel_def list_all_iff hostChar_def)

lemma nameText_chars: "nameText t \<Longrightarrow> c \<in> set t \<Longrightarrow> hostChar c"
  using slugChar_host by (fastforce simp: nameText_def list_all_iff hostChar_def)

lemma nameText_join: "fs \<noteq> [] \<Longrightarrow> \<forall>f \<in> set fs. nameText f \<Longrightarrow> nameText (joinWith ''-'' fs)"
proof (induction fs)
  case (Cons f fs)
  show ?case
  proof (cases fs)
    case (Cons g gs)
    then have "nameText (joinWith ''-'' fs)" "nameText f" using Cons.IH Cons.prems by simp_all
    then show ?thesis using Cons by (auto simp: nameText_def list_all_iff)
  qed (use Cons in simp)
qed simp

definition slugged :: "string \<Rightarrow> bool" where
  "slugged t \<longleftrightarrow> list_all (\<lambda>c. slugChar c \<or> c = CHR ''-'') t \<and> (t \<noteq> [] \<longrightarrow> slugChar (hd t))"

lemma slugLoop_slugged: "slugged t \<Longrightarrow> slugged (slugLoop t dash s)"
proof (induction t dash s rule: slugLoop.induct)
  case (2 result dash c s)
  then show ?case by (auto simp: slugged_def hd_append)
qed simp

lemma dropWhile_last: "xs \<noteq> [] \<Longrightarrow> \<not> P (last xs) \<Longrightarrow> dropWhile P xs \<noteq> [] \<and> last (dropWhile P xs) = last xs"
  by (induction xs) (auto split: if_splits)

lemma trimRight_slugged:
  assumes "slugged t" "t \<noteq> []" shows "nameText (trimRightByte (CHR ''-'') t)"
proof -
  let ?u = "dropWhile (\<lambda>x. x = CHR ''-'') (rev t)"
  have h: "slugChar (hd t)" "hd t \<noteq> CHR ''-''" using assms by (auto simp: slugged_def)
  have u: "?u \<noteq> []" "last ?u = hd t"
    using dropWhile_last[of "rev t" "\<lambda>x. x = CHR ''-''"] assms(2) h(2) by (simp_all add: last_rev)
  have "hd ?u \<noteq> CHR ''-''" using hd_dropWhile[OF u(1)] by simp
  moreover have "set ?u \<subseteq> set t" using set_dropWhileD[of _ "\<lambda>x. x = CHR ''-''" "rev t"] by auto
  moreover have "hd ?u \<in> set ?u" using u(1) by (rule hd_in_set)
  ultimately have "slugChar (hd ?u)" "list_all (\<lambda>c. slugChar c \<or> c = CHR ''-'') ?u"
    using assms(1) by (auto simp: slugged_def list_all_iff)
  then show ?thesis
    using u h(1) by (auto simp: nameText_def trimRightByte_def hd_rev last_rev slugged_def list_all_iff)
qed

lemma trimLeft_nameText: "nameText t \<Longrightarrow> trimLeftByte (CHR ''-'') t = t"
  by (cases t) (auto simp: nameText_def trimLeftByte_def)

lemma slug_nameText: "slug v = [] \<or> nameText (slug v)"
proof (cases "slugLoop [] False (toLower v) = []")
  case False
  have "slugged (slugLoop [] False (toLower v))" by (rule slugLoop_slugged) (simp add: slugged_def)
  from trimRight_slugged[OF this False] show ?thesis
    by (simp add: slug_def trimLeft_nameText)
qed (simp add: slug_def trimLeftByte_def trimRightByte_def)

text \<open>Shortening keeps a readable prefix and a digest, within the budget.\<close>

lemma trimRight_length: "length (trimRightByte c t) \<le> length t"
  using length_dropWhile_le[of "\<lambda>x. x = c" "rev t"] by (simp add: trimRightByte_def)

lemma shorten_nameText:
  assumes "nameText g" "9 \<le> budget" "8 \<le> length (hash g)" "list_all slugChar (hash g)"
  shows "nameText (shorten hash budget g) \<and> int (length (shorten hash budget g)) \<le> budget"
proof -
  let ?t = "take (nat (budget - 9)) g" and ?d = "take 8 (hash g)"
  have d: "nameText ?d" "length ?d = 8"
  proof -
    have "?d \<noteq> []" "list_all slugChar ?d" using assms(3,4) by (auto simp: list_all_iff dest: in_set_takeD)
    then show "nameText ?d" using hd_in_set[of ?d] last_in_set[of ?d] unfolding nameText_def list_all_iff by blast
    show "length ?d = 8" using assms(3) by simp
  qed
  show ?thesis
  proof (cases "?t = []")
    case True
    have "shorten hash budget g = trimLeftByte (CHR ''-'') (CHR ''-'' # ?d)"
      unfolding shorten_def True by (simp add: trimRightByte_def)
    also have "\<dots> = ?d" using trimLeft_nameText[OF d(1)] by (simp add: trimLeftByte_def)
    finally have "shorten hash budget g = ?d" .
    then show ?thesis using d assms(2) by simp
  next
    case False
    have "slugged ?t" using assms(1) False by (auto simp: slugged_def nameText_def list_all_iff dest: in_set_takeD)
    then have t: "nameText (trimRightByte (CHR ''-'') ?t)" using trimRight_slugged False by blast
    then have "nameText (joinWith ''-'' [trimRightByte (CHR ''-'') ?t, ?d])" using d(1) by (intro nameText_join) auto
    then have n: "nameText (trimRightByte (CHR ''-'') ?t @ ''-'' @ ?d)" by simp
    then have s: "shorten hash budget g = trimRightByte (CHR ''-'') ?t @ ''-'' @ ?d"
      unfolding shorten_def by (rule trimLeft_nameText)
    have "length (trimRightByte (CHR ''-'') ?t) \<le> nat (budget - 9)"
      using trimRight_length[of "CHR ''-''" ?t] by simp
    then show ?thesis unfolding s using n d(2) assms(2) by auto
  qed
qed

section \<open>Generated host names\<close>

text \<open>A base name that can take a label: a name, or a name with one placeholder in its first label.\<close>

definition baseName :: "string \<Rightarrow> bool" where
  "baseName base \<longleftrightarrow> (if CHR ''*'' \<in> set base
     then (\<exists>pre post rest. base = joinWith ''.'' ((pre @ CHR ''*'' # post) # rest) \<and> list_all hostChar (pre @ post)
        \<and> (pre \<noteq> [] \<longrightarrow> hd pre \<noteq> CHR ''-'') \<and> (post \<noteq> [] \<longrightarrow> last post \<noteq> CHR ''-'') \<and> list_all hostLabel rest)
     else dnsName base)"

lemma no_dot_host: "list_all hostChar l \<Longrightarrow> CHR ''.'' \<notin> set l \<and> CHR ''*'' \<notin> set l"
  using hostChar_chars by (auto simp: list_all_iff)

lemma hostLabels_split: "fs \<noteq> [] \<Longrightarrow> list_all hostLabel fs \<Longrightarrow> splitOn (CHR ''.'') (joinWith ''.'' fs) = fs"
  by (rule split_join) (auto simp: list_all_iff hostLabel_def no_dot_host)

lemma replaceFirst_at: "old \<notin> set pre \<Longrightarrow> replaceFirst old new (pre @ old # post) = pre @ new @ post"
  by (induction pre) auto

lemma not_ipv4_last: "\<exists>c \<in> set (last (splitOn (CHR ''.'') h)). \<not> isDigit c \<Longrightarrow> \<not> isIPv4 h"
  by (auto simp: isIPv4_def Let_def list_all_iff ipv4Field_def dest!: last_in_set[OF splitOn_not_Nil, THEN bspec[rotated]])

lemma length_joinWith: "length (joinWith ''.'' (f # fs)) = length f + length (joinWith ''.'' ([] # fs))"
  by (simp add: joinWith_Cons)

theorem generated_dnsName:
  assumes base: "baseName base" "\<exists>c \<in> set (last (splitOn (CHR ''.'') base)). \<not> isDigit c"
    and g: "nameText g" "int (length g) \<le> nameBudget base"
  shows "dnsName (if CHR ''*'' \<in> set base then replaceFirst (CHR ''*'') g base else g @ ''.'' @ base)"
proof (cases "CHR ''*'' \<in> set base")
  case False
  then have b: "dnsName base" using base(1) by (simp add: baseName_def)
  have len: "length g \<le> 63" "int (length g) + 1 + int (length base) \<le> 253"
    using g(2) False by (simp_all add: nameBudget_def)
  have "CHR ''.'' \<notin> set g" using nameText_chars[OF g(1)] hostChar_chars by blast
  then have sp: "splitOn (CHR ''.'') (g @ ''.'' @ base) = g # splitOn (CHR ''.'') base"
    by (simp add: splitOn_append)
  have "last (splitOn (CHR ''.'') (g @ ''.'' @ base)) = last (splitOn (CHR ''.'') base)" unfolding sp by simp
  then have "\<not> isIPv4 (g @ ''.'' @ base)" using base(2) not_ipv4_last by metis
  then show ?thesis
    using False b len nameText_label[OF g(1)] sp by (simp add: dnsName_def)
next
  case True
  then obtain pre post rest where b: "base = joinWith ''.'' ((pre @ CHR ''*'' # post) # rest)" "list_all hostChar (pre @ post)"
    "pre \<noteq> [] \<Longrightarrow> hd pre \<noteq> CHR ''-''" "post \<noteq> [] \<Longrightarrow> last post \<noteq> CHR ''-''" "list_all hostLabel rest"
    using base(1) unfolding baseName_def by auto
  have nodot: "CHR ''.'' \<notin> set (pre @ post)" "CHR ''*'' \<notin> set (pre @ post)" using no_dot_host[OF b(2)] by auto
  have sb: "splitOn (CHR ''.'') base = (pre @ CHR ''*'' # post) # rest"
    unfolding b(1) by (rule split_join) (use nodot b(5) no_dot_host in \<open>auto simp: list_all_iff hostLabel_def\<close>)
  have r: "replaceFirst (CHR ''*'') g base = joinWith ''.'' ((pre @ g @ post) # rest)"
    unfolding b(1) using nodot replaceFirst_at[of "CHR ''*''" pre g] by (cases rest) (simp_all add: joinWith_Cons)
  have lb: "length base = length pre + length post + 1 + length (joinWith ''.'' ([] # rest))"
    unfolding b(1) by (subst length_joinWith) simp
  have len: "int (length pre + length g + length post) \<le> 63" "int (length g) + int (length base) \<le> 254"
    using g(2) True sb by (simp_all add: nameBudget_def)
  have gx: "hd g \<noteq> CHR ''-''" "last g \<noteq> CHR ''-''" "g \<noteq> []" using g(1) by (auto simp: nameText_def)
  have "hostLabel (pre @ g @ post)"
    using len(1) b(2-4) gx nameText_chars[OF g(1)]
    by (auto simp: hostLabel_def hd_append last_append list_all_iff)
  then have labels: "list_all hostLabel ((pre @ g @ post) # rest)" using b(5) by simp
  have sr: "splitOn (CHR ''.'') (replaceFirst (CHR ''*'') g base) = (pre @ g @ post) # rest"
    unfolding r by (rule hostLabels_split[OF _ labels]) simp
  have "length (replaceFirst (CHR ''*'') g base) = length pre + length g + length post + length (joinWith ''.'' ([] # rest))"
    unfolding r by (subst length_joinWith) simp
  then have "length (replaceFirst (CHR ''*'') g base) \<le> 253" using len(2) lb by simp
  moreover have "\<not> isIPv4 (replaceFirst (CHR ''*'') g base)"
  proof (cases "rest = []")
    case True
    then show ?thesis by (simp add: isIPv4_def sr Let_def)
  next
    case False
    then show ?thesis using base(2) sb by (intro not_ipv4_last) (simp add: sr)
  qed
  moreover have "replaceFirst (CHR ''*'') g base \<noteq> []" using gx(3) unfolding r by (cases rest) simp_all
  ultimately show ?thesis using labels sr True by (simp add: dnsName_def)
qed

text \<open>The label the service puts in front of the base.\<close>

definition generatedLabel :: "string \<Rightarrow> string \<Rightarrow> nat \<Rightarrow> string \<Rightarrow> string" where
  "generatedLabel name org attempt x = joinWith ''-'' ([if slug name = [] then ''worker'' else slug name]
     @ (if attempt > 0 then [x] else []) @ (if org \<noteq> [] then [org] else []))"

lemma worker_nameText: "nameText ''worker''"
  by (simp add: nameText_def slugChar_def inRange_def)

lemma generatedLabel_nameText:
  assumes "nameText x" "org = [] \<or> nameText org" shows "nameText (generatedLabel name org attempt x)"
proof -
  define w where "w = (if slug name = [] then ''worker'' else slug name)"
  define fs where "fs = (if attempt > 0 then [x] else []) @ (if org \<noteq> [] then [org] else [])"
  have "nameText w" using slug_nameText[of name] worker_nameText by (auto simp: w_def)
  moreover have "nameText f" if "f \<in> set fs" for f using that assms unfolding fs_def by (cases "org = []"; cases "attempt > 0") (simp_all, blast)
  ultimately have "nameText (joinWith ''-'' ([w] @ fs))" using nameText_join[of "[w] @ fs"] by simp
  then show ?thesis unfolding generatedLabel_def w_def fs_def .
qed

lemma organizationHostnameLabel_text: "organizationHostnameLabel orgID s = Inr org \<Longrightarrow> org = [] \<or> nameText org"
  using slug_nameText by (auto simp: organizationHostnameLabel_def rbind_Inr_iff split: if_splits)

lemma generatedHostname_eq:
  assumes "organizationHostnameLabel orgID s = Inr org" "9 \<le> nameBudget base"
  shows "generatedHostname hash base name orgID attempt (Inr x) s =
    (let g = generatedLabel name org attempt x;
         g1 = (if int (length g) > nameBudget base then shorten hash (nameBudget base) g else g)
     in normalizeHostname (if CHR ''*'' \<in> set base then replaceFirst (CHR ''*'') g1 base else g1 @ ''.'' @ base))"
proof -
  have label: "joinWith ''-'' (if org \<noteq> [] then (if attempt > 0 then [p, x] else [p]) @ [org] else (if attempt > 0 then [p, x] else [p]))
    = joinWith ''-'' ([p] @ (if attempt > 0 then [x] else []) @ (if org \<noteq> [] then [org] else []))" for p
    by simp
  show ?thesis
    unfolding generatedHostname_def generatedLabel_def using assms
    by (simp add: Let_def label[symmetric] split: if_splits)
qed

theorem generatedHostname_valid:
  assumes "baseName base" "\<exists>c \<in> set (last (splitOn (CHR ''.'') base)). \<not> isDigit c" "9 \<le> nameBudget base"
    and "organizationHostnameLabel orgID s = Inr org" "nameText x"
    and "\<And>g. 8 \<le> length (hash g) \<and> list_all slugChar (hash g)"
  shows "\<exists>h. generatedHostname hash base name orgID attempt (Inr x) s = Inr (map lowerByte h) \<and> dnsName h"
proof -
  let ?g = "generatedLabel name org attempt x"
  let ?g1 = "if int (length ?g) > nameBudget base then shorten hash (nameBudget base) ?g else ?g"
  have g: "nameText ?g" using generatedLabel_nameText[OF assms(5)] organizationHostnameLabel_text[OF assms(4)] by blast
  have "nameText ?g1 \<and> int (length ?g1) \<le> nameBudget base"
    using shorten_nameText[of ?g "nameBudget base" hash] assms(3,6) g by simp
  then have "dnsName (if CHR ''*'' \<in> set base then replaceFirst (CHR ''*'') ?g1 base else ?g1 @ ''.'' @ base)"
    using generated_dnsName[OF assms(1,2)] by blast
  then show ?thesis
    unfolding generatedHostname_eq[OF assms(4,3)] Let_def using normalize_dnsName by blast
qed

section \<open>Base names\<close>

lemma lowerByte_marks [simp]: "lowerByte (CHR ''*'') = CHR ''*''" "lowerByte (CHR ''.'') = CHR ''.''"
  by simp_all

definition dropEmptyLast :: "string list \<Rightarrow> string list" where
  "dropEmptyLast ls = (if ls \<noteq> [] \<and> last ls = [] then butlast ls else ls)"

lemma joinWith_snoc: "xs \<noteq> [] \<Longrightarrow> joinWith sep (xs @ [x]) = joinWith sep xs @ sep @ x"
  by (induction xs) (auto simp: joinWith_Cons)

lemma splitOn_trimSuffix:
  assumes "splitOn (CHR ''.'') s = l # ls"
  shows "trimSuffix s ''.'' = joinWith ''.'' (l # dropEmptyLast ls)"
proof (cases "suffix ''.'' s")
  case True
  then obtain t where t: "s = t @ ''.''" by (auto simp: suffix_def)
  then have "splitOn (CHR ''.'') t @ [[]] = l # ls" using assms splitOn_snoc[of "CHR ''.''" t] by simp
  then obtain ms where "splitOn (CHR ''.'') t = l # ms" "ls = ms @ [[]]"
    by (cases "splitOn (CHR ''.'') t") auto
  then show ?thesis using t join_split[of "CHR ''.''" t] by (simp add: dropEmptyLast_def)
next
  case False
  have "\<not> (ls \<noteq> [] \<and> last ls = [])"
  proof
    assume e: "ls \<noteq> [] \<and> last ls = []"
    then have "l # ls = (l # butlast ls) @ [[]]" using append_butlast_last_id[of ls] by simp
    then have "s = joinWith ''.'' (l # butlast ls) @ ''.''"
      using join_split[of "CHR ''.''" s] joinWith_snoc[of "l # butlast ls" "''.''" "[]"] unfolding assms by simp
    then show False using False by (auto simp: suffix_def)
  qed
  then show ?thesis using False join_split[of "CHR ''.''" s] unfolding assms by (auto simp: trimSuffix_def dropEmptyLast_def)
qed

lemma map_joinWith: "map h (joinWith sep fs) = joinWith (map h sep) (map (map h) fs)"
  by (induction fs) (auto simp: joinWith_Cons)

lemma count_one: "countByte c (pre @ c # post) = 1 \<Longrightarrow> c \<notin> set post"
  by (simp add: countByte_def filter_empty_conv) blast

lemma ascii_joinWith: "(\<forall>c \<in> set (joinWith [d] fs). P c) \<longleftrightarrow> (\<forall>f \<in> set fs. \<forall>c \<in> set f. P c) \<and> (1 < length fs \<longrightarrow> P d)"
  by (induction fs) (auto simp: joinWith_Cons)

theorem normalizeBase_baseName:
  assumes "normalizeBaseHostname b = Inr base" "\<forall>c \<in> set b. 32 < ord c \<and> ord c < (128 :: nat)"
  shows "baseName base"
proof -
  have ts: "trimSpace b = b" using assms(2) by (rule trimSpace_ascii)
  show ?thesis
  proof (cases "CHR ''*'' \<in> set b")
    case False
    then have "normalizeHostname b = Inr base"
      using assms(1) ts by (simp add: normalizeBaseHostname_def Let_def split: if_splits)
    then have d: "dnsName base" using normalize_Inr dnsName_lower by blast
    have "CHR ''*'' \<notin> set base"
    proof
      assume "CHR ''*'' \<in> set base"
      then obtain f where f: "f \<in> set (splitOn (CHR ''.'') base)" "CHR ''*'' \<in> set f"
        using join_split[of "CHR ''.''" base] ascii_joinWith[of "CHR ''.''" "splitOn (CHR ''.'') base" "\<lambda>c. c \<noteq> CHR ''*''"] by auto
      then show False using d no_dot_host[of f] by (auto simp: dnsName_def hostLabel_def list_all_iff)
    qed
    then show ?thesis using d by (simp add: baseName_def)
  next
    case True
    obtain l ls where ls: "splitOn (CHR ''.'') b = l # ls" by (cases "splitOn (CHR ''.'') b") auto
    have n: "countByte (CHR ''*'') b = 1" "CHR ''*'' \<in> set l"
      "\<exists>w. normalizeHostname (replaceFirst (CHR ''*'') ''worker'' b) = Inr w" "base = toLower (trimSuffix b ''.'')"
      using assms(1) ts True ls
      by (auto simp: normalizeBaseHostname_def Let_def rbind_Inr_iff split: if_splits)
    obtain pre post where l: "l = pre @ CHR ''*'' # post" "CHR ''*'' \<notin> set pre" using n(2) by (meson split_list_first)
    have b: "b = joinWith ''.'' (l # ls)" using join_split[of "CHR ''.''" b] ls by simp
    have nodot: "CHR ''.'' \<notin> set f" if "f \<in> set (l # ls)" for f
      using splitOn_fields[of f "CHR ''.''" b] that ls by simp
    have nodot0: "CHR ''.'' \<notin> set pre" "CHR ''.'' \<notin> set post" using nodot[of l] l(1) by simp_all
    let ?R = "joinWith ''.'' ((pre @ ''worker'' @ post) # ls)"
    have R: "replaceFirst (CHR ''*'') ''worker'' b = ?R"
      unfolding b l(1) using l(2) replaceFirst_at[of "CHR ''*''" pre "''worker''"] by (cases ls) simp_all
    have chars: "\<forall>c \<in> set ?R. 32 < ord c \<and> ord c < (128 :: nat)"
    proof -
      have w: "\<forall>c \<in> set ''worker''. 32 < ord c \<and> ord c < (128 :: nat)" by code_simp
      show ?thesis
        using assms(2) w unfolding b l(1) ascii_joinWith by (auto simp del: joinWith.simps)
    qed
    have sR: "splitOn (CHR ''.'') ?R = (pre @ ''worker'' @ post) # ls"
      by (rule split_join) (use nodot nodot0 in auto)
    have tR: "trimSuffix (trimSpace ?R) ''.'' = joinWith ''.'' ((pre @ ''worker'' @ post) # dropEmptyLast ls)"
      unfolding trimSpace_ascii[OF chars] by (rule splitOn_trimSuffix[OF sR])
    have nodot': "CHR ''.'' \<notin> set f" if "f \<in> set (dropEmptyLast ls)" for f
      using nodot[of f] that by (auto simp: dropEmptyLast_def split: if_splits dest: in_set_butlastD)
    have "dnsName (joinWith ''.'' ((pre @ ''worker'' @ post) # dropEmptyLast ls))"
      using n(3) normalize_Inr unfolding R tR[symmetric] by blast
    moreover have "splitOn (CHR ''.'') (joinWith ''.'' ((pre @ ''worker'' @ post) # dropEmptyLast ls)) = (pre @ ''worker'' @ post) # dropEmptyLast ls"
      by (rule split_join) (use nodot' nodot0 in auto)
    ultimately have lab: "hostLabel (pre @ ''worker'' @ post)" "list_all hostLabel (dropEmptyLast ls)"
      by (simp_all add: dnsName_def)
    have tb: "trimSuffix b ''.'' = joinWith ''.'' (l # dropEmptyLast ls)" by (rule splitOn_trimSuffix[OF ls])
    have "\<forall>c \<in> set (trimSuffix b ''.''). ord c < (128 :: nat)"
      using assms(2) by (auto simp: trimSuffix_def dest: in_set_takeD split: if_splits)
    then have base: "base = joinWith ''.'' ((map lowerByte pre @ CHR ''*'' # map lowerByte post) # map (map lowerByte) (dropEmptyLast ls))"
      unfolding n(4) by (subst toLower_ascii) (auto simp: tb map_joinWith l(1) simp del: joinWith.simps)
    have "list_all hostChar (map lowerByte pre @ map lowerByte post)" using lab(1) by (auto simp: hostLabel_def list_all_iff)
    moreover have "pre \<noteq> [] \<Longrightarrow> hd pre \<noteq> CHR ''-''" "post \<noteq> [] \<Longrightarrow> last post \<noteq> CHR ''-''" using lab(1) by (auto simp: hostLabel_def)
    moreover have "list_all hostLabel (map (map lowerByte) (dropEmptyLast ls))" using lab(2) hostLabel_lower by (auto simp: list_all_iff)
    moreover have "CHR ''*'' \<in> set base" unfolding base by (simp add: joinWith_Cons)
    ultimately have "base = joinWith ''.'' ((map lowerByte pre @ CHR ''*'' # map lowerByte post) # map (map lowerByte) (dropEmptyLast ls))
        \<and> list_all hostChar (map lowerByte pre @ map lowerByte post)
        \<and> (map lowerByte pre \<noteq> [] \<longrightarrow> hd (map lowerByte pre) \<noteq> CHR ''-'')
        \<and> (map lowerByte post \<noteq> [] \<longrightarrow> last (map lowerByte post) \<noteq> CHR ''-'')
        \<and> list_all hostLabel (map (map lowerByte) (dropEmptyLast ls)) \<and> CHR ''*'' \<in> set base"
      using base by (simp add: hd_map last_map del: joinWith.simps)
    then show ?thesis unfolding baseName_def by (metis (no_types, lifting))
  qed
qed

section \<open>The property\<close>

text \<open>C38: For every configured base name (of printable ASCII, whose last label is not a number, with
  room for nine characters) the service generates a host name that is a DNS name in normal form,
  for every worker name, organization name and random suffix, shortening it when it is too long. (The lookup of the organization and the draw of the random suffix
  succeed.)\<close>

theorem hostname_generated:
  assumes "normalizeBaseHostname b = Inr base" "\<forall>c \<in> set b. 32 < ord c \<and> ord c < (128 :: nat)"
    and "\<exists>c \<in> set (last (splitOn (CHR ''.'') base)). \<not> isDigit c" "9 \<le> nameBudget base"
    and "organizationHostnameLabel orgID s = Inr org" "nameText x"
    and "\<And>g. 8 \<le> length (hash g) \<and> list_all slugChar (hash g)"
  shows "\<exists>h. generatedHostname hash base name orgID attempt (Inr x) s = Inr h \<and> dnsName h \<and> normalizeHostname h = Inr h"
proof -
  obtain h where h: "generatedHostname hash base name orgID attempt (Inr x) s = Inr (map lowerByte h)" "dnsName h"
    using generatedHostname_valid[OF normalizeBase_baseName[OF assms(1,2)] assms(3-6), of hash name attempt] assms(7) by blast
  moreover have "normalizeHostname (map lowerByte h) = Inr (map lowerByte h)"
    using normalize_dnsName[OF dnsName_lower[OF h(2)]] by (simp add: comp_def)
  ultimately show ?thesis using dnsName_lower by blast
qed

theorem hostname_generated_witness:
  "\<exists>h. generatedHostname (\<lambda>_. ''0123abcd'') ''*.example.com'' ''My Worker!'' [] 1 (Inr ''5f'') NewStore = Inr h \<and> dnsName h"
proof -
  have "normalizeBaseHostname ''*.example.com'' = Inr ''*.example.com''" by code_simp
  moreover have "list_all (\<lambda>c. 32 < ord c \<and> ord c < (128 :: nat)) ''*.example.com''" by code_simp
  moreover have "list_ex (\<lambda>c. \<not> isDigit c) (last (splitOn (CHR ''.'') ''*.example.com''))" by code_simp
  moreover have "9 \<le> nameBudget ''*.example.com''" by code_simp
  moreover have "organizationHostnameLabel [] NewStore = Inr []" by code_simp
  moreover have "nameText ''5f''" by (simp add: nameText_def slugChar_def inRange_def)
  moreover have "8 \<le> length ''0123abcd'' \<and> list_all slugChar ''0123abcd''" by code_simp
  ultimately show ?thesis
    using hostname_generated[of "''*.example.com''" "''*.example.com''" "[]" NewStore "[]" "''5f''" "\<lambda>_. ''0123abcd''" "''My Worker!''" 1]
    unfolding list_all_iff list_ex_iff by blast
qed

end
