(* ===== verification/Go_Time.thy ===== *)
theory Go_Time
  imports Go_Text
begin

text \<open>
  Calendar, decimal and 64-bit arithmetic of the standard library: the fields of a UTC
  \<open>time.Time\<close>, \<open>time.Parse\<close> of a date, \<open>strconv.Atoi\<close>, decimal printing, \<open>strings.Fields\<close> and
  the wrap-around of \<open>int\<close>.
\<close>

section \<open>Sixty-four bit integers\<close>

definition wrap64 :: "int \<Rightarrow> int" where
  "wrap64 v = (v + 2 ^ 63) mod 2 ^ 64 - 2 ^ 63"

lemma wrap64_small: "- (2 ^ 63) \<le> v \<Longrightarrow> v < 2 ^ 63 \<Longrightarrow> wrap64 v = v"
  by (simp add: wrap64_def)

section \<open>Decimal numbers\<close>

fun showNat :: "nat \<Rightarrow> string" where
  "showNat n = (if n < 10 then [char_of (48 + n)] else showNat (n div 10) @ [char_of (48 + n mod 10)])"

declare showNat.simps [simp del]

definition showInt :: "int \<Rightarrow> string" where
  "showInt i = (if i < 0 then ''-'' @ showNat (nat (- i)) else showNat (nat i))"

text \<open>\<open>strconv.Atoi\<close>: an optional sign, digits, and the range of \<open>int64\<close>.\<close>

definition atoi :: "string \<Rightarrow> int option" where
  "atoi s = (let (neg, d) = (case s of [] \<Rightarrow> (False, []) | c # cs \<Rightarrow>
                if c = CHR ''-'' then (True, cs) else if c = CHR ''+'' then (False, cs) else (False, s));
              v = (if neg then - int (decimal d) else int (decimal d))
      in if d = [] \<or> \<not> list_all isDigit d \<or> v < - (2 ^ 63) \<or> 2 ^ 63 \<le> v then None else Some v)"

lemma atoi_range: "atoi s = Some v \<Longrightarrow> - (2 ^ 63) \<le> v \<and> v < 2 ^ 63"
  by (auto simp: atoi_def Let_def split: if_splits prod.splits list.splits)

section \<open>Words\<close>

text \<open>\<open>strings.Fields\<close>: the maximal runs without white space. \<open>cur\<close> is the run being read, reversed.\<close>

fun fieldsLoop :: "nat \<Rightarrow> string \<Rightarrow> string \<Rightarrow> string list" where
  "fieldsLoop skip cur [] = (if cur = [] then [] else [rev cur])"
| "fieldsLoop skip cur (c # s) =
     (if skip > 0 then fieldsLoop (skip - 1) cur s
      else case leadingSpace spaces (c # s) of
          Some w \<Rightarrow> (if cur = [] then id else (#) (rev cur)) (fieldsLoop (length w - 1) [] s)
        | None \<Rightarrow> fieldsLoop 0 (c # cur) s)"

definition wordsOf :: "string \<Rightarrow> string list" where
  "wordsOf s = fieldsLoop 0 [] s"

section \<open>The calendar\<close>

record civil =
  civ_year :: int
  civ_month :: int
  civ_day :: int

definition isLeap :: "int \<Rightarrow> bool" where
  "isLeap y = (y mod 4 = 0 \<and> (y mod 100 \<noteq> 0 \<or> y mod 400 = 0))"

definition monthDays :: "int \<Rightarrow> int list" where
  "monthDays y = [31, if isLeap y then 29 else 28, 31, 30, 31, 30, 31, 31, 30, 31, 30, 31]"

fun monthOf :: "int \<Rightarrow> int \<Rightarrow> int list \<Rightarrow> int \<times> int" where
  "monthOf m d [] = (m, d)"
| "monthOf m d (n # ns) = (if d < n \<or> ns = [] then (m, d + 1) else monthOf (m + 1) (d - n) ns)"

text \<open>The date of a number of days after 1 January of year 1, in the Gregorian calendar.\<close>

definition civilOfDays :: "int \<Rightarrow> civil" where
  "civilOfDays days =
     (let n400 = days div 146097; d400 = days mod 146097;
          n100 = min 3 (d400 div 36524); d100 = d400 - n100 * 36524;
          n4 = d100 div 1461; d4 = d100 mod 1461;
          n1 = min 3 (d4 div 365); yday = d4 - n1 * 365;
          y = 400 * n400 + 100 * n100 + 4 * n4 + n1 + 1;
          (m, d) = monthOf 1 yday (monthDays y)
      in \<lparr>civ_year = y, civ_month = m, civ_day = d\<rparr>)"

definition daysOf :: "time \<Rightarrow> int" where "daysOf t = t div (86400 * second)"
definition minuteOf :: "time \<Rightarrow> int" where "minuteOf t = t div (60 * second) mod 60"
definition hourOf :: "time \<Rightarrow> int" where "hourOf t = t div (3600 * second) mod 24"
definition dayOf :: "time \<Rightarrow> int" where "dayOf t = civ_day (civilOfDays (daysOf t))"
definition monthNumber :: "time \<Rightarrow> int" where "monthNumber t = civ_month (civilOfDays (daysOf t))"

text \<open>1 January of year 1 is a Monday; Sunday is 0.\<close>

definition weekdayOf :: "time \<Rightarrow> int" where "weekdayOf t = (daysOf t + 1) mod 7"

text \<open>\<open>time.Parse("2006-01-02", s)\<close>, as year, month and day.\<close>

definition parseDate :: "string \<Rightarrow> (nat \<times> nat \<times> nat) option" where
  "parseDate s =
     (let y = take 4 s; m = take 2 (drop 5 s); d = drop 8 s in
      if length s = 10 \<and> s ! 4 = CHR ''-'' \<and> s ! 7 = CHR ''-''
         \<and> list_all isDigit (y @ m @ d) \<and> decimal m \<in> {1..12} \<and> 1 \<le> decimal d
         \<and> int (decimal d) \<le> monthDays (int (decimal y)) ! (decimal m - 1)
      then Some (decimal y, decimal m, decimal d) else None)"

definition dateAfter :: "nat \<times> nat \<times> nat \<Rightarrow> nat \<times> nat \<times> nat \<Rightarrow> bool" where
  "dateAfter a b = (case a of (y, m, d) \<Rightarrow> case b of (y', m', d') \<Rightarrow>
     y > y' \<or> y = y' \<and> (m > m' \<or> m = m' \<and> d > d'))"

text \<open>The fields stay in their ranges.\<close>

lemma time_fields: "0 \<le> minuteOf t \<and> minuteOf t \<le> 59" "0 \<le> hourOf t \<and> hourOf t \<le> 23" "0 \<le> weekdayOf t \<and> weekdayOf t \<le> 6"
  using pos_mod_bound[of 60 "t div (60 * second)"] pos_mod_bound[of 24 "t div (3600 * second)"] pos_mod_bound[of 7 "daysOf t + 1"]
  by (simp_all add: minuteOf_def hourOf_def weekdayOf_def)

lemma calendar_examples:
  "civilOfDays 0 = \<lparr>civ_year = 1, civ_month = 1, civ_day = 1\<rparr> \<and> civilOfDays 738944 = \<lparr>civ_year = 2024, civ_month = 2, civ_day = 29\<rparr>
   \<and> civilOfDays 730119 = \<lparr>civ_year = 2000, civ_month = 1, civ_day = 1\<rparr>"
  by code_simp

end
