(* ===== verification/Cron.thy ===== *)
theory Cron
  imports Go_Time Model_Core
begin

text \<open>
  Scheduled triggers: \<open>cron.go\<close>. A field is the map from the values it allows, as the source
  builds it. The loop that fills it adds the step to a 64-bit integer, so it is an optional
  value here: \<open>None\<close> would be a loop that does not end.
\<close>

section \<open>Schedules\<close>

record cronField =
  cf_values :: "(int, bool) gomap"
  cf_wildcard :: bool

definition cronField0 :: cronField where
  "cronField0 = \<lparr>cf_values = mempty, cf_wildcard = False\<rparr>"

record CronSchedule =
  cron_expression :: string
  cron_minutes :: cronField
  cron_hours :: cronField
  cron_days :: cronField
  cron_months :: cronField
  cron_weekdays :: cronField

definition cronMatches :: "cronField \<Rightarrow> int \<Rightarrow> bool" where
  "cronMatches f v = mget0 False (cf_values f) v"

definition Matches :: "CronSchedule \<Rightarrow> time \<Rightarrow> bool" where
  "Matches s t =
     (let dayMatches = cronMatches (cron_days s) (dayOf t);
          weekdayMatches = cronMatches (cron_weekdays s) (weekdayOf t);
          dayMatches1 = (if \<not> cf_wildcard (cron_days s) \<and> \<not> cf_wildcard (cron_weekdays s)
             then dayMatches \<or> weekdayMatches else dayMatches \<and> weekdayMatches)
      in cronMatches (cron_minutes s) (minuteOf t) \<and> cronMatches (cron_hours s) (hourOf t)
         \<and> cronMatches (cron_months s) (monthNumber t) \<and> dayMatches1)"

section \<open>Parsing a field\<close>

definition parseCronNumber :: "string \<Rightarrow> int \<Rightarrow> int \<Rightarrow> int result" where
  "parseCronNumber raw minValue maxValue =
     (case atoi raw of None \<Rightarrow> Inl (ErrText (quoted raw @ '' is not a number''))
      | Some v \<Rightarrow> if v < minValue \<or> v > maxValue
          then Inl (ErrText (showInt v @ '' is outside '' @ showInt minValue @ ''-'' @ showInt maxValue))
          else Inr v)"

text \<open>\<open>strings.Cut\<close> at one byte.\<close>

definition cutAt :: "char \<Rightarrow> string \<Rightarrow> (string \<times> string) option" where
  "cutAt c s = (if c \<in> set s then Some (takeWhile (\<lambda>x. x \<noteq> c) s, tl (dropWhile (\<lambda>x. x \<noteq> c) s)) else None)"

definition parseCronRange :: "string \<Rightarrow> int \<Rightarrow> int \<Rightarrow> (int \<times> int) result" where
  "parseCronRange raw minValue maxValue =
     (if raw = ''*'' then Inr (minValue, maxValue)
      else if list_ex (\<lambda>c. c \<in> set ''LW#?'') raw then Inl (ErrText ''advanced cron syntax is not supported in v1'')
      else case cutAt (CHR ''-'') raw of
          Some (left, right) \<Rightarrow>
            rbind (parseCronNumber left minValue maxValue) (\<lambda>start.
            rbind (parseCronNumber right minValue maxValue) (\<lambda>end'.
              if start > end' then Inl (ErrText (''range start '' @ showInt start @ '' is after end '' @ showInt end'))
              else Inr (start, end')))
        | None \<Rightarrow> rbind (parseCronNumber raw minValue maxValue) (\<lambda>v. Inr (v, v)))"

partial_function (option) cronSteps :: "int \<Rightarrow> int \<Rightarrow> int \<Rightarrow> (int, bool) gomap \<Rightarrow> (int, bool) gomap option" where
  "cronSteps v end' step m = (if v \<le> end' then cronSteps (wrap64 (v + step)) end' step (mput v True m) else Some m)"

declare cronSteps.simps [code]

definition parseCronStep :: "string \<Rightarrow> (int \<times> string) result" where
  "parseCronStep item =
     (case cutAt (CHR ''/'') item of
        None \<Rightarrow> Inr (1, item)
      | Some (before, after) \<Rightarrow>
          (case atoi after of
             Some step \<Rightarrow> if step \<le> 0 then Inl (ErrText (''step '' @ quoted after @ '' must be a positive number'')) else Inr (step, before)
           | None \<Rightarrow> Inl (ErrText (''step '' @ quoted after @ '' must be a positive number''))))"

fun parseCronItems :: "string list \<Rightarrow> int \<Rightarrow> int \<Rightarrow> (int, bool) gomap \<Rightarrow> (int, bool) gomap result option" where
  "parseCronItems [] minValue maxValue m = Some (Inr m)"
| "parseCronItems (item # items) minValue maxValue m =
     (if item = [] then Some (Inl (ErrText ''list contains an empty item''))
      else case parseCronStep item of
          Inl e \<Rightarrow> Some (Inl e)
        | Inr (step, base) \<Rightarrow>
            (case parseCronRange base minValue maxValue of
               Inl e \<Rightarrow> Some (Inl e)
             | Inr (start, end') \<Rightarrow>
                 (case cronSteps start end' step m of
                    None \<Rightarrow> None
                  | Some m' \<Rightarrow> parseCronItems items minValue maxValue m')))"

definition parseCronField :: "string \<Rightarrow> int \<Rightarrow> int \<Rightarrow> cronField result option" where
  "parseCronField raw minValue maxValue =
     (if raw = [] then Some (Inl (ErrText ''field is empty''))
      else case parseCronItems (splitOn (CHR '','') raw) minValue maxValue mempty of
          None \<Rightarrow> None
        | Some (Inl e) \<Rightarrow> Some (Inl e)
        | Some (Inr m) \<Rightarrow> if mlen m = 0 then Some (Inl (ErrText ''field matches no values''))
            else Some (Inr \<lparr>cf_values = m, cf_wildcard = (raw = ''*'')\<rparr>))"

section \<open>Parsing a schedule\<close>

text \<open>The fields of the source's table: name, least and greatest value.\<close>

definition cronFieldSpecs :: "(string \<times> int \<times> int) list" where
  "cronFieldSpecs = [(''minute'', 0, 59), (''hour'', 0, 23), (''day of month'', 1, 31), (''month'', 1, 12), (''day of week'', 0, 7)]"

definition foldSunday :: "nat \<Rightarrow> cronField \<Rightarrow> cronField" where
  "foldSunday i f = (if i = 4 \<and> mget0 False (cf_values f) 7
     then f\<lparr>cf_values := mdel 7 (mput 0 True (cf_values f))\<rparr> else f)"

fun parseCronFields :: "string \<Rightarrow> nat \<Rightarrow> (string \<times> int \<times> int) list \<Rightarrow> string list \<Rightarrow> cronField list result option" where
  "parseCronFields expression i ((name, lo, hi) # specs) (part # parts) =
     (case parseCronField part lo hi of
        None \<Rightarrow> None
      | Some (Inl e) \<Rightarrow> Some (Inl (ErrWrapped e (''invalid '' @ name @ '' in cron trigger '' @ quoted expression)))
      | Some (Inr f) \<Rightarrow>
          (case parseCronFields expression (Suc i) specs parts of
             None \<Rightarrow> None
           | Some (Inl e) \<Rightarrow> Some (Inl e)
           | Some (Inr fs) \<Rightarrow> Some (Inr (foldSunday i f # fs))))"
| "parseCronFields expression i specs parts = Some (Inr [])"

definition ParseCron :: "string \<Rightarrow> CronSchedule result option" where
  "ParseCron expression0 =
     (let expression = trimSpace expression0; parts = wordsOf expression in
      if length parts \<noteq> 5 then Some (Inl (ErrText (''cron trigger '' @ quoted expression @ '' must have five fields'')))
      else case parseCronFields expression 0 cronFieldSpecs parts of
          None \<Rightarrow> None
        | Some (Inl e) \<Rightarrow> Some (Inl e)
        | Some (Inr fs) \<Rightarrow> Some (Inr \<lparr>cron_expression = expression, cron_minutes = fs ! 0, cron_hours = fs ! 1,
             cron_days = fs ! 2, cron_months = fs ! 3, cron_weekdays = fs ! 4\<rparr>))"

definition Expression :: "CronSchedule \<Rightarrow> string" where
  "Expression s = cron_expression s"

fun normalizeCrons :: "string list \<Rightarrow> string list \<Rightarrow> string list result option" where
  "normalizeCrons seen [] = Some (Inr [])"
| "normalizeCrons seen (raw # raws) =
     (let cron = trimSpace raw in
      if cron = [] then Some (Inl (ErrText ''cron trigger must not be empty''))
      else if cron \<in> set seen then Some (Inl (ErrText (''duplicate cron trigger '' @ quoted cron)))
      else case ParseCron cron of
          None \<Rightarrow> None
        | Some (Inl e) \<Rightarrow> Some (Inl e)
        | Some (Inr _) \<Rightarrow> (case normalizeCrons (cron # seen) raws of
             None \<Rightarrow> None
           | Some (Inl e) \<Rightarrow> Some (Inl e)
           | Some (Inr cs) \<Rightarrow> Some (Inr (cron # cs))))"

definition NormalizeTriggers :: "TriggerConfig \<Rightarrow> TriggerConfig result option" where
  "NormalizeTriggers config =
     (if Trigger_Crons config = [] then Some (Inr TriggerConfig0)
      else case normalizeCrons [] (Trigger_Crons config) of
          None \<Rightarrow> None
        | Some (Inl e) \<Rightarrow> Some (Inl e)
        | Some (Inr cs) \<Rightarrow> Some (Inr \<lparr>Trigger_Crons = cs\<rparr>))"

section \<open>What an item means\<close>

text \<open>Without overflow the loop visits the values of an arithmetic progression.\<close>

definition progression :: "int \<Rightarrow> int \<Rightarrow> int \<Rightarrow> int \<Rightarrow> bool" where
  "progression start end' step v \<longleftrightarrow> start \<le> v \<and> v \<le> end' \<and> step dvd (v - start)"

lemma progression_head: "1 \<le> step \<Longrightarrow> v \<le> end' \<Longrightarrow>
    progression v end' step x \<longleftrightarrow> x = v \<or> progression (v + step) end' step x"
proof -
  assume s: "1 \<le> step" and v: "v \<le> end'"
  have "step dvd (x - v) \<longleftrightarrow> step dvd (x - (v + step))" using dvd_add_times_triv_right_iff[of step "x - v" "- 1"] by (simp add: algebra_simps)
  moreover have "x = v" if "step dvd (x - v)" "v \<le> x" "x < v + step"
    using that s zdvd_imp_le[of step "x - v"] by (cases "x = v") auto
  moreover have "step dvd (x - (v + step)) \<Longrightarrow> v \<le> x \<Longrightarrow> x \<noteq> v \<Longrightarrow> v + step \<le> x" using calculation by fastforce
  ultimately show ?thesis using s v unfolding progression_def by auto
qed

lemma cronSteps_result:
  assumes "1 \<le> step" "end' + step < 2 ^ 63" "- (2 ^ 62) \<le> v"
  shows "\<exists>m'. cronSteps v end' step m = Some m' \<and> (\<forall>x. mget0 False m' x = (progression v end' step x \<or> mget0 False m x))"
  using assms(3)
proof (induction "nat (end' + 1 - v)" arbitrary: v m rule: less_induct)
  case less
  show ?case
  proof (cases "v \<le> end'")
    case False
    then show ?thesis by (subst cronSteps.simps) (auto simp: progression_def)
  next
    case True
    have w: "wrap64 (v + step) = v + step" using True assms less.prems by (intro wrap64_small) auto
    obtain m' where m': "cronSteps (v + step) end' step (mput v True m) = Some m'"
      "\<forall>x. mget0 False m' x = (progression (v + step) end' step x \<or> mget0 False (mput v True m) x)"
      using less.hyps[of "v + step" "mput v True m"] less.prems True assms(1) by auto
    show ?thesis
      using m' True w progression_head[OF assms(1) True] by (subst cronSteps.simps) auto
  qed
qed

definition itemAllows :: "int \<Rightarrow> int \<Rightarrow> int \<Rightarrow> string \<Rightarrow> bool" where
  "itemAllows lo hi v item = (case parseCronStep item of Inl _ \<Rightarrow> False
     | Inr (step, base) \<Rightarrow> (case parseCronRange base lo hi of Inl _ \<Rightarrow> False
         | Inr (start, end') \<Rightarrow> progression start end' step v))"

definition fieldAllows :: "string \<Rightarrow> int \<Rightarrow> int \<Rightarrow> int \<Rightarrow> bool" where
  "fieldAllows raw lo hi v \<longleftrightarrow> (\<exists>item \<in> set (splitOn (CHR '','') raw). itemAllows lo hi v item)"

text \<open>A step that cannot overflow.\<close>

definition smallStep :: "string \<Rightarrow> bool" where
  "smallStep item = (case parseCronStep item of Inl _ \<Rightarrow> True | Inr (step, _) \<Rightarrow> step < 2 ^ 62)"

definition smallSteps :: "string \<Rightarrow> bool" where
  "smallSteps raw = list_all smallStep (splitOn (CHR '','') raw)"

lemma parseCronStep_positive: "parseCronStep item = Inr (step, base) \<Longrightarrow> 1 \<le> step"
  by (auto simp: parseCronStep_def split: option.splits if_splits prod.splits)

lemma parseCronNumber_range: "parseCronNumber raw lo hi = Inr v \<Longrightarrow> lo \<le> v \<and> v \<le> hi"
  by (auto simp: parseCronNumber_def split: option.splits if_splits)

lemma parseCronRange_range: "parseCronRange raw lo hi = Inr (a, b) \<Longrightarrow> lo \<le> hi \<Longrightarrow> lo \<le> a \<and> a \<le> b \<and> b \<le> hi"
  by (auto simp: parseCronRange_def rbind_Inr_iff split: if_splits option.splits dest!: parseCronNumber_range)

lemma parseCronItems_result:
  assumes "list_all smallStep items" "0 \<le> lo" "lo \<le> hi" "hi \<le> 59"
  shows "\<exists>r. parseCronItems items lo hi m = Some r \<and> (case r of Inl _ \<Rightarrow> True
    | Inr m' \<Rightarrow> \<forall>v. mget0 False m' v = ((\<exists>item \<in> set items. itemAllows lo hi v item) \<or> mget0 False m v))"
  using assms(1)
proof (induction items arbitrary: m)
  case (Cons item items)
  show ?case
  proof (cases "item = [] \<or> isl (parseCronStep item)")
    case True
    then show ?thesis by (cases "item = []"; cases "parseCronStep item") simp_all
  next
    case False
    then obtain step base where sb: "item \<noteq> []" "parseCronStep item = Inr (step, base)" by (cases "parseCronStep item") auto
    show ?thesis
    proof (cases "parseCronRange base lo hi")
      case (Inl e)
      then show ?thesis using sb by simp
    next
      case (Inr ab)
      obtain a b where ab: "ab = (a, b)" by (cases ab)
      have r: "lo \<le> a" "b \<le> hi" using parseCronRange_range[OF Inr[unfolded ab] assms(3)] by simp_all
      have "1 \<le> step" "step < 2 ^ 62"
        using parseCronStep_positive[OF sb(2)] Cons.prems sb(2) by (simp_all add: smallStep_def)
      then obtain m1 where m1: "cronSteps a b step m = Some m1" "\<forall>x. mget0 False m1 x = (progression a b step x \<or> mget0 False m x)"
        using cronSteps_result[of step b a m] r assms by auto
      obtain r where "parseCronItems items lo hi m1 = Some r" "case r of Inl _ \<Rightarrow> True
        | Inr m' \<Rightarrow> \<forall>v. mget0 False m' v = ((\<exists>item \<in> set items. itemAllows lo hi v item) \<or> mget0 False m1 v)"
        using Cons.IH[of m1] Cons.prems by auto
      have "itemAllows lo hi v item = progression a b step v" for v
        using sb Inr ab by (simp add: itemAllows_def)
      then show ?thesis
        using sb Inr ab m1 \<open>parseCronItems items lo hi m1 = Some r\<close> \<open>case r of Inl _ \<Rightarrow> True
        | Inr m' \<Rightarrow> \<forall>v. mget0 False m' v = ((\<exists>item \<in> set items. itemAllows lo hi v item) \<or> mget0 False m1 v)\<close>
        by (cases r) auto
    qed
  qed
qed simp

lemma parseCronField_result:
  assumes "smallSteps raw" "0 \<le> lo" "lo \<le> hi" "hi \<le> 59"
  shows "\<exists>r. parseCronField raw lo hi = Some r \<and> (case r of Inl _ \<Rightarrow> True
    | Inr f \<Rightarrow> (\<forall>v. cronMatches f v = fieldAllows raw lo hi v) \<and> cf_wildcard f = (raw = ''*''))"
proof (cases "raw = []")
  case False
  obtain r where "parseCronItems (splitOn (CHR '','') raw) lo hi mempty = Some r" "case r of Inl _ \<Rightarrow> True
    | Inr m' \<Rightarrow> \<forall>v. mget0 False m' v = ((\<exists>item \<in> set (splitOn (CHR '','') raw). itemAllows lo hi v item) \<or> mget0 False mempty v)"
    using parseCronItems_result[OF assms(1)[unfolded smallSteps_def] assms(2-4), of mempty] by blast
  then show ?thesis
    using False by (cases r) (auto simp: parseCronField_def cronMatches_def fieldAllows_def)
qed (simp add: parseCronField_def)

lemma foldSunday_matches: "v \<noteq> 7 \<Longrightarrow> cronMatches (foldSunday i f) v = (cronMatches f v \<or> i = 4 \<and> v = 0 \<and> cronMatches f 7)"
    "cf_wildcard (foldSunday i f) = cf_wildcard f"
  by (auto simp: foldSunday_def cronMatches_def)

text \<open>The five fields together.\<close>

fun fieldsSpec :: "nat \<Rightarrow> (string \<times> int \<times> int) list \<Rightarrow> string list \<Rightarrow> cronField list \<Rightarrow> bool" where
  "fieldsSpec i ((name, lo, hi) # specs) (part # parts) fs =
     (case fs of [] \<Rightarrow> False | f # fs' \<Rightarrow> cf_wildcard f = (part = ''*'')
        \<and> (\<forall>v. v \<noteq> 7 \<longrightarrow> cronMatches f v = (fieldAllows part lo hi v \<or> i = 4 \<and> v = 0 \<and> fieldAllows part lo hi 7))
        \<and> (i \<noteq> 4 \<longrightarrow> cronMatches f 7 = fieldAllows part lo hi 7)
        \<and> fieldsSpec (Suc i) specs parts fs')"
| "fieldsSpec i specs parts fs = True"

lemma parseCronFields_result:
  assumes "list_all smallSteps parts" "list_all (\<lambda>(_, lo, hi). 0 \<le> lo \<and> lo \<le> hi \<and> hi \<le> 59) specs"
  shows "\<exists>r. parseCronFields e i specs parts = Some r \<and> (case r of Inl _ \<Rightarrow> True | Inr fs \<Rightarrow> fieldsSpec i specs parts fs)"
  using assms
proof (induction e i specs parts rule: parseCronFields.induct)
  case (1 e i name lo hi specs part parts)
  obtain r where r: "parseCronField part lo hi = Some r" "case r of Inl _ \<Rightarrow> True
    | Inr f \<Rightarrow> (\<forall>v. cronMatches f v = fieldAllows part lo hi v) \<and> cf_wildcard f = (part = ''*'')"
    using parseCronField_result[of part lo hi] 1(2,3) by auto
  show ?case
  proof (cases r)
    case (Inl er)
    then show ?thesis using r by simp
  next
    case (Inr f)
    obtain q where q: "parseCronFields e (Suc i) specs parts = Some q" "case q of Inl _ \<Rightarrow> True | Inr fs \<Rightarrow> fieldsSpec (Suc i) specs parts fs"
      using 1(1)[OF r(1) Inr] 1(2,3) by auto
    have seven: "i \<noteq> 4 \<Longrightarrow> cronMatches (foldSunday i f) 7 = cronMatches f 7" by (simp add: foldSunday_def)
    show ?thesis
      using r q Inr seven by (cases q) (auto simp: foldSunday_matches)
  qed
qed simp_all

section \<open>The two day fields\<close>

definition dayRule :: "string \<Rightarrow> string \<Rightarrow> time \<Rightarrow> bool" where
  "dayRule days weekdays t =
     (let d = fieldAllows days 1 31 (dayOf t);
          w = fieldAllows weekdays 0 7 (weekdayOf t) \<or> weekdayOf t = 0 \<and> fieldAllows weekdays 0 7 7
      in if days \<noteq> ''*'' \<and> weekdays \<noteq> ''*'' then d \<or> w else d \<and> w)"


lemma cronSteps_returns:
  assumes "1 \<le> step" "step < 2 ^ 63" "0 \<le> v" "end' \<le> 59"
  shows "\<exists>m'. cronSteps v end' step m = Some m'"
proof (cases "step < 2 ^ 62")
  case True
  then show ?thesis using cronSteps_result[of step end' v m] assms by auto
next
  case False
  define d where "d = 2 ^ 63 - step"
  have d: "1 \<le> d" "d \<le> 2 ^ 62" "step = 2 ^ 63 - d" using assms False by (simp_all add: d_def)
  have "0 \<le> v \<or> d \<le> 59 \<and> - d \<le> v" using assms(3) by simp
  then show ?thesis
  proof (induction "nat (v + 2 ^ 63)" arbitrary: v m rule: less_induct)
    case less
    show ?case
    proof (cases "v \<le> end'")
      case False
      then show ?thesis by (subst cronSteps.simps) simp
    next
      case True
      show ?thesis
      proof (cases "v < d")
        case below: True
        have "wrap64 (v + step) = v + step" using below less.prems d True by (intro wrap64_small) auto
        moreover have "59 < v + step" using d less.prems by auto
        ultimately have "\<not> wrap64 (v + step) \<le> end'" using assms(4) by simp
        then show ?thesis using True by (subst cronSteps.simps, subst cronSteps.simps) simp
      next
        case above: False
        have one: "wrap64 (v + step) = v - d - 2 ^ 63" using above d True assms(4) by (simp add: wrap64_def)
        have two: "wrap64 (v - d - 2 ^ 63 + step) = v - 2 * d" using above d True assms(4) by (simp add: wrap64_def)
        have "v - d - 2 ^ 63 \<le> end'" using True d by simp
        moreover have "\<exists>m'. cronSteps (v - 2 * d) end' step (mput (v - d - 2 ^ 63) True (mput v True m)) = Some m'"
          using less.hyps[of "v - 2 * d"] above d less.prems True assms(4) by auto
        ultimately show ?thesis
          using True one two by (subst cronSteps.simps, subst cronSteps.simps) simp
      qed
    qed
  qed
qed


lemma parseCronStep_bound: "parseCronStep item = Inr (step, base) \<Longrightarrow> step < 2 ^ 63"
  by (auto simp: parseCronStep_def split: option.splits if_splits prod.splits dest!: atoi_range)

lemma parseCronItems_returns: "0 \<le> lo \<Longrightarrow> lo \<le> hi \<Longrightarrow> hi \<le> 59 \<Longrightarrow> \<exists>r. parseCronItems items lo hi m = Some r"
proof (induction items arbitrary: m)
  case (Cons item items)
  show ?case
  proof (cases "item \<noteq> [] \<and> (\<exists>step base a b. parseCronStep item = Inr (step, base) \<and> parseCronRange base lo hi = Inr (a, b))")
    case True
    then obtain step base a b where sb: "item \<noteq> []" "parseCronStep item = Inr (step, base)" "parseCronRange base lo hi = Inr (a, b)" by blast
    have r: "lo \<le> a" "b \<le> hi" using parseCronRange_range[OF sb(3) Cons.prems(2)] by simp_all
    obtain m1 where "cronSteps a b step m = Some m1"
      using cronSteps_returns[OF parseCronStep_positive[OF sb(2)] parseCronStep_bound[OF sb(2)], of a b m] r Cons.prems by auto
    then show ?thesis using sb Cons.IH[OF Cons.prems, of m1] by simp
  next
    case False
    then show ?thesis
      by (cases "item = []"; cases "parseCronStep item"; cases "parseCronRange (snd (projr (parseCronStep item))) lo hi") auto
  qed
qed simp

lemma parseCronField_returns: "0 \<le> lo \<Longrightarrow> lo \<le> hi \<Longrightarrow> hi \<le> 59 \<Longrightarrow> \<exists>r. parseCronField raw lo hi = Some r"
  using parseCronItems_returns[of lo hi "splitOn (CHR '','') raw" mempty]
  by (auto simp: parseCronField_def split: sum.split)

lemma parseCronFields_returns:
  "list_all (\<lambda>(_, lo, hi). 0 \<le> lo \<and> lo \<le> hi \<and> hi \<le> 59) specs \<Longrightarrow> \<exists>r. parseCronFields e i specs parts = Some r"
proof (induction e i specs parts rule: parseCronFields.induct)
  case (1 e i name lo hi specs part parts)
  obtain r where r: "parseCronField part lo hi = Some r" using parseCronField_returns[of lo hi part] 1(2) by auto
  show ?case
  proof (cases r)
    case (Inr f)
    obtain q where "parseCronFields e (Suc i) specs parts = Some q" using 1(1)[OF r Inr] 1(2) by auto
    then show ?thesis using r Inr by (cases q) simp_all
  qed (use r in simp)
qed simp_all

lemma ParseCron_some: "\<exists>r. ParseCron e = Some r"
proof -
  have "list_all (\<lambda>(_, lo, hi). 0 \<le> lo \<and> lo \<le> hi \<and> hi \<le> 59) cronFieldSpecs" by (simp add: cronFieldSpecs_def)
  from parseCronFields_returns[OF this] obtain r where "parseCronFields (trimSpace e) 0 cronFieldSpecs (wordsOf (trimSpace e)) = Some r"
    by blast
  then show ?thesis by (cases r) (simp_all add: ParseCron_def Let_def)
qed

lemma normalizeCrons_returns: "\<exists>r. normalizeCrons seen raws = Some r"
proof (induction raws arbitrary: seen)
  case (Cons raw raws)
  obtain r where "ParseCron (trimSpace raw) = Some r" using ParseCron_some by blast
  moreover obtain q where "normalizeCrons (trimSpace raw # seen) raws = Some q" using Cons.IH by blast
  ultimately show ?case by (cases r; cases q) (simp_all add: Let_def)
qed simp

text \<open>What a normalized list is.\<close>

lemma normalizeCrons_result:
  "normalizeCrons seen raws = Some (Inr cs) \<Longrightarrow> cs = map trimSpace raws \<and> distinct (rev cs @ seen) = distinct seen
     \<and> list_all (\<lambda>c. case ParseCron c of Some (Inr _) \<Rightarrow> True | _ \<Rightarrow> False) cs"
proof (induction raws arbitrary: seen cs)
  case (Cons raw raws)
  from Cons.prems obtain s cs' where raw: "trimSpace raw \<notin> set seen" "ParseCron (trimSpace raw) = Some (Inr s)"
    and cs: "normalizeCrons (trimSpace raw # seen) raws = Some (Inr cs')" "cs = trimSpace raw # cs'"
    by (auto simp: Let_def split: if_splits option.splits sum.splits)
  note IH = Cons.IH[OF cs(1)]
  have "distinct (rev cs @ seen) = distinct (rev cs' @ trimSpace raw # seen)" by (simp only: cs(2) rev.simps append_assoc append.simps)
  also have "\<dots> = distinct (trimSpace raw # seen)" by (rule conjunct1[OF conjunct2[OF IH]])
  also have "\<dots> = distinct seen" using raw(1) by simp
  finally have "distinct (rev cs @ seen) = distinct seen" .
  moreover have "cs = map trimSpace (raw # raws)" using IH cs(2) by simp
  moreover have "list_all (\<lambda>c. case ParseCron c of Some (Inr _) \<Rightarrow> True | _ \<Rightarrow> False) cs"
    using conjunct2[OF conjunct2[OF IH]] raw(2) by (simp add: cs(2))
  ultimately show ?case by (intro conjI)
qed simp

section \<open>The meaning of a schedule\<close>

lemma list5_cases:
  obtains "fs = []" | f0 where "fs = [f0]" | f0 f1 where "fs = [f0, f1]" | f0 f1 f2 where "fs = [f0, f1, f2]"
  | f0 f1 f2 f3 where "fs = [f0, f1, f2, f3]" | f0 f1 f2 f3 f4 rest where "fs = f0 # f1 # f2 # f3 # f4 # rest"
  by (metis neq_Nil_conv)

lemma fieldsSpec_five:
  assumes "fieldsSpec 0 cronFieldSpecs [mi, ho, da, mo, we] fs"
  shows "cronMatches (fs ! 0) v = fieldAllows mi 0 59 v" "cronMatches (fs ! Suc 0) v = fieldAllows ho 0 23 v"
    "cronMatches (fs ! 2) v = fieldAllows da 1 31 v" "cronMatches (fs ! 3) v = fieldAllows mo 1 12 v"
    "v \<noteq> 7 \<Longrightarrow> cronMatches (fs ! 4) v = (fieldAllows we 0 7 v \<or> v = 0 \<and> fieldAllows we 0 7 7)"
    "cf_wildcard (fs ! 2) = (da = ''*'')" "cf_wildcard (fs ! 4) = (we = ''*'')"
proof -
  obtain f0 f1 f2 f3 f4 rest where fs: "fs = f0 # f1 # f2 # f3 # f4 # rest"
  proof (cases fs rule: list5_cases)
    case (6 f0 f1 f2 f3 f4 rest)
    then show ?thesis by (rule that)
  qed (use assms in \<open>simp_all add: cronFieldSpecs_def\<close>)
  note spec = assms[unfolded fs cronFieldSpecs_def fieldsSpec.simps list.case]
  show "cronMatches (fs ! 0) v = fieldAllows mi 0 59 v" using spec fs by (cases "v = 7") simp_all
  show "cronMatches (fs ! Suc 0) v = fieldAllows ho 0 23 v" using spec fs by (cases "v = 7") simp_all
  show "cronMatches (fs ! 2) v = fieldAllows da 1 31 v" using spec fs by (cases "v = 7") simp_all
  show "cronMatches (fs ! 3) v = fieldAllows mo 1 12 v" using spec fs by (cases "v = 7") simp_all
  show "v \<noteq> 7 \<Longrightarrow> cronMatches (fs ! 4) v = (fieldAllows we 0 7 v \<or> v = 0 \<and> fieldAllows we 0 7 7)" using spec fs by simp
  show "cf_wildcard (fs ! 2) = (da = ''*'')" "cf_wildcard (fs ! 4) = (we = ''*'')" using spec fs by simp_all
qed

text \<open>C32: parsing a cron expression always returns, with an error or a schedule; and when no step
  is so large that adding it overflows, the schedule holds at exactly the times whose minute,
  hour and month are in the arithmetic progressions the fields list and whose day is: in either
  of the day fields when both restrict, in both otherwise, with 7 another name of Sunday.\<close>

theorem cron_schedule:
  assumes "wordsOf (trimSpace e) = [mi, ho, da, mo, we]" "list_all smallSteps [mi, ho, da, mo, we]"
  shows "\<exists>r. ParseCron e = Some r \<and> (\<forall>s t. r = Inr s \<longrightarrow>
    Matches s t = (fieldAllows mi 0 59 (minuteOf t) \<and> fieldAllows ho 0 23 (hourOf t)
      \<and> fieldAllows mo 1 12 (monthNumber t) \<and> dayRule da we t))"
proof -
  have "list_all (\<lambda>(_, lo, hi). 0 \<le> lo \<and> lo \<le> hi \<and> hi \<le> 59) cronFieldSpecs" by (simp add: cronFieldSpecs_def)
  from parseCronFields_result[OF assms(2) this, of "trimSpace e" 0] obtain q where
    q: "parseCronFields (trimSpace e) 0 cronFieldSpecs [mi, ho, da, mo, we] = Some q"
       "case q of Inl _ \<Rightarrow> True | Inr fs \<Rightarrow> fieldsSpec 0 cronFieldSpecs [mi, ho, da, mo, we] fs" by blast
  show ?thesis
  proof (cases q)
    case (Inl er)
    then show ?thesis using q assms(1) by (simp add: ParseCron_def)
  next
    case (Inr fs)
    note five = fieldsSpec_five[OF q(2)[unfolded Inr sum.case]]
    have "weekdayOf t \<noteq> 7" for t using time_fields(3)[of t] by auto
    then show ?thesis
      using q Inr assms(1) by (simp add: ParseCron_def Matches_def dayRule_def Let_def five)
  qed
qed

theorem cron_schedule_witness:
  "\<exists>r. ParseCron ''30 6 1 * 7'' = Some r \<and> (\<forall>s t. r = Inr s \<longrightarrow>
    Matches s t = (fieldAllows ''30'' 0 59 (minuteOf t) \<and> fieldAllows ''6'' 0 23 (hourOf t)
      \<and> fieldAllows ''*'' 1 12 (monthNumber t) \<and> dayRule ''1'' ''7'' t))"
proof (rule cron_schedule)
  show "wordsOf (trimSpace ''30 6 1 * 7'') = [''30'', ''6'', ''1'', ''*'', ''7'']" by code_simp
  show "list_all smallSteps [''30'', ''6'', ''1'', ''*'', ''7'']" by code_simp
qed

text \<open>The bound on the steps is needed: a step near the largest integer comes round to smaller values.\<close>

lemma cron_step_overflow:
  "fieldAllows ''2-59/9223372036854775807'' 0 59 0 = False
   \<and> (case parseCronField ''2-59/9223372036854775807'' 0 59 of Some (Inr f) \<Rightarrow> cronMatches f 0 | _ \<Rightarrow> False)"
proof -
  have "decimal ''9223372036854775807'' = 9223372036854775807" by (simp add: decimal_def)
  then have "atoi ''9223372036854775807'' = Some 9223372036854775807" by (simp add: atoi_def isDigit_def inRange_def Let_def)
  then have step: "parseCronStep ''2-59/9223372036854775807'' = Inr (9223372036854775807, ''2-59'')"
    by (simp add: parseCronStep_def cutAt_def)
  have range: "parseCronRange ''2-59'' 0 59 = Inr (2, 59)" by code_simp
  have split: "splitOn (CHR '','') ''2-59/9223372036854775807'' = [''2-59/9223372036854775807'']" by code_simp
  have "cronSteps 2 59 9223372036854775807 mempty = Some (mput 0 True (mput (- 9223372036854775807) True (mput 2 True mempty)))"
    by (simp add: cronSteps.simps wrap64_def)
  then show ?thesis
    by (simp add: fieldAllows_def itemAllows_def progression_def parseCronField_def cronMatches_def step range split mlen_def)
qed

end
