(* ===== verification/Traffic.thy ===== *)
theory Traffic
  imports Go_Text Store_Deployments "HOL-Library.Word"
begin

text \<open>
  Traffic between the deployments of a worker: the selection by weight of \<open>service.go\<close> and the
  validation of a traffic allocation. The random bytes are an argument, \<open>None\<close> when reading
  them failed; a pointer into the slice is an index.
\<close>

unbundle bit_operations_syntax

section \<open>Random integers\<close>

fun randomWord :: "64 word \<Rightarrow> 8 word list \<Rightarrow> 64 word" where
  "randomWord value [] = value"
| "randomWord value (item # items) = randomWord (push_bit 8 value OR ucast item) items"

definition cryptoRandomInt :: "8 word list option \<Rightarrow> int \<Rightarrow> int \<Rightarrow> int" where
  "cryptoRandomInt random unixNano maxValue =
     (if maxValue \<le> 1 then 0
      else case random of
          None \<Rightarrow> unixNano mod maxValue
        | Some bytes \<Rightarrow> sint (randomWord 0 bytes mod word_of_int maxValue))"

section \<open>Selection\<close>

fun pickLoop :: "nat \<Rightarrow> int \<Rightarrow> ActiveDeployment list \<Rightarrow> nat" where
  "pickLoop i target [] = i - 1"
| "pickLoop i target (a # as) =
     (if target - Active_TrafficPercent a < 0 then i else pickLoop (Suc i) (target - Active_TrafficPercent a) as)"

fun preferredLoop :: "nat \<Rightarrow> string \<Rightarrow> ActiveDeployment list \<Rightarrow> nat option" where
  "preferredLoop i preferred [] = None"
| "preferredLoop i preferred (a # as) =
     (if Dep_ID (Active_Deployment a) = preferred \<and> Active_TrafficPercent a > 0 then Some i else preferredLoop (Suc i) preferred as)"

definition totalTraffic :: "ActiveDeployment list \<Rightarrow> int" where
  "totalTraffic as = sum_list (map Active_TrafficPercent as)"

definition selectWeightedDeploymentWithPreference :: "8 word list option \<Rightarrow> int \<Rightarrow> ActiveDeployment list \<Rightarrow> string \<Rightarrow> nat option" where
  "selectWeightedDeploymentWithPreference random unixNano active' preferred =
     (if active' = [] then None
      else case (if preferred \<noteq> [] then preferredLoop 0 preferred active' else None) of
          Some i \<Rightarrow> Some i
        | None \<Rightarrow>
            (let weight = totalTraffic active' in
             if weight \<le> 0 then None
             else Some (pickLoop 0 (cryptoRandomInt random unixNano weight) active')))"

definition selectWeightedDeployment :: "8 word list option \<Rightarrow> int \<Rightarrow> ActiveDeployment list \<Rightarrow> nat option" where
  "selectWeightedDeployment random unixNano active' = selectWeightedDeploymentWithPreference random unixNano active' []"

section \<open>Validation\<close>

fun trafficLoop :: "string list \<Rightarrow> int \<Rightarrow> DeploymentTraffic list \<Rightarrow> int result" where
  "trafficLoop seen weight [] = Inr weight"
| "trafficLoop seen weight (item # items) =
     (let i = trimSpace (Traffic_ID item) in
      if i = [] then Inl (ErrText ''deployment id is required'')
      else if i \<in> set seen then Inl (ErrText ''deployment ids must be unique'')
      else if Traffic_TrafficPercent item < 1 \<or> Traffic_TrafficPercent item > 100
      then Inl (ErrText ''traffic_percent must be between 1 and 100'')
      else trafficLoop (i # seen) (weight + Traffic_TrafficPercent item) items)"

definition validateDeploymentTraffic :: "DeploymentTraffic list \<Rightarrow> unit result" where
  "validateDeploymentTraffic traffic =
     (if traffic = [] then Inl (ErrText ''deployments are required'')
      else rbind (trafficLoop [] 0 traffic) (\<lambda>weight.
        if weight \<noteq> 100 then Inl (ErrText ''traffic_percent values must sum to 100'') else Inr ()))"

section \<open>Traffic of one worker\<close>

definition activeTrafficForApp :: "ActiveDeployment list \<Rightarrow> string \<Rightarrow> DeploymentTraffic list" where
  "activeTrafficForApp as appID =
     map (\<lambda>a. \<lparr>Traffic_ID = Dep_ID (Active_Deployment a), Traffic_TrafficPercent = Active_TrafficPercent a\<rparr>)
       (filter (\<lambda>a. App_ID (Active_App a) = appID \<and> Active_TrafficPercent a > 0) as)"

definition activeForAppDeployments :: "ActiveDeployment list \<Rightarrow> string \<Rightarrow> ActiveDeployment list" where
  "activeForAppDeployments as appID = filter (\<lambda>a. App_ID (Active_App a) = appID \<and> Active_TrafficPercent a > 0) as"

definition heavier :: "ActiveDeployment \<Rightarrow> ActiveDeployment \<Rightarrow> bool" where
  "heavier a b = (Active_TrafficPercent a > Active_TrafficPercent b
     \<or> (Active_TrafficPercent a = Active_TrafficPercent b \<and> Dep_CreatedAt (Active_Deployment a) > Dep_CreatedAt (Active_Deployment b)))"

fun bestLoop :: "string \<Rightarrow> ActiveDeployment option \<Rightarrow> ActiveDeployment list \<Rightarrow> ActiveDeployment option" where
  "bestLoop appID best [] = best"
| "bestLoop appID best (a # as) =
     (if App_ID (Active_App a) \<noteq> appID then bestLoop appID best as
      else if best = None \<or> heavier a (the best) then bestLoop appID (Some a) as
      else bestLoop appID best as)"

definition activeForApp :: "ActiveDeployment list \<Rightarrow> string \<Rightarrow> ActiveDeployment option" where
  "activeForApp as appID = bestLoop appID None as"

text \<open>\<open>sameTraffic\<close>: the last percentage of an identifier counts.\<close>

definition trafficValues :: "DeploymentTraffic list \<Rightarrow> (string, int) gomap" where
  "trafficValues ts = foldl (\<lambda>m t. mput (Traffic_ID t) (Traffic_TrafficPercent t) m) mempty ts"

definition sameTraffic :: "DeploymentTraffic list \<Rightarrow> DeploymentTraffic list \<Rightarrow> bool" where
  "sameTraffic a b = (length a = length b
     \<and> list_all (\<lambda>t. mget (trafficValues a) (Traffic_ID t) = Some (Traffic_TrafficPercent t)) b)"

section \<open>How often a deployment is picked\<close>

lemma pickLoop_ge: "as \<noteq> [] \<Longrightarrow> i \<le> pickLoop i t as"
proof (induction as arbitrary: i t)
  case (Cons a as)
  show ?case
  proof (cases "as = []")
    case False
    then have "Suc i \<le> pickLoop (Suc i) (t - Active_TrafficPercent a) as" by (rule Cons.IH)
    then show ?thesis by simp
  qed simp
qed simp

lemma pickLoop_range:
  assumes "list_all (\<lambda>a. 0 \<le> Active_TrafficPercent a) as" "0 \<le> t" "t < totalTraffic as" "k < length as"
  shows "pickLoop i t as = i + k \<longleftrightarrow> totalTraffic (take k as) \<le> t \<and> t < totalTraffic (take (Suc k) as)"
  using assms
proof (induction as arbitrary: i t k)
  case (Cons a as)
  let ?p = "Active_TrafficPercent a"
  have nn: "0 \<le> totalTraffic (take n as)" for n
    unfolding totalTraffic_def using Cons.prems(1) in_set_takeD[of _ n as]
    by (intro sum_list_nonneg) (auto simp: list_all_iff)
  show ?case
  proof (cases "t < ?p")
    case True
    then show ?thesis using nn[of "k - 1"] Cons.prems(2) by (cases k) (auto simp: totalTraffic_def)
  next
    case False
    have ne: "as \<noteq> []" using False Cons.prems by (auto simp: totalTraffic_def)
    have step: "pickLoop i t (a # as) = pickLoop (Suc i) (t - ?p) as" using False by simp
    show ?thesis
    proof (cases k)
      case 0
      then show ?thesis using step pickLoop_ge[OF ne, of "Suc i" "t - ?p"] False by (simp add: totalTraffic_def)
    next
      case (Suc j)
      have "pickLoop (Suc i) (t - ?p) as = Suc i + j \<longleftrightarrow> totalTraffic (take j as) \<le> t - ?p \<and> t - ?p < totalTraffic (take (Suc j) as)"
        using Cons.IH[of "t - ?p" j "Suc i"] Cons.prems Suc False by (simp add: totalTraffic_def)
      then show ?thesis using step Suc by (auto simp: totalTraffic_def)
    qed
  qed
qed simp

text \<open>Eight random bytes are a number below \<open>2 ^ 64\<close>, each number once.\<close>

definition byteValue :: "nat \<Rightarrow> 8 word list \<Rightarrow> nat" where
  "byteValue v bytes = foldl (\<lambda>v b. 256 * v + unat b) v bytes"

lemma word_shift_byte:
  fixes v :: "64 word" and b :: "8 word"
  assumes "unat v < 2 ^ 56"
  shows "unat (push_bit 8 v OR ucast b) = 256 * unat v + unat b"
proof -
  have "unat b < 256" using unsigned_less[of b] by simp
  moreover have "push_bit 8 v OR ucast b = push_bit 8 v + ucast b"
    by (rule disjunctive_add_eq_or[symmetric]) (rule bit_word_eqI, auto simp: bit_simps dest: bit_imp_le_length)
  moreover have "unat (ucast b :: 64 word) = unat b" 
    using \<open>unat b < 256\<close> by (simp add: unsigned_ucast_eq take_bit_nat_eq_self)
  moreover have "unat (push_bit 8 v) = 256 * unat v"
    using assms by (simp add: push_bit_eq_mult unat_word_ariths)
  ultimately show ?thesis using assms by (simp add: unat_word_ariths)
qed

lemma randomWord_value:
  "length bytes \<le> 8 \<Longrightarrow> unat v < 2 ^ (64 - 8 * length bytes) \<Longrightarrow> unat (randomWord v bytes) = byteValue (unat v) bytes"
proof (induction bytes arbitrary: v)
  case (Cons b bytes)
  define n where "n = length bytes"
  have n: "n \<le> 7" and v: "unat v < 2 ^ (56 - 8 * n)" using Cons.prems by (simp_all add: n_def)
  have "(2::nat) ^ (56 - 8 * n) \<le> 2 ^ 56" by (rule power_increasing) simp_all
  then have small: "unat v < 2 ^ 56" using v by linarith
  have split: "64 - 8 * n = 8 + (56 - 8 * n)" using n by simp
  have "unat b < 256" using unsigned_less[of b] by simp
  then have "256 * unat v + unat b < 256 * 2 ^ (56 - 8 * n)" using v by simp
  then have "unat (push_bit 8 v OR ucast b) < 2 ^ (64 - 8 * length bytes)"
    using word_shift_byte[OF small, of b] by (simp add: n_def[symmetric] split power_add)
  then show ?case
    using Cons.IH[of "push_bit 8 v OR ucast b"] Cons.prems(1) word_shift_byte[OF small, of b] by (simp add: byteValue_def)
qed (simp add: byteValue_def)

lemma byteValue_snoc: "byteValue 0 (bytes @ [b]) = 256 * byteValue 0 bytes + unat b"
  by (simp add: byteValue_def)

lemma byteValue_inj: "length xs = length ys \<Longrightarrow> byteValue 0 xs = byteValue 0 ys \<Longrightarrow> xs = ys"
proof (induction xs arbitrary: ys rule: rev_induct)
  case (snoc x xs)
  then obtain y zs where ys: "ys = zs @ [y]" by (cases ys rule: rev_cases) simp_all
  have "unat x < 256" "unat y < 256" using unsigned_less[of x] unsigned_less[of y] by simp_all
  moreover have "256 * byteValue 0 xs + unat x = 256 * byteValue 0 zs + unat y"
    using snoc.prems(2) by (simp add: ys byteValue_snoc)
  ultimately have high: "byteValue 0 xs = byteValue 0 zs" by linarith
  then have "unat x = unat y" using snoc.prems(2) by (simp add: ys byteValue_snoc)
  then have "x = y" by (rule unsigned_word_eqI)
  then show ?case using high snoc.IH[of zs] snoc.prems(1) ys by simp
qed simp

lemma byteValue_less: "byteValue 0 bytes < 256 ^ length bytes"
proof (induction bytes rule: rev_induct)
  case (snoc b bytes)
  have "unat b < 256" using unsigned_less[of b] by simp
  then show ?case using snoc by (simp add: byteValue_snoc)
qed (simp add: byteValue_def)

lemma byteValue_bij: "bij_betw (byteValue 0) {bytes. length bytes = n} {..<256 ^ n}"
proof -
  have inj: "inj_on (byteValue 0) {bytes. length bytes = n}"
    by (rule inj_onI) (use byteValue_inj in auto)
  have "card {bytes :: 8 word list. length bytes = n} = 256 ^ n"
    using card_lists_length_eq[of "UNIV :: 8 word set" n] by (simp add: card_word)
  then have "card (byteValue 0 ` {bytes. length bytes = n}) = card {..<256 ^ n :: nat}"
    using card_image[OF inj] by simp
  moreover have "byteValue 0 ` {bytes. length bytes = n} \<subseteq> {..<256 ^ n}"
    using byteValue_less by auto
  ultimately have "byteValue 0 ` {bytes. length bytes = n} = {..<256 ^ n}"
    by (intro card_subset_eq) simp_all
  then show ?thesis using inj by (simp add: bij_betw_def)
qed

text \<open>The numbers below a bound that leave a given remainder.\<close>

lemma residues_card:
  fixes n N t :: nat
  assumes "t < n"
  shows "N div n \<le> card {v. v < N \<and> v mod n = t} \<and> card {v. v < N \<and> v mod n = t} \<le> N div n + 1"
proof -
  let ?J = "{j. t + n * j < N}"
  have eq: "{v. v < N \<and> v mod n = t} = (\<lambda>j. t + n * j) ` ?J"
  proof (intro set_eqI iffI)
    fix v
    assume "v \<in> {v. v < N \<and> v mod n = t}"
    then have "v = t + n * (v div n)" "v < N" using mod_mult_div_eq[of v n] by simp_all
    then show "v \<in> (\<lambda>j. t + n * j) ` ?J" by auto
  qed (use assms in auto)
  have "inj_on (\<lambda>j. t + n * j) ?J" using assms by (auto intro!: inj_onI)
  then have card: "card {v. v < N \<and> v mod n = t} = card ?J" unfolding eq by (rule card_image)
  have up: "?J \<subseteq> {..<N div n + 1}"
  proof
    fix j assume "j \<in> ?J"
    then have "j * n \<le> N" by (simp add: mult.commute)
    then show "j \<in> {..<N div n + 1}" using assms by (simp add: less_Suc_eq_le less_eq_div_iff_mult_less_eq)
  qed
  have low: "{..<N div n} \<subseteq> ?J"
  proof
    fix j assume "j \<in> {..<N div n}"
    then have "(j + 1) * n \<le> N" using assms less_eq_div_iff_mult_less_eq[of n "j + 1" N] by simp
    then show "j \<in> ?J" using assms by (simp add: algebra_simps)
  qed
  have "finite ?J" using finite_subset[OF up] by simp
  then show ?thesis using card_mono[OF _ low] card_mono[OF _ up] card by simp
qed

lemma range_card:
  fixes n N a b :: nat
  assumes "a \<le> b" "b \<le> n"
  shows "(b - a) * (N div n) \<le> card {v. v < N \<and> a \<le> v mod n \<and> v mod n < b}
    \<and> card {v. v < N \<and> a \<le> v mod n \<and> v mod n < b} \<le> (b - a) * (N div n + 1)"
  using assms
proof (induction b)
  case (Suc b)
  show ?case
  proof (cases "a = Suc b")
    case False
    let ?A = "{v. v < N \<and> a \<le> v mod n \<and> v mod n < b}" and ?B = "{v. v < N \<and> v mod n = b}"
    have "{v. v < N \<and> a \<le> v mod n \<and> v mod n < Suc b} = ?A \<union> ?B" using False Suc.prems(1) by auto
    moreover have "card (?A \<union> ?B) = card ?A + card ?B" by (intro card_Un_disjoint) auto
    ultimately have sum: "card {v. v < N \<and> a \<le> v mod n \<and> v mod n < Suc b} = card ?A + card ?B" by simp
    have d: "Suc b - a = Suc (b - a)" using False Suc.prems(1) by simp
    have A: "(b - a) * (N div n) \<le> card ?A \<and> card ?A \<le> (b - a) * (N div n + 1)" using Suc False by simp
    have B: "N div n \<le> card ?B \<and> card ?B \<le> N div n + 1" using residues_card[of b n N] Suc.prems(2) by simp
    show ?thesis unfolding sum d mult_Suc using A B by linarith
  qed simp
qed simp

section \<open>The share of each deployment\<close>

lemma cryptoRandomInt_value:
  assumes "length bytes = 8" "0 < m" "m < 2 ^ 63"
  shows "cryptoRandomInt (Some bytes) now m = int (byteValue 0 bytes mod nat m)"
proof (cases "m = 1")
  case False
  have "unat (randomWord 0 bytes) = byteValue 0 bytes"
    using randomWord_value[of bytes 0] assms(1) by simp
  moreover have "unat (word_of_int m :: 64 word) = nat m" using assms by (simp add: unat_eq_nat_uint uint_word_of_int)
  ultimately have v: "unat (randomWord 0 bytes mod word_of_int m) = byteValue 0 bytes mod nat m"
    by (simp add: unat_mod_distrib)
  have "byteValue 0 bytes mod nat m < nat m" using assms(2) by simp
  then have "uint (randomWord 0 bytes mod word_of_int m) < 2 ^ 63"
    using assms(3) v by (simp add: uint_nat)
  then have "sint (randomWord 0 bytes mod word_of_int m) = uint (randomWord 0 bytes mod word_of_int m)"
    using signed_take_bit_int_eq_self[of 63, OF order_trans[OF _ unsigned_greater_eq]]
    by (simp add: sint_uint)
  then show ?thesis using False assms(2) v by (simp add: cryptoRandomInt_def uint_nat)
qed (simp add: cryptoRandomInt_def)

lemma byteValue_card: "card {bytes. length bytes = 8 \<and> P (byteValue 0 bytes)} = card {v. v < 2 ^ 64 \<and> P v}"
proof -
  have "bij_betw (byteValue 0) {bytes. length bytes = 8 \<and> P (byteValue 0 bytes)} {v. v < 2 ^ 64 \<and> P v}"
    using byteValue_bij[of 8] by (auto simp: bij_betw_def inj_on_def)
  then show ?thesis by (rule bij_betw_same_card)
qed

lemma totalTraffic_take: "k < length as \<Longrightarrow> totalTraffic (take (Suc k) as) = totalTraffic (take k as) + Active_TrafficPercent (as ! k)"
  by (simp add: totalTraffic_def take_Suc_conv_app_nth)

text \<open>C34: without a preference, each deployment is selected for a number of the equally likely
  eight-byte strings that is its percentage times \<open>2 ^ 64 div total\<close>, up to its percentage:
  the shares are those of the allocation, with an error below \<open>total / 2 ^ 64\<close>.
\<close>

theorem traffic_shares:
  assumes "list_all (\<lambda>a. 0 \<le> Active_TrafficPercent a) as" "0 < totalTraffic as" "totalTraffic as < 2 ^ 63" "k < length as"
  shows "\<bar>int (card {bytes. length bytes = 8 \<and> selectWeightedDeployment (Some bytes) now as = Some k})
      - Active_TrafficPercent (as ! k) * (2 ^ 64 div totalTraffic as)\<bar> \<le> Active_TrafficPercent (as ! k)"
proof -
  define n where "n = nat (totalTraffic as)"
  define a where "a = nat (totalTraffic (take k as))"
  define b where "b = nat (totalTraffic (take (Suc k) as))"
  have nn: "0 \<le> totalTraffic (take j as)" "0 \<le> totalTraffic (drop j as)" for j
    unfolding totalTraffic_def using assms(1) in_set_takeD[of _ j as] in_set_dropD[of _ j as]
    by (auto simp: list_all_iff intro!: sum_list_nonneg)
  have whole: "totalTraffic as = totalTraffic (take j as) + totalTraffic (drop j as)" for j
    unfolding totalTraffic_def by (metis append_take_drop_id map_append sum_list.append)
  have p: "0 \<le> Active_TrafficPercent (as ! k)" using assms(1,4) by (simp add: list_all_length)
  have ab: "a \<le> b" "b \<le> n" "int b - int a = Active_TrafficPercent (as ! k)"
    using nn[of k] nn[of "Suc k"] whole[of "Suc k"] totalTraffic_take[OF assms(4)] p by (simp_all add: a_def b_def n_def)
  have pick: "selectWeightedDeployment (Some bytes) now as = Some k
      \<longleftrightarrow> a \<le> byteValue 0 bytes mod n \<and> byteValue 0 bytes mod n < b" if "length bytes = 8" for bytes
  proof -
    have "int (byteValue 0 bytes mod n) < totalTraffic as" using assms(2) by (simp add: n_def nat_less_iff[symmetric] zmod_int)
    then have "pickLoop 0 (int (byteValue 0 bytes mod n)) as = k
        \<longleftrightarrow> totalTraffic (take k as) \<le> int (byteValue 0 bytes mod n) \<and> int (byteValue 0 bytes mod n) < totalTraffic (take (Suc k) as)"
      using pickLoop_range[OF assms(1), of "int (byteValue 0 bytes mod n)" k 0] assms(4) by simp
    moreover have "as \<noteq> []" using assms(4) by auto
    ultimately show ?thesis
      using cryptoRandomInt_value[OF that assms(2,3), of now] assms(2) nn[of k] nn[of "Suc k"]
      by (auto simp: selectWeightedDeployment_def selectWeightedDeploymentWithPreference_def n_def[symmetric] a_def b_def)
  qed
  have "{bytes. length bytes = 8 \<and> selectWeightedDeployment (Some bytes) now as = Some k}
      = {bytes. length bytes = 8 \<and> (a \<le> byteValue 0 bytes mod n \<and> byteValue 0 bytes mod n < b)}"
    using pick by auto
  then have "card {bytes. length bytes = 8 \<and> selectWeightedDeployment (Some bytes) now as = Some k}
      = card {v. v < 2 ^ 64 \<and> a \<le> v mod n \<and> v mod n < b}"
    using byteValue_card[of "\<lambda>v. a \<le> v mod n \<and> v mod n < b"] by simp
  then have bounds: "(b - a) * (2 ^ 64 div n) \<le> card {bytes. length bytes = 8 \<and> selectWeightedDeployment (Some bytes) now as = Some k}"
    "card {bytes. length bytes = 8 \<and> selectWeightedDeployment (Some bytes) now as = Some k} \<le> (b - a) * (2 ^ 64 div n) + (b - a)"
    using range_card[OF ab(1,2), of "2 ^ 64"] by simp_all
  have "int ((b - a) * (2 ^ 64 div n)) = Active_TrafficPercent (as ! k) * (2 ^ 64 div totalTraffic as)"
    using ab assms(2) by (simp add: n_def of_nat_diff zdiv_int)
  moreover have "int (b - a) = Active_TrafficPercent (as ! k)" using ab by (simp add: of_nat_diff)
  ultimately show ?thesis using bounds by linarith
qed

definition twoDeployments :: "ActiveDeployment list" where
  "twoDeployments = [ActiveDeployment0\<lparr>Active_TrafficPercent := 90\<rparr>, ActiveDeployment0\<lparr>Active_TrafficPercent := 10\<rparr>]"

theorem traffic_shares_witness:
  "\<bar>int (card {bytes. length bytes = 8 \<and> selectWeightedDeployment (Some bytes) 0 twoDeployments = Some 1})
      - 10 * (2 ^ 64 div 100)\<bar> \<le> 10"
  using traffic_shares[of twoDeployments 1 0] by (simp add: twoDeployments_def totalTraffic_def)

section \<open>What validation ensures\<close>

lemma trafficLoop_result:
  "trafficLoop seen w items = Inr w' \<Longrightarrow> w' = w + sum_list (map Traffic_TrafficPercent items)
     \<and> list_all (\<lambda>t. 1 \<le> Traffic_TrafficPercent t \<and> Traffic_TrafficPercent t \<le> 100 \<and> trimSpace (Traffic_ID t) \<noteq> []) items
     \<and> distinct (map (trimSpace \<circ> Traffic_ID) items) \<and> set (map (trimSpace \<circ> Traffic_ID) items) \<inter> set seen = {}"
proof (induction items arbitrary: seen w)
  case (Cons t items)
  let ?i = "trimSpace (Traffic_ID t)"
  from Cons.prems have t: "?i \<noteq> []" "?i \<notin> set seen" "1 \<le> Traffic_TrafficPercent t" "Traffic_TrafficPercent t \<le> 100"
    and rest: "trafficLoop (?i # seen) (w + Traffic_TrafficPercent t) items = Inr w'"
    by (auto simp: Let_def split: if_splits)
  show ?case using Cons.IH[OF rest] t by auto
qed simp

lemma validateDeploymentTraffic_result:
  assumes "validateDeploymentTraffic traffic = Inr ()"
  shows "traffic \<noteq> []" "sum_list (map Traffic_TrafficPercent traffic) = 100" "distinct (map (trimSpace \<circ> Traffic_ID) traffic)"
    "list_all (\<lambda>t. 1 \<le> Traffic_TrafficPercent t \<and> Traffic_TrafficPercent t \<le> 100) traffic"
  using assms trafficLoop_result[of "[]" 0 traffic]
  by (auto simp: validateDeploymentTraffic_def rbind_Inr_iff list_all_iff split: if_splits)

text \<open>A preferred deployment that receives traffic is always chosen.\<close>

lemma preferredLoop_some: "preferredLoop i w as = Some j \<Longrightarrow> \<exists>k < length as. j = i + k
    \<and> Dep_ID (Active_Deployment (as ! k)) = w \<and> 0 < Active_TrafficPercent (as ! k)"
proof (induction as arbitrary: i)
  case (Cons a as)
  show ?case
  proof (cases "Dep_ID (Active_Deployment a) = w \<and> Active_TrafficPercent a > 0")
    case True
    then show ?thesis using Cons.prems by (intro exI[of _ 0]) simp
  next
    case False
    then obtain k where "k < length as" "j = Suc i + k" "Dep_ID (Active_Deployment (as ! k)) = w" "0 < Active_TrafficPercent (as ! k)"
      using Cons.IH[of "Suc i"] Cons.prems by auto
    then show ?thesis by (intro exI[of _ "Suc k"]) simp
  qed
qed simp

end
