(* ===== verification/Go_Path.thy ===== *)
theory Go_Path
  imports Go_Text
begin

text \<open>
  Go's package \<open>path\<close> on relative and rooted slash-separated paths: \<open>Clean\<close>, \<open>Base\<close>, \<open>Ext\<close> and \<open>Join\<close>.
\<close>

section \<open>Clean\<close>

text \<open>Elements of a relative path: \<open>..\<close> removes the element before it, unless there is none to
  remove, then it stays. \<open>acc\<close> is reversed.\<close>

fun relElements :: "string list \<Rightarrow> string list \<Rightarrow> string list" where
  "relElements acc [] = rev acc"
| "relElements acc (e # es) =
     (if e = [] \<or> e = ''.'' then relElements acc es
      else if e = ''..'' \<and> acc \<noteq> [] \<and> hd acc \<noteq> ''..'' then relElements (tl acc) es
      else relElements (e # acc) es)"

definition pathClean :: "string \<Rightarrow> string" where
  "pathClean p =
     (if p = [] then ''.''
      else if hd p = CHR ''/'' then cleanRooted p
      else let es = relElements [] (splitOn (CHR ''/'') p) in if es = [] then ''.'' else joinWith ''/'' es)"

definition pathJoin :: "string list \<Rightarrow> string" where
  "pathJoin es = (let ne = filter (\<lambda>e. e \<noteq> []) es in if ne = [] then [] else pathClean (joinWith ''/'' ne))"

definition pathBase :: "string \<Rightarrow> string" where
  "pathBase p = (if p = [] then ''.'' else
     let b = last (splitOn (CHR ''/'') (trimRightByte (CHR ''/'') p)) in if b = [] then ''/'' else b)"

text \<open>The suffix that begins at the last dot of the last element, or the empty string.\<close>

definition pathExt :: "string \<Rightarrow> string" where
  "pathExt p = (let e = last (splitOn (CHR ''/'') p) in
     if CHR ''.'' \<in> set e then CHR ''.'' # last (splitOn (CHR ''.'') e) else [])"

section \<open>Plain paths\<close>

definition plainField :: "string \<Rightarrow> bool" where
  "plainField e \<longleftrightarrow> plainElement e \<and> CHR ''/'' \<notin> set e"

lemma relElements_plain: "list_all plainElement es \<Longrightarrow> relElements acc es = rev acc @ es"
  by (induction es arbitrary: acc) (auto simp: plainElement_def)

lemma joinWith_nonempty: "es \<noteq> [] \<Longrightarrow> list_all (\<lambda>e. e \<noteq> []) es \<Longrightarrow> joinWith sep es \<noteq> []"
  by (cases es) (auto simp: joinWith_Cons)

lemma joinWith_hd: "es \<noteq> [] \<Longrightarrow> hd es \<noteq> [] \<Longrightarrow> hd (joinWith sep es) = hd (hd es)"
  by (cases es) (auto simp: joinWith_Cons)

lemma pathClean_plain:
  assumes "es \<noteq> []" "list_all plainField es"
  shows "pathClean (joinWith ''/'' es) = joinWith ''/'' es"
proof -
  have plain: "list_all plainElement es" "list_all (\<lambda>e. e \<noteq> []) es" "\<forall>e \<in> set es. CHR ''/'' \<notin> set e"
    using assms(2) by (auto simp: list_all_iff plainField_def plainElement_def)
  have "hd es \<noteq> []" "CHR ''/'' \<notin> set (hd es)" using assms plain by (auto simp: list_all_iff)
  then have "hd (joinWith ''/'' es) \<noteq> CHR ''/''" using joinWith_hd[OF assms(1)] by (metis hd_in_set)
  moreover have "relElements [] (splitOn (CHR ''/'') (joinWith ''/'' es)) = es"
    using split_join[OF assms(1) plain(3)] relElements_plain[OF plain(1)] by simp
  ultimately show ?thesis
    using joinWith_nonempty[OF assms(1) plain(2)] assms(1) by (simp add: pathClean_def)
qed

lemma joinWith_append: "fs \<noteq> [] \<Longrightarrow> es \<noteq> [] \<Longrightarrow> joinWith sep (fs @ es) = joinWith sep fs @ sep @ joinWith sep es"
  by (induction fs) (auto simp: joinWith_Cons)

lemma joinWith_inj: "fs \<noteq> [] \<Longrightarrow> gs \<noteq> [] \<Longrightarrow> list_all plainField fs \<Longrightarrow> list_all plainField gs \<Longrightarrow>
    joinWith ''/'' fs = joinWith ''/'' gs \<longleftrightarrow> fs = gs"
  by (metis split_join list_all_iff plainField_def)

lemma cleanRooted_fields: "\<exists>es. cleanRooted p = CHR ''/'' # joinWith ''/'' es \<and> list_all plainField es"
  using cleanRooted_elements[of p] by (auto simp: list_all_iff plainField_def)

text \<open>Joining plain elements with a cleaned rooted path appends its elements.\<close>

lemma pathJoin_rooted:
  assumes "fs \<noteq> []" "list_all plainField fs" "list_all plainField es"
  shows "pathJoin (fs @ [joinWith ''/'' es]) = joinWith ''/'' (fs @ es)"
proof -
  have ne: "list_all (\<lambda>e. e \<noteq> []) fs" "list_all (\<lambda>e. e \<noteq> []) es"
    using assms by (auto simp: list_all_iff plainField_def plainElement_def)
  then have keep: "filter (\<lambda>e. e \<noteq> []) fs = fs" by (simp add: list_all_iff)
  show ?thesis
  proof (cases "es = []")
    case True
    then show ?thesis using assms keep pathClean_plain by (simp add: pathJoin_def)
  next
    case False
    then have "joinWith ''/'' es \<noteq> []" using ne joinWith_nonempty by blast
    moreover have "joinWith ''/'' (fs @ [joinWith ''/'' es]) = joinWith ''/'' (fs @ es)"
      using assms(1) False by (simp add: joinWith_append)
    moreover have "pathClean (joinWith ''/'' (fs @ es)) = joinWith ''/'' (fs @ es)"
      using assms by (intro pathClean_plain) auto
    ultimately show ?thesis using keep by (simp add: pathJoin_def)
  qed
qed

section \<open>Relative paths\<close>

text \<open>A cleaned relative path is a number of \<open>..\<close> followed by plain elements.\<close>

lemma relElements_shape:
  "(\<exists>n es. rev acc = replicate n ''..'' @ es \<and> list_all plainElement es) \<Longrightarrow>
   \<exists>n es. relElements acc fs = replicate n ''..'' @ es \<and> list_all plainElement es"
proof (induction acc fs rule: relElements.induct)
  case (2 acc e fs)
  then obtain n es where acc: "rev acc = replicate n ''..'' @ es" "list_all plainElement es" by blast
  consider "e = [] \<or> e = ''.''" | "e = ''..''" "acc \<noteq> []" "hd acc \<noteq> ''..''" | "e = ''..''" "acc = [] \<or> hd acc = ''..''" | "plainElement e"
    by (auto simp: plainElement_def)
  then show ?case
  proof cases
    case 1
    then show ?thesis using 2(1)[OF 1] acc by (simp, blast)
  next
    case two: 2
    have "es \<noteq> []"
    proof
      assume "es = []"
      then have "rev acc = replicate n ''..''" using acc(1) by simp
      then have "acc = replicate n ''..''" by (metis rev_replicate rev_rev_ident)
      then show False using two(2,3) by (cases n) simp_all
    qed
    then obtain es' x where es: "es = es' @ [x]" by (cases es rule: rev_cases) simp
    then have "acc = x # rev (replicate n ''..'' @ es')" using acc(1) by (metis append_assoc rev_rev_ident rev_append rev.simps append_Cons append_Nil)
    then have "rev (tl acc) = replicate n ''..'' @ es'" by simp
    moreover have "list_all plainElement es'" using acc(2) es by simp
    ultimately show ?thesis using 2(2) two by (simp, blast)
  next
    case three: 3
    have "es = []"
    proof (rule ccontr)
      assume "es \<noteq> []"
      then have "hd acc = last es" "acc \<noteq> []" using acc(1) by (metis hd_rev last_appendR rev_rev_ident, auto)
      then show False using three acc(2) \<open>es \<noteq> []\<close> by (auto simp: list_all_iff plainElement_def)
    qed
    then have "rev (e # acc) = replicate (Suc n) ''..'' @ []" "list_all plainElement []" using three acc by (simp_all add: replicate_append_same)
    then have ex: "\<exists>n es. rev (e # acc) = replicate n ''..'' @ es \<and> list_all plainElement es" by blast
    have n: "\<not> (e = [] \<or> e = ''.'')" "\<not> (e = ''..'' \<and> acc \<noteq> [] \<and> hd acc \<noteq> ''..'')" using three by auto
    have step: "relElements acc (e # fs) = relElements (e # acc) fs" by (simp only: relElements.simps n if_False)
    show ?thesis unfolding step by (rule 2(3)[OF n ex])
  next
    case four: 4
    then have "rev (e # acc) = replicate n ''..'' @ (es @ [e])" "list_all plainElement (es @ [e])" using acc by simp_all
    then have ex: "\<exists>n es. rev (e # acc) = replicate n ''..'' @ es \<and> list_all plainElement es" by blast
    have n: "\<not> (e = [] \<or> e = ''.'')" "\<not> (e = ''..'' \<and> acc \<noteq> [] \<and> hd acc \<noteq> ''..'')" using four by (auto simp: plainElement_def)
    have step: "relElements acc (e # fs) = relElements (e # acc) fs" by (simp only: relElements.simps n if_False)
    show ?thesis unfolding step by (rule 2(3)[OF n ex])
  qed
qed (simp only: relElements.simps)

lemma relElements_fields: "f \<in> set (relElements acc fs) \<Longrightarrow> f \<in> set acc \<or> f \<in> set fs"
proof (induction acc fs rule: relElements.induct)
  case (2 acc e fs)
  then show ?case by (auto split: if_splits dest: list.set_sel(2))
qed simp

text \<open>What a path that passes the checks of the service is: plain elements, or \<open>..\<close> alone.\<close>

lemma pathClean_relative:
  assumes "pathClean p \<noteq> ''.''" "\<not> prefix ''/'' (pathClean p)" "\<not> prefix ''../'' (pathClean p)"
  shows "pathClean p = ''..'' \<or> (\<exists>es. es \<noteq> [] \<and> list_all plainField es \<and> pathClean p = joinWith ''/'' es)"
proof -
  let ?es = "relElements [] (splitOn (CHR ''/'') p)"
  have p: "p \<noteq> []" using assms(1) by (auto simp: pathClean_def)
  have "hd p \<noteq> CHR ''/''"
    using assms(2) p by (auto simp: pathClean_def cleanRooted_def)
  then have c: "?es \<noteq> []" "pathClean p = joinWith ''/'' ?es" using assms(1) p by (auto simp: pathClean_def Let_def split: if_splits)
  have "rev [] = replicate 0 ''..'' @ [] \<and> list_all plainElement []" by simp
  then have "\<exists>n es. rev [] = replicate n ''..'' @ es \<and> list_all plainElement es" by (intro exI)
  from relElements_shape[OF this, of "splitOn (CHR ''/'') p"] obtain n es where es: "?es = replicate n ''..'' @ es" "list_all plainElement es" by blast
  have noslash: "list_all (\<lambda>e. CHR ''/'' \<notin> set e) ?es"
    unfolding list_all_iff
  proof
    fix e assume "e \<in> set ?es"
    then have "e \<in> set (splitOn (CHR ''/'') p)" using relElements_fields[of e "[]"] by simp
    then show "CHR ''/'' \<notin> set e" by (rule splitOn_fields)
  qed
  consider "n = 0" | "n = 1" "es = []" | "1 \<le> n" "\<not> (n = 1 \<and> es = [])" by linarith
  then show ?thesis
  proof cases
    case 1
    then have "list_all plainField ?es" using es noslash by (simp add: list_all_iff plainField_def)
    then show ?thesis using c by blast
  next
    case 2
    then show ?thesis using c es by simp
  next
    case 3
    then obtain m where m: "n = Suc m" by (cases n) simp_all
    then have "joinWith ''/'' ?es = ''..'' @ ''/'' @ joinWith ''/'' (replicate m ''..'' @ es)"
      using 3 es by (auto simp: joinWith_Cons)
    then show ?thesis using c assms(3) by simp
  qed
qed

lemma pathClean_dotdot: "pathClean ''a/../..'' = ''..''"
  by code_simp

end
