(* ===== verification/Asset_Routing.thy ===== *)
theory Asset_Routing
  imports Go_Path Model_Core
begin

text \<open>
  Static assets and object keys: which requests run the worker first, which asset a request
  path resolves to (\<open>resolveAsset\<close>), and the paths of bundles, assets and bucket objects in the
  object store.
\<close>

section \<open>Worker-first routes\<close>

definition runWorkerFirstAlways :: string where
  "runWorkerFirstAlways = CHR 0x00 # ''always''"

definition Always :: "string list \<Rightarrow> bool" where
  "Always r \<longleftrightarrow> length r = 1 \<and> r ! 0 = runWorkerFirstAlways"

definition Routes :: "string list \<Rightarrow> string list" where
  "Routes r = (if Always r then [] else r)"

definition validRoute :: "string \<Rightarrow> bool" where
  "validRoute route = (let pattern = trimPrefix route ''!'' in
     \<not> (\<not> prefix ''/'' pattern \<or> pattern = ''/'' \<or> CHR ''*'' \<in> set (trimSuffix pattern ''*'')))"

definition validateRunWorkerFirst :: "string list \<Rightarrow> unit result" where
  "validateRunWorkerFirst r =
     (if Always r then Inr ()
      else case find (\<lambda>route. \<not> validRoute route) (Routes r) of
          None \<Rightarrow> Inr ()
        | Some route \<Rightarrow> Inl (ErrText (''asset_config.run_worker_first route '' @ quoted route @
            '' must be an absolute path with an optional trailing wildcard'')))"

definition routeRequestPath :: "string \<Rightarrow> string" where
  "routeRequestPath requestPath =
     (let trimmed = trimSpace requestPath;
          clean0 = pathClean (''/'' @ trimmed);
          clean = (if clean0 = ''.'' then ''/'' else clean0)
      in if hasSuffix trimmed ''/'' \<and> clean \<noteq> ''/'' then clean @ ''/'' else clean)"

definition routePatternMatches :: "string \<Rightarrow> string \<Rightarrow> bool" where
  "routePatternMatches pattern requestPath =
     (if hasSuffix pattern ''*'' then prefix (trimSuffix pattern ''*'') requestPath else requestPath = pattern)"

fun routeLoop :: "string \<Rightarrow> bool \<Rightarrow> string list \<Rightarrow> bool" where
  "routeLoop clean runFirst [] = runFirst"
| "routeLoop clean runFirst (route # routes) =
     routeLoop clean (if routePatternMatches (trimPrefix route ''!'') clean then \<not> prefix ''!'' route else runFirst) routes"

definition shouldRunWorkerFirst :: "string list \<Rightarrow> string \<Rightarrow> bool" where
  "shouldRunWorkerFirst r requestPath = (Always r \<or> routeLoop (routeRequestPath requestPath) False (Routes r))"

section \<open>Assets\<close>

definition htmlIndexPath :: "string \<Rightarrow> string" where
  "htmlIndexPath requestPath = (if requestPath = ''/'' then ''/index.html'' else trimSuffix requestPath ''/'' @ ''/index.html'')"

definition assetLookup :: "AssetFile list \<Rightarrow> (string, AssetFile) gomap" where
  "assetLookup assets = foldl (\<lambda>m a. mput (''/'' @ trimPrefix (Asset_Path a) ''/'') a m) mempty assets"

fun firstHit :: "(string, AssetFile) gomap \<Rightarrow> string list \<Rightarrow> AssetFile option" where
  "firstHit m [] = None"
| "firstHit m (candidate # cs) = (case mget m candidate of Some a \<Rightarrow> Some a | None \<Rightarrow> firstHit m cs)"

definition notFoundAsset :: "string \<Rightarrow> (string, AssetFile) gomap \<Rightarrow> AssetFile \<times> int \<times> bool" where
  "notFoundAsset handling lookup =
     (if handling = ''single-page-application'' then
        (case mget lookup ''/index.html'' of Some a \<Rightarrow> (a, 200, True) | None \<Rightarrow> (AssetFile0, 404, False))
      else if handling = ''404-page'' then
        (case mget lookup ''/404.html'' of Some a \<Rightarrow> (a, 404, True) | None \<Rightarrow> (AssetFile0, 404, False))
      else (AssetFile0, 404, False))"

definition resolveAsset :: "Deployment \<Rightarrow> string \<Rightarrow> AssetFile \<times> int \<times> bool" where
  "resolveAsset deployment requestPath =
     (let lookup = assetLookup (Dep_Assets deployment);
          clean0 = pathClean (''/'' @ trimSpace requestPath);
          clean = (if clean0 = ''.'' then ''/'' else clean0);
          config = Dep_AssetConfig deployment in
      case mget lookup clean of
        Some a \<Rightarrow> (a, 200, True)
      | None \<Rightarrow>
          (case (if AssetCfg_HTMLHandling config = ''auto-trailing-slash''
                 then firstHit lookup [htmlIndexPath clean, trimSuffix clean ''/'' @ ''.html''] else None) of
             Some a \<Rightarrow> (a, 200, True)
           | None \<Rightarrow> notFoundAsset (AssetCfg_NotFoundHandling config) lookup))"

section \<open>Object keys\<close>

definition deploymentBundleObjectPath :: "string \<Rightarrow> string" where
  "deploymentBundleObjectPath deploymentID = pathJoin [''deployments'', deploymentID, ''bundle.json'']"

definition deploymentAssetObjectPath :: "string \<Rightarrow> string \<Rightarrow> string" where
  "deploymentAssetObjectPath deploymentID assetPath = pathJoin [''deployments'', deploymentID, ''assets'', assetPath]"

definition objectStorageBucketPath :: "string \<Rightarrow> string \<Rightarrow> string" where
  "objectStorageBucketPath bucketID objectPath =
     (let key = trimPrefix (pathClean (''/'' @ objectPath)) ''/'' in pathJoin [''buckets'', bucketID, key])"

section \<open>The last matching rule decides\<close>

lemma routeLoop_last:
  "routeLoop clean b routes \<longleftrightarrow>
    (if list_all (\<lambda>r. \<not> routePatternMatches (trimPrefix r ''!'') clean) routes then b
     else \<exists>before rule after. routes = before @ rule # after \<and> \<not> prefix ''!'' rule \<and> routePatternMatches (trimPrefix rule ''!'') clean
        \<and> list_all (\<lambda>r. \<not> routePatternMatches (trimPrefix r ''!'') clean) after)"
proof (induction routes rule: rev_induct)
  case (snoc r rs)
  have step: "routeLoop clean b (rs @ [r]) = (if routePatternMatches (trimPrefix r ''!'') clean then \<not> prefix ''!'' r else routeLoop clean b rs)"
    by (induction rs arbitrary: b) simp_all
  show ?case
  proof (cases "routePatternMatches (trimPrefix r ''!'') clean")
    case True
    have "(\<exists>before rule after. rs @ [r] = before @ rule # after \<and> \<not> prefix ''!'' rule \<and> routePatternMatches (trimPrefix rule ''!'') clean
        \<and> list_all (\<lambda>r. \<not> routePatternMatches (trimPrefix r ''!'') clean) after) \<longleftrightarrow> \<not> prefix ''!'' r" (is "?L = ?R")
    proof
      assume ?L
      then obtain before rule after where w: "rs @ [r] = before @ rule # after" "\<not> prefix ''!'' rule"
        "list_all (\<lambda>r. \<not> routePatternMatches (trimPrefix r ''!'') clean) after" by blast
      have "after = []"
      proof (rule ccontr)
        assume "after \<noteq> []"
        then have "last after = r" using w(1) by (metis last.simps last_appendR last_snoc list.distinct(1))
        then show False using w(3) \<open>after \<noteq> []\<close> True by (auto simp: list_all_iff)
      qed
      then show ?R using w by simp
    next
      assume ?R
      then show ?L using True by (intro exI[of _ rs] exI[of _ r] exI[of _ "[]"]) simp
    qed
    then show ?thesis using True step by simp
  next
    case False
    have "(\<exists>before rule after. rs @ [r] = before @ rule # after \<and> \<not> prefix ''!'' rule \<and> routePatternMatches (trimPrefix rule ''!'') clean
        \<and> list_all (\<lambda>r. \<not> routePatternMatches (trimPrefix r ''!'') clean) after)
      \<longleftrightarrow> (\<exists>before rule after. rs = before @ rule # after \<and> \<not> prefix ''!'' rule \<and> routePatternMatches (trimPrefix rule ''!'') clean
        \<and> list_all (\<lambda>r. \<not> routePatternMatches (trimPrefix r ''!'') clean) after)" (is "?L = ?R")
    proof
      assume ?L
      then obtain before rule after where w: "rs @ [r] = before @ rule # after" "\<not> prefix ''!'' rule"
        "routePatternMatches (trimPrefix rule ''!'') clean"
        "list_all (\<lambda>r. \<not> routePatternMatches (trimPrefix r ''!'') clean) after" by blast
      obtain after' where "after = after' @ [r]" using w False by (cases after rule: rev_cases) auto
      then show ?R using w by (intro exI[of _ before] exI[of _ rule] exI[of _ after']) simp
    next
      assume ?R
      then obtain before rule after where "rs = before @ rule # after" "\<not> prefix ''!'' rule"
        "routePatternMatches (trimPrefix rule ''!'') clean"
        "list_all (\<lambda>r. \<not> routePatternMatches (trimPrefix r ''!'') clean) after" by blast
      then show ?L using False by (intro exI[of _ before] exI[of _ rule] exI[of _ "after @ [r]"]) simp
    qed
    then show ?thesis using False step snoc.IH by simp
  qed
qed simp

text \<open>A request runs the worker before the assets exactly when the application always does, or
  the last rule that matches the normalised request path is not an exception.\<close>

theorem worker_first_last_rule:
  "shouldRunWorkerFirst r requestPath \<longleftrightarrow> Always r \<or> (\<exists>before rule after. Routes r = before @ rule # after
     \<and> \<not> prefix ''!'' rule \<and> routePatternMatches rule (routeRequestPath requestPath)
     \<and> list_all (\<lambda>r. \<not> routePatternMatches (trimPrefix r ''!'') (routeRequestPath requestPath)) after)"
proof -
  have trim: "trimPrefix rule ''!'' = rule" if "\<not> prefix ''!'' rule" for rule
    using that by (simp add: trimPrefix_def)
  have "list_all (\<lambda>r. \<not> routePatternMatches (trimPrefix r ''!'') c) (before @ rule # after)
      \<longrightarrow> \<not> routePatternMatches (trimPrefix rule ''!'') c" for c before rule after by simp
  then show ?thesis
    unfolding shouldRunWorkerFirst_def routeLoop_last by (metis trim)
qed

section \<open>Assets come from the deployment\<close>

lemma assetLookup_get: "mget (assetLookup assets) k = find (\<lambda>a. ''/'' @ trimPrefix (Asset_Path a) ''/'' = k) (rev assets)"
proof (induction assets rule: rev_induct)
  case (snoc a as)
  have "assetLookup (as @ [a]) = mput (''/'' @ trimPrefix (Asset_Path a) ''/'') a (assetLookup as)"
    by (simp add: assetLookup_def)
  then show ?case using snoc by auto
qed (simp add: assetLookup_def)

lemma find_SomeD: "find P xs = Some x \<Longrightarrow> x \<in> set xs \<and> P x"
  by (induction xs) (auto split: if_splits)

lemma assetLookup_in: "mget (assetLookup assets) k = Some a \<Longrightarrow> a \<in> set assets \<and> ''/'' @ trimPrefix (Asset_Path a) ''/'' = k"
  unfolding assetLookup_get using find_SomeD by fastforce

text \<open>With distinct paths every asset is found under its own path.\<close>

lemma assetLookup_own:
  assumes "distinct (map (\<lambda>a. trimPrefix (Asset_Path a) ''/'') assets)" "a \<in> set assets"
  shows "mget (assetLookup assets) (''/'' @ trimPrefix (Asset_Path a) ''/'') = Some a"
proof (cases "mget (assetLookup assets) (''/'' @ trimPrefix (Asset_Path a) ''/'')")
  case None
  then show ?thesis using assms(2) unfolding assetLookup_get by (auto simp: find_None_iff)
next
  case (Some b)
  then show ?thesis using assetLookup_in[OF Some] assms by (auto simp: distinct_map inj_on_def)
qed

lemma firstHit_in: "firstHit m cs = Some a \<Longrightarrow> \<exists>c \<in> set cs. mget m c = Some a"
  by (induction cs) (auto split: option.splits)

lemma resolveAsset_result:
  assumes "resolveAsset d requestPath = (a, status, True)"
  shows "a \<in> set (Dep_Assets d)" "status = 200 \<or> status = 404 \<and> ''/'' @ trimPrefix (Asset_Path a) ''/'' = ''/404.html''"
proof -
  have "a \<in> set (Dep_Assets d) \<and> (status = 200 \<or> status = 404 \<and> ''/'' @ trimPrefix (Asset_Path a) ''/'' = ''/404.html'')"
    using assms by (auto simp: resolveAsset_def notFoundAsset_def Let_def dest!: assetLookup_in firstHit_in split: option.splits if_splits)
  then show "a \<in> set (Dep_Assets d)" "status = 200 \<or> status = 404 \<and> ''/'' @ trimPrefix (Asset_Path a) ''/'' = ''/404.html''" by blast+
qed

section \<open>Objects stay in their bucket\<close>

lemma objectStorageBucketPath_form:
  assumes "plainField bucketID"
  shows "\<exists>es. list_all plainField es \<and> cleanRooted objectPath = CHR ''/'' # joinWith ''/'' es
    \<and> objectStorageBucketPath bucketID objectPath = joinWith ''/'' ([''buckets'', bucketID] @ es)"
proof -
  obtain es where es: "cleanRooted objectPath = CHR ''/'' # joinWith ''/'' es" "list_all plainField es"
    using cleanRooted_fields by blast
  have "trimPrefix (pathClean (''/'' @ objectPath)) ''/'' = joinWith ''/'' es"
    using es(1) by (simp add: pathClean_def cleanRooted_slash trimPrefix_def)
  moreover have "pathJoin ([''buckets'', bucketID] @ [joinWith ''/'' es]) = joinWith ''/'' ([''buckets'', bucketID] @ es)"
    using assms es(2) by (intro pathJoin_rooted) (auto simp: plainField_def plainElement_def)
  ultimately show ?thesis using es by (auto simp: objectStorageBucketPath_def)
qed

text \<open>The object keys of two buckets never meet, whatever the paths: two keys are equal exactly when
  the buckets are the same and the paths are the same once cleaned.\<close>

theorem bucket_paths_confined:
  assumes "plainField bucketID" "plainField bucketID'"
  shows "objectStorageBucketPath bucketID objectPath = objectStorageBucketPath bucketID' objectPath'
    \<longleftrightarrow> bucketID = bucketID' \<and> cleanRooted objectPath = cleanRooted objectPath'"
proof -
  obtain es where es: "list_all plainField es" "cleanRooted objectPath = CHR ''/'' # joinWith ''/'' es"
    "objectStorageBucketPath bucketID objectPath = joinWith ''/'' ([''buckets'', bucketID] @ es)"
    using objectStorageBucketPath_form[OF assms(1)] by blast
  obtain es' where es': "list_all plainField es'" "cleanRooted objectPath' = CHR ''/'' # joinWith ''/'' es'"
    "objectStorageBucketPath bucketID' objectPath' = joinWith ''/'' ([''buckets'', bucketID'] @ es')"
    using objectStorageBucketPath_form[OF assms(2)] by blast
  have plain: "list_all plainField ([''buckets'', bucketID] @ es)" "list_all plainField ([''buckets'', bucketID'] @ es')"
    using assms es(1) es'(1) by (auto simp: plainField_def plainElement_def)
  have "objectStorageBucketPath bucketID objectPath = objectStorageBucketPath bucketID' objectPath' \<longleftrightarrow> bucketID = bucketID' \<and> es = es'"
    unfolding es(3) es'(3) using joinWith_inj[OF _ _ plain] by simp
  moreover have "es = es' \<longleftrightarrow> cleanRooted objectPath = cleanRooted objectPath'"
  proof -
    have ne: "list_all (\<lambda>e. e \<noteq> []) es" "list_all (\<lambda>e. e \<noteq> []) es'"
      using es(1) es'(1) by (auto simp: list_all_iff plainField_def plainElement_def)
    have "joinWith ''/'' es = joinWith ''/'' es' \<Longrightarrow> es = es'"
      using joinWith_inj[OF _ _ es(1) es'(1)] joinWith_nonempty[OF _ ne(1), of "''/''"] joinWith_nonempty[OF _ ne(2), of "''/''"]
      by (cases "es = []"; cases "es' = []") auto
    then show ?thesis unfolding es(2) es'(2) by auto
  qed
  ultimately show ?thesis by blast
qed

theorem bucket_paths_confined_witness:
  "\<not> objectStorageBucketPath ''b1'' ''../b2/secret'' = objectStorageBucketPath ''b2'' ''secret''"
  using bucket_paths_confined[of "''b1''" "''b2''" "''../b2/secret''" "''secret''"]
  by (simp add: plainField_def plainElement_def)

end
