(* ===== verification/Resource_Service.thy ===== *)
theory Resource_Service
  imports Store_Resources Store_Apps Hostnames Access_Policy
begin

text \<open>
  The service layer over workers and storage resources in \<open>service.go\<close>: organization-scoped
  access, usage limits, creation with random identifiers, renaming and deletion. A random token
  is an argument, \<open>Inl\<close> when the source of randomness failed. Operations of the service that
  share their name with one of the store carry the suffix \<open>_svc\<close>.
\<close>

section \<open>Inputs\<close>

record CreateAppInput =
  NewApp_OrgID :: string
  NewApp_Name :: string
  NewApp_Hostname :: string
  NewApp_Auth :: AuthConfig
  NewApp_ExternalID :: string
  NewApp_OAuthClientID :: string
  NewApp_CreatedBy :: string

record CreateKVNamespaceInput =
  NewKV_OrgID :: string
  NewKV_Name :: string
  NewKV_ExternalID :: string
  NewKV_OAuthClientID :: string

record CreateDatabaseInput =
  NewDB_OrgID :: string
  NewDB_Name :: string

record CreateObjectStorageBucketInput =
  NewBucket_OrgID :: string
  NewBucket_Name :: string
  NewBucket_ExternalID :: string
  NewBucket_OAuthClientID :: string

section \<open>Protected routes\<close>

definition validateProtectedRoute :: "string \<Rightarrow> unit result" where
  "validateProtectedRoute route =
     (if route = [] then Inl (ErrText ''auth.protected_routes cannot contain empty values'')
      else if \<not> prefix ''/'' route
      then Inl (ErrText (''auth.protected_routes route '' @ quoted route @ '' must be an absolute path''))
      else if CHR ''*'' \<in> set (trimSuffix route ''*'')
      then Inl (ErrText (''auth.protected_routes route '' @ quoted route @ '' must use at most one trailing wildcard''))
      else if hasSuffix route ''*'' \<and> \<not> hasSuffix route ''/*''
      then Inl (ErrText (''auth.protected_routes route '' @ quoted route @ '' wildcard must be written as /*''))
      else Inr ())"

fun authRoutes :: "string list \<Rightarrow> string list \<Rightarrow> string list \<Rightarrow> string list result" where
  "authRoutes routes seen [] = Inr routes"
| "authRoutes routes seen (route0 # rest) =
     (let route = trimSpace route0 in
      rbind (validateProtectedRoute route) (\<lambda>_.
        if route \<in> set seen then authRoutes routes seen rest
        else authRoutes (routes @ [route]) (route # seen) rest))"

definition normalizeAuthConfig :: "AuthConfig \<Rightarrow> AuthConfig result" where
  "normalizeAuthConfig config =
     (if Auth_ProtectedRoutes config = [] then Inr AuthConfig0
      else rbind (authRoutes [] [] (Auth_ProtectedRoutes config)) (\<lambda>routes. Inr \<lparr>Auth_ProtectedRoutes = routes\<rparr>))"

section \<open>Usage limits\<close>

definition enforceOrgLimit :: "string \<Rightarrow> string \<Rightarrow> Store \<Rightarrow> unit result" where
  "enforceOrgLimit orgID0 resource s =
     (let orgID = trimSpace orgID0 in
      if orgID = [] then Inr ()
      else rbind (GetOrganization orgID s) (\<lambda>org.
        let limits = OrgLimitsForLevel (Org_UsageLevel org);
            check = (\<lambda>limit count. case limit of
                None \<Rightarrow> Inr ()
              | Some n \<Rightarrow> if count \<ge> n then Inl (usageLimitError (Org_UsageLevel org) resource n) else Inr ())
        in if resource = ''worker'' then check (Limit_Workers limits) (CountAppsByOrg orgID s)
           else if resource = ''kv namespace'' then check (Limit_KVNamespaces limits) (CountKVNamespacesByOrg orgID s)
           else if resource = ''object storage bucket''
           then check (Limit_ObjectStorageBuckets limits) (CountObjectStorageBucketsByOrg orgID s)
           else Inr ()))"

section \<open>Workers\<close>

definition appForOrg :: "string \<Rightarrow> string \<Rightarrow> Store \<Rightarrow> App result" where
  "appForOrg orgID appID s =
     (case find (\<lambda>a. App_ID a = appID) (ListAppsByOrg (trimSpace orgID) s) of
        None \<Rightarrow> Inl ErrAppNotFound | Some app \<Rightarrow> Inr app)"

fun createLoop :: "(string \<Rightarrow> string) \<Rightarrow> string \<Rightarrow> (nat \<Rightarrow> string result) \<Rightarrow> (nat \<Rightarrow> string result) \<Rightarrow> (nat \<Rightarrow> string result)
    \<Rightarrow> time \<Rightarrow> bool \<Rightarrow> App \<Rightarrow> bool \<Rightarrow> nat list \<Rightarrow> Store \<Rightarrow> (App \<times> Store) result" where
  "createLoop hash base randoms ids tokens now generated app failed [] s =
     (if failed then Inl (ErrText ''could not generate unique hostname'') else Inl (ErrText ''could not create app''))"
| "createLoop hash base randoms ids tokens now generated app failed (attempt # attempts) s =
     rbind (if generated then generatedHostname hash base (App_Name app) (App_OrgID app) attempt (randoms attempt) s
            else Inr (App_Hostname app)) (\<lambda>hostname.
     rbind (ids attempt) (\<lambda>appID.
     rbind (tokens attempt) (\<lambda>runtimeToken.
       let app1 = app\<lparr>App_ID := appID, App_Hostname := hostname, App_RuntimeToken := runtimeToken, App_CreatedAt := now\<rparr> in
       case CreateApp app1 s of
         Inr s' \<Rightarrow> Inr (app1, s')
       | Inl e \<Rightarrow> if generated \<and> errorsIs e ErrAppExists
           then createLoop hash base randoms ids tokens now generated app True attempts s else Inl e)))"

definition CreateApp_svc :: "(string \<Rightarrow> string) \<Rightarrow> string \<Rightarrow> (nat \<Rightarrow> string result) \<Rightarrow> (nat \<Rightarrow> string result) \<Rightarrow> (nat \<Rightarrow> string result)
    \<Rightarrow> time \<Rightarrow> CreateAppInput \<Rightarrow> Store \<Rightarrow> (App \<times> Store) result" where
  "CreateApp_svc hash base randoms ids tokens now input s =
     (let name = trimSpace (NewApp_Name input); orgID = trimSpace (NewApp_OrgID input);
          hostname0 = trimSpace (NewApp_Hostname input); generated = (hostname0 = []) in
      if name = [] then Inl (ErrText ''name is required'')
      else rbind (normalizeAuthConfig (NewApp_Auth input)) (\<lambda>auth.
        rbind (enforceOrgLimit orgID ''worker'' s) (\<lambda>_.
        rbind (if generated then Inr hostname0 else normalizeHostname hostname0) (\<lambda>hostname.
          if generated \<and> base = []
          then Inl (ErrText ''hostname is required when base hostname is not configured'')
          else createLoop hash base randoms ids tokens now generated
            (App0\<lparr>App_OrgID := orgID, App_Name := name, App_Hostname := hostname, App_Auth := auth,
              App_ExternalID := trimSpace (NewApp_ExternalID input), App_OAuthClientID := trimSpace (NewApp_OAuthClientID input),
              App_CreatedBy := trimSpace (NewApp_CreatedBy input)\<rparr>)
            False [0..<(if generated then 5 else 1)] s))))"

section \<open>KV namespaces\<close>

definition CreateKVNamespace_svc :: "string result \<Rightarrow> time \<Rightarrow> CreateKVNamespaceInput \<Rightarrow> Store \<Rightarrow> (KVNamespace \<times> Store) result" where
  "CreateKVNamespace_svc token now input s =
     (let orgID = trimSpace (NewKV_OrgID input); name = trimSpace (NewKV_Name input) in
      if name = [] then Inl (ErrText ''name is required'')
      else rbind (enforceOrgLimit orgID ''kv namespace'' s) (\<lambda>_.
        rbind token (\<lambda>namespaceID.
          let n = \<lparr>KVNs_ID = namespaceID, KVNs_OrgID = orgID, KVNs_Name = name, KVNs_ExternalID = trimSpace (NewKV_ExternalID input),
                KVNs_OAuthClientID = trimSpace (NewKV_OAuthClientID input), KVNs_CreatedAt = now\<rparr>
          in rbind (CreateKVNamespace n s) (\<lambda>s'. Inr (n, s')))))"

definition ListKVNamespacesForOrg :: "string \<Rightarrow> Store \<Rightarrow> KVNamespace list" where
  "ListKVNamespacesForOrg orgID s = ListKVNamespacesByOrg (trimSpace orgID) s"

definition GetKVNamespace_svc :: "string \<Rightarrow> Store \<Rightarrow> KVNamespace result" where
  "GetKVNamespace_svc i s = (if trimSpace i = [] then Inl ErrKVNamespaceNotFound else GetKVNamespace (trimSpace i) s)"

definition GetKVNamespaceForOrg :: "string \<Rightarrow> string \<Rightarrow> Store \<Rightarrow> KVNamespace result" where
  "GetKVNamespaceForOrg orgID i s =
     rbind (GetKVNamespace_svc i s) (\<lambda>n.
       if trimSpace orgID \<noteq> [] \<and> KVNs_OrgID n \<noteq> trimSpace orgID then Inl ErrKVNamespaceNotFound else Inr n)"

definition renameKV :: "KVNamespace \<Rightarrow> string \<Rightarrow> Store \<Rightarrow> (KVNamespace \<times> Store) result" where
  "renameKV n name0 s =
     (let name = trimSpace name0 in
      if name = [] then Inl (ErrText ''name is required'')
      else rbind (UpdateKVNamespace (n\<lparr>KVNs_Name := name\<rparr>) s) (\<lambda>s'. Inr (n\<lparr>KVNs_Name := name\<rparr>, s')))"

definition UpdateKVNamespace_svc :: "string \<Rightarrow> string \<Rightarrow> Store \<Rightarrow> (KVNamespace \<times> Store) result" where
  "UpdateKVNamespace_svc i name s = rbind (GetKVNamespace_svc i s) (\<lambda>n. renameKV n name s)"

definition UpdateKVNamespaceForOrg :: "string \<Rightarrow> string \<Rightarrow> string \<Rightarrow> Store \<Rightarrow> (KVNamespace \<times> Store) result" where
  "UpdateKVNamespaceForOrg orgID i name s = rbind (GetKVNamespaceForOrg orgID i s) (\<lambda>n. renameKV n name s)"

definition DeleteKVNamespace_svc :: "string \<Rightarrow> Store \<Rightarrow> Store result" where
  "DeleteKVNamespace_svc i s = (if trimSpace i = [] then Inl ErrKVNamespaceNotFound else DeleteKVNamespace (trimSpace i) s)"

definition DeleteKVNamespaceForOrg :: "string \<Rightarrow> string \<Rightarrow> Store \<Rightarrow> Store result" where
  "DeleteKVNamespaceForOrg orgID i s = rbind (GetKVNamespaceForOrg orgID i s) (\<lambda>_. DeleteKVNamespace_svc i s)"

section \<open>Databases\<close>

text \<open>The runtime database of a record (\<open>s.db\<close>) is a file outside the store: creating a record
  ignores the result of restoring it, deleting a record returns the result of removing it.\<close>

definition CreateDatabase_svc :: "string result \<Rightarrow> time \<Rightarrow> CreateDatabaseInput \<Rightarrow> Store \<Rightarrow> (Database \<times> Store) result" where
  "CreateDatabase_svc token now input s =
     (let name = trimSpace (NewDB_Name input) in
      if name = [] then Inl (ErrText ''name is required'')
      else rbind token (\<lambda>databaseID.
        let d = \<lparr>DB_ID = databaseID, DB_OrgID = trimSpace (NewDB_OrgID input), DB_Name = name, DB_CreatedAt = now\<rparr>
        in rbind (CreateDatabase d s) (\<lambda>s'. Inr (d, s'))))"

definition ListDatabasesForOrg :: "string \<Rightarrow> Store \<Rightarrow> Database list" where
  "ListDatabasesForOrg orgID s = ListDatabasesByOrg (trimSpace orgID) s"

definition GetDatabase_svc :: "string \<Rightarrow> Store \<Rightarrow> Database result" where
  "GetDatabase_svc i s = (if trimSpace i = [] then Inl ErrDatabaseNotFound else GetDatabase (trimSpace i) s)"

definition GetDatabaseForOrg :: "string \<Rightarrow> string \<Rightarrow> Store \<Rightarrow> Database result" where
  "GetDatabaseForOrg orgID i s =
     rbind (GetDatabase_svc i s) (\<lambda>d.
       if trimSpace orgID \<noteq> [] \<and> DB_OrgID d \<noteq> trimSpace orgID then Inl ErrDatabaseNotFound else Inr d)"

definition DeleteDatabase_svc :: "(string \<Rightarrow> unit result) option \<Rightarrow> string \<Rightarrow> Store \<Rightarrow> unit result \<times> Store" where
  "DeleteDatabase_svc db i s =
     (if trimSpace i = [] then (Inl ErrDatabaseNotFound, s)
      else case DeleteDatabase (trimSpace i) s of
          Inl e \<Rightarrow> (Inl e, s)
        | Inr s' \<Rightarrow> (case db of None \<Rightarrow> Inr () | Some delete \<Rightarrow> delete (trimSpace i), s'))"

definition DeleteDatabaseForOrg :: "(string \<Rightarrow> unit result) option \<Rightarrow> string \<Rightarrow> string \<Rightarrow> Store \<Rightarrow> unit result \<times> Store" where
  "DeleteDatabaseForOrg db orgID i s =
     (case GetDatabaseForOrg orgID i s of Inl e \<Rightarrow> (Inl e, s) | Inr _ \<Rightarrow> DeleteDatabase_svc db i s)"

section \<open>Object storage buckets\<close>

definition CreateObjectStorageBucket_svc :: "string result \<Rightarrow> time \<Rightarrow> CreateObjectStorageBucketInput \<Rightarrow> Store
    \<Rightarrow> (ObjectStorageBucket \<times> Store) result" where
  "CreateObjectStorageBucket_svc token now input s =
     (let orgID = trimSpace (NewBucket_OrgID input); name = trimSpace (NewBucket_Name input) in
      if name = [] then Inl (ErrText ''name is required'')
      else rbind (enforceOrgLimit orgID ''object storage bucket'' s) (\<lambda>_.
        rbind token (\<lambda>bucketID.
          let b = \<lparr>Bucket_ID = bucketID, Bucket_OrgID = orgID, Bucket_Name = name, Bucket_ExternalID = trimSpace (NewBucket_ExternalID input),
                Bucket_OAuthClientID = trimSpace (NewBucket_OAuthClientID input), Bucket_CreatedAt = now\<rparr>
          in rbind (CreateObjectStorageBucket b s) (\<lambda>s'. Inr (b, s')))))"

definition ListObjectStorageBucketsForOrg :: "string \<Rightarrow> Store \<Rightarrow> ObjectStorageBucket list" where
  "ListObjectStorageBucketsForOrg orgID s = ListObjectStorageBucketsByOrg (trimSpace orgID) s"

definition GetObjectStorageBucket_svc :: "string \<Rightarrow> Store \<Rightarrow> ObjectStorageBucket result" where
  "GetObjectStorageBucket_svc i s =
     (if trimSpace i = [] then Inl ErrObjectStorageBucketNotFound else GetObjectStorageBucket (trimSpace i) s)"

definition GetObjectStorageBucketForOrg :: "string \<Rightarrow> string \<Rightarrow> Store \<Rightarrow> ObjectStorageBucket result" where
  "GetObjectStorageBucketForOrg orgID i s =
     rbind (GetObjectStorageBucket_svc i s) (\<lambda>b.
       if trimSpace orgID \<noteq> [] \<and> Bucket_OrgID b \<noteq> trimSpace orgID then Inl ErrObjectStorageBucketNotFound else Inr b)"

definition renameBucket :: "ObjectStorageBucket \<Rightarrow> string \<Rightarrow> Store \<Rightarrow> (ObjectStorageBucket \<times> Store) result" where
  "renameBucket b name0 s =
     (let name = trimSpace name0 in
      if name = [] then Inl (ErrText ''name is required'')
      else rbind (UpdateObjectStorageBucket (b\<lparr>Bucket_Name := name\<rparr>) s) (\<lambda>s'. Inr (b\<lparr>Bucket_Name := name\<rparr>, s')))"

definition UpdateObjectStorageBucket_svc :: "string \<Rightarrow> string \<Rightarrow> Store \<Rightarrow> (ObjectStorageBucket \<times> Store) result" where
  "UpdateObjectStorageBucket_svc i name s = rbind (GetObjectStorageBucket_svc i s) (\<lambda>b. renameBucket b name s)"

definition UpdateObjectStorageBucketForOrg :: "string \<Rightarrow> string \<Rightarrow> string \<Rightarrow> Store \<Rightarrow> (ObjectStorageBucket \<times> Store) result" where
  "UpdateObjectStorageBucketForOrg orgID i name s = rbind (GetObjectStorageBucketForOrg orgID i s) (\<lambda>b. renameBucket b name s)"

definition DeleteObjectStorageBucket_svc :: "string \<Rightarrow> Store \<Rightarrow> Store result" where
  "DeleteObjectStorageBucket_svc i s =
     (if trimSpace i = [] then Inl ErrObjectStorageBucketNotFound else DeleteObjectStorageBucket (trimSpace i) s)"

definition DeleteObjectStorageBucketForOrg :: "string \<Rightarrow> string \<Rightarrow> Store \<Rightarrow> Store result" where
  "DeleteObjectStorageBucketForOrg orgID i s =
     rbind (GetObjectStorageBucketForOrg orgID i s) (\<lambda>_. DeleteObjectStorageBucket_svc i s)"

section \<open>Ordinary scripts\<close>

text \<open>\<open>ordinary_script.go\<close>: the identifier of a script is the hash of its organization and name.\<close>

definition ordinaryScriptID :: "(string \<Rightarrow> string) \<Rightarrow> string \<Rightarrow> string \<Rightarrow> string result" where
  "ordinaryScriptID hash org name =
     (if org = [] \<or> trimSpace org \<noteq> org \<or> \<not> platformName name
      then Inl (ErrText ''script name must be 1-63 lowercase letters, digits, underscores or hyphens'')
      else Inr (''cf-worker-'' @ hash (''nanoflare-ordinary-script-v1'' @ [CHR 0x00] @ org @ [CHR 0x00] @ name)))"

definition OrdinaryScriptForOrg :: "(string \<Rightarrow> string) \<Rightarrow> string \<Rightarrow> string \<Rightarrow> Store \<Rightarrow> App result" where
  "OrdinaryScriptForOrg hash org name s =
     rbind (ordinaryScriptID hash org name) (\<lambda>i.
     rbind (appForOrg org i s) (\<lambda>app.
       if App_Platform app \<noteq> None \<or> App_Name app \<noteq> name then Inl ErrAppNotFound else Inr app))"

fun ensureLoop :: "(string \<Rightarrow> string) \<Rightarrow> string \<Rightarrow> (nat \<Rightarrow> string result) \<Rightarrow> App \<Rightarrow> nat list \<Rightarrow> Store \<Rightarrow> (App \<times> Store) result" where
  "ensureLoop hash base randoms app [] s = Inl (ErrText ''could not generate unique hostname'')"
| "ensureLoop hash base randoms app (attempt # attempts) s =
     rbind (if base \<noteq> [] then generatedHostname hash base (App_Name app) (App_OrgID app) attempt (randoms attempt) s
            else Inr (App_Hostname app)) (\<lambda>hostname.
       let app1 = app\<lparr>App_Hostname := hostname\<rparr> in
       case CreateApp app1 s of
         Inr s' \<Rightarrow> Inr (app1, s')
       | Inl e \<Rightarrow> if base = [] \<or> \<not> errorsIs e ErrAppExists then Inl e else ensureLoop hash base randoms app1 attempts s)"

definition EnsureOrdinaryScriptForOrg :: "(string \<Rightarrow> string) \<Rightarrow> string \<Rightarrow> (nat \<Rightarrow> string result) \<Rightarrow> string result \<Rightarrow> time
    \<Rightarrow> string \<Rightarrow> string \<Rightarrow> string \<Rightarrow> Store \<Rightarrow> (App \<times> Store) result" where
  "EnsureOrdinaryScriptForOrg hash base randoms token now org name actor s =
     rbind (ordinaryScriptID hash org name) (\<lambda>i.
       case OrdinaryScriptForOrg hash org name s of
         Inr app \<Rightarrow> Inr (app, s)
       | Inl e \<Rightarrow>
           if \<not> errorsIs e ErrAppNotFound then Inl e
           else rbind (GetOrganization org s) (\<lambda>_.
             rbind (enforceOrgLimit org ''worker'' s) (\<lambda>_.
             rbind token (\<lambda>runtimeToken.
               ensureLoop hash base randoms
                 (App0\<lparr>App_ID := i, App_OrgID := org, App_Name := name, App_RuntimeToken := runtimeToken,
                   App_CreatedBy := actor, App_CreatedAt := now\<rparr>) [0..<5] s))))"

end
