(* ===== verification/Platform_Policy.thy ===== *)
theory Platform_Policy
  imports Resource_Service Store_Steps Store_Invariants
begin

text \<open>
  The service layer of dispatch namespaces in \<open>platform.go\<close>: their creation, the grants of storage
  resources, the scripts below them, and which services and resources a worker may be bound to.
\<close>

section \<open>Namespaces\<close>

definition RuntimeKV :: string where "RuntimeKV = ''kv''"
definition RuntimeDatabase :: string where "RuntimeDatabase = ''db''"
definition RuntimeObjects :: string where "RuntimeObjects = ''objects''"

record CreateDispatchNamespaceInput =
  NewNs_Name :: string
  NewNs_Trust :: string
  NewNs_CustomerMode :: string

record NamespaceGrantsInput =
  Grants_ExpectedRevision :: int
  Grants_Grants :: "NamespaceResourceGrant list"

definition CreateDispatchNamespace_svc :: "string result \<Rightarrow> time \<Rightarrow> string \<Rightarrow> CreateDispatchNamespaceInput \<Rightarrow> Store
    \<Rightarrow> (DispatchNamespace \<times> Store) result" where
  "CreateDispatchNamespace_svc token now org input s =
     rbind (GetOrganization org s) (\<lambda>_.
       let name = trimSpace (NewNs_Name input);
           trust = (if NewNs_Trust input = [] then ''trusted'' else NewNs_Trust input);
           mode = (if NewNs_CustomerMode input = [] then ''organization'' else NewNs_CustomerMode input) in
       if \<not> platformName name
       then Inl (ErrText ''namespace name must be 1-63 lowercase letters, digits, underscores or hyphens'')
       else if trust \<noteq> ''trusted'' then Inl ErrUnsupportedExecutionProfile
       else if mode \<noteq> ''organization'' \<and> mode \<noteq> ''platform''
       then Inl (ErrText ''customer_mode must be organization or platform'')
       else rbind token (\<lambda>i.
         let ns = \<lparr>DNs_ID = i, DNs_OrgID = org, DNs_Name = name, DNs_Trust = trust, DNs_CustomerMode = mode,
               DNs_PolicyRevision = 1, DNs_Grants = [], DNs_CreatedAt = now\<rparr>
         in rbind (CreateDispatchNamespace ns s) (\<lambda>s'. Inr (ns, s'))))"

definition DispatchNamespaceForOrg :: "string \<Rightarrow> string \<Rightarrow> Store \<Rightarrow> DispatchNamespace result" where
  "DispatchNamespaceForOrg org i s =
     rbind (GetDispatchNamespace i s) (\<lambda>ns. if DNs_OrgID ns \<noteq> org then Inl ErrDispatchNamespaceNotFound else Inr ns)"

definition DispatchNamespacesForOrg :: "string \<Rightarrow> Store \<Rightarrow> DispatchNamespace list" where
  "DispatchNamespacesForOrg org s = ListDispatchNamespaces org s"

definition RenameDispatchNamespace_svc :: "string \<Rightarrow> string \<Rightarrow> string \<Rightarrow> Store \<Rightarrow> (DispatchNamespace \<times> Store) result" where
  "RenameDispatchNamespace_svc org i name s =
     rbind (DispatchNamespaceForOrg org i s) (\<lambda>_.
       if \<not> platformName name then Inl (ErrText ''invalid namespace name'')
       else rbind (RenameDispatchNamespace i name s) (\<lambda>s'.
         rbind (GetDispatchNamespace i s') (\<lambda>ns. Inr (ns, s'))))"

definition DeleteDispatchNamespace_svc :: "string \<Rightarrow> string \<Rightarrow> Store \<Rightarrow> Store result" where
  "DeleteDispatchNamespace_svc org i s = rbind (DispatchNamespaceForOrg org i s) (\<lambda>_. DeleteDispatchNamespace i s)"

definition NamespacePoliciesForOrg :: "string \<Rightarrow> string \<Rightarrow> Store \<Rightarrow> NamespacePolicy list result" where
  "NamespacePoliciesForOrg org i s = rbind (DispatchNamespaceForOrg org i s) (\<lambda>_. Inr (NamespacePolicies i s))"

section \<open>Grants\<close>

definition resourceOwnedByOrg :: "string \<Rightarrow> string \<Rightarrow> string \<Rightarrow> Store \<Rightarrow> unit result" where
  "resourceOwnedByOrg org kind i s =
     (if kind = RuntimeKV then
        rbind (GetKVNamespace i s) (\<lambda>r. if KVNs_OrgID r = org then Inr () else Inl ErrNamespaceGrantDenied)
      else if kind = RuntimeDatabase then
        rbind (GetDatabase i s) (\<lambda>r. if DB_OrgID r = org then Inr () else Inl ErrNamespaceGrantDenied)
      else if kind = RuntimeObjects then
        rbind (GetObjectStorageBucket i s) (\<lambda>r. if Bucket_OrgID r = org then Inr () else Inl ErrNamespaceGrantDenied)
      else Inl (ErrText ''resource kind must be kv, db or objects''))"

definition grantKey :: "NamespaceResourceGrant \<Rightarrow> string" where
  "grantKey g = Grant_Kind g @ CHR 0x00 # Grant_ResourceID g @ CHR 0x00 # Grant_CustomerID g"

fun grantsLoop :: "string \<Rightarrow> DispatchNamespace \<Rightarrow> string list \<Rightarrow> NamespaceResourceGrant list \<Rightarrow> Store \<Rightarrow> unit result" where
  "grantsLoop org ns seen [] s = Inr ()"
| "grantsLoop org ns seen (g # gs) s =
     (if (DNs_CustomerMode ns = ''organization'' \<and> Grant_CustomerID g \<noteq> [])
         \<or> (Grant_CustomerID g \<noteq> [] \<and> \<not> platformName (Grant_CustomerID g))
      then Inl (ErrText ''invalid grant customer_id'')
      else rbind (resourceOwnedByOrg org (Grant_Kind g) (Grant_ResourceID g) s) (\<lambda>_.
        if grantKey g \<in> set seen then Inl (ErrText ''duplicate resource grant'')
        else grantsLoop org ns (grantKey g # seen) gs s))"

definition SetNamespaceGrants :: "time \<Rightarrow> string \<Rightarrow> string \<Rightarrow> NamespaceGrantsInput \<Rightarrow> Store \<Rightarrow> (DispatchNamespace \<times> Store) result" where
  "SetNamespaceGrants now org i input s =
     rbind (DispatchNamespaceForOrg org i s) (\<lambda>ns.
     rbind (grantsLoop org ns [] (Grants_Grants input) s) (\<lambda>_.
       StoreSetNamespaceGrants i (Grants_ExpectedRevision input) (Grants_Grants input) now s))"

section \<open>Scripts\<close>

definition CreateNamespaceScript :: "bool \<Rightarrow> string result \<Rightarrow> string result \<Rightarrow> time \<Rightarrow> string \<Rightarrow> string
    \<Rightarrow> CreateNamespaceScriptInput \<Rightarrow> Store \<Rightarrow> (App \<times> Store) result" where
  "CreateNamespaceScript dispatchEnabled idToken runtimeToken now org i input s =
     rbind (DispatchNamespaceForOrg org i s) (\<lambda>ns.
       let kind = (if NewScript_Kind input = [] then ''customer'' else NewScript_Kind input);
           customer = NewScript_CustomerID input; execution = NewScript_Execution input in
       if \<not> platformName (NewScript_ScriptName input) then Inl (ErrText ''invalid script_name'')
       else if kind \<noteq> ''platform'' \<and> kind \<noteq> ''customer'' then Inl (ErrText ''kind must be platform or customer'')
       else if customer \<noteq> [] \<and> \<not> platformName customer then Inl (ErrText ''invalid customer_id'')
       else if DNs_CustomerMode ns = ''organization'' \<and> customer \<noteq> []
       then Inl (ErrText ''organization namespaces do not accept customer_id'')
       else if DNs_CustomerMode ns = ''platform'' \<and> kind = ''customer'' \<and> customer = []
       then Inl (ErrText ''customer_id is required for platform-hosted customer scripts'')
       else if kind = ''platform'' \<and> customer \<noteq> [] then Inl (ErrText ''platform scripts cannot claim a customer_id'')
       else if execution \<noteq> [] \<and> execution \<noteq> ''static'' \<and> execution \<noteq> ''dynamic''
       then Inl (ErrText ''execution must be static or dynamic'')
       else if execution = ''dynamic'' \<and> (\<not> dispatchEnabled \<or> kind \<noteq> ''customer'') then Inl ErrDispatchUnavailable
       else rbind (enforceOrgLimit org ''worker'' s) (\<lambda>_.
         rbind idToken (\<lambda>workerID.
         rbind runtimeToken (\<lambda>token.
           let app = App0\<lparr>App_ID := workerID, App_OrgID := org,
                 App_Name := (if NewScript_Name input = [] then NewScript_ScriptName input else NewScript_Name input),
                 App_RuntimeToken := token, App_CreatedAt := now,
                 App_Platform := Some \<lparr>Platform_Execution = execution, Platform_NamespaceID = i,
                   Platform_ScriptName = NewScript_ScriptName input, Platform_Kind = kind,
                   Platform_Exposure = ''private'', Platform_CustomerID = customer\<rparr>\<rparr>
           in rbind (CreateApp app s) (\<lambda>s'. Inr (app, s'))))))"

definition NamespaceScripts :: "string \<Rightarrow> string \<Rightarrow> Store \<Rightarrow> App list result" where
  "NamespaceScripts org i s =
     rbind (DispatchNamespaceForOrg org i s) (\<lambda>_.
       Inr (filter (\<lambda>a. case App_Platform a of None \<Rightarrow> False | Some p \<Rightarrow> Platform_NamespaceID p = i) (ListAppsByOrg org s)))"

definition NamespaceScript :: "string \<Rightarrow> string \<Rightarrow> string \<Rightarrow> Store \<Rightarrow> App result" where
  "NamespaceScript org i name s =
     rbind (NamespaceScripts org i s) (\<lambda>scripts.
       case find (\<lambda>a. case App_Platform a of None \<Rightarrow> False | Some p \<Rightarrow> Platform_ScriptName p = name) scripts of
         None \<Rightarrow> Inl ErrAppNotFound | Some a \<Rightarrow> Inr a)"

section \<open>What a worker may be bound to\<close>

definition namespaceResourceAllowed :: "App \<Rightarrow> string \<Rightarrow> string \<Rightarrow> Store \<Rightarrow> unit result" where
  "namespaceResourceAllowed app kind resource s =
     (case App_Platform app of
        None \<Rightarrow> Inr ()
      | Some p \<Rightarrow>
          rbind (GetDispatchNamespace (Platform_NamespaceID p) s) (\<lambda>ns.
            if DNs_OrgID ns \<noteq> App_OrgID app \<or> DNs_Trust ns \<noteq> ''trusted'' then Inl ErrNamespaceGrantDenied
            else if list_ex (\<lambda>g. Grant_Kind g = kind \<and> Grant_ResourceID g = resource
                \<and> Grant_CustomerID g = Platform_CustomerID p) (DNs_Grants ns)
            then Inr () else Inl ErrNamespaceGrantDenied))"

fun allAllowed :: "App \<Rightarrow> string \<Rightarrow> string list \<Rightarrow> Store \<Rightarrow> unit result" where
  "allAllowed app kind [] s = Inr ()"
| "allAllowed app kind (i # ids) s = rbind (namespaceResourceAllowed app kind i s) (\<lambda>_. allAllowed app kind ids s)"

definition checkNamespaceBindings :: "App \<Rightarrow> KVBinding list \<Rightarrow> DatabaseBinding list \<Rightarrow> ObjectStorageBucketBinding list \<Rightarrow> Store \<Rightarrow> unit result" where
  "checkNamespaceBindings app kvs dbs buckets s =
     (case App_Platform app of
        None \<Rightarrow> Inr ()
      | Some _ \<Rightarrow>
          rbind (allAllowed app RuntimeKV (map KVBind_ID kvs) s) (\<lambda>_.
          rbind (allAllowed app RuntimeDatabase (map DBBind_DatabaseID dbs) s) (\<lambda>_.
            allAllowed app RuntimeObjects (map ObjBind_BucketID buckets) s)))"

definition IsDynamic :: "App \<Rightarrow> bool" where
  "IsDynamic a = (IsPrivate a \<and> (case App_Platform a of None \<Rightarrow> False | Some p \<Rightarrow> Platform_Execution p = ''dynamic''))"

definition ServiceTargetAllowed :: "App \<Rightarrow> App \<Rightarrow> bool" where
  "ServiceTargetAllowed source target =
     (if App_OrgID source \<noteq> App_OrgID target then False
      else case (App_Platform source, App_Platform target) of
          (None, None) \<Rightarrow> True
        | (Some p, Some q) \<Rightarrow> Platform_NamespaceID p = Platform_NamespaceID q \<and> Platform_CustomerID p = Platform_CustomerID q
        | _ \<Rightarrow> False)"

section \<open>The service as a transition system\<close>

text \<open>No grant names the identifier: what a random token ensures for a resource about to be created.\<close>

definition ungranted :: "string \<Rightarrow> Store \<Rightarrow> bool" where
  "ungranted i s = list_all (\<lambda>ns. list_all (\<lambda>g. Grant_ResourceID g \<noteq> i) (DNs_Grants ns)) (mvals (dispatchNamespaces s))"

inductive policy_step :: "Store \<Rightarrow> Store \<Rightarrow> bool" where
  p_identity: "identity_step s s' \<Longrightarrow> policy_step s s'"
| p_oauth: "oauth_step s s' \<Longrightarrow> policy_step s s'"
| p_deploy: "deploy_step s s' \<Longrightarrow> policy_step s s'"
| p_data: "data_step s s' \<Longrightarrow> policy_step s s'"
| p_app: "CreateApp app s = Inr s' \<Longrightarrow> policy_step s s'"
| p_patch: "PatchApp appID update s = Inr (app, s') \<Longrightarrow> policy_step s s'"
| p_unapp: "DeleteApp appID s = Inr s' \<Longrightarrow> policy_step s s'"
| p_scripts: "DeleteNamespaceScripts org i ids s = Inr s' \<Longrightarrow> policy_step s s'"
| p_namespace: "CreateDispatchNamespace_svc token now org new s = Inr (ns, s') \<Longrightarrow> policy_step s s'"
| p_rename: "RenameDispatchNamespace_svc org i name s = Inr (ns, s') \<Longrightarrow> policy_step s s'"
| p_unnamespace: "DeleteDispatchNamespace_svc org i s = Inr s' \<Longrightarrow> policy_step s s'"
| p_grants: "SetNamespaceGrants now org i input s = Inr (ns, s') \<Longrightarrow> policy_step s s'"
| p_kv: "ungranted i s \<Longrightarrow> CreateKVNamespace_svc (Inr i) now kv' s = Inr (n, s') \<Longrightarrow> policy_step s s'"
| p_kv_update: "UpdateKVNamespace_svc i name s = Inr (n, s') \<Longrightarrow> policy_step s s'"
| p_kv_update_org: "UpdateKVNamespaceForOrg org i name s = Inr (n, s') \<Longrightarrow> policy_step s s'"
| p_kv_delete: "DeleteKVNamespace_svc i s = Inr s' \<Longrightarrow> policy_step s s'"
| p_db: "ungranted i s \<Longrightarrow> CreateDatabase_svc (Inr i) now db' s = Inr (d, s') \<Longrightarrow> policy_step s s'"
| p_db_delete: "DeleteDatabase_svc remove i s = (r, s') \<Longrightarrow> policy_step s s'"
| p_bucket: "ungranted i s \<Longrightarrow> CreateObjectStorageBucket_svc (Inr i) now bucket' s = Inr (b, s') \<Longrightarrow> policy_step s s'"
| p_bucket_update: "UpdateObjectStorageBucket_svc i name s = Inr (b, s') \<Longrightarrow> policy_step s s'"
| p_bucket_update_org: "UpdateObjectStorageBucketForOrg org i name s = Inr (b, s') \<Longrightarrow> policy_step s s'"
| p_bucket_delete: "DeleteObjectStorageBucket_svc i s = Inr s' \<Longrightarrow> policy_step s s'"

definition policy_reachable :: "Store \<Rightarrow> bool" where
  "policy_reachable s = policy_step\<^sup>*\<^sup>* NewStore s"

section \<open>Grants stay inside their organization\<close>

definition resourceOrg :: "string \<Rightarrow> string \<Rightarrow> Store \<Rightarrow> string option" where
  "resourceOrg kind i s =
     (if kind = RuntimeKV then map_option KVNs_OrgID (mget (kvNamespaces s) i)
      else if kind = RuntimeDatabase then map_option DB_OrgID (mget (databases s) i)
      else if kind = RuntimeObjects then map_option Bucket_OrgID (mget (objectBuckets s) i) else None)"

definition grantInside :: "string \<Rightarrow> Store \<Rightarrow> NamespaceResourceGrant \<Rightarrow> bool" where
  "grantInside org s g = (case resourceOrg (Grant_Kind g) (Grant_ResourceID g) s of None \<Rightarrow> True | Some o' \<Rightarrow> o' = org)"

definition grants_inside :: "Store \<Rightarrow> bool" where
  "grants_inside s \<longleftrightarrow> (\<forall>k ns. mget (dispatchNamespaces s) k = Some ns \<longrightarrow> list_all (grantInside (DNs_OrgID ns) s) (DNs_Grants ns))"

lemma ungranted_iff: "ungranted i s \<longleftrightarrow> (\<forall>k ns. mget (dispatchNamespaces s) k = Some ns \<longrightarrow> list_all (\<lambda>g. Grant_ResourceID g \<noteq> i) (DNs_Grants ns))"
  by (simp add: ungranted_def list_all_iff ball_mvals)

text \<open>A step that leaves the namespaces alone and gives no organization to an identifier a grant names.\<close>

lemma grants_inside_keep:
  assumes "grants_inside s" "dispatchNamespaces s' = dispatchNamespaces s"
    and "\<And>kind i o'. resourceOrg kind i s' = Some o' \<Longrightarrow> resourceOrg kind i s = Some o' \<or> ungranted i s"
  shows "grants_inside s'"
  unfolding grants_inside_def
proof (intro allI impI)
  fix k ns
  assume k: "mget (dispatchNamespaces s') k = Some ns"
  have "grantInside (DNs_OrgID ns) s' g" if "g \<in> set (DNs_Grants ns)" for g
  proof (cases "resourceOrg (Grant_Kind g) (Grant_ResourceID g) s'")
    case (Some o')
    have "\<not> ungranted (Grant_ResourceID g) s" using k that assms(2) by (auto simp: ungranted_iff list_all_iff)
    then have "resourceOrg (Grant_Kind g) (Grant_ResourceID g) s = Some o'" using assms(3)[OF Some] by blast
    then show ?thesis using assms(1,2) k that Some by (fastforce simp: grants_inside_def grantInside_def list_all_iff)
  qed (simp add: grantInside_def)
  then show "list_all (grantInside (DNs_OrgID ns) s') (DNs_Grants ns)" by (simp add: list_all_iff)
qed

lemma grants_inside_frame:
  assumes "grants_inside s" "dispatchNamespaces s' = dispatchNamespaces s" "kvNamespaces s' = kvNamespaces s"
    "databases s' = databases s" "objectBuckets s' = objectBuckets s"
  shows "grants_inside s'"
proof -
  have "resourceOrg kind i s' = resourceOrg kind i s" for kind i using assms(3-5) by (simp add: resourceOrg_def)
  then show ?thesis by (intro grants_inside_keep[OF assms(1,2)]) simp
qed

text \<open>A step that changes one namespace and no resource.\<close>

lemma grants_inside_namespace:
  assumes "grants_inside s" "kvNamespaces s' = kvNamespaces s" "databases s' = databases s" "objectBuckets s' = objectBuckets s"
    and "\<And>k ns. mget (dispatchNamespaces s') k = Some ns \<Longrightarrow>
      (\<exists>old. mget (dispatchNamespaces s) k = Some old \<and> DNs_OrgID ns = DNs_OrgID old \<and> DNs_Grants ns = DNs_Grants old)
      \<or> list_all (grantInside (DNs_OrgID ns) s) (DNs_Grants ns)"
  shows "grants_inside s'"
proof -
  have "grantInside org s' g = grantInside org s g" for org g
    using assms(2-4) by (simp add: grantInside_def resourceOrg_def)
  then have same: "list_all (grantInside org s') gs = list_all (grantInside org s) gs" for org gs by (simp add: list_all_iff)
  show ?thesis
    unfolding grants_inside_def
  proof (intro allI impI)
    fix k ns
    assume "mget (dispatchNamespaces s') k = Some ns"
    from assms(5)[OF this] show "list_all (grantInside (DNs_OrgID ns) s') (DNs_Grants ns)"
      using assms(1) unfolding same grants_inside_def by metis
  qed
qed

lemma resourceOwned_inside: "resourceOwnedByOrg org (Grant_Kind g) (Grant_ResourceID g) s = Inr () \<Longrightarrow> grantInside org s g"
  by (auto simp: resourceOwnedByOrg_def grantInside_def resourceOrg_def GetKVNamespace_def GetDatabase_def GetObjectStorageBucket_def
      rbind_Inr_iff split: if_splits option.splits)

lemma grantsLoop_inside: "grantsLoop org ns seen gs s = Inr () \<Longrightarrow> list_all (grantInside org s) gs"
  by (induction org ns seen gs s rule: grantsLoop.induct) (auto simp: rbind_Inr_iff resourceOwned_inside split: if_splits)

text \<open>What the operations on the three resource tables do to the organizations of resources.\<close>

lemma kv_org_create:
  "CreateKVNamespace n s = Inr s' \<Longrightarrow> dispatchNamespaces s' = dispatchNamespaces s
     \<and> (resourceOrg kind i s' = Some o' \<longrightarrow> resourceOrg kind i s = Some o' \<or> i = KVNs_ID n)"
  by (auto simp: store_ops resourceOrg_def split: if_splits)

lemma db_org_create:
  "CreateDatabase d s = Inr s' \<Longrightarrow> dispatchNamespaces s' = dispatchNamespaces s
     \<and> (resourceOrg kind i s' = Some o' \<longrightarrow> resourceOrg kind i s = Some o' \<or> i = DB_ID d)"
  by (auto simp: store_ops resourceOrg_def split: if_splits)

lemma bucket_org_create:
  "CreateObjectStorageBucket b s = Inr s' \<Longrightarrow> dispatchNamespaces s' = dispatchNamespaces s
     \<and> (resourceOrg kind i s' = Some o' \<longrightarrow> resourceOrg kind i s = Some o' \<or> i = Bucket_ID b)"
  by (auto simp: store_ops resourceOrg_def split: if_splits)

lemma org_update:
  "UpdateKVNamespace n s = Inr s' \<Longrightarrow> dispatchNamespaces s' = dispatchNamespaces s
     \<and> (resourceOrg kind i s' = Some o' \<longrightarrow> resourceOrg kind i s = Some o')"
  "UpdateObjectStorageBucket b s = Inr s' \<Longrightarrow> dispatchNamespaces s' = dispatchNamespaces s
     \<and> (resourceOrg kind i s' = Some o' \<longrightarrow> resourceOrg kind i s = Some o')"
  by (auto simp: store_ops resourceOrg_def split: if_splits option.splits)

lemma org_delete:
  "DeleteKVNamespace j s = Inr s' \<Longrightarrow> dispatchNamespaces s' = dispatchNamespaces s
     \<and> (resourceOrg kind i s' = Some o' \<longrightarrow> resourceOrg kind i s = Some o')"
  "DeleteDatabase j s = Inr s' \<Longrightarrow> dispatchNamespaces s' = dispatchNamespaces s
     \<and> (resourceOrg kind i s' = Some o' \<longrightarrow> resourceOrg kind i s = Some o')"
  "DeleteObjectStorageBucket j s = Inr s' \<Longrightarrow> dispatchNamespaces s' = dispatchNamespaces s
     \<and> (resourceOrg kind i s' = Some o' \<longrightarrow> resourceOrg kind i s = Some o')"
  by (auto simp: store_ops resourceOrg_def split: if_splits option.splits)

lemma app_ops_frame:
  "CreateApp app s = Inr s' \<Longrightarrow> dispatchNamespaces s' = dispatchNamespaces s \<and> kvNamespaces s' = kvNamespaces s
     \<and> databases s' = databases s \<and> objectBuckets s' = objectBuckets s"
  "PatchApp appID update s = Inr (app, s') \<Longrightarrow> dispatchNamespaces s' = dispatchNamespaces s \<and> kvNamespaces s' = kvNamespaces s
     \<and> databases s' = databases s \<and> objectBuckets s' = objectBuckets s"
  "DeleteApp appID s = Inr s' \<Longrightarrow> dispatchNamespaces s' = dispatchNamespaces s \<and> kvNamespaces s' = kvNamespaces s
     \<and> databases s' = databases s \<and> objectBuckets s' = objectBuckets s"
  "DeleteNamespaceScripts org i ids s = Inr s' \<Longrightarrow> dispatchNamespaces s' = dispatchNamespaces s \<and> kvNamespaces s' = kvNamespaces s
     \<and> databases s' = databases s \<and> objectBuckets s' = objectBuckets s"
  using deleteApps_frame[of ids s s']
  by (auto simp: store_ops Let_def rbind_Inr_iff split: if_splits option.splits)

lemma namespace_ops_frame:
  "CreateDispatchNamespace ns s = Inr s' \<Longrightarrow> kvNamespaces s' = kvNamespaces s \<and> databases s' = databases s \<and> objectBuckets s' = objectBuckets s
     \<and> dispatchNamespaces s' = mput (DNs_ID ns) ns (dispatchNamespaces s)"
  "RenameDispatchNamespace i name s = Inr s' \<Longrightarrow> kvNamespaces s' = kvNamespaces s \<and> databases s' = databases s \<and> objectBuckets s' = objectBuckets s
     \<and> (\<exists>n. mget (dispatchNamespaces s) i = Some n \<and> dispatchNamespaces s' = mput i (n\<lparr>DNs_Name := name\<rparr>) (dispatchNamespaces s))"
  "DeleteDispatchNamespace i s = Inr s' \<Longrightarrow> kvNamespaces s' = kvNamespaces s \<and> databases s' = databases s \<and> objectBuckets s' = objectBuckets s
     \<and> dispatchNamespaces s' = mdel i (dispatchNamespaces s)"
  "StoreSetNamespaceGrants i revision grants now s = Inr (ns', s') \<Longrightarrow> kvNamespaces s' = kvNamespaces s \<and> databases s' = databases s
     \<and> objectBuckets s' = objectBuckets s \<and> (\<exists>n. mget (dispatchNamespaces s) i = Some n \<and> dispatchNamespaces s' = mput i ns' (dispatchNamespaces s)
       \<and> DNs_OrgID ns' = DNs_OrgID n \<and> DNs_Grants ns' = grants)"
  by (auto simp: store_ops Let_def split: if_splits option.splits)

lemma grants_inside_step:
  assumes "policy_step s s'" "grants_inside s"
  shows "grants_inside s'"
  using assms(1)
proof cases
  case p_identity
  then show ?thesis using identity_frame by (intro grants_inside_frame[OF assms(2)]) simp_all
next
  case p_oauth
  then show ?thesis using oauth_frame by (intro grants_inside_frame[OF assms(2)]) simp_all
next
  case p_deploy
  then show ?thesis using deploy_frame by (intro grants_inside_frame[OF assms(2)]) simp_all
next
  case p_data
  then show ?thesis using data_frame by (intro grants_inside_frame[OF assms(2)]) simp_all
next
  case p_app
  then show ?thesis using app_ops_frame(1) by (intro grants_inside_frame[OF assms(2)]) simp_all
next
  case p_patch
  then show ?thesis using app_ops_frame(2) by (intro grants_inside_frame[OF assms(2)]) simp_all
next
  case p_unapp
  then show ?thesis using app_ops_frame(3) by (intro grants_inside_frame[OF assms(2)]) simp_all
next
  case p_scripts
  then show ?thesis using app_ops_frame(4) by (intro grants_inside_frame[OF assms(2)]) simp_all
next
  case (p_namespace token now org new ns)
  then have "CreateDispatchNamespace ns s = Inr s'" "DNs_Grants ns = []"
    by (auto simp: CreateDispatchNamespace_svc_def rbind_Inr_iff Let_def split: if_splits)
  note f = namespace_ops_frame(1)[OF this(1)] this(2)
  show ?thesis using f by (intro grants_inside_namespace[OF assms(2)]) (auto split: if_splits)
next
  case (p_rename org i name ns)
  then have "RenameDispatchNamespace i name s = Inr s'"
    by (auto simp: RenameDispatchNamespace_svc_def rbind_Inr_iff split: if_splits)
  note f = namespace_ops_frame(2)[OF this]
  show ?thesis using f by (intro grants_inside_namespace[OF assms(2)]) (auto split: if_splits)
next
  case (p_unnamespace org i)
  then have "DeleteDispatchNamespace i s = Inr s'"
    by (auto simp: DeleteDispatchNamespace_svc_def rbind_Inr_iff split: if_splits)
  note f = namespace_ops_frame(3)[OF this]
  show ?thesis using f by (intro grants_inside_namespace[OF assms(2)]) (auto split: if_splits)
next
  case (p_grants now org i input ns)
  then obtain old where old: "DispatchNamespaceForOrg org i s = Inr old" "grantsLoop org old [] (Grants_Grants input) s = Inr ()"
    and set: "StoreSetNamespaceGrants i (Grants_ExpectedRevision input) (Grants_Grants input) now s = Inr (ns, s')"
    by (auto simp: SetNamespaceGrants_def rbind_Inr_iff)
  have "mget (dispatchNamespaces s) i = Some old" "DNs_OrgID old = org"
    using old(1) by (auto simp: DispatchNamespaceForOrg_def GetDispatchNamespace_def rbind_Inr_iff split: option.splits if_splits)
  then show ?thesis
    using namespace_ops_frame(4)[OF set] grantsLoop_inside[OF old(2)]
    by (intro grants_inside_namespace[OF assms(2)]) (auto split: if_splits)
next
  case (p_kv i now kv' n)
  then have "CreateKVNamespace n s = Inr s'" "KVNs_ID n = i"
    by (auto simp: CreateKVNamespace_svc_def Let_def rbind_Inr_iff split: if_splits)
  then show ?thesis using kv_org_create[of n s s'] p_kv(1) by (intro grants_inside_keep[OF assms(2)]) blast+
next
  case (p_db i now db' d)
  then have "CreateDatabase d s = Inr s'" "DB_ID d = i"
    by (auto simp: CreateDatabase_svc_def Let_def rbind_Inr_iff split: if_splits)
  then show ?thesis using db_org_create[of d s s'] p_db(1) by (intro grants_inside_keep[OF assms(2)]) blast+
next
  case (p_bucket i now bucket' b)
  then have "CreateObjectStorageBucket b s = Inr s'" "Bucket_ID b = i"
    by (auto simp: CreateObjectStorageBucket_svc_def Let_def rbind_Inr_iff split: if_splits)
  then show ?thesis using bucket_org_create[of b s s'] p_bucket(1) by (intro grants_inside_keep[OF assms(2)]) blast+
next
  case (p_kv_update i name n)
  then obtain m where "UpdateKVNamespace m s = Inr s'"
    by (auto simp: UpdateKVNamespace_svc_def renameKV_def Let_def rbind_Inr_iff split: if_splits)
  then show ?thesis using org_update(1) by (intro grants_inside_keep[OF assms(2)]) blast+
next
  case (p_kv_update_org org i name n)
  then obtain m where "UpdateKVNamespace m s = Inr s'"
    by (auto simp: UpdateKVNamespaceForOrg_def renameKV_def Let_def rbind_Inr_iff split: if_splits)
  then show ?thesis using org_update(1) by (intro grants_inside_keep[OF assms(2)]) blast+
next
  case (p_bucket_update i name b)
  then obtain m where "UpdateObjectStorageBucket m s = Inr s'"
    by (auto simp: UpdateObjectStorageBucket_svc_def renameBucket_def Let_def rbind_Inr_iff split: if_splits)
  then show ?thesis using org_update(2) by (intro grants_inside_keep[OF assms(2)]) blast+
next
  case (p_bucket_update_org org i name b)
  then obtain m where "UpdateObjectStorageBucket m s = Inr s'"
    by (auto simp: UpdateObjectStorageBucketForOrg_def renameBucket_def Let_def rbind_Inr_iff split: if_splits)
  then show ?thesis using org_update(2) by (intro grants_inside_keep[OF assms(2)]) blast+
next
  case (p_kv_delete i)
  then obtain j where "DeleteKVNamespace j s = Inr s'" by (auto simp: DeleteKVNamespace_svc_def split: if_splits)
  then show ?thesis using org_delete(1) by (intro grants_inside_keep[OF assms(2)]) blast+
next
  case (p_db_delete remove i r)
  then have "s' = s \<or> (\<exists>j. DeleteDatabase j s = Inr s')" by (auto simp: DeleteDatabase_svc_def split: if_splits sum.splits)
  then show ?thesis using org_delete(2) assms(2) by (elim disjE) (simp, intro grants_inside_keep[OF assms(2)], blast+)
next
  case (p_bucket_delete i)
  then obtain j where "DeleteObjectStorageBucket j s = Inr s'" by (auto simp: DeleteObjectStorageBucket_svc_def split: if_splits)
  then show ?thesis using org_delete(3) by (intro grants_inside_keep[OF assms(2)]) blast+
qed

lemma grants_inside_reachable: "policy_reachable s \<Longrightarrow> grants_inside s"
  unfolding policy_reachable_def
proof (induction rule: rtranclp_induct)
  case base
  then show ?case by (simp add: grants_inside_def NewStore_def)
qed (rule grants_inside_step)

section \<open>The property\<close>

text \<open>A grant of the worker's namespace names the resource for the worker's customer, and the resource,
  if it exists, belongs to the worker's organization.\<close>

definition grantedTo :: "App \<Rightarrow> WorkerPlatform \<Rightarrow> Store \<Rightarrow> string \<Rightarrow> string \<Rightarrow> bool" where
  "grantedTo app p s kind i \<longleftrightarrow>
     (\<exists>ns g. mget (dispatchNamespaces s) (Platform_NamespaceID p) = Some ns \<and> DNs_OrgID ns = App_OrgID app \<and> g \<in> set (DNs_Grants ns)
       \<and> Grant_Kind g = kind \<and> Grant_ResourceID g = i \<and> Grant_CustomerID g = Platform_CustomerID p)
     \<and> (resourceOrg kind i s = None \<or> resourceOrg kind i s = Some (App_OrgID app))"

lemma namespaceResourceAllowed_granted:
  assumes "grants_inside s" "App_Platform app = Some p" "namespaceResourceAllowed app kind i s = Inr ()"
  shows "grantedTo app p s kind i"
proof -
  obtain ns where ns: "mget (dispatchNamespaces s) (Platform_NamespaceID p) = Some ns" "DNs_OrgID ns = App_OrgID app"
    and "list_ex (\<lambda>g. Grant_Kind g = kind \<and> Grant_ResourceID g = i \<and> Grant_CustomerID g = Platform_CustomerID p) (DNs_Grants ns)"
    using assms(2,3) by (auto simp: namespaceResourceAllowed_def GetDispatchNamespace_def rbind_Inr_iff split: if_splits option.splits)
  then obtain g where g: "g \<in> set (DNs_Grants ns)" "Grant_Kind g = kind" "Grant_ResourceID g = i" "Grant_CustomerID g = Platform_CustomerID p"
    by (auto simp: list_ex_iff)
  have "grantInside (DNs_OrgID ns) s g" using assms(1) ns(1) g(1) by (auto simp: grants_inside_def list_all_iff)
  then have "resourceOrg kind i s = None \<or> resourceOrg kind i s = Some (App_OrgID app)"
    using g ns(2) by (auto simp: grantInside_def split: option.splits)
  then show ?thesis using ns g by (auto simp: grantedTo_def)
qed

lemma allAllowed_granted:
  "grants_inside s \<Longrightarrow> App_Platform app = Some p \<Longrightarrow> allAllowed app kind ids s = Inr () \<Longrightarrow> list_all (grantedTo app p s kind) ids"
  by (induction ids) (auto simp: rbind_Inr_iff namespaceResourceAllowed_granted)

text \<open>C6: whatever sequence of service operations led to the store, the bindings accepted for a script
  of a namespace are resources its namespace grants to its customer, and none of them belongs to
  another organization.\<close>

theorem bindings_confined:
  assumes "policy_reachable s" "App_Platform app = Some p" "checkNamespaceBindings app kvs dbs buckets s = Inr ()"
  shows "list_all (grantedTo app p s RuntimeKV) (map KVBind_ID kvs) \<and> list_all (grantedTo app p s RuntimeDatabase) (map DBBind_DatabaseID dbs)
    \<and> list_all (grantedTo app p s RuntimeObjects) (map ObjBind_BucketID buckets)"
  using assms(3) allAllowed_granted[OF grants_inside_reachable[OF assms(1)] assms(2)]
  by (auto simp: checkNamespaceBindings_def assms(2) rbind_Inr_iff)

text \<open>A store with a namespace that grants one KV namespace.\<close>

definition pol1 :: Store where
  "pol1 = projr (CreateOrganization (Organization0\<lparr>Org_ID := ''o'', Org_Name := ''o''\<rparr>) NewStore)"

definition pol2 :: Store where
  "pol2 = snd (projr (CreateDispatchNamespace_svc (Inr ''n'') 0 ''o''
     \<lparr>NewNs_Name = ''n'', NewNs_Trust = [], NewNs_CustomerMode = []\<rparr> pol1))"

definition pol3 :: Store where
  "pol3 = snd (projr (CreateKVNamespace_svc (Inr ''k'') 0
     \<lparr>NewKV_OrgID = ''o'', NewKV_Name = ''k'', NewKV_ExternalID = [], NewKV_OAuthClientID = []\<rparr> pol2))"

definition pol4 :: Store where
  "pol4 = snd (projr (SetNamespaceGrants 0 ''o'' ''n''
     \<lparr>Grants_ExpectedRevision = 1, Grants_Grants = [\<lparr>Grant_Kind = ''kv'', Grant_ResourceID = ''k'', Grant_CustomerID = []\<rparr>]\<rparr> pol3))"

definition polPlatform :: WorkerPlatform where
  "polPlatform = WorkerPlatform0\<lparr>Platform_NamespaceID := ''n'', Platform_Kind := ''customer'', Platform_Exposure := ''private''\<rparr>"

definition polApp :: App where
  "polApp = App0\<lparr>App_ID := ''w'', App_OrgID := ''o'', App_Platform := Some polPlatform\<rparr>"

lemma succeeded: "\<not> isl r \<Longrightarrow> r = Inr (fst (projr r), snd (projr r))"
  by (cases r) simp_all

lemma pol_reachable: "policy_reachable pol4"
proof -
  have "\<not> isl (CreateOrganization (Organization0\<lparr>Org_ID := ''o'', Org_Name := ''o''\<rparr>) NewStore)" by code_simp
  then have "CreateOrganization (Organization0\<lparr>Org_ID := ''o'', Org_Name := ''o''\<rparr>) NewStore = Inr pol1"
    unfolding pol1_def by (simp add: sum.collapse(2))
  then have s1: "policy_step NewStore pol1" by (intro p_identity identity_step.intros)
  have "\<not> isl (CreateDispatchNamespace_svc (Inr ''n'') 0 ''o'' \<lparr>NewNs_Name = ''n'', NewNs_Trust = [], NewNs_CustomerMode = []\<rparr> pol1)"
    by code_simp
  then have s2: "policy_step pol1 pol2" unfolding pol2_def by (rule p_namespace[OF succeeded])
  have "\<not> isl (CreateKVNamespace_svc (Inr ''k'') 0 \<lparr>NewKV_OrgID = ''o'', NewKV_Name = ''k'', NewKV_ExternalID = [], NewKV_OAuthClientID = []\<rparr> pol2)"
    by code_simp
  note kv = succeeded[OF this]
  have "ungranted ''k'' pol2" by code_simp
  then have s3: "policy_step pol2 pol3" unfolding pol3_def by (rule p_kv[OF _ kv])
  have "\<not> isl (SetNamespaceGrants 0 ''o'' ''n''
     \<lparr>Grants_ExpectedRevision = 1, Grants_Grants = [\<lparr>Grant_Kind = ''kv'', Grant_ResourceID = ''k'', Grant_CustomerID = []\<rparr>]\<rparr> pol3)"
    by code_simp
  then have s4: "policy_step pol3 pol4" unfolding pol4_def by (rule p_grants[OF succeeded])
  show ?thesis
    unfolding policy_reachable_def using s1 s2 s3 s4 by (meson rtranclp.rtrancl_into_rtrancl rtranclp.rtrancl_refl)
qed

theorem bindings_confined_witness: "grantedTo polApp polPlatform pol4 RuntimeKV ''k''"
proof -
  have "checkNamespaceBindings polApp [KVBinding0\<lparr>KVBind_ID := ''k''\<rparr>] [] [] pol4 = Inr ()" by code_simp
  from bindings_confined[OF pol_reachable _ this] show ?thesis by (simp add: polApp_def KVBinding0_def)
qed

end
