(* ===== verification/Deploy_Input.thy ===== *)
theory Deploy_Input
  imports Asset_Routing Cron Platform_Policy Traffic Store_Deployments Execution_Registry
begin

text \<open>
  What a deployment request becomes: the checks and normalisations that \<open>Deploy\<close> in \<open>service.go\<close>
  applies to the files, assets, bindings, variables and triggers of a request before anything
  is stored. The MIME table, JSON validity and the pattern that recognises an exported class are
  parameters: they are outside the repository.
\<close>

section \<open>Files\<close>

definition workerFormat :: "string \<Rightarrow> nat \<Rightarrow> string result" where
  "workerFormat format fileCount =
     (let f = trimSpace format in
      if f = [] then Inr (if fileCount = 1 then ''service-worker'' else ''modules'')
      else if f = ''modules'' \<or> f = ''service-worker'' then Inr format
      else Inl (ErrText (''format must be '' @ quoted ''modules'' @ '' or '' @ quoted ''service-worker'')))"

definition maxWorkerBundleSize :: int where
  "maxWorkerBundleSize = 10 * 2 ^ 20"

definition fileSize :: "WorkerFile \<Rightarrow> int" where
  "fileSize file = int (length (case File_Wasm file of Some wasm \<Rightarrow> wasm | None \<Rightarrow> File_Content file))"

fun filesLoop :: "WorkerFile list \<Rightarrow> string list \<Rightarrow> int \<Rightarrow> WorkerFile list \<Rightarrow> WorkerFile list result" where
  "filesLoop acc seen totalSize [] = Inr acc"
| "filesLoop acc seen totalSize (file # files) =
     (let p = pathClean (trimSpace (File_Path file)) in
      if prefix ''nanoflare-internal:'' p \<or> prefix ''__nanoflare_'' p
      then Inl (ErrText ''worker file uses a reserved runtime module name'')
      else if p = ''.'' \<or> prefix ''/'' p \<or> prefix ''../'' p
      then Inl (ErrText ''file paths must be relative and remain inside the worker'')
      else if p \<in> set seen then Inl (ErrText (''duplicate worker file path '' @ quoted p))
      else rbind (validateWorkerWasm file) (\<lambda>_.
        let totalSize1 = totalSize + fileSize file in
        if totalSize1 > maxWorkerBundleSize then Inl (ErrText (''worker files exceed '' @ showInt maxWorkerBundleSize @ '' byte limit''))
        else filesLoop (acc @ [file\<lparr>File_Path := p, File_Name := pathBase p, File_Size := fileSize file\<rparr>]) (p # seen) totalSize1 files))"

definition deploymentFiles :: "WorkerFile list \<Rightarrow> string \<Rightarrow> (WorkerFile list \<times> string) result" where
  "deploymentFiles files entrypoint0 =
     (if files = [] then Inl (ErrText ''files are required'')
      else rbind (filesLoop [] [] 0 files) (\<lambda>result.
        let e = pathClean (trimSpace entrypoint0); entrypoint = (if e = ''.'' then File_Path (hd result) else e) in
        if entrypoint \<notin> set (map File_Path result) then Inl (ErrText ''entrypoint must name a deployed worker file'')
        else if list_ex (\<lambda>file. File_Path file = entrypoint \<and> File_Wasm file \<noteq> None) result
        then Inl (ErrText ''entrypoint must be JavaScript'')
        else Inr (result, entrypoint)))"

definition bundleSize :: "WorkerFile list \<Rightarrow> int" where
  "bundleSize files = sum_list (map File_Size files)"

section \<open>Assets\<close>

definition detectAssetContentType :: "(string \<Rightarrow> string) \<Rightarrow> string \<Rightarrow> string" where
  "detectAssetContentType mimeType assetPath =
     (let v = mimeType (toLower (pathExt assetPath)) in if v \<noteq> [] then v else ''application/octet-stream'')"

fun assetsLoop :: "(string \<Rightarrow> string) \<Rightarrow> AssetFile list \<Rightarrow> string list \<Rightarrow> AssetFile list \<Rightarrow> AssetFile list result" where
  "assetsLoop mimeType acc seen [] = Inr acc"
| "assetsLoop mimeType acc seen (file # files) =
     (let p = pathClean (trimSpace (Asset_Path file)) in
      if p = ''.'' \<or> prefix ''/'' p \<or> prefix ''../'' p
      then Inl (ErrText ''asset paths must be relative and remain inside the asset directory'')
      else if p \<in> set seen then Inl (ErrText (''duplicate asset path '' @ quoted p))
      else assetsLoop mimeType
        (acc @ [file\<lparr>Asset_Path := p, Asset_Size := int (length (Asset_Data file)),
           Asset_ContentType := (if Asset_ContentType file = [] then detectAssetContentType mimeType p else Asset_ContentType file)\<rparr>])
        (p # seen) files)"

text \<open>The source also sets a field of its own copy of the asset configuration, which nobody reads.\<close>

definition deploymentAssets :: "(string \<Rightarrow> string) \<Rightarrow> AssetFile list \<Rightarrow> AssetConfig \<Rightarrow> AssetFile list result" where
  "deploymentAssets mimeType files config = (if files = [] then Inr [] else assetsLoop mimeType [] [] files)"

definition normalizeAssetConfig :: "AssetConfig \<Rightarrow> AssetConfig result" where
  "normalizeAssetConfig config =
     (let binding = trimSpace (AssetCfg_Binding config);
          binding1 = (if binding = [] then ''ASSETS'' else binding);
          html = (if AssetCfg_HTMLHandling config = [] then ''auto-trailing-slash'' else AssetCfg_HTMLHandling config);
          missing = (if AssetCfg_NotFoundHandling config = [] then ''404-page'' else AssetCfg_NotFoundHandling config) in
      if html \<noteq> ''none'' \<and> html \<noteq> ''auto-trailing-slash''
      then Inl (ErrText (''asset_config.html_handling must be '' @ quoted ''none'' @ '' or '' @ quoted ''auto-trailing-slash''))
      else if missing \<noteq> ''none'' \<and> missing \<noteq> ''404-page'' \<and> missing \<noteq> ''single-page-application''
      then Inl (ErrText (''asset_config.not_found_handling must be '' @ quoted ''none'' @ '', '' @ quoted ''404-page'' @ '', or '' @ quoted ''single-page-application''))
      else rbind (validateRunWorkerFirst (AssetCfg_RunWorkerFirst config)) (\<lambda>_.
        Inr (config\<lparr>AssetCfg_Binding := binding1, AssetCfg_HTMLHandling := html, AssetCfg_NotFoundHandling := missing\<rparr>)))"

definition deploymentAssetBindingName :: "AssetConfig \<Rightarrow> string" where
  "deploymentAssetBindingName config = (if trimSpace (AssetCfg_Binding config) = [] then ''ASSETS'' else trimSpace (AssetCfg_Binding config))"

section \<open>Bindings\<close>

fun kvLoop :: "KVBinding list \<Rightarrow> string list \<Rightarrow> KVBinding list \<Rightarrow> Store \<Rightarrow> KVBinding list result" where
  "kvLoop acc seen [] s = Inr acc"
| "kvLoop acc seen (b0 # bs) s =
     (let b = \<lparr>KVBind_Binding = trimSpace (KVBind_Binding b0), KVBind_ID = trimSpace (KVBind_ID b0), KVBind_PreviewID = trimSpace (KVBind_PreviewID b0)\<rparr> in
      if KVBind_Binding b = [] then Inl (ErrText ''kv_namespaces.binding is required'')
      else if KVBind_ID b = [] then Inl (ErrText ''kv_namespaces.id is required'')
      else if KVBind_Binding b \<in> set seen then Inl (ErrText (''kv_namespaces binding '' @ quoted (KVBind_Binding b) @ '' is duplicated''))
      else rbind (GetKVNamespace (KVBind_ID b) s) (\<lambda>_. kvLoop (acc @ [b]) (KVBind_Binding b # seen) bs s))"

definition normalizeKVNamespaces :: "KVBinding list \<Rightarrow> Store \<Rightarrow> KVBinding list result" where
  "normalizeKVNamespaces bindings s = kvLoop [] [] bindings s"

fun dbLoop :: "DatabaseBinding list \<Rightarrow> string list \<Rightarrow> DatabaseBinding list \<Rightarrow> Store \<Rightarrow> DatabaseBinding list result" where
  "dbLoop acc seen [] s = Inr acc"
| "dbLoop acc seen (b0 # bs) s =
     (let b = \<lparr>DBBind_Binding = trimSpace (DBBind_Binding b0), DBBind_DatabaseID = trimSpace (DBBind_DatabaseID b0)\<rparr> in
      if DBBind_Binding b = [] then Inl (ErrText ''db.binding is required'')
      else if DBBind_DatabaseID b = [] then Inl (ErrText ''db.database_id is required'')
      else if DBBind_Binding b \<in> set seen then Inl (ErrText (''db binding '' @ quoted (DBBind_Binding b) @ '' is duplicated''))
      else rbind (GetDatabase (DBBind_DatabaseID b) s) (\<lambda>_. dbLoop (acc @ [b]) (DBBind_Binding b # seen) bs s))"

definition normalizeDatabases :: "DatabaseBinding list \<Rightarrow> Store \<Rightarrow> DatabaseBinding list result" where
  "normalizeDatabases bindings s = dbLoop [] [] bindings s"

fun bucketLoop :: "ObjectStorageBucketBinding list \<Rightarrow> string list \<Rightarrow> ObjectStorageBucketBinding list \<Rightarrow> Store
    \<Rightarrow> ObjectStorageBucketBinding list result" where
  "bucketLoop acc seen [] s = Inr acc"
| "bucketLoop acc seen (b0 # bs) s =
     (let b = \<lparr>ObjBind_Binding = trimSpace (ObjBind_Binding b0), ObjBind_BucketID = trimSpace (ObjBind_BucketID b0)\<rparr> in
      if ObjBind_Binding b = [] then Inl (ErrText ''object_storage_buckets.binding is required'')
      else if ObjBind_BucketID b = [] then Inl (ErrText ''object_storage_buckets.bucket_id is required'')
      else if ObjBind_Binding b \<in> set seen then Inl (ErrText (''object_storage_buckets binding '' @ quoted (ObjBind_Binding b) @ '' is duplicated''))
      else rbind (GetObjectStorageBucket (ObjBind_BucketID b) s) (\<lambda>_. bucketLoop (acc @ [b]) (ObjBind_Binding b # seen) bs s))"

definition normalizeObjectStorageBuckets :: "ObjectStorageBucketBinding list \<Rightarrow> Store \<Rightarrow> ObjectStorageBucketBinding list result" where
  "normalizeObjectStorageBuckets bindings s = bucketLoop [] [] bindings s"

definition serviceTarget :: "App \<Rightarrow> ServiceBinding \<Rightarrow> App \<Rightarrow> bool" where
  "serviceTarget app b candidate = (App_OrgID candidate = App_OrgID app
     \<and> ((SvcBind_WorkerID b \<noteq> [] \<and> App_ID candidate = SvcBind_WorkerID b)
        \<or> (SvcBind_WorkerID b = [] \<and> App_Platform candidate = None \<and> App_Name candidate = SvcBind_Service b)))"

fun servicesLoop :: "App \<Rightarrow> App list \<Rightarrow> ActiveDeployment list \<Rightarrow> ServiceBinding list \<Rightarrow> string list \<Rightarrow> ServiceBinding list
    \<Rightarrow> ServiceBinding list result" where
  "servicesLoop app candidates running acc seen [] = Inr acc"
| "servicesLoop app candidates running acc seen (b0 # bs) =
     (let b = b0\<lparr>SvcBind_Binding := trimSpace (SvcBind_Binding b0), SvcBind_Service := trimSpace (SvcBind_Service b0),
            SvcBind_WorkerID := trimSpace (SvcBind_WorkerID b0)\<rparr> in
      if SvcBind_Binding b = [] \<or> (SvcBind_Service b = [] \<and> SvcBind_WorkerID b = []) \<or> SvcBind_Binding b \<in> set seen
      then Inl (ErrText ''service requires a unique binding and service name or worker_id'')
      else case filter (serviceTarget app b) candidates of
          [] \<Rightarrow> Inl (ErrText ''service binding targets unknown Worker in this organization'')
        | target # rest \<Rightarrow>
            if rest \<noteq> [] then Inl ErrAmbiguousService
            else if IsDynamic target \<and> \<not> IsDynamic app
            then Inl (ErrText ''dynamic fetch services require a dynamic caller; platform hosts use dispatch_namespaces'')
            else if SvcBind_WorkerID b \<noteq> [] \<and> SvcBind_Service b \<noteq> [] \<and> App_Name target \<noteq> SvcBind_Service b
            then Inl (ErrText ''service and worker_id identify different Workers'')
            else if \<not> ServiceTargetAllowed app target then Inl ErrNamespaceGrantDenied
            else if \<not> list_ex (\<lambda>d. App_ID (Active_App d) = App_ID target) running
            then Inl (ErrText ''service target has no active deployment'')
            else servicesLoop app candidates running
              (acc @ [b\<lparr>SvcBind_Execution := (if IsDynamic target then ''dynamic'' else [])\<rparr>]) (SvcBind_Binding b # seen) bs)"

text \<open>\<open>running\<close> is the result of \<open>activeDeployments\<close>, the deployments that receive traffic.\<close>

definition normalizeServiceBindings :: "ActiveDeployment list result \<Rightarrow> string \<Rightarrow> ServiceBinding list \<Rightarrow> Store \<Rightarrow> ServiceBinding list result" where
  "normalizeServiceBindings running appID bindings s =
     (if bindings = [] then Inr []
      else rbind (GetApp appID s) (\<lambda>app. rbind running (\<lambda>deployments'.
        servicesLoop app (ListApps s) deployments' [] [] bindings)))"

section \<open>Variables and names\<close>

fun varsLoop :: "(string \<Rightarrow> bool) \<Rightarrow> (string, string) gomap \<Rightarrow> (string \<times> string) list \<Rightarrow> (string, string) gomap result" where
  "varsLoop jsonValid normalized [] = Inr normalized"
| "varsLoop jsonValid normalized ((name0, v) # vs) =
     (let name = trimSpace name0; trimmed = trimSpace v in
      if name = [] then Inl (ErrText ''vars binding name is required'')
      else if trimmed = [] \<or> \<not> jsonValid trimmed then Inl (ErrText (''vars.'' @ name @ '' must be valid JSON''))
      else if mhas normalized name then Inl (ErrText (''duplicate vars binding name '' @ quoted name @ '' after normalization''))
      else varsLoop jsonValid (mput name trimmed normalized) vs)"

definition normalizeVars :: "(string \<Rightarrow> bool) \<Rightarrow> (string, string) gomap \<Rightarrow> (string, string) gomap result" where
  "normalizeVars jsonValid vars = varsLoop jsonValid mempty (mentries vars)"

fun collisionLoop :: "(string, string) gomap \<Rightarrow> (string \<times> string) list \<Rightarrow> unit result" where
  "collisionLoop seen [] = Inr ()"
| "collisionLoop seen ((name, kind) # rest) =
     (if prefix ''__NANOFLARE_'' name then Inl (ErrText (''binding '' @ quoted name @ '' uses a reserved runtime name''))
      else case mget seen name of
          Some existing \<Rightarrow> Inl (ErrText (''binding '' @ quoted name @ '' is defined by both '' @ existing @ '' and '' @ kind))
        | None \<Rightarrow> collisionLoop (mput name kind seen) rest)"

definition bindingNames :: "string list \<Rightarrow> string list \<Rightarrow> KVBinding list \<Rightarrow> DatabaseBinding list \<Rightarrow> ObjectStorageBucketBinding list
    \<Rightarrow> ServiceBinding list \<Rightarrow> AssetConfig \<Rightarrow> (string \<times> string) list" where
  "bindingNames vars secretNames kvs dbs buckets services assetConfig =
     map (\<lambda>n. (n, ''vars'')) vars @ map (\<lambda>n. (n, ''secrets'')) secretNames
     @ map (\<lambda>b. (KVBind_Binding b, ''kv_namespaces'')) kvs @ map (\<lambda>b. (DBBind_Binding b, ''db'')) dbs
     @ [(deploymentAssetBindingName assetConfig, ''assets'')]
     @ map (\<lambda>b. (ObjBind_Binding b, ''object_storage_buckets'')) buckets @ map (\<lambda>b. (SvcBind_Binding b, ''services'')) services"

definition validateBindingCollisions :: "(string, string) gomap \<Rightarrow> (string, string) gomap \<Rightarrow> KVBinding list \<Rightarrow> DatabaseBinding list
    \<Rightarrow> ObjectStorageBucketBinding list \<Rightarrow> ServiceBinding list \<Rightarrow> AssetConfig \<Rightarrow> unit result" where
  "validateBindingCollisions vars secretValues kvs dbs buckets services assetConfig =
     collisionLoop mempty (bindingNames (mkeys vars) (mkeys secretValues) kvs dbs buckets services assetConfig)"

definition normalizeCompatibilityFlags :: "string list \<Rightarrow> string list" where
  "normalizeCompatibilityFlags flags = filter (\<lambda>f. f \<noteq> []) (map trimSpace flags)"

section \<open>Dispatch bindings\<close>

text \<open>The regular expression \<open>^[A-Za-z_$][A-Za-z0-9_$]*$\<close>.\<close>

definition identStart :: "char \<Rightarrow> bool" where
  "identStart c = (inRange 65 90 c \<or> inRange 97 122 c \<or> c = CHR ''_'' \<or> c = CHR ''$'')"

definition dispatchBindingName :: "string \<Rightarrow> bool" where
  "dispatchBindingName s = (case s of [] \<Rightarrow> False | c # cs \<Rightarrow> identStart c \<and> list_all (\<lambda>x. identStart x \<or> isDigit x) cs)"

definition assetBindingNameForDispatch :: "AssetConfig \<Rightarrow> string" where
  "assetBindingNameForDispatch c = (if trimSpace (AssetCfg_Binding c) \<noteq> [] then trimSpace (AssetCfg_Binding c) else ''ASSETS'')"

fun dispatchTargets :: "App \<Rightarrow> ServiceBinding list \<Rightarrow> Store \<Rightarrow> unit result" where
  "dispatchTargets app [] s = Inr ()"
| "dispatchTargets app (b # bs) s =
     rbind (GetApp (SvcBind_WorkerID b) s) (\<lambda>target.
       if \<not> IsDynamic target \<or> \<not> ServiceTargetAllowed app target then Inl ErrNamespaceGrantDenied
       else dispatchTargets app bs s)"

fun dispatchNames :: "App \<Rightarrow> string list \<Rightarrow> DispatchBinding list \<Rightarrow> Store \<Rightarrow> unit result" where
  "dispatchNames app names [] s = Inr ()"
| "dispatchNames app names (b # bs) s =
     (if \<not> dispatchBindingName (DispBind_Binding b) \<or> prefix ''__NANOFLARE_'' (DispBind_Binding b) \<or> DispBind_Binding b \<in> set names
      then Inl (ErrText ''invalid or duplicate dispatch binding name'')
      else rbind (DispatchNamespaceForOrg (App_OrgID app) (DispBind_NamespaceID b) s) (\<lambda>ns.
        if DNs_Trust ns \<noteq> ''trusted'' then Inl ErrUnsupportedExecutionProfile
        else dispatchNames app (trimSpace (DispBind_Binding b) # names) bs s))"

definition validateDispatchBindings :: "(string \<Rightarrow> bool) \<Rightarrow> bool \<Rightarrow> App \<Rightarrow> DeployInput \<Rightarrow> Store \<Rightarrow> unit result" where
  "validateDispatchBindings classExport enabled app input s =
     (let hosts = DepIn_DispatchNamespaces input \<noteq> [] in
      if \<not> IsDynamic app \<and> \<not> hosts then Inr ()
      else if \<not> enabled then Inl ErrDispatchUnavailable
      else if hosts \<and> ''disable_ctx_exports'' \<in> set (DepIn_CompatibilityFlags input)
      then Inl (ErrText ''platform dispatch requires ctx.exports for its internal broker'')
      else if hosts \<and> list_ex (\<lambda>file. (File_Path file = DepIn_Entrypoint input
            \<or> (DepIn_Entrypoint input = [] \<and> length (DepIn_Files input) = 1)) \<and> classExport (File_Content file)) (DepIn_Files input)
      then Inl (ErrText ''platform namespace bindings currently require a module fetch-handler object'')
      else if DepIn_Format input \<noteq> ''modules'' then Inl (ErrText ''dynamic dispatch requires modules format'')
      else if IsDynamic app \<and> (hosts \<or> Trigger_Crons (DepIn_Triggers input) \<noteq> [] \<or> DNS_Profile (DepIn_DNS input) \<noteq> [])
      then Inl (ErrText ''dynamic scripts do not yet support namespace-wide nested dispatch, schedules or DNS profiles'')
      else rbind (if IsDynamic app then dispatchTargets app (DepIn_Services input) s else Inr ()) (\<lambda>_.
        rbind (ListSecrets (App_ID app) s) (\<lambda>records.
          dispatchNames app
            (map trimSpace (mkeys (DepIn_Vars input)) @ map Secret_Name records @ map (trimSpace \<circ> KVBind_Binding) (DepIn_KVNamespaces input)
             @ map (trimSpace \<circ> DBBind_Binding) (DepIn_Databases input) @ map (trimSpace \<circ> ObjBind_Binding) (DepIn_ObjectStorageBuckets input)
             @ map (trimSpace \<circ> SvcBind_Binding) (DepIn_Services input) @ [assetBindingNameForDispatch (DepIn_AssetConfig input)])
            (DepIn_DispatchNamespaces input) s)))"

fun validateDispatchNameCollisions :: "DispatchBinding list \<Rightarrow> (string, string) gomap \<Rightarrow> (string, string) gomap \<Rightarrow> unit result" where
  "validateDispatchNameCollisions [] vars secretValues = Inr ()"
| "validateDispatchNameCollisions (b # bs) vars secretValues =
     (if mhas vars (DispBind_Binding b) then Inl (ErrText ''dispatch binding conflicts with a variable'')
      else if mhas secretValues (DispBind_Binding b) then Inl (ErrText ''dispatch binding conflicts with a secret'')
      else validateDispatchNameCollisions bs vars secretValues)"

section \<open>The deployment\<close>

record deployEnv =
  env_mime :: "string \<Rightarrow> string"
  env_json :: "string \<Rightarrow> bool"
  env_classExport :: "string \<Rightarrow> bool"
  env_maxDate :: string
  env_dispatch :: bool

record preparation =
  prep_App :: App
  prep_Files :: "WorkerFile list"
  prep_Entrypoint :: string
  prep_Assets :: "AssetFile list"
  prep_AssetConfig :: AssetConfig
  prep_KVNamespaces :: "KVBinding list"
  prep_Databases :: "DatabaseBinding list"
  prep_Buckets :: "ObjectStorageBucketBinding list"
  prep_Services :: "ServiceBinding list"
  prep_Vars :: "(string, string) gomap"

definition worker :: "ActiveDeployment list result \<Rightarrow> string \<Rightarrow> Store \<Rightarrow> (App \<times> ActiveDeployment option) result" where
  "worker running appID s =
     (case find (\<lambda>a. App_ID a = appID) (ListApps s) of
        None \<Rightarrow> Inl ErrAppNotFound
      | Some app \<Rightarrow> rbind running (\<lambda>as. Inr (app, find (\<lambda>a. App_ID (Active_App a) = appID) as)))"

text \<open>The first half of \<open>buildAndPublishDeployment\<close>, up to the variables.\<close>

definition prepareBindings :: "deployEnv \<Rightarrow> ActiveDeployment list result \<Rightarrow> string \<Rightarrow> DeployInput \<Rightarrow> Store \<Rightarrow> preparation result" where
  "prepareBindings env running appID input s =
     rbind (worker running appID s) (\<lambda>(app, _).
     rbind (validateDispatchBindings (env_classExport env) (env_dispatch env) app input s) (\<lambda>_.
     rbind (checkNamespaceBindings app (DepIn_KVNamespaces input) (DepIn_Databases input) (DepIn_ObjectStorageBuckets input) s) (\<lambda>_.
     rbind (deploymentFiles (DepIn_Files input) (DepIn_Entrypoint input)) (\<lambda>(files, entrypoint).
     rbind (deploymentAssets (env_mime env) (DepIn_Assets input) (DepIn_AssetConfig input)) (\<lambda>assets.
     rbind (normalizeAssetConfig (DepIn_AssetConfig input)) (\<lambda>assetConfig.
     rbind (normalizeKVNamespaces (DepIn_KVNamespaces input) s) (\<lambda>kvs.
     rbind (normalizeDatabases (DepIn_Databases input) s) (\<lambda>dbs.
     rbind (normalizeObjectStorageBuckets (DepIn_ObjectStorageBuckets input) s) (\<lambda>buckets.
     rbind (normalizeServiceBindings running appID (DepIn_Services input) s) (\<lambda>services.
     rbind (normalizeVars (env_json env) (DepIn_Vars input)) (\<lambda>vars.
       Inr \<lparr>prep_App = app, prep_Files = files, prep_Entrypoint = entrypoint, prep_Assets = assets, prep_AssetConfig = assetConfig,
         prep_KVNamespaces = kvs, prep_Databases = dbs, prep_Buckets = buckets, prep_Services = services, prep_Vars = vars\<rparr>)))))))))))"

text \<open>The second half: format, compatibility date, and the record itself. Reading the triggers is the
  one step that runs a loop of the source (\<open>ParseCron_some\<close> shows it ends).\<close>

definition finishDeployment :: "deployEnv \<Rightarrow> string result \<Rightarrow> time \<Rightarrow> string \<Rightarrow> DeployInput \<Rightarrow> preparation \<Rightarrow> TriggerConfig \<Rightarrow> Deployment result" where
  "finishDeployment env token now appID input p triggers =
     rbind (workerFormat (DepIn_Format input) (length (prep_Files p))) (\<lambda>format.
       if format = ''service-worker'' \<and> list_ex (\<lambda>file. File_Wasm file \<noteq> None) (prep_Files p)
       then Inl (ErrText ''Wasm modules require modules format'')
       else case parseDate (DepIn_CompatibilityDate input) of
           None \<Rightarrow> Inl (ErrText ''compatibility_date must use YYYY-MM-DD'')
         | Some date \<Rightarrow>
             (case parseDate (env_maxDate env) of
                None \<Rightarrow> Inl (ErrWrapped (ErrText ''parsing time'') ''invalid server compatibility date'')
              | Some maxDate \<Rightarrow>
                  rbind token (\<lambda>deploymentID.
                    Inr (Deployment0\<lparr>Dep_ID := deploymentID, Dep_AppID := appID,
                      Dep_CommitHash := trimSpace (DepIn_CommitHash input), Dep_CommitMessage := trimSpace (DepIn_CommitMessage input),
                      Dep_CreatedBy := trimSpace (DepIn_CreatedBy input),
                      Dep_Files := prep_Files p, Dep_Assets := prep_Assets p, Dep_Entrypoint := prep_Entrypoint p, Dep_Format := format,
                      Dep_CompatibilityDate := (if dateAfter date maxDate then env_maxDate env else DepIn_CompatibilityDate input),
                      Dep_CompatibilityFlags := normalizeCompatibilityFlags (DepIn_CompatibilityFlags input),
                      Dep_DNS := \<lparr>DNS_Profile = trimSpace (DNS_Profile (DepIn_DNS input))\<rparr>, Dep_Triggers := triggers,
                      Dep_Vars := prep_Vars p, Dep_KVNamespaces := prep_KVNamespaces p, Dep_Databases := prep_Databases p,
                      Dep_ObjectStorageBuckets := prep_Buckets p, Dep_Services := prep_Services p,
                      Dep_DispatchNamespaces := DepIn_DispatchNamespaces input, Dep_AssetConfig := prep_AssetConfig p,
                      Dep_BundleSize := bundleSize (prep_Files p), Dep_CreatedAt := now\<rparr>))))"

definition prepareDeployment :: "deployEnv \<Rightarrow> ActiveDeployment list result \<Rightarrow> string result \<Rightarrow> time \<Rightarrow> string \<Rightarrow> DeployInput \<Rightarrow> Store
    \<Rightarrow> (App \<times> Deployment) result option" where
  "prepareDeployment env running token now appID input s =
     (case prepareBindings env running appID input s of
        Inl e \<Rightarrow> Some (Inl e)
      | Inr p \<Rightarrow> map_option (\<lambda>triggers. rbind triggers (\<lambda>ts.
          rbind (finishDeployment env token now appID input p ts) (\<lambda>d. Inr (prep_App p, d)))) (NormalizeTriggers (DepIn_Triggers input)))"

text \<open>The organization's view of a request: every resource it names must be the organization's.\<close>

fun kvOwned :: "string \<Rightarrow> KVBinding list \<Rightarrow> Store \<Rightarrow> unit result" where
  "kvOwned orgID [] s = Inr ()"
| "kvOwned orgID (b # bs) s = rbind (GetKVNamespaceForOrg orgID (trimSpace (KVBind_ID b)) s) (\<lambda>_. kvOwned orgID bs s)"

fun dbOwned :: "string \<Rightarrow> DatabaseBinding list \<Rightarrow> Store \<Rightarrow> unit result" where
  "dbOwned orgID [] s = Inr ()"
| "dbOwned orgID (b # bs) s = rbind (GetDatabaseForOrg orgID (trimSpace (DBBind_DatabaseID b)) s) (\<lambda>_. dbOwned orgID bs s)"

fun bucketOwned :: "string \<Rightarrow> ObjectStorageBucketBinding list \<Rightarrow> Store \<Rightarrow> unit result" where
  "bucketOwned orgID [] s = Inr ()"
| "bucketOwned orgID (b # bs) s = rbind (GetObjectStorageBucketForOrg orgID (trimSpace (ObjBind_BucketID b)) s) (\<lambda>_. bucketOwned orgID bs s)"

definition validateDeploymentForOrg :: "string \<Rightarrow> string \<Rightarrow> DeployInput \<Rightarrow> Store \<Rightarrow> unit result" where
  "validateDeploymentForOrg orgID appID input s =
     rbind (appForOrg orgID appID s) (\<lambda>_.
     rbind (kvOwned orgID (DepIn_KVNamespaces input) s) (\<lambda>_.
     rbind (dbOwned orgID (DepIn_Databases input) s) (\<lambda>_.
       bucketOwned orgID (DepIn_ObjectStorageBuckets input) s)))"

section \<open>Trimmed text\<close>

lemma trimLeft_free: "leadingSpace (filter (\<lambda>w. w \<noteq> []) ws) (trimLeft ws s) = None"
proof (induction ws s rule: trimLeft.induct)
  case (1 ws s)
  then show ?case by (subst trimLeft.simps) (auto split: option.split)
qed

lemma trimLeft_suffix: "suffix (trimLeft ws s) s"
proof (induction ws s rule: trimLeft.induct)
  case (1 ws s)
  then show ?case by (subst trimLeft.simps) (auto split: option.split intro: suffix_drop suffix_order.trans)
qed

lemma leadingSpace_prefix: "leadingSpace ws s = None \<Longrightarrow> prefix t s \<Longrightarrow> leadingSpace ws t = None"
  by (auto simp: leadingSpace_def find_None_iff dest: prefix_order.trans)

lemma trimSpace_idem [simp]: "trimSpace (trimSpace s) = trimSpace s"
proof -
  let ?r = "trimLeft (map rev spaces) (rev (trimLeft spaces s))"
  have "suffix ?r (rev (trimLeft spaces s))" by (rule trimLeft_suffix)
  then have "prefix (rev ?r) (trimLeft spaces s)" by (simp add: suffix_to_prefix)
  then have "trimLeft spaces (rev ?r) = rev ?r"
    by (intro trimLeft_none leadingSpace_prefix[OF trimLeft_free])
  moreover have "trimLeft (map rev spaces) ?r = ?r"
    by (intro trimLeft_none trimLeft_free)
  ultimately show ?thesis by (simp add: trimSpace_def)
qed

section \<open>What an accepted file list is\<close>

text \<open>
  A path inside the worker: plain components only, none of them empty, \<open>.\<close> or \<open>..\<close>. The checks of a
  path let through those, and one path that leaves the worker, the bare \<open>..\<close>.
\<close>

definition insidePath :: "string \<Rightarrow> bool" where
  "insidePath p \<longleftrightarrow> (\<exists>es. es \<noteq> [] \<and> list_all plainField es \<and> p = joinWith ''/'' es)"

lemma checked_inside:
  "\<not> (pathClean p = ''.'' \<or> prefix ''/'' (pathClean p) \<or> prefix ''../'' (pathClean p))
    \<Longrightarrow> insidePath (pathClean p) \<or> pathClean p = ''..''"
  using pathClean_relative[of p] by (auto simp: insidePath_def)

definition fileOK :: "WorkerFile \<Rightarrow> bool" where
  "fileOK f \<longleftrightarrow> (insidePath (File_Path f) \<or> File_Path f = ''..'') \<and> \<not> prefix ''nanoflare-internal:'' (File_Path f) \<and> \<not> prefix ''__nanoflare_'' (File_Path f)
     \<and> File_Name f = pathBase (File_Path f) \<and> File_Size f = fileSize f \<and> validateWorkerWasm f = Inr ()"

lemma filesLoop_result:
  "filesLoop acc seen weight files = Inr r \<Longrightarrow> \<exists>new. r = acc @ new \<and> length new = length files \<and> list_all fileOK new
     \<and> distinct (map File_Path new) \<and> set (map File_Path new) \<inter> set seen = {}
     \<and> (new \<noteq> [] \<longrightarrow> weight + bundleSize new \<le> maxWorkerBundleSize)"
proof (induction files arbitrary: acc seen weight)
  case (Cons f0 fs)
  define p where "p = pathClean (trimSpace (File_Path f0))"
  define f where "f = f0\<lparr>File_Path := p, File_Name := pathBase p, File_Size := fileSize f0\<rparr>"
  from Cons.prems have checks: "\<not> prefix ''nanoflare-internal:'' p" "\<not> prefix ''__nanoflare_'' p"
    "\<not> (p = ''.'' \<or> prefix ''/'' p \<or> prefix ''../'' p)" "p \<notin> set seen"
    and wasm: "validateWorkerWasm f0 = Inr ()" and size: "weight + fileSize f0 \<le> maxWorkerBundleSize"
    and rest: "filesLoop (acc @ [f]) (p # seen) (weight + fileSize f0) fs = Inr r"
    by (auto simp: Let_def rbind_Inr_iff p_def f_def split: if_splits)
  obtain new where new: "r = (acc @ [f]) @ new" "length new = length fs" "list_all fileOK new" "distinct (map File_Path new)"
    "set (map File_Path new) \<inter> set (p # seen) = {}" "new \<noteq> [] \<longrightarrow> weight + fileSize f0 + bundleSize new \<le> maxWorkerBundleSize"
    using Cons.IH[OF rest] by blast
  have "insidePath p \<or> p = ''..''" using checks(3) checked_inside unfolding p_def by blast
  moreover have "fileSize f = fileSize f0" "validateWorkerWasm f = Inr ()"
    using wasm by (cases "File_Wasm f0"; simp add: f_def fileSize_def validateWorkerWasm_def)+
  ultimately have "fileOK f" using checks by (simp add: fileOK_def f_def)
  moreover have "File_Path f = p" "File_Size f = fileSize f0" by (simp_all add: f_def)
  ultimately show ?case
    using new checks(4) size by (intro exI[of _ "f # new"]) (auto simp: bundleSize_def)
qed simp

lemma deploymentFiles_result:
  assumes "deploymentFiles files e = Inr (r, entrypoint)"
  shows "r \<noteq> []" "list_all fileOK r" "distinct (map File_Path r)" "bundleSize r \<le> maxWorkerBundleSize"
    "list_ex (\<lambda>f. File_Path f = entrypoint \<and> File_Wasm f = None) r"
proof -
  from assms have r: "files \<noteq> []" "filesLoop [] [] 0 files = Inr r" "entrypoint \<in> set (map File_Path r)"
    "\<not> list_ex (\<lambda>file. File_Path file = entrypoint \<and> File_Wasm file \<noteq> None) r"
    by (auto simp: deploymentFiles_def Let_def rbind_Inr_iff split: if_splits)
  obtain new where new: "r = [] @ new" "length new = length files" "list_all fileOK new" "distinct (map File_Path new)"
    "new \<noteq> [] \<longrightarrow> 0 + bundleSize new \<le> maxWorkerBundleSize"
    using filesLoop_result[OF r(2)] by blast
  then show "r \<noteq> []" "list_all fileOK r" "distinct (map File_Path r)" "bundleSize r \<le> maxWorkerBundleSize"
    using r(1) by auto
  show "list_ex (\<lambda>f. File_Path f = entrypoint \<and> File_Wasm f = None) r" using r(3,4) by (auto simp: list_ex_iff)
qed

definition assetOK :: "AssetFile \<Rightarrow> bool" where
  "assetOK a \<longleftrightarrow> (insidePath (Asset_Path a) \<or> Asset_Path a = ''..'') \<and> Asset_Size a = int (length (Asset_Data a))"

lemma assetsLoop_result:
  "assetsLoop mimeType acc seen files = Inr r \<Longrightarrow> \<exists>new. r = acc @ new \<and> list_all assetOK new
     \<and> distinct (map Asset_Path new) \<and> set (map Asset_Path new) \<inter> set seen = {}"
proof (induction files arbitrary: acc seen)
  case (Cons f0 fs)
  define p where "p = pathClean (trimSpace (Asset_Path f0))"
  define a where "a = f0\<lparr>Asset_Path := p, Asset_Size := int (length (Asset_Data f0)),
    Asset_ContentType := (if Asset_ContentType f0 = [] then detectAssetContentType mimeType p else Asset_ContentType f0)\<rparr>"
  from Cons.prems have checks: "\<not> (p = ''.'' \<or> prefix ''/'' p \<or> prefix ''../'' p)" "p \<notin> set seen"
    and rest: "assetsLoop mimeType (acc @ [a]) (p # seen) fs = Inr r"
    by (auto simp: Let_def p_def a_def split: if_splits)
  obtain new where new: "r = (acc @ [a]) @ new" "list_all assetOK new" "distinct (map Asset_Path new)" "set (map Asset_Path new) \<inter> set (p # seen) = {}"
    using Cons.IH[OF rest] by blast
  have "insidePath p \<or> p = ''..''" using checks(1) checked_inside unfolding p_def by blast
  then have "assetOK a" "Asset_Path a = p" by (simp_all add: assetOK_def a_def)
  then show ?case using new checks(2) by (intro exI[of _ "a # new"]) auto
qed simp

lemma deploymentAssets_result: "deploymentAssets mimeType files config = Inr r \<Longrightarrow> list_all assetOK r \<and> distinct (map Asset_Path r)"
  using assetsLoop_result[of mimeType "[]" "[]" files r] by (auto simp: deploymentAssets_def split: if_splits)

section \<open>What accepted bindings are\<close>

text \<open>The loops over bindings share a contract: each element is normalised, named, not named before, and
  passes a check against the store.\<close>

locale binding_loop =
  fixes loop :: "'b list \<Rightarrow> string list \<Rightarrow> 'b list \<Rightarrow> Store \<Rightarrow> 'b list result"
    and norm :: "'b \<Rightarrow> 'b" and name :: "'b \<Rightarrow> string" and ok :: "'b \<Rightarrow> Store \<Rightarrow> bool"
  assumes loop_nil: "loop acc seen [] s = Inr acc"
    and loop_cons: "loop acc seen (b # bs) s = Inr r \<Longrightarrow> name (norm b) \<noteq> [] \<and> name (norm b) \<notin> set seen \<and> ok (norm b) s
      \<and> loop (acc @ [norm b]) (name (norm b) # seen) bs s = Inr r"
begin

lemma loop_result:
  "loop acc seen bs s = Inr r \<Longrightarrow> r = acc @ map norm bs \<and> distinct (map (name \<circ> norm) bs)
     \<and> set (map (name \<circ> norm) bs) \<inter> set seen = {} \<and> list_all (\<lambda>b. name b \<noteq> [] \<and> ok b s) (map norm bs)"
proof (induction bs arbitrary: acc seen)
  case Nil
  then show ?case by (simp add: loop_nil)
next
  case (Cons b bs)
  note c = loop_cons[OF Cons.prems]
  then show ?case using Cons.IH[of "acc @ [norm b]" "name (norm b) # seen"] by auto
qed

lemma normalized: "loop [] [] bs s = Inr r \<Longrightarrow> distinct (map name r) \<and> list_all (\<lambda>b. name b \<noteq> [] \<and> ok b s) r"
  using loop_result[of "[]" "[]" bs s r] by simp

end

interpretation kvs: binding_loop kvLoop
    "\<lambda>b. \<lparr>KVBind_Binding = trimSpace (KVBind_Binding b), KVBind_ID = trimSpace (KVBind_ID b), KVBind_PreviewID = trimSpace (KVBind_PreviewID b)\<rparr>"
    KVBind_Binding "\<lambda>b s. mhas (kvNamespaces s) (KVBind_ID b)"
  by unfold_locales (auto simp: Let_def rbind_Inr_iff GetKVNamespace_def mhas_def split: if_splits option.splits)

interpretation dbs: binding_loop dbLoop
    "\<lambda>b. \<lparr>DBBind_Binding = trimSpace (DBBind_Binding b), DBBind_DatabaseID = trimSpace (DBBind_DatabaseID b)\<rparr>"
    DBBind_Binding "\<lambda>b s. mhas (databases s) (DBBind_DatabaseID b)"
  by unfold_locales (auto simp: Let_def rbind_Inr_iff GetDatabase_def mhas_def split: if_splits option.splits)

interpretation buckets: binding_loop bucketLoop
    "\<lambda>b. \<lparr>ObjBind_Binding = trimSpace (ObjBind_Binding b), ObjBind_BucketID = trimSpace (ObjBind_BucketID b)\<rparr>"
    ObjBind_Binding "\<lambda>b s. mhas (objectBuckets s) (ObjBind_BucketID b)"
  by unfold_locales (auto simp: Let_def rbind_Inr_iff GetObjectStorageBucket_def mhas_def split: if_splits option.splits)

text \<open>A service binding is normalised with the kind of its target.\<close>

definition normService :: "App \<Rightarrow> App list \<Rightarrow> ServiceBinding \<Rightarrow> ServiceBinding" where
  "normService app candidates b0 =
     (let b = b0\<lparr>SvcBind_Binding := trimSpace (SvcBind_Binding b0), SvcBind_Service := trimSpace (SvcBind_Service b0),
            SvcBind_WorkerID := trimSpace (SvcBind_WorkerID b0)\<rparr> in
      b\<lparr>SvcBind_Execution := (if list_ex IsDynamic (filter (serviceTarget app b) candidates) then ''dynamic'' else [])\<rparr>)"

definition serviceOK :: "App \<Rightarrow> App list \<Rightarrow> ActiveDeployment list \<Rightarrow> ServiceBinding \<Rightarrow> bool" where
  "serviceOK app candidates running b \<longleftrightarrow>
     (\<exists>target. filter (serviceTarget app b) candidates = [target] \<and> ServiceTargetAllowed app target
        \<and> list_ex (\<lambda>d. App_ID (Active_App d) = App_ID target) running
        \<and> (IsDynamic target \<longrightarrow> IsDynamic app))"

lemma serviceTarget_execution: "serviceTarget app (b\<lparr>SvcBind_Execution := e\<rparr>) = serviceTarget app b"
  by (simp add: serviceTarget_def fun_eq_iff)

interpretation services: binding_loop "\<lambda>acc seen bs s. servicesLoop app candidates running acc seen bs"
    "normService app candidates" SvcBind_Binding "\<lambda>b s. serviceOK app candidates running b"
  for app candidates running
proof unfold_locales
  fix acc seen b0 bs r
  assume step: "servicesLoop app candidates running acc seen (b0 # bs) = Inr r"
  define b where "b = b0\<lparr>SvcBind_Binding := trimSpace (SvcBind_Binding b0), SvcBind_Service := trimSpace (SvcBind_Service b0),
    SvcBind_WorkerID := trimSpace (SvcBind_WorkerID b0)\<rparr>"
  note step' = step[unfolded servicesLoop.simps Let_def, folded b_def]
  obtain target where target: "filter (serviceTarget app b) candidates = [target]"
    using step' by (auto split: if_splits list.splits)
  have norm: "normService app candidates b0 = b\<lparr>SvcBind_Execution := (if IsDynamic target then ''dynamic'' else [])\<rparr>"
    by (simp add: normService_def Let_def flip: b_def) (simp add: target)
  show "SvcBind_Binding (normService app candidates b0) \<noteq> [] \<and> SvcBind_Binding (normService app candidates b0) \<notin> set seen
      \<and> serviceOK app candidates running (normService app candidates b0)
      \<and> servicesLoop app candidates running (acc @ [normService app candidates b0])
          (SvcBind_Binding (normService app candidates b0) # seen) bs = Inr r"
    unfolding norm serviceOK_def serviceTarget_execution using step' target by (simp split: if_splits)
qed simp

section \<open>What accepted names are\<close>

lemma collisionLoop_result:
  "collisionLoop seen xs = Inr () \<Longrightarrow> distinct (map fst xs) \<and> list_all (\<lambda>(n, _). \<not> prefix ''__NANOFLARE_'' n) xs
     \<and> (\<forall>n \<in> set (map fst xs). mget seen n = None)"
proof (induction seen xs rule: collisionLoop.induct)
  case (2 seen name kind rest)
  then have n: "\<not> prefix ''__NANOFLARE_'' name" "mget seen name = None" and r: "collisionLoop (mput name kind seen) rest = Inr ()"
    by (auto split: if_splits option.splits)
  have "\<forall>x \<in> set (map fst rest). x \<noteq> name \<and> mget seen x = None"
    using 2(1)[OF n r] by (auto split: if_splits)
  then show ?case using 2(1)[OF n r] n by auto
qed simp

lemma entries_all: "list_all (\<lambda>(k, v). P k v) (mentries m) \<longleftrightarrow> (\<forall>k v. mget m k = Some v \<longrightarrow> P k v)"
  by (auto simp: list_all_iff simp flip: mem_entries)

lemma varsLoop_result:
  "varsLoop jsonValid m vs = Inr r \<Longrightarrow> list_all (\<lambda>(n, v). n \<noteq> [] \<and> jsonValid v) (mentries m)
     \<Longrightarrow> list_all (\<lambda>(n, v). n \<noteq> [] \<and> jsonValid v) (mentries r)"
proof (induction jsonValid m vs rule: varsLoop.induct)
  case (2 jsonValid m name0 v vs)
  then have n: "trimSpace name0 \<noteq> []" "jsonValid (trimSpace v)"
    and r: "varsLoop jsonValid (mput (trimSpace name0) (trimSpace v) m) vs = Inr r"
    by (auto simp: Let_def split: if_splits)
  have "list_all (\<lambda>(n, v). n \<noteq> [] \<and> jsonValid v) (mentries (mput (trimSpace name0) (trimSpace v) m))"
    using 2(3) n unfolding entries_all by simp
  then show ?case using 2(1)[OF refl refl] 2(2) n by (auto simp: Let_def split: if_splits)
qed simp

lemma dispatchBindingName_trim: "dispatchBindingName n \<Longrightarrow> trimSpace n = n"
  by (rule trimSpace_ascii)
    (auto simp: dispatchBindingName_def identStart_def isDigit_def inRange_def list_all_iff split: list.splits)

lemma dispatchNames_result:
  "dispatchNames app names bs s = Inr () \<Longrightarrow> distinct (map DispBind_Binding bs) \<and> set (map DispBind_Binding bs) \<inter> set names = {}
     \<and> list_all (\<lambda>b. case mget (dispatchNamespaces s) (DispBind_NamespaceID b) of None \<Rightarrow> False
         | Some ns \<Rightarrow> DNs_OrgID ns = App_OrgID app \<and> DNs_Trust ns = ''trusted'') bs"
proof (induction bs arbitrary: names)
  case (Cons b bs)
  from Cons.prems obtain ns where b: "dispatchBindingName (DispBind_Binding b)" "DispBind_Binding b \<notin> set names"
    "DispatchNamespaceForOrg (App_OrgID app) (DispBind_NamespaceID b) s = Inr ns" "DNs_Trust ns = ''trusted''"
    and rest: "dispatchNames app (DispBind_Binding b # names) bs s = Inr ()"
    by (auto simp: rbind_Inr_iff dispatchBindingName_trim split: if_splits)
  have "mget (dispatchNamespaces s) (DispBind_NamespaceID b) = Some ns" "DNs_OrgID ns = App_OrgID app"
    using b(3) by (auto simp: DispatchNamespaceForOrg_def GetDispatchNamespace_def rbind_Inr_iff split: option.splits if_splits)
  then show ?case using Cons.IH[OF rest] b by auto
qed simp

section \<open>Well-formed deployments\<close>

definition assetConfigOK :: "AssetConfig \<Rightarrow> bool" where
  "assetConfigOK c \<longleftrightarrow> AssetCfg_Binding c \<noteq> [] \<and> AssetCfg_HTMLHandling c \<in> {''none'', ''auto-trailing-slash''}
     \<and> AssetCfg_NotFoundHandling c \<in> {''none'', ''404-page'', ''single-page-application''} \<and> validateRunWorkerFirst (AssetCfg_RunWorkerFirst c) = Inr ()"

lemma normalizeAssetConfig_result:
  assumes "normalizeAssetConfig c = Inr c'"
  shows "assetConfigOK c'" "deploymentAssetBindingName c' = deploymentAssetBindingName c"
proof -
  define b where "b = (if trimSpace (AssetCfg_Binding c) = [] then ''ASSETS'' else trimSpace (AssetCfg_Binding c))"
  define html where "html = (if AssetCfg_HTMLHandling c = [] then ''auto-trailing-slash'' else AssetCfg_HTMLHandling c)"
  define missing where "missing = (if AssetCfg_NotFoundHandling c = [] then ''404-page'' else AssetCfg_NotFoundHandling c)"
  note step = assms[unfolded normalizeAssetConfig_def Let_def, folded b_def html_def missing_def]
  have h: "html = ''none'' \<or> html = ''auto-trailing-slash''" using step by (rule_tac ccontr) simp
  have m: "missing = ''none'' \<or> missing = ''404-page'' \<or> missing = ''single-page-application''"
    using step h by (rule_tac ccontr) (simp split: if_splits)
  have c': "validateRunWorkerFirst (AssetCfg_RunWorkerFirst c) = Inr ()"
    "c' = c\<lparr>AssetCfg_Binding := b, AssetCfg_HTMLHandling := html, AssetCfg_NotFoundHandling := missing\<rparr>"
    using step by (simp_all add: rbind_Inr_iff split: if_splits)
  have "trimSpace ''ASSETS'' = ''ASSETS''" by code_simp
  then have b: "b \<noteq> []" "trimSpace b = b" by (simp_all add: b_def)
  show "assetConfigOK c'" using h m c' b(1) by (simp add: assetConfigOK_def)
  have "deploymentAssetBindingName c' = b" using b by (simp add: deploymentAssetBindingName_def c'(2))
  then show "deploymentAssetBindingName c' = deploymentAssetBindingName c"
    by (simp add: deploymentAssetBindingName_def b_def)
qed

definition namesOK :: "string list \<Rightarrow> Deployment \<Rightarrow> bool" where
  "namesOK secretNames d \<longleftrightarrow>
     (let names = map fst (bindingNames (mkeys (Dep_Vars d)) secretNames (Dep_KVNamespaces d) (Dep_Databases d) (Dep_ObjectStorageBuckets d)
            (Dep_Services d) (Dep_AssetConfig d))
      in distinct names \<and> list_all (\<lambda>n. \<not> prefix ''__NANOFLARE_'' n) names)"

definition servicesOK :: "ActiveDeployment list \<Rightarrow> string \<Rightarrow> ServiceBinding list \<Rightarrow> Store \<Rightarrow> bool" where
  "servicesOK running appID bs s \<longleftrightarrow> (case GetApp appID s of Inl _ \<Rightarrow> bs = []
     | Inr app \<Rightarrow> list_all (\<lambda>b. SvcBind_Binding b \<noteq> [] \<and> serviceOK app (ListApps s) running b) bs)"

definition dateOK :: "string \<Rightarrow> string \<Rightarrow> bool" where
  "dateOK newest s \<longleftrightarrow>
     (case parseDate s of None \<Rightarrow> False | Some date \<Rightarrow>
        (case parseDate newest of None \<Rightarrow> False | Some maxDate \<Rightarrow> \<not> dateAfter date maxDate))"

definition deploymentOK :: "deployEnv \<Rightarrow> ActiveDeployment list \<Rightarrow> string list \<Rightarrow> Store \<Rightarrow> Deployment \<Rightarrow> bool" where
  "deploymentOK env running secretNames s d \<longleftrightarrow>
     list_all fileOK (Dep_Files d) \<and> distinct (map File_Path (Dep_Files d))
     \<and> Dep_BundleSize d = bundleSize (Dep_Files d) \<and> Dep_BundleSize d \<le> 10 * 1024 * 1024
     \<and> list_ex (\<lambda>f. File_Path f = Dep_Entrypoint d \<and> File_Wasm f = None) (Dep_Files d)
     \<and> list_all assetOK (Dep_Assets d) \<and> distinct (map Asset_Path (Dep_Assets d)) \<and> assetConfigOK (Dep_AssetConfig d)
     \<and> list_all (\<lambda>b. KVBind_Binding b \<noteq> [] \<and> mhas (kvNamespaces s) (KVBind_ID b)) (Dep_KVNamespaces d)
     \<and> list_all (\<lambda>b. DBBind_Binding b \<noteq> [] \<and> mhas (databases s) (DBBind_DatabaseID b)) (Dep_Databases d)
     \<and> list_all (\<lambda>b. ObjBind_Binding b \<noteq> [] \<and> mhas (objectBuckets s) (ObjBind_BucketID b)) (Dep_ObjectStorageBuckets d)
     \<and> servicesOK running (Dep_AppID d) (Dep_Services d) s
     \<and> list_all (\<lambda>(n, v). n \<noteq> [] \<and> env_json env v) (mentries (Dep_Vars d))
     \<and> list_all (\<lambda>c. case ParseCron c of Some (Inr _) \<Rightarrow> True | _ \<Rightarrow> False) (Trigger_Crons (Dep_Triggers d))
     \<and> distinct (Trigger_Crons (Dep_Triggers d)) \<and> (trimSpace (Dep_Format d) = ''modules'' \<or> trimSpace (Dep_Format d) = ''service-worker'')
     \<and> dateOK (env_maxDate env) (Dep_CompatibilityDate d) \<and> namesOK secretNames d"

lemma workerFormat_result: "workerFormat format n = Inr f \<Longrightarrow> trimSpace f = ''modules'' \<or> trimSpace f = ''service-worker''"
proof -
  have "trimSpace ''modules'' = ''modules''" "trimSpace ''service-worker'' = ''service-worker''" by code_simp+
  then show "workerFormat format n = Inr f \<Longrightarrow> ?thesis" by (auto simp: workerFormat_def Let_def split: if_splits)
qed

lemma NormalizeTriggers_result:
  assumes "NormalizeTriggers t = Some (Inr t')"
  shows "distinct (Trigger_Crons t')" "list_all (\<lambda>c. case ParseCron c of Some (Inr _) \<Rightarrow> True | _ \<Rightarrow> False) (Trigger_Crons t')"
proof -
  have "Trigger_Crons t' = [] \<or> normalizeCrons [] (Trigger_Crons t) = Some (Inr (Trigger_Crons t'))"
    using assms by (auto simp: NormalizeTriggers_def TriggerConfig0_def split: if_splits option.splits sum.splits)
  then have "distinct (rev (Trigger_Crons t') @ []) = distinct [] \<and> list_all (\<lambda>c. case ParseCron c of Some (Inr _) \<Rightarrow> True | _ \<Rightarrow> False) (Trigger_Crons t')"
    using normalizeCrons_result[of "[]" "Trigger_Crons t" "Trigger_Crons t'"] by fastforce
  then show "distinct (Trigger_Crons t')" "list_all (\<lambda>c. case ParseCron c of Some (Inr _) \<Rightarrow> True | _ \<Rightarrow> False) (Trigger_Crons t')"
    by simp_all
qed

text \<open>The preparation, field by field.\<close>

lemma prepareBindings_result:
  assumes "prepareBindings env (Inr running) appID input s = Inr p"
  shows "deploymentFiles (DepIn_Files input) (DepIn_Entrypoint input) = Inr (prep_Files p, prep_Entrypoint p)"
    "list_all assetOK (prep_Assets p)" "distinct (map Asset_Path (prep_Assets p))"
    "normalizeAssetConfig (DepIn_AssetConfig input) = Inr (prep_AssetConfig p)"
    "list_all (\<lambda>b. KVBind_Binding b \<noteq> [] \<and> mhas (kvNamespaces s) (KVBind_ID b)) (prep_KVNamespaces p)"
    "list_all (\<lambda>b. DBBind_Binding b \<noteq> [] \<and> mhas (databases s) (DBBind_DatabaseID b)) (prep_Databases p)"
    "list_all (\<lambda>b. ObjBind_Binding b \<noteq> [] \<and> mhas (objectBuckets s) (ObjBind_BucketID b)) (prep_Buckets p)"
    "servicesOK running appID (prep_Services p) s"
    "list_all (\<lambda>(n, v). n \<noteq> [] \<and> env_json env v) (mentries (prep_Vars p))"
proof -
  obtain app x files entrypoint assets config kvs dbs buckets services vars where
    f: "deploymentFiles (DepIn_Files input) (DepIn_Entrypoint input) = Inr (files, entrypoint)"
    and a: "deploymentAssets (env_mime env) (DepIn_Assets input) (DepIn_AssetConfig input) = Inr assets"
    and c: "normalizeAssetConfig (DepIn_AssetConfig input) = Inr config"
    and k: "normalizeKVNamespaces (DepIn_KVNamespaces input) s = Inr kvs"
    and d: "normalizeDatabases (DepIn_Databases input) s = Inr dbs"
    and o: "normalizeObjectStorageBuckets (DepIn_ObjectStorageBuckets input) s = Inr buckets"
    and v: "normalizeServiceBindings (Inr running) appID (DepIn_Services input) s = Inr services"
    and j: "normalizeVars (env_json env) (DepIn_Vars input) = Inr vars"
    and p: "p = \<lparr>prep_App = app, prep_Files = files, prep_Entrypoint = entrypoint, prep_Assets = assets, prep_AssetConfig = config,
         prep_KVNamespaces = kvs, prep_Databases = dbs, prep_Buckets = buckets, prep_Services = services, prep_Vars = vars\<rparr>"
    using assms by (auto simp: prepareBindings_def rbind_Inr_iff split: prod.splits)
  show "deploymentFiles (DepIn_Files input) (DepIn_Entrypoint input) = Inr (prep_Files p, prep_Entrypoint p)" using f by (simp add: p)
  show "list_all assetOK (prep_Assets p)" "distinct (map Asset_Path (prep_Assets p))" using deploymentAssets_result[OF a] by (simp_all add: p)
  show "normalizeAssetConfig (DepIn_AssetConfig input) = Inr (prep_AssetConfig p)" using c by (simp add: p)
  show "list_all (\<lambda>b. KVBind_Binding b \<noteq> [] \<and> mhas (kvNamespaces s) (KVBind_ID b)) (prep_KVNamespaces p)"
    using kvs.normalized[OF k[unfolded normalizeKVNamespaces_def]] by (simp add: p)
  show "list_all (\<lambda>b. DBBind_Binding b \<noteq> [] \<and> mhas (databases s) (DBBind_DatabaseID b)) (prep_Databases p)"
    using dbs.normalized[OF d[unfolded normalizeDatabases_def]] by (simp add: p)
  show "list_all (\<lambda>b. ObjBind_Binding b \<noteq> [] \<and> mhas (objectBuckets s) (ObjBind_BucketID b)) (prep_Buckets p)"
    using buckets.normalized[OF o[unfolded normalizeObjectStorageBuckets_def]] by (simp add: p)
  show "servicesOK running appID (prep_Services p) s"
  proof (cases "GetApp appID s")
    case (Inl e)
    then show ?thesis using v by (simp add: p servicesOK_def normalizeServiceBindings_def split: if_splits)
  next
    case (Inr app')
    then have "services = [] \<or> servicesLoop app' (ListApps s) running [] [] (DepIn_Services input) = Inr services"
      using v by (auto simp: normalizeServiceBindings_def split: if_splits)
    then have "list_all (\<lambda>b. SvcBind_Binding b \<noteq> [] \<and> serviceOK app' (ListApps s) running b) services"
    proof
      assume "servicesLoop app' (ListApps s) running [] [] (DepIn_Services input) = Inr services"
      from services.normalized[OF this] show ?thesis by blast
    qed simp
    then show ?thesis using Inr by (simp add: p servicesOK_def)
  qed
  show "list_all (\<lambda>(n, v). n \<noteq> [] \<and> env_json env v) (mentries (prep_Vars p))"
    using varsLoop_result[OF j[unfolded normalizeVars_def]] by (simp add: p)
qed


text \<open>A request with one file for an application of an empty organization.\<close>

definition demoEnv :: deployEnv where
  "demoEnv = \<lparr>env_mime = (\<lambda>_. []), env_json = (\<lambda>v. v \<noteq> []), env_classExport = (\<lambda>_. False), env_maxDate = ''2026-01-01'', env_dispatch = False\<rparr>"

definition demoInput :: DeployInput where
  "demoInput = DeployInput0\<lparr>DepIn_Files := [WorkerFile0\<lparr>File_Path := '' src/../index.js'', File_Content := ''x''\<rparr>],
     DepIn_CompatibilityDate := ''2025-02-28'', DepIn_Vars := mput ''A '' ''1'' mempty,
     DepIn_Triggers := \<lparr>Trigger_Crons = ['' 0 0 1 1 0'']\<rparr>\<rparr>"

definition oneApp :: Store where
  "oneApp = NewStore\<lparr>apps := mput ''w'' (App0\<lparr>App_ID := ''w''\<rparr>) mempty\<rparr>"


end
