(* ===== verification/Service_World.thy ===== *)
theory Service_World
  imports Deploy_Input Execution_Registry Dispatch_State
begin

text \<open>
  The state the methods of \<open>Service\<close> work on, and the outside world that may fail under them.

  A method is an action: from the environment and the world to a result and a world. The world is
  the repository, the object store, the deployments the runtime serves (what the last successful
  call of the writer made live), the cache of runtime deployments with its versions, the execution
  registry, the state of dynamic dispatch, the cache of the organizations' KV usage and the number of
  outside calls made so far. Every method that publishes holds
  \<open>configMu\<close> and the repository's deployment lock for its whole body, so actions do not interleave.

  Each call of the repository, the object store or the writer asks the environment for its fate: it
  works, or it is refused without effect, or it takes effect and its answer is lost. A theorem for
  all \<open>e_faults\<close> therefore covers every place at which a method can fail, and, when all calls from
  some place on are refused, every place at which the process can die.
\<close>

section \<open>World and environment\<close>

record orgKVUsageCacheEntry =
  kvu_size :: int
  kvu_expiresAt :: time

text \<open>What the object store knows of an object of a bucket; its body is in \<open>w_objects\<close>.\<close>

record ObjectInfo =
  Obj_Key :: string
  Obj_Size :: int
  Obj_ETag :: string
  Obj_HTTPETag :: string
  Obj_Uploaded :: time
  Obj_ContentType :: string

record world =
  w_store :: Store
  w_objects :: "(string \<times> string, string) gomap"
  w_live :: "ActiveDeployment list"
  w_runtimeDeployments :: "(string, ActiveDeployment list) gomap"
  w_runtimeVersions :: "(string, nat) gomap"
  w_executions :: ExecutionRegistry
  w_dispatch :: dispatchRuntime
  w_kvOrgUsage :: "(string, orgKVUsageCacheEntry) gomap"
  w_objectInfo :: "(string \<times> string, ObjectInfo) gomap"
  w_calls :: nat

datatype fault = NoFault | Refused error | Unacknowledged error

record PublicationPreparation =
  Prep_Generation :: string
  Prep_Deployments :: "ActiveDeployment list"

record SecretRef =
  SecRef_Name :: string
  SecRef_Version :: string

record UpdateVarsInput =
  UpdVars_Vars :: "(string, string) gomap option"
  UpdVars_ExpectedDeploymentID :: string
  UpdVars_IdempotencyKey :: string
  UpdVars_CommitMessage :: string
  UpdVars_CreatedBy :: string

record WorkerOutputLine =
  Line_OrgID :: string
  Line_NamespaceID :: string
  Line_CustomerID :: string
  Line_RequestChainID :: string
  Line_InvocationID :: string
  Line_ParentInvocationID :: string
  Line_Timestamp :: time
  Line_Level :: string
  Line_Message :: string
  Line_AppID :: string
  Line_DeploymentID :: string

record WorkerOutputQuery =
  OutQ_DeploymentID :: string
  OutQ_Level :: string
  OutQ_Text :: string
  OutQ_Since :: time
  OutQ_Until :: time
  OutQ_Limit :: int

text \<open>
  The clock, the random tokens and the random nonces are read at the number of calls made. The
  object store, the secret codec and the two interfaces of the writer that some writers implement
  may be missing. What the writer makes of a list of deployments (\<open>e_prepare\<close>, with the worker it
  is about when the writer is asked so; \<open>e_validate\<close>; \<open>e_accepts\<close> for the writers without two
  phases), JSON, SHA-256 and AES-GCM are parameters.
\<close>

record serviceEnv =
  e_faults :: "nat \<Rightarrow> fault"
  e_clock :: "nat \<Rightarrow> time"
  e_token :: "nat \<Rightarrow> string result"
  e_deploy :: deployEnv
  e_hasObjects :: bool
  e_decrypt :: "(string \<Rightarrow> string \<Rightarrow> string result) option"
  e_encrypt :: "nat \<Rightarrow> string \<Rightarrow> (string \<times> string) result"
  e_hash :: "string \<Rightarrow> string"
  e_twoPhase :: bool
  e_targeted :: bool
  e_prepare :: "string option \<Rightarrow> ActiveDeployment list \<Rightarrow> PublicationPreparation result"
  e_accepts :: "ActiveDeployment list \<Rightarrow> unit result"
  e_validator :: bool
  e_workerValidator :: bool
  e_validate :: "string option \<Rightarrow> ActiveDeployment list \<Rightarrow> unit result"
  e_encodeFiles :: "WorkerFile list \<Rightarrow> string result"
  e_decodeFiles :: "string \<Rightarrow> WorkerFile list result"
  e_digest :: "Deployment \<Rightarrow> (string, string) gomap \<Rightarrow> SecretRef list \<Rightarrow> NamespacePolicy option \<Rightarrow> string result"
  e_artifactJSON :: "DeploymentArtifact \<Rightarrow> string result"
  e_fingerprint :: "DeployInput \<Rightarrow> string result"
  e_varsFingerprint :: "UpdateVarsInput \<Rightarrow> string result"
  e_canonicalVar :: "string \<Rightarrow> string result"
  e_bindingJSON :: "string \<Rightarrow> string \<Rightarrow> (string \<times> string) list \<Rightarrow> string"
  e_bindingOf :: "string \<Rightarrow> (string \<times> string \<times> string list) option"
  e_stringJSON :: "string \<Rightarrow> string option"
  e_metadataSize :: "ScriptManagementMetadata \<Rightarrow> int result"
  e_hmac :: "string \<Rightarrow> string \<Rightarrow> string"
  e_grantJSON :: "RuntimeGrant \<Rightarrow> string"
  e_grantOf :: "string \<Rightarrow> RuntimeGrant option"
  e_live :: "(nat \<Rightarrow> string \<Rightarrow> string \<Rightarrow> bool result) option"
  e_instance :: "(nat \<Rightarrow> string \<Rightarrow> string \<Rightarrow> string \<Rightarrow> bool result) option"
  e_executionDigest :: "ActiveDeployment \<times> (string, string) gomap \<times> string \<times> string list \<Rightarrow> string result"
  e_varValue :: "string \<Rightarrow> unit result"
  e_random :: "nat \<Rightarrow> 8 word list option"
  e_kvSizer :: bool
  e_kvOptimizer :: bool
  e_kvCacheDisabled :: bool
  e_passwordHash :: "nat \<Rightarrow> string \<Rightarrow> string result"
  e_passwordMatches :: "string \<Rightarrow> string \<Rightarrow> bool"
  e_authSecret :: string
  e_jwtHeader :: string
  e_claimsJSON :: "string \<times> string \<times> int \<Rightarrow> string"
  e_claimsOf :: "string \<Rightarrow> (string \<times> string \<times> int) option"
  e_absoluteURL :: "string \<Rightarrow> bool"
  e_withQuery :: "string \<Rightarrow> (string \<times> string) list \<Rightarrow> string result"
  e_objectInfo :: "nat \<Rightarrow> string \<Rightarrow> string \<Rightarrow> string \<Rightarrow> ObjectInfo"
  e_presign :: "bool \<Rightarrow> string \<Rightarrow> string \<Rightarrow> string result"
  e_output :: "(nat \<Rightarrow> string \<Rightarrow> WorkerOutputQuery \<Rightarrow> WorkerOutputLine list result) option"
  e_outputBusy :: "nat \<Rightarrow> bool"

section \<open>Actions\<close>

type_synonym 'a act = "serviceEnv \<Rightarrow> world \<Rightarrow> 'a result \<times> world"

definition areturn :: "'a \<Rightarrow> 'a act" where
  "areturn a = (\<lambda>e w. (Inr a, w))"

definition afail :: "error \<Rightarrow> 'a act" where
  "afail er = (\<lambda>e w. (Inl er, w))"

text \<open>\<open>x, err := m(); if err != nil { return err }\<close>.\<close>

definition abind :: "'a act \<Rightarrow> ('a \<Rightarrow> 'b act) \<Rightarrow> 'b act" where
  "abind m f = (\<lambda>e w. case m e w of (Inl er, w') \<Rightarrow> (Inl er, w') | (Inr a, w') \<Rightarrow> f a e w')"

text \<open>\<open>x, err := m()\<close>, where the code goes on to look at \<open>err\<close>.\<close>

definition atry :: "'a act \<Rightarrow> 'a result act" where
  "atry m = (\<lambda>e w. case m e w of (r, w') \<Rightarrow> (Inr r, w'))"

definition alift :: "'a result \<Rightarrow> 'a act" where
  "alift r = (case r of Inl er \<Rightarrow> afail er | Inr a \<Rightarrow> areturn a)"

definition aguard :: "bool \<Rightarrow> error \<Rightarrow> unit act" where
  "aguard ok er = alift (guard ok er)"

definition aenv :: "(serviceEnv \<Rightarrow> 'a) \<Rightarrow> 'a act" where
  "aenv f = (\<lambda>e w. (Inr (f e), w))"

definition aworld :: "(world \<Rightarrow> 'a) \<Rightarrow> 'a act" where
  "aworld f = (\<lambda>e w. (Inr (f w), w))"

definition anow :: "time act" where
  "anow = (\<lambda>e w. (Inr (e_clock e (w_calls w)), w))"

definition atick :: "world \<Rightarrow> world" where
  "atick w = w\<lparr>w_calls := Suc (w_calls w)\<rparr>"

definition randomToken :: "string act" where
  "randomToken = (\<lambda>e w. (e_token e (w_calls w), atick w))"

fun amap :: "('a \<Rightarrow> 'b act) \<Rightarrow> 'a list \<Rightarrow> 'b list act" where
  "amap f [] = areturn []"
| "amap f (x # xs) = abind (f x) (\<lambda>y. abind (amap f xs) (\<lambda>ys. areturn (y # ys)))"

fun aeach :: "('a \<Rightarrow> unit act) \<Rightarrow> 'a list \<Rightarrow> unit act" where
  "aeach f [] = areturn ()"
| "aeach f (x # xs) = abind (f x) (\<lambda>_. aeach f xs)"

section \<open>Outside calls\<close>

definition external :: "(world \<Rightarrow> 'a result \<times> world) \<Rightarrow> 'a act" where
  "external f = (\<lambda>e w. case e_faults e (w_calls w) of
       NoFault \<Rightarrow> f (atick w)
     | Refused er \<Rightarrow> (Inl er, atick w)
     | Unacknowledged er \<Rightarrow> (Inl er, snd (f (atick w))))"

definition storeGet :: "(Store \<Rightarrow> 'a result) \<Rightarrow> 'a act" where
  "storeGet f = external (\<lambda>w. (f (w_store w), w))"

definition storeDo :: "(Store \<Rightarrow> Store result) \<Rightarrow> unit act" where
  "storeDo f = external (\<lambda>w. case f (w_store w) of Inl er \<Rightarrow> (Inl er, w) | Inr s \<Rightarrow> (Inr (), w\<lparr>w_store := s\<rparr>))"

definition storeRun :: "(Store \<Rightarrow> ('a \<times> Store) result) \<Rightarrow> 'a act" where
  "storeRun f = external (\<lambda>w. case f (w_store w) of Inl er \<Rightarrow> (Inl er, w) | Inr (a, s) \<Rightarrow> (Inr a, w\<lparr>w_store := s\<rparr>))"

definition objectsPut :: "string \<Rightarrow> string \<Rightarrow> string \<Rightarrow> unit act" where
  "objectsPut appID key body = external (\<lambda>w. (Inr (), w\<lparr>w_objects := mput (appID, key) body (w_objects w)\<rparr>))"

definition objectsGet :: "string \<Rightarrow> string \<Rightarrow> string act" where
  "objectsGet appID key = external (\<lambda>w.
     (case mget (w_objects w) (appID, key) of None \<Rightarrow> Inl ErrObjectNotFound | Some body \<Rightarrow> Inr body, w))"

definition objectsDelete :: "string \<Rightarrow> string \<Rightarrow> unit act" where
  "objectsDelete appID key = external (\<lambda>w. (Inr (), w\<lparr>w_objects := mdel (appID, key) (w_objects w)\<rparr>))"

text \<open>The writer: \<open>Write\<close> makes the given deployments live; \<open>PreparePublication\<close> and its worker
  variant change nothing that is live, \<open>CommitPublication\<close> makes the prepared deployments live,
  \<open>AbortPublication\<close> forgets them.\<close>

definition writerWrite :: "ActiveDeployment list \<Rightarrow> unit act" where
  "writerWrite candidate = (\<lambda>e. external (\<lambda>w. case e_accepts e candidate of
       Inl er \<Rightarrow> (Inl er, w) | Inr _ \<Rightarrow> (Inr (), w\<lparr>w_live := candidate\<rparr>)) e)"

definition writerPrepare :: "string option \<Rightarrow> ActiveDeployment list \<Rightarrow> PublicationPreparation act" where
  "writerPrepare target candidate = (\<lambda>e. external (\<lambda>w. (e_prepare e target candidate, w)) e)"

definition writerCommit :: "PublicationPreparation \<Rightarrow> unit act" where
  "writerCommit p = external (\<lambda>w. (Inr (), w\<lparr>w_live := Prep_Deployments p\<rparr>))"

definition writerAbort :: "PublicationPreparation \<Rightarrow> unit act" where
  "writerAbort p = external (\<lambda>w. (Inr (), w))"

definition writerValidate :: "string option \<Rightarrow> ActiveDeployment list \<Rightarrow> unit act" where
  "writerValidate target candidate = (\<lambda>e. external (\<lambda>w. (e_validate e target candidate, w)) e)"

definition invalidateRuntimeDeployments :: "string \<Rightarrow> unit act" where
  "invalidateRuntimeDeployments appID = (\<lambda>e w. (Inr (), w\<lparr>
     w_runtimeDeployments := mdel appID (w_runtimeDeployments w),
     w_runtimeVersions := mput appID (Suc (mget0 0 (w_runtimeVersions w) appID)) (w_runtimeVersions w)\<rparr>))"

section \<open>Laws of actions\<close>

named_theorems act_defs "actions without effect on the store"
named_theorems act_simps "how actions run"

lemma abind_assoc: "abind (abind m f) g = abind m (\<lambda>a. abind (f a) g)"
  by (auto simp: abind_def fun_eq_iff split: prod.split sum.split)

lemma abind_return [simp]: "abind (areturn a) f = f a" "abind (afail er) f = afail er"
  by (simp_all add: abind_def areturn_def afail_def)

lemma alift_simps [simp]: "alift (Inr a) = areturn a" "alift (Inl er) = afail er"
  by (simp_all add: alift_def)

lemma aguard_simps [simp]: "aguard True er = areturn ()" "aguard False er = afail er"
  by (simp_all add: aguard_def guard_def)

lemma areturn_run [simp]: "areturn a e w = (Inr a, w)" "afail er e w = (Inl er, w)"
  by (simp_all add: areturn_def afail_def)

section \<open>What an action leaves alone\<close>

text \<open>
  \<open>keeps f m\<close>: whatever fails, the action \<open>m\<close> does not change the part \<open>f\<close> of the world.
\<close>

definition keeps :: "(world \<Rightarrow> 'b) \<Rightarrow> 'a act \<Rightarrow> bool" where
  "keeps f m \<longleftrightarrow> (\<forall>e w. f (snd (m e w)) = f w)"

named_theorems keeps_rules "actions that keep a part of the world"

lemma keepsI: "(\<And>e w. f (snd (m e w)) = f w) \<Longrightarrow> keeps f m"
  by (simp add: keeps_def)

lemma keepsD: "keeps f m \<Longrightarrow> m e w = (r, w') \<Longrightarrow> f w' = f w"
  unfolding keeps_def by (metis snd_conv)

lemma keeps_return [keeps_rules]: "keeps f (areturn a)" "keeps f (afail er)" "keeps f (alift r)"
  "keeps f (aguard ok er)" "keeps f (aenv g)" "keeps f anow"
  by (auto simp: keeps_def alift_def aguard_def aenv_def anow_def split: sum.split)

lemma keeps_bind [keeps_rules]:
  assumes "keeps f m" "\<And>a. keeps f (g a)"
  shows "keeps f (abind m g)"
  unfolding keeps_def
proof (intro allI)
  fix e w
  obtain r w' where m: "m e w = (r, w')" by (cases "m e w")
  then have "f w' = f w" using keepsD[OF assms(1)] by blast
  then show "f (snd (abind m g e w)) = f w"
    using assms(2) m by (cases r) (auto simp: abind_def keeps_def)
qed

lemma keeps_try [keeps_rules]: "keeps f m \<Longrightarrow> keeps f (atry m)"
  by (auto simp: keeps_def atry_def split: prod.split) (metis snd_conv)

lemma keeps_if [keeps_rules]: "keeps f m \<Longrightarrow> keeps f n \<Longrightarrow> keeps f (if b then m else n)"
  by simp

lemma keeps_option [keeps_rules]: "keeps f m \<Longrightarrow> (\<And>x. keeps f (n x)) \<Longrightarrow> keeps f (case v of None \<Rightarrow> m | Some x \<Rightarrow> n x)"
  by (cases v) simp_all

lemma keeps_sum [keeps_rules]: "(\<And>x. keeps f (m x)) \<Longrightarrow> (\<And>x. keeps f (n x)) \<Longrightarrow> keeps f (case v of Inl x \<Rightarrow> m x | Inr x \<Rightarrow> n x)"
  by (cases v) simp_all

lemma keeps_prod [keeps_rules]: "(\<And>x y. keeps f (m x y)) \<Longrightarrow> keeps f (case v of (x, y) \<Rightarrow> m x y)"
  by (cases v) simp

lemma keeps_map: "(\<And>x. keeps f (g x)) \<Longrightarrow> keeps f (amap g xs)"
  by (induction xs) (auto intro!: keeps_rules)

lemma keeps_each: "(\<And>x. keeps f (g x)) \<Longrightarrow> keeps f (aeach g xs)"
  by (induction xs) (auto intro!: keeps_rules)

lemmas keeps_loops [keeps_rules] = keeps_map keeps_each

lemma keeps_external:
  assumes "\<And>w. f (atick w) = f w" "\<And>w. f (snd (g w)) = f w"
  shows "keeps f (external g)"
  by (auto simp: keeps_def external_def assms split: fault.split)

text \<open>Parts that a function of the store sees are kept by every action that does not write the
  store, and by a write that keeps them.\<close>

lemma keeps_store [keeps_rules]:
  "keeps (\<lambda>w. f (w_store w)) (storeGet g)"
  "keeps (\<lambda>w. f (w_store w)) (objectsPut a k b)"
  "keeps (\<lambda>w. f (w_store w)) (objectsGet a k)"
  "keeps (\<lambda>w. f (w_store w)) (objectsDelete a k)"
  "keeps (\<lambda>w. f (w_store w)) (writerCommit p)"
  "keeps (\<lambda>w. f (w_store w)) (writerAbort p)"
  "keeps (\<lambda>w. f (w_store w)) (invalidateRuntimeDeployments a)"
  "keeps (\<lambda>w. f (w_store w)) randomToken"
  by (auto simp: keeps_def external_def atick_def storeGet_def objectsPut_def objectsGet_def objectsDelete_def
      writerCommit_def writerAbort_def invalidateRuntimeDeployments_def randomToken_def split: fault.split)

lemma keeps_writer [keeps_rules]:
  "keeps (\<lambda>w. f (w_store w)) (writerWrite c)"
  "keeps (\<lambda>w. f (w_store w)) (writerPrepare t c)"
  "keeps (\<lambda>w. f (w_store w)) (writerValidate t c)"
  by (auto simp: keeps_def external_def atick_def writerWrite_def writerPrepare_def writerValidate_def split: fault.split sum.split)

lemma keeps_storeDo:
  assumes "\<And>s s'. g s = Inr s' \<Longrightarrow> f s' = f s"
  shows "keeps (\<lambda>w. f (w_store w)) (storeDo g)"
  using assms by (auto simp: keeps_def storeDo_def external_def atick_def split: fault.split sum.split)

section \<open>Fault-free runs\<close>

definition faultFree :: "serviceEnv \<Rightarrow> bool" where
  "faultFree e \<longleftrightarrow> (\<forall>n. e_faults e n = NoFault)"

lemma external_free [simp]: "faultFree e \<Longrightarrow> external f e w = f (atick w)"
  by (simp add: external_def faultFree_def)

end
