(* ===== verification/Artifacts.thy ===== *)
theory Artifacts
  imports Service_World
begin

text \<open>
  Deployment artifacts: the immutable record of what a deployment is, from \<open>artifact.go\<close>, the
  hydration of deployments with their files and secret values from \<open>service.go\<close>, and the management
  state of \<open>management.go\<close> and \<open>management_native.go\<close> that artifacts commit.
\<close>

section \<open>Secrets of artifacts\<close>

definition sealRecord :: "(string \<Rightarrow> string) \<Rightarrow> SecretRecord \<Rightarrow> ArtifactSecret" where
  "sealRecord hashBytes r = \<lparr>ArtSecret_Name = Secret_Name r,
     ArtSecret_Version = hashBytes (Secret_Nonce r @ Secret_Ciphertext r),
     ArtSecret_Nonce = Secret_Nonce r, ArtSecret_Ciphertext = Secret_Ciphertext r,
     ArtSecret_CreatedAt = Secret_CreatedAt r, ArtSecret_UpdatedAt = Secret_UpdatedAt r\<rparr>"

text \<open>\<open>sort.Slice\<close> by name; the names of one worker's records are distinct.\<close>

definition sealRecords :: "(string \<Rightarrow> string) \<Rightarrow> SecretRecord list \<Rightarrow> ArtifactSecret list" where
  "sealRecords hashBytes records = sortBy ArtSecret_Name (map (sealRecord hashBytes) records)"

record NamespacePolicyRef =
  PolicyRef_NamespaceID :: string
  PolicyRef_Revision :: int

record ArtifactManifest =
  Man_DeploymentID :: string
  Man_WorkerID :: string
  Man_Digest :: string
  Man_AssetDigests :: "(string, string) gomap"
  Man_Secrets :: "SecretRef list"
  Man_Policy :: "NamespacePolicyRef option"
  Man_CreatedAt :: time

definition Manifest :: "DeploymentArtifact \<Rightarrow> ArtifactManifest" where
  "Manifest a = \<lparr>Man_DeploymentID = Dep_ID (Art_Deployment a), Man_WorkerID = Dep_AppID (Art_Deployment a),
     Man_Digest = Art_Digest a, Man_AssetDigests = Art_AssetDigests a,
     Man_Secrets = map (\<lambda>s. \<lparr>SecRef_Name = ArtSecret_Name s, SecRef_Version = ArtSecret_Version s\<rparr>) (Art_Secrets a),
     Man_Policy = map_option (\<lambda>p. \<lparr>PolicyRef_NamespaceID = Policy_NamespaceID p, PolicyRef_Revision = Policy_Revision p\<rparr>) (Art_Policy a),
     Man_CreatedAt = Dep_CreatedAt (Art_Deployment a)\<rparr>"

abbreviation ErrNoObjects :: error where
  "ErrNoObjects \<equiv> ErrText ''object storage is not configured''"

abbreviation ErrNoSecretKey :: error where
  "ErrNoSecretKey \<equiv> ErrText ''NANOFLARE_SECRET_KEY is required for secret operations''"

fun decryptSecrets :: "(string \<Rightarrow> string \<Rightarrow> string result) \<Rightarrow> (string, string) gomap \<Rightarrow> ArtifactSecret list
    \<Rightarrow> (string, string) gomap result" where
  "decryptSecrets decrypt values [] = Inr values"
| "decryptSecrets decrypt values (s # ss) =
     rbind (decrypt (ArtSecret_Nonce s) (ArtSecret_Ciphertext s)) (\<lambda>value.
       decryptSecrets decrypt (mput (ArtSecret_Name s) value values) ss)"

definition artifactSecretValues :: "DeploymentArtifact \<Rightarrow> (string, string) gomap act" where
  "artifactSecretValues a = abind (aenv e_decrypt) (\<lambda>codec.
     case codec of
       None \<Rightarrow> if Art_Secrets a \<noteq> [] then afail ErrNoSecretKey else areturn mempty
     | Some decrypt \<Rightarrow> alift (decryptSecrets decrypt mempty (Art_Secrets a)))"

section \<open>Hydration\<close>

definition withBundleSize :: "Deployment \<Rightarrow> Deployment" where
  "withBundleSize d = (if Dep_BundleSize d = 0 then d\<lparr>Dep_BundleSize := bundleSize (Dep_Files d)\<rparr> else d)"

definition hydrateDeploymentFiles :: "Deployment \<Rightarrow> Deployment act" where
  "hydrateDeploymentFiles d =
     (if Dep_Files d \<noteq> [] then areturn (withBundleSize d)
      else if Dep_ObjectKey d = [] then areturn d
      else abind (aenv e_hasObjects) (\<lambda>ok.
        abind (aguard ok ErrNoObjects) (\<lambda>_.
        abind (objectsGet (Dep_AppID d) (Dep_ObjectKey d)) (\<lambda>body.
        abind (aenv (\<lambda>e. e_decodeFiles e body)) (\<lambda>decoded.
        abind (alift decoded) (\<lambda>files. areturn (withBundleSize (d\<lparr>Dep_Files := files\<rparr>))))))))"

definition managedLatestArtifact :: "string \<Rightarrow> DeploymentArtifact option act" where
  "managedLatestArtifact appID =
     abind (storeGet (GetScriptManagementState appID)) (\<lambda>(state, found).
       if \<not> found then areturn None
       else abind (storeGet (GetDeploymentArtifact appID (Mgmt_DeploymentID state))) (\<lambda>a. areturn (Some a)))"

fun decryptRecords :: "(string \<Rightarrow> string \<Rightarrow> string result) \<Rightarrow> (string, string) gomap \<Rightarrow> SecretRecord list
    \<Rightarrow> (string, string) gomap result" where
  "decryptRecords decrypt values [] = Inr values"
| "decryptRecords decrypt values (r # rs) =
     rbind (decrypt (Secret_Nonce r) (Secret_Ciphertext r)) (\<lambda>value.
       decryptRecords decrypt (mput (Secret_Name r) value values) rs)"

definition resolvedSecretValues :: "string \<Rightarrow> (string, string) gomap act" where
  "resolvedSecretValues appID =
     abind (managedLatestArtifact appID) (\<lambda>managed.
       case managed of
         Some artifact \<Rightarrow> artifactSecretValues artifact
       | None \<Rightarrow> abind (storeGet (ListSecrets appID)) (\<lambda>records.
           if records = [] then areturn mempty
           else abind (aenv e_decrypt) (\<lambda>codec.
             case codec of None \<Rightarrow> afail ErrNoSecretKey
             | Some decrypt \<Rightarrow> alift (decryptRecords decrypt mempty records))))"

text \<open>A deployment without artifact is hydrated from its own files and the worker's secrets.\<close>

definition hydrateArtifact :: "ActiveDeployment \<Rightarrow> ActiveDeployment act" where
  "hydrateArtifact item =
     abind (atry (storeGet (GetDeploymentArtifact (App_ID (Active_App item)) (Dep_ID (Active_Deployment item))))) (\<lambda>r.
       case r of
         Inr a \<Rightarrow> abind (artifactSecretValues a) (\<lambda>values.
             areturn (item\<lparr>Active_Deployment := Art_Deployment a, Active_App := (Active_App item)\<lparr>App_SecretValues := values\<rparr>\<rparr>))
       | Inl err \<Rightarrow>
           if errorsIs err ErrArtifactNotFound
           then abind (hydrateDeploymentFiles (Active_Deployment item)) (\<lambda>d.
             abind (resolvedSecretValues (App_ID (Active_App item))) (\<lambda>values.
               areturn (item\<lparr>Active_Deployment := d, Active_App := (Active_App item)\<lparr>App_SecretValues := values\<rparr>\<rparr>)))
           else afail err)"

definition activeDeployments :: "ActiveDeployment list act" where
  "activeDeployments = abind (storeGet (\<lambda>s. Inr (ActiveDeployments s))) (amap hydrateArtifact)"

definition activeDeploymentsForApp :: "string \<Rightarrow> ActiveDeployment list act" where
  "activeDeploymentsForApp appID = abind (storeGet (ActiveDeploymentsForApp appID)) (amap hydrateArtifact)"

text \<open>The cached deployments of a worker. No other call runs between the two looks at the cache, so
  the version cannot have changed.\<close>

definition runtimeDeploymentsForApp :: "string \<Rightarrow> ActiveDeployment list act" where
  "runtimeDeploymentsForApp appID = (\<lambda>e w.
     case mget (w_runtimeDeployments w) appID of
       Some cached \<Rightarrow> (Inr cached, w)
     | None \<Rightarrow> abind (activeDeploymentsForApp appID) (\<lambda>as e w.
           (Inr as, w\<lparr>w_runtimeDeployments := mput appID as (w_runtimeDeployments w)\<rparr>)) e w)"

section \<open>Capturing an artifact\<close>

text \<open>The part of a deployment its digest covers.\<close>

definition digestContent :: "Deployment \<Rightarrow> Deployment" where
  "digestContent d = d\<lparr>Dep_ID := [], Dep_AppID := [], Dep_Port := 0, Dep_CreatedAt := 0, Dep_CreatedBy := [],
     Dep_CommitHash := [], Dep_CommitMessage := [], Dep_ObjectKey := [], Dep_BundleSize := 0,
     Dep_Assets := map (\<lambda>a. a\<lparr>Asset_ObjectKey := [], Asset_Data := []\<rparr>) (Dep_Assets d)\<rparr>"

definition assetDigest :: "Deployment \<Rightarrow> AssetFile \<Rightarrow> (string \<times> string) act" where
  "assetDigest d asset =
     abind (if Asset_ObjectKey asset = [] then areturn (Asset_Data asset)
            else abind (aenv e_hasObjects) (\<lambda>ok.
              abind (aguard ok ErrNoObjects) (\<lambda>_. objectsGet (Dep_AppID d) (Asset_ObjectKey asset)))) (\<lambda>body.
       abind (aenv e_hash) (\<lambda>hashBytes. areturn (Asset_Path asset, hashBytes body)))"

definition namespacePolicyOf :: "App \<Rightarrow> NamespacePolicy option act" where
  "namespacePolicyOf app =
     (case App_Platform app of
        None \<Rightarrow> areturn None
      | Some p \<Rightarrow> abind (storeGet (GetDispatchNamespace (Platform_NamespaceID p))) (\<lambda>ns.
          areturn (Some \<lparr>Policy_NamespaceID = DNs_ID ns, Policy_Revision = DNs_PolicyRevision ns,
            Policy_Grants = DNs_Grants ns, Policy_CreatedAt = DNs_CreatedAt ns\<rparr>)))"

definition captureArtifact :: "ActiveDeployment \<Rightarrow> ArtifactSecret list \<Rightarrow> DeploymentArtifact act" where
  "captureArtifact item selected =
     abind (hydrateDeploymentFiles (Active_Deployment item)) (\<lambda>d.
     abind (namespacePolicyOf (Active_App item)) (\<lambda>policy.
     abind (amap (assetDigest d) (Dep_Assets d)) (\<lambda>digests.
       let assets = foldl (\<lambda>m (p, h). mput p h m) mempty digests;
           a = DeploymentArtifact0\<lparr>Art_Deployment := d, Art_ObjectKey := Dep_ObjectKey d, Art_BundleSize := Dep_BundleSize d,
             Art_AssetDigests := assets, Art_Secrets := selected, Art_Policy := policy\<rparr>
       in abind (aenv (\<lambda>e. e_digest e (digestContent d) assets (Man_Secrets (Manifest a)) policy)) (\<lambda>digest.
         abind (alift digest) (\<lambda>h. areturn (a\<lparr>Art_Digest := h\<rparr>))))))"

end
