(* ===== verification/Management.thy ===== *)
theory Management
  imports Artifacts
begin

text \<open>
  The management state of workers: the validation of wire metadata and its projection from native
  deployments in \<open>management.go\<close> and \<open>management_native.go\<close>, the freezing of artifacts in
  \<open>artifact.go\<close>, and the commit of an artifact's management revision. JSON enters through
  \<open>e_bindingJSON\<close> (the encoded binding with a name, a type and further members), \<open>e_bindingOf\<close> (the
  name, the type and the members of an encoded binding, if it is a JSON object) and \<open>e_stringJSON\<close>
  (the text of a JSON string).
\<close>

section \<open>Metadata\<close>

definition allowedFields :: "string \<Rightarrow> string list option" where
  "allowedFields kind =
     (if kind = ''secret_text'' \<or> kind = ''assets'' then Some [''name'', ''type'']
      else if kind = ''plain_text'' then Some [''name'', ''type'', ''text'']
      else if kind = ''json'' then Some [''name'', ''type'', ''json'']
      else if kind = ''dispatch_namespace'' then Some [''name'', ''type'', ''namespace'']
      else if kind = ''kv_namespace'' then Some [''name'', ''type'', ''namespace_id'']
      else if kind = ''d1'' then Some [''name'', ''type'', ''id'', ''database_id'']
      else if kind = ''r2_bucket'' then Some [''name'', ''type'', ''bucket_name'']
      else if kind = ''service'' then Some [''name'', ''type'', ''service'', ''environment'']
      else None)"

fun validateBindings :: "(string \<Rightarrow> (string \<times> string \<times> string list) option) \<Rightarrow> string list \<Rightarrow> string list \<Rightarrow> unit result" where
  "validateBindings parse seen [] = Inr ()"
| "validateBindings parse seen (raw # raws) =
     (case parse raw of
        None \<Rightarrow> Inl (ErrText ''invalid management binding'')
      | Some (name, kind, members) \<Rightarrow>
          if name = [] \<or> 128 < length name \<or> name \<in> set seen then Inl (ErrText ''invalid management binding name'')
          else case allowedFields kind of
              None \<Rightarrow> Inl (ErrText ''unsupported management binding type'')
            | Some allowed \<Rightarrow>
                if \<not> list_all (\<lambda>f. f \<in> set allowed) members then Inl (ErrText ''unsupported management binding field'')
                else validateBindings parse (name # seen) raws)"

definition validateManagementMetadata :: "serviceEnv \<Rightarrow> ScriptManagementMetadata \<Rightarrow> unit result" where
  "validateManagementMetadata e metadata =
     (if 128 < length (Meta_Bindings metadata) \<or> 128 < length (Meta_Tags metadata)
      then Inl (ErrText ''management metadata limit exceeded'')
      else if (case e_metadataSize e metadata of Inl _ \<Rightarrow> True | Inr n \<Rightarrow> n > 2 ^ 20)
      then Inl (ErrText ''invalid management metadata'')
      else rbind (validateBindings (e_bindingOf e) [] (Meta_Bindings metadata)) (\<lambda>_.
        if list_ex (\<lambda>tag. tag = [] \<or> 256 < length tag) (Meta_Tags metadata)
        then Inl (ErrText ''invalid management tag'') else Inr ()))"

text \<open>The type each binding of the previous metadata had; what does not parse has the empty name.\<close>

definition oldKinds :: "serviceEnv \<Rightarrow> string list \<Rightarrow> (string, string) gomap" where
  "oldKinds e raws = foldl (\<lambda>m raw. case e_bindingOf e raw of None \<Rightarrow> mput [] [] m
     | Some (name, kind, _) \<Rightarrow> mput name kind m) mempty raws"

definition addBinding :: "serviceEnv \<Rightarrow> string \<Rightarrow> string \<Rightarrow> (string \<times> string) list \<Rightarrow> (string, string) gomap
    \<Rightarrow> (string, string) gomap" where
  "addBinding e name kind members m = mput name (e_bindingJSON e name kind members) m"

definition addVar :: "serviceEnv \<Rightarrow> (string, string) gomap \<Rightarrow> (string, string) gomap \<Rightarrow> string \<times> string
    \<Rightarrow> (string, string) gomap" where
  "addVar e old m nv = (case nv of (name, raw) \<Rightarrow>
     (case (case trimSpace raw of c # _ \<Rightarrow> if c = CHR 0x22 then e_stringJSON e raw else None | [] \<Rightarrow> None) of
        Some t \<Rightarrow> if mget0 [] old name \<noteq> ''json'' then addBinding e name ''plain_text'' [(''text'', t)] m
                   else addBinding e name ''json'' [(''json'', raw)] m
      | None \<Rightarrow> addBinding e name ''json'' [(''json'', raw)] m))"

fun afold :: "('b \<Rightarrow> 'a \<Rightarrow> 'b act) \<Rightarrow> 'b \<Rightarrow> 'a list \<Rightarrow> 'b act" where
  "afold f b [] = areturn b"
| "afold f b (x # xs) = abind (f b x) (\<lambda>b'. afold f b' xs)"

lemma keeps_fold [keeps_rules]: "(\<And>b x. keeps f (g b x)) \<Longrightarrow> keeps f (afold g b xs)"
  by (induction xs arbitrary: b) (auto intro!: keeps_rules)

definition dispatchMetadata :: "serviceEnv \<Rightarrow> string \<Rightarrow> (string, string) gomap \<Rightarrow> DispatchBinding \<Rightarrow> (string, string) gomap act" where
  "dispatchMetadata e appID m b =
     abind (storeGet (GetApp appID)) (\<lambda>app.
     abind (storeGet (DispatchNamespaceForOrg (App_OrgID app) (DispBind_NamespaceID b))) (\<lambda>ns.
       areturn (addBinding e (DispBind_Binding b) ''dispatch_namespace'' [(''namespace'', DNs_Name ns)] m)))"

definition bucketMetadata :: "serviceEnv \<Rightarrow> (string, string) gomap \<Rightarrow> ObjectStorageBucketBinding \<Rightarrow> (string, string) gomap act" where
  "bucketMetadata e m b =
     abind (storeGet (GetObjectStorageBucket (ObjBind_BucketID b))) (\<lambda>bucket.
       areturn (addBinding e (ObjBind_Binding b) ''r2_bucket'' [(''bucket_name'', Bucket_Name bucket)] m))"

definition serviceMetadata :: "serviceEnv \<Rightarrow> ServiceBinding \<Rightarrow> (string, string) gomap \<Rightarrow> (string, string) gomap" where
  "serviceMetadata e b m = addBinding e (SvcBind_Binding b) ''service''
     [(''service'', if SvcBind_WorkerID b = [] then SvcBind_Service b else SvcBind_WorkerID b)] m"

definition nativeManagementMetadata :: "Deployment \<Rightarrow> ArtifactSecret list \<Rightarrow> ScriptManagementMetadata \<Rightarrow> ScriptManagementMetadata act" where
  "nativeManagementMetadata d selected previous =
     abind (aenv id) (\<lambda>e.
       let m1 = foldl (addVar e (oldKinds e (Meta_Bindings previous))) mempty (mentries (Dep_Vars d));
           m2 = foldl (\<lambda>m b. addBinding e (KVBind_Binding b) ''kv_namespace'' [(''namespace_id'', KVBind_ID b)] m) m1 (Dep_KVNamespaces d) in
       abind (afold (dispatchMetadata e (Dep_AppID d)) m2 (Dep_DispatchNamespaces d)) (\<lambda>m3.
         let m4 = foldl (\<lambda>m b. addBinding e (DBBind_Binding b) ''d1'' [(''database_id'', DBBind_DatabaseID b)] m) m3 (Dep_Databases d) in
         abind (afold (bucketMetadata e) m4 (Dep_ObjectStorageBuckets d)) (\<lambda>m5.
           let m6 = foldl (\<lambda>m b. serviceMetadata e b m) m5 (Dep_Services d);
               m7 = (if Dep_Assets d \<noteq> [] \<and> AssetCfg_Binding (Dep_AssetConfig d) \<noteq> []
                 then addBinding e (AssetCfg_Binding (Dep_AssetConfig d)) ''assets'' [] m6 else m6);
               m8 = foldl (\<lambda>m s. addBinding e (ArtSecret_Name s) ''secret_text'' [] m) m7 selected;
               metadata = \<lparr>Meta_Bindings = map (mget0 [] m8) (sort (mkeys m8)), Meta_Tags = Meta_Tags previous\<rparr>
           in abind (alift (validateManagementMetadata e metadata)) (\<lambda>_. areturn metadata))))"

section \<open>Managed publications\<close>

record managedPublication =
  MPub_ConfigurationOnly :: bool
  MPub_RequestIdentity :: string
  MPub_ExpectedRevision :: int
  MPub_Metadata :: ScriptManagementMetadata
  MPub_Secrets :: "ArtifactSecret list"

definition nativeManagedPublication :: "App \<Rightarrow> Deployment \<Rightarrow> managedPublication option act" where
  "nativeManagedPublication app d =
     abind (storeGet (GetScriptManagementState (App_ID app))) (\<lambda>(state, found).
       if \<not> found then areturn None
       else abind (storeGet (GetDeploymentArtifact (App_ID app) (Mgmt_DeploymentID state))) (\<lambda>base.
         abind (nativeManagementMetadata d (Art_Secrets base) (Mgmt_Metadata state)) (\<lambda>metadata.
           areturn (Some \<lparr>MPub_ConfigurationOnly = False, MPub_RequestIdentity = [],
             MPub_ExpectedRevision = Mgmt_Revision state, MPub_Metadata = metadata, MPub_Secrets = Art_Secrets base\<rparr>))))"

text \<open>The management revision an artifact carries is committed once: a worker already at it is left alone.\<close>

definition commitManagedArtifact :: "Publication \<Rightarrow> DeploymentArtifact \<Rightarrow> unit act" where
  "commitManagedArtifact p a =
     (case Art_Management a of
        None \<Rightarrow> areturn ()
      | Some mg \<Rightarrow>
          abind (storeGet (GetApp (Pub_AppID p))) (\<lambda>app.
          abind (storeGet (GetScriptManagementState (Pub_AppID p))) (\<lambda>(state, found).
            if found \<and> Mgmt_DeploymentID state = Pub_DeploymentID p \<and> Mgmt_Revision state = ArtMgmt_ExpectedRevision mg + 1
            then areturn ()
            else abind anow (\<lambda>t.
              storeDo (CommitScriptManagementState \<lparr>Mgmt_WorkerID = Pub_AppID p, Mgmt_OrgID = App_OrgID app,
                Mgmt_Revision = ArtMgmt_ExpectedRevision mg + 1, Mgmt_DeploymentID = Pub_DeploymentID p,
                Mgmt_Metadata = ArtMgmt_Metadata mg, Mgmt_UpdatedAt = t\<rparr> (ArtMgmt_ExpectedRevision mg))))))"

text \<open>A later upload must never be overwritten by retrying an older change.\<close>

definition reconcileDerivedManagement :: "string \<Rightarrow> string \<Rightarrow> unit act" where
  "reconcileDerivedManagement appID revision =
     abind (storeGet (GetScriptManagementState appID)) (\<lambda>(state, managed).
       if \<not> managed then areturn ()
       else abind (storeGet (GetDeploymentArtifact appID revision)) (\<lambda>a.
         case Art_Management a of
           None \<Rightarrow> areturn ()
         | Some mg \<Rightarrow> if Mgmt_Revision state > ArtMgmt_ExpectedRevision mg then areturn ()
             else commitManagedArtifact (Publication0\<lparr>Pub_AppID := appID, Pub_DeploymentID := revision\<rparr>) a))"

section \<open>Freezing\<close>

fun sameDigests :: "(string, string) gomap \<Rightarrow> (string \<times> string) list \<Rightarrow> unit result" where
  "sameDigests captured [] = Inr ()"
| "sameDigests captured ((p, digest) # ds) =
     (if mget0 [] captured p \<noteq> digest then Inl (ErrText ''derived deployment asset integrity check failed'')
      else sameDigests captured ds)"

definition putArtifact :: "DeploymentArtifact \<Rightarrow> unit act" where
  "putArtifact a = (\<lambda>e. storeDo (PutDeploymentArtifact (e_artifactJSON e) a) e)"

definition inheritManagement :: "ActiveDeployment \<Rightarrow> DeploymentArtifact \<Rightarrow> DeploymentArtifact \<Rightarrow> DeploymentArtifact act" where
  "inheritManagement item a base =
     (if mlen (Art_AssetDigests a) \<noteq> mlen (Art_AssetDigests base)
      then afail (ErrText ''derived deployment changed immutable assets'')
      else abind (alift (sameDigests (Art_AssetDigests a) (mentries (Art_AssetDigests base)))) (\<lambda>_.
        abind (storeGet (GetScriptManagementState (App_ID (Active_App item)))) (\<lambda>(state, managed).
          if \<not> managed then areturn a
          else abind (nativeManagementMetadata (Art_Deployment a) (Art_Secrets a) (Mgmt_Metadata state)) (\<lambda>metadata.
            areturn (a\<lparr>Art_Management := Some \<lparr>ArtMgmt_ExpectedRevision = Mgmt_Revision state, ArtMgmt_Metadata = metadata\<rparr>\<rparr>)))))"

definition freezeArtifact :: "ActiveDeployment \<Rightarrow> DeploymentArtifact option \<Rightarrow> DeploymentArtifact act" where
  "freezeArtifact item inherited =
     abind (atry (storeGet (GetDeploymentArtifact (App_ID (Active_App item)) (Dep_ID (Active_Deployment item))))) (\<lambda>r.
       case r of
         Inr existing \<Rightarrow> areturn existing
       | Inl err \<Rightarrow>
           if \<not> errorsIs err ErrArtifactNotFound then afail err
           else abind (case inherited of
                 Some base \<Rightarrow> areturn (Art_Secrets base)
               | None \<Rightarrow> abind (storeGet (ListSecrets (App_ID (Active_App item)))) (\<lambda>records.
                   abind (aenv e_hash) (\<lambda>hashBytes. areturn (sealRecords hashBytes records)))) (\<lambda>selected.
             abind (captureArtifact item selected) (\<lambda>captured.
             abind (case inherited of None \<Rightarrow> areturn captured | Some base \<Rightarrow> inheritManagement item captured base) (\<lambda>a.
             abind (putArtifact a) (\<lambda>_. areturn a)))))"

end
