(* ===== verification/Publication_Stages.thy ===== *)
theory Publication_Stages
  imports Management
begin

text \<open>
  The life of a publication in \<open>publication.go\<close> and \<open>worker_publication.go\<close>: a stored deployment is
  prepared, activated, published to the runtime and acknowledged, or rolled back; a retry with the
  same key replays the publication from the stage it reached. The stages are \<open>building\<close>, \<open>stored\<close>,
  \<open>runtime_ready\<close>, \<open>activating\<close>, \<open>rolling_back\<close>, and the final \<open>route_published\<close>, \<open>failed\<close> and
  \<open>superseded\<close>.
\<close>

section \<open>Publishing to the runtime\<close>

definition acknowledgeState :: "WorkerPublication \<Rightarrow> unit act" where
  "acknowledgeState state =
     (if WPub_Generation state > WPub_PublishedGeneration state
      then storeDo (AcknowledgePublication (WPub_AppID state) (WPub_Generation state)) else areturn ())"

definition acknowledgeCurrentPublications :: "unit act" where
  "acknowledgeCurrentPublications =
     abind (storeGet (\<lambda>s. Inr (PublicationStates s))) (aeach acknowledgeState)"

definition acknowledgeWritten :: "WorkerPublication \<Rightarrow> unit act" where
  "acknowledgeWritten state =
     (if WPub_Generation state = WPub_PublishedGeneration state then areturn ()
      else abind (atry (storeDo (AcknowledgePublication (WPub_AppID state) (WPub_Generation state)))) (\<lambda>r.
        case r of Inr _ \<Rightarrow> areturn () | Inl err \<Rightarrow> afail (ErrWrapped err ''acknowledge worker publication'')))"

definition writePublication :: "ActiveDeployment list \<Rightarrow> unit act" where
  "writePublication as =
     abind (storeGet (\<lambda>s. Inr (PublicationStates s))) (\<lambda>states.
     abind (writerWrite as) (\<lambda>_. aeach acknowledgeWritten states))"

definition publishActiveDeployments :: "string \<Rightarrow> unit act" where
  "publishActiveDeployments appID =
     abind (invalidateRuntimeDeployments appID) (\<lambda>_. abind activeDeployments writePublication)"

section \<open>Saving a stage\<close>

definition targetTraffic :: "Publication \<Rightarrow> DeploymentTraffic list" where
  "targetTraffic p =
     (if Pub_ConfigurationOnly p then []
      else if Pub_TargetTraffic p \<noteq> [] then Pub_TargetTraffic p
      else [\<lparr>Traffic_ID = Pub_DeploymentID p, Traffic_TrafficPercent = 100\<rparr>])"

text \<open>The code sets the stage of its copy of the publication before it saves; no code reads the stage of
  the copy again before it is overwritten, so the model's copy keeps its stage.\<close>

definition savePublication :: "Publication \<Rightarrow> string \<Rightarrow> unit act" where
  "savePublication p stage =
     abind anow (\<lambda>t. storeDo (SavePublication (p\<lparr>Pub_Stage := stage, Pub_UpdatedAt := t\<rparr>)))"

section \<open>The candidate\<close>

text \<open>The grants are read as one call of the repository.\<close>

definition checkArtifactBindings :: "App \<Rightarrow> DeploymentArtifact \<Rightarrow> unit act" where
  "checkArtifactBindings app a = storeGet (checkNamespaceBindings app (Dep_KVNamespaces (Art_Deployment a))
     (Dep_Databases (Art_Deployment a)) (Dep_ObjectStorageBuckets (Art_Deployment a)))"

definition candidateTarget :: "Publication \<Rightarrow> DeploymentArtifact \<Rightarrow> App \<Rightarrow> DeploymentTraffic \<Rightarrow> ActiveDeployment act" where
  "candidateTarget p a app target =
     abind (if Traffic_ID target \<noteq> Dep_ID (Art_Deployment a)
            then storeGet (GetDeploymentArtifact (Pub_AppID p) (Traffic_ID target)) else areturn a) (\<lambda>t.
     abind (checkArtifactBindings app t) (\<lambda>_.
       hydrateArtifact (ActiveDeployment0\<lparr>Active_App := app, Active_Deployment := Art_Deployment t,
         Active_TrafficPercent := Traffic_TrafficPercent target\<rparr>)))"

definition publicationCandidate :: "Publication \<Rightarrow> DeploymentArtifact \<Rightarrow> App \<Rightarrow> ActiveDeployment list act" where
  "publicationCandidate p a app =
     abind activeDeployments (\<lambda>as.
     abind (amap (candidateTarget p a app) (targetTraffic p)) (\<lambda>targets.
       areturn (filter (\<lambda>item. App_ID (Active_App item) \<noteq> Pub_AppID p) as @ targets)))"

section \<open>Publishing a stored artifact\<close>

definition abortPrepared :: "PublicationPreparation option \<Rightarrow> unit act" where
  "abortPrepared prepared =
     (case prepared of None \<Rightarrow> areturn () | Some prep \<Rightarrow> abind (atry (writerAbort prep)) (\<lambda>_. areturn ()))"

text \<open>\<open>if err != nil { abort; return err }\<close>.\<close>

definition orAbort :: "PublicationPreparation option \<Rightarrow> unit act \<Rightarrow> unit act" where
  "orAbort prepared m = abind (atry m) (\<lambda>r. case r of
     Inr _ \<Rightarrow> areturn () | Inl err \<Rightarrow> abind (abortPrepared prepared) (\<lambda>_. afail err))"

definition prepareRuntime :: "Publication \<Rightarrow> App \<Rightarrow> ActiveDeployment list \<Rightarrow> (Publication \<times> PublicationPreparation option) act" where
  "prepareRuntime p app candidate =
     abind (aenv e_twoPhase) (\<lambda>twoPhase.
       if \<not> twoPhase then areturn (p, None)
       else abind (aenv e_targeted) (\<lambda>targeted.
         abind (atry (writerPrepare (if targeted then Some (Pub_AppID p) else None) candidate)) (\<lambda>r.
           case r of
             Inl err \<Rightarrow> abind (atry (savePublication p ''failed'')) (\<lambda>_. afail (ErrWrapped err ''prepare runtime''))
           | Inr prep \<Rightarrow>
               let p' = p\<lparr>Pub_RuntimeReady := \<not> IsDynamic app\<rparr> in
               abind (orAbort (Some prep) (savePublication p' ''runtime_ready'')) (\<lambda>_. areturn (p', Some prep)))))"

definition rollBackPublication :: "Publication \<Rightarrow> error \<Rightarrow> 'a act" where
  "rollBackPublication p err =
     abind (atry (savePublication p ''rolling_back'')) (\<lambda>r. case r of
       Inl _ \<Rightarrow> afail (ErrWrapped err ''publication failed; persist rollback'')
     | Inr _ \<Rightarrow>
         abind (atry (storeDo (SetActiveTraffic (Pub_AppID p) (Pub_PreviousTraffic p)))) (\<lambda>r. case r of
           Inl _ \<Rightarrow> afail (ErrWrapped err ''publication failed; restore traffic'')
         | Inr _ \<Rightarrow>
             abind (atry (publishActiveDeployments (Pub_AppID p))) (\<lambda>r. case r of
               Inl _ \<Rightarrow> afail (ErrWrapped err ''publication failed; restore runtime/routes'')
             | Inr _ \<Rightarrow>
                 abind (savePublication p ''failed'') (\<lambda>_. afail (ErrWrapped err ''write generated config'')))))"

definition publishCandidate :: "PublicationPreparation option \<Rightarrow> ActiveDeployment list \<Rightarrow> unit act" where
  "publishCandidate prepared candidate =
     abind (case prepared of Some prep \<Rightarrow> writerCommit prep | None \<Rightarrow> writerWrite candidate)
       (\<lambda>_. acknowledgeCurrentPublications)"

definition activatePublication :: "Publication \<Rightarrow> DeploymentArtifact \<Rightarrow> PublicationPreparation option \<Rightarrow> ActiveDeployment list
    \<Rightarrow> Deployment act" where
  "activatePublication p a prepared candidate =
     abind (orAbort prepared (savePublication p ''activating'')) (\<lambda>_.
     abind (orAbort prepared (storeDo (SetActiveTraffic (Pub_AppID p) (targetTraffic p)))) (\<lambda>_.
     abind (invalidateRuntimeDeployments (Pub_AppID p)) (\<lambda>_.
     abind (atry (publishCandidate prepared candidate)) (\<lambda>r. case r of
       Inl err \<Rightarrow> abind (abortPrepared prepared) (\<lambda>_. rollBackPublication p err)
     | Inr _ \<Rightarrow>
         abind (atry (savePublication p ''route_published'')) (\<lambda>r. case r of
           Inl err \<Rightarrow> afail (ErrWrapped err ''publication applied; retry the same idempotency key to recover'')
         | Inr _ \<Rightarrow> areturn (Art_Deployment a))))))"

definition publishStoredArtifact :: "Publication \<Rightarrow> DeploymentArtifact \<Rightarrow> Deployment act" where
  "publishStoredArtifact p a =
     abind (commitManagedArtifact p a) (\<lambda>_.
     abind (storeGet (GetApp (Pub_AppID p))) (\<lambda>app.
     abind (atry (checkArtifactBindings app a)) (\<lambda>r. case r of
       Inl err \<Rightarrow> abind (atry (savePublication p ''failed'')) (\<lambda>_. afail err)
     | Inr _ \<Rightarrow>
         if Pub_ConfigurationOnly p
         then abind (savePublication (p\<lparr>Pub_RuntimeReady := False\<rparr>) ''route_published'') (\<lambda>_. areturn (Art_Deployment a))
         else abind (publicationCandidate p a app) (\<lambda>candidate.
           abind (prepareRuntime p app candidate) (\<lambda>(p', prepared).
             activatePublication p' a prepared candidate)))))"

section \<open>Replaying a publication\<close>

text \<open>\<open>return a.Deployment, s.savePublication(&p, "superseded")\<close>: the deployment is returned with the
  error; no caller reads it when there is one.\<close>

definition supersede :: "Publication \<Rightarrow> DeploymentArtifact \<Rightarrow> Deployment act" where
  "supersede p a = abind (savePublication p ''superseded'') (\<lambda>_. areturn (Art_Deployment a))"

definition finishRollback :: "Publication \<Rightarrow> Deployment act" where
  "finishRollback p =
     abind (storeDo (SetActiveTraffic (Pub_AppID p) (Pub_PreviousTraffic p))) (\<lambda>_.
     abind (publishActiveDeployments (Pub_AppID p)) (\<lambda>_.
     abind (savePublication p ''failed'') (\<lambda>_. afail ErrPublicationFailed)))"

definition finishActivation :: "Publication \<Rightarrow> DeploymentArtifact \<Rightarrow> Deployment act" where
  "finishActivation p a =
     abind (publishActiveDeployments (Pub_AppID p)) (\<lambda>_.
     abind (storeGet (GetApp (Pub_AppID p))) (\<lambda>app.
     abind (aenv e_twoPhase) (\<lambda>verifies.
     abind (savePublication (p\<lparr>Pub_RuntimeReady := (verifies \<and> \<not> IsDynamic app)\<rparr>) ''route_published'') (\<lambda>_.
       areturn (Art_Deployment a)))))"

definition replayTraffic :: "Publication \<Rightarrow> DeploymentArtifact \<Rightarrow> Deployment act" where
  "replayTraffic p a =
     abind (storeGet (ActiveDeploymentsForApp (Pub_AppID p))) (\<lambda>as.
       let traffic = activeTrafficForApp as (Pub_AppID p);
           current = sameTraffic traffic (targetTraffic p);
           previous = sameTraffic traffic (Pub_PreviousTraffic p) in
       if Pub_Stage p = ''rolling_back''
       then (if \<not> current \<and> \<not> previous then supersede p a else finishRollback p)
       else if current then finishActivation p a
       else if \<not> previous then supersede p a
       else if Pub_Stage p = ''stored'' \<or> Pub_Stage p = ''activating'' \<or> Pub_Stage p = ''runtime_ready''
       then publishStoredArtifact p a
       else afail ErrPublicationFailed)"

definition replayPublication :: "Publication \<Rightarrow> Deployment act" where
  "replayPublication p =
     (if Pub_Stage p = ''building''
      then abind (atry (savePublication p ''failed'')) (\<lambda>_. afail ErrPublicationFailed)
      else if Pub_Stage p = ''failed'' then afail ErrPublicationFailed
      else abind (storeGet (GetDeploymentArtifact (Pub_AppID p) (Pub_DeploymentID p))) (\<lambda>a.
        if Pub_Stage p = ''route_published'' \<or> Pub_Stage p = ''superseded'' then areturn (Art_Deployment a)
        else abind (atry (commitManagedArtifact p a)) (\<lambda>r. case r of
          Inl err \<Rightarrow> if errorsIs err ErrManagementConflict then supersede p a else afail err
        | Inr _ \<Rightarrow> if Pub_ConfigurationOnly p then publishStoredArtifact p a else replayTraffic p a)))"

section \<open>Recovery\<close>

definition recoverActive :: "ActiveDeployment \<Rightarrow> unit act" where
  "recoverActive item =
     abind (freezeArtifact item None) (\<lambda>_.
       reconcileDerivedManagement (App_ID (Active_App item)) (Dep_ID (Active_Deployment item)))"

definition settledStage :: "string \<Rightarrow> bool" where
  "settledStage stage \<longleftrightarrow> stage = ''route_published'' \<or> stage = ''failed'' \<or> stage = ''superseded''"

definition recoverPublication :: "Publication \<Rightarrow> unit act" where
  "recoverPublication p =
     (if settledStage (Pub_Stage p) then areturn ()
      else abind (atry (replayPublication p)) (\<lambda>r. case r of
        Inl err \<Rightarrow> if errorsIs err ErrPublicationFailed then areturn () else afail err
      | Inr _ \<Rightarrow> areturn ()))"

definition recoverPublicationsLocked :: "unit act" where
  "recoverPublicationsLocked =
     abind (storeGet (\<lambda>s. Inr (ActiveDeployments s))) (\<lambda>as.
     abind (aeach recoverActive as) (\<lambda>_.
     abind (storeGet (\<lambda>s. Inr (ListPublications s))) (aeach recoverPublication)))"

end
