(* ===== verification/Publication_Consistency.thy ===== *)
theory Publication_Consistency
  imports Publication_Stages
begin

text \<open>
  What stays true of a publication wherever its run is cut short: the stage the repository remembers
  and the traffic it routes agree. Assertions are predicates of the store; \<open>triple E P m Q\<close> states
  that from \<open>P\<close> the action \<open>m\<close> reaches \<open>Q\<close> when it returns a value and \<open>E\<close> when it returns an error,
  whatever calls fail on the way.
\<close>

section \<open>Triples\<close>

definition triple :: "(Store \<Rightarrow> bool) \<Rightarrow> (Store \<Rightarrow> bool) \<Rightarrow> 'a act \<Rightarrow> ('a \<Rightarrow> Store \<Rightarrow> bool) \<Rightarrow> bool" where
  "triple E P m Q \<longleftrightarrow> (\<forall>e w. P (w_store w) \<longrightarrow>
     (case m e w of (Inl _, w') \<Rightarrow> E (w_store w') | (Inr a, w') \<Rightarrow> Q a (w_store w')))"

named_theorems triple_rules "rules for assertions about actions"

lemma tripleD:
  assumes "triple E P m Q" "P (w_store w)" "m e w = (r, w')"
  shows "case r of Inl _ \<Rightarrow> E (w_store w') | Inr a \<Rightarrow> Q a (w_store w')"
  using assms unfolding triple_def by (metis (no_types, lifting) case_prod_conv sum.case_eq_if)

lemma triple_bind:
  assumes "triple E P m Q" "\<And>a. triple E (Q a) (f a) R"
  shows "triple E P (abind m f) R"
  unfolding triple_def
proof (intro allI impI)
  fix e and w :: world
  assume P: "P (w_store w)"
  obtain r w' where m: "m e w = (r, w')" by (cases "m e w")
  note post = tripleD[OF assms(1) P m]
  show "case abind m f e w of (Inl _, w'') \<Rightarrow> E (w_store w'') | (Inr a, w'') \<Rightarrow> R a (w_store w'')"
  proof (cases r)
    case (Inl er)
    then show ?thesis using post m by (simp add: abind_def)
  next
    case (Inr a)
    then show ?thesis using post m assms(2)[of a] by (simp add: abind_def triple_def)
  qed
qed

lemma triple_try:
  assumes "triple E' P m Q"
  shows "triple E P (atry m) (\<lambda>r s. case r of Inl _ \<Rightarrow> E' s | Inr a \<Rightarrow> Q a s)"
  using assms unfolding triple_def atry_def
  by (auto split: prod.split sum.split) (metis (no_types, lifting) case_prod_conv old.sum.simps(5,6))+

lemma triple_return [triple_rules]: "(\<And>s. P s \<Longrightarrow> Q a s) \<Longrightarrow> triple E P (areturn a) Q"
  by (simp add: triple_def)

lemma triple_fail [triple_rules]: "(\<And>s. P s \<Longrightarrow> E s) \<Longrightarrow> triple E P (afail er) Q"
  by (simp add: triple_def)

lemma triple_conseq:
  assumes "triple E P m Q" "\<And>s. P' s \<Longrightarrow> P s" "\<And>a s. Q a s \<Longrightarrow> Q' a s" "\<And>s. E s \<Longrightarrow> E' s"
  shows "triple E' P' m Q'"
  unfolding triple_def
proof (intro allI impI)
  fix e and w :: world
  assume "P' (w_store w)"
  then have P: "P (w_store w)" by (rule assms(2))
  obtain r w' where m: "m e w = (r, w')" by (cases "m e w")
  from tripleD[OF assms(1) P m] show "case m e w of (Inl _, w'') \<Rightarrow> E' (w_store w'') | (Inr a, w'') \<Rightarrow> Q' a (w_store w'')"
    using assms(3,4) m by (cases r) simp_all
qed

lemma triple_try_case:
  assumes "triple E' P m Q" "\<And>er. triple E E' (f er) R" "\<And>a. triple E (Q a) (g a) R"
  shows "triple E P (abind (atry m) (\<lambda>r. case r of Inl er \<Rightarrow> f er | Inr a \<Rightarrow> g a)) R"
proof (rule triple_bind)
  show "triple E P (atry m) (\<lambda>r s. case r of Inl _ \<Rightarrow> E' s | Inr a \<Rightarrow> Q a s)" using assms(1) by (rule triple_try)
  show "triple E (\<lambda>s. case r of Inl _ \<Rightarrow> E' s | Inr a \<Rightarrow> Q a s) (case r of Inl er \<Rightarrow> f er | Inr a \<Rightarrow> g a) R" for r
    using assms(2,3) by (cases r) simp_all
qed

lemma triple_try_fail:
  assumes "triple E P m Q" "\<And>a s. Q a s \<Longrightarrow> E s"
  shows "triple E P (abind (atry m) (\<lambda>_. afail er)) R"
proof (rule triple_bind[OF triple_try[OF assms(1)]])
  show "triple E (\<lambda>s. case r of Inl _ \<Rightarrow> E s | Inr a \<Rightarrow> Q a s) (afail er) R" for r
    using assms(2) by (cases r) (auto intro: triple_fail)
qed

lemma triple_storeGet:
  assumes "\<And>s. P s \<Longrightarrow> E s"
  shows "triple E P (storeGet f) (\<lambda>a s. P s \<and> f s = Inr a)"
  using assms by (auto simp: triple_def storeGet_def external_def atick_def split: fault.split sum.split)

lemma triple_pure:
  assumes "\<And>s. P s \<Longrightarrow> b" "b \<Longrightarrow> triple E P m Q"
  shows "triple E P m Q"
  unfolding triple_def
proof (intro allI impI)
  fix e and w :: world
  assume P: "P (w_store w)"
  then have "triple E P m Q" using assms by blast
  then show "case m e w of (Inl _, w') \<Rightarrow> E (w_store w') | (Inr a, w') \<Rightarrow> Q a (w_store w')"
    using P by (simp add: triple_def)
qed

lemma triple_if:
  assumes "b \<Longrightarrow> triple E P m Q" "\<not> b \<Longrightarrow> triple E P n Q"
  shows "triple E P (if b then m else n) Q"
  using assms by simp

lemma triple_exists:
  assumes "\<And>x. b x \<Longrightarrow> triple E (P x) m Q" "\<And>s. P' s \<Longrightarrow> \<exists>x. b x \<and> P x s"
  shows "triple E P' m Q"
  unfolding triple_def
proof (intro allI impI)
  fix e and w :: world
  assume "P' (w_store w)"
  then obtain x where "b x" "P x (w_store w)" using assms(2) by blast
  then show "case m e w of (Inl _, w') \<Rightarrow> E (w_store w') | (Inr a, w') \<Rightarrow> Q a (w_store w')"
    using assms(1)[of x] by (simp add: triple_def)
qed

lemma triple_bind_prod:
  assumes "triple E P m (\<lambda>(x, y). Q x y)" "\<And>x y. triple E (Q x y) (f x y) R"
  shows "triple E P (abind m (\<lambda>(x, y). f x y)) R"
  by (rule triple_bind[OF assms(1)]) (simp add: assms(2) split: prod.split)

text \<open>An action that keeps what the assertion looks at.\<close>

lemma triple_keeps:
  assumes "keeps (\<lambda>w. f (w_store w)) m" "\<And>s s'. f s = f s' \<Longrightarrow> P s = P s'" "\<And>s. P s \<Longrightarrow> E s"
  shows "triple E P m (\<lambda>_. P)"
  unfolding triple_def
proof (intro allI impI)
  fix e and w :: world
  assume P: "P (w_store w)"
  obtain r w' where m: "m e w = (r, w')" by (cases "m e w")
  then have "f (w_store w') = f (w_store w)" using keepsD[OF assms(1)] by blast
  then have "P (w_store w')" using assms(2)[of "w_store w'" "w_store w"] P by simp
  then show "case m e w of (Inl _, w'') \<Rightarrow> E (w_store w'') | (Inr a, w'') \<Rightarrow> P (w_store w'')"
    using m assms(3) by (cases r) simp_all
qed

lemma triple_storeDo:
  assumes "\<And>s s'. P s \<Longrightarrow> g s = Inr s' \<Longrightarrow> Q s'" "\<And>s. P s \<Longrightarrow> E s" "\<And>s. Q s \<Longrightarrow> E s"
  shows "triple E P (storeDo g) (\<lambda>_. Q)"
  using assms by (auto simp: triple_def storeDo_def external_def atick_def split: fault.split sum.split)

section \<open>What the stages depend on\<close>

definition routing :: "Store \<Rightarrow> (string, App) gomap \<times> (string, Deployment list) gomap \<times> (string, (string, int) gomap) gomap
    \<times> (string, Publication) gomap" where
  "routing s = (apps s, deployments s, active s, publications s)"

definition trafficShare :: "Store \<Rightarrow> string \<Rightarrow> string \<Rightarrow> int" where
  "trafficShare s app i = mget0 0 (mget0 mempty (active s) app) i"

definition trafficWeight :: "DeploymentTraffic list \<Rightarrow> string \<Rightarrow> int" where
  "trafficWeight ts i = mget0 0 (trafficValues ts) i"

text \<open>A worker's routes name its deployments, with positive percentages.\<close>

definition wellRouted :: "string \<Rightarrow> Store \<Rightarrow> bool" where
  "wellRouted app s \<longleftrightarrow> (case mget (apps s) app of None \<Rightarrow> False | Some a \<Rightarrow> App_ID a = app)
     \<and> distinct (map Dep_ID (mget0 [] (deployments s) app))
     \<and> list_all (\<lambda>(i, n). 0 < n \<and> list_ex (\<lambda>d. Dep_ID d = i) (mget0 [] (deployments s) app)) (mentries (mget0 mempty (active s) app))"

definition properTraffic :: "DeploymentTraffic list \<Rightarrow> bool" where
  "properTraffic ts \<longleftrightarrow> distinct (map Traffic_ID ts) \<and> list_all (\<lambda>t. 0 < Traffic_TrafficPercent t) ts"

text \<open>Where a publication leads: a publication of configuration alone routes nothing.\<close>

definition goalTraffic :: "Publication \<Rightarrow> DeploymentTraffic list" where
  "goalTraffic p = (if Pub_ConfigurationOnly p then Pub_PreviousTraffic p else targetTraffic p)"

definition stageAgrees :: "Publication \<Rightarrow> string \<Rightarrow> (string \<Rightarrow> int) \<Rightarrow> bool" where
  "stageAgrees p stage T \<longleftrightarrow>
     (if stage = ''activating'' \<or> stage = ''rolling_back'' \<or> stage = ''superseded''
      then T = trafficWeight (Pub_PreviousTraffic p) \<or> T = trafficWeight (goalTraffic p)
      else if stage = ''route_published'' then T = trafficWeight (goalTraffic p)
      else T = trafficWeight (Pub_PreviousTraffic p))"

text \<open>Two versions of one publication differ in its stage, its readiness and its time only.\<close>

definition sameRequest :: "Publication \<Rightarrow> Publication \<Rightarrow> bool" where
  "sameRequest p q \<longleftrightarrow> q = p\<lparr>Pub_Stage := Pub_Stage q, Pub_RuntimeReady := Pub_RuntimeReady q, Pub_UpdatedAt := Pub_UpdatedAt q\<rparr>"

definition stands :: "Publication \<Rightarrow> string \<Rightarrow> (string \<Rightarrow> int) \<Rightarrow> Store \<Rightarrow> bool" where
  "stands p stage T s \<longleftrightarrow> wellRouted (Pub_AppID p) s \<and> trafficShare s (Pub_AppID p) = T
     \<and> (case GetPublication (Pub_AppID p) (Pub_Key p) s of None \<Rightarrow> False | Some q \<Rightarrow> sameRequest p q \<and> Pub_Stage q = stage)"

definition agrees :: "Publication \<Rightarrow> Store \<Rightarrow> bool" where
  "agrees p s \<longleftrightarrow> (\<exists>stage T. stands p stage T s \<and> stageAgrees p stage T)"

lemma routing_stands: "routing s = routing s' \<Longrightarrow> stands p stage T s = stands p stage T s'"
  by (simp add: routing_def stands_def wellRouted_def trafficShare_def GetPublication_def fun_eq_iff)

lemma routing_agrees: "routing s = routing s' \<Longrightarrow> agrees p s = agrees p s'"
  by (simp add: agrees_def routing_stands[of s s'])

lemma sameRequest_refl [simp]: "sameRequest p p"
  by (simp add: sameRequest_def)

lemma sameRequest_fields:
  assumes "sameRequest p q"
  shows "Pub_AppID q = Pub_AppID p" "Pub_Key q = Pub_Key p" "Pub_Fingerprint q = Pub_Fingerprint p" "Pub_DeploymentID q = Pub_DeploymentID p"
    "Pub_PreviousTraffic q = Pub_PreviousTraffic p" "Pub_ConfigurationOnly q = Pub_ConfigurationOnly p" "Pub_TargetTraffic q = Pub_TargetTraffic p"
  using assms by (cases p; cases q; simp add: sameRequest_def)+

lemma sameRequest_eq:
  assumes "sameRequest p q"
  shows "goalTraffic q = goalTraffic p" "targetTraffic q = targetTraffic p" "stageAgrees q = stageAgrees p"
  using sameRequest_fields[OF assms] by (simp_all add: goalTraffic_def targetTraffic_def stageAgrees_def fun_eq_iff)

section \<open>Routes and traffic lists\<close>

lemma trafficValues_get: "mget (foldl (\<lambda>m t. mput (Traffic_ID t) (Traffic_TrafficPercent t) m) m0 ts) i =
    (case find (\<lambda>t. Traffic_ID t = i) (rev ts) of None \<Rightarrow> mget m0 i | Some t \<Rightarrow> Some (Traffic_TrafficPercent t))"
  by (induction ts rule: rev_induct) (auto split: option.split)

lemma trafficValues_mem:
  assumes "distinct (map Traffic_ID ts)"
  shows "mget (trafficValues ts) i = Some n \<longleftrightarrow> (\<exists>t \<in> set ts. Traffic_ID t = i \<and> Traffic_TrafficPercent t = n)"
proof -
  have inj: "t = u" if "t \<in> set ts" "u \<in> set ts" "Traffic_ID t = Traffic_ID u" for t u
    using assms that by (auto simp: distinct_map inj_on_def)
  show ?thesis
  proof (cases "find (\<lambda>t. Traffic_ID t = i) (rev ts)")
    case None
    then have "\<forall>t \<in> set ts. Traffic_ID t \<noteq> i" by (simp add: find_None_iff)
    then show ?thesis by (simp add: trafficValues_def trafficValues_get None)
  next
    case (Some t)
    then obtain k where "k < length (rev ts)" "t = rev ts ! k" "Traffic_ID t = i" by (auto simp: find_Some_iff)
    then have "t \<in> set (rev ts)" "Traffic_ID t = i" using nth_mem[of k "rev ts"] by simp_all
    then have "t \<in> set ts" "Traffic_ID t = i" by simp_all
    then show ?thesis using Some inj by (auto simp: trafficValues_def trafficValues_get)
  qed
qed

lemma trafficValues_keys: "mget (trafficValues ts) i = None \<longleftrightarrow> i \<notin> Traffic_ID ` set ts"
  by (auto simp: trafficValues_def trafficValues_get find_None_iff split: option.split)
    (metis (mono_tags, lifting) find_None_iff imageI option.distinct(1) set_rev)

lemma trafficMap_result:
  "trafficMap ds ts m = Inr m' \<Longrightarrow> m' = foldl (\<lambda>m t. mput (Traffic_ID t) (Traffic_TrafficPercent t) m) m ts
     \<and> list_all (\<lambda>t. list_ex (\<lambda>d. Dep_ID d = Traffic_ID t) ds) ts"
  by (induction ds ts m rule: trafficMap.induct) (auto split: if_splits)

lemma SetActiveTraffic_result:
  assumes "SetActiveTraffic a ts s = Inr s'"
  shows "trafficShare s' a = trafficWeight ts" "apps s' = apps s" "deployments s' = deployments s" "publications s' = publications s"
    "properTraffic ts \<Longrightarrow> wellRouted a s \<Longrightarrow> wellRouted a s'"
proof -
  have app: "mhas (apps s) a" using assms by (auto simp: SetActiveTraffic_def split: if_splits)
  have s': "apps s' = apps s" "deployments s' = deployments s" "publications s' = publications s"
    and act: "mget0 mempty (active s') a = trafficValues ts"
    and exist: "list_all (\<lambda>t. list_ex (\<lambda>d. Dep_ID d = Traffic_ID t) (mget0 [] (deployments s) a)) ts"
    using assms app trafficMap_result[of "mget0 [] (deployments s) a" ts mempty]
    by (auto simp: SetActiveTraffic_def advancePublication_def Let_def rbind_Inr_iff trafficValues_def mget0_def split: if_splits)
  show "trafficShare s' a = trafficWeight ts"
    by (simp add: fun_eq_iff trafficShare_def trafficWeight_def act)
  show "apps s' = apps s" "deployments s' = deployments s" "publications s' = publications s" by (fact s')+
  assume ts: "properTraffic ts" and wr: "wellRouted a s"
  have "0 < n \<and> list_ex (\<lambda>d. Dep_ID d = i) (mget0 [] (deployments s) a)" if "mget (trafficValues ts) i = Some n" for i n
  proof -
    have "distinct (map Traffic_ID ts)" using ts by (simp add: properTraffic_def)
    from iffD1[OF trafficValues_mem[OF this] that] obtain t where "t \<in> set ts" "Traffic_ID t = i" "Traffic_TrafficPercent t = n" by blast
    then show ?thesis using ts exist by (auto simp: properTraffic_def list_all_iff)
  qed
  then show "wellRouted a s'"
    using wr unfolding wellRouted_def s' act by (auto simp: list_all_iff mem_entries)
qed

lemma wellRouted_share:
  assumes "wellRouted app s"
  shows "0 \<le> trafficShare s app i" "0 < trafficShare s app i \<Longrightarrow> list_ex (\<lambda>d. Dep_ID d = i) (mget0 [] (deployments s) app)"
    "mget (mget0 mempty (active s) app) i = (if trafficShare s app i = 0 then None else Some (trafficShare s app i))"
proof -
  have "mget (mget0 mempty (active s) app) i = Some n \<Longrightarrow> 0 < n \<and> list_ex (\<lambda>d. Dep_ID d = i) (mget0 [] (deployments s) app)" for n
    using assms by (auto simp: wellRouted_def list_all_iff mem_entries)
  note n = this
  have share: "trafficShare s app i = (case mget (mget0 mempty (active s) app) i of None \<Rightarrow> 0 | Some n \<Rightarrow> n)"
    by (simp add: trafficShare_def mget0_def)
  show "0 \<le> trafficShare s app i" "0 < trafficShare s app i \<Longrightarrow> list_ex (\<lambda>d. Dep_ID d = i) (mget0 [] (deployments s) app)"
    "mget (mget0 mempty (active s) app) i = (if trafficShare s app i = 0 then None else Some (trafficShare s app i))"
    unfolding share by (cases "mget (mget0 mempty (active s) app) i"; use n in fastforce)+
qed

text \<open>The traffic a worker's active deployments report is the traffic the repository routes.\<close>

lemma activeTraffic_share:
  assumes "wellRouted app s" "ActiveDeploymentsForApp app s = Inr as"
  shows "trafficWeight (activeTrafficForApp as app) = trafficShare s app" "properTraffic (activeTrafficForApp as app)"
proof -
  let ?ds = "mget0 [] (deployments s) app" and ?T = "trafficShare s app"
  let ?L = "activeTrafficForApp as app"
  obtain a where a: "mget (apps s) app = Some a" "App_ID a = app" using assms(1) by (auto simp: wellRouted_def split: option.splits)
  have dist: "distinct (map Dep_ID ?ds)" using assms(1) by (simp add: wellRouted_def)
  define items where "items = activeOf a (mget0 mempty (active s) app) ?ds"
  have as: "as = sortBy (\<lambda>x. - Dep_CreatedAt (Active_Deployment x)) items"
    using assms(2) a by (simp add: ActiveDeploymentsForApp_def items_def)
  have items: "items = map (\<lambda>d. ActiveDeployment0\<lparr>Active_App := a, Active_Deployment := d, Active_TrafficPercent := ?T (Dep_ID d)\<rparr>)
      (filter (\<lambda>d. 0 < ?T (Dep_ID d)) ?ds)"
    by (simp add: items_def activeOf_def trafficShare_def)
  have keep: "filter (\<lambda>x. App_ID (Active_App x) = app \<and> 0 < Active_TrafficPercent x) as = as"
    by (rule filter_True) (auto simp: as items a)
  have mem: "t \<in> set ?L \<longleftrightarrow> 0 < ?T (Traffic_ID t) \<and> Traffic_TrafficPercent t = ?T (Traffic_ID t)" for t
  proof
    assume "t \<in> set ?L"
    then show "0 < ?T (Traffic_ID t) \<and> Traffic_TrafficPercent t = ?T (Traffic_ID t)"
      by (auto simp: activeTrafficForApp_def keep as items)
  next
    assume t: "0 < ?T (Traffic_ID t) \<and> Traffic_TrafficPercent t = ?T (Traffic_ID t)"
    then obtain d where d: "d \<in> set ?ds" "Dep_ID d = Traffic_ID t" using wellRouted_share(2)[OF assms(1)] by (fastforce simp: list_ex_iff)
    let ?x = "ActiveDeployment0\<lparr>Active_App := a, Active_Deployment := d, Active_TrafficPercent := ?T (Dep_ID d)\<rparr>"
    have "?x \<in> set items" using d t unfolding items set_map set_filter by (intro image_eqI[of _ _ d]) simp_all
    moreover have "t = \<lparr>Traffic_ID = Dep_ID (Active_Deployment ?x), Traffic_TrafficPercent = Active_TrafficPercent ?x\<rparr>"
      using d t by (cases t) simp
    ultimately show "t \<in> set ?L" unfolding activeTrafficForApp_def keep set_map by (intro image_eqI) (simp_all only: as set_sort)
  qed
  have ids: "map Traffic_ID ?L = map (\<lambda>x. Dep_ID (Active_Deployment x)) as"
    by (simp add: activeTrafficForApp_def keep comp_def)
  have "distinct (map Dep_ID (filter (\<lambda>d. 0 < ?T (Dep_ID d)) ?ds))" using dist by (rule distinct_map_filter)
  then have "distinct (map (\<lambda>x. Dep_ID (Active_Deployment x)) items)" by (simp add: items comp_def)
  then have "distinct (map (\<lambda>x. Dep_ID (Active_Deployment x)) as)" by (simp add: as distinct_map)
  then have "distinct (map Traffic_ID ?L)" by (simp only: ids)
  then show proper: "properTraffic ?L" using mem by (auto simp: properTraffic_def list_all_iff)
  have "trafficWeight ?L i = ?T i" for i
  proof (cases "0 < ?T i")
    case True
    have "\<lparr>Traffic_ID = i, Traffic_TrafficPercent = ?T i\<rparr> \<in> set ?L" using True by (simp add: mem)
    then have "mget (trafficValues ?L) i = Some (?T i)" using proper trafficValues_mem[of ?L i "?T i"] by (fastforce simp: properTraffic_def)
    then show ?thesis by (simp add: trafficWeight_def mget0_def)
  next
    case False
    then have "mget (trafficValues ?L) i = None" using mem by (auto simp: trafficValues_keys)
    then show ?thesis using False wellRouted_share(1)[OF assms(1), of i] by (simp add: trafficWeight_def mget0_def)
  qed
  then show "trafficWeight ?L = ?T" by (simp add: fun_eq_iff)
qed

lemma sameTraffic_weight:
  assumes "sameTraffic a b" "properTraffic a" "properTraffic b"
  shows "trafficWeight a = trafficWeight b"
proof -
  have da: "distinct (map Traffic_ID a)" and db: "distinct (map Traffic_ID b)" using assms(2,3) by (simp_all add: properTraffic_def)
  have sub: "set b \<subseteq> set a"
  proof
    fix t
    assume "t \<in> set b"
    then have "mget (trafficValues a) (Traffic_ID t) = Some (Traffic_TrafficPercent t)" using assms(1) by (auto simp: sameTraffic_def list_all_iff)
    then obtain u where "u \<in> set a" "Traffic_ID u = Traffic_ID t" "Traffic_TrafficPercent u = Traffic_TrafficPercent t"
      using trafficValues_mem[OF da] by blast
    then show "t \<in> set a" by (metis DeploymentTraffic.equality old.unit.exhaust)
  qed
  have "card (set a) = length a" "card (set b) = length b"
    using da db by (auto simp: distinct_map intro: distinct_card)
  then have "set a = set b" using sub assms(1) card_subset_eq[of "set a" "set b"] by (simp add: sameTraffic_def)
  then have "mget (trafficValues a) i = Some n \<longleftrightarrow> mget (trafficValues b) i = Some n" for i n
    using trafficValues_mem[OF da] trafficValues_mem[OF db] by simp
  then have "mget (trafficValues a) i = mget (trafficValues b) i" for i by (metis not_None_eq)
  then show ?thesis by (simp add: fun_eq_iff trafficWeight_def mget0_def)
qed

section \<open>Steps that do not change the routing\<close>

lemma keeps_artifacts [keeps_rules]:
  "keeps (\<lambda>w. f (w_store w)) (artifactSecretValues a)"
  "keeps (\<lambda>w. f (w_store w)) (hydrateDeploymentFiles d)"
  "keeps (\<lambda>w. f (w_store w)) (managedLatestArtifact appID)"
  unfolding artifactSecretValues_def hydrateDeploymentFiles_def managedLatestArtifact_def
  by (intro keeps_rules)+

lemma keeps_hydrate [keeps_rules]:
  "keeps (\<lambda>w. f (w_store w)) (resolvedSecretValues appID)"
  "keeps (\<lambda>w. f (w_store w)) (hydrateArtifact item)"
  "keeps (\<lambda>w. f (w_store w)) activeDeployments"
  "keeps (\<lambda>w. f (w_store w)) (checkArtifactBindings app a)"
  "keeps (\<lambda>w. f (w_store w)) (candidateTarget p a app t)"
  "keeps (\<lambda>w. f (w_store w)) (publicationCandidate p a app)"
  "keeps (\<lambda>w. f (w_store w)) (abortPrepared prepared)"
proof -
  show r: "keeps (\<lambda>w. f (w_store w)) (resolvedSecretValues appID)" for appID
    unfolding resolvedSecretValues_def by (intro keeps_rules)
  show h: "keeps (\<lambda>w. f (w_store w)) (hydrateArtifact item)" for item
    unfolding hydrateArtifact_def by (intro keeps_rules r)
  show a: "keeps (\<lambda>w. f (w_store w)) activeDeployments"
    unfolding activeDeployments_def by (intro keeps_rules h)
  show c: "keeps (\<lambda>w. f (w_store w)) (checkArtifactBindings app a)" for app a
    unfolding checkArtifactBindings_def by (intro keeps_rules)
  show t: "keeps (\<lambda>w. f (w_store w)) (candidateTarget p a app t)" for p a app t
    unfolding candidateTarget_def by (intro keeps_rules h c)
  show "keeps (\<lambda>w. f (w_store w)) (publicationCandidate p a app)"
    unfolding publicationCandidate_def by (intro keeps_rules a t)
  show "keeps (\<lambda>w. f (w_store w)) (abortPrepared prepared)"
    unfolding abortPrepared_def by (intro keeps_rules)
qed

abbreviation routed :: "'a act \<Rightarrow> bool" where
  "routed m \<equiv> keeps (\<lambda>w. routing (w_store w)) m"

lemma routed_acknowledge: "routed (storeDo (AcknowledgePublication appID g))"
  by (rule keeps_storeDo) (auto simp: AcknowledgePublication_def routing_def split: option.splits if_splits)

lemma routed_commit: "routed (storeDo (CommitScriptManagementState state expected))"
  by (rule keeps_storeDo) (auto simp: CommitScriptManagementState_def routing_def Let_def split: if_splits)

lemma routed_put: "routed (putArtifact a)"
  by (auto simp: keeps_def putArtifact_def storeDo_def external_def atick_def PutDeploymentArtifact_def routing_def
      split: fault.split sum.split option.splits if_splits)

lemma routed_stages [keeps_rules]:
  "routed acknowledgeCurrentPublications"
  "routed (writePublication as)"
  "routed (publishActiveDeployments appID)"
  "routed (publishCandidate prepared candidate)"
  "routed (commitManagedArtifact p a)"
proof -
  show a: "routed acknowledgeCurrentPublications"
    unfolding acknowledgeCurrentPublications_def acknowledgeState_def by (intro keeps_rules routed_acknowledge)
  show w: "routed (writePublication as)" for as
    unfolding writePublication_def acknowledgeWritten_def by (intro keeps_rules routed_acknowledge)
  show "routed (publishActiveDeployments appID)"
    unfolding publishActiveDeployments_def by (intro keeps_rules w)
  show "routed (publishCandidate prepared candidate)"
    unfolding publishCandidate_def by (intro keeps_rules a)
  show "routed (commitManagedArtifact p a)"
    unfolding commitManagedArtifact_def by (intro keeps_rules routed_commit)
qed

lemmas triple_stands = triple_keeps[OF _ routing_stands]
lemmas triple_agrees = triple_keeps[OF _ routing_agrees]

section \<open>Steps of a publication\<close>

lemma savePublication_stands:
  assumes "sameRequest p q"
  shows "triple (\<lambda>s. stands p st T s \<or> stands p stage T s) (stands p st T) (savePublication q stage) (\<lambda>_. stands p stage T)"
proof -
  have step: "stands p stage T s'" if "stands p st T s" "SavePublication (q\<lparr>Pub_Stage := stage, Pub_UpdatedAt := t\<rparr>) s = Inr s'" for s s' t
  proof -
    have q: "Pub_AppID q = Pub_AppID p" "Pub_Key q = Pub_Key p" using sameRequest_fields[OF assms] by simp_all
    have s': "s' = s\<lparr>publications := mput (pairKey (Pub_AppID p) (Pub_Key p)) (q\<lparr>Pub_Stage := stage, Pub_UpdatedAt := t\<rparr>) (publications s)\<rparr>"
      using that(2) q by (auto simp: SavePublication_def Let_def split: if_splits)
    have "sameRequest p (q\<lparr>Pub_Stage := stage, Pub_UpdatedAt := t\<rparr>)"
      using assms by (cases p; cases q; simp add: sameRequest_def)
    then show ?thesis
      using that(1) by (auto simp: stands_def s' wellRouted_def trafficShare_def GetPublication_def fun_eq_iff)
  qed
  show ?thesis
    unfolding savePublication_def
    by (rule triple_bind[where Q = "\<lambda>_. stands p st T"])
      (auto intro!: triple_stands keeps_rules triple_storeDo step)
qed

lemma SetActiveTraffic_stands:
  assumes "properTraffic ts"
  shows "triple (\<lambda>s. stands p st T s \<or> stands p st (trafficWeight ts) s) (stands p st T)
    (storeDo (SetActiveTraffic (Pub_AppID p) ts)) (\<lambda>_. stands p st (trafficWeight ts))"
proof (rule triple_storeDo)
  show "stands p st (trafficWeight ts) s'" if "stands p st T s" "SetActiveTraffic (Pub_AppID p) ts s = Inr s'" for s s'
    using that SetActiveTraffic_result[OF that(2)] assms by (auto simp: stands_def GetPublication_def)
qed auto

lemma agreesI: "stands p stage T s \<Longrightarrow> stageAgrees p stage T \<Longrightarrow> agrees p s"
  by (auto simp: agrees_def)

lemma triple_orAbort:
  assumes "triple (agrees p) P m Q"
  shows "triple (agrees p) P (orAbort prepared m) Q"
  unfolding orAbort_def
  by (rule triple_try_case[OF assms]) (auto intro!: triple_rules triple_bind[OF triple_agrees] keeps_rules)

text \<open>A publication whose previous and target traffic are proper, and a copy of it.\<close>

definition proper :: "Publication \<Rightarrow> bool" where
  "proper p \<longleftrightarrow> properTraffic (Pub_PreviousTraffic p) \<and> properTraffic (targetTraffic p)"

lemma rollBackPublication_agrees:
  assumes "proper p" "sameRequest p q" "\<not> Pub_ConfigurationOnly p"
  shows "triple (agrees p) (stands p ''activating'' (trafficWeight (targetTraffic p))) (rollBackPublication q err) (\<lambda>_ _. False)"
proof -
  let ?goal = "trafficWeight (targetTraffic p)" and ?prev = "trafficWeight (Pub_PreviousTraffic p)"
  have q: "Pub_AppID q = Pub_AppID p" "Pub_PreviousTraffic q = Pub_PreviousTraffic p" using sameRequest_fields[OF assms(2)] by simp_all
  have g: "goalTraffic p = targetTraffic p" using assms(3) by (simp add: goalTraffic_def)
  have mid: "stageAgrees p ''activating'' ?goal" "stageAgrees p ''rolling_back'' ?goal" "stageAgrees p ''rolling_back'' ?prev" "stageAgrees p ''failed'' ?prev"
    by (simp_all add: stageAgrees_def g)
  have save: "triple (agrees p) (stands p ''activating'' ?goal) (savePublication q ''rolling_back'') (\<lambda>_. stands p ''rolling_back'' ?goal)"
    by (rule triple_conseq[OF savePublication_stands[OF assms(2)]]) (auto intro: agreesI mid)
  have restore: "triple (agrees p) (stands p ''rolling_back'' ?goal) (storeDo (SetActiveTraffic (Pub_AppID q) (Pub_PreviousTraffic q))) (\<lambda>_. stands p ''rolling_back'' ?prev)"
    unfolding q by (rule triple_conseq[OF SetActiveTraffic_stands]) (use assms(1) in \<open>auto simp: proper_def intro: agreesI mid\<close>)
  have publish: "triple (agrees p) (stands p ''rolling_back'' ?prev) (publishActiveDeployments appID) (\<lambda>_. stands p ''rolling_back'' ?prev)" for appID
    by (rule triple_stands) (auto intro: agreesI mid keeps_rules)
  have fin: "triple (agrees p) (stands p ''rolling_back'' ?prev) (savePublication q ''failed'') (\<lambda>_. stands p ''failed'' ?prev)"
    by (rule triple_conseq[OF savePublication_stands[OF assms(2)]]) (auto intro: agreesI mid)
  show ?thesis
    unfolding rollBackPublication_def
    by (intro triple_try_case[OF save] triple_try_case[OF restore] triple_try_case[OF publish] triple_bind[OF fin] triple_fail)
      (auto intro: agreesI mid)
qed

text \<open>The stages before the traffic is switched.\<close>

definition waiting :: "string \<Rightarrow> bool" where
  "waiting stage \<longleftrightarrow> stage = ''stored'' \<or> stage = ''runtime_ready'' \<or> stage = ''activating''"

lemma waiting_agrees: "waiting stage \<Longrightarrow> stageAgrees p stage (trafficWeight (Pub_PreviousTraffic p))"
  by (auto simp: waiting_def stageAgrees_def)

lemma activatePublication_agrees:
  assumes "proper p" "sameRequest p q" "\<not> Pub_ConfigurationOnly p" "waiting stage"
  shows "triple (agrees p) (stands p stage (trafficWeight (Pub_PreviousTraffic p))) (activatePublication q a prepared candidate)
    (\<lambda>_. stands p ''route_published'' (trafficWeight (targetTraffic p)))"
proof -
  let ?goal = "trafficWeight (targetTraffic p)" and ?prev = "trafficWeight (Pub_PreviousTraffic p)"
  have q: "Pub_AppID q = Pub_AppID p" "targetTraffic q = targetTraffic p" using sameRequest_fields[OF assms(2)] sameRequest_eq[OF assms(2)] by simp_all
  have g: "goalTraffic p = targetTraffic p" using assms(3) by (simp add: goalTraffic_def)
  have mid: "stageAgrees p stage ?prev" "stageAgrees p ''activating'' ?prev" "stageAgrees p ''activating'' ?goal" "stageAgrees p ''route_published'' ?goal"
    using assms(4) by (simp_all add: waiting_agrees) (simp_all add: stageAgrees_def g)
  have save: "triple (agrees p) (stands p stage ?prev) (savePublication q ''activating'') (\<lambda>_. stands p ''activating'' ?prev)"
    by (rule triple_conseq[OF savePublication_stands[OF assms(2)]]) (auto intro: agreesI mid)
  have switch: "triple (agrees p) (stands p ''activating'' ?prev) (storeDo (SetActiveTraffic (Pub_AppID q) (targetTraffic q))) (\<lambda>_. stands p ''activating'' ?goal)"
    unfolding q by (rule triple_conseq[OF SetActiveTraffic_stands]) (use assms(1) in \<open>auto simp: proper_def intro: agreesI mid\<close>)
  have quiet: "triple (stands p ''activating'' ?goal) (stands p ''activating'' ?goal) m (\<lambda>_. stands p ''activating'' ?goal)" if "routed m" for m :: "unit act"
    by (rule triple_stands[OF that]) auto
  have quiet': "triple (agrees p) (stands p ''activating'' ?goal) m (\<lambda>_. stands p ''activating'' ?goal)" if "routed m" for m :: "unit act"
    by (rule triple_stands[OF that]) (auto intro: agreesI mid)
  have fin: "triple (agrees p) (stands p ''activating'' ?goal) (savePublication q ''route_published'') (\<lambda>_. stands p ''route_published'' ?goal)"
    by (rule triple_conseq[OF savePublication_stands[OF assms(2)]]) (auto intro: agreesI mid)
  have undo: "triple (agrees p) (stands p ''activating'' ?goal) (abind (abortPrepared prepared) (\<lambda>_. rollBackPublication q er))
      (\<lambda>_. stands p ''route_published'' ?goal)" for er
    by (rule triple_bind[OF quiet' triple_conseq[OF rollBackPublication_agrees[OF assms(1-3)]]]) (auto intro: keeps_rules)
  have inv: "routed (invalidateRuntimeDeployments appID)" "routed (publishCandidate prepared candidate)" for appID
    by (intro keeps_rules)+
  show ?thesis
    unfolding activatePublication_def
    by (intro triple_bind[OF triple_orAbort[OF save]] triple_bind[OF triple_orAbort[OF switch]] triple_bind[OF quiet'[OF inv(1)]]
        triple_try_case[OF quiet[OF inv(2)] undo] triple_try_case[OF fin] triple_fail triple_return) auto
qed

lemma prepareRuntime_agrees:
  assumes "sameRequest p q" "waiting stage"
  shows "triple (agrees p) (stands p stage (trafficWeight (Pub_PreviousTraffic p))) (prepareRuntime q app candidate)
    (\<lambda>(q', _) s. sameRequest p q' \<and> (\<exists>stage. waiting stage \<and> stands p stage (trafficWeight (Pub_PreviousTraffic p)) s))"
proof -
  let ?prev = "trafficWeight (Pub_PreviousTraffic p)" and ?ready = "q\<lparr>Pub_RuntimeReady := \<not> IsDynamic app\<rparr>"
  have q': "sameRequest p ?ready" using assms(1) by (cases p; cases q; simp add: sameRequest_def)
  have mid: "stageAgrees p stage ?prev" "stageAgrees p ''runtime_ready'' ?prev" "stageAgrees p ''failed'' ?prev"
    using assms(2) by (simp_all add: waiting_agrees) (simp_all add: stageAgrees_def)
  have quiet: "triple (agrees p) (stands p stage ?prev) m (\<lambda>_. stands p stage ?prev)" if "routed m" for m :: "'x act"
    by (rule triple_stands[OF that]) (auto intro: agreesI mid)
  have quiet': "triple (stands p stage ?prev) (stands p stage ?prev) m (\<lambda>_. stands p stage ?prev)" if "routed m" for m :: "'x act"
    by (rule triple_stands[OF that]) auto
  have fail: "triple (agrees p) (stands p stage ?prev) (savePublication q ''failed'') (\<lambda>_. stands p ''failed'' ?prev)"
    by (rule triple_conseq[OF savePublication_stands[OF assms(1)]]) (auto intro: agreesI mid)
  have ready: "triple (agrees p) (stands p stage ?prev) (savePublication ?ready ''runtime_ready'') (\<lambda>_. stands p ''runtime_ready'' ?prev)"
    by (rule triple_conseq[OF savePublication_stands[OF q']]) (auto intro: agreesI mid)
  have envs: "routed (aenv f)" "routed (writerPrepare t candidate)" for f :: "serviceEnv \<Rightarrow> bool" and t by (intro keeps_rules)+
  let ?Q = "\<lambda>(q', _ :: PublicationPreparation option) s. sameRequest p q' \<and> (\<exists>stage. waiting stage \<and> stands p stage ?prev s)"
  have bad: "triple (agrees p) (stands p stage ?prev) (abind (atry (savePublication q ''failed'')) (\<lambda>_. afail er)) ?Q" for er
    by (rule triple_try_fail[OF fail]) (auto intro: agreesI mid)
  have good: "triple (agrees p) (stands p stage ?prev)
      (let p' = ?ready in abind (orAbort (Some prep) (savePublication p' ''runtime_ready'')) (\<lambda>_. areturn (p', Some prep))) ?Q" for prep
    unfolding Let_def by (rule triple_bind[OF triple_orAbort[OF ready]]) (auto intro!: triple_return q' simp: waiting_def)
  have two: "triple (agrees p) (stands p stage ?prev)
      (abind (aenv e_targeted) (\<lambda>targeted. abind (atry (writerPrepare (if targeted then Some (Pub_AppID q) else None) candidate)) (\<lambda>r. case r of
         Inl err \<Rightarrow> abind (atry (savePublication q ''failed'')) (\<lambda>_. afail (ErrWrapped err ''prepare runtime''))
       | Inr prep \<Rightarrow> let p' = ?ready in abind (orAbort (Some prep) (savePublication p' ''runtime_ready'')) (\<lambda>_. areturn (p', Some prep))))) ?Q"
    by (intro triple_bind[OF quiet[OF envs(1)]] triple_try_case[OF quiet'[OF envs(2)] bad good])
  have one: "triple (agrees p) (stands p stage ?prev) (areturn (q, None)) ?Q"
    by (rule triple_return) (use assms in auto)
  have "triple (agrees p) (stands p stage ?prev) (if \<not> b then areturn (q, None) else
      (abind (aenv e_targeted) (\<lambda>targeted. abind (atry (writerPrepare (if targeted then Some (Pub_AppID q) else None) candidate)) (\<lambda>r. case r of
         Inl err \<Rightarrow> abind (atry (savePublication q ''failed'')) (\<lambda>_. afail (ErrWrapped err ''prepare runtime''))
       | Inr prep \<Rightarrow> let p' = ?ready in abind (orAbort (Some prep) (savePublication p' ''runtime_ready'')) (\<lambda>_. areturn (p', Some prep)))))) ?Q" for b
    using one two by (cases b) simp_all
  then show ?thesis
    unfolding prepareRuntime_def by (rule triple_bind[OF quiet[OF envs(1)]])
qed

lemma publishStoredArtifact_agrees:
  assumes "proper p" "sameRequest p q" "waiting stage \<or> Pub_ConfigurationOnly p \<and> stageAgrees p stage (trafficWeight (Pub_PreviousTraffic p))"
  shows "triple (agrees p) (stands p stage (trafficWeight (Pub_PreviousTraffic p))) (publishStoredArtifact q a) (\<lambda>_. agrees p)"
proof -
  let ?prev = "trafficWeight (Pub_PreviousTraffic p)"
  have q: "Pub_ConfigurationOnly q = Pub_ConfigurationOnly p" using sameRequest_fields[OF assms(2)] by simp
  have mid: "stageAgrees p stage ?prev" "stageAgrees p ''failed'' ?prev"
    using assms(3) waiting_agrees by (auto simp: stageAgrees_def)
  have quiet: "triple (agrees p) (stands p stage ?prev) m (\<lambda>_. stands p stage ?prev)" if "routed m" for m :: "'x act"
    by (rule triple_stands[OF that]) (auto intro: agreesI mid)
  have quiet': "triple (stands p stage ?prev) (stands p stage ?prev) m (\<lambda>_. stands p stage ?prev)" if "routed m" for m :: "'x act"
    by (rule triple_stands[OF that]) auto
  have steps: "routed (commitManagedArtifact q a)" "routed (storeGet (GetApp (Pub_AppID q)))" "routed (checkArtifactBindings app a)"
    "routed (publicationCandidate q a app)" for app by (intro keeps_rules)+
  have fail: "triple (agrees p) (stands p stage ?prev) (savePublication q ''failed'') (\<lambda>_. stands p ''failed'' ?prev)"
    by (rule triple_conseq[OF savePublication_stands[OF assms(2)]]) (auto intro: agreesI mid)
  have bad: "triple (agrees p) (stands p stage ?prev) (abind (atry (savePublication q ''failed'')) (\<lambda>_. afail er)) (\<lambda>_. agrees p)" for er
    by (rule triple_try_fail[OF fail]) (auto intro: agreesI mid)
  have good: "triple (agrees p) (stands p stage ?prev) (if Pub_ConfigurationOnly q
      then abind (savePublication (q\<lparr>Pub_RuntimeReady := False\<rparr>) ''route_published'') (\<lambda>_. areturn (Art_Deployment a))
      else abind (publicationCandidate q a app) (\<lambda>candidate. abind (prepareRuntime q app candidate) (\<lambda>(p', prepared).
             activatePublication p' a prepared candidate))) (\<lambda>_. agrees p)" for app
  proof (cases "Pub_ConfigurationOnly p")
    case True
    have q': "sameRequest p (q\<lparr>Pub_RuntimeReady := False\<rparr>)" using assms(2) by (cases p; cases q; simp add: sameRequest_def)
    have "stageAgrees p ''route_published'' ?prev" using True by (simp add: stageAgrees_def goalTraffic_def)
    then have "triple (agrees p) (stands p stage ?prev) (savePublication (q\<lparr>Pub_RuntimeReady := False\<rparr>) ''route_published'') (\<lambda>_. agrees p)"
      by (intro triple_conseq[OF savePublication_stands[OF q']]) (auto intro: agreesI mid)
    then show ?thesis using True by (auto simp: q intro!: triple_bind triple_return)
  next
    case False
    then have stage: "waiting stage" using assms(3) by simp
    have goal: "stageAgrees p ''route_published'' (trafficWeight (targetTraffic p))" using False by (simp add: stageAgrees_def goalTraffic_def)
    have act: "triple (agrees p) (\<lambda>s. sameRequest p q' \<and> (\<exists>stage. waiting stage \<and> stands p stage ?prev s)) (activatePublication q' a prepared candidate) (\<lambda>_. agrees p)"
      for q' prepared candidate
    proof (rule triple_exists)
      show "triple (agrees p) (stands p stage' ?prev) (activatePublication q' a prepared candidate) (\<lambda>_. agrees p)"
        if "sameRequest p q' \<and> waiting stage'" for stage'
        by (rule triple_conseq[OF activatePublication_agrees[OF assms(1) _ False]]) (use that goal in \<open>auto intro: agreesI\<close>)
    qed auto
    show ?thesis
      using False by (simp only: q if_False)
        (intro triple_bind[OF quiet[OF steps(4)]] triple_bind_prod[OF prepareRuntime_agrees[OF assms(2) stage] act])
  qed
  show ?thesis
    unfolding publishStoredArtifact_def
    by (intro triple_bind[OF quiet[OF steps(1)]] triple_bind[OF quiet[OF steps(2)]] triple_try_case[OF quiet'[OF steps(3)] bad good])
qed

section \<open>Replays\<close>

text \<open>A publication as the repository holds it, and the traffic routed at that moment.\<close>

definition holds :: "Publication \<Rightarrow> Store \<Rightarrow> bool" where
  "holds p s \<longleftrightarrow> proper p \<and> agrees p s \<and> GetPublication (Pub_AppID p) (Pub_Key p) s = Some p"

lemma stands_save_agrees:
  assumes "stands p (Pub_Stage p) T s" "stageAgrees p stage T" "stageAgrees p (Pub_Stage p) T"
  shows "triple (agrees p) (stands p (Pub_Stage p) T) (savePublication p stage) (\<lambda>_. agrees p)"
  by (rule triple_conseq[OF savePublication_stands[OF sameRequest_refl]]) (auto intro: agreesI assms(2,3))

lemma supersede_agrees:
  assumes "stageAgrees p (Pub_Stage p) T"
  shows "triple (agrees p) (stands p (Pub_Stage p) T) (supersede p a) (\<lambda>_. agrees p)"
proof -
  have "T = trafficWeight (Pub_PreviousTraffic p) \<or> T = trafficWeight (goalTraffic p)"
    using assms by (auto simp: stageAgrees_def split: if_splits)
  then have "stageAgrees p ''superseded'' T" by (simp add: stageAgrees_def)
  then have "triple (agrees p) (stands p (Pub_Stage p) T) (savePublication p ''superseded'') (\<lambda>_. agrees p)"
    by (intro triple_conseq[OF savePublication_stands[OF sameRequest_refl]]) (auto intro: agreesI assms)
  then show ?thesis unfolding supersede_def by (auto intro!: triple_bind triple_return)
qed

lemma finishRollback_agrees:
  assumes "proper p" "Pub_Stage p = ''rolling_back''" "stageAgrees p ''rolling_back'' T"
  shows "triple (agrees p) (stands p ''rolling_back'' T) (finishRollback p) (\<lambda>_. agrees p)"
proof -
  let ?prev = "trafficWeight (Pub_PreviousTraffic p)"
  have mid: "stageAgrees p ''rolling_back'' ?prev" "stageAgrees p ''failed'' ?prev" by (simp_all add: stageAgrees_def)
  have restore: "triple (agrees p) (stands p ''rolling_back'' T) (storeDo (SetActiveTraffic (Pub_AppID p) (Pub_PreviousTraffic p))) (\<lambda>_. stands p ''rolling_back'' ?prev)"
    by (rule triple_conseq[OF SetActiveTraffic_stands]) (use assms in \<open>auto simp: proper_def intro: agreesI mid\<close>)
  have publish: "triple (agrees p) (stands p ''rolling_back'' ?prev) (publishActiveDeployments appID) (\<lambda>_. stands p ''rolling_back'' ?prev)" for appID
    by (rule triple_stands) (auto intro: agreesI mid keeps_rules)
  have fin: "triple (agrees p) (stands p ''rolling_back'' ?prev) (savePublication p ''failed'') (\<lambda>_. stands p ''failed'' ?prev)"
    by (rule triple_conseq[OF savePublication_stands[OF sameRequest_refl]]) (auto intro: agreesI mid)
  show ?thesis
    unfolding finishRollback_def
    by (intro triple_bind[OF restore] triple_bind[OF publish] triple_bind[OF fin] triple_fail) (auto intro: agreesI mid)
qed

lemma finishActivation_agrees:
  assumes "stageAgrees p (Pub_Stage p) T" "T = trafficWeight (goalTraffic p)"
  shows "triple (agrees p) (stands p (Pub_Stage p) T) (finishActivation p a) (\<lambda>_. agrees p)"
proof -
  have quiet: "triple (agrees p) (stands p (Pub_Stage p) T) m (\<lambda>_. stands p (Pub_Stage p) T)" if "routed m" for m :: "'x act"
    by (rule triple_stands[OF that]) (auto intro: agreesI assms)
  have steps: "routed (publishActiveDeployments appID)" "routed (storeGet (GetApp appID))" "routed (aenv e_twoPhase)" for appID
    by (intro keeps_rules)+
  have goal: "stageAgrees p ''route_published'' T" using assms(2) by (simp add: stageAgrees_def)
  have fin: "triple (agrees p) (stands p (Pub_Stage p) T) (savePublication (p\<lparr>Pub_RuntimeReady := b\<rparr>) ''route_published'') (\<lambda>_. agrees p)" for b
  proof -
    have "sameRequest p (p\<lparr>Pub_RuntimeReady := b\<rparr>)" by (simp add: sameRequest_def)
    from savePublication_stands[OF this, of "Pub_Stage p" T "''route_published''"] show ?thesis
      by (rule triple_conseq) (auto intro: agreesI assms goal)
  qed
  show ?thesis
    unfolding finishActivation_def
    by (intro triple_bind[OF quiet[OF steps(1)]] triple_bind[OF quiet[OF steps(2)]] triple_bind[OF quiet[OF steps(3)]] triple_bind[OF fin] triple_return)
qed

lemma replayTraffic_agrees:
  assumes "proper p" "stageAgrees p (Pub_Stage p) T" "\<not> Pub_ConfigurationOnly p"
  shows "triple (agrees p) (stands p (Pub_Stage p) T) (replayTraffic p a) (\<lambda>_. agrees p)"
  unfolding replayTraffic_def
proof (rule triple_bind)
  let ?app = "Pub_AppID p"
  show "triple (agrees p) (stands p (Pub_Stage p) T) (storeGet (ActiveDeploymentsForApp ?app))
      (\<lambda>as s. stands p (Pub_Stage p) T s \<and> ActiveDeploymentsForApp ?app s = Inr as)"
    by (rule triple_storeGet) (auto intro: agreesI assms(2))
  fix as
  let ?traffic = "activeTrafficForApp as ?app"
  have g: "goalTraffic p = targetTraffic p" using assms(3) by (simp add: goalTraffic_def)
  let ?rest = "let traffic = ?traffic; current = sameTraffic traffic (targetTraffic p); previous = sameTraffic traffic (Pub_PreviousTraffic p) in
       if Pub_Stage p = ''rolling_back''
       then (if \<not> current \<and> \<not> previous then supersede p a else finishRollback p)
       else if current then finishActivation p a
       else if \<not> previous then supersede p a
       else if Pub_Stage p = ''stored'' \<or> Pub_Stage p = ''activating'' \<or> Pub_Stage p = ''runtime_ready''
       then publishStoredArtifact p a
       else afail ErrPublicationFailed"
  have rest: "triple (agrees p) (stands p (Pub_Stage p) T) ?rest (\<lambda>_. agrees p)" if T: "trafficWeight ?traffic = T" "properTraffic ?traffic"
  proof -
    have goal: "T = trafficWeight (goalTraffic p)" if "sameTraffic ?traffic (targetTraffic p)"
      using sameTraffic_weight[OF that T(2)] assms(1) T(1) by (simp add: proper_def g)
    have prev: "T = trafficWeight (Pub_PreviousTraffic p)" if "sameTraffic ?traffic (Pub_PreviousTraffic p)"
      using sameTraffic_weight[OF that T(2)] assms(1) T(1) by (simp add: proper_def)
    have publish: "triple (agrees p) (stands p (Pub_Stage p) T) (publishStoredArtifact p a) (\<lambda>_. agrees p)"
      if "sameTraffic ?traffic (Pub_PreviousTraffic p)" "waiting (Pub_Stage p)"
      unfolding prev[OF that(1)] by (rule publishStoredArtifact_agrees[OF assms(1)]) (use that(2) in simp_all)
    have refuse: "triple (agrees p) (stands p (Pub_Stage p) T) (afail ErrPublicationFailed) (\<lambda>_. agrees p)"
      by (rule triple_fail) (auto intro: agreesI assms(2))
    note cases = finishActivation_agrees[OF assms(2) goal] supersede_agrees[OF assms(2)] publish refuse
    have undo: "triple (agrees p) (stands p (Pub_Stage p) T) (finishRollback p) (\<lambda>_. agrees p)" if "Pub_Stage p = ''rolling_back''"
      using finishRollback_agrees[OF assms(1) that] assms(2) that by simp
    show ?thesis unfolding Let_def using cases undo by (auto simp: waiting_def)
  qed
  show "triple (agrees p) (\<lambda>s. stands p (Pub_Stage p) T s \<and> ActiveDeploymentsForApp ?app s = Inr as) ?rest (\<lambda>_. agrees p)"
  proof (rule triple_pure)
    fix s
    assume "stands p (Pub_Stage p) T s \<and> ActiveDeploymentsForApp ?app s = Inr as"
    then show "trafficWeight ?traffic = T \<and> properTraffic ?traffic" using activeTraffic_share by (auto simp: stands_def)
  next
    assume "trafficWeight ?traffic = T \<and> properTraffic ?traffic"
    then show "triple (agrees p) (\<lambda>s. stands p (Pub_Stage p) T s \<and> ActiveDeploymentsForApp ?app s = Inr as) ?rest (\<lambda>_. agrees p)"
      by (intro triple_conseq[OF rest]) auto
  qed
qed

lemma replayPublication_agrees:
  assumes "proper p"
  shows "triple (agrees p) (holds p) (replayPublication p) (\<lambda>_. agrees p)"
proof -
  have run: "triple (agrees p) (stands p (Pub_Stage p) T) (replayPublication p) (\<lambda>_. agrees p)" if T: "stageAgrees p (Pub_Stage p) T" for T
  proof -
    let ?prev = "trafficWeight (Pub_PreviousTraffic p)"
    have quiet: "triple (agrees p) (stands p (Pub_Stage p) T) m (\<lambda>_. stands p (Pub_Stage p) T)" if "routed m" for m :: "'x act"
      by (rule triple_stands[OF that]) (auto intro: agreesI T)
    have quiet': "triple (stands p (Pub_Stage p) T) (stands p (Pub_Stage p) T) m (\<lambda>_. stands p (Pub_Stage p) T)" if "routed m" for m :: "'x act"
      by (rule triple_stands[OF that]) auto
    have get: "routed (storeGet (GetDeploymentArtifact (Pub_AppID p) (Pub_DeploymentID p)))" and commit: "routed (commitManagedArtifact p a)" for a
      by (intro keeps_rules)+
    have stay: "triple (agrees p) (stands p (Pub_Stage p) T) (areturn x) (\<lambda>_. agrees p)" for x :: 'x
      by (rule triple_return) (auto intro: agreesI T)
    have refuse: "triple (agrees p) (stands p (Pub_Stage p) T) (afail er) Q" for er and Q :: "'x \<Rightarrow> Store \<Rightarrow> bool"
      by (rule triple_fail) (auto intro: agreesI T)
    have building: "triple (agrees p) (stands p (Pub_Stage p) T) (abind (atry (savePublication p ''failed'')) (\<lambda>_. afail ErrPublicationFailed)) (\<lambda>_. agrees p)"
      if "Pub_Stage p = ''building''"
    proof (rule triple_try_fail)
      have "stageAgrees p ''failed'' T" using T that by (simp add: stageAgrees_def)
      then show "triple (agrees p) (stands p (Pub_Stage p) T) (savePublication p ''failed'') (\<lambda>_. agrees p)"
        by (intro triple_conseq[OF savePublication_stands[OF sameRequest_refl]]) (auto intro: agreesI T)
    qed
    have config: "triple (agrees p) (stands p (Pub_Stage p) T) (publishStoredArtifact p a) (\<lambda>_. agrees p)" if "Pub_ConfigurationOnly p" for a
    proof -
      have "T = ?prev" using T that by (auto simp: stageAgrees_def goalTraffic_def split: if_splits)
      then show ?thesis using publishStoredArtifact_agrees[OF assms sameRequest_refl] T that by simp
    qed
    have go: "triple (agrees p) (stands p (Pub_Stage p) T) (if Pub_ConfigurationOnly p then publishStoredArtifact p a else replayTraffic p a) (\<lambda>_. agrees p)" for a
      using config replayTraffic_agrees[OF assms T] by auto
    have lost: "triple (agrees p) (stands p (Pub_Stage p) T) (if errorsIs er ErrManagementConflict then supersede p a else afail er) (\<lambda>_. agrees p)" for er a
      using supersede_agrees[OF T] refuse by auto
    have main: "triple (agrees p) (stands p (Pub_Stage p) T) (abind (storeGet (GetDeploymentArtifact (Pub_AppID p) (Pub_DeploymentID p))) (\<lambda>a.
        if Pub_Stage p = ''route_published'' \<or> Pub_Stage p = ''superseded'' then areturn (Art_Deployment a)
        else abind (atry (commitManagedArtifact p a)) (\<lambda>r. case r of
          Inl err \<Rightarrow> if errorsIs err ErrManagementConflict then supersede p a else afail err
        | Inr _ \<Rightarrow> if Pub_ConfigurationOnly p then publishStoredArtifact p a else replayTraffic p a))) (\<lambda>_. agrees p)"
    proof (rule triple_bind[OF quiet[OF get]])
      fix a
      have "triple (agrees p) (stands p (Pub_Stage p) T) (abind (atry (commitManagedArtifact p a)) (\<lambda>r. case r of
          Inl err \<Rightarrow> if errorsIs err ErrManagementConflict then supersede p a else afail err
        | Inr _ \<Rightarrow> if Pub_ConfigurationOnly p then publishStoredArtifact p a else replayTraffic p a)) (\<lambda>_. agrees p)"
        by (rule triple_try_case[OF quiet'[OF commit] lost go])
      then show "triple (agrees p) (stands p (Pub_Stage p) T) (if Pub_Stage p = ''route_published'' \<or> Pub_Stage p = ''superseded''
          then areturn (Art_Deployment a) else abind (atry (commitManagedArtifact p a)) (\<lambda>r. case r of
          Inl err \<Rightarrow> if errorsIs err ErrManagementConflict then supersede p a else afail err
        | Inr _ \<Rightarrow> if Pub_ConfigurationOnly p then publishStoredArtifact p a else replayTraffic p a)) (\<lambda>_. agrees p)"
        by (intro triple_if stay)
    qed
    show ?thesis unfolding replayPublication_def by (intro triple_if building refuse main)
  qed
  show ?thesis
  proof (rule triple_exists[OF run])
    show "\<exists>T. stageAgrees p (Pub_Stage p) T \<and> stands p (Pub_Stage p) T s" if "holds p s" for s
      using that by (auto simp: holds_def agrees_def stands_def)
  qed
qed

end
