(* ===== verification/Deployment_Service.thy ===== *)
theory Deployment_Service
  imports Publication_Stages Asset_Routing
begin

text \<open>
  Deploying a worker in \<open>service.go\<close> and \<open>publication.go\<close>: \<open>buildAndPublishDeployment\<close> stores the files and
  the assets, freezes the artifact and publishes it; \<open>deployPublication\<close> makes that idempotent by key.
  Further the cleanup of objects nothing refers to.
\<close>

section \<open>Objects nothing refers to\<close>

definition ignored :: "'a act \<Rightarrow> unit act" where
  "ignored m = abind (atry m) (\<lambda>_. areturn ())"

definition referencesObject :: "string \<Rightarrow> string \<Rightarrow> DeploymentRecord \<Rightarrow> bool" where
  "referencesObject appID key r = (Dep_AppID (DepRec_Deployment r) = appID
     \<and> (Dep_ObjectKey (DepRec_Deployment r) = key \<or> list_ex (\<lambda>a. Asset_ObjectKey a = key) (Dep_Assets (DepRec_Deployment r))))"

definition deploymentObjectReferenced :: "string \<Rightarrow> string \<Rightarrow> bool act" where
  "deploymentObjectReferenced appID key =
     abind (aworld (\<lambda>w. ReferencesObject appID key (w_executions w))) (\<lambda>running.
       if running then areturn True
       else abind (atry (storeGet (\<lambda>s. Inr (ListDeployments s)))) (\<lambda>r. case r of
         Inl _ \<Rightarrow> areturn True
       | Inr records \<Rightarrow> areturn (list_ex (referencesObject appID key) records)))"

definition deleteUnreferenced :: "string \<Rightarrow> string \<Rightarrow> unit act" where
  "deleteUnreferenced appID key = abind (deploymentObjectReferenced appID key) (\<lambda>used.
     if used then areturn () else ignored (objectsDelete appID key))"

definition cleanupDeploymentObject :: "Deployment \<Rightarrow> unit act" where
  "cleanupDeploymentObject d =
     abind (aworld (\<lambda>w. ReferencesDeployment (Dep_AppID d) (Dep_ID d) (w_executions w))) (\<lambda>running.
     abind (aenv e_hasObjects) (\<lambda>ok.
       if running \<or> \<not> ok \<or> Dep_ObjectKey d = [] then areturn () else deleteUnreferenced (Dep_AppID d) (Dep_ObjectKey d)))"

definition cleanupAsset :: "string \<Rightarrow> AssetFile \<Rightarrow> unit act" where
  "cleanupAsset appID asset = (if Asset_ObjectKey asset = [] then areturn () else deleteUnreferenced appID (Asset_ObjectKey asset))"

definition cleanupDeploymentAssets :: "Deployment \<Rightarrow> unit act" where
  "cleanupDeploymentAssets d =
     abind (aworld (\<lambda>w. ReferencesDeployment (Dep_AppID d) (Dep_ID d) (w_executions w))) (\<lambda>running.
     abind (aenv e_hasObjects) (\<lambda>ok.
       if running \<or> \<not> ok then areturn () else aeach (cleanupAsset (Dep_AppID d)) (Dep_Assets d)))"

section \<open>Building a deployment\<close>

text \<open>The assets before \<open>rest\<close> are stored under their keys and have lost their data. When storing one
  fails, its key is already set, and all keys set so far are cleaned up.\<close>

fun putAssets :: "Deployment \<Rightarrow> AssetFile list \<Rightarrow> AssetFile list \<Rightarrow> Deployment act" where
  "putAssets d stored [] = areturn (d\<lparr>Dep_Assets := stored\<rparr>)"
| "putAssets d stored (asset # rest) =
     (let key = deploymentAssetObjectPath (Dep_ID d) (Asset_Path asset); keyed = asset\<lparr>Asset_ObjectKey := key\<rparr> in
      abind (atry (objectsPut (Dep_AppID d) key (Asset_Data asset))) (\<lambda>r. case r of
        Inl err \<Rightarrow>
          (let failed = d\<lparr>Dep_Assets := stored @ keyed # rest\<rparr> in
           abind (cleanupDeploymentAssets failed) (\<lambda>_. abind (cleanupDeploymentObject failed) (\<lambda>_. afail err)))
      | Inr _ \<Rightarrow> putAssets d (stored @ [keyed\<lparr>Asset_Data := []\<rparr>]) rest))"

definition storeFiles :: "Deployment \<Rightarrow> Deployment act" where
  "storeFiles d =
     abind (aenv e_hasObjects) (\<lambda>ok.
     abind (aguard (ok \<or> Dep_Assets d = []) ErrNoObjects) (\<lambda>_.
       if \<not> ok then areturn d
       else abind (aenv (\<lambda>e. e_encodeFiles e (Dep_Files d))) (\<lambda>payload.
         abind (alift payload) (\<lambda>body.
           let key = deploymentBundleObjectPath (Dep_ID d) in
           abind (objectsPut (Dep_AppID d) key body) (\<lambda>_. putAssets (d\<lparr>Dep_ObjectKey := key\<rparr>) [] (Dep_Assets d))))))"

text \<open>The secrets are checked under the publication guard, so that no concurrent rollout can introduce
  a collision.\<close>

definition deploySecrets :: "managedPublication option \<Rightarrow> string \<Rightarrow> (string, string) gomap act" where
  "deploySecrets managed appID = (case managed of
       Some m \<Rightarrow> areturn (foldl (\<lambda>v s. mput (ArtSecret_Name s) [] v) mempty (MPub_Secrets m))
     | None \<Rightarrow> resolvedSecretValues appID)"

definition checkSecrets :: "managedPublication option \<Rightarrow> DeployInput \<Rightarrow> Deployment \<Rightarrow> unit act" where
  "checkSecrets managed input d =
     abind (atry (abind (deploySecrets managed (Dep_AppID d)) (\<lambda>values.
         alift (validateBindingCollisions (Dep_Vars d) values (Dep_KVNamespaces d) (Dep_Databases d) (Dep_ObjectStorageBuckets d)
           (Dep_Services d) (DepIn_AssetConfig input))))) (\<lambda>r. case r of
       Inr _ \<Rightarrow> areturn ()
     | Inl err \<Rightarrow> abind (cleanupDeploymentObject d) (\<lambda>_. abind (cleanupDeploymentAssets d) (\<lambda>_. afail err)))"

definition deployArtifact :: "managedPublication option \<Rightarrow> App \<Rightarrow> Deployment \<Rightarrow> DeploymentArtifact act" where
  "deployArtifact managed app d = (let item = ActiveDeployment0\<lparr>Active_App := app, Active_Deployment := d\<rparr> in
     case managed of
       Some m \<Rightarrow> abind (captureArtifact item (MPub_Secrets m)) (\<lambda>captured.
           let a = captured\<lparr>Art_Management := Some \<lparr>ArtMgmt_ExpectedRevision = MPub_ExpectedRevision m, ArtMgmt_Metadata = MPub_Metadata m\<rparr>\<rparr> in
           abind (putArtifact a) (\<lambda>_. areturn a))
     | None \<Rightarrow> freezeArtifact item None)"

text \<open>The checks of \<open>Deploy_Input\<close> read the repository at once and use the hydrated active deployments;
  the compiler of triggers always ends (\<open>ParseCron_some\<close>), so the last case does not arise.\<close>

definition prepared :: "string \<Rightarrow> DeployInput \<Rightarrow> (App \<times> Deployment) act" where
  "prepared appID input =
     abind (atry activeDeployments) (\<lambda>running.
     abind (atry randomToken) (\<lambda>token.
     abind anow (\<lambda>t.
     abind (aenv e_deploy) (\<lambda>env.
       storeGet (\<lambda>s. case prepareDeployment env running token t appID input s of
         Some r \<Rightarrow> r | None \<Rightarrow> Inl (ErrText ''unreachable''))))))"

definition newPublication :: "managedPublication option \<Rightarrow> string \<Rightarrow> DeployInput \<Rightarrow> string \<Rightarrow> Deployment \<Rightarrow> DeploymentTraffic list \<Rightarrow> time
    \<Rightarrow> Publication" where
  "newPublication managed appID input fingerprint d previous t =
     (let p = Publication0\<lparr>Pub_AppID := appID, Pub_Key := DepIn_IdempotencyKey input, Pub_Fingerprint := fingerprint,
        Pub_DeploymentID := Dep_ID d, Pub_Stage := ''building'', Pub_PreviousTraffic := previous,
        Pub_CreatedAt := t, Pub_UpdatedAt := t\<rparr>
      in case managed of None \<Rightarrow> p
         | Some m \<Rightarrow> p\<lparr>Pub_RequestIdentity := MPub_RequestIdentity m, Pub_ConfigurationOnly := MPub_ConfigurationOnly m\<rparr>)"

definition storeAndPublish :: "managedPublication option \<Rightarrow> App \<Rightarrow> DeployInput \<Rightarrow> Publication \<Rightarrow> Deployment \<Rightarrow> Deployment act" where
  "storeAndPublish managed app input p d =
     abind (storeFiles d) (\<lambda>d.
     abind (checkSecrets managed input d) (\<lambda>_.
     abind (deployArtifact managed app d) (\<lambda>a.
     abind (storeDo (StoreDeployment d)) (\<lambda>_.
       let q = p\<lparr>Pub_Digest := Art_Digest a, Pub_Stage := ''stored''\<rparr> in
       abind (storeDo (SavePublication q)) (\<lambda>_. publishStoredArtifact q a)))))"

text \<open>The deferred function: a publication that failed while it was being built is marked as failed.\<close>

definition failBuilding :: "string \<Rightarrow> string \<Rightarrow> unit act" where
  "failBuilding appID key =
     abind (atry (storeGet (\<lambda>s. Inr (GetPublication appID key s)))) (\<lambda>r. case r of
       Inr (Some current) \<Rightarrow> if Pub_Stage current = ''building'' then ignored (savePublication current ''failed'') else areturn ()
     | _ \<Rightarrow> areturn ())"

definition buildAndPublishDeployment :: "string \<Rightarrow> DeployInput \<Rightarrow> string \<Rightarrow> managedPublication option \<Rightarrow> Deployment act" where
  "buildAndPublishDeployment appID input fingerprint managed =
     abind (prepared appID input) (\<lambda>(app, d).
     abind (case managed of Some m \<Rightarrow> areturn managed | None \<Rightarrow> nativeManagedPublication app d) (\<lambda>managed.
     abind (storeGet (ActiveDeploymentsForApp appID)) (\<lambda>original.
     abind anow (\<lambda>t.
       let p = newPublication managed appID input fingerprint d (activeTrafficForApp original appID) t in
       abind (storeDo (SavePublication p)) (\<lambda>_.
       abind (atry (storeAndPublish managed app input p d)) (\<lambda>r. case r of
         Inr result \<Rightarrow> areturn result
       | Inl err \<Rightarrow> abind (failBuilding appID (DepIn_IdempotencyKey input)) (\<lambda>_. afail err)))))))"

section \<open>Idempotent deployment\<close>

definition publicationFingerprint :: "DeployInput \<Rightarrow> string act" where
  "publicationFingerprint input =
     abind (aenv (\<lambda>e. e_fingerprint e (input\<lparr>DepIn_CreatedBy := []\<rparr>))) (\<lambda>payload.
     abind (alift payload) (\<lambda>body. aenv (\<lambda>e. e_hash e body)))"

definition activeTraffic :: "ActiveDeployment list \<Rightarrow> DeploymentTraffic list" where
  "activeTraffic as = map (\<lambda>a. \<lparr>Traffic_ID = Dep_ID (Active_Deployment a), Traffic_TrafficPercent = Active_TrafficPercent a\<rparr>)
     (filter (\<lambda>a. Active_TrafficPercent a > 0) as)"

definition checkExpectedTraffic :: "string \<Rightarrow> DeploymentTraffic list option \<Rightarrow> unit act" where
  "checkExpectedTraffic appID expected = (case expected of
       None \<Rightarrow> areturn ()
     | Some traffic \<Rightarrow> abind (storeGet (ActiveDeploymentsForApp appID)) (\<lambda>as.
         aguard (sameTraffic (activeTraffic as) traffic) ErrActiveBindingsChanged))"

definition idempotencyKey :: "string \<Rightarrow> string act" where
  "idempotencyKey key =
     (let k = trimSpace key in
      if 256 < length k then afail (ErrText ''idempotency_key max 256 bytes'')
      else if k = [] then randomToken else areturn k)"

text \<open>\<open>LockDeploymentUpdates\<close> of the repository is the read of nothing: it can only fail.\<close>

definition lockDeploymentUpdates :: "unit act" where
  "lockDeploymentUpdates = storeGet (\<lambda>s. Inr ())"

definition deployPublication :: "string \<Rightarrow> DeployInput \<Rightarrow> Deployment act" where
  "deployPublication app input =
     abind (idempotencyKey (DepIn_IdempotencyKey input)) (\<lambda>key.
       let input = input\<lparr>DepIn_IdempotencyKey := key\<rparr> in
       abind (publicationFingerprint input) (\<lambda>fingerprint.
       abind lockDeploymentUpdates (\<lambda>_.
       abind (storeGet (GetApp app)) (\<lambda>_.
       abind (storeGet (\<lambda>s. Inr (GetPublication app key s))) (\<lambda>prior. case prior of
         Some p \<Rightarrow> if Pub_Fingerprint p \<noteq> fingerprint then afail ErrIdempotencyConflict else replayPublication p
       | None \<Rightarrow> abind (checkExpectedTraffic app (DepIn_ExpectedActiveTraffic input)) (\<lambda>_.
           buildAndPublishDeployment app input fingerprint None))))))"

definition Deploy :: "string \<Rightarrow> DeployInput \<Rightarrow> Deployment act" where
  "Deploy appID input = deployPublication appID input"

definition DeployForOrg :: "string \<Rightarrow> string \<Rightarrow> DeployInput \<Rightarrow> Deployment act" where
  "DeployForOrg org appID input =
     abind (storeGet (validateDeploymentForOrg org appID input)) (\<lambda>_. Deploy appID input)"

section \<open>Recovery\<close>

definition RecoverPublications :: "unit act" where
  "RecoverPublications = abind lockDeploymentUpdates (\<lambda>_. recoverPublicationsLocked)"

end
