(* ===== verification/Deploy_Consistency.thy ===== *)
theory Deploy_Consistency
  imports Publication_Consistency Deployment_Service
begin

text \<open>
  Deploying under faults: however often a deployment with one key is attempted, and wherever each
  attempt is cut short, the repository's routes are those the publication's stage allows.
\<close>

section \<open>Steps before the publication\<close>

lemma keeps_cleanup [keeps_rules]:
  "keeps (\<lambda>w. f (w_store w)) (cleanupDeploymentObject d)"
  "keeps (\<lambda>w. f (w_store w)) (cleanupDeploymentAssets d)"
proof -
  have world: "keeps (\<lambda>w. f (w_store w)) (aworld g)" for g :: "world \<Rightarrow> 'z"
    by (simp add: keeps_def aworld_def)
  have del: "keeps (\<lambda>w. f (w_store w)) (deleteUnreferenced appID key)" for appID key
    unfolding deleteUnreferenced_def deploymentObjectReferenced_def ignored_def by (intro keeps_rules world)
  show "keeps (\<lambda>w. f (w_store w)) (cleanupDeploymentObject d)"
    unfolding cleanupDeploymentObject_def by (intro keeps_rules world del)
  show "keeps (\<lambda>w. f (w_store w)) (cleanupDeploymentAssets d)"
    unfolding cleanupDeploymentAssets_def cleanupAsset_def by (intro keeps_rules world del)
qed

lemma keeps_putAssets [keeps_rules]: "keeps (\<lambda>w. f (w_store w)) (putAssets d stored rest)"
proof (induction rest arbitrary: stored)
  case Nil
  show ?case unfolding putAssets.simps by (rule keeps_return)
next
  case (Cons asset rest)
  show ?case unfolding putAssets.simps Let_def by (intro keeps_rules Cons.IH)
qed

lemma keeps_build [keeps_rules]:
  "keeps (\<lambda>w. f (w_store w)) (storeFiles d)"
  "keeps (\<lambda>w. f (w_store w)) (checkSecrets managed input d)"
  "keeps (\<lambda>w. f (w_store w)) (prepared appID input)"
  "keeps (\<lambda>w. f (w_store w)) (nativeManagementMetadata d selected previous)"
  "keeps (\<lambda>w. f (w_store w)) (nativeManagedPublication app d)"
  "keeps (\<lambda>w. f (w_store w)) (captureArtifact item selected)"
proof -
  show "keeps (\<lambda>w. f (w_store w)) (storeFiles d)"
    unfolding storeFiles_def Let_def by (intro keeps_rules)
  show "keeps (\<lambda>w. f (w_store w)) (checkSecrets managed input d)"
    unfolding checkSecrets_def deploySecrets_def by (intro keeps_rules)
  show "keeps (\<lambda>w. f (w_store w)) (prepared appID input)"
    unfolding prepared_def by (intro keeps_rules)
  show m: "keeps (\<lambda>w. f (w_store w)) (nativeManagementMetadata d selected previous)" for d selected previous
    unfolding nativeManagementMetadata_def dispatchMetadata_def bucketMetadata_def Let_def by (intro keeps_rules)
  show "keeps (\<lambda>w. f (w_store w)) (nativeManagedPublication app d)"
    unfolding nativeManagedPublication_def by (intro keeps_rules m)
  show "keeps (\<lambda>w. f (w_store w)) (captureArtifact item selected)"
    unfolding captureArtifact_def namespacePolicyOf_def assetDigest_def Let_def by (intro keeps_rules)
qed

lemma routed_freeze [keeps_rules]: "routed (freezeArtifact item inherited)"
  unfolding freezeArtifact_def inheritManagement_def by (intro keeps_rules routed_put)

lemma routed_artifact [keeps_rules]: "routed (deployArtifact managed app d)"
  unfolding deployArtifact_def Let_def by (intro keeps_rules routed_put)

section \<open>The outcome of attempts\<close>

definition outcome :: "string \<Rightarrow> string \<Rightarrow> (string \<Rightarrow> int) \<Rightarrow> Store \<Rightarrow> bool" where
  "outcome app key T s \<longleftrightarrow> wellRouted app s \<and> (case GetPublication app key s of
       None \<Rightarrow> trafficShare s app = T
     | Some q \<Rightarrow> Pub_AppID q = app \<and> Pub_Key q = key \<and> proper q \<and> trafficWeight (Pub_PreviousTraffic q) = T
         \<and> stageAgrees q (Pub_Stage q) (trafficShare s app))"

lemma routing_outcome: "routing s = routing s' \<Longrightarrow> outcome app key T s = outcome app key T s'"
proof -
  assume "routing s = routing s'"
  then have r: "apps s = apps s'" "deployments s = deployments s'" "active s = active s'" "publications s = publications s'"
    by (simp_all add: routing_def)
  have share: "trafficShare s app = trafficShare s' app" by (simp add: fun_eq_iff trafficShare_def r)
  show ?thesis by (simp only: outcome_def wellRouted_def GetPublication_def r share)
qed

lemmas triple_outcome = triple_keeps[OF _ routing_outcome]

lemma agrees_outcome:
  assumes "agrees p s" "proper p" "trafficWeight (Pub_PreviousTraffic p) = T" "Pub_AppID p = app" "Pub_Key p = key"
  shows "outcome app key T s"
proof -
  obtain stage T' q where s: "wellRouted app s" "trafficShare s app = T'" "GetPublication app key s = Some q"
    and q: "sameRequest p q" "Pub_Stage q = stage" "stageAgrees p stage T'"
    using assms(1,4,5) by (auto simp: agrees_def stands_def split: option.splits)
  have "proper q" using assms(2) sameRequest_fields[OF q(1)] sameRequest_eq[OF q(1)] by (simp add: proper_def)
  then show ?thesis
    using s q assms(3-5) sameRequest_fields[OF q(1)] sameRequest_eq[OF q(1)] by (simp add: outcome_def)
qed

lemma outcome_holds:
  assumes "outcome app key T s" "GetPublication app key s = Some p"
  shows "holds p s" "proper p" "trafficWeight (Pub_PreviousTraffic p) = T" "Pub_AppID p = app" "Pub_Key p = key"
proof -
  from assms show p: "proper p" "trafficWeight (Pub_PreviousTraffic p) = T" "Pub_AppID p = app" "Pub_Key p = key"
    by (auto simp: outcome_def)
  have "stands p (Pub_Stage p) (trafficShare s app) s" "stageAgrees p (Pub_Stage p) (trafficShare s app)"
    using assms p by (auto simp: outcome_def stands_def)
  then show "holds p s" using assms(2) p by (auto simp: holds_def agrees_def)
qed

section \<open>A replay\<close>

lemma replay_outcome:
  "triple (outcome app key T) (\<lambda>s. outcome app key T s \<and> GetPublication app key s = Some p) (replayPublication p) (\<lambda>_. outcome app key T)"
proof (rule triple_pure)
  let ?b = "proper p \<and> trafficWeight (Pub_PreviousTraffic p) = T \<and> Pub_AppID p = app \<and> Pub_Key p = key"
  show ?b if "outcome app key T s \<and> GetPublication app key s = Some p" for s
    using outcome_holds[OF conjunct1[OF that] conjunct2[OF that]] by simp
  assume b: ?b
  then have p: "proper p" by simp
  show "triple (outcome app key T) (\<lambda>s. outcome app key T s \<and> GetPublication app key s = Some p) (replayPublication p) (\<lambda>_. outcome app key T)"
  proof (rule triple_conseq[OF replayPublication_agrees[OF p]])
    show "outcome app key T s" if "agrees p s" for s using agrees_outcome[OF that p] b by simp
    then show "outcome app key T s" if "agrees p s" for s using that .
    show "holds p s" if "outcome app key T s \<and> GetPublication app key s = Some p" for s
      using outcome_holds(1)[OF conjunct1[OF that] conjunct2[OF that]] .
  qed
qed

section \<open>A first attempt\<close>

lemma StoreDeployment_stands:
  "triple (\<lambda>s. stands p stage T s) (stands p stage T) (storeDo (StoreDeployment d)) (\<lambda>_. stands p stage T)"
proof (rule triple_storeDo)
  fix s s'
  assume st: "stands p stage T s" and d: "StoreDeployment d s = Inr s'"
  let ?app = "Pub_AppID p" and ?ds = "mget0 [] (deployments s)"
  have s': "s' = s\<lparr>deployments := mput (Dep_AppID d) (?ds (Dep_AppID d) @ [d]) (deployments s)\<rparr>"
    and new: "\<not> list_ex (\<lambda>prior. Dep_ID prior = Dep_ID d) (?ds (Dep_AppID d))"
    using d by (auto simp: StoreDeployment_def split: if_splits)
  have ds: "mget0 [] (deployments s') ?app = (if Dep_AppID d = ?app then ?ds ?app @ [d] else ?ds ?app)"
    by (simp add: s' mget0_def)
  have "distinct (map Dep_ID (mget0 [] (deployments s') ?app))"
    using st new by (auto simp: ds stands_def wellRouted_def list_ex_iff)
  moreover have "list_ex P (?ds ?app) \<Longrightarrow> list_ex P (mget0 [] (deployments s') ?app)" for P by (simp add: ds)
  then have "list_all (\<lambda>(i, n). 0 < n \<and> list_ex (\<lambda>d. Dep_ID d = i) (mget0 [] (deployments s') ?app)) (mentries (mget0 mempty (active s') ?app))"
    using st by (auto simp: stands_def wellRouted_def list_all_iff s')
  ultimately show "stands p stage T s'" using st by (auto simp: stands_def wellRouted_def trafficShare_def GetPublication_def s' split: option.splits)
qed auto

lemma storeAndPublish_outcome:
  assumes "proper p" "trafficWeight (Pub_PreviousTraffic p) = T" "Pub_Stage p = ''building''"
  shows "triple (outcome (Pub_AppID p) (Pub_Key p) T) (stands p ''building'' T) (storeAndPublish managed app input p d)
    (\<lambda>_. outcome (Pub_AppID p) (Pub_Key p) T)"
proof -
  let ?O = "outcome (Pub_AppID p) (Pub_Key p) T"
  have building: "stageAgrees p ''building'' T" using assms(2) by (simp add: stageAgrees_def)
  then have O: "?O s" if "stands p ''building'' T s" for s
    by (intro agrees_outcome[OF agreesI[OF that] assms(1,2)]) simp_all
  have quiet: "triple ?O (stands p ''building'' T) m (\<lambda>_. stands p ''building'' T)" if "routed m" for m :: "'x act"
    by (rule triple_stands[OF that]) (auto intro: O)
  have save: "triple ?O (stands p ''building'' T) (abind (storeDo (SavePublication q)) (\<lambda>_. publishStoredArtifact q a)) (\<lambda>_. ?O)"
    if q: "q = p\<lparr>Pub_Digest := h, Pub_Stage := ''stored''\<rparr>" for q h a
  proof -
    have "targetTraffic q = targetTraffic p" by (simp add: q targetTraffic_def)
    then have f: "Pub_AppID q = Pub_AppID p" "Pub_Key q = Pub_Key p" "proper q" "trafficWeight (Pub_PreviousTraffic q) = T"
      using assms(1,2) by (simp_all add: q proper_def)
    have O': "?O s" if "agrees q s" for s by (rule agrees_outcome[OF that f(3,4,1,2)])
    have stored: "stageAgrees q ''stored'' T" using f(4) by (simp add: stageAgrees_def)
    have step: "stands q ''stored'' T s'" if "stands p ''building'' T s" "SavePublication q s = Inr s'" for s s'
    proof -
      have "s' = s\<lparr>publications := mput (pairKey (Pub_AppID p) (Pub_Key p)) q (publications s)\<rparr>"
        using that(2) f by (auto simp: SavePublication_def Let_def split: if_splits)
      then have s': "apps s' = apps s" "deployments s' = deployments s" "active s' = active s"
        "GetPublication (Pub_AppID p) (Pub_Key p) s' = Some q" by (simp_all add: GetPublication_def)
      have "trafficShare s' app = trafficShare s app" for app by (simp add: fun_eq_iff trafficShare_def s'(3))
      moreover have "wellRouted app s' = wellRouted app s" for app by (simp add: wellRouted_def s'(1-3))
      ultimately show ?thesis using that(1) s'(4) unfolding stands_def f by (simp add: q)
    qed
    have saved: "triple ?O (stands p ''building'' T) (storeDo (SavePublication q)) (\<lambda>_. stands q ''stored'' T)"
      by (rule triple_storeDo) (auto intro: step O O' agreesI stored)
    have pub: "triple (agrees q) (stands q ''stored'' T) (publishStoredArtifact q a) (\<lambda>_. agrees q)"
      using publishStoredArtifact_agrees[OF f(3) sameRequest_refl, of "''stored''" a] unfolding f(4) by (simp add: waiting_def)
    have "triple ?O (stands q ''stored'' T) (publishStoredArtifact q a) (\<lambda>_. ?O)"
      by (rule triple_conseq[OF pub]) (assumption | erule O')+
    with saved show ?thesis by (rule triple_bind)
  qed
  have store: "triple ?O (stands p ''building'' T) (storeDo (StoreDeployment d)) (\<lambda>_. stands p ''building'' T)" for d
    by (rule triple_conseq[OF StoreDeployment_stands]) (auto intro: O)
  have steps: "routed (storeFiles d)" "routed (checkSecrets managed input d')" "routed (deployArtifact managed app d')" for d'
    by (intro keeps_rules)+
  show ?thesis
    unfolding storeAndPublish_def Let_def
    by (intro triple_bind[OF quiet[OF steps(1)]] triple_bind[OF quiet[OF steps(2)]] triple_bind[OF quiet[OF steps(3)]] triple_bind[OF store] save[OF refl])
qed

lemma failBuilding_outcome: "triple (outcome app key T) (outcome app key T) (failBuilding app key) (\<lambda>_. outcome app key T)"
proof -
  let ?O = "outcome app key T"
  have mark: "triple ?O (\<lambda>s. ?O s \<and> GetPublication app key s = Some q) (ignored (savePublication q ''failed'')) (\<lambda>_. ?O)"
    if building: "Pub_Stage q = ''building''" for q
  proof (rule triple_pure)
    let ?b = "proper q \<and> trafficWeight (Pub_PreviousTraffic q) = T \<and> Pub_AppID q = app \<and> Pub_Key q = key"
    show ?b if "?O s \<and> GetPublication app key s = Some q" for s
      using outcome_holds[OF conjunct1[OF that] conjunct2[OF that]] by simp
    assume b: ?b
    have ok: "stageAgrees q ''building'' T" "stageAgrees q ''failed'' T" using b by (simp_all add: stageAgrees_def)
    have "agrees q s" if "stands q ''building'' T s \<or> stands q ''failed'' T s" for s
      using that agreesI[OF _ ok(1), of s] agreesI[OF _ ok(2), of s] by auto
    then have O: "?O s" if "stands q ''building'' T s \<or> stands q ''failed'' T s" for s
      using agrees_outcome[of q s T app key] that b by simp
    have pre: "stands q ''building'' T s" if "?O s \<and> GetPublication app key s = Some q" for s
    proof -
      have "wellRouted app s" "stageAgrees q (Pub_Stage q) (trafficShare s app)"
        using conjunct1[OF that, unfolded outcome_def] conjunct2[OF that] by simp_all
      moreover from this have "trafficShare s app = T" using building b by (simp add: stageAgrees_def)
      ultimately show ?thesis using that building b by (simp add: stands_def)
    qed
    have "triple ?O (\<lambda>s. ?O s \<and> GetPublication app key s = Some q) (savePublication q ''failed'') (\<lambda>_. ?O)"
      by (rule triple_conseq[OF savePublication_stands[OF sameRequest_refl, of q "''building''" T]]) (auto intro: O pre)
    from triple_try[OF this] have "triple ?O (\<lambda>s. ?O s \<and> GetPublication app key s = Some q) (atry (savePublication q ''failed'')) (\<lambda>_. ?O)"
      by (rule triple_conseq) (auto split: sum.splits)
    then show "triple ?O (\<lambda>s. ?O s \<and> GetPublication app key s = Some q) (ignored (savePublication q ''failed'')) (\<lambda>_. ?O)"
      unfolding ignored_def by (auto intro!: triple_bind triple_return)
  qed
  have stay: "triple ?O (\<lambda>s. ?O s \<and> b s) (areturn ()) (\<lambda>_. ?O)" for b by (rule triple_return) simp
  have get: "triple ?O ?O (storeGet (\<lambda>s. Inr (GetPublication app key s))) (\<lambda>r s. ?O s \<and> Inr (GetPublication app key s) = (Inr r :: Publication option result))"
    by (rule triple_storeGet) simp
  show ?thesis
    unfolding failBuilding_def
  proof (rule triple_bind[OF triple_try[OF get]])
    fix r :: "Publication option result"
    show "triple ?O (\<lambda>s. case r of Inl _ \<Rightarrow> ?O s | Inr r \<Rightarrow> ?O s \<and> Inr (GetPublication app key s) = (Inr r :: Publication option result))
      (case r of Inr (Some current) \<Rightarrow> if Pub_Stage current = ''building'' then ignored (savePublication current ''failed'') else areturn () | _ \<Rightarrow> areturn ()) (\<lambda>_. ?O)"
      using mark stay by (auto intro: triple_return split: sum.split option.split)
  qed
qed

text \<open>Before its first attempt a key has no publication.\<close>

definition fresh :: "string \<Rightarrow> string \<Rightarrow> (string \<Rightarrow> int) \<Rightarrow> Store \<Rightarrow> bool" where
  "fresh app key T s \<longleftrightarrow> wellRouted app s \<and> GetPublication app key s = None \<and> trafficShare s app = T"

lemma fresh_outcome: "fresh app key T s \<Longrightarrow> outcome app key T s"
  by (simp add: fresh_def outcome_def)

lemma routing_fresh: "routing s = routing s' \<Longrightarrow> fresh app key T s = fresh app key T s'"
proof -
  assume "routing s = routing s'"
  then have r: "apps s = apps s'" "deployments s = deployments s'" "active s = active s'" "publications s = publications s'"
    by (simp_all add: routing_def)
  have share: "trafficShare s app = trafficShare s' app" by (simp add: fun_eq_iff trafficShare_def r)
  show ?thesis by (simp only: fresh_def wellRouted_def GetPublication_def r share)
qed

lemma build_outcome:
  assumes "DepIn_IdempotencyKey input = key"
  shows "triple (outcome app key T) (fresh app key T) (buildAndPublishDeployment app input fingerprint managed) (\<lambda>_. outcome app key T)"
proof -
  let ?O = "outcome app key T"
  have quiet: "triple ?O (fresh app key T) m (\<lambda>_. fresh app key T)" if "routed m" for m :: "'x act"
    by (rule triple_keeps[OF that routing_fresh fresh_outcome])
  have finish: "triple ?O (fresh app key T) (abind (storeDo (SavePublication p)) (\<lambda>_. abind (atry (storeAndPublish managed worker_app input p d)) (\<lambda>r. case r of
         Inr result \<Rightarrow> areturn result | Inl err \<Rightarrow> abind (failBuilding app key) (\<lambda>_. afail err)))) (\<lambda>_. ?O)"
    if p: "proper p" "trafficWeight (Pub_PreviousTraffic p) = T" "Pub_Stage p = ''building''" "Pub_AppID p = app" "Pub_Key p = key"
    for p managed worker_app d
  proof -
    have building: "stageAgrees p ''building'' T" using p(2) by (simp add: stageAgrees_def)
    have step: "stands p ''building'' T s'" if "fresh app key T s" "SavePublication p s = Inr s'" for s s'
    proof -
      have "s' = s\<lparr>publications := mput (pairKey app key) p (publications s)\<rparr>"
        using that(2) p by (auto simp: SavePublication_def Let_def split: if_splits)
      then have s': "apps s' = apps s" "deployments s' = deployments s" "active s' = active s" "GetPublication app key s' = Some p"
        by (simp_all add: GetPublication_def)
      have "trafficShare s' app = trafficShare s app" by (simp add: fun_eq_iff trafficShare_def s'(3))
      moreover have "wellRouted app s' = wellRouted app s" by (simp add: wellRouted_def s'(1-3))
      ultimately show ?thesis using that(1) s'(4) p unfolding stands_def fresh_def by simp
    qed
    have O: "?O s" if "stands p ''building'' T s" for s by (rule agrees_outcome[OF agreesI[OF that building] p(1,2,4,5)])
    have save: "triple ?O (fresh app key T) (storeDo (SavePublication p)) (\<lambda>_. stands p ''building'' T)"
      by (rule triple_storeDo) (auto intro: step O fresh_outcome)
    have fail: "triple ?O ?O (abind (failBuilding app key) (\<lambda>_. afail er)) (\<lambda>_. ?O)" for er
      by (rule triple_bind[OF failBuilding_outcome]) (auto intro: triple_fail)
    have settled: "triple ?O ?O (areturn x) (\<lambda>_. ?O)" for x by (rule triple_return) simp
    show ?thesis
      by (intro triple_bind[OF save] triple_try_case[OF storeAndPublish_outcome[OF p(1-3), unfolded p(4,5)] fail settled])
  qed
  have build: "triple ?O (fresh app key T) (abind (storeGet (ActiveDeploymentsForApp app)) (\<lambda>original. abind anow (\<lambda>t.
       let p = newPublication managed app input fingerprint d (activeTrafficForApp original app) t in
       abind (storeDo (SavePublication p)) (\<lambda>_. abind (atry (storeAndPublish managed worker_app input p d)) (\<lambda>r. case r of
         Inr result \<Rightarrow> areturn result | Inl err \<Rightarrow> abind (failBuilding app (DepIn_IdempotencyKey input)) (\<lambda>_. afail err)))))) (\<lambda>_. ?O)"
    for managed worker_app d
  proof (rule triple_bind[OF triple_storeGet])
    fix original
    have "triple ?O (\<lambda>s. fresh app key T s \<and> ActiveDeploymentsForApp app s = Inr original) (abind anow (\<lambda>t.
       let p = newPublication managed app input fingerprint d (activeTrafficForApp original app) t in
       abind (storeDo (SavePublication p)) (\<lambda>_. abind (atry (storeAndPublish managed worker_app input p d)) (\<lambda>r. case r of
         Inr result \<Rightarrow> areturn result | Inl err \<Rightarrow> abind (failBuilding app key) (\<lambda>_. afail err))))) (\<lambda>_. ?O)"
    proof (rule triple_pure)
      let ?b = "trafficWeight (activeTrafficForApp original app) = T \<and> properTraffic (activeTrafficForApp original app)"
      show ?b if "fresh app key T s \<and> ActiveDeploymentsForApp app s = Inr original" for s
        using activeTraffic_share[of app s original] that by (simp add: fresh_def)
      assume b: ?b
      have p: "proper (newPublication managed app input fingerprint d (activeTrafficForApp original app) t)"
        "trafficWeight (Pub_PreviousTraffic (newPublication managed app input fingerprint d (activeTrafficForApp original app) t)) = T"
        "Pub_Stage (newPublication managed app input fingerprint d (activeTrafficForApp original app) t) = ''building''"
        "Pub_AppID (newPublication managed app input fingerprint d (activeTrafficForApp original app) t) = app"
        "Pub_Key (newPublication managed app input fingerprint d (activeTrafficForApp original app) t) = key" for t
        using b assms by (simp_all add: newPublication_def Let_def proper_def targetTraffic_def properTraffic_def Publication0_def split: option.split)
      have now: "triple ?O (\<lambda>s. fresh app key T s \<and> ActiveDeploymentsForApp app s = Inr original) anow (\<lambda>_. fresh app key T)"
        by (rule triple_conseq[OF quiet]) (auto intro: keeps_rules)
      show "triple ?O (\<lambda>s. fresh app key T s \<and> ActiveDeploymentsForApp app s = Inr original) (abind anow (\<lambda>t.
       let p = newPublication managed app input fingerprint d (activeTrafficForApp original app) t in
       abind (storeDo (SavePublication p)) (\<lambda>_. abind (atry (storeAndPublish managed worker_app input p d)) (\<lambda>r. case r of
         Inr result \<Rightarrow> areturn result | Inl err \<Rightarrow> abind (failBuilding app key) (\<lambda>_. afail err))))) (\<lambda>_. ?O)"
        unfolding Let_def by (rule triple_bind[OF now finish[OF p]])
    qed
    then show "triple ?O (\<lambda>s. fresh app key T s \<and> ActiveDeploymentsForApp app s = Inr original) (abind anow (\<lambda>t.
       let p = newPublication managed app input fingerprint d (activeTrafficForApp original app) t in
       abind (storeDo (SavePublication p)) (\<lambda>_. abind (atry (storeAndPublish managed worker_app input p d)) (\<lambda>r. case r of
         Inr result \<Rightarrow> areturn result | Inl err \<Rightarrow> abind (failBuilding app (DepIn_IdempotencyKey input)) (\<lambda>_. afail err))))) (\<lambda>_. ?O)"
      using assms by simp
  qed (rule fresh_outcome)
  have native: "routed (case m of Some x \<Rightarrow> areturn m | None \<Rightarrow> nativeManagedPublication worker_app d)" for m worker_app d
    by (cases m) (auto intro: keeps_rules)
  have prep: "triple ?O (fresh app key T) (prepared app input) (\<lambda>(_, _). fresh app key T)"
    by (rule triple_conseq[OF quiet]) (auto intro: keeps_rules)
  show ?thesis
    unfolding buildAndPublishDeployment_def
    by (intro triple_bind_prod[OF prep] triple_bind[OF quiet[OF native] build])
qed

section \<open>Any number of attempts\<close>

lemma deploy_outcome:
  assumes "trimSpace (DepIn_IdempotencyKey input) = key" "key \<noteq> []"
  shows "triple (outcome app key T) (outcome app key T) (deployPublication app input) (\<lambda>_. outcome app key T)"
proof -
  let ?O = "outcome app key T"
  have quiet: "triple ?O ?O m (\<lambda>_. ?O)" if "routed m" for m :: "'x act"
    by (rule triple_outcome[OF that])
  have known: "triple ?O (\<lambda>s. ?O s \<and> Inr (GetPublication app key s) = (Inr (Some p) :: Publication option result))
      (if Pub_Fingerprint p \<noteq> fingerprint then afail ErrIdempotencyConflict else replayPublication p) (\<lambda>_. ?O)" for p fingerprint
    by (rule triple_if, rule triple_fail, simp, rule triple_conseq[OF replay_outcome]) auto
  have expected: "routed (checkExpectedTraffic app expected)" for expected
    unfolding checkExpectedTraffic_def by (intro keeps_rules)
  have new: "triple ?O (\<lambda>s. ?O s \<and> Inr (GetPublication app key s) = (Inr None :: Publication option result))
      (abind (checkExpectedTraffic app expected) (\<lambda>_. buildAndPublishDeployment app (input\<lparr>DepIn_IdempotencyKey := key\<rparr>) fingerprint None)) (\<lambda>_. ?O)"
    for expected fingerprint
  proof (rule triple_exists[where b = "\<lambda>T'. T' = T" and P = "fresh app key"])
    show "triple ?O (fresh app key T') (abind (checkExpectedTraffic app expected) (\<lambda>_. buildAndPublishDeployment app (input\<lparr>DepIn_IdempotencyKey := key\<rparr>) fingerprint None)) (\<lambda>_. ?O)"
      if "T' = T" for T'
      unfolding that by (rule triple_bind[OF triple_keeps[OF expected routing_fresh fresh_outcome] build_outcome]) simp_all
  qed (auto simp: outcome_def fresh_def)
  have get: "triple ?O ?O (storeGet (\<lambda>s. Inr (GetPublication app key s))) (\<lambda>r s. ?O s \<and> Inr (GetPublication app key s) = (Inr r :: Publication option result))"
    by (rule triple_storeGet) simp
  have look: "triple ?O ?O (abind (storeGet (\<lambda>s. Inr (GetPublication app key s))) (\<lambda>prior. case prior of
         Some p \<Rightarrow> if Pub_Fingerprint p \<noteq> fingerprint then afail ErrIdempotencyConflict else replayPublication p
       | None \<Rightarrow> abind (checkExpectedTraffic app expected) (\<lambda>_.
           buildAndPublishDeployment app (input\<lparr>DepIn_IdempotencyKey := key\<rparr>) fingerprint None))) (\<lambda>_. ?O)" for fingerprint expected
  proof (rule triple_bind[OF get])
    show "triple ?O (\<lambda>s. ?O s \<and> Inr (GetPublication app key s) = (Inr prior :: Publication option result)) (case prior of
         Some p \<Rightarrow> if Pub_Fingerprint p \<noteq> fingerprint then afail ErrIdempotencyConflict else replayPublication p
       | None \<Rightarrow> abind (checkExpectedTraffic app expected) (\<lambda>_.
           buildAndPublishDeployment app (input\<lparr>DepIn_IdempotencyKey := key\<rparr>) fingerprint None)) (\<lambda>_. ?O)" for prior
      using known new by (cases prior) simp_all
  qed
  have key: "idempotencyKey (DepIn_IdempotencyKey input) = (if 256 < length key then afail (ErrText ''idempotency_key max 256 bytes'') else areturn key)"
    using assms by (simp add: idempotencyKey_def Let_def)
  have steps: "routed (publicationFingerprint input)" "routed lockDeploymentUpdates" "routed (storeGet (GetApp app))" for input
    unfolding publicationFingerprint_def lockDeploymentUpdates_def by (intro keeps_rules)+
  show ?thesis
  proof (cases "256 < length key")
    case True
    then show ?thesis unfolding deployPublication_def key by (auto intro: triple_fail)
  next
    case False
    show ?thesis
      unfolding deployPublication_def key if_not_P[OF False] abind_return Let_def
      by (intro triple_bind[OF quiet[OF steps(1)]] triple_bind[OF quiet[OF steps(2)]] triple_bind[OF quiet[OF steps(3)]] look)
  qed
qed

text \<open>An attempt: \<open>Deploy\<close> is called with the key, in any environment. A process that dies is an attempt
  whose calls are refused from some call on; a retry after a restart is a further attempt.\<close>

inductive attempts :: "string \<Rightarrow> string \<Rightarrow> world \<Rightarrow> world \<Rightarrow> bool" for app key where
  attempts_none: "attempts app key w w"
| attempts_more: "attempts app key w w' \<Longrightarrow> trimSpace (DepIn_IdempotencyKey input) = key \<Longrightarrow> Deploy app input e w' = (r, w'')
    \<Longrightarrow> attempts app key w w''"

lemma attempts_outcome:
  assumes "attempts app key w w'" "key \<noteq> []" "outcome app key T (w_store w)"
  shows "outcome app key T (w_store w')"
  using assms
proof (induction rule: attempts.induct)
  case (attempts_more w w' input e r w'')
  then have "outcome app key T (w_store w')" by blast
  from tripleD[OF deploy_outcome[OF attempts_more.hyps(2) attempts_more.prems(1)] this attempts_more.hyps(3)[unfolded Deploy_def]]
  show ?case by (cases r) simp_all
qed

text \<open>C1: wherever the attempts to deploy with one key are cut short, the stage the repository remembers
  and the traffic it routes agree: without a publication, and at the stages before the switch, and
  after a failure, the traffic is the one before the first attempt; when the route is published it
  is the target; in between it is one of the two, never a mixture.\<close>

theorem publication_crash_consistent:
  assumes "attempts app key w w'" "key \<noteq> []" "wellRouted app (w_store w)" "GetPublication app key (w_store w) = None"
  shows "case GetPublication app key (w_store w') of
      None \<Rightarrow> trafficShare (w_store w') app = trafficShare (w_store w) app
    | Some p \<Rightarrow> trafficWeight (Pub_PreviousTraffic p) = trafficShare (w_store w) app
        \<and> stageAgrees p (Pub_Stage p) (trafficShare (w_store w') app)"
proof -
  have "outcome app key (trafficShare (w_store w) app) (w_store w)" using assms(3,4) by (simp add: outcome_def)
  from attempts_outcome[OF assms(1,2) this] show ?thesis by (auto simp: outcome_def split: option.split)
qed

text \<open>An environment in which everything works, one in which a call's answer is lost and the process
  then dies, and the world of one worker without deployments.\<close>

definition demoServiceEnv :: serviceEnv where
  "demoServiceEnv = \<lparr>e_faults = (\<lambda>_. NoFault), e_clock = int, e_token = (\<lambda>_. Inr ''d''), e_deploy = demoEnv, e_hasObjects = False,
     e_decrypt = None, e_encrypt = (\<lambda>_ v. Inr ([], v)), e_hash = id, e_twoPhase = True, e_targeted = False,
     e_prepare = (\<lambda>_ as. Inr \<lparr>Prep_Generation = [], Prep_Deployments = as\<rparr>), e_accepts = (\<lambda>_. Inr ()), e_validator = False,
     e_workerValidator = False, e_validate = (\<lambda>_ _. Inr ()), e_encodeFiles = (\<lambda>_. Inr []), e_decodeFiles = (\<lambda>_. Inr []),
     e_digest = (\<lambda>_ _ _ _. Inr ''digest''), e_artifactJSON = (\<lambda>_. Inr []), e_fingerprint = (\<lambda>input. Inr (DepIn_CommitHash input)),
     e_varsFingerprint = (\<lambda>_. Inr []), e_canonicalVar = Inr, e_bindingJSON = (\<lambda>name _ _. name), e_bindingOf = (\<lambda>_. None), e_stringJSON = (\<lambda>_. None), e_metadataSize = (\<lambda>_. Inr 0),
     e_hmac = (\<lambda>k m. k @ m), e_grantJSON = RG_ResourceID, e_grantOf = (\<lambda>_. None), e_live = None, e_instance = None,
     e_executionDigest = (\<lambda>_. Inr ''x''), e_varValue = (\<lambda>_. Inr ()), e_random = (\<lambda>_. None), e_kvSizer = True, e_kvOptimizer = True,
     e_kvCacheDisabled = False, e_passwordHash = (\<lambda>_ p. Inr p), e_passwordMatches = (=), e_authSecret = ''secret'', e_jwtHeader = [],
     e_claimsJSON = (\<lambda>(subject, email, expires). subject), e_claimsOf = (\<lambda>_. None), e_absoluteURL = (\<lambda>_. True),
     e_withQuery = (\<lambda>base _. Inr base),
     e_objectInfo = (\<lambda>_ key ct body. \<lparr>Obj_Key = key, Obj_Size = int (length body), Obj_ETag = [], Obj_HTTPETag = [], Obj_Uploaded = 0, Obj_ContentType = ct\<rparr>),
     e_presign = (\<lambda>_ _ key. Inr key), e_output = None, e_outputBusy = (\<lambda>_. False)\<rparr>"

definition crashAt :: "nat \<Rightarrow> nat \<Rightarrow> fault" where
  "crashAt n i = (if i < n then NoFault else if i = n then Unacknowledged (ErrText ''lost'') else Refused (ErrText ''down''))"

definition worldOf :: "Store \<Rightarrow> world" where
  "worldOf s = \<lparr>w_store = s, w_objects = mempty, w_live = [], w_runtimeDeployments = mempty, w_runtimeVersions = mempty,
     w_executions = NewExecutionRegistry, w_dispatch = dispatchRuntime0, w_kvOrgUsage = mempty, w_objectInfo = mempty, w_calls = 0\<rparr>"

definition demoDeploy :: DeployInput where
  "demoDeploy = demoInput\<lparr>DepIn_IdempotencyKey := '' k''\<rparr>"

definition crashedWorld :: world where
  "crashedWorld = snd (Deploy ''w'' demoDeploy (demoServiceEnv\<lparr>e_faults := crashAt 24\<rparr>) (worldOf oneApp))"

text \<open>The switch of the traffic took effect, its answer was lost: the publication is activating, and the
  traffic is the target.\<close>

theorem publication_crash_consistent_witness:
  "case GetPublication ''w'' ''k'' (w_store crashedWorld) of
      None \<Rightarrow> False
    | Some p \<Rightarrow> Pub_Stage p = ''activating'' \<and> stageAgrees p ''activating'' (trafficShare (w_store crashedWorld) ''w'')
        \<and> trafficShare (w_store crashedWorld) ''w'' ''d'' = 100"
proof -
  have run: "case GetPublication ''w'' ''k'' (w_store crashedWorld) of None \<Rightarrow> False
      | Some p \<Rightarrow> Pub_Stage p = ''activating'' \<and> trafficShare (w_store crashedWorld) ''w'' ''d'' = 100" by code_simp
  have key: "trimSpace (DepIn_IdempotencyKey demoDeploy) = ''k''" by code_simp
  have start: "wellRouted ''w'' (w_store (worldOf oneApp))" "GetPublication ''w'' ''k'' (w_store (worldOf oneApp)) = None" by code_simp+
  have "Deploy ''w'' demoDeploy (demoServiceEnv\<lparr>e_faults := crashAt 24\<rparr>) (worldOf oneApp)
      = (fst (Deploy ''w'' demoDeploy (demoServiceEnv\<lparr>e_faults := crashAt 24\<rparr>) (worldOf oneApp)), crashedWorld)"
    by (simp add: crashedWorld_def)
  then have "attempts ''w'' ''k'' (worldOf oneApp) crashedWorld" by (rule attempts_more[OF attempts_none key])
  from publication_crash_consistent[OF this _ start] show ?thesis using run by (auto split: option.splits)
qed

section \<open>Idempotence\<close>

definition expectedReplay :: "DeployInput \<Rightarrow> string \<Rightarrow> Publication \<Rightarrow> serviceEnv \<Rightarrow> Store \<Rightarrow> Deployment result" where
  "expectedReplay input key p e s =
     (case e_fingerprint e (input\<lparr>DepIn_IdempotencyKey := key, DepIn_CreatedBy := []\<rparr>) of
        Inl err \<Rightarrow> Inl err
      | Inr payload \<Rightarrow>
          if Pub_Fingerprint p \<noteq> e_hash e payload then Inl ErrIdempotencyConflict
          else if Pub_Stage p = ''failed'' then Inl ErrPublicationFailed
          else map_sum id Art_Deployment (GetDeploymentArtifact (Pub_AppID p) (Pub_DeploymentID p) s))"

text \<open>C10: when no call fails during it, a retry of a deployment of an existing worker that has ended, under
  the same key (of at most 256 bytes), changes nothing: not the repository, not the objects, not
  what the runtime serves. It answers from the publication: with the deployment it made, with its
  failure, or, for another request under the same key, with a conflict.\<close>

theorem deploy_idempotent:
  assumes "faultFree e" "trimSpace (DepIn_IdempotencyKey input) = key" "key \<noteq> []" "length key \<le> 256" "mhas (apps (w_store w)) app"
    and "GetPublication app key (w_store w) = Some p" "settledStage (Pub_Stage p)"
  shows "fst (Deploy app input e w) = expectedReplay input key p e (w_store w) \<and> w_store (snd (Deploy app input e w)) = w_store w
    \<and> w_objects (snd (Deploy app input e w)) = w_objects w \<and> w_live (snd (Deploy app input e w)) = w_live w"
proof -
  have key: "idempotencyKey (DepIn_IdempotencyKey input) = areturn key" using assms(2-4) by (simp add: idempotencyKey_def)
  have app: "\<exists>a. GetApp app (w_store w) = Inr a" using assms(5) by (auto simp: GetApp_def mhas_def)
  note run = storeGet_def external_free[OF assms(1)] atick_def abind_def areturn_def afail_def alift_def aenv_def
  show ?thesis
    using assms(6,7) app
    by (auto simp: Deploy_def deployPublication_def key Let_def publicationFingerprint_def lockDeploymentUpdates_def replayPublication_def
        expectedReplay_def settledStage_def run split: sum.split)
qed

definition doneWorld :: world where
  "doneWorld = snd (Deploy ''w'' demoDeploy demoServiceEnv (worldOf oneApp))"

theorem deploy_idempotent_witness:
  "case Deploy ''w'' demoDeploy demoServiceEnv doneWorld of (Inr d, w) \<Rightarrow> Dep_ID d = ''d'' \<and> w_live w = w_live doneWorld \<and> w_live w \<noteq> []
    | _ \<Rightarrow> False"
proof -
  obtain p where p: "GetPublication ''w'' ''k'' (w_store doneWorld) = Some p"
    and run: "settledStage (Pub_Stage p)" "case expectedReplay demoDeploy ''k'' p demoServiceEnv (w_store doneWorld) of Inr d \<Rightarrow> Dep_ID d = ''d'' | _ \<Rightarrow> False"
      "w_live doneWorld \<noteq> []" "mhas (apps (w_store doneWorld)) ''w''"
  proof -
    have "case GetPublication ''w'' ''k'' (w_store doneWorld) of None \<Rightarrow> False | Some p \<Rightarrow> settledStage (Pub_Stage p)
      \<and> (case expectedReplay demoDeploy ''k'' p demoServiceEnv (w_store doneWorld) of Inr d \<Rightarrow> Dep_ID d = ''d'' | _ \<Rightarrow> False)
      \<and> w_live doneWorld \<noteq> [] \<and> mhas (apps (w_store doneWorld)) ''w''" by code_simp
    then show thesis using that by (auto split: option.splits)
  qed
  have free: "faultFree demoServiceEnv" by (simp add: faultFree_def demoServiceEnv_def)
  have key: "trimSpace (DepIn_IdempotencyKey demoDeploy) = ''k''" by code_simp
  have "fst (Deploy ''w'' demoDeploy demoServiceEnv doneWorld) = expectedReplay demoDeploy ''k'' p demoServiceEnv (w_store doneWorld)
      \<and> w_store (snd (Deploy ''w'' demoDeploy demoServiceEnv doneWorld)) = w_store doneWorld
      \<and> w_objects (snd (Deploy ''w'' demoDeploy demoServiceEnv doneWorld)) = w_objects doneWorld
      \<and> w_live (snd (Deploy ''w'' demoDeploy demoServiceEnv doneWorld)) = w_live doneWorld"
    by (rule deploy_idempotent[OF free key _ _ run(4) p run(1)]) simp_all
  then show ?thesis using run(2,3) by (cases "Deploy ''w'' demoDeploy demoServiceEnv doneWorld") (auto split: sum.splits)
qed

end
