(* ===== verification/Worker_Service.thy ===== *)
theory Worker_Service
  imports Deployment_Service Hostnames
begin

text \<open>
  The operations on a worker that publish, in \<open>service.go\<close>: its update, its deletion and the traffic
  between its deployments.
\<close>

section \<open>Operations\<close>

text \<open>Refreshing the routes after a change of the worker's record.\<close>

definition updateApp :: "string \<Rightarrow> UpdateAppInput \<Rightarrow> App act" where
  "updateApp appID input =
     abind (storeGet (GetApp appID)) (\<lambda>current.
     abind (aguard (\<not> (IsPrivate current \<and> UpdApp_Hostname input \<noteq> None)) (ErrWrapped ErrInvalidAppUpdate ''private scripts cannot have a hostname'')) (\<lambda>_.
     abind (case UpdApp_Hostname input of None \<Rightarrow> areturn None | Some h \<Rightarrow>
         (case normalizeHostname h of Inl _ \<Rightarrow> afail (ErrWrapped ErrInvalidAppUpdate ''hostname'') | Inr n \<Rightarrow> areturn (Some n))) (\<lambda>hostname.
     abind (case UpdApp_Auth input of None \<Rightarrow> areturn None | Some c \<Rightarrow>
         (case normalizeAuthConfig c of Inl _ \<Rightarrow> afail (ErrWrapped ErrInvalidAppUpdate ''auth'') | Inr n \<Rightarrow> areturn (Some n))) (\<lambda>auth.
     abind lockDeploymentUpdates (\<lambda>_.
     abind (atry (storeRun (PatchApp appID (input\<lparr>UpdApp_Hostname := hostname, UpdApp_Auth := auth\<rparr>)))) (\<lambda>r. case r of
       Inl err \<Rightarrow> afail (if errorsIs err ErrAppExists then ErrWrapped err ''hostname is already assigned'' else err)
     | Inr app \<Rightarrow>
         abind (invalidateRuntimeDeployments appID) (\<lambda>_.
         abind (atry (abind activeDeployments writePublication)) (\<lambda>r. case r of
           Inl err \<Rightarrow> afail (ErrWrapped err ''worker update saved but routing refresh failed'')
         | Inr _ \<Rightarrow> areturn app))))))))"

definition cleanupRecord :: "string \<Rightarrow> DeploymentRecord \<Rightarrow> unit act" where
  "cleanupRecord appID r =
     (if App_ID (DepRec_App r) \<noteq> appID then areturn ()
      else abind (cleanupDeploymentObject (DepRec_Deployment r)) (\<lambda>_. cleanupDeploymentAssets (DepRec_Deployment r)))"

definition DeleteApp_svc :: "string \<Rightarrow> unit act" where
  "DeleteApp_svc appID =
     abind lockDeploymentUpdates (\<lambda>_.
     abind (storeGet (\<lambda>s. Inr (ListDeployments s))) (\<lambda>records.
     abind (storeGet (\<lambda>s. Inr (ListApps s))) (\<lambda>candidates.
     abind (aguard (list_ex (\<lambda>a. App_ID a = appID) candidates) ErrAppNotFound) (\<lambda>_.
     abind (storeDo (DeleteApp appID)) (\<lambda>_.
     abind (aeach (cleanupRecord appID) records) (\<lambda>_.
     abind (invalidateRuntimeDeployments appID) (\<lambda>_.
     abind activeDeployments (\<lambda>as.
     abind (atry (writePublication as)) (\<lambda>r. case r of
       Inl err \<Rightarrow> afail (ErrWrapped err ''write generated config'') | Inr _ \<Rightarrow> areturn ())))))))))"

definition validatePreparedPublication :: "string \<Rightarrow> ActiveDeployment list \<Rightarrow> unit act" where
  "validatePreparedPublication appID candidate =
     abind (aenv e_workerValidator) (\<lambda>targets.
       if targets then writerValidate (Some appID) candidate
       else abind (aenv e_validator) (\<lambda>validates.
         if validates then writerValidate None candidate else areturn ()))"

definition hydrateSelected :: "string \<Rightarrow> ActiveDeployment \<Rightarrow> ActiveDeployment act" where
  "hydrateSelected appID item =
     abind (hydrateDeploymentFiles (Active_Deployment item)) (\<lambda>d.
     abind (resolvedSecretValues appID) (\<lambda>values.
       areturn (item\<lparr>Active_Deployment := d, Active_App := (Active_App item)\<lparr>App_SecretValues := values\<rparr>\<rparr>)))"

definition validatePublication :: "string \<Rightarrow> ActiveDeployment list \<Rightarrow> ActiveDeployment list \<Rightarrow> unit act" where
  "validatePublication appID previous selected =
     abind (aenv (\<lambda>e. e_validator e \<or> e_workerValidator e)) (\<lambda>validates.
       if \<not> validates then areturn ()
       else abind (amap (hydrateSelected appID) selected) (\<lambda>items.
         validatePreparedPublication appID (filter (\<lambda>a. App_ID (Active_App a) \<noteq> appID) previous @ items)))"

text \<open>The traffic between a worker's deployments: switched in the repository, validated, published; the
  previous traffic is restored when a step fails.\<close>

definition trimTraffic :: "DeploymentTraffic \<Rightarrow> DeploymentTraffic" where
  "trimTraffic t = t\<lparr>Traffic_ID := trimSpace (Traffic_ID t)\<rparr>"

definition restoreTraffic :: "string \<Rightarrow> DeploymentTraffic list \<Rightarrow> error \<Rightarrow> string \<Rightarrow> unit act" where
  "restoreTraffic appID previous err msg =
     abind (atry (storeDo (SetActiveTraffic appID previous))) (\<lambda>r. case r of
       Inl _ \<Rightarrow> afail (ErrWrapped err msg)
     | Inr _ \<Rightarrow> invalidateRuntimeDeployments appID)"

definition SetDeploymentTraffic :: "string \<Rightarrow> DeploymentTraffic list \<Rightarrow> unit act" where
  "SetDeploymentTraffic appID traffic =
     abind lockDeploymentUpdates (\<lambda>_.
     abind (alift (validateDeploymentTraffic traffic)) (\<lambda>_.
     abind (storeGet (\<lambda>s. Inr (ListApps s))) (\<lambda>candidates.
     abind (aguard (list_ex (\<lambda>a. App_ID a = appID) candidates) ErrAppNotFound) (\<lambda>_.
     abind activeDeployments (\<lambda>_.
     abind activeDeployments (\<lambda>previous.
       let previousTraffic = activeTrafficForApp previous appID in
       abind (storeDo (SetActiveTraffic appID (map trimTraffic traffic))) (\<lambda>_.
       abind (invalidateRuntimeDeployments appID) (\<lambda>_.
       abind (atry activeDeployments) (\<lambda>r. case r of
         Inl err \<Rightarrow> abind (ignored (storeDo (SetActiveTraffic appID previousTraffic))) (\<lambda>_.
             abind (invalidateRuntimeDeployments appID) (\<lambda>_. afail err))
       | Inr as \<Rightarrow>
           abind (atry (validatePreparedPublication appID as)) (\<lambda>r. case r of
             Inl err \<Rightarrow> abind (restoreTraffic appID previousTraffic err ''validate traffic; restore traffic'') (\<lambda>_.
                 afail (ErrWrapped err ''validate traffic''))
           | Inr _ \<Rightarrow>
               abind (atry (writePublication as)) (\<lambda>r. case r of
                 Inr _ \<Rightarrow> areturn ()
               | Inl err \<Rightarrow> abind (restoreTraffic appID previousTraffic err ''publish; restore traffic'') (\<lambda>_.
                   abind (atry (publishActiveDeployments appID)) (\<lambda>r. case r of
                     Inl _ \<Rightarrow> afail (ErrWrapped err ''publish; restore runtime'')
                   | Inr _ \<Rightarrow> afail (ErrWrapped err ''write generated config''))))))))))))))"

end
