(* ===== verification/Vars_Updates.thy ===== *)
theory Vars_Updates
  imports Worker_Service
begin

text \<open>
  Changing the variables of a running worker, in \<open>vars.go\<close>, and the recovery of pending changes in
  \<open>worker_publication.go\<close>: a new deployment with the other variables replaces the one that receives all
  traffic, in one step of the repository that also records the operation; the operation is then
  published and marked as succeeded, or rolled back.
\<close>

section \<open>The request\<close>

fun canonicalVars :: "serviceEnv \<Rightarrow> (string, string) gomap \<Rightarrow> (string \<times> string) list \<Rightarrow> (string, string) gomap result" where
  "canonicalVars e vars [] = Inr vars"
| "canonicalVars e vars ((name, raw) # rest) =
     (case e_canonicalVar e raw of
        Inl _ \<Rightarrow> Inl (ErrWrapped ErrInvalidVarsUpdate ''vars'')
      | Inr value \<Rightarrow> canonicalVars e (mput name value vars) rest)"

definition normalizeVarsUpdate :: "serviceEnv \<Rightarrow> UpdateVarsInput \<Rightarrow> (UpdateVarsInput \<times> string) result" where
  "normalizeVarsUpdate e raw =
     (let expected = trimSpace (UpdVars_ExpectedDeploymentID raw); key = trimSpace (UpdVars_IdempotencyKey raw);
          message = trimSpace (UpdVars_CommitMessage raw) in
      case UpdVars_Vars raw of
        None \<Rightarrow> Inl (ErrWrapped ErrInvalidVarsUpdate ''limits'')
      | Some vars \<Rightarrow>
          if expected = [] \<or> 256 < length expected \<or> key = [] \<or> 256 < length key \<or> 4096 < length message
          then Inl (ErrWrapped ErrInvalidVarsUpdate ''limits'')
          else case normalizeVars (env_json (e_deploy e)) vars of
              Inl _ \<Rightarrow> Inl (ErrWrapped ErrInvalidVarsUpdate ''vars'')
            | Inr normalized \<Rightarrow>
                rbind (canonicalVars e normalized (mentries normalized)) (\<lambda>canonical.
                  let input = \<lparr>UpdVars_Vars = Some canonical, UpdVars_ExpectedDeploymentID = expected, UpdVars_IdempotencyKey = key,
                    UpdVars_CommitMessage = message, UpdVars_CreatedBy = UpdVars_CreatedBy raw\<rparr> in
                  rbind (e_varsFingerprint e (input\<lparr>UpdVars_CreatedBy := []\<rparr>)) (\<lambda>payload. Inr (input, e_hash e payload))))"

section \<open>Rolling back\<close>

definition rollbackDeployment :: "string \<Rightarrow> DeploymentTraffic list \<Rightarrow> Deployment \<Rightarrow> unit act" where
  "rollbackDeployment appID previousTraffic d =
     abind (atry (abind (storeDo (SetActiveTraffic appID previousTraffic)) (\<lambda>_.
       abind (storeDo (DeleteDeployment (Dep_ID d))) (\<lambda>_.
       abind (cleanupDeploymentObject d) (\<lambda>_.
       abind (cleanupDeploymentAssets d) (\<lambda>_.
       abind activeDeployments (\<lambda>as.
       abind (atry (writePublication as)) (\<lambda>r. case r of
         Inl err \<Rightarrow> afail (ErrWrapped err ''restore generated config'') | Inr _ \<Rightarrow> areturn ())))))))) (\<lambda>r.
     abind (invalidateRuntimeDeployments appID) (\<lambda>_. alift r))"

definition isResult :: "string \<Rightarrow> VarsUpdateOperation \<Rightarrow> DeploymentRecord \<Rightarrow> bool" where
  "isResult appID op r = (Dep_AppID (DepRec_Deployment r) = appID \<and> Dep_ID (DepRec_Deployment r) = VarsRes_ID (VarsOp_Result op))"

text \<open>An interrupted rollback does not overwrite a later deployment or traffic allocation.\<close>

definition revertTraffic :: "VarsUpdateOperation \<Rightarrow> DeploymentTraffic list \<Rightarrow> DeploymentTraffic \<Rightarrow> unit act" where
  "revertTraffic op traffic item =
     (if Traffic_ID item \<noteq> VarsRes_ID (VarsOp_Result op) then areturn ()
      else if length traffic \<noteq> 1 \<or> Traffic_TrafficPercent item \<noteq> 100
      then afail (ErrText ''cannot finish vars rollback while failed revision participates in split traffic'')
      else storeDo (SetActive (VarsOp_AppID op) (VarsRes_BaseDeploymentID (VarsOp_Result op))))"

definition dropResult :: "DeploymentRecord option \<Rightarrow> unit act" where
  "dropResult found = (case found of None \<Rightarrow> areturn ()
     | Some r \<Rightarrow> abind (storeDo (DeleteDeployment (Dep_ID (DepRec_Deployment r)))) (\<lambda>_.
         abind (cleanupDeploymentObject (DepRec_Deployment r)) (\<lambda>_. cleanupDeploymentAssets (DepRec_Deployment r))))"

definition recoverVarsRollback :: "VarsUpdateOperation \<Rightarrow> unit act" where
  "recoverVarsRollback op =
     abind (storeGet (ActiveDeploymentsForApp (VarsOp_AppID op))) (\<lambda>as.
       let traffic = activeTrafficForApp as (VarsOp_AppID op) in
       abind (aeach (revertTraffic op traffic) traffic) (\<lambda>_.
       abind (storeGet (\<lambda>s. Inr (ListDeployments s))) (\<lambda>records.
       abind (dropResult (find (isResult (VarsOp_AppID op) op) records)) (\<lambda>_.
       abind (publishActiveDeployments (VarsOp_AppID op)) (\<lambda>_.
         storeDo (FinishVarsUpdate (VarsOp_AppID op) (VarsOp_Key op) ''failed''))))))"

section \<open>The update\<close>

text \<open>Activation and pending outcome are committed together: a retry reconciles the current configuration and
  never reactivates an old revision.\<close>

definition replayVarsUpdate :: "string \<Rightarrow> VarsUpdateOperation \<Rightarrow> string \<Rightarrow> VarsUpdateResult act" where
  "replayVarsUpdate appID op fingerprint =
     (if VarsOp_Fingerprint op \<noteq> fingerprint then afail ErrIdempotencyConflict
      else if VarsOp_Status op = ''failed'' then afail ErrVarsRolloutFailed
      else if VarsOp_Status op = ''rolling_back''
      then abind (recoverVarsRollback op) (\<lambda>_. afail ErrVarsRolloutFailed)
      else if VarsOp_Status op = ''pending''
      then abind (storeGet (\<lambda>s. Inr (ListDeployments s))) (\<lambda>records.
        if \<not> list_ex (isResult appID op) records
        then abind (publishActiveDeployments appID) (\<lambda>_.
          abind (storeDo (FinishVarsUpdate appID (VarsOp_Key op) ''failed'')) (\<lambda>_. afail ErrVarsRolloutFailed))
        else abind (reconcileDerivedManagement appID (VarsRes_ID (VarsOp_Result op))) (\<lambda>_.
          abind (publishActiveDeployments appID) (\<lambda>_.
          abind (storeDo (FinishVarsUpdate appID (VarsOp_Key op) ''succeeded'')) (\<lambda>_. areturn (VarsOp_Result op)))))
      else areturn (VarsOp_Result op))"

definition checkVars :: "(string, string) gomap \<Rightarrow> ActiveDeployment \<Rightarrow> unit result" where
  "checkVars vars current =
     (let d = Active_Deployment current; values = App_SecretValues (Active_App current) in
      case validateBindingCollisions vars values (Dep_KVNamespaces d) (Dep_Databases d) (Dep_ObjectStorageBuckets d) (Dep_Services d) (Dep_AssetConfig d) of
        Inl _ \<Rightarrow> Inl (ErrWrapped ErrInvalidVarsUpdate ''bindings'')
      | Inr _ \<Rightarrow> (case validateDispatchNameCollisions (Dep_DispatchNamespaces d) vars values of
            Inl _ \<Rightarrow> Inl (ErrWrapped ErrInvalidVarsUpdate ''dispatch'') | Inr _ \<Rightarrow> Inr ()))"

text \<open>The copy of the deployment goes through JSON, which loses nothing but the two fields that are
  restored.\<close>

definition derivedDeployment :: "UpdateVarsInput \<Rightarrow> (string, string) gomap \<Rightarrow> Deployment \<Rightarrow> string \<Rightarrow> time \<Rightarrow> Deployment" where
  "derivedDeployment input vars base token t =
     base\<lparr>Dep_ID := token, Dep_Port := 0, Dep_CreatedAt := t, Dep_CreatedBy := trimSpace (UpdVars_CreatedBy input),
       Dep_CommitMessage := UpdVars_CommitMessage input, Dep_Vars := vars\<rparr>"

definition finishVarsUpdate :: "VarsUpdateOperation \<Rightarrow> DeploymentTraffic list \<Rightarrow> Deployment \<Rightarrow> VarsUpdateResult act" where
  "finishVarsUpdate op traffic next =
     abind (atry (publishActiveDeployments (VarsOp_AppID op))) (\<lambda>r. case r of
       Inl err \<Rightarrow>
         abind (atry (storeDo (FinishVarsUpdate (VarsOp_AppID op) (VarsOp_Key op) ''rolling_back''))) (\<lambda>r. case r of
           Inl _ \<Rightarrow> afail (ErrWrapped err ''publish vars update; save rollback intent'')
         | Inr _ \<Rightarrow> abind (atry (rollbackDeployment (VarsOp_AppID op) traffic next)) (\<lambda>r. case r of
             Inl _ \<Rightarrow> afail (ErrWrapped err ''publish vars update; rollback'')
           | Inr _ \<Rightarrow> abind (atry (storeDo (FinishVarsUpdate (VarsOp_AppID op) (VarsOp_Key op) ''failed''))) (\<lambda>r. case r of
               Inl _ \<Rightarrow> afail (ErrWrapped err ''publish vars update; save failed outcome'')
             | Inr _ \<Rightarrow> afail (ErrWrapped err ''publish vars update''))))
     | Inr _ \<Rightarrow>
         abind (atry (storeDo (FinishVarsUpdate (VarsOp_AppID op) (VarsOp_Key op) ''succeeded''))) (\<lambda>r. case r of
           Inl err \<Rightarrow> afail (ErrWrapped err ''vars update activated; retry the same request to recover its result'')
         | Inr _ \<Rightarrow> areturn (VarsOp_Result op)))"

definition varsOperation :: "string \<Rightarrow> UpdateVarsInput \<Rightarrow> string \<Rightarrow> Deployment \<Rightarrow> Deployment \<Rightarrow> VarsUpdateOperation" where
  "varsOperation appID input fingerprint base d =
     \<lparr>VarsOp_AppID = appID, VarsOp_Key = UpdVars_IdempotencyKey input, VarsOp_Fingerprint = fingerprint, VarsOp_Status = ''pending'',
       VarsOp_Result = \<lparr>VarsRes_ID = Dep_ID d, VarsRes_BaseDeploymentID = Dep_ID base, VarsRes_CommitMessage = Dep_CommitMessage d,
         VarsRes_CreatedBy = Dep_CreatedBy d, VarsRes_CreatedAt = Dep_CreatedAt d\<rparr>\<rparr>"

definition runVarsUpdate :: "UpdateVarsInput \<Rightarrow> VarsUpdateOperation \<Rightarrow> ActiveDeployment list \<Rightarrow> ActiveDeployment \<Rightarrow> Deployment
    \<Rightarrow> VarsUpdateResult act" where
  "runVarsUpdate input op as current d =
     (let appID = VarsOp_AppID op; item = ActiveDeployment0\<lparr>Active_App := Active_App current, Active_Deployment := d\<rparr> in
      abind (freezeArtifact current None) (\<lambda>base.
      abind (freezeArtifact item (Some base)) (\<lambda>_.
      abind (atry (validatePublication appID as [item\<lparr>Active_TrafficPercent := 100\<rparr>])) (\<lambda>r. case r of
        Inl err \<Rightarrow> afail (ErrWrapped err ''validate publication'')
      | Inr _ \<Rightarrow>
          abind (storeDo (BeginVarsUpdate op d (UpdVars_ExpectedDeploymentID input))) (\<lambda>_.
          abind (reconcileDerivedManagement appID (Dep_ID d)) (\<lambda>_.
            finishVarsUpdate op (activeTrafficForApp as appID) d))))))"

definition startVarsUpdate :: "string \<Rightarrow> UpdateVarsInput \<Rightarrow> (string, string) gomap \<Rightarrow> string \<Rightarrow> VarsUpdateResult act" where
  "startVarsUpdate appID input vars fingerprint =
     abind activeDeployments (\<lambda>as.
     abind (aguard (map (\<lambda>t. (Traffic_ID t, Traffic_TrafficPercent t)) (activeTrafficForApp as appID)
         = [(UpdVars_ExpectedDeploymentID input, 100)]) ErrDeploymentConflict) (\<lambda>_.
     abind (case activeForApp as appID of None \<Rightarrow> afail ErrDeploymentConflict | Some a \<Rightarrow> areturn a) (\<lambda>current.
     abind (alift (checkVars vars current)) (\<lambda>_.
     abind randomToken (\<lambda>token.
     abind anow (\<lambda>t.
       let d = derivedDeployment input vars (Active_Deployment current) token t in
       runVarsUpdate input (varsOperation appID input fingerprint (Active_Deployment current) d) as current d))))))"

definition UpdateVarsForOrg :: "string \<Rightarrow> string \<Rightarrow> UpdateVarsInput \<Rightarrow> VarsUpdateResult act" where
  "UpdateVarsForOrg org appID raw =
     abind (storeGet (appForOrg org appID)) (\<lambda>_.
     abind (aenv (\<lambda>e. normalizeVarsUpdate e raw)) (\<lambda>n.
     abind (alift n) (\<lambda>(input, fingerprint).
     abind lockDeploymentUpdates (\<lambda>_.
     abind (storeGet (appForOrg org appID)) (\<lambda>_.
     abind (storeGet (\<lambda>s. Inr (VarsUpdate appID (UpdVars_IdempotencyKey input) s))) (\<lambda>found. case found of
       Some op \<Rightarrow> replayVarsUpdate appID op fingerprint
     | None \<Rightarrow> startVarsUpdate appID input (case UpdVars_Vars input of None \<Rightarrow> mempty | Some vars \<Rightarrow> vars) fingerprint))))))"

section \<open>Recovery\<close>

definition recoverRollback :: "VarsUpdateOperation \<Rightarrow> unit act" where
  "recoverRollback op = (if VarsOp_Status op = ''rolling_back'' then recoverVarsRollback op else areturn ())"

definition recoverPending :: "DeploymentRecord list \<Rightarrow> VarsUpdateOperation \<Rightarrow> unit act" where
  "recoverPending records op =
     (if VarsOp_Status op \<noteq> ''pending'' then areturn ()
      else let retained = list_ex (isResult (VarsOp_AppID op) op) records in
        abind (if retained then reconcileDerivedManagement (VarsOp_AppID op) (VarsRes_ID (VarsOp_Result op)) else areturn ()) (\<lambda>_.
          storeDo (FinishVarsUpdate (VarsOp_AppID op) (VarsOp_Key op) (if retained then ''succeeded'' else ''failed''))))"

definition recoverPendingVarsLocked :: "unit act" where
  "recoverPendingVarsLocked =
     abind (storeGet (\<lambda>s. Inr (PendingVarsUpdates s))) (\<lambda>pending.
     abind (aeach recoverRollback pending) (\<lambda>_.
     abind (storeGet (\<lambda>s. Inr (ListDeployments s))) (\<lambda>records. aeach (recoverPending records) pending)))"

text \<open>A runner that lost its state gets everything again, under the guard of all publications.\<close>

definition ReconcileRuntime :: "unit act" where
  "ReconcileRuntime =
     abind lockDeploymentUpdates (\<lambda>_.
     abind recoverPublicationsLocked (\<lambda>_.
     abind recoverPendingVarsLocked (\<lambda>_.
     abind activeDeployments (\<lambda>as.
     abind (writePublication as) (\<lambda>_.
       aeach (\<lambda>item. invalidateRuntimeDeployments (App_ID (Active_App item))) as)))))"

end
