(* ===== verification/Runtime_Authority.thy ===== *)
theory Runtime_Authority
  imports Artifacts
begin

text \<open>
  What a credential of the runtime may do: \<open>runtime_capability.go\<close>, the methods of \<open>dispatch.go\<close> around
  its critical sections, and the service half of \<open>execution.go\<close>. A credential is a capability signed
  with the worker's root key (\<open>nfc1.\<close>), the token of an invocation (\<open>nfi1.\<close>), which is worth what the
  credential of its caller is worth, or the token of an admitted execution (\<open>nfexec_\<close>).
\<close>

section \<open>Kinds\<close>

definition RuntimeOutbound :: string where "RuntimeOutbound = ''outbound''"
definition RuntimeAssets :: string where "RuntimeAssets = ''assets''"
definition RuntimeDurations :: string where "RuntimeDurations = ''durations''"
definition RuntimeLogs :: string where "RuntimeLogs = ''logs''"
definition RuntimeAccess :: string where "RuntimeAccess = ''access''"
definition RuntimeDispatch :: string where "RuntimeDispatch = ''dispatch''"
definition RuntimeServiceDispatch :: string where "RuntimeServiceDispatch = ''service-dispatch''"
definition runtimeCapabilityPrefix :: string where "runtimeCapabilityPrefix = ''nfc1.''"
definition invocationCapabilityPrefix :: string where "invocationCapabilityPrefix = ''nfi1.''"

lemmas runtime_kinds = RuntimeKV_def RuntimeDatabase_def RuntimeObjects_def RuntimeOutbound_def RuntimeAssets_def
  RuntimeDurations_def RuntimeLogs_def RuntimeAccess_def RuntimeDispatch_def RuntimeServiceDispatch_def

definition isRevisionCapability :: "string \<Rightarrow> bool" where
  "isRevisionCapability token \<longleftrightarrow> hasPrefix token ''nfexec_'' \<or> hasPrefix token ''nfgrant_''
     \<or> hasPrefix token runtimeCapabilityPrefix \<or> hasPrefix token invocationCapabilityPrefix"

section \<open>Sections of the registry and of dispatch\<close>

text \<open>Each critical section runs at the time it starts.\<close>

definition executionsGet :: "(time \<Rightarrow> ExecutionRegistry \<Rightarrow> 'a result) \<Rightarrow> 'a act" where
  "executionsGet f = (\<lambda>e w. (f (e_clock e (w_calls w)) (w_executions w), w))"

definition executionsRun :: "(time \<Rightarrow> ExecutionRegistry \<Rightarrow> 'a result \<times> ExecutionRegistry) \<Rightarrow> 'a act" where
  "executionsRun f = (\<lambda>e w. case f (e_clock e (w_calls w)) (w_executions w) of (r, x) \<Rightarrow> (r, w\<lparr>w_executions := x\<rparr>))"

definition dispatchRun :: "(time \<Rightarrow> dispatchRuntime \<Rightarrow> 'a result \<times> dispatchRuntime) \<Rightarrow> 'a act" where
  "dispatchRun f = (\<lambda>e w. case f (e_clock e (w_calls w)) (w_dispatch w) of (r, rt) \<Rightarrow> (r, w\<lparr>w_dispatch := rt\<rparr>))"

section \<open>Minting a capability\<close>

definition capabilityGrant :: "ActiveDeployment \<Rightarrow> string \<Rightarrow> string \<Rightarrow> RuntimeGrant" where
  "capabilityGrant item kind resourceID = \<lparr>RG_InstanceID = Active_RuntimeInstance item, RG_OrgID = App_OrgID (Active_App item),
     RG_AppID = App_ID (Active_App item), RG_DeploymentID = Dep_ID (Active_Deployment item), RG_Kind = kind,
     RG_ResourceID = resourceID\<rparr>"

definition RuntimeCapability :: "serviceEnv \<Rightarrow> ActiveDeployment \<Rightarrow> string \<Rightarrow> string \<Rightarrow> string" where
  "RuntimeCapability e item kind resourceID =
     (if App_RuntimeToken (Active_App item) = [] \<or> App_ID (Active_App item) = [] \<or> Dep_ID (Active_Deployment item) = [] then []
      else let payload = base64Encode (e_grantJSON e (capabilityGrant item kind resourceID)) in
        runtimeCapabilityPrefix @ payload @ ''.''
          @ base64Encode (e_hmac e (App_RuntimeToken (Active_App item)) (runtimeCapabilityPrefix @ payload)))"

section \<open>What a revision declares\<close>

text \<open>The resource's owner and its id, which the binding must name.\<close>

definition resourceBound :: "App \<Rightarrow> string list \<Rightarrow> (Store \<Rightarrow> (string \<times> string) result) \<Rightarrow> bool act" where
  "resourceBound app ids get = abind (atry (storeGet get)) (\<lambda>r. case r of
       Inl _ \<Rightarrow> areturn False
     | Inr (owner, i) \<Rightarrow> areturn (owner = App_OrgID app \<and> i \<in> set ids))"

definition dispatchBound :: "RuntimePrincipal \<Rightarrow> bool act" where
  "dispatchBound p = abind (aworld (\<lambda>w. disp_enabled (w_dispatch w))) (\<lambda>enabled.
     if \<not> enabled \<or> IsDynamic (Prin_App p) then areturn False
     else abind (atry (storeGet (DispatchNamespaceForOrg (App_OrgID (Prin_App p)) (RG_ResourceID (Prin_Grant p))))) (\<lambda>r. case r of
       Inl _ \<Rightarrow> areturn False
     | Inr ns \<Rightarrow> areturn (DNs_Trust ns = ''trusted''
         \<and> DNs_ID ns \<in> DispBind_NamespaceID ` set (Dep_DispatchNamespaces (Prin_Deployment p)))))"

definition serviceBound :: "RuntimePrincipal \<Rightarrow> bool act" where
  "serviceBound p = abind (aworld (\<lambda>w. disp_enabled (w_dispatch w))) (\<lambda>enabled.
     if \<not> enabled then areturn False
     else abind (atry (storeGet (GetApp (RG_ResourceID (Prin_Grant p))))) (\<lambda>r. case r of
       Inl _ \<Rightarrow> areturn False
     | Inr target \<Rightarrow> areturn (IsDynamic target \<and> ServiceTargetAllowed (Prin_App p) target
         \<and> list_ex (\<lambda>b. SvcBind_WorkerID b = App_ID target \<and> SvcBind_Execution b = ''dynamic'') (Dep_Services (Prin_Deployment p)))))"

definition runtimeBound :: "RuntimePrincipal \<Rightarrow> string \<Rightarrow> bool act" where
  "runtimeBound p kind =
     (let app = Prin_App p; d = Prin_Deployment p; i = RG_ResourceID (Prin_Grant p) in
      if kind = RuntimeDispatch then dispatchBound p
      else if kind = RuntimeServiceDispatch then serviceBound p
      else if kind = RuntimeOutbound then areturn (IsDynamic app \<and> i = [])
      else if kind = RuntimeKV then resourceBound app (map KVBind_ID (Dep_KVNamespaces d))
        (\<lambda>s. rbind (GetKVNamespace i s) (\<lambda>r. Inr (KVNs_OrgID r, KVNs_ID r)))
      else if kind = RuntimeDatabase then resourceBound app (map DBBind_DatabaseID (Dep_Databases d))
        (\<lambda>s. rbind (GetDatabase i s) (\<lambda>r. Inr (DB_OrgID r, DB_ID r)))
      else if kind = RuntimeObjects then resourceBound app (map ObjBind_BucketID (Dep_ObjectStorageBuckets d))
        (\<lambda>s. rbind (GetObjectStorageBucket i s) (\<lambda>r. Inr (Bucket_OrgID r, Bucket_ID r)))
      else if kind = RuntimeAssets then areturn (i = Dep_ID d)
      else if kind = RuntimeAccess then areturn (i = [] \<and> \<not> IsDynamic app)
      else areturn ((kind = RuntimeDurations \<or> kind = RuntimeLogs) \<and> i = []))"

definition isResourceKind :: "string \<Rightarrow> bool" where
  "isResourceKind kind \<longleftrightarrow> kind = RuntimeKV \<or> kind = RuntimeDatabase \<or> kind = RuntimeObjects"

definition authorizeBoundRuntime :: "RuntimePrincipal \<Rightarrow> string \<Rightarrow> RuntimePrincipal act" where
  "authorizeBoundRuntime p kind =
     abind (runtimeBound p kind) (\<lambda>bound.
       if \<not> bound then afail ErrRuntimeGrantDenied
       else if \<not> isResourceKind kind then areturn p
       else abind (atry (storeGet (namespaceResourceAllowed (Prin_App p) kind (RG_ResourceID (Prin_Grant p))))) (\<lambda>r. case r of
         Inl _ \<Rightarrow> afail ErrRuntimeGrantDenied | Inr _ \<Rightarrow> areturn p))"

section \<open>Execution tokens\<close>

definition resourceKindOf :: "string \<Rightarrow> ExecutionResourceKind" where
  "resourceKindOf kind = (if kind = RuntimeKV then ExecutionKV else if kind = RuntimeDatabase then ExecutionDatabase
     else if kind = RuntimeObjects then ExecutionObject else if kind = RuntimeAssets then ExecutionAssets else ExecutionNoKind)"

text \<open>\<open>None\<close> is the answer for other credentials, \<open>(ActiveDeployment{}, false, nil)\<close>.\<close>

definition executionAuthorization :: "string \<Rightarrow> ExecutionResourceKind \<Rightarrow> string \<Rightarrow> time \<Rightarrow> ExecutionRegistry
    \<Rightarrow> ActiveDeployment option result" where
  "executionAuthorization token kind resourceID now r =
     (if hasPrefix token ''nfgrant_'' then Inl ErrInvalidCapability
      else if \<not> hasPrefix token ''nfexec_'' then Inr None
      else map_sum id Some (Authorize token kind resourceID now r))"

definition executionActive :: "string \<Rightarrow> string \<Rightarrow> string \<Rightarrow> ActiveDeployment act" where
  "executionActive token kind resourceID = executionsGet (\<lambda>now r.
     if resourceKindOf kind \<noteq> ExecutionNoKind
     then rbind (executionAuthorization token (resourceKindOf kind) resourceID now r) (\<lambda>a.
       Inr (case a of None \<Rightarrow> ActiveDeployment0 | Some item \<Rightarrow> item))
     else AuthorizeInternal token now r)"

definition authorizeExecution :: "string \<Rightarrow> string \<Rightarrow> string \<Rightarrow> RuntimePrincipal act" where
  "authorizeExecution token kind resourceID =
     abind (executionActive token kind resourceID) (\<lambda>active.
       authorizeBoundRuntime \<lparr>Prin_Grant = capabilityGrant active kind resourceID, Prin_App = Active_App active,
         Prin_Deployment = Active_Deployment active\<rparr> kind)"

section \<open>Capabilities\<close>

text \<open>\<open>strings.Cut(s, ".")\<close>.\<close>

definition cutDot :: "string \<Rightarrow> (string \<times> string) option" where
  "cutDot s = (if CHR ''.'' \<in> set s
     then Some (takeWhile (\<lambda>c. c \<noteq> CHR ''.'') s, tl (dropWhile (\<lambda>c. c \<noteq> CHR ''.'') s)) else None)"

text \<open>The payload, the grant it encodes and the signature of a well-formed capability.\<close>

definition capabilityParts :: "serviceEnv \<Rightarrow> string \<Rightarrow> (string \<times> RuntimeGrant \<times> string) option" where
  "capabilityParts e token =
     (if length token > 4096 \<or> \<not> hasPrefix token runtimeCapabilityPrefix then None
      else case cutDot (trimPrefix token runtimeCapabilityPrefix) of
          None \<Rightarrow> None
        | Some (payload, signature) \<Rightarrow>
            (case base64Decode payload of
               None \<Rightarrow> None
             | Some d \<Rightarrow> (case e_grantOf e d of
                   None \<Rightarrow> None
                 | Some grant \<Rightarrow> if RG_AppID grant = [] \<or> RG_DeploymentID grant = [] then None
                     else Some (payload, grant, signature))))"

definition signedWith :: "serviceEnv \<Rightarrow> string \<Rightarrow> string \<Rightarrow> string \<Rightarrow> bool" where
  "signedWith e key payload signature \<longleftrightarrow>
     base64Decode signature = Some (e_hmac e key (runtimeCapabilityPrefix @ payload))"

text \<open>The stored revision, or what its artifact froze.\<close>

definition grantedDeployment :: "App \<Rightarrow> RuntimeGrant \<Rightarrow> Deployment act" where
  "grantedDeployment app grant =
     abind (atry (storeGet (GetRuntimeDeployment (App_ID app) (RG_DeploymentID grant)))) (\<lambda>stored.
     abind (atry (storeGet (GetDeploymentArtifact (App_ID app) (RG_DeploymentID grant)))) (\<lambda>artifact.
       case artifact of
         Inl err \<Rightarrow> if \<not> errorsIs err ErrArtifactNotFound then afail err
           else (case stored of Inl _ \<Rightarrow> afail ErrRuntimeGrantDenied | Inr d \<Rightarrow> areturn d)
       | Inr a \<Rightarrow> (case stored of Inl _ \<Rightarrow> afail ErrRuntimeGrantDenied | Inr _ \<Rightarrow> areturn (Art_Deployment a))))"

definition runnerAnswer :: "(nat \<Rightarrow> bool result) \<Rightarrow> bool act" where
  "runnerAnswer f = (\<lambda>e w. (f (w_calls w), atick w))"

definition deploymentLive :: "App \<Rightarrow> Deployment \<Rightarrow> RuntimeGrant \<Rightarrow> bool act" where
  "deploymentLive app d grant =
     abind (aenv (\<lambda>e. (e_live e, e_instance e))) (\<lambda>(live, runs).
       if RG_InstanceID grant \<noteq> []
       then (case runs of None \<Rightarrow> afail ErrRuntimeGrantDenied
             | Some f \<Rightarrow> runnerAnswer (\<lambda>n. f n (App_ID app) (Dep_ID d) (RG_InstanceID grant)))
       else (case live of
           Some f \<Rightarrow> runnerAnswer (\<lambda>n. f n (App_ID app) (Dep_ID d))
         | None \<Rightarrow> abind (storeGet (ActiveDeploymentsForApp (App_ID app))) (\<lambda>as.
             areturn (list_ex (\<lambda>a. Dep_ID (Active_Deployment a) = Dep_ID d) as))))"

definition authorizeCapability :: "string \<Rightarrow> string \<Rightarrow> string \<Rightarrow> RuntimePrincipal act" where
  "authorizeCapability token kind resourceID =
     abind (aenv (\<lambda>e. (e, capabilityParts e token))) (\<lambda>(e, parts). case parts of
       None \<Rightarrow> afail ErrInvalidCapability
     | Some (payload, grant, signature) \<Rightarrow>
         abind (atry (storeGet (GetApp (RG_AppID grant)))) (\<lambda>r. case r of
           Inl _ \<Rightarrow> afail ErrInvalidCapability
         | Inr app \<Rightarrow>
             if App_RuntimeToken app = [] \<or> \<not> signedWith e (App_RuntimeToken app) payload signature then afail ErrInvalidCapability
             else if App_OrgID app \<noteq> RG_OrgID grant \<or> RG_Kind grant \<noteq> kind \<or> (resourceID \<noteq> [] \<and> resourceID \<noteq> RG_ResourceID grant)
             then afail ErrRuntimeGrantDenied
             else abind (grantedDeployment app grant) (\<lambda>d.
               abind (deploymentLive app d grant) (\<lambda>live.
                 if \<not> live then afail ErrRuntimeGrantDenied
                 else authorizeBoundRuntime \<lparr>Prin_Grant = grant, Prin_App = app, Prin_Deployment = d\<rparr> kind))))"

section \<open>Invocations\<close>

text \<open>
  An invocation is authorized when its lease is live and the credential of its caller still is
  authorized, which may be an invocation again. The recursion of the source has no bound of its own;
  the fuel is one more than the number of leases, and \<open>None\<close> is a run that is longer.
\<close>

definition authorizeInvocationBy :: "(string \<Rightarrow> string \<Rightarrow> string \<Rightarrow> RuntimePrincipal option act) \<Rightarrow> string \<Rightarrow> RuntimePrincipal option act" where
  "authorizeInvocationBy auth token =
     abind (aworld (\<lambda>w. disp_enabled (w_dispatch w))) (\<lambda>enabled.
     abind (aguard enabled ErrDispatchUnavailable) (\<lambda>_.
     abind (dispatchRun (invocationLocked token)) (\<lambda>lease.
     abind (auth (lse_CallerToken lease) (RG_Kind (lse_Caller lease)) (RG_ResourceID (lse_Caller lease))) (\<lambda>caller.
       case caller of
         None \<Rightarrow> areturn None
       | Some _ \<Rightarrow> abind (storeGet (GetApp (App_ID (Active_App (lse_Target lease))))) (\<lambda>app.
           areturn (Some \<lparr>Prin_Grant = \<lparr>RG_InstanceID = [], RG_OrgID = App_OrgID app, RG_AppID = App_ID app,
               RG_DeploymentID = Dep_ID (Active_Deployment (lse_Target lease)), RG_Kind = [], RG_ResourceID = []\<rparr>,
             Prin_App = app, Prin_Deployment = Active_Deployment (lse_Target lease)\<rparr>))))))"

definition asome :: "'a act \<Rightarrow> 'a option act" where
  "asome m = abind m (\<lambda>a. areturn (Some a))"

definition authorized :: "'b option act \<Rightarrow> ('b \<Rightarrow> 'a option act) \<Rightarrow> 'a option act" where
  "authorized m f = abind m (\<lambda>r. case r of None \<Rightarrow> areturn None | Some p \<Rightarrow> f p)"

primrec authorizeRuntime :: "nat \<Rightarrow> string \<Rightarrow> string \<Rightarrow> string \<Rightarrow> RuntimePrincipal option act" where
  "authorizeRuntime 0 token kind resourceID = areturn None"
| "authorizeRuntime (Suc n) token kind resourceID =
     (if hasPrefix token ''nfexec_'' \<or> hasPrefix token ''nfgrant_'' then asome (authorizeExecution token kind resourceID)
      else if hasPrefix token invocationCapabilityPrefix
      then authorized (authorizeInvocationBy (authorizeRuntime n) token) (\<lambda>p.
        asome (authorizeBoundRuntime (p\<lparr>Prin_Grant := (Prin_Grant p)\<lparr>RG_Kind := kind, RG_ResourceID := resourceID\<rparr>\<rparr>) kind))
      else asome (authorizeCapability token kind resourceID))"

definition chainFuel :: "world \<Rightarrow> nat" where
  "chainFuel w = mlen (disp_leases (w_dispatch w)) + 1"

definition AuthorizeRuntime :: "string \<Rightarrow> string \<Rightarrow> string \<Rightarrow> RuntimePrincipal option act" where
  "AuthorizeRuntime token kind resourceID = (\<lambda>e w. authorizeRuntime (chainFuel w) token kind resourceID e w)"

definition authorizeInvocation :: "string \<Rightarrow> RuntimePrincipal option act" where
  "authorizeInvocation token = (\<lambda>e w. authorizeInvocationBy (authorizeRuntime (chainFuel w)) token e w)"

end
