(* ===== verification/KV_Service.thy ===== *)
theory KV_Service
  imports Runtime_Authority Store_KV
begin

text \<open>
  Key-value data in \<open>service.go\<close>: access with a runtime credential, access to the namespaces of a worker
  or an organization, and the usage limit, whose sums are cached for a second. A method that
  authorizes a credential has an optional result (see \<open>Runtime_Authority\<close>).
\<close>

section \<open>Reads of the repository that may expire values\<close>

definition storeAt :: "(time \<Rightarrow> Store \<Rightarrow> ('a \<times> Store) result) \<Rightarrow> 'a act" where
  "storeAt f = (\<lambda>e w. storeRun (f (e_clock e (w_calls w))) e w)"

definition readAt :: "(time \<Rightarrow> Store \<Rightarrow> ('a \<times> 'b \<times> Store) result) \<Rightarrow> ('a \<times> 'b) act" where
  "readAt f = storeAt (\<lambda>now s. rbind (f now s) (\<lambda>(a, b, s'). Inr ((a, b), s')))"

section \<open>The usage of an organization\<close>

definition kvOrgUsageCacheTTL :: time where
  "kvOrgUsageCacheTTL = second"

definition cachedUsage :: "string \<Rightarrow> time \<Rightarrow> world \<Rightarrow> int option" where
  "cachedUsage orgID now w = (case mget (w_kvOrgUsage w) orgID of
       None \<Rightarrow> None
     | Some entry \<Rightarrow> if now < kvu_expiresAt entry then Some (kvu_size entry) else None)"

definition cacheUsage :: "string \<Rightarrow> orgKVUsageCacheEntry \<Rightarrow> unit act" where
  "cacheUsage orgID entry = (\<lambda>e w. (Inr (), w\<lparr>w_kvOrgUsage := mput orgID entry (w_kvOrgUsage w)\<rparr>))"

definition uncached :: "string \<Rightarrow> bool act" where
  "uncached orgID = aenv (\<lambda>e. e_kvCacheDisabled e \<or> trimSpace orgID = [])"

definition kvStorageBytesByOrg :: "string \<Rightarrow> int act" where
  "kvStorageBytesByOrg orgID =
     abind (uncached orgID) (\<lambda>off.
       if off then storeAt (\<lambda>now s. Inr (KVStorageBytesByOrg orgID now s))
       else abind anow (\<lambda>now. abind (aworld (cachedUsage orgID now)) (\<lambda>cached. case cached of
           Some bytes \<Rightarrow> areturn bytes
         | None \<Rightarrow> abind (storeAt (\<lambda>t s. Inr (KVStorageBytesByOrg orgID t s))) (\<lambda>bytes.
             abind (cacheUsage orgID \<lparr>kvu_size = bytes, kvu_expiresAt = now + kvOrgUsageCacheTTL\<rparr>) (\<lambda>_. areturn bytes)))))"

definition adjustKVOrgUsageCache :: "string \<Rightarrow> int \<Rightarrow> unit act" where
  "adjustKVOrgUsageCache orgID delta =
     abind (uncached orgID) (\<lambda>off.
       if off then areturn ()
       else abind anow (\<lambda>now. abind (aworld (\<lambda>w. mget (w_kvOrgUsage w) orgID)) (\<lambda>entry. case entry of
           None \<Rightarrow> areturn ()
         | Some en \<Rightarrow> cacheUsage orgID \<lparr>kvu_size = (if kvu_size en + delta < 0 then 0 else kvu_size en + delta),
             kvu_expiresAt = now + kvOrgUsageCacheTTL\<rparr>)))"

definition invalidateKVOrgUsageCache :: "string \<Rightarrow> unit act" where
  "invalidateKVOrgUsageCache orgID =
     abind (uncached orgID) (\<lambda>off.
       if off then areturn () else (\<lambda>e w. (Inr (), w\<lparr>w_kvOrgUsage := mdel orgID (w_kvOrgUsage w)\<rparr>)))"

section \<open>The usage limit\<close>

text \<open>The organization that pays, when the write grows the namespace.\<close>

definition enforceKVStorageBytesLimit :: "string \<Rightarrow> int \<Rightarrow> string act" where
  "enforceKVStorageBytesLimit namespaceID delta =
     (if delta \<le> 0 then areturn []
      else abind (storeGet (GetKVNamespace_svc namespaceID)) (\<lambda>n.
        let orgID = trimSpace (KVNs_OrgID n) in
        if orgID = [] then areturn []
        else abind (storeGet (GetOrganization orgID)) (\<lambda>org. case Limit_KVStorageBytes (OrgLimitsForLevel (Org_UsageLevel org)) of
            None \<Rightarrow> areturn orgID
          | Some limit \<Rightarrow> abind (kvStorageBytesByOrg orgID) (\<lambda>current.
              if current + delta > limit then afail (usageByteLimitError (Org_UsageLevel org) ''KV storage'' limit)
              else areturn orgID))))"

definition kvNamespaceOrgID :: "string \<Rightarrow> string act" where
  "kvNamespaceOrgID namespaceID = abind (storeGet (GetKVNamespace_svc namespaceID)) (\<lambda>n. areturn (trimSpace (KVNs_OrgID n)))"

section \<open>Reading and writing\<close>

definition runtimeKVCapability :: "string \<Rightarrow> string \<Rightarrow> string option act" where
  "runtimeKVCapability capability namespaceID =
     (if \<not> isRevisionCapability capability then areturn (Some capability)
      else authorized (AuthorizeRuntime capability RuntimeKV namespaceID) (\<lambda>p. areturn (Some (App_RuntimeToken (Prin_App p)))))"

definition kvValueSize :: "string \<Rightarrow> string \<Rightarrow> string \<Rightarrow> (int \<times> bool) act" where
  "kvValueSize capability namespaceID key =
     abind (aenv e_kvSizer) (\<lambda>sizer.
       if sizer then readAt (KVValueSize capability namespaceID key)
       else abind (readAt (KVGet capability namespaceID key)) (\<lambda>(v, ok). areturn (int (length v), ok)))"

text \<open>Running a write; when it fails, what the cache says of the organization is dropped.\<close>

definition orInvalidate :: "string \<Rightarrow> 'a act \<Rightarrow> 'a act" where
  "orInvalidate orgID m = abind (atry m) (\<lambda>r. case r of
     Inl err \<Rightarrow> abind (invalidateKVOrgUsageCache orgID) (\<lambda>_. afail err) | Inr a \<Rightarrow> areturn a)"

definition putWithinLimit :: "string \<Rightarrow> string \<Rightarrow> string \<Rightarrow> string \<Rightarrow> RuntimeKVPutOptions \<Rightarrow> unit act" where
  "putWithinLimit capability namespaceID key value options =
     abind (kvValueSize capability namespaceID key) (\<lambda>(old, _).
       let delta = int (length value) - old in
       abind (enforceKVStorageBytesLimit namespaceID delta) (\<lambda>orgID.
       abind (aenv e_kvOptimizer) (\<lambda>optimized.
         if optimized
         then abind (orInvalidate orgID (storeRun (KVPutWithSizeDelta capability namespaceID key value [options]))) (\<lambda>applied.
           if applied \<noteq> delta then invalidateKVOrgUsageCache orgID else adjustKVOrgUsageCache orgID applied)
         else abind (orInvalidate orgID (storeDo (KVPut capability namespaceID key value [options]))) (\<lambda>_.
           abind (orInvalidate orgID (storeDo (AdjustKVNamespaceSize namespaceID delta))) (\<lambda>_.
             adjustKVOrgUsageCache orgID delta)))))"

definition deleteWithinLimit :: "string \<Rightarrow> string \<Rightarrow> string \<Rightarrow> unit act" where
  "deleteWithinLimit capability namespaceID key =
     abind (kvValueSize capability namespaceID key) (\<lambda>(old, ok).
     abind (kvNamespaceOrgID namespaceID) (\<lambda>orgID.
     abind (aenv e_kvOptimizer) (\<lambda>optimized.
       if optimized
       then abind (orInvalidate orgID (storeRun (KVDeleteWithSizeDelta capability namespaceID key))) (\<lambda>delta.
         if delta \<noteq> (if ok then - old else 0) then invalidateKVOrgUsageCache orgID else adjustKVOrgUsageCache orgID delta)
       else abind (orInvalidate orgID (storeDo (KVDelete capability namespaceID key))) (\<lambda>_.
         if ok then abind (orInvalidate orgID (storeDo (AdjustKVNamespaceSize namespaceID (- old)))) (\<lambda>_.
           adjustKVOrgUsageCache orgID (- old))
         else areturn ()))))"

definition KVGet_svc :: "string \<Rightarrow> string \<Rightarrow> string \<Rightarrow> (string \<times> bool) option act" where
  "KVGet_svc capability namespaceID key =
     authorized (runtimeKVCapability capability namespaceID) (\<lambda>c. asome (readAt (KVGet c namespaceID key)))"

definition KVPutWithOptions :: "string \<Rightarrow> string \<Rightarrow> string \<Rightarrow> string \<Rightarrow> RuntimeKVPutOptions \<Rightarrow> unit option act" where
  "KVPutWithOptions capability namespaceID key value options =
     authorized (runtimeKVCapability capability namespaceID) (\<lambda>c. asome (putWithinLimit c namespaceID key value options))"

definition KVPut_svc :: "string \<Rightarrow> string \<Rightarrow> string \<Rightarrow> string \<Rightarrow> unit option act" where
  "KVPut_svc capability namespaceID key value = KVPutWithOptions capability namespaceID key value \<lparr>KVPutOpt_Expiration = None\<rparr>"

definition KVListPage_svc :: "string \<Rightarrow> string \<Rightarrow> RuntimeKVListOptions \<Rightarrow> RuntimeKVListResult option act" where
  "KVListPage_svc capability namespaceID options =
     authorized (runtimeKVCapability capability namespaceID) (\<lambda>c. asome (storeAt (KVListPage c namespaceID options)))"

definition KVDelete_svc :: "string \<Rightarrow> string \<Rightarrow> string \<Rightarrow> unit option act" where
  "KVDelete_svc capability namespaceID key =
     authorized (runtimeKVCapability capability namespaceID) (\<lambda>c. asome (deleteWithinLimit c namespaceID key))"

section \<open>Namespaces bound by a worker\<close>

definition workerOf :: "string \<Rightarrow> (App \<times> ActiveDeployment option) act" where
  "workerOf appID =
     abind (storeGet (\<lambda>s. case find (\<lambda>a. App_ID a = appID) (ListApps s) of None \<Rightarrow> Inl ErrAppNotFound | Some app \<Rightarrow> Inr app)) (\<lambda>app.
     abind activeDeployments (\<lambda>as. areturn (app, find (\<lambda>a. App_ID (Active_App a) = appID) as)))"

definition ensureBinds :: "(Deployment \<Rightarrow> bool) \<Rightarrow> error \<Rightarrow> string \<Rightarrow> unit act" where
  "ensureBinds binds err appID = abind (workerOf appID) (\<lambda>(_, running). case running of
     None \<Rightarrow> afail err | Some item \<Rightarrow> aguard (binds (Active_Deployment item)) err)"

definition ensureActiveDeploymentBindsNamespace :: "string \<Rightarrow> string \<Rightarrow> unit act" where
  "ensureActiveDeploymentBindsNamespace appID namespaceID =
     ensureBinds (\<lambda>d. namespaceID \<in> KVBind_ID ` set (Dep_KVNamespaces d)) ErrKVNamespaceNotBound appID"

definition ensureAppAndKVNamespaceInOrg :: "string \<Rightarrow> string \<Rightarrow> string \<Rightarrow> unit act" where
  "ensureAppAndKVNamespaceInOrg orgID appID namespaceID =
     (if trimSpace orgID = [] then areturn ()
      else abind (storeGet (appForOrg orgID appID)) (\<lambda>app.
        abind (storeGet (GetKVNamespaceForOrg orgID namespaceID)) (\<lambda>n.
          aguard (App_OrgID app = KVNs_OrgID n) ErrKVNamespaceNotFound)))"

text \<open>An operation on a namespace that the worker's running revision binds, with the worker's root key.\<close>

definition boundNamespace :: "string \<Rightarrow> string \<Rightarrow> (string \<Rightarrow> 'a act) \<Rightarrow> 'a act" where
  "boundNamespace appID namespaceID f =
     abind (workerOf appID) (\<lambda>(app, _).
     abind (ensureActiveDeploymentBindsNamespace appID namespaceID) (\<lambda>_. f (App_RuntimeToken app)))"

definition WorkerKVList :: "string \<Rightarrow> string \<Rightarrow> WorkerKVKey list act" where
  "WorkerKVList appID namespaceID = boundNamespace appID namespaceID (\<lambda>c. storeAt (KVList c namespaceID))"

definition WorkerKVGet :: "string \<Rightarrow> string \<Rightarrow> string \<Rightarrow> (string \<times> bool) act" where
  "WorkerKVGet appID namespaceID key = boundNamespace appID namespaceID (\<lambda>c. readAt (KVGet c namespaceID key))"

definition WorkerKVPut :: "string \<Rightarrow> string \<Rightarrow> string \<Rightarrow> string \<Rightarrow> unit option act" where
  "WorkerKVPut appID namespaceID key value = boundNamespace appID namespaceID (\<lambda>c. KVPut_svc c namespaceID key value)"

definition WorkerKVDelete :: "string \<Rightarrow> string \<Rightarrow> string \<Rightarrow> unit option act" where
  "WorkerKVDelete appID namespaceID key = boundNamespace appID namespaceID (\<lambda>c. KVDelete_svc c namespaceID key)"

definition WorkerKVListForOrg :: "string \<Rightarrow> string \<Rightarrow> string \<Rightarrow> WorkerKVKey list act" where
  "WorkerKVListForOrg orgID appID namespaceID =
     abind (ensureAppAndKVNamespaceInOrg orgID appID namespaceID) (\<lambda>_. WorkerKVList appID namespaceID)"

definition WorkerKVGetForOrg :: "string \<Rightarrow> string \<Rightarrow> string \<Rightarrow> string \<Rightarrow> (string \<times> bool) act" where
  "WorkerKVGetForOrg orgID appID namespaceID key =
     abind (ensureAppAndKVNamespaceInOrg orgID appID namespaceID) (\<lambda>_. WorkerKVGet appID namespaceID key)"

definition WorkerKVPutForOrg :: "string \<Rightarrow> string \<Rightarrow> string \<Rightarrow> string \<Rightarrow> string \<Rightarrow> unit option act" where
  "WorkerKVPutForOrg orgID appID namespaceID key value =
     abind (ensureAppAndKVNamespaceInOrg orgID appID namespaceID) (\<lambda>_. WorkerKVPut appID namespaceID key value)"

definition WorkerKVDeleteForOrg :: "string \<Rightarrow> string \<Rightarrow> string \<Rightarrow> string \<Rightarrow> unit option act" where
  "WorkerKVDeleteForOrg orgID appID namespaceID key =
     abind (ensureAppAndKVNamespaceInOrg orgID appID namespaceID) (\<lambda>_. WorkerKVDelete appID namespaceID key)"

section \<open>Namespaces of an organization\<close>

definition ownedNamespace :: "string \<Rightarrow> string \<Rightarrow> 'a act \<Rightarrow> 'a act" where
  "ownedNamespace orgID namespaceID m = abind (storeGet (GetKVNamespaceForOrg orgID namespaceID)) (\<lambda>_. m)"

definition KVNamespaceListForOrg :: "string \<Rightarrow> string \<Rightarrow> WorkerKVKey list act" where
  "KVNamespaceListForOrg orgID namespaceID = ownedNamespace orgID namespaceID (storeAt (KVList [] namespaceID))"

definition KVNamespaceGetForOrg :: "string \<Rightarrow> string \<Rightarrow> string \<Rightarrow> (string \<times> bool) act" where
  "KVNamespaceGetForOrg orgID namespaceID key = ownedNamespace orgID namespaceID (readAt (KVGet [] namespaceID key))"

definition KVNamespacePutForOrg :: "string \<Rightarrow> string \<Rightarrow> string \<Rightarrow> string \<Rightarrow> unit option act" where
  "KVNamespacePutForOrg orgID namespaceID key value = ownedNamespace orgID namespaceID (KVPut_svc [] namespaceID key value)"

definition KVNamespaceDeleteForOrg :: "string \<Rightarrow> string \<Rightarrow> string \<Rightarrow> unit option act" where
  "KVNamespaceDeleteForOrg orgID namespaceID key = ownedNamespace orgID namespaceID (KVDelete_svc [] namespaceID key)"

definition KVNamespaceMetricsForOrg :: "string \<Rightarrow> string \<Rightarrow> KVNamespaceMetrics act" where
  "KVNamespaceMetricsForOrg orgID namespaceID = ownedNamespace orgID namespaceID (storeAt (getKVNamespaceMetrics namespaceID))"

definition RecordRuntimeKVRead :: "string \<Rightarrow> unit act" where
  "RecordRuntimeKVRead namespaceID = storeDo (IncrementKVNamespaceReads namespaceID)"

definition RecordRuntimeKVWrite :: "string \<Rightarrow> unit act" where
  "RecordRuntimeKVWrite namespaceID = storeDo (IncrementKVNamespaceWrites namespaceID)"

end
