(* ===== verification/Authority_Frame.thy ===== *)
theory Authority_Frame
  imports Runtime_Authority
begin

text \<open>
  What authorization leaves alone: a part of the world that neither the number of calls, nor the
  execution registry, nor the dispatch runtime is in, is kept by every check of a credential.
\<close>

locale authorization_frame =
  fixes part :: "world \<Rightarrow> 'b"
  assumes part_tick: "part (atick w) = part w"
    and part_executions: "part (w\<lparr>w_executions := r\<rparr>) = part w"
    and part_dispatch: "part (w\<lparr>w_dispatch := d\<rparr>) = part w"
begin

lemma calls [keeps_rules]: "keeps part (storeGet f)" "keeps part (objectsGet a k)" "keeps part (runnerAnswer g)" "keeps part (executionsGet h)"
  "keeps part (dispatchRun k')" "keeps part (aworld u)" "keeps part (aenv g')"
  by (auto simp: keeps_def storeGet_def objectsGet_def external_def runnerAnswer_def executionsGet_def dispatchRun_def aworld_def aenv_def
      part_tick part_dispatch split: fault.split prod.split)

lemma bound [keeps_rules]: "keeps part (runtimeBound p kind)"
  unfolding runtimeBound_def resourceBound_def dispatchBound_def serviceBound_def Let_def
  by (intro keeps_rules)

lemma authorizeBound [keeps_rules]: "keeps part (authorizeBoundRuntime p kind)"
  unfolding authorizeBoundRuntime_def by (intro keeps_rules)

lemma credentials [keeps_rules]: "keeps part (authorizeExecution token kind i)" "keeps part (authorizeCapability token kind i)"
  unfolding authorizeExecution_def executionActive_def authorizeCapability_def grantedDeployment_def deploymentLive_def
  by (intro keeps_rules)+

lemma both [keeps_rules]: "keeps part m \<Longrightarrow> (\<And>p. keeps part (f p)) \<Longrightarrow> keeps part (authorized m f)"
  unfolding authorized_def by (intro keeps_rules)

lemma some [keeps_rules]: "keeps part m \<Longrightarrow> keeps part (asome m)"
  unfolding asome_def by (intro keeps_rules)

lemma fuelled [keeps_rules]: "keeps part (authorizeRuntime n token kind i)"
  by (induction n arbitrary: token kind i)
    (simp_all only: authorizeRuntime.simps authorizeInvocationBy_def asome_def, (intro keeps_rules | assumption)+)

lemma checked [keeps_rules]: "keeps part (AuthorizeRuntime token kind i)"
  using fuelled unfolding keeps_def AuthorizeRuntime_def by blast

lemma hydrated [keeps_rules]: "keeps part activeDeployments"
  unfolding activeDeployments_def hydrateArtifact_def hydrateDeploymentFiles_def artifactSecretValues_def resolvedSecretValues_def
    managedLatestArtifact_def
  by (intro keeps_rules)

end

end
