(* ===== verification/Action_Runs.thy ===== *)
theory Action_Runs
  imports Service_World
begin

text \<open>
  How the proofs about actions go: what a successful run did (\<open>success_rules\<close>), and triples that also
  say what is left behind by a run that fails (\<open>runs\<close>).
\<close>

section \<open>Successful runs\<close>

named_theorems success_rules "when an action returns a value"

lemma abind_success [success_rules]:
  "abind m f e w = (Inr b, w') \<longleftrightarrow> (\<exists>a v. m e w = (Inr a, v) \<and> f a e v = (Inr b, w'))"
  by (auto simp: abind_def split: prod.split sum.split prod.splits sum.splits)

lemma basic_success [success_rules]:
  "areturn a e w = (Inr b, w') \<longleftrightarrow> b = a \<and> w' = w"
  "afail er e w = (Inr b, w') \<longleftrightarrow> False"
  "alift r e w = (Inr b, w') \<longleftrightarrow> r = Inr b \<and> w' = w"
  "aguard ok er e w = (Inr u, w') \<longleftrightarrow> ok \<and> w' = w"
  "aenv f e w = (Inr x, w') \<longleftrightarrow> x = f e \<and> w' = w"
  "aworld g e w = (Inr y, w') \<longleftrightarrow> y = g w \<and> w' = w"
  by (auto simp: areturn_def afail_def alift_def aguard_def guard_def aenv_def aworld_def split: sum.split)

lemma storeGet_success [success_rules]:
  "storeGet f e w = (Inr a, w') \<longleftrightarrow> e_faults e (w_calls w) = NoFault \<and> f (w_store w) = Inr a \<and> w' = atick w"
  by (auto simp: storeGet_def external_def atick_def split: fault.split)

lemma case_success [success_rules]:
  "(case r of Inl x \<Rightarrow> f x | Inr y \<Rightarrow> g y) e w = (Inr b, w')
    \<longleftrightarrow> (\<exists>x. r = Inl x \<and> f x e w = (Inr b, w')) \<or> (\<exists>y. r = Inr y \<and> g y e w = (Inr b, w'))"
  "(case opt of None \<Rightarrow> m | Some z \<Rightarrow> h z) e w = (Inr b, w')
    \<longleftrightarrow> (opt = None \<and> m e w = (Inr b, w')) \<or> (\<exists>z. opt = Some z \<and> h z e w = (Inr b, w'))"
  "(case pair of (u, v) \<Rightarrow> k u v) e w = (Inr b, w') \<longleftrightarrow> (\<exists>u v. pair = (u, v) \<and> k u v e w = (Inr b, w'))"
  "(if ok then m else n) e w = (Inr b, w') \<longleftrightarrow> (if ok then m e w = (Inr b, w') else n e w = (Inr b, w'))"
  by (cases r; cases opt; cases pair; simp)+

text \<open>Every try succeeds; when its value is one of success, so did the call.\<close>

lemma atry_run: "atry m e w = (r, w') \<longleftrightarrow> (\<exists>x. r = Inr x \<and> m e w = (x, w'))"
  by (auto simp: atry_def split: prod.split)

section \<open>Runs in one environment\<close>

text \<open>\<open>runs e P m Q R\<close>: from a world in \<open>P\<close> the action ends in \<open>Q\<close> with a value or in \<open>R\<close> with an error.\<close>

definition runs :: "serviceEnv \<Rightarrow> (world \<Rightarrow> bool) \<Rightarrow> 'a act \<Rightarrow> ('a \<Rightarrow> world \<Rightarrow> bool) \<Rightarrow> (world \<Rightarrow> bool) \<Rightarrow> bool" where
  "runs e P m Q R \<longleftrightarrow> (\<forall>w. P w \<longrightarrow> (case m e w of (Inl _, w') \<Rightarrow> R w' | (Inr a, w') \<Rightarrow> Q a w'))"

named_theorems runs_rules "rules for runs in one environment"

lemma runsD: "runs e P m Q R \<Longrightarrow> P w \<Longrightarrow> case m e w of (Inl _, w') \<Rightarrow> R w' | (Inr a, w') \<Rightarrow> Q a w'"
  by (simp add: runs_def)

lemma runs_bind:
  assumes "runs e P m Q R" "\<And>a. runs e (Q a) (f a) S R"
  shows "runs e P (abind m f) S R"
  unfolding runs_def
proof (intro allI impI)
  fix w assume P: "P w"
  obtain r v where m: "m e w = (r, v)" by (cases "m e w")
  note post = runsD[OF assms(1) P, unfolded m]
  show "case abind m f e w of (Inl _, w') \<Rightarrow> R w' | (Inr a, w') \<Rightarrow> S a w'"
  proof (cases r)
    case (Inr a)
    then have "Q a v" using post by simp
    from runsD[OF assms(2) this] show ?thesis using m Inr by (simp add: abind_def)
  qed (use post m in \<open>simp add: abind_def\<close>)
qed

lemma runs_try:
  assumes "runs e P m Q R'"
  shows "runs e P (atry m) (\<lambda>r w. case r of Inl _ \<Rightarrow> R' w | Inr a \<Rightarrow> Q a w) R"
  using assms unfolding runs_def atry_def by (auto split: prod.splits sum.splits)

lemma runs_conseq:
  assumes "runs e P m Q R" "\<And>w. P' w \<Longrightarrow> P w" "\<And>a w. Q a w \<Longrightarrow> Q' a w" "\<And>w. R w \<Longrightarrow> R' w"
  shows "runs e P' m Q' R'"
  unfolding runs_def
proof (intro allI impI)
  fix w assume "P' w"
  from runsD[OF assms(1) assms(2)[OF this]] show "case m e w of (Inl _, w') \<Rightarrow> R' w' | (Inr a, w') \<Rightarrow> Q' a w'"
    using assms(3,4) by (auto split: prod.splits sum.splits)
qed

lemma runs_pre: "runs e P m Q R \<Longrightarrow> (\<And>w. P' w \<Longrightarrow> P w) \<Longrightarrow> runs e P' m Q R"
  by (rule runs_conseq)

lemma runs_basic:
  "runs e (Q a) (areturn a) Q R" "runs e R (afail er) Q' R"
  "runs e (\<lambda>w. Q3 (f e) w) (aenv f) Q3 R"
  by (simp_all add: runs_def aenv_def)

text \<open>A read of the world whose result the rest may know.\<close>

lemma runs_read:
  "runs e P (aworld g) (\<lambda>x w. P w \<and> x = g w) R" "runs e P anow (\<lambda>t w. P w \<and> t = e_clock e (w_calls w)) R"
  by (simp_all add: runs_def aworld_def anow_def)

lemma runs_storeGet:
  assumes "\<And>w. P w \<Longrightarrow> P (atick w)"
  shows "runs e P (storeGet f) (\<lambda>a w. P w \<and> f (w_store w) = Inr a) P"
  using assms unfolding runs_def storeGet_def external_def
  by (auto split: fault.split sum.split prod.split simp: atick_def)

lemma runs_storeGet_weak:
  assumes "\<And>w. P w \<Longrightarrow> P (atick w)" "\<And>w. P w \<Longrightarrow> R w"
  shows "runs e P (storeGet f) (\<lambda>a w. P w \<and> f (w_store w) = Inr a) R"
  by (rule runs_conseq[OF runs_storeGet[of P]]) (simp_all add: assms)

lemma runs_storeRun:
  assumes "\<And>w. P w \<Longrightarrow> R (atick w)"
    and "\<And>w a s'. P w \<Longrightarrow> f (w_store w) = Inr (a, s') \<Longrightarrow> Q a ((atick w)\<lparr>w_store := s'\<rparr>) \<and> R ((atick w)\<lparr>w_store := s'\<rparr>)"
  shows "runs e P (storeRun f) Q R"
  using assms unfolding runs_def storeRun_def external_def
  by (auto split: fault.split sum.split prod.split simp: atick_def)

lemma runs_if: "(b \<Longrightarrow> runs e P m Q R) \<Longrightarrow> (\<not> b \<Longrightarrow> runs e P n Q R) \<Longrightarrow> runs e P (if b then m else n) Q R"
  by simp

lemma runs_pure: "(\<And>w. P w \<Longrightarrow> b) \<Longrightarrow> (b \<Longrightarrow> runs e P m Q R) \<Longrightarrow> runs e P m Q R"
  by (auto simp: runs_def)

lemma runs_return: "(\<And>w. P w \<Longrightarrow> Q a w) \<Longrightarrow> runs e P (areturn a) Q R" "(\<And>w. P w \<Longrightarrow> R w) \<Longrightarrow> runs e P (afail er) Q' R"
  by (simp_all add: runs_def)

lemma runs_keeps:
  assumes "keeps f m" "\<And>w w'. f w' = f w \<Longrightarrow> I w \<Longrightarrow> I w'"
  shows "runs e I m (\<lambda>_. I) I"
  unfolding runs_def
proof (intro allI impI)
  fix w assume w: "I w"
  have "I (snd (m e w))" by (rule assms(2)[OF _ w]) (use assms(1) in \<open>simp add: keeps_def\<close>)
  then show "case m e w of (Inl _, w') \<Rightarrow> I w' | (Inr a, w') \<Rightarrow> I w'" by (auto split: prod.split sum.split)
qed

section \<open>Triples over the repository\<close>

text \<open>\<open>sruns e P m Q R\<close>: the same, for conditions on the store.\<close>

definition sruns :: "serviceEnv \<Rightarrow> (Store \<Rightarrow> bool) \<Rightarrow> 'a act \<Rightarrow> ('a \<Rightarrow> Store \<Rightarrow> bool) \<Rightarrow> (Store \<Rightarrow> bool) \<Rightarrow> bool" where
  "sruns e P m Q R \<longleftrightarrow> runs e (\<lambda>w. P (w_store w)) m (\<lambda>a w. Q a (w_store w)) (\<lambda>w. R (w_store w))"

lemma srunsD: "sruns e P m Q R \<Longrightarrow> P (w_store w) \<Longrightarrow> case m e w of (Inl _, w') \<Rightarrow> R (w_store w') | (Inr a, w') \<Rightarrow> Q a (w_store w')"
  unfolding sruns_def by (rule runsD)

lemma sruns_bind: "sruns e P m Q R \<Longrightarrow> (\<And>a. sruns e (Q a) (f a) S R) \<Longrightarrow> sruns e P (abind m f) S R"
  unfolding sruns_def by (rule runs_bind)

lemma sruns_conseq:
  "sruns e P m Q R \<Longrightarrow> (\<And>s. P' s \<Longrightarrow> P s) \<Longrightarrow> (\<And>a s. Q a s \<Longrightarrow> Q' a s) \<Longrightarrow> (\<And>s. R s \<Longrightarrow> R' s) \<Longrightarrow> sruns e P' m Q' R'"
  unfolding sruns_def by (rule runs_conseq)

lemma sruns_pure: "(\<And>s. P s \<Longrightarrow> b) \<Longrightarrow> (b \<Longrightarrow> sruns e P m Q R) \<Longrightarrow> sruns e P m Q R"
  unfolding sruns_def by (rule runs_pure)

lemma sruns_keeps:
  assumes "keeps w_store m" "\<And>s. P s \<Longrightarrow> R s"
  shows "sruns e P m (\<lambda>_. P) R"
  unfolding sruns_def
  by (rule runs_conseq[OF runs_keeps[OF assms(1), where I = "\<lambda>w. P (w_store w)"]]) (simp_all add: assms(2))

text \<open>Reads, with what their success says of the store.\<close>

lemma sruns_reads:
  assumes "keeps w_store m" "\<And>s. P s \<Longrightarrow> R s" "\<And>(w :: world) a w'. m e w = (Inr a, w') \<Longrightarrow> B a (w_store w)"
  shows "sruns e P m (\<lambda>a s. P s \<and> B a s) R"
  unfolding sruns_def runs_def
proof (intro allI impI)
  fix w :: world assume P: "P (w_store w)"
  obtain r w' where m: "m e w = (r, w')" by (cases "m e w")
  have same: "w_store w' = w_store w" by (rule keepsD[OF assms(1) m])
  show "case m e w of (Inl _, w') \<Rightarrow> R (w_store w') | (Inr a, w') \<Rightarrow> P (w_store w') \<and> B a (w_store w')"
  proof (cases r)
    case (Inr a)
    then show ?thesis using m P assms(3)[of w a w'] same by simp
  qed (use m P assms(2) same in simp)
qed

lemma sruns_get: "(\<And>s. P s \<Longrightarrow> R s) \<Longrightarrow> sruns e P (storeGet f) (\<lambda>a s. P s \<and> f s = Inr a) R"
  unfolding sruns_def by (rule runs_storeGet_weak) (simp_all add: atick_def)

lemma sruns_do:
  assumes "\<And>s. P s \<Longrightarrow> R s" "\<And>s s'. P s \<Longrightarrow> f s = Inr s' \<Longrightarrow> Q () s' \<and> R s'"
  shows "sruns e P (storeDo f) Q R"
  using assms unfolding sruns_def runs_def storeDo_def external_def
  by (auto split: fault.split sum.split prod.split simp: atick_def)

lemma sruns_env: "sruns e P (aenv f) (\<lambda>x s. P s \<and> x = f e) R"
  by (simp add: sruns_def runs_def aenv_def)

lemma sruns_now: "sruns e P anow (\<lambda>_. P) R"
  by (simp add: sruns_def runs_def anow_def)

lemma sruns_token: "(\<And>s. P s \<Longrightarrow> R s) \<Longrightarrow> sruns e P randomToken (\<lambda>t s. P s \<and> (\<exists>k. e_token e k = Inr t)) R"
  by (auto simp: sruns_def runs_def randomToken_def atick_def split: sum.split)

lemma sruns_guard: "(\<And>s. P s \<Longrightarrow> R s) \<Longrightarrow> sruns e P (aguard b er) (\<lambda>_ s. P s \<and> b) R"
  by (cases b) (simp_all add: sruns_def runs_def)

lemma sruns_lift: "(\<And>s. P s \<Longrightarrow> R s) \<Longrightarrow> sruns e P (alift r) (\<lambda>a s. P s \<and> r = Inr a) R"
  by (cases r) (simp_all add: sruns_def runs_def)

lemma sruns_return: "(\<And>s. P s \<Longrightarrow> Q a s) \<Longrightarrow> sruns e P (areturn a) Q R" "(\<And>s. P s \<Longrightarrow> R s) \<Longrightarrow> sruns e P (afail er) Q' R"
  by (simp_all add: sruns_def runs_def)

lemma sruns_try:
  "sruns e P m Q R' \<Longrightarrow> sruns e P (atry m) (\<lambda>r s. case r of Inl _ \<Rightarrow> R' s | Inr a \<Rightarrow> Q a s) R"
  unfolding sruns_def by (rule runs_try)

lemma sruns_sum:
  "(\<And>x. r = Inl x \<Longrightarrow> sruns e P (m x) Q R) \<Longrightarrow> (\<And>y. r = Inr y \<Longrightarrow> sruns e P (n y) Q R) \<Longrightarrow>
     sruns e P (case r of Inl x \<Rightarrow> m x | Inr y \<Rightarrow> n y) Q R"
  by (cases r) simp_all

lemma sruns_if: "(b \<Longrightarrow> sruns e P m Q R) \<Longrightarrow> (\<not> b \<Longrightarrow> sruns e P n Q R) \<Longrightarrow> sruns e P (if b then m else n) Q R"
  by simp

end
