(* ===== verification/Dispatch_Service.thy ===== *)
theory Dispatch_Service
  imports Runtime_Authority
begin

text \<open>
  The methods of \<open>dispatch.go\<close>, \<open>dispatch_root.go\<close> and \<open>execution.go\<close> that the runtime calls: they
  authorize the credential, read the repository and run one critical section.
\<close>

section \<open>Dispatching to another worker\<close>

text \<open>A value of the environment: a variable, which is JSON, or a secret, which is a string.\<close>

datatype dispatchValue = VarValue string | SecretValue string

record DispatchArtifact =
  DArt_Deployment :: Deployment
  DArt_Values :: "(string, dispatchValue) gomap"
  DArt_Digest :: string
  DArt_Lease :: string
  DArt_Deadline :: time

definition checkVarValue :: "string \<times> string \<Rightarrow> unit act" where
  "checkVarValue v = abind (aenv (\<lambda>e. e_varValue e (snd v))) alift"

definition dispatchValues :: "ActiveDeployment \<Rightarrow> (string, dispatchValue) gomap" where
  "dispatchValues selected =
     foldl (\<lambda>m (k, v). mput k (SecretValue v) m)
       (foldl (\<lambda>m (k, v). mput k (VarValue v) m) mempty (mentries (Dep_Vars (Active_Deployment selected))))
       (mentries (App_SecretValues (Active_App selected)))"

definition selectDeployment :: "ActiveDeployment list \<Rightarrow> ActiveDeployment act" where
  "selectDeployment as = abind (aenv e_random) (\<lambda>random. abind (aworld w_calls) (\<lambda>n. abind anow (\<lambda>t.
     case selectWeightedDeploymentWithPreference (random n) t as [] of
       None \<Rightarrow> afail ErrArtifactNotFound | Some i \<Rightarrow> areturn (as ! i))))"

definition acquireResolvedDispatch :: "string \<Rightarrow> string \<Rightarrow> RuntimePrincipal \<Rightarrow> App \<Rightarrow> string \<Rightarrow> string \<Rightarrow> int \<Rightarrow> DispatchArtifact act" where
  "acquireResolvedDispatch callerToken transportToken caller app rootID parentID depth =
     abind (aguard (IsDynamic app) (ErrText ''dispatch target must use dynamic execution'')) (\<lambda>_.
     abind (storeGet (ActiveDeploymentsForApp (App_ID app))) (\<lambda>as.
     abind (selectDeployment as) (\<lambda>item.
     abind (hydrateArtifact item) (\<lambda>selected.
     abind (storeGet (checkNamespaceBindings app (Dep_KVNamespaces (Active_Deployment selected))
       (Dep_Databases (Active_Deployment selected)) (Dep_ObjectStorageBuckets (Active_Deployment selected)))) (\<lambda>_.
     abind (storeGet (GetDeploymentArtifact (App_ID app) (Dep_ID (Active_Deployment selected)))) (\<lambda>artifact.
     abind (aeach checkVarValue (mentries (Dep_Vars (Active_Deployment selected)))) (\<lambda>_.
     abind randomToken (\<lambda>rnd.
       let token = invocationCapabilityPrefix @ rnd in
       abind (dispatchRun (acquireLocked token callerToken transportToken caller app selected rootID parentID depth)) (\<lambda>deadline.
         areturn \<lparr>DArt_Deployment = Art_Deployment artifact, DArt_Values = dispatchValues selected,
           DArt_Digest = Art_Digest artifact, DArt_Lease = token, DArt_Deadline = deadline\<rparr>)))))))))"

definition dispatchEnabled :: "unit act" where
  "dispatchEnabled = abind (aworld (\<lambda>w. disp_enabled (w_dispatch w))) (\<lambda>enabled. aguard enabled ErrDispatchUnavailable)"

definition AcquireDispatchWithRoot :: "string \<Rightarrow> string \<Rightarrow> string \<Rightarrow> string \<Rightarrow> DispatchArtifact option act" where
  "AcquireDispatchWithRoot callerToken namespace script rootID =
     abind dispatchEnabled (\<lambda>_.
     authorized (AuthorizeRuntime callerToken RuntimeDispatch namespace) (\<lambda>caller.
       asome (abind (storeGet (NamespaceScript (App_OrgID (Prin_App caller)) namespace script)) (\<lambda>app.
         acquireResolvedDispatch callerToken callerToken caller app rootID [] 0))))"

definition AcquireDispatch :: "string \<Rightarrow> string \<Rightarrow> string \<Rightarrow> DispatchArtifact option act" where
  "AcquireDispatch callerToken namespace script = AcquireDispatchWithRoot callerToken namespace script []"

text \<open>The id a binding of an invocation's deployment names.\<close>

definition bindingTarget :: "Deployment \<Rightarrow> string \<Rightarrow> string \<Rightarrow> string option" where
  "bindingTarget d kind binding =
     (if kind = RuntimeKV then map_option KVBind_ID (find (\<lambda>b. KVBind_Binding b = binding) (Dep_KVNamespaces d))
      else if kind = RuntimeDatabase then map_option DBBind_DatabaseID (find (\<lambda>b. DBBind_Binding b = binding) (Dep_Databases d))
      else if kind = RuntimeObjects then map_option ObjBind_BucketID (find (\<lambda>b. ObjBind_Binding b = binding) (Dep_ObjectStorageBuckets d))
      else if kind = RuntimeServiceDispatch
      then map_option SvcBind_WorkerID (find (\<lambda>b. SvcBind_Binding b = binding \<and> SvcBind_Execution b = ''dynamic'') (Dep_Services d))
      else if kind = RuntimeAssets \<and> assetBindingNameForDispatch (Dep_AssetConfig d) = binding then Some (Dep_ID d)
      else None)"

definition DispatchResource :: "string \<Rightarrow> string \<Rightarrow> string \<Rightarrow> string option act" where
  "DispatchResource token kind binding =
     authorized (authorizeInvocation token) (\<lambda>p. case bindingTarget (Prin_Deployment p) kind binding of
       None \<Rightarrow> afail ErrRuntimeGrantDenied | Some i \<Rightarrow> areturn (Some i))"

definition AcquireServiceDispatch :: "string \<Rightarrow> string \<Rightarrow> string \<Rightarrow> DispatchArtifact option act" where
  "AcquireServiceDispatch transportToken parentToken binding =
     abind (DispatchResource parentToken RuntimeServiceDispatch binding) (\<lambda>target. case target of
       None \<Rightarrow> areturn None
     | Some targetID \<Rightarrow>
         authorized (AuthorizeRuntime parentToken RuntimeServiceDispatch targetID) (\<lambda>caller.
           asome (abind (storeGet (GetApp targetID)) (\<lambda>app.
             abind (dispatchRun (\<lambda>now rt. (serviceParentLocked transportToken parentToken rt, rt))) (\<lambda>(ingress, depth).
               acquireResolvedDispatch parentToken transportToken caller app ingress parentToken depth)))))"

section \<open>Effects and the end of an invocation\<close>

definition DispatchEffect :: "string \<Rightarrow> string \<Rightarrow> string \<Rightarrow> string \<Rightarrow> int \<Rightarrow> RuntimePrincipal option act" where
  "DispatchEffect callerToken leaseToken kind resource cost =
     authorized (AuthorizeRuntime leaseToken kind resource) (\<lambda>p.
       abind (dispatchRun (effectLocked callerToken leaseToken cost)) (\<lambda>_. areturn (Some p)))"

definition finishSection :: "string \<Rightarrow> string \<Rightarrow> bool \<Rightarrow> unit option act" where
  "finishSection callerToken leaseToken cancel = (\<lambda>e w.
     case finishLocked (e_hash e) callerToken leaseToken cancel (e_clock e (w_calls w)) (w_dispatch w) of
       None \<Rightarrow> (Inr None, w)
     | Some (r, rt) \<Rightarrow> (map_sum id Some r, w\<lparr>w_dispatch := rt\<rparr>))"

definition FinishDispatch :: "string \<Rightarrow> string \<Rightarrow> bool \<Rightarrow> unit option act" where
  "FinishDispatch callerToken leaseToken cancel =
     authorized (authorizeInvocation leaseToken) (\<lambda>_. finishSection callerToken leaseToken cancel)"

definition AuthorizeDispatchTransport :: "string \<Rightarrow> string \<Rightarrow> unit option act" where
  "AuthorizeDispatchTransport transport token =
     authorized (authorizeInvocation token) (\<lambda>_.
       asome (dispatchRun (\<lambda>now rt. (transportLocked transport token rt, rt))))"

section \<open>Registering executions\<close>

fun ownedBindings :: "App \<Rightarrow> (string \<Rightarrow> Store \<Rightarrow> string result) \<Rightarrow> string list \<Rightarrow> unit act" where
  "ownedBindings app owner [] = areturn ()"
| "ownedBindings app owner (i # ids) = abind (storeGet (owner i)) (\<lambda>org.
     if org \<noteq> App_OrgID app then afail ErrInvalidCapability else ownedBindings app owner ids)"

definition executionSnapshot :: "ActiveDeployment \<Rightarrow> string \<Rightarrow> ExecutionSnapshot act" where
  "executionSnapshot item compileOptions =
     (let d = Active_Deployment item in
     abind (storeGet (GetApp (App_ID (Active_App item)))) (\<lambda>app.
     abind (aguard (App_OrgID app = App_OrgID (Active_App item)) ErrInvalidCapability) (\<lambda>_.
     abind (ownedBindings app (\<lambda>i s. rbind (GetKVNamespace i s) (\<lambda>r. Inr (KVNs_OrgID r))) (map KVBind_ID (Dep_KVNamespaces d))) (\<lambda>_.
     abind (ownedBindings app (\<lambda>i s. rbind (GetDatabase i s) (\<lambda>r. Inr (DB_OrgID r))) (map DBBind_DatabaseID (Dep_Databases d))) (\<lambda>_.
     abind (ownedBindings app (\<lambda>i s. rbind (GetObjectStorageBucket i s) (\<lambda>r. Inr (Bucket_OrgID r))) (map ObjBind_BucketID (Dep_ObjectStorageBuckets d))) (\<lambda>_.
     abind (aenv (\<lambda>e. FreezeExecution (e_executionDigest e) item [compileOptions])) alift))))))"

definition RegisterExecution :: "ActiveDeployment \<Rightarrow> string \<Rightarrow> string act" where
  "RegisterExecution item compileOptions =
     abind (executionSnapshot item compileOptions) (\<lambda>snapshot.
     abind (executionsRun (\<lambda>now r. (Inr (), Publish snapshot r))) (\<lambda>_. areturn (Snap_id snapshot)))"

definition PrepareExecutionGrant :: "ActiveDeployment \<Rightarrow> string \<Rightarrow> string \<Rightarrow> string \<Rightarrow> (string \<times> string) act" where
  "PrepareExecutionGrant item compileOptions session registration =
     abind (executionSnapshot item compileOptions) (\<lambda>snapshot.
     abind (aenv e_hash) (\<lambda>h.
     abind (executionsRun (PrepareResourceGrant h snapshot session registration)) (\<lambda>grant.
       areturn (grant, Snap_id snapshot))))"

end
