(* ===== verification/Authority_Properties.thy ===== *)
theory Authority_Properties
  imports Action_Runs Dispatch_Service Dispatch_Properties
begin

text \<open>
  What stands behind an authorized credential. \<open>vouched\<close> is the specification: during a request, a credential
  vouches for a worker and a revision when it is a capability signed with the worker's root key for a
  revision that is still running, or the token of an admitted execution whose session is live, or an
  invocation whose lease and ingress are live and whose caller's credential vouches for somebody.
\<close>

lemma executionsGet_success [success_rules]:
  "executionsGet f e w = (Inr a, w') \<longleftrightarrow> f (e_clock e (w_calls w)) (w_executions w) = Inr a \<and> w' = w"
  by (auto simp: executionsGet_def)

section \<open>Authorization changes nothing but the clock\<close>

definition unchanged :: "world \<Rightarrow> world \<Rightarrow> bool" where
  "unchanged w w' \<longleftrightarrow> w_store w' = w_store w \<and> w_executions w' = w_executions w \<and> w_dispatch w' = w_dispatch w
     \<and> w_calls w \<le> w_calls w'"

lemma unchanged_refl [simp]: "unchanged w w"
  by (simp add: unchanged_def)

lemma unchanged_trans [trans]: "unchanged u v \<Longrightarrow> unchanged v w \<Longrightarrow> unchanged u w"
  by (simp add: unchanged_def)

definition reads :: "'a act \<Rightarrow> bool" where
  "reads m \<longleftrightarrow> (\<forall>e w. unchanged w (snd (m e w)))"

named_theorems reads_rules "actions that change nothing but the clock"

lemma readsD: "reads m \<Longrightarrow> m e w = (r, w') \<Longrightarrow> unchanged w w'"
  unfolding reads_def by (metis snd_conv)

lemma reads_basic [reads_rules]: "reads (areturn a)" "reads (afail er)" "reads (alift r)" "reads (aguard ok er)"
  "reads (aenv g)" "reads anow" "reads (aworld h)" "reads (executionsGet k)"
  by (auto simp: reads_def alift_def aguard_def aenv_def anow_def aworld_def executionsGet_def split: sum.split)

lemma reads_calls [reads_rules]: "reads (storeGet f)" "reads (runnerAnswer g)" "reads randomToken"
  by (auto simp: reads_def storeGet_def external_def atick_def runnerAnswer_def randomToken_def unchanged_def split: fault.split)

lemma reads_bind [reads_rules]:
  assumes "reads m" "\<And>a. reads (f a)"
  shows "reads (abind m f)"
  unfolding reads_def
proof (intro allI)
  fix e w
  obtain r v where m: "m e w = (r, v)" by (cases "m e w")
  have v: "unchanged w v" by (rule readsD[OF assms(1) m])
  show "unchanged w (snd (abind m f e w))"
  proof (cases r)
    case (Inr a)
    then have "unchanged v (snd (f a e v))" using assms(2) by (simp add: reads_def)
    then show ?thesis using v m Inr by (simp add: abind_def unchanged_def)
  qed (use v m in \<open>simp add: abind_def\<close>)
qed

lemma reads_try [reads_rules]: "reads m \<Longrightarrow> reads (atry m)"
  unfolding reads_def atry_def by (simp add: split_def)

lemma reads_if [reads_rules]: "reads m \<Longrightarrow> reads n \<Longrightarrow> reads (if b then m else n)"
  by simp

lemma reads_sum [reads_rules]: "(\<And>x. reads (m x)) \<Longrightarrow> (\<And>x. reads (n x)) \<Longrightarrow> reads (case v of Inl x \<Rightarrow> m x | Inr x \<Rightarrow> n x)"
  by (cases v) simp_all

lemma reads_option [reads_rules]: "reads m \<Longrightarrow> (\<And>x. reads (n x)) \<Longrightarrow> reads (case v of None \<Rightarrow> m | Some x \<Rightarrow> n x)"
  by (cases v) simp_all

lemma reads_prod [reads_rules]: "(\<And>x y. reads (m x y)) \<Longrightarrow> reads (case v of (x, y) \<Rightarrow> m x y)"
  by (cases v) simp

lemma reads_runtimeBound [reads_rules]: "reads (runtimeBound p kind)"
  unfolding runtimeBound_def resourceBound_def dispatchBound_def serviceBound_def Let_def
  by (intro reads_rules)

lemma reads_bound [reads_rules]: "reads (authorizeBoundRuntime p kind)"
  unfolding authorizeBoundRuntime_def by (intro reads_rules)

lemma reads_granted [reads_rules]: "reads (grantedDeployment app grant)" "reads (deploymentLive app d grant)"
  unfolding grantedDeployment_def deploymentLive_def by (intro reads_rules)+

lemma reads_credentials [reads_rules]: "reads (authorizeExecution token kind i)" "reads (authorizeCapability token kind i)"
  unfolding authorizeExecution_def executionActive_def authorizeCapability_def
  by (intro reads_rules)+

section \<open>What a binding allows\<close>

text \<open>The owner and the id of a resource, and the ids a revision declares.\<close>

definition resourceEntry :: "string \<Rightarrow> string \<Rightarrow> Store \<Rightarrow> (string \<times> string) result" where
  "resourceEntry kind i s =
     (if kind = RuntimeKV then rbind (GetKVNamespace i s) (\<lambda>r. Inr (KVNs_OrgID r, KVNs_ID r))
      else if kind = RuntimeDatabase then rbind (GetDatabase i s) (\<lambda>r. Inr (DB_OrgID r, DB_ID r))
      else rbind (GetObjectStorageBucket i s) (\<lambda>r. Inr (Bucket_OrgID r, Bucket_ID r)))"

definition declaredIDs :: "string \<Rightarrow> Deployment \<Rightarrow> string list" where
  "declaredIDs kind d =
     (if kind = RuntimeKV then map KVBind_ID (Dep_KVNamespaces d)
      else if kind = RuntimeDatabase then map DBBind_DatabaseID (Dep_Databases d)
      else map ObjBind_BucketID (Dep_ObjectStorageBuckets d))"

definition mayUse :: "App \<Rightarrow> Deployment \<Rightarrow> string \<Rightarrow> string \<Rightarrow> Store \<Rightarrow> bool" where
  "mayUse app d kind i s \<longleftrightarrow>
     (case resourceEntry kind i s of Inl _ \<Rightarrow> False | Inr (owner, r) \<Rightarrow> owner = App_OrgID app \<and> r \<in> set (declaredIDs kind d))
     \<and> namespaceResourceAllowed app kind i s = Inr ()"

lemma runtimeBound_resource:
  assumes "isResourceKind kind"
  shows "runtimeBound p kind = resourceBound (Prin_App p) (declaredIDs kind (Prin_Deployment p))
    (resourceEntry kind (RG_ResourceID (Prin_Grant p)))"
  using assms unfolding isResourceKind_def
  by (elim disjE) (simp_all add: runtimeBound_def declaredIDs_def resourceEntry_def[abs_def] runtime_kinds Let_def)

lemma authorizeBound_success:
  assumes "authorizeBoundRuntime p kind e w = (Inr q, w')"
  shows "q = p" "isResourceKind kind \<Longrightarrow> mayUse (Prin_App p) (Prin_Deployment p) kind (RG_ResourceID (Prin_Grant p)) (w_store w)"
proof -
  show "q = p"
    using assms by (auto simp: authorizeBoundRuntime_def success_rules split: if_splits)
  assume k: "isResourceKind kind"
  obtain v where bound: "runtimeBound p kind e w = (Inr True, v)"
    and rest: "abind (atry (storeGet (namespaceResourceAllowed (Prin_App p) kind (RG_ResourceID (Prin_Grant p)))))
      (\<lambda>r. case r of Inl _ \<Rightarrow> afail ErrRuntimeGrantDenied | Inr _ \<Rightarrow> areturn p) e v = (Inr q, w')"
    using assms k by (auto simp: authorizeBoundRuntime_def success_rules split: if_splits)
  have v: "w_store v = w_store w"
    using readsD[OF reads_runtimeBound bound] by (simp add: unchanged_def)
  have "namespaceResourceAllowed (Prin_App p) kind (RG_ResourceID (Prin_Grant p)) (w_store v) = Inr ()"
    using rest by (auto simp: success_rules atry_run)
  moreover have "case resourceEntry kind (RG_ResourceID (Prin_Grant p)) (w_store w) of Inl _ \<Rightarrow> False
      | Inr (owner, r) \<Rightarrow> owner = App_OrgID (Prin_App p) \<and> r \<in> set (declaredIDs kind (Prin_Deployment p))"
    using bound unfolding runtimeBound_resource[OF k] resourceBound_def
    by (auto simp: success_rules atry_run)
  ultimately show "mayUse (Prin_App p) (Prin_Deployment p) kind (RG_ResourceID (Prin_Grant p)) (w_store w)"
    using v by (simp add: mayUse_def)
qed

section \<open>Who stands behind a credential\<close>

text \<open>
  The token of an execution stands for the revision it was admitted to. A token of one operation is good for
  the resource of that operation; any other is good while the session of the revision is live, and for the
  resources that the revision declares.
\<close>

definition executionGood :: "time \<Rightarrow> string \<Rightarrow> string \<Rightarrow> ExecutionRegistry \<Rightarrow> executionAdmission \<Rightarrow> bool" where
  "executionGood now kind i r a \<longleftrightarrow>
     (let v = reg_heap r (adm_revision a); k = resourceKindOf kind in
      (adm_operation a \<or> rev_session v = [] \<or> now < mget0 0 (reg_sessions r) (rev_session v))
      \<and> (if k = ExecutionNoKind then \<not> adm_operation a
         else (adm_operation a \<longrightarrow> adm_resourceKind a = k \<and> adm_resourceID a = i)
           \<and> i \<noteq> [] \<and> declares (Active_Deployment (Snap_active (rev_snapshot v))) k i))"

text \<open>An invocation is live until its own deadline and while its ingress, when it has one, is neither cancelled nor over.\<close>

definition liveInvocation :: "time \<Rightarrow> dispatchRuntime \<Rightarrow> dispatchLease \<Rightarrow> bool" where
  "liveInvocation now rt l \<longleftrightarrow> disp_enabled rt \<and> now < lse_Expires l
     \<and> (lse_Root l = [] \<or> (\<exists>g. mget (disp_roots rt) (lse_Root l) = Some g \<and> \<not> root_Cancelled g \<and> now < root_Expires g))"

text \<open>
  What the runner says, at its \<open>k\<close>-th call, about the instance a capability was minted for, or about the
  revision when there is none; without a runner the revisions that are active are those of the store.
\<close>

definition liveAnswer :: "serviceEnv \<Rightarrow> nat \<Rightarrow> App \<Rightarrow> Deployment \<Rightarrow> string \<Rightarrow> Store \<Rightarrow> bool result" where
  "liveAnswer e k app d runtimeInstance s =
     (if runtimeInstance \<noteq> [] then (case e_instance e of None \<Rightarrow> Inl ErrRuntimeGrantDenied
        | Some ask \<Rightarrow> ask k (App_ID app) (Dep_ID d) runtimeInstance)
      else case e_live e of Some ask \<Rightarrow> ask k (App_ID app) (Dep_ID d)
        | None \<Rightarrow> map_sum id (list_ex (\<lambda>a. Dep_ID (Active_Deployment a) = Dep_ID d)) (ActiveDeploymentsForApp (App_ID app) s))"

text \<open>
  A token signed with a key for a grant: the prefix, a payload that encodes the grant, a dot, and the
  signature of what stands before the dot.
\<close>

definition signedCapability :: "serviceEnv \<Rightarrow> string \<Rightarrow> string \<Rightarrow> RuntimeGrant \<Rightarrow> bool" where
  "signedCapability e key token grant \<longleftrightarrow> length token \<le> 4096 \<and> key \<noteq> []
     \<and> (\<exists>payload signature encoded. token = runtimeCapabilityPrefix @ payload @ ''.'' @ signature
        \<and> base64Decode payload = Some encoded \<and> e_grantOf e encoded = Some grant
        \<and> base64Decode signature = Some (e_hmac e key (runtimeCapabilityPrefix @ payload)))"

lemma cutDot_parts: "cutDot s = Some (a, b) \<Longrightarrow> s = a @ ''.'' @ b"
proof -
  assume cut: "cutDot s = Some (a, b)"
  then have dot: "CHR ''.'' \<in> set s" and ab: "a = takeWhile (\<lambda>c. c \<noteq> CHR ''.'') s" "b = tl (dropWhile (\<lambda>c. c \<noteq> CHR ''.'') s)"
    by (auto simp: cutDot_def split: if_splits)
  obtain y ys where rest: "dropWhile (\<lambda>c. c \<noteq> CHR ''.'') s = y # ys"
    using dot by (cases "dropWhile (\<lambda>c. c \<noteq> CHR ''.'') s") (auto simp: dropWhile_eq_Nil_conv)
  then have "y = CHR ''.''" using hd_dropWhile[of "\<lambda>c. c \<noteq> CHR ''.''" s] by simp
  then show ?thesis using takeWhile_dropWhile_id[of "\<lambda>c. c \<noteq> CHR ''.''" s] rest ab by simp
qed

lemma capabilityParts_signed:
  assumes "capabilityParts e token = Some (payload, grant, signature)" "key \<noteq> []" "signedWith e key payload signature"
  shows "signedCapability e key token grant"
proof -
  have parts: "length token \<le> 4096" "prefix runtimeCapabilityPrefix token" "cutDot (trimPrefix token runtimeCapabilityPrefix) = Some (payload, signature)"
    "\<exists>d. base64Decode payload = Some d \<and> e_grantOf e d = Some grant"
    using assms(1) by (auto simp: capabilityParts_def hasPrefix_def split: if_splits option.splits)
  have "token = runtimeCapabilityPrefix @ payload @ ''.'' @ signature"
    using parts(2) cutDot_parts[OF parts(3)] by (auto simp: trimPrefix_def prefix_def)
  then show ?thesis using assms(2,3) parts(1,4) by (auto simp: signedCapability_def signedWith_def)
qed

text \<open>The moments of a request are those between its first call and its last, \<open>n\<close> and \<open>m\<close>.\<close>

inductive vouched :: "serviceEnv \<Rightarrow> Store \<Rightarrow> ExecutionRegistry \<Rightarrow> dispatchRuntime \<Rightarrow> nat \<Rightarrow> nat
    \<Rightarrow> string \<Rightarrow> string \<Rightarrow> string \<Rightarrow> App \<Rightarrow> Deployment \<Rightarrow> bool"
  for e s r rt n m where
vouched_execution: "n \<le> k \<Longrightarrow> k \<le> m \<Longrightarrow> mget (reg_tokens r) token = Some a \<Longrightarrow> executionGood (e_clock e k) kind i r a \<Longrightarrow>
    item = Snap_active (rev_snapshot (reg_heap r (adm_revision a))) \<Longrightarrow>
    vouched e s r rt n m token kind i (Active_App item) (Active_Deployment item)"
| vouched_capability: "n \<le> k \<Longrightarrow> k \<le> m \<Longrightarrow> GetApp (RG_AppID grant) s = Inr app \<Longrightarrow>
    signedCapability e (App_RuntimeToken app) token grant \<Longrightarrow> App_OrgID app = RG_OrgID grant \<Longrightarrow>
    RG_Kind grant = kind \<Longrightarrow> i = [] \<or> RG_ResourceID grant = i \<Longrightarrow>
    GetRuntimeDeployment (App_ID app) (RG_DeploymentID grant) s = Inr stored \<Longrightarrow>
    d = stored \<or> (\<exists>a. GetDeploymentArtifact (App_ID app) (RG_DeploymentID grant) s = Inr a \<and> d = Art_Deployment a) \<Longrightarrow>
    liveAnswer e k app d (RG_InstanceID grant) s = Inr True \<Longrightarrow>
    vouched e s r rt n m token kind i app d"
| vouched_invocation: "n \<le> k \<Longrightarrow> k \<le> m \<Longrightarrow> mget (disp_leases rt) token = Some l \<Longrightarrow> liveInvocation (e_clock e k) rt l \<Longrightarrow>
    vouched e s r rt n m (lse_CallerToken l) (RG_Kind (lse_Caller l)) (RG_ResourceID (lse_Caller l)) caller revision \<Longrightarrow>
    GetApp (App_ID (Active_App (lse_Target l))) s = Inr app \<Longrightarrow>
    vouched e s r rt n m token kind i app (Active_Deployment (lse_Target l))"

lemma vouched_longer:
  "vouched e s r rt n m token kind i app d \<Longrightarrow> n' \<le> n \<Longrightarrow> m \<le> m' \<Longrightarrow> vouched e s r rt n' m' token kind i app d"
proof (induction rule: vouched.induct)
  case (vouched_execution k token a kind i item)
  then show ?case by (intro vouched.vouched_execution[of n' k m']) auto
next
  case (vouched_capability k grant app token kind i stored d)
  then show ?case by (intro vouched.vouched_capability[of n' k m']) auto
next
  case (vouched_invocation k token l caller revision app kind i)
  then show ?case by (intro vouched.vouched_invocation[of n' k m']) auto
qed

lemma deploymentLive_answer:
  assumes "deploymentLive app d grant e w = (Inr live, w')"
  shows "liveAnswer e (w_calls w) app d (RG_InstanceID grant) (w_store w) = Inr live"
  using assms by (auto simp: deploymentLive_def liveAnswer_def runnerAnswer_def abind_def aenv_def storeGet_def external_def atick_def
      split: if_splits option.splits prod.splits sum.splits fault.splits)

lemma authorizeExecution_vouched:
  assumes "authorizeExecution token kind i e w = (Inr p, w')" "hasPrefix token ''nfexec_'' \<or> hasPrefix token ''nfgrant_''"
  shows "vouched e (w_store w) (w_executions w) rt (w_calls w) (w_calls w') token kind i (Prin_App p) (Prin_Deployment p)"
    "RG_Kind (Prin_Grant p) = kind" "RG_ResourceID (Prin_Grant p) = i"
    "isResourceKind kind \<Longrightarrow> mayUse (Prin_App p) (Prin_Deployment p) kind i (w_store w)"
proof -
  obtain item where item: "executionActive token kind i e w = (Inr item, w)"
    and bound: "authorizeBoundRuntime \<lparr>Prin_Grant = capabilityGrant item kind i, Prin_App = Active_App item,
        Prin_Deployment = Active_Deployment item\<rparr> kind e w = (Inr p, w')"
    using assms by (auto simp: authorizeExecution_def executionActive_def success_rules)
  note p = authorizeBound_success[OF bound]
  show "RG_Kind (Prin_Grant p) = kind" "RG_ResourceID (Prin_Grant p) = i"
    using p(1) by (simp_all add: capabilityGrant_def)
  show "isResourceKind kind \<Longrightarrow> mayUse (Prin_App p) (Prin_Deployment p) kind i (w_store w)"
    using p by (simp add: capabilityGrant_def)
  show "vouched e (w_store w) (w_executions w) rt (w_calls w) (w_calls w') token kind i (Prin_App p) (Prin_Deployment p)"
  proof -
    let ?now = "e_clock e (w_calls w)"
    have "resourceKindOf kind \<noteq> ExecutionNoKind \<and> Authorize token (resourceKindOf kind) i ?now (w_executions w) = Inr item
        \<or> resourceKindOf kind = ExecutionNoKind \<and> AuthorizeInternal token ?now (w_executions w) = Inr item"
      using item assms(2) by (auto simp: executionActive_def success_rules executionAuthorization_def rbind_Inr_iff map_sum_def split: if_splits sum.splits)
    then obtain a where a: "mget (reg_tokens (w_executions w)) token = Some a" "executionGood ?now kind i (w_executions w) a"
      and snap: "Active_App item = Active_App (Snap_active (rev_snapshot (reg_heap (w_executions w) (adm_revision a))))"
        "Active_Deployment item = Active_Deployment (Snap_active (rev_snapshot (reg_heap (w_executions w) (adm_revision a))))"
      by (auto simp: Authorize_def authorizeLocked_def AuthorizeInternal_def admissionLive_def sessionLiveLocked_def executionGood_def Let_def
          split: option.splits if_splits)
    have "w_calls w \<le> w_calls w'"
      using readsD[OF reads_credentials(1) assms(1)] by (simp add: unchanged_def)
    from vouched_execution[OF order_refl this a refl] show ?thesis using p(1) snap by simp
  qed
qed

lemma authorizeCapability_vouched:
  assumes "authorizeCapability token kind i e w = (Inr p, w')"
  shows "vouched e (w_store w) r rt (w_calls w) (w_calls w') token kind i (Prin_App p) (Prin_Deployment p)"
    "RG_Kind (Prin_Grant p) = kind" "i \<noteq> [] \<Longrightarrow> RG_ResourceID (Prin_Grant p) = i"
    "isResourceKind kind \<Longrightarrow> mayUse (Prin_App p) (Prin_Deployment p) kind (RG_ResourceID (Prin_Grant p)) (w_store w)"
proof -
  obtain payload grant signature app d v v' where parts: "capabilityParts e token = Some (payload, grant, signature)"
    and app: "GetApp (RG_AppID grant) (w_store w) = Inr app" "App_RuntimeToken app \<noteq> []"
    and sig: "signedWith e (App_RuntimeToken app) payload signature"
    and grant: "App_OrgID app = RG_OrgID grant" "RG_Kind grant = kind" "i = [] \<or> RG_ResourceID grant = i"
    and d: "grantedDeployment app grant e (atick w) = (Inr d, v)"
    and live: "deploymentLive app d grant e v = (Inr True, v')"
    and bound: "authorizeBoundRuntime \<lparr>Prin_Grant = grant, Prin_App = app, Prin_Deployment = d\<rparr> kind e v' = (Inr p, w')"
    using assms by (fastforce simp: authorizeCapability_def success_rules atry_run split: if_splits)
  note p = authorizeBound_success[OF bound]
  show "RG_Kind (Prin_Grant p) = kind" "i \<noteq> [] \<Longrightarrow> RG_ResourceID (Prin_Grant p) = i" using p(1) grant by simp_all
  have "unchanged v v'" "unchanged (atick w) v" "unchanged v' w'"
    using readsD[OF reads_granted(2) live] readsD[OF reads_granted(1) d] readsD[OF reads_bound bound] by simp_all
  then have v': "w_store v' = w_store w" "w_store v = w_store w" "w_calls w \<le> w_calls v" "w_calls v \<le> w_calls w'"
    by (simp_all add: unchanged_def atick_def)
  then show "isResourceKind kind \<Longrightarrow> mayUse (Prin_App p) (Prin_Deployment p) kind (RG_ResourceID (Prin_Grant p)) (w_store w)"
    using p by simp
  obtain stored where "GetRuntimeDeployment (App_ID app) (RG_DeploymentID grant) (w_store w) = Inr stored"
    "d = stored \<or> (\<exists>a. GetDeploymentArtifact (App_ID app) (RG_DeploymentID grant) (w_store w) = Inr a \<and> d = Art_Deployment a)"
    using d by (auto simp: grantedDeployment_def success_rules atry_run atick_def split: if_splits)
  from vouched_capability[OF v'(3,4) app(1) capabilityParts_signed[OF parts app(2) sig] grant this] deploymentLive_answer[OF live]
  show "vouched e (w_store w) r rt (w_calls w) (w_calls w') token kind i (Prin_App p) (Prin_Deployment p)"
    using p(1) v'(2) by simp
qed

lemma invocationLocked_success:
  assumes "dispatchRun (invocationLocked token) e w = (Inr l, w')"
  shows "mget (disp_leases (w_dispatch w)) token = Some l \<and> w' = w \<and> e_clock e (w_calls w) < lse_Expires l
    \<and> (lse_Root l = [] \<or> (\<exists>g. mget (disp_roots (w_dispatch w)) (lse_Root l) = Some g \<and> \<not> root_Cancelled g
        \<and> e_clock e (w_calls w) < root_Expires g))"
  using assms by (auto simp: dispatchRun_def invocationLocked_def split: option.splits if_splits prod.splits)

lemma asome_success [success_rules]: "asome m e w = (Inr x, w') \<longleftrightarrow> (\<exists>a. x = Some a \<and> m e w = (Inr a, w'))"
  by (auto simp: asome_def success_rules)

lemma authorized_success [success_rules]: "authorized m f e w = (Inr x, w')
    \<longleftrightarrow> (m e w = (Inr None, w') \<and> x = None) \<or> (\<exists>p v. m e w = (Inr (Some p), v) \<and> f p e v = (Inr x, w'))"
  by (auto simp: authorized_def success_rules)

lemma authorizeInvocationBy_success:
  assumes "authorizeInvocationBy auth token e w = (Inr (Some p), w')"
  obtains l q v where "mget (disp_leases (w_dispatch w)) token = Some l" "liveInvocation (e_clock e (w_calls w)) (w_dispatch w) l"
    "auth (lse_CallerToken l) (RG_Kind (lse_Caller l)) (RG_ResourceID (lse_Caller l)) e w = (Inr (Some q), v)"
    "GetApp (App_ID (Active_App (lse_Target l))) (w_store v) = Inr (Prin_App p)" "w' = atick v"
    "Prin_Deployment p = Active_Deployment (lse_Target l)"
  using assms by (auto simp: authorizeInvocationBy_def success_rules liveInvocation_def dest!: invocationLocked_success)

definition sound :: "string \<Rightarrow> string \<Rightarrow> string \<Rightarrow> serviceEnv \<Rightarrow> world \<Rightarrow> world \<Rightarrow> RuntimePrincipal \<Rightarrow> bool" where
  "sound token kind i e w w' p \<longleftrightarrow>
     vouched e (w_store w) (w_executions w) (w_dispatch w) (w_calls w) (w_calls w') token kind i (Prin_App p) (Prin_Deployment p)
     \<and> RG_Kind (Prin_Grant p) = kind \<and> (i \<noteq> [] \<longrightarrow> RG_ResourceID (Prin_Grant p) = i)
     \<and> (isResourceKind kind \<longrightarrow> mayUse (Prin_App p) (Prin_Deployment p) kind (RG_ResourceID (Prin_Grant p)) (w_store w))"

lemma authorizeRuntime_sound:
  "authorizeRuntime n token kind i e w = (Inr (Some p), w') \<Longrightarrow> sound token kind i e w w' p \<and> unchanged w w'"
proof (induction n arbitrary: token kind i p w w')
  case (Suc n)
  consider (execution) "hasPrefix token ''nfexec_'' \<or> hasPrefix token ''nfgrant_''"
    | (invocation) "\<not> (hasPrefix token ''nfexec_'' \<or> hasPrefix token ''nfgrant_'')" "hasPrefix token invocationCapabilityPrefix"
    | (capability) "\<not> (hasPrefix token ''nfexec_'' \<or> hasPrefix token ''nfgrant_'')" "\<not> hasPrefix token invocationCapabilityPrefix"
    by blast
  then show ?case
  proof cases
    case execution
    then have run: "authorizeExecution token kind i e w = (Inr p, w')" using Suc.prems by (simp add: success_rules)
    show ?thesis using authorizeExecution_vouched[OF run execution] readsD[OF reads_credentials(1) run] by (simp add: sound_def)
  next
    case capability
    then have run: "authorizeCapability token kind i e w = (Inr p, w')" using Suc.prems by (simp add: success_rules)
    show ?thesis using authorizeCapability_vouched[OF run] readsD[OF reads_credentials(2) run] by (simp add: sound_def)
  next
    case invocation
    then obtain q v where inv: "authorizeInvocationBy (authorizeRuntime n) token e w = (Inr (Some q), v)"
      and bound: "authorizeBoundRuntime (q\<lparr>Prin_Grant := (Prin_Grant q)\<lparr>RG_Kind := kind, RG_ResourceID := i\<rparr>\<rparr>) kind e v = (Inr p, w')"
      using Suc.prems by (auto simp: success_rules)
    from inv obtain l q' u where lease: "mget (disp_leases (w_dispatch w)) token = Some l"
      and live: "liveInvocation (e_clock e (w_calls w)) (w_dispatch w) l"
      and auth: "authorizeRuntime n (lse_CallerToken l) (RG_Kind (lse_Caller l)) (RG_ResourceID (lse_Caller l)) e w = (Inr (Some q'), u)"
      and app: "GetApp (App_ID (Active_App (lse_Target l))) (w_store u) = Inr (Prin_App q)" "v = atick u"
      and d: "Prin_Deployment q = Active_Deployment (lse_Target l)"
      by (rule authorizeInvocationBy_success)
    note caller = Suc.IH[OF auth]
    have u: "unchanged w u" using caller by blast
    have v: "unchanged w v" using u app(2) by (simp add: unchanged_def atick_def)
    note p = authorizeBound_success[OF bound]
    have vw': "unchanged v w'" by (rule readsD[OF reads_bound bound])
    have calls: "w_calls w \<le> w_calls w'" "w_calls u \<le> w_calls w'" using u vw' app(2) by (simp_all add: unchanged_def atick_def)
    have "vouched e (w_store w) (w_executions w) (w_dispatch w) (w_calls w) (w_calls w')
        (lse_CallerToken l) (RG_Kind (lse_Caller l)) (RG_ResourceID (lse_Caller l)) (Prin_App q') (Prin_Deployment q')"
      using caller calls(2) by (auto simp: sound_def intro: vouched_longer)
    from vouched_invocation[OF order_refl calls(1) lease live this]
    have "vouched e (w_store w) (w_executions w) (w_dispatch w) (w_calls w) (w_calls w') token kind i (Prin_App q) (Active_Deployment (lse_Target l))"
      using app(1) u by (simp add: unchanged_def)
    moreover have "unchanged w w'" using v vw' unchanged_trans by blast
    ultimately show ?thesis using p d v by (simp add: sound_def unchanged_def)
  qed
qed simp_all


section \<open>The recursion over callers ends\<close>

text \<open>The callers of the leases form no cycle when some rank falls from every lease to its caller.\<close>

definition callersEarlier :: "(string \<Rightarrow> nat) \<Rightarrow> (string, dispatchLease) gomap \<Rightarrow> bool" where
  "callersEarlier rank ls \<longleftrightarrow> (\<forall>t l. mget ls t = Some l \<longrightarrow> mhas ls (lse_CallerToken l) \<longrightarrow> rank (lse_CallerToken l) < rank t)"

definition callerRank :: "(string, dispatchLease) gomap \<Rightarrow> (string \<Rightarrow> nat) \<Rightarrow> string \<Rightarrow> nat" where
  "callerRank ls rank token = (if mhas ls token then Suc (card {k. mhas ls k \<and> rank k < rank token}) else 0)"

lemma callerRank_falls:
  assumes "callersEarlier rank ls" "mget ls token = Some l"
  shows "callerRank ls rank (lse_CallerToken l) < callerRank ls rank token"
proof (cases "mhas ls (lse_CallerToken l)")
  case True
  then have less: "rank (lse_CallerToken l) < rank token" using assms unfolding callersEarlier_def by blast
  have "{k. mhas ls k \<and> rank k < rank (lse_CallerToken l)} \<subset> {k. mhas ls k \<and> rank k < rank token}"
    using True less by auto
  moreover have "finite {k. mhas ls k \<and> rank k < rank token}"
    by (rule finite_subset[OF _ finite_mdom[of ls "\<lambda>_ _. True"]]) (auto simp: mhas_def)
  ultimately have "card {k. mhas ls k \<and> rank k < rank (lse_CallerToken l)} < card {k. mhas ls k \<and> rank k < rank token}"
    by (rule psubset_card_mono[rotated])
  then show ?thesis using True assms(2) by (simp add: callerRank_def mhas_def)
next
  case False
  then show ?thesis using assms(2) by (simp add: callerRank_def mhas_def)
qed

lemma callerRank_bound: "callerRank ls rank token \<le> mlen ls"
proof (cases "mhas ls token")
  case True
  have fin: "finite {k. mhas ls k}" using finite_mdom[of ls "\<lambda>_ _. True"] by (simp add: mhas_def)
  have "{k. mhas ls k \<and> rank k < rank token} \<subset> {k. mhas ls k}" using True by auto
  then have "card {k. mhas ls k \<and> rank k < rank token} < card {k. mhas ls k}" by (rule psubset_card_mono[OF fin])
  also have "card {k. mhas ls k} = mlen ls" by (simp add: mlen_mcount mcount_card mhas_def)
  finally show ?thesis by (simp add: callerRank_def True)
qed (simp add: callerRank_def)

lemma authorizeRuntime_returns:
  assumes "callersEarlier rank (disp_leases (w_dispatch w))" "callerRank (disp_leases (w_dispatch w)) rank token < n"
  shows "authorizeRuntime n token kind i e w \<noteq> (Inr None, w')"
  using assms(2)
proof (induction n arbitrary: token kind i w')
  case (Suc n)
  show ?case
  proof
    assume "authorizeRuntime (Suc n) token kind i e w = (Inr None, w')"
    then obtain l v where lease: "mget (disp_leases (w_dispatch w)) token = Some l"
      and auth: "authorizeRuntime n (lse_CallerToken l) (RG_Kind (lse_Caller l)) (RG_ResourceID (lse_Caller l)) e w = (Inr None, v)"
      by (auto simp: success_rules authorizeInvocationBy_def split: if_splits dest!: invocationLocked_success)
    show False using Suc.IH[of "lse_CallerToken l"] callerRank_falls[OF assms(1) lease] Suc.prems auth by auto
  qed
qed simp

text \<open>
  Runs in which no request carries a token that has not been drawn yet: tokens come from
  \<open>crypto/rand\<close>, so nobody names one before the lease that it is for.
\<close>

definition unguessed :: "dispatchSystem \<Rightarrow> dispatchSystem \<Rightarrow> bool" where
  "unguessed s s' \<longleftrightarrow> (\<forall>t \<in> set (dsys_used s') - set (dsys_used s). \<forall>k l. mget (leases s') k = Some l \<longrightarrow> lse_CallerToken l \<noteq> t)"

inductive authority_run :: "(string \<Rightarrow> string) \<Rightarrow> dispatchSystem \<Rightarrow> bool" for h where
  authority_start: "authority_run h initial_dispatch"
| authority_step: "authority_run h s \<Longrightarrow> dispatch_step h s s' \<Longrightarrow> unguessed s s' \<Longrightarrow> authority_run h s'"

lemma authority_run_reachable: "authority_run h s \<Longrightarrow> dispatch_reachable h s"
  by (induction rule: authority_run.induct)
    (auto simp: dispatch_reachable_def intro: rtranclp.rtrancl_into_rtrancl)

text \<open>A step shrinks the table of leases or files one lease under a fresh token.\<close>

lemma step_leases:
  assumes "dispatch_step h s s'" "lease_inv s"
  shows "shrinks (leases s) (leases s')
    \<or> (\<exists>token l ls. fresh token s \<and> token \<in> set (dsys_used s') \<and> shrinks (leases s) ls \<and> leases s' = mput token l ls)"
  using assms(1)
proof cases
  case (d_begin token item now res rt')
  then show ?thesis using begin_tables[OF d_begin(3)] by simp
next
  case (d_parent transport parentID rootID depth)
  then show ?thesis by simp
next
  case (d_acquire token parentID depth callerToken transport rootID selected app caller now res rt')
  note eff = acquire_effect(2)[OF d_acquire(6)]
  show ?thesis
  proof (cases res)
    case (Inl err)
    then show ?thesis using eff d_acquire(1) by auto
  next
    case (Inr d)
    then obtain l where "disp_leases rt' = mput token l (liveLeases now (leases s))" using eff by auto
    then show ?thesis using d_acquire(1,2)
      by (intro disjI2 exI[of _ token] exI[of _ l] exI[of _ "liveLeases now (leases s)"]) simp
  qed
next
  case (d_effect token l callerToken cost now res rt')
  then show ?thesis using effect_tables[OF d_effect(3,2)] by (auto simp: shrunk_def)
next
  case (d_log token l rt')
  then show ?thesis using log_tables[OF d_log(2)] by (auto simp: shrunk_def split: option.split)
next
  case (d_finish callerToken token cancel now res rt')
  then show ?thesis using finish_shrinks[OF lease_inv_layered[OF assms(2)] d_finish(2)] by simp
next
  case (d_invocation token now res rt')
  then show ?thesis using invocation_tables[OF d_invocation(2)] by auto
next
  case (d_context token now res rt')
  then show ?thesis using context_tables[OF d_context(2)] by auto
qed (auto simp: enable_tables SetDispatchObservationSink_def end_shrinks hold_tables)

lemma callersEarlier_shrinks: "callersEarlier rank ls \<Longrightarrow> shrinks ls ls' \<Longrightarrow> callersEarlier rank ls'"
  unfolding callersEarlier_def shrinks_def shrunk_def mhas_def by (metis option.distinct(1) option.exhaust_sel)

lemma authority_run_acyclic: "authority_run h s \<Longrightarrow> \<exists>rank. callersEarlier rank (leases s)"
proof (induction rule: authority_run.induct)
  case authority_start
  then show ?case by (simp add: callersEarlier_def initial_dispatch_def dispatchRuntime0_def)
next
  case (authority_step s s')
  then obtain rank where rank: "callersEarlier rank (leases s)" by blast
  from step_leases[OF authority_step(2) lease_inv_reachable[OF authority_run_reachable[OF authority_step(1)]]]
  show ?case
  proof (elim disjE exE conjE)
    assume "shrinks (leases s) (leases s')"
    then show ?thesis using callersEarlier_shrinks[OF rank] by blast
  next
    fix token l ls
    assume token: "fresh token s" "token \<in> set (dsys_used s')" and ls: "shrinks (leases s) ls" "leases s' = mput token l ls"
    have "lse_CallerToken m \<noteq> token" if "mget (leases s') k = Some m" for k m
      using authority_step(3) token that by (auto simp: unguessed_def fresh_def)
    then have "callersEarlier (rank(token := Suc (rank (lse_CallerToken l)))) (leases s')"
      using callersEarlier_shrinks[OF rank ls(1)] unfolding ls(2) callersEarlier_def by (auto split: if_splits)
    then show ?thesis by blast
  qed
qed

text \<open>C27: in every state that dynamic dispatch can reach, deciding about a credential ends, with a principal
  or an error: the chain of callers behind an invocation has no cycle, however invocations are
  admitted, cancelled, finished and expire. (No request carries the token of a lease that has not been
  drawn yet: tokens are random and are not guessed.)\<close>

theorem authorization_returns:
  assumes "authority_run h s" "w_dispatch w = dsys_rt s"
  shows "fst (AuthorizeRuntime token kind i e w) \<noteq> Inr None"
proof -
  obtain rank where rank: "callersEarlier rank (disp_leases (w_dispatch w))"
    using authority_run_acyclic[OF assms(1)] assms(2) by auto
  have "authorizeRuntime (chainFuel w) token kind i e w \<noteq> (Inr None, w')" for w'
    using callerRank_bound[of "disp_leases (w_dispatch w)" rank token]
    by (intro authorizeRuntime_returns[OF rank]) (simp add: chainFuel_def)
  then show ?thesis by (simp add: AuthorizeRuntime_def) (metis prod.collapse)
qed

end
