(* ===== verification/Capability_Exact.thy ===== *)
theory Capability_Exact
  imports Authority_Properties Deploy_Consistency
begin

text \<open>
  A capability is accepted for exactly what it was minted for; and runs of the properties about
  credentials on a worker with one namespace.
\<close>

section \<open>Decoding a capability\<close>

lemma base64_no_dot: "CHR ''.'' \<notin> set (base64Encode s)"
proof -
  obtain vs where vs: "\<forall>v \<in> set vs. v < 64" "base64Encode s = map base64Char vs" using base64Encode_values by blast
  have "base64Char v \<noteq> CHR ''.''" if "v < 64" for v
  proof
    assume "base64Char v = CHR ''.''"
    then have "base64Value CHR ''.'' = Some v" using base64Char_ok[OF that] by simp
    moreover have "base64Value CHR ''.'' = None" by code_simp
    ultimately show False by simp
  qed
  then show ?thesis using vs by (metis (no_types, lifting) image_iff list.set_map)
qed

lemma cutDot_encoded: "cutDot (base64Encode s @ CHR ''.'' # t) = Some (base64Encode s, t)"
proof -
  have "\<forall>c \<in> set (base64Encode s). c \<noteq> CHR ''.''" using base64_no_dot[of s] by auto
  then have "takeWhile (\<lambda>c. c \<noteq> CHR ''.'') (base64Encode s @ CHR ''.'' # t) = base64Encode s"
    "dropWhile (\<lambda>c. c \<noteq> CHR ''.'') (base64Encode s @ CHR ''.'' # t) = CHR ''.'' # t"
    by (simp_all add: takeWhile_append2 dropWhile_append2)
  then show ?thesis by (simp add: cutDot_def)
qed

lemma capability_token:
  assumes "App_RuntimeToken (Active_App item) \<noteq> []" "App_ID (Active_App item) \<noteq> []" "Dep_ID (Active_Deployment item) \<noteq> []"
    and "e_grantOf e (e_grantJSON e (capabilityGrant item kind i)) = Some (capabilityGrant item kind i)"
  obtains payload signature where "capabilityParts e (RuntimeCapability e item kind i) =
      (if 4096 < length (RuntimeCapability e item kind i) then None else Some (payload, capabilityGrant item kind i, signature))"
    "signedWith e (App_RuntimeToken (Active_App item)) payload signature"
    "\<not> hasPrefix (RuntimeCapability e item kind i) ''nfexec_''" "\<not> hasPrefix (RuntimeCapability e item kind i) ''nfgrant_''"
    "\<not> hasPrefix (RuntimeCapability e item kind i) invocationCapabilityPrefix"
proof -
  let ?payload = "base64Encode (e_grantJSON e (capabilityGrant item kind i))"
  let ?signature = "base64Encode (e_hmac e (App_RuntimeToken (Active_App item)) (runtimeCapabilityPrefix @ ?payload))"
  have token: "RuntimeCapability e item kind i = runtimeCapabilityPrefix @ ?payload @ CHR ''.'' # ?signature"
    using assms(1-3) by (simp add: RuntimeCapability_def Let_def)
  have "trimPrefix (RuntimeCapability e item kind i) runtimeCapabilityPrefix = ?payload @ CHR ''.'' # ?signature"
    by (simp add: token trimPrefix_def)
  then have "capabilityParts e (RuntimeCapability e item kind i) =
      (if 4096 < length (RuntimeCapability e item kind i) then None else Some (?payload, capabilityGrant item kind i, ?signature))"
    using assms by (simp add: capabilityParts_def cutDot_encoded base64_roundtrip) (simp add: token hasPrefix_def capabilityGrant_def)
  then show thesis
    by (rule that) (simp_all add: signedWith_def base64_roundtrip token hasPrefix_def runtimeCapabilityPrefix_def invocationCapabilityPrefix_def)
qed

section \<open>A capability in a run without failures\<close>

lemma storeGet_free: "faultFree e \<Longrightarrow> storeGet f e w = (f (w_store w), atick w)"
  by (simp add: storeGet_def atick_def)

lemma authorizeBound_free:
  assumes "faultFree e" "isResourceKind kind"
  shows "fst (authorizeBoundRuntime p kind e w) =
    (if mayUse (Prin_App p) (Prin_Deployment p) kind (RG_ResourceID (Prin_Grant p)) (w_store w) then Inr p else Inl ErrRuntimeGrantDenied)"
  using assms
  by (simp add: authorizeBoundRuntime_def runtimeBound_resource resourceBound_def mayUse_def abind_def atry_def storeGet_free atick_def
      split: sum.split prod.split)

lemma deploymentLive_free:
  assumes "faultFree e"
  shows "deploymentLive app d grant e w = (liveAnswer e (w_calls w) app d (RG_InstanceID grant) (w_store w), snd (deploymentLive app d grant e w))"
    "w_store (snd (deploymentLive app d grant e w)) = w_store w"
  using assms by (auto simp: deploymentLive_def liveAnswer_def runnerAnswer_def abind_def aenv_def storeGet_free atick_def
      split: option.splits sum.splits)


section \<open>Demonstration\<close>

definition capApp :: App where
  "capApp = App0\<lparr>App_ID := ''w'', App_OrgID := ''o'', App_RuntimeToken := ''key''\<rparr>"

definition capDeployment :: Deployment where
  "capDeployment = Deployment0\<lparr>Dep_ID := ''d'', Dep_AppID := ''w'', Dep_KVNamespaces := [KVBinding0\<lparr>KVBind_Binding := ''KV'', KVBind_ID := ''n''\<rparr>]\<rparr>"

definition capStore :: Store where
  "capStore = NewStore\<lparr>apps := mput ''w'' capApp mempty,
     kvNamespaces := mput ''n'' (KVNamespace0\<lparr>KVNs_ID := ''n'', KVNs_OrgID := ''o''\<rparr>) mempty,
     deployments := mput ''w'' [capDeployment] mempty, active := mput ''w'' (mput ''d'' 100 mempty) mempty\<rparr>"

definition capItem :: ActiveDeployment where
  "capItem = ActiveDeployment0\<lparr>Active_App := capApp, Active_Deployment := capDeployment\<rparr>"

text \<open>JSON that knows the grants of this worker.\<close>

definition capEnv :: serviceEnv where
  "capEnv = demoServiceEnv\<lparr>e_grantOf := (\<lambda>s. Some (capabilityGrant capItem RuntimeKV s))\<rparr>"

definition capToken :: string where
  "capToken = RuntimeCapability capEnv capItem RuntimeKV ''n''"

lemma capEnv_free: "faultFree capEnv"
  by (simp add: capEnv_def demoServiceEnv_def faultFree_def)

text \<open>The same worker on an instance that the runner knows, from which it is gone at the seventh call.\<close>

definition instanceItem :: ActiveDeployment where
  "instanceItem = capItem\<lparr>Active_RuntimeInstance := ''r1''\<rparr>"

definition instanceEnv :: serviceEnv where
  "instanceEnv = demoServiceEnv\<lparr>e_grantOf := (\<lambda>s. Some (capabilityGrant instanceItem RuntimeKV s)),
     e_live := Some (\<lambda>_ _ _. Inr True), e_instance := Some (\<lambda>k _ _ r. if k < 7 then Inr (r = ''r1'') else Inl (ErrText ''gone''))\<rparr>"



definition authorityRun :: dispatchSystem where
  "authorityRun = acquireIn ''nfi1.a'' [] 0 ''r'' 2 (beginIn ''r'' 1 initial_dispatch)"

lemma authorityRun_run: "authority_run id authorityRun"
proof -
  have s1: "authority_run id (beginIn ''r'' 1 initial_dispatch)"
  proof (rule authority_step[OF authority_start])
    show "dispatch_step id initial_dispatch (beginIn ''r'' 1 initial_dispatch)"
      unfolding beginIn_def by (rule d_begin[OF _ surjective_pairing]) (simp add: Dispatch_Runs.fresh_def initial_dispatch_def)
    show "unguessed initial_dispatch (beginIn ''r'' 1 initial_dispatch)"
      using begin_tables(1)[OF surjective_pairing, of "''r''" dispatchDemoTarget 1 "dsys_rt initial_dispatch"]
      by (simp add: unguessed_def beginIn_def) (simp add: initial_dispatch_def dispatchRuntime0_def)
  qed
  show ?thesis unfolding authorityRun_def
  proof (rule authority_step[OF s1])
    show "dispatch_step id (beginIn ''r'' 1 initial_dispatch) (acquireIn ''nfi1.a'' [] 0 ''r'' 2 (beginIn ''r'' 1 initial_dispatch))"
      unfolding acquireIn_def Let_def case_prod_unfold
      by (rule d_acquire[where selected = dispatchDemoTarget and app = "Active_App dispatchDemoTarget"])
        (simp_all add: Dispatch_Runs.fresh_def askedFor_def beginIn_def initial_dispatch_def)
    have "list_all (\<lambda>(k, l). lse_CallerToken l = ''tr'') (mentries (leases authorityRun))
        \<and> dsys_used authorityRun = [''nfi1.a'', ''r'']" by code_simp
    then have "lse_CallerToken l = ''tr''" "set (dsys_used authorityRun) = {''nfi1.a'', ''r''}" if "mget (leases authorityRun) k = Some l" for k l
      using that by (auto simp: list_all_iff mget_entries dest!: map_of_SomeD)
    then show "unguessed (beginIn ''r'' 1 initial_dispatch) (acquireIn ''nfi1.a'' [] 0 ''r'' 2 (beginIn ''r'' 1 initial_dispatch))"
      unfolding authorityRun_def[symmetric] unguessed_def by fastforce
  qed
qed

theorem authorization_returns_witness:
  "fst (AuthorizeRuntime ''nfi1.a'' RuntimeKV ''n'' capEnv ((worldOf capStore)\<lparr>w_dispatch := dsys_rt authorityRun\<rparr>)) \<noteq> Inr None"
  by (rule authorization_returns[OF authorityRun_run]) simp

end
