(* ===== verification/KV_Quota.thy ===== *)
theory KV_Quota
  imports KV_Service Authority_Frame Capability_Exact Action_Runs Store_Accounting Store_Paging
begin

text \<open>
  The limit on the bytes an organization stores in its namespaces: what a write can add, and that the
  cached sums never fall below the truth.
\<close>

lemma runs_storeAt:
  assumes "\<And>w. P w \<Longrightarrow> R (atick w)"
    and "\<And>w a s'. P w \<Longrightarrow> f (e_clock e (w_calls w)) (w_store w) = Inr (a, s') \<Longrightarrow>
      Q a ((atick w)\<lparr>w_store := s'\<rparr>) \<and> R ((atick w)\<lparr>w_store := s'\<rparr>)"
  shows "runs e P (storeAt f) Q R"
  using assms unfolding runs_def storeAt_def storeRun_def external_def
  by (auto split: fault.split sum.split prod.split simp: atick_def)

section \<open>The bytes of an organization\<close>

definition orgBytesIn :: "(string \<times> KVNamespace) list \<Rightarrow> string \<Rightarrow> Store \<Rightarrow> int" where
  "orgBytesIn ns org s = sum_list (map (\<lambda>(i, n). if KVNs_OrgID n = org then storedBytes i s else 0) ns)"

definition orgBytes :: "string \<Rightarrow> Store \<Rightarrow> int" where
  "orgBytes org s = orgBytesIn (mentries (kvNamespaces s)) org s"

lemma orgBytes_nonneg: "0 \<le> orgBytes org s"
  unfolding orgBytes_def orgBytesIn_def by (rule sum_list_nonneg) (auto simp: storedBytes_nonneg)

lemma orgBytesIn_mono:
  assumes "\<And>i. storedBytes i s' \<le> storedBytes i s"
  shows "orgBytesIn ns org s' \<le> orgBytesIn ns org s"
  unfolding orgBytesIn_def by (rule sum_list_mono) (auto simp: assms)

lemma orgBytesIn_one:
  assumes "distinct (map fst ns)" "\<And>i. storedBytes i s' = storedBytes i s + (if i = m then d else 0)"
  shows "orgBytesIn ns org s' = orgBytesIn ns org s
    + (case map_of ns m of None \<Rightarrow> 0 | Some n \<Rightarrow> if KVNs_OrgID n = org then d else 0)"
  using assms(1)
proof (induction ns)
  case (Cons p ns)
  have "map_of ns m = None" if "fst p = m" using Cons.prems that by (auto simp: map_of_eq_None_iff)
  then show ?case using Cons assms(2) by (cases p) (auto simp: orgBytesIn_def)
qed (simp add: orgBytesIn_def)

lemma orgBytes_one:
  assumes "kvNamespaces s' = kvNamespaces s" "\<And>i. storedBytes i s' = storedBytes i s + (if i = m then d else 0)"
  shows "orgBytes org s' = orgBytes org s + (case mget (kvNamespaces s) m of None \<Rightarrow> 0 | Some n \<Rightarrow> if KVNs_OrgID n = org then d else 0)"
  unfolding orgBytes_def assms(1) mget_entries by (rule orgBytesIn_one[OF _ assms(2)]) simp

section \<open>Expiry only removes\<close>

lemma delete_stored:
  assumes "mget2 (kv s) m k = Some v"
  shows "storedBytes i (deleteRuntimeKVValueLocked m k v s) = storedBytes i s + (if i = m then - valueSize v else 0)"
  using assms by (simp add: deleteRuntimeKVValueLocked_def stored_del oldSize_opt opt0_def)

lemma purgeLoop_stored:
  assumes "distinct (map fst es)" "\<And>k v. (k, v) \<in> set es \<Longrightarrow> mget2 (kv s) m k = Some v"
  shows "storedBytes i (purgeLoop m now es s) \<le> storedBytes i s \<and> (i \<noteq> m \<longrightarrow> storedBytes i (purgeLoop m now es s) = storedBytes i s)"
  using assms
proof (induction m now es s rule: purgeLoop.induct)
  case (2 m now k v es s)
  have live: "mget2 (kv s) m k = Some v" using 2(3)[of k v] by simp
  let ?s1 = "if runtimeKVExpired v now then deleteRuntimeKVValueLocked m k v s else s"
  have rest: "mget2 (kv ?s1) m k' = Some v'" if "(k', v') \<in> set es" for k' v'
    using 2(2) 2(3)[of k' v'] that by (auto simp: deleteRuntimeKVValueLocked_def adjustMetrics_def rev_image_eqI)
  have "storedBytes i ?s1 \<le> storedBytes i s \<and> (i \<noteq> m \<longrightarrow> storedBytes i ?s1 = storedBytes i s)"
    using delete_stored[OF live, of i] by (simp add: valueSize_def)
  then show ?case using 2(1)[OF _ rest] 2(2) by force
qed simp

lemma purge_stored: "storedBytes i (purgeExpiredKVLocked m now s) \<le> storedBytes i s"
  "i \<noteq> m \<Longrightarrow> storedBytes i (purgeExpiredKVLocked m now s) = storedBytes i s"
  using purgeLoop_stored[of "mentries (mget0 mempty (kv s) m)" s m i now] by (simp_all add: purgeExpiredKVLocked_def mem_entries)

lemma purge_other: "n \<noteq> m \<Longrightarrow> mget2 (kv (purgeExpiredKVLocked m now s)) n k = mget2 (kv s) n k"
proof -
  assume "n \<noteq> m"
  then have "mget2 (kv (purgeLoop m now es s)) n k = mget2 (kv s) n k" for es
    by (induction m now es s rule: purgeLoop.induct) (auto simp: deleteRuntimeKVValueLocked_def adjustMetrics_def)
  then show ?thesis by (simp add: purgeExpiredKVLocked_def)
qed

text \<open>What summing the usage does: it reports what is left, and removes only expired values.\<close>

definition onlyExpires :: "time \<Rightarrow> Store \<Rightarrow> Store \<Rightarrow> bool" where
  "onlyExpires now s s' \<longleftrightarrow> kv_only s s' \<and> (\<forall>i. storedBytes i s' \<le> storedBytes i s)
     \<and> (\<forall>n k. mget2 (kv s') n k = mget2 (kv s) n k \<or> mget2 (kv s') n k = None \<and> (\<exists>v. mget2 (kv s) n k = Some v \<and> runtimeKVExpired v now))"

lemma onlyExpires_refl [simp]: "onlyExpires now s s"
  by (simp add: onlyExpires_def kv_only_def)

lemma onlyExpires_trans:
  assumes "onlyExpires now s s1" "onlyExpires now s1 s2"
  shows "onlyExpires now s s2"
proof -
  have "kv_only s s2" using assms kv_only_trans unfolding onlyExpires_def by blast
  moreover have "storedBytes i s2 \<le> storedBytes i s" for i using assms unfolding onlyExpires_def by (meson order_trans)
  moreover have "mget2 (kv s2) n k = mget2 (kv s) n k \<or> mget2 (kv s2) n k = None \<and> (\<exists>v. mget2 (kv s) n k = Some v \<and> runtimeKVExpired v now)" for n k
    using assms unfolding onlyExpires_def by metis
  ultimately show ?thesis by (simp add: onlyExpires_def)
qed

lemma onlyExpires_purge: "onlyExpires now s (purgeExpiredKVLocked m now s)"
proof -
  have "mget2 (kv (purgeExpiredKVLocked m now s)) n k = mget2 (kv s) n k
      \<or> mget2 (kv (purgeExpiredKVLocked m now s)) n k = None \<and> (\<exists>v. mget2 (kv s) n k = Some v \<and> runtimeKVExpired v now)" for n k
    by (cases "n = m") (auto simp: purge_other purge_lookup liveAt_def split: option.splits)
  then show ?thesis by (simp add: onlyExpires_def purge_kv_only purge_stored(1))
qed

lemma storageBytes_result:
  assumes "metered s" "distinct (map fst ns)"
  shows "onlyExpires now s (snd (storageBytes org now ns acc s)) \<and> metered (snd (storageBytes org now ns acc s))
    \<and> fst (storageBytes org now ns acc s) = acc + orgBytesIn ns org (snd (storageBytes org now ns acc s))
    \<and> (\<forall>i. i \<notin> fst ` set ns \<longrightarrow> storedBytes i (snd (storageBytes org now ns acc s)) = storedBytes i s)"
  using assms
proof (induction org now ns acc s rule: storageBytes.induct)
  case (2 org now i n ns acc s)
  show ?case
  proof (cases "KVNs_OrgID n = org")
    case False
    have "distinct (map fst ns)" using 2(4) by simp
    from 2(1)[OF False 2(3) this] show ?thesis using False by (simp add: orgBytesIn_def)
  next
    case True
    let ?s = "purgeExpiredKVLocked i now s"
    let ?acc = "acc + KVMet_Size (mget0 KVNamespaceMetrics0 (kvMetrics ?s) i)"
    let ?r = "storageBytes org now ns ?acc ?s"
    have d: "distinct (map fst ns)" "i \<notin> fst ` set ns" using 2(4) by simp_all
    have run: "storageBytes org now ((i, n) # ns) acc s = ?r" using True by (simp add: Let_def)
    have IH: "onlyExpires now ?s (snd ?r) \<and> metered (snd ?r) \<and> fst ?r = ?acc + orgBytesIn ns org (snd ?r)
      \<and> (\<forall>j. j \<notin> fst ` set ns \<longrightarrow> storedBytes j (snd ?r) = storedBytes j ?s)"
      using 2(2)[OF _ refl metered_purge[OF 2(3)] d(1)] True by simp
    have "?acc = acc + storedBytes i (snd ?r)"
      using metered_purge[OF 2(3), of i now] IH d(2) by (simp add: metered_def chargedBytes_def)
    moreover have "storedBytes j (snd ?r) = storedBytes j s" if "j \<notin> fst ` set ((i, n) # ns)" for j
      using IH that purge_stored(2)[of j i now s] by simp
    moreover have "onlyExpires now s (snd ?r)" using IH onlyExpires_purge onlyExpires_trans by blast
    ultimately show ?thesis using IH True unfolding run by (simp add: orgBytesIn_def)
  qed
qed (simp_all add: orgBytesIn_def)

lemma KVStorageBytesByOrg_result:
  assumes "KVStorageBytesByOrg org now s = (bytes, s')" "metered s"
  shows "onlyExpires now s s'" "metered s'" "bytes = orgBytes org s'"
proof -
  have r: "storageBytes org now (mentries (kvNamespaces s)) 0 s = (bytes, s')"
    using assms(1) by (simp add: KVStorageBytesByOrg_def)
  note result = storageBytes_result[OF assms(2), of "mentries (kvNamespaces s)" now org 0]
  show e: "onlyExpires now s s'" "metered s'" using result r by simp_all
  have "kvNamespaces s' = kvNamespaces s" using e(1) by (simp add: onlyExpires_def kv_only_def)
  then show "bytes = orgBytes org s'" using result r by (simp add: orgBytes_def)
qed

section \<open>The cache never falls below the truth\<close>

text \<open>Cached sums may be short by \<open>d\<close> for the organization \<open>org\<close> while a write is under way.\<close>

definition coversBy :: "serviceEnv \<Rightarrow> string \<Rightarrow> int \<Rightarrow> world \<Rightarrow> bool" where
  "coversBy e org d w \<longleftrightarrow> e_kvCacheDisabled e \<or> (\<forall>o' entry. mget (w_kvOrgUsage w) o' = Some entry \<longrightarrow>
     orgBytes o' (w_store w) \<le> kvu_size entry + (if o' = org then d else 0))"

definition cacheCovers :: "serviceEnv \<Rightarrow> world \<Rightarrow> bool" where
  "cacheCovers e w \<longleftrightarrow> e_kvCacheDisabled e \<or> (\<forall>o' entry. mget (w_kvOrgUsage w) o' = Some entry \<longrightarrow>
     orgBytes o' (w_store w) \<le> kvu_size entry)"

lemma coversByI:
  "(\<And>o' entry. \<not> e_kvCacheDisabled e \<Longrightarrow> mget (w_kvOrgUsage w) o' = Some entry \<Longrightarrow>
     orgBytes o' (w_store w) \<le> kvu_size entry + (if o' = org then d else 0)) \<Longrightarrow> coversBy e org d w"
  unfolding coversBy_def by blast

lemma coversBy_zero: "cacheCovers e w \<Longrightarrow> 0 \<le> d \<Longrightarrow> coversBy e org d w"
  "coversBy e org d w \<Longrightarrow> d \<le> 0 \<Longrightarrow> cacheCovers e w"
proof -
  assume w: "cacheCovers e w" and d: "0 \<le> d"
  have "orgBytes o' (w_store w) \<le> kvu_size entry + (if o' = org then d else 0)"
    if "\<not> e_kvCacheDisabled e" "mget (w_kvOrgUsage w) o' = Some entry" for o' entry
  proof -
    have "orgBytes o' (w_store w) \<le> kvu_size entry" using w that unfolding cacheCovers_def by blast
    then show ?thesis using d by auto
  qed
  then show "coversBy e org d w" unfolding coversBy_def by blast
next
  assume w: "coversBy e org d w" and d: "d \<le> 0"
  have "orgBytes o' (w_store w) \<le> kvu_size entry"
    if "\<not> e_kvCacheDisabled e" "mget (w_kvOrgUsage w) o' = Some entry" for o' entry
  proof -
    have "orgBytes o' (w_store w) \<le> kvu_size entry + (if o' = org then d else 0)" using w that unfolding coversBy_def by blast
    then show ?thesis using d by (simp split: if_splits)
  qed
  then show "cacheCovers e w" unfolding cacheCovers_def by blast
qed

text \<open>The state between the calls of one request, whose namespaces and organizations do not change.\<close>

record quotaFacts =
  qf_namespaces :: "(string, KVNamespace) gomap"
  qf_organizations :: "(string, Organization) gomap"
  qf_org :: string
  qf_bound :: int

definition bounded :: "quotaFacts \<Rightarrow> world \<Rightarrow> bool" where
  "bounded q w \<longleftrightarrow> metered (w_store w) \<and> kvNamespaces (w_store w) = qf_namespaces q
     \<and> organizations (w_store w) = qf_organizations q \<and> orgBytes (qf_org q) (w_store w) \<le> qf_bound q"

definition quotaOK :: "serviceEnv \<Rightarrow> quotaFacts \<Rightarrow> world \<Rightarrow> bool" where
  "quotaOK e q w \<longleftrightarrow> bounded q w \<and> cacheCovers e w"

text \<open>\<open>old\<close> is the size of the value under a key, which does not expire while the request runs.\<close>

definition holds :: "serviceEnv \<Rightarrow> string \<Rightarrow> string \<Rightarrow> int \<Rightarrow> world \<Rightarrow> bool" where
  "holds e ns key old w \<longleftrightarrow> (case mget2 (kv (w_store w)) ns key of
       None \<Rightarrow> old = 0 | Some v \<Rightarrow> old = valueSize v \<and> (\<forall>n. \<not> runtimeKVExpired v (e_clock e n)))"

lemma tick_fields [simp]: "w_store (atick w) = w_store w" "w_kvOrgUsage (atick w) = w_kvOrgUsage w"
  by (simp_all add: atick_def)

lemma tick_kept [simp]: "quotaOK e q (atick w) = quotaOK e q w" "holds e ns key old (atick w) = holds e ns key old w"
  "bounded q (atick w) = bounded q w" "cacheCovers e (atick w) = cacheCovers e w" "coversBy e org d (atick w) = coversBy e org d w"
  by (simp_all add: quotaOK_def holds_def bounded_def cacheCovers_def coversBy_def)

lemma orgBytes_shrinks:
  assumes "onlyExpires now s s'" shows "orgBytes org s' \<le> orgBytes org s"
  using assms orgBytesIn_mono[of s' s "mentries (kvNamespaces s)" org]
  by (simp add: onlyExpires_def kv_only_def orgBytes_def)

lemma quotaOK_expire:
  assumes "quotaOK e q w" "onlyExpires now (w_store w) s'" "metered s'"
  shows "quotaOK e q (w\<lparr>w_store := s'\<rparr>)"
proof -
  have less: "orgBytes o' s' \<le> orgBytes o' (w_store w)" for o' by (rule orgBytes_shrinks[OF assms(2)])
  have "kvNamespaces s' = kvNamespaces (w_store w)" "organizations s' = organizations (w_store w)"
    using assms(2) by (simp_all add: onlyExpires_def kv_only_def)
  then have "bounded q (w\<lparr>w_store := s'\<rparr>)"
    using assms(1,3) order_trans[OF less[of "qf_org q"]] by (simp add: quotaOK_def bounded_def)
  moreover have "cacheCovers e (w\<lparr>w_store := s'\<rparr>)"
    unfolding cacheCovers_def
  proof (rule disj_mono[rule_format, OF _ _ assms(1)[unfolded quotaOK_def cacheCovers_def, THEN conjunct2]], assumption, intro allI impI)
    fix o' entry assume old: "\<forall>o' entry. mget (w_kvOrgUsage w) o' = Some entry \<longrightarrow> orgBytes o' (w_store w) \<le> kvu_size entry"
      and entry: "mget (w_kvOrgUsage (w\<lparr>w_store := s'\<rparr>)) o' = Some entry"
    have "orgBytes o' (w_store w) \<le> kvu_size entry" using old entry by simp
    then show "orgBytes o' (w_store (w\<lparr>w_store := s'\<rparr>)) \<le> kvu_size entry" using less[of o'] by simp
  qed
  ultimately show ?thesis by (simp add: quotaOK_def)
qed

lemma holds_expire:
  assumes "holds e ns key old w" "onlyExpires (e_clock e n) (w_store w) s'"
  shows "holds e ns key old (w\<lparr>w_store := s'\<rparr>)"
proof -
  have "mget2 (kv s') ns key = mget2 (kv (w_store w)) ns key
      \<or> (\<exists>v. mget2 (kv (w_store w)) ns key = Some v \<and> runtimeKVExpired v (e_clock e n))"
    using assms(2) unfolding onlyExpires_def by blast
  then have "mget2 (kv s') ns key = mget2 (kv (w_store w)) ns key"
  proof
    assume "\<exists>v. mget2 (kv (w_store w)) ns key = Some v \<and> runtimeKVExpired v (e_clock e n)"
    then show ?thesis using assms(1) by (auto simp: holds_def)
  qed
  then show ?thesis using assms(1) by (simp add: holds_def)
qed

lemma cacheUsage_runs:
  assumes "\<And>w. P w \<Longrightarrow> Q () (w\<lparr>w_kvOrgUsage := mput org entry (w_kvOrgUsage w)\<rparr>)"
  shows "runs e P (cacheUsage org entry) Q R"
  using assms by (simp add: runs_def cacheUsage_def)

lemma uncached_runs: "runs e P (uncached org) (\<lambda>off w. P w \<and> off = (e_kvCacheDisabled e \<or> trimSpace org = [])) R"
  by (simp add: runs_def uncached_def aenv_def)

section \<open>Summing the usage\<close>

lemma sum_runs:
  "runs e (\<lambda>w. quotaOK e q w \<and> holds e ns key old w) (storeAt (\<lambda>now s. Inr (KVStorageBytesByOrg org now s)))
     (\<lambda>cur w. quotaOK e q w \<and> holds e ns key old w \<and> orgBytes org (w_store w) = cur) (quotaOK e q)"
proof (rule runs_storeAt)
  fix w cur s'
  assume w: "quotaOK e q w \<and> holds e ns key old w" and run: "Inr (KVStorageBytesByOrg org (e_clock e (w_calls w)) (w_store w)) = Inr (cur, s')"
  have "metered (w_store w)" using w by (simp add: quotaOK_def bounded_def)
  note r = KVStorageBytesByOrg_result[OF run[THEN Inr_inject] this]
  have "quotaOK e q ((atick w)\<lparr>w_store := s'\<rparr>)" using w r by (intro quotaOK_expire) simp_all
  moreover have "holds e ns key old ((atick w)\<lparr>w_store := s'\<rparr>)" using w r by (intro holds_expire) simp_all
  ultimately show "(quotaOK e q ((atick w)\<lparr>w_store := s'\<rparr>) \<and> holds e ns key old ((atick w)\<lparr>w_store := s'\<rparr>)
      \<and> orgBytes org (w_store ((atick w)\<lparr>w_store := s'\<rparr>)) = cur) \<and> quotaOK e q ((atick w)\<lparr>w_store := s'\<rparr>)"
    using r(3) by simp
qed simp

lemma kvStorageBytesByOrg_runs:
  "runs e (\<lambda>w. quotaOK e q w \<and> holds e ns key old w) (kvStorageBytesByOrg org)
     (\<lambda>cur w. quotaOK e q w \<and> holds e ns key old w \<and> orgBytes org (w_store w) \<le> cur) (quotaOK e q)"
proof -
  let ?P = "\<lambda>w. quotaOK e q w \<and> holds e ns key old w"
  show ?thesis unfolding kvStorageBytesByOrg_def
  proof (rule runs_bind[OF uncached_runs], rule runs_pure, erule conjunct2, rule runs_if)
    fix off assume "off = (e_kvCacheDisabled e \<or> trimSpace org = [])" off
    show "runs e (\<lambda>w. ?P w \<and> off = (e_kvCacheDisabled e \<or> trimSpace org = [])) (storeAt (\<lambda>now s. Inr (KVStorageBytesByOrg org now s)))
        (\<lambda>cur w. quotaOK e q w \<and> holds e ns key old w \<and> orgBytes org (w_store w) \<le> cur) (quotaOK e q)"
      by (rule runs_conseq[OF sum_runs]) auto
  next
    fix off assume off: "off = (e_kvCacheDisabled e \<or> trimSpace org = [])" "\<not> off"
    have summed: "runs e ?P (abind (storeAt (\<lambda>t s. Inr (KVStorageBytesByOrg org t s))) (\<lambda>bytes.
        abind (cacheUsage org \<lparr>kvu_size = bytes, kvu_expiresAt = u\<rparr>) (\<lambda>_. areturn bytes)))
      (\<lambda>cur w. quotaOK e q w \<and> holds e ns key old w \<and> orgBytes org (w_store w) \<le> cur) (quotaOK e q)" for u
    proof (rule runs_bind[OF sum_runs])
      fix bytes
      show "runs e (\<lambda>w. quotaOK e q w \<and> holds e ns key old w \<and> orgBytes org (w_store w) = bytes)
        (abind (cacheUsage org \<lparr>kvu_size = bytes, kvu_expiresAt = u\<rparr>) (\<lambda>_. areturn bytes))
        (\<lambda>cur w. quotaOK e q w \<and> holds e ns key old w \<and> orgBytes org (w_store w) \<le> cur) (quotaOK e q)"
        by (rule runs_bind[where Q = "\<lambda>_ w. quotaOK e q w \<and> holds e ns key old w \<and> orgBytes org (w_store w) = bytes"])
          (rule cacheUsage_runs, auto intro!: runs_return simp: quotaOK_def bounded_def cacheCovers_def holds_def)
    qed
    have "runs e ?P (abind anow (\<lambda>now. abind (aworld (cachedUsage org now)) (\<lambda>cached. case cached of
           Some bytes \<Rightarrow> areturn bytes
         | None \<Rightarrow> abind (storeAt (\<lambda>t s. Inr (KVStorageBytesByOrg org t s))) (\<lambda>bytes.
             abind (cacheUsage org \<lparr>kvu_size = bytes, kvu_expiresAt = now + kvOrgUsageCacheTTL\<rparr>) (\<lambda>_. areturn bytes)))))
      (\<lambda>cur w. quotaOK e q w \<and> holds e ns key old w \<and> orgBytes org (w_store w) \<le> cur) (quotaOK e q)"
    proof (rule runs_bind[OF runs_read(2)], rule runs_bind[OF runs_read(1)])
      fix now cached
      show "runs e (\<lambda>w. (?P w \<and> now = e_clock e (w_calls w)) \<and> cached = cachedUsage org now w) (case cached of
           Some bytes \<Rightarrow> areturn bytes
         | None \<Rightarrow> abind (storeAt (\<lambda>t s. Inr (KVStorageBytesByOrg org t s))) (\<lambda>bytes.
             abind (cacheUsage org \<lparr>kvu_size = bytes, kvu_expiresAt = now + kvOrgUsageCacheTTL\<rparr>) (\<lambda>_. areturn bytes)))
        (\<lambda>cur w. quotaOK e q w \<and> holds e ns key old w \<and> orgBytes org (w_store w) \<le> cur) (quotaOK e q)"
      proof (cases cached)
        case None
        show ?thesis unfolding None option.case by (rule runs_pre[OF summed]) simp
      next
        case (Some bytes)
        show ?thesis unfolding Some option.case
        proof (rule runs_return(1))
          fix w assume "(?P w \<and> now = e_clock e (w_calls w)) \<and> Some bytes = cachedUsage org now w"
          then show "quotaOK e q w \<and> holds e ns key old w \<and> orgBytes org (w_store w) \<le> bytes"
            using off by (auto simp: cachedUsage_def quotaOK_def cacheCovers_def split: option.splits if_splits)
        qed
      qed
    qed
    then show "runs e (\<lambda>w. ?P w \<and> off = (e_kvCacheDisabled e \<or> trimSpace org = [])) (abind anow (\<lambda>now. abind (aworld (cachedUsage org now)) (\<lambda>cached. case cached of
           Some bytes \<Rightarrow> areturn bytes
         | None \<Rightarrow> abind (storeAt (\<lambda>t s. Inr (KVStorageBytesByOrg org t s))) (\<lambda>bytes.
             abind (cacheUsage org \<lparr>kvu_size = bytes, kvu_expiresAt = now + kvOrgUsageCacheTTL\<rparr>) (\<lambda>_. areturn bytes)))))
      (\<lambda>cur w. quotaOK e q w \<and> holds e ns key old w \<and> orgBytes org (w_store w) \<le> cur) (quotaOK e q)"
      by (rule runs_pre) simp
  qed
qed

section \<open>A write within the limit\<close>

text \<open>What a request for the key knows before it starts: the value under the key is expired at every
  reading of the clock or at none.\<close>

definition steady :: "serviceEnv \<Rightarrow> string \<Rightarrow> string \<Rightarrow> Store \<Rightarrow> bool" where
  "steady e ns key s \<longleftrightarrow> (case mget2 (kv s) ns key of None \<Rightarrow> True
     | Some v \<Rightarrow> \<forall>m n. runtimeKVExpired v (e_clock e m) = runtimeKVExpired v (e_clock e n))"

lemma onlyExpires_delete:
  assumes "mget2 (kv s) n k = Some v" "runtimeKVExpired v now"
  shows "onlyExpires now s (deleteRuntimeKVValueLocked n k v s)"
proof -
  have "storedBytes i (deleteRuntimeKVValueLocked n k v s) \<le> storedBytes i s" for i
    using delete_stored[OF assms(1), of i] by (simp add: valueSize_def)
  moreover have "mget2 (kv (deleteRuntimeKVValueLocked n k v s)) n' k' = (if n' = n \<and> k' = k then None else mget2 (kv s) n' k')" for n' k'
    by (simp add: deleteRuntimeKVValueLocked_def adjustMetrics_def)
  ultimately show ?thesis using assms
    by (simp add: onlyExpires_def) (simp add: kv_only_def deleteRuntimeKVValueLocked_def adjustMetrics_def)
qed

text \<open>The two ways to read a value's size agree.\<close>

definition sized :: "string \<Rightarrow> string \<Rightarrow> time \<Rightarrow> Store \<Rightarrow> int \<Rightarrow> bool \<Rightarrow> Store \<Rightarrow> bool" where
  "sized ns key now s old ok s' \<longleftrightarrow> (case mget2 (kv s) ns key of
       None \<Rightarrow> old = 0 \<and> \<not> ok \<and> s' = s
     | Some v \<Rightarrow> if runtimeKVExpired v now then old = 0 \<and> \<not> ok \<and> s' = deleteRuntimeKVValueLocked ns key v s
         else old = valueSize v \<and> ok \<and> s' = s)"

lemma sized_reads:
  "KVValueSize c ns key now s = Inr (old, ok, s') \<Longrightarrow> sized ns key now s old ok s'"
  "KVGet c ns key now s = Inr (v, ok, s') \<Longrightarrow> sized ns key now s (int (length v)) ok s'"
  by (auto simp: KVValueSize_def KVGet_def sized_def rbind_Inr_iff valueSize_def split: option.splits if_splits)

lemma sized_kept:
  assumes "sized ns key (e_clock e n) (w_store w) old ok s'" "quotaOK e q w" "steady e ns key (w_store w)"
  shows "quotaOK e q (w\<lparr>w_store := s'\<rparr>)" "holds e ns key old (w\<lparr>w_store := s'\<rparr>)"
proof -
  have m: "metered (w_store w)" using assms(2) by (simp add: quotaOK_def bounded_def)
  have "quotaOK e q (w\<lparr>w_store := s'\<rparr>) \<and> holds e ns key old (w\<lparr>w_store := s'\<rparr>)"
  proof (cases "mget2 (kv (w_store w)) ns key")
    case None
    then show ?thesis using assms(1,2) by (simp add: sized_def holds_def)
  next
    case (Some v)
    show ?thesis
    proof (cases "runtimeKVExpired v (e_clock e n)")
      case True
      then have s': "s' = deleteRuntimeKVValueLocked ns key v (w_store w)" "old = 0" using assms(1) Some by (simp_all add: sized_def)
      have "quotaOK e q (w\<lparr>w_store := s'\<rparr>)"
        unfolding s' by (rule quotaOK_expire[OF assms(2) onlyExpires_delete[OF Some True] metered_delete[OF m Some]])
      moreover have "mget2 (kv s') ns key = None" unfolding s' by (simp add: deleteRuntimeKVValueLocked_def adjustMetrics_def)
      ultimately show ?thesis using s'(2) by (simp add: holds_def)
    next
      case False
      then have "\<not> runtimeKVExpired v (e_clock e k)" for k using assms(3) Some unfolding steady_def by auto
      then show ?thesis using False assms(1,2) Some by (simp add: sized_def holds_def)
    qed
  qed
  then show "quotaOK e q (w\<lparr>w_store := s'\<rparr>)" "holds e ns key old (w\<lparr>w_store := s'\<rparr>)" by simp_all
qed

lemma readAt_runs:
  assumes "\<And>now s a ok s'. f now s = Inr (a, ok, s') \<Longrightarrow> sized ns key now s (g a) ok s'"
  shows "runs e (\<lambda>w. quotaOK e q w \<and> steady e ns key (w_store w)) (readAt f)
    (\<lambda>r w. quotaOK e q w \<and> holds e ns key (g (fst r)) w) (quotaOK e q)"
  unfolding readAt_def
proof (rule runs_storeAt)
  fix w r s'
  assume w: "quotaOK e q w \<and> steady e ns key (w_store w)"
    and run: "rbind (f (e_clock e (w_calls w)) (w_store w)) (\<lambda>(a, b, s'). Inr ((a, b), s')) = Inr (r, s')"
  then have "f (e_clock e (w_calls w)) (w_store w) = Inr (fst r, snd r, s')" by (auto simp: rbind_Inr_iff)
  then have "sized ns key (e_clock e (w_calls w)) (w_store (atick w)) (g (fst r)) (snd r) s'" by (simp add: assms)
  from sized_kept[OF this, where q = q] w
  show "(quotaOK e q ((atick w)\<lparr>w_store := s'\<rparr>) \<and> holds e ns key (g (fst r)) ((atick w)\<lparr>w_store := s'\<rparr>))
      \<and> quotaOK e q ((atick w)\<lparr>w_store := s'\<rparr>)" by simp
qed simp

lemma kvValueSize_runs:
  "runs e (\<lambda>w. quotaOK e q w \<and> steady e ns key (w_store w)) (kvValueSize c ns key)
    (\<lambda>r w. quotaOK e q w \<and> holds e ns key (fst r) w) (quotaOK e q)"
proof -
  have read: "runs e (\<lambda>w. quotaOK e q w \<and> steady e ns key (w_store w)) (readAt (KVValueSize c ns key))
      (\<lambda>r w. quotaOK e q w \<and> holds e ns key (fst r) w) (quotaOK e q)"
    by (rule readAt_runs[where g = id, unfolded id_apply]) (rule sized_reads(1))
  have got: "runs e (\<lambda>w. quotaOK e q w \<and> steady e ns key (w_store w))
      (abind (readAt (KVGet c ns key)) (\<lambda>(v, ok). areturn (int (length v), ok)))
      (\<lambda>r w. quotaOK e q w \<and> holds e ns key (fst r) w) (quotaOK e q)"
    by (rule runs_bind[OF readAt_runs[where g = "\<lambda>v. int (length v)"]], erule sized_reads(2)) (auto simp: runs_def split: prod.split)
  show ?thesis
    unfolding kvValueSize_def using read got by (simp add: runs_def abind_def aenv_def)
qed

section \<open>The check of the limit\<close>

text \<open>What the check establishes before a write that adds \<open>delta\<close> bytes.\<close>

definition fits :: "serviceEnv \<Rightarrow> quotaFacts \<Rightarrow> string \<Rightarrow> string \<Rightarrow> int \<Rightarrow> int \<Rightarrow> string \<Rightarrow> world \<Rightarrow> bool" where
  "fits e q ns key old delta payer w \<longleftrightarrow> quotaOK e q w \<and> holds e ns key old w
     \<and> (if delta \<le> 0 then payer = [] else payer = qf_org q \<and> orgBytes (qf_org q) (w_store w) + delta \<le> qf_bound q)"

text \<open>The namespace belongs to the organization of the facts, whose limit is part of the bound.\<close>

definition limitedTo :: "quotaFacts \<Rightarrow> string \<Rightarrow> bool" where
  "limitedTo q ns \<longleftrightarrow> trimSpace ns = ns \<and> ns \<noteq> [] \<and> qf_org q \<noteq> [] \<and> trimSpace (qf_org q) = qf_org q
     \<and> (case mget (qf_namespaces q) ns of None \<Rightarrow> False | Some n \<Rightarrow> KVNs_OrgID n = qf_org q)
     \<and> (case mget (qf_organizations q) (qf_org q) of None \<Rightarrow> True | Some org \<Rightarrow>
          (case Limit_KVStorageBytes (OrgLimitsForLevel (Org_UsageLevel (normalizedOrg org))) of
             None \<Rightarrow> False | Some limit \<Rightarrow> limit \<le> qf_bound q))"

lemma enforceKVStorageBytesLimit_runs:
  assumes "limitedTo q ns"
  shows "runs e (\<lambda>w. quotaOK e q w \<and> holds e ns key old w) (enforceKVStorageBytesLimit ns delta)
    (fits e q ns key old delta) (quotaOK e q)"
proof (cases "delta \<le> 0")
  case True
  then show ?thesis by (simp add: enforceKVStorageBytesLimit_def runs_def fits_def)
next
  case False
  let ?P = "\<lambda>w. quotaOK e q w \<and> holds e ns key old w"
  have org: "runs e (\<lambda>w. ?P w \<and> GetOrganization (qf_org q) (w_store w) = Inr o')
      (case Limit_KVStorageBytes (OrgLimitsForLevel (Org_UsageLevel o')) of
          None \<Rightarrow> areturn (qf_org q)
        | Some limit \<Rightarrow> abind (kvStorageBytesByOrg (qf_org q)) (\<lambda>current.
            if current + delta > limit then afail (usageByteLimitError (Org_UsageLevel o') ''KV storage'' limit)
            else areturn (qf_org q)))
      (fits e q ns key old delta) (quotaOK e q)" for o'
  proof (rule runs_pure[where b = "\<exists>limit. Limit_KVStorageBytes (OrgLimitsForLevel (Org_UsageLevel o')) = Some limit \<and> limit \<le> qf_bound q"])
    fix w assume w: "?P w \<and> GetOrganization (qf_org q) (w_store w) = Inr o'"
    then have "organizations (w_store w) = qf_organizations q" by (simp add: quotaOK_def bounded_def)
    then show "\<exists>limit. Limit_KVStorageBytes (OrgLimitsForLevel (Org_UsageLevel o')) = Some limit \<and> limit \<le> qf_bound q"
      using w assms by (auto simp: GetOrganization_def limitedTo_def split: option.splits)
  next
    assume "\<exists>limit. Limit_KVStorageBytes (OrgLimitsForLevel (Org_UsageLevel o')) = Some limit \<and> limit \<le> qf_bound q"
    then obtain limit where limit: "Limit_KVStorageBytes (OrgLimitsForLevel (Org_UsageLevel o')) = Some limit" "limit \<le> qf_bound q" by blast
    show "runs e (\<lambda>w. ?P w \<and> GetOrganization (qf_org q) (w_store w) = Inr o')
        (case Limit_KVStorageBytes (OrgLimitsForLevel (Org_UsageLevel o')) of
          None \<Rightarrow> areturn (qf_org q)
        | Some limit \<Rightarrow> abind (kvStorageBytesByOrg (qf_org q)) (\<lambda>current.
            if current + delta > limit then afail (usageByteLimitError (Org_UsageLevel o') ''KV storage'' limit)
            else areturn (qf_org q)))
        (fits e q ns key old delta) (quotaOK e q)"
      unfolding limit(1) option.case
    proof (rule runs_bind[OF runs_pre[OF kvStorageBytesByOrg_runs]])
      fix current
      show "runs e (\<lambda>w. quotaOK e q w \<and> holds e ns key old w \<and> orgBytes (qf_org q) (w_store w) \<le> current)
          (if current + delta > limit then afail (usageByteLimitError (Org_UsageLevel o') ''KV storage'' limit) else areturn (qf_org q))
          (fits e q ns key old delta) (quotaOK e q)"
        using False limit(2) by (simp add: runs_def fits_def)
    qed simp
  qed
  show ?thesis
    unfolding enforceKVStorageBytesLimit_def if_not_P[OF False] Let_def
  proof (rule runs_bind, rule runs_storeGet_weak[where P = ?P])
    fix n
    have get: "KVNs_OrgID n = qf_org q" if "?P w \<and> GetKVNamespace_svc ns (w_store w) = Inr n" for w
      using that assms by (auto simp: limitedTo_def GetKVNamespace_svc_def GetKVNamespace_def quotaOK_def bounded_def split: option.splits if_splits)
    show "runs e (\<lambda>w. ?P w \<and> GetKVNamespace_svc ns (w_store w) = Inr n)
        (if trimSpace (KVNs_OrgID n) = [] then areturn []
         else abind (storeGet (GetOrganization (trimSpace (KVNs_OrgID n)))) (\<lambda>org. case Limit_KVStorageBytes (OrgLimitsForLevel (Org_UsageLevel org)) of
             None \<Rightarrow> areturn (trimSpace (KVNs_OrgID n))
           | Some limit \<Rightarrow> abind (kvStorageBytesByOrg (trimSpace (KVNs_OrgID n))) (\<lambda>current.
               if current + delta > limit then afail (usageByteLimitError (Org_UsageLevel org) ''KV storage'' limit)
               else areturn (trimSpace (KVNs_OrgID n)))))
        (fits e q ns key old delta) (quotaOK e q)"
    proof (rule runs_pure[where b = "trimSpace (KVNs_OrgID n) = qf_org q \<and> qf_org q \<noteq> []"])
      fix w assume w: "?P w \<and> GetKVNamespace_svc ns (w_store w) = Inr n"
      show "trimSpace (KVNs_OrgID n) = qf_org q \<and> qf_org q \<noteq> []" using get[OF w] assms by (simp add: limitedTo_def)
    next
      assume n: "trimSpace (KVNs_OrgID n) = qf_org q \<and> qf_org q \<noteq> []"
      show "runs e (\<lambda>w. ?P w \<and> GetKVNamespace_svc ns (w_store w) = Inr n)
        (if trimSpace (KVNs_OrgID n) = [] then areturn []
         else abind (storeGet (GetOrganization (trimSpace (KVNs_OrgID n)))) (\<lambda>org. case Limit_KVStorageBytes (OrgLimitsForLevel (Org_UsageLevel org)) of
             None \<Rightarrow> areturn (trimSpace (KVNs_OrgID n))
           | Some limit \<Rightarrow> abind (kvStorageBytesByOrg (trimSpace (KVNs_OrgID n))) (\<lambda>current.
               if current + delta > limit then afail (usageByteLimitError (Org_UsageLevel org) ''KV storage'' limit)
               else areturn (trimSpace (KVNs_OrgID n)))))
        (fits e q ns key old delta) (quotaOK e q)"
        unfolding n[THEN conjunct1] if_not_P[OF n[THEN conjunct2]]
        by (rule runs_pre[OF runs_bind[OF runs_storeGet_weak[where P = ?P] org]]) simp_all
    qed
  qed simp_all
qed

section \<open>The write\<close>

text \<open>After the write and before the cache is adjusted.\<close>

definition written :: "serviceEnv \<Rightarrow> quotaFacts \<Rightarrow> int \<Rightarrow> world \<Rightarrow> bool" where
  "written e q delta w \<longleftrightarrow> bounded q w \<and> coversBy e (qf_org q) (max 0 delta) w"

lemma fits_written: "fits e q ns key old delta payer w \<Longrightarrow> written e q delta w"
  unfolding fits_def quotaOK_def written_def by (simp add: coversBy_zero(1))

lemma holds_oldSize: "holds e ns key old w \<Longrightarrow> oldSize ns key (w_store w) = old"
  by (simp add: holds_def oldSize_opt opt0_def split: option.splits)

lemma put_written:
  assumes "limitedTo q ns" "fits e q ns key old (int (length value) - old) payer w"
    and run: "KVPutWithSizeDelta c ns key value opts (w_store w) = Inr (applied, s')"
  shows "applied = int (length value) - old" "written e q (int (length value) - old) (w\<lparr>w_store := s'\<rparr>)"
proof -
  have f: "bounded q w" "cacheCovers e w" "oldSize ns key (w_store w) = old"
    "0 < int (length value) - old \<longrightarrow> orgBytes (qf_org q) (w_store w) + (int (length value) - old) \<le> qf_bound q"
    using assms(2) by (auto simp: fits_def quotaOK_def holds_oldSize split: if_splits)
  have b: "metered (w_store w)" "kvNamespaces (w_store w) = qf_namespaces q" "organizations (w_store w) = qf_organizations q"
    "orgBytes (qf_org q) (w_store w) \<le> qf_bound q" using f(1) by (simp_all add: bounded_def)
  have s': "applied = int (length value) - old" "s' = adjustMetrics ns applied (putValue ns key value opts (w_store w))"
    using run f(3) by (auto simp: KVPutWithSizeDelta_def rbind_Inr_iff Let_def)
  show "applied = int (length value) - old" by (rule s'(1))
  have bytes: "storedBytes i s' = storedBytes i (w_store w) + (if i = ns then applied else 0)" for i
    using f(3) s'(1) unfolding s'(2) by (simp add: stored_put)
  have same: "kvNamespaces s' = kvNamespaces (w_store w)" "organizations s' = organizations (w_store w)"
    unfolding s'(2) by (simp_all add: adjustMetrics_def putValue_def)
  have owner: "\<exists>n. mget (kvNamespaces (w_store w)) ns = Some n \<and> KVNs_OrgID n = qf_org q"
    using assms(1) b(2) by (simp add: limitedTo_def split: option.splits)
  have total: "orgBytes o' s' = orgBytes o' (w_store w) + (if o' = qf_org q then applied else 0)" for o'
    using orgBytes_one[OF same(1) bytes, of o'] owner by auto
  have "metered s'" unfolding s'(2)
    by (rule metered_adjust[OF b(1)]) (simp add: putValue_def, simp add: stored_put f(3) s'(1))
  then have "bounded q (w\<lparr>w_store := s'\<rparr>)" using b same total[of "qf_org q"] s'(1) f(4) by (auto simp: bounded_def)
  moreover have "coversBy e (qf_org q) (max 0 (int (length value) - old)) (w\<lparr>w_store := s'\<rparr>)"
  proof -
    have "orgBytes o' s' \<le> kvu_size entry + (if o' = qf_org q then max 0 (int (length value) - old) else 0)"
      if "\<not> e_kvCacheDisabled e" "mget (w_kvOrgUsage w) o' = Some entry" for o' entry
    proof -
      have "orgBytes o' (w_store w) \<le> kvu_size entry" using f(2) that unfolding cacheCovers_def by blast
      then show ?thesis using total[of o'] s'(1) by auto
    qed
    then show ?thesis by (intro coversByI) simp
  qed
  ultimately show "written e q (int (length value) - old) (w\<lparr>w_store := s'\<rparr>)" by (simp add: written_def)
qed

text \<open>Dropping or adjusting the entry of the payer makes the cache cover the bytes again.\<close>

definition pays :: "quotaFacts \<Rightarrow> int \<Rightarrow> string \<Rightarrow> bool" where
  "pays q delta payer \<longleftrightarrow> payer = (if delta \<le> 0 then [] else qf_org q)"

lemma trimSpace_none [simp]: "trimSpace [] = []"
  by code_simp

lemma covers_shrink:
  assumes "written e q delta w" "delta \<le> 0"
  shows "quotaOK e q w"
  using assms coversBy_zero(2)[of e "qf_org q" 0 w] by (simp add: written_def quotaOK_def)

lemma covers_off: "e_kvCacheDisabled e \<Longrightarrow> written e q delta w \<Longrightarrow> quotaOK e q w"
  by (simp add: written_def quotaOK_def cacheCovers_def)

lemma covers_entry:
  assumes "written e q delta w"
    "\<And>entry. u (qf_org q) = Some entry \<Longrightarrow> \<exists>old. mget (w_kvOrgUsage w) (qf_org q) = Some old \<and> kvu_size old + max 0 delta \<le> kvu_size entry"
    "\<And>o'. o' \<noteq> qf_org q \<Longrightarrow> u o' = mget (w_kvOrgUsage w) o'" "mget cache = u"
  shows "quotaOK e q (w\<lparr>w_kvOrgUsage := cache\<rparr>)"
proof -
  have "orgBytes o' (w_store w) \<le> kvu_size entry" if on: "\<not> e_kvCacheDisabled e" "mget cache o' = Some entry" for o' entry
  proof -
    have c: "mget (w_kvOrgUsage w) o' = Some en \<Longrightarrow>
        orgBytes o' (w_store w) \<le> kvu_size en + (if o' = qf_org q then max 0 delta else 0)" for en
      using assms(1) on(1) unfolding written_def coversBy_def by blast
    show ?thesis
    proof (cases "o' = qf_org q")
      case True
      obtain en where en: "mget (w_kvOrgUsage w) (qf_org q) = Some en" "kvu_size en + max 0 delta \<le> kvu_size entry"
        using assms(2)[of entry] on(2) True unfolding assms(4) by blast
      have "orgBytes o' (w_store w) \<le> kvu_size en + max 0 delta" using c[of en] en(1) True by simp
      then show ?thesis using en(2) by linarith
    next
      case False
      then show ?thesis using c[of entry] assms(3)[OF False] on(2) unfolding assms(4) by simp
    qed
  qed
  then have "cacheCovers e (w\<lparr>w_kvOrgUsage := cache\<rparr>)" unfolding cacheCovers_def by simp blast
  then show ?thesis using assms(1) by (simp add: quotaOK_def written_def bounded_def)
qed

lemma invalidate_runs:
  assumes "limitedTo q ns" "pays q delta payer"
  shows "runs e (written e q delta) (invalidateKVOrgUsageCache payer) (\<lambda>_. quotaOK e q) R"
  unfolding runs_def invalidateKVOrgUsageCache_def uncached_def
proof (intro allI impI)
  fix w :: world assume w: "written e q delta w"
  have "quotaOK e q w" if "e_kvCacheDisabled e \<or> trimSpace payer = []"
  proof (cases "delta \<le> 0")
    case False
    then have "e_kvCacheDisabled e" using that assms by (simp add: pays_def limitedTo_def)
    then show ?thesis using w by (rule covers_off)
  qed (rule covers_shrink[OF w])
  moreover have "quotaOK e q (w\<lparr>w_kvOrgUsage := mdel payer (w_kvOrgUsage w)\<rparr>)"
    if "\<not> (e_kvCacheDisabled e \<or> trimSpace payer = [])"
  proof -
    have "payer = qf_org q" using that assms(2) by (auto simp: pays_def trimSpace_none split: if_splits)
    then show ?thesis by (intro covers_entry[OF w _ _ refl]) auto
  qed
  ultimately show "case abind (aenv (\<lambda>e. e_kvCacheDisabled e \<or> trimSpace payer = [])) (\<lambda>off. if off then areturn ()
       else (\<lambda>e w. (Inr (), w\<lparr>w_kvOrgUsage := mdel payer (w_kvOrgUsage w)\<rparr>))) e w of (Inl _, w') \<Rightarrow> R w' | (Inr a, w') \<Rightarrow> quotaOK e q w'"
    by (simp add: abind_def aenv_def)
qed

lemma adjust_runs:
  assumes "limitedTo q ns" "pays q delta payer"
  shows "runs e (written e q delta) (adjustKVOrgUsageCache payer delta) (\<lambda>_. quotaOK e q) R"
  unfolding runs_def adjustKVOrgUsageCache_def uncached_def
proof (intro allI impI)
  fix w :: world assume w: "written e q delta w"
  let ?en = "mget (w_kvOrgUsage w) payer"
  let ?to = "\<lambda>en. \<lparr>kvu_size = (if kvu_size en + delta < 0 then 0 else kvu_size en + delta),
      kvu_expiresAt = e_clock e (w_calls w) + kvOrgUsageCacheTTL\<rparr>"
  have off: "quotaOK e q w" if "e_kvCacheDisabled e \<or> trimSpace payer = []"
  proof (cases "delta \<le> 0")
    case False
    then have "e_kvCacheDisabled e" using that assms by (simp add: pays_def limitedTo_def)
    then show ?thesis using w by (rule covers_off)
  qed (rule covers_shrink[OF w])
  have payer: "payer = qf_org q" "0 < delta" if "\<not> (e_kvCacheDisabled e \<or> trimSpace payer = [])"
    using that assms(2) by (auto simp: pays_def trimSpace_none split: if_splits)
  have none: "quotaOK e q w" if "\<not> (e_kvCacheDisabled e \<or> trimSpace payer = [])" "?en = None"
    using covers_entry[OF w _ _ refl, of "w_kvOrgUsage w"] payer[OF that(1)] that(2) by simp
  have some: "quotaOK e q (w\<lparr>w_kvOrgUsage := mput payer (?to en) (w_kvOrgUsage w)\<rparr>)"
    if "\<not> (e_kvCacheDisabled e \<or> trimSpace payer = [])" "?en = Some en" for en
    using payer[OF that(1)] that(2) by (intro covers_entry[OF w _ _ refl]) auto
  show "case abind (aenv (\<lambda>e. e_kvCacheDisabled e \<or> trimSpace payer = [])) (\<lambda>off.
       if off then areturn ()
       else abind anow (\<lambda>now. abind (aworld (\<lambda>w. mget (w_kvOrgUsage w) payer)) (\<lambda>entry. case entry of
           None \<Rightarrow> areturn ()
         | Some en \<Rightarrow> cacheUsage payer \<lparr>kvu_size = (if kvu_size en + delta < 0 then 0 else kvu_size en + delta),
             kvu_expiresAt = now + kvOrgUsageCacheTTL\<rparr>))) e w of (Inl _, w') \<Rightarrow> R w' | (Inr a, w') \<Rightarrow> quotaOK e q w'"
    using off none some
    by (cases ?en) (auto simp: abind_def aenv_def anow_def aworld_def cacheUsage_def)
qed

section \<open>The whole request\<close>

lemma orInvalidate_runs:
  assumes "limitedTo q ns" "pays q delta payer" "runs e P m Q (written e q delta)"
  shows "runs e P (orInvalidate payer m) Q (quotaOK e q)"
  unfolding orInvalidate_def
proof (rule runs_bind[OF runs_try[OF assms(3)]])
  fix r
  show "runs e (\<lambda>w. case r of Inl _ \<Rightarrow> written e q delta w | Inr a \<Rightarrow> Q a w)
      (case r of Inl err \<Rightarrow> abind (invalidateKVOrgUsageCache payer) (\<lambda>_. afail err) | Inr a \<Rightarrow> areturn a) Q (quotaOK e q)"
  proof (cases r)
    case (Inl err)
    show ?thesis unfolding Inl sum.case
      by (rule runs_bind[OF invalidate_runs[OF assms(1,2)]]) (rule runs_return(2), assumption)
  next
    case (Inr a)
    show ?thesis unfolding Inr sum.case by (rule runs_return(1)) assumption
  qed
qed

lemma putOptimized_runs:
  assumes "limitedTo q ns" "delta = int (length value) - old"
  shows "runs e (fits e q ns key old delta payer)
    (abind (orInvalidate payer (storeRun (KVPutWithSizeDelta c ns key value opts))) (\<lambda>applied.
       if applied \<noteq> delta then invalidateKVOrgUsageCache payer else adjustKVOrgUsageCache payer applied))
    (\<lambda>_. quotaOK e q) (quotaOK e q)"
proof (rule runs_pure[where b = "pays q delta payer"])
  fix w assume "fits e q ns key old delta payer w"
  then show "pays q delta payer" by (simp add: fits_def pays_def split: if_splits)
next
  assume pays: "pays q delta payer"
  have put: "runs e (fits e q ns key old delta payer) (storeRun (KVPutWithSizeDelta c ns key value opts))
      (\<lambda>applied w. written e q delta w \<and> applied = delta) (written e q delta)"
  proof (rule runs_storeRun)
    fix w assume "fits e q ns key old delta payer w"
    then show "written e q delta (atick w)" using fits_written[of e q ns key old delta payer w] by (simp add: written_def)
  next
    fix w applied s' assume w: "fits e q ns key old delta payer w" and run: "KVPutWithSizeDelta c ns key value opts (w_store w) = Inr (applied, s')"
    have "fits e q ns key old delta payer (atick w)" using w by (simp add: fits_def)
    from put_written[OF assms(1) this[unfolded assms(2)]] run
    show "(written e q delta ((atick w)\<lparr>w_store := s'\<rparr>) \<and> applied = delta) \<and> written e q delta ((atick w)\<lparr>w_store := s'\<rparr>)"
      using assms(2) by simp
  qed
  show "runs e (fits e q ns key old delta payer)
    (abind (orInvalidate payer (storeRun (KVPutWithSizeDelta c ns key value opts))) (\<lambda>applied.
       if applied \<noteq> delta then invalidateKVOrgUsageCache payer else adjustKVOrgUsageCache payer applied))
    (\<lambda>_. quotaOK e q) (quotaOK e q)"
  proof (rule runs_bind[OF orInvalidate_runs[OF assms(1) pays put]])
    fix applied
    show "runs e (\<lambda>w. written e q delta w \<and> applied = delta)
        (if applied \<noteq> delta then invalidateKVOrgUsageCache payer else adjustKVOrgUsageCache payer applied) (\<lambda>_. quotaOK e q) (quotaOK e q)"
    proof (rule runs_pure[where b = "applied = delta"])
      assume [simp]: "applied = delta"
      show "runs e (\<lambda>w. written e q delta w \<and> applied = delta)
          (if applied \<noteq> delta then invalidateKVOrgUsageCache payer else adjustKVOrgUsageCache payer applied) (\<lambda>_. quotaOK e q) (quotaOK e q)"
        using adjust_runs[OF assms(1) pays, of e "quotaOK e q"] by simp
    qed simp
  qed
qed

lemma putWithinLimit_runs:
  assumes "limitedTo q ns" "e_kvOptimizer e"
  shows "runs e (\<lambda>w. quotaOK e q w \<and> steady e ns key (w_store w)) (putWithinLimit c ns key value opts) (\<lambda>_. quotaOK e q) (quotaOK e q)"
  unfolding putWithinLimit_def Let_def
proof (rule runs_bind[OF kvValueSize_runs])
  fix r :: "int \<times> bool"
  let ?delta = "int (length value) - fst r"
  show "runs e (\<lambda>w. quotaOK e q w \<and> holds e ns key (fst r) w)
     (case r of (old, _) \<Rightarrow> abind (enforceKVStorageBytesLimit ns (int (length value) - old)) (\<lambda>orgID.
       abind (aenv e_kvOptimizer) (\<lambda>optimized.
         if optimized
         then abind (orInvalidate orgID (storeRun (KVPutWithSizeDelta c ns key value [opts]))) (\<lambda>applied.
           if applied \<noteq> int (length value) - old then invalidateKVOrgUsageCache orgID else adjustKVOrgUsageCache orgID applied)
         else abind (orInvalidate orgID (storeDo (KVPut c ns key value [opts]))) (\<lambda>_.
           abind (orInvalidate orgID (storeDo (AdjustKVNamespaceSize ns (int (length value) - old)))) (\<lambda>_.
             adjustKVOrgUsageCache orgID (int (length value) - old))))))
     (\<lambda>_. quotaOK e q) (quotaOK e q)"
    unfolding case_prod_unfold
  proof (rule runs_bind[OF enforceKVStorageBytesLimit_runs[OF assms(1)]])
    fix payer
    show "runs e (fits e q ns key (fst r) ?delta payer)
       (abind (aenv e_kvOptimizer) (\<lambda>optimized.
         if optimized
         then abind (orInvalidate payer (storeRun (KVPutWithSizeDelta c ns key value [opts]))) (\<lambda>applied.
           if applied \<noteq> ?delta then invalidateKVOrgUsageCache payer else adjustKVOrgUsageCache payer applied)
         else abind (orInvalidate payer (storeDo (KVPut c ns key value [opts]))) (\<lambda>_.
           abind (orInvalidate payer (storeDo (AdjustKVNamespaceSize ns ?delta))) (\<lambda>_.
             adjustKVOrgUsageCache payer ?delta))))
       (\<lambda>_. quotaOK e q) (quotaOK e q)"
      using putOptimized_runs[OF assms(1) refl, of e key "fst r" "value" payer c "[opts]"] assms(2)
      by (simp add: runs_def abind_def aenv_def)
  qed
qed

text \<open>Authorization keeps the data and the cached sums.\<close>

definition quotaPart :: "world \<Rightarrow> Store \<times> (string, orgKVUsageCacheEntry) gomap" where
  "quotaPart w = (w_store w, w_kvOrgUsage w)"

interpretation quota: authorization_frame quotaPart
  by unfold_locales (simp_all add: quotaPart_def atick_def)

lemma quotaPart_capability: "keeps quotaPart (runtimeKVCapability capability ns)"
  unfolding runtimeKVCapability_def by (intro keeps_rules)

lemma KVPutWithOptions_runs:
  assumes "limitedTo q ns" "e_kvOptimizer e"
  shows "runs e (\<lambda>w. quotaOK e q w \<and> steady e ns key (w_store w)) (KVPutWithOptions capability ns key content opts) (\<lambda>_. quotaOK e q) (quotaOK e q)"
  unfolding KVPutWithOptions_def authorized_def
proof (rule runs_bind)
  let ?P = "\<lambda>w. quotaOK e q w \<and> steady e ns key (w_store w)"
  have part: "?P w' = ?P w" if "quotaPart w' = quotaPart w" for w w'
    using that by (simp add: quotaPart_def quotaOK_def bounded_def cacheCovers_def)
  show "runs e ?P (runtimeKVCapability capability ns) (\<lambda>_. ?P) (quotaOK e q)"
    unfolding runs_def
  proof (intro allI impI)
    fix w assume w: "?P w"
    have "?P (snd (runtimeKVCapability capability ns e w))"
      using w part[OF quotaPart_capability[unfolded keeps_def, rule_format]] by simp
    then show "case runtimeKVCapability capability ns e w of (Inl _, w') \<Rightarrow> quotaOK e q w' | (Inr a, w') \<Rightarrow> ?P w'"
      by (auto split: prod.split sum.split)
  qed
  fix c
  show "runs e ?P (case c of None \<Rightarrow> areturn None | Some p \<Rightarrow> asome (putWithinLimit p ns key content opts)) (\<lambda>_. quotaOK e q) (quotaOK e q)"
  proof (cases c)
    case (Some p)
    show ?thesis unfolding Some option.case asome_def
      by (rule runs_bind[OF putWithinLimit_runs[OF assms]]) (rule runs_return(1), assumption)
  qed (simp add: runs_def)
qed

text \<open>C29: Provided that the value it replaces does not expire during the request, a write of a key-value pair never brings an organization above its storage limit, whatever fails on the way (authorization, reads, the write itself or its answer): afterwards the bytes stored in its namespaces are at most the limit, or at most what they were before. The cached sum that the check relies on never falls below the bytes really stored, and the reported sizes still equal them. Before the request the cached sums cover the stored bytes and the reported sizes equal them; the repository writes the value and the size in one step, as both repositories of the program do. (A value that expires between the reading of its size and the sum is not counted, and the write may then exceed the limit.)\<close>

theorem kv_quota:
  assumes "e_kvOptimizer e" "metered (w_store w)" "cacheCovers e w" "steady e ns key (w_store w)"
    and "mget (kvNamespaces (w_store w)) ns = Some n" "trimSpace ns = ns" "ns \<noteq> []"
    and "trimSpace (KVNs_OrgID n) = KVNs_OrgID n" "KVNs_OrgID n \<noteq> []"
    and "GetOrganization (KVNs_OrgID n) (w_store w) = Inr owner"
    and "Limit_KVStorageBytes (OrgLimitsForLevel (Org_UsageLevel owner)) = Some limit"
    and "KVPutWithOptions capability ns key content options e w = (r, w')"
  shows "orgBytes (KVNs_OrgID n) (w_store w') \<le> max limit (orgBytes (KVNs_OrgID n) (w_store w))
    \<and> cacheCovers e w' \<and> metered (w_store w')"
proof -
  define q where "q = \<lparr>qf_namespaces = kvNamespaces (w_store w), qf_organizations = organizations (w_store w),
    qf_org = KVNs_OrgID n, qf_bound = max limit (orgBytes (KVNs_OrgID n) (w_store w))\<rparr>"
  have "limitedTo q ns"
    using assms(5-11) by (auto simp: q_def limitedTo_def GetOrganization_def split: option.splits)
  moreover have "quotaOK e q w" using assms(2,3) by (simp add: q_def quotaOK_def bounded_def)
  ultimately have "quotaOK e q w'"
    using runsD[OF KVPutWithOptions_runs[where e = e and key = key and capability = capability and content = content and opts = options], of q ns w] assms(1,4,12)
    by (auto split: sum.splits)
  then show ?thesis by (simp add: quotaOK_def bounded_def q_def)
qed

definition quotaStore :: Store where
  "quotaStore = capStore\<lparr>organizations := mput ''o'' (Organization0\<lparr>Org_ID := ''o''\<rparr>) mempty\<rparr>"

definition quotaEnv :: serviceEnv where
  "quotaEnv = capEnv\<lparr>e_kvOptimizer := True\<rparr>"

theorem kv_quota_witness:
  "\<exists>w'. KVPutWithOptions [] ''n'' ''k'' ''abc'' \<lparr>KVPutOpt_Expiration = None\<rparr> quotaEnv (worldOf quotaStore) = (Inr (Some ()), w')
     \<and> orgBytes ''o'' (w_store w') \<le> max (100 * 1024 * 1024) 0 \<and> cacheCovers quotaEnv w'"
proof -
  have run: "fst (KVPutWithOptions [] ''n'' ''k'' ''abc'' \<lparr>KVPutOpt_Expiration = None\<rparr> quotaEnv (worldOf quotaStore)) = Inr (Some ())"
    by code_simp
  have "mget (w_kvOrgUsage (worldOf quotaStore)) o' = None" for o' by (simp add: worldOf_def)
  then have start: "metered (w_store (worldOf quotaStore))" "cacheCovers quotaEnv (worldOf quotaStore)"
    by (simp_all add: cacheCovers_def metered_def storedBytes_def chargedBytes_def worldOf_def quotaStore_def capStore_def NewStore_def msum_def mget0_empty KVNamespaceMetrics0_def)
  have "mget2 (kv (w_store (worldOf quotaStore))) ''n'' ''k'' = None" by code_simp
  then have steady: "e_kvOptimizer quotaEnv" "steady quotaEnv ''n'' ''k'' (w_store (worldOf quotaStore))"
    by (simp_all add: steady_def quotaEnv_def)
  have side: "mget (kvNamespaces (w_store (worldOf quotaStore))) ''n'' = Some (KVNamespace0\<lparr>KVNs_ID := ''n'', KVNs_OrgID := ''o''\<rparr>)"
    "trimSpace ''n'' = ''n''" "trimSpace ''o'' = ''o''"
    "GetOrganization ''o'' (w_store (worldOf quotaStore)) = Inr (normalizedOrg (Organization0\<lparr>Org_ID := ''o''\<rparr>))"
    "Limit_KVStorageBytes (OrgLimitsForLevel (Org_UsageLevel (normalizedOrg (Organization0\<lparr>Org_ID := ''o''\<rparr>)))) = Some (100 * 1024 * 1024)"
    "orgBytes ''o'' (w_store (worldOf quotaStore)) = 0"
    by code_simp+
  obtain w' where w': "KVPutWithOptions [] ''n'' ''k'' ''abc'' \<lparr>KVPutOpt_Expiration = None\<rparr> quotaEnv (worldOf quotaStore) = (Inr (Some ()), w')"
    using run by (metis prod.collapse)
  show ?thesis
    using kv_quota[OF steady(1) start steady(2) side(1,2) _ _ _ _ _ w', of "normalizedOrg (Organization0\<lparr>Org_ID := ''o''\<rparr>)" "100 * 1024 * 1024"] side w'
    by simp
qed

end
