(* ===== verification/Auth_Service.thy ===== *)
theory Auth_Service
  imports Service_World Go_Time
begin

text \<open>
  Users, sessions, organizations and their members, invitations and personal access tokens:
  \<open>auth.go\<close> and \<open>pat.go\<close>. bcrypt, HMAC and JSON are parameters; letters outside ASCII keep their case.
\<close>

section \<open>Tokens\<close>

text \<open>The tables hold the SHA-256 of a token in place of the token.\<close>

definition tokenHash :: "serviceEnv \<Rightarrow> string \<Rightarrow> string" where
  "tokenHash e token = e_hash e (trimSpace token)"

definition hashed :: "string \<Rightarrow> string act" where
  "hashed token = aenv (\<lambda>e. tokenHash e token)"

text \<open>\<open>bcrypt.GenerateFromPassword\<close> draws its salt where the call is made.\<close>

definition passwordHash :: "string \<Rightarrow> string act" where
  "passwordHash password = (\<lambda>e w. (e_passwordHash e (w_calls w) password, atick w))"

definition storeDoAt :: "(time \<Rightarrow> Store \<Rightarrow> Store result) \<Rightarrow> unit act" where
  "storeDoAt f = (\<lambda>e w. storeDo (f (e_clock e (w_calls w))) e w)"

section \<open>Sessions\<close>

record AuthSession =
  Sess_Token :: string
  Sess_TokenType :: string
  Sess_RefreshToken :: string
  Sess_ExpiresIn :: int
  Sess_User :: User
  Sess_Organizations :: "Organization list"
  Sess_ActiveOrgID :: string

definition AuthSession0 :: AuthSession where
  "AuthSession0 = \<lparr>Sess_Token = [], Sess_TokenType = [], Sess_RefreshToken = [], Sess_ExpiresIn = 0, Sess_User = User0,
     Sess_Organizations = [], Sess_ActiveOrgID = []\<rparr>"

definition defaultControlTokenTTL :: time where
  "defaultControlTokenTTL = 24 * 3600 * second"

definition defaultControlRefreshTTL :: time where
  "defaultControlRefreshTTL = 30 * 24 * 3600 * second"

definition defaultInviteTTL :: time where
  "defaultInviteTTL = 7 * 24 * 3600 * second"

definition normalizeCredentials :: "string \<Rightarrow> string \<Rightarrow> (string \<times> string) result" where
  "normalizeCredentials email password =
     (let m = toLower (trimSpace email); p = trimSpace password in
      if m = [] then Inl (ErrText ''email is required'')
      else if CHR ''@'' \<notin> set m then Inl (ErrText ''email must be valid'')
      else if p = [] then Inl (ErrText ''password is required'')
      else Inr (m, p))"

definition safeUser :: "User \<Rightarrow> User" where
  "safeUser user = user\<lparr>User_PasswordHash := []\<rparr>"

definition firstOrgID :: "Organization list \<Rightarrow> string" where
  "firstOrgID orgs = (case orgs of [] \<Rightarrow> [] | org # _ \<Rightarrow> Org_ID org)"

definition unixTime :: "time \<Rightarrow> int" where
  "unixTime t = t div second"

text \<open>A JSON web token: header, claims (subject, email, expiry) and HMAC.\<close>

definition issueToken :: "User \<Rightarrow> string act" where
  "issueToken user =
     abind (aenv id) (\<lambda>e.
       if e_authSecret e = [] then afail (ErrText ''control auth secret is not configured'')
       else abind anow (\<lambda>now.
         let signing = base64Encode (e_jwtHeader e) @ ''.''
           @ base64Encode (e_claimsJSON e (User_ID user, User_Email user, unixTime (now + defaultControlTokenTTL))) in
         areturn (signing @ ''.'' @ base64Encode (e_hmac e (e_authSecret e) signing))))"

definition validClaims :: "serviceEnv \<Rightarrow> time \<Rightarrow> string \<Rightarrow> User result" where
  "validClaims e now payload =
     (case Option.bind (base64Decode payload) (e_claimsOf e) of
        None \<Rightarrow> Inl (ErrText ''invalid token'')
      | Some (subject, email, expires) \<Rightarrow>
          if subject = [] \<or> email = [] \<or> expires \<le> unixTime now then Inl (ErrText ''invalid token'')
          else Inr (User0\<lparr>User_ID := subject, User_Email := email\<rparr>))"

definition ValidateToken :: "string \<Rightarrow> User act" where
  "ValidateToken token =
     abind (aenv id) (\<lambda>e.
       if e_authSecret e = [] then afail (ErrText ''control auth secret is not configured'')
       else (case splitOn CHR ''.'' token of
           [header, payload, signature] \<Rightarrow>
             if base64Decode signature \<noteq> Some (e_hmac e (e_authSecret e) (header @ ''.'' @ payload)) then afail (ErrText ''invalid token'')
             else abind anow (\<lambda>now. alift (validClaims e now payload))
         | _ \<Rightarrow> afail (ErrText ''invalid token'')))"

definition issueRefreshToken :: "User \<Rightarrow> string act" where
  "issueRefreshToken user =
     abind randomToken (\<lambda>refresh. abind anow (\<lambda>now. abind (hashed refresh) (\<lambda>h.
       abind (storeDo (CreateControlRefreshToken (ControlRefreshToken0\<lparr>Refresh_TokenHash := h, Refresh_UserID := User_ID user,
         Refresh_ExpiresAt := now + defaultControlRefreshTTL, Refresh_CreatedAt := now\<rparr>))) (\<lambda>_. areturn refresh))))"

definition sessionForUser :: "User \<Rightarrow> AuthSession act" where
  "sessionForUser user =
     abind (storeGet (ListOrganizationsForUser (User_ID user))) (\<lambda>orgs.
     abind (issueToken user) (\<lambda>token. abind (issueRefreshToken user) (\<lambda>refresh.
       areturn \<lparr>Sess_Token = token, Sess_TokenType = ''Bearer'', Sess_RefreshToken = refresh,
         Sess_ExpiresIn = defaultControlTokenTTL div second, Sess_User = safeUser user, Sess_Organizations = orgs,
         Sess_ActiveOrgID = firstOrgID orgs\<rparr>)))"

section \<open>Signing in\<close>

definition Signup :: "string \<Rightarrow> string \<Rightarrow> AuthSession act" where
  "Signup email password =
     abind (alift (normalizeCredentials email password)) (\<lambda>(m, p).
     abind randomToken (\<lambda>userID. abind (passwordHash p) (\<lambda>h. abind anow (\<lambda>now.
       let user = \<lparr>User_ID = userID, User_Email = m, User_PasswordHash = h, User_CreatedAt = now\<rparr> in
       abind (storeDo (CreateUser user)) (\<lambda>_. sessionForUser user)))))"

definition Login :: "string \<Rightarrow> string \<Rightarrow> AuthSession act" where
  "Login email password =
     abind (alift (normalizeCredentials email password)) (\<lambda>(m, p).
     abind (atry (storeGet (UserByEmail m))) (\<lambda>r. case r of
       Inl err \<Rightarrow> afail (if errorsIs err ErrUserNotFound then ErrInvalidCredentials else err)
     | Inr user \<Rightarrow> abind (aenv (\<lambda>e. e_passwordMatches e (User_PasswordHash user) p)) (\<lambda>ok.
         if \<not> ok then afail ErrInvalidCredentials else sessionForUser user)))"

text \<open>\<open>strings.TrimRight(s, "/")\<close> and \<open>strings.Contains(email, "@")\<close>.\<close>

definition oidcUser :: "string \<Rightarrow> User act" where
  "oidcUser email =
     abind (atry (storeGet (UserByEmail email))) (\<lambda>r. case r of
       Inr user \<Rightarrow> areturn user
     | Inl err \<Rightarrow>
         if \<not> errorsIs err ErrUserNotFound then afail err
         else abind randomToken (\<lambda>userID. abind anow (\<lambda>now.
           let user = \<lparr>User_ID = userID, User_Email = email, User_PasswordHash = [], User_CreatedAt = now\<rparr> in
           abind (atry (storeDo (CreateUser user))) (\<lambda>made. case made of
             Inr _ \<Rightarrow> areturn user
           | Inl er \<Rightarrow> if \<not> errorsIs er ErrUserExists then afail er else storeGet (UserByEmail email)))))"

definition LoginOIDC :: "string \<Rightarrow> string \<Rightarrow> string \<Rightarrow> AuthSession act" where
  "LoginOIDC issuer subject email =
     (let iss = trimRightByte CHR ''/'' (trimSpace issuer); sub = trimSpace subject; m = toLower (trimSpace email) in
      abind (aguard (iss \<noteq> []) (ErrText ''oidc issuer is required'')) (\<lambda>_.
      abind (aguard (sub \<noteq> []) (ErrText ''oidc subject is required'')) (\<lambda>_.
      abind (aguard (m \<noteq> [] \<and> CHR ''@'' \<in> set m) (ErrText ''oidc email must be valid'')) (\<lambda>_.
      abind (atry (storeGet (UserByOIDCIdentity iss sub))) (\<lambda>r. case r of
        Inr user \<Rightarrow> sessionForUser user
      | Inl err \<Rightarrow>
          if \<not> errorsIs err ErrOIDCIdentityNotFound then afail err
          else abind (oidcUser m) (\<lambda>user. abind anow (\<lambda>now.
            abind (atry (storeDo (CreateOIDCIdentity \<lparr>Identity_UserID = User_ID user, Identity_Issuer = iss, Identity_Subject = sub,
              Identity_CreatedAt = now\<rparr>))) (\<lambda>linked. case linked of
                Inr _ \<Rightarrow> sessionForUser user
              | Inl er \<Rightarrow> if \<not> errorsIs er ErrOIDCIdentityExists then afail er
                  else abind (storeGet (UserByOIDCIdentity iss sub)) sessionForUser)))))))) "

definition Me :: "string \<Rightarrow> AuthSession act" where
  "Me token =
     abind (ValidateToken token) (\<lambda>user. abind (storeGet (ListOrganizationsForUser (User_ID user))) (\<lambda>orgs.
       areturn (AuthSession0\<lparr>Sess_User := safeUser user, Sess_Organizations := orgs, Sess_ActiveOrgID := firstOrgID orgs\<rparr>)))"

definition SessionForUserID :: "string \<Rightarrow> AuthSession act" where
  "SessionForUserID userID = abind (storeGet (UserByID (trimSpace userID))) sessionForUser"

definition invalidRefresh :: error where
  "invalidRefresh = ErrText ''invalid refresh token''"

definition refreshOrInvalid :: "'a act \<Rightarrow> 'a act" where
  "refreshOrInvalid m = abind (atry m) (\<lambda>r. case r of
     Inl err \<Rightarrow> afail (if errorsIs err ErrControlRefreshTokenNotFound then invalidRefresh else err) | Inr a \<Rightarrow> areturn a)"

definition Refresh_session :: "string \<Rightarrow> AuthSession act" where
  "Refresh_session refreshToken =
     (if trimSpace refreshToken = [] then afail (ErrText ''refresh token is required'')
      else abind anow (\<lambda>now. abind (hashed refreshToken) (\<lambda>h.
        abind (refreshOrInvalid (storeGet (getControlRefreshToken h))) (\<lambda>existing.
          if Refresh_RevokedAt existing \<noteq> None \<or> Refresh_ExpiresAt existing \<le> now then afail invalidRefresh
          else abind (refreshOrInvalid (storeDo (UpdateControlRefreshToken (existing\<lparr>Refresh_RevokedAt := Some now\<rparr>)))) (\<lambda>_.
            abind (storeGet (UserByID (Refresh_UserID existing))) sessionForUser)))))"

section \<open>Organizations and members\<close>

definition Membership :: "string \<Rightarrow> string \<Rightarrow> OrganizationMembership act" where
  "Membership userID orgID = storeGet (getOrganizationMembership userID orgID)"

definition UserCount_svc :: "int act" where
  "UserCount_svc = storeGet (\<lambda>s. Inr (UserCount s))"

definition CreateOrganization_svc :: "string \<Rightarrow> string \<Rightarrow> Organization act" where
  "CreateOrganization_svc userID name =
     abind (aguard (trimSpace name \<noteq> []) (ErrText ''name is required'')) (\<lambda>_.
     abind randomToken (\<lambda>orgID. abind anow (\<lambda>now.
       let org = Organization0\<lparr>Org_ID := orgID, Org_Name := trimSpace name, Org_UsageLevel := ''default'', Org_CreatedAt := now\<rparr> in
       abind (storeDo (CreateOrganization org)) (\<lambda>_.
       abind (storeDoAt (UpsertOrganizationMembership (OrganizationMembership0\<lparr>Member_UserID := userID, Member_OrgID := orgID,
         Member_Role := ''owner'', Member_Scopes := RoleScopes ''owner'', Member_CreatedAt := now\<rparr>))) (\<lambda>_.
         areturn (org\<lparr>Org_Role := ''owner'', Org_Scopes := RoleScopes ''owner''\<rparr>))))))"

definition Members :: "string \<Rightarrow> OrganizationMembership list act" where
  "Members orgID = storeGet (ListOrganizationMembers (trimSpace orgID))"

text \<open>An owner may leave the role only while there is another owner.\<close>

definition ensureNotLastOwner :: "OrganizationMembership \<Rightarrow> string \<Rightarrow> unit act" where
  "ensureNotLastOwner existing orgID =
     (if Member_Role existing = ''owner''
      then abind (storeGet (\<lambda>s. Inr (OwnerCount orgID s))) (\<lambda>count. aguard (1 < count) ErrLastOwner)
      else areturn ())"

definition UpdateMembership :: "string \<Rightarrow> string \<Rightarrow> string \<Rightarrow> OrganizationMembership act" where
  "UpdateMembership orgID userID role0 =
     (let role = NormalizeRole role0 in
      abind (aguard (role \<noteq> []) (ErrText ''role is required'')) (\<lambda>_.
      abind (storeGet (getOrganizationMembership (trimSpace userID) (trimSpace orgID))) (\<lambda>existing.
      abind (if role \<noteq> ''owner'' then ensureNotLastOwner existing orgID else areturn ()) (\<lambda>_.
      abind (storeDoAt (UpsertOrganizationMembership (existing\<lparr>Member_Role := role, Member_Scopes := RoleScopes role\<rparr>))) (\<lambda>_.
        storeGet (getOrganizationMembership userID orgID))))))"

definition DeleteMembership :: "string \<Rightarrow> string \<Rightarrow> unit act" where
  "DeleteMembership orgID userID =
     abind (storeGet (getOrganizationMembership (trimSpace userID) (trimSpace orgID))) (\<lambda>existing.
     abind (ensureNotLastOwner existing orgID) (\<lambda>_. storeDo (DeleteOrganizationMembership userID orgID)))"

section \<open>Invitations\<close>

record InviteCreated =
  InvCr_Invite :: OrganizationInvite
  InvCr_Token :: string
  InvCr_InviteURL :: string

definition CreateInvite :: "User \<Rightarrow> string \<Rightarrow> string \<Rightarrow> string \<Rightarrow> string \<Rightarrow> InviteCreated act" where
  "CreateInvite inviter orgID email0 role0 baseURL =
     (let email = toLower (trimSpace email0); role = NormalizeRole role0 in
      abind (aguard (email \<noteq> [] \<and> CHR ''@'' \<in> set email) (ErrText ''email must be valid'')) (\<lambda>_.
      abind (aguard (role \<noteq> []) (ErrText ''role is required'')) (\<lambda>_.
      abind randomToken (\<lambda>token. abind randomToken (\<lambda>i. abind anow (\<lambda>now. abind (hashed token) (\<lambda>h.
        let invite = OrganizationInvite0\<lparr>Invite_ID := i, Invite_TokenHash := h, Invite_OrgID := trimSpace orgID, Invite_Email := email,
          Invite_Role := role, Invite_Scopes := RoleScopes role, Invite_InviterID := User_ID inviter,
          Invite_ExpiresAt := now + defaultInviteTTL, Invite_CreatedAt := now\<rparr> in
        abind (storeDo (CreateOrganizationInvite invite)) (\<lambda>_.
          areturn \<lparr>InvCr_Invite = invite, InvCr_Token = token,
            InvCr_InviteURL = trimRightByte CHR ''/'' baseURL @ ''/invites/'' @ token\<rparr>))))))))"

definition Invites :: "string \<Rightarrow> OrganizationInvite list act" where
  "Invites orgID = storeGet (\<lambda>s. Inr (OrganizationInvitesByOrg (trimSpace orgID) s))"

definition RevokeInvite :: "string \<Rightarrow> string \<Rightarrow> unit act" where
  "RevokeInvite orgID inviteID =
     abind (storeGet (OrganizationInviteByID (trimSpace orgID) (trimSpace inviteID))) (\<lambda>invite.
     abind (aguard (Invite_AcceptedAt invite = None) ErrInviteUsed) (\<lambda>_.
     abind (aguard (Invite_RevokedAt invite = None) ErrInviteRevoked) (\<lambda>_.
     abind anow (\<lambda>now. storeDo (UpdateOrganizationInvite (invite\<lparr>Invite_RevokedAt := Some now\<rparr>))))))"

definition Invite :: "string \<Rightarrow> OrganizationInvite act" where
  "Invite token = abind (hashed token) (\<lambda>h. storeGet (OrganizationInviteByTokenHash h))"

text \<open>\<open>strings.EqualFold\<close>, with the case of ASCII letters only.\<close>

definition equalFold :: "string \<Rightarrow> string \<Rightarrow> bool" where
  "equalFold a b \<longleftrightarrow> toLower a = toLower b"

definition AcceptInvite :: "string \<Rightarrow> User \<Rightarrow> OrganizationMembership act" where
  "AcceptInvite token user =
     abind (Invite token) (\<lambda>invite. abind anow (\<lambda>now.
     abind (aguard (Invite_RevokedAt invite = None) ErrInviteRevoked) (\<lambda>_.
     abind (aguard (Invite_AcceptedAt invite = None) ErrInviteUsed) (\<lambda>_.
     abind (aguard (now < Invite_ExpiresAt invite) ErrInviteExpired) (\<lambda>_.
     abind (aguard (equalFold (User_Email user) (Invite_Email invite)) ErrInviteEmailMismatch) (\<lambda>_.
       let membership = OrganizationMembership0\<lparr>Member_UserID := User_ID user, Member_OrgID := Invite_OrgID invite,
         Member_Role := Invite_Role invite, Member_Scopes := Invite_Scopes invite, Member_CreatedAt := now\<rparr> in
       abind (storeDoAt (UpsertOrganizationMembership membership)) (\<lambda>_.
       abind (storeDo (UpdateOrganizationInvite (invite\<lparr>Invite_AcceptedAt := Some now\<rparr>))) (\<lambda>_. areturn membership))))))))"

section \<open>Personal access tokens\<close>

definition AllowedControlScopes :: "string list" where
  "AllowedControlScopes = [''namespaces:read'', ''namespaces:write'', ''namespaces:dispatch'', ''workers:read'', ''workers:write'',
     ''deployments:write'', ''secrets:write'', ''kv:read'', ''kv:write'', ''db:read'', ''db:write'', ''objects:read'', ''objects:write'',
     ''orgs:read'', ''orgs:write'', ''members:read'', ''members:write'', ''members:owner'']"

definition normalizePATScopes :: "string list \<Rightarrow> string list" where
  "normalizePATScopes values = sortBy id (remdups (concat (map wordsOf values)))"

definition scopesSubset :: "string list \<Rightarrow> string list \<Rightarrow> bool" where
  "scopesSubset scopes allowed = list_all (HasScope allowed) scopes"

definition allKnownScopes :: "string list \<Rightarrow> bool" where
  "allKnownScopes scopes = scopesSubset scopes AllowedControlScopes"

definition scopeIntersection :: "string list \<Rightarrow> string list \<Rightarrow> string list" where
  "scopeIntersection left right = sortBy id (filter (HasScope right) left)"

definition filterOrganizations :: "Organization list \<Rightarrow> string \<Rightarrow> Organization list" where
  "filterOrganizations orgs orgID = (case find (\<lambda>o'. Org_ID o' = orgID) orgs of None \<Rightarrow> [] | Some org \<Rightarrow> [org])"

record CreatePersonalAccessTokenInput =
  PATIn_Name :: string
  PATIn_ScopeType :: string
  PATIn_OrgID :: string
  PATIn_Scopes :: "string list"
  PATIn_ExpiresAt :: "time option"

record PATAccess =
  PATAcc_Token :: PersonalAccessToken
  PATAcc_User :: User
  PATAcc_OrgID :: string
  PATAcc_Scopes :: "string list"
  PATAcc_ScopeType :: string

text \<open>The scopes a new token gets.\<close>

definition newTokenScopes :: "User \<Rightarrow> string \<Rightarrow> string \<Rightarrow> string list \<Rightarrow> string list act" where
  "newTokenScopes user scopeType orgID scopes =
     (if scopeType = ''org''
      then abind (storeGet (getOrganizationMembership (User_ID user) orgID)) (\<lambda>m.
        let chosen = (if scopes = [] then Member_Scopes m else scopes) in
        if \<not> scopesSubset chosen (Member_Scopes m) then afail (ErrText ''personal access token scopes exceed organization membership'')
        else areturn chosen)
      else if scopes = [] then areturn AllowedControlScopes
      else if \<not> allKnownScopes scopes then afail (ErrText ''personal access token contains an unknown scope'')
      else areturn scopes)"

definition CreatePersonalAccessToken_svc :: "string \<Rightarrow> CreatePersonalAccessTokenInput \<Rightarrow> (PersonalAccessToken \<times> string) act" where
  "CreatePersonalAccessToken_svc userID input =
     abind (storeGet (UserByID (trimSpace userID))) (\<lambda>user.
     abind (aguard (trimSpace (PATIn_Name input) \<noteq> []) (ErrText ''name is required'')) (\<lambda>_.
       let given = toLower (trimSpace (PATIn_ScopeType input)); scopeType = (if given = [] then ''user'' else given) in
     abind (aguard (scopeType = ''user'' \<or> scopeType = ''org'') (ErrText ''scope_type must be user or org'')) (\<lambda>_.
     abind (aguard (\<not> (scopeType = ''org'' \<and> trimSpace (PATIn_OrgID input) = []))
       (ErrText ''org_id is required for org-scoped personal access tokens'')) (\<lambda>_.
       let orgID = (if scopeType = ''user'' then [] else trimSpace (PATIn_OrgID input)) in
     abind (newTokenScopes user scopeType orgID (normalizePATScopes (PATIn_Scopes input))) (\<lambda>scopes.
     abind anow (\<lambda>start.
     abind (aguard (case PATIn_ExpiresAt input of None \<Rightarrow> True | Some t \<Rightarrow> start < t) (ErrText ''expires_at must be in the future'')) (\<lambda>_.
     abind randomToken (\<lambda>i. abind randomToken (\<lambda>plain. abind anow (\<lambda>now. abind (hashed plain) (\<lambda>h.
       let token = PersonalAccessToken0\<lparr>PAT_ID := i, PAT_TokenHash := h, PAT_Name := trimSpace (PATIn_Name input), PAT_UserID := User_ID user,
         PAT_OrgID := orgID, PAT_ScopeType := scopeType, PAT_Scopes := scopes, PAT_ExpiresAt := PATIn_ExpiresAt input, PAT_CreatedAt := now\<rparr> in
       abind (storeDo (CreatePersonalAccessToken token)) (\<lambda>_. areturn (token, plain)))))))))))))"

definition PersonalAccessTokens :: "string \<Rightarrow> PersonalAccessToken list act" where
  "PersonalAccessTokens userID = storeGet (\<lambda>s. Inr (PersonalAccessTokensByUser (trimSpace userID) s))"

definition RevokePersonalAccessToken :: "string \<Rightarrow> string \<Rightarrow> unit act" where
  "RevokePersonalAccessToken userID tokenID =
     abind (PersonalAccessTokens userID) (\<lambda>tokens. case find (\<lambda>t. PAT_ID t = trimSpace tokenID) tokens of
       None \<Rightarrow> afail ErrPersonalAccessTokenNotFound
     | Some token \<Rightarrow> abind anow (\<lambda>now. storeDo (UpdatePersonalAccessToken (token\<lparr>PAT_RevokedAt := Some now\<rparr>))))"

text \<open>The record of a token that is neither revoked nor expired, with the time of the check.\<close>

definition tokenRecord :: "string \<Rightarrow> (PersonalAccessToken \<times> time) act" where
  "tokenRecord tokenValue =
     abind (hashed tokenValue) (\<lambda>h. abind (atry (storeGet (PersonalAccessTokenByHash h))) (\<lambda>r. case r of
       Inl _ \<Rightarrow> afail (ErrText ''invalid token'')
     | Inr record' \<Rightarrow> abind anow (\<lambda>now.
         if PAT_RevokedAt record' \<noteq> None \<or> (case PAT_ExpiresAt record' of None \<Rightarrow> False | Some t \<Rightarrow> t \<le> now)
         then afail (ErrText ''invalid token'') else areturn (record', now))))"

text \<open>The organization and the scopes a token stands for.\<close>

definition tokenReach :: "PersonalAccessToken \<Rightarrow> string \<Rightarrow> (string \<times> string list) act" where
  "tokenReach record' requestedOrgID =
     (if PAT_ScopeType record' = ''org'' then areturn (PAT_OrgID record', PAT_Scopes record')
      else if PAT_ScopeType record' = ''user'' then
        (if trimSpace requestedOrgID = [] then afail (ErrText ''X-Nanoflare-Org-ID is required'')
         else abind (storeGet (getOrganizationMembership (PAT_UserID record') (trimSpace requestedOrgID))) (\<lambda>m.
           let scopes = scopeIntersection (PAT_Scopes record') (Member_Scopes m) in
           if scopes = [] then afail (ErrText ''personal access token has no scopes for this organization'')
           else areturn (trimSpace requestedOrgID, scopes)))
      else afail (ErrText ''invalid token''))"

text \<open>The time of the last use is written back, and an error of that write is ignored.\<close>

definition recordUse :: "PersonalAccessToken \<Rightarrow> time \<Rightarrow> unit act" where
  "recordUse record' now =
     abind (atry (storeDo (UpdatePersonalAccessToken (record'\<lparr>PAT_LastUsedAt := Some now\<rparr>)))) (\<lambda>_. areturn ())"

definition ValidatePersonalAccessToken :: "string \<Rightarrow> string \<Rightarrow> PATAccess act" where
  "ValidatePersonalAccessToken tokenValue requestedOrgID =
     abind (tokenRecord tokenValue) (\<lambda>(record', now).
     abind (storeGet (UserByID (PAT_UserID record'))) (\<lambda>user.
     abind (tokenReach record' requestedOrgID) (\<lambda>(orgID, scopes).
     abind (recordUse record' now) (\<lambda>_.
       areturn \<lparr>PATAcc_Token = record', PATAcc_User = safeUser user, PATAcc_OrgID = orgID, PATAcc_Scopes = scopes,
         PATAcc_ScopeType = PAT_ScopeType record'\<rparr>))))"

definition SessionForPersonalAccessToken :: "string \<Rightarrow> AuthSession act" where
  "SessionForPersonalAccessToken tokenValue =
     abind (tokenRecord tokenValue) (\<lambda>(record', now).
     abind (storeGet (UserByID (PAT_UserID record'))) (\<lambda>user.
     abind (storeGet (ListOrganizationsForUser (User_ID user))) (\<lambda>all.
       let (orgs, active) = (if PAT_ScopeType record' = ''org'' then (filterOrganizations all (PAT_OrgID record'), PAT_OrgID record')
         else (all, firstOrgID all)) in
       abind (recordUse record' now) (\<lambda>_.
         areturn (AuthSession0\<lparr>Sess_Token := trimSpace tokenValue, Sess_TokenType := ''Bearer'', Sess_User := safeUser user,
           Sess_Organizations := orgs, Sess_ActiveOrgID := active\<rparr>)))))"

end
