(* ===== verification/OAuth_Service.thy ===== *)
theory OAuth_Service
  imports Auth_Service
begin

text \<open>
  OAuth clients, authorization codes and tokens of \<open>oauth.go\<close>, partner integrations and their connections
  of \<open>partner.go\<close>. Parsing and printing of URLs are parameters.
\<close>

section \<open>Scopes and redirects\<close>

definition normalizeOAuthScopes :: "string list \<Rightarrow> string list result" where
  "normalizeOAuthScopes values =
     (let scopes = concat (map wordsOf values) in
      if \<not> list_all (\<lambda>scope. scope \<in> set AllowedControlScopes) scopes then Inl ErrOAuthInvalidScope
      else if scopes = [] then Inl (ErrText ''scope is required'')
      else Inr (sortBy id (remdups scopes)))"

definition normalizeRedirectURIs :: "(string \<Rightarrow> bool) \<Rightarrow> string list \<Rightarrow> string list result" where
  "normalizeRedirectURIs absolute values =
     (let uris = filter (\<lambda>u. u \<noteq> []) (map trimSpace values) in
      if \<not> list_all absolute uris then Inl (ErrText ''redirect_uris must be absolute URLs'')
      else if uris = [] then Inl (ErrText ''redirect_uris is required'')
      else Inr (sortBy id (remdups uris)))"

definition redirectURIs :: "string list \<Rightarrow> string list act" where
  "redirectURIs values = abind (aenv e_absoluteURL) (\<lambda>absolute. alift (normalizeRedirectURIs absolute values))"

definition oauthRedirect :: "string \<Rightarrow> string \<Rightarrow> string \<Rightarrow> string act" where
  "oauthRedirect base code state =
     abind (aenv (\<lambda>e. e_withQuery e base ((''code'', code) # (if state = [] then [] else [(''state'', state)])))) alift"

section \<open>Clients\<close>

definition defaultOAuthCodeTTL :: time where
  "defaultOAuthCodeTTL = 10 * 60 * second"

definition defaultOAuthAccessTTL :: time where
  "defaultOAuthAccessTTL = 3600 * second"

definition defaultOAuthRefreshTTL :: time where
  "defaultOAuthRefreshTTL = 90 * 24 * 3600 * second"

definition enforceClientLimit :: "string \<Rightarrow> unit act" where
  "enforceClientLimit ownerOrgID =
     abind (storeGet (GetOrganization ownerOrgID)) (\<lambda>org. case Limit_OAuthClients (OrgLimitsForLevel (Org_UsageLevel org)) of
       None \<Rightarrow> areturn ()
     | Some limit \<Rightarrow> abind (storeGet (\<lambda>s. Inr (CountOAuthClientsByOwnerOrg ownerOrgID s))) (\<lambda>count.
         aguard (count < limit) (usageLimitError (Org_UsageLevel org) ''oauth client'' limit)))"

text \<open>A secret is shown once; its hash is kept.\<close>

definition newSecret :: "(string \<times> string) act" where
  "newSecret = abind randomToken (\<lambda>secret. abind (passwordHash secret) (\<lambda>h. areturn (secret, h)))"

definition CreateClient :: "string \<Rightarrow> string \<Rightarrow> string list \<Rightarrow> string list \<Rightarrow> (OAuthClient \<times> string) act" where
  "CreateClient owner0 name0 redirects0 scopes0 =
     (let owner = trimSpace owner0; name = trimSpace name0 in
      abind (aguard (owner \<noteq> []) (ErrText ''owner_org_id is required'')) (\<lambda>_.
      abind (enforceClientLimit owner) (\<lambda>_.
      abind (aguard (name \<noteq> []) (ErrText ''name is required'')) (\<lambda>_.
      abind (redirectURIs redirects0) (\<lambda>redirects.
      abind (alift (normalizeOAuthScopes scopes0)) (\<lambda>scopes.
      abind randomToken (\<lambda>clientID. abind newSecret (\<lambda>(secret, h). abind anow (\<lambda>now.
        let client = \<lparr>Client_ID = clientID, Client_OwnerOrgID = owner, Client_Name = name, Client_RedirectURIs = redirects,
          Client_Scopes = scopes, Client_SecretHash = h, Client_Disabled = False, Client_CreatedAt = now, Client_UpdatedAt = now\<rparr> in
        abind (storeDo (CreateOAuthClient client)) (\<lambda>_. areturn (client, secret)))))))))))"

definition Clients :: "string \<Rightarrow> OAuthClient list act" where
  "Clients ownerOrgID = storeGet (\<lambda>s. Inr (OAuthClientsByOwnerOrg (trimSpace ownerOrgID) s))"

definition Client :: "string \<Rightarrow> string \<Rightarrow> OAuthClient act" where
  "Client ownerOrgID clientID =
     abind (storeGet (getOAuthClient (trimSpace clientID))) (\<lambda>client.
     abind (aguard (Client_OwnerOrgID client = trimSpace ownerOrgID) ErrOAuthClientNotFound) (\<lambda>_. areturn client))"

definition ClientConnections :: "string \<Rightarrow> string \<Rightarrow> OAuthClientConnection list act" where
  "ClientConnections ownerOrgID clientID =
     abind (Client ownerOrgID clientID) (\<lambda>client. storeGet (\<lambda>s. Inr (OAuthClientConnections (Client_ID client) s)))"

definition UpdateClient :: "string \<Rightarrow> string \<Rightarrow> string \<Rightarrow> string list \<Rightarrow> string list \<Rightarrow> OAuthClient act" where
  "UpdateClient ownerOrgID clientID name0 redirects0 scopes0 =
     abind (Client ownerOrgID clientID) (\<lambda>client.
     abind (aguard (trimSpace name0 \<noteq> []) (ErrText ''name is required'')) (\<lambda>_.
     abind (redirectURIs redirects0) (\<lambda>redirects.
     abind (alift (normalizeOAuthScopes scopes0)) (\<lambda>scopes. abind anow (\<lambda>now.
       let changed = client\<lparr>Client_Name := trimSpace name0, Client_RedirectURIs := redirects, Client_Scopes := scopes, Client_UpdatedAt := now\<rparr> in
       abind (storeDo (UpdateOAuthClient changed)) (\<lambda>_. areturn changed))))))"

definition RotateClientSecret :: "string \<Rightarrow> string \<Rightarrow> (OAuthClient \<times> string) act" where
  "RotateClientSecret ownerOrgID clientID =
     abind (Client ownerOrgID clientID) (\<lambda>client. abind newSecret (\<lambda>(secret, h). abind anow (\<lambda>now.
       let changed = client\<lparr>Client_SecretHash := h, Client_UpdatedAt := now\<rparr> in
       abind (storeDo (UpdateOAuthClient changed)) (\<lambda>_. areturn (changed, secret)))))"

definition DisableClient :: "string \<Rightarrow> string \<Rightarrow> unit act" where
  "DisableClient ownerOrgID clientID =
     abind (Client ownerOrgID clientID) (\<lambda>client. abind anow (\<lambda>now.
     abind (storeDo (UpdateOAuthClient (client\<lparr>Client_Disabled := True, Client_UpdatedAt := now\<rparr>))) (\<lambda>_.
       storeDo (RevokeAllOAuthClientTokens (Client_ID client) now))))"

definition RestoreClient :: "string \<Rightarrow> string \<Rightarrow> OAuthClient act" where
  "RestoreClient ownerOrgID clientID =
     abind (Client ownerOrgID clientID) (\<lambda>client. abind anow (\<lambda>now.
       let changed = client\<lparr>Client_Disabled := False, Client_UpdatedAt := now\<rparr> in
       abind (storeDo (UpdateOAuthClient changed)) (\<lambda>_. areturn changed)))"

section \<open>Authorization codes\<close>

text \<open>A request names a client that is enabled, one of its redirects, and scopes the client may ask for.\<close>

definition validClientRequest :: "string \<Rightarrow> string \<Rightarrow> string list \<Rightarrow> (OAuthClient \<times> string list) act" where
  "validClientRequest clientID redirectURI requested =
     abind (storeGet (getOAuthClient (trimSpace clientID))) (\<lambda>client.
     abind (aguard (\<not> Client_Disabled client) ErrOAuthClientNotFound) (\<lambda>_.
     abind (aguard (trimSpace redirectURI \<in> set (Client_RedirectURIs client)) (ErrText ''redirect_uri is not allowed'')) (\<lambda>_.
     abind (alift (normalizeOAuthScopes requested)) (\<lambda>scopes.
     abind (aguard (list_all (\<lambda>scope. scope \<in> set (Client_Scopes client)) scopes) ErrOAuthInvalidScope) (\<lambda>_.
       areturn (client, scopes))))))"

record OAuthAuthorizeInput =
  AuthIn_ClientID :: string
  AuthIn_RedirectURI :: string
  AuthIn_Scopes :: "string list"
  AuthIn_State :: string
  AuthIn_OrgID :: string

record OAuthAuthorizeResponse =
  AuthResp_RedirectTo :: string
  AuthResp_Code :: string
  AuthResp_State :: string

text \<open>The checks before a code is made: the client, the scopes and the organization it is for.\<close>

definition consented :: "User \<Rightarrow> OAuthAuthorizeInput \<Rightarrow> (OAuthClient \<times> string list \<times> string) act" where
  "consented user input =
     abind (validClientRequest (AuthIn_ClientID input) (AuthIn_RedirectURI input) (AuthIn_Scopes input)) (\<lambda>(client, scopes).
     abind (aguard (trimSpace (AuthIn_OrgID input) \<noteq> []) (ErrText ''org_id is required'')) (\<lambda>_.
     abind (storeGet (getOrganizationMembership (User_ID user) (trimSpace (AuthIn_OrgID input)))) (\<lambda>membership.
     abind (aguard (list_all (HasScope (Member_Scopes membership)) scopes) ErrOAuthInvalidScope) (\<lambda>_.
       areturn (client, scopes, trimSpace (AuthIn_OrgID input))))))"

definition Authorize_oauth :: "User \<Rightarrow> OAuthAuthorizeInput \<Rightarrow> OAuthAuthorizeResponse act" where
  "Authorize_oauth user input =
     abind (consented user input) (\<lambda>(client, scopes, orgID).
     abind randomToken (\<lambda>code. abind anow (\<lambda>now. abind (hashed code) (\<lambda>h.
     abind (storeDo (CreateOAuthAuthorizationCode \<lparr>Code_CodeHash = h, Code_ClientID = Client_ID client, Code_UserID = User_ID user,
       Code_OrgID = orgID, Code_RedirectURI = AuthIn_RedirectURI input, Code_Scopes = scopes, Code_ExpiresAt = now + defaultOAuthCodeTTL,
       Code_UsedAt = None, Code_CreatedAt = now\<rparr>)) (\<lambda>_.
     abind (oauthRedirect (AuthIn_RedirectURI input) code (trimSpace (AuthIn_State input))) (\<lambda>redirect.
       areturn \<lparr>AuthResp_RedirectTo = redirect, AuthResp_Code = code, AuthResp_State = trimSpace (AuthIn_State input)\<rparr>))))))"

record OAuthAuthorizeInfo =
  AuthInfo_ClientID :: string
  AuthInfo_ClientName :: string
  AuthInfo_RedirectURI :: string
  AuthInfo_Scopes :: "string list"

definition AuthorizeInfo :: "string \<Rightarrow> string \<Rightarrow> string list \<Rightarrow> OAuthAuthorizeInfo act" where
  "AuthorizeInfo clientID redirectURI scopes0 =
     abind (validClientRequest clientID redirectURI scopes0) (\<lambda>(client, scopes).
       areturn \<lparr>AuthInfo_ClientID = Client_ID client, AuthInfo_ClientName = Client_Name client,
         AuthInfo_RedirectURI = trimSpace redirectURI, AuthInfo_Scopes = scopes\<rparr>)"

section \<open>Tokens\<close>

record OAuthTokenResponse =
  TokResp_AccessToken :: string
  TokResp_TokenType :: string
  TokResp_ExpiresIn :: int
  TokResp_RefreshToken :: string
  TokResp_Scope :: string

definition issueTokensWithSubject :: "string \<Rightarrow> string \<Rightarrow> string \<Rightarrow> string \<Rightarrow> string list \<Rightarrow> OAuthTokenResponse act" where
  "issueTokensWithSubject clientID userID connectionID orgID scopes =
     abind randomToken (\<lambda>access. abind randomToken (\<lambda>refresh. abind anow (\<lambda>now.
     abind (hashed access) (\<lambda>ah. abind (hashed refresh) (\<lambda>rh.
     abind (storeDo (CreateOAuthToken \<lparr>Token_TokenHash = ah, Token_RefreshTokenHash = rh, Token_ClientID = clientID, Token_UserID = userID,
       Token_PartnerConnectionID = connectionID, Token_OrgID = orgID, Token_Scopes = scopes, Token_ExpiresAt = now + defaultOAuthAccessTTL,
       Token_RefreshExpiresAt = now + defaultOAuthRefreshTTL, Token_RevokedAt = None, Token_CreatedAt = now\<rparr>)) (\<lambda>_.
       areturn \<lparr>TokResp_AccessToken = access, TokResp_TokenType = ''Bearer'', TokResp_ExpiresIn = defaultOAuthAccessTTL div second,
         TokResp_RefreshToken = refresh, TokResp_Scope = joinWith '' '' scopes\<rparr>))))))"

definition issueTokens :: "string \<Rightarrow> string \<Rightarrow> string \<Rightarrow> string list \<Rightarrow> OAuthTokenResponse act" where
  "issueTokens clientID userID orgID scopes = issueTokensWithSubject clientID userID [] orgID scopes"

definition issueTokensForConnection :: "string \<Rightarrow> string \<Rightarrow> string \<Rightarrow> string list \<Rightarrow> OAuthTokenResponse act" where
  "issueTokensForConnection integrationID connectionID orgID scopes = issueTokensWithSubject integrationID [] connectionID orgID scopes"

definition validateClientSecret :: "string \<Rightarrow> string \<Rightarrow> OAuthClient act" where
  "validateClientSecret clientID clientSecret =
     abind (storeGet (getOAuthClient (trimSpace clientID))) (\<lambda>client.
     abind (aenv (\<lambda>e. e_passwordMatches e (Client_SecretHash client) (trimSpace clientSecret))) (\<lambda>ok.
     abind (aguard (\<not> Client_Disabled client \<and> ok) ErrOAuthClientNotFound) (\<lambda>_. areturn client)))"

text \<open>A read whose error is the error of the grant.\<close>

definition orInvalidGrant :: "'a act \<Rightarrow> 'a act" where
  "orInvalidGrant m = abind (atry m) (\<lambda>r. case r of Inl _ \<Rightarrow> afail ErrOAuthInvalidGrant | Inr a \<Rightarrow> areturn a)"

definition ExchangeAuthorizationCode :: "string \<Rightarrow> string \<Rightarrow> string \<Rightarrow> string \<Rightarrow> OAuthTokenResponse act" where
  "ExchangeAuthorizationCode clientID clientSecret code redirectURI =
     abind (validateClientSecret clientID clientSecret) (\<lambda>client. abind (hashed code) (\<lambda>h.
     abind (orInvalidGrant (storeGet (getOAuthAuthorizationCode h))) (\<lambda>record'. abind anow (\<lambda>now.
     abind (aguard (Code_ClientID record' = Client_ID client \<and> Code_RedirectURI record' = trimSpace redirectURI
       \<and> Code_UsedAt record' = None \<and> now < Code_ExpiresAt record') ErrOAuthInvalidGrant) (\<lambda>_.
     abind (storeDo (UpdateOAuthAuthorizationCode (record'\<lparr>Code_UsedAt := Some now\<rparr>))) (\<lambda>_.
       issueTokens (Code_ClientID record') (Code_UserID record') (Code_OrgID record') (Code_Scopes record')))))))"

definition Refresh_oauth :: "string \<Rightarrow> string \<Rightarrow> string \<Rightarrow> OAuthTokenResponse act" where
  "Refresh_oauth clientID clientSecret refreshToken =
     abind (validateClientSecret clientID clientSecret) (\<lambda>client. abind (hashed refreshToken) (\<lambda>h.
     abind (orInvalidGrant (storeGet (OAuthRefreshToken h))) (\<lambda>existing. abind anow (\<lambda>now.
     abind (aguard (Token_ClientID existing = Client_ID client \<and> Token_RevokedAt existing = None
       \<and> now < Token_RefreshExpiresAt existing) ErrOAuthInvalidGrant) (\<lambda>_.
     abind (storeDo (UpdateOAuthToken (existing\<lparr>Token_RevokedAt := Some now\<rparr>))) (\<lambda>_.
       issueTokens (Token_ClientID existing) (Token_UserID existing) (Token_OrgID existing) (Token_Scopes existing)))))))"

definition Revoke_oauth :: "string \<Rightarrow> unit act" where
  "Revoke_oauth token =
     abind (hashed token) (\<lambda>h. abind (atry (storeGet (OAuthAccessToken h))) (\<lambda>first.
     abind (case first of Inl _ \<Rightarrow> atry (storeGet (OAuthRefreshToken h)) | Inr _ \<Rightarrow> areturn first) (\<lambda>r. case r of
       Inl _ \<Rightarrow> areturn ()
     | Inr record' \<Rightarrow> abind anow (\<lambda>now. storeDo (UpdateOAuthToken (record'\<lparr>Token_RevokedAt := Some now\<rparr>))))))"

definition Connections_oauth :: "string \<Rightarrow> string \<Rightarrow> OAuthConnection list act" where
  "Connections_oauth userID orgID = storeGet (\<lambda>s. Inr (OAuthConnections (trimSpace userID) (trimSpace orgID) s))"

definition Disconnect :: "string \<Rightarrow> string \<Rightarrow> string \<Rightarrow> unit act" where
  "Disconnect userID orgID clientID =
     abind anow (\<lambda>now. storeDo (RevokeOAuthClientTokens (trimSpace userID) (trimSpace orgID) (trimSpace clientID) now))"

record OAuthAccess =
  Access_ClientID :: string
  Access_UserID :: string
  Access_OrgID :: string
  Access_Scopes :: "string list"
  Access_ConnectionID :: string

definition connectionServes :: "string \<Rightarrow> PartnerConnection result \<Rightarrow> bool" where
  "connectionServes orgID r = (case r of Inl _ \<Rightarrow> False
     | Inr connection \<Rightarrow> PConn_Status connection = ''active'' \<and> PConn_OrgID connection = orgID)"

definition ValidateAccessToken :: "string \<Rightarrow> OAuthAccess act" where
  "ValidateAccessToken token =
     abind (hashed token) (\<lambda>h. abind (storeGet (OAuthAccessToken h)) (\<lambda>record'. abind anow (\<lambda>now.
     abind (aguard (Token_RevokedAt record' = None \<and> now < Token_ExpiresAt record') ErrOAuthTokenNotFound) (\<lambda>_.
     abind (if Token_PartnerConnectionID record' = [] then areturn ()
       else abind (atry (storeGet (getPartnerConnection (Token_PartnerConnectionID record')))) (\<lambda>connection.
         aguard (connectionServes (Token_OrgID record') connection) ErrOAuthTokenNotFound)) (\<lambda>_.
       areturn \<lparr>Access_ClientID = Token_ClientID record', Access_UserID = Token_UserID record', Access_OrgID = Token_OrgID record',
         Access_Scopes = Token_Scopes record', Access_ConnectionID = Token_PartnerConnectionID record'\<rparr>)))))"

definition IssuePartnerTokens :: "PartnerConnection \<Rightarrow> string list \<Rightarrow> OAuthTokenResponse act" where
  "IssuePartnerTokens connection scopes =
     (if PConn_Status connection \<noteq> ''active'' then afail ErrOAuthTokenNotFound
      else issueTokensForConnection (PConn_IntegrationID connection) (PConn_ID connection) (PConn_OrgID connection) scopes)"

definition RefreshPartner :: "string \<Rightarrow> string \<Rightarrow> OAuthTokenResponse act" where
  "RefreshPartner connectionID refreshToken =
     abind (hashed refreshToken) (\<lambda>h.
     abind (orInvalidGrant (storeGet (OAuthRefreshToken h))) (\<lambda>record'. abind anow (\<lambda>start.
     abind (aguard (Token_PartnerConnectionID record' = connectionID \<and> Token_RevokedAt record' = None
       \<and> start < Token_RefreshExpiresAt record') ErrOAuthInvalidGrant) (\<lambda>_.
     abind (orInvalidGrant (storeGet (getPartnerConnection connectionID))) (\<lambda>connection.
     abind (aguard (PConn_Status connection = ''active'' \<and> PConn_OrgID connection = Token_OrgID record') ErrOAuthInvalidGrant) (\<lambda>_.
     abind anow (\<lambda>now. abind (storeDo (UpdateOAuthToken (record'\<lparr>Token_RevokedAt := Some now\<rparr>))) (\<lambda>_.
       issueTokensForConnection (PConn_IntegrationID connection) (PConn_ID connection) (PConn_OrgID connection) (Token_Scopes record')))))))))"

text \<open>The token endpoint (\<open>server_oauth.go\<close>), after the form and the client's credentials were read.\<close>

record oauthTokenRequest =
  TokReq_GrantType :: string
  TokReq_ClientID :: string
  TokReq_ClientSecret :: string
  TokReq_Code :: string
  TokReq_RedirectURI :: string
  TokReq_RefreshToken :: string

definition oauthToken :: "oauthTokenRequest \<Rightarrow> OAuthTokenResponse act" where
  "oauthToken input =
     (let kind = trimSpace (TokReq_GrantType input) in
      if trimSpace (TokReq_ClientID input) = [] \<or> trimSpace (TokReq_ClientSecret input) = []
      then afail (ErrText ''client authentication is required'')
      else if kind = ''authorization_code''
      then ExchangeAuthorizationCode (TokReq_ClientID input) (TokReq_ClientSecret input) (TokReq_Code input) (TokReq_RedirectURI input)
      else if kind = ''refresh_token'' then Refresh_oauth (TokReq_ClientID input) (TokReq_ClientSecret input) (TokReq_RefreshToken input)
      else afail (ErrText ''grant_type is not supported''))"

section \<open>Partner integrations\<close>

definition authenticate :: "string \<Rightarrow> string \<Rightarrow> PartnerIntegration act" where
  "authenticate i secret =
     abind (atry (storeGet (getPartnerIntegration (trimSpace i)))) (\<lambda>r. case r of
       Inl _ \<Rightarrow> afail ErrPartnerIntegrationNotFound
     | Inr integration \<Rightarrow> abind (aenv (\<lambda>e. e_passwordMatches e (Integ_SecretHash integration) (trimSpace secret))) (\<lambda>ok.
         abind (aguard (\<not> Integ_Disabled integration \<and> ok) ErrPartnerIntegrationNotFound) (\<lambda>_. areturn integration)))"

definition AuthenticateIntegration :: "string \<Rightarrow> string \<Rightarrow> unit act" where
  "AuthenticateIntegration i secret = abind (authenticate i secret) (\<lambda>_. areturn ())"

definition CreateIntegration :: "string \<Rightarrow> string \<Rightarrow> string list \<Rightarrow> (PartnerIntegration \<times> string) act" where
  "CreateIntegration owner name0 allowed =
     abind (aguard (trimSpace name0 \<noteq> []) (ErrText ''name is required'')) (\<lambda>_.
     abind (alift (normalizeOAuthScopes allowed)) (\<lambda>scopes.
     abind (aguard (trimSpace owner \<noteq> []) (ErrText ''owner_org_id is required'')) (\<lambda>_.
     abind (storeGet (GetOrganization owner)) (\<lambda>_.
     abind randomToken (\<lambda>i. abind newSecret (\<lambda>(secret, h). abind anow (\<lambda>now.
       let integration = \<lparr>Integ_ID = i, Integ_OwnerOrgID = trimSpace owner, Integ_Name = trimSpace name0, Integ_AllowedScopes = scopes,
         Integ_SecretHash = h, Integ_Disabled = False, Integ_CreatedAt = now, Integ_UpdatedAt = now\<rparr> in
       abind (storeDo (CreatePartnerIntegration integration)) (\<lambda>_. areturn (integration, secret)))))))))"

definition Integrations :: "string \<Rightarrow> PartnerIntegration list act" where
  "Integrations ownerOrgID = storeGet (\<lambda>s. Inr (PartnerIntegrationsByOwnerOrg (trimSpace ownerOrgID) s))"

definition Integration :: "string \<Rightarrow> string \<Rightarrow> PartnerIntegration act" where
  "Integration ownerOrgID i =
     abind (atry (storeGet (getPartnerIntegration (trimSpace i)))) (\<lambda>r. case r of
       Inl _ \<Rightarrow> afail ErrPartnerIntegrationNotFound
     | Inr integration \<Rightarrow> if Integ_OwnerOrgID integration \<noteq> trimSpace ownerOrgID then afail ErrPartnerIntegrationNotFound else areturn integration)"

definition Connections_partner :: "string \<Rightarrow> PartnerConnection list act" where
  "Connections_partner integrationID = storeGet (\<lambda>s. Inr (PartnerConnectionsByIntegration (trimSpace integrationID) s))"

definition Connection :: "string \<Rightarrow> PartnerConnection act" where
  "Connection i = storeGet (getPartnerConnection (trimSpace i))"

definition Organization_partner :: "string \<Rightarrow> Organization act" where
  "Organization_partner i = storeGet (GetOrganization (trimSpace i))"

definition restoreConnection :: "PartnerConnection \<Rightarrow> PartnerConnection act" where
  "restoreConnection connection =
     (if PConn_Status connection = ''revoked''
      then abind (storeDo (RestorePartnerConnection (PConn_ID connection))) (\<lambda>_.
        areturn (connection\<lparr>PConn_Status := ''active'', PConn_RevokedAt := None\<rparr>))
      else areturn connection)"

definition Provision :: "string \<Rightarrow> string \<Rightarrow> string \<Rightarrow> string \<Rightarrow> string list \<Rightarrow> (PartnerConnection \<times> Organization \<times> bool) act" where
  "Provision integrationID secret external0 name0 requested =
     abind (authenticate integrationID secret) (\<lambda>integration.
     abind (aguard (trimSpace external0 \<noteq> []) (ErrText ''external_account_id is required'')) (\<lambda>_.
     abind (aguard (trimSpace name0 \<noteq> []) (ErrText ''organization_name is required'')) (\<lambda>_.
     abind (alift (normalizeOAuthScopes requested)) (\<lambda>scopes.
     abind (aguard (list_all (\<lambda>scope. scope \<in> set (Integ_AllowedScopes integration)) scopes) ErrOAuthInvalidScope) (\<lambda>_.
     abind randomToken (\<lambda>orgID. abind randomToken (\<lambda>connectionID. abind anow (\<lambda>now.
     abind (storeRun (\<lambda>s. rbind (ProvisionPartnerConnection
         (Organization0\<lparr>Org_ID := orgID, Org_Name := trimSpace name0, Org_UsageLevel := ''default'', Org_PartnerIntegrationID := Integ_ID integration,
           Org_ExternalAccountID := trimSpace external0, Org_CreatedAt := now\<rparr>)
         \<lparr>PConn_ID = connectionID, PConn_IntegrationID = Integ_ID integration, PConn_ExternalAccountID = trimSpace external0, PConn_OrgID = orgID,
           PConn_Status = ''active'', PConn_CreatedAt = now, PConn_RevokedAt = None\<rparr> s) (\<lambda>(org, connection, created, s'). Inr ((org, connection, created), s'))))
       (\<lambda>(org, connection, created).
     abind (restoreConnection connection) (\<lambda>live. areturn (live, org, created)))))))))))"

definition RotateIntegrationSecret :: "string \<Rightarrow> string \<Rightarrow> (PartnerIntegration \<times> string) act" where
  "RotateIntegrationSecret ownerOrgID i =
     abind (Integration ownerOrgID i) (\<lambda>integration. abind newSecret (\<lambda>(secret, h). abind anow (\<lambda>now.
       let changed = integration\<lparr>Integ_SecretHash := h, Integ_UpdatedAt := now\<rparr> in
       abind (storeDo (UpdatePartnerIntegration changed)) (\<lambda>_. areturn (changed, secret)))))"

definition DisableIntegration :: "string \<Rightarrow> string \<Rightarrow> unit act" where
  "DisableIntegration ownerOrgID i =
     abind (Integration ownerOrgID i) (\<lambda>integration. abind anow (\<lambda>now.
       storeDo (UpdatePartnerIntegration (integration\<lparr>Integ_Disabled := True, Integ_UpdatedAt := now\<rparr>))))"

definition Revoke_partner :: "string \<Rightarrow> string \<Rightarrow> string \<Rightarrow> unit act" where
  "Revoke_partner integrationID secret connectionID =
     abind (storeGet (getPartnerConnection connectionID)) (\<lambda>connection.
     abind (aguard (PConn_IntegrationID connection = trimSpace integrationID) ErrPartnerConnectionNotFound) (\<lambda>_.
     abind (authenticate integrationID secret) (\<lambda>_. abind anow (\<lambda>now.
     abind (storeDo (RevokePartnerConnection connectionID now)) (\<lambda>_.
       storeDo (RevokePartnerConnectionTokens connectionID now))))))"

end
