(* ===== verification/OAuth_Runs.thy ===== *)
theory OAuth_Runs
  imports OAuth_Service Action_Runs
begin

text \<open>
  Runs of the OAuth service and what they keep: every token that stands for a user goes back to a consent
  of that user, spent codes stay spent and rotated tokens stay revoked.
\<close>

section \<open>Consents\<close>

text \<open>A grant: the client, the user, the organization and the scopes.\<close>

type_synonym oauthGrant = "string \<times> string \<times> string \<times> string list"

definition codeGrant :: "OAuthAuthorizationCode \<Rightarrow> oauthGrant" where
  "codeGrant c = (Code_ClientID c, Code_UserID c, Code_OrgID c, Code_Scopes c)"

definition tokenGrant :: "OAuthToken \<Rightarrow> oauthGrant" where
  "tokenGrant t = (Token_ClientID t, Token_UserID t, Token_OrgID t, Token_Scopes t)"

text \<open>
  What a user may consent to: an enabled client that registered the redirect and may ask for the scopes,
  and an organization whose membership gives the user all of them.
\<close>

definition mayConsent :: "User \<Rightarrow> OAuthAuthorizeInput \<Rightarrow> Store \<Rightarrow> oauthGrant \<Rightarrow> bool" where
  "mayConsent user input s = (\<lambda>(clientID, userID, orgID, scopes). userID = User_ID user \<and> orgID = trimSpace (AuthIn_OrgID input)
     \<and> (case (getOAuthClient (trimSpace (AuthIn_ClientID input)) s, getOrganizationMembership (User_ID user) orgID s,
            normalizeOAuthScopes (AuthIn_Scopes input)) of
         (Inr client, Inr membership, Inr wanted) \<Rightarrow> clientID = Client_ID client \<and> \<not> Client_Disabled client
           \<and> trimSpace (AuthIn_RedirectURI input) \<in> set (Client_RedirectURIs client) \<and> scopes = wanted
           \<and> set scopes \<subseteq> set (Client_Scopes client) \<and> set scopes \<subseteq> set (Member_Scopes membership)
       | _ \<Rightarrow> False))"

section \<open>What runs keep\<close>

text \<open>\<open>G\<close> are the consents given, \<open>S\<close> the hashes of spent codes, \<open>R\<close> those of rotated refresh tokens.\<close>

definition oauthOK :: "oauthGrant set \<Rightarrow> string set \<Rightarrow> string set \<Rightarrow> Store \<Rightarrow> bool" where
  "oauthOK G S R s \<longleftrightarrow>
     (\<forall>h c. mget (oauthCodes s) h = Some c \<longrightarrow> Code_CodeHash c = h \<and> codeGrant c \<in> G)
     \<and> (\<forall>h t. mget (oauthTokens s) h = Some t \<longrightarrow> Token_TokenHash t = h \<and> (Token_UserID t = [] \<or> tokenGrant t \<in> G)
          \<and> (Token_RefreshTokenHash t \<noteq> [] \<longrightarrow> mget (oauthRefresh s) (Token_RefreshTokenHash t) = Some h))
     \<and> (\<forall>h\<in>S. \<exists>c. mget (oauthCodes s) h = Some c \<and> Code_UsedAt c \<noteq> None)
     \<and> (\<forall>h\<in>R. \<exists>a t. mget (oauthRefresh s) h = Some a \<and> mget (oauthTokens s) a = Some t \<and> Token_RevokedAt t \<noteq> None)"

text \<open>The random tokens of an environment are none of those issued before.\<close>

definition unissued :: "serviceEnv \<Rightarrow> Store \<Rightarrow> bool" where
  "unissued e s \<longleftrightarrow> (\<forall>k t. e_token e k = Inr t \<longrightarrow> mget (oauthCodes s) (tokenHash e t) = None
     \<and> mget (oauthTokens s) (tokenHash e t) = None \<and> mget (oauthRefresh s) (tokenHash e t) = None)"

lemma oauthOK_parts:
  assumes "oauthOK G S R s"
  shows "mget (oauthCodes s) h = Some c \<Longrightarrow> Code_CodeHash c = h \<and> codeGrant c \<in> G"
    "mget (oauthTokens s) h = Some t \<Longrightarrow> Token_TokenHash t = h \<and> (Token_UserID t = [] \<or> tokenGrant t \<in> G)"
    "mget (oauthTokens s) h = Some t \<Longrightarrow> Token_RefreshTokenHash t \<noteq> [] \<Longrightarrow> mget (oauthRefresh s) (Token_RefreshTokenHash t) = Some h"
    "h \<in> S \<Longrightarrow> \<exists>c. mget (oauthCodes s) h = Some c \<and> Code_UsedAt c \<noteq> None"
    "h \<in> R \<Longrightarrow> \<exists>a t. mget (oauthRefresh s) h = Some a \<and> mget (oauthTokens s) a = Some t \<and> Token_RevokedAt t \<noteq> None"
  using assms unfolding oauthOK_def by blast+

lemma oauthOK_mono:
  assumes "oauthOK G S R s" "G \<subseteq> G'" "S' \<subseteq> S" "R' \<subseteq> R"
  shows "oauthOK G' S' R' s"
proof -
  note p = oauthOK_parts[OF assms(1)]
  show ?thesis unfolding oauthOK_def using p assms(2-4) by (intro conjI allI impI ballI) blast+
qed

section \<open>The tables\<close>

lemma oauthOK_code:
  assumes "oauthOK G S R s" "mget (oauthCodes s) (Code_CodeHash c) = None" "codeGrant c \<in> G"
    and "CreateOAuthAuthorizationCode c s = Inr s'"
  shows "oauthOK G S R s'"
proof -
  note p = oauthOK_parts[OF assms(1)]
  have s': "s' = s\<lparr>oauthCodes := mput (Code_CodeHash c) c (oauthCodes s)\<rparr>" using assms(4) by (simp add: CreateOAuthAuthorizationCode_def)
  have "h \<noteq> Code_CodeHash c" if "h \<in> S" for h using p(4)[OF that] assms(2) by auto
  then show ?thesis unfolding oauthOK_def s' using p assms(3) by (auto simp: mget_put)
qed

lemma oauthOK_spend:
  assumes "oauthOK G S R s" "mget (oauthCodes s) h = Some c"
    and "UpdateOAuthAuthorizationCode (c\<lparr>Code_UsedAt := Some now\<rparr>) s = Inr s'"
  shows "oauthOK G (insert h S) R s'" "oauthTokens s' = oauthTokens s" "oauthRefresh s' = oauthRefresh s"
    "mget (oauthCodes s') k = None \<longleftrightarrow> mget (oauthCodes s) k = None"
proof -
  note p = oauthOK_parts[OF assms(1)]
  have c: "Code_CodeHash c = h" "codeGrant (c\<lparr>Code_UsedAt := Some now\<rparr>) \<in> G" using p(1)[OF assms(2)] by (simp_all add: codeGrant_def)
  have s': "s' = s\<lparr>oauthCodes := mput h (c\<lparr>Code_UsedAt := Some now\<rparr>) (oauthCodes s)\<rparr>"
    using assms(3) c(1) by (auto simp: UpdateOAuthAuthorizationCode_def split: if_splits)
  show "oauthOK G (insert h S) R s'" unfolding oauthOK_def s' using p c by (auto simp: mget_put)
  show "oauthTokens s' = oauthTokens s" "oauthRefresh s' = oauthRefresh s" unfolding s' by simp_all
  show "mget (oauthCodes s') k = None \<longleftrightarrow> mget (oauthCodes s) k = None" unfolding s' using assms(2) by (simp add: mget_put)
qed

lemma oauthOK_issue:
  assumes "oauthOK G S R s" "mget (oauthTokens s) (Token_TokenHash t) = None" "mget (oauthRefresh s) (Token_RefreshTokenHash t) = None"
    and "Token_UserID t = [] \<or> tokenGrant t \<in> G" "CreateOAuthToken t s = Inr s'"
  shows "oauthOK G S R s'"
proof -
  note p = oauthOK_parts[OF assms(1)]
  have s': "oauthCodes s' = oauthCodes s" "oauthTokens s' = mput (Token_TokenHash t) t (oauthTokens s)"
    "oauthRefresh s' = refreshIndex t (oauthRefresh s)" using assms(5) by (auto simp: CreateOAuthToken_def)
  have index: "mget (refreshIndex t (oauthRefresh s)) h
      = (if h = Token_RefreshTokenHash t \<and> h \<noteq> [] then Some (Token_TokenHash t) else mget (oauthRefresh s) h)" for h
    by (auto simp: refreshIndex_def mget_put)
  have "\<exists>a t'. mget (oauthRefresh s') h = Some a \<and> mget (oauthTokens s') a = Some t' \<and> Token_RevokedAt t' \<noteq> None" if "h \<in> R" for h
  proof -
    obtain a t' where a: "mget (oauthRefresh s) h = Some a" "mget (oauthTokens s) a = Some t'" "Token_RevokedAt t' \<noteq> None"
      using p(5)[OF \<open>h \<in> R\<close>] by blast
    then have "h \<noteq> Token_RefreshTokenHash t" "a \<noteq> Token_TokenHash t" using assms(2,3) by auto
    then show ?thesis using a unfolding s' index by (auto simp: mget_put)
  qed
  moreover have "mget (oauthRefresh s') (Token_RefreshTokenHash t') = Some h"
    if t': "mget (oauthTokens s') h = Some t'" "Token_RefreshTokenHash t' \<noteq> []" for h t'
  proof (cases "h = Token_TokenHash t")
    case True
    then show ?thesis using t' unfolding s' index by (simp add: mget_put)
  next
    case False
    then have "mget (oauthTokens s) h = Some t'" using t'(1) unfolding s' by (simp add: mget_put)
    from p(3)[OF this t'(2)] show ?thesis using assms(3) unfolding s' index by auto
  qed
  moreover have "Token_TokenHash t' = h \<and> (Token_UserID t' = [] \<or> tokenGrant t' \<in> G)" if "mget (oauthTokens s') h = Some t'" for h t'
    using that p(2) assms(4) unfolding s' by (auto simp: mget_put split: if_splits)
  ultimately show ?thesis unfolding oauthOK_def using p(1,4) unfolding s'(1) by blast
qed

lemma oauthOK_revoke:
  assumes "oauthOK G S R s" "mget (oauthTokens s) h = Some t"
    and "UpdateOAuthToken (t\<lparr>Token_RevokedAt := Some now\<rparr>) s = Inr s'"
  shows "oauthOK G S R s'" "mget (oauthTokens s') h = Some (t\<lparr>Token_RevokedAt := Some now\<rparr>)"
    "mget (oauthRefresh s') = mget (oauthRefresh s)" "oauthCodes s' = oauthCodes s"
    "mget (oauthTokens s') k = None \<longleftrightarrow> mget (oauthTokens s) k = None"
proof -
  note p = oauthOK_parts[OF assms(1)]
  let ?t = "t\<lparr>Token_RevokedAt := Some now\<rparr>"
  have t: "Token_TokenHash t = h" "Token_UserID t = [] \<or> tokenGrant ?t \<in> G" using p(2)[OF assms(2)] by (auto simp: tokenGrant_def)
  have s': "oauthCodes s' = oauthCodes s" "oauthTokens s' = mput h ?t (oauthTokens s)" "oauthRefresh s' = refreshIndex ?t (oauthRefresh s)"
    using assms(3) t(1) by (auto simp: UpdateOAuthToken_def CreateOAuthToken_def split: if_splits)
  show index: "mget (oauthRefresh s') = mget (oauthRefresh s)"
    using p(3)[OF assms(2)] t(1) unfolding s' by (auto simp: refreshIndex_def mget_put fun_eq_iff)
  show "mget (oauthTokens s') h = Some ?t" "oauthCodes s' = oauthCodes s" unfolding s' by (simp_all add: mget_put)
  show "mget (oauthTokens s') k = None \<longleftrightarrow> mget (oauthTokens s) k = None" unfolding s' using assms(2) by (simp add: mget_put)
  have "\<exists>a t'. mget (oauthRefresh s') k = Some a \<and> mget (oauthTokens s') a = Some t' \<and> Token_RevokedAt t' \<noteq> None" if "k \<in> R" for k
  proof -
    obtain a t' where a: "mget (oauthRefresh s) k = Some a" "mget (oauthTokens s) a = Some t'" "Token_RevokedAt t' \<noteq> None"
      using p(5)[OF \<open>k \<in> R\<close>] by blast
    show ?thesis
    proof (intro exI conjI)
      show "mget (oauthRefresh s') k = Some a" using a(1) unfolding index .
      show "mget (oauthTokens s') a = Some (if a = h then ?t else t')" using a(2) unfolding s'(2) by (simp add: mget_put)
      show "Token_RevokedAt (if a = h then ?t else t') \<noteq> None" using a(3) by simp
    qed
  qed
  moreover have "mget (oauthRefresh s') (Token_RefreshTokenHash t') = Some k"
    if "mget (oauthTokens s') k = Some t'" "Token_RefreshTokenHash t' \<noteq> []" for k t'
  proof (cases "k = h")
    case True
    then have "t' = ?t" using that(1) unfolding s' by (simp add: mget_put)
    then show ?thesis using p(3)[OF assms(2)] that(2) True unfolding index by simp
  next
    case False
    then show ?thesis using p(3)[of k t'] that unfolding index s'(2) by (simp add: mget_put)
  qed
  moreover have "Token_TokenHash t' = k \<and> (Token_UserID t' = [] \<or> tokenGrant t' \<in> G)" if "mget (oauthTokens s') k = Some t'" for k t'
    using that p(2) t unfolding s' by (auto simp: mget_put split: if_splits)
  ultimately show "oauthOK G S R s'" unfolding oauthOK_def using p(1,4) unfolding s'(1) by blast
qed

lemma oauthOK_revokeWhere:
  assumes "oauthOK G S R s"
  shows "oauthOK G S R (revokeWhere P now s)"
proof -
  note p = oauthOK_parts[OF assms]
  let ?f = "\<lambda>token. if P token \<and> Token_RevokedAt token = None then token\<lparr>Token_RevokedAt := Some now\<rparr> else token"
  have s': "oauthCodes (revokeWhere P now s) = oauthCodes s" "oauthRefresh (revokeWhere P now s) = oauthRefresh s"
    "mget (oauthTokens (revokeWhere P now s)) h = map_option ?f (mget (oauthTokens s) h)" for h
    by (simp_all add: revokeWhere_def mget_mmap)
  have f: "Token_TokenHash (?f t) = Token_TokenHash t" "Token_UserID (?f t) = Token_UserID t" "tokenGrant (?f t) = tokenGrant t"
    "Token_RefreshTokenHash (?f t) = Token_RefreshTokenHash t" "Token_RevokedAt t \<noteq> None \<Longrightarrow> ?f t = t" for t
    by (auto simp: tokenGrant_def)
  have "\<exists>a t. mget (oauthRefresh s) h = Some a \<and> map_option ?f (mget (oauthTokens s) a) = Some t \<and> Token_RevokedAt t \<noteq> None" if "h \<in> R" for h
  proof -
    obtain a t where "mget (oauthRefresh s) h = Some a" "mget (oauthTokens s) a = Some t" "Token_RevokedAt t \<noteq> None"
      using p(5)[OF \<open>h \<in> R\<close>] by blast
    then show ?thesis by (intro exI[of _ a] exI[of _ t]) auto
  qed
  moreover have "Token_TokenHash t = h \<and> (Token_UserID t = [] \<or> tokenGrant t \<in> G)
      \<and> (Token_RefreshTokenHash t \<noteq> [] \<longrightarrow> mget (oauthRefresh s) (Token_RefreshTokenHash t) = Some h)"
    if t: "map_option ?f (mget (oauthTokens s) h) = Some t" for h t
  proof -
    obtain u where u: "mget (oauthTokens s) h = Some u" "t = ?f u" using t by auto
    show ?thesis using p(2)[OF u(1)] p(3)[OF u(1)] unfolding u(2) f by blast
  qed
  ultimately show ?thesis unfolding oauthOK_def s' using p(1,4) by blast
qed

section \<open>The operations\<close>

definition ready :: "serviceEnv \<Rightarrow> oauthGrant set \<Rightarrow> string set \<Rightarrow> string set \<Rightarrow> Store \<Rightarrow> bool" where
  "ready e G S R s \<longleftrightarrow> oauthOK G S R s \<and> unissued e s"

lemma ready_ok: "ready e G S R s \<Longrightarrow> oauthOK G S R s"
  by (simp add: ready_def)

lemma unissued_same:
  assumes "\<And>k. mget (oauthCodes s') k = None \<longleftrightarrow> mget (oauthCodes s) k = None"
    and "\<And>k. mget (oauthTokens s') k = None \<longleftrightarrow> mget (oauthTokens s) k = None"
    and "mget (oauthRefresh s') = mget (oauthRefresh s)"
  shows "unissued e s' = unissued e s"
  unfolding unissued_def assms by (rule refl)

lemma ready_spend:
  assumes "ready e G S R s" "getOAuthAuthorizationCode h s = Inr c"
    and "UpdateOAuthAuthorizationCode (c\<lparr>Code_UsedAt := Some now\<rparr>) s = Inr s'"
  shows "ready e G (insert h S) R s'"
proof -
  have c: "mget (oauthCodes s) h = Some c" using assms(2) by (auto simp: getOAuthAuthorizationCode_def split: option.splits)
  note spent = oauthOK_spend[OF ready_ok[OF assms(1)] c assms(3)]
  have "unissued e s'" using assms(1) unissued_same[OF spent(4), of e] spent(2,3) by (simp add: ready_def)
  then show ?thesis using spent(1) by (simp add: ready_def)
qed

lemma ready_revoke:
  assumes "ready e G S R s" "mget (oauthTokens s) h = Some t"
    and "UpdateOAuthToken (t\<lparr>Token_RevokedAt := Some now\<rparr>) s = Inr s'"
  shows "ready e G S R s'" "mget (oauthRefresh s) r = Some h \<Longrightarrow> ready e G S (insert r R) s'"
proof -
  note rev = oauthOK_revoke[OF ready_ok[OF assms(1)] assms(2,3)]
  have u: "unissued e s'" using assms(1) unissued_same[OF _ rev(5) rev(3), of e] rev(4) by (simp add: ready_def)
  show "ready e G S R s'" using rev(1) u by (simp add: ready_def)
  show "ready e G S (insert r R) s'" if "mget (oauthRefresh s) r = Some h"
  proof -
    have "oauthOK G S (insert r R) s'" using rev(1,2) that rev(3) unfolding oauthOK_def by auto
    then show ?thesis using u by (simp add: ready_def)
  qed
qed

lemma refresh_read: "OAuthRefreshToken r s = Inr t \<Longrightarrow> \<exists>h. mget (oauthRefresh s) r = Some h \<and> mget (oauthTokens s) h = Some t"
  by (auto simp: OAuthRefreshToken_def OAuthAccessToken_def split: option.splits)

lemma hashed_runs: "sruns e P (hashed t) (\<lambda>h s. P s \<and> h = tokenHash e t) R"
  unfolding hashed_def by (rule sruns_env)

lemma orInvalidGrant_runs: "(\<And>s. P s \<Longrightarrow> R s) \<Longrightarrow> sruns e P (orInvalidGrant (storeGet f)) (\<lambda>a s. P s \<and> f s = Inr a) R"
  unfolding orInvalidGrant_def
  by (rule sruns_bind[OF sruns_try[OF sruns_get[where R = P]]]) (auto intro!: sruns_sum sruns_return)

lemma issue_runs:
  assumes "u = [] \<or> (c, u, org, sc) \<in> G"
  shows "sruns e (ready e G S R) (issueTokensWithSubject c u conn org sc) (\<lambda>_. oauthOK G S R) (oauthOK G S R)"
  unfolding issueTokensWithSubject_def
proof (rule sruns_bind[OF sruns_token], erule ready_ok, rule sruns_bind[OF sruns_token], (elim conjE, erule ready_ok),
    rule sruns_bind[OF sruns_now], rule sruns_bind[OF hashed_runs], rule sruns_bind[OF hashed_runs], rule sruns_bind)
  fix access refresh now ah rh
  let ?P = "\<lambda>s. (((ready e G S R s \<and> (\<exists>k. e_token e k = Inr access)) \<and> (\<exists>k. e_token e k = Inr refresh)) \<and> ah = tokenHash e access)
      \<and> rh = tokenHash e refresh"
  let ?t = "\<lparr>Token_TokenHash = ah, Token_RefreshTokenHash = rh, Token_ClientID = c, Token_UserID = u,
       Token_PartnerConnectionID = conn, Token_OrgID = org, Token_Scopes = sc, Token_ExpiresAt = now + defaultOAuthAccessTTL,
       Token_RefreshExpiresAt = now + defaultOAuthRefreshTTL, Token_RevokedAt = None, Token_CreatedAt = now\<rparr>"
  show "sruns e ?P (storeDo (CreateOAuthToken ?t)) (\<lambda>_. oauthOK G S R) (oauthOK G S R)"
  proof (rule sruns_do)
    fix s s' assume s: "?P s" and run: "CreateOAuthToken ?t s = Inr s'"
    have "mget (oauthTokens s) ah = None" "mget (oauthRefresh s) rh = None" using s by (auto simp: ready_def unissued_def)
    then have "oauthOK G S R s'" using s assms by (intro oauthOK_issue[OF _ _ _ _ run]) (auto simp: ready_def tokenGrant_def)
    then show "oauthOK G S R s' \<and> oauthOK G S R s'" by simp
  qed (auto simp: ready_def)
  show "sruns e (oauthOK G S R) (areturn \<lparr>TokResp_AccessToken = access, TokResp_TokenType = ''Bearer'',
      TokResp_ExpiresIn = defaultOAuthAccessTTL div second, TokResp_RefreshToken = refresh, TokResp_Scope = joinWith '' '' sc\<rparr>)
    (\<lambda>_. oauthOK G S R) (oauthOK G S R)" by (rule sruns_return)
qed

lemma keeps_client: "keeps w_store (validateClientSecret c secret)"
  unfolding validateClientSecret_def by (intro keeps_rules keeps_store[where f = id, unfolded id_apply])

lemma exchange_runs:
  "sruns e (ready e G S R) (ExchangeAuthorizationCode c secret code uri)
     (\<lambda>_. oauthOK G (insert (tokenHash e code) S) R) (oauthOK G S R)"
  unfolding ExchangeAuthorizationCode_def
proof (rule sruns_bind[OF sruns_keeps[OF keeps_client]], erule ready_ok, rule sruns_bind[OF hashed_runs],
    rule sruns_bind[OF orInvalidGrant_runs], (elim conjE, erule ready_ok), rule sruns_bind[OF sruns_now],
    rule sruns_bind[OF sruns_guard], (elim conjE, erule ready_ok), rule sruns_bind)
  fix client h rec now u
  let ?P = "\<lambda>s. ((ready e G S R s \<and> h = tokenHash e code) \<and> getOAuthAuthorizationCode h s = Inr rec)
      \<and> Code_ClientID rec = Client_ID client \<and> Code_RedirectURI rec = trimSpace uri \<and> Code_UsedAt rec = None \<and> now < Code_ExpiresAt rec"
  show "sruns e ?P (storeDo (UpdateOAuthAuthorizationCode (rec\<lparr>Code_UsedAt := Some now\<rparr>)))
      (\<lambda>_ s. ready e G (insert (tokenHash e code) S) R s \<and> codeGrant rec \<in> G) (oauthOK G S R)"
  proof (rule sruns_do)
    fix s s' assume s: "?P s" and run: "UpdateOAuthAuthorizationCode (rec\<lparr>Code_UsedAt := Some now\<rparr>) s = Inr s'"
    have "mget (oauthCodes s) h = Some rec" using s by (auto simp: getOAuthAuthorizationCode_def split: option.splits)
    then have "codeGrant rec \<in> G" using s oauthOK_parts(1)[of G S R s h rec] by (simp add: ready_def)
    moreover have "ready e G (insert h S) R s'" using s ready_spend[OF _ _ run] by blast
    moreover have "oauthOK G S R s'" using \<open>ready e G (insert h S) R s'\<close> oauthOK_mono[of G "insert h S" R s' G S R] by (auto simp: ready_def)
    ultimately show "(ready e G (insert (tokenHash e code) S) R s' \<and> codeGrant rec \<in> G) \<and> oauthOK G S R s'" using s by simp
  qed (simp add: ready_def)
  fix v :: unit
  show "sruns e (\<lambda>s. ready e G (insert (tokenHash e code) S) R s \<and> codeGrant rec \<in> G)
      (issueTokens (Code_ClientID rec) (Code_UserID rec) (Code_OrgID rec) (Code_Scopes rec))
      (\<lambda>_. oauthOK G (insert (tokenHash e code) S) R) (oauthOK G S R)"
  proof (rule sruns_pure[where b = "codeGrant rec \<in> G"])
    assume "codeGrant rec \<in> G"
    then show "sruns e (\<lambda>s. ready e G (insert (tokenHash e code) S) R s \<and> codeGrant rec \<in> G)
      (issueTokens (Code_ClientID rec) (Code_UserID rec) (Code_OrgID rec) (Code_Scopes rec))
      (\<lambda>_. oauthOK G (insert (tokenHash e code) S) R) (oauthOK G S R)"
      unfolding issueTokens_def codeGrant_def
      by (intro sruns_conseq[OF issue_runs[where G = G and S = "insert (tokenHash e code) S" and R = R]])
        (auto elim: oauthOK_mono)
  qed simp
qed

lemma refresh_runs:
  "sruns e (ready e G S R) (Refresh_oauth c secret token)
     (\<lambda>_. oauthOK G S (insert (tokenHash e token) R)) (oauthOK G S R)"
  unfolding Refresh_oauth_def
proof (rule sruns_bind[OF sruns_keeps[OF keeps_client]], erule ready_ok, rule sruns_bind[OF hashed_runs],
    rule sruns_bind[OF orInvalidGrant_runs], (elim conjE, erule ready_ok), rule sruns_bind[OF sruns_now],
    rule sruns_bind[OF sruns_guard], (elim conjE, erule ready_ok), rule sruns_bind)
  fix client h rec now u
  let ?P = "\<lambda>s. ((ready e G S R s \<and> h = tokenHash e token) \<and> OAuthRefreshToken h s = Inr rec)
      \<and> Token_ClientID rec = Client_ID client \<and> Token_RevokedAt rec = None \<and> now < Token_RefreshExpiresAt rec"
  show "sruns e ?P (storeDo (UpdateOAuthToken (rec\<lparr>Token_RevokedAt := Some now\<rparr>)))
      (\<lambda>_ s. ready e G S (insert (tokenHash e token) R) s \<and> (Token_UserID rec = [] \<or> tokenGrant rec \<in> G)) (oauthOK G S R)"
  proof (rule sruns_do)
    fix s s' assume s: "?P s" and run: "UpdateOAuthToken (rec\<lparr>Token_RevokedAt := Some now\<rparr>) s = Inr s'"
    obtain a where a: "mget (oauthRefresh s) h = Some a" "mget (oauthTokens s) a = Some rec" using s refresh_read by blast
    have ok: "ready e G S R s" using s by blast
    have "Token_UserID rec = [] \<or> tokenGrant rec \<in> G" using oauthOK_parts(2)[OF ready_ok[OF ok] a(2)] by blast
    moreover have "ready e G S (insert h R) s'" by (rule ready_revoke(2)[OF ok a(2) run a(1)])
    moreover have "oauthOK G S R s'" by (rule ready_ok[OF ready_revoke(1)[OF ok a(2) run]])
    ultimately show "(ready e G S (insert (tokenHash e token) R) s' \<and> (Token_UserID rec = [] \<or> tokenGrant rec \<in> G)) \<and> oauthOK G S R s'"
      using s by simp
  qed (simp add: ready_def)
  fix v :: unit
  show "sruns e (\<lambda>s. ready e G S (insert (tokenHash e token) R) s \<and> (Token_UserID rec = [] \<or> tokenGrant rec \<in> G))
      (issueTokens (Token_ClientID rec) (Token_UserID rec) (Token_OrgID rec) (Token_Scopes rec))
      (\<lambda>_. oauthOK G S (insert (tokenHash e token) R)) (oauthOK G S R)"
  proof (rule sruns_pure[where b = "Token_UserID rec = [] \<or> tokenGrant rec \<in> G"])
    assume "Token_UserID rec = [] \<or> tokenGrant rec \<in> G"
    then show "sruns e (\<lambda>s. ready e G S (insert (tokenHash e token) R) s \<and> (Token_UserID rec = [] \<or> tokenGrant rec \<in> G))
      (issueTokens (Token_ClientID rec) (Token_UserID rec) (Token_OrgID rec) (Token_Scopes rec))
      (\<lambda>_. oauthOK G S (insert (tokenHash e token) R)) (oauthOK G S R)"
      unfolding issueTokens_def tokenGrant_def
      by (intro sruns_conseq[OF issue_runs[where G = G and S = S and R = "insert (tokenHash e token) R"]])
        (auto elim: oauthOK_mono)
  qed simp
qed

lemma consented_keeps: "keeps w_store (consented user input)"
  unfolding consented_def validClientRequest_def by (intro keeps_rules keeps_store[where f = id, unfolded id_apply])

lemma consented_success:
  assumes "consented user input e w = (Inr p, w')"
  shows "mayConsent user input (w_store w) (Client_ID (fst p), User_ID user, snd (snd p), fst (snd p))"
proof -
  obtain client scopes membership where run: "getOAuthClient (trimSpace (AuthIn_ClientID input)) (w_store w) = Inr client"
    "\<not> Client_Disabled client" "trimSpace (AuthIn_RedirectURI input) \<in> set (Client_RedirectURIs client)"
    "normalizeOAuthScopes (AuthIn_Scopes input) = Inr scopes" "list_all (\<lambda>scope. scope \<in> set (Client_Scopes client)) scopes"
    "getOrganizationMembership (User_ID user) (trimSpace (AuthIn_OrgID input)) (w_store w) = Inr membership"
    "list_all (HasScope (Member_Scopes membership)) scopes" "p = (client, scopes, trimSpace (AuthIn_OrgID input))"
    using assms by (auto simp: consented_def validClientRequest_def success_rules atick_def)
  then show ?thesis by (auto simp: mayConsent_def list_all_iff)
qed

lemma authorize_runs:
  assumes "H = G \<union> Collect (mayConsent user input s0)"
  shows "sruns e (\<lambda>s. ready e G S R s \<and> s = s0) (Authorize_oauth user input) (\<lambda>_. oauthOK H S R) (oauthOK H S R)"
proof -
  let ?I = "\<lambda>s. ready e G S R s \<and> s = s0"
  have ok: "?I s \<Longrightarrow> oauthOK H S R s" for s
  proof -
    assume "?I s"
    then have "oauthOK G S R s" by (blast intro: ready_ok)
    then show ?thesis by (rule oauthOK_mono) (use assms in blast)+
  qed
  have checks: "sruns e ?I (consented user input)
      (\<lambda>p s. ?I s \<and> mayConsent user input s (Client_ID (fst p), User_ID user, snd (snd p), fst (snd p))) (oauthOK H S R)"
    by (rule sruns_reads[OF consented_keeps]) (erule ok, erule consented_success)
  show ?thesis
    unfolding Authorize_oauth_def case_prod_unfold
  proof (rule sruns_bind[OF checks],
      rule sruns_bind[OF sruns_token], (rule ok, erule conjunct1), rule sruns_bind[OF sruns_now], rule sruns_bind[OF hashed_runs], rule sruns_bind)
    fix p code now h and v :: unit
    let ?c = "\<lparr>Code_CodeHash = h, Code_ClientID = Client_ID (fst p), Code_UserID = User_ID user, Code_OrgID = snd (snd p),
       Code_RedirectURI = AuthIn_RedirectURI input, Code_Scopes = fst (snd p), Code_ExpiresAt = now + defaultOAuthCodeTTL,
       Code_UsedAt = None, Code_CreatedAt = now\<rparr>"
    let ?P = "\<lambda>s. ((?I s \<and> mayConsent user input s (Client_ID (fst p), User_ID user, snd (snd p), fst (snd p)))
       \<and> (\<exists>k. e_token e k = Inr code)) \<and> h = tokenHash e code"
    show "sruns e ?P (storeDo (CreateOAuthAuthorizationCode ?c)) (\<lambda>_. oauthOK H S R) (oauthOK H S R)"
    proof (rule sruns_do)
      fix s s' assume s: "?P s" and run: "CreateOAuthAuthorizationCode ?c s = Inr s'"
      have "mget (oauthCodes s) (Code_CodeHash ?c) = None" using s by (auto simp: ready_def unissued_def)
      moreover have "codeGrant ?c \<in> H" unfolding codeGrant_def assms using s by auto
      ultimately have "oauthOK H S R s'" using ok s by (intro oauthOK_code[OF _ _ _ run]) blast+
      then show "oauthOK H S R s' \<and> oauthOK H S R s'" by simp
    qed (use ok in blast)
    show "sruns e (oauthOK H S R) (abind (oauthRedirect (AuthIn_RedirectURI input) code (trimSpace (AuthIn_State input))) (\<lambda>redirect.
        areturn \<lparr>AuthResp_RedirectTo = redirect, AuthResp_Code = code, AuthResp_State = trimSpace (AuthIn_State input)\<rparr>))
      (\<lambda>_. oauthOK H S R) (oauthOK H S R)"
      by (rule sruns_keeps) (auto simp: oauthRedirect_def intro!: keeps_rules)
  qed
qed

lemma keepsOK: "keeps w_store m \<Longrightarrow> sruns e (oauthOK G S R) m (\<lambda>_. oauthOK G S R) (oauthOK G S R)"
  by (rule sruns_keeps)

lemma do_revokeWhere:
  assumes "\<And>s s'. f s = Inr s' \<Longrightarrow> \<exists>P now. s' = revokeWhere P now s"
  shows "sruns e (oauthOK G S R) (storeDo f) (\<lambda>_. oauthOK G S R) (oauthOK G S R)"
proof (rule sruns_do)
  fix s s' assume s: "oauthOK G S R s" and run: "f s = Inr s'"
  show "oauthOK G S R s' \<and> oauthOK G S R s'" using oauthOK_revokeWhere[OF s] assms[OF run] by blast
qed

lemma same_tables:
  assumes "oauthCodes s' = oauthCodes s" "oauthTokens s' = oauthTokens s" "oauthRefresh s' = oauthRefresh s"
  shows "oauthOK G S R s' = oauthOK G S R s"
  by (simp add: oauthOK_def assms)

lemma do_frame:
  assumes "\<And>s s'. f s = Inr s' \<Longrightarrow> oauthCodes s' = oauthCodes s \<and> oauthTokens s' = oauthTokens s \<and> oauthRefresh s' = oauthRefresh s"
  shows "sruns e (oauthOK G S R) (storeDo f) (\<lambda>_. oauthOK G S R) (oauthOK G S R)"
  by (rule sruns_do) (use assms same_tables in blast)+

lemma revoke_runs: "sruns e (oauthOK G S R) (Revoke_oauth token) (\<lambda>_. oauthOK G S R) (oauthOK G S R)"
  unfolding Revoke_oauth_def
proof (rule sruns_bind[OF hashed_runs])
  fix h
  let ?I = "\<lambda>s. oauthOK G S R s \<and> h = tokenHash e token"
  have ok: "?I s \<Longrightarrow> oauthOK G S R s" for s by blast
  let ?found = "\<lambda>r s. ?I s \<and> (\<forall>t. r = Inr t \<longrightarrow> (\<exists>a. mget (oauthTokens s) a = Some t))"
  have access: "sruns e ?I (atry (storeGet (OAuthAccessToken h))) ?found (oauthOK G S R)"
    by (rule sruns_conseq[OF sruns_try[OF sruns_get[where P = ?I and R = ?I]]])
      (auto simp: OAuthAccessToken_def split: sum.splits option.splits)
  have refresh: "sruns e ?I (atry (storeGet (OAuthRefreshToken h))) ?found (oauthOK G S R)"
    by (rule sruns_conseq[OF sruns_try[OF sruns_get[where P = ?I and R = ?I]]]) (auto dest: refresh_read split: sum.splits)
  show "sruns e ?I (abind (atry (storeGet (OAuthAccessToken h))) (\<lambda>first.
      abind (case first of Inl _ \<Rightarrow> atry (storeGet (OAuthRefreshToken h)) | Inr _ \<Rightarrow> areturn first) (\<lambda>r. case r of
        Inl _ \<Rightarrow> areturn ()
      | Inr record' \<Rightarrow> abind anow (\<lambda>now. storeDo (UpdateOAuthToken (record'\<lparr>Token_RevokedAt := Some now\<rparr>))))))
    (\<lambda>_. oauthOK G S R) (oauthOK G S R)"
  proof (rule sruns_bind[OF access], rule sruns_bind[where Q = ?found])
    fix first
    show "sruns e (?found first) (case first of Inl _ \<Rightarrow> atry (storeGet (OAuthRefreshToken h)) | Inr _ \<Rightarrow> areturn first) ?found (oauthOK G S R)"
      by (rule sruns_sum, rule sruns_conseq[OF refresh]) (auto intro!: sruns_return)
    fix r
    show "sruns e (?found r) (case r of Inl _ \<Rightarrow> areturn ()
        | Inr record' \<Rightarrow> abind anow (\<lambda>now. storeDo (UpdateOAuthToken (record'\<lparr>Token_RevokedAt := Some now\<rparr>))))
      (\<lambda>_. oauthOK G S R) (oauthOK G S R)"
    proof (rule sruns_sum)
      fix t assume r: "r = Inr t"
      show "sruns e (?found r) (abind anow (\<lambda>now. storeDo (UpdateOAuthToken (t\<lparr>Token_RevokedAt := Some now\<rparr>)))) (\<lambda>_. oauthOK G S R) (oauthOK G S R)"
      proof (rule sruns_bind[OF sruns_now], rule sruns_do)
        fix now s s' assume s: "?found r s" and run: "UpdateOAuthToken (t\<lparr>Token_RevokedAt := Some now\<rparr>) s = Inr s'"
        obtain a where a: "mget (oauthTokens s) a = Some t" using s r by blast
        have "oauthOK G S R s'" by (rule oauthOK_revoke(1)[OF _ a run]) (use s in blast)
        then show "oauthOK G S R s' \<and> oauthOK G S R s'" by simp
      qed blast
    qed (rule sruns_return, blast)
  qed
qed

lemma revoke_loops:
  "RevokeOAuthClientTokens u g c now s = Inr s' \<Longrightarrow> \<exists>P now. s' = revokeWhere P now s"
  "RevokeAllOAuthClientTokens c now s = Inr s' \<Longrightarrow> \<exists>P now. s' = revokeWhere P now s"
  "RevokePartnerConnectionTokens i now s = Inr s' \<Longrightarrow> \<exists>P now. s' = revokeWhere P now s"
  unfolding RevokeOAuthClientTokens_def RevokeAllOAuthClientTokens_def RevokePartnerConnectionTokens_def by blast+

lemma disconnect_runs: "sruns e (oauthOK G S R) (Disconnect u org c) (\<lambda>_. oauthOK G S R) (oauthOK G S R)"
  unfolding Disconnect_def
  by (rule sruns_bind[OF sruns_now], rule do_revokeWhere, erule revoke_loops)

lemma disable_runs: "sruns e (oauthOK G S R) (DisableClient owner i) (\<lambda>_. oauthOK G S R) (oauthOK G S R)"
  unfolding DisableClient_def
proof (rule sruns_bind[OF keepsOK])
  show "keeps w_store (Client owner i)" unfolding Client_def by (intro keeps_rules keeps_store[where f = id, unfolded id_apply])
  fix client
  show "sruns e (oauthOK G S R) (abind anow (\<lambda>now. abind (storeDo (UpdateOAuthClient (client\<lparr>Client_Disabled := True, Client_UpdatedAt := now\<rparr>)))
      (\<lambda>_. storeDo (RevokeAllOAuthClientTokens (Client_ID client) now)))) (\<lambda>_. oauthOK G S R) (oauthOK G S R)"
    by (rule sruns_bind[OF sruns_now], rule sruns_bind[OF do_frame], force simp: UpdateOAuthClient_def split: if_splits,
        rule do_revokeWhere, erule revoke_loops)
qed

lemma issuePartner_runs: "sruns e (ready e G S R) (IssuePartnerTokens connection sc) (\<lambda>_. oauthOK G S R) (oauthOK G S R)"
  unfolding IssuePartnerTokens_def issueTokensForConnection_def
  by (rule sruns_if, rule sruns_return(2), erule ready_ok, rule issue_runs) simp

lemma refreshPartner_runs: "sruns e (ready e G S R) (RefreshPartner i token) (\<lambda>_. oauthOK G S R) (oauthOK G S R)"
  unfolding RefreshPartner_def
proof (rule sruns_bind[OF hashed_runs])
  fix h
  let ?I = "\<lambda>s. ready e G S R s \<and> h = tokenHash e token"
  have ok: "?I s \<Longrightarrow> oauthOK G S R s" for s by (blast intro: ready_ok)
  show "sruns e ?I (abind (orInvalidGrant (storeGet (OAuthRefreshToken h))) (\<lambda>record'. abind anow (\<lambda>start.
     abind (aguard (Token_PartnerConnectionID record' = i \<and> Token_RevokedAt record' = None
       \<and> start < Token_RefreshExpiresAt record') ErrOAuthInvalidGrant) (\<lambda>_.
     abind (orInvalidGrant (storeGet (getPartnerConnection i))) (\<lambda>connection.
     abind (aguard (PConn_Status connection = ''active'' \<and> PConn_OrgID connection = Token_OrgID record') ErrOAuthInvalidGrant) (\<lambda>_.
     abind anow (\<lambda>now. abind (storeDo (UpdateOAuthToken (record'\<lparr>Token_RevokedAt := Some now\<rparr>))) (\<lambda>_.
       issueTokensForConnection (PConn_IntegrationID connection) (PConn_ID connection) (PConn_OrgID connection) (Token_Scopes record'))))))))) 
    (\<lambda>_. oauthOK G S R) (oauthOK G S R)"
  proof (rule sruns_bind[OF orInvalidGrant_runs], erule ok, rule sruns_bind[OF sruns_now])
    fix rec start
    let ?T = "\<lambda>s. ?I s \<and> OAuthRefreshToken h s = Inr rec"
    have okT: "?T s \<Longrightarrow> oauthOK G S R s" for s using ok by blast
    have spend: "sruns e ?T (storeDo (UpdateOAuthToken (rec\<lparr>Token_RevokedAt := Some now\<rparr>))) (\<lambda>_. ready e G S R) (oauthOK G S R)" for now
    proof (rule sruns_do)
      fix s s' assume s: "?T s" and run: "UpdateOAuthToken (rec\<lparr>Token_RevokedAt := Some now\<rparr>) s = Inr s'"
      obtain a where a: "mget (oauthTokens s) a = Some rec" using s refresh_read by blast
      have "ready e G S R s'" by (rule ready_revoke(1)[OF _ a run]) (use s in blast)
      then show "ready e G S R s' \<and> oauthOK G S R s'" using ready_ok by blast
    qed (erule okT)
    show "sruns e ?T (abind (aguard (Token_PartnerConnectionID rec = i \<and> Token_RevokedAt rec = None
         \<and> start < Token_RefreshExpiresAt rec) ErrOAuthInvalidGrant) (\<lambda>_.
       abind (orInvalidGrant (storeGet (getPartnerConnection i))) (\<lambda>connection.
       abind (aguard (PConn_Status connection = ''active'' \<and> PConn_OrgID connection = Token_OrgID rec) ErrOAuthInvalidGrant) (\<lambda>_.
       abind anow (\<lambda>now. abind (storeDo (UpdateOAuthToken (rec\<lparr>Token_RevokedAt := Some now\<rparr>))) (\<lambda>_.
         issueTokensForConnection (PConn_IntegrationID connection) (PConn_ID connection) (PConn_OrgID connection) (Token_Scopes rec)))))))
      (\<lambda>_. oauthOK G S R) (oauthOK G S R)"
    proof (rule sruns_bind[OF sruns_keeps], intro keeps_rules, erule okT, rule sruns_bind[OF sruns_keeps], unfold orInvalidGrant_def,
        intro keeps_rules keeps_store[where f = id, unfolded id_apply], erule okT, rule sruns_bind[OF sruns_keeps], intro keeps_rules, erule okT,
        rule sruns_bind[OF sruns_now], rule sruns_bind[OF spend])
      fix connection :: PartnerConnection
      show "sruns e (ready e G S R) (issueTokensForConnection (PConn_IntegrationID connection) (PConn_ID connection) (PConn_OrgID connection)
        (Token_Scopes rec)) (\<lambda>_. oauthOK G S R) (oauthOK G S R)"
        unfolding issueTokensForConnection_def by (rule issue_runs) simp
    qed
  qed
qed

lemma revokePartner_runs: "sruns e (oauthOK G S R) (Revoke_partner i secret c) (\<lambda>_. oauthOK G S R) (oauthOK G S R)"
  unfolding Revoke_partner_def
proof (rule sruns_bind[OF keepsOK], rule keeps_store[where f = id, unfolded id_apply], rule sruns_bind[OF keepsOK], rule keeps_return,
    rule sruns_bind[OF keepsOK])
  show "keeps w_store (authenticate i secret)"
    unfolding authenticate_def by (intro keeps_rules keeps_store[where f = id, unfolded id_apply])
  show "sruns e (oauthOK G S R) (abind anow (\<lambda>now. abind (storeDo (RevokePartnerConnection c now)) (\<lambda>_. storeDo (RevokePartnerConnectionTokens c now))))
      (\<lambda>_. oauthOK G S R) (oauthOK G S R)"
    by (rule sruns_bind[OF sruns_now], rule sruns_bind[OF do_frame], force simp: RevokePartnerConnection_def split: option.splits,
        rule do_revokeWhere, erule revoke_loops)
qed

section \<open>Runs\<close>

text \<open>
  A run of the service: calls of its operations by anybody, in any environment whose random tokens are
  new (for SHA-256 \<open>H\<close>), between changes of the rest of the store. The second component collects what
  users consented to: what \<open>mayConsent\<close> allows when \<open>Authorize\<close> is called.
\<close>

definition newTokens :: "(string \<Rightarrow> string) \<Rightarrow> serviceEnv \<Rightarrow> world \<Rightarrow> bool" where
  "newTokens H e w \<longleftrightarrow> e_hash e = H \<and> unissued e (w_store w)"

inductive oauth_step :: "(string \<Rightarrow> string) \<Rightarrow> world \<times> oauthGrant set \<Rightarrow> world \<times> oauthGrant set \<Rightarrow> bool" for H where
  step_authorize: "newTokens H e w \<Longrightarrow>
     oauth_step H (w, G) (snd (Authorize_oauth user input e w), G \<union> Collect (mayConsent user input (w_store w)))"
| step_token: "newTokens H e w \<Longrightarrow> oauth_step H (w, G) (snd (oauthToken request e w), G)"
| step_revoke: "oauth_step H (w, G) (snd (Revoke_oauth token e w), G)"
| step_disconnect: "oauth_step H (w, G) (snd (Disconnect userID orgID clientID e w), G)"
| step_disable: "oauth_step H (w, G) (snd (DisableClient owner clientID e w), G)"
| step_partner_issue: "newTokens H e w \<Longrightarrow> oauth_step H (w, G) (snd (IssuePartnerTokens connection scopes e w), G)"
| step_partner_refresh: "newTokens H e w \<Longrightarrow> oauth_step H (w, G) (snd (RefreshPartner connectionID token e w), G)"
| step_partner_revoke: "oauth_step H (w, G) (snd (Revoke_partner integrationID secret connectionID e w), G)"
| step_rest: "oauthCodes (w_store w') = oauthCodes (w_store w) \<Longrightarrow> oauthTokens (w_store w') = oauthTokens (w_store w) \<Longrightarrow>
     oauthRefresh (w_store w') = oauthRefresh (w_store w) \<Longrightarrow> oauth_step H (w, G) (w', G)"

lemma sruns_end: "sruns e P m (\<lambda>_. Q) Q \<Longrightarrow> P (w_store w) \<Longrightarrow> Q (w_store (snd (m e w)))"
  using srunsD[of e P m "\<lambda>_. Q" Q w] by (auto split: prod.splits sum.splits)

lemma token_runs: "sruns e (ready e G S R) (oauthToken request) (\<lambda>_. oauthOK G S R) (oauthOK G S R)"
  unfolding oauthToken_def Let_def
  by (intro sruns_if) (auto intro!: sruns_return sruns_conseq[OF exchange_runs[of e G S R]] sruns_conseq[OF refresh_runs[of e G S R]]
    elim: oauthOK_mono ready_ok)

lemma oauth_step_keeps:
  assumes "oauth_step H x y" "oauthOK (snd x) S R (w_store (fst x))"
  shows "oauthOK (snd y) S R (w_store (fst y))"
  using assms
proof cases
  case (step_authorize e w G user input)
  then have "ready e G S R (w_store w)" using assms(2) by (simp add: ready_def newTokens_def)
  then show ?thesis using sruns_end[OF authorize_runs[OF refl, of e G S R], of w] step_authorize by simp
next
  case (step_token e w G request)
  then show ?thesis using sruns_end[OF token_runs[of e G S R request], of w] assms(2) by (simp add: ready_def newTokens_def)
next
  case (step_partner_issue e w G connection scopes)
  then show ?thesis using sruns_end[OF issuePartner_runs[of e G S R connection scopes], of w] assms(2) by (simp add: ready_def newTokens_def)
next
  case (step_partner_refresh e w G connectionID token)
  then show ?thesis using sruns_end[OF refreshPartner_runs[of e G S R connectionID token], of w] assms(2) by (simp add: ready_def newTokens_def)
next
  case (step_rest w' w G)
  then show ?thesis using same_tables[of "w_store w'" "w_store w"] assms(2) by simp
qed (use assms(2) sruns_end[OF revoke_runs] sruns_end[OF disconnect_runs] sruns_end[OF disable_runs] sruns_end[OF revokePartner_runs] in simp_all)

lemma oauth_steps_keep:
  "(oauth_step H)\<^sup>*\<^sup>* x y \<Longrightarrow> oauthOK (snd x) S R (w_store (fst x)) \<Longrightarrow> oauthOK (snd y) S R (w_store (fst y))"
  by (induction rule: rtranclp_induct) (blast intro: oauth_step_keeps)+

end
