(* ===== verification/OAuth_Properties.thy ===== *)
theory OAuth_Properties
  imports OAuth_Runs Deploy_Consistency
begin

text \<open>
  What holds of the OAuth service in every run: tokens are confined to consents, and a grant is redeemed
  at most once (by requests that do not overlap).
\<close>

section \<open>Redeeming twice\<close>

lemma exchange_spent:
  assumes "mget (oauthCodes s0) (tokenHash e code) = Some c" "Code_UsedAt c \<noteq> None"
  shows "sruns e (\<lambda>s. s = s0) (ExchangeAuthorizationCode i secret code uri) (\<lambda>_ _. False) (\<lambda>s. s = s0)"
  unfolding ExchangeAuthorizationCode_def
proof (rule sruns_bind[OF sruns_keeps[OF keeps_client]], assumption, rule sruns_bind[OF hashed_runs],
    rule sruns_bind[OF orInvalidGrant_runs], erule conjunct1, rule sruns_bind[OF sruns_now])
  fix client h rec now
  let ?P = "\<lambda>s. (s = s0 \<and> h = tokenHash e code) \<and> getOAuthAuthorizationCode h s = Inr rec"
  show "sruns e ?P (abind (aguard (Code_ClientID rec = Client_ID client \<and> Code_RedirectURI rec = trimSpace uri
       \<and> Code_UsedAt rec = None \<and> now < Code_ExpiresAt rec) ErrOAuthInvalidGrant) (\<lambda>_.
     abind (storeDo (UpdateOAuthAuthorizationCode (rec\<lparr>Code_UsedAt := Some now\<rparr>))) (\<lambda>_.
       issueTokens (Code_ClientID rec) (Code_UserID rec) (Code_OrgID rec) (Code_Scopes rec)))) (\<lambda>_ _. False) (\<lambda>s. s = s0)"
  proof (rule sruns_pure[where b = "rec = c"])
    assume "rec = c"
    then show "sruns e ?P (abind (aguard (Code_ClientID rec = Client_ID client \<and> Code_RedirectURI rec = trimSpace uri
       \<and> Code_UsedAt rec = None \<and> now < Code_ExpiresAt rec) ErrOAuthInvalidGrant) (\<lambda>_.
     abind (storeDo (UpdateOAuthAuthorizationCode (rec\<lparr>Code_UsedAt := Some now\<rparr>))) (\<lambda>_.
       issueTokens (Code_ClientID rec) (Code_UserID rec) (Code_OrgID rec) (Code_Scopes rec)))) (\<lambda>_ _. False) (\<lambda>s. s = s0)"
      using assms(2) by (intro sruns_bind[OF sruns_guard]) (blast, rule sruns_pure[where b = False], simp_all)
  qed (use assms(1) in \<open>auto simp: getOAuthAuthorizationCode_def\<close>)
qed

lemma refresh_rotated:
  assumes "OAuthRefreshToken (tokenHash e token) s0 = Inr t" "Token_RevokedAt t \<noteq> None"
  shows "sruns e (\<lambda>s. s = s0) (Refresh_oauth i secret token) (\<lambda>_ _. False) (\<lambda>s. s = s0)"
  unfolding Refresh_oauth_def
proof (rule sruns_bind[OF sruns_keeps[OF keeps_client]], assumption, rule sruns_bind[OF hashed_runs],
    rule sruns_bind[OF orInvalidGrant_runs], erule conjunct1, rule sruns_bind[OF sruns_now])
  fix client h rec now
  let ?P = "\<lambda>s. (s = s0 \<and> h = tokenHash e token) \<and> OAuthRefreshToken h s = Inr rec"
  show "sruns e ?P (abind (aguard (Token_ClientID rec = Client_ID client \<and> Token_RevokedAt rec = None
       \<and> now < Token_RefreshExpiresAt rec) ErrOAuthInvalidGrant) (\<lambda>_.
     abind (storeDo (UpdateOAuthToken (rec\<lparr>Token_RevokedAt := Some now\<rparr>))) (\<lambda>_.
       issueTokens (Token_ClientID rec) (Token_UserID rec) (Token_OrgID rec) (Token_Scopes rec)))) (\<lambda>_ _. False) (\<lambda>s. s = s0)"
  proof (rule sruns_pure[where b = "rec = t"])
    assume "rec = t"
    then show "sruns e ?P (abind (aguard (Token_ClientID rec = Client_ID client \<and> Token_RevokedAt rec = None
       \<and> now < Token_RefreshExpiresAt rec) ErrOAuthInvalidGrant) (\<lambda>_.
     abind (storeDo (UpdateOAuthToken (rec\<lparr>Token_RevokedAt := Some now\<rparr>))) (\<lambda>_.
       issueTokens (Token_ClientID rec) (Token_UserID rec) (Token_OrgID rec) (Token_Scopes rec)))) (\<lambda>_ _. False) (\<lambda>s. s = s0)"
      using assms(2) by (intro sruns_bind[OF sruns_guard]) (blast, rule sruns_pure[where b = False], simp_all)
  qed (use assms(1) in auto)
qed

lemma srunsF:
  assumes "sruns e (\<lambda>s. s = s0) m (\<lambda>_ _. False) (\<lambda>s. s = s0)" "w_store w = s0"
  shows "\<exists>er w'. m e w = (Inl er, w') \<and> w_store w' = s0"
  using srunsD[OF assms] by (auto split: prod.splits sum.splits)

section \<open>The theorems\<close>

lemma empty_ok: "oauthCodes s = mempty \<Longrightarrow> oauthTokens s = mempty \<Longrightarrow> oauthOK {} {} {} s"
  by (simp add: oauthOK_def)

lemma sruns_success:
  "sruns e P m Q R \<Longrightarrow> P (w_store w) \<Longrightarrow> m e w = (Inr a, w') \<Longrightarrow> Q a (w_store w')"
  using srunsD[of e P m Q R w] by simp

text \<open>A consent of the run was given in a call of \<open>Authorize\<close> that the run made.\<close>

lemma consent_given:
  assumes "(oauth_step H)\<^sup>*\<^sup>* (w0, {}) x" "g \<in> snd x"
  shows "\<exists>v V user input e G. (oauth_step H)\<^sup>*\<^sup>* (w0, {}) (v, V) \<and> mayConsent user input (w_store v) g
    \<and> (oauth_step H)\<^sup>*\<^sup>* (snd (Authorize_oauth user input e v), G) x"
  using assms
proof (induction rule: rtranclp_induct)
  case (step y z)
  show ?case
  proof (cases "g \<in> snd y")
    case True
    from step.IH[OF this] show ?thesis using step.hyps(2) by (meson rtranclp.rtrancl_into_rtrancl)
  next
    case False
    with step.hyps(2) step.prems show ?thesis
    proof cases
      case (step_authorize e w G user input)
      then have "mayConsent user input (w_store w) g" using False step.prems by simp
      then show ?thesis using step.hyps(1) step_authorize by blast
    qed (use False step.prems in auto)
  qed
qed simp

text \<open>C2: A token that stands for a user is confined to a consent of that user: some call of Authorize in the run, made when the client was enabled, had registered the redirect and could ask for the scopes, and when the membership of the user in the organization had all of these scopes, named exactly the client, the user, the organization and the scopes that the token now gives. No exchange, refresh, revocation, partner operation or failure on the way adds a scope.\<close>

theorem oauth_confined:
  assumes "(oauth_step H)\<^sup>*\<^sup>* (w0, {}) (w, G)" "oauthCodes (w_store w0) = mempty" "oauthTokens (w_store w0) = mempty"
    and "ValidateAccessToken token e w = (Inr a, w')" "Access_UserID a \<noteq> []"
  shows "\<exists>v V user input e' G'. (oauth_step H)\<^sup>*\<^sup>* (w0, {}) (v, V)
    \<and> mayConsent user input (w_store v) (Access_ClientID a, Access_UserID a, Access_OrgID a, Access_Scopes a)
    \<and> (oauth_step H)\<^sup>*\<^sup>* (snd (Authorize_oauth user input e' v), G') (w, G)"
proof -
  have ok: "oauthOK G {} {} (w_store w)" using oauth_steps_keep[OF assms(1), of "{}" "{}"] empty_ok[OF assms(2,3)] by simp
  obtain t where t: "mget (oauthTokens (w_store w)) (tokenHash e token) = Some t"
    "tokenGrant t = (Access_ClientID a, Access_UserID a, Access_OrgID a, Access_Scopes a)" "Access_UserID a = Token_UserID t"
    using assms(4) by (auto simp: ValidateAccessToken_def hashed_def success_rules anow_def tokenGrant_def OAuthAccessToken_def split: option.splits)
  have "tokenGrant t \<in> G" using oauthOK_parts(2)[OF ok t(1)] assms(5) t(3) by simp
  then show ?thesis using consent_given[OF assms(1), of "tokenGrant t"] t(2) by simp
qed

text \<open>C14: A grant is redeemed at most once: when the token endpoint has answered a request with tokens, every later request of the same grant type with the same authorization code, or with the same refresh token when the request was a refresh, whoever sends it and whatever happened in between, is refused and creates no token.\<close>

theorem oauth_single_use:
  assumes "(oauth_step H)\<^sup>*\<^sup>* (w0, {}) (w, G)" "oauthCodes (w_store w0) = mempty" "oauthTokens (w_store w0) = mempty"
    and "newTokens H e w" "oauthToken request e w = (Inr response, w1)"
    and "(oauth_step H)\<^sup>*\<^sup>* (w1, G) (w2, G2)" "e_hash e2 = H"
    and "trimSpace (TokReq_GrantType request2) = trimSpace (TokReq_GrantType request)"
    and "trimSpace (TokReq_GrantType request) = ''authorization_code'' \<longrightarrow> TokReq_Code request2 = TokReq_Code request"
    and "trimSpace (TokReq_GrantType request) = ''refresh_token'' \<longrightarrow> TokReq_RefreshToken request2 = TokReq_RefreshToken request"
  shows "\<exists>er w3. oauthToken request2 e2 w2 = (Inl er, w3) \<and> w_store w3 = w_store w2"
proof -
  have "oauthOK G {} {} (w_store w)" using oauth_steps_keep[OF assms(1), of "{}" "{}"] empty_ok[OF assms(2,3)] by simp
  then have ready: "ready e G {} {} (w_store w)" using assms(4) by (simp add: ready_def newTokens_def)
  have H: "tokenHash e2 x = tokenHash e x" for x using assms(4,7) by (simp add: tokenHash_def newTokens_def)
  show ?thesis
  proof (cases "trimSpace (TokReq_ClientID request2) = [] \<or> trimSpace (TokReq_ClientSecret request2) = []")
    case True
    then show ?thesis by (simp add: oauthToken_def Let_def)
  next
    case named: False
    show ?thesis
    proof (cases "trimSpace (TokReq_GrantType request) = ''authorization_code''")
      case True
      let ?h = "tokenHash e (TokReq_Code request)"
      have "ExchangeAuthorizationCode (TokReq_ClientID request) (TokReq_ClientSecret request) (TokReq_Code request) (TokReq_RedirectURI request) e w
          = (Inr response, w1)" using assms(5) True by (simp add: oauthToken_def Let_def split: if_splits)
      from sruns_success[OF exchange_runs ready this] have "oauthOK G {?h} {} (w_store w1)" .
      then have "oauthOK G2 {?h} {} (w_store w2)" using oauth_steps_keep[OF assms(6), of "{?h}" "{}"] by simp
      then obtain c where "mget (oauthCodes (w_store w2)) ?h = Some c" "Code_UsedAt c \<noteq> None" using oauthOK_parts(4) by blast
      from srunsF[OF exchange_spent, of "w_store w2" e2 "TokReq_Code request" c w2] this H True named assms(8,9)
      show ?thesis by (simp add: oauthToken_def Let_def)
    next
      case code: False
      show ?thesis
      proof (cases "trimSpace (TokReq_GrantType request) = ''refresh_token''")
        case True
        let ?h = "tokenHash e (TokReq_RefreshToken request)"
        have "Refresh_oauth (TokReq_ClientID request) (TokReq_ClientSecret request) (TokReq_RefreshToken request) e w = (Inr response, w1)"
          using assms(5) True by (simp add: oauthToken_def Let_def split: if_splits)
        from sruns_success[OF refresh_runs ready this] have "oauthOK G {} {?h} (w_store w1)" .
        then have "oauthOK G2 {} {?h} (w_store w2)" using oauth_steps_keep[OF assms(6), of "{}" "{?h}"] by simp
        then obtain x t where "mget (oauthRefresh (w_store w2)) ?h = Some x" "mget (oauthTokens (w_store w2)) x = Some t" "Token_RevokedAt t \<noteq> None"
          using oauthOK_parts(5) by blast
        then have "OAuthRefreshToken ?h (w_store w2) = Inr t" by (simp add: OAuthRefreshToken_def OAuthAccessToken_def)
        from srunsF[OF refresh_rotated, of e2 "TokReq_RefreshToken request" "w_store w2" t w2] this H True named assms(8,10) \<open>Token_RevokedAt t \<noteq> None\<close>
        show ?thesis by (simp add: oauthToken_def Let_def)
      next
        case False
        then show ?thesis using code named assms(8) by (simp add: oauthToken_def Let_def)
      qed
    qed
  qed
qed

section \<open>Demonstration\<close>

lemma newTokens_const:
  assumes "e_token e = (\<lambda>_. Inr x)" "e_hash e = H" "mget (oauthCodes (w_store w)) (H (trimSpace x)) = None"
    "mget (oauthTokens (w_store w)) (H (trimSpace x)) = None" "mget (oauthRefresh (w_store w)) (H (trimSpace x)) = None"
  shows "newTokens H e w"
  using assms by (simp add: newTokens_def unissued_def tokenHash_def)

definition oauthEnv :: "string \<Rightarrow> serviceEnv" where
  "oauthEnv x = demoServiceEnv\<lparr>e_token := (\<lambda>_. Inr x)\<rparr>"

definition oauthUser :: User where
  "oauthUser = User0\<lparr>User_ID := ''u''\<rparr>"

definition oauthStart :: world where
  "oauthStart = worldOf (NewStore\<lparr>users := mput ''u'' oauthUser mempty, organizations := mput ''o'' (Organization0\<lparr>Org_ID := ''o''\<rparr>) mempty,
     memberships := mput2 ''u'' ''o'' (OrganizationMembership0\<lparr>Member_UserID := ''u'', Member_OrgID := ''o'', Member_Role := ''viewer'',
       Member_Scopes := viewerScopes\<rparr>) mempty,
     oauthClients := mput ''app'' (OAuthClient0\<lparr>Client_ID := ''app'', Client_RedirectURIs := [''https://a''],
       Client_Scopes := [''db:read'', ''kv:read''], Client_SecretHash := ''s''\<rparr>) mempty\<rparr>)"

definition oauthInput :: OAuthAuthorizeInput where
  "oauthInput = \<lparr>AuthIn_ClientID = ''app'', AuthIn_RedirectURI = ''https://a'', AuthIn_Scopes = [''kv:read''], AuthIn_State = [],
     AuthIn_OrgID = ''o''\<rparr>"

definition oauthAuthorized :: world where
  "oauthAuthorized = snd (Authorize_oauth oauthUser oauthInput (oauthEnv ''c'') oauthStart)"

definition oauthRequest :: oauthTokenRequest where
  "oauthRequest = \<lparr>TokReq_GrantType = ''authorization_code'', TokReq_ClientID = ''app'', TokReq_ClientSecret = ''s'', TokReq_Code = ''c'',
     TokReq_RedirectURI = ''https://a'', TokReq_RefreshToken = []\<rparr>"

definition oauthExchanged :: world where
  "oauthExchanged = snd (oauthToken oauthRequest (oauthEnv ''t'') oauthAuthorized)"

abbreviation oauthConsents :: "oauthGrant set" where
  "oauthConsents \<equiv> {} \<union> Collect (mayConsent oauthUser oauthInput (w_store oauthStart))"

lemma oauth_demo_runs:
  "(oauth_step id)\<^sup>*\<^sup>* (oauthStart, {}) (oauthAuthorized, oauthConsents)"
  "newTokens id (oauthEnv ''t'') oauthAuthorized"
  "(oauth_step id)\<^sup>*\<^sup>* (oauthStart, {}) (oauthExchanged, oauthConsents)"
proof -
  have env: "e_token (oauthEnv x) = (\<lambda>_. Inr x)" "e_hash (oauthEnv x) = id" for x by (simp_all add: oauthEnv_def demoServiceEnv_def)
  have "newTokens id (oauthEnv ''c'') oauthStart"
    by (rule newTokens_const[OF env]) code_simp+
  then have a: "oauth_step id (oauthStart, {}) (oauthAuthorized, oauthConsents)"
    unfolding oauthAuthorized_def by (rule step_authorize)
  show new: "newTokens id (oauthEnv ''t'') oauthAuthorized"
    by (rule newTokens_const[OF env]) code_simp+
  have b: "oauth_step id (oauthAuthorized, oauthConsents) (oauthExchanged, oauthConsents)"
    unfolding oauthExchanged_def by (rule step_token[OF new])
  show "(oauth_step id)\<^sup>*\<^sup>* (oauthStart, {}) (oauthAuthorized, oauthConsents)" using a by blast
  show "(oauth_step id)\<^sup>*\<^sup>* (oauthStart, {}) (oauthExchanged, oauthConsents)" by (rule rtranclp.rtrancl_into_rtrancl[OF r_into_rtranclp[where r = "oauth_step id", OF a] b])
qed

lemma oauthStart_empty: "oauthCodes (w_store oauthStart) = mempty" "oauthTokens (w_store oauthStart) = mempty"
  by (simp_all add: oauthStart_def worldOf_def NewStore_def)

theorem oauth_confined_witness:
  "\<exists>(v :: world) user input. mayConsent user input (w_store v) (''app'', ''u'', ''o'', [''kv:read''])
     \<and> fst (ValidateAccessToken ''t'' (oauthEnv []) oauthExchanged) = Inr \<lparr>Access_ClientID = ''app'', Access_UserID = ''u'', Access_OrgID = ''o'',
       Access_Scopes = [''kv:read''], Access_ConnectionID = []\<rparr>"
proof -
  have run: "fst (ValidateAccessToken ''t'' (oauthEnv []) oauthExchanged) = Inr \<lparr>Access_ClientID = ''app'', Access_UserID = ''u'', Access_OrgID = ''o'',
       Access_Scopes = [''kv:read''], Access_ConnectionID = []\<rparr>" by code_simp
  then obtain w' where "ValidateAccessToken ''t'' (oauthEnv []) oauthExchanged = (Inr \<lparr>Access_ClientID = ''app'', Access_UserID = ''u'',
       Access_OrgID = ''o'', Access_Scopes = [''kv:read''], Access_ConnectionID = []\<rparr>, w')" by (metis prod.collapse)
  from oauth_confined[OF oauth_demo_runs(3) oauthStart_empty this] obtain v :: world and user input
    where "mayConsent user input (w_store v) (''app'', ''u'', ''o'', [''kv:read''])" by auto
  then show ?thesis using run by blast
qed

theorem oauth_single_use_witness:
  "\<exists>response er. fst (oauthToken oauthRequest (oauthEnv ''t'') oauthAuthorized) = Inr response
     \<and> fst (oauthToken oauthRequest (oauthEnv ''x'') oauthExchanged) = Inl er"
proof -
  have "case oauthToken oauthRequest (oauthEnv ''t'') oauthAuthorized of (Inr _, _) \<Rightarrow> True | _ \<Rightarrow> False" by code_simp
  then obtain response where run: "oauthToken oauthRequest (oauthEnv ''t'') oauthAuthorized = (Inr response, oauthExchanged)"
    by (cases "oauthToken oauthRequest (oauthEnv ''t'') oauthAuthorized") (auto simp: oauthExchanged_def split: sum.splits)
  have "e_hash (oauthEnv ''x'') = id" by (simp add: oauthEnv_def demoServiceEnv_def)
  from oauth_single_use[OF oauth_demo_runs(1) oauthStart_empty oauth_demo_runs(2) run rtranclp.rtrancl_refl this refl impI[OF refl] impI[OF refl]] run
  show ?thesis by auto
qed

end
