(* ===== verification/Identity_Properties.thy ===== *)
theory Identity_Properties
  imports Auth_Service Action_Runs Capability_Exact
begin

text \<open>
  Sessions, members and personal access tokens: what a token proves, what it may do, and that an
  organization keeps an owner.
\<close>

section \<open>Session tokens\<close>

text \<open>C37: The session token issued to a user is accepted by every server that has the same secret, as that user, for exactly 24 hours (in seconds of Unix time), and refused afterwards.\<close>

theorem session_token_roundtrip:
  assumes "issueToken user e w = (Inr token, w1)"
    and "e_authSecret e' = e_authSecret e" "e_hmac e' = e_hmac e"
    and "expires = unixTime (e_clock e (w_calls w) + 24 * 3600 * second)"
    and "e_claimsOf e' (e_claimsJSON e (User_ID user, User_Email user, expires)) = Some (User_ID user, User_Email user, expires)"
    and "User_ID user \<noteq> []" "User_Email user \<noteq> []"
  shows "ValidateToken token e' w' =
    (if unixTime (e_clock e' (w_calls w')) < expires
     then Inr (User0\<lparr>User_ID := User_ID user, User_Email := User_Email user\<rparr>) else Inl (ErrText ''invalid token''), w')"
proof -
  let ?claims = "e_claimsJSON e (User_ID user, User_Email user, unixTime (e_clock e (w_calls w) + defaultControlTokenTTL))"
  let ?signing = "base64Encode (e_jwtHeader e) @ ''.'' @ base64Encode ?claims"
  have token: "e_authSecret e \<noteq> []" "token = ?signing @ ''.'' @ base64Encode (e_hmac e (e_authSecret e) ?signing)"
    using assms(1) by (auto simp: issueToken_def abind_def aenv_def anow_def Let_def split: if_splits)
  have "splitOn CHR ''.'' token = [base64Encode (e_jwtHeader e), base64Encode ?claims, base64Encode (e_hmac e (e_authSecret e) ?signing)]"
    unfolding token(2) by (simp add: splitOn_append base64_no_dot)
  then have "ValidateToken token e' w' = (validClaims e' (e_clock e' (w_calls w')) (base64Encode ?claims), w')"
    using token(1) assms(2,3) by (cases "validClaims e' (e_clock e' (w_calls w')) (base64Encode ?claims)")
      (simp_all add: ValidateToken_def abind_def aenv_def anow_def base64_roundtrip)
  moreover have "validClaims e' n (base64Encode ?claims) = (if unixTime n < expires
     then Inr (User0\<lparr>User_ID := User_ID user, User_Email := User_Email user\<rparr>) else Inl (ErrText ''invalid token''))" for n
    using assms(4-7) by (simp add: validClaims_def base64_roundtrip defaultControlTokenTTL_def)
  ultimately show ?thesis by simp
qed

section \<open>Personal access tokens\<close>

definition orgTokenReach :: "PersonalAccessToken \<Rightarrow> string \<Rightarrow> Store \<Rightarrow> string \<Rightarrow> string list \<Rightarrow> bool" where
  "orgTokenReach t requested s orgID scopes \<longleftrightarrow>
     (if PAT_ScopeType t = ''org'' then orgID = PAT_OrgID t \<and> scopes = PAT_Scopes t
      else PAT_ScopeType t = ''user'' \<and> orgID = trimSpace requested \<and> scopes \<noteq> []
        \<and> (case mget2 (memberships s) (PAT_UserID t) orgID of None \<Rightarrow> False
           | Some m \<Rightarrow> set scopes = set (PAT_Scopes t) \<inter> set (Member_Scopes m)))"

lemma tokenRecord_success:
  assumes "tokenRecord token e w = (Inr (t, now), v)"
  shows "PersonalAccessTokenByHash (tokenHash e token) (w_store w) = Inr t" "PAT_RevokedAt t = None"
    "PAT_ExpiresAt t = Some x \<Longrightarrow> now < x" "v = atick w" "now = e_clock e (Suc (w_calls w))"
  using assms by (auto simp: tokenRecord_def hashed_def success_rules atry_run anow_def storeGet_def external_def abind_def atick_def
      split: if_splits option.splits fault.splits prod.splits sum.splits)

lemma tokenReach_success:
  assumes "tokenReach t requested e w = (Inr (orgID, scopes), v)"
  shows "orgTokenReach t requested (w_store w) orgID scopes" "w_store v = w_store w"
proof -
  have "orgTokenReach t requested (w_store w) orgID scopes \<and> w_store v = w_store w"
  proof (cases "PAT_ScopeType t = ''org''")
    case True
    then show ?thesis using assms by (simp add: tokenReach_def orgTokenReach_def success_rules)
  next
    case False
    then have run: "PAT_ScopeType t = ''user''" "v = atick w" "orgID = trimSpace requested" "scopes \<noteq> []"
      "\<exists>m. getOrganizationMembership (PAT_UserID t) (trimSpace requested) (w_store w) = Inr m \<and> scopes = scopeIntersection (PAT_Scopes t) (Member_Scopes m)"
      using assms by (auto simp: tokenReach_def success_rules Let_def split: if_splits)
    then obtain m where m: "mget2 (memberships (w_store w)) (PAT_UserID t) (trimSpace requested) = Some m"
      "scopes = scopeIntersection (PAT_Scopes t) (Member_Scopes m)"
      by (auto simp: getOrganizationMembership_def membershipView_def split: option.splits)
    have "set scopes = set (PAT_Scopes t) \<inter> set (Member_Scopes m)" unfolding m(2) by (auto simp: scopeIntersection_def)
    then show ?thesis using False run(1-4) m(1) by (simp add: orgTokenReach_def atick_def)
  qed
  then show "orgTokenReach t requested (w_store w) orgID scopes" "w_store v = w_store w" by simp_all
qed

lemma recordUse_store:
  "recordUse t now e w = (r, v) \<Longrightarrow> w_store v = w_store w \<or> UpdatePersonalAccessToken (t\<lparr>PAT_LastUsedAt := Some now\<rparr>) (w_store w) = Inr (w_store v)"
  by (auto simp: recordUse_def abind_def atry_def storeDo_def external_def atick_def split: fault.splits sum.splits prod.splits)

text \<open>C17: Whatever calls fail, when a personal access token is accepted its record is filed under the hash of the token, is not revoked, has not expired at the time that the clock shows right after the lookup, and belongs to the user returned (without the password hash). A user token gives in the organization asked for exactly the scopes that both the token and the current membership of the user have, and is refused when there are none; an organization token gives its own scopes in its own organization. The check changes nothing but the time of the last use.\<close>

theorem pat_confined:
  assumes "ValidatePersonalAccessToken token requested e w = (Inr access, w')"
    and "now = e_clock e (Suc (w_calls w))"
  shows "\<exists>t user. PersonalAccessTokenByHash (tokenHash e token) (w_store w) = Inr t \<and> PATAcc_Token access = t
    \<and> PAT_RevokedAt t = None \<and> (\<forall>x. PAT_ExpiresAt t = Some x \<longrightarrow> now < x)
    \<and> UserByID (PAT_UserID t) (w_store w) = Inr user \<and> PATAcc_User access = user\<lparr>User_PasswordHash := []\<rparr>
    \<and> orgTokenReach t requested (w_store w) (PATAcc_OrgID access) (PATAcc_Scopes access)
    \<and> (w_store w' = w_store w \<or> UpdatePersonalAccessToken (t\<lparr>PAT_LastUsedAt := Some now\<rparr>) (w_store w) = Inr (w_store w'))"
proof -
  obtain t now' user orgID scopes v1 v2 v3 u where run0: "tokenRecord token e w = (Inr (t, now'), v1)"
    and run1: "UserByID (PAT_UserID t) (w_store v1) = Inr user" "v2 = atick v1" "tokenReach t requested e v2 = (Inr (orgID, scopes), v3)"
    "recordUse t now' e v3 = (Inr u, w')"
    "access = \<lparr>PATAcc_Token = t, PATAcc_User = safeUser user, PATAcc_OrgID = orgID, PATAcc_Scopes = scopes, PATAcc_ScopeType = PAT_ScopeType t\<rparr>"
    using assms(1) unfolding ValidatePersonalAccessToken_def by (auto simp: success_rules)
  have "now' = now" using tokenRecord_success(5)[OF run0] assms(2) by simp
  note run = run0[unfolded this] run1[unfolded this]
  note t = tokenRecord_success[OF run(1)] and reach = tokenReach_success[OF run(4)]
  have same: "w_store v1 = w_store w" "w_store v2 = w_store w" "w_store v3 = w_store w"
    using t(4) run(3) reach(2) by (simp_all add: atick_def)
  show ?thesis
  proof (intro exI[of _ t] exI[of _ user] conjI allI impI)
    show "now < x" if "PAT_ExpiresAt t = Some x" for x using t(3)[OF that] .
    show "w_store w' = w_store w \<or> UpdatePersonalAccessToken (t\<lparr>PAT_LastUsedAt := Some now\<rparr>) (w_store w) = Inr (w_store w')"
      using recordUse_store[OF run(5)] same(3) by simp
  qed (use t(1,2) run(2,6) reach(1) same in \<open>simp_all add: safeUser_def\<close>)
qed

section \<open>Owners\<close>

definition owners :: "string \<Rightarrow> Store \<Rightarrow> string set" where
  "owners orgID s = {u. \<exists>m. mget2 (memberships s) u orgID = Some m \<and> Member_Role m = ''owner''}"

text \<open>
  The identifiers that the store files users, organizations and memberships under are random hex digits, with
  no space around them, and a membership is filed under the identifiers that it holds.
\<close>

definition plainKeys :: "Store \<Rightarrow> bool" where
  "plainKeys s \<longleftrightarrow> (\<forall>k. mhas (users s) k \<or> mhas (organizations s) k \<longrightarrow> trimSpace k = k)"

definition membersFiled :: "Store \<Rightarrow> bool" where
  "membersFiled s \<longleftrightarrow> plainKeys s
     \<and> (\<forall>u g m. mget2 (memberships s) u g = Some m \<longrightarrow> Member_UserID m = u \<and> Member_OrgID m = g \<and> trimSpace u = u \<and> trimSpace g = g)"

definition plainTokens :: "serviceEnv \<Rightarrow> bool" where
  "plainTokens e \<longleftrightarrow> (\<forall>k t. e_token e k = Inr t \<longrightarrow> trimSpace t = t)"

lemma owners_mcount: "owners orgID s = {u. \<exists>orgs. mget (memberships s) u = Some orgs \<and>
    (case mget orgs orgID of None \<Rightarrow> False | Some m \<Rightarrow> Member_Role m = ''owner'')}"
proof (rule set_eqI)
  fix u
  show "u \<in> owners orgID s \<longleftrightarrow> u \<in> {u. \<exists>orgs. mget (memberships s) u = Some orgs \<and>
      (case mget orgs orgID of None \<Rightarrow> False | Some m \<Rightarrow> Member_Role m = ''owner'')}"
    by (cases "mget (memberships s) u") (auto simp: owners_def mget0_def split: option.splits)
qed

lemma OwnerCount_card: "OwnerCount orgID s = int (card (owners orgID s))"
proof -
  let ?P = "\<lambda>orgs. case mget orgs orgID of None \<Rightarrow> False | Some m \<Rightarrow> Member_Role m = ''owner''"
  have "length (filter ?P (mvals m)) = mcount (\<lambda>_. ?P) m" for m :: "(string, (string, OrganizationMembership) gomap) gomap"
    by (simp add: mcount_def mvals_def filter_map comp_def split_def)
  then have "length (filter ?P (mvals (memberships s))) = card (owners orgID s)"
    unfolding mcount_card owners_mcount .
  then show ?thesis by (simp add: OwnerCount_def)
qed

lemma owners_finite: "finite (owners orgID s)"
  unfolding owners_mcount by (rule finite_mdom)

text \<open>With two owners, one of them may go.\<close>

lemma other_owner:
  assumes "1 < OwnerCount orgID s"
  shows "\<exists>u \<in> owners orgID s. u \<noteq> x"
proof (rule ccontr)
  assume "\<not> ?thesis"
  then have "owners orgID s \<subseteq> {x}" by blast
  then have "card (owners orgID s) \<le> card {x}" by (intro card_mono) simp
  then show False using assms by (simp add: OwnerCount_card)
qed

lemma upsert_owners:
  assumes "UpsertOrganizationMembership m now s = Inr s'" "membersFiled s"
  shows "membersFiled s'"
    "owners g s' = (if g = Member_OrgID m then (if NormalizeRole (Member_Role m) = ''owner'' then insert (Member_UserID m) (owners g s)
       else owners g s - {Member_UserID m}) else owners g s)"
proof -
  obtain m' where s': "s' = s\<lparr>memberships := mput2 (Member_UserID m) (Member_OrgID m) m' (memberships s)\<rparr>"
    "Member_UserID m' = Member_UserID m" "Member_OrgID m' = Member_OrgID m" "Member_Role m' = NormalizeRole (Member_Role m)"
    and known: "mhas (users s) (Member_UserID m)" "mhas (organizations s) (Member_OrgID m)"
    using assms(1) by (auto simp: UpsertOrganizationMembership_def Let_def split: if_splits)
  have "trimSpace (Member_UserID m) = Member_UserID m" "trimSpace (Member_OrgID m) = Member_OrgID m"
    using known assms(2) by (auto simp: membersFiled_def plainKeys_def)
  then show "membersFiled s'" using assms(2) by (auto simp: membersFiled_def plainKeys_def s')
  show "owners g s' = (if g = Member_OrgID m then (if NormalizeRole (Member_Role m) = ''owner'' then insert (Member_UserID m) (owners g s)
       else owners g s - {Member_UserID m}) else owners g s)"
    by (auto simp: owners_def s')
qed

lemma delete_owners:
  assumes "DeleteOrganizationMembership u g s = Inr s'" "membersFiled s"
  shows "membersFiled s'" "owners h s' = (if h = g then owners h s - {u} else owners h s)"
proof -
  have s': "s' = s\<lparr>memberships := mdel2 u g (memberships s)\<rparr>"
    using assms(1) by (auto simp: DeleteOrganizationMembership_def split: if_splits)
  show "membersFiled s'" using assms(2) by (auto simp: membersFiled_def plainKeys_def s')
  show "owners h s' = (if h = g then owners h s - {u} else owners h s)" by (auto simp: owners_def s')
qed

text \<open>The invariant for the organization \<open>g\<close>.\<close>

definition owned :: "string \<Rightarrow> Store \<Rightarrow> bool" where
  "owned g s \<longleftrightarrow> membersFiled s \<and> owners g s \<noteq> {}"

lemma owned_frame: "owned h s \<Longrightarrow> memberships s' = memberships s \<Longrightarrow> plainKeys s' \<Longrightarrow> owned h s'"
  by (simp add: owned_def owners_def membersFiled_def)

lemma sruns_doAt:
  assumes "\<And>s. P s \<Longrightarrow> R s" "\<And>now s s'. P s \<Longrightarrow> f now s = Inr s' \<Longrightarrow> Q () s' \<and> R s'"
  shows "sruns e P (storeDoAt f) Q R"
  unfolding sruns_def runs_def
proof (intro allI impI)
  fix w :: world assume w: "P (w_store w)"
  have "sruns e P (storeDo (f (e_clock e (w_calls w)))) Q R" by (rule sruns_do) (use assms in blast)+
  from srunsD[OF this w] show "case storeDoAt f e w of (Inl _, w') \<Rightarrow> R (w_store w') | (Inr a, w') \<Rightarrow> Q a (w_store w')"
    by (simp add: storeDoAt_def)
qed

lemma notLastOwner_runs:
  assumes "\<And>s. P s \<Longrightarrow> R s"
  shows "sruns e P (ensureNotLastOwner m g) (\<lambda>_ s. P s \<and> (Member_Role m = ''owner'' \<longrightarrow> 1 < OwnerCount g s)) R"
  unfolding ensureNotLastOwner_def
proof (rule sruns_if)
  show "sruns e P (abind (storeGet (\<lambda>s. Inr (OwnerCount g s))) (\<lambda>count. aguard (1 < count) ErrLastOwner))
      (\<lambda>_ s. P s \<and> (Member_Role m = ''owner'' \<longrightarrow> 1 < OwnerCount g s)) R"
  proof (rule sruns_bind[OF sruns_get[OF assms]], assumption)
    fix count
    show "sruns e (\<lambda>s. P s \<and> Inr (OwnerCount g s) = Inr count) (aguard (1 < count) ErrLastOwner)
        (\<lambda>_ s. P s \<and> (Member_Role m = ''owner'' \<longrightarrow> 1 < OwnerCount g s)) R"
      by (rule sruns_conseq[OF sruns_guard[where P = "\<lambda>s. P s \<and> Inr (OwnerCount g s) = (Inr count :: int result)" and R = R]])
        (use assms in auto)
  qed
  show "Member_Role m \<noteq> ''owner'' \<Longrightarrow> sruns e P (areturn ()) (\<lambda>_ s. P s \<and> (Member_Role m = ''owner'' \<longrightarrow> 1 < OwnerCount g s)) R"
    by (rule sruns_return) simp
qed

text \<open>An owner that goes leaves another one behind.\<close>

lemma stays_owned:
  assumes "owned h s" "mget2 (memberships s) u g = Some m" "Member_Role m = ''owner'' \<longrightarrow> 1 < OwnerCount g s"
  shows "(if h = g then owners h s - {u} else owners h s) \<noteq> {}"
proof (cases "h = g")
  case True
  show ?thesis
  proof (cases "Member_Role m = ''owner''")
    case True
    then obtain x where "x \<in> owners g s" "x \<noteq> u" using assms(3) other_owner[of g s u] by blast
    then show ?thesis using \<open>h = g\<close> by auto
  next
    case False
    then have "u \<notin> owners g s" using assms(2) by (simp add: owners_def)
    then show ?thesis using assms(1) \<open>h = g\<close> by (simp add: owned_def)
  qed
qed (use assms(1) in \<open>simp add: owned_def\<close>)

lemma member_read: "getOrganizationMembership u g s = Inr m \<Longrightarrow> \<exists>m'. mget2 (memberships s) u g = Some m' \<and> m = membershipView s u m'"
  by (auto simp: getOrganizationMembership_def split: option.splits)

text \<open>Nobody owns an identifier with space around it: counting there finds no owner, so an owner is refused.\<close>

lemma untrimmed_unowned:
  assumes "membersFiled s" "1 < OwnerCount orgID s"
  shows "trimSpace orgID = orgID"
proof -
  obtain u where "u \<in> owners orgID s" using other_owner[OF assms(2)] by blast
  then show ?thesis using assms(1) by (auto simp: owners_def membersFiled_def)
qed

lemma updateMembership_runs:
  "sruns e (owned h) (UpdateMembership orgID userID role0) (\<lambda>_. owned h) (owned h)"
  unfolding UpdateMembership_def Let_def
proof (rule sruns_bind[OF sruns_keeps], rule keeps_return, assumption, rule sruns_bind[OF sruns_get], assumption)
  fix existing and v :: unit
  let ?role = "NormalizeRole role0"
  let ?P = "\<lambda>s. owned h s \<and> getOrganizationMembership (trimSpace userID) (trimSpace orgID) s = Inr existing"
  let ?Q = "\<lambda>_ s. ?P s \<and> (Member_Role existing = ''owner'' \<longrightarrow> ?role \<noteq> ''owner'' \<longrightarrow> 1 < OwnerCount orgID s)"
  have guard: "sruns e ?P (if ?role \<noteq> ''owner'' then ensureNotLastOwner existing orgID else areturn ()) ?Q (owned h)"
  proof (rule sruns_if)
    show "sruns e ?P (ensureNotLastOwner existing orgID) ?Q (owned h)"
      by (rule sruns_conseq[OF notLastOwner_runs[where P = ?P and R = "owned h"]]) blast+
  qed (rule sruns_return, simp)
  have upsert: "sruns e (?Q u) (storeDoAt (UpsertOrganizationMembership (existing\<lparr>Member_Role := ?role, Member_Scopes := RoleScopes ?role\<rparr>)))
      (\<lambda>_. owned h) (owned h)" for u
  proof (rule sruns_doAt)
    fix now s s' assume s: "?Q u s"
      and run: "UpsertOrganizationMembership (existing\<lparr>Member_Role := ?role, Member_Scopes := RoleScopes ?role\<rparr>) now s = Inr s'"
    let ?u = "trimSpace userID" and ?g = "trimSpace orgID"
    obtain m where m: "mget2 (memberships s) ?u ?g = Some m" "existing = membershipView s ?u m"
      using s member_read by fastforce
    have filed: "membersFiled s" "Member_UserID m = ?u" "Member_OrgID m = ?g" using s m(1) by (auto simp: owned_def membersFiled_def)
    note up = upsert_owners[OF run filed(1)]
    have "owners h s' \<noteq> {}"
    proof (cases "?role = ''owner''")
      case True
      then show ?thesis using up(2)[of h] s filed m(2) by (auto simp: owned_def membershipView_def NormalizeRole_known)
    next
      case False
      have "(if h = ?g then owners h s - {?u} else owners h s) \<noteq> {}"
        by (rule stays_owned[OF _ m(1)]) (use s False m(2) untrimmed_unowned[OF filed(1), of orgID] in \<open>auto simp: membershipView_def\<close>)
      then show ?thesis unfolding up(2)[of h] using filed m(2) False by (auto simp: membershipView_def split: if_splits)
    qed
    then show "owned h s' \<and> owned h s'" using up(1) by (simp add: owned_def)
  qed blast
  show "sruns e ?P (abind (if ?role \<noteq> ''owner'' then ensureNotLastOwner existing orgID else areturn ()) (\<lambda>_.
      abind (storeDoAt (UpsertOrganizationMembership (existing\<lparr>Member_Role := ?role, Member_Scopes := RoleScopes ?role\<rparr>))) (\<lambda>_.
        storeGet (getOrganizationMembership userID orgID)))) (\<lambda>_. owned h) (owned h)"
    by (rule sruns_bind[OF guard], rule sruns_bind[OF upsert], rule sruns_keeps[OF keeps_store(1)[where f = id, unfolded id_apply]])
qed

lemma deleteMembership_runs: "sruns e (owned h) (DeleteMembership orgID userID) (\<lambda>_. owned h) (owned h)"
  unfolding DeleteMembership_def
proof (rule sruns_bind[OF sruns_get], assumption)
  fix existing
  let ?P = "\<lambda>s. owned h s \<and> getOrganizationMembership (trimSpace userID) (trimSpace orgID) s = Inr existing"
  show "sruns e ?P (abind (ensureNotLastOwner existing orgID) (\<lambda>_. storeDo (DeleteOrganizationMembership userID orgID))) (\<lambda>_. owned h) (owned h)"
  proof (rule sruns_bind[OF notLastOwner_runs], erule conjunct1, rule sruns_do)
    fix s s' assume s: "?P s \<and> (Member_Role existing = ''owner'' \<longrightarrow> 1 < OwnerCount orgID s)"
      and run: "DeleteOrganizationMembership userID orgID s = Inr s'"
    have filed: "membersFiled s" using s by (simp add: owned_def)
    have plain: "trimSpace userID = userID" "trimSpace orgID = orgID"
      using run filed by (auto simp: DeleteOrganizationMembership_def membersFiled_def split: if_splits)
    obtain m where m: "mget2 (memberships s) userID orgID = Some m" "existing = membershipView s userID m"
      using s member_read unfolding plain by blast
    have "(if h = orgID then owners h s - {userID} else owners h s) \<noteq> {}"
      by (rule stays_owned[OF _ m(1)]) (use s m(2) in \<open>auto simp: membershipView_def\<close>)
    then show "owned h s' \<and> owned h s'" using delete_owners[OF run filed] by (simp add: owned_def)
  qed blast
qed

lemma createOrganization_runs:
  assumes "plainTokens e"
  shows "sruns e (owned h) (CreateOrganization_svc userID name) (\<lambda>_. owned h) (owned h)"
  unfolding CreateOrganization_svc_def Let_def
proof (rule sruns_bind[OF sruns_keeps], rule keeps_return, assumption, rule sruns_bind[OF sruns_token], assumption,
    rule sruns_bind[OF sruns_now], rule sruns_bind[OF sruns_do[where Q = "\<lambda>_. owned h"]], erule conjunct1, rule conjI)
  fix orgID now and u v :: unit and s s'
  let ?m = "OrganizationMembership0\<lparr>Member_UserID := userID, Member_OrgID := orgID,
         Member_Role := ''owner'', Member_Scopes := RoleScopes ''owner'', Member_CreatedAt := now\<rparr>"
  show "owned h s'" "owned h s'" if s: "owned h s \<and> (\<exists>k. e_token e k = Inr orgID)" and
    run: "CreateOrganization (Organization0\<lparr>Org_ID := orgID, Org_Name := trimSpace name, Org_UsageLevel := ''default'', Org_CreatedAt := now\<rparr>) s = Inr s'"
  proof -
    have "trimSpace orgID = orgID" using s assms by (auto simp: plainTokens_def)
    moreover have "plainKeys s" using s by (simp add: owned_def membersFiled_def)
    ultimately have "memberships s' = memberships s" "plainKeys s'"
      using run by (auto simp: CreateOrganization_def plainKeys_def split: if_splits)
    then show "owned h s'" "owned h s'" using s owned_frame by blast+
  qed
  show "sruns e (owned h) (abind (storeDoAt (UpsertOrganizationMembership ?m)) (\<lambda>_.
      areturn (Organization0\<lparr>Org_ID := orgID, Org_Name := trimSpace name, Org_UsageLevel := ''default'', Org_CreatedAt := now,
        Org_Role := ''owner'', Org_Scopes := RoleScopes ''owner''\<rparr>))) (\<lambda>_. owned h) (owned h)"
  proof (rule sruns_bind[OF sruns_doAt[where Q = "\<lambda>_. owned h"]], assumption)
    fix t s s' assume s: "owned h s" and run: "UpsertOrganizationMembership ?m t s = Inr s'"
    have "membersFiled s" using s by (simp add: owned_def)
    note up = upsert_owners[OF run this]
    show "owned h s' \<and> owned h s'" using up(1) up(2)[of h] s by (auto simp: owned_def NormalizeRole_known)
  qed (rule sruns_return)
qed

text \<open>An owner who accepts an invitation to a lesser role gives up ownership.\<close>

definition givesUpOwnership :: "string \<Rightarrow> User \<Rightarrow> serviceEnv \<Rightarrow> Store \<Rightarrow> bool" where
  "givesUpOwnership token user e s \<longleftrightarrow> (case OrganizationInviteByTokenHash (tokenHash e token) s of Inl _ \<Rightarrow> False
     | Inr invite \<Rightarrow> NormalizeRole (Invite_Role invite) \<noteq> ''owner'' \<and> User_ID user \<in> owners (Invite_OrgID invite) s)"

lemma acceptInvite_runs:
  assumes "\<not> givesUpOwnership token user e s0"
  shows "sruns e (\<lambda>s. owned h s \<and> s = s0) (AcceptInvite token user) (\<lambda>_. owned h) (owned h)"
proof -
  let ?I = "\<lambda>s. owned h s \<and> s = s0"
  have ok: "?I s \<Longrightarrow> owned h s" for s by blast
  have find: "sruns e ?I (Invite token) (\<lambda>invite s. ?I s \<and> OrganizationInviteByTokenHash (tokenHash e token) s = Inr invite) (owned h)"
    unfolding Invite_def hashed_def
  proof (rule sruns_bind[OF sruns_env])
    fix k
    show "sruns e (\<lambda>s. ?I s \<and> k = tokenHash e token) (storeGet (OrganizationInviteByTokenHash k))
        (\<lambda>invite s. ?I s \<and> OrganizationInviteByTokenHash (tokenHash e token) s = Inr invite) (owned h)"
      by (rule sruns_conseq[OF sruns_get[where P = "\<lambda>s. ?I s \<and> k = tokenHash e token" and R = "owned h"]]) auto
  qed
  show ?thesis
    unfolding AcceptInvite_def Let_def
  proof (rule sruns_bind[OF find], rule sruns_bind[OF sruns_now],
      rule sruns_bind[OF sruns_keeps], rule keeps_return, (rule ok, erule conjunct1), rule sruns_bind[OF sruns_keeps], rule keeps_return, (rule ok, erule conjunct1),
      rule sruns_bind[OF sruns_keeps], rule keeps_return, (rule ok, erule conjunct1), rule sruns_bind[OF sruns_keeps], rule keeps_return, (rule ok, erule conjunct1))
    fix invite :: OrganizationInvite and now :: int
    let ?m = "OrganizationMembership0\<lparr>Member_UserID := User_ID user, Member_OrgID := Invite_OrgID invite,
         Member_Role := Invite_Role invite, Member_Scopes := Invite_Scopes invite, Member_CreatedAt := now\<rparr>"
    let ?P = "\<lambda>s. ?I s \<and> OrganizationInviteByTokenHash (tokenHash e token) s = Inr invite"
    show "sruns e ?P (abind (storeDoAt (UpsertOrganizationMembership ?m)) (\<lambda>_.
        abind (storeDo (UpdateOrganizationInvite (invite\<lparr>Invite_AcceptedAt := Some now\<rparr>))) (\<lambda>_. areturn ?m))) (\<lambda>_. owned h) (owned h)"
    proof (rule sruns_bind[OF sruns_doAt[where Q = "\<lambda>_. owned h"]], (rule ok, erule conjunct1))
      fix t s s' assume s: "?P s" and run: "UpsertOrganizationMembership ?m t s = Inr s'"
      have filed: "membersFiled s" "owners h s \<noteq> {}" using s unfolding owned_def by blast+
      have "NormalizeRole (Invite_Role invite) = ''owner'' \<or> User_ID user \<notin> owners (Invite_OrgID invite) s"
        using assms s by (auto simp: givesUpOwnership_def)
      then have "owners h s' \<noteq> {}" using upsert_owners(2)[OF run filed(1), of h] filed(2) by (auto split: if_splits)
      then show "owned h s' \<and> owned h s'" using upsert_owners(1)[OF run filed(1)] by (simp add: owned_def)
    next
      show "sruns e (owned h) (abind (storeDo (UpdateOrganizationInvite (invite\<lparr>Invite_AcceptedAt := Some now\<rparr>))) (\<lambda>_. areturn ?m))
          (\<lambda>_. owned h) (owned h)"
      proof (rule sruns_bind[OF sruns_do[where Q = "\<lambda>_. owned h"]], assumption)
        fix s s' assume "owned h s" "UpdateOrganizationInvite (invite\<lparr>Invite_AcceptedAt := Some now\<rparr>) s = Inr s'"
        then show "owned h s' \<and> owned h s'"
          using owned_frame[of h s s'] by (auto simp: UpdateOrganizationInvite_def owned_def membersFiled_def plainKeys_def split: if_splits)
      qed (rule sruns_return)
    qed
  qed
qed

section \<open>Runs of the operations on members\<close>

inductive member_step :: "world \<Rightarrow> world \<Rightarrow> bool" where
  ms_update: "member_step w (snd (UpdateMembership orgID userID role e w))"
| ms_delete: "member_step w (snd (DeleteMembership orgID userID e w))"
| ms_create: "plainTokens e \<Longrightarrow> member_step w (snd (CreateOrganization_svc userID name e w))"
| ms_accept: "\<not> givesUpOwnership token user e (w_store w) \<Longrightarrow> member_step w (snd (AcceptInvite token user e w))"
| ms_rest: "memberships (w_store w') = memberships (w_store w) \<Longrightarrow> plainKeys (w_store w') \<Longrightarrow> member_step w w'"

lemma sruns_last: "sruns e P m (\<lambda>_. Q) Q \<Longrightarrow> P (w_store w) \<Longrightarrow> Q (w_store (snd (m e w)))"
  using srunsD[of e P m "\<lambda>_. Q" Q w] by (auto split: prod.splits sum.splits)

lemma member_step_owned: "member_step w w' \<Longrightarrow> owned h (w_store w) \<Longrightarrow> owned h (w_store w')"
proof (induction rule: member_step.induct)
  case (ms_accept token user e w)
  then show ?case using sruns_last[OF acceptInvite_runs[OF ms_accept.hyps, of h], of w] by simp
next
  case (ms_rest w' w)
  then show ?case using owned_frame by blast
next
  case (ms_create e w userID name)
  then show ?case using sruns_last[OF createOrganization_runs[OF ms_create.hyps, of h], of w] by simp
qed (use sruns_last updateMembership_runs deleteMembership_runs in blast)+

text \<open>C21: An organization that has an owner keeps at least one, whatever roles are changed, members removed, organizations created and invitations accepted, in any order, with any calls failing and whatever identifiers the requests name, with or without space around them - provided no owner accepts an invitation to a lesser role (which the code does not prevent). The identifiers under which users, organizations and memberships are stored have no space around them (they are random hex digits), memberships are filed under the identifiers they hold, and both stay so; every other operation may change the store in any way that leaves the memberships alone and files users and organizations under such identifiers.\<close>

theorem owners_kept:
  assumes "member_step\<^sup>*\<^sup>* w w'" "membersFiled (w_store w)" "1 \<le> OwnerCount orgID (w_store w)"
  shows "1 \<le> OwnerCount orgID (w_store w') \<and> membersFiled (w_store w')"
proof -
  have "owned orgID (w_store w)" using assms(2,3) by (auto simp: owned_def OwnerCount_card)
  with assms(1) have "owned orgID (w_store w')" by (induction rule: rtranclp_induct) (auto intro: member_step_owned)
  then show ?thesis by (simp add: owned_def OwnerCount_card Suc_le_eq card_gt_0_iff owners_finite)
qed

section \<open>Demonstration\<close>

definition memberOf :: "string \<Rightarrow> string \<Rightarrow> OrganizationMembership" where
  "memberOf u role = OrganizationMembership0\<lparr>Member_UserID := u, Member_OrgID := ''o'', Member_Role := role, Member_Scopes := RoleScopes role\<rparr>"

definition memberStore :: Store where
  "memberStore = NewStore\<lparr>users := mput ''b'' (User0\<lparr>User_ID := ''b'', User_Email := ''b@x''\<rparr>) (mput ''a'' (User0\<lparr>User_ID := ''a''\<rparr>) mempty),
     organizations := mput ''o'' (Organization0\<lparr>Org_ID := ''o''\<rparr>) mempty,
     memberships := mput2 ''b'' ''o'' (memberOf ''b'' ''owner'') (mput2 ''a'' ''o'' (memberOf ''a'' ''owner'') mempty),
     invites := mput ''i'' (OrganizationInvite0\<lparr>Invite_TokenHash := ''i'', Invite_OrgID := ''o'', Invite_Email := ''b@x'',
       Invite_Role := ''viewer'', Invite_ExpiresAt := 1000\<rparr>) mempty,
     pats := mput ''p'' (PersonalAccessToken0\<lparr>PAT_ID := ''p'', PAT_TokenHash := ''t'', PAT_UserID := ''a'', PAT_ScopeType := ''user'',
       PAT_Scopes := [''kv:read'', ''x'']\<rparr>) mempty, patsByHash := mput ''t'' ''p'' mempty\<rparr>"

lemma memberStore_filed: "membersFiled memberStore"
proof -
  have "trimSpace ''a'' = ''a''" "trimSpace ''b'' = ''b''" "trimSpace ''o'' = ''o''" by code_simp+
  then show ?thesis
    by (auto simp: membersFiled_def plainKeys_def memberStore_def memberOf_def OrganizationMembership0_def NewStore_def split: if_splits)
qed

theorem owners_kept_witness:
  "fst (DeleteMembership ''o'' ''a'' demoServiceEnv (worldOf memberStore)) = Inr ()
   \<and> 1 \<le> OwnerCount ''o'' (w_store (snd (DeleteMembership ''o'' ''a'' demoServiceEnv (worldOf memberStore))))"
proof -
  have run: "fst (DeleteMembership ''o'' ''a'' demoServiceEnv (worldOf memberStore)) = Inr ()"
    "1 \<le> OwnerCount ''o'' (w_store (worldOf memberStore))" by code_simp+
  have filed: "membersFiled (w_store (worldOf memberStore))" using memberStore_filed by (simp add: worldOf_def)
  have "member_step\<^sup>*\<^sup>* (worldOf memberStore) (snd (DeleteMembership ''o'' ''a'' demoServiceEnv (worldOf memberStore)))"
    using ms_delete by blast
  from owners_kept[OF this filed run(2)] run(1) show ?thesis by simp
qed

text \<open>The last owner of an organization accepts an invitation to look at it, and nobody owns it any more.\<close>

definition lastOwnerStore :: Store where
  "lastOwnerStore = w_store (snd (DeleteMembership ''o'' ''a'' demoServiceEnv (worldOf memberStore)))"

lemma accept_invite_orphans:
  "OwnerCount ''o'' lastOwnerStore = 1
   \<and> OwnerCount ''o'' (w_store (snd (AcceptInvite ''i'' (User0\<lparr>User_ID := ''b'', User_Email := ''b@x''\<rparr>) demoServiceEnv (worldOf lastOwnerStore)))) = 0"
  by code_simp

theorem pat_confined_witness:
  "\<exists>access w'. ValidatePersonalAccessToken ''t'' ''o'' demoServiceEnv (worldOf memberStore) = (Inr access, w')
     \<and> PATAcc_Scopes access = [''kv:read''] \<and> orgTokenReach (PATAcc_Token access) ''o'' memberStore ''o'' [''kv:read'']"
proof -
  have "case ValidatePersonalAccessToken ''t'' ''o'' demoServiceEnv (worldOf memberStore) of
      (Inr access, _) \<Rightarrow> PATAcc_Scopes access = [''kv:read''] \<and> PATAcc_OrgID access = ''o'' | _ \<Rightarrow> False" by code_simp
  then obtain access w' where run: "ValidatePersonalAccessToken ''t'' ''o'' demoServiceEnv (worldOf memberStore) = (Inr access, w')"
    "PATAcc_Scopes access = [''kv:read'']" "PATAcc_OrgID access = ''o''" by (auto split: prod.splits sum.splits)
  from pat_confined[OF run(1) refl] run show ?thesis by (auto simp: worldOf_def)
qed

definition sessionEnv :: serviceEnv where
  "sessionEnv = demoServiceEnv\<lparr>e_claimsOf := (\<lambda>s. Some (''u'', ''u@x'', 86400))\<rparr>"

theorem session_token_roundtrip_witness:
  "\<exists>token w1. issueToken (User0\<lparr>User_ID := ''u'', User_Email := ''u@x''\<rparr>) sessionEnv (worldOf NewStore) = (Inr token, w1)
     \<and> fst (ValidateToken token sessionEnv (worldOf NewStore)) = Inr (User0\<lparr>User_ID := ''u'', User_Email := ''u@x''\<rparr>)"
proof -
  have secret: "e_authSecret sessionEnv \<noteq> []" by (simp add: sessionEnv_def demoServiceEnv_def)
  then obtain token w1 where token: "issueToken (User0\<lparr>User_ID := ''u'', User_Email := ''u@x''\<rparr>) sessionEnv (worldOf NewStore) = (Inr token, w1)"
    by (simp add: issueToken_def abind_def aenv_def anow_def Let_def)
  have expires: "86400 = unixTime (e_clock sessionEnv (w_calls (worldOf NewStore)) + 24 * 3600 * second)"
    by (simp add: sessionEnv_def demoServiceEnv_def worldOf_def unixTime_def second_def)
  have "unixTime (e_clock sessionEnv (w_calls (worldOf NewStore))) < 86400"
    by (simp add: sessionEnv_def demoServiceEnv_def worldOf_def unixTime_def second_def)
  then show ?thesis
    using session_token_roundtrip[OF token refl refl expires, of "worldOf NewStore"] token by (simp add: sessionEnv_def User0_def)
qed

end
