(* ===== verification/Object_Service.thy ===== *)
theory Object_Service
  imports KV_Service Asset_Routing Resource_Service Authority_Frame
begin

text \<open>
  Objects of buckets in \<open>service.go\<close> and \<open>object_context.go\<close>: access with a runtime credential, through a
  worker and through an organization, the limit on stored bytes, the metrics of buckets. The object
  store keeps bodies in \<open>w_objects\<close> and what it knows of them in \<open>w_objectInfo\<close>; a cancelled context is one
  of the faults of a call. The names of \<open>internal/objects/minio.go\<close> are \<open>objectKey\<close>.
\<close>

section \<open>The object store\<close>

definition objectStorageBucketScope :: string where
  "objectStorageBucketScope = ''object-storage-buckets''"

definition objectKey :: "string \<Rightarrow> string \<Rightarrow> string result" where
  "objectKey appID objectPath =
     (if objectPath = [] \<or> sublist ''..'' objectPath then Inl (ErrText ''object path must not be empty or contain dot dot'')
      else let clean = trimPrefix (pathClean (''/'' @ objectPath)) ''/'' in
        if clean = ''.'' \<or> clean = [] then Inl (ErrText ''object path is required'')
        else Inr (pathJoin [''apps'', appID, clean]))"

definition objectHead :: "string \<Rightarrow> ObjectInfo act" where
  "objectHead path = external (\<lambda>w. (case mget (w_objectInfo w) (objectStorageBucketScope, path) of
     None \<Rightarrow> Inl ErrObjectNotFound | Some info \<Rightarrow> Inr info, w))"

definition objectGet :: "string \<Rightarrow> (ObjectInfo \<times> string) act" where
  "objectGet path = external (\<lambda>w. (case (mget (w_objectInfo w) (objectStorageBucketScope, path), mget (w_objects w) (objectStorageBucketScope, path)) of
     (Some info, Some body) \<Rightarrow> Inr (info, body) | _ \<Rightarrow> Inl ErrObjectNotFound, w))"

text \<open>
  The store answers a put with what a look at the new object shows: its own entry for it, and as the size
  the length of the body it now holds.
\<close>

definition objectPut :: "string \<Rightarrow> string \<Rightarrow> string \<Rightarrow> ObjectInfo act" where
  "objectPut path contentType data = (\<lambda>e. external (\<lambda>w.
     let info = (e_objectInfo e (w_calls w) path contentType data)\<lparr>Obj_Size := int (length data)\<rparr> in
     (Inr info, w\<lparr>w_objects := mput (objectStorageBucketScope, path) data (w_objects w),
       w_objectInfo := mput (objectStorageBucketScope, path) info (w_objectInfo w)\<rparr>)) e)"

definition objectDelete :: "string \<Rightarrow> unit act" where
  "objectDelete path = external (\<lambda>w. (Inr (), w\<lparr>w_objects := mdel (objectStorageBucketScope, path) (w_objects w),
     w_objectInfo := mdel (objectStorageBucketScope, path) (w_objectInfo w)\<rparr>))"

text \<open>The objects below a path, with their full paths.\<close>

definition objectsBelow :: "string \<Rightarrow> ObjectInfo list act" where
  "objectsBelow path = external (\<lambda>w. (Inr (List.map_filter (\<lambda>((scope, p), info).
     if scope = objectStorageBucketScope \<and> prefix (path @ ''/'') p then Some (info\<lparr>Obj_Key := p\<rparr>) else None) (mentries (w_objectInfo w))), w))"

definition presigned :: "bool \<Rightarrow> string \<Rightarrow> string act" where
  "presigned upload path = (\<lambda>e. external (\<lambda>w. (e_presign e upload objectStorageBucketScope path, w)) e)"

text \<open>A write of the store whose error is ignored.\<close>

definition quietly :: "unit act \<Rightarrow> unit act" where
  "quietly m = abind (atry m) (\<lambda>_. areturn ())"

section \<open>Who may use a bucket\<close>

definition objectsConfigured :: "unit act" where
  "objectsConfigured = abind (aenv e_hasObjects) (\<lambda>ok. aguard ok ErrNoObjects)"

definition appIDForCapability :: "string \<Rightarrow> string act" where
  "appIDForCapability capability = abind objectsConfigured (\<lambda>_. storeGet (AppIDForCapability capability))"

definition bindsBucket :: "string \<Rightarrow> Deployment \<Rightarrow> bool" where
  "bindsBucket bucketID d \<longleftrightarrow> bucketID \<in> ObjBind_BucketID ` set (Dep_ObjectStorageBuckets d)"

definition ensureActiveDeploymentBindsObjectStorageBucket :: "string \<Rightarrow> string \<Rightarrow> unit act" where
  "ensureActiveDeploymentBindsObjectStorageBucket appID bucketID = ensureBinds (bindsBucket bucketID) ErrObjectStorageBucketNotBound appID"

definition ensureCapabilityBindsObjectStorageBucket :: "string \<Rightarrow> string \<Rightarrow> unit act" where
  "ensureCapabilityBindsObjectStorageBucket appID bucketID = ensureBinds (bindsBucket bucketID) ErrObjectStorageBucketNotBound appID"

definition objectCapabilityAppID :: "string \<Rightarrow> string \<Rightarrow> string option act" where
  "objectCapabilityAppID capability bucketID =
     (if isRevisionCapability capability
      then authorized (AuthorizeRuntime capability RuntimeObjects bucketID) (\<lambda>p.
        asome (abind objectsConfigured (\<lambda>_. areturn (App_ID (Prin_App p)))))
      else asome (abind objectsConfigured (\<lambda>_. abind (appIDForCapability capability) (\<lambda>appID.
        abind (ensureCapabilityBindsObjectStorageBucket appID bucketID) (\<lambda>_. areturn appID)))))"

definition ensureAppAndObjectBucketInOrg :: "string \<Rightarrow> string \<Rightarrow> string \<Rightarrow> unit act" where
  "ensureAppAndObjectBucketInOrg orgID appID bucketID =
     (if trimSpace orgID = [] then areturn ()
      else abind (storeGet (appForOrg orgID appID)) (\<lambda>app.
        abind (storeGet (GetObjectStorageBucketForOrg orgID bucketID)) (\<lambda>bucket.
          aguard (App_OrgID app = Bucket_OrgID bucket) ErrObjectStorageBucketNotFound)))"

section \<open>Limits\<close>

text \<open>The limit of the organization that pays for a bucket, when there is one.\<close>

definition bucketLimit :: "string \<Rightarrow> (Organization \<times> int) option act" where
  "bucketLimit orgID0 =
     (let orgID = trimSpace orgID0 in
      if orgID = [] then areturn None
      else abind (storeGet (GetOrganization orgID)) (\<lambda>org.
        areturn (map_option (Pair org) (Limit_ObjectStorageBytes (OrgLimitsForLevel (Org_UsageLevel org))))))"

definition enforcePresignedObjectUploadAllowed :: "string \<Rightarrow> unit act" where
  "enforcePresignedObjectUploadAllowed orgID = abind (bucketLimit orgID) (\<lambda>r. case r of None \<Rightarrow> areturn ()
     | Some (org, limit) \<Rightarrow> afail (ErrUsageLimit (NormalizeUsageLevel (Org_UsageLevel org)) ''presigned object uploads'' 0))"

definition enforceObjectStorageBytesLimit :: "string \<Rightarrow> int \<Rightarrow> unit act" where
  "enforceObjectStorageBytesLimit bucketID delta =
     (if delta \<le> 0 then areturn ()
      else abind (storeGet (GetObjectStorageBucket_svc bucketID)) (\<lambda>bucket.
        abind (bucketLimit (Bucket_OrgID bucket)) (\<lambda>r. case r of None \<Rightarrow> areturn ()
        | Some (org, limit) \<Rightarrow> abind (storeGet (\<lambda>s. Inr (ObjectStorageBytesByOrg (trimSpace (Bucket_OrgID bucket)) s))) (\<lambda>current.
            aguard (current + delta \<le> limit) (usageByteLimitError (Org_UsageLevel org) ''object storage'' limit)))))"

section \<open>Access with a credential\<close>

definition PresignUpload :: "string \<Rightarrow> string \<Rightarrow> string \<Rightarrow> string option act" where
  "PresignUpload capability bucketID key =
     authorized (objectCapabilityAppID capability bucketID) (\<lambda>_. asome (
       abind (storeGet (GetObjectStorageBucket_svc bucketID)) (\<lambda>bucket.
       abind (enforcePresignedObjectUploadAllowed (Bucket_OrgID bucket)) (\<lambda>_. presigned True (objectStorageBucketPath bucketID key)))))"

definition PresignDownload :: "string \<Rightarrow> string \<Rightarrow> string \<Rightarrow> string option act" where
  "PresignDownload capability bucketID key =
     authorized (objectCapabilityAppID capability bucketID) (\<lambda>_. asome (presigned False (objectStorageBucketPath bucketID key)))"

text \<open>The size of the object at a path, and whether there is one.\<close>

definition existingObject :: "string \<Rightarrow> (int \<times> bool) act" where
  "existingObject path = abind (atry (objectHead path)) (\<lambda>r. case r of
     Inr info \<Rightarrow> areturn (Obj_Size info, True)
   | Inl err \<Rightarrow> if errorsIs err ErrObjectNotFound then areturn (0, False) else afail err)"

definition DeleteObject :: "string \<Rightarrow> string \<Rightarrow> string \<Rightarrow> unit option act" where
  "DeleteObject capability bucketID key =
     authorized (objectCapabilityAppID capability bucketID) (\<lambda>_. asome (
       let path = objectStorageBucketPath bucketID key in
       abind (existingObject path) (\<lambda>(oldSize, existed).
       abind (objectDelete path) (\<lambda>_.
       abind (if 0 < oldSize then quietly (storeDo (AdjustObjectStorageBucketSize bucketID (- oldSize))) else areturn ()) (\<lambda>_.
         if existed then quietly (storeDo (AdjustObjectStorageBucketObjectCount bucketID (- 1))) else areturn ())))))"

definition ObjectPut :: "string \<Rightarrow> string \<Rightarrow> string \<Rightarrow> string \<Rightarrow> string \<Rightarrow> ObjectInfo option act" where
  "ObjectPut capability bucketID key contentType data =
     authorized (objectCapabilityAppID capability bucketID) (\<lambda>_. asome (
       let path = objectStorageBucketPath bucketID key in
       abind (existingObject path) (\<lambda>(oldSize, existed).
       abind (enforceObjectStorageBytesLimit bucketID (int (length data) - oldSize)) (\<lambda>_.
       abind (objectPut path contentType data) (\<lambda>info.
       abind (quietly (storeDo (AdjustObjectStorageBucketSize bucketID (Obj_Size info - oldSize)))) (\<lambda>_.
       abind (if \<not> existed then quietly (storeDo (AdjustObjectStorageBucketObjectCount bucketID 1)) else areturn ()) (\<lambda>_.
         areturn (info\<lparr>Obj_Key := trimPrefix key ''/''\<rparr>))))))))"

definition orMissing :: "'a act \<Rightarrow> 'a option act" where
  "orMissing m = abind (atry m) (\<lambda>r. case r of Inr a \<Rightarrow> areturn (Some a)
     | Inl err \<Rightarrow> if errorsIs err ErrObjectNotFound then areturn None else afail err)"

definition ObjectGet :: "string \<Rightarrow> string \<Rightarrow> string \<Rightarrow> (ObjectInfo \<times> string) option option act" where
  "ObjectGet capability bucketID key =
     authorized (objectCapabilityAppID capability bucketID) (\<lambda>_. asome (
       orMissing (abind (objectGet (objectStorageBucketPath bucketID key)) (\<lambda>(info, body). areturn (info\<lparr>Obj_Key := trimPrefix key ''/''\<rparr>, body)))))"

definition ObjectHead :: "string \<Rightarrow> string \<Rightarrow> string \<Rightarrow> ObjectInfo option option act" where
  "ObjectHead capability bucketID key =
     authorized (objectCapabilityAppID capability bucketID) (\<lambda>_. asome (
       orMissing (abind (objectHead (objectStorageBucketPath bucketID key)) (\<lambda>info. areturn (info\<lparr>Obj_Key := trimPrefix key ''/''\<rparr>)))))"

definition ObjectList :: "string \<Rightarrow> string \<Rightarrow> ObjectInfo list option act" where
  "ObjectList capability bucketID =
     authorized (objectCapabilityAppID capability bucketID) (\<lambda>_. asome (
       let path = objectStorageBucketPath bucketID [] in
       abind (objectsBelow path) (\<lambda>objects. areturn (map (\<lambda>o'. o'\<lparr>Obj_Key := trimPrefix (Obj_Key o') (path @ ''/'')\<rparr>) objects))))"

section \<open>Access through a worker and an organization\<close>

definition boundBucket :: "string \<Rightarrow> string \<Rightarrow> (string \<Rightarrow> 'a option act) \<Rightarrow> 'a option act" where
  "boundBucket appID bucketID f =
     abind (workerOf appID) (\<lambda>(app, _).
     abind (ensureActiveDeploymentBindsObjectStorageBucket appID bucketID) (\<lambda>_. f (App_RuntimeToken app)))"

definition WorkerObjectList :: "string \<Rightarrow> string \<Rightarrow> ObjectInfo list option act" where
  "WorkerObjectList appID bucketID = boundBucket appID bucketID (\<lambda>c. ObjectList c bucketID)"

definition WorkerObjectGet :: "string \<Rightarrow> string \<Rightarrow> string \<Rightarrow> (ObjectInfo \<times> string) option option act" where
  "WorkerObjectGet appID bucketID key = boundBucket appID bucketID (\<lambda>c. ObjectGet c bucketID key)"

definition WorkerObjectPut :: "string \<Rightarrow> string \<Rightarrow> string \<Rightarrow> string \<Rightarrow> string \<Rightarrow> ObjectInfo option act" where
  "WorkerObjectPut appID bucketID key contentType data = boundBucket appID bucketID (\<lambda>c. ObjectPut c bucketID key contentType data)"

definition WorkerObjectDelete :: "string \<Rightarrow> string \<Rightarrow> string \<Rightarrow> unit option act" where
  "WorkerObjectDelete appID bucketID key = boundBucket appID bucketID (\<lambda>c. DeleteObject c bucketID key)"

definition WorkerObjectListForOrg :: "string \<Rightarrow> string \<Rightarrow> string \<Rightarrow> ObjectInfo list option act" where
  "WorkerObjectListForOrg orgID appID bucketID =
     abind (ensureAppAndObjectBucketInOrg orgID appID bucketID) (\<lambda>_. WorkerObjectList appID bucketID)"

definition WorkerObjectGetForOrg :: "string \<Rightarrow> string \<Rightarrow> string \<Rightarrow> string \<Rightarrow> (ObjectInfo \<times> string) option option act" where
  "WorkerObjectGetForOrg orgID appID bucketID key =
     abind (ensureAppAndObjectBucketInOrg orgID appID bucketID) (\<lambda>_. WorkerObjectGet appID bucketID key)"

definition WorkerObjectPutForOrg :: "string \<Rightarrow> string \<Rightarrow> string \<Rightarrow> string \<Rightarrow> string \<Rightarrow> string \<Rightarrow> ObjectInfo option act" where
  "WorkerObjectPutForOrg orgID appID bucketID key contentType data =
     abind (ensureAppAndObjectBucketInOrg orgID appID bucketID) (\<lambda>_. WorkerObjectPut appID bucketID key contentType data)"

definition WorkerObjectDeleteForOrg :: "string \<Rightarrow> string \<Rightarrow> string \<Rightarrow> string \<Rightarrow> unit option act" where
  "WorkerObjectDeleteForOrg orgID appID bucketID key =
     abind (ensureAppAndObjectBucketInOrg orgID appID bucketID) (\<lambda>_. WorkerObjectDelete appID bucketID key)"

section \<open>Metrics\<close>

text \<open>The objects of a bucket are counted through the first running revision that binds it.\<close>

definition reconcileObjectStorageBucketUsage :: "string \<Rightarrow> (int \<times> int) option act" where
  "reconcileObjectStorageBucketUsage bucketID =
     abind activeDeployments (\<lambda>running. case find (\<lambda>item. bindsBucket bucketID (Active_Deployment item)) running of
       None \<Rightarrow> areturn None
     | Some item \<Rightarrow> authorized (ObjectList (App_RuntimeToken (Active_App item)) bucketID) (\<lambda>objects.
         areturn (Some (sum_list (map Obj_Size objects), int (length objects)))))"

definition ObjectStorageBucketMetrics_svc :: "string \<Rightarrow> ObjectStorageBucketMetrics act" where
  "ObjectStorageBucketMetrics_svc bucketID =
     abind (storeGet (getObjectStorageBucketMetrics bucketID)) (\<lambda>metrics.
     abind (aenv e_hasObjects) (\<lambda>ok. if \<not> ok then areturn metrics
       else abind (reconcileObjectStorageBucketUsage bucketID) (\<lambda>r. case r of None \<Rightarrow> areturn metrics
         | Some (bytes, objectCount) \<Rightarrow>
             abind (quietly (storeDo (AdjustObjectStorageBucketSize bucketID (bytes - ObjMet_Size metrics)))) (\<lambda>_.
             abind (quietly (storeDo (SetObjectStorageBucketObjectCount bucketID objectCount))) (\<lambda>_.
               areturn (metrics\<lparr>ObjMet_Size := bytes, ObjMet_ObjectCount := objectCount\<rparr>))))))"

definition ObjectStorageBucketMetricsForOrg :: "string \<Rightarrow> string \<Rightarrow> ObjectStorageBucketMetrics act" where
  "ObjectStorageBucketMetricsForOrg orgID bucketID =
     abind (storeGet (GetObjectStorageBucketForOrg orgID bucketID)) (\<lambda>_. ObjectStorageBucketMetrics_svc bucketID)"

definition RecordRuntimeObjectRead :: "string \<Rightarrow> unit act" where
  "RecordRuntimeObjectRead bucketID = storeDo (IncrementObjectStorageBucketReads bucketID)"

definition RecordRuntimeObjectWrite :: "string \<Rightarrow> unit act" where
  "RecordRuntimeObjectWrite bucketID = storeDo (IncrementObjectStorageBucketWrites bucketID)"

section \<open>What an operation on a bucket leaves alone\<close>

text \<open>An object of the store: its body and what is known of it.\<close>

definition objectAt :: "string \<times> string \<Rightarrow> world \<Rightarrow> string option \<times> ObjectInfo option" where
  "objectAt k w = (mget (w_objects w) k, mget (w_objectInfo w) k)"

interpretation objects: authorization_frame "objectAt k"
  by unfold_locales (simp_all add: objectAt_def atick_def)

lemma objectAt_calls [keeps_rules]: "keeps (objectAt k) (storeDo f)" "keeps (objectAt k) (objectHead p)" "keeps (objectAt k) (objectGet p)"
  "keeps (objectAt k) (objectsBelow p)" "keeps (objectAt k) (presigned up p)"
  by (auto simp: keeps_def objectAt_def storeDo_def objectHead_def objectGet_def objectsBelow_def presigned_def external_def atick_def
      split: fault.split sum.split)

lemma objectAt_writes:
  "k \<noteq> (objectStorageBucketScope, p) \<Longrightarrow> keeps (objectAt k) (objectPut p contentType data)"
  "k \<noteq> (objectStorageBucketScope, p) \<Longrightarrow> keeps (objectAt k) (objectDelete p)"
  by (auto simp: keeps_def objectAt_def objectPut_def objectDelete_def external_def atick_def Let_def split: fault.split)

lemma objectAt_quietly [keeps_rules]: "keeps f m \<Longrightarrow> keeps f (quietly m)"
  unfolding quietly_def by (intro keeps_rules)

lemma objectAt_access [keeps_rules]: "keeps (objectAt k) (objectCapabilityAppID c b)" "keeps (objectAt k) (enforceObjectStorageBytesLimit b d)"
  "keeps (objectAt k) (existingObject p)"
  unfolding objectCapabilityAppID_def appIDForCapability_def objectsConfigured_def ensureCapabilityBindsObjectStorageBucket_def ensureBinds_def
    workerOf_def enforceObjectStorageBytesLimit_def bucketLimit_def existingObject_def Let_def
  by (intro keeps_rules)+

lemma put_keeps:
  assumes "k \<noteq> (objectStorageBucketScope, objectStorageBucketPath b key)"
  shows "keeps (objectAt k) (ObjectPut c b key contentType data)"
  unfolding ObjectPut_def Let_def by (intro keeps_rules objectAt_writes(1)[OF assms])

lemma delete_keeps:
  assumes "k \<noteq> (objectStorageBucketScope, objectStorageBucketPath b key)"
  shows "keeps (objectAt k) (DeleteObject c b key)"
  unfolding DeleteObject_def Let_def by (intro keeps_rules objectAt_writes(2)[OF assms])

end
