(* ===== verification/Object_Properties.thy ===== *)
theory Object_Properties
  imports Object_Service Capability_Exact Action_Runs Deploy_Consistency
begin

text \<open>
  The objects of buckets behave like a map from buckets and cleaned paths to bodies, whatever keys the
  callers make up and whatever calls fail.
\<close>

section \<open>The abstract view\<close>

definition held :: "string \<Rightarrow> string \<Rightarrow> world \<Rightarrow> string option" where
  "held bucketID key w = (case objectAt (objectStorageBucketScope, objectStorageBucketPath bucketID key) w of
     (Some body, Some _) \<Rightarrow> Some body | _ \<Rightarrow> None)"

text \<open>The same object under two names: the same bucket and the same path once cleaned.\<close>

definition sameObject :: "string \<Rightarrow> string \<Rightarrow> string \<Rightarrow> string \<Rightarrow> bool" where
  "sameObject b key b' key' \<longleftrightarrow> b = b' \<and> cleanRooted key = cleanRooted key'"

lemma path_same:
  assumes "plainField b" "plainField b'"
  shows "objectStorageBucketPath b key = objectStorageBucketPath b' key' \<longleftrightarrow> sameObject b key b' key'"
  unfolding sameObject_def by (rule bucket_paths_confined[OF assms])

lemma held_kept:
  assumes "\<And>k. k \<noteq> (objectStorageBucketScope, objectStorageBucketPath b key) \<Longrightarrow> keeps (objectAt k) m" "m e w = (r, w')"
    and "plainField b" "plainField b'" "\<not> sameObject b key b' key'"
  shows "held b' key' w' = held b' key' w"
proof -
  have "(objectStorageBucketScope, objectStorageBucketPath b' key') \<noteq> (objectStorageBucketScope, objectStorageBucketPath b key)"
    using path_same[OF assms(3,4), of key key'] assms(5) by auto
  from keepsD[OF assms(1)[OF this] assms(2)] show ?thesis by (simp add: held_def)
qed

lemma put_stored:
  assumes "ObjectPut c b key contentType data e w = (Inr (Some info), w')"
  shows "held b key w' = Some data \<and> Obj_Size info = int (length data)"
proof -
  let ?k = "(objectStorageBucketScope, objectStorageBucketPath b key)"
  obtain oldSize existed i w1 w2 w3 w4 where put: "objectPut (objectStorageBucketPath b key) contentType data e w1 = (Inr i, w2)"
    and rest: "quietly (storeDo (AdjustObjectStorageBucketSize b (Obj_Size i - oldSize))) e w2 = (Inr (), w3)"
    "(if \<not> existed then quietly (storeDo (AdjustObjectStorageBucketObjectCount b 1)) else areturn ()) e w3 = (Inr (), w4)"
    and end': "w' = w4" "info = i\<lparr>Obj_Key := trimPrefix key ''/''\<rparr>"
    using assms by (auto simp: ObjectPut_def authorized_def asome_def Let_def success_rules)
  have "objectAt ?k w2 = (Some data, Some i) \<and> Obj_Size i = int (length data)"
    using put by (auto simp: objectPut_def external_def objectAt_def Let_def split: fault.splits)
  moreover have "keeps (objectAt ?k) (quietly (storeDo f))" "keeps (objectAt ?k) (if b' then quietly (storeDo f) else areturn ())" for f b'
    by (intro keeps_rules)+
  note keepsD[OF this(1) rest(1)] keepsD[OF this(2) rest(2)]
  ultimately show ?thesis using end' by (simp add: held_def)
qed

lemma object_delete_stored:
  assumes "DeleteObject c b key e w = (Inr (Some ()), w')"
  shows "held b key w' = None"
proof -
  let ?k = "(objectStorageBucketScope, objectStorageBucketPath b key)"
  obtain oldSize existed w1 w2 w3 where gone: "objectDelete (objectStorageBucketPath b key) e w1 = (Inr (), w2)"
    and rest: "(if 0 < (oldSize :: int) then quietly (storeDo (AdjustObjectStorageBucketSize b (- oldSize))) else areturn ()) e w2 = (Inr (), w3)"
    "(if existed then quietly (storeDo (AdjustObjectStorageBucketObjectCount b (- 1))) else areturn ()) e w3 = (Inr (), w')"
    using assms by (auto simp: DeleteObject_def authorized_def asome_def Let_def success_rules)
  have "objectAt ?k w2 = (None, None)" using gone by (auto simp: objectDelete_def external_def objectAt_def split: fault.splits)
  moreover have "keeps (objectAt ?k) (if b' then quietly (storeDo f) else areturn ())" for f b'
    by (intro keeps_rules)
  note keepsD[OF this rest(1)] keepsD[OF this rest(2)]
  ultimately show ?thesis by (simp add: held_def)
qed

lemma get_held:
  assumes "ObjectGet c b key e w = (Inr (Some r), w')" "r \<noteq> None \<or> faultFree e"
  shows "map_option snd r = held b key w"
proof -
  let ?k = "(objectStorageBucketScope, objectStorageBucketPath b key)"
  obtain a w1 where access: "objectCapabilityAppID c b e w = (Inr (Some a), w1)"
    and got: "orMissing (abind (objectGet (objectStorageBucketPath b key)) (\<lambda>(info, body). areturn (info\<lparr>Obj_Key := trimPrefix key ''/''\<rparr>, body))) e w1 = (Inr r, w')"
    using assms(1) by (auto simp: ObjectGet_def authorized_def asome_def success_rules)
  have "keeps (objectAt ?k) (objectCapabilityAppID c b)" by (intro keeps_rules)
  note same = keepsD[OF this access]
  have "map_option snd r = held b key w1"
    using got assms(2) by (auto simp: faultFree_def orMissing_def objectGet_def abind_def atry_def external_def held_def objectAt_def atick_def
      split: fault.splits option.splits sum.splits prod.splits if_splits)
  then show ?thesis using same by (simp add: held_def)
qed

section \<open>The theorem\<close>

text \<open>C11: The objects of buckets (whose identifiers are plain path elements, as the random hex digits that name buckets are) behave like a map from bucket and cleaned path to body. Whatever calls fail, a put or a delete changes no object but the one it names - none of another bucket, whatever dots and slashes the key has. A put that succeeds has stored the data and reports its length, a delete that succeeds has removed the object, and a read returns the body held; it reports that there is none only when there is none or the call to the store failed.\<close>

theorem objects_like_a_map:
  assumes "plainField b" "plainField b'"
  shows "(ObjectPut c b key contentType data e w = (r, w') \<longrightarrow>
      (sameObject b key b' key' \<or> held b' key' w' = held b' key' w)
      \<and> (\<forall>info. r = Inr (Some info) \<longrightarrow> held b key w' = Some data \<and> Obj_Size info = int (length data)))
    \<and> (DeleteObject c b key e w = (d, w'') \<longrightarrow>
      (sameObject b key b' key' \<or> held b' key' w'' = held b' key' w) \<and> (d = Inr (Some ()) \<longrightarrow> held b key w'' = None))
    \<and> (\<forall>found v. ObjectGet c b key e w = (Inr (Some found), v) \<longrightarrow> found \<noteq> None \<or> faultFree e \<longrightarrow> map_option snd found = held b key w)"
proof (intro conjI impI allI)
  assume run: "ObjectPut c b key contentType data e w = (r, w')"
  show "sameObject b key b' key' \<or> held b' key' w' = held b' key' w" using held_kept[OF put_keeps run assms] by blast
  fix info assume "r = Inr (Some info)"
  with run put_stored show "held b key w' = Some data" "Obj_Size info = int (length data)" by blast+
next
  assume run: "DeleteObject c b key e w = (d, w'')"
  show "sameObject b key b' key' \<or> held b' key' w'' = held b' key' w" using held_kept[OF delete_keeps run assms] by blast
  assume "d = Inr (Some ())"
  with run object_delete_stored show "held b key w'' = None" by blast
next
  fix found v assume "ObjectGet c b key e w = (Inr (Some found), v)" "found \<noteq> None \<or> faultFree e"
  with get_held show "map_option snd found = held b key w" by blast
qed

section \<open>Demonstration\<close>

text \<open>The worker of the demonstration binds the bucket \<open>b1\<close>; its root key is a credential.\<close>

definition bucketStore :: Store where
  "bucketStore = capStore\<lparr>capabilityToApp := mput ''key'' ''w'' mempty,
     deployments := mput ''w'' (map (\<lambda>d. d\<lparr>Dep_ObjectStorageBuckets := [ObjectStorageBucketBinding0\<lparr>ObjBind_BucketID := ''b1''\<rparr>]\<rparr>)
       (mget0 [] (deployments capStore) ''w'')) (deployments capStore),
     objectBuckets := mput ''b1'' (ObjectStorageBucket0\<lparr>Bucket_ID := ''b1''\<rparr>) mempty\<rparr>"

definition bucketEnv :: serviceEnv where
  "bucketEnv = demoServiceEnv\<lparr>e_hasObjects := True\<rparr>"

theorem objects_like_a_map_witness:
  "case ObjectPut ''key'' ''b1'' ''../b2/x'' ''t'' ''data'' bucketEnv (worldOf bucketStore) of (r, w) \<Rightarrow>
     (\<exists>info. r = Inr (Some info) \<and> Obj_Size info = 4) \<and> held ''b1'' ''../b2/x'' w = Some ''data'' \<and> held ''b2'' ''x'' w = None"
proof -
  let ?w = "worldOf bucketStore"
  obtain r w where run: "ObjectPut ''key'' ''b1'' ''../b2/x'' ''t'' ''data'' bucketEnv ?w = (r, w)" by fastforce
  have "case fst (ObjectPut ''key'' ''b1'' ''../b2/x'' ''t'' ''data'' bucketEnv ?w) of Inr (Some _) \<Rightarrow> True | _ \<Rightarrow> False"
    by code_simp
  then obtain info where info: "r = Inr (Some info)" using run by (auto split: sum.splits option.splits)
  have plain: "plainField ''b1''" "plainField ''b2''" by (simp_all add: plainField_def plainElement_def)
  have apart: "\<not> sameObject ''b1'' ''../b2/x'' ''b2'' ''x''" by (simp add: sameObject_def)
  have before: "held ''b2'' ''x'' ?w = None" by (simp add: held_def objectAt_def worldOf_def)
  show ?thesis using objects_like_a_map[OF plain, of "''key''" "''../b2/x''" "''t''" "''data''" bucketEnv ?w r w "''x''"] run info apart before by simp
qed

end
