(* ===== verification/SQL_Policy.thy ===== *)
theory SQL_Policy
  imports Go_Text
begin

text \<open>
  The gate in front of the SQLite databases of workers (\<open>sql_policy.go\<close>): a query is split into tokens,
  the tokens into statements, and every statement is checked. A declarative reading of SQL text
  (\<open>lexes\<close>, \<open>script\<close>, \<open>permitted\<close>) is stated beside the code, and the code is proved to decide it.
\<close>

section \<open>Upper case\<close>

definition upperByte :: "char \<Rightarrow> char" where
  "upperByte c = (case map_of (zip ''abcdefghijklmnopqrstuvwxyz'' ''ABCDEFGHIJKLMNOPQRSTUVWXYZ'') c of
     Some d \<Rightarrow> d | None \<Rightarrow> c)"

text \<open>
  \<open>strings.ToUpper\<close>: U+0131 (bytes C4 B1) becomes \<open>I\<close> and U+017F (C5 BF) becomes \<open>S\<close>. All other
  letters outside ASCII stay outside, and the results are compared with ASCII words only.
\<close>

fun toUpper :: "string \<Rightarrow> string" where
  "toUpper (a # b # s) =
     (if a = CHR 0xC4 \<and> b = CHR 0xB1 then CHR ''I'' # toUpper s
      else if a = CHR 0xC5 \<and> b = CHR 0xBF then CHR ''S'' # toUpper s
      else upperByte a # toUpper (b # s))"
| "toUpper [a] = [upperByte a]"
| "toUpper [] = []"

section \<open>Tokens\<close>

record sqlPolicyToken =
  Tok_Text :: string
  Tok_Quoted :: bool
  Tok_Literal :: bool

abbreviation plainToken :: "string \<Rightarrow> sqlPolicyToken" where
  "plainToken w \<equiv> \<lparr>Tok_Text = w, Tok_Quoted = False, Tok_Literal = False\<rparr>"

abbreviation quotedToken :: "char \<Rightarrow> string \<Rightarrow> sqlPolicyToken" where
  "quotedToken c v \<equiv> \<lparr>Tok_Text = v, Tok_Quoted = (c \<noteq> CHR 0x27), Tok_Literal = (c = CHR 0x27)\<rparr>"

definition maxSQLBytes :: nat where
  "maxSQLBytes = 102400"

definition sqlPolicyWord :: "char \<Rightarrow> bool" where
  "sqlPolicyWord c = (inRange 97 122 c \<or> inRange 65 90 c \<or> inRange 48 57 c \<or> c = CHR ''_'' \<or> 127 < ord c)"

definition sqlSpace :: "char \<Rightarrow> bool" where
  "sqlSpace c = (c \<in> {CHR 0x20, CHR 0x09, CHR 0x0D, CHR 0x0A, CHR 0x0C, CHR 0x0B})"

definition opensQuote :: "char \<Rightarrow> bool" where
  "opensQuote c = (c \<in> {CHR 0x27, CHR 0x22, CHR 0x60, CHR ''[''})"

definition closingQuote :: "char \<Rightarrow> char" where
  "closingQuote c = (if c = CHR ''['' then CHR '']'' else c)"

text \<open>The text after the first \<open>*/\<close>.\<close>

fun afterComment :: "string \<Rightarrow> string option" where
  "afterComment (a # b # s) = (if a = CHR ''*'' \<and> b = CHR ''/'' then Some s else afterComment (b # s))"
| "afterComment s = None"

text \<open>The text up to the closing quote, and what follows it; outside brackets a doubled quote is a quote.\<close>

fun quotedText :: "char \<Rightarrow> char \<Rightarrow> string \<Rightarrow> (string \<times> string) option" where
  "quotedText c q [] = None"
| "quotedText c q (x # s) =
     (if x = q then (case s of
          y # r \<Rightarrow> if y = q \<and> c \<noteq> CHR ''['' then map_option (\<lambda>(v, t). (q # v, t)) (quotedText c q r) else Some ([], s)
        | [] \<Rightarrow> Some ([], []))
      else map_option (\<lambda>(v, t). (x # v, t)) (quotedText c q s))"

lemma afterComment_shorter: "afterComment s = Some r \<Longrightarrow> length r < length s"
  by (induction s rule: afterComment.induct) (auto split: if_splits)

lemma quotedText_shorter: "quotedText c q s = Some (v, r) \<Longrightarrow> length r < length s"
  by (induction c q s arbitrary: v rule: quotedText.induct) (fastforce split: if_splits list.splits)+

function sqlPolicyTokens :: "string \<Rightarrow> sqlPolicyToken list result" where
  "sqlPolicyTokens [] = Inr []"
| "sqlPolicyTokens (c # s) =
     (if sqlSpace c then sqlPolicyTokens s
      else if c = CHR ''-'' \<and> prefix ''-'' s then sqlPolicyTokens (dropWhile (\<lambda>x. x \<noteq> CHR 0x0A) (drop 1 s))
      else if c = CHR ''/'' \<and> prefix ''*'' s then
        (case afterComment (drop 1 s) of None \<Rightarrow> Inl ErrSQLPolicy | Some r \<Rightarrow> sqlPolicyTokens r)
      else if opensQuote c then
        (case quotedText c (closingQuote c) s of None \<Rightarrow> Inl ErrSQLPolicy
         | Some (v, r) \<Rightarrow> rbind (sqlPolicyTokens r) (\<lambda>ts. Inr (quotedToken c v # ts)))
      else if sqlPolicyWord c then
        rbind (sqlPolicyTokens (dropWhile sqlPolicyWord s)) (\<lambda>ts. Inr (plainToken (c # takeWhile sqlPolicyWord s) # ts))
      else rbind (sqlPolicyTokens s) (\<lambda>ts. Inr (plainToken [c] # ts)))"
  by pat_completeness auto

termination
proof (relation "measure length", goal_cases)
  case (4 c s r)
  then show ?case using afterComment_shorter by fastforce
next
  case (5 c s x v r)
  then show ?case using quotedText_shorter by fastforce
qed (auto simp: le_imp_less_Suc length_dropWhile_le le_trans[OF length_dropWhile_le])

section \<open>Statements\<close>

definition keyword :: "sqlPolicyToken \<Rightarrow> string" where
  "keyword t = (if Tok_Quoted t \<or> Tok_Literal t then [] else toUpper (Tok_Text t))"

definition allowedSQLPragma :: "string \<Rightarrow> bool" where
  "allowedSQLPragma name = (name \<in> {''table_info'', ''table_xinfo'', ''index_list'', ''index_info'', ''index_xinfo'',
     ''foreign_key_list'', ''foreign_keys'', ''defer_foreign_keys'', ''user_version''})"

text \<open>Where the command of a statement is: after \<open>EXPLAIN\<close>, or two further tokens after \<open>EXPLAIN QUERY\<close>.\<close>

definition commandIndex :: "sqlPolicyToken list \<Rightarrow> nat option" where
  "commandIndex tokens =
     (if keyword (tokens ! 0) = ''EXPLAIN''
      then (let command = (if 1 < length tokens \<and> keyword (tokens ! 1) = ''QUERY'' then 3 else 1) in
        if length tokens \<le> command then None else Some command)
      else Some 0)"

definition pragmaPermitted :: "sqlPolicyToken list \<Rightarrow> nat \<Rightarrow> bool" where
  "pragmaPermitted tokens command =
     (let index = command + 1; schema = (index + 1 < length tokens \<and> Tok_Text (tokens ! (index + 1)) = ''.'') in
      if schema \<and> toLower (Tok_Text (tokens ! index)) \<noteq> ''main'' \<and> toLower (Tok_Text (tokens ! index)) \<noteq> ''temp'' then False
      else (let i = (if schema then index + 2 else index) in
        i < length tokens \<and> allowedSQLPragma (toLower (Tok_Text (tokens ! i)))))"

definition pragmaFunction :: "string \<Rightarrow> bool" where
  "pragmaFunction name = (prefix ''pragma_'' name \<and> \<not> allowedSQLPragma (trimPrefix name ''pragma_''))"

definition refusedFunction :: "string \<Rightarrow> bool" where
  "refusedFunction name = (name \<in> {''load_extension'', ''readfile'', ''writefile'', ''eval'', ''fts3_tokenizer'', ''zipfile'', ''fsdir''})"

definition tokenRefused :: "string \<Rightarrow> sqlPolicyToken \<Rightarrow> sqlPolicyToken list \<Rightarrow> bool" where
  "tokenRefused first t rest =
     (let word = toUpper (Tok_Text t); name = toLower (Tok_Text t) in
      \<not> Tok_Literal t \<and> pragmaFunction name
      \<or> \<not> Tok_Literal t \<and> \<not> Tok_Quoted t \<and> (word = ''TRIGGER'' \<or> word = ''VIRTUAL'') \<and> first = ''CREATE''
      \<or> (case rest of u # _ \<Rightarrow> Tok_Text u = ''('' \<and> (pragmaFunction name \<or> refusedFunction name) | [] \<Rightarrow> False))"

fun checkTokens :: "string \<Rightarrow> sqlPolicyToken list \<Rightarrow> unit result" where
  "checkTokens first [] = Inr ()"
| "checkTokens first (t # rest) = (if tokenRefused first t rest then Inl ErrSQLPolicy else checkTokens first rest)"

definition sqlCommands :: "string set" where
  "sqlCommands = {''SELECT'', ''WITH'', ''INSERT'', ''UPDATE'', ''DELETE'', ''REPLACE'', ''CREATE'', ''ALTER'', ''DROP''}"

definition validateSQLStatement :: "sqlPolicyToken list \<Rightarrow> unit result" where
  "validateSQLStatement tokens =
     (case commandIndex tokens of None \<Rightarrow> Inl ErrSQLPolicy
      | Some command \<Rightarrow>
          (let first = keyword (tokens ! command) in
           if first \<in> sqlCommands \<or> first = ''PRAGMA'' \<and> pragmaPermitted tokens command then checkTokens first tokens
           else Inl ErrSQLPolicy))"

text \<open>The statements between semicolons, the empty ones left out.\<close>

definition separates :: "sqlPolicyToken \<Rightarrow> bool" where
  "separates t = (Tok_Text t = '';'' \<and> \<not> Tok_Quoted t \<and> \<not> Tok_Literal t)"

fun splitStatements :: "sqlPolicyToken list \<Rightarrow> sqlPolicyToken list \<Rightarrow> sqlPolicyToken list list" where
  "splitStatements current [] = (if current = [] then [] else [rev current])"
| "splitStatements current (t # ts) =
     (if separates t then (if current = [] then [] else [rev current]) @ splitStatements [] ts
      else splitStatements (t # current) ts)"

fun validateAll :: "sqlPolicyToken list list \<Rightarrow> unit result" where
  "validateAll [] = Inr ()"
| "validateAll (statement # statements) = rbind (validateSQLStatement statement) (\<lambda>_. validateAll statements)"

definition InspectSQL :: "string \<Rightarrow> nat result" where
  "InspectSQL query =
     (if query = [] \<or> maxSQLBytes < length query then Inl ErrSQLPolicy
      else rbind (sqlPolicyTokens query) (\<lambda>tokens.
        let statements = splitStatements [] tokens in
        if statements = [] then Inl ErrSQLPolicy
        else rbind (validateAll statements) (\<lambda>_. Inr (length statements))))"

section \<open>The lexical reading of a query\<close>

text \<open>A quoted text with its quotes doubled.\<close>

definition doubled :: "char \<Rightarrow> string \<Rightarrow> string" where
  "doubled q v = concat (map (\<lambda>x. if x = q then [q, q] else [x]) v)"

inductive lexes :: "string \<Rightarrow> sqlPolicyToken list \<Rightarrow> bool" where
  lex_nothing: "lexes [] []"
| lex_space: "sqlSpace c \<Longrightarrow> lexes rest ts \<Longrightarrow> lexes (c # rest) ts"
| lex_line: "CHR 0x0A \<notin> set comment \<Longrightarrow> rest = [] \<or> hd rest = CHR 0x0A \<Longrightarrow> lexes rest ts \<Longrightarrow> lexes (''--'' @ comment @ rest) ts"
| lex_block: "\<not> sublist ''*/'' comment \<Longrightarrow> lexes rest ts \<Longrightarrow> lexes (''/*'' @ comment @ ''*/'' @ rest) ts"
| lex_quoted: "c \<in> {CHR 0x27, CHR 0x22, CHR 0x60} \<Longrightarrow> rest = [] \<or> hd rest \<noteq> c \<Longrightarrow> lexes rest ts \<Longrightarrow>
     lexes ([c] @ doubled c v @ [c] @ rest) (quotedToken c v # ts)"
| lex_bracket: "CHR '']'' \<notin> set v \<Longrightarrow> lexes rest ts \<Longrightarrow> lexes (''['' @ v @ '']'' @ rest) (quotedToken CHR ''['' v # ts)"
| lex_word: "w \<noteq> [] \<Longrightarrow> list_all sqlPolicyWord w \<Longrightarrow> rest = [] \<or> \<not> sqlPolicyWord (hd rest) \<Longrightarrow> lexes rest ts \<Longrightarrow>
     lexes (w @ rest) (plainToken w # ts)"
| lex_symbol: "\<not> sqlSpace c \<Longrightarrow> \<not> opensQuote c \<Longrightarrow> \<not> sqlPolicyWord c \<Longrightarrow> \<not> (c = CHR ''-'' \<and> prefix ''-'' rest) \<Longrightarrow>
     \<not> (c = CHR ''/'' \<and> prefix ''*'' rest) \<Longrightarrow> lexes rest ts \<Longrightarrow> lexes (c # rest) (plainToken [c] # ts)"

lemma afterComment_none: "\<not> sublist ''*/'' comment \<Longrightarrow> afterComment (comment @ ''*/'' @ rest) = Some rest"
proof (induction comment)
  case (Cons a comment)
  have "\<not> (a = CHR ''*'' \<and> prefix ''/'' comment)" using Cons.prems by (auto simp: sublist_Cons_right prefix_def)
  moreover have "afterComment (comment @ ''*/'' @ rest) = Some rest" using Cons by (simp add: sublist_Cons_right)
  ultimately show ?case by (cases comment) auto
qed simp

lemma afterComment_some:
  "afterComment s = Some rest \<Longrightarrow> \<exists>comment. s = comment @ ''*/'' @ rest \<and> \<not> sublist ''*/'' comment"
proof (induction s rule: afterComment.induct)
  case (1 a b s)
  show ?case
  proof (cases "a = CHR ''*'' \<and> b = CHR ''/''")
    case True
    then show ?thesis using 1(2) by (intro exI[of _ "[]"]) simp
  next
    case False
    then obtain comment where c: "b # s = comment @ ''*/'' @ rest" "\<not> sublist ''*/'' comment" using 1 by auto
    then have "\<not> sublist ''*/'' (a # comment)" using False by (cases comment) (auto simp: sublist_Cons_right)
    then show ?thesis using c(1) by (intro exI[of _ "a # comment"]) simp
  qed
qed simp_all

lemma quotedText_doubled: "c \<noteq> CHR ''['' \<Longrightarrow> rest = [] \<or> hd rest \<noteq> q \<Longrightarrow> quotedText c q (doubled q v @ q # rest) = Some (v, rest)"
  by (induction v) (auto simp: doubled_def split: list.splits)

lemma quotedText_bracket: "q \<notin> set v \<Longrightarrow> quotedText CHR ''['' q (v @ q # rest) = Some (v, rest)"
  by (induction v) (auto split: list.splits)

lemma quotedText_some:
  assumes "quotedText c q s = Some (v, rest)"
  shows "s = (if c = CHR ''['' then v else doubled q v) @ q # rest"
    and "c = CHR ''['' \<Longrightarrow> q \<notin> set v" and "c \<noteq> CHR ''['' \<Longrightarrow> rest = [] \<or> hd rest \<noteq> q"
  using assms by (induction c q s arbitrary: v rule: quotedText.induct) (fastforce simp: doubled_def split: if_splits list.splits)+

lemma word_apart:
  assumes "sqlPolicyWord c"
  shows "\<not> sqlSpace c" "\<not> opensQuote c" "c \<noteq> CHR ''-''" "c \<noteq> CHR ''/''"
  using assms by (auto simp: sqlPolicyWord_def sqlSpace_def opensQuote_def inRange_def)

lemma rbind_Inr: "rbind r f = Inr b \<longleftrightarrow> (\<exists>a. r = Inr a \<and> f a = Inr b)"
  by (cases r) simp_all

lemma token_cases [case_names space line block quote word symbol]:
  fixes c :: char and s :: string
  obtains (space) "sqlSpace c"
    | (line) "\<not> sqlSpace c" "c = CHR ''-''" "prefix ''-'' s"
    | (block) "\<not> sqlSpace c" "\<not> (c = CHR ''-'' \<and> prefix ''-'' s)" "c = CHR ''/''" "prefix ''*'' s"
    | (quote) "\<not> sqlSpace c" "\<not> (c = CHR ''-'' \<and> prefix ''-'' s)" "\<not> (c = CHR ''/'' \<and> prefix ''*'' s)" "opensQuote c"
    | (word) "\<not> sqlSpace c" "\<not> (c = CHR ''-'' \<and> prefix ''-'' s)" "\<not> (c = CHR ''/'' \<and> prefix ''*'' s)" "\<not> opensQuote c" "sqlPolicyWord c"
    | (symbol) "\<not> sqlSpace c" "\<not> (c = CHR ''-'' \<and> prefix ''-'' s)" "\<not> (c = CHR ''/'' \<and> prefix ''*'' s)" "\<not> opensQuote c" "\<not> sqlPolicyWord c"
  by blast

lemma lexes_sound: "sqlPolicyTokens q = Inr ts \<Longrightarrow> lexes q ts"
proof (induction q arbitrary: ts rule: sqlPolicyTokens.induct)
  case 1
  then show ?case by (simp add: lex_nothing)
next
  case (2 c s)
  show ?case
  proof (cases rule: token_cases[where c = c and s = s])
    case space
    then show ?thesis using 2 by (simp add: lex_space)
  next
    case line
    obtain s' where s': "s = CHR ''-'' # s'" using line(3) by (auto simp: prefix_def)
    let ?rest = "dropWhile (\<lambda>x. x \<noteq> CHR 0x0A) s'"
    have "lexes ?rest ts" using 2(2)[OF line(1)] line 2(7) s' by simp
    moreover have "?rest = [] \<or> hd ?rest = CHR 0x0A" using hd_dropWhile by blast
    moreover have "CHR 0x0A \<notin> set (takeWhile (\<lambda>x. x \<noteq> CHR 0x0A) s')" by (auto dest: set_takeWhileD)
    ultimately have "lexes (''--'' @ takeWhile (\<lambda>x. x \<noteq> CHR 0x0A) s' @ ?rest) ts" by (intro lex_line)
    then show ?thesis using line(2) s' by simp
  next
    case block
    obtain s' where s': "s = CHR ''*'' # s'" using block(4) by (auto simp: prefix_def)
    obtain r where r: "afterComment s' = Some r" "sqlPolicyTokens r = Inr ts" using block 2(7) s' by (auto split: option.splits)
    then obtain comment where "s' = comment @ ''*/'' @ r" "\<not> sublist ''*/'' comment" using afterComment_some by blast
    moreover have "lexes r ts" using 2(3)[OF block(1,2), of r] block r s' by simp
    ultimately show ?thesis using lex_block[of comment r ts] block(3) s' by simp
  next
    case quote
    then obtain v r us where v: "quotedText c (closingQuote c) s = Some (v, r)" "sqlPolicyTokens r = Inr us" "ts = quotedToken c v # us"
      using 2(7) by (auto simp: rbind_Inr split: option.splits)
    note q = quotedText_some[OF v(1)]
    have rest: "lexes r us" using 2(4)[OF quote(1,2,3,4) v(1) refl v(2)] .
    show ?thesis
    proof (cases "c = CHR ''[''")
      case True
      then show ?thesis using lex_bracket[of v r us] q(1,2) rest v(3) by (simp add: closingQuote_def)
    next
      case False
      then show ?thesis using lex_quoted[of c r us v] q(1,3) quote(4) rest v(3) by (simp add: closingQuote_def opensQuote_def)
    qed
  next
    case word
    obtain us where us: "sqlPolicyTokens (dropWhile sqlPolicyWord s) = Inr us" "ts = plainToken (c # takeWhile sqlPolicyWord s) # us"
      using 2(7) word by (auto simp: rbind_Inr)
    have "lexes (dropWhile sqlPolicyWord s) us" using 2(5)[OF word us(1)] .
    moreover have "dropWhile sqlPolicyWord s = [] \<or> \<not> sqlPolicyWord (hd (dropWhile sqlPolicyWord s))" using hd_dropWhile by blast
    moreover have "list_all sqlPolicyWord (c # takeWhile sqlPolicyWord s)" using word(5) by (auto simp: list_all_iff dest: set_takeWhileD)
    ultimately have "lexes ((c # takeWhile sqlPolicyWord s) @ dropWhile sqlPolicyWord s) (plainToken (c # takeWhile sqlPolicyWord s) # us)"
      by (intro lex_word) simp_all
    then show ?thesis using us(2) by simp
  next
    case symbol
    obtain us where us: "sqlPolicyTokens s = Inr us" "ts = plainToken [c] # us" using 2(7) symbol by (auto simp: rbind_Inr)
    show ?thesis unfolding us(2) by (rule lex_symbol) (use symbol 2(6)[OF symbol us(1)] in blast)+
  qed
qed

lemma lexes_complete: "lexes q ts \<Longrightarrow> sqlPolicyTokens q = Inr ts"
proof (induction rule: lexes.induct)
  case (lex_line comment rest ts)
  have "dropWhile (\<lambda>x. x \<noteq> CHR 0x0A) (comment @ rest) = rest"
    using lex_line(1,2) by (cases rest) (auto simp: dropWhile_append2 dropWhile_append3)
  then show ?case using lex_line.IH by (simp add: sqlSpace_def)
next
  case (lex_block comment rest ts)
  then show ?case using afterComment_none[OF lex_block(1), of rest] by (simp add: sqlSpace_def)
next
  case (lex_quoted c rest ts v)
  have "\<not> sqlSpace c" "c \<noteq> CHR ''-''" "c \<noteq> CHR ''/''" "opensQuote c" "closingQuote c = c" "c \<noteq> CHR ''[''"
    using lex_quoted(1) by (auto simp: sqlSpace_def opensQuote_def closingQuote_def)
  then show ?case using quotedText_doubled[of c rest c v] lex_quoted by simp
next
  case (lex_bracket v rest ts)
  have "closingQuote CHR ''['' = CHR '']''" "opensQuote CHR ''[''" "\<not> sqlSpace CHR ''[''" by (simp_all add: closingQuote_def opensQuote_def sqlSpace_def)
  then show ?case using quotedText_bracket[OF lex_bracket(1), of rest] lex_bracket.IH by simp
next
  case (lex_word w rest ts)
  obtain c u where w: "w = c # u" using lex_word(1) by (cases w) auto
  have "takeWhile sqlPolicyWord (u @ rest) = u" "dropWhile sqlPolicyWord (u @ rest) = rest"
    using lex_word(2,3) w by (cases rest, auto simp: list_all_iff takeWhile_append2 takeWhile_tail)+
  then show ?case using lex_word w word_apart[of c] by simp
qed (auto simp: prefix_def)

declare sqlPolicyTokens.simps(2) [simp del]

text \<open>The lexer of the SQL gate is exactly the lexical reading of a query: it returns the tokens of every query that can be read (white space, line comments up to the end of the line, block comments up to the first \<open>*/\<close>, texts in quotes with doubled quotes, names in brackets, maximal words, single symbols) and refuses exactly the queries that cannot, those with an open quote or comment.\<close>

theorem sql_lexer_exact: "sqlPolicyTokens query = Inr tokens \<longleftrightarrow> lexes query tokens"
  using lexes_sound lexes_complete by blast

section \<open>Which queries are permitted\<close>

fun joinSegments :: "sqlPolicyToken list list \<Rightarrow> sqlPolicyToken list" where
  "joinSegments [] = []"
| "joinSegments [g] = g"
| "joinSegments (g # gs) = g @ plainToken '';'' # joinSegments gs"

text \<open>The statements of a script are its non-empty segments between semicolons.\<close>

definition script :: "sqlPolicyToken list \<Rightarrow> sqlPolicyToken list list \<Rightarrow> bool" where
  "script tokens statements \<longleftrightarrow> (\<exists>segments. segments \<noteq> [] \<and> tokens = joinSegments segments
     \<and> list_all (list_all (\<lambda>t. \<not> separates t)) segments \<and> statements = filter (\<lambda>g. g \<noteq> []) segments)"

text \<open>What may stand before the command of a statement.\<close>

definition explains :: "sqlPolicyToken list \<Rightarrow> sqlPolicyToken \<Rightarrow> bool" where
  "explains before command \<longleftrightarrow> before = [] \<and> keyword command \<noteq> ''EXPLAIN''
     \<or> map keyword before = [''EXPLAIN''] \<and> keyword command \<noteq> ''QUERY''
     \<or> length before = 3 \<and> keyword (before ! 0) = ''EXPLAIN'' \<and> keyword (before ! 1) = ''QUERY''"

definition pragmaArguments :: "sqlPolicyToken list \<Rightarrow> bool" where
  "pragmaArguments args \<longleftrightarrow>
     (\<exists>name rest. args = name # rest \<and> (rest = [] \<or> Tok_Text (hd rest) \<noteq> ''.'') \<and> allowedSQLPragma (toLower (Tok_Text name)))
   \<or> (\<exists>schema dot name rest. args = schema # dot # name # rest \<and> Tok_Text dot = ''.''
        \<and> toLower (Tok_Text schema) \<in> {''main'', ''temp''} \<and> allowedSQLPragma (toLower (Tok_Text name)))"

text \<open>
  No token names a refused pragma as a table (string literals apart), none calls a refused function
  however it is quoted, and no creation mentions triggers or virtual tables.
\<close>

definition tokenPermitted :: "string \<Rightarrow> sqlPolicyToken \<Rightarrow> sqlPolicyToken list \<Rightarrow> bool" where
  "tokenPermitted command t rest \<longleftrightarrow> (Tok_Literal t \<or> \<not> pragmaFunction (toLower (Tok_Text t)))
     \<and> (command = ''CREATE'' \<longrightarrow> keyword t \<notin> {''TRIGGER'', ''VIRTUAL''})
     \<and> (map Tok_Text (take 1 rest) = [''(''] \<longrightarrow> \<not> pragmaFunction (toLower (Tok_Text t)) \<and> \<not> refusedFunction (toLower (Tok_Text t)))"

definition permitted :: "sqlPolicyToken list \<Rightarrow> bool" where
  "permitted statement \<longleftrightarrow> (\<exists>before command args. statement = before @ command # args \<and> explains before command
     \<and> (keyword command \<in> sqlCommands \<or> keyword command = ''PRAGMA'' \<and> pragmaArguments args)
     \<and> (\<forall>before t rest. statement = before @ t # rest \<longrightarrow> tokenPermitted (keyword command) t rest))"

subsection \<open>Statements\<close>

lemma separates_plain: "separates t \<longleftrightarrow> t = plainToken '';''"
  by (cases t) (auto simp: separates_def)

lemma split_segment: "list_all (\<lambda>t. \<not> separates t) g \<Longrightarrow> splitStatements current (g @ ts) = splitStatements (rev g @ current) ts"
  by (induction g arbitrary: current) auto

lemma splitStatements_join:
  "list_all (list_all (\<lambda>t. \<not> separates t)) segments \<Longrightarrow> splitStatements [] (joinSegments segments) = filter (\<lambda>g. g \<noteq> []) segments"
proof (induction segments rule: joinSegments.induct)
  case (2 g)
  then show ?case using split_segment[of g "[]" "[]"] by simp
next
  case (3 g h gs)
  then show ?case using split_segment[of g "[]" "plainToken '';'' # joinSegments (h # gs)"] by (simp add: separates_plain)
qed simp

lemma segments_exist: "\<exists>segments. segments \<noteq> [] \<and> tokens = joinSegments segments \<and> list_all (list_all (\<lambda>t. \<not> separates t)) segments"
proof (induction tokens)
  case Nil
  show ?case by (intro exI[of _ "[[]]"]) simp
next
  case (Cons t tokens)
  then obtain g gs where g: "tokens = joinSegments (g # gs)" "list_all (list_all (\<lambda>t. \<not> separates t)) (g # gs)" by (metis list.exhaust)
  show ?case
  proof (cases "separates t")
    case True
    then show ?thesis using g by (intro exI[of _ "[] # g # gs"]) (simp add: separates_plain)
  next
    case False
    then show ?thesis using g by (intro exI[of _ "(t # g) # gs"]) (cases gs, simp_all)
  qed
qed

lemma script_split: "script tokens statements \<longleftrightarrow> statements = splitStatements [] tokens"
  using segments_exist[of tokens] splitStatements_join unfolding script_def by metis

lemma statements_filled: "statement \<in> set (splitStatements current ts) \<Longrightarrow> statement \<noteq> []"
  by (induction current ts rule: splitStatements.induct) (auto split: if_splits)

subsection \<open>Checks\<close>

lemma tokenRefused_permitted: "\<not> tokenRefused first t rest \<longleftrightarrow> tokenPermitted first t rest"
  by (cases rest) (auto simp: tokenRefused_def tokenPermitted_def keyword_def Let_def)

lemma checkTokens_all: "checkTokens first ts = Inr () \<longleftrightarrow> (\<forall>before t rest. ts = before @ t # rest \<longrightarrow> tokenPermitted first t rest)"
proof (induction ts)
  case (Cons t ts)
  have "(\<forall>before u rest. t # ts = before @ u # rest \<longrightarrow> tokenPermitted first u rest)
    \<longleftrightarrow> tokenPermitted first t ts \<and> (\<forall>before u rest. ts = before @ u # rest \<longrightarrow> tokenPermitted first u rest)"
    by (auto simp: Cons_eq_append_conv)
  then show ?case using Cons by (simp add: tokenRefused_permitted[symmetric])
qed simp

lemma pragma_arguments: "pragmaPermitted (before @ command # args) (length before) \<longleftrightarrow> pragmaArguments args"
proof -
  have nth: "(before @ command # args) ! Suc (length before + k) = args ! k" for k by (simp add: nth_append)
  consider "args = []" | name where "args = [name]" | name dot where "args = [name, dot]" | schema dot name rest where "args = schema # dot # name # rest"
    by (metis list.exhaust)
  then show ?thesis
    by cases (auto simp: pragmaPermitted_def pragmaArguments_def Let_def nth_append)
qed

lemma command_split:
  assumes "statement = before @ command # args" "explains before command"
  shows "commandIndex statement = Some (length before)"
  using assms by (auto simp: commandIndex_def explains_def Let_def nth_append length_Suc_conv numeral_3_eq_3)

lemma command_found:
  assumes "commandIndex statement = Some k" "statement \<noteq> []"
  shows "explains (take k statement) (statement ! k) \<and> k < length statement"
  using assms by (auto simp: commandIndex_def explains_def Let_def take_Suc_conv_app_nth hd_conv_nth numeral_3_eq_3 split: if_splits)

lemma validate_permitted:
  assumes "statement \<noteq> []"
  shows "validateSQLStatement statement = Inr () \<longleftrightarrow> permitted statement"
proof
  assume ok: "validateSQLStatement statement = Inr ()"
  then obtain k where k: "commandIndex statement = Some k" by (auto simp: validateSQLStatement_def split: option.splits)
  note found = command_found[OF k assms]
  have st: "statement = take k statement @ statement ! k # drop (Suc k) statement" using found by (simp add: id_take_nth_drop)
  have "keyword (statement ! k) \<in> sqlCommands \<or> keyword (statement ! k) = ''PRAGMA'' \<and> pragmaPermitted statement k"
    "checkTokens (keyword (statement ! k)) statement = Inr ()"
    using ok k by (auto simp: validateSQLStatement_def Let_def split: if_splits)
  moreover have "pragmaPermitted statement k \<longleftrightarrow> pragmaArguments (drop (Suc k) statement)"
    using pragma_arguments[of "take k statement" "statement ! k" "drop (Suc k) statement"] st found by (simp add: min_absorb2)
  ultimately show "permitted statement" unfolding permitted_def using st found checkTokens_all by blast
next
  assume "permitted statement"
  then obtain before command args where p: "statement = before @ command # args" "explains before command"
    "keyword command \<in> sqlCommands \<or> keyword command = ''PRAGMA'' \<and> pragmaArguments args"
    "checkTokens (keyword command) statement = Inr ()"
    unfolding permitted_def checkTokens_all by blast
  then show "validateSQLStatement statement = Inr ()"
    using command_split[OF p(1,2)] pragma_arguments[of before command args] by (auto simp: validateSQLStatement_def nth_append)
qed

lemma sql_lexes: "lexes q ts \<longleftrightarrow> sqlPolicyTokens q = Inr ts"
  using lexes_sound lexes_complete by blast

lemma validateAll_each: "validateAll statements = Inr () \<longleftrightarrow> (\<forall>statement\<in>set statements. validateSQLStatement statement = Inr ())"
  by (induction statements) (auto simp: rbind_Inr)

text \<open>C8: The SQL gate accepts exactly the queries that the policy permits, and counts their statements: the query is neither empty nor longer than the limit, can be read, has a statement, and each statement is - after \<open>EXPLAIN\<close> - a query, a change of data or schema without triggers and virtual tables, or one of the listed pragmas on \<open>main\<close> or \<open>temp\<close>, and none calls a function that reaches files, extensions or other pragmas, whatever quotes, brackets, comments or letter case it hides behind.\<close>

theorem sql_policy_exact:
  "InspectSQL query = Inr n \<longleftrightarrow> query \<noteq> [] \<and> length query \<le> maxSQLBytes
     \<and> (\<exists>tokens statements. lexes query tokens \<and> script tokens statements \<and> statements \<noteq> [] \<and> n = length statements
          \<and> list_all permitted statements)"
proof -
  have each: "validateAll (splitStatements [] ts) = Inr () \<longleftrightarrow> list_all permitted (splitStatements [] ts)" for ts
    unfolding validateAll_each list_all_iff using validate_permitted statements_filled by blast
  have "InspectSQL query = Inr n \<longleftrightarrow> query \<noteq> [] \<and> length query \<le> maxSQLBytes
     \<and> (\<exists>ts. sqlPolicyTokens query = Inr ts \<and> splitStatements [] ts \<noteq> [] \<and> n = length (splitStatements [] ts)
          \<and> validateAll (splitStatements [] ts) = Inr ())"
    by (auto simp: InspectSQL_def rbind_Inr Let_def)
  then show ?thesis using sql_lexes by (simp add: each script_split)
qed

section \<open>Consequences\<close>

text \<open>A value between quotes, with its quotes doubled, is read as one literal whatever it contains.\<close>

lemma sql_literal_opaque:
  "sqlPolicyTokens rest = Inr ts \<Longrightarrow> rest = [] \<or> hd rest \<noteq> CHR 0x27 \<Longrightarrow>
     sqlPolicyTokens ([CHR 0x27] @ doubled CHR 0x27 v @ [CHR 0x27] @ rest) = Inr (quotedToken CHR 0x27 v # ts)"
  unfolding sql_lexes[symmetric] by (rule lex_quoted) simp_all

text \<open>The gate returns a count or \<open>ErrSQLPolicy\<close>.\<close>

lemma sqlPolicyTokens_error: "sqlPolicyTokens q = Inl e \<Longrightarrow> e = ErrSQLPolicy"
proof (induction q rule: sqlPolicyTokens.induct)
  case (2 c s)
  have rb: "rbind r (\<lambda>ts. Inr (t # ts)) = Inl e \<longleftrightarrow> r = Inl e" for r :: "sqlPolicyToken list result" and t by (cases r) simp_all
  note step = 2(7)[unfolded sqlPolicyTokens.simps(2)]
  show ?case
  proof (cases rule: token_cases[where c = c and s = s])
    case space
    then show ?thesis using 2(1) step by simp
  next
    case line
    then show ?thesis using 2(2) step by simp
  next
    case block
    then show ?thesis using 2(3)[OF block(1,2)] step by (auto split: option.splits)
  next
    case quote
    then show ?thesis using 2(4)[OF quote] step by (auto simp: rb split: option.splits)
  next
    case word
    then show ?thesis using 2(5)[OF word] step by (auto simp: rb split: if_splits)
  next
    case symbol
    then show ?thesis using 2(6)[OF symbol] step by (auto simp: rb split: if_splits)
  qed
qed simp

text \<open>
  SQLite also accepts a string literal where a table is named, so a refused pragma is read through
  its table function when its name stands between single quotes.
\<close>

lemma sql_pragma_literal: "InspectSQL ''SELECT * FROM pragma_database_list'' = Inl ErrSQLPolicy"
  "InspectSQL (''SELECT * FROM '' @ [CHR 0x27] @ ''pragma_database_list'' @ [CHR 0x27]) = Inr 1"
proof -
  have gate: "rbind (sqlPolicyTokens ''SELECT * FROM pragma_database_list'') (\<lambda>ts. validateAll (splitStatements [] ts)) = Inl ErrSQLPolicy"
    "\<not> Option.is_none (case sqlPolicyTokens ''SELECT * FROM pragma_database_list'' of Inr ts \<Rightarrow> Some ts | _ \<Rightarrow> None)" by code_simp+
  then show "InspectSQL ''SELECT * FROM pragma_database_list'' = Inl ErrSQLPolicy"
    by (cases "sqlPolicyTokens ''SELECT * FROM pragma_database_list''") (auto simp: InspectSQL_def maxSQLBytes_def Let_def)
  have "rbind (sqlPolicyTokens (''SELECT * FROM '' @ [CHR 0x27] @ ''pragma_database_list'' @ [CHR 0x27])) (\<lambda>ts. 
      rbind (validateAll (splitStatements [] ts)) (\<lambda>_. Inr (length (splitStatements [] ts)))) = Inr 1" by code_simp
  then obtain ts where ts: "sqlPolicyTokens (''SELECT * FROM '' @ [CHR 0x27] @ ''pragma_database_list'' @ [CHR 0x27]) = Inr ts"
    "validateAll (splitStatements [] ts) = Inr ()" "length (splitStatements [] ts) = 1" by (auto simp: rbind_Inr)
  then show "InspectSQL (''SELECT * FROM '' @ [CHR 0x27] @ ''pragma_database_list'' @ [CHR 0x27]) = Inr 1"
    unfolding InspectSQL_def ts(1) by (auto simp: maxSQLBytes_def Let_def)
qed

end
