(* ===== verification/Egress_Policy.thy ===== *)
theory Egress_Policy
  imports Go_Text "HOL-Library.Word"
begin

text \<open>
  The network policy of outbound requests (\<open>internal/egress\<close>): which addresses a worker may reach, how a
  destination is resolved once and pinned to an address, and which route a request or a tunnel takes.
  Addresses are words of 32 and 128 bits. Parsing and printing of addresses, name lookups and the choice
  of a proxy are parameters.
\<close>

unbundle bit_operations_syntax

section \<open>Addresses (\<open>net/netip\<close>)\<close>

datatype Addr = NoAddr | IPv4 "32 word" | IPv6 "128 word" string

record Prefix =
  Prefix_Addr :: Addr
  Prefix_Bits :: nat

text \<open>\<open>::ffff:0:0/96\<close> holds the addresses of IPv4; \<open>Unmap\<close> also drops the zone.\<close>

definition addrUnmap :: "Addr \<Rightarrow> Addr" where
  "addrUnmap a = (case a of IPv6 w z \<Rightarrow> if drop_bit 32 w = 0xffff then IPv4 (ucast w) else a | _ \<Rightarrow> a)"

definition isUnspecified :: "Addr \<Rightarrow> bool" where
  "isUnspecified a = (case a of NoAddr \<Rightarrow> False | IPv4 w \<Rightarrow> w = 0 | IPv6 w z \<Rightarrow> w = 0 \<and> z = [])"

definition isMulticast :: "Addr \<Rightarrow> bool" where
  "isMulticast a = (case a of NoAddr \<Rightarrow> False | IPv4 w \<Rightarrow> drop_bit 28 w = 0xe | IPv6 w z \<Rightarrow> drop_bit 120 w = 0xff)"

definition isLoopback :: "Addr \<Rightarrow> bool" where
  "isLoopback a = (case a of NoAddr \<Rightarrow> False | IPv4 w \<Rightarrow> drop_bit 24 w = 127 | IPv6 w z \<Rightarrow> w = 1)"

definition isLinkLocalUnicast :: "Addr \<Rightarrow> bool" where
  "isLinkLocalUnicast a = (case a of NoAddr \<Rightarrow> False | IPv4 w \<Rightarrow> drop_bit 16 w = 0xa9fe | IPv6 w z \<Rightarrow> drop_bit 118 w = 0x3fa)"

definition isPrivate :: "Addr \<Rightarrow> bool" where
  "isPrivate a = (case a of NoAddr \<Rightarrow> False
     | IPv4 w \<Rightarrow> drop_bit 24 w = 10 \<or> drop_bit 20 w = 0xac1 \<or> drop_bit 16 w = 0xc0a8
     | IPv6 w z \<Rightarrow> drop_bit 121 w = 0x7e)"

definition isGlobalUnicast :: "Addr \<Rightarrow> bool" where
  "isGlobalUnicast a = (case a of NoAddr \<Rightarrow> False
     | IPv4 w \<Rightarrow> w \<noteq> 0 \<and> w \<noteq> 0xffffffff \<and> \<not> isLoopback a \<and> \<not> isMulticast a \<and> \<not> isLinkLocalUnicast a
     | IPv6 w z \<Rightarrow> \<not> (w = 0 \<and> z = []) \<and> \<not> isLoopback a \<and> \<not> isMulticast a \<and> \<not> isLinkLocalUnicast a)"

definition prefixContains :: "Prefix \<Rightarrow> Addr \<Rightarrow> bool" where
  "prefixContains p a = (case (Prefix_Addr p, a) of
     (IPv4 v, IPv4 w) \<Rightarrow> Prefix_Bits p \<le> 32 \<and> drop_bit (32 - Prefix_Bits p) (v XOR w) = 0
   | (IPv6 v y, IPv6 w z) \<Rightarrow> z = [] \<and> Prefix_Bits p \<le> 128 \<and> drop_bit (128 - Prefix_Bits p) (v XOR w) = 0
   | _ \<Rightarrow> False)"

definition prefixMasked :: "Prefix \<Rightarrow> Prefix" where
  "prefixMasked p = (case Prefix_Addr p of NoAddr \<Rightarrow> p
     | IPv4 v \<Rightarrow> p\<lparr>Prefix_Addr := IPv4 (push_bit (32 - Prefix_Bits p) (drop_bit (32 - Prefix_Bits p) v))\<rparr>
     | IPv6 v z \<Rightarrow> p\<lparr>Prefix_Addr := IPv6 (push_bit (128 - Prefix_Bits p) (drop_bit (128 - Prefix_Bits p) v)) []\<rparr>)"

text \<open>\<open>netip.AddrFromSlice\<close> of a \<open>net.IP\<close>.\<close>

definition addrFromSlice :: "8 word list \<Rightarrow> Addr option" where
  "addrFromSlice ip = (if length ip = 4 then Some (IPv4 (word_rcat ip))
     else if length ip = 16 then Some (IPv6 (word_rcat ip) []) else None)"

section \<open>Hosts and ports (\<open>net\<close>)\<close>

definition joinHostPort :: "string \<Rightarrow> string \<Rightarrow> string" where
  "joinHostPort host port = (if CHR '':'' \<in> set host then ''['' @ host @ '']:'' @ port else host @ '':'' @ port)"

text \<open>\<open>SplitHostPort\<close>: the port is what follows the last colon; a host with colons stands in brackets.\<close>

definition splitHostPort :: "string \<Rightarrow> (string \<times> string) option" where
  "splitHostPort s =
     (if CHR '':'' \<notin> set s then None
      else (let port = rev (takeWhile (\<lambda>c. c \<noteq> CHR '':'') (rev s)); before = take (length s - length port - 1) s in
        if prefix ''['' s then
          (let host = takeWhile (\<lambda>c. c \<noteq> CHR '']'') (drop 1 s) in
           if before = ''['' @ host @ '']'' \<and> CHR ''['' \<notin> set (drop 1 s) \<and> CHR '']'' \<notin> set (drop (length host + 2) s)
           then Some (host, port) else None)
        else if CHR '':'' \<in> set before \<or> CHR ''['' \<in> set s \<or> CHR '']'' \<in> set s then None
        else Some (before, port)))"

section \<open>The policy\<close>

record NetworkPolicy =
  Pol_Prefixes :: "Prefix list"
  Pol_Public :: bool
  Pol_Private :: bool
  Pol_Local :: bool

datatype egressError =
    Denied string
  | ContextDone error
  | LookupFailed
  | Unsupported
  | ProxyFailed error

record lookupFailure =
  Fail_DNSTimeout :: bool
  Fail_Canceled :: bool
  Fail_DeadlineExceeded :: bool

text \<open>
  What the code around the policy answers: \<open>netip.ParseAddr\<close> and \<open>ParsePrefix\<close>, \<open>net.ParseCIDR\<close>, the text
  of a \<open>net.IP\<close>, the resolver (addresses with zones), the resolver that classifies tunnels, the state of
  the caller's context after the lookup, the proxy chosen for a scheme and a host.
\<close>

record egressEnv =
  eg_parseAddr :: "string \<Rightarrow> Addr option"
  eg_parsePrefix :: "string \<Rightarrow> Prefix option"
  eg_parseCIDR :: "string \<Rightarrow> Prefix option"
  eg_addrSlice :: "Addr \<Rightarrow> 8 word list"
  eg_ipText :: "8 word list \<Rightarrow> string"
  eg_lookup :: "string \<Rightarrow> lookupFailure + (8 word list \<times> string) list"
  eg_classify :: "string \<Rightarrow> lookupFailure + (8 word list \<times> string) list"
  eg_ctxErr :: "error option"
  eg_proxy :: "string \<Rightarrow> string \<Rightarrow> error + string option"

definition addRule :: "egressEnv \<Rightarrow> NetworkPolicy \<Rightarrow> string \<Rightarrow> (egressError + NetworkPolicy)" where
  "addRule e p rule0 =
     (let rule = trimSpace rule0 in
      if rule = ''public'' then Inr (p\<lparr>Pol_Public := True\<rparr>)
      else if rule = ''private'' then Inr (p\<lparr>Pol_Private := True\<rparr>)
      else if rule = ''local'' then Inr (p\<lparr>Pol_Local := True\<rparr>)
      else if rule = [] then Inr p
      else (case eg_parsePrefix e rule of
          Some q \<Rightarrow> Inr (p\<lparr>Pol_Prefixes := Pol_Prefixes p @ [prefixMasked q]\<rparr>)
        | None \<Rightarrow> (case eg_parseAddr e rule of
            None \<Rightarrow> Inl Unsupported
          | Some a0 \<Rightarrow> (let a = addrUnmap a0 in
              Inr (p\<lparr>Pol_Prefixes := Pol_Prefixes p @ [prefixMasked \<lparr>Prefix_Addr = a,
                Prefix_Bits = (case a of IPv4 _ \<Rightarrow> 32 | IPv6 _ _ \<Rightarrow> 128 | NoAddr \<Rightarrow> 0)\<rparr>]\<rparr>)))))"

fun addRules :: "egressEnv \<Rightarrow> NetworkPolicy \<Rightarrow> string list \<Rightarrow> (egressError + NetworkPolicy)" where
  "addRules e p [] = Inr p"
| "addRules e p (rule # rules) = (case addRule e p rule of Inl err \<Rightarrow> Inl err | Inr q \<Rightarrow> addRules e q rules)"

definition NewNetworkPolicy :: "egressEnv \<Rightarrow> string list \<Rightarrow> (egressError + NetworkPolicy)" where
  "NewNetworkPolicy e allow = addRules e \<lparr>Pol_Prefixes = [], Pol_Public = False, Pol_Private = False, Pol_Local = False\<rparr> allow"

abbreviation p4 :: "32 word \<Rightarrow> nat \<Rightarrow> Prefix" where
  "p4 w n \<equiv> \<lparr>Prefix_Addr = IPv4 w, Prefix_Bits = n\<rparr>"

abbreviation p6 :: "128 word \<Rightarrow> nat \<Rightarrow> Prefix" where
  "p6 w n \<equiv> \<lparr>Prefix_Addr = IPv6 w [], Prefix_Bits = n\<rparr>"

text \<open>
  \<open>0.0.0.0/8 100.64.0.0/10 192.0.0.0/24 192.0.2.0/24 192.88.99.0/24 198.18.0.0/15 198.51.100.0/24
  203.0.113.0/24 240.0.0.0/4\<close> and \<open>::/96 64:ff9b::/96 64:ff9b:1::/48 100::/64 2001::/32 2001:2::/48
  2001:10::/28 2001:20::/28 2001:db8::/32 2002::/16 3fff::/20\<close>.
\<close>

definition nonPublicNetworks :: "Prefix list" where
  "nonPublicNetworks =
     [p4 0x00000000 8, p4 0x64400000 10, p4 0xc0000000 24, p4 0xc0000200 24, p4 0xc0586300 24, p4 0xc6120000 15,
      p4 0xc6336400 24, p4 0xcb007100 24, p4 0xf0000000 4,
      p6 0 96, p6 0x0064ff9b000000000000000000000000 96, p6 0x0064ff9b000100000000000000000000 48,
      p6 0x01000000000000000000000000000000 64, p6 0x20010000000000000000000000000000 32,
      p6 0x20010002000000000000000000000000 48, p6 0x20010010000000000000000000000000 28,
      p6 0x20010020000000000000000000000000 28, p6 0x20010db8000000000000000000000000 32,
      p6 0x20020000000000000000000000000000 16, p6 0x3fff0000000000000000000000000000 20]"

definition policyAllows :: "NetworkPolicy \<Rightarrow> Addr \<Rightarrow> bool" where
  "policyAllows p a0 =
     (let a = addrUnmap a0 in
      if a = NoAddr \<or> (case a of IPv6 _ z \<Rightarrow> z \<noteq> [] | _ \<Rightarrow> False) \<or> isUnspecified a \<or> isMulticast a then False
      else if list_ex (\<lambda>q. prefixContains q a) (Pol_Prefixes p) then True
      else if isLoopback a \<or> isLinkLocalUnicast a then Pol_Local p
      else if isPrivate a then Pol_Private p
      else if list_ex (\<lambda>q. prefixContains q a) nonPublicNetworks then False
      else Pol_Public p \<and> isGlobalUnicast a)"

section \<open>Resolving a destination\<close>

text \<open>\<open>strconv.Atoi\<close> of digits: more than 18 digits may not fit an \<open>int\<close> and are out of range either way.\<close>

definition portNumber :: "string \<Rightarrow> bool" where
  "portNumber port = (port \<noteq> [] \<and> list_all isDigit port \<and> 1 \<le> decimal port \<and> decimal port \<le> 65535)"

definition hostLetter :: "char \<Rightarrow> bool" where
  "hostLetter c = (inRange 97 122 c \<or> inRange 65 90 c \<or> isDigit c \<or> c = CHR ''-'')"

definition validHostname :: "string \<Rightarrow> bool" where
  "validHostname host0 =
     (let host = trimSuffix host0 ''.''; labels = splitOn CHR ''.'' host in
      host \<noteq> [] \<and> length host \<le> 253
      \<and> list_all (\<lambda>l. l \<noteq> [] \<and> length l \<le> 63 \<and> hd l \<noteq> CHR ''-'' \<and> last l \<noteq> CHR ''-'' \<and> list_all hostLetter l) labels
      \<and> \<not> list_all (list_all isDigit) labels)"

text \<open>The addresses of a host: the literal, or the answers of the resolver.\<close>

definition hostAddresses :: "egressEnv \<Rightarrow> string \<Rightarrow> (egressError + (8 word list \<times> string) list)" where
  "hostAddresses e host = (case eg_parseAddr e host of
     Some a \<Rightarrow> Inr [(eg_addrSlice e a, [])]
   | None \<Rightarrow>
       if \<not> validHostname host then Inl (Denied ''malformed_destination'')
       else (case eg_lookup e host of
           Inr answers \<Rightarrow> Inr answers
         | Inl f \<Rightarrow> (case eg_ctxErr e of
             Some err \<Rightarrow> Inl (ContextDone err)
           | None \<Rightarrow> if Fail_Canceled f \<or> Fail_DeadlineExceeded f \<and> \<not> Fail_DNSTimeout f then Inl LookupFailed
               else Inl (Denied ''dns_lookup_failed''))))"

definition answerAllowed :: "NetworkPolicy \<Rightarrow> 8 word list \<times> string \<Rightarrow> bool" where
  "answerAllowed p answer = (case addrFromSlice (fst answer) of None \<Rightarrow> False | Some a \<Rightarrow> snd answer = [] \<and> policyAllows p a)"

definition resolve :: "egressEnv \<Rightarrow> NetworkPolicy \<Rightarrow> string \<Rightarrow> string \<Rightarrow> (egressError + string)" where
  "resolve e p host port =
     (if \<not> portNumber port \<or> host = [] \<or> CHR ''%'' \<in> set host then Inl (Denied ''malformed_destination'')
      else (case hostAddresses e host of
          Inl err \<Rightarrow> Inl err
        | Inr addresses \<Rightarrow>
            if addresses = [] \<or> 512 < length addresses then Inl (Denied ''invalid_dns_answer'')
            else if \<not> list_all (answerAllowed p) addresses then Inl (Denied ''address_not_allowed'')
            else Inr (joinHostPort (eg_ipText e (fst (hd addresses))) port)))"

definition resolveRoute :: "egressEnv \<Rightarrow> NetworkPolicy \<Rightarrow> string \<Rightarrow> string \<Rightarrow> string option \<Rightarrow> bool \<Rightarrow> (egressError + string)" where
  "resolveRoute e p host port proxy proxyResolves =
     (case eg_ctxErr e of
        Some err \<Rightarrow> Inl (ContextDone err)
      | None \<Rightarrow>
          if proxyResolves \<and> proxy \<noteq> None \<and> Pol_Public p \<and> resolve e p host port = Inl (Denied ''dns_lookup_failed'')
          then Inr (joinHostPort host port) else resolve e p host port)"

section \<open>Routes\<close>

text \<open>\<open>net.ParseIP\<close>: an address without a zone.\<close>

definition parseIP :: "egressEnv \<Rightarrow> string \<Rightarrow> Addr option" where
  "parseIP e host = (case eg_parseAddr e host of Some (IPv6 w z) \<Rightarrow> if z = [] then Some (IPv6 w z) else None | r \<Rightarrow> r)"

record policyRequest =
  Req_Method :: string
  Req_Scheme :: string
  Req_User :: bool
  Req_Opaque :: string
  Req_Fragment :: string
  Req_Host :: string
  Req_Hostname :: string
  Req_Port :: string

text \<open>Where a request goes: the host of the outgoing URL, its proxy, a tunnel, the name for TLS.\<close>

record httpRoute =
  Route_Host :: string
  Route_Proxy :: "string option"
  Route_Tunnel :: "string option"
  Route_ServerName :: string

definition requestPort :: "policyRequest \<Rightarrow> string" where
  "requestPort r = (if Req_Port r = [] then (if Req_Scheme r = ''https'' then ''443'' else ''80'') else Req_Port r)"

definition tunnelFor :: "egressEnv \<Rightarrow> string option \<Rightarrow> string \<Rightarrow> string \<Rightarrow> bool" where
  "tunnelFor e proxy scheme pinned = (proxy \<noteq> None \<and> scheme = ''http''
     \<and> (case splitHostPort pinned of Some (host, _) \<Rightarrow> parseIP e host \<noteq> None | None \<Rightarrow> False))"

text \<open>\<open>RoundTrip\<close> up to the transport it configures, once a slot is free.\<close>

definition policyRoundTrip :: "egressEnv \<Rightarrow> NetworkPolicy \<Rightarrow> bool \<Rightarrow> policyRequest \<Rightarrow> (egressError + httpRoute)" where
  "policyRoundTrip e p proxyResolves r =
     (if Req_User r \<or> Req_Opaque r \<noteq> [] \<or> Req_Fragment r \<noteq> [] \<or> Req_Scheme r \<noteq> ''http'' \<and> Req_Scheme r \<noteq> ''https''
         \<or> Req_Method r = ''CONNECT''
      then Inl (Denied ''malformed_destination'')
      else (case eg_proxy e (Req_Scheme r) (Req_Host r) of
          Inl err \<Rightarrow> Inl (ProxyFailed err)
        | Inr proxy \<Rightarrow> (case resolveRoute e p (Req_Hostname r) (requestPort r) proxy proxyResolves of
            Inl err \<Rightarrow> Inl err
          | Inr pinned \<Rightarrow>
              let tunnel = tunnelFor e proxy (Req_Scheme r) pinned in
              Inr \<lparr>Route_Host = pinned, Route_Proxy = (if tunnel then None else proxy),
                Route_Tunnel = (if tunnel then Some pinned else None), Route_ServerName = Req_Hostname r\<rparr>)))"

record egressServer =
  Srv_Policy :: "NetworkPolicy option"
  Srv_ProxyResolves :: bool
  Srv_DirectNets :: "Prefix list"

definition parseDirectNets :: "egressEnv \<Rightarrow> string list \<Rightarrow> Prefix list" where
  "parseDirectNets e noProxy = List.map_filter (\<lambda>entry. if CHR ''/'' \<in> set (trimSpace entry) then eg_parseCIDR e (trimSpace entry) else None) noProxy"

text \<open>The predicates of \<open>net.IP\<close> read a mapped address as one of IPv4; an IP of another length has none of them.\<close>

definition isDirectIP :: "egressServer \<Rightarrow> 8 word list \<Rightarrow> bool" where
  "isDirectIP srv ip = (case map_option addrUnmap (addrFromSlice ip) of None \<Rightarrow> False
     | Some a \<Rightarrow> isLoopback a \<or> isPrivate a \<or> isLinkLocalUnicast a \<or> list_ex (\<lambda>n. prefixContains n a) (Srv_DirectNets srv))"

definition resolvesDirect :: "egressEnv \<Rightarrow> egressServer \<Rightarrow> string \<Rightarrow> bool" where
  "resolvesDirect e srv target =
     (let host = (case splitHostPort target of Some (h, _) \<Rightarrow> h | None \<Rightarrow> target) in
      case parseIP e host of
        Some a \<Rightarrow> isDirectIP srv (eg_addrSlice e a)
      | None \<Rightarrow> (case eg_classify e host of Inl _ \<Rightarrow> False
          | Inr addrs \<Rightarrow> addrs \<noteq> [] \<and> list_all (\<lambda>answer. isDirectIP srv (fst answer)) addrs))"

text \<open>What becomes of a CONNECT: a status, or a connection dialled directly or through the proxy.\<close>

datatype connectRoute = Refuse nat | DialDirect string | DialProxy string string

definition connectTarget :: "egressEnv \<Rightarrow> egressServer \<Rightarrow> string option \<Rightarrow> string \<Rightarrow> (egressError + string \<times> bool)" where
  "connectTarget e srv proxy target = (case Srv_Policy srv of None \<Rightarrow> Inr (target, False)
     | Some p \<Rightarrow> (case splitHostPort target of None \<Rightarrow> Inl (Denied ''malformed_destination'')
         | Some (host, port) \<Rightarrow> (case resolveRoute e p host port proxy (Srv_ProxyResolves srv) of Inl err \<Rightarrow> Inl err
             | Inr t \<Rightarrow> Inr (t, (case splitHostPort t of Some (h, _) \<Rightarrow> parseIP e h = None | None \<Rightarrow> True)))))"

definition handleConnect :: "egressEnv \<Rightarrow> egressServer \<Rightarrow> string \<Rightarrow> string \<Rightarrow> connectRoute" where
  "handleConnect e srv requestHost urlHost =
     (let target = (if requestHost = [] then urlHost else requestHost) in
      if target = [] then Refuse 400
      else (case eg_proxy e ''https'' target of
          Inl _ \<Rightarrow> Refuse 502
        | Inr proxy \<Rightarrow> (case connectTarget e srv proxy target of
            Inl _ \<Rightarrow> Refuse 403
          | Inr (dialTarget, delegated) \<Rightarrow> (case proxy of
              None \<Rightarrow> DialDirect dialTarget
            | Some via \<Rightarrow> if \<not> delegated \<and> resolvesDirect e srv dialTarget then DialDirect dialTarget else DialProxy via dialTarget))))"

section \<open>Framing (\<open>egress.go\<close>)\<close>

type_synonym httpHeader = "(string \<times> string list) list"

definition responseHasBody :: "string option \<Rightarrow> nat \<Rightarrow> bool" where
  "responseHasBody requestMethod status =
     (if requestMethod = Some ''HEAD'' then False
      else if 100 \<le> status \<and> status < 200 then False
      else status \<noteq> 204 \<and> status \<noteq> 304)"

record httpResponse =
  Resp_Status :: nat
  Resp_Method :: "string option"
  Resp_ContentLength :: int
  Resp_TransferEncoding :: "string list"
  Resp_Close :: bool

definition hasChunkedEncoding :: "string list \<Rightarrow> bool" where
  "hasChunkedEncoding encodings = (''chunked'' \<in> set encodings)"

definition frameResponse :: "httpResponse \<Rightarrow> httpResponse" where
  "frameResponse r =
     (let r = r\<lparr>Resp_Close := False\<rparr> in
      if Resp_ContentLength r < 0 \<and> \<not> hasChunkedEncoding (Resp_TransferEncoding r) \<and> responseHasBody (Resp_Method r) (Resp_Status r)
      then r\<lparr>Resp_TransferEncoding := [''chunked'']\<rparr> else r)"

section \<open>What the policy lets through\<close>

text \<open>
  A destination is pinned: every address it resolved to is allowed, and the first is the one used - or the
  name is left to the proxy, which only happens to a name, after its lookup failed, under a public policy.
\<close>

definition pinnedBy :: "egressEnv \<Rightarrow> NetworkPolicy \<Rightarrow> string \<Rightarrow> string \<Rightarrow> string \<Rightarrow> bool" where
  "pinnedBy e p host port target \<longleftrightarrow> (\<exists>ip zone rest. hostAddresses e host = Inr ((ip, zone) # rest)
     \<and> list_all (answerAllowed p) ((ip, zone) # rest) \<and> target = joinHostPort (eg_ipText e ip) port)"

definition leftToProxy :: "egressEnv \<Rightarrow> NetworkPolicy \<Rightarrow> bool \<Rightarrow> string option \<Rightarrow> string \<Rightarrow> string \<Rightarrow> string \<Rightarrow> bool" where
  "leftToProxy e p proxyResolves proxy host port target \<longleftrightarrow> proxyResolves \<and> proxy \<noteq> None \<and> Pol_Public p
     \<and> eg_parseAddr e host = None \<and> validHostname host \<and> (\<exists>f. eg_lookup e host = Inl f) \<and> target = joinHostPort host port"

lemma resolve_pinned: "resolve e p host port = Inr target \<Longrightarrow> pinnedBy e p host port target"
  by (cases "hostAddresses e host") (auto simp: resolve_def pinnedBy_def neq_Nil_conv split: if_splits)

lemma resolve_lookup_failed:
  assumes "resolve e p host port = Inl (Denied ''dns_lookup_failed'')"
  shows "eg_parseAddr e host = None \<and> validHostname host \<and> (\<exists>f. eg_lookup e host = Inl f)"
  using assms by (auto simp: resolve_def hostAddresses_def split: if_splits option.splits sum.splits)

lemma resolveRoute_pinned:
  assumes "resolveRoute e p host port proxy delegates = Inr target"
  shows "pinnedBy e p host port target \<or> leftToProxy e p delegates proxy host port target"
  using assms resolve_pinned[of e p host port target] resolve_lookup_failed[of e p host port]
  by (auto simp: resolveRoute_def leftToProxy_def split: option.splits if_splits)

lemma takeWhile_none: "x \<notin> set xs \<Longrightarrow> takeWhile (\<lambda>c. c \<noteq> x) (xs @ x # ys) = xs"
  by (induction xs) auto

lemma splitHostPort_join:
  assumes "CHR '':'' \<notin> set host" "CHR ''['' \<notin> set host" "CHR '']'' \<notin> set host" "list_all isDigit port"
  shows "splitHostPort (joinHostPort host port) = Some (host, port)"
proof -
  have digits: "c \<notin> set port" if "\<not> isDigit c" for c using assms(4) that by (auto simp: list_all_iff)
  have port: "CHR '':'' \<notin> set port" "CHR ''['' \<notin> set port" "CHR '']'' \<notin> set port"
    by (rule digits, simp add: isDigit_def inRange_def)+
  have last: "rev (takeWhile (\<lambda>c. c \<noteq> CHR '':'') (rev (host @ CHR '':'' # port))) = port"
    using takeWhile_none[of "CHR '':''" "rev port" "rev host"] port(1) by simp
  have "\<not> prefix ''['' (host @ CHR '':'' # port)" using assms(2) by (cases host) auto
  then show ?thesis using assms port last by (simp add: splitHostPort_def joinHostPort_def Let_def)
qed

lemma splitOn_covers: "c \<in> set s \<Longrightarrow> c \<noteq> sep \<Longrightarrow> \<exists>f\<in>set (splitOn sep s). c \<in> set f"
  by (induction s) (auto split: list.splits)

lemma valid_host_letters:
  assumes "validHostname host" "\<not> hostLetter c" "c \<noteq> CHR ''.''"
  shows "c \<notin> set host"
proof
  assume c: "c \<in> set host"
  let ?host = "trimSuffix host ''.''"
  have "c \<in> set ?host" using c assms(3) by (auto simp: trimSuffix_def suffix_def)
  then obtain f where "f \<in> set (splitOn CHR ''.'' ?host)" "c \<in> set f" using splitOn_covers assms(3) by blast
  then show False using assms(1,2) by (auto simp: validHostname_def Let_def list_all_iff)
qed

lemma leftToProxy_split:
  assumes "leftToProxy e p d proxy host port target" "portNumber port"
  shows "splitHostPort target = Some (host, port) \<and> parseIP e host = None"
proof -
  note l = assms(1)[unfolded leftToProxy_def]
  have "validHostname host" using l by blast
  note letters = valid_host_letters[OF this]
  have "CHR '':'' \<notin> set host" "CHR ''['' \<notin> set host" "CHR '']'' \<notin> set host"
    by (rule letters, simp_all add: hostLetter_def inRange_def isDigit_def)+
  then show ?thesis using l splitHostPort_join[of host port] assms(2) by (simp add: portNumber_def parseIP_def)
qed

lemma resolveRoute_port: "resolveRoute e p host port proxy d = Inr target \<Longrightarrow> portNumber port"
  by (auto simp: resolveRoute_def resolve_def split: option.splits if_splits)

lemma connectTarget_pinned:
  assumes "Srv_Policy srv = Some p" "connectTarget e srv proxy target = Inr (t, delegated)"
  obtains host port where "splitHostPort target = Some (host, port)"
    "pinnedBy e p host port t \<or> leftToProxy e p (Srv_ProxyResolves srv) proxy host port t"
    "leftToProxy e p (Srv_ProxyResolves srv) proxy host port t \<Longrightarrow> delegated"
proof -
  obtain host port where r: "splitHostPort target = Some (host, port)" "resolveRoute e p host port proxy (Srv_ProxyResolves srv) = Inr t"
    "delegated = (case splitHostPort t of Some (h, _) \<Rightarrow> parseIP e h = None | None \<Rightarrow> True)"
    using assms by (auto simp: connectTarget_def split: option.splits sum.splits prod.splits)
  show ?thesis
    by (rule that[OF r(1) resolveRoute_pinned[OF r(2)]]) (use leftToProxy_split resolveRoute_port[OF r(2)] r(3) in auto)
qed

text \<open>C5: Under a network policy every connection is pinned to an address that the policy allowed. An HTTP request goes to a host, directly, through the proxy or through a tunnel, that is the first of the addresses its name resolved to, all of which are allowed; a CONNECT that is dialled directly goes to such an address and never to a name. The one exception is a request or tunnel sent through a proxy that is trusted to resolve names: it carries a valid name whose lookup failed, under a public policy. The name checked by TLS is the one requested.\<close>

theorem egress_pinned:
  assumes "Srv_Policy srv = Some p"
  shows "(\<forall>r route. policyRoundTrip e p (Srv_ProxyResolves srv) r = Inr route \<longrightarrow>
      (pinnedBy e p (Req_Hostname r) (requestPort r) (Route_Host route)
        \<or> Route_Proxy route \<noteq> None \<and> leftToProxy e p (Srv_ProxyResolves srv) (Route_Proxy route) (Req_Hostname r) (requestPort r) (Route_Host route))
      \<and> Route_Tunnel route \<in> {None, Some (Route_Host route)} \<and> Route_ServerName route = Req_Hostname r)
    \<and> (\<forall>target u t. target \<noteq> [] \<longrightarrow> handleConnect e srv target u = DialDirect t \<longrightarrow>
      (\<exists>host port. splitHostPort target = Some (host, port) \<and> pinnedBy e p host port t))
    \<and> (\<forall>target u via t. target \<noteq> [] \<longrightarrow> handleConnect e srv target u = DialProxy via t \<longrightarrow>
      (\<exists>host port. splitHostPort target = Some (host, port)
        \<and> (pinnedBy e p host port t \<or> leftToProxy e p (Srv_ProxyResolves srv) (Some via) host port t)))"
proof (intro conjI allI impI)
  fix r route assume run: "policyRoundTrip e p (Srv_ProxyResolves srv) r = Inr route"
  then obtain proxy pinned where proxy: "resolveRoute e p (Req_Hostname r) (requestPort r) proxy (Srv_ProxyResolves srv) = Inr pinned"
    "route = \<lparr>Route_Host = pinned, Route_Proxy = (if tunnelFor e proxy (Req_Scheme r) pinned then None else proxy),
       Route_Tunnel = (if tunnelFor e proxy (Req_Scheme r) pinned then Some pinned else None), Route_ServerName = Req_Hostname r\<rparr>"
    by (auto simp: policyRoundTrip_def Let_def split: if_splits sum.splits)
  have "\<not> tunnelFor e proxy (Req_Scheme r) pinned" if "leftToProxy e p (Srv_ProxyResolves srv) proxy (Req_Hostname r) (requestPort r) pinned"
    using leftToProxy_split[OF that resolveRoute_port[OF proxy(1)]] by (simp add: tunnelFor_def)
  then show "pinnedBy e p (Req_Hostname r) (requestPort r) (Route_Host route)
        \<or> Route_Proxy route \<noteq> None \<and> leftToProxy e p (Srv_ProxyResolves srv) (Route_Proxy route) (Req_Hostname r) (requestPort r) (Route_Host route)"
    using resolveRoute_pinned[OF proxy(1)] proxy(2) by (auto simp: leftToProxy_def)
  show "Route_Tunnel route \<in> {None, Some (Route_Host route)}" "Route_ServerName route = Req_Hostname r" using proxy(2) by auto
next
  fix target u t assume run: "target \<noteq> []" "handleConnect e srv target u = DialDirect t"
  then obtain proxy delegated where c: "connectTarget e srv proxy target = Inr (t, delegated)" "proxy \<noteq> None \<longrightarrow> \<not> delegated"
    by (auto simp: handleConnect_def Let_def split: if_splits sum.splits option.splits)
  obtain host port where "splitHostPort target = Some (host, port)"
    "pinnedBy e p host port t \<or> leftToProxy e p (Srv_ProxyResolves srv) proxy host port t"
    "leftToProxy e p (Srv_ProxyResolves srv) proxy host port t \<longrightarrow> delegated" using connectTarget_pinned[OF assms c(1)] by blast
  then show "\<exists>host port. splitHostPort target = Some (host, port) \<and> pinnedBy e p host port t" using c(2) by (auto simp: leftToProxy_def)
next
  fix target u via t assume run: "target \<noteq> []" "handleConnect e srv target u = DialProxy via t"
  then obtain delegated where c: "connectTarget e srv (Some via) target = Inr (t, delegated)"
    by (auto simp: handleConnect_def Let_def split: if_splits sum.splits option.splits)
  show "\<exists>host port. splitHostPort target = Some (host, port)
        \<and> (pinnedBy e p host port t \<or> leftToProxy e p (Srv_ProxyResolves srv) (Some via) host port t)"
    using connectTarget_pinned[OF assms c] by metis
qed

section \<open>Which addresses are allowed\<close>

text \<open>The reference: ranges of numbers, each with its first address and the bits that vary.\<close>

definition within :: "nat \<Rightarrow> nat \<Rightarrow> nat \<Rightarrow> bool" where
  "within base n x \<longleftrightarrow> base \<le> x \<and> x < base + 2 ^ n"

definition dotted :: "nat \<Rightarrow> nat \<Rightarrow> nat \<Rightarrow> nat \<Rightarrow> nat" where
  "dotted a b c d = ((a * 256 + b) * 256 + c) * 256 + d"

definition ranges :: "(nat \<times> nat) list \<Rightarrow> nat \<Rightarrow> bool" where
  "ranges rs x \<longleftrightarrow> list_ex (\<lambda>(base, n). within base n x) rs"

definition allowed4 :: "bool \<Rightarrow> bool \<Rightarrow> bool \<Rightarrow> nat \<Rightarrow> bool" where
  "allowed4 public private local x \<longleftrightarrow>
     x \<noteq> 0 \<and> \<not> ranges [(dotted 224 0 0 0, 28)] x
     \<and> (if ranges [(dotted 127 0 0 0, 24), (dotted 169 254 0 0, 16)] x then local
        else if ranges [(dotted 10 0 0 0, 24), (dotted 172 16 0 0, 20), (dotted 192 168 0 0, 16)] x then private
        else public \<and> \<not> ranges [(dotted 0 0 0 0, 24), (dotted 100 64 0 0, 22), (dotted 192 0 0 0, 8), (dotted 192 0 2 0, 8),
          (dotted 192 88 99 0, 8), (dotted 198 18 0 0, 17), (dotted 198 51 100 0, 8), (dotted 203 0 113 0, 8), (dotted 240 0 0 0, 28)] x)"

text \<open>The groups of an address of IPv6.\<close>

definition groups :: "nat \<Rightarrow> nat \<Rightarrow> nat \<Rightarrow> nat \<Rightarrow> nat" where
  "groups a b c d = (((a * 2 ^ 16 + b) * 2 ^ 16 + c) * 2 ^ 16 + d) * 2 ^ 64"

definition allowed6 :: "bool \<Rightarrow> bool \<Rightarrow> bool \<Rightarrow> nat \<Rightarrow> bool" where
  "allowed6 public private local x \<longleftrightarrow>
     x \<noteq> 0 \<and> \<not> ranges [(groups 0xff00 0 0 0, 120)] x
     \<and> (if x = 1 \<or> ranges [(groups 0xfe80 0 0 0, 118)] x then local
        else if ranges [(groups 0xfc00 0 0 0, 121)] x then private
        else public \<and> \<not> ranges [(0, 32), (groups 0x64 0xff9b 0 0, 32), (groups 0x64 0xff9b 1 0, 80), (groups 0x100 0 0 0, 64),
          (groups 0x2001 0 0 0, 96), (groups 0x2001 2 0 0, 80), (groups 0x2001 0x10 0 0, 100), (groups 0x2001 0x20 0 0, 100),
          (groups 0x2001 0xdb8 0 0, 96), (groups 0x2002 0 0 0, 112), (groups 0x3fff 0 0 0, 108)] x)"

lemma within_div: "(x :: nat) div 2 ^ n = q \<longleftrightarrow> within (q * 2 ^ n) n x"
proof
  assume q: "x div 2 ^ n = q"
  have "x = q * 2 ^ n + x mod 2 ^ n" "x mod 2 ^ n < 2 ^ n" using div_mult_mod_eq[of x "2 ^ n"] q by simp_all
  then show "within (q * 2 ^ n) n x" unfolding within_def by linarith
next
  assume "within (q * 2 ^ n) n x"
  then show "x div 2 ^ n = q" by (intro div_nat_eqI) (simp_all add: within_def mult.commute)
qed

lemma unat_dropped: "unat (drop_bit n w) = unat w div 2 ^ n" for w :: "'a::len word"
  by (simp only: unat_drop_bit_eq) (simp only: drop_bit_eq_div)

lemma dropped_within: "drop_bit n w = c \<longleftrightarrow> within (unat c * 2 ^ n) n (unat w)" for w :: "'a::len word"
  by (simp only: word_unat_eq_iff unat_dropped within_div)

lemma xor_dropped: "drop_bit n (v XOR w) = 0 \<longleftrightarrow> drop_bit n w = drop_bit n v" for v w :: "'a::len word"
  unfolding drop_bit_xor by (metis xor_self_eq xor.assoc xor.left_neutral xor.commute)

lemma prefix_within: "drop_bit n (v XOR w) = 0 \<longleftrightarrow> within (unat v div 2 ^ n * 2 ^ n) n (unat w)" for v w :: "'a::len word"
  unfolding xor_dropped by (simp only: dropped_within unat_dropped)

lemma contains_within:
  "prefixContains (p4 v n) (IPv4 w) \<longleftrightarrow> n \<le> 32 \<and> within (unat v div 2 ^ (32 - n) * 2 ^ (32 - n)) (32 - n) (unat w)"
  "prefixContains (p6 v6 n) (IPv6 u z) \<longleftrightarrow> z = [] \<and> n \<le> 128 \<and> within (unat v6 div 2 ^ (128 - n) * 2 ^ (128 - n)) (128 - n) (unat u)"
  "\<not> prefixContains (p4 v n) (IPv6 u z)" "\<not> prefixContains (p6 v6 n) (IPv4 w)"
  by (simp_all only: prefixContains_def prefix_within Prefix.simps Addr.case prod.case) simp_all

lemma unspecified_zero: "isUnspecified (IPv4 w) \<longleftrightarrow> unat w = 0" "isUnspecified (IPv6 u z) \<longleftrightarrow> unat u = 0 \<and> z = []"
  by (simp_all add: isUnspecified_def unat_eq_0)

lemma multicast_ranges: "isMulticast (IPv4 w) \<longleftrightarrow> ranges [(dotted 224 0 0 0, 28)] (unat w)"
  "isMulticast (IPv6 u z) \<longleftrightarrow> ranges [(groups 0xff00 0 0 0, 120)] (unat u)"
  by (simp_all only: isMulticast_def dropped_within Addr.case) (simp_all add: ranges_def dotted_def groups_def)

lemma local_ranges: "isLoopback (IPv4 w) \<or> isLinkLocalUnicast (IPv4 w) \<longleftrightarrow> ranges [(dotted 127 0 0 0, 24), (dotted 169 254 0 0, 16)] (unat w)"
  "isLoopback (IPv6 u z) \<or> isLinkLocalUnicast (IPv6 u z) \<longleftrightarrow> unat u = 1 \<or> ranges [(groups 0xfe80 0 0 0, 118)] (unat u)"
proof -
  have "u = 1 \<longleftrightarrow> unat u = 1" by (metis unat_1 word_unat_eq_iff)
  then show "isLoopback (IPv6 u z) \<or> isLinkLocalUnicast (IPv6 u z) \<longleftrightarrow> unat u = 1 \<or> ranges [(groups 0xfe80 0 0 0, 118)] (unat u)"
    by (simp only: isLoopback_def isLinkLocalUnicast_def dropped_within Addr.case) (simp add: ranges_def groups_def)
  show "isLoopback (IPv4 w) \<or> isLinkLocalUnicast (IPv4 w) \<longleftrightarrow> ranges [(dotted 127 0 0 0, 24), (dotted 169 254 0 0, 16)] (unat w)"
    by (simp only: isLoopback_def isLinkLocalUnicast_def dropped_within Addr.case) (simp add: ranges_def dotted_def)
qed

lemma private_ranges:
  "isPrivate (IPv4 w) \<longleftrightarrow> ranges [(dotted 10 0 0 0, 24), (dotted 172 16 0 0, 20), (dotted 192 168 0 0, 16)] (unat w)"
  "isPrivate (IPv6 u z) \<longleftrightarrow> ranges [(groups 0xfc00 0 0 0, 121)] (unat u)"
  by (simp_all only: isPrivate_def dropped_within Addr.case) (simp_all add: ranges_def dotted_def groups_def)

lemma special_ranges:
  "list_ex (\<lambda>q. prefixContains q (IPv4 w)) nonPublicNetworks \<longleftrightarrow>
     ranges [(dotted 0 0 0 0, 24), (dotted 100 64 0 0, 22), (dotted 192 0 0 0, 8), (dotted 192 0 2 0, 8),
       (dotted 192 88 99 0, 8), (dotted 198 18 0 0, 17), (dotted 198 51 100 0, 8), (dotted 203 0 113 0, 8), (dotted 240 0 0 0, 28)] (unat w)"
  "list_ex (\<lambda>q. prefixContains q (IPv6 u [])) nonPublicNetworks \<longleftrightarrow>
     ranges [(0, 32), (groups 0x64 0xff9b 0 0, 32), (groups 0x64 0xff9b 1 0, 80), (groups 0x100 0 0 0, 64),
       (groups 0x2001 0 0 0, 96), (groups 0x2001 2 0 0, 80), (groups 0x2001 0x10 0 0, 100), (groups 0x2001 0x20 0 0, 100),
       (groups 0x2001 0xdb8 0 0, 96), (groups 0x2002 0 0 0, 112), (groups 0x3fff 0 0 0, 108)] (unat u)"
  by (simp_all only: nonPublicNetworks_def list_ex_Nil_iff list_ex_Cons_iff contains_within) (simp_all add: ranges_def dotted_def groups_def)

lemma allows4: "policyAllows \<lparr>Pol_Prefixes = [], Pol_Public = public, Pol_Private = private, Pol_Local = local\<rparr> (IPv4 w)
    \<longleftrightarrow> allowed4 public private local (unat w)"
proof -
  have top: "ranges [(dotted 0 0 0 0, 24), (dotted 100 64 0 0, 22), (dotted 192 0 0 0, 8), (dotted 192 0 2 0, 8),
       (dotted 192 88 99 0, 8), (dotted 198 18 0 0, 17), (dotted 198 51 100 0, 8), (dotted 203 0 113 0, 8), (dotted 240 0 0 0, 28)] (unat w)"
    if "w = 0xffffffff" unfolding that by (simp add: ranges_def within_def dotted_def)
  have global: "isGlobalUnicast (IPv4 w) \<longleftrightarrow> \<not> isUnspecified (IPv4 w) \<and> w \<noteq> 0xffffffff
    \<and> \<not> (isLoopback (IPv4 w) \<or> isLinkLocalUnicast (IPv4 w)) \<and> \<not> isMulticast (IPv4 w)" by (auto simp: isGlobalUnicast_def isUnspecified_def)
  have plain: "addrUnmap (IPv4 w) = IPv4 w" by (simp add: addrUnmap_def)
  show ?thesis
    unfolding policyAllows_def plain Let_def special_ranges(1) local_ranges(1) private_ranges(1) global multicast_ranges(1) unspecified_zero(1) allowed4_def
    using top by auto
qed

lemma allows6:
  assumes "drop_bit 32 u \<noteq> 0xffff"
  shows "policyAllows \<lparr>Pol_Prefixes = [], Pol_Public = public, Pol_Private = private, Pol_Local = local\<rparr> (IPv6 u z)
    \<longleftrightarrow> z = [] \<and> allowed6 public private local (unat u)"
proof (cases "z = []")
  case True
  have global: "isGlobalUnicast (IPv6 u []) \<longleftrightarrow> \<not> isUnspecified (IPv6 u [])
    \<and> \<not> (isLoopback (IPv6 u []) \<or> isLinkLocalUnicast (IPv6 u [])) \<and> \<not> isMulticast (IPv6 u [])" by (auto simp: isGlobalUnicast_def isUnspecified_def)
  have plain: "addrUnmap (IPv6 u []) = IPv6 u []" using assms by (simp add: addrUnmap_def)
  show ?thesis
    unfolding True policyAllows_def plain Let_def special_ranges(2) local_ranges(2) private_ranges(2) global multicast_ranges(2) unspecified_zero(2) allowed6_def
    by auto
qed (use assms in \<open>simp add: policyAllows_def addrUnmap_def\<close>)

text \<open>C18: For policies of the classes public, private and local the addresses let through are exactly these, as ranges of numbers: an address of IPv4 by \<open>allowed4\<close>; an address of IPv6 that maps one of IPv4 (::ffff:0:0/96) exactly when the mapped address is; any other by \<open>allowed6\<close>, and only without a zone. So a policy of public alone never reaches loopback, link-local, private, shared, test, translation, multicast or reserved addresses, in either form.\<close>

theorem egress_addresses_exact:
  "(policyAllows \<lparr>Pol_Prefixes = [], Pol_Public = public, Pol_Private = private, Pol_Local = local\<rparr> (IPv4 w)
      \<longleftrightarrow> allowed4 public private local (unat w))
   \<and> (policyAllows \<lparr>Pol_Prefixes = [], Pol_Public = public, Pol_Private = private, Pol_Local = local\<rparr> (IPv6 u z)
      \<longleftrightarrow> (if within (0xffff * 2 ^ 32) 32 (unat u) then allowed4 public private local (unat u mod 2 ^ 32)
           else z = [] \<and> allowed6 public private local (unat u)))"
proof -
  have mapped: "drop_bit 32 u = 0xffff \<longleftrightarrow> within (0xffff * 2 ^ 32) 32 (unat u)" unfolding dropped_within by simp
  have low: "unat (ucast u :: 32 word) = unat u mod 2 ^ 32" by (simp add: unsigned_ucast_eq take_bit_eq_mod)
  have four: "policyAllows p (IPv6 u z) = policyAllows p (IPv4 (ucast u))" if "drop_bit 32 u = 0xffff" for p
    using that by (simp add: policyAllows_def addrUnmap_def)
  show ?thesis
  proof (cases "drop_bit 32 u = 0xffff")
    case True
    then show ?thesis unfolding four[OF True] allows4 low using mapped by simp
  next
    case False
    then show ?thesis using mapped allows4 allows6[OF False] by simp
  qed
qed

section \<open>Demonstration\<close>

definition demoEgress :: egressEnv where
  "demoEgress = \<lparr>eg_parseAddr = (\<lambda>h. if h = ''93.184.216.34'' then Some (IPv4 0x5db8d822) else None),
     eg_parsePrefix = (\<lambda>_. None), eg_parseCIDR = (\<lambda>_. None), eg_addrSlice = (\<lambda>_. [93, 184, 216, 34]), eg_ipText = (\<lambda>_. ''93.184.216.34''),
     eg_lookup = (\<lambda>_. Inr [([93, 184, 216, 34], [])]), eg_classify = (\<lambda>_. Inr []), eg_ctxErr = None, eg_proxy = (\<lambda>_ _. Inr None)\<rparr>"

definition publicPolicy :: NetworkPolicy where
  "publicPolicy = \<lparr>Pol_Prefixes = [], Pol_Public = True, Pol_Private = False, Pol_Local = False\<rparr>"

definition demoServer :: egressServer where
  "demoServer = \<lparr>Srv_Policy = Some publicPolicy, Srv_ProxyResolves = False, Srv_DirectNets = []\<rparr>"

lemma demo_allowed: "answerAllowed publicPolicy ([93, 184, 216, 34], [])"
proof -
  have "word_rcat [93 :: 8 word, 184, 216, 34] = (0x5db8d822 :: 32 word)" by (simp add: word_rcat_def)
  then have "addrFromSlice [93, 184, 216, 34] = Some (IPv4 0x5db8d822)" by (simp add: addrFromSlice_def)
  moreover have "policyAllows publicPolicy (IPv4 0x5db8d822)"
    unfolding publicPolicy_def allows4 by (simp add: allowed4_def ranges_def within_def dotted_def)
  ultimately show ?thesis by (simp add: answerAllowed_def)
qed

theorem egress_pinned_witness:
  "handleConnect demoEgress demoServer ''example.com:5432'' [] = DialDirect ''93.184.216.34:5432''
   \<and> pinnedBy demoEgress publicPolicy ''example.com'' ''5432'' ''93.184.216.34:5432''"
proof -
  have valid: "validHostname ''example.com''" "splitHostPort ''example.com:5432'' = Some (''example.com'', ''5432'')" by code_simp+
  have port: "portNumber ''5432''" by (simp add: portNumber_def isDigit_def inRange_def decimal_def)
  have addresses: "hostAddresses demoEgress ''example.com'' = Inr [([93, 184, 216, 34], [])]"
    using valid(1) by (simp add: hostAddresses_def demoEgress_def)
  have "resolve demoEgress publicPolicy ''example.com'' ''5432'' = Inr ''93.184.216.34:5432''"
    using addresses port demo_allowed by (simp add: resolve_def joinHostPort_def) (simp add: demoEgress_def)
  then have run: "handleConnect demoEgress demoServer ''example.com:5432'' [] = DialDirect ''93.184.216.34:5432''"
    using valid(2) by (simp add: handleConnect_def connectTarget_def resolveRoute_def demoServer_def demoEgress_def publicPolicy_def)
  have "Srv_Policy demoServer = Some publicPolicy" by (simp add: demoServer_def)
  from egress_pinned[OF this] have "\<exists>host port. splitHostPort ''example.com:5432'' = Some (host, port)
    \<and> pinnedBy demoEgress publicPolicy host port ''93.184.216.34:5432''" using run by blast
  then show ?thesis using run valid(2) by simp
qed

text \<open>An administrator's prefix in mapped form is kept as one of IPv6 and matches no address, unlike a single mapped address.\<close>

lemma mapped_prefix_matches_nothing:
  assumes "drop_bit 32 v = 0xffff" "96 \<le> n" "n \<le> 128"
  shows "\<not> prefixContains (p6 v n) (addrUnmap a)"
proof (cases "addrUnmap a")
  case (IPv6 u z)
  then have u: "drop_bit 32 u \<noteq> 0xffff" by (auto simp: addrUnmap_def split: Addr.splits if_splits)
  have "drop_bit 32 u = 0xffff" if "drop_bit (128 - n) u = drop_bit (128 - n) v"
  proof -
    have split: "drop_bit 32 x = drop_bit (n - 96) (drop_bit (128 - n) x)" for x :: "128 word"
      using assms(2,3) by (simp only: drop_bit_drop_bit) simp
    show ?thesis using assms(1) that by (simp only: split)
  qed
  then show ?thesis unfolding IPv6 using u by (simp only: prefixContains_def Prefix.simps Addr.case prod.case xor_dropped) blast
qed (simp_all add: prefixContains_def)

end
