(* ===== verification/Spec2Isabelle.thy ===== *)
theory Spec2Isabelle
  imports Go_Prelude Model_Identity Execution_Properties Store_Properties Dispatch_Properties
    Hostnames Cron Traffic Asset_Routing Platform_Policy Deploy_Input Deploy_Consistency Vars_Updates KV_Quota OAuth_Properties Identity_Properties Object_Properties SQL_Policy Egress_Policy
begin

text \<open>
  This library models the core of Nanoflare, a self-hosted Workers platform written in Go (all paths below
  are under \<open>src/internal\<close>; \<open>nanoflare/service.go\<close> is written \<open>service.go\<close>, and so on).

  \<^bold>\<open>The program.\<close> Nanoflare is a control plane and the authority of a runtime. Users belong to organizations,
  organizations own workers (apps), dispatch namespaces and storage resources. A worker has deployments; a
  publication makes a deployment, or a split of the traffic between deployments, live by writing a
  configuration for the runtime and then switching the routes in the repository. Requests of the running
  workers come back with credentials: capabilities minted for one resource of one revision, handles of the
  execution registry, tokens of dispatched invocations, root keys. The repository is either a
  database or the in-memory \<open>Store\<close> of \<open>store.go\<close>; the model is of the latter, which is the reference
  implementation of the interface \<open>Repository\<close>.

  \<^bold>\<open>Conventions.\<close> A Go map is an association list with distinct keys (\<open>gomap\<close> in \<open>Go_Prelude\<close>), so a \<open>range\<close> loop
  visits some order and theorems hold for all of them. Strings are lists of bytes. Integers of type \<open>int\<close> and
  \<open>int64\<close> are \<open>int\<close> where the code cannot overflow them and words where wrapping matters (traffic hashes, cron
  fields, addresses). Times are nanoseconds since the zero time. A fallible function returns
  \<open>error + 'a\<close>; sentinel errors keep their texts. One record per struct, with a short prefix on its fields;
  \<open>X0\<close> is the zero value of the struct \<open>X\<close>. A name that the source uses twice has a suffix: \<open>_svc\<close> is the
  method of \<open>Service\<close> over the method of the store with the same name, \<open>get...\<close> a reader of the store whose
  name is also a record's.

  \<^bold>\<open>Vocabulary.\<close> \<open>Go_Prelude\<close> (maps, loops, collections of facts), \<open>Go_Errors\<close> (errors and results), \<open>Go_Strings\<close>,
  \<open>Go_Text\<close>, \<open>Go_Path\<close>, \<open>Go_Time\<close> (the standard library the program uses: trimming, case, UTF-8, base64,
  splitting, paths, calendar and decimal arithmetic), \<open>Model_Core\<close> and \<open>Model_Identity\<close> (the structs of
  \<open>model.go\<close>, \<open>platform.go\<close>, \<open>artifact.go\<close>, \<open>oauth.go\<close>, \<open>partner.go\<close>), \<open>Access_Policy\<close> (roles, scopes and usage limits of
  \<open>access.go\<close>, \<open>limits.go\<close>).

  \<^bold>\<open>The repository\<close> (\<open>store.go\<close>, \<open>platform_store.go\<close>, \<open>artifact_store.go\<close>, \<open>asset_upload_store.go\<close>, \<open>vars_store.go\<close>,
  \<open>namespace_delete.go\<close>). \<open>Store_State\<close> is the record of its maps; \<open>Store_Identity\<close>, \<open>Store_OAuth\<close>, \<open>Store_Apps\<close>,
  \<open>Store_Deployments\<close>, \<open>Store_Resources\<close>, \<open>Store_KV\<close> have one function per method. \<open>Store_Steps\<close> makes them a
  transition system (\<open>store_step\<close>, \<open>reachable\<close>); \<open>Store_Invariants\<close>, \<open>Store_Routing\<close>, \<open>Store_Accounting\<close>, \<open>Store_Paging\<close>
  and \<open>Store_Operations\<close> prove what every reachable store satisfies (indexes agree with tables, no reference
  dangles, bound resources stay, KV bytes are charged exactly, routes lead to stored deployments) and what
  single operations promise; \<open>Store_Properties\<close> states the properties.

  \<^bold>\<open>Execution authority\<close> (\<open>execution.go\<close>, \<open>resource_grants.go\<close>). \<open>Execution_Registry\<close> keeps the pointers of the code:
  revisions are cells of a heap, tables and tokens point at them. \<open>Execution_Safety\<close> is the invariant of the
  registry, \<open>Execution_Runs\<close> its transition system with clients, \<open>Execution_Properties\<close> the properties: reference
  counts are exact, a revoked revision never admits again, a handle keeps the grants it was given.

  \<^bold>\<open>Dynamic dispatch\<close> (\<open>dispatch.go\<close>, \<open>dispatch_root.go\<close>, \<open>dispatch_observation.go\<close>). \<open>Dispatch_State\<close> holds leases,
  ingress roots, contexts and counters with one function per critical section; \<open>Dispatch_Trees\<close> the two walks
  over the invocation tree (they return with as many steps as there are leases); \<open>Dispatch_Runs\<close> interleaves
  the sections (a service dispatch has two: the admission uses what was answered about the parent in an
  earlier one), \<open>Dispatch_Invariants\<close>, \<open>Dispatch_Budgets\<close>, \<open>Dispatch_Contexts\<close> their invariants, \<open>Dispatch_Properties\<close>
  the properties: deadlines nest, caps and budgets hold, cancelling reaches everything below.
  \<open>Dispatch_Service\<close> are the methods around the sections.

  \<^bold>\<open>Names, schedules, traffic, assets, requests.\<close> \<open>Hostnames\<close> (normalised and generated host names), \<open>Cron\<close> (\<open>cron.go\<close>),
  \<open>Traffic\<close> (selection by weight), \<open>Asset_Routing\<close> (worker-first routes, asset lookup, object keys), \<open>Deploy_Input\<close>
  (validation of a deployment request), \<open>Resource_Service\<close> (workers and storage resources in \<open>service.go\<close>),
  \<open>Platform_Policy\<close> (namespaces, grants and bindings of \<open>platform.go\<close>).

  \<^bold>\<open>Services over several stores.\<close> From \<open>Service_World\<close> on, a method is an action: it reads the environment
  (clock, random tokens, codecs, faults) and takes a world (repository, object store, live configuration,
  caches, execution registry, dispatch) to a result and a world. Every call that leaves the process can be
  refused or answered with an error after it took effect, at the number of the call that the environment
  chooses, so a theorem about all environments covers a crash at every point. \<open>Artifacts\<close> (\<open>artifact.go\<close>),
  \<open>Management\<close> (\<open>management.go\<close>, \<open>management_native.go\<close>), \<open>Publication_Stages\<close> (\<open>publication.go\<close>,
  \<open>worker_publication.go\<close>), \<open>Deployment_Service\<close> and \<open>Worker_Service\<close> (\<open>service.go\<close>), \<open>Vars_Updates\<close> (\<open>vars.go\<close>);
  \<open>Publication_Consistency\<close> and \<open>Deploy_Consistency\<close> prove that stage and routes agree wherever an attempt is cut
  short and that a finished deployment is replayed without effect. \<open>Runtime_Authority\<close> (\<open>runtime_capability.go\<close>,
  \<open>runtime_deployment.go\<close>) checks credentials; \<open>Authority_Properties\<close> and \<open>Capability_Exact\<close> say what stands
  behind an accepted one (a chain of live invocations down to a running revision's capability or a live
  execution) and for exactly what a capability is accepted; \<open>Authority_Frame\<close> is the locale of the parts of the world that checking leaves
  alone. \<open>KV_Service\<close> and \<open>KV_Quota\<close> (key-value data and its limit), \<open>Object_Service\<close> and \<open>Object_Properties\<close> (objects of
  buckets, \<open>object_context.go\<close>, names in \<open>objects/minio.go\<close>), \<open>Auth_Service\<close> and \<open>Identity_Properties\<close> (\<open>auth.go\<close>,
  \<open>pat.go\<close>), \<open>OAuth_Service\<close>, \<open>OAuth_Runs\<close> and \<open>OAuth_Properties\<close> (\<open>oauth.go\<close>, \<open>partner.go\<close>, the token endpoint of
  \<open>api/server_oauth.go\<close>). \<open>Action_Runs\<close> has the proof rules for actions: successful runs, and triples that also
  say what a failed run leaves.
  \<^bold>\<open>Gates.\<close> \<open>SQL_Policy\<close> (\<open>sql_policy.go\<close>) decides which queries reach a database, and is proved equal to a declarative
  reading of SQL text. \<open>Egress_Policy\<close> (\<open>egress/policy.go\<close>, the routes of \<open>egress/egress.go\<close>) decides which addresses
  outbound requests reach, on words of 32 and 128 bits.

  \<^bold>\<open>Bounds and fuel.\<close> Loops are structural or have a measure. The walks of dispatch take the number of leases as
  fuel, and \<open>dispatch_finish_returns\<close> proves that it suffices; the chain of invocation tokens takes one step
  more than there are leases, and \<open>authorization_returns\<close> proves that an answer is always reached. A cron
  schedule is searched over the minutes that the code bounds it to.

  \<^bold>\<open>Parameters.\<close> SHA-256, HMAC, AES-GCM, bcrypt, random tokens, JSON, URLs, the runtime's configuration writer and
  validator, runner liveness, the resolver and the parsing of addresses are functions of the environment.
  Hypotheses on them are named where a theorem needs them: that a decoder inverts its encoder, that new
  tokens were not issued before, that random identifiers have no space around them.

  \<^bold>\<open>Limits of the model.\<close> Methods of \<open>Service\<close> run one at a time: the interleavings of their store calls are not
  modelled (some findings in the manifest come from reading them), while the critical sections of the
  execution registry and of dispatch do interleave. Letters outside ASCII keep their case, except the four
  whose other case is in ASCII. Error messages that embed other values keep their fixed part only.

  \<^bold>\<open>Not modelled.\<close> The SQL repositories and the SQLite runtime (\<open>database\<close>), HTTP handlers (\<open>api\<close>, but for the token
  endpoint), the command line (\<open>cli\<close>), process management (\<open>runtime\<close>, \<open>runner\<close>), the configuration writer
  (\<open>config\<close>), OIDC verification (\<open>oidc\<close>), DNS (\<open>dnsresolver\<close>), metrics and logs (\<open>metrics\<close>, \<open>logs\<close>, \<open>telemetry.go\<close>), the
  Cloudflare-compatible surface (\<open>cfcompat\<close>): they are I/O, translation between wire formats, or processes outside
  the reach of a functional model. In \<open>service.go\<close> the listings for the console, secrets of native workers, asset uploads, managed deployments, database calls and output queries are left out.
\<close>

end
